(* ===== verification/Prelude.thy ===== *)
theory Prelude
  imports Main "HOL-Library.Char_ord" "HOL-Library.List_Lexorder" "HOL-Library.Sublist"
begin

text \<open>
  Shared vocabulary of the development: the outcome of a C++ call (a value, a thrown
  exception, undefined behaviour), the parts of \<open>std::string\<close> and \<open>std::vector\<close> the
  program uses, and the generic lemmas about them that the component theories rest on.
\<close>

named_theorems res_simps \<open>unfolding of the outcome combinators\<close>

section \<open>Outcomes of a C++ call\<close>

text \<open>
  \<open>catch (exception&)\<close> handles \<open>Throw\<close> and nothing else: \<open>Undef\<close> (an out-of-range
  \<open>operator[]\<close>, a dereferenced end iterator) passes through every handler.
\<close>

datatype exn = Out_of_range | Invalid_argument | Bad_json | Logic_error

datatype 'a res = Ok 'a | Throw exn | Undef

fun bind_res :: "'a res \<Rightarrow> ('a \<Rightarrow> 'b res) \<Rightarrow> 'b res" where
  "bind_res (Ok x) f = f x"
| "bind_res (Throw e) f = Throw e"
| "bind_res Undef f = Undef"

fun map_res :: "('a \<Rightarrow> 'b) \<Rightarrow> 'a res \<Rightarrow> 'b res" where
  "map_res f (Ok x) = Ok (f x)"
| "map_res f (Throw e) = Throw e"
| "map_res f Undef = Undef"

fun catch_res :: "'a res \<Rightarrow> (exn \<Rightarrow> 'a res) \<Rightarrow> 'a res" where
  "catch_res (Ok x) h = Ok x"
| "catch_res (Throw e) h = h e"
| "catch_res Undef h = Undef"

definition is_ok :: "'a res \<Rightarrow> bool" where
  "is_ok r = (case r of Ok _ \<Rightarrow> True | _ \<Rightarrow> False)"

lemma bind_res_Ok_iff: "bind_res r f = Ok y \<longleftrightarrow> (\<exists>x. r = Ok x \<and> f x = Ok y)"
  by (cases r) auto

lemma bind_res_Throw_iff:
  "bind_res r f = Throw e \<longleftrightarrow> r = Throw e \<or> (\<exists>x. r = Ok x \<and> f x = Throw e)"
  by (cases r) auto

lemma bind_res_Undef_iff:
  "bind_res r f = Undef \<longleftrightarrow> r = Undef \<or> (\<exists>x. r = Ok x \<and> f x = Undef)"
  by (cases r) auto

lemma map_res_Ok_iff: "map_res f r = Ok y \<longleftrightarrow> (\<exists>x. r = Ok x \<and> y = f x)"
  by (cases r) auto

lemma map_res_Throw_iff: "map_res f r = Throw e \<longleftrightarrow> r = Throw e"
  by (cases r) auto

lemma map_res_Undef_iff: "map_res f r = Undef \<longleftrightarrow> r = Undef"
  by (cases r) auto

lemma is_ok_simps [simp]:
  "is_ok (Ok x)" "\<not> is_ok (Throw e)" "\<not> is_ok Undef"
  by (simp_all add: is_ok_def)

lemmas res_iffs = bind_res_Ok_iff bind_res_Throw_iff bind_res_Undef_iff map_res_Ok_iff
  map_res_Throw_iff map_res_Undef_iff

text \<open>A call made for each element in turn; the first failure stops the loop.\<close>

fun mapM_res :: "('a \<Rightarrow> 'b res) \<Rightarrow> 'a list \<Rightarrow> 'b list res" where
  "mapM_res f [] = Ok []"
| "mapM_res f (x # xs) = bind_res (f x) (\<lambda>y. map_res ((#) y) (mapM_res f xs))"

lemma mapM_res_all_Ok: "(\<And>x. x \<in> set xs \<Longrightarrow> f x = Ok (g x)) \<Longrightarrow> mapM_res f xs = Ok (map g xs)"
  by (induction xs) auto

text \<open>A step of a handler that may throw, in front of the rest of the handler.\<close>

definition rbind :: "'a res \<times> 's \<Rightarrow> ('a \<Rightarrow> 's \<Rightarrow> 'b res \<times> 's) \<Rightarrow> 'b res \<times> 's" where
  "rbind m f =
     (case m of
        (Ok x, s) \<Rightarrow> f x s
      | (Throw e, s) \<Rightarrow> (Throw e, s)
      | (Undef, s) \<Rightarrow> (Undef, s))"

lemma rbind_simps [simp]:
  "rbind (Ok x, s) f = f x s" "rbind (Throw e, s) f = (Throw e, s)" "rbind (Undef, s) f = (Undef, s)"
  by (simp_all add: rbind_def)

section \<open>Vectors\<close>

text \<open>\<open>v.at(i)\<close> throws out of range, \<open>v[i]\<close> is undefined there.\<close>

definition vec_at :: "'a list \<Rightarrow> nat \<Rightarrow> 'a res" where
  "vec_at xs i = (if i < length xs then Ok (xs ! i) else Throw Out_of_range)"

definition vec_idx :: "'a list \<Rightarrow> nat \<Rightarrow> 'a res" where
  "vec_idx xs i = (if i < length xs then Ok (xs ! i) else Undef)"

lemma vec_at_in [simp]: "i < length xs \<Longrightarrow> vec_at xs i = Ok (xs ! i)"
  by (simp add: vec_at_def)

lemma vec_idx_in [simp]: "i < length xs \<Longrightarrow> vec_idx xs i = Ok (xs ! i)"
  by (simp add: vec_idx_def)

lemma vec_at_Ok_iff: "vec_at xs i = Ok x \<longleftrightarrow> i < length xs \<and> xs ! i = x"
  by (auto simp: vec_at_def)

lemma vec_idx_Ok_iff: "vec_idx xs i = Ok x \<longleftrightarrow> i < length xs \<and> xs ! i = x"
  by (auto simp: vec_idx_def)

lemma vec_idx_simps [simp]:
  "vec_idx [] n = Undef" "vec_idx (x # xs) 0 = Ok x" "vec_idx (x # xs) (Suc n) = vec_idx xs n"
  "vec_idx (x # xs) 1 = vec_idx xs 0" "vec_idx (x # xs) (numeral k) = vec_idx xs (pred_numeral k)"
  by (auto simp: vec_idx_def nth_Cons_numeral numeral_eq_Suc)

text \<open>\<open>v[i] = x\<close>.\<close>

definition vec_put :: "'a list \<Rightarrow> nat \<Rightarrow> 'a \<Rightarrow> 'a list res" where
  "vec_put xs i x = (if i < length xs then Ok (xs[i := x]) else Undef)"

lemma vec_put_in [simp]: "i < length xs \<Longrightarrow> vec_put xs i x = Ok (xs[i := x])"
  by (simp add: vec_put_def)

lemma vec_put_Ok_iff: "vec_put xs i x = Ok ys \<longleftrightarrow> i < length xs \<and> ys = xs[i := x]"
  by (auto simp: vec_put_def)

lemma drop_put: "i < length xs \<Longrightarrow> drop i (xs[i := x]) = x # drop (Suc i) xs"
  by (simp flip: Cons_nth_drop_Suc [of i "xs[i := x]"])

text \<open>The linear search every handler uses: the position of the first hit, or the length.\<close>

fun search_pos :: "('a \<Rightarrow> bool) \<Rightarrow> 'a list \<Rightarrow> nat" where
  "search_pos p [] = 0"
| "search_pos p (x # xs) = (if p x then 0 else Suc (search_pos p xs))"

lemma search_pos_le: "search_pos p xs \<le> length xs"
  by (induction xs) auto

lemma search_pos_less_iff: "search_pos p xs < length xs \<longleftrightarrow> (\<exists>x \<in> set xs. p x)"
  by (induction xs) auto

lemma search_pos_hit: "search_pos p xs < length xs \<Longrightarrow> p (xs ! search_pos p xs)"
  by (induction xs) auto

lemma search_pos_first: "i < search_pos p xs \<Longrightarrow> \<not> p (xs ! i)"
proof (induction xs arbitrary: i)
  case Nil
  then show ?case by simp
next
  case (Cons x xs)
  then show ?case by (cases i) (auto split: if_splits)
qed

lemma search_pos_eqI:
  "i < length xs \<Longrightarrow> p (xs ! i) \<Longrightarrow> (\<And>j. j < i \<Longrightarrow> \<not> p (xs ! j)) \<Longrightarrow> search_pos p xs = i"
  by (metis linorder_neqE_nat nth_mem search_pos_first search_pos_hit search_pos_less_iff)

section \<open>Strings\<close>

text \<open>\<open>None\<close> is \<open>std::string::npos\<close>.\<close>

fun str_find :: "'a list \<Rightarrow> 'a list \<Rightarrow> nat option" where
  "str_find [] p = (if p = [] then Some 0 else None)"
| "str_find (c # cs) p =
     (if prefix p (c # cs) then Some 0 else map_option Suc (str_find cs p))"

definition str_contains :: "'a list \<Rightarrow> 'a list \<Rightarrow> bool" where
  "str_contains s p \<longleftrightarrow> str_find s p \<noteq> None"

definition dquote :: char where "dquote = CHR 0x22"

definition quoted :: "string \<Rightarrow> string" where
  "quoted s = dquote # s @ [dquote]"

text \<open>\<open>remove_copy(s.begin(), s.end(), back_inserter(t), '"')\<close>.\<close>

definition strip_quotes :: "string \<Rightarrow> string" where
  "strip_quotes s = filter (\<lambda>c. c \<noteq> dquote) s"

text \<open>\<open>s.substr(pos)\<close> and \<open>s.substr(pos, n)\<close> throw when \<open>pos\<close> is past the end.\<close>

definition str_substr :: "string \<Rightarrow> nat \<Rightarrow> nat option \<Rightarrow> string res" where
  "str_substr s pos n =
     (if length s < pos then Throw Out_of_range
      else Ok (case n of None \<Rightarrow> drop pos s | Some k \<Rightarrow> take k (drop pos s)))"

lemma str_find_contains_iff: "str_find s p \<noteq> None \<longleftrightarrow> sublist p s"
proof (induction s)
  case Nil
  then show ?case by auto
next
  case (Cons c s)
  have "str_find (c # s) p \<noteq> None \<longleftrightarrow> prefix p (c # s) \<or> str_find s p \<noteq> None"
    by simp
  then show ?case unfolding sublist_Cons_right Cons.IH .
qed

lemma str_contains_sublist: "str_contains s p \<longleftrightarrow> sublist p s"
  unfolding str_contains_def by (rule str_find_contains_iff)

lemma str_find_Some:
  "str_find s p = Some i \<Longrightarrow> i + length p \<le> length s \<and> take (length p) (drop i s) = p"
proof (induction s arbitrary: i)
  case Nil
  then show ?case by (auto split: if_splits)
next
  case (Cons c s)
  show ?case
  proof (cases "prefix p (c # s)")
    case True
    with Cons.prems have "i = 0" by simp
    moreover from True have "take (length p) (c # s) = p"
      by (auto simp: prefix_def)
    moreover from True have "length p \<le> length (c # s)"
      by (rule prefix_length_le)
    ultimately show ?thesis by simp
  next
    case False
    with Cons.prems obtain j where "str_find s p = Some j" and "i = Suc j" by auto
    with Cons.IH show ?thesis by fastforce
  qed
qed

lemma length_quoted [simp]: "length (quoted s) = length s + 2"
  by (simp add: quoted_def)

lemma quoted_inject [simp]: "quoted s = quoted t \<longleftrightarrow> s = t"
  by (simp add: quoted_def)

lemma strip_quotes_append [simp]: "strip_quotes (s @ t) = strip_quotes s @ strip_quotes t"
  by (simp add: strip_quotes_def)

lemma strip_quotes_id: "dquote \<notin> set s \<Longrightarrow> strip_quotes s = s"
  by (auto simp: strip_quotes_def filter_id_conv)

lemma strip_quotes_quoted: "dquote \<notin> set s \<Longrightarrow> strip_quotes (quoted s) = s"
  by (auto simp: strip_quotes_def quoted_def filter_id_conv)

lemma dquote_notin_strip_quotes [simp]: "dquote \<notin> set (strip_quotes s)"
  by (simp add: strip_quotes_def)

subsection \<open>Decimal numbers\<close>

definition digit_char :: "nat \<Rightarrow> char" where
  "digit_char d = char_of (48 + d)"

definition is_digit :: "char \<Rightarrow> bool" where
  "is_digit c \<longleftrightarrow> 48 \<le> (of_char c :: nat) \<and> (of_char c :: nat) \<le> 57"

definition digit_val :: "char \<Rightarrow> nat" where
  "digit_val c = of_char c - 48"

fun nat_to_string :: "nat \<Rightarrow> string" where
  "nat_to_string n =
     (if n < 10 then [digit_char n]
      else nat_to_string (n div 10) @ [digit_char (n mod 10)])"

declare nat_to_string.simps [simp del]

definition to_string :: "int \<Rightarrow> string" where
  "to_string i = (if i < 0 then CHR ''-'' # nat_to_string (nat (- i)) else nat_to_string (nat i))"

definition is_space :: "char \<Rightarrow> bool" where
  "is_space c \<longleftrightarrow> of_char c \<in> {9, 10, 11, 12, 13, 32 :: nat}"

definition dec_val :: "string \<Rightarrow> nat" where
  "dec_val s = foldl (\<lambda>a c. 10 * a + digit_val c) 0 s"

text \<open>
  \<open>std::stoi\<close>: leading white space, a sign, the longest run of digits.
\<close>

definition int_min :: int where "int_min = - (2 ^ 31)"
definition int_max :: int where "int_max = 2 ^ 31 - 1"

definition stoi :: "string \<Rightarrow> int res" where
  "stoi s =
     (let t = dropWhile is_space s;
          neg = (case t of c # _ \<Rightarrow> c = CHR ''-'' | [] \<Rightarrow> False);
          u = (case t of c # r \<Rightarrow> if c = CHR ''-'' \<or> c = CHR ''+'' then r else t | [] \<Rightarrow> []);
          ds = takeWhile is_digit u;
          v = (if neg then - int (dec_val ds) else int (dec_val ds))
      in if ds = [] then Throw Invalid_argument
         else if v < int_min \<or> int_max < v then Throw Out_of_range
         else Ok v)"

lemma digit_char_values:
  "digit_char 0 = CHR ''0''" "digit_char 1 = CHR ''1''" "digit_char 2 = CHR ''2''"
  "digit_char 3 = CHR ''3''" "digit_char 4 = CHR ''4''" "digit_char 5 = CHR ''5''"
  "digit_char 6 = CHR ''6''" "digit_char 7 = CHR ''7''" "digit_char 8 = CHR ''8''"
  "digit_char 9 = CHR ''9''"
  by code_simp+

lemma digit_char_props:
  "d < 10 \<Longrightarrow> is_digit (digit_char d) \<and> digit_val (digit_char d) = d"
  by (simp add: is_digit_def digit_char_def digit_val_def)

lemma nat_to_string_not_Nil [simp]: "nat_to_string n \<noteq> []"
  by (subst nat_to_string.simps) simp

lemma nat_to_string_digits: "\<forall>c \<in> set (nat_to_string n). is_digit c"
proof (induction n rule: nat_to_string.induct)
  case (1 n)
  then show ?case
    by (subst nat_to_string.simps) (auto simp: digit_char_props)
qed

lemma dec_val_snoc: "dec_val (s @ [c]) = 10 * dec_val s + digit_val c"
  by (simp add: dec_val_def)

lemma dec_val_nat_to_string [simp]: "dec_val (nat_to_string n) = n"
proof (induction n rule: nat_to_string.induct)
  case (1 n)
  show ?case
  proof (cases "n < 10")
    case True
    then show ?thesis
      by (subst nat_to_string.simps) (simp add: dec_val_def digit_char_props)
  next
    case False
    with "1.IH" show ?thesis
      by (subst nat_to_string.simps) (simp add: dec_val_snoc digit_char_props)
  qed
qed

lemma not_digit_minus: "\<not> is_digit (CHR ''-'')" "\<not> is_digit (CHR ''+'')"
  by (simp_all add: is_digit_def)

lemma digit_not_space: "is_digit c \<Longrightarrow> \<not> is_space c"
  by (auto simp: is_digit_def is_space_def)

lemma takeWhile_digits: "\<forall>c \<in> set s. is_digit c \<Longrightarrow> takeWhile is_digit s = s"
  by (induction s) auto

lemma takeWhile_nat_to_string [simp]:
  "takeWhile is_digit (nat_to_string n) = nat_to_string n"
  by (rule takeWhile_digits) (rule nat_to_string_digits)

lemma nat_to_string_Cons:
  obtains c cs where "nat_to_string n = c # cs" "is_digit c"
  by (metis list.set_intros(1) nat_to_string_digits nat_to_string_not_Nil neq_Nil_conv)

lemma nat_to_string_no_dquote: "dquote \<notin> set (nat_to_string n)"
  using nat_to_string_digits [of n] by (auto simp: dquote_def is_digit_def)

lemma to_string_no_dquote: "dquote \<notin> set (to_string i)"
  using nat_to_string_no_dquote by (auto simp: to_string_def dquote_def)

lemma stoi_to_string:
  assumes "int_min \<le> i" and "i \<le> int_max"
  shows "stoi (to_string i) = Ok i"
proof (cases "i < 0")
  case True
  with assms show ?thesis
    by (simp add: stoi_def to_string_def Let_def is_space_def)
next
  case False
  obtain c cs where c: "nat_to_string (nat i) = c # cs" "is_digit c"
    by (rule nat_to_string_Cons)
  have *: "c \<noteq> CHR ''-''" "c \<noteq> CHR ''+''" "\<not> is_space c"
    using c(2) not_digit_minus digit_not_space by auto
  have tw [simp]: "takeWhile is_digit cs = cs" "dec_val (c # cs) = nat i"
    using takeWhile_nat_to_string [of "nat i"] dec_val_nat_to_string [of "nat i"] c by simp_all
  with * c False assms show ?thesis
    by (simp add: stoi_def to_string_def Let_def)
qed

end
