(* ===== verification/LogFile.thy ===== *)
theory LogFile
  imports Prelude
begin

text \<open>
  \<open>GlobalModules/Log\<close>: the rotating log file and the buffer of the last messages. The
  file system maps a path to its contents; \<open>writable\<close> says which paths
  \<open>ofstream(path, ios::app)\<close> can open; the current date is an argument of the operations
  that read the clock.
\<close>

type_synonym filesystem = "string \<Rightarrow> string option"

record log_state =
  name_file :: string
  final_path :: string
  log_date :: string
  num_file :: int
  num_massive :: nat
  temporary_log :: "string list"
  log_way :: string
  root_directory :: string

definition FILE_LIMIT :: nat where "FILE_LIMIT = 204800"

text \<open>\<open>setFinalPath\<close>.\<close>

definition log_path :: "string \<Rightarrow> string \<Rightarrow> string \<Rightarrow> string \<Rightarrow> int \<Rightarrow> string" where
  "log_path root way name date num =
     root @ way @ name @ ''_('' @ date @ '')_'' @ to_string num @ ''.log''"

definition setFinalPath :: "log_state \<Rightarrow> log_state" where
  "setFinalPath l =
     l\<lparr>final_path := log_path (root_directory l) (log_way l) (name_file l) (log_date l) (num_file l)\<rparr>"

definition log_new :: "string \<Rightarrow> string \<Rightarrow> string \<Rightarrow> string \<Rightarrow> log_state" where
  "log_new today way root name =
     (setFinalPath
       \<lparr>name_file = name, final_path = '''', log_date = today, num_file = 1, num_massive = 2,
        temporary_log = ['''', '''', ''''], log_way = way, root_directory = root\<rparr>)"

definition log_entry :: "string \<Rightarrow> string \<Rightarrow> string \<Rightarrow> int \<Rightarrow> string" where
  "log_entry date clas message err =
     (let b = ''('' @ date @ '')_'' @ clas @ ''_'' @ dquote # message @ [dquote]
      in if err \<noteq> 0 then b @ ''_'' @ to_string err else b)"

definition checkFile :: "filesystem \<Rightarrow> log_state \<Rightarrow> bool" where
  "checkFile fs l = (fs (final_path l) \<noteq> None)"

definition getFileSize :: "filesystem \<Rightarrow> log_state \<Rightarrow> nat" where
  "getFileSize fs l = (case fs (final_path l) of Some s \<Rightarrow> length s | None \<Rightarrow> 0)"

definition writeLogToFile ::
  "(string \<Rightarrow> bool) \<Rightarrow> string \<Rightarrow> string \<Rightarrow> int \<Rightarrow> log_state \<Rightarrow> filesystem \<Rightarrow> filesystem" where
  "writeLogToFile writable clas message err l fs =
     (if writable (final_path l) then
        fs(final_path l \<mapsto>
             (case fs (final_path l) of Some s \<Rightarrow> s | None \<Rightarrow> []) @
             log_entry (log_date l) clas message err @ [CHR 0x0A])
      else fs)"

definition log_rotate :: "string \<Rightarrow> filesystem \<Rightarrow> log_state \<Rightarrow> log_state" where
  "log_rotate today fs l =
     (if FILE_LIMIT \<le> getFileSize fs l then
        (if log_date l = today then setFinalPath (l\<lparr>num_file := num_file l + 1\<rparr>)
         else setFinalPath (l\<lparr>log_date := today, num_file := 1\<rparr>))
      else if today \<noteq> log_date l then setFinalPath (l\<lparr>log_date := today, num_file := 1\<rparr>)
      else setFinalPath l)"

definition writeLog ::
  "(string \<Rightarrow> bool) \<Rightarrow> string \<Rightarrow> int \<Rightarrow> string \<Rightarrow> string \<Rightarrow> log_state \<times> filesystem \<Rightarrow> log_state \<times> filesystem" where
  "writeLog writable today err clas message = (\<lambda>(l, fs).
     (if \<not> checkFile fs l then (l, writeLogToFile writable clas message err l fs)
      else (let l' = log_rotate today fs l in (l', writeLogToFile writable clas message err l' fs))))"

text \<open>
  \<open>writeTempLog\<close>: three slots and a counter that runs 2, 1, 0. Each round of three
  writes shifts the slots twice; the first write of a round overwrites the last slot.
\<close>

definition writeTempLog :: "int \<Rightarrow> string \<Rightarrow> string \<Rightarrow> log_state \<Rightarrow> log_state" where
  "writeTempLog err clas message l =
     (let b = log_entry (log_date l) clas message err; t = temporary_log l in
      if num_massive l = 2 then
        l\<lparr>temporary_log := t[2 := b], num_massive := 1\<rparr>
      else if num_massive l = 1 then
        l\<lparr>temporary_log := (t[1 := t ! 2])[2 := b], num_massive := 0\<rparr>
      else if num_massive l = 0 then
        (let t' = (t[0 := t ! 1]) in
         l\<lparr>temporary_log := (t'[1 := t' ! 2])[2 := b], num_massive := 2\<rparr>)
      else l)"

definition temp_inv :: "log_state \<Rightarrow> bool" where
  "temp_inv l \<longleftrightarrow> length (temporary_log l) = 3 \<and> num_massive l \<le> 2"

lemma temp_inv_new: "temp_inv (log_new today way root name)"
  by (simp add: temp_inv_def log_new_def setFinalPath_def)

lemma temp_inv_write: "temp_inv l \<Longrightarrow> temp_inv (writeTempLog err clas message l)"
  by (simp add: temp_inv_def writeTempLog_def Let_def)

lemma writeTempLog_date [simp]: "log_date (writeTempLog err clas message l) = log_date l"
  by (simp add: writeTempLog_def Let_def)

lemma length_3_cases: "length t = 3 \<Longrightarrow> \<exists>x y z. t = [x, y, z]"
  by (auto simp: numeral_3_eq_3 length_Suc_conv)

lemma temp_inv_slots:
  assumes "temp_inv l"
  obtains x y z where "temporary_log l = [x, y, z]"
  using assms length_3_cases [of "temporary_log l"] unfolding temp_inv_def by blast

text \<open>The slots and counter after one write, by the counter.\<close>

definition temp_step :: "string \<Rightarrow> nat \<times> string list \<Rightarrow> nat \<times> string list" where
  "temp_step b = (\<lambda>(n, t). case t of
       [x, y, z] \<Rightarrow> if n = 2 then (1, [x, y, b]) else if n = 1 then (0, [x, z, b]) else (2, [y, z, b])
     | _ \<Rightarrow> (n, t))"

lemma writeTempLog_step:
  assumes "temp_inv l"
  shows "(num_massive (writeTempLog err clas message l), temporary_log (writeTempLog err clas message l)) =
           temp_step (log_entry (log_date l) clas message err) (num_massive l, temporary_log l)"
proof -
  obtain x y z where "temporary_log l = [x, y, z]"
    using assms by (rule temp_inv_slots)
  moreover have "num_massive l = 2 \<or> num_massive l = 1 \<or> num_massive l = 0"
    using assms by (auto simp: temp_inv_def)
  ultimately show ?thesis
    by (auto simp: writeTempLog_def temp_step_def Let_def numeral_2_eq_2)
qed

text \<open>A whole run of writes.\<close>

fun writeTempLogs :: "(int \<times> string \<times> string) list \<Rightarrow> log_state \<Rightarrow> log_state" where
  "writeTempLogs [] l = l"
| "writeTempLogs ((err, clas, message) # ms) l = writeTempLogs ms (writeTempLog err clas message l)"

definition entry_of :: "string \<Rightarrow> int \<times> string \<times> string \<Rightarrow> string" where
  "entry_of date m = (case m of (err, clas, message) \<Rightarrow> log_entry date clas message err)"

lemma writeTempLogs_steps:
  "temp_inv l \<Longrightarrow>
   (num_massive (writeTempLogs ms l), temporary_log (writeTempLogs ms l)) =
     fold temp_step (map (entry_of (log_date l)) ms) (num_massive l, temporary_log l)"
proof (induction ms arbitrary: l)
  case Nil
  then show ?case by simp
next
  case (Cons m ms)
  obtain err clas message where m: "m = (err, clas, message)" by (cases m)
  show ?case
    using Cons.IH [OF temp_inv_write [OF Cons.prems, of err clas message]]
      writeTempLog_step [OF Cons.prems, of err clas message]
    by (simp add: m entry_of_def)
qed

lemma fold_temp_step_round:
  "fold temp_step [a, b, c] (2, [x, y, z]) = (2, [a, b, c])"
  by (simp add: temp_step_def)

lemma fold_temp_step_rounds:
  "length bs = 3 * n \<Longrightarrow> n \<noteq> 0 \<Longrightarrow>
   fold temp_step bs (2, [x, y, z]) = (2, drop (length bs - 3) bs)"
proof (induction n arbitrary: bs x y z)
  case 0
  then show ?case by simp
next
  case (Suc n)
  from Suc.prems(1) obtain a b c bs' where bs: "bs = [a, b, c] @ bs'" and len: "length bs' = 3 * n"
    by (metis (no_types, lifting) add_diff_cancel_left' append_take_drop_id length_3_cases length_drop
        length_take le_add1 min.absorb2 mult_Suc_right)
  show ?case
  proof (cases "n = 0")
    case True
    with len bs show ?thesis using fold_temp_step_round [of a b c x y z] by simp
  next
    case False
    have "fold temp_step bs (2, [x, y, z]) = fold temp_step bs' (2, [a, b, c])"
      using fold_temp_step_round [of a b c x y z] by (simp add: bs)
    also have "\<dots> = (2, drop (length bs' - 3) bs')"
      by (rule Suc.IH [OF len False])
    also have "drop (length bs' - 3) bs' = drop (length bs - 3) bs"
      using False len by (auto simp: bs drop_Cons' numeral_3_eq_3)
    finally show ?thesis .
  qed
qed

section \<open>Properties\<close>

text \<open>
  After any whole number of rounds of three messages the buffer holds exactly the last
  three of them, oldest first, whatever it held before.
\<close>

theorem temp_log_last_three:
  assumes "temp_inv l" and "num_massive l = 2" and "length ms = 3 * n" and "n \<noteq> 0"
  shows "temporary_log (writeTempLogs ms l) =
           map (entry_of (log_date l)) (drop (length ms - 3) ms)"
proof -
  obtain x y z where "temporary_log l = [x, y, z]"
    using assms(1) by (rule temp_inv_slots)
  then have "fold temp_step (map (entry_of (log_date l)) ms) (num_massive l, temporary_log l) =
      (2, drop (length ms - 3) (map (entry_of (log_date l)) ms))"
    using fold_temp_step_rounds [of "map (entry_of (log_date l)) ms" n x y z] assms by simp
  with writeTempLogs_steps [OF assms(1), of ms] show ?thesis by (simp add: drop_map)
qed

theorem temp_log_last_three_witness:
  "temporary_log (writeTempLogs [(0, ''A'', ''m1''), (0, ''A'', ''m2''), (0, ''A'', ''m3'')]
       (log_new ''d'' '''' '''' ''n'')) =
     map (entry_of ''d'') [(0, ''A'', ''m1''), (0, ''A'', ''m2''), (0, ''A'', ''m3'')]"
  using temp_log_last_three [OF temp_inv_new, of "''d''" "''''" "''''" "''n''"
      "[(0, ''A'', ''m1''), (0, ''A'', ''m2''), (0, ''A'', ''m3'')]" 1]
  by (simp add: log_new_def setFinalPath_def)

text \<open>
  The message that follows a full round overwrites the newest entry instead of the
  oldest one: after four messages the third is no longer in the buffer, the first two are.
\<close>

theorem temp_log_fourth_overwrites:
  assumes "temp_inv l" and "num_massive l = 2"
  shows "temporary_log (writeTempLogs [m1, m2, m3, m4] l) =
           map (entry_of (log_date l)) [m1, m2, m4]"
proof -
  obtain x y z where "temporary_log l = [x, y, z]"
    using assms(1) by (rule temp_inv_slots)
  then show ?thesis
    using writeTempLogs_steps [OF assms(1), of "[m1, m2, m3, m4]"] assms(2)
    by (simp add: temp_step_def)
qed

theorem temp_log_fourth_overwrites_witness:
  "temporary_log (writeTempLogs [(0, ''A'', ''m1''), (0, ''A'', ''m2''), (0, ''A'', ''m3''), (1, ''A'', ''m4'')]
       (log_new ''d'' '''' '''' ''n'')) =
     map (entry_of ''d'') [(0, ''A'', ''m1''), (0, ''A'', ''m2''), (1, ''A'', ''m4'')]"
  using temp_log_fourth_overwrites [OF temp_inv_new [of "''d''" "''''" "''''" "''n''"],
      of "(0, ''A'', ''m1'')" "(0, ''A'', ''m2'')" "(0, ''A'', ''m3'')" "(1, ''A'', ''m4'')"]
  by (simp add: log_new_def setFinalPath_def del: writeTempLogs.simps)

subsection \<open>Rotation\<close>

lemma to_string_inj: "int_min \<le> i \<Longrightarrow> i \<le> int_max \<Longrightarrow> int_min \<le> j \<Longrightarrow> j \<le> int_max \<Longrightarrow>
   to_string i = to_string j \<Longrightarrow> i = j"
  by (metis res.inject(1) stoi_to_string)

definition log_inv :: "log_state \<Rightarrow> bool" where
  "log_inv l \<longleftrightarrow>
     final_path l = log_path (root_directory l) (log_way l) (name_file l) (log_date l) (num_file l) \<and>
     1 \<le> num_file l \<and> num_file l < int_max \<and> CHR '')'' \<notin> set (log_date l)"

lemma append_eq_at_mark:
  "c \<notin> set d \<Longrightarrow> c \<notin> set e \<Longrightarrow> d @ c # x = e @ c # y \<longleftrightarrow> d = e \<and> x = y"
proof (induction d arbitrary: e)
  case Nil
  then show ?case by (cases e) auto
next
  case (Cons a d)
  then show ?case by (cases e) auto
qed

lemma log_path_inj:
  assumes "CHR '')'' \<notin> set d" and "CHR '')'' \<notin> set e"
  shows "log_path r w n d i = log_path r w n e j \<longleftrightarrow> d = e \<and> to_string i = to_string j"
  using append_eq_at_mark [OF assms, of "CHR ''_'' # to_string i @ ''.log''"
      "CHR ''_'' # to_string j @ ''.log''"]
  by (simp add: log_path_def)

lemma rotate_leaves_full_file:
  assumes "log_inv l" and "CHR '')'' \<notin> set today" and "FILE_LIMIT \<le> getFileSize fs l"
  shows "final_path (log_rotate today fs l) \<noteq> final_path l"
  using assms to_string_inj [of "num_file l" "num_file l + 1"]
  by (auto simp: log_rotate_def setFinalPath_def log_inv_def log_path_inj int_min_def)

text \<open>
  A log file that has reached the size limit is never written again by the call that
  finds it full: \<open>writeLog\<close> moves to another file and leaves the full one as it is.
\<close>

theorem writeLog_keeps_full_file:
  assumes "log_inv l" and "CHR '')'' \<notin> set today"
    and "fs (final_path l) = Some content" and "FILE_LIMIT \<le> length content"
  shows "snd (writeLog writable today err clas message (l, fs)) (final_path l) = Some content"
proof -
  have "FILE_LIMIT \<le> getFileSize fs l" and "checkFile fs l"
    using assms(3,4) by (simp_all add: getFileSize_def checkFile_def)
  moreover from this(1) have "final_path l \<noteq> final_path (log_rotate today fs l)"
    by (rule rotate_leaves_full_file [OF assms(1,2), THEN not_sym])
  ultimately show ?thesis
    using assms(3) by (auto simp: writeLog_def Let_def writeLogToFile_def)
qed

theorem writeLog_keeps_full_file_witness:
  "snd (writeLog (\<lambda>_. True) ''02_01_2024'' 0 ''A'' ''m''
         (log_new ''01_01_2024'' ''Log/'' ''./'' ''n'',
          \<lambda>_. Some (replicate 204800 CHR ''x'')))
     (final_path (log_new ''01_01_2024'' ''Log/'' ''./'' ''n'')) = Some (replicate 204800 CHR ''x'')"
  by (rule writeLog_keeps_full_file)
    (simp_all add: log_inv_def log_new_def setFinalPath_def int_max_def FILE_LIMIT_def)

end
