(* ===== verification/StdMap.thy ===== *)
theory StdMap
  imports Prelude
begin

text \<open>
  \<open>std::map<std::string, T>\<close> as a list of pairs with strictly increasing keys: the code
  iterates over such maps in key order (\<open>fields.begin()\<close> to \<open>fields.end()\<close>), so the
  order is part of the model. The locale states what the components rely on.
\<close>

type_synonym 'v smap = "(string \<times> 'v) list"

fun smap_get :: "'v smap \<Rightarrow> string \<Rightarrow> 'v option" where
  "smap_get [] k = None"
| "smap_get ((k', v) # m) k = (if k = k' then Some v else smap_get m k)"

text \<open>\<open>m[k] = v\<close>.\<close>

fun smap_put :: "string \<Rightarrow> 'v \<Rightarrow> 'v smap \<Rightarrow> 'v smap" where
  "smap_put k v [] = [(k, v)]"
| "smap_put k v ((k', v') # m) =
     (if k < k' then (k, v) # (k', v') # m
      else if k = k' then (k, v) # m
      else (k', v') # smap_put k v m)"

text \<open>\<open>m.insert(pair)\<close> keeps the value of a key that is already there.\<close>

definition smap_insert :: "string \<Rightarrow> 'v \<Rightarrow> 'v smap \<Rightarrow> 'v smap" where
  "smap_insert k v m = (case smap_get m k of None \<Rightarrow> smap_put k v m | Some _ \<Rightarrow> m)"

text \<open>\<open>m.at(k)\<close> throws \<open>out_of_range\<close> for an absent key.\<close>

definition smap_at :: "'v smap \<Rightarrow> string \<Rightarrow> 'v res" where
  "smap_at m k = (case smap_get m k of None \<Rightarrow> Throw Out_of_range | Some v \<Rightarrow> Ok v)"

definition smap_inv :: "'v smap \<Rightarrow> bool" where
  "smap_inv m = sorted_wrt (<) (map fst m)"

lemma smap_inv_Nil [simp]: "smap_inv []"
  by (simp add: smap_inv_def)

lemma smap_inv_Cons [simp]:
  "smap_inv ((k, v) # m) \<longleftrightarrow> (\<forall>k' \<in> fst ` set m. k < k') \<and> smap_inv m"
  by (simp add: smap_inv_def)

lemma smap_get_map_of: "smap_get m k = map_of m k"
  by (induction m k rule: smap_get.induct) auto

lemma smap_get_put: "smap_get (smap_put k v m) = (smap_get m)(k \<mapsto> v)"
  by (induction k v m rule: smap_put.induct) (auto simp: fun_eq_iff)

lemma smap_get_put_same [simp]: "smap_get (smap_put k v m) k = Some v"
  by (simp add: smap_get_put)

lemma smap_get_put_other [simp]: "k' \<noteq> k \<Longrightarrow> smap_get (smap_put k v m) k' = smap_get m k'"
  by (simp add: smap_get_put)

lemma keys_smap_put: "fst ` set (smap_put k v m) = insert k (fst ` set m)"
  by (induction k v m rule: smap_put.induct) auto

lemma smap_inv_put: "smap_inv m \<Longrightarrow> smap_inv (smap_put k v m)"
proof (induction k v m rule: smap_put.induct)
  case (1 k v)
  then show ?case by simp
next
  case (2 k v k' v' m)
  then show ?case
    by (auto simp: keys_smap_put)
qed

lemma smap_get_None_iff: "smap_get m k = None \<longleftrightarrow> k \<notin> fst ` set m"
  by (induction m k rule: smap_get.induct) auto

lemma smap_ext:
  assumes "smap_inv m" and "smap_inv n" and "smap_get m = smap_get n"
  shows "m = n"
proof -
  have sd: "sorted (map fst m)" "sorted (map fst n)" "distinct (map fst m)" "distinct (map fst n)"
    using assms(1,2) by (simp_all add: smap_inv_def strict_sorted_iff)
  have "set m = {(k, v). map_of m k = Some v}" "set n = {(k, v). map_of n k = Some v}"
    using sd(3,4) by (auto simp: map_of_eq_Some_iff)
  moreover have "map_of m = map_of n"
    using assms(3) by (simp add: fun_eq_iff smap_get_map_of)
  ultimately have "set m = set n" by simp
  moreover from this have "inj_on fst (set m \<union> set n)"
    using sd(3) by (simp add: distinct_map)
  ultimately show ?thesis
    using sd by (metis map_sorted_distinct_set_unique)
qed

lemma smap_get_insert:
  "smap_get (smap_insert k v m) k' =
     (if k' = k then (case smap_get m k of None \<Rightarrow> Some v | Some w \<Rightarrow> Some w) else smap_get m k')"
  by (auto simp: smap_insert_def smap_get_put split: option.splits)

lemma smap_inv_insert: "smap_inv m \<Longrightarrow> smap_inv (smap_insert k v m)"
  by (simp add: smap_insert_def smap_inv_put split: option.splits)

lemma smap_at_Ok_iff: "smap_at m k = Ok v \<longleftrightarrow> smap_get m k = Some v"
  by (simp add: smap_at_def split: option.splits)

lemma smap_at_Throw_iff: "smap_at m k = Throw e \<longleftrightarrow> smap_get m k = None \<and> e = Out_of_range"
  by (auto simp: smap_at_def split: option.splits)

lemma smap_at_put_same [simp]: "smap_at (smap_put k v m) k = Ok v"
  by (simp add: smap_at_Ok_iff)

lemma smap_at_put_other [simp]: "k' \<noteq> k \<Longrightarrow> smap_at (smap_put k v m) k' = smap_at m k'"
  by (simp add: smap_at_def)

lemma smap_at_not_Undef [simp]: "smap_at m k \<noteq> Undef"
  by (simp add: smap_at_def split: option.splits)

section \<open>The interface\<close>

text \<open>
  What a component needs of a dictionary: an update is seen by the next lookup and by no
  other key, and well-formedness is kept. Filling a dictionary from a list of pairs is
  then the same for every provider.
\<close>

locale dictionary =
  fixes get :: "'m \<Rightarrow> 'k \<Rightarrow> 'v option"
    and put :: "'k \<Rightarrow> 'v \<Rightarrow> 'm \<Rightarrow> 'm"
    and inv :: "'m \<Rightarrow> bool"
    and emp :: "'m"
  assumes get_emp: "get emp k = None"
    and get_put: "inv m \<Longrightarrow> get (put k v m) k' = (if k' = k then Some v else get m k')"
    and inv_emp: "inv emp"
    and inv_put: "inv m \<Longrightarrow> inv (put k v m)"
begin

lemma inv_fill: "inv m \<Longrightarrow> inv (fold (\<lambda>(k, v). put k v) kvs m)"
  by (induction kvs arbitrary: m) (auto simp: inv_put)

lemma get_fill:
  "inv m \<Longrightarrow> get (fold (\<lambda>(k, v). put k v) kvs m) k =
     (case map_of (rev kvs) k of None \<Rightarrow> get m k | Some v \<Rightarrow> Some v)"
proof (induction kvs arbitrary: m)
  case Nil
  then show ?case by simp
next
  case (Cons kv kvs)
  obtain k' v' where kv: "kv = (k', v')" by (cases kv)
  from Cons kv show ?case
    by (auto simp: inv_put get_put map_add_def split: option.splits)
qed

lemma get_fill_emp: "get (fold (\<lambda>(k, v). put k v) kvs emp) k = map_of (rev kvs) k"
  by (simp add: get_fill inv_emp get_emp split: option.splits)

end

interpretation sm: dictionary smap_get smap_put smap_inv "[]"
  by unfold_locales (auto simp: smap_inv_put smap_get_put)

end
