(* ===== verification/Json.thy ===== *)
theory Json
  imports StdMap
begin

text \<open>
  The JSON document values the servers exchange, with the accessors of the value type
  that the program calls, and the message constructors of
  \<open>GlobalModules/JSONFormatter\<close>. Printing and parsing of JSON text is the library's:
  it stays a parameter of the components that need it.
\<close>

section \<open>JSON values\<close>

datatype json =
    JNull
  | JBool bool
  | JInt int
  | JReal string
  | JStr string
  | JArr "json list"
  | JObj "(string \<times> json) list"

text \<open>\<open>v.at(key)\<close>: throws when \<open>v\<close> is no object or has no such key.\<close>

definition json_at :: "json \<Rightarrow> string \<Rightarrow> json res" where
  "json_at v k =
     (case v of
        JObj m \<Rightarrow> (case map_of m k of None \<Rightarrow> Throw Out_of_range | Some w \<Rightarrow> Ok w)
      | _ \<Rightarrow> Throw Bad_json)"

fun json_path :: "json \<Rightarrow> string list \<Rightarrow> json res" where
  "json_path v [] = Ok v"
| "json_path v (k # ks) = bind_res (json_at v k) (\<lambda>w. json_path w ks)"

definition as_string :: "json \<Rightarrow> string res" where
  "as_string v = (case v of JStr s \<Rightarrow> Ok s | _ \<Rightarrow> Throw Bad_json)"

definition as_array :: "json \<Rightarrow> json list res" where
  "as_array v = (case v of JArr xs \<Rightarrow> Ok xs | _ \<Rightarrow> Throw Bad_json)"

definition as_object :: "json \<Rightarrow> (string \<times> json) list res" where
  "as_object v = (case v of JObj m \<Rightarrow> Ok m | _ \<Rightarrow> Throw Bad_json)"

definition as_int64 :: "json \<Rightarrow> int res" where
  "as_int64 v = (case v of JInt i \<Rightarrow> Ok i | _ \<Rightarrow> Throw Bad_json)"

text \<open>\<open>obj[key] = v\<close>: assignment in place, or a new last member.\<close>

fun jobj_put :: "string \<Rightarrow> json \<Rightarrow> (string \<times> json) list \<Rightarrow> (string \<times> json) list" where
  "jobj_put k v [] = [(k, v)]"
| "jobj_put k v ((k', w) # m) = (if k = k' then (k', v) # m else (k', w) # jobj_put k v m)"

lemma json_at_JObj [simp]:
  "json_at (JObj m) k = (case map_of m k of None \<Rightarrow> Throw Out_of_range | Some w \<Rightarrow> Ok w)"
  by (simp add: json_at_def)

lemma json_at_not_Undef [simp]: "json_at v k \<noteq> Undef"
  by (auto simp: json_at_def split: json.splits option.splits)

lemma json_path_not_Undef [simp]: "json_path v ks \<noteq> Undef"
  by (induction ks arbitrary: v) (auto simp: bind_res_Undef_iff)

lemma as_string_simps [simp]:
  "as_string (JStr s) = Ok s" "as_string (JObj m) = Throw Bad_json" "as_string v \<noteq> Undef"
  by (auto simp: as_string_def split: json.splits)

lemma as_array_simps [simp]: "as_array (JArr xs) = Ok xs" "as_array v \<noteq> Undef"
  by (auto simp: as_array_def split: json.splits)

lemma as_object_simps [simp]: "as_object (JObj m) = Ok m" "as_object v \<noteq> Undef"
  by (auto simp: as_object_def split: json.splits)

lemma as_string_Ok_iff: "as_string v = Ok s \<longleftrightarrow> v = JStr s"
  by (auto simp: as_string_def split: json.splits)

lemma as_array_Ok_iff: "as_array v = Ok xs \<longleftrightarrow> v = JArr xs"
  by (auto simp: as_array_def split: json.splits)

lemma mapM_as_string [simp]: "mapM_res as_string (map JStr ss) = Ok ss"
  by (induction ss) auto

lemma map_of_jobj_put: "map_of (jobj_put k v m) = (map_of m)(k \<mapsto> v)"
  by (induction k v m rule: jobj_put.induct) (auto simp: fun_eq_iff)

text \<open>A JSON object is a second provider of the dictionary interface.\<close>

interpretation jo: dictionary "map_of" jobj_put "\<lambda>_. True" "[]"
  by unfold_locales (auto simp: map_of_jobj_put)

section \<open>The message constructors\<close>

datatype error_code = CONNECT | DISCONNECT | TARGET

text \<open>A C++ enum variable may hold a value that is no enumerator.\<close>

datatype status_operation = Status_success | Status_fail | Status_other

datatype query_method = SELECT | Method_other

definition error_number :: "error_code \<Rightarrow> int" where
  "error_number e = (case e of CONNECT \<Rightarrow> 3 | DISCONNECT \<Rightarrow> 4 | TARGET \<Rightarrow> 5)"

subsection \<open>Worker requests\<close>

definition worker_request_ping :: "string \<Rightarrow> json" where
  "worker_request_ping sender = JObj [(''sender'', JStr sender), (''target'', JStr ''ping'')]"

definition worker_request_connect :: "string \<Rightarrow> string \<Rightarrow> json" where
  "worker_request_connect sender ident =
     JObj [(''sender'', JStr sender), (''target'', JStr ''connect''),
           (''request'', JObj [(''id'', JStr ident)])]"

definition worker_request_disconnect :: "string \<Rightarrow> json" where
  "worker_request_disconnect sender =
     JObj [(''sender'', JStr sender), (''target'', JStr ''disconnect'')]"

definition worker_request_marussia :: "string \<Rightarrow> string \<Rightarrow> json \<Rightarrow> json" where
  "worker_request_marussia sender station_id body =
     JObj [(''sender'', JStr sender),
           (''target'', JStr ''marussia_station_request''),
           (''request'', JObj [(''station_id'', JStr station_id), (''body'', body)])]"

definition worker_request_mqtt_move :: "string \<Rightarrow> string \<Rightarrow> string \<Rightarrow> int \<Rightarrow> json" where
  "worker_request_mqtt_move sender station_id lift_block_id floor =
     JObj [(''sender'', JStr sender),
           (''target'', JStr ''move_lift''),
           (''request'', JObj
              [(''station_id'', JStr station_id),
               (''mqtt_command'', JObj
                  [(''lb_id'', JStr lift_block_id),
                   (''value'', JStr (to_string floor))])])]"

subsection \<open>Worker responses\<close>

definition worker_response_ping :: "string \<Rightarrow> json" where
  "worker_response_ping sender =
     JObj [(''sender'', JStr sender), (''target'', JStr ''ping''),
           (''response'', JObj [(''status'', JStr ''success'')])]"

definition worker_response_connect :: "string \<Rightarrow> json" where
  "worker_response_connect sender =
     JObj [(''sender'', JStr sender), (''target'', JStr ''connect''),
           (''response'', JObj [(''status'', JStr ''success'')])]"

definition worker_response_disconnect :: "string \<Rightarrow> json" where
  "worker_response_disconnect sender =
     JObj [(''sender'', JStr sender), (''target'', JStr ''disconnect''),
           (''response'', JObj [(''status'', JStr ''success'')])]"

definition worker_response_errorTarget ::
  "string \<Rightarrow> json \<Rightarrow> error_code \<Rightarrow> string \<Rightarrow> json" where
  "worker_response_errorTarget sender target err_code err_message =
     JObj [(''sender'', JStr sender), (''target'', target),
           (''response'', JObj
              [(''status'', JStr ''fail''),
               (''error_code'', JStr (to_string (error_number err_code))),
               (''message'', JStr err_message)])]"

definition worker_response_connect_error ::
  "string \<Rightarrow> error_code \<Rightarrow> string \<Rightarrow> json" where
  "worker_response_connect_error sender err_code err_message =
     JObj [(''sender'', JStr sender), (''target'', JStr ''connect''),
           (''response'', JObj
              [(''status'', JStr ''fail''),
               (''error_code'', JStr (to_string (error_number err_code))),
               (''message'', JStr err_message)])]"

definition worker_response_disconnect_error ::
  "string \<Rightarrow> error_code \<Rightarrow> string \<Rightarrow> json" where
  "worker_response_disconnect_error sender err_code err_message =
     JObj [(''sender'', JStr sender), (''target'', JStr ''disconnect''),
           (''response'', JObj
              [(''status'', JStr ''fail''),
               (''error_code'', JStr (to_string (error_number err_code))),
               (''message'', JStr err_message)])]"

definition worker_response_static_message :: "string \<Rightarrow> string \<Rightarrow> json \<Rightarrow> json" where
  "worker_response_static_message sender station_id response_body =
     JObj [(''sender'', JStr sender), (''target'', JStr ''static_message''),
           (''response'', JObj
              [(''station_id'', JStr station_id), (''response_body'', response_body)])]"

definition worker_response_mqtt_message ::
  "string \<Rightarrow> string \<Rightarrow> json \<Rightarrow> string \<Rightarrow> int \<Rightarrow> json" where
  "worker_response_mqtt_message sender station_id response_body lift_block_id floor =
     JObj [(''sender'', JStr sender), (''target'', JStr ''move_lift''),
           (''response'', JObj
              [(''station_id'', JStr station_id), (''response_body'', response_body),
               (''mqtt_command'', JObj
                  [(''lb_id'', JStr lift_block_id),
                   (''value'', JStr (to_string floor))])])]"

definition worker_response_mqtt_lift_move ::
  "string \<Rightarrow> string \<Rightarrow> status_operation \<Rightarrow> string \<Rightarrow> json" where
  "worker_response_mqtt_lift_move sender station_id status err_message =
     (case status of
        Status_success \<Rightarrow>
          JObj [(''sender'', JStr sender), (''target'', JStr ''mqtt_message''),
                (''response'', JObj
                   [(''station_id'', JStr station_id), (''status'', JStr ''success'')])]
      | Status_fail \<Rightarrow>
          JObj [(''sender'', JStr sender), (''target'', JStr ''mqtt_message''),
                (''response'', JObj
                   [(''station_id'', JStr station_id), (''status'', JStr ''fail''),
                    (''message'', JStr err_message)])]
      | Status_other \<Rightarrow> JObj [])"

subsection \<open>Database requests and responses\<close>

definition database_request_ping :: "string \<Rightarrow> json" where
  "database_request_ping sender = JObj [(''sender'', JStr sender), (''target'', JStr ''ping'')]"

definition database_request_connect :: "string \<Rightarrow> string \<Rightarrow> string \<Rightarrow> json" where
  "database_request_connect sender login password =
     JObj [(''sender'', JStr sender), (''target'', JStr ''connect''),
           (''request'', JObj [(''login'', JStr login), (''password'', JStr password)])]"

definition database_request_disconnect :: "string \<Rightarrow> json" where
  "database_request_disconnect sender = worker_request_disconnect sender"

definition database_request_query ::
  "string \<Rightarrow> query_method \<Rightarrow> string list \<Rightarrow> string \<Rightarrow> json" where
  "database_request_query sender method fields query =
     (case method of
        SELECT \<Rightarrow>
          JObj [(''sender'', JStr sender), (''target'', JStr ''db_query''),
                (''request'', JObj
                   [(''method'', JStr ''select''),
                    (''fields'', JArr (map JStr fields)),
                    (''query'', JStr query)])]
      | Method_other \<Rightarrow> JObj [])"

definition database_response_errorTarget ::
  "string \<Rightarrow> json \<Rightarrow> error_code \<Rightarrow> string \<Rightarrow> json" where
  "database_response_errorTarget sender target err_code err_message =
     worker_response_errorTarget sender target err_code err_message"

definition database_response_ping :: "string \<Rightarrow> json" where
  "database_response_ping sender = worker_response_ping sender"

definition database_response_connect :: "string \<Rightarrow> json" where
  "database_response_connect sender = worker_response_connect sender"

definition database_response_disconnect :: "string \<Rightarrow> json" where
  "database_response_disconnect sender = worker_response_disconnect sender"

definition database_response_connect_error ::
  "string \<Rightarrow> error_code \<Rightarrow> string \<Rightarrow> json" where
  "database_response_connect_error sender err_code err_message =
     worker_response_connect_error sender err_code err_message"

definition database_response_disconnect_error ::
  "string \<Rightarrow> error_code \<Rightarrow> string \<Rightarrow> json" where
  "database_response_disconnect_error sender err_code err_message =
     worker_response_disconnect_error sender err_code err_message"

text \<open>
  The answer to a query is built member by member, over the columns in key order, after
  the \<open>method\<close> member.
\<close>

definition query_response_members :: "query_method \<Rightarrow> string list smap \<Rightarrow> (string \<times> json) list" where
  "query_response_members method fields =
     fold (\<lambda>(k, v). jobj_put k v) (map (\<lambda>(k, vs). (k, JArr (map JStr vs))) fields)
       (case method of SELECT \<Rightarrow> [(''method'', JStr ''select'')] | Method_other \<Rightarrow> [])"

definition database_response_query ::
  "string \<Rightarrow> query_method \<Rightarrow> string list smap \<Rightarrow> json" where
  "database_response_query sender method fields =
     JObj [(''sender'', JStr sender), (''target'', JStr ''db_query''),
           (''response'', JObj (query_response_members method fields))]"

section \<open>What a receiver reads back\<close>

definition target_of :: "json \<Rightarrow> json res" where
  "target_of v = json_at v ''target''"

named_theorems message_defs \<open>the message constructors\<close>

lemmas worker_message_defs [message_defs] =
  worker_request_ping_def worker_request_connect_def worker_request_disconnect_def
  worker_request_marussia_def worker_request_mqtt_move_def worker_response_ping_def
  worker_response_connect_def worker_response_disconnect_def worker_response_errorTarget_def
  worker_response_connect_error_def worker_response_disconnect_error_def
  worker_response_static_message_def worker_response_mqtt_message_def

lemmas database_message_defs [message_defs] =
  database_request_ping_def database_request_connect_def database_request_disconnect_def
  database_response_errorTarget_def database_response_ping_def database_response_connect_def
  database_response_disconnect_def database_response_connect_error_def
  database_response_disconnect_error_def database_response_query_def

lemma map_of_rev_distinct:
  assumes "distinct (map fst xs)"
  shows "map_of (rev xs) k = map_of xs k"
proof -
  have "map_of (rev xs) = map_of xs"
    by (rule map_of_eqI) (use assms in \<open>auto simp: map_of_eq_Some_iff rev_map [symmetric]\<close>)
  then show ?thesis by simp
qed

lemma map_of_query_members:
  assumes "smap_inv fields" and "k \<noteq> ''method''"
  shows "map_of (query_response_members SELECT fields) k =
           map_option (\<lambda>vs. JArr (map JStr vs)) (smap_get fields k)"
proof -
  have d: "distinct (map fst fields)"
    using assms(1) by (simp add: smap_inv_def strict_sorted_iff)
  let ?kvs = "map (\<lambda>(k, vs). (k, JArr (map JStr vs))) fields"
  have "map_of (rev ?kvs) k = map_of ?kvs k"
    by (rule map_of_rev_distinct) (use d in \<open>simp add: comp_def case_prod_beta\<close>)
  also have "\<dots> = map_option (\<lambda>vs. JArr (map JStr vs)) (smap_get fields k)"
    by (simp add: smap_get_map_of map_of_map)
  finally show ?thesis
    using assms(2) by (auto simp: query_response_members_def jo.get_fill split: option.splits)
qed

text \<open>
  The floor of a lift command survives the trip through its decimal string.
\<close>

lemma mqtt_move_value:
  "json_path (worker_request_mqtt_move sender st lb floor) [''request'', ''mqtt_command'', ''value''] =
     Ok (JStr (to_string floor))"
  by (simp add: worker_request_mqtt_move_def)

lemma mqtt_message_value:
  "json_path (worker_response_mqtt_message sender st body lb floor)
     [''response'', ''mqtt_command'', ''value''] = Ok (JStr (to_string floor))"
  by (simp add: worker_response_mqtt_message_def)

end
