(* ===== verification/Framing.thy ===== *)
theory Framing
  imports Json
begin

text \<open>
  The two byte loops that every connection of the program shares: cutting the received
  bytes into JSON messages (\<open>_reciveCheck\<close> and its copies) and sending a buffer that the
  socket may take in pieces (\<open>_sendCheck\<close> and its copies). The incremental JSON parser
  is the library's and stays a parameter.
\<close>

section \<open>Receiving\<close>

record 'p parser_ops =
  write_some :: "'p \<Rightarrow> string \<Rightarrow> nat res \<times> 'p"
  parser_done :: "'p \<Rightarrow> bool"
  parser_release :: "'p \<Rightarrow> json res \<times> 'p"
  parser_reset :: "'p \<Rightarrow> 'p"

text \<open>
  The results of \<open>_reciveCheck\<close>: every byte was consumed; the last message is
  incomplete; taking the parsed message failed.
\<close>

datatype recv_status = Recv_success | Recv_not_full | Recv_failed

text \<open>\<open>write_some(buf + k)\<close> reads a C string: up to the first zero byte.\<close>

definition c_str :: "string \<Rightarrow> string" where
  "c_str s = takeWhile (\<lambda>c. c \<noteq> CHR 0x00) s"

text \<open>
  The loop. \<open>count_byte\<close> keeps its old value when \<open>write_some\<close> throws (it is
  uninitialised the first time). It need not terminate for every parser.
\<close>

partial_function (option) recv_loop ::
  "'p parser_ops \<Rightarrow> string \<Rightarrow> nat \<Rightarrow> nat \<Rightarrow> nat \<Rightarrow> 'p \<Rightarrow> json list \<Rightarrow>
     (recv_status \<times> 'p \<times> json list) option" where
  "recv_loop ops buf nbytes count_byte count_byte_write p q =
     (if \<not> count_byte_write < nbytes then Some (Recv_success, p, q)
      else case write_some ops p (c_str (drop count_byte_write buf)) of (r, p1) \<Rightarrow>
        (let cb = (case r of Ok n \<Rightarrow> n | _ \<Rightarrow> count_byte) in
         if \<not> parser_done ops p1 then Some (Recv_not_full, p1, q)
         else case parser_release ops p1 of (v, p2) \<Rightarrow>
           (case v of
              Ok j \<Rightarrow> recv_loop ops buf nbytes cb (count_byte_write + cb) (parser_reset ops p2) (q @ [j])
            | _ \<Rightarrow> Some (Recv_failed, parser_reset ops p2, []))))"

definition recv_check ::
  "'p parser_ops \<Rightarrow> nat \<Rightarrow> string \<Rightarrow> 'p \<Rightarrow> json list \<Rightarrow> (recv_status \<times> 'p \<times> json list) option" where
  "recv_check ops uninit data p q = recv_loop ops data (length data) uninit 0 p q"

subsection \<open>What the documentation of the parser promises\<close>

text \<open>
  \<open>pending p\<close> is the text the parser has taken of the current message. A message is
  complete as soon as \<open>decode\<close> knows its text; no complete text is a proper prefix of
  another. The parser consumes the bytes up to the end of the message, or all of them.
\<close>

definition message_end :: "(string \<Rightarrow> json option) \<Rightarrow> string \<Rightarrow> nat option" where
  "message_end decode s =
     (if \<exists>n \<le> length s. decode (take n s) \<noteq> None
      then Some (LEAST n. n \<le> length s \<and> decode (take n s) \<noteq> None) else None)"

text \<open>Text that has no complete message as a prefix: what a parser may hold between calls.\<close>

definition incomplete :: "(string \<Rightarrow> json option) \<Rightarrow> string \<Rightarrow> bool" where
  "incomplete decode s \<longleftrightarrow> message_end decode s = None"

definition parser_ok ::
  "'p parser_ops \<Rightarrow> (string \<Rightarrow> json option) \<Rightarrow> ('p \<Rightarrow> string) \<Rightarrow> bool" where
  "parser_ok ops decode pending \<longleftrightarrow>
     (\<forall>p. pending (parser_reset ops p) = []) \<and>
     (\<forall>p s. incomplete decode (pending p) \<longrightarrow>
        (case message_end decode (pending p @ s) of
           None \<Rightarrow> (\<exists>p1. write_some ops p s = (Ok (length s), p1) \<and> \<not> parser_done ops p1 \<and>
                       pending p1 = pending p @ s)
         | Some n \<Rightarrow> (\<exists>p1. write_some ops p s = (Ok (n - length (pending p)), p1) \<and>
                       parser_done ops p1 \<and>
                       fst (parser_release ops p1) = Ok (the (decode (take n (pending p @ s)))))))"

text \<open>The messages of a byte string, and the incomplete rest: the specification.\<close>

function split_messages :: "(string \<Rightarrow> json option) \<Rightarrow> string \<Rightarrow> json list \<times> string" where
  "split_messages decode s =
     (case message_end decode s of
        None \<Rightarrow> ([], s)
      | Some n \<Rightarrow>
          (if n = 0 then ([], s)
           else if drop n s = [] then ([the (decode (take n s))], [])
           else (case split_messages decode (drop n s) of (js, r) \<Rightarrow> (the (decode (take n s)) # js, r))))"
  by pat_completeness auto
termination
  by (relation "measure (\<lambda>(decode, s). length s)") auto

declare split_messages.simps [simp del]

lemma split_messages_step:
  "message_end decode s = Some n \<Longrightarrow> n \<noteq> 0 \<Longrightarrow> drop n s \<noteq> [] \<Longrightarrow>
   split_messages decode (drop n s) = (js, r) \<Longrightarrow>
   split_messages decode s = (the (decode (take n s)) # js, r)"
  by (subst split_messages.simps) simp

lemma message_end_Some:
  assumes "message_end decode s = Some n"
  shows "n \<le> length s" and "decode (take n s) \<noteq> None"
    and "\<And>k. k < n \<Longrightarrow> decode (take k s) = None"
proof -
  let ?P = "\<lambda>n. n \<le> length s \<and> decode (take n s) \<noteq> None"
  from assms have n: "n = (LEAST n. ?P n)" and ex: "\<exists>n. ?P n"
    by (auto simp: message_end_def split: if_splits)
  from LeastI_ex [OF ex] n show "n \<le> length s" "decode (take n s) \<noteq> None" by auto
  then show "decode (take k s) = None" if "k < n" for k
    using that not_less_Least [of k ?P] n by auto
qed

lemma message_end_None: "message_end decode s = None \<Longrightarrow> k \<le> length s \<Longrightarrow> decode (take k s) = None"
  by (auto simp: message_end_def split: if_splits)

lemma message_end_None_whole: "message_end decode s = None \<Longrightarrow> decode s = None"
  using message_end_None [of decode s "length s"] by simp

lemma message_end_eqI:
  assumes "n \<le> length s" and "decode (take n s) \<noteq> None" and "\<And>k. k < n \<Longrightarrow> decode (take k s) = None"
  shows "message_end decode s = Some n"
proof -
  have "(LEAST n. n \<le> length s \<and> decode (take n s) \<noteq> None) = n"
    by (rule Least_equality) (use assms in \<open>auto simp: not_less [symmetric]\<close>)
  with assms show ?thesis by (auto simp: message_end_def)
qed

lemma incomplete_message_end:
  assumes "incomplete decode w" and "message_end decode (w @ s) = Some n"
  shows "length w < n"
proof (rule ccontr)
  assume "\<not> length w < n"
  then have "take n (w @ s) = take n w" "n \<le> length w" by auto
  with message_end_Some(2) [OF assms(2)] message_end_None [of decode w n] assms(1)
  show False by (simp add: incomplete_def)
qed

text \<open>
  The loop computes the specification: from an incomplete parser state the bytes of one
  receive give the messages of the text so far, in order, after those already queued.
\<close>

lemma recv_loop_spec:
  assumes ok: "parser_ok ops decode pending" and empty: "decode [] = None"
  shows "incomplete decode (pending p) \<Longrightarrow> CHR 0x00 \<notin> set data \<Longrightarrow> cw < length data \<Longrightarrow>
     (\<exists>st p'. recv_loop ops data (length data) cb cw p q =
                Some (st, p', q @ fst (split_messages decode (pending p @ drop cw data))) \<and>
              pending p' = snd (split_messages decode (pending p @ drop cw data)) \<and>
              (st = Recv_success \<longleftrightarrow> snd (split_messages decode (pending p @ drop cw data)) = []) \<and>
              st \<noteq> Recv_failed)"
proof (induction "length data - cw" arbitrary: p q cb cw rule: less_induct)
  case less
  let ?s = "drop cw data" and ?w = "pending p"
  have cs: "c_str ?s = ?s"
    using less.prems(2) by (auto simp: c_str_def takeWhile_eq_all_conv dest: in_set_dropD)
  have ne: "?s \<noteq> []" using less.prems(3) by simp
  note wr = ok [unfolded parser_ok_def, THEN conjunct2, rule_format, OF less.prems(1), of ?s]
  have rs: "\<And>p. pending (parser_reset ops p) = []"
    using ok by (simp add: parser_ok_def)
  show ?case
  proof (cases "message_end decode (?w @ ?s)")
    case None
    with wr obtain p1 where p1: "write_some ops p ?s = (Ok (length ?s), p1)"
      "\<not> parser_done ops p1" "pending p1 = ?w @ ?s" by auto
    have "split_messages decode (?w @ ?s) = ([], ?w @ ?s)"
      using None by (simp add: split_messages.simps)
    with p1 ne less.prems(3) show ?thesis
      by (subst recv_loop.simps) (simp add: cs)
  next
    case (Some n)
    have n: "length ?w < n" "n \<le> length (?w @ ?s)"
      using incomplete_message_end [OF less.prems(1) Some] message_end_Some(1) [OF Some] by auto
    define j where "j = the (decode (take n (?w @ ?s)))"
    define k where "k = n - length ?w"
    have k: "0 < k" "cw + k \<le> length data" using n less.prems(3) by (auto simp: k_def)
    have dr: "drop n (?w @ ?s) = drop (cw + k) data"
      using n by (simp add: k_def add.commute)
    from wr Some obtain p1 where p1: "write_some ops p ?s = (Ok k, p1)" "parser_done ops p1"
      "fst (parser_release ops p1) = Ok j" by (auto simp: k_def j_def)
    obtain p2 where p2: "parser_release ops p1 = (Ok j, p2)"
      using p1(3) by (metis prod.collapse)
    have step: "recv_loop ops data (length data) cb cw p q =
        recv_loop ops data (length data) k (cw + k) (parser_reset ops p2) (q @ [j])"
      using less.prems(3) p1 p2 by (subst recv_loop.simps) (simp add: cs)
    have inc: "incomplete decode (pending (parser_reset ops p2))"
      using empty rs by (simp add: incomplete_def message_end_def)
    show ?thesis
    proof (cases "cw + k < length data")
      case True
      then have ne': "drop n (?w @ ?s) \<noteq> []" unfolding dr by simp
      obtain js r where sm: "split_messages decode (drop (cw + k) data) = (js, r)" by fastforce
      have "split_messages decode (?w @ ?s) = (j # js, r)"
        using split_messages_step [OF Some _ ne', of js r] n(1) sm unfolding dr j_def by simp
      moreover have "length data - (cw + k) < length data - cw" using k True by arith
      from less.hyps [OF this inc less.prems(2) True, of k "q @ [j]"]
      obtain st p' where "recv_loop ops data (length data) k (cw + k) (parser_reset ops p2) (q @ [j]) =
          Some (st, p', (q @ [j]) @ js)" "pending p' = r" "st = Recv_success \<longleftrightarrow> r = []" "st \<noteq> Recv_failed"
        by (auto simp: rs sm)
      ultimately show ?thesis by (simp add: step)
    next
      case False
      with k have e: "cw + k = length data" by simp
      then have "drop n (?w @ ?s) = []" unfolding dr by simp
      then have "split_messages decode (?w @ ?s) = ([j], [])"
        using Some n by (subst split_messages.simps) (simp add: j_def)
      moreover have "recv_loop ops data (length data) k (cw + k) (parser_reset ops p2) (q @ [j]) =
          Some (Recv_success, parser_reset ops p2, q @ [j])"
        by (subst recv_loop.simps) (simp add: e)
      ultimately show ?thesis by (simp add: step rs)
    qed
  qed
qed

lemma split_messages_Nil: "decode [] = None \<Longrightarrow> split_messages decode [] = ([], [])"
  by (simp add: split_messages.simps message_end_def)

text \<open>Cutting a text in two does not change its messages.\<close>

lemma message_end_append:
  assumes "message_end decode s = Some n"
  shows "message_end decode (s @ t) = Some n"
  using message_end_Some [OF assms] by (intro message_end_eqI) auto

lemma split_messages_append:
  assumes empty: "decode [] = None"
  shows "split_messages decode (s @ t) =
     (case split_messages decode s of (js, r) \<Rightarrow>
        if r = [] \<and> t = [] then (js, [])
        else (case split_messages decode (r @ t) of (ks, r') \<Rightarrow> (js @ ks, r')))"
proof (induction "length s" arbitrary: s rule: less_induct)
  case less
  show ?case
  proof (cases "message_end decode s")
    case None
    then have "split_messages decode s = ([], s)" by (simp add: split_messages.simps)
    moreover have "split_messages decode [] = ([], [])"
      using empty by (simp add: split_messages.simps message_end_def)
    ultimately show ?thesis by (auto split: prod.splits)
  next
    case (Some n)
    have n: "n \<noteq> 0" "n \<le> length s"
      using message_end_Some [OF Some] empty by (auto intro: ccontr)
    have e: "split_messages decode [] = ([], [])"
      using empty by (simp add: split_messages.simps message_end_def)
    show ?thesis
    proof (cases "drop n s = []")
      case True
      with n have "n = length s" by simp
      with Some n message_end_append [OF Some, of t] e show ?thesis
        by (subst (1 2) split_messages.simps) (auto split: prod.splits)
    next
      case False
      have "length (drop n s) < length s" using n by simp
      note IH = less.hyps [OF this]
      have st: "drop n (s @ t) = drop n s @ t" "take n (s @ t) = take n s"
        using n by simp_all
      have "split_messages decode (s @ t) =
          (case split_messages decode (drop n s @ t) of (js, r) \<Rightarrow> (the (decode (take n s)) # js, r))"
        using message_end_append [OF Some, of t] n False
        by (subst split_messages.simps) (simp add: st)
      moreover have "split_messages decode s =
          (case split_messages decode (drop n s) of (js, r) \<Rightarrow> (the (decode (take n s)) # js, r))"
        using Some n False by (subst split_messages.simps) simp
      ultimately show ?thesis
        by (simp add: IH split: prod.splits)
    qed
  qed
qed

text \<open>
  The chunks of a connection, each received by one call that finds the parser as the last
  call left it. The queue is emptied by the handler between the calls; here it is kept to
  read off all the messages.
\<close>

fun recv_chunks ::
  "'p parser_ops \<Rightarrow> nat \<Rightarrow> string list \<Rightarrow> 'p \<Rightarrow> json list \<Rightarrow> ('p \<times> json list) option" where
  "recv_chunks ops uninit [] p q = Some (p, q)"
| "recv_chunks ops uninit (c # cs) p q =
     (case recv_check ops uninit c p q of
        Some (st, p', q') \<Rightarrow> recv_chunks ops uninit cs p' q'
      | None \<Rightarrow> None)"

lemma split_rest_incomplete:
  assumes "decode [] = None"
  shows "incomplete decode (snd (split_messages decode s))"
  using assms
proof (induction decode s rule: split_messages.induct)
  case (1 decode s)
  show ?case
  proof (cases "message_end decode s")
    case None
    then show ?thesis by (subst split_messages.simps) (simp add: incomplete_def)
  next
    case (Some n)
    have "n \<noteq> 0" using message_end_Some(2) [OF Some] "1.prems" by (auto intro: ccontr)
    moreover have "incomplete decode []"
      using "1.prems" by (simp add: incomplete_def message_end_def)
    ultimately show ?thesis
      using "1.IH" [OF Some] Some "1.prems"
      by (subst split_messages.simps) (auto split: prod.splits)
  qed
qed

lemma recv_chunks_spec:
  assumes "parser_ok ops decode pending" and "decode [] = None"
  shows "incomplete decode (pending p) \<Longrightarrow> \<forall>c \<in> set cs. c \<noteq> [] \<and> CHR 0x00 \<notin> set c \<Longrightarrow>
     \<exists>p'. recv_chunks ops uninit cs p q =
            Some (p', q @ fst (split_messages decode (pending p @ concat cs))) \<and>
          pending p' = snd (split_messages decode (pending p @ concat cs))"
proof (induction cs arbitrary: p q)
  case Nil
  then have "split_messages decode (pending p) = ([], pending p)"
    by (simp add: split_messages.simps incomplete_def)
  then show ?case by simp
next
  case (Cons c cs)
  from Cons.prems have c: "CHR 0x00 \<notin> set c" "0 < length c" by auto
  obtain js r where sm: "split_messages decode (pending p @ c) = (js, r)" by fastforce
  from recv_loop_spec [OF assms Cons.prems(1) c, of uninit q] sm
  obtain st p' where p': "recv_check ops uninit c p q = Some (st, p', q @ js)" "pending p' = r"
    by (auto simp: recv_check_def)
  have inc: "incomplete decode (pending p')"
    using split_rest_incomplete [where decode = decode and s = "pending p @ c", OF assms(2)] sm p'(2) by simp
  obtain ks r' where sm': "split_messages decode (r @ concat cs) = (ks, r')" by fastforce
  have all: "split_messages decode (pending p @ c @ concat cs) = (js @ ks, r')"
    using split_messages_append [where decode = decode and s = "pending p @ c" and t = "concat cs",
        OF assms(2)] sm sm' split_messages_Nil [where decode = decode, OF assms(2)]
    by (auto split: if_splits simp del: concat_eq_Nil_conv)
  from Cons.IH [OF inc, where q = "q @ js"] Cons.prems(2) show ?case
    by (simp add: p' sm' all)
qed

section \<open>A concrete parser\<close>

text \<open>
  The promise can be kept: messages that end at the first semicolon. It serves to
  instantiate the parser in the witnesses.
\<close>

definition semi :: char where "semi = CHR '';''"

definition semi_decode :: "string \<Rightarrow> json option" where
  "semi_decode s =
     (if s \<noteq> [] \<and> last s = semi \<and> semi \<notin> set (butlast s) then Some (JStr (butlast s)) else None)"

definition semi_parser :: "string parser_ops" where
  "semi_parser =
     \<lparr>write_some = (\<lambda>p s. let a = takeWhile (\<lambda>c. c \<noteq> semi) s in
          if length a < length s then (Ok (Suc (length a)), p @ a @ [semi]) else (Ok (length s), p @ s)),
      parser_done = (\<lambda>p. semi_decode p \<noteq> None),
      parser_release = (\<lambda>p. (Ok (the (semi_decode p)), p)),
      parser_reset = (\<lambda>_. [])\<rparr>"

lemma semi_decode_end: "semi \<notin> set a \<Longrightarrow> semi_decode (a @ [semi]) = Some (JStr a)"
  by (simp add: semi_decode_def)

lemma semi_decode_none: "semi \<notin> set a \<Longrightarrow> semi_decode a = None"
  by (metis (full_types) last_in_set semi_decode_def)

lemma message_end_semi:
  assumes "semi \<notin> set a"
  shows "message_end semi_decode (a @ semi # t) = Some (Suc (length a))"
proof (rule message_end_eqI)
  show "semi_decode (take (Suc (length a)) (a @ semi # t)) \<noteq> None"
    using assms by (simp add: semi_decode_end)
  show "semi_decode (take k (a @ semi # t)) = None" if "k < Suc (length a)" for k
    using that assms by (intro semi_decode_none) (auto dest: in_set_takeD)
qed simp

lemma message_end_no_semi: "semi \<notin> set a \<Longrightarrow> message_end semi_decode a = None"
  by (auto simp: message_end_def dest!: in_set_takeD intro!: semi_decode_none)

lemma incomplete_semi_iff: "incomplete semi_decode p \<longleftrightarrow> semi \<notin> set p"
  by (metis incomplete_def message_end_no_semi message_end_semi option.distinct(1) split_list_first)

lemma semi_parser_write:
  assumes "semi \<notin> set p"
  shows "case message_end semi_decode (p @ s) of
      None \<Rightarrow> (\<exists>p1. write_some semi_parser p s = (Ok (length s), p1) \<and>
                 \<not> parser_done semi_parser p1 \<and> p1 = p @ s)
    | Some n \<Rightarrow> (\<exists>p1. write_some semi_parser p s = (Ok (n - length p), p1) \<and>
                 parser_done semi_parser p1 \<and>
                 fst (parser_release semi_parser p1) = Ok (the (semi_decode (take n (p @ s)))))"
proof (cases "semi \<in> set s")
  case True
  then obtain a t where s: "s = a @ semi # t" "semi \<notin> set a" by (metis split_list_first)
  have "message_end semi_decode ((p @ a) @ semi # t) = Some (Suc (length (p @ a)))"
    by (rule message_end_semi) (use assms s in simp)
  moreover have "takeWhile (\<lambda>c. c \<noteq> semi) s = a"
    using s by (auto simp: takeWhile_append)
  moreover have "semi_decode ((p @ a) @ [semi]) = Some (JStr (p @ a))"
    by (rule semi_decode_end) (use assms s in simp)
  ultimately show ?thesis by (simp add: semi_parser_def Let_def s)
next
  case False
  then have "takeWhile (\<lambda>c. c \<noteq> semi) s = s" "semi \<notin> set (p @ s)"
    using assms by (auto simp: takeWhile_eq_all_conv)
  then show ?thesis
    by (simp add: message_end_no_semi semi_parser_def Let_def semi_decode_none del: takeWhile_eq_all_conv)
qed

lemma semi_parser_ok: "parser_ok semi_parser semi_decode (\<lambda>p. p)"
  unfolding parser_ok_def
  using semi_parser_write by (auto simp: incomplete_semi_iff semi_parser_def split: option.splits)

section \<open>Sending\<close>

text \<open>
  \<open>_sendCheck\<close>: the completion of a send reports how many bytes the socket took. The
  counter is a static local of the handler, so it is part of the state handed in and out.
  An unfinished send goes on at \<open>buf.c_str() + temp\<close> with \<open>size - temp\<close> bytes, which
  wraps around when \<open>temp\<close> is past the end.
\<close>

datatype send_status = Send_success | Send_more nat nat

definition SIZE_MOD :: nat where "SIZE_MOD = 2 ^ 64"

definition send_check :: "nat \<Rightarrow> nat \<Rightarrow> nat \<Rightarrow> send_status \<times> nat" where
  "send_check sz count temp =
     (let temp' = (temp + count) mod SIZE_MOD in
      if sz \<noteq> temp' then (Send_more temp' ((sz + (SIZE_MOD - temp')) mod SIZE_MOD), temp')
      else (Send_success, temp'))"

text \<open>
  A connection that sends \<open>buf\<close> through a socket which takes \<open>k\<close> bytes of what it is
  offered at each completion. The handler resets the counter after success. The result is
  what the peer receives, the counter, and whether the handler got to its end.
\<close>

fun send_run :: "string \<Rightarrow> nat list \<Rightarrow> nat \<Rightarrow> string \<Rightarrow> string \<times> nat \<times> bool" where
  "send_run offered [] temp buf = ([], temp, False)"
| "send_run offered (k # ks) temp buf =
     (case send_check (length buf) k temp of
        (Send_success, _) \<Rightarrow> (take k offered, 0, True)
      | (Send_more pos n, temp') \<Rightarrow>
          (case send_run (take n (drop pos buf)) ks temp' buf of
             (w, t, b) \<Rightarrow> (take k offered @ w, t, b)))"

lemma send_check_more:
  assumes "temp + count < sz" and "sz < SIZE_MOD"
  shows "send_check sz count temp = (Send_more (temp + count) (sz - (temp + count)), temp + count)"
proof -
  have e: "sz + SIZE_MOD - (temp + count) = (sz - (temp + count)) + SIZE_MOD"
    using assms by simp
  have "(sz + SIZE_MOD - (temp + count)) mod SIZE_MOD = sz - (temp + count)"
    unfolding e mod_add_self2 using assms by (intro mod_less) simp
  with assms show ?thesis by (simp add: send_check_def Let_def)
qed

lemma send_check_done:
  assumes "temp + count = sz" and "sz < SIZE_MOD"
  shows "send_check sz count temp = (Send_success, sz)"
  using assms by (simp add: send_check_def Let_def)

lemma send_run_rest:
  assumes "length buf < SIZE_MOD"
  shows "ks \<noteq> [] \<Longrightarrow> \<forall>k \<in> set ks. 0 < k \<Longrightarrow> temp + sum_list ks = length buf \<Longrightarrow>
     send_run (drop temp buf) ks temp buf = (drop temp buf, 0, True)"
proof (induction ks arbitrary: temp)
  case Nil
  then show ?case by simp
next
  case (Cons k ks)
  show ?case
  proof (cases "ks = []")
    case True
    with Cons.prems assms show ?thesis by (simp add: send_check_done)
  next
    case False
    with Cons.prems(2) have "0 < sum_list ks" by (cases ks) auto
    with Cons.prems(3) have lt: "temp + k < length buf" by simp
    have "send_run (drop (temp + k) buf) ks (temp + k) buf = (drop (temp + k) buf, 0, True)"
      using Cons.prems False by (intro Cons.IH) auto
    then have "send_run (drop temp buf) (k # ks) temp buf =
        (take k (drop temp buf) @ drop (temp + k) buf, 0, True)"
      using assms lt by (simp add: send_check_more)
    then show ?thesis
      by (metis append_take_drop_id drop_drop add.commute)
  qed
qed

section \<open>Properties\<close>



text \<open>
  A connection that has the counter to itself sends its buffer exactly once, byte for
  byte, however many partial completions the socket reports, and leaves the counter at 0.
\<close>

theorem send_complete:
  assumes "length buf < SIZE_MOD" and "ks \<noteq> []" and "\<forall>k \<in> set ks. 0 < k"
    and "sum_list ks = length buf"
  shows "send_run buf ks 0 buf = (buf, 0, True)"
  using send_run_rest [OF assms(1-3), of 0] assms(4) by simp

theorem send_complete_witness:
  "send_run ''abcde'' [2, 1, 2] 0 ''abcde'' = (''abcde'', 0, True)"
  by (rule send_complete) (simp_all add: SIZE_MOD_def)

text \<open>
  The counter is shared by all the connections of a class. When another connection has
  a partial send outstanding (the counter is not 0), a connection whose socket takes the
  whole buffer at once does not finish: it asks the socket for further bytes, and the
  length of that request has wrapped around to more than its buffer holds.
\<close>

theorem shared_counter_breaks_other_connection:
  assumes "0 < temp" and "temp + length buf < SIZE_MOD"
  shows "\<exists>n. send_check (length buf) (length buf) temp =
               (Send_more (temp + length buf) n, temp + length buf) \<and> n = SIZE_MOD - temp \<and>
             length buf < n"
proof -
  have "(length buf + (SIZE_MOD - (temp + length buf))) mod SIZE_MOD = SIZE_MOD - temp"
    using assms(1,2) by simp
  moreover have "length buf < SIZE_MOD - temp" using assms(2) by simp
  ultimately show ?thesis
    using assms(1,2) by (simp add: send_check_def Let_def)
qed

theorem shared_counter_breaks_other_connection_witness:
  "\<exists>n. send_check (length ''hello'') (length ''hello'') 3 = (Send_more 8 n, 8) \<and>
       n = SIZE_MOD - 3 \<and> length ''hello'' < n"
  using shared_counter_breaks_other_connection [of 3 "''hello''"] by (simp add: SIZE_MOD_def)

end
