(* ===== verification/WorkerSession.thy ===== *)
theory WorkerSession
  imports Framing
begin

text \<open>
  \<open>MainServer/Modules/WorkerServer\<close>: the main server's side of a connection to a worker
  (\<open>Session\<close>, \<open>SessionMQTT\<close>, \<open>SessionMarusia\<close>) and the acceptor that keeps the sessions.
  A session waits on its socket and on two timers. Setting or cancelling a timer that is
  waited for posts its handler with an error, which runs later; the events of a session
  are the steps of \<open>ws_step\<close>.
\<close>

section \<open>State\<close>

datatype worker_t = WORKER_MQTT_T | WORKER_MARUSIA_T

datatype ws_timer = Ping_timer | Dead_ping_timer

record 'p ws =
  ws_id :: string
  ws_sender :: string
  ws_buf_send :: string
  ws_parser :: 'p
  ws_queue :: "json list"
  ws_next_recive :: bool
  ws_ping_success :: bool
  ws_live :: bool
  ws_open :: bool
  ws_ids :: "string list smap"
  ws_ping_pending :: bool
  ws_dead_pending :: bool
  ws_posted :: "ws_timer list"
  ws_recvs :: nat
  ws_sends :: nat
  ws_callback :: "nat option"
  ws_out :: "(nat option \<times> json) list"

definition ws_new :: "string \<Rightarrow> string list smap \<Rightarrow> 'p \<Rightarrow> 'p ws" where
  "ws_new sender ids p0 =
     \<lparr>ws_id = to_string (- 1), ws_sender = sender, ws_buf_send = [], ws_parser = p0, ws_queue = [],
      ws_next_recive = False, ws_ping_success = False, ws_live = False, ws_open = True,
      ws_ids = ids, ws_ping_pending = False, ws_dead_pending = False, ws_posted = [],
      ws_recvs = 0, ws_sends = 0, ws_callback = None, ws_out = []\<rparr>"

definition ws_start :: "'p ws \<Rightarrow> 'p ws" where
  "ws_start s = s\<lparr>ws_recvs := ws_recvs s + 1\<rparr>"

text \<open>\<open>cancel()\<close>, and \<open>expires_from_now\<close> followed by \<open>async_wait\<close>.\<close>

definition ping_cancel :: "'p ws \<Rightarrow> 'p ws" where
  "ping_cancel s =
     (if ws_ping_pending s
      then s\<lparr>ws_ping_pending := False, ws_posted := ws_posted s @ [Ping_timer]\<rparr> else s)"

definition dead_cancel :: "'p ws \<Rightarrow> 'p ws" where
  "dead_cancel s =
     (if ws_dead_pending s
      then s\<lparr>ws_dead_pending := False, ws_posted := ws_posted s @ [Dead_ping_timer]\<rparr> else s)"

definition ping_wait :: "'p ws \<Rightarrow> 'p ws" where
  "ping_wait s = (ping_cancel s)\<lparr>ws_ping_pending := True\<rparr>"

definition dead_wait :: "'p ws \<Rightarrow> 'p ws" where
  "dead_wait s = (dead_cancel s)\<lparr>ws_dead_pending := True\<rparr>"

definition ws_stop :: "'p ws \<Rightarrow> 'p ws" where
  "ws_stop s = (dead_cancel (ping_cancel (s\<lparr>ws_live := False\<rparr>)))\<lparr>ws_open := False\<rparr>"

definition ws_async_send :: "string \<Rightarrow> 'p ws \<Rightarrow> 'p ws" where
  "ws_async_send b s = s\<lparr>ws_buf_send := b, ws_sends := ws_sends s + 1\<rparr>"

named_theorems ws_defs \<open>unfolding of the operations of a worker session\<close>

lemmas ws_timer_defs [ws_defs] =
  ping_cancel_def dead_cancel_def ping_wait_def dead_wait_def ws_stop_def ws_async_send_def

lemma ws_stop_simps [simp]: "\<not> ws_live (ws_stop s)" "\<not> ws_open (ws_stop s)"
  by (simp_all add: ws_defs)

section \<open>Operations\<close>

text \<open>
  \<open>_autorization\<close>. The identifier is stored before it is looked up, and \<open>_is_live\<close> keeps
  its value when the lookup fails.
\<close>

definition ws_autorization :: "(json \<Rightarrow> string) \<Rightarrow> 'p ws \<Rightarrow> 'p ws" where
  "ws_autorization ser s =
     (let analize_value = hd (ws_queue s);
          s1 = s\<lparr>ws_queue := tl (ws_queue s)\<rparr>;
          failure = ser (worker_response_connect_error (ws_sender s) CONNECT ''Field Id not found'')
      in case bind_res (json_path analize_value [''request'', ''id'']) as_string of
           Ok ident \<Rightarrow>
             (let s2 = s1\<lparr>ws_id := quoted (c_str ident)\<rparr> in
              case smap_at (ws_ids s2) ''Id'' of
                Ok xs \<Rightarrow>
                  (if search_pos (\<lambda>x. ws_id s2 = x) xs < length xs
                   then ws_async_send (ser (worker_response_connect (ws_sender s)))
                          (ping_wait (s2\<lparr>ws_live := True\<rparr>))
                   else ws_async_send failure s2)
              | _ \<Rightarrow> ws_async_send failure s2)
         | _ \<Rightarrow> ws_async_send failure s1)"

definition ws_sendCommand :: "bool \<Rightarrow> nat \<Rightarrow> nat \<times> 'p ws \<Rightarrow> nat \<times> 'p ws" where
  "ws_sendCommand err count_send_byte = (\<lambda>(temp, s).
     (if err then (temp, ws_stop s)
      else if \<not> ws_live s then (temp, ws_stop s)
      else case send_check (length (ws_buf_send s)) count_send_byte temp of
             (Send_more pos n, t) \<Rightarrow> (t, s\<lparr>ws_sends := ws_sends s + 1\<rparr>)
           | (Send_success, t) \<Rightarrow>
               (let s1 = s\<lparr>ws_buf_send := []\<rparr> in
                (0, if ws_next_recive s1
                    then s1\<lparr>ws_next_recive := False, ws_recvs := ws_recvs s1 + 1\<rparr> else s1))))"

definition ws_ping :: "(json \<Rightarrow> string) \<Rightarrow> bool \<Rightarrow> 'p ws \<Rightarrow> 'p ws" where
  "ws_ping ser err s =
     (if err then ws_stop s
      else if ws_live s then
        ws_async_send (ser (worker_request_ping (ws_sender s)))
          (dead_wait (dead_cancel (s\<lparr>ws_next_recive := True, ws_ping_success := False\<rparr>)))
      else s)"

definition ws_analizePing :: "'p ws \<Rightarrow> 'p ws" where
  "ws_analizePing s =
     (let analise_value = hd (ws_queue s); s1 = s\<lparr>ws_queue := tl (ws_queue s)\<rparr> in
      case json_path analise_value [''response'', ''status''] of
        Ok status \<Rightarrow>
          (if status = JStr ''success''
           then ping_wait (dead_cancel (s1\<lparr>ws_ping_success := True\<rparr>))
           else ws_stop (s1\<lparr>ws_live := False\<rparr>))
      | _ \<Rightarrow> ws_stop s1)"

definition ws_deadPing :: "bool \<Rightarrow> 'p ws \<Rightarrow> 'p ws" where
  "ws_deadPing err s = (if \<not> ws_ping_success s then ws_stop (s\<lparr>ws_live := False\<rparr>) else s)"

text \<open>
  The answers of a worker go to the callback of the request; a callback that throws leaves
  the message in the queue.
\<close>

definition ws_deliver :: "(nat option \<Rightarrow> json \<Rightarrow> bool) \<Rightarrow> 'p ws \<Rightarrow> 'p ws" where
  "ws_deliver cb_ok s =
     (let v = hd (ws_queue s); s1 = s\<lparr>ws_out := ws_out s @ [(ws_callback s, v)]\<rparr> in
      if cb_ok (ws_callback s) v then s1\<lparr>ws_queue := tl (ws_queue s)\<rparr> else s1)"

definition mqtt_analize_front ::
  "(json \<Rightarrow> string) \<Rightarrow> (nat option \<Rightarrow> json \<Rightarrow> bool) \<Rightarrow> 'p ws \<Rightarrow> 'p ws" where
  "mqtt_analize_front ser cb_ok s =
     (case json_at (hd (ws_queue s)) ''target'' of
        Ok target \<Rightarrow>
          (if target = JStr ''ping'' then ws_analizePing s
           else if target = JStr ''mqtt_message'' then ws_deliver cb_ok s
           else if target = JStr ''connect'' then ws_autorization ser s
           else s)
      | _ \<Rightarrow> s)"

text \<open>\<open>SessionMQTT::_commandAnalize\<close> goes on while the queue is not empty.\<close>

partial_function (option) mqtt_commandAnalize ::
  "(json \<Rightarrow> string) \<Rightarrow> (nat option \<Rightarrow> json \<Rightarrow> bool) \<Rightarrow> 'p ws \<Rightarrow> 'p ws option" where
  "mqtt_commandAnalize ser cb_ok s =
     (if ws_queue s = [] then Some s
      else mqtt_commandAnalize ser cb_ok (mqtt_analize_front ser cb_ok s))"

text \<open>\<open>SessionMarusia::_commandAnalize\<close> looks at the first message only.\<close>

definition marusia_commandAnalize ::
  "(json \<Rightarrow> string) \<Rightarrow> (nat option \<Rightarrow> json \<Rightarrow> bool) \<Rightarrow> 'p ws \<Rightarrow> 'p ws" where
  "marusia_commandAnalize ser cb_ok s =
     (case json_at (hd (ws_queue s)) ''target'' of
        Ok target \<Rightarrow>
          (if target = JStr ''ping'' then ws_analizePing s
           else if target = JStr ''static_message'' then ws_deliver cb_ok s
           else if target = JStr ''move_lift'' then ws_deliver cb_ok s
           else if target = JStr ''connect'' then ws_autorization ser s
           else s)
      | _ \<Rightarrow> s)"

definition ws_commandAnalize ::
  "worker_t \<Rightarrow> (json \<Rightarrow> string) \<Rightarrow> (nat option \<Rightarrow> json \<Rightarrow> bool) \<Rightarrow> 'p ws \<Rightarrow> 'p ws option" where
  "ws_commandAnalize kind ser cb_ok s =
     (case kind of
        WORKER_MQTT_T \<Rightarrow> mqtt_commandAnalize ser cb_ok s
      | WORKER_MARUSIA_T \<Rightarrow> Some (marusia_commandAnalize ser cb_ok s))"

text \<open>
  \<open>_reciveCommand\<close>. An incomplete message re-arms the receive; a message that cannot be
  taken does not.
\<close>

definition ws_reciveCommand ::
  "worker_t \<Rightarrow> (json \<Rightarrow> string) \<Rightarrow> (nat option \<Rightarrow> json \<Rightarrow> bool) \<Rightarrow> 'p parser_ops \<Rightarrow> nat \<Rightarrow>
     bool \<Rightarrow> string \<Rightarrow> 'p ws \<Rightarrow> 'p ws option" where
  "ws_reciveCommand kind ser cb_ok ops uninit err data s =
     (if err then Some (ws_stop s)
      else case recv_check ops uninit data (ws_parser s) (ws_queue s) of
             None \<Rightarrow> None
           | Some (st, p, q) \<Rightarrow>
               (let s1 = s\<lparr>ws_parser := p, ws_queue := q\<rparr> in
                case st of
                  Recv_not_full \<Rightarrow> Some (s1\<lparr>ws_recvs := ws_recvs s1 + 1\<rparr>)
                | Recv_failed \<Rightarrow> Some s1
                | Recv_success \<Rightarrow>
                    map_option (\<lambda>s2. s2\<lparr>ws_queue := []\<rparr>) (ws_commandAnalize kind ser cb_ok s1)))"

definition mqtt_startCommand ::
  "(json \<Rightarrow> string) \<Rightarrow> bool \<Rightarrow> string \<Rightarrow> string \<Rightarrow> int \<Rightarrow> nat \<Rightarrow> 'p ws \<Rightarrow> 'p ws" where
  "mqtt_startCommand ser move_lift station_id lift_block_id floor callback s =
     (if move_lift \<and> ws_live s then
        (ws_async_send (ser (worker_request_mqtt_move (ws_sender s) station_id lift_block_id floor))
           (s\<lparr>ws_callback := Some callback\<rparr>))\<lparr>ws_next_recive := True\<rparr>
      else s)"

definition marusia_startCommand ::
  "(json \<Rightarrow> string) \<Rightarrow> bool \<Rightarrow> string \<Rightarrow> json \<Rightarrow> nat \<Rightarrow> 'p ws \<Rightarrow> 'p ws" where
  "marusia_startCommand ser station_request station_id body callback s =
     (if station_request \<and> ws_live s then
        (ws_async_send (ser (worker_request_marussia (ws_sender s) station_id body))
           (s\<lparr>ws_callback := Some callback\<rparr>))\<lparr>ws_next_recive := True\<rparr>
      else s)"

section \<open>The events of a session\<close>

definition run_posted :: "(json \<Rightarrow> string) \<Rightarrow> ws_timer \<Rightarrow> 'p ws \<Rightarrow> 'p ws" where
  "run_posted ser h s =
     (case h of Ping_timer \<Rightarrow> ws_ping ser True s | Dead_ping_timer \<Rightarrow> ws_deadPing True s)"

inductive ws_step ::
  "worker_t \<Rightarrow> (json \<Rightarrow> string) \<Rightarrow> (nat option \<Rightarrow> json \<Rightarrow> bool) \<Rightarrow> 'p parser_ops \<Rightarrow>
     'p ws \<Rightarrow> 'p ws \<Rightarrow> bool"
  for kind ser cb_ok ops where
  recv: "\<lbrakk>0 < ws_recvs s;
          ws_reciveCommand kind ser cb_ok ops uninit err data (s\<lparr>ws_recvs := ws_recvs s - 1\<rparr>) = Some s'\<rbrakk>
         \<Longrightarrow> ws_step kind ser cb_ok ops s s'"
| sent: "\<lbrakk>0 < ws_sends s; ws_sendCommand err n (temp, s\<lparr>ws_sends := ws_sends s - 1\<rparr>) = (temp', s')\<rbrakk>
         \<Longrightarrow> ws_step kind ser cb_ok ops s s'"
| ping_tick: "ws_ping_pending s \<Longrightarrow>
         ws_step kind ser cb_ok ops s (ws_ping ser False (s\<lparr>ws_ping_pending := False\<rparr>))"
| dead_tick: "ws_dead_pending s \<Longrightarrow>
         ws_step kind ser cb_ok ops s (ws_deadPing False (s\<lparr>ws_dead_pending := False\<rparr>))"
| posted: "ws_posted s = h # hs \<Longrightarrow>
         ws_step kind ser cb_ok ops s (run_posted ser h (s\<lparr>ws_posted := hs\<rparr>))"
| command: "kind = WORKER_MQTT_T \<Longrightarrow>
         ws_step kind ser cb_ok ops s (mqtt_startCommand ser mv st lb fl cb s)"
| request: "kind = WORKER_MARUSIA_T \<Longrightarrow>
         ws_step kind ser cb_ok ops s (marusia_startCommand ser rq st body cb s)"
| reload: "ws_step kind ser cb_ok ops s (s\<lparr>ws_ids := ids'\<rparr>)"
| stopped: "ws_step kind ser cb_ok ops s (ws_stop s)"

inductive ws_reach ::
  "worker_t \<Rightarrow> (json \<Rightarrow> string) \<Rightarrow> (nat option \<Rightarrow> json \<Rightarrow> bool) \<Rightarrow> 'p parser_ops \<Rightarrow>
     string \<Rightarrow> string list smap \<Rightarrow> 'p ws \<Rightarrow> bool"
  for kind ser cb_ok ops sender ids where
  init: "ws_reach kind ser cb_ok ops sender ids (ws_start (ws_new sender ids p0))"
| step: "\<lbrakk>ws_reach kind ser cb_ok ops sender ids s; ws_step kind ser cb_ok ops s s'\<rbrakk>
         \<Longrightarrow> ws_reach kind ser cb_ok ops sender ids s'"

inductive_cases ws_stepE: "ws_step kind ser cb_ok ops s s'"

section \<open>The acceptor\<close>

text \<open>\<open>Server::stop\<close> runs its loop over the sessions but stops the last one every time.\<close>

definition ws_server_stop :: "'p ws list \<Rightarrow> 'p ws list \<times> 'p ws list" where
  "ws_server_stop sessions =
     (if sessions = [] then []
      else butlast sessions @ [(ws_stop ^^ length sessions) (last sessions)], [])"

definition ws_server_accept ::
  "bool \<Rightarrow> 'p ws \<Rightarrow> 'p ws list \<Rightarrow> 'p ws list \<times> nat" where
  "ws_server_accept err new sessions = (sessions @ [ws_start new], (if err then 2 else 1))"

text \<open>\<open>__killSession\<close>: the first dead session is stopped and erased; the timer's next period.\<close>

fun ws_kill_first :: "'p ws list \<Rightarrow> ('p ws list \<times> 'p ws) option" where
  "ws_kill_first [] = None"
| "ws_kill_first (i # rest) =
     (if \<not> ws_live i then Some (rest, ws_stop i)
      else map_option (\<lambda>(r, k). (i # r, k)) (ws_kill_first rest))"

definition TIME_KILL :: nat where "TIME_KILL = 30"

definition ws_killSession :: "'p ws list \<Rightarrow> 'p ws list \<times> nat" where
  "ws_killSession sessions =
     (case ws_kill_first sessions of Some (r, _) \<Rightarrow> (r, 1) | None \<Rightarrow> (sessions, TIME_KILL))"

fun ws_kill_ticks :: "nat \<Rightarrow> 'p ws list \<Rightarrow> 'p ws list" where
  "ws_kill_ticks 0 ss = ss"
| "ws_kill_ticks (Suc n) ss = ws_kill_ticks n (fst (ws_killSession ss))"

lemma ws_kill_first_cases:
  "case ws_kill_first ss of
     None \<Rightarrow> (\<forall>s \<in> set ss. ws_live s)
   | Some (r, k) \<Rightarrow> filter ws_live r = filter ws_live ss \<and> length r + 1 = length ss \<and>
       length (filter (\<lambda>s. \<not> ws_live s) r) + 1 = length (filter (\<lambda>s. \<not> ws_live s) ss) \<and> \<not> ws_open k"
  by (induction ss) (auto simp: ws_stop_def split: option.splits)

lemma ws_kill_ticks_filter:
  "length (filter (\<lambda>s. \<not> ws_live s) ss) \<le> n \<Longrightarrow> ws_kill_ticks n ss = filter ws_live ss"
proof (induction n arbitrary: ss)
  case 0
  then show ?case by (simp add: filter_empty_conv)
next
  case (Suc n)
  show ?case
  proof (cases "ws_kill_first ss")
    case None
    with ws_kill_first_cases [of ss] have a: "filter ws_live ss = ss" by simp
    moreover from None have "ws_killSession ss = (ss, TIME_KILL)" by (simp add: ws_killSession_def)
    moreover have "length (filter (\<lambda>s. \<not> ws_live s) ss) \<le> n" using a by (simp add: filter_id_conv)
    ultimately show ?thesis using Suc.IH [of ss] by simp
  next
    case (Some rk)
    obtain r k where rk: "rk = (r, k)" by (cases rk)
    with Some ws_kill_first_cases [of ss] Suc.prems Suc.IH [of r] show ?thesis
      by (simp add: ws_killSession_def)
  qed
qed

section \<open>What the operations keep\<close>

definition handled :: "(nat option \<Rightarrow> json \<Rightarrow> bool) \<Rightarrow> nat option \<Rightarrow> json \<Rightarrow> bool" where
  "handled cb_ok cb v \<longleftrightarrow>
     json_at v ''target'' = Ok (JStr ''ping'') \<or> json_at v ''target'' = Ok (JStr ''connect'') \<or>
     (json_at v ''target'' = Ok (JStr ''mqtt_message'') \<and> cb_ok cb v)"

lemma ws_autorization_keeps [simp]:
  "ws_queue (ws_autorization ser s) = tl (ws_queue s)"
  "ws_callback (ws_autorization ser s) = ws_callback s"
  "ws_ids (ws_autorization ser s) = ws_ids s"
  by (simp_all add: ws_autorization_def Let_def ws_defs split: res.splits)

lemma ws_analizePing_keeps [simp]:
  "ws_queue (ws_analizePing s) = tl (ws_queue s)"
  "ws_callback (ws_analizePing s) = ws_callback s"
  "ws_ids (ws_analizePing s) = ws_ids s"
  by (simp_all add: ws_analizePing_def Let_def ws_defs split: res.splits)

lemma ws_deliver_keeps [simp]:
  "ws_queue (ws_deliver cb_ok s) =
     (if cb_ok (ws_callback s) (hd (ws_queue s)) then tl (ws_queue s) else ws_queue s)"
  "ws_callback (ws_deliver cb_ok s) = ws_callback s" "ws_ids (ws_deliver cb_ok s) = ws_ids s"
  "ws_live (ws_deliver cb_ok s) = ws_live s"
  "ws_ping_pending (ws_deliver cb_ok s) = ws_ping_pending s"
  "ws_dead_pending (ws_deliver cb_ok s) = ws_dead_pending s"
  by (simp_all add: ws_deliver_def Let_def)

lemma mqtt_front:
  "ws_queue (mqtt_analize_front ser cb_ok s) =
     (if handled cb_ok (ws_callback s) (hd (ws_queue s)) then tl (ws_queue s) else ws_queue s)"
  "ws_callback (mqtt_analize_front ser cb_ok s) = ws_callback s"
  "ws_ids (mqtt_analize_front ser cb_ok s) = ws_ids s"
  by (auto simp: mqtt_analize_front_def handled_def split: res.splits)

lemma mqtt_loop_diverges:
  "mqtt_commandAnalize ser cb_ok s = Some s' \<Longrightarrow> \<forall>v \<in> set (ws_queue s). handled cb_ok (ws_callback s) v"
proof (induction rule: mqtt_commandAnalize.raw_induct [rotated, consumes 1, case_names step])
  case (step loop ser cb_ok s s')
  show ?case
  proof (cases "ws_queue s")
    case (Cons v q)
    with step(2) have l: "loop ser cb_ok (mqtt_analize_front ser cb_ok s) = Some s'" by simp
    have "\<forall>u \<in> set (if handled cb_ok (ws_callback s) v then q else v # q). handled cb_ok (ws_callback s) u"
      using step(1) [OF l] by (simp only: mqtt_front Cons list.sel)
    then show ?thesis unfolding Cons
      by (cases "handled cb_ok (ws_callback s) v") simp_all
  qed simp
qed

lemma mqtt_loop_returns:
  "\<forall>v \<in> set (ws_queue s). handled cb_ok (ws_callback s) v \<Longrightarrow>
   \<exists>s'. mqtt_commandAnalize ser cb_ok s = Some s' \<and> ws_queue s' = []"
proof (induction "ws_queue s" arbitrary: s)
  case Nil
  then show ?case by (subst mqtt_commandAnalize.simps) simp
next
  case (Cons v q)
  let ?s1 = "mqtt_analize_front ser cb_ok s"
  have v: "hd (ws_queue s) = v" "tl (ws_queue s) = q" "ws_queue s \<noteq> []"
    using Cons.hyps(2) by (metis list.sel(1), metis list.sel(3), metis list.distinct(1))
  have "handled cb_ok (ws_callback s) v" using Cons.prems Cons.hyps(2) by (metis list.set_intros(1))
  then have q: "ws_queue ?s1 = q" by (simp add: mqtt_front v)
  have "\<forall>v \<in> set (ws_queue ?s1). handled cb_ok (ws_callback ?s1) v"
    using Cons.prems Cons.hyps(2) unfolding q mqtt_front(2) by (metis list.set_intros(2))
  from Cons.hyps(1) [OF q [symmetric] this] v(3) show ?case
    by (subst mqtt_commandAnalize.simps) simp
qed

definition known_connect :: "string list smap \<Rightarrow> json \<Rightarrow> bool" where
  "known_connect ids v \<longleftrightarrow>
     json_at v ''target'' = Ok (JStr ''connect'') \<and>
     (case bind_res (json_path v [''request'', ''id'']) as_string of
        Ok i \<Rightarrow> (case smap_get ids ''Id'' of Some xs \<Rightarrow> quoted (c_str i) \<in> set xs | None \<Rightarrow> False)
      | _ \<Rightarrow> False)"

lemma ws_autorization_cases:
  assumes "json_at (hd (ws_queue s)) ''target'' = Ok (JStr ''connect'')"
  shows "ws_live (ws_autorization ser s) = (ws_live s \<or> known_connect (ws_ids s) (hd (ws_queue s)))"
  using assms
  by (auto simp: ws_autorization_def known_connect_def Let_def ws_defs smap_at_def search_pos_less_iff
      split: res.splits option.splits)

lemma ws_analizePing_live: "ws_live (ws_analizePing s) \<Longrightarrow> ws_live s"
  by (auto simp: ws_analizePing_def Let_def ws_defs split: res.splits if_splits)

lemma mqtt_front_live:
  "ws_live (mqtt_analize_front ser cb_ok s) \<Longrightarrow> ws_live s \<or> known_connect (ws_ids s) (hd (ws_queue s))"
  by (auto simp: mqtt_analize_front_def ws_autorization_cases dest: ws_analizePing_live
      split: res.splits if_splits)

lemma mqtt_loop_live:
  "mqtt_commandAnalize ser cb_ok s = Some s' \<Longrightarrow>
   ws_live s' \<longrightarrow> ws_live s \<or> (\<exists>v \<in> set (ws_queue s). known_connect (ws_ids s) v)"
proof (induction rule: mqtt_commandAnalize.raw_induct [rotated, consumes 1, case_names step])
  case (step loop ser cb_ok s s')
  show ?case
  proof (cases "ws_queue s")
    case Nil
    with step(2) show ?thesis by simp
  next
    case (Cons v q)
    with step(2) have l: "loop ser cb_ok (mqtt_analize_front ser cb_ok s) = Some s'" by simp
    have "set (ws_queue (mqtt_analize_front ser cb_ok s)) \<subseteq> set (ws_queue s)"
      unfolding mqtt_front Cons by auto
    with step(1) [OF l] mqtt_front_live [of ser cb_ok s] Cons show ?thesis
      unfolding mqtt_front by (metis list.sel(1) list.set_intros(1) subset_iff)
  qed
qed

lemma marusia_live:
  "ws_live (marusia_commandAnalize ser cb_ok s) \<Longrightarrow> ws_live s \<or> known_connect (ws_ids s) (hd (ws_queue s))"
  by (auto simp: marusia_commandAnalize_def ws_autorization_cases dest: ws_analizePing_live
      split: res.splits if_splits)

text \<open>
  The part of the state that the two timers and the liveness flag make up: an invariant of
  it that the stop, the login, the pong and the timer handlers keep holds in every
  reachable state.
\<close>

definition same_watch :: "'p ws \<Rightarrow> 'p ws \<Rightarrow> bool" where
  "same_watch s s' \<longleftrightarrow> ws_live s' = ws_live s \<and> ws_ping_pending s' = ws_ping_pending s \<and>
     ws_dead_pending s' = ws_dead_pending s \<and> ws_ping_success s' = ws_ping_success s"

locale watch_invariant =
  fixes I :: "'p ws \<Rightarrow> bool"
  assumes start: "I (ws_start (ws_new sender ids p0))"
    and same: "I s \<Longrightarrow> same_watch s s' \<Longrightarrow> I s'"
    and stop: "I s \<Longrightarrow> I (ws_stop s)"
    and login: "I s \<Longrightarrow> I (ws_autorization ser s)"
    and pong: "I s \<Longrightarrow> I (ws_analizePing s)"
    and tick: "I s \<Longrightarrow> ws_ping_pending s \<Longrightarrow> I (ws_ping ser False (s\<lparr>ws_ping_pending := False\<rparr>))"
    and dead: "I s \<Longrightarrow> ws_dead_pending s \<Longrightarrow> I (ws_deadPing False (s\<lparr>ws_dead_pending := False\<rparr>))"
begin

lemma deliver: "I s \<Longrightarrow> I (ws_deliver cb_ok s)"
  by (erule same) (simp add: same_watch_def ws_deliver_def Let_def)

lemma mqtt_analize: "I s \<Longrightarrow> I (mqtt_analize_front ser cb_ok s)"
  by (simp add: mqtt_analize_front_def pong deliver login split: res.split)

lemma mqtt_loop: "mqtt_commandAnalize ser cb_ok s = Some s' \<Longrightarrow> I s \<longrightarrow> I s'"
proof (induction rule: mqtt_commandAnalize.raw_induct [rotated, consumes 1, case_names step])
  case (step loop ser cb_ok s s')
  show ?case
  proof (cases "ws_queue s = []")
    case True
    with step(2) show ?thesis by simp
  next
    case False
    with step(2) have "loop ser cb_ok (mqtt_analize_front ser cb_ok s) = Some s'" by simp
    from step(1) [OF this] mqtt_analize show ?thesis by blast
  qed
qed

lemma analize: "ws_commandAnalize kind ser cb_ok s = Some s' \<Longrightarrow> I s \<Longrightarrow> I s'"
  by (cases kind) (auto simp: ws_commandAnalize_def marusia_commandAnalize_def pong deliver login
      dest!: mqtt_loop split: res.splits if_splits)

lemma recive:
  assumes "I s" and "ws_reciveCommand kind ser cb_ok ops uninit err data s = Some s'"
  shows "I s'"
proof (cases err)
  case True
  with assms(2) have "s' = ws_stop s" by (simp add: ws_reciveCommand_def)
  with stop [OF assms(1)] show ?thesis by simp
next
  case False
  obtain st p q where rc: "recv_check ops uninit data (ws_parser s) (ws_queue s) = Some (st, p, q)"
    using assms(2) False by (auto simp: ws_reciveCommand_def split: option.splits)
  let ?s1 = "s\<lparr>ws_parser := p, ws_queue := q\<rparr>"
  have s1: "I ?s1" by (rule same [OF assms(1)]) (simp add: same_watch_def)
  have sm: "I t \<Longrightarrow> I (t\<lparr>ws_queue := []\<rparr>)" for t by (erule same) (simp add: same_watch_def)
  have sr: "I t \<Longrightarrow> I (t\<lparr>ws_recvs := Suc (ws_recvs t)\<rparr>)" for t by (erule same) (simp add: same_watch_def)
  show ?thesis
  proof (cases st)
    case Recv_success
    with rc False assms(2) obtain s2 where "ws_commandAnalize kind ser cb_ok ?s1 = Some s2"
      "s' = s2\<lparr>ws_queue := []\<rparr>" by (auto simp: ws_reciveCommand_def)
    with analize s1 sm show ?thesis by blast
  next
    case Recv_not_full
    with rc False assms(2) sr [OF s1] show ?thesis by (simp add: ws_reciveCommand_def)
  next
    case Recv_failed
    with rc False assms(2) s1 show ?thesis by (simp add: ws_reciveCommand_def)
  qed
qed

lemma send:
  assumes "I s"
  shows "I (snd (ws_sendCommand err n (temp, s)))"
  using assms stop [OF assms]
  by (auto simp: ws_sendCommand_def Let_def same_watch_def intro: same split: prod.split send_status.split)

lemma step:
  assumes "I s" and "ws_step kind ser cb_ok ops s s'"
  shows "I s'"
  using assms(2)
proof cases
  case (recv uninit err data)
  have "I (s\<lparr>ws_recvs := ws_recvs s - 1\<rparr>)" by (rule same [OF assms(1)]) (simp add: same_watch_def)
  from recive [OF this recv(2)] show ?thesis .
next
  case (sent err n temp temp')
  have "I (s\<lparr>ws_sends := ws_sends s - 1\<rparr>)" by (rule same [OF assms(1)]) (simp add: same_watch_def)
  from send [OF this, of err n temp] sent(2) show ?thesis by simp
next
  case ping_tick
  with tick assms(1) show ?thesis by simp
next
  case dead_tick
  with dead assms(1) show ?thesis by simp
next
  case (posted h hs)
  have "I (s\<lparr>ws_posted := hs\<rparr>)" by (rule same [OF assms(1)]) (simp add: same_watch_def)
  then show ?thesis using posted(1) stop
    by (cases h) (auto simp: run_posted_def ws_ping_def ws_deadPing_def ws_stop_def)
next
  case (command mv st lb fl cb)
  show ?thesis unfolding command
    by (rule same [OF assms(1)]) (simp add: same_watch_def mqtt_startCommand_def ws_async_send_def)
next
  case (request rq st body cb)
  show ?thesis unfolding request
    by (rule same [OF assms(1)]) (simp add: same_watch_def marusia_startCommand_def ws_async_send_def)
next
  case (reload ids')
  show ?thesis unfolding reload by (rule same [OF assms(1)]) (simp add: same_watch_def)
next
  case stopped
  with stop assms(1) show ?thesis by simp
qed

lemma reach: "ws_reach kind ser cb_ok ops sender ids s \<Longrightarrow> I s"
  by (induction rule: ws_reach.induct) (auto intro: start step)

end

text \<open>
  The invariant: a live session is waiting for its next ping or for the answer of the
  last one, and a pending dead-ping timer means that no answer has come yet.
\<close>

definition watched :: "'p ws \<Rightarrow> bool" where
  "watched s \<longleftrightarrow> (ws_live s \<longrightarrow> ws_ping_pending s \<or> ws_dead_pending s) \<and>
     (ws_dead_pending s \<longrightarrow> \<not> ws_ping_success s)"

interpretation watch: watch_invariant "watched :: 'p ws \<Rightarrow> bool"
proof unfold_locales
  show "watched (ws_start (ws_new sender ids p0))" for sender ids and p0 :: 'p
    by (simp add: watched_def ws_start_def ws_new_def)
  fix s s' :: "'p ws" and ser
  assume w: "watched s"
  show "same_watch s s' \<Longrightarrow> watched s'" using w by (simp add: watched_def same_watch_def)
  show "watched (ws_stop s)" using w by (auto simp: watched_def ws_defs)
  show "watched (ws_autorization ser s)" using w
    by (auto simp: watched_def ws_autorization_def Let_def ws_defs split: res.split)
  show "watched (ws_analizePing s)" using w
    by (auto simp: watched_def ws_analizePing_def Let_def ws_defs split: res.split)
  show "watched (ws_ping ser False (s\<lparr>ws_ping_pending := False\<rparr>))" using w
    by (auto simp: watched_def ws_ping_def ws_defs)
  show "watched (ws_deadPing False (s\<lparr>ws_dead_pending := False\<rparr>))" if "ws_dead_pending s" using w that
    by (auto simp: watched_def ws_deadPing_def ws_defs)
qed

section \<open>Properties\<close>

text \<open>
  C5: a session is switched to live only by a \<open>connect\<close> message whose identifier is in the
  table of known workers at that moment, whatever else happens on the socket, the timers
  and the command interface.
\<close>

theorem live_only_by_known_id:
  assumes "ws_step kind ser cb_ok ops s s'" and "\<not> ws_live s" and "ws_live s'"
  shows "\<exists>uninit data p q v. recv_check ops uninit data (ws_parser s) (ws_queue s) = Some (Recv_success, p, q) \<and>
     (v \<in> set q \<or> v = hd q) \<and> known_connect (ws_ids s) v"
  using assms(1)
proof cases
  case (recv uninit err data)
  let ?s = "s\<lparr>ws_recvs := ws_recvs s - 1\<rparr>"
  have "\<not> err" using recv assms(3) by (auto simp: ws_reciveCommand_def)
  with recv(2) obtain st p q where rc: "recv_check ops uninit data (ws_parser s) (ws_queue s) = Some (st, p, q)"
    by (auto simp: ws_reciveCommand_def split: option.splits)
  let ?s1 = "?s\<lparr>ws_parser := p, ws_queue := q\<rparr>"
  have st: "st = Recv_success"
    using recv(2) \<open>\<not> err\<close> rc assms(2,3) by (cases st) (auto simp: ws_reciveCommand_def)
  with recv(2) \<open>\<not> err\<close> rc obtain s2 where s2: "ws_commandAnalize kind ser cb_ok ?s1 = Some s2"
    "ws_live s2 = ws_live s'" by (auto simp: ws_reciveCommand_def)
  have "\<exists>v. (v \<in> set q \<or> v = hd q) \<and> known_connect (ws_ids s) v"
  proof (cases kind)
    case WORKER_MQTT_T
    with s2 mqtt_loop_live [of ser cb_ok ?s1 s2] assms(2,3) show ?thesis
      by (auto simp: ws_commandAnalize_def)
  next
    case WORKER_MARUSIA_T
    with s2 marusia_live [of ser cb_ok ?s1] assms(2,3) show ?thesis
      by (auto simp: ws_commandAnalize_def)
  qed
  with rc st show ?thesis by blast
next
  case (sent err n temp temp')
  with assms(2,3) show ?thesis
    by (auto simp: ws_sendCommand_def Let_def split: prod.splits send_status.splits if_splits)
next
  case (posted h hs)
  with assms(2,3) show ?thesis
    by (auto simp: run_posted_def ws_ping_def ws_deadPing_def ws_defs split: ws_timer.splits if_splits)
qed (use assms(2,3) in \<open>auto simp: ws_ping_def ws_deadPing_def ws_defs mqtt_startCommand_def
      marusia_startCommand_def split: if_splits\<close>)

definition one_message_parser :: "json \<Rightarrow> unit parser_ops" where
  "one_message_parser v =
     \<lparr>write_some = (\<lambda>p t. (Ok (length t), p)), parser_done = (\<lambda>_. True),
      parser_release = (\<lambda>p. (Ok v, p)), parser_reset = (\<lambda>p. p)\<rparr>"

lemma recv_one_message [simp]:
  assumes "c \<noteq> CHR 0x00"
  shows "recv_check (one_message_parser v) uninit [c] p q = Some (Recv_success, p, q @ [v])"
proof -
  have done1: "recv_loop (one_message_parser v) [c] 1 1 1 p' q' = Some (Recv_success, p', q')" for p' q'
    by (subst recv_loop.simps) simp
  show ?thesis
    using assms done1 unfolding recv_check_def
    by (subst recv_loop.simps) (simp add: c_str_def one_message_parser_def)
qed

definition fresh_session :: "unit ws" where
  "fresh_session = ws_start (ws_new ''Main_server'' [(''Id'', [quoted ''w1'', quoted ''w2''])] ())"

lemma fresh_session_step:
  "\<exists>s'. ws_step WORKER_MQTT_T (\<lambda>_. ''x'') (\<lambda>_ _. True) (one_message_parser (worker_request_connect ''W'' ''w2''))
     fresh_session s' \<and> ws_live s'"
proof -
  let ?m = "worker_request_connect ''W'' ''w2''"
  let ?s1 = "fresh_session\<lparr>ws_recvs := 0, ws_parser := (), ws_queue := [?m]\<rparr>"
  let ?s2 = "mqtt_analize_front (\<lambda>_. ''x'') (\<lambda>_ _. True) ?s1"
  have t: "json_at ?m ''target'' = Ok (JStr ''connect'')"
    "bind_res (json_path ?m [''request'', ''id'']) as_string = Ok ''w2''"
    by (simp_all add: message_defs)
  have s2: "ws_queue ?s2 = [] \<and> ws_live ?s2"
    using t by (simp add: mqtt_analize_front_def ws_autorization_cases known_connect_def c_str_def
        fresh_session_def ws_start_def ws_new_def)
  then have "mqtt_commandAnalize (\<lambda>_. ''x'') (\<lambda>_ _. True) ?s1 = Some ?s2"
    by (subst mqtt_commandAnalize.simps, subst mqtt_commandAnalize.simps) simp
  then have "ws_reciveCommand WORKER_MQTT_T (\<lambda>_. ''x'') (\<lambda>_ _. True) (one_message_parser ?m) 0 False ''c''
      (fresh_session\<lparr>ws_recvs := ws_recvs fresh_session - 1\<rparr>) = Some (?s2\<lparr>ws_queue := []\<rparr>)"
    by (simp add: ws_reciveCommand_def ws_commandAnalize_def fresh_session_def ws_start_def ws_new_def)
  from ws_step.recv [OF _ this] s2 show ?thesis
    by (auto simp: fresh_session_def ws_start_def ws_new_def)
qed

theorem live_only_by_known_id_witness:
  "\<exists>uninit data p q v. recv_check (one_message_parser (worker_request_connect ''W'' ''w2'')) uninit data
       (ws_parser fresh_session) (ws_queue fresh_session) = Some (Recv_success, p, q) \<and>
     (v \<in> set q \<or> v = hd q) \<and> known_connect (ws_ids fresh_session) v"
proof -
  obtain s' where "ws_step WORKER_MQTT_T (\<lambda>_. ''x'') (\<lambda>_ _. True)
      (one_message_parser (worker_request_connect ''W'' ''w2'')) fresh_session s'" "ws_live s'"
    using fresh_session_step by blast
  from live_only_by_known_id [OF this(1) _ this(2)] show ?thesis
    by (simp add: fresh_session_def ws_start_def ws_new_def)
qed

text \<open>
  C6: no live session is forgotten: in every reachable state a live session either waits
  for its next ping, or it waits for the answer to a ping with a timer whose expiry takes
  it off and closes it.
\<close>

theorem live_session_watched:
  assumes "ws_reach kind ser cb_ok ops sender ids s" and "ws_live s"
  shows "ws_ping_pending s \<or> (ws_dead_pending s \<and>
     \<not> ws_live (ws_deadPing False (s\<lparr>ws_dead_pending := False\<rparr>)) \<and>
     \<not> ws_open (ws_deadPing False (s\<lparr>ws_dead_pending := False\<rparr>)))"
  using watch.reach [OF assms(1)] assms(2) by (auto simp: watched_def ws_deadPing_def)

theorem live_session_watched_witness:
  "\<exists>s. ws_reach WORKER_MQTT_T (\<lambda>_. ''x'') (\<lambda>_ _. True) (one_message_parser (worker_request_connect ''W'' ''w2''))
       ''Main_server'' [(''Id'', [quoted ''w1'', quoted ''w2''])] (s :: unit ws) \<and> ws_live s \<and>
     (ws_ping_pending s \<or> ws_dead_pending s)"
proof -
  obtain s' where s': "ws_step WORKER_MQTT_T (\<lambda>_. ''x'') (\<lambda>_ _. True)
      (one_message_parser (worker_request_connect ''W'' ''w2'')) fresh_session s'" "ws_live s'"
    using fresh_session_step by blast
  have r: "ws_reach WORKER_MQTT_T (\<lambda>_. ''x'') (\<lambda>_ _. True) (one_message_parser (worker_request_connect ''W'' ''w2''))
       ''Main_server'' [(''Id'', [quoted ''w1'', quoted ''w2''])] s'"
    by (rule ws_reach.step [OF _ s'(1)]) (simp add: fresh_session_def ws_reach.init)
  from live_session_watched [OF r s'(2)] r s'(2) show ?thesis by blast
qed

text \<open>
  C11: the command loop of an MQTT session returns exactly when every queued message is a
  ping answer, a login, or a command answer that its callback takes: one message with any
  other target keeps the server in the loop for ever.
\<close>

theorem mqtt_loop_returns_iff:
  "(\<exists>s'. mqtt_commandAnalize ser cb_ok s = Some s') \<longleftrightarrow>
     (\<forall>v \<in> set (ws_queue s). handled cb_ok (ws_callback s) v)"
  using mqtt_loop_diverges [of ser cb_ok s] mqtt_loop_returns [of s cb_ok ser] by blast

theorem mqtt_loop_returns_iff_witness:
  "(\<exists>s'. mqtt_commandAnalize (\<lambda>_. ''x'') (\<lambda>_ _. True)
      ((ws_new ''Main_server'' [] ())\<lparr>ws_queue := [worker_response_ping ''W'', worker_request_connect ''W'' ''w1'']\<rparr>) = Some s') \<and>
   \<not> (\<exists>s'. mqtt_commandAnalize (\<lambda>_. ''x'') (\<lambda>_ _. True)
      ((ws_new ''Main_server'' [] ())\<lparr>ws_queue := [worker_request_disconnect ''W'']\<rparr>) = Some s')"
  unfolding mqtt_loop_returns_iff
  by (simp add: handled_def worker_response_ping_def worker_request_connect_def worker_request_disconnect_def)

text \<open>
  A login message of a known worker is answered with success, makes the session live
  under the quoted identifier and starts the ping timer; a login with an unknown
  identifier is answered with the error. The error does not take the session off: a live
  session goes on under the identifier that was refused.
\<close>

theorem login_decides:
  assumes "ws_queue s = worker_request_connect sender ident # q" and "CHR 0x00 \<notin> set ident"
    and "smap_get (ws_ids s) ''Id'' = Some xs"
  shows "ws_id (ws_autorization ser s) = quoted ident \<and>
     ws_sends (ws_autorization ser s) = ws_sends s + 1 \<and>
     (if quoted ident \<in> set xs
      then ws_live (ws_autorization ser s) \<and> ws_ping_pending (ws_autorization ser s) \<and>
        ws_buf_send (ws_autorization ser s) = ser (worker_response_connect (ws_sender s))
      else ws_live (ws_autorization ser s) = ws_live s \<and>
        ws_ping_pending (ws_autorization ser s) = ws_ping_pending s \<and>
        ws_buf_send (ws_autorization ser s) =
          ser (worker_response_connect_error (ws_sender s) CONNECT ''Field Id not found''))"
proof -
  have i: "bind_res (json_path (hd (ws_queue s)) [''request'', ''id'']) as_string = Ok ident"
    using assms(1) by (simp add: message_defs)
  have c: "c_str ident = ident"
    using assms(2) by (auto simp: c_str_def takeWhile_eq_all_conv)
  have f: "search_pos (\<lambda>x. quoted ident = x) xs < length xs \<longleftrightarrow> quoted ident \<in> set xs"
    by (auto simp: search_pos_less_iff)
  show ?thesis
    using assms(3) unfolding ws_autorization_def Let_def i
    by (simp add: c f smap_at_def ws_defs)
qed

theorem login_decides_witness:
  "ws_live (ws_autorization (\<lambda>_. ''x'') (fresh_session\<lparr>ws_queue := [worker_request_connect ''W'' ''bad''], ws_live := True\<rparr>)) \<and>
   ws_id (ws_autorization (\<lambda>_. ''x'') (fresh_session\<lparr>ws_queue := [worker_request_connect ''W'' ''bad''], ws_live := True\<rparr>)) = quoted ''bad''"
  using login_decides [of "fresh_session\<lparr>ws_queue := [worker_request_connect ''W'' ''bad''], ws_live := True\<rparr>"
      "''W''" "''bad''" "[]" "[quoted ''w1'', quoted ''w2'']" "\<lambda>_. ''x''"]
  by (simp add: fresh_session_def ws_start_def ws_new_def)

text \<open>
  A second login on a live session whose ping timer runs, even with the right
  identifier, closes it: setting the timer again posts the old wait with an error, and the
  ping handler answers an error by stopping the session.
\<close>

theorem second_login_closes:
  assumes "ws_queue s = worker_request_connect sender ident # q" and "CHR 0x00 \<notin> set ident"
    and "smap_get (ws_ids s) ''Id'' = Some xs" and "quoted ident \<in> set xs"
    and "ws_ping_pending s" and "ws_posted s = []"
  shows "ws_posted (ws_autorization ser s) = [Ping_timer] \<and>
     \<not> ws_live (run_posted ser Ping_timer ((ws_autorization ser s)\<lparr>ws_posted := []\<rparr>)) \<and>
     \<not> ws_open (run_posted ser Ping_timer ((ws_autorization ser s)\<lparr>ws_posted := []\<rparr>))"
proof -
  have i: "bind_res (json_path (hd (ws_queue s)) [''request'', ''id'']) as_string = Ok ident"
    using assms(1) by (simp add: message_defs)
  have c: "c_str ident = ident"
    using assms(2) by (auto simp: c_str_def takeWhile_eq_all_conv)
  have f: "search_pos (\<lambda>x. quoted ident = x) xs < length xs"
    using assms(4) by (auto simp: search_pos_less_iff)
  have "ws_posted (ws_autorization ser s) = [Ping_timer]"
    using assms(3,5,6) f unfolding ws_autorization_def Let_def i
    by (simp add: c smap_at_def ws_defs)
  then show ?thesis by (simp add: run_posted_def ws_ping_def)
qed

theorem second_login_closes_witness:
  "\<not> ws_open (run_posted (\<lambda>_. ''x'') Ping_timer
     ((ws_autorization (\<lambda>_. ''x'') (fresh_session\<lparr>ws_queue := [worker_request_connect ''W'' ''w1''],
        ws_live := True, ws_ping_pending := True\<rparr>))\<lparr>ws_posted := []\<rparr>))"
  using second_login_closes [of "fresh_session\<lparr>ws_queue := [worker_request_connect ''W'' ''w1''],
        ws_live := True, ws_ping_pending := True\<rparr>" "''W''" "''w1''" "[]" "[quoted ''w1'', quoted ''w2'']" "\<lambda>_. ''x''"]
  by (simp add: fresh_session_def ws_start_def ws_new_def)

text \<open>
  C14: the kill timer removes one dead session at each tick, one second apart, and after as
  many ticks as there are dead sessions exactly the live ones are left, in their order.
\<close>

theorem kill_ticks_leave_live:
  "ws_kill_ticks (length (filter (\<lambda>s. \<not> ws_live s) ss)) ss = filter ws_live ss \<and>
   snd (ws_killSession ss) = (if \<exists>s \<in> set ss. \<not> ws_live s then 1 else TIME_KILL)"
proof -
  have "snd (ws_killSession ss) = (if \<exists>s \<in> set ss. \<not> ws_live s then 1 else TIME_KILL)"
  proof (cases "ws_kill_first ss")
    case None
    with ws_kill_first_cases [of ss] show ?thesis by (simp add: ws_killSession_def)
  next
    case (Some rk)
    with ws_kill_first_cases [of ss] have "filter (\<lambda>s. \<not> ws_live s) ss \<noteq> []"
      by (auto split: prod.splits)
    with Some show ?thesis by (auto simp: ws_killSession_def filter_empty_conv split: prod.splits)
  qed
  with ws_kill_ticks_filter [of ss] show ?thesis by simp
qed

text \<open>
  Stopping the acceptor stops only the last session, as often as there are sessions;
  every other one keeps its socket and its timers and is only dropped from the list.
\<close>

theorem server_stop_reaches_last_only:
  assumes "ss \<noteq> []"
  shows "fst (ws_server_stop (ss :: 'p ws list)) = butlast ss @ [(ws_stop ^^ length ss) (last ss)] \<and>
     \<not> ws_open (last (fst (ws_server_stop ss))) \<and>
     (\<forall>i < length ss - 1. fst (ws_server_stop ss) ! i = ss ! i) \<and> snd (ws_server_stop ss) = []"
proof -
  obtain n where n: "length ss = Suc n" using assms by (cases ss) auto
  have "\<not> ws_open ((ws_stop ^^ length ss) (last ss))" by (simp add: n)
  with assms show ?thesis by (simp add: ws_server_stop_def nth_append nth_butlast)
qed

theorem server_stop_reaches_last_only_witness:
  "ws_open (hd (fst (ws_server_stop [fresh_session, fresh_session])))"
  using server_stop_reaches_last_only [of "[fresh_session, fresh_session]"]
  by (auto simp: hd_conv_nth fresh_session_def ws_start_def ws_new_def)

end
