(* ===== verification/MSWorker.thy ===== *)
theory MSWorker
  imports WorkerSession
begin

text \<open>
  \<open>MQTT_Worker/Modules/MSWorker\<close>: the MQTT worker's side of the connection to the main
  server. The callback for lift commands belongs to the worker (\<open>MQTTWorker::moveLift\<close>); it
  may change the rest of the program, kept in \<open>mw_env\<close>, and answers through
  \<open>responseMove\<close>, so it takes and returns the whole state.
\<close>

section \<open>State\<close>

record ('p, 'w) mw =
  mw_id :: string
  mw_buf_send :: string
  mw_queue :: "json list"
  mw_parser :: 'p
  mw_open :: bool
  mw_lu_id_descriptor :: "string smap"
  mw_connects :: nat
  mw_recvs :: nat
  mw_sends :: "string list"
  mw_env :: 'w

definition WORKER_NAME :: string where "WORKER_NAME = ''Worker_MQTT''"

type_synonym ('p, 'w) move_callback =
  "string \<Rightarrow> string \<Rightarrow> string \<Rightarrow> ('p, 'w) mw \<Rightarrow> unit res \<times> ('p, 'w) mw"

definition mw_new :: "string \<Rightarrow> 'p \<Rightarrow> 'w \<Rightarrow> ('p, 'w) mw" where
  "mw_new ident p0 w =
     \<lparr>mw_id = ident, mw_buf_send = [], mw_queue = [], mw_parser = p0, mw_open = True,
      mw_lu_id_descriptor = [], mw_connects = 0, mw_recvs = 0, mw_sends = [], mw_env = w\<rparr>"

definition mw_start :: "string smap \<Rightarrow> ('p, 'w) mw \<Rightarrow> ('p, 'w) mw" where
  "mw_start lu s = s\<lparr>mw_lu_id_descriptor := lu, mw_connects := mw_connects s + 1, mw_open := True\<rparr>"

definition mw_stop :: "('p, 'w) mw \<Rightarrow> ('p, 'w) mw" where
  "mw_stop s = s\<lparr>mw_open := False\<rparr>"

definition mw_async_send :: "string \<Rightarrow> ('p, 'w) mw \<Rightarrow> ('p, 'w) mw" where
  "mw_async_send b s = s\<lparr>mw_buf_send := b, mw_sends := mw_sends s @ [b]\<rparr>"

definition mw_restart :: "('p, 'w) mw \<Rightarrow> ('p, 'w) mw" where
  "mw_restart s = mw_start (mw_lu_id_descriptor s) (mw_stop s)"

section \<open>Operations\<close>

definition mw_requestAuthentication ::
  "(json \<Rightarrow> string) \<Rightarrow> bool \<Rightarrow> ('p, 'w) mw \<Rightarrow> ('p, 'w) mw" where
  "mw_requestAuthentication ser err s =
     (if err then mw_restart s
      else mw_async_send (ser (worker_request_connect WORKER_NAME (mw_id s))) s)"

definition mw_connectAnalize :: "('p, 'w) mw \<Rightarrow> ('p, 'w) mw" where
  "mw_connectAnalize s =
     (case json_path (hd (mw_queue s)) [''response'', ''status''] of
        Ok status \<Rightarrow>
          (if status = JStr ''success''
           then s\<lparr>mw_recvs := mw_recvs s + 1, mw_queue := tl (mw_queue s)\<rparr>
           else (mw_stop s)\<lparr>mw_queue := tl (mw_queue s)\<rparr>)
      | _ \<Rightarrow> mw_stop (s\<lparr>mw_queue := tl (mw_queue s)\<rparr>))"

definition mw_sendCommand :: "bool \<Rightarrow> nat \<Rightarrow> nat \<times> ('p, 'w) mw \<Rightarrow> nat \<times> ('p, 'w) mw" where
  "mw_sendCommand err count_send_byte = (\<lambda>(temp, s).
     (if err then (temp, mw_restart s)
      else case send_check (length (mw_buf_send s)) count_send_byte temp of
             (Send_more pos n, t) \<Rightarrow>
               (t, s\<lparr>mw_sends := mw_sends s @ [take n (drop pos (mw_buf_send s))]\<rparr>)
           | (Send_success, t) \<Rightarrow> (0, s\<lparr>mw_buf_send := [], mw_recvs := mw_recvs s + 1\<rparr>)))"

definition mw_responsePing :: "(json \<Rightarrow> string) \<Rightarrow> ('p, 'w) mw \<Rightarrow> ('p, 'w) mw" where
  "mw_responsePing ser s =
     mw_async_send (ser (worker_response_ping WORKER_NAME)) (s\<lparr>mw_queue := tl (mw_queue s)\<rparr>)"

definition mw_responseDisconnect :: "(json \<Rightarrow> string) \<Rightarrow> ('p, 'w) mw \<Rightarrow> ('p, 'w) mw" where
  "mw_responseDisconnect ser s =
     mw_async_send (ser (worker_response_disconnect WORKER_NAME)) (s\<lparr>mw_queue := tl (mw_queue s)\<rparr>)"

definition mw_responseMove :: "(json \<Rightarrow> string) \<Rightarrow> string \<Rightarrow> bool \<Rightarrow> ('p, 'w) mw \<Rightarrow> ('p, 'w) mw" where
  "mw_responseMove ser station_id success s =
     mw_async_send
       (ser (if success then worker_response_mqtt_lift_move WORKER_NAME station_id Status_success []
             else worker_response_mqtt_lift_move WORKER_NAME station_id Status_fail [])) s"

text \<open>
  \<open>__moveLift\<close>. The lift that is not in the table is answered with an error, and the
  message stays in the queue.
\<close>

definition str_member :: "json \<Rightarrow> string list \<Rightarrow> string res" where
  "str_member v ks = map_res c_str (bind_res (json_path v ks) as_string)"

definition mw_moveLift ::
  "(json \<Rightarrow> string) \<Rightarrow> ('p, 'w) move_callback \<Rightarrow> ('p, 'w) mw \<Rightarrow> unit res \<times> ('p, 'w) mw" where
  "mw_moveLift ser cb s =
     (let v = hd (mw_queue s) in
      case bind_res (str_member v [''request'', ''mqtt_command'', ''lb_id'']) (smap_at (mw_lu_id_descriptor s)) of
        Ok lb_descriptor \<Rightarrow>
          (case str_member v [''request'', ''mqtt_command'', ''value''] of
             Ok value \<Rightarrow>
               (case str_member v [''request'', ''station_id''] of
                  Ok station_id \<Rightarrow>
                    (case cb lb_descriptor value station_id s of
                       (Ok _, s1) \<Rightarrow> (Ok (), s1\<lparr>mw_queue := tl (mw_queue s1)\<rparr>)
                     | (r, s1) \<Rightarrow> (r, s1))
                | Throw e \<Rightarrow> (Throw e, s)
                | Undef \<Rightarrow> (Undef, s))
           | Throw e \<Rightarrow> (Throw e, s)
           | Undef \<Rightarrow> (Undef, s))
      | _ \<Rightarrow>
          (case str_member v [''request'', ''station_id''] of
             Ok station_id \<Rightarrow>
               (Ok (), mw_async_send
                  (ser (worker_response_mqtt_lift_move WORKER_NAME station_id Status_fail ''LU not found'')) s)
           | Throw e \<Rightarrow> (Throw e, s)
           | Undef \<Rightarrow> (Undef, s)))"

definition mw_analize_front ::
  "(json \<Rightarrow> string) \<Rightarrow> ('p, 'w) move_callback \<Rightarrow> ('p, 'w) mw \<Rightarrow> unit res \<times> ('p, 'w) mw" where
  "mw_analize_front ser cb s =
     (case json_at (hd (mw_queue s)) ''target'' of
        Ok target \<Rightarrow>
          (if target = JStr ''ping'' then (Ok (), mw_responsePing ser s)
           else if target = JStr ''move_lift'' then mw_moveLift ser cb s
           else if target = JStr ''disconnect'' then (Ok (), mw_responseDisconnect ser s)
           else if target = JStr ''connect'' then (Ok (), mw_connectAnalize s)
           else (Ok (), s))
      | Throw e \<Rightarrow> (Throw e, s)
      | Undef \<Rightarrow> (Undef, s))"

partial_function (option) mw_commandAnalize ::
  "(json \<Rightarrow> string) \<Rightarrow> ('p, 'w) move_callback \<Rightarrow> ('p, 'w) mw \<Rightarrow> (unit res \<times> ('p, 'w) mw) option" where
  "mw_commandAnalize ser cb s =
     (if mw_queue s = [] then Some (Ok (), s)
      else case mw_analize_front ser cb s of (r, s1) \<Rightarrow>
        (case r of
           Ok _ \<Rightarrow> mw_commandAnalize ser cb s1
         | Throw e \<Rightarrow> Some (Ok (), s1)
         | Undef \<Rightarrow> Some (Undef, s1)))"

definition mw_reciveCommand ::
  "(json \<Rightarrow> string) \<Rightarrow> ('p, 'w) move_callback \<Rightarrow> 'p parser_ops \<Rightarrow> nat \<Rightarrow> bool \<Rightarrow> string \<Rightarrow>
     ('p, 'w) mw \<Rightarrow> (unit res \<times> ('p, 'w) mw) option" where
  "mw_reciveCommand ser cb ops uninit err data s =
     (if err then Some (Ok (), mw_restart s)
      else case recv_check ops uninit data (mw_parser s) (mw_queue s) of
             None \<Rightarrow> None
           | Some (st, p, q) \<Rightarrow>
               (let s1 = s\<lparr>mw_parser := p, mw_queue := q\<rparr> in
                case st of
                  Recv_not_full \<Rightarrow> Some (Ok (), s1\<lparr>mw_recvs := mw_recvs s1 + 1\<rparr>)
                | Recv_failed \<Rightarrow> Some (Ok (), s1)
                | Recv_success \<Rightarrow>
                    map_option (\<lambda>(r, s2). (r, s2\<lparr>mw_queue := []\<rparr>)) (mw_commandAnalize ser cb s1)))"

section \<open>When the command loop returns\<close>

text \<open>
  What one pass of the loop does with the first message: takes it, leaves the loop by an
  exception, or keeps it for the next pass.
\<close>

datatype msg_class = Pops | Raises | Stuck

definition str_ok :: "json \<Rightarrow> string list \<Rightarrow> bool" where
  "str_ok v ks = is_ok (str_member v ks)"

definition mw_class :: "string smap \<Rightarrow> json \<Rightarrow> msg_class" where
  "mw_class lu v =
     (case json_at v ''target'' of
        Ok t \<Rightarrow>
          (if t = JStr ''ping'' \<or> t = JStr ''disconnect'' \<or> t = JStr ''connect'' then Pops
           else if t = JStr ''move_lift'' then
             (if \<not> str_ok v [''request'', ''station_id''] then Raises
              else if is_ok (bind_res (str_member v [''request'', ''mqtt_command'', ''lb_id'']) (smap_at lu))
              then (if str_ok v [''request'', ''mqtt_command'', ''value''] then Pops else Raises)
              else Stuck)
           else Stuck)
      | _ \<Rightarrow> Raises)"

definition queue_returns :: "string smap \<Rightarrow> json list \<Rightarrow> bool" where
  "queue_returns lu q =
     (case dropWhile (\<lambda>v. mw_class lu v = Pops) q of [] \<Rightarrow> True | v # _ \<Rightarrow> mw_class lu v = Raises)"

text \<open>A callback that returns and leaves the queue and the table of lifts alone.\<close>

definition cb_returns :: "('p, 'w) move_callback \<Rightarrow> bool" where
  "cb_returns cb \<longleftrightarrow> (\<forall>d f st s. \<exists>s'. cb d f st s = (Ok (), s') \<and> mw_queue s' = mw_queue s \<and>
     mw_lu_id_descriptor s' = mw_lu_id_descriptor s)"

lemma str_member_not_Undef [simp]: "str_member v ks \<noteq> Undef"
  by (auto simp: str_member_def res_iffs)

lemma bind_smap_at_not_Undef [simp]: "bind_res (str_member v ks) (smap_at lu) \<noteq> Undef"
  by (simp add: res_iffs)

lemma mw_connectAnalize_keeps:
  "mw_queue (mw_connectAnalize s) = tl (mw_queue s)"
  "mw_lu_id_descriptor (mw_connectAnalize s) = mw_lu_id_descriptor s"
  by (simp_all add: mw_connectAnalize_def mw_stop_def split: res.splits)

lemma mw_front_class:
  assumes "cb_returns cb"
  shows "\<exists>r s1. mw_analize_front ser cb s = (r, s1) \<and> mw_lu_id_descriptor s1 = mw_lu_id_descriptor s \<and>
     (case mw_class (mw_lu_id_descriptor s) (hd (mw_queue s)) of
        Pops \<Rightarrow> r = Ok () \<and> mw_queue s1 = tl (mw_queue s)
      | Raises \<Rightarrow> (\<exists>e. r = Throw e)
      | Stuck \<Rightarrow> r = Ok () \<and> mw_queue s1 = mw_queue s)"
proof -
  let ?v = "hd (mw_queue s)"
  have move: "\<exists>r s1. mw_moveLift ser cb s = (r, s1) \<and> mw_lu_id_descriptor s1 = mw_lu_id_descriptor s \<and>
     (case mw_class (mw_lu_id_descriptor s) ?v of
        Pops \<Rightarrow> r = Ok () \<and> mw_queue s1 = tl (mw_queue s)
      | Raises \<Rightarrow> (\<exists>e. r = Throw e)
      | Stuck \<Rightarrow> r = Ok () \<and> mw_queue s1 = mw_queue s)"
    if "json_at ?v ''target'' = Ok (JStr ''move_lift'')"
  proof (cases "bind_res (str_member ?v [''request'', ''mqtt_command'', ''lb_id'']) (smap_at (mw_lu_id_descriptor s))")
    case (Ok d)
    note d = this
    show ?thesis
    proof (cases "str_member ?v [''request'', ''mqtt_command'', ''value'']")
      case (Ok f)
      note f = this
      show ?thesis
      proof (cases "str_member ?v [''request'', ''station_id'']")
        case (Ok st)
        from assms obtain s' where "cb d f st s = (Ok (), s')" "mw_queue s' = mw_queue s"
          "mw_lu_id_descriptor s' = mw_lu_id_descriptor s" by (metis cb_returns_def)
        with d f Ok that show ?thesis by (simp add: mw_moveLift_def mw_class_def str_ok_def)
      qed (use d f that in \<open>simp_all add: mw_moveLift_def mw_class_def str_ok_def\<close>)
    qed (use d that in \<open>auto simp: mw_moveLift_def mw_class_def str_ok_def\<close>)
  next
    case (Throw e)
    with that show ?thesis
      by (cases "str_member ?v [''request'', ''station_id'']")
        (simp_all add: mw_moveLift_def mw_class_def str_ok_def mw_async_send_def)
  qed simp
  show ?thesis
  proof (cases "json_at ?v ''target''")
    case (Ok t)
    show ?thesis
    proof (cases "t = JStr ''move_lift''")
      case True
      with Ok move show ?thesis by (simp add: mw_analize_front_def)
    next
      case False
      with Ok show ?thesis
        by (auto simp: mw_analize_front_def mw_class_def mw_responsePing_def mw_responseDisconnect_def
            mw_async_send_def mw_connectAnalize_keeps)
    qed
  qed (simp_all add: mw_analize_front_def mw_class_def)
qed

lemma queue_returns_Cons:
  "queue_returns lu (v # q) =
     (case mw_class lu v of Pops \<Rightarrow> queue_returns lu q | Raises \<Rightarrow> True | Stuck \<Rightarrow> False)"
  by (simp add: queue_returns_def split: msg_class.split)

lemma mw_loop_empty: "mw_queue s = [] \<Longrightarrow> mw_commandAnalize ser cb s = Some (Ok (), s)"
  by (subst mw_commandAnalize.simps) simp

lemma mw_front_cases [consumes 2, case_names pops raises stuck]:
  assumes "cb_returns cb" and "mw_queue s = v # q"
  obtains s1 where "mw_class (mw_lu_id_descriptor s) v = Pops" "mw_analize_front ser cb s = (Ok (), s1)"
      "mw_queue s1 = q" "mw_lu_id_descriptor s1 = mw_lu_id_descriptor s"
    | e s1 where "mw_class (mw_lu_id_descriptor s) v = Raises" "mw_analize_front ser cb s = (Throw e, s1)"
    | s1 where "mw_class (mw_lu_id_descriptor s) v = Stuck" "mw_analize_front ser cb s = (Ok (), s1)"
      "mw_queue s1 = mw_queue s" "mw_lu_id_descriptor s1 = mw_lu_id_descriptor s"
  using mw_front_class [OF assms(1), of ser s] assms(2)
  by (cases "mw_class (mw_lu_id_descriptor s) v") auto

lemma mw_loop_diverges:
  "mw_commandAnalize ser cb s = Some r \<Longrightarrow>
   cb_returns cb \<longrightarrow> queue_returns (mw_lu_id_descriptor s) (mw_queue s)"
proof (induction rule: mw_commandAnalize.raw_induct [rotated, consumes 1, case_names step])
  case (step loop ser cb s r)
  show ?case
  proof (cases "mw_queue s")
    case Nil
    then show ?thesis by (simp add: queue_returns_def)
  next
    case (Cons v q)
    show ?thesis
    proof
      assume "cb_returns cb"
      then show "queue_returns (mw_lu_id_descriptor s) (mw_queue s)"
        using Cons
      proof (cases rule: mw_front_cases [of cb s v q ser])
        case (pops s1)
        with step(2) Cons have "loop ser cb s1 = Some r" by simp
        from step(1) [OF this] pops Cons \<open>cb_returns cb\<close> show ?thesis by (simp add: queue_returns_Cons)
      next
        case (raises e s1)
        then show ?thesis by (simp add: Cons queue_returns_Cons)
      next
        case (stuck s1)
        with step(2) Cons have "loop ser cb s1 = Some r" by simp
        from step(1) [OF this] stuck \<open>cb_returns cb\<close> show ?thesis by simp
      qed
    qed
  qed
qed

lemma mw_loop_returns:
  assumes "cb_returns cb"
  shows "queue_returns (mw_lu_id_descriptor s) (mw_queue s) \<Longrightarrow>
     \<exists>s'. mw_commandAnalize ser cb s = Some (Ok (), s')"
proof (induction "length (mw_queue s)" arbitrary: s rule: less_induct)
  case less
  show ?case
  proof (cases "mw_queue s")
    case Nil
    then show ?thesis by (subst mw_commandAnalize.simps) simp
  next
    case (Cons v q)
    with assms show ?thesis
    proof (cases rule: mw_front_cases [of cb s v q ser])
      case (pops s1)
      with less.prems Cons have "queue_returns (mw_lu_id_descriptor s1) (mw_queue s1)"
        "length (mw_queue s1) < length (mw_queue s)" by (simp_all add: queue_returns_Cons)
      from less.hyps [OF this(2,1)] pops Cons show ?thesis
        by (subst mw_commandAnalize.simps) simp
    next
      case (raises e s1)
      with Cons show ?thesis by (subst mw_commandAnalize.simps) simp
    next
      case (stuck s1)
      with less.prems Cons show ?thesis by (simp add: queue_returns_Cons)
    qed
  qed
qed

section \<open>Properties\<close>

text \<open>
  The worker's command loop returns exactly when every queued message before the first
  malformed one is a ping, a disconnect, a login answer or a command for a lift it knows. A
  well-formed command for a lift that is not in its table, or an unknown target, keeps the
  loop running for ever (it sends the same error answer each time round).
\<close>

theorem worker_loop_returns_iff:
  assumes "cb_returns cb"
  shows "(\<exists>r. mw_commandAnalize ser cb s = Some r) \<longleftrightarrow>
     queue_returns (mw_lu_id_descriptor s) (mw_queue s)"
  using mw_loop_diverges mw_loop_returns [OF assms] assms by blast

definition quiet_callback :: "('p, 'w) move_callback" where
  "quiet_callback d f st s = (Ok (), s)"

lemma quiet_callback_returns: "cb_returns quiet_callback"
  by (simp add: cb_returns_def quiet_callback_def)

theorem worker_loop_returns_iff_witness:
  "\<not> (\<exists>r. mw_commandAnalize (\<lambda>_. ''x'') quiet_callback
     ((mw_new ''1'' () ())\<lparr>mw_queue := [worker_request_mqtt_move ''Main_server'' ''st'' ''77'' 5]\<rparr>) = Some r)"
proof -
  let ?s = "(mw_new ''1'' () ())\<lparr>mw_queue := [worker_request_mqtt_move ''Main_server'' ''st'' ''77'' 5]\<rparr>"
  have "mw_class (mw_lu_id_descriptor ?s) (worker_request_mqtt_move ''Main_server'' ''st'' ''77'' 5) = Stuck"
    by (simp add: mw_class_def worker_request_mqtt_move_def str_ok_def str_member_def mw_new_def smap_at_def)
  then have "\<not> queue_returns (mw_lu_id_descriptor ?s) (mw_queue ?s)"
    by (simp add: queue_returns_def)
  with worker_loop_returns_iff [OF quiet_callback_returns, of "\<lambda>_. ''x''" ?s] show ?thesis by blast
qed

lemma c_str_id: "CHR 0x00 \<notin> set s \<Longrightarrow> c_str s = s"
  by (auto simp: c_str_def takeWhile_eq_all_conv)

lemma nat_to_string_no_nul: "CHR 0x00 \<notin> set (nat_to_string n)"
  using nat_to_string_digits [of n] by (auto simp: is_digit_def)

lemma to_string_no_nul: "CHR 0x00 \<notin> set (to_string i)"
  using nat_to_string_no_nul by (auto simp: to_string_def)

text \<open>
  A lift command as the main server writes it reaches the worker's callback with the
  descriptor of the lift, the floor in decimal and the station, and is then taken from the
  queue.
\<close>

theorem move_command_reaches_callback:
  assumes "mw_queue s = worker_request_mqtt_move sender station lb floor # q"
    and "smap_get (mw_lu_id_descriptor s) lb = Some d"
    and "CHR 0x00 \<notin> set station" and "CHR 0x00 \<notin> set lb"
    and "cb d (to_string floor) station s = (Ok (), s')" and "mw_queue s' = mw_queue s"
  shows "mw_analize_front ser cb s = (Ok (), s'\<lparr>mw_queue := q\<rparr>)"
proof -
  let ?v = "worker_request_mqtt_move sender station lb floor"
  have v: "str_member ?v [''request'', ''mqtt_command'', ''lb_id''] = Ok lb"
    "str_member ?v [''request'', ''mqtt_command'', ''value''] = Ok (to_string floor)"
    "str_member ?v [''request'', ''station_id''] = Ok station"
    using assms(3,4) to_string_no_nul [of floor]
    by (simp_all add: str_member_def worker_request_mqtt_move_def c_str_id)
  have t: "json_at ?v ''target'' = Ok (JStr ''move_lift'')" by (simp add: worker_request_mqtt_move_def)
  show ?thesis
    using assms(1,2,5,6) v t by (simp add: mw_analize_front_def mw_moveLift_def smap_at_def)
qed

theorem move_command_reaches_callback_witness:
  "mw_analize_front (\<lambda>_. ''x'') quiet_callback
     ((mw_new ''1'' () ())\<lparr>mw_queue := [worker_request_mqtt_move ''Main_server'' ''st'' ''77'' 5],
        mw_lu_id_descriptor := [(''77'', ''\"127\"'')]\<rparr>) =
   (Ok (), (mw_new ''1'' () ())\<lparr>mw_queue := [], mw_lu_id_descriptor := [(''77'', ''\"127\"'')]\<rparr>)"
  using move_command_reaches_callback [where s = "(mw_new ''1'' () ())\<lparr>mw_queue := [worker_request_mqtt_move ''Main_server'' ''st'' ''77'' 5],
        mw_lu_id_descriptor := [(''77'', ''\"127\"'')]\<rparr>" and cb = quiet_callback and q = "[]"
      and sender = "''Main_server''" and station = "''st''" and lb = "''77''" and floor = 5
      and d = "''\"127\"''" and ser = "\<lambda>_. ''x''"]
  by (simp add: quiet_callback_def mw_new_def)

end
