(* ===== verification/DataBaseServer.thy ===== *)
theory DataBaseServer
  imports Framing
begin

text \<open>
  \<open>DataBase/Modules/Server/DataBaseServer.hpp\<close>: one session of the database server. A
  completion handler takes the session and the completion's arguments and returns the new
  session; the asynchronous operations it starts and its log calls are appended to
  \<open>db_acts\<close>. A handler that is left by an exception (which ends the server process)
  gives \<open>Throw\<close>; \<open>None\<close> is a handler that never returns.
\<close>

section \<open>The state of a session\<close>

datatype db_handler = H_connectAnalize | H_resAutentification | H_waitCommand | H_sendCommand

datatype db_act =
    Receive db_handler
  | Send string db_handler
  | Send_rest nat nat db_handler
  | Pause nat
  | Write_log int string
  | Temp_log int string

record 'p db_session =
  db_connected :: bool
  db_buf_send :: string
  db_queue :: "json list"
  db_parser :: 'p
  db_query :: string
  db_error_what :: string
  db_answer :: "string list smap"
  db_wrong_connect :: bool
  db_flag_send :: bool
  db_flag_exit :: bool
  db_json :: json
  db_acts :: "db_act list"

definition db_name :: string where "db_name = ''Data_base''"

definition db_new :: "'p \<Rightarrow> 'p db_session" where
  "db_new p0 =
     \<lparr>db_connected = True, db_buf_send = [], db_queue = [], db_parser = p0, db_query = [],
      db_error_what = [], db_answer = [], db_wrong_connect = False, db_flag_send = False,
      db_flag_exit = False, db_json = JNull, db_acts = []\<rparr>"

definition db_do :: "db_act list \<Rightarrow> 'p db_session \<Rightarrow> 'p db_session" where
  "db_do as s = s\<lparr>db_acts := db_acts s @ as\<rparr>"

lemma db_do_simps [simp]:
  "db_connected (db_do as s) = db_connected s" "db_buf_send (db_do as s) = db_buf_send s"
  "db_queue (db_do as s) = db_queue s" "db_parser (db_do as s) = db_parser s"
  "db_query (db_do as s) = db_query s" "db_answer (db_do as s) = db_answer s"
  "db_wrong_connect (db_do as s) = db_wrong_connect s" "db_flag_send (db_do as s) = db_flag_send s"
  "db_flag_exit (db_do as s) = db_flag_exit s" "db_json (db_do as s) = db_json s"
  "db_error_what (db_do as s) = db_error_what s" "db_acts (db_do as s) = db_acts s @ as"
  by (simp_all add: db_do_def)

text \<open>
  The database engine behind \<open>sqlite3_open\<close> and \<open>sqlite3_exec\<close>: whether the file opens,
  the rows handed to the callback for a query (column name and text, no text for NULL) and
  whether the execution ends with \<open>SQLITE_OK\<close>.
\<close>

type_synonym sql_row = "(string \<times> string option) list"

record sql_engine =
  sql_opens :: bool
  sql_rows :: "string \<Rightarrow> sql_row list"
  sql_ok :: "string \<Rightarrow> bool"

section \<open>The row callback\<close>

text \<open>
  \<open>__connection\<close>: every cell is appended to the column of its name. A NULL cell makes a
  \<open>std::string\<close> from a null pointer, and the callback then ends without a result.
\<close>

fun db_connection :: "sql_row \<Rightarrow> string list smap \<Rightarrow> string list smap res" where
  "db_connection [] m = Ok m"
| "db_connection ((col_name, cell) # cells) m =
     (case cell of
        None \<Rightarrow> Undef
      | Some buf_answer \<Rightarrow>
          (let buf_vec = (case smap_at m col_name of Ok v \<Rightarrow> v @ [buf_answer] | _ \<Rightarrow> [buf_answer])
           in db_connection cells (smap_put col_name buf_vec m)))"

fun db_exec_rows :: "sql_row list \<Rightarrow> string list smap \<Rightarrow> string list smap res" where
  "db_exec_rows [] m = Ok m"
| "db_exec_rows (r # rs) m = bind_res (db_connection r m) (db_exec_rows rs)"

section \<open>Stopping\<close>

text \<open>
  \<open>shutdown\<close> throws on a socket that is not connected; the handler then keeps the exit
  flag as it was.
\<close>

definition db_stop :: "'p db_session \<Rightarrow> 'p db_session" where
  "db_stop s =
     (if db_connected s
      then db_do [Write_log 0 ''End_Connect'', Temp_log 0 ''End_Connect'']
             (s\<lparr>db_connected := False, db_flag_exit := True\<rparr>)
      else s)"

definition db_start :: "sql_engine \<Rightarrow> 'p db_session \<Rightarrow> 'p db_session" where
  "db_start eng s =
     (let s1 = db_do [Write_log 0 ''Connect_with_DataBase'', Temp_log 0 ''Connect_with_DataBase''] s
      in if \<not> sql_opens eng then db_stop s1
         else db_do [Receive H_connectAnalize] (s1\<lparr>db_buf_send := []\<rparr>))"

section \<open>The answers\<close>

definition db_makePing :: "(json \<Rightarrow> string) \<Rightarrow> 'p db_session \<Rightarrow> 'p db_session" where
  "db_makePing ser s = s\<lparr>db_buf_send := ser (database_response_ping db_name)\<rparr>"

definition db_makeDisconnect :: "(json \<Rightarrow> string) \<Rightarrow> 'p db_session \<Rightarrow> 'p db_session" where
  "db_makeDisconnect ser s =
     s\<lparr>db_buf_send := ser (database_response_disconnect db_name), db_wrong_connect := True\<rparr>"

definition db_makeError :: "'p db_session \<Rightarrow> 'p db_session" where
  "db_makeError s = s\<lparr>db_buf_send := []\<rparr>"

text \<open>\<open>__makeQuery\<close>: every path of its exceptions leaves the handler that called it.\<close>

definition request_fields :: "json \<Rightarrow> string list res" where
  "request_fields v =
     bind_res (json_path v [''request'', ''fields'']) (\<lambda>f.
     bind_res (as_array f) (mapM_res as_string))"

definition request_query :: "json \<Rightarrow> string res" where
  "request_query v = bind_res (json_path v [''request'', ''query'']) as_string"

definition pick_fields :: "string list \<Rightarrow> string list smap \<Rightarrow> string list smap res" where
  "pick_fields flds ans =
     map_res (\<lambda>vss. fold (\<lambda>(f, vs). smap_put f vs) (zip flds vss) []) (mapM_res (smap_at ans) flds)"

definition db_makeQuery ::
  "sql_engine \<Rightarrow> (json \<Rightarrow> string) \<Rightarrow> 'p db_session \<Rightarrow> unit res \<times> 'p db_session" where
  "db_makeQuery eng ser s =
     (case request_fields (db_json s) of
        Throw e \<Rightarrow> (Throw e, s)
      | Undef \<Rightarrow> (Undef, s)
      | Ok flds \<Rightarrow>
          (let s1 = s\<lparr>db_query := [], db_answer := []\<rparr> in
           case request_query (db_json s) of
             Throw e \<Rightarrow> (Throw e, s1)
           | Undef \<Rightarrow> (Undef, s1)
           | Ok q \<Rightarrow>
               (let s2 = s1\<lparr>db_query := q\<rparr> in
                if \<not> sql_opens eng then (Ok (), db_makeDisconnect ser s2)
                else case db_exec_rows (sql_rows eng q) [] of
                       Throw e \<Rightarrow> (Throw e, s2)
                     | Undef \<Rightarrow> (Undef, s2)
                     | Ok ans \<Rightarrow>
                         (let s3 = s2\<lparr>db_answer := ans\<rparr> in
                          if \<not> sql_ok eng q then (Ok (), db_makeDisconnect ser s3)
                          else case pick_fields flds ans of
                                 Throw e \<Rightarrow> (Throw e, s3)
                               | Undef \<Rightarrow> (Undef, s3)
                               | Ok response \<Rightarrow>
                                   (Ok (), s3\<lparr>db_buf_send :=
                                      ser (database_response_query db_name SELECT response)\<rparr>)))))"

section \<open>Authentication\<close>

definition accounts_query :: string where "accounts_query = ''SELECT * FROM Accounts''"

text \<open>
  The comparison inside the \<open>try\<close>: a login that is not in the table leaves \<open>num_pus\<close> at
  \<open>-1\<close>, and \<open>__password[num_pus]\<close> reads outside the vector.
\<close>

definition password_matches :: "string list smap \<Rightarrow> string \<Rightarrow> string \<Rightarrow> bool res" where
  "password_matches ans login password =
     bind_res (smap_at ans ''Login'') (\<lambda>logins.
     bind_res (smap_at ans ''Password'') (\<lambda>passwords.
       (let i = search_pos (\<lambda>l. quoted l = login) logins in
        if i < length logins
        then map_res (\<lambda>p. quoted p = password) (vec_idx passwords i)
        else Undef)))"

definition db_checkConnect ::
  "sql_engine \<Rightarrow> (json \<Rightarrow> string) \<Rightarrow> string \<Rightarrow> string \<Rightarrow> 'p db_session \<Rightarrow> unit res \<times> 'p db_session" where
  "db_checkConnect eng ser login password s =
     (if \<not> sql_opens eng then
        (Ok (), s\<lparr>db_buf_send := ser (database_response_connect_error db_name CONNECT ''No dataBase''),
                 db_wrong_connect := True\<rparr>)
      else
        (let s1 = s\<lparr>db_query := accounts_query, db_buf_send := [], db_answer := []\<rparr> in
         case db_exec_rows (sql_rows eng accounts_query) [] of
           Throw e \<Rightarrow> (Throw e, s1)
         | Undef \<Rightarrow> (Undef, s1)
         | Ok ans \<Rightarrow>
             (let s2 = s1\<lparr>db_answer := ans\<rparr> in
              if \<not> sql_ok eng accounts_query then
                (Ok (), s2\<lparr>db_buf_send :=
                            ser (database_response_connect_error db_name CONNECT ''User not found''),
                          db_wrong_connect := True\<rparr>)
              else case password_matches ans login password of
                     Undef \<Rightarrow> (Undef, s2)
                   | Throw e \<Rightarrow> (Ok (), s2)
                   | Ok True \<Rightarrow> (Ok (), s2\<lparr>db_buf_send := ser (database_response_connect db_name)\<rparr>)
                   | Ok False \<Rightarrow>
                       (Ok (), s2\<lparr>db_buf_send :=
                                   ser (database_response_connect_error db_name CONNECT ''Password mismatch''),
                                 db_wrong_connect := True\<rparr>))))"

definition request_credentials :: "(json \<Rightarrow> string) \<Rightarrow> json \<Rightarrow> (string \<times> string) res" where
  "request_credentials ser v =
     bind_res (json_path v [''request'', ''login'']) (\<lambda>l.
     map_res (\<lambda>p. (ser l, ser p)) (json_path v [''request'', ''password'']))"

text \<open>
  The loop of \<open>__connectAnalize\<close> over the queued messages, each in its own \<open>try\<close>.
\<close>

fun db_auth_loop ::
  "sql_engine \<Rightarrow> (json \<Rightarrow> string) \<Rightarrow> json list \<Rightarrow> 'p db_session \<Rightarrow> unit res \<times> 'p db_session" where
  "db_auth_loop eng ser [] s = (Ok (), s)"
| "db_auth_loop eng ser (v # q) s =
     (let s1 = s\<lparr>db_json := v, db_queue := q\<rparr> in
      case request_credentials ser v of
        Undef \<Rightarrow> (Undef, s1)
      | Throw e \<Rightarrow> db_auth_loop eng ser q (db_do [Receive H_connectAnalize] s1)
      | Ok (login, password) \<Rightarrow>
          (case db_checkConnect eng ser login password s1 of
             (Undef, s2) \<Rightarrow> (Undef, s2)
           | (Throw e, s2) \<Rightarrow> db_auth_loop eng ser q (db_do [Receive H_connectAnalize] s2)
           | (Ok _, s2) \<Rightarrow>
               (let s3 = (if q = [] then s2\<lparr>db_flag_send := True\<rparr> else s2) in
                db_auth_loop eng ser q
                  (db_do [Send (db_buf_send s3) H_resAutentification, Temp_log 0 ''send_answer_to_connect''] s3))))"

text \<open>
  Every receive handler begins with the framing loop; on an incomplete or a failed message
  it waits for more with the \<^emph>\<open>connect\<close> handler, also in \<open>__waitCommand\<close>.
\<close>

definition db_connectAnalize ::
  "sql_engine \<Rightarrow> (json \<Rightarrow> string) \<Rightarrow> 'p parser_ops \<Rightarrow> nat \<Rightarrow> bool \<Rightarrow> string \<Rightarrow> 'p db_session \<Rightarrow>
     (unit res \<times> 'p db_session) option" where
  "db_connectAnalize eng ser ops uninit err data s =
     (if err then
        Some (Ok (), db_do [Pause 1, Write_log 2 ''Error_failed_to_read_request'',
                            Temp_log 2 ''Error_failed_to_read_request'', Receive H_connectAnalize] s)
      else case recv_check ops uninit data (db_parser s) (db_queue s) of
             None \<Rightarrow> None
           | Some (st, p, q) \<Rightarrow>
               (let s1 = s\<lparr>db_parser := p, db_queue := q\<rparr> in
                if st \<noteq> Recv_success then Some (Ok (), db_do [Receive H_connectAnalize] s1)
                else Some (db_auth_loop eng ser q s1)))"

section \<open>Commands\<close>

definition db_checkCommand :: "'p db_session \<Rightarrow> string res \<times> 'p db_session" where
  "db_checkCommand s =
     (case json_at (db_json s) ''target'' of
        Throw e \<Rightarrow> (Throw e, s)
      | Undef \<Rightarrow> (Undef, s)
      | Ok t \<Rightarrow>
          (if t = JStr ''ping'' then (Ok ''ping'', s)
           else if t = JStr ''disconnect'' then (Ok ''disconnect'', s)
           else if t = JStr ''db_query'' then (Ok ''db_query'', s)
           else if t = JStr ''connect'' then (Ok ''connect'', s)
           else (Ok ''error'', db_do [Temp_log 2 ''No_command'']
                                 (s\<lparr>db_error_what := ''non-existent command''\<rparr>))))"

definition db_dispatch ::
  "sql_engine \<Rightarrow> (json \<Rightarrow> string) \<Rightarrow> 'p parser_ops \<Rightarrow> nat \<Rightarrow> nat \<Rightarrow> string \<Rightarrow> 'p db_session \<Rightarrow>
     (unit res \<times> 'p db_session) option" where
  "db_dispatch eng ser ops uninit nbytes command s =
     (if command = ''ping'' then Some (Ok (), db_makePing ser (db_do [Temp_log 0 ''Make_ping_response''] s))
      else if command = ''disconnect'' then
        Some (Ok (), db_makeDisconnect ser (db_do [Temp_log 0 ''Make_disconnect_response''] s))
      else if command = ''db_query'' then
        Some (db_makeQuery eng ser (db_do [Temp_log 0 ''Make_query_response''] s))
      else if command = ''error'' then
        Some (Ok (), db_makeError (db_do [Temp_log 0 ''Make_error_response''] s))
      else if command = ''connect'' then
        db_connectAnalize eng ser ops uninit False (replicate nbytes CHR 0x00)
          (db_do [Temp_log 0 ''Start_connect''] s)
      else Some (Ok (), s))"

partial_function (option) db_command_loop ::
  "sql_engine \<Rightarrow> (json \<Rightarrow> string) \<Rightarrow> 'p parser_ops \<Rightarrow> nat \<Rightarrow> nat \<Rightarrow> 'p db_session \<Rightarrow>
     (unit res \<times> 'p db_session) option" where
  "db_command_loop eng ser ops uninit nbytes s =
     (case db_queue s of
        [] \<Rightarrow> Some (Ok (), s)
      | v # q \<Rightarrow>
          (case db_checkCommand (s\<lparr>db_json := v, db_queue := q\<rparr>) of (c, s1) \<Rightarrow>
            (case c of
               Throw e \<Rightarrow> Some (Throw e, s1)
             | Undef \<Rightarrow> Some (Undef, s1)
             | Ok command \<Rightarrow>
                 (case db_dispatch eng ser ops uninit nbytes command s1 of
                    None \<Rightarrow> None
                  | Some (r, s2) \<Rightarrow>
                      (case r of
                         Throw e \<Rightarrow> Some (Throw e, s2)
                       | Undef \<Rightarrow> Some (Undef, s2)
                       | Ok _ \<Rightarrow>
                           (let s3 = (if db_queue s2 = [] then s2\<lparr>db_flag_send := True\<rparr> else s2)
                            in db_command_loop eng ser ops uninit nbytes
                                 (db_do [Write_log 0 ''Send_response_command'',
                                         Temp_log 0 ''Send_response_command'',
                                         Send (db_buf_send s3) H_sendCommand] s3)))))))"

definition db_waitCommand ::
  "sql_engine \<Rightarrow> (json \<Rightarrow> string) \<Rightarrow> 'p parser_ops \<Rightarrow> nat \<Rightarrow> bool \<Rightarrow> string \<Rightarrow> 'p db_session \<Rightarrow>
     (unit res \<times> 'p db_session) option" where
  "db_waitCommand eng ser ops uninit err data s =
     (if err then
        Some (Ok (), db_do [Write_log 2 ''Error_failed_to_read_request'',
                            Temp_log 2 ''Error_failed_to_read_request'', Pause 1, Receive H_waitCommand] s)
      else case recv_check ops uninit data (db_parser s) (db_queue s) of
             None \<Rightarrow> None
           | Some (st, p, q) \<Rightarrow>
               (let s1 = s\<lparr>db_parser := p, db_queue := q\<rparr> in
                if st \<noteq> Recv_success then Some (Ok (), db_do [Receive H_connectAnalize] s1)
                else db_command_loop eng ser ops uninit (length data) s1))"

section \<open>Completions of sends\<close>

text \<open>The counter is the handler's static local.\<close>

definition db_resAutentification ::
  "bool \<Rightarrow> nat \<Rightarrow> nat \<times> 'p db_session \<Rightarrow> nat \<times> 'p db_session" where
  "db_resAutentification err bytes_send = (\<lambda>(temp_send, s).
     (if err then
        (temp_send, db_do [Write_log 2 ''Error_failed_to_read_response'',
                           Temp_log 2 ''Error_failed_to_read_response'', Pause 2,
                           Send (db_buf_send s) H_resAutentification] s)
      else case send_check (length (db_buf_send s)) bytes_send temp_send of
             (Send_more pos n, t) \<Rightarrow>
               (t, db_do [Temp_log 0 ''Not_full_json'', Send_rest pos n H_resAutentification] s)
           | (Send_success, t) \<Rightarrow>
               (let s1 = db_do [Temp_log 2 ''Receiving_a_request''] (s\<lparr>db_buf_send := []\<rparr>);
                    s2 = (if db_wrong_connect s1 then (db_stop s1)\<lparr>db_wrong_connect := False\<rparr> else s1)
                in (0, if db_flag_send s2
                       then db_do [Receive H_waitCommand] (s2\<lparr>db_flag_send := False\<rparr>) else s2))))"

definition db_sendCommand ::
  "bool \<Rightarrow> nat \<Rightarrow> nat \<times> 'p db_session \<Rightarrow> nat \<times> 'p db_session" where
  "db_sendCommand err bytes_send = (\<lambda>(temp_send, s).
     (if err then
        (temp_send, db_do [Write_log 2 ''Error_send_response_command'',
                           Temp_log 2 ''Error_send_response_command'', Pause 1,
                           Send (db_buf_send s) H_sendCommand] s)
      else case send_check (length (db_buf_send s)) bytes_send temp_send of
             (Send_more pos n, t) \<Rightarrow>
               (t, db_do [Temp_log 0 ''Not_full_json'', Send_rest pos n H_sendCommand] s)
           | (Send_success, t) \<Rightarrow>
               (let s1 = s\<lparr>db_buf_send := []\<rparr> in
                (0, if db_wrong_connect s1 then db_stop (s1\<lparr>db_wrong_connect := False\<rparr>)
                    else if db_flag_send s1
                         then db_do [Temp_log 0 ''Recieve_request'', Receive H_waitCommand] s1
                    else s1))))"

section \<open>The server's sessions\<close>

text \<open>
  \<open>Server::__resetTimer\<close> erases inside its loop: \<open>erase\<close> invalidates the iterator that
  the loop goes on with. What is kept here of a session is its exit flag.
\<close>

definition db_server_stop :: "'p db_session list \<Rightarrow> 'p db_session list \<times> 'p db_session list" where
  "db_server_stop sessions = (map db_stop sessions, [])"

fun db_server_reset :: "'p db_session list \<Rightarrow> 'p db_session list res" where
  "db_server_reset [] = Ok []"
| "db_server_reset (i # rest) =
     (if db_flag_exit i then Undef else map_res ((#) i) (db_server_reset rest))"

text \<open>
  \<open>__doAccept\<close>: after an error it starts a second accept and then still makes a session of
  the socket it was given. The result is the sessions and the number of accepts started.
\<close>

definition db_server_accept ::
  "sql_engine \<Rightarrow> bool \<Rightarrow> 'p db_session \<Rightarrow> 'p db_session list \<Rightarrow> 'p db_session list \<times> nat" where
  "db_server_accept eng err new sessions =
     (sessions @ [db_start eng new], (if err then 2 else 1))"

lemma db_server_reset_Undef_iff:
  "db_server_reset ss = Undef \<longleftrightarrow> (\<exists>s \<in> set ss. db_flag_exit s)"
  by (induction ss) (auto simp: res_iffs split: if_splits) 

lemma db_server_reset_keeps: "\<forall>s \<in> set ss. \<not> db_flag_exit s \<Longrightarrow> db_server_reset ss = Ok ss"
  by (induction ss) auto

section \<open>Rows and columns\<close>

text \<open>The cells of column \<open>c\<close>, row by row: what the callback is meant to collect.\<close>

definition column :: "string \<Rightarrow> sql_row list \<Rightarrow> string list" where
  "column c rows = map (the \<circ> snd) (filter (\<lambda>p. fst p = c) (concat rows))"

definition no_nulls :: "sql_row list \<Rightarrow> bool" where
  "no_nulls rows \<longleftrightarrow> (\<forall>r \<in> set rows. \<forall>p \<in> set r. snd p \<noteq> None)"

definition table_of :: "string list smap \<Rightarrow> string \<Rightarrow> string list" where
  "table_of m c = (case smap_get m c of None \<Rightarrow> [] | Some v \<Rightarrow> v)"

lemma column_Nil [simp]: "column c [] = []"
  by (simp add: column_def)

lemma db_connection_ok:
  "\<forall>p \<in> set cells. snd p \<noteq> None \<Longrightarrow> smap_inv m \<Longrightarrow>
   \<exists>m'. db_connection cells m = Ok m' \<and> smap_inv m' \<and>
     (\<forall>c. smap_get m' c =
        (if c \<in> fst ` set cells then Some (table_of m c @ column c [cells]) else smap_get m c))"
proof (induction cells arbitrary: m)
  case Nil
  then show ?case by simp
next
  case (Cons p cells)
  obtain c0 x where p: "p = (c0, Some x)" using Cons.prems(1) by (cases p) auto
  let ?v = "table_of m c0 @ [x]"
  have step: "db_connection (p # cells) m = db_connection cells (smap_put c0 ?v m)"
    by (simp add: p table_of_def smap_at_def split: option.splits)
  from Cons.IH [of "smap_put c0 ?v m"] Cons.prems
  obtain m' where m': "db_connection cells (smap_put c0 ?v m) = Ok m'" "smap_inv m'"
    "\<And>c. smap_get m' c = (if c \<in> fst ` set cells
       then Some (table_of (smap_put c0 ?v m) c @ column c [cells]) else smap_get (smap_put c0 ?v m) c)"
    by (auto simp: smap_inv_put)
  have "column c0 [cells] = []" if "c0 \<notin> fst ` set cells"
    using that by (force simp: column_def filter_empty_conv)
  then have "smap_get m' c =
      (if c \<in> fst ` set (p # cells) then Some (table_of m c @ column c [p # cells]) else smap_get m c)" for c
    by (auto simp: m'(3) p column_def table_of_def smap_get_put)
  with m'(1,2) step show ?case by auto
qed

lemma column_Cons: "column c (r # rs) = column c [r] @ column c rs"
  by (simp add: column_def)

lemma column_absent: "c \<notin> fst ` set (concat rows) \<Longrightarrow> column c rows = []"
  by (force simp: column_def filter_empty_conv)

lemma db_exec_rows_ok:
  "no_nulls rows \<Longrightarrow> smap_inv m \<Longrightarrow>
   \<exists>m'. db_exec_rows rows m = Ok m' \<and> smap_inv m' \<and>
     (\<forall>c. smap_get m' c =
        (if c \<in> fst ` set (concat rows) then Some (table_of m c @ column c rows) else smap_get m c))"
proof (induction rows arbitrary: m)
  case Nil
  then show ?case by simp
next
  case (Cons r rs)
  from db_connection_ok [of r m] Cons.prems
  obtain m1 where m1: "db_connection r m = Ok m1" "smap_inv m1"
    "\<And>c. smap_get m1 c = (if c \<in> fst ` set r then Some (table_of m c @ column c [r]) else smap_get m c)"
    by (auto simp: no_nulls_def)
  from Cons.IH [of m1] Cons.prems m1(2)
  obtain m' where m': "db_exec_rows rs m1 = Ok m'" "smap_inv m'"
    "\<And>c. smap_get m' c = (if c \<in> fst ` set (concat rs)
        then Some (table_of m1 c @ column c rs) else smap_get m1 c)"
    by (auto simp: no_nulls_def)
  have t1: "table_of m1 c = table_of m c @ column c [r]" for c
    using column_absent [of c "[r]"] by (auto simp: table_of_def m1(3))
  have "smap_get m' c = (if c \<in> fst ` set (concat (r # rs))
       then Some (table_of m c @ column c (r # rs)) else smap_get m c)" for c
    using column_absent [of c rs] by (auto simp: m'(3) t1 column_Cons [of c r rs] m1(3))
  with m'(1,2) m1(1) show ?case by auto
qed

text \<open>What an execution leaves in \<open>__answer\<close>.\<close>

definition answer_of :: "sql_row list \<Rightarrow> string list smap" where
  "answer_of rows = (case db_exec_rows rows [] of Ok m \<Rightarrow> m | _ \<Rightarrow> [])"

lemma db_exec_rows_answer:
  assumes "no_nulls rows"
  shows "db_exec_rows rows [] = Ok (answer_of rows)" and "smap_inv (answer_of rows)"
    and "smap_get (answer_of rows) c =
           (if c \<in> fst ` set (concat rows) then Some (column c rows) else None)"
proof -
  obtain m where m: "db_exec_rows rows [] = Ok m" "smap_inv m"
    "\<And>c. smap_get m c = (if c \<in> fst ` set (concat rows) then Some (column c rows) else None)"
    using db_exec_rows_ok [OF assms, of "[]"] by (auto simp: table_of_def)
  from m(1) have a: "answer_of rows = m" by (simp add: answer_of_def)
  show "db_exec_rows rows [] = Ok (answer_of rows)" "smap_inv (answer_of rows)"
    "smap_get (answer_of rows) c =
       (if c \<in> fst ` set (concat rows) then Some (column c rows) else None)"
    unfolding a by (rule m)+
qed

section \<open>Properties\<close>

text \<open>
  The row callback collects a table without loss: after an execution that returns rows
  without NULLs, the answer holds for every column exactly its cells in row order, and
  nothing else.
\<close>

theorem exec_collects_columns:
  assumes "no_nulls rows"
  shows "\<exists>m. db_exec_rows rows [] = Ok m \<and> smap_inv m \<and>
     (\<forall>c. smap_get m c = (if c \<in> fst ` set (concat rows) then Some (column c rows) else None))"
  using db_exec_rows_answer [OF assms] by blast

theorem exec_collects_columns_witness:
  "\<exists>m. db_exec_rows [[(''Id'', Some ''1''), (''Port'', Some ''80'')], [(''Id'', Some ''2''), (''Port'', Some ''81'')]] [] = Ok m
     \<and> smap_get m ''Id'' = Some [''1'', ''2'']"
proof -
  let ?rows = "[[(''Id'', Some ''1''), (''Port'', Some ''80'')], [(''Id'', Some ''2''), (''Port'', Some ''81'')]]"
  have "no_nulls ?rows" by (simp add: no_nulls_def)
  from exec_collects_columns [OF this] show ?thesis by (auto simp: column_def)
qed

subsection \<open>Authentication\<close>

text \<open>
  The table of accounts as the engine returns it: one row for each account.
\<close>

definition account_rows :: "(string \<times> string) list \<Rightarrow> sql_row list" where
  "account_rows accounts = map (\<lambda>(l, p). [(''Login'', Some l), (''Password'', Some p)]) accounts"

definition accounts_engine :: "(string \<times> string) list \<Rightarrow> sql_engine \<Rightarrow> bool" where
  "accounts_engine accounts eng \<longleftrightarrow> sql_opens eng \<and> sql_ok eng accounts_query \<and>
     sql_rows eng accounts_query = account_rows accounts"

lemma account_columns:
  "column ''Login'' (account_rows accounts) = map fst accounts"
  "column ''Password'' (account_rows accounts) = map snd accounts"
  by (induction accounts) (auto simp: account_rows_def column_Cons column_def)

lemma account_rows_no_nulls: "no_nulls (account_rows accounts)"
  by (auto simp: no_nulls_def account_rows_def)

lemma account_keys_cases:
  "fst ` set (concat (account_rows accounts)) =
     (if accounts = [] then {} else {''Login'', ''Password''})"
proof (induction accounts)
  case Nil
  then show ?case by (simp add: account_rows_def)
next
  case (Cons a accounts)
  obtain l p where "a = (l, p)" by (cases a)
  then have "fst ` set (concat (account_rows (a # accounts))) =
      {''Login'', ''Password''} \<union> fst ` set (concat (account_rows accounts))"
    by (simp add: account_rows_def image_Un insert_def [symmetric])
  with Cons.IH show ?case by (simp only: if_False list.distinct) auto
qed

lemma account_keys:
  "accounts \<noteq> [] \<Longrightarrow> fst ` set (concat (account_rows accounts)) = {''Login'', ''Password''}"
  by (simp only: account_keys_cases if_False)

lemma account_answer:
  assumes "accounts \<noteq> []"
  shows "smap_at (answer_of (account_rows accounts)) ''Login'' = Ok (map fst accounts)"
    and "smap_at (answer_of (account_rows accounts)) ''Password'' = Ok (map snd accounts)"
  using db_exec_rows_answer(3) [OF account_rows_no_nulls] account_keys [OF assms]
  by (simp_all add: smap_at_Ok_iff account_columns)

text \<open>The first account with the login decides.\<close>

definition find_account :: "(string \<times> string) list \<Rightarrow> string \<Rightarrow> string option" where
  "find_account accounts l = map_of accounts l"

lemma search_pos_map_of:
  "map_of accounts l = Some p \<Longrightarrow>
   search_pos (\<lambda>k. quoted k = quoted l) (map fst accounts) < length accounts \<and>
   map snd accounts ! search_pos (\<lambda>k. quoted k = quoted l) (map fst accounts) = p"
  by (induction accounts) (auto split: if_splits)

lemma search_pos_map_of_None:
  "map_of accounts l = None \<Longrightarrow>
   search_pos (\<lambda>k. quoted k = quoted l) (map fst accounts) = length accounts"
  by (induction accounts) (auto split: if_splits)

lemma password_matches_account:
  assumes "accounts \<noteq> []"
  shows "password_matches (answer_of (account_rows accounts)) (quoted l) (quoted p) =
     (case find_account accounts l of None \<Rightarrow> Undef | Some p' \<Rightarrow> Ok (p' = p))"
  using account_answer [OF assms] search_pos_map_of [of accounts l] search_pos_map_of_None [of accounts l]
  by (auto simp: password_matches_def find_account_def Let_def split: option.splits)


definition sample_engine :: "(string \<times> string) list \<Rightarrow> sql_engine" where
  "sample_engine accounts =
     \<lparr>sql_opens = True, sql_rows = (\<lambda>q. if q = accounts_query then account_rows accounts else []),
      sql_ok = (\<lambda>_. True)\<rparr>"

lemma sample_engine_accounts: "accounts_engine accounts (sample_engine accounts)"
  by (simp add: accounts_engine_def sample_engine_def)


text \<open>
  A login that no account has makes the server read the password vector outside its
  bounds, whatever the password sent.
\<close>

theorem auth_unknown_login_undefined:
  assumes "accounts_engine accounts eng" and "accounts \<noteq> []" and "find_account accounts l = None"
  shows "fst (db_checkConnect eng ser (quoted l) (quoted pw) s) = Undef"
  using password_matches_account [OF assms(2), of l pw] assms
  by (simp add: db_checkConnect_def accounts_engine_def Let_def
      db_exec_rows_answer(1) [OF account_rows_no_nulls])

theorem auth_unknown_login_undefined_witness:
  "fst (db_checkConnect (sample_engine [(''root'', ''pw'')]) (\<lambda>_. ''x'') (quoted ''guest'') (quoted ''pw'')
     (db_new ())) = Undef"
  by (rule auth_unknown_login_undefined [OF sample_engine_accounts])
    (simp_all add: find_account_def)

lemma db_exec_no_rows [simp]: "db_exec_rows [] [] = Ok []"
  by simp

text \<open>
  With an account table that has no rows the answer has no columns, the lookup throws
  inside the \<open>try\<close> and is dropped: the server sends an empty answer, does not mark the
  connection for closing, and once the send completes it waits for commands. Any login and
  password pass.
\<close>

theorem auth_passes_without_accounts:
  assumes "sql_opens eng" and "sql_ok eng accounts_query" and "sql_rows eng accounts_query = []"
    and "request_credentials ser v = Ok (login, password)"
    and "\<not> db_wrong_connect s"
  shows "\<exists>s'. db_auth_loop eng ser [v] s = (Ok (), s') \<and> db_buf_send s' = [] \<and> db_flag_send s' \<and>
     Receive H_waitCommand \<in> set (db_acts (snd (db_resAutentification False 0 (0, s')))) \<and>
     db_connected (snd (db_resAutentification False 0 (0, s'))) = db_connected s"
  using assms
  by (simp add: db_checkConnect_def Let_def password_matches_def smap_at_def
      db_resAutentification_def send_check_def)

theorem auth_passes_without_accounts_witness:
  "\<exists>s'. db_auth_loop (sample_engine []) (\<lambda>_. ''x'') [database_request_connect ''W'' ''a'' ''b''] (db_new ()) = (Ok (), s')
     \<and> Receive H_waitCommand \<in> set (db_acts (snd (db_resAutentification False 0 (0, s'))))"
proof -
  have "\<exists>s'. db_auth_loop (sample_engine []) (\<lambda>_. ''x'') [database_request_connect ''W'' ''a'' ''b'']
        (db_new ()) = (Ok (), s') \<and> db_buf_send s' = [] \<and> db_flag_send s' \<and>
     Receive H_waitCommand \<in> set (db_acts (snd (db_resAutentification False 0 (0, s')))) \<and>
     db_connected (snd (db_resAutentification False 0 (0, s'))) = db_connected (db_new ())"
    by (rule auth_passes_without_accounts [where login = "''x''" and password = "''x''"])
      (simp_all add: sample_engine_def account_rows_def request_credentials_def db_new_def message_defs)
  then show ?thesis by blast
qed

subsection \<open>Queries\<close>

lemma request_fields_query [simp]:
  "request_fields (database_request_query sender SELECT flds q) = Ok flds"
  by (simp add: request_fields_def database_request_query_def)

lemma request_query_query [simp]:
  "request_query (database_request_query sender SELECT flds q) = Ok q"
  by (simp add: request_query_def database_request_query_def)

lemma zip_fold_put:
  "smap_inv m \<Longrightarrow> smap_inv (fold (\<lambda>(f, vs). smap_put f vs) kvs m)"
  by (rule sm.inv_fill)

lemma pick_fields_ok:
  assumes "\<forall>f \<in> set flds. smap_get m f = Some (g f)"
  shows "\<exists>r. pick_fields flds m = Ok r \<and> smap_inv r \<and>
     (\<forall>f. smap_get r f = (if f \<in> set flds then Some (g f) else None))"
proof -
  have m: "mapM_res (smap_at m) flds = Ok (map g flds)"
    using assms by (intro mapM_res_all_Ok) (simp add: smap_at_Ok_iff)
  let ?r = "fold (\<lambda>(f, vs). smap_put f vs) (zip flds (map g flds)) []"
  have "map_of (rev (zip flds (map g flds))) f = (if f \<in> set flds then Some (g f) else None)" for f
    by (induction flds) (auto simp: map_add_def split: option.splits)
  then have "smap_get ?r f = (if f \<in> set flds then Some (g f) else None)" for f
    by (simp add: sm.get_fill_emp)
  moreover have "smap_inv ?r" by (rule sm.inv_fill) simp
  ultimately show ?thesis by (simp add: pick_fields_def m)
qed

lemma pick_fields_missing:
  assumes "\<exists>f \<in> set flds. smap_get m f = None"
  shows "pick_fields flds m = Throw Out_of_range"
proof -
  have "mapM_res (smap_at m) flds = Throw Out_of_range"
    using assms
  proof (induction flds)
    case Nil
    then show ?case by simp
  next
    case (Cons f flds)
    then show ?case by (cases "smap_get m f") (auto simp: smap_at_def)
  qed
  then show ?thesis by (simp add: pick_fields_def)
qed

lemma db_makeQuery_answers:
  assumes "sql_opens eng" and "sql_ok eng q" and "no_nulls (sql_rows eng q)"
    and "set flds \<subseteq> fst ` set (concat (sql_rows eng q))"
    and "db_json s = database_request_query sender SELECT flds q"
  shows "\<exists>response s'. db_makeQuery eng ser s = (Ok (), s') \<and>
     db_buf_send s' = ser (database_response_query db_name SELECT response) \<and> smap_inv response \<and>
     (\<forall>f. smap_get response f =
        (if f \<in> set flds then Some (column f (sql_rows eng q)) else None))"
proof -
  have "\<forall>f \<in> set flds. smap_get (answer_of (sql_rows eng q)) f = Some (column f (sql_rows eng q))"
    using assms(4) by (auto simp: db_exec_rows_answer(3) [OF assms(3)])
  from pick_fields_ok [OF this] obtain r where
    "pick_fields flds (answer_of (sql_rows eng q)) = Ok r" "smap_inv r"
    "\<And>f. smap_get r f = (if f \<in> set flds then Some (column f (sql_rows eng q)) else None)"
    by blast
  note r = this
  have "db_makeQuery eng ser s = (Ok (), s\<lparr>db_query := q, db_answer := answer_of (sql_rows eng q),
      db_buf_send := ser (database_response_query db_name SELECT r)\<rparr>)"
    using assms r(1) by (simp add: db_makeQuery_def Let_def db_exec_rows_answer(1) [OF assms(3)])
  then show ?thesis using r(2,3) by (intro exI conjI) (assumption | simp)+
qed

text \<open>
  A query that selects columns of a table without NULLs is answered with exactly
  these columns: the message in the send buffer carries, for every requested field, the
  cells of that column in row order.
\<close>

theorem query_answers_requested_columns:
  assumes "sql_opens eng" and "sql_ok eng q" and "no_nulls (sql_rows eng q)"
    and "set flds \<subseteq> fst ` set (concat (sql_rows eng q))"
    and "db_json s = database_request_query sender SELECT flds q"
  shows "\<exists>response s'. db_makeQuery eng ser s = (Ok (), s') \<and>
     db_buf_send s' = ser (database_response_query db_name SELECT response) \<and> smap_inv response \<and>
     (\<forall>f. smap_get response f =
        (if f \<in> set flds then Some (column f (sql_rows eng q)) else None))"
  by (rule db_makeQuery_answers [OF assms])

definition id_engine :: sql_engine where
  "id_engine = \<lparr>sql_opens = True, sql_rows = (\<lambda>_. [[(''Id'', Some ''1'')], [(''Id'', Some ''2'')]]),
     sql_ok = (\<lambda>_. True)\<rparr>"

theorem query_answers_requested_columns_witness:
  "\<exists>response s'. db_makeQuery id_engine (\<lambda>_. ''x'')
        ((db_new ())\<lparr>db_json := database_request_query ''W'' SELECT [''Id''] ''SELECT Id FROM T''\<rparr>) = (Ok (), s') \<and>
     smap_get response ''Id'' = Some [''1'', ''2'']"
proof -
  let ?s = "(db_new ())\<lparr>db_json := database_request_query ''W'' SELECT [''Id''] ''SELECT Id FROM T''\<rparr>"
  have "\<exists>response s'. db_makeQuery id_engine (\<lambda>_. ''x'') ?s = (Ok (), s') \<and>
      db_buf_send s' = ''x'' \<and> smap_inv response \<and>
      (\<forall>f. smap_get response f = (if f \<in> set [''Id''] then
         Some (column f (sql_rows id_engine ''SELECT Id FROM T'')) else None))"
    by (rule query_answers_requested_columns) (simp_all add: id_engine_def no_nulls_def)
  then obtain r s' where "db_makeQuery id_engine (\<lambda>_. ''x'') ?s = (Ok (), s')"
    "\<forall>f. smap_get r f = (if f \<in> set [''Id''] then
         Some (column f (sql_rows id_engine ''SELECT Id FROM T'')) else None)"
    by blast
  moreover have "column ''Id'' (sql_rows id_engine ''SELECT Id FROM T'') = [''1'', ''2'']"
    by (simp add: id_engine_def column_def)
  ultimately show ?thesis by (intro exI [of _ r] exI [of _ s'] conjI) simp_all
qed

text \<open>
  C15: a well-formed query whose result has no rows leaves the handler by an exception,
  because the answer then has no columns: no \<open>try\<close> of the session catches it, so one
  client with an empty result ends the server process.
\<close>

theorem empty_result_ends_server:
  assumes "sql_opens eng" and "sql_ok eng q" and "sql_rows eng q = []" and "flds \<noteq> []"
    and "recv_check ops uninit data (db_parser s) (db_queue s) =
           Some (Recv_success, p, [database_request_query sender SELECT flds q])"
  shows "\<exists>s'. db_waitCommand eng ser ops uninit False data s = Some (Throw Out_of_range, s')"
proof -
  let ?v = "database_request_query sender SELECT flds q"
  have "\<exists>f \<in> set flds. smap_get ([] :: string list smap) f = None"
    using assms(4) by (cases flds) auto
  from pick_fields_missing [OF this]
  have mq: "\<exists>s'. db_makeQuery eng ser t = (Throw Out_of_range, s')" if "db_json t = ?v" for t :: "'a db_session"
    using that assms(1-3) by (simp add: db_makeQuery_def Let_def)
  have "db_checkCommand (s\<lparr>db_parser := p, db_json := ?v, db_queue := []\<rparr>) =
      (Ok ''db_query'', s\<lparr>db_parser := p, db_json := ?v, db_queue := []\<rparr>)"
    by (simp add: db_checkCommand_def database_request_query_def)
  moreover obtain s' where "db_makeQuery eng ser (db_do [Temp_log 0 ''Make_query_response'']
      (s\<lparr>db_parser := p, db_json := ?v, db_queue := []\<rparr>)) = (Throw Out_of_range, s')"
    using mq by fastforce
  ultimately have "db_command_loop eng ser ops uninit (length data)
      (s\<lparr>db_parser := p, db_queue := [?v]\<rparr>) = Some (Throw Out_of_range, s')"
    by (subst db_command_loop.simps) (simp add: db_dispatch_def)
  with assms(5) show ?thesis by (simp add: db_waitCommand_def)
qed

theorem empty_result_ends_server_witness:
  "\<exists>s'. db_waitCommand (sample_engine []) (\<lambda>_. ''x'')
       \<lparr>write_some = (\<lambda>p t. (Ok (length t), p)), parser_done = (\<lambda>_. True),
        parser_release = (\<lambda>p. (Ok (database_request_query ''W'' SELECT [''Id''] ''SELECT Id FROM LiftBlocks''), p)),
        parser_reset = (\<lambda>p. p)\<rparr> 0 False ''q'' (db_new ()) = Some (Throw Out_of_range, s')"
  by (rule empty_result_ends_server [where q = "''SELECT Id FROM LiftBlocks''" and flds = "[''Id'']"
        and sender = "''W''" and p = "()"])
    (simp_all add: sample_engine_def account_rows_def recv_check_def recv_loop.simps c_str_def
      db_new_def accounts_query_def)

subsection \<open>Termination and progress of the command handler\<close>

lemma recv_check_zeros:
  assumes "parser_ok ops decode pending" and "incomplete decode (pending p)" and "0 < n"
  shows "\<exists>p'. recv_check ops uninit (replicate n CHR 0x00) p q = Some (Recv_not_full, p', q) \<and>
     pending p' = pending p"
proof -
  have c: "c_str (replicate n CHR 0x00) = []"
    using assms(3) by (simp add: c_str_def takeWhile_replicate)
  have "message_end decode (pending p @ []) = None"
    using assms(2) by (simp add: incomplete_def)
  with assms(1) [unfolded parser_ok_def, THEN conjunct2, rule_format, OF assms(2), of "[]"]
  obtain p1 where "write_some ops p [] = (Ok 0, p1)" "\<not> parser_done ops p1" "pending p1 = pending p"
    by auto
  with c assms(3) show ?thesis
    unfolding recv_check_def by (subst recv_loop.simps) simp
qed


text \<open>What the operations leave alone.\<close>

lemma db_makeQuery_keeps:
  "db_makeQuery eng ser s = (r, s') \<Longrightarrow> db_queue s' = db_queue s \<and> db_parser s' = db_parser s"
  by (auto simp: db_makeQuery_def db_makeDisconnect_def Let_def split: res.splits if_splits)

lemma db_checkCommand_keeps:
  "db_checkCommand s = (r, s') \<Longrightarrow> db_queue s' = db_queue s \<and> db_parser s' = db_parser s"
  by (auto simp: db_checkCommand_def split: res.splits if_splits)

lemma db_checkCommand_no_target:
  "\<lbrakk>\<forall>t. json_at (db_json s) ''target'' \<noteq> Ok t\<rbrakk> \<Longrightarrow> \<exists>e. db_checkCommand s = (Throw e, s)"
  by (cases "json_at (db_json s) ''target''") (auto simp: db_checkCommand_def)

lemma db_dispatch_returns:
  assumes "parser_ok ops decode pending" and "incomplete decode (pending (db_parser s))" and "0 < n"
  shows "\<exists>r s'. db_dispatch eng ser ops uninit n c s = Some (r, s') \<and> db_queue s' = db_queue s \<and>
     pending (db_parser s') = pending (db_parser s)"
proof (cases "c = ''connect''")
  case True
  let ?t = "db_do [Temp_log 0 ''Start_connect''] s"
  from recv_check_zeros [OF assms(1) _ assms(3), of "db_parser s" uninit "db_queue s"] assms(2)
  obtain p' where "recv_check ops uninit (replicate n CHR 0x00) (db_parser ?t) (db_queue ?t) =
      Some (Recv_not_full, p', db_queue s)" "pending p' = pending (db_parser s)"
    by auto
  with True show ?thesis by (simp add: db_dispatch_def db_connectAnalize_def)
next
  case False
  obtain r s' where q: "db_makeQuery eng ser (db_do [Temp_log 0 ''Make_query_response''] s) = (r, s')"
    by fastforce
  from db_makeQuery_keeps [OF q] q False show ?thesis
    by (simp add: db_dispatch_def db_makePing_def db_makeDisconnect_def db_makeError_def)
qed

lemma db_command_loop_returns:
  assumes "parser_ok ops decode pending" and "0 < n"
  shows "incomplete decode (pending (db_parser s)) \<Longrightarrow>
     \<exists>r s'. db_command_loop eng ser ops uninit n s = Some (r, s') \<and>
       (r = Ok () \<longrightarrow> db_queue s' = []) \<and> pending (db_parser s') = pending (db_parser s)"
proof (induction "db_queue s" arbitrary: s)
  case Nil
  then show ?case by (subst db_command_loop.simps) simp
next
  case (Cons v q)
  obtain c s1 where c: "db_checkCommand (s\<lparr>db_json := v, db_queue := q\<rparr>) = (c, s1)" by fastforce
  from db_checkCommand_keeps [OF c] have s1: "db_queue s1 = q" "db_parser s1 = db_parser s" by simp_all
  note st = db_command_loop.simps [of eng ser ops uninit n s]
  show ?case
  proof (cases c)
    case (Ok command)
    from s1 Cons.prems have "incomplete decode (pending (db_parser s1))" by simp
    from db_dispatch_returns [OF assms(1) this assms(2)] s1
    obtain r s2 where d: "db_dispatch eng ser ops uninit n command s1 = Some (r, s2)"
      "db_queue s2 = q" "pending (db_parser s2) = pending (db_parser s)" by metis
    show ?thesis
    proof (cases r)
      case (Ok u)
      let ?s3 = "if q = [] then s2\<lparr>db_flag_send := True\<rparr> else s2"
      let ?s4 = "db_do [Write_log 0 ''Send_response_command'', Temp_log 0 ''Send_response_command'',
                       Send (db_buf_send ?s3) H_sendCommand] ?s3"
      have "incomplete decode (pending (db_parser ?s4))" using d(3) Cons.prems by simp
      moreover have "q = db_queue ?s4" using d(2) by simp
      ultimately obtain r' s' where "db_command_loop eng ser ops uninit n ?s4 = Some (r', s')"
        "r' = Ok () \<longrightarrow> db_queue s' = []" "pending (db_parser s') = pending (db_parser ?s4)"
        using Cons.hyps(1) by blast
      moreover have "db_command_loop eng ser ops uninit n s = db_command_loop eng ser ops uninit n ?s4"
        unfolding st Cons.hyps(2) [symmetric] using c d(1,2) \<open>c = Ok command\<close> Ok by (simp add: Let_def)
      ultimately show ?thesis using d(3) by simp
    qed (use c d \<open>c = Ok command\<close> Cons.hyps(2) [symmetric] in \<open>simp_all add: st\<close>)
  qed (use c s1 Cons.hyps(2) [symmetric] in \<open>simp_all add: st\<close>)
qed



text \<open>
  A complete message without a \<open>target\<close> member ends the server process as well: the
  exception of \<open>at("target")\<close> leaves the command handler, whatever is queued behind it.
\<close>

theorem missing_target_ends_server:
  assumes "recv_check ops uninit data (db_parser s) (db_queue s) = Some (Recv_success, p, v # q)"
    and "\<forall>t. json_at v ''target'' \<noteq> Ok t"
  shows "\<exists>e s'. db_waitCommand eng ser ops uninit False data s = Some (Throw e, s')"
proof -
  let ?t = "s\<lparr>db_parser := p, db_json := v, db_queue := q\<rparr>"
  from db_checkCommand_no_target [of ?t] assms(2)
  obtain e where "db_checkCommand ?t = (Throw e, ?t)" by auto
  then have "db_command_loop eng ser ops uninit (length data) (s\<lparr>db_parser := p, db_queue := v # q\<rparr>) =
      Some (Throw e, ?t)"
    by (subst db_command_loop.simps) simp
  with assms(1) show ?thesis by (simp add: db_waitCommand_def)
qed

theorem missing_target_ends_server_witness:
  "\<exists>e s'. db_waitCommand (sample_engine []) (\<lambda>_. ''x'')
       \<lparr>write_some = (\<lambda>p t. (Ok (length t), p)), parser_done = (\<lambda>_. True),
        parser_release = (\<lambda>p. (Ok (JObj []), p)), parser_reset = (\<lambda>p. p)\<rparr> 0 False ''q'' (db_new ()) =
     Some (Throw e, s')"
  by (rule missing_target_ends_server [where p = "()" and v = "JObj []" and q = "[]"])
    (simp_all add: recv_check_def recv_loop.simps c_str_def db_new_def)

end
