(* ===== verification/ClientDB.thy ===== *)
theory ClientDB
  imports DataBaseServer
begin

text \<open>
  \<open>GlobalModules/ClientDB/ClientDB.hpp\<close>: the client with which the other servers load their
  tables from the database server. It connects, logs in, sends one \<open>SELECT\<close> for each queued
  table, disconnects, and hands all the tables to a callback.
\<close>

section \<open>State\<close>

datatype cdb_act =
    CConnect
  | CSend string
  | CSend_rest nat nat
  | CReceive
  | CPause nat
  | CClose
  | CCallback "string list smap smap"

record 'p cdb =
  cdb_tables :: "string list"
  cdb_field_queue :: "string list list"
  cdb_conditions :: "string list"
  cdb_buf :: string
  cdb_json :: json
  cdb_parser :: 'p
  cdb_resp_data :: "string list smap smap"
  cdb_login :: string
  cdb_password :: string
  cdb_table_name :: string
  cdb_fields_name :: "string list"
  cdb_flag_connet :: bool
  cdb_flag_disconnect :: bool
  cdb_flag_conditions :: bool
  cdb_name_sender :: string
  cdb_open :: bool
  cdb_acts :: "cdb_act list"

definition cdb_do :: "cdb_act list \<Rightarrow> 'p cdb \<Rightarrow> 'p cdb" where
  "cdb_do as s = s\<lparr>cdb_acts := cdb_acts s @ as\<rparr>"

lemma cdb_do_simps [simp]:
  "cdb_tables (cdb_do as s) = cdb_tables s" "cdb_field_queue (cdb_do as s) = cdb_field_queue s"
  "cdb_conditions (cdb_do as s) = cdb_conditions s" "cdb_buf (cdb_do as s) = cdb_buf s"
  "cdb_json (cdb_do as s) = cdb_json s" "cdb_parser (cdb_do as s) = cdb_parser s"
  "cdb_resp_data (cdb_do as s) = cdb_resp_data s" "cdb_login (cdb_do as s) = cdb_login s"
  "cdb_password (cdb_do as s) = cdb_password s" "cdb_table_name (cdb_do as s) = cdb_table_name s"
  "cdb_fields_name (cdb_do as s) = cdb_fields_name s"
  "cdb_flag_connet (cdb_do as s) = cdb_flag_connet s"
  "cdb_flag_disconnect (cdb_do as s) = cdb_flag_disconnect s"
  "cdb_flag_conditions (cdb_do as s) = cdb_flag_conditions s"
  "cdb_name_sender (cdb_do as s) = cdb_name_sender s" "cdb_open (cdb_do as s) = cdb_open s"
  "cdb_acts (cdb_do as s) = cdb_acts s @ as"
  by (simp_all add: cdb_do_def)

text \<open>The constructor: the flags that only \<open>start\<close> sets are arbitrary before it.\<close>

definition cdb_new :: "string \<Rightarrow> string \<Rightarrow> string \<Rightarrow> bool \<Rightarrow> bool \<Rightarrow> 'p \<Rightarrow> 'p cdb" where
  "cdb_new login password sender c0 d0 p0 =
     \<lparr>cdb_tables = [], cdb_field_queue = [], cdb_conditions = [], cdb_buf = [], cdb_json = JNull,
      cdb_parser = p0, cdb_resp_data = [], cdb_login = login, cdb_password = password,
      cdb_table_name = [], cdb_fields_name = [], cdb_flag_connet = c0, cdb_flag_disconnect = d0,
      cdb_flag_conditions = False, cdb_name_sender = sender, cdb_open = False, cdb_acts = []\<rparr>"

section \<open>Operations\<close>

definition cdb_start :: "'p cdb \<Rightarrow> 'p cdb" where
  "cdb_start s = cdb_do [CConnect] (s\<lparr>cdb_flag_connet := False, cdb_flag_disconnect := False, cdb_open := True\<rparr>)"

definition cdb_stop :: "'p cdb \<Rightarrow> 'p cdb" where
  "cdb_stop s = (if cdb_open s then cdb_do [CClose] (s\<lparr>cdb_open := False\<rparr>) else s)"

definition cdb_setQuerys :: "string list \<Rightarrow> string list list \<Rightarrow> string list \<Rightarrow> 'p cdb \<Rightarrow> 'p cdb" where
  "cdb_setQuerys tables fldss conds s =
     (let s1 = s\<lparr>cdb_tables := tables, cdb_field_queue := fldss\<rparr> in
      if conds \<noteq> [] then
        (let s2 = s1\<lparr>cdb_conditions := conds\<rparr> in
         if length conds \<noteq> length tables then cdb_stop s2 else s2\<lparr>cdb_flag_conditions := True\<rparr>)
      else s1)"

text \<open>
  The text of a query. The loop runs to \<open>size() - 1\<close>, which wraps around for an empty
  vector: the element access is then out of range.
\<close>

fun query_fields :: "string list \<Rightarrow> nat \<Rightarrow> nat \<Rightarrow> string \<Rightarrow> string res" where
  "query_fields flds i 0 query = map_res (\<lambda>f. query @ f) (vec_idx flds (length flds - 1))"
| "query_fields flds i (Suc n) query =
     bind_res (vec_idx flds i) (\<lambda>f. query_fields flds (Suc i) n (query @ f @ '', ''))"

definition query_text :: "string list \<Rightarrow> string \<Rightarrow> string res" where
  "query_text flds table =
     (if flds = [] then Undef
      else map_res (\<lambda>q. q @ '' FROM '' @ table) (query_fields flds 0 (length flds - 1) ''SELECT ''))"

definition cdb_queryGenerator :: "(json \<Rightarrow> string) \<Rightarrow> 'p cdb \<Rightarrow> unit res \<times> 'p cdb" where
  "cdb_queryGenerator ser s =
     (if \<not> cdb_flag_disconnect s then
        (case cdb_tables s of
           [] \<Rightarrow>
             (let b = ser (database_request_disconnect (cdb_name_sender s))
              in (Ok (), cdb_do [CSend b] (s\<lparr>cdb_buf := b\<rparr>)))
         | table # tables \<Rightarrow>
             (case cdb_field_queue s of
                [] \<Rightarrow> (Undef, s)
              | flds # fldss \<Rightarrow>
                  (let s1 = s\<lparr>cdb_table_name := table, cdb_fields_name := flds,
                              cdb_tables := tables, cdb_field_queue := fldss\<rparr> in
                   case query_text flds table of
                     Throw e \<Rightarrow> (Throw e, s1)
                   | Undef \<Rightarrow> (Undef, s1)
                   | Ok query \<Rightarrow>
                       (if cdb_flag_conditions s1 \<and> cdb_conditions s1 = [] then (Undef, s1)
                        else
                          (let (q, s2) =
                             (if cdb_flag_conditions s1
                              then (query @ '' '' @ hd (cdb_conditions s1),
                                    s1\<lparr>cdb_conditions := tl (cdb_conditions s1),
                                       cdb_flag_conditions := (tl (cdb_conditions s1) \<noteq> [])\<rparr>)
                              else (query, s1));
                               b = ser (database_request_query (cdb_name_sender s2) SELECT flds q)
                           in (Ok (), cdb_do [CSend b] (s2\<lparr>cdb_buf := b\<rparr>)))))))
      else (Ok (), cdb_stop (cdb_do [CCallback (cdb_resp_data s)] s)))"

definition cdb_checkConnect :: "(json \<Rightarrow> string) \<Rightarrow> bool \<Rightarrow> 'p cdb \<Rightarrow> unit res \<times> 'p cdb" where
  "cdb_checkConnect ser err s =
     (if err then (Ok (), cdb_start (cdb_stop (cdb_do [CPause 2] s)))
      else if \<not> cdb_flag_connet s then
        (if cdb_flag_disconnect s then (Ok (), cdb_stop s)
         else (let b = ser (database_request_connect (cdb_name_sender s) (cdb_login s) (cdb_password s))
               in (Ok (), cdb_do [CSend b] (s\<lparr>cdb_buf := b\<rparr>))))
      else cdb_queryGenerator ser s)"

definition cdb_sendCommand :: "bool \<Rightarrow> nat \<Rightarrow> nat \<times> 'p cdb \<Rightarrow> nat \<times> 'p cdb" where
  "cdb_sendCommand err bytes_send = (\<lambda>(temp, s).
     (if err then (temp, cdb_start (cdb_stop s))
      else case send_check (length (cdb_buf s)) bytes_send temp of
             (Send_more pos n, t) \<Rightarrow> (t, cdb_do [CSend_rest pos n] s)
           | (Send_success, t) \<Rightarrow> (0, cdb_do [CReceive] (s\<lparr>cdb_buf := []\<rparr>))))"

text \<open>
  \<open>__commandAnalize\<close>. The columns of an answer are read inside a \<open>try\<close>: an answer that
  lacks one of the requested columns is dropped as a whole.
\<close>

definition answer_status :: "json \<Rightarrow> json res" where
  "answer_status v = json_path v [''response'', ''status'']"

definition read_column :: "(json \<Rightarrow> string) \<Rightarrow> json \<Rightarrow> string \<Rightarrow> string list res" where
  "read_column ser v f =
     bind_res (json_path v [''response'', f]) (\<lambda>a. map_res (map ser) (as_array a))"

fun read_columns ::
  "(json \<Rightarrow> string) \<Rightarrow> json \<Rightarrow> string list \<Rightarrow> string list smap \<Rightarrow> string list smap res" where
  "read_columns ser v [] m = Ok m"
| "read_columns ser v (f # fs) m =
     bind_res (read_column ser v f) (\<lambda>vs. read_columns ser v fs (smap_put f vs m))"

definition cdb_commandAnalize :: "(json \<Rightarrow> string) \<Rightarrow> 'p cdb \<Rightarrow> unit res \<times> 'p cdb" where
  "cdb_commandAnalize ser s =
     (case json_at (cdb_json s) ''target'' of
        Throw e \<Rightarrow> (Throw e, s)
      | Undef \<Rightarrow> (Undef, s)
      | Ok target \<Rightarrow>
          (if target = JStr ''connect'' then
             (case answer_status (cdb_json s) of
                Throw e \<Rightarrow> (Throw e, s)
              | Undef \<Rightarrow> (Undef, s)
              | Ok status \<Rightarrow>
                  (if status \<noteq> JStr ''success''
                   then cdb_checkConnect ser False (s\<lparr>cdb_flag_disconnect := True\<rparr>)
                   else cdb_checkConnect ser False
                          (s\<lparr>cdb_flag_connet := True, cdb_flag_disconnect := False\<rparr>)))
           else if target = JStr ''disconnect'' then
             (case answer_status (cdb_json s) of
                Throw e \<Rightarrow> (Throw e, s)
              | Undef \<Rightarrow> (Undef, s)
              | Ok status \<Rightarrow>
                  cdb_checkConnect ser False (s\<lparr>cdb_flag_disconnect := (status = JStr ''success'')\<rparr>))
           else if target = JStr ''db_query'' then
             (case read_columns ser (cdb_json s) (cdb_fields_name s) [] of
                Throw e \<Rightarrow> cdb_checkConnect ser False s
              | Undef \<Rightarrow> (Undef, s)
              | Ok m \<Rightarrow> cdb_checkConnect ser False
                          (s\<lparr>cdb_resp_data := smap_put (cdb_table_name s) m (cdb_resp_data s)\<rparr>))
           else (Ok (), s)))"

text \<open>
  \<open>__reciveCommand\<close> hands all the bytes to \<open>write\<close>, which throws at text behind a complete
  document; the exception is dropped.
\<close>

record 'p stream_ops =
  stream_write :: "'p \<Rightarrow> string \<Rightarrow> 'p"
  stream_done :: "'p \<Rightarrow> bool"
  stream_take :: "'p \<Rightarrow> json res \<times> 'p"
  stream_reset :: "'p \<Rightarrow> 'p"

definition cdb_reciveCommand ::
  "(json \<Rightarrow> string) \<Rightarrow> 'p stream_ops \<Rightarrow> bool \<Rightarrow> string \<Rightarrow> 'p cdb \<Rightarrow> unit res \<times> 'p cdb" where
  "cdb_reciveCommand ser ops err data s =
     (if err then (Ok (), cdb_start (cdb_stop s))
      else
        (let p1 = stream_write ops (cdb_parser s) data in
         if \<not> stream_done ops p1 then (Ok (), cdb_do [CReceive] (s\<lparr>cdb_parser := p1\<rparr>))
         else case stream_take ops p1 of
                (Ok v, p2) \<Rightarrow>
                  cdb_commandAnalize ser (s\<lparr>cdb_parser := stream_reset ops p2, cdb_json := v\<rparr>)
              | (_, p2) \<Rightarrow> (Ok (), s\<lparr>cdb_parser := stream_reset ops p2, cdb_json := JNull\<rparr>)))"

section \<open>The query text\<close>

text \<open>What the loop is meant to build: the fields separated by commas.\<close>

fun comma_separated :: "string list \<Rightarrow> string" where
  "comma_separated [] = []"
| "comma_separated [f] = f"
| "comma_separated (f # fs) = f @ '', '' @ comma_separated fs"

lemma comma_separated_Cons: "fs \<noteq> [] \<Longrightarrow> comma_separated (f # fs) = f @ '', '' @ comma_separated fs"
  by (cases fs) auto

lemma query_fields_spec:
  "i + n + 1 = length flds \<Longrightarrow> query_fields flds i n query = Ok (query @ comma_separated (drop i flds))"
proof (induction n arbitrary: i query)
  case 0
  then have "drop i flds = [flds ! i]" "i = length flds - 1"
    by (auto simp: Cons_nth_drop_Suc [symmetric])
  with 0 show ?case by simp
next
  case (Suc n)
  then have "drop i flds = flds ! i # drop (Suc i) flds" "drop (Suc i) flds \<noteq> []"
    by (simp_all add: Cons_nth_drop_Suc)
  with Suc show ?case by (simp add: comma_separated_Cons del: drop_eq_Nil)
qed

lemma query_text_spec:
  assumes "flds \<noteq> []"
  shows "query_text flds table = Ok (''SELECT '' @ comma_separated flds @ '' FROM '' @ table)"
proof -
  have "0 + (length flds - 1) + 1 = length flds" using assms by (cases flds) auto
  from query_fields_spec [OF this, of "''SELECT ''"] assms show ?thesis
    by (simp add: query_text_def)
qed


section \<open>Reading an answer\<close>

lemma read_columns_ok:
  "\<forall>f \<in> set fs. read_column ser v f = Ok (g f) \<Longrightarrow>
   read_columns ser v fs m = Ok (fold (\<lambda>(f, vs). smap_put f vs) (zip fs (map g fs)) m)"
  by (induction fs arbitrary: m) auto

lemma read_column_response:
  assumes "smap_inv r" and "f \<noteq> ''method''" and "smap_get r f = Some cells"
  shows "read_column ser (database_response_query sender SELECT r) f = Ok (map (\<lambda>c. ser (JStr c)) cells)"
  using map_of_query_members [OF assms(1,2)] assms(3)
  by (simp add: read_column_def database_response_query_def comp_def)

definition table_cells :: "(json \<Rightarrow> string) \<Rightarrow> (string \<Rightarrow> string list) \<Rightarrow> string list \<Rightarrow> string list smap" where
  "table_cells ser content fs =
     fold (\<lambda>(f, vs). smap_put f vs) (zip fs (map (\<lambda>f. map (\<lambda>c. ser (JStr c)) (content f)) fs)) []"

lemma table_cells_get:
  assumes "f \<in> set fs"
  shows "smap_get (table_cells ser content fs) f = Some (map (\<lambda>c. ser (JStr c)) (content f))"
proof -
  have "map_of (rev (zip fs (map g fs))) f = (if f \<in> set fs then Some (g f) else None)"
    for g :: "string \<Rightarrow> string list"
    by (induction fs) (auto simp: map_add_def split: option.splits)
  with assms show ?thesis by (simp add: table_cells_def sm.get_fill_emp)
qed

lemma read_columns_response:
  assumes "smap_inv r" and "''method'' \<notin> set fs" and "\<forall>f \<in> set fs. smap_get r f = Some (content f)"
  shows "read_columns ser (database_response_query sender SELECT r) fs [] = Ok (table_cells ser content fs)"
  unfolding table_cells_def
  by (rule read_columns_ok) (use assms in \<open>auto intro!: read_column_response\<close>)

text \<open>One exchange of a session: the buffer reaches the peer, its answer is analysed.\<close>

definition cdb_round :: "(json \<Rightarrow> string) \<Rightarrow> (string \<Rightarrow> json) \<Rightarrow> 'p cdb \<Rightarrow> unit res \<times> 'p cdb" where
  "cdb_round ser peer s = cdb_commandAnalize ser (s\<lparr>cdb_buf := [], cdb_json := peer (cdb_buf s)\<rparr>)"

fun cdb_rounds ::
  "(json \<Rightarrow> string) \<Rightarrow> (string \<Rightarrow> json) \<Rightarrow> nat \<Rightarrow> 'p cdb \<Rightarrow> unit res \<times> 'p cdb" where
  "cdb_rounds ser peer 0 s = (Ok (), s)"
| "cdb_rounds ser peer (Suc n) s =
     (case cdb_round ser peer s of
        (Ok _, s') \<Rightarrow> cdb_rounds ser peer n s'
      | (r, s') \<Rightarrow> (r, s'))"

definition select_request :: "string \<Rightarrow> string \<times> string list \<Rightarrow> json" where
  "select_request sender q =
     database_request_query sender SELECT (snd q)
       (''SELECT '' @ comma_separated (snd q) @ '' FROM '' @ fst q)"

text \<open>A peer that answers the queries of a session from the columns of its tables.\<close>

definition answers_queries ::
  "(json \<Rightarrow> string) \<Rightarrow> string \<Rightarrow> (string \<Rightarrow> json) \<Rightarrow> (string \<Rightarrow> string \<Rightarrow> string list) \<Rightarrow>
     (string \<times> string list) list \<Rightarrow> bool" where
  "answers_queries ser sender peer content qs \<longleftrightarrow>
     (\<forall>q \<in> set qs. snd q \<noteq> [] \<and> ''method'' \<notin> set (snd q) \<and>
        (\<exists>nm r. peer (ser (select_request sender q)) = database_response_query nm SELECT r \<and>
           smap_inv r \<and> (\<forall>f \<in> set (snd q). smap_get r f = Some (content (fst q) f))))"

definition loaded_tables ::
  "(json \<Rightarrow> string) \<Rightarrow> (string \<Rightarrow> string \<Rightarrow> string list) \<Rightarrow> (string \<times> string list) list \<Rightarrow>
     string list smap smap \<Rightarrow> string list smap smap" where
  "loaded_tables ser content qs m =
     fold (\<lambda>(t, cells). smap_put t cells) (map (\<lambda>q. (fst q, table_cells ser (content (fst q)) (snd q))) qs) m"

lemma queryGenerator_table:
  assumes "\<not> cdb_flag_disconnect s" and "\<not> cdb_flag_conditions s" and "cdb_tables s = t # ts"
    and "cdb_field_queue s = fs # fss" and "fs \<noteq> []"
  shows "cdb_queryGenerator ser s =
     (let b = ser (select_request (cdb_name_sender s) (t, fs)) in
      (Ok (), cdb_do [CSend b] (s\<lparr>cdb_table_name := t, cdb_fields_name := fs, cdb_tables := ts,
                                 cdb_field_queue := fss, cdb_buf := b\<rparr>)))"
  using assms by (simp add: cdb_queryGenerator_def query_text_spec select_request_def Let_def)

lemma rounds_queries:
  assumes disc: "peer (ser (database_request_disconnect (cdb_name_sender s))) = database_response_disconnect nm"
  shows "answers_queries ser (cdb_name_sender s) peer content qs \<Longrightarrow>
     cdb_flag_connet s \<Longrightarrow> \<not> cdb_flag_disconnect s \<Longrightarrow> \<not> cdb_flag_conditions s \<Longrightarrow>
     cdb_open s \<Longrightarrow> cdb_tables s = map fst qs \<Longrightarrow> cdb_field_queue s = map snd qs \<Longrightarrow>
     \<exists>s1 s'. cdb_queryGenerator ser s = (Ok (), s1) \<and>
       cdb_rounds ser peer (Suc (length qs)) s1 = (Ok (), s') \<and>
       cdb_acts s' = cdb_acts s @ map (\<lambda>q. CSend (ser (select_request (cdb_name_sender s) q))) qs @
         [CSend (ser (database_request_disconnect (cdb_name_sender s))),
          CCallback (loaded_tables ser content qs (cdb_resp_data s)), CClose] \<and>
       cdb_resp_data s' = loaded_tables ser content qs (cdb_resp_data s)"
  using disc
proof (induction qs arbitrary: s)
  case Nil
  then show ?case
    by (simp add: cdb_queryGenerator_def Let_def cdb_round_def cdb_commandAnalize_def answer_status_def
        database_response_disconnect_def worker_response_disconnect_def cdb_checkConnect_def
        cdb_stop_def loaded_tables_def)
next
  case (Cons q qs)
  obtain t fs where q: "q = (t, fs)" by (cases q)
  let ?b = "ser (select_request (cdb_name_sender s) q)"
  let ?s1 = "cdb_do [CSend ?b] (s\<lparr>cdb_table_name := t, cdb_fields_name := fs,
      cdb_tables := map fst qs, cdb_field_queue := map snd qs, cdb_buf := ?b\<rparr>)"
  let ?s2 = "?s1\<lparr>cdb_buf := [], cdb_json := peer ?b,
      cdb_resp_data := smap_put t (table_cells ser (content t) fs) (cdb_resp_data s)\<rparr>"
  from Cons.prems(1) q have fs: "fs \<noteq> []" "''method'' \<notin> set fs"
    by (auto simp: answers_queries_def)
  from Cons.prems(1) q obtain nm' r where r: "peer ?b = database_response_query nm' SELECT r"
    "smap_inv r" "\<forall>f \<in> set fs. smap_get r f = Some (content t f)"
    by (auto simp: answers_queries_def)
  have gen: "cdb_queryGenerator ser s = (Ok (), ?s1)"
    using queryGenerator_table [of s t "map fst qs" fs "map snd qs" ser] Cons.prems q fs by (simp add: Let_def)
  have "json_at (database_response_query nm' SELECT r) ''target'' = Ok (JStr ''db_query'')"
    by (simp add: database_response_query_def)
  with read_columns_response [OF r(2) fs(2) r(3), of ser nm']
  have round: "cdb_round ser peer ?s1 = cdb_queryGenerator ser ?s2"
    using Cons.prems(2) r(1) by (simp add: cdb_round_def cdb_commandAnalize_def cdb_checkConnect_def)
  have "answers_queries ser (cdb_name_sender ?s2) peer content qs"
    using Cons.prems(1) by (simp add: answers_queries_def)
  from Cons.IH [OF this] Cons.prems
  obtain s1 s' where IH: "cdb_queryGenerator ser ?s2 = (Ok (), s1)"
    "cdb_rounds ser peer (Suc (length qs)) s1 = (Ok (), s')"
    "cdb_acts s' = cdb_acts ?s2 @ map (\<lambda>q. CSend (ser (select_request (cdb_name_sender s) q))) qs @
         [CSend (ser (database_request_disconnect (cdb_name_sender s))),
          CCallback (loaded_tables ser content qs (cdb_resp_data ?s2)), CClose]"
    "cdb_resp_data s' = loaded_tables ser content qs (cdb_resp_data ?s2)"
    by auto
  have "cdb_rounds ser peer (Suc (length (q # qs))) ?s1 = (Ok (), s')"
    unfolding list.size by (subst cdb_rounds.simps) (simp only: round IH prod.case res.case add_Suc_right add_0_right)
  with gen IH(3,4) show ?case by (simp add: loaded_tables_def q)
qed

lemma loaded_tables_get:
  assumes "distinct (map fst qs)" and "(t, fs) \<in> set qs"
  shows "smap_get (loaded_tables ser content qs []) t = Some (table_cells ser (content t) fs)"
proof -
  let ?kvs = "map (\<lambda>q. (fst q, table_cells ser (content (fst q)) (snd q))) qs"
  have "map_of (rev ?kvs) t = map_of ?kvs t"
    by (rule map_of_rev_distinct) (use assms(1) in \<open>simp add: comp_def\<close>)
  also have "\<dots> = Some (table_cells ser (content t) fs)"
    using assms by (induction qs) (auto simp: image_iff)
  finally show ?thesis by (simp add: loaded_tables_def sm.get_fill_emp)
qed

section \<open>Properties\<close>

lemma cdb_session_loads:
  assumes "peer (ser (database_request_connect sender login pass)) = database_response_connect nm"
    and "peer (ser (database_request_disconnect sender)) = database_response_disconnect nm"
    and "answers_queries ser sender peer content qs" and "distinct (map fst qs)"
  shows "\<exists>s' data. cdb_rounds ser peer (length qs + 2)
       (snd (cdb_checkConnect ser False (cdb_start
          (cdb_setQuerys (map fst qs) (map snd qs) [] (cdb_new login pass sender c0 d0 p0))))) = (Ok (), s') \<and>
     cdb_acts s' = [CConnect, CSend (ser (database_request_connect sender login pass))] @
       map (\<lambda>q. CSend (ser (select_request sender q))) qs @
       [CSend (ser (database_request_disconnect sender)), CCallback data, CClose] \<and>
     (\<forall>(t, fs) \<in> set qs. \<exists>m. smap_get data t = Some m \<and>
        (\<forall>f \<in> set fs. smap_get m f = Some (map (\<lambda>c. ser (JStr c)) (content t f))))"
proof -
  let ?b = "ser (database_request_connect sender login pass)"
  let ?s0 = "cdb_start (cdb_setQuerys (map fst qs) (map snd qs) [] (cdb_new login pass sender c0 d0 p0))"
  let ?s1 = "cdb_do [CSend ?b] (?s0\<lparr>cdb_buf := ?b\<rparr>)"
  let ?s2 = "?s1\<lparr>cdb_buf := [], cdb_json := peer ?b, cdb_flag_connet := True, cdb_flag_disconnect := False\<rparr>"
  let ?data = "loaded_tables ser content qs []"
  have s0: "cdb_checkConnect ser False ?s0 = (Ok (), ?s1)"
    by (simp add: cdb_checkConnect_def cdb_start_def cdb_setQuerys_def cdb_new_def Let_def)
  have round: "cdb_round ser peer ?s1 = cdb_queryGenerator ser ?s2"
    using assms(1) by (simp add: cdb_round_def cdb_commandAnalize_def answer_status_def
        cdb_checkConnect_def database_response_connect_def worker_response_connect_def)
  from rounds_queries [of peer ser ?s2 nm content qs] assms(2,3)
  obtain s1 s' where r: "cdb_queryGenerator ser ?s2 = (Ok (), s1)"
    "cdb_rounds ser peer (Suc (length qs)) s1 = (Ok (), s')"
    "cdb_acts s' = [CConnect, CSend ?b] @ map (\<lambda>q. CSend (ser (select_request sender q))) qs @
       [CSend (ser (database_request_disconnect sender)), CCallback ?data, CClose]"
    by (auto simp: cdb_start_def cdb_setQuerys_def cdb_new_def Let_def)
  have "cdb_rounds ser peer (length qs + 2) (snd (cdb_checkConnect ser False ?s0)) = (Ok (), s')"
    unfolding s0 add_2_eq_Suc' snd_conv
    by (subst cdb_rounds.simps) (simp only: round r prod.case res.case)
  moreover have "\<forall>(t, fs) \<in> set qs. \<exists>m. smap_get ?data t = Some m \<and>
        (\<forall>f \<in> set fs. smap_get m f = Some (map (\<lambda>c. ser (JStr c)) (content t f)))"
    using loaded_tables_get [OF assms(4), where ser = ser and content = content] table_cells_get by fastforce
  ultimately show ?thesis using r(3) by blast
qed

text \<open>
  A session with a peer that answers as the database server does runs to its end: the
  client sends the login, one \<open>SELECT\<close> for each table in the queued order, and the
  disconnect, calls the callback exactly once, with every requested column of every table
  (each cell as serialized JSON, so still in quotes), and then closes the connection.
\<close>

theorem client_loads_tables:
  assumes "peer (ser (database_request_connect sender login pass)) = database_response_connect nm"
    and "peer (ser (database_request_disconnect sender)) = database_response_disconnect nm"
    and "answers_queries ser sender peer content qs" and "distinct (map fst qs)"
  shows "\<exists>s' data. cdb_rounds ser peer (length qs + 2)
       (snd (cdb_checkConnect ser False (cdb_start
          (cdb_setQuerys (map fst qs) (map snd qs) [] (cdb_new login pass sender c0 d0 p0))))) = (Ok (), s') \<and>
     cdb_acts s' = [CConnect, CSend (ser (database_request_connect sender login pass))] @
       map (\<lambda>q. CSend (ser (select_request sender q))) qs @
       [CSend (ser (database_request_disconnect sender)), CCallback data, CClose] \<and>
     (\<forall>(t, fs) \<in> set qs. \<exists>m. smap_get data t = Some m \<and>
        (\<forall>f \<in> set fs. smap_get m f = Some (map (\<lambda>c. ser (JStr c)) (content t f))))"
  by (rule cdb_session_loads [OF assms])

definition sample_ser :: "json \<Rightarrow> string" where
  "sample_ser v =
     (case v of
        JStr s \<Rightarrow> quoted s
      | JObj m \<Rightarrow> (case map_of m ''target'' of Some (JStr t) \<Rightarrow> t | _ \<Rightarrow> [])
      | _ \<Rightarrow> [])"

definition sample_peer :: "string \<Rightarrow> json" where
  "sample_peer text =
     (if text = ''connect'' then database_response_connect ''DB''
      else if text = ''disconnect'' then database_response_disconnect ''DB''
      else database_response_query ''DB'' SELECT [(''Id'', [''7'', ''8''])])"

lemma sample_peer_answers:
  "answers_queries sample_ser sender sample_peer (\<lambda>_ _. [''7'', ''8'']) [(''LiftBlocks'', [''Id''])]"
  by (simp add: answers_queries_def sample_peer_def sample_ser_def select_request_def
      database_request_query_def) (rule exI [of _ "''DB''"], rule exI [of _ "[(''Id'', [''7'', ''8''])]"], simp)

lemma sample_peer_session:
  "sample_peer (sample_ser (database_request_connect sender login pass)) = database_response_connect ''DB''"
  "sample_peer (sample_ser (database_request_disconnect sender)) = database_response_disconnect ''DB''"
  by (simp_all add: sample_peer_def sample_ser_def message_defs)

theorem client_loads_tables_witness:
  "\<exists>s' data. cdb_rounds sample_ser sample_peer 3
       (snd (cdb_checkConnect sample_ser False (cdb_start
          (cdb_setQuerys [''LiftBlocks''] [[''Id'']] [] (cdb_new ''l'' ''p'' ''W'' True True ()))))) = (Ok (), s') \<and>
     CCallback data \<in> set (cdb_acts s') \<and>
     (\<exists>m. smap_get data ''LiftBlocks'' = Some m \<and> smap_get m ''Id'' = Some [quoted ''7'', quoted ''8''])"
  using client_loads_tables [OF sample_peer_session sample_peer_answers, of "''l''" "''p''" "''W''" "True" "True" "()"]
  by (auto simp: sample_ser_def eval_nat_numeral)

text \<open>
  A receive error while a query is outstanding restarts the session, but the table in
  flight is no longer queued: the new session loads the remaining tables, calls the callback
  and closes, and the data it hands over lacks that table.
\<close>

theorem restart_loses_table_in_flight:
  assumes "peer (ser (database_request_connect (cdb_name_sender s) (cdb_login s) (cdb_password s))) =
       database_response_connect nm"
    and "peer (ser (database_request_disconnect (cdb_name_sender s))) = database_response_disconnect nm"
    and "answers_queries ser (cdb_name_sender s) peer content qs"
    and "cdb_tables s = map fst qs" and "cdb_field_queue s = map snd qs" and "\<not> cdb_flag_conditions s"
    and "t \<notin> fst ` set qs" and "smap_get (cdb_resp_data s) t = None" and "smap_inv (cdb_resp_data s)"
    and "cdb_table_name s = t"
  shows "\<exists>s' data as. cdb_rounds ser peer (length qs + 2)
       (snd (cdb_checkConnect ser False (snd (cdb_reciveCommand ser ops True [] s)))) = (Ok (), s') \<and>
     cdb_acts s' = as @ [CCallback data, CClose] \<and> smap_get data t = None"
proof -
  let ?b = "ser (database_request_connect (cdb_name_sender s) (cdb_login s) (cdb_password s))"
  let ?s0 = "cdb_start (cdb_stop s)"
  let ?s1 = "cdb_do [CSend ?b] (?s0\<lparr>cdb_buf := ?b\<rparr>)"
  let ?s2 = "?s1\<lparr>cdb_buf := [], cdb_json := peer ?b, cdb_flag_connet := True, cdb_flag_disconnect := False\<rparr>"
  let ?data = "loaded_tables ser content qs (cdb_resp_data s)"
  have rec: "snd (cdb_reciveCommand ser ops True [] s) = ?s0"
    by (simp add: cdb_reciveCommand_def)
  have s0: "cdb_checkConnect ser False ?s0 = (Ok (), ?s1)"
    by (simp add: cdb_checkConnect_def cdb_start_def cdb_stop_def Let_def)
  have round: "cdb_round ser peer ?s1 = cdb_queryGenerator ser ?s2"
    using assms(1) by (simp add: cdb_round_def cdb_commandAnalize_def answer_status_def
        cdb_checkConnect_def database_response_connect_def worker_response_connect_def)
  define s2 where "s2 = ?s2"
  have k: "cdb_name_sender s2 = cdb_name_sender s" "cdb_tables s2 = cdb_tables s" "cdb_open s2"
    "cdb_field_queue s2 = cdb_field_queue s" "cdb_flag_conditions s2 = cdb_flag_conditions s"
    "cdb_resp_data s2 = cdb_resp_data s" "cdb_flag_connet s2" "\<not> cdb_flag_disconnect s2"
    by (simp_all add: s2_def cdb_start_def cdb_stop_def)
  from rounds_queries [of peer ser s2 nm content qs] assms(2-6)
  obtain s1 s' where r: "cdb_queryGenerator ser s2 = (Ok (), s1)"
    "cdb_rounds ser peer (Suc (length qs)) s1 = (Ok (), s')"
    "\<exists>as. cdb_acts s' = as @ [CCallback ?data, CClose]"
    by (auto simp: k)
  note round = round [folded s2_def]
  have "cdb_rounds ser peer (length qs + 2) (snd (cdb_checkConnect ser False ?s0)) = (Ok (), s')"
    unfolding s0 add_2_eq_Suc' snd_conv
    by (subst cdb_rounds.simps) (simp only: round r prod.case res.case)
  moreover have "smap_get ?data t = None"
  proof -
    have "map_of (rev (map (\<lambda>q. (fst q, table_cells ser (content (fst q)) (snd q))) qs)) t = None"
      using assms(7) by (auto simp: map_of_eq_None_iff image_image)
    with assms(8,9) show ?thesis by (simp add: loaded_tables_def sm.get_fill)
  qed
  ultimately show ?thesis using r(3) unfolding rec by blast
qed

theorem restart_loses_table_in_flight_witness:
  "\<exists>s' data as. cdb_rounds sample_ser sample_peer 3
       (snd (cdb_checkConnect sample_ser False (snd (cdb_reciveCommand sample_ser
          \<lparr>stream_write = (\<lambda>p _. p), stream_done = (\<lambda>_. True), stream_take = (\<lambda>p. (Ok JNull, p)), stream_reset = (\<lambda>p. p)\<rparr>
          True [] ((cdb_new ''l'' ''p'' ''W'' True False ())
            \<lparr>cdb_table_name := ''Houses'', cdb_tables := [''LiftBlocks''], cdb_field_queue := [[''Id'']]\<rparr>))))) = (Ok (), s') \<and>
     cdb_acts s' = as @ [CCallback data, CClose] \<and> smap_get data ''Houses'' = None"
  using restart_loses_table_in_flight [where s = "(cdb_new ''l'' ''p'' ''W'' True False ())
      \<lparr>cdb_table_name := ''Houses'', cdb_tables := [''LiftBlocks''], cdb_field_queue := [[''Id'']]\<rparr>"
      and qs = "[(''LiftBlocks'', [''Id''])]" and t = "''Houses''" and ser = sample_ser and peer = sample_peer
      and nm = "''DB''" and content = "\<lambda>_ _. [''7'', ''8'']"
      and ops = "\<lparr>stream_write = (\<lambda>p _. p), stream_done = (\<lambda>_. True), stream_take = (\<lambda>p. (Ok JNull, p)), stream_reset = (\<lambda>p. p)\<rparr>"]
    sample_peer_answers sample_peer_session
  by (simp add: cdb_new_def eval_nat_numeral)

lemma rejected_login_ends_without_callback:
  assumes "cdb_json s = database_response_connect_error nm CONNECT what" and "cdb_open s"
    and "\<not> cdb_flag_connet s"
  shows "cdb_commandAnalize ser s =
     (Ok (), cdb_do [CClose] (s\<lparr>cdb_flag_disconnect := True, cdb_open := False\<rparr>))"
  using assms by (simp add: cdb_commandAnalize_def answer_status_def cdb_checkConnect_def cdb_stop_def message_defs cdb_do_def)

end
