(* ===== verification/MQTTWorker.thy ===== *)
theory MQTTWorker
  imports MSWorker ClientDB
begin

text \<open>
  \<open>MQTT_Worker\<close>: the broker to which the lift controllers connect
  (\<open>Modules/MQTTBroker\<close>) and the worker that turns the main server's commands into
  published messages (\<open>MQTTWorker.cpp\<close>). The MQTT protocol itself is the library's: a
  connection is a number, and what is sent on it is recorded.
\<close>

section \<open>The broker\<close>

datatype br_act =
    Connack nat
  | Suback nat nat "nat list"
  | Unsuback nat nat
  | Publish nat string string

record sub_con =
  sc_topic :: string
  sc_con :: nat
  sc_qos :: nat

record bsession =
  bs_con :: nat
  bs_connections :: "nat list"
  bs_subs :: "sub_con list"
  bs_name :: string
  bs_live :: bool

record broker =
  br_sessions :: "bsession list"
  br_connections :: "nat list"
  br_subs :: "sub_con list"
  br_logins :: "string smap option"
  br_listening :: bool
  br_acts :: "br_act list"

definition br_new :: broker where
  "br_new = \<lparr>br_sessions = [], br_connections = [], br_subs = [], br_logins = None,
     br_listening = False, br_acts = []\<rparr>"

text \<open>The handlers of one session: the new session and what is sent.\<close>

definition bs_new :: "nat \<Rightarrow> nat list \<Rightarrow> sub_con list \<Rightarrow> bsession" where
  "bs_new con connections subs =
     \<lparr>bs_con = con, bs_connections = connections, bs_subs = subs, bs_name = [], bs_live = True\<rparr>"

definition bs_closeProc :: "bsession \<Rightarrow> bsession" where
  "bs_closeProc s =
     s\<lparr>bs_name := [], bs_live := False, bs_connections := removeAll (bs_con s) (bs_connections s),
       bs_subs := filter (\<lambda>u. sc_con u \<noteq> bs_con s) (bs_subs s)\<rparr>"

text \<open>
  The name is cut out of the client identifier. \<open>client_id.data()\<close> is not terminated: what
  is searched is the memory from the identifier up to the first zero byte. A search that
  fails gives \<open>npos\<close>, and the arithmetic on it wraps around.
\<close>

definition SEARCH_PHRASE :: string where "SEARCH_PHRASE = ''LKDS_LU''"

definition npos :: nat where "npos = SIZE_MOD - 1"

definition find_pos :: "string \<Rightarrow> string \<Rightarrow> nat" where
  "find_pos s p = (case str_find s p of Some i \<Rightarrow> i | None \<Rightarrow> npos)"

definition find_char_from :: "string \<Rightarrow> char \<Rightarrow> nat \<Rightarrow> nat" where
  "find_char_from s c pos =
     (let i = search_pos (\<lambda>x. x = c) (drop pos s)
      in if pos + i < length s then pos + i else npos)"

definition client_name :: "string \<Rightarrow> string res" where
  "client_name temp_client_id =
     (let pos_lkds_lu = find_pos temp_client_id SEARCH_PHRASE;
          from = (pos_lkds_lu + length SEARCH_PHRASE) mod SIZE_MOD;
          pos_number_space = find_char_from temp_client_id (CHR '' '') from
      in str_substr temp_client_id from
           (Some ((pos_number_space + (SIZE_MOD - length SEARCH_PHRASE)) mod SIZE_MOD)))"

definition bs_connect ::
  "string smap \<Rightarrow> string \<Rightarrow> string option \<Rightarrow> string option \<Rightarrow> bsession \<Rightarrow>
     bool res \<times> bsession \<times> br_act list" where
  "bs_connect logins client_id username password s =
     (case username of
        None \<Rightarrow> (Undef, s, [])
      | Some u \<Rightarrow>
          (case bind_res (smap_at logins (quoted u)) (\<lambda>_. client_name (c_str client_id)) of
             Ok name \<Rightarrow>
               (Ok True, s\<lparr>bs_name := name, bs_connections := List.insert (bs_con s) (bs_connections s)\<rparr>,
                [Connack (bs_con s)])
           | Throw e \<Rightarrow> (Ok False, s\<lparr>bs_live := False\<rparr>, [])
           | Undef \<Rightarrow> (Undef, s, [])))"

text \<open>\<open>emplace\<close> keeps the entry that is there for the connection and the topic.\<close>

definition subs_emplace :: "string \<Rightarrow> nat \<Rightarrow> nat \<Rightarrow> sub_con list \<Rightarrow> sub_con list" where
  "subs_emplace topic con qos subs =
     (if \<exists>u \<in> set subs. sc_con u = con \<and> sc_topic u = topic then subs
      else subs @ [\<lparr>sc_topic = topic, sc_con = con, sc_qos = qos\<rparr>])"

definition bs_subscribe :: "nat \<Rightarrow> (string \<times> nat) list \<Rightarrow> bsession \<Rightarrow> bsession \<times> br_act list" where
  "bs_subscribe packet_id entries s =
     (s\<lparr>bs_subs := fold (\<lambda>(topic, qos). subs_emplace topic (bs_con s) qos) entries (bs_subs s)\<rparr>,
      [Suback (bs_con s) packet_id (map snd entries)])"

definition bs_unsubscribe :: "nat \<Rightarrow> string list \<Rightarrow> bsession \<Rightarrow> bsession \<times> br_act list" where
  "bs_unsubscribe packet_id entries s =
     (s\<lparr>bs_subs := fold (\<lambda>topic. filter (\<lambda>u. \<not> (sc_con u = bs_con s \<and> sc_topic u = topic)))
                     entries (bs_subs s)\<rparr>,
      [Unsuback (bs_con s) packet_id])"

text \<open>The broker's own operations; every session gets copies of the two containers.\<close>

definition br_accept :: "nat \<Rightarrow> broker \<Rightarrow> broker" where
  "br_accept con b = b\<lparr>br_sessions := br_sessions b @ [bs_new con (br_connections b) (br_subs b)]\<rparr>"

definition br_start :: "string smap \<Rightarrow> broker \<Rightarrow> broker" where
  "br_start logins b = b\<lparr>br_logins := Some logins, br_listening := True\<rparr>"

definition br_stop :: "broker \<Rightarrow> broker" where
  "br_stop b = b\<lparr>br_listening := False\<rparr>"

definition br_publish :: "string \<Rightarrow> string \<Rightarrow> string \<Rightarrow> broker \<Rightarrow> bool \<times> broker" where
  "br_publish lu_descriptor topik message b =
     (let i = search_pos (\<lambda>s. bs_name s = lu_descriptor) (br_sessions b) in
      if i < length (br_sessions b)
      then (True, b\<lparr>br_acts := br_acts b @ [Publish (bs_con (br_sessions b ! i)) topik message]\<rparr>)
      else (False, b))"

section \<open>The worker\<close>

text \<open>
  \<open>moveLift\<close>: the descriptor comes in quotes, which are cut off by position.
\<close>

definition lift_topic :: "string \<Rightarrow> string" where
  "lift_topic lu = ''LU'' @ lu @ ''/set/cmd''"

definition lift_payload :: "string \<Rightarrow> string" where
  "lift_payload floor_number = ''{'' @ quoted ''cmdlft'' @ '':[1,'' @ floor_number @ '']}''"

definition mq_moveLift :: "(json \<Rightarrow> string) \<Rightarrow> ('p, broker) move_callback" where
  "mq_moveLift ser lu_description floor_number station_id s =
     (case str_substr lu_description 1
             (Some ((length lu_description + (SIZE_MOD - 2)) mod SIZE_MOD)) of
        Ok lu \<Rightarrow>
          (case br_publish lu (lift_topic lu) (lift_payload floor_number) (mw_env s) of
             (True, b) \<Rightarrow> (Ok (), mw_responseMove ser station_id True (s\<lparr>mw_env := b\<rparr>))
           | (False, b) \<Rightarrow> (Ok (), mw_responseMove ser station_id False (s\<lparr>mw_env := b\<rparr>)))
      | Throw e \<Rightarrow> (Throw e, s)
      | Undef \<Rightarrow> (Undef, s))"

text \<open>
  The tables. \<open>start\<close> hands the broker and the connection to the main server pointers to
  \<^emph>\<open>copies\<close> of the worker's pointers.
\<close>

record 'p mqtt_worker =
  mq_lift_blocks :: "string list smap"
  mq_lb_descriptor :: "string smap"
  mq_login_password :: "string smap"
  mq_ms :: "('p, broker) mw"
  mq_update_timers :: nat

fun zip_columns ::
  "string list \<Rightarrow> string list \<Rightarrow> string list \<Rightarrow> string list \<Rightarrow> string smap \<times> string smap \<Rightarrow>
     (string smap \<times> string smap) res" where
  "zip_columns [] _ _ _ m = Ok m"
| "zip_columns (i # is) (j # js) (k # ks) (p # ps) (d, l) =
     zip_columns is js ks ps (smap_put i j d, smap_put k p l)"
| "zip_columns (i # is) _ _ _ m = Undef"

definition mq_updateData ::
  "string list smap smap \<Rightarrow> 'p mqtt_worker \<Rightarrow> unit res \<times> 'p mqtt_worker" where
  "mq_updateData data w =
     (case smap_at data ''LiftBlocks'' of
        Throw e \<Rightarrow> (Throw e, w)
      | Undef \<Rightarrow> (Undef, w)
      | Ok lb \<Rightarrow>
          (let w1 = w\<lparr>mq_lift_blocks := lb\<rparr> in
           if lb = [] then (Throw Invalid_argument, w1)
           else case bind_res (smap_at lb ''Id'') (\<lambda>is. bind_res (smap_at lb ''Descriptor'') (\<lambda>js.
                     bind_res (smap_at lb ''Login'') (\<lambda>ks. bind_res (smap_at lb ''Password'') (\<lambda>ps.
                     zip_columns is js ks ps ([], []))))) of
                  Throw e \<Rightarrow> (Throw e, w1)
                | Undef \<Rightarrow> (Undef, w1)
                | Ok (d, l) \<Rightarrow> (Ok (), w1\<lparr>mq_lb_descriptor := d, mq_login_password := l\<rparr>)))"

definition mq_updateDataCallback ::
  "string list smap smap \<Rightarrow> 'p mqtt_worker \<Rightarrow> unit res \<times> 'p mqtt_worker" where
  "mq_updateDataCallback data w =
     (case mq_updateData data w of
        (Undef, w1) \<Rightarrow> (Undef, w1)
      | (_, w1) \<Rightarrow> (Ok (), w1))"

definition mq_startWorkers ::
  "string list smap smap \<Rightarrow> 'p mqtt_worker \<Rightarrow> unit res \<times> 'p mqtt_worker" where
  "mq_startWorkers data w =
     (case mq_updateData data w of
        (Undef, w1) \<Rightarrow> (Undef, w1)
      | (Throw e, w1) \<Rightarrow> (Ok (), w1)
      | (Ok _, w1) \<Rightarrow>
          (let ms = mq_ms w1;
               ms1 = ms\<lparr>mw_env := br_start (mq_login_password w1) (mw_env ms)\<rparr>
           in (Ok (), w1\<lparr>mq_update_timers := mq_update_timers w1 + 1,
                        mq_ms := mw_start (mq_lb_descriptor w1) ms1\<rparr>)))"

definition mq_stop :: "'p mqtt_worker \<Rightarrow> 'p mqtt_worker" where
  "mq_stop w = w\<lparr>mq_ms := mw_stop ((mq_ms w)\<lparr>mw_env := br_stop (mw_env (mq_ms w))\<rparr>)\<rparr>"

text \<open>\<open>__loadDataBase\<close>: the one query of this worker.\<close>

definition mq_condition :: "string \<Rightarrow> string" where
  "mq_condition ident =
     ''WHERE WorkerLuId = '' @ quoted ident @ '' OR SecondWorkerLuId = '' @ quoted ident"

definition mq_loadDataBase :: "string \<Rightarrow> 'q cdb \<Rightarrow> 'q cdb" where
  "mq_loadDataBase ident c =
     cdb_start (cdb_setQuerys [''LiftBlocks''] [[''Id'', ''Descriptor'', ''Login'', ''Password'']]
       [mq_condition ident] c)"

section \<open>The configuration\<close>

datatype process_code = SUCCESSFUL | CONFIG_FILE_NOT_OPEN | CONFIG_DATA_NOT_FULL

definition cfg_int :: "string smap \<Rightarrow> string \<Rightarrow> int res" where
  "cfg_int cfg k = bind_res (smap_at cfg k) stoi"

definition mq_init :: "string smap \<Rightarrow> process_code" where
  "mq_init config_data =
     (if config_data = [] then CONFIG_FILE_NOT_OPEN
      else
        case bind_res (smap_at config_data ''Id'') (\<lambda>_.
             bind_res (cfg_int config_data ''Count_threads'') (\<lambda>count_threads.
             bind_res (smap_at config_data ''Main_server_ip'') (\<lambda>_.
             bind_res (cfg_int config_data ''Main_server_port'') (\<lambda>main_server_port.
             bind_res (cfg_int config_data ''Main_server_info_port'') (\<lambda>main_server_info_port.
             bind_res (smap_at config_data ''DB_ip'') (\<lambda>_.
             bind_res (cfg_int config_data ''DB_port'') (\<lambda>db_port.
             bind_res (smap_at config_data ''DB_login'') (\<lambda>_.
             bind_res (smap_at config_data ''DB_password'') (\<lambda>_.
               if main_server_port < 1 \<or> main_server_info_port < 1 \<or> db_port < 1 \<or> count_threads < 1
               then Throw Invalid_argument else Ok ()))))))))) of
          Ok _ \<Rightarrow> SUCCESSFUL
        | _ \<Rightarrow> CONFIG_DATA_NOT_FULL)"

section \<open>The name of a lift controller\<close>

lemma find_char_from_hit:
  assumes "c \<notin> set a"
  shows "find_char_from (p @ a @ c # r) c (length p) = length p + length a"
proof -
  have "search_pos (\<lambda>x. x = c) (a @ c # r) = length a"
    using assms by (induction a) auto
  then show ?thesis by (simp add: find_char_from_def)
qed

lemma mod_drop_wrap: "n \<le> m \<Longrightarrow> m < SIZE_MOD \<Longrightarrow> n < SIZE_MOD \<Longrightarrow> (m + (SIZE_MOD - n)) mod SIZE_MOD = m - n"
  by (simp add: mod_if)

lemma client_name_spec:
  assumes "str_find client_id SEARCH_PHRASE = Some (length pre)"
    and "client_id = pre @ SEARCH_PHRASE @ num @ CHR '' '' # rest" and "CHR '' '' \<notin> set num"
    and "length client_id < SIZE_MOD"
  shows "client_name client_id = Ok (take (length pre + length num) (num @ CHR '' '' # rest))"
proof -
  let ?p = "pre @ SEARCH_PHRASE"
  have len: "length SEARCH_PHRASE = 7" by (simp add: SEARCH_PHRASE_def)
  have f: "find_pos client_id SEARCH_PHRASE = length pre"
    using assms(1) by (simp add: find_pos_def)
  have lt: "length pre + 7 < SIZE_MOD" using assms(2,4) len by simp
  have sp: "find_char_from client_id (CHR '' '') (length pre + 7) = length pre + 7 + length num"
    using find_char_from_hit [OF assms(3), of ?p rest] assms(2) len by simp
  have "(length pre + 7 + length num + (SIZE_MOD - 7)) mod SIZE_MOD = length pre + length num"
    using mod_drop_wrap [of 7 "length pre + 7 + length num"] assms(2,4) len by simp
  moreover have "drop (length pre + 7) client_id = num @ CHR '' '' # rest"
    using assms(2) len by simp
  moreover have "length pre + 7 \<le> length client_id" using assms(2) len by simp
  ultimately show ?thesis
    using lt f sp len by (simp add: client_name_def Let_def str_substr_def)
qed

lemma str_find_prefix: "prefix p s \<Longrightarrow> str_find s p = Some 0"
  by (cases s) auto

section \<open>The move command\<close>

definition br_named :: "broker \<Rightarrow> string \<Rightarrow> nat option" where
  "br_named b d = map_option bs_con (List.find (\<lambda>s. bs_name s = d) (br_sessions b))"

lemma find_search_pos:
  "List.find p xs = (if search_pos p xs < length xs then Some (xs ! search_pos p xs) else None)"
  by (induction xs) auto

lemma br_publish_named:
  "br_publish d topic msg b =
     (case br_named b d of
        Some con \<Rightarrow> (True, b\<lparr>br_acts := br_acts b @ [Publish con topic msg]\<rparr>)
      | None \<Rightarrow> (False, b))"
  by (simp add: br_publish_def br_named_def find_search_pos Let_def)

lemma substr_quoted:
  assumes "length d + 2 < SIZE_MOD"
  shows "str_substr (quoted d) 1 (Some ((length (quoted d) + (SIZE_MOD - 2)) mod SIZE_MOD)) = Ok d"
  using assms mod_drop_wrap [of 2 "length d + 2"]
  by (simp add: str_substr_def quoted_def)

lemma mq_moveLift_spec:
  assumes "length d + 2 < SIZE_MOD"
  shows "mq_moveLift ser (quoted d) floor station s =
     (Ok (), (case br_named (mw_env s) d of
        Some con \<Rightarrow> mw_responseMove ser station True
          (s\<lparr>mw_env := (mw_env s)\<lparr>br_acts := br_acts (mw_env s) @ [Publish con (lift_topic d) (lift_payload floor)]\<rparr>\<rparr>)
      | None \<Rightarrow> mw_responseMove ser station False (s\<lparr>mw_env := mw_env s\<rparr>)))"
  using substr_quoted [OF assms]
  by (simp add: mq_moveLift_def br_publish_named split: option.split)

lemma zip_columns_ok:
  "length js = length is \<Longrightarrow> length ks = length is \<Longrightarrow> length ps = length is \<Longrightarrow>
   zip_columns is js ks ps (d, l) =
     Ok (fold (\<lambda>(i, j). smap_put i j) (zip is js) d, fold (\<lambda>(k, p). smap_put k p) (zip ks ps) l)"
proof (induction "is" js ks ps "(d, l)" arbitrary: d l rule: zip_columns.induct)
  case (2 i "is" j js k ks p ps d l)
  then show ?case by simp
qed auto

lemma zip_columns_short:
  "length js < length is \<or> length ks < length is \<or> length ps < length is \<Longrightarrow>
   zip_columns is js ks ps m = Undef"
  by (induction "is" js ks ps m rule: zip_columns.induct) auto

section \<open>Properties\<close>

text \<open>
  A controller is accepted exactly when its login is in the table and a name can be
  cut out of its identifier; the password is not looked at.
\<close>

theorem connect_ignores_password:
  "fst (bs_connect logins client_id (Some u) password s) = Ok True \<longleftrightarrow>
     smap_get logins (quoted u) \<noteq> None \<and> is_ok (client_name (c_str client_id))"
proof -
  have u: "client_name x \<noteq> Undef" for x by (simp add: client_name_def Let_def str_substr_def)
  show ?thesis
    by (cases "client_name (c_str client_id)") (auto simp: bs_connect_def smap_at_def u split: option.split)
qed

text \<open>
  The name of a controller is the number behind the phrase only when the identifier
  begins with the phrase; every byte in front of it adds a byte of what follows the number.
\<close>

theorem client_name_of_identifier:
  assumes "str_find client_id SEARCH_PHRASE = Some (length pre)"
    and "client_id = pre @ SEARCH_PHRASE @ num @ CHR '' '' # rest" and "CHR '' '' \<notin> set num"
    and "length client_id < SIZE_MOD"
  shows "client_name client_id = Ok (num @ take (length pre) (CHR '' '' # rest)) \<and>
     (client_name client_id = Ok num \<longleftrightarrow> pre = [])"
  using client_name_spec [OF assms] by auto

theorem client_name_of_identifier_witness:
  "client_name ''LKDS_LU127 v2'' = Ok ''127'' \<and> client_name ''x_LKDS_LU127 v2'' = Ok ''127 v''"
proof -
  have "client_name ''LKDS_LU127 v2'' = Ok (''127'' @ take (length ([] :: string)) (CHR '' '' # ''v2'')) \<and>
      (client_name ''LKDS_LU127 v2'' = Ok ''127'' \<longleftrightarrow> ([] :: string) = [])"
    by (rule client_name_of_identifier) (simp_all add: SEARCH_PHRASE_def SIZE_MOD_def)
  moreover have "client_name ''x_LKDS_LU127 v2'' = Ok (''127'' @ take (length ''x_'') (CHR '' '' # ''v2'')) \<and>
      (client_name ''x_LKDS_LU127 v2'' = Ok ''127'' \<longleftrightarrow> ''x_'' = [])"
    by (rule client_name_of_identifier) (simp_all add: SEARCH_PHRASE_def SIZE_MOD_def)
  ultimately show ?thesis by simp
qed

lemma mw_move_publishes:
  assumes "mw_queue s = [worker_request_mqtt_move sender station lb floor]"
    and "smap_get (mw_lu_id_descriptor s) lb = Some (quoted d)" and "length d + 2 < SIZE_MOD"
    and "CHR 0x00 \<notin> set station" and "CHR 0x00 \<notin> set lb"
  shows "\<exists>s'. mw_commandAnalize ser (mq_moveLift ser) s = Some (Ok (), s') \<and> mw_queue s' = [] \<and>
     (case br_named (mw_env s) d of
        Some con \<Rightarrow>
          br_acts (mw_env s') = br_acts (mw_env s) @
            [Publish con (lift_topic d) (lift_payload (to_string floor))] \<and>
          mw_sends s' = mw_sends s @
            [ser (worker_response_mqtt_lift_move WORKER_NAME station Status_success [])]
      | None \<Rightarrow>
          br_acts (mw_env s') = br_acts (mw_env s) \<and>
          mw_sends s' = mw_sends s @
            [ser (worker_response_mqtt_lift_move WORKER_NAME station Status_fail [])])"
proof -
  let ?v = "worker_request_mqtt_move sender station lb floor"
  have v: "str_member ?v [''request'', ''mqtt_command'', ''lb_id''] = Ok lb"
    "str_member ?v [''request'', ''mqtt_command'', ''value''] = Ok (to_string floor)"
    "str_member ?v [''request'', ''station_id''] = Ok station"
    using assms(4,5) to_string_no_nul [of floor]
    by (simp_all add: str_member_def worker_request_mqtt_move_def c_str_id)
  have t: "json_at ?v ''target'' = Ok (JStr ''move_lift'')" by (simp add: worker_request_mqtt_move_def)
  obtain s1 where s1: "mq_moveLift ser (quoted d) (to_string floor) station s = (Ok (), s1)"
    by (metis mq_moveLift_spec [OF assms(3)])
  then have e: "s1 = snd (mq_moveLift ser (quoted d) (to_string floor) station s)" by simp
  let ?s' = "s1\<lparr>mw_queue := tl (mw_queue s1)\<rparr>"
  have q: "mw_queue s1 = mw_queue s"
    unfolding e mq_moveLift_spec [OF assms(3)] by (simp add: mw_responseMove_def mw_async_send_def split: option.split)
  have "mw_analize_front ser (mq_moveLift ser) s = (Ok (), ?s')"
    using assms(1,2) v t s1 by (simp add: mw_analize_front_def mw_moveLift_def smap_at_def)
  with assms(1) q have "mw_commandAnalize ser (mq_moveLift ser) s = Some (Ok (), ?s')"
    by (subst mw_commandAnalize.simps) (simp add: mw_loop_empty)
  moreover have "case br_named (mw_env s) d of
        Some con \<Rightarrow>
          br_acts (mw_env ?s') = br_acts (mw_env s) @
            [Publish con (lift_topic d) (lift_payload (to_string floor))] \<and>
          mw_sends ?s' = mw_sends s @
            [ser (worker_response_mqtt_lift_move WORKER_NAME station Status_success [])]
      | None \<Rightarrow>
          br_acts (mw_env ?s') = br_acts (mw_env s) \<and>
          mw_sends ?s' = mw_sends s @
            [ser (worker_response_mqtt_lift_move WORKER_NAME station Status_fail [])]"
    unfolding e mq_moveLift_spec [OF assms(3)]
    by (simp add: mw_responseMove_def mw_async_send_def split: option.split)
  ultimately show ?thesis using assms(1) q by (intro exI [of _ ?s']) simp
qed

text \<open>
  C9: a lift command of the main server for a lift in the table, whose controller is
  connected, publishes exactly one message: on the controller's topic, with the floor in
  decimal, on the connection of the first session with its name; the worker then reports
  success for the station. With no such session nothing is published and the worker
  reports failure.
\<close>

theorem move_command_publishes_once:
  assumes "mw_queue s = [worker_request_mqtt_move sender station lb floor]"
    and "smap_get (mw_lu_id_descriptor s) lb = Some (quoted d)" and "length d + 2 < SIZE_MOD"
    and "CHR 0x00 \<notin> set station" and "CHR 0x00 \<notin> set lb"
  shows "\<exists>s'. mw_commandAnalize ser (mq_moveLift ser) s = Some (Ok (), s') \<and> mw_queue s' = [] \<and>
     (case br_named (mw_env s) d of
        Some con \<Rightarrow>
          br_acts (mw_env s') = br_acts (mw_env s) @
            [Publish con (lift_topic d) (lift_payload (to_string floor))] \<and>
          mw_sends s' = mw_sends s @
            [ser (worker_response_mqtt_lift_move WORKER_NAME station Status_success [])]
      | None \<Rightarrow>
          br_acts (mw_env s') = br_acts (mw_env s) \<and>
          mw_sends s' = mw_sends s @
            [ser (worker_response_mqtt_lift_move WORKER_NAME station Status_fail [])])"
  by (rule mw_move_publishes [OF assms])

definition sample_broker :: broker where
  "sample_broker = br_new\<lparr>br_sessions := [(bs_new 1 [] [])\<lparr>bs_name := ''9''\<rparr>, (bs_new 2 [] [])\<lparr>bs_name := ''127''\<rparr>]\<rparr>"

theorem move_command_publishes_once_witness:
  "\<exists>s'. mw_commandAnalize (\<lambda>_. ''x'') (mq_moveLift (\<lambda>_. ''x''))
     ((mw_new ''1'' () sample_broker)\<lparr>mw_queue := [worker_request_mqtt_move ''Main_server'' ''st'' ''77'' 5],
        mw_lu_id_descriptor := [(''77'', quoted ''127'')]\<rparr>) = Some (Ok (), s') \<and>
     br_acts (mw_env s') = [Publish 2 ''LU127/set/cmd'' (lift_payload ''5'')]"
proof -
  let ?s = "(mw_new ''1'' () sample_broker)\<lparr>mw_queue := [worker_request_mqtt_move ''Main_server'' ''st'' ''77'' 5],
        mw_lu_id_descriptor := [(''77'', quoted ''127'')]\<rparr>"
  have n: "br_named (mw_env ?s) ''127'' = Some 2"
    by (simp add: br_named_def mw_new_def sample_broker_def br_new_def bs_new_def)
  have five: "to_string 5 = ''5''" by (simp add: to_string_def nat_to_string.simps digit_char_values)
  have "\<exists>s'. mw_commandAnalize (\<lambda>_. ''x'') (mq_moveLift (\<lambda>_. ''x'')) ?s = Some (Ok (), s') \<and> mw_queue s' = [] \<and>
     (case br_named (mw_env ?s) ''127'' of
        Some con \<Rightarrow>
          br_acts (mw_env s') = br_acts (mw_env ?s) @
            [Publish con (lift_topic ''127'') (lift_payload (to_string 5))] \<and>
          mw_sends s' = mw_sends ?s @
            [''x'']
      | None \<Rightarrow>
          br_acts (mw_env s') = br_acts (mw_env ?s) \<and>
          mw_sends s' = mw_sends ?s @ [''x''])"
    by (rule move_command_publishes_once [where sender = "''Main_server''" and station = "''st''" and lb = "''77''"])
      (simp_all add: SIZE_MOD_def)
  then show ?thesis
    unfolding n five by (auto simp: mw_new_def sample_broker_def br_new_def lift_topic_def)
qed

text \<open>
  After the start, updates of the tables do not reach the parts that use them: the
  broker goes on checking the logins, and the connection to the main server the lifts,
  that were loaded at the start.
\<close>

theorem updates_do_not_reach_workers:
  assumes "mq_startWorkers data w = (Ok (), w1)" and "mq_updateDataCallback data' w1 = (r, w2)"
  shows "br_logins (mw_env (mq_ms w2)) = br_logins (mw_env (mq_ms w1)) \<and>
     mw_lu_id_descriptor (mq_ms w2) = mw_lu_id_descriptor (mq_ms w1)"
proof -
  have "mq_ms (snd (mq_updateData data' w1)) = mq_ms w1"
    by (simp add: mq_updateData_def Let_def split: res.split prod.split)
  then have "mq_ms w2 = mq_ms w1"
    using assms(2) by (auto simp: mq_updateDataCallback_def split: prod.splits res.splits)
  then show ?thesis by simp
qed

definition sample_lifts :: "string \<Rightarrow> string \<Rightarrow> string list smap smap" where
  "sample_lifts i d =
     [(''LiftBlocks'', [(''Descriptor'', [quoted d]), (''Id'', [quoted i]), (''Login'', [quoted i]), (''Password'', [quoted i])])]"

definition sample_worker :: "unit mqtt_worker" where
  "sample_worker = \<lparr>mq_lift_blocks = [], mq_lb_descriptor = [], mq_login_password = [],
     mq_ms = mw_new ''1'' () br_new, mq_update_timers = 0\<rparr>"

theorem updates_do_not_reach_workers_witness:
  "\<exists>w1 w2. mq_startWorkers (sample_lifts ''1'' ''127'') sample_worker = (Ok (), w1) \<and>
     mq_updateDataCallback (sample_lifts ''2'' ''128'') w1 = (Ok (), w2) \<and>
     mq_lb_descriptor w2 = [(quoted ''2'', quoted ''128'')] \<and>
     mw_lu_id_descriptor (mq_ms w2) = [(quoted ''1'', quoted ''127'')]"
proof -
  obtain w1 where w1: "mq_startWorkers (sample_lifts ''1'' ''127'') sample_worker = (Ok (), w1)"
    "mw_lu_id_descriptor (mq_ms w1) = [(quoted ''1'', quoted ''127'')]"
    by (simp add: mq_startWorkers_def mq_updateData_def sample_lifts_def sample_worker_def smap_at_def
        Let_def mw_start_def)
  obtain w2 where w2: "mq_updateDataCallback (sample_lifts ''2'' ''128'') w1 = (Ok (), w2)"
    "mq_lb_descriptor w2 = [(quoted ''2'', quoted ''128'')]"
    by (simp add: mq_updateDataCallback_def mq_updateData_def sample_lifts_def smap_at_def Let_def)
  from updates_do_not_reach_workers [OF w1(1) w2(1)] w1 w2 show ?thesis by auto
qed

end
