(* ===== verification/HTTPSServer.thy ===== *)
theory HTTPSServer
  imports WorkerSession
begin

text \<open>
  \<open>MainServer/Modules/HTTPSServer\<close>: one HTTPS connection of a voice station (\<open>Session\<close>) and
  the acceptor (\<open>Listener\<close>). A POST carries a JSON document; the session looks up the station
  and its lift block, picks a worker session, hands it the request and answers from the
  worker's callback. Reading the HTTP text and the TLS layer are the library's.
\<close>

section \<open>State\<close>

datatype http_method = POST | OPTIONS | Other_method

datatype parse_outcome = Parse_error | Parse_incomplete | Parse_bad_alloc string | Parse_value json

datatype hs_act =
    Handshake
  | Read_request
  | Respond nat string bool
  | Shutdown
  | Marusia_command nat string json
  | Mqtt_command nat string string int

record hs =
  hs_live :: bool
  hs_reconnect_count :: nat
  hs_method :: http_method
  hs_body :: string
  hs_keep_alive :: bool
  hs_body_request :: json
  hs_body_response :: "(string \<times> json) list"
  hs_pos_ms :: nat
  hs_pos_lb :: nat
  hs_pos_marusia :: nat
  hs_pos_lu :: nat
  hs_acts :: "hs_act list"

text \<open>What a session shares with the rest of the server: worker identifiers and two tables.\<close>

record hs_env =
  he_mqtt_ids :: "string list"
  he_marusia_ids :: "string list"
  he_marusia_station :: "string list smap"
  he_lift_blocks :: "string list smap"

definition hs_new :: hs where
  "hs_new = \<lparr>hs_live = False, hs_reconnect_count = 0, hs_method = Other_method, hs_body = [],
     hs_keep_alive = True, hs_body_request = JNull, hs_body_response = [], hs_pos_ms = 0,
     hs_pos_lb = 0, hs_pos_marusia = 0, hs_pos_lu = 0, hs_acts = []\<rparr>"

definition hs_do :: "hs_act list \<Rightarrow> hs \<Rightarrow> hs" where
  "hs_do as s = s\<lparr>hs_acts := hs_acts s @ as\<rparr>"

text \<open>\<open>__req = {}\<close>.\<close>

definition clear_req :: "hs \<Rightarrow> hs" where
  "clear_req s = s\<lparr>hs_method := Other_method, hs_body := [], hs_keep_alive := True\<rparr>"

section \<open>The texts\<close>

text \<open>UTF-8 bytes of the three fixed answers.\<close>

definition sorry_text :: string where
  "sorry_text = map char_of [
    208, 152, 208, 183, 208, 178, 208, 184, 208, 189, 208, 184, 209, 130, 208, 181, 32, 208, 191,
    208, 190, 208, 182, 208, 176, 208, 187, 209, 131, 208, 185, 209, 129, 209, 130, 208, 176, 32,
    209, 129, 208, 181, 209, 128, 208, 178, 208, 184, 209, 129, 32, 208, 178, 209, 128, 208, 181,
    208, 188, 208, 181, 208, 189, 208, 189, 208, 190, 32, 208, 189, 208, 181, 208, 180, 208, 190,
    209, 129, 209, 130, 209, 131, 208, 191, 208, 181, 208, 189 :: nat]"

definition anything_else_text :: string where
  "anything_else_text = map char_of [
    208, 156, 208, 190, 208, 179, 209, 131, 32, 208, 187, 208, 184, 32, 209, 143, 32, 208, 181,
    209, 137, 209, 145, 32, 209, 135, 208, 181, 208, 188, 45, 208, 189, 208, 184, 208, 177, 209,
    131, 208, 180, 209, 140, 32, 208, 191, 208, 190, 208, 188, 208, 190, 209, 135, 209, 140, 63 :: nat]"

definition intro_text :: string where
  "intro_text = map char_of [
    208, 151, 208, 180, 209, 128, 208, 176, 208, 178, 209, 129, 209, 130, 208, 178, 209, 131,
    208, 185, 209, 130, 208, 181, 44, 32, 209, 143, 32, 209, 129, 208, 186, 208, 184, 208, 187,
    208, 187, 32, 208, 163, 208, 188, 208, 189, 209, 139, 208, 185, 32, 208, 187, 208, 184, 209,
    132, 209, 130, 44, 32, 209, 143, 32, 208, 190, 208, 177, 208, 187, 208, 176, 208, 180, 208,
    176, 209, 142, 32, 208, 180, 208, 178, 209, 131, 208, 188, 209, 143, 32, 208, 189, 208, 176,
    208, 177, 208, 190, 209, 128, 208, 176, 208, 188, 208, 184, 32, 208, 186, 208, 190, 208, 188,
    208, 176, 208, 189, 208, 180, 46, 32, 208, 159, 208, 181, 209, 128, 208, 178, 208, 176, 209,
    143, 32, 209, 141, 209, 130, 208, 190, 32, 208, 191, 208, 190, 208, 180, 208, 189, 209, 143,
    209, 130, 208, 184, 208, 181, 32, 208, 187, 208, 184, 209, 132, 209, 130, 208, 176, 32, 208,
    189, 208, 176, 32, 208, 189, 209, 131, 208, 182, 208, 189, 209, 139, 208, 185, 32, 209, 141,
    209, 130, 208, 176, 208, 182, 46, 32, 208, 148, 208, 187, 209, 143, 32, 209, 141, 209, 130,
    208, 190, 208, 179, 208, 190, 32, 208, 191, 209, 128, 208, 190, 209, 129, 209, 130, 208, 190,
    32, 209, 129, 208, 186, 208, 176, 208, 182, 208, 184, 209, 130, 208, 181, 32, 34, 208, 191,
    208, 190, 208, 180, 208, 189, 208, 184, 208, 188, 208, 184, 32, 208, 189, 208, 176, 32, 208,
    189, 209, 131, 208, 182, 208, 189, 209, 139, 208, 185, 32, 209, 141, 209, 130, 208, 176, 208,
    182, 34, 44, 32, 34, 208, 189, 208, 176, 32, 208, 189, 209, 131, 208, 182, 208, 189, 209,
    139, 208, 185, 32, 209, 141, 209, 130, 208, 176, 208, 182, 34, 32, 208, 184, 32, 209, 130,
    46, 208, 191, 46, 32, 208, 146, 209, 130, 208, 190, 209, 128, 208, 190, 208, 181, 32, 209,
    141, 209, 130, 208, 190, 32, 208, 184, 208, 189, 209, 132, 208, 190, 209, 128, 208, 188, 208,
    184, 209, 128, 208, 190, 208, 178, 208, 176, 208, 189, 208, 184, 208, 181, 32, 208, 190, 32,
    208, 188, 208, 181, 209, 129, 209, 130, 208, 176, 209, 133, 32, 208, 184, 32, 209, 129, 208,
    190, 208, 177, 209, 139, 209, 130, 208, 184, 209, 143, 209, 133, 32, 208, 186, 208, 190, 209,
    130, 208, 190, 209, 128, 209, 139, 208, 181, 32, 208, 191, 209, 128, 208, 190, 208, 184, 209,
    129, 209, 133, 208, 190, 208, 180, 209, 143, 209, 130, 32, 209, 128, 209, 143, 208, 180, 208,
    190, 208, 188, 46, 32, 208, 148, 208, 187, 209, 143, 32, 208, 191, 209, 128, 208, 184, 208,
    188, 208, 181, 209, 128, 208, 176, 44, 32, 209, 129, 208, 191, 209, 128, 208, 190, 209, 129,
    208, 184, 209, 130, 208, 181, 32, 209, 135, 209, 130, 208, 190, 32, 208, 181, 209, 129, 209,
    130, 209, 140, 32, 209, 128, 209, 143, 208, 180, 208, 190, 208, 188, 44, 32, 208, 179, 208,
    180, 208, 181, 32, 208, 176, 208, 186, 208, 178, 208, 176, 208, 191, 208, 176, 209, 128, 208,
    186, 44, 32, 208, 179, 208, 180, 208, 181, 32, 208, 188, 208, 176, 209, 129, 209, 129, 208,
    176, 208, 182, 208, 184, 209, 129, 209, 130, 44, 32, 208, 181, 209, 129, 209, 130, 209, 140,
    32, 208, 187, 208, 184, 32, 208, 178, 209, 128, 208, 176, 209, 135, 32, 208, 184, 32, 209,
    130, 208, 190, 208, 188, 209, 131, 32, 208, 191, 208, 190, 208, 180, 208, 190, 208, 177, 208,
    189, 208, 190, 208, 181, 46, 32, 208, 159, 209, 128, 208, 181, 208, 180, 209, 131, 208, 191,
    209, 128, 208, 181, 208, 182, 208, 180, 208, 176, 209, 142, 44, 32, 208, 181, 209, 129, 208,
    187, 208, 184, 32, 208, 178, 208, 176, 209, 136, 208, 181, 32, 209, 131, 209, 129, 209, 130,
    209, 128, 208, 190, 208, 185, 209, 129, 209, 130, 208, 178, 208, 190, 32, 208, 189, 208, 181,
    32, 208, 191, 208, 190, 208, 180, 208, 186, 208, 187, 209, 142, 209, 135, 208, 181, 208, 189,
    208, 190, 32, 208, 186, 32, 208, 177, 208, 176, 208, 183, 208, 181, 32, 208, 180, 208, 176,
    208, 189, 208, 189, 209, 139, 209, 133, 44, 32, 208, 178, 209, 139, 32, 208, 189, 208, 181,
    32, 209, 129, 208, 188, 208, 190, 208, 182, 208, 181, 209, 130, 208, 181, 32, 208, 178, 208,
    190, 209, 129, 208, 191, 208, 190, 208, 187, 209, 140, 208, 183, 208, 190, 208, 178, 208,
    176, 209, 130, 209, 140, 209, 129, 209, 143, 32, 209, 132, 209, 131, 208, 189, 208, 186, 209,
    134, 208, 184, 208, 190, 208, 189, 208, 176, 208, 187, 208, 190, 208, 188, 32, 209, 129, 208,
    186, 208, 184, 208, 187, 208, 187, 208, 176, 32, 208, 178, 208, 190, 32, 208, 184, 208, 183,
    208, 177, 208, 181, 208, 182, 208, 176, 208, 189, 208, 184, 208, 181, 32, 208, 191, 209, 128,
    208, 190, 208, 177, 208, 187, 208, 181, 208, 188, 32, 209, 129, 32, 208, 184, 209, 129, 208,
    191, 208, 190, 208, 187, 209, 140, 208, 183, 208, 190, 208, 178, 208, 176, 208, 189, 208,
    184, 208, 181, 208, 188, 32, 208, 187, 208, 184, 209, 132, 209, 130, 208, 190, 208, 178, 46 :: nat]"

section \<open>Connection\<close>

definition hs_run :: "hs \<Rightarrow> hs" where
  "hs_run s = hs_do [Handshake] s"

definition RECONNECT_MAX :: nat where "RECONNECT_MAX = 3"

definition hs_doRead :: "hs \<Rightarrow> hs" where
  "hs_doRead s = hs_do [Read_request] (clear_req s)"

text \<open>A failed handshake is tried again, unless the certificate cannot be loaded.\<close>

definition hs_onHandshake :: "bool \<Rightarrow> int \<Rightarrow> hs \<Rightarrow> hs" where
  "hs_onHandshake ec loaded s =
     (if ec then
        (if loaded = - 1 then s
         else if hs_reconnect_count s < RECONNECT_MAX
         then hs_run (s\<lparr>hs_reconnect_count := hs_reconnect_count s + 1\<rparr>)
         else s\<lparr>hs_live := False\<rparr>)
      else hs_doRead (s\<lparr>hs_live := True\<rparr>))"

definition hs_doClose :: "hs \<Rightarrow> hs" where
  "hs_doClose s = hs_do [Shutdown] (s\<lparr>hs_live := False\<rparr>)"

definition hs_onWrite :: "bool \<Rightarrow> bool \<Rightarrow> hs \<Rightarrow> hs" where
  "hs_onWrite keep_alive ec s =
     (if ec then s\<lparr>hs_live := False\<rparr>
      else if \<not> keep_alive then hs_doClose s
      else s\<lparr>hs_live := False\<rparr>)"

definition hs_onShutdown :: "bool \<Rightarrow> hs \<Rightarrow> hs" where
  "hs_onShutdown ec s = s\<lparr>hs_live := False\<rparr>"

section \<open>Answers\<close>

definition hs_badRequest :: "string \<Rightarrow> hs \<Rightarrow> hs" where
  "hs_badRequest why s = hs_do [Respond 400 why False] (s\<lparr>hs_live := False\<rparr>)"

text \<open>
  \<open>__constructResponse\<close>: the parts of the request that the answer repeats are read without a
  handler for what they throw.
\<close>

definition session_echo :: "json \<Rightarrow> json res" where
  "session_echo v =
     bind_res (json_path v [''session'', ''session_id'']) (\<lambda>sid.
     bind_res (json_path v [''session'', ''application'', ''application_id'']) (\<lambda>uid.
     bind_res (bind_res (json_path v [''session'', ''message_id'']) as_int64) (\<lambda>mid.
       Ok (JObj [(''session_id'', sid), (''user_id'', uid), (''message_id'', JInt mid)]))))"

definition hs_constructResponse ::
  "(json \<Rightarrow> string) \<Rightarrow> (string \<times> json) list \<Rightarrow> hs \<Rightarrow> unit res \<times> hs" where
  "hs_constructResponse ser response_data s =
     (let s1 = s\<lparr>hs_body_response := jobj_put ''response'' (JObj response_data) (hs_body_response s)\<rparr> in
      rbind (session_echo (hs_body_request s1), s1) (\<lambda>echo s2.
        (let body = jobj_put ''version'' (JStr ''1.0'') (jobj_put ''session'' echo (hs_body_response s2))
         in (Ok (), hs_do [Respond 200 (ser (JObj body)) (hs_keep_alive s2)]
                     (clear_req (s2\<lparr>hs_body_response := [], hs_body_request := JNull\<rparr>))))))"

definition text_answer :: "string \<Rightarrow> bool \<Rightarrow> (string \<times> json) list" where
  "text_answer t end_session =
     [(''text'', JStr t), (''tts'', JStr t), (''end_session'', JBool end_session)]"

datatype marusia_answer =
    Answer "(string \<times> json) list"
  | Move string int string

text \<open>The analysis inside the \<open>try\<close> of \<open>__callbackWorkerMarussia\<close>.\<close>

definition marusia_target :: "json \<Rightarrow> json" where
  "marusia_target data = (case json_at data ''target'' of Ok t \<Rightarrow> t | _ \<Rightarrow> JStr ''error'')"

definition analize_marusia :: "hs_env \<Rightarrow> nat \<Rightarrow> json \<Rightarrow> marusia_answer res" where
  "analize_marusia E pos_lu data =
     (let target = marusia_target data in
      if target = JStr ''static_message'' then
        map_res Answer (bind_res (json_path data [''response'', ''response_body'']) as_object)
      else if target = JStr ''move_lift'' then
        (if he_mqtt_ids E = [] then Throw Invalid_argument
         else
           bind_res (bind_res (json_path data [''response'', ''station_id'']) as_string) (\<lambda>station_id.
           bind_res (bind_res (json_path data [''response'', ''mqtt_command'', ''value'']) as_string) (\<lambda>value.
           bind_res (stoi (c_str value)) (\<lambda>floor.
           bind_res (bind_res (json_path data [''response'', ''mqtt_command'', ''lb_id'']) as_string) (\<lambda>lb_id.
           bind_res (vec_at (he_mqtt_ids E) pos_lu) (\<lambda>_. Ok (Move station_id floor lb_id)))))))
      else if target = JStr ''application_not_found'' then Ok (Answer (text_answer intro_text False))
      else Ok (Answer (text_answer sorry_text False)))"

definition hs_callbackWorkerMarussia ::
  "(json \<Rightarrow> string) \<Rightarrow> hs_env \<Rightarrow> json \<Rightarrow> hs \<Rightarrow> unit res \<times> hs" where
  "hs_callbackWorkerMarussia ser E data s =
     (case analize_marusia E (hs_pos_lu s) data of
        Ok (Move station_id floor lb_id) \<Rightarrow>
          (Ok (), hs_do [Mqtt_command (hs_pos_lu s) station_id lb_id floor] s)
      | Ok (Answer response_data) \<Rightarrow> hs_constructResponse ser response_data s
      | Throw e \<Rightarrow> hs_constructResponse ser (text_answer sorry_text False) s
      | Undef \<Rightarrow> (Undef, s))"

definition mqtt_answer :: "json \<Rightarrow> (string \<times> json) list" where
  "mqtt_answer data =
     (case json_at data ''target'' of
        Ok t \<Rightarrow>
          (if t = JStr ''mqtt_message'' then
             (case json_path data [''response'', ''status''] of
                Ok st \<Rightarrow> text_answer (if st = JStr ''success'' then anything_else_text else sorry_text) False
              | _ \<Rightarrow> text_answer sorry_text True)
           else text_answer sorry_text True)
      | _ \<Rightarrow> text_answer sorry_text True)"

definition hs_callbackWorkerMQTT :: "(json \<Rightarrow> string) \<Rightarrow> json \<Rightarrow> hs \<Rightarrow> unit res \<times> hs" where
  "hs_callbackWorkerMQTT ser data s = hs_constructResponse ser (mqtt_answer data) s"

section \<open>Routing a request\<close>

text \<open>
  The searches start at the position found last: a table is first read there without a
  bounds check, the list of sessions with one.
\<close>

definition cached_find :: "string \<Rightarrow> nat \<Rightarrow> string list \<Rightarrow> (nat \<times> bool) res" where
  "cached_find x pos xs =
     bind_res (vec_idx xs pos) (\<lambda>y.
       Ok (if y \<noteq> x then (let i = search_pos (\<lambda>z. x = z) xs in (i, i < length xs)) else (pos, True)))"

definition session_find :: "string \<Rightarrow> string \<Rightarrow> nat \<Rightarrow> string list \<Rightarrow> nat \<times> bool" where
  "session_find w w2 pos ids =
     (if pos < length ids \<and> (ids ! pos = w \<or> ids ! pos = w2) then (pos, True)
      else (let i = search_pos (\<lambda>z. z = w \<or> z = w2) ids in (i, i < length ids)))"

definition cell :: "string list smap \<Rightarrow> string \<Rightarrow> nat \<Rightarrow> string res" where
  "cell m c i = bind_res (smap_at m c) (\<lambda>v. vec_at v i)"

definition cell_idx :: "string list smap \<Rightarrow> string \<Rightarrow> nat \<Rightarrow> string res" where
  "cell_idx m c i = bind_res (smap_at m c) (\<lambda>v. vec_idx v i)"

definition application_id :: "json \<Rightarrow> string res" where
  "application_id v =
     bind_res (json_path v [''session'', ''application'', ''application_id'']) as_string"

text \<open>The \<open>try\<close> of \<open>__analizeRequest\<close>: whether both a worker for the station and one for its
  lift are there.\<close>

definition hs_route :: "hs_env \<Rightarrow> hs \<Rightarrow> bool res \<times> hs" where
  "hs_route E s =
     (let ms = he_marusia_station E; lbs = he_lift_blocks E in
      rbind (application_id (hs_body_request s), s) (\<lambda>app s.
      rbind (bind_res (smap_at ms ''ApplicationId'') (cached_find (quoted (c_str app)) (hs_pos_ms s)), s) (\<lambda>(i, found) s.
      (let s = s\<lparr>hs_pos_ms := i\<rparr> in
       if \<not> found then (Throw Invalid_argument, s) else
       rbind (cell ms ''WorkerId'' i, s) (\<lambda>worker_id s.
       rbind (cell ms ''SecondWorkerId'' i, s) (\<lambda>second_worker_id s.
       (case session_find worker_id second_worker_id (hs_pos_marusia s) (he_marusia_ids E) of (k, found) \<Rightarrow>
        (let s = s\<lparr>hs_pos_marusia := k\<rparr> in
         if \<not> found then (Ok False, s) else
         rbind (cell_idx ms ''LiftBlockId'' i, s) (\<lambda>lb_id s.
         rbind (bind_res (smap_at lbs ''Id'') (cached_find lb_id (hs_pos_lb s)), s) (\<lambda>(j, _) s.
         (let s = s\<lparr>hs_pos_lb := j\<rparr> in
          rbind (cell lbs ''WorkerLuId'' j, s) (\<lambda>worker_id s.
          rbind (cell lbs ''SecondWorkerLuId'' j, s) (\<lambda>second_worker_id s.
          (case session_find worker_id second_worker_id (hs_pos_lu s) (he_mqtt_ids E) of (m, found) \<Rightarrow>
            (Ok found, s\<lparr>hs_pos_lu := m\<rparr>)))))))))))))))"

definition options_answer :: string where "options_answer = ''POST, OPTIONS''"

definition hs_analizeRequest ::
  "(json \<Rightarrow> string) \<Rightarrow> (string \<Rightarrow> parse_outcome) \<Rightarrow> hs_env \<Rightarrow> hs \<Rightarrow> unit res \<times> hs" where
  "hs_analizeRequest ser parse E s =
     (case hs_method s of
        Other_method \<Rightarrow>
          (Ok (), hs_badRequest (''Method not equal OPTIONS OR POST'' @ [CHR 0x0A]) (clear_req s))
      | OPTIONS \<Rightarrow> (Ok (), hs_do [Respond 200 [] True] (clear_req s))
      | POST \<Rightarrow>
          (case parse (hs_body s) of
             Parse_error \<Rightarrow> (Ok (), hs_badRequest ''parse JSON error'' (clear_req s))
           | Parse_incomplete \<Rightarrow> (Ok (), hs_badRequest ''JSON not full'' (clear_req s))
           | Parse_bad_alloc what \<Rightarrow> (Ok (), hs_badRequest (''Bad alloc JSON: '' @ what) (clear_req s))
           | Parse_value v \<Rightarrow>
               (let s = s\<lparr>hs_body_request := v\<rparr> in
                if he_marusia_ids E = [] then hs_callbackWorkerMarussia ser E JNull s
                else
                  (case hs_route E s of
                     (Ok False, s1) \<Rightarrow>
                       (case hs_callbackWorkerMarussia ser E JNull s1 of
                          (Throw e, s2) \<Rightarrow>
                            hs_callbackWorkerMarussia ser E
                              (JObj [(''target'', JStr ''application_not_found'')]) s2
                        | r \<Rightarrow> r)
                   | (Ok True, s1) \<Rightarrow>
                       (case application_id v of
                          Ok app \<Rightarrow> (Ok (), hs_do [Marusia_command (hs_pos_marusia s1) app v] s1)
                        | _ \<Rightarrow> (Undef, s1))
                   | (Throw e, s1) \<Rightarrow>
                       hs_callbackWorkerMarussia ser E
                         (JObj [(''target'', JStr ''application_not_found'')]) s1
                   | (Undef, s1) \<Rightarrow> (Undef, s1)))))"

definition hs_onRead ::
  "(json \<Rightarrow> string) \<Rightarrow> (string \<Rightarrow> parse_outcome) \<Rightarrow> hs_env \<Rightarrow> bool \<Rightarrow> bool \<Rightarrow> hs \<Rightarrow> unit res \<times> hs" where
  "hs_onRead ser parse E end_of_stream ec s =
     (if end_of_stream then (Ok (), hs_doClose s)
      else if ec then (Ok (), s\<lparr>hs_live := False\<rparr>)
      else hs_analizeRequest ser parse E s)"

section \<open>The acceptor\<close>

fun hs_kill_first :: "hs list \<Rightarrow> hs list option" where
  "hs_kill_first [] = None"
| "hs_kill_first (i # rest) =
     (if \<not> hs_live i then Some rest else map_option ((#) i) (hs_kill_first rest))"

definition TIME_DEAD_SESSION :: nat where "TIME_DEAD_SESSION = 5"

definition hs_killSession :: "hs list \<Rightarrow> hs list \<times> nat" where
  "hs_killSession sessions =
     (case hs_kill_first sessions of Some r \<Rightarrow> (r, 1) | None \<Rightarrow> (sessions, TIME_DEAD_SESSION))"

text \<open>An accept error ends accepting: no further accept is started.\<close>

definition hs_onAccept :: "bool \<Rightarrow> hs list \<Rightarrow> hs list \<times> bool" where
  "hs_onAccept ec sessions = (if ec then (sessions, False) else (sessions @ [hs_run hs_new], True))"

section \<open>The searches of a new session\<close>

lemma cached_find_new:
  "xs \<noteq> [] \<Longrightarrow> cached_find x 0 xs = Ok (search_pos (\<lambda>z. x = z) xs, x \<in> set xs)"
  by (cases xs) (auto simp: cached_find_def Let_def search_pos_less_iff)

lemma session_find_new:
  "session_find w w2 0 ids = (search_pos (\<lambda>z. z = w \<or> z = w2) ids, \<exists>z \<in> set ids. z = w \<or> z = w2)"
  by (cases ids) (auto simp: session_find_def Let_def search_pos_less_iff)

text \<open>
  The two tables as lists of rows, and what routing is meant to find: the row of the
  station, the first session of one of its workers, the row of its lift block, the first
  session of one of the workers of the lift.
\<close>

record station_row =
  sr_application :: string
  sr_worker :: string
  sr_second_worker :: string
  sr_lift_block :: string

record lift_row =
  lr_id :: string
  lr_worker :: string
  lr_second_worker :: string

definition station_table :: "station_row list \<Rightarrow> string list smap" where
  "station_table rows =
     [(''ApplicationId'', map sr_application rows), (''LiftBlockId'', map sr_lift_block rows),
      (''SecondWorkerId'', map sr_second_worker rows), (''WorkerId'', map sr_worker rows)]"

definition lift_table :: "lift_row list \<Rightarrow> string list smap" where
  "lift_table rows =
     [(''Id'', map lr_id rows), (''SecondWorkerLuId'', map lr_second_worker rows),
      (''WorkerLuId'', map lr_worker rows)]"

definition first_session :: "string list \<Rightarrow> string \<Rightarrow> string \<Rightarrow> nat option" where
  "first_session ids w w2 =
     (let k = search_pos (\<lambda>z. z = w \<or> z = w2) ids in if k < length ids then Some k else None)"

datatype route = Unknown_station | No_session | Route nat nat

definition find_route ::
  "station_row list \<Rightarrow> lift_row list \<Rightarrow> string list \<Rightarrow> string list \<Rightarrow> string \<Rightarrow> route" where
  "find_route stations lifts marusia_ids mqtt_ids app =
     (case List.find (\<lambda>r. sr_application r = quoted app) stations of
        None \<Rightarrow> Unknown_station
      | Some r \<Rightarrow>
          (case first_session marusia_ids (sr_worker r) (sr_second_worker r) of
             None \<Rightarrow> No_session
           | Some k \<Rightarrow>
               (case List.find (\<lambda>l. lr_id l = sr_lift_block r) lifts of
                  None \<Rightarrow> Unknown_station
                | Some l \<Rightarrow>
                    (case first_session mqtt_ids (lr_worker l) (lr_second_worker l) of
                       None \<Rightarrow> No_session
                     | Some m \<Rightarrow> Route k m))))"

lemma find_by_key:
  "List.find (\<lambda>r. f r = x) rows =
     (if x \<in> set (map f rows) then Some (rows ! search_pos (\<lambda>z. x = z) (map f rows)) else None)"
  by (induction rows) auto

lemma search_pos_map_less: "x \<in> set (map f rows) \<longleftrightarrow> search_pos (\<lambda>z. x = z) (map f rows) < length rows"
  using search_pos_less_iff [of "\<lambda>z. x = z" "map f rows"] by auto

lemma first_session_alt:
  "first_session ids w w2 = (if \<exists>z \<in> set ids. z = w \<or> z = w2
     then Some (search_pos (\<lambda>z. z = w \<or> z = w2) ids) else None)"
  by (simp add: first_session_def Let_def search_pos_less_iff)

definition new_session :: "hs \<Rightarrow> bool" where
  "new_session s \<longleftrightarrow> hs_pos_ms s = 0 \<and> hs_pos_lb s = 0 \<and> hs_pos_marusia s = 0 \<and> hs_pos_lu s = 0"

definition table_env :: "station_row list \<Rightarrow> lift_row list \<Rightarrow> string list \<Rightarrow> string list \<Rightarrow> hs_env" where
  "table_env stations lifts marusia_ids mqtt_ids =
     \<lparr>he_mqtt_ids = mqtt_ids, he_marusia_ids = marusia_ids,
      he_marusia_station = station_table stations, he_lift_blocks = lift_table lifts\<rparr>"

lemma table_at [simp]:
  "smap_at (station_table rows) ''ApplicationId'' = Ok (map sr_application rows)"
  "smap_at (station_table rows) ''LiftBlockId'' = Ok (map sr_lift_block rows)"
  "smap_at (station_table rows) ''SecondWorkerId'' = Ok (map sr_second_worker rows)"
  "smap_at (station_table rows) ''WorkerId'' = Ok (map sr_worker rows)"
  "smap_at (lift_table lrows) ''Id'' = Ok (map lr_id lrows)"
  "smap_at (lift_table lrows) ''SecondWorkerLuId'' = Ok (map lr_second_worker lrows)"
  "smap_at (lift_table lrows) ''WorkerLuId'' = Ok (map lr_worker lrows)"
  by (simp_all add: station_table_def lift_table_def smap_at_def)

lemma cell_table [simp]:
  "i < length rows \<Longrightarrow> cell (station_table rows) ''WorkerId'' i = Ok (sr_worker (rows ! i))"
  "i < length rows \<Longrightarrow> cell (station_table rows) ''SecondWorkerId'' i = Ok (sr_second_worker (rows ! i))"
  "i < length rows \<Longrightarrow> cell_idx (station_table rows) ''LiftBlockId'' i = Ok (sr_lift_block (rows ! i))"
  "j < length lrows \<Longrightarrow> cell (lift_table lrows) ''WorkerLuId'' j = Ok (lr_worker (lrows ! j))"
  "j < length lrows \<Longrightarrow> cell (lift_table lrows) ''SecondWorkerLuId'' j = Ok (lr_second_worker (lrows ! j))"
  "\<not> j < length lrows \<Longrightarrow> cell (lift_table lrows) ''WorkerLuId'' j = Throw Out_of_range"
  by (simp_all add: cell_def cell_idx_def vec_at_def)

definition same_request :: "hs \<Rightarrow> hs \<Rightarrow> bool" where
  "same_request s s' \<longleftrightarrow> hs_acts s' = hs_acts s \<and> hs_body_request s' = hs_body_request s \<and>
     hs_body_response s' = hs_body_response s \<and> hs_keep_alive s' = hs_keep_alive s"

lemma hs_route_finds:
  assumes new: "new_session s" and app: "application_id (hs_body_request s) = Ok app" "CHR 0x00 \<notin> set app"
    and ne: "stations \<noteq> []" "lifts \<noteq> []"
  shows "\<exists>r s'. hs_route (table_env stations lifts marusia_ids mqtt_ids) s = (r, s') \<and> same_request s s' \<and>
      (case find_route stations lifts marusia_ids mqtt_ids app of
         Unknown_station \<Rightarrow> (\<exists>e. r = Throw e)
       | No_session \<Rightarrow> r = Ok False
       | Route k m \<Rightarrow> r = Ok True \<and> hs_pos_marusia s' = k \<and> hs_pos_lu s' = m)"
proof -
  have c: "c_str app = app" using app(2) by (auto simp: c_str_def takeWhile_eq_all_conv)
  have pos: "hs_pos_ms s = 0" "hs_pos_lb s = 0" "hs_pos_marusia s = 0" "hs_pos_lu s = 0"
    using new by (simp_all add: new_session_def)
  let ?i = "search_pos (\<lambda>z. quoted app = z) (map sr_application stations)"
  have f1: "cached_find (quoted app) 0 (map sr_application stations) =
      Ok (?i, quoted app \<in> set (map sr_application stations))"
    using ne by (intro cached_find_new) simp
  note defs = hs_route_def table_env_def find_route_def find_by_key Let_def app(1) c pos
    session_find_new first_session_alt same_request_def f1
  show ?thesis
  proof (cases "quoted app \<in> set (map sr_application stations)")
    case False
    have k: "bind_res (smap_at (station_table stations) ''ApplicationId'')
        (cached_find (quoted (c_str app)) (hs_pos_ms s)) = Ok (?i, False)"
      unfolding table_at bind_res.simps c pos f1 using False by simp
    have "hs_route (table_env stations lifts marusia_ids mqtt_ids) s =
        (Throw Invalid_argument, s\<lparr>hs_pos_ms := ?i\<rparr>)"
      unfolding hs_route_def table_env_def Let_def hs_env.select_convs app(1) rbind_simps k prod.case
      by (simp only: not_False_eq_True if_True)
    moreover have "find_route stations lifts marusia_ids mqtt_ids app = Unknown_station"
      unfolding find_route_def find_by_key using False by (simp only: if_False option.case)
    ultimately show ?thesis by (simp add: same_request_def)
  next
    case True
    then have i: "?i < length stations" by (rule search_pos_map_less [THEN iffD1])
    let ?r = "stations ! ?i"
    let ?j = "search_pos (\<lambda>z. sr_lift_block ?r = z) (map lr_id lifts)"
    have f2: "cached_find (sr_lift_block ?r) 0 (map lr_id lifts) = Ok (?j, sr_lift_block ?r \<in> set (map lr_id lifts))"
      using ne by (intro cached_find_new) simp
    show ?thesis
    proof (cases "\<exists>z \<in> set marusia_ids. z = sr_worker ?r \<or> z = sr_second_worker ?r")
      case m: False
      with True i show ?thesis by (simp add: defs)
    next
      case m: True
      show ?thesis
      proof (cases "sr_lift_block ?r \<in> set (map lr_id lifts)")
        case l: False
        then have "\<not> ?j < length lifts" by (simp only: search_pos_map_less simp_thms)
        with True i m l f2 show ?thesis by (simp add: defs)
      next
        case l: True
        then have "?j < length lifts" by (rule search_pos_map_less [THEN iffD1])
        with True i m l f2 show ?thesis by (simp add: defs)
      qed
    qed
  qed
qed

section \<open>Properties\<close>

lemma constructResponse_ok:
  assumes "session_echo (hs_body_request s) = Ok echo"
  shows "\<exists>s'. hs_constructResponse ser resp s = (Ok (), s') \<and>
     hs_acts s' = hs_acts s @ [Respond 200
       (ser (JObj (jobj_put ''version'' (JStr ''1.0'') (jobj_put ''session'' echo
          (jobj_put ''response'' (JObj resp) (hs_body_response s)))))) (hs_keep_alive s)]"
  using assms by (simp add: hs_constructResponse_def Let_def hs_do_def clear_req_def)

lemma constructResponse_throws:
  assumes "session_echo (hs_body_request s) = Throw e"
  shows "\<exists>s'. hs_constructResponse ser resp s = (Throw e, s') \<and> hs_body_request s' = hs_body_request s \<and> hs_acts s' = hs_acts s"
  using assms by (simp add: hs_constructResponse_def Let_def)

lemma answer_throws:
  assumes "session_echo (hs_body_request s) = Throw e"
    and "d = JNull \<or> d = JObj [(''target'', JStr ''application_not_found'')]"
  shows "\<exists>s'. hs_callbackWorkerMarussia ser E d s = (Throw e, s') \<and> hs_body_request s' = hs_body_request s"
  using constructResponse_throws [OF assms(1), of ser "text_answer sorry_text False"]
    constructResponse_throws [OF assms(1), of ser "text_answer intro_text False"] assms(2)
  by (auto simp: hs_callbackWorkerMarussia_def analize_marusia_def marusia_target_def json_at_def)

lemma hs_route_no_application:
  assumes "application_id (hs_body_request s) = Throw e"
  shows "hs_route E s = (Throw e, s)"
  using assms by (simp add: hs_route_def)

text \<open>
  The answer of a worker with a fixed text reaches the station as it is: exactly one
  HTTP response with status 200, whose body has the worker's response object, the session
  and user identifiers and the message number of the request, and the version.
\<close>

theorem static_answer_reaches_station:
  assumes "session_echo (hs_body_request s) = Ok echo" and "hs_body_response s = []"
  shows "\<exists>s'. hs_callbackWorkerMarussia ser E (worker_response_static_message sender station (JObj resp)) s = (Ok (), s') \<and>
     hs_acts s' = hs_acts s @ [Respond 200
       (ser (JObj [(''response'', JObj resp), (''session'', echo), (''version'', JStr ''1.0'')])) (hs_keep_alive s)]"
  using constructResponse_ok [OF assms(1), of ser resp] assms(2)
  by (simp add: hs_callbackWorkerMarussia_def analize_marusia_def marusia_target_def
      worker_response_static_message_def)

definition sample_request :: "string \<Rightarrow> json" where
  "sample_request app =
     JObj [(''request'', JObj [(''command'', JStr ''5'')]),
           (''session'', JObj [(''session_id'', JStr ''s1''), (''message_id'', JInt 4),
              (''application'', JObj [(''application_id'', JStr app)])])]"

theorem static_answer_reaches_station_witness:
  "\<exists>s'. hs_callbackWorkerMarussia (\<lambda>_. ''x'') (table_env [] [] [] [])
     (worker_response_static_message ''W'' ''a1'' (JObj [(''text'', JStr ''hi'')]))
     (hs_new\<lparr>hs_body_request := sample_request ''a1''\<rparr>) = (Ok (), s') \<and> hs_acts s' = [Respond 200 ''x'' True]"
  using static_answer_reaches_station [of "hs_new\<lparr>hs_body_request := sample_request ''a1''\<rparr>"
      "JObj [(''session_id'', JStr ''s1''), (''user_id'', JStr ''a1''), (''message_id'', JInt 4)]"
      "\<lambda>_. ''x''" "table_env [] [] [] []" "''W''" "''a1''" "[(''text'', JStr ''hi'')]"]
  by (simp add: hs_new_def session_echo_def sample_request_def as_int64_def)

text \<open>
  C4: a request is routed as the tables say: to the first connected session of a worker of
  the station, when the first connected session of a worker of the station's lift is there
  too; otherwise the session answers at once, with the introduction for a station or lift
  block that is not in the tables and with the apology when a worker is missing.
\<close>

theorem request_is_routed:
  assumes "new_session s" and "hs_method s = POST" and "parse (hs_body s) = Parse_value v"
    and "application_id v = Ok app" and "CHR 0x00 \<notin> set app" and "session_echo v = Ok echo"
    and "stations \<noteq> []" and "lifts \<noteq> []" and "marusia_ids \<noteq> []" and "hs_body_response s = []"
  shows "\<exists>s'. hs_analizeRequest ser parse (table_env stations lifts marusia_ids mqtt_ids) s = (Ok (), s') \<and>
     hs_acts s' = hs_acts s @
       [case find_route stations lifts marusia_ids mqtt_ids app of
          Route k m \<Rightarrow> Marusia_command k app v
        | Unknown_station \<Rightarrow> Respond 200 (ser (JObj [(''response'', JObj (text_answer intro_text False)),
            (''session'', echo), (''version'', JStr ''1.0'')])) (hs_keep_alive s)
        | No_session \<Rightarrow> Respond 200 (ser (JObj [(''response'', JObj (text_answer sorry_text False)),
            (''session'', echo), (''version'', JStr ''1.0'')])) (hs_keep_alive s)]"
proof -
  let ?E = "table_env stations lifts marusia_ids mqtt_ids"
  let ?t = "s\<lparr>hs_body_request := v\<rparr>"
  have t: "new_session ?t" "application_id (hs_body_request ?t) = Ok app"
    using assms(1,4) by (simp_all add: new_session_def)
  have ids: "he_marusia_ids ?E \<noteq> []" using assms(9) by (simp add: table_env_def)
  from hs_route_finds [OF t assms(5,7,8), of marusia_ids mqtt_ids]
  obtain r s1 where r: "hs_route ?E ?t = (r, s1)" "same_request ?t s1"
    "case find_route stations lifts marusia_ids mqtt_ids app of
         Unknown_station \<Rightarrow> (\<exists>e. r = Throw e)
       | No_session \<Rightarrow> r = Ok False
       | Route k m \<Rightarrow> r = Ok True \<and> hs_pos_marusia s1 = k \<and> hs_pos_lu s1 = m" by blast
  have s1: "hs_body_request s1 = v" "hs_acts s1 = hs_acts s" "hs_body_response s1 = []"
    "hs_keep_alive s1 = hs_keep_alive s"
    using r(2) assms(10) by (simp_all add: same_request_def)
  have echo: "session_echo (hs_body_request s1) = Ok echo" using assms(6) s1 by simp
  note cr = constructResponse_ok [OF echo, of ser, unfolded s1]
  show ?thesis
  proof (cases "find_route stations lifts marusia_ids mqtt_ids app")
    case Unknown_station
    with r obtain e where "r = Throw e" by auto
    with cr [of "text_answer intro_text False"] r(1) assms(2,3) ids Unknown_station show ?thesis
      by (simp add: hs_analizeRequest_def Let_def hs_callbackWorkerMarussia_def analize_marusia_def
          marusia_target_def)
  next
    case No_session
    from cr [of "text_answer sorry_text False"] obtain s' where s': "hs_constructResponse ser (text_answer sorry_text False) s1 = (Ok (), s')"
      "hs_acts s' = hs_acts s @ [Respond 200 (ser (JObj (jobj_put ''version'' (JStr ''1.0'') (jobj_put ''session'' echo
          (jobj_put ''response'' (JObj (text_answer sorry_text False)) []))))) (hs_keep_alive s)]" by blast
    with r assms(2,3) ids No_session show ?thesis
      by (simp add: hs_analizeRequest_def Let_def hs_callbackWorkerMarussia_def analize_marusia_def
          marusia_target_def json_at_def)
  next
    case (Route k m)
    with r s1 assms(2,3,4) ids show ?thesis
      by (simp add: hs_analizeRequest_def Let_def hs_do_def)
  qed
qed

theorem request_is_routed_witness:
  "\<exists>s'. hs_analizeRequest (\<lambda>_. ''x'') (\<lambda>_. Parse_value (sample_request ''a1''))
      (table_env [\<lparr>sr_application = quoted ''a1'', sr_worker = quoted ''1'', sr_second_worker = quoted ''2'', sr_lift_block = quoted ''9''\<rparr>]
         [\<lparr>lr_id = quoted ''9'', lr_worker = quoted ''3'', lr_second_worker = quoted ''4''\<rparr>]
         [quoted ''7'', quoted ''2''] [quoted ''3'']) (hs_new\<lparr>hs_method := POST\<rparr>) = (Ok (), s') \<and>
     hs_acts s' = [Marusia_command 1 ''a1'' (sample_request ''a1'')]"
  using request_is_routed [of "hs_new\<lparr>hs_method := POST\<rparr>" "\<lambda>_. Parse_value (sample_request ''a1'')" "sample_request ''a1''"
      "''a1''" "JObj [(''session_id'', JStr ''s1''), (''user_id'', JStr ''a1''), (''message_id'', JInt 4)]"
      "[\<lparr>sr_application = quoted ''a1'', sr_worker = quoted ''1'', sr_second_worker = quoted ''2'', sr_lift_block = quoted ''9''\<rparr>]"
      "[\<lparr>lr_id = quoted ''9'', lr_worker = quoted ''3'', lr_second_worker = quoted ''4''\<rparr>]"
      "[quoted ''7'', quoted ''2'']" "\<lambda>_. ''x''" "[quoted ''3'']"]
  by (simp add: hs_new_def new_session_def application_id_def sample_request_def session_echo_def as_int64_def
      find_route_def first_session_def)

text \<open>
  A JSON document without a \<open>session\<close> member ends the server, whatever the tables and
  the connected workers: the answer to the exception is built from the same missing member,
  and that exception leaves the read handler.
\<close>

theorem request_without_session_ends_server:
  assumes "hs_method s = POST" and "parse (hs_body s) = Parse_value v"
    and "\<forall>w. json_at v ''session'' \<noteq> Ok w"
  shows "\<exists>e s'. hs_onRead ser parse E False False s = (Throw e, s')"
proof -
  obtain e where e: "json_at v ''session'' = Throw e"
    using assms(3) by (cases "json_at v ''session''") auto
  let ?t = "s\<lparr>hs_body_request := v\<rparr>"
  have se: "session_echo (hs_body_request ?t) = Throw e" and app: "application_id (hs_body_request ?t) = Throw e"
    using e by (simp_all add: session_echo_def application_id_def)
  show ?thesis
    using answer_throws [OF se, of JNull ser E] hs_route_no_application [OF app, of E] assms(1,2)
      answer_throws [OF se, of "JObj [(''target'', JStr ''application_not_found'')]" ser E]
    by (auto simp: hs_onRead_def hs_analizeRequest_def Let_def)
qed

theorem request_without_session_ends_server_witness:
  "\<exists>e s'. hs_onRead (\<lambda>_. ''x'') (\<lambda>_. Parse_value (JObj [])) (table_env [] [] [quoted ''1''] []) False False
     (hs_new\<lparr>hs_method := POST\<rparr>) = (Throw e, s')"
  by (rule request_without_session_ends_server [where v = "JObj []"]) (simp_all add: hs_new_def)

end
