(* ===== verification/MarusiaWorker.thy ===== *)
theory MarusiaWorker
  imports WorkerSession ClientDB
begin

text \<open>
  \<open>Worker/Modules/Worker/Worker.hpp\<close>: the worker that understands what a voice station heard.
  It receives the station's request from the main server, finds the station's house, and
  answers with a lift command (when the words ask for a floor) or with a fixed phrase.
\<close>

section \<open>The vocabulary\<close>

text \<open>Words are UTF-8 byte strings, in the order of the source.\<close>

definition utf8 :: "int list \<Rightarrow> string" where
  "utf8 bs = map char_of bs"

definition key_roots_bytes :: "int list list" where
  "key_roots_bytes = [
    [208, 191, 208, 181, 209, 128, 208, 178],
    [208, 178, 209, 130, 208, 190, 209, 128],
    [209, 130, 209, 128, 208, 181, 209, 130],
    [209, 135, 208, 181, 209, 130],
    [208, 191, 209, 143, 209, 130],
    [209, 136, 208, 181, 209, 129, 209, 130],
    [209, 129, 208, 181, 208, 180, 209, 140, 208, 188],
    [208, 178, 208, 190, 209, 129, 209, 140, 208, 188],
    [208, 180, 208, 181, 208, 178, 209, 143, 209, 130],
    [208, 180, 209, 134, 208, 176, 209, 130],
    [209, 129, 208, 190, 209, 128, 208, 190, 208, 186],
    [208, 180, 208, 181, 209, 129, 209, 143, 209, 130],
    [208, 180, 208, 181, 208, 178, 209, 143, 208, 189],
    [209, 129, 208, 190, 209, 130],
    [209, 129, 209, 130, 208, 190],
    [208, 188, 208, 184, 208, 189, 209, 131, 209, 129],
    [208, 189, 209, 131, 208, 187, 208, 181, 208, 178]]"

definition key_roots :: "string list" where
  "key_roots = map utf8 key_roots_bytes"

definition num_roots_bytes :: "(int list \<times> int) list" where
  "num_roots_bytes = [
    ([208, 188, 208, 184, 208, 189, 209, 131, 209, 129, 32, 209, 130, 209, 128, 208, 181, 209,
      130, 208, 184, 208, 185], - 3),
    ([208, 188, 208, 184, 208, 189, 209, 131, 209, 129, 32, 208, 178, 209, 130, 208, 190, 209,
      128, 208, 190, 208, 185], - 2),
    ([208, 188, 208, 184, 208, 189, 209, 131, 209, 129, 32, 208, 191, 208, 181, 209, 128, 208,
      178, 209, 139, 208, 185], - 1),
    ([208, 189, 209, 131, 208, 187, 208, 181, 208, 178, 208, 190, 208, 185], 0),
    ([208, 191, 208, 181, 209, 128, 208, 178, 209, 139, 208, 185], 1),
    ([208, 178, 209, 130, 208, 190, 209, 128, 208, 190, 208, 185], 2),
    ([209, 130, 209, 128, 208, 181, 209, 130, 208, 184, 208, 185], 3),
    ([209, 135, 208, 181, 209, 130, 208, 178, 208, 181, 209, 128, 209, 130, 209, 139, 208,
      185], 4),
    ([208, 191, 209, 143, 209, 130, 209, 139, 208, 185], 5),
    ([209, 136, 208, 181, 209, 129, 209, 130, 208, 190, 208, 185], 6),
    ([209, 129, 208, 181, 208, 180, 209, 140, 208, 188, 208, 190, 208, 185], 7),
    ([208, 178, 208, 190, 209, 129, 209, 140, 208, 188, 208, 190, 208, 185], 8),
    ([208, 180, 208, 181, 208, 178, 209, 143, 209, 130, 209, 139, 208, 185], 9),
    ([208, 180, 208, 181, 209, 129, 209, 143, 209, 130, 209, 139, 208, 185], 10),
    ([208, 190, 208, 180, 208, 184, 208, 189, 208, 189, 208, 176, 208, 180, 209, 134, 208,
      176, 209, 130, 209, 139, 208, 185], 11),
    ([208, 180, 208, 178, 208, 181, 208, 189, 208, 176, 208, 180, 209, 134, 208, 176, 209,
      130, 209, 139, 208, 185], 12),
    ([209, 130, 209, 128, 208, 184, 208, 189, 208, 176, 208, 180, 209, 134, 208, 176, 209,
      130, 209, 139, 208, 185], 13),
    ([209, 135, 208, 181, 209, 130, 209, 139, 209, 128, 208, 189, 208, 176, 208, 180, 209,
      134, 208, 176, 209, 130, 209, 139, 208, 185], 14),
    ([208, 191, 209, 143, 209, 130, 208, 189, 208, 176, 208, 180, 209, 134, 208, 176, 209,
      130, 209, 139, 208, 185], 15),
    ([209, 136, 208, 181, 209, 129, 209, 130, 208, 189, 208, 176, 208, 180, 209, 134, 208,
      176, 209, 130, 209, 139, 208, 185], 16),
    ([209, 129, 208, 181, 208, 188, 208, 189, 208, 176, 208, 180, 209, 134, 208, 176, 209,
      130, 209, 139, 208, 185], 17),
    ([208, 178, 208, 190, 209, 129, 208, 181, 208, 188, 208, 189, 208, 176, 208, 180, 209,
      134, 208, 176, 209, 130, 209, 139, 208, 185], 18),
    ([208, 180, 208, 181, 208, 178, 209, 143, 209, 130, 208, 189, 208, 176, 208, 180, 209,
      134, 208, 176, 209, 130, 209, 139, 208, 185], 19),
    ([208, 180, 208, 178, 208, 176, 208, 180, 209, 134, 208, 176, 209, 130, 209, 139, 208,
      185], 20),
    ([208, 180, 208, 178, 208, 176, 208, 180, 209, 134, 208, 176, 209, 130, 209, 140, 32, 208,
      191, 208, 181, 209, 128, 208, 178, 209, 139, 208, 185], 21),
    ([208, 180, 208, 178, 208, 176, 208, 180, 209, 134, 208, 176, 209, 130, 209, 140, 32, 208,
      178, 209, 130, 208, 190, 209, 128, 208, 190, 208, 185], 22),
    ([208, 180, 208, 178, 208, 176, 208, 180, 209, 134, 208, 176, 209, 130, 209, 140, 32, 209,
      130, 209, 128, 208, 181, 209, 130, 208, 184, 208, 185], 23),
    ([208, 180, 208, 178, 208, 176, 208, 180, 209, 134, 208, 176, 209, 130, 209, 140, 32, 209,
      135, 208, 181, 209, 130, 208, 178, 208, 181, 209, 128, 209, 130, 209, 139, 208, 185], 24),
    ([208, 180, 208, 178, 208, 176, 208, 180, 209, 134, 208, 176, 209, 130, 209, 140, 32, 208,
      191, 209, 143, 209, 130, 209, 139, 208, 185], 25),
    ([208, 180, 208, 178, 208, 176, 208, 180, 209, 134, 208, 176, 209, 130, 209, 140, 32, 209,
      136, 208, 181, 209, 129, 209, 130, 208, 190, 208, 185], 26),
    ([208, 180, 208, 178, 208, 176, 208, 180, 209, 134, 208, 176, 209, 130, 209, 140, 32, 209,
      129, 208, 181, 208, 180, 209, 140, 208, 188, 208, 190, 208, 185], 27),
    ([208, 180, 208, 178, 208, 176, 208, 180, 209, 134, 208, 176, 209, 130, 209, 140, 32, 208,
      178, 208, 190, 209, 129, 209, 140, 208, 188, 208, 190, 208, 185], 28),
    ([208, 180, 208, 178, 208, 176, 208, 180, 209, 134, 208, 176, 209, 130, 209, 140, 32, 208,
      180, 208, 181, 208, 178, 209, 143, 209, 130, 209, 139, 208, 185], 29),
    ([209, 130, 209, 128, 208, 184, 208, 180, 209, 134, 208, 176, 209, 130, 209, 139, 208,
      185], 30)]"

definition num_roots :: "int smap" where
  "num_roots = map (\<lambda>(w, n). (utf8 w, n)) num_roots_bytes"

definition mqtt_keys_bytes :: "int list list" where
  "mqtt_keys_bytes = [
    [209, 141, 209, 130, 208, 176, 208, 182],
    [208, 191, 208, 190, 208, 180, 209, 138, 208, 181, 208, 188],
    [209, 129, 208, 191, 209, 131, 209, 129, 208, 186],
    [208, 191, 208, 190, 208, 180, 208, 189, 208, 184, 208, 188, 208, 184],
    [208, 190, 208, 191, 209, 131, 209, 129, 209, 130, 208, 184]]"

definition mqtt_keys :: "string list" where
  "mqtt_keys = map utf8 mqtt_keys_bytes"

definition moving_text :: string where
  "moving_text =
    utf8 [208, 159, 208, 181, 209, 128, 208, 181, 208, 188, 208, 181, 209, 137, 208, 176, 209, 142,
      32, 208, 178, 208, 176, 209, 129, 32, 208, 189, 208, 176, 32]"

definition floor_text :: string where
  "floor_text =
    utf8 [32, 209, 141, 209, 130, 208, 176, 208, 182]"

definition unknown_command_text :: string where
  "unknown_command_text =
    utf8 [208, 152, 208, 183, 208, 178, 208, 184, 208, 189, 208, 184, 209, 130, 208, 181, 44, 32,
      209, 143, 32, 208, 189, 208, 181, 32, 208, 183, 208, 189, 208, 176, 209, 142, 32, 209,
      130, 208, 176, 208, 186, 208, 190, 208, 185, 32, 208, 186, 208, 190, 208, 188, 208, 176,
      208, 189, 208, 180, 209, 139, 44, 32, 208, 191, 208, 190, 208, 182, 208, 176, 208, 187,
      209, 131, 208, 185, 209, 129, 209, 130, 208, 176, 44, 32, 208, 191, 208, 181, 209, 128,
      208, 181, 209, 132, 209, 128, 208, 176, 208, 183, 208, 184, 209, 128, 209, 131, 208, 185,
      209, 130, 208, 181]"

section \<open>State\<close>

datatype mr_handler = MR_reciveConnect | MR_reciveCommand | MR_sendResponse | MR_reciveAnswer

datatype mr_act =
    MR_connect
  | MR_send string mr_handler
  | MR_send_rest nat nat mr_handler
  | MR_receive mr_handler
  | MR_pause nat
  | MR_load_tables
  | MR_timer nat

record 'p mr =
  mr_buf_send :: string
  mr_queue :: "json list"
  mr_parser :: 'p
  mr_json :: json
  mr_db_info :: "string list smap smap"
  mr_worker_id :: string
  mr_open :: bool
  mr_flag_disconnect :: bool
  mr_flag_end_send :: bool
  mr_response_command :: string
  mr_acts :: "mr_act list"

definition mr_name :: string where "mr_name = ''Marusia_Worker''"

definition mr_new :: "string \<Rightarrow> 'p \<Rightarrow> 'p mr" where
  "mr_new worker_id p0 =
     \<lparr>mr_buf_send = [], mr_queue = [], mr_parser = p0, mr_json = JNull, mr_db_info = [],
      mr_worker_id = worker_id, mr_open = False, mr_flag_disconnect = False,
      mr_flag_end_send = False, mr_response_command = [], mr_acts = []\<rparr>"

definition mr_do :: "mr_act list \<Rightarrow> 'p mr \<Rightarrow> 'p mr" where
  "mr_do as s = s\<lparr>mr_acts := mr_acts s @ as\<rparr>"

lemma mr_do_simps [simp]:
  "mr_buf_send (mr_do as s) = mr_buf_send s" "mr_queue (mr_do as s) = mr_queue s"
  "mr_parser (mr_do as s) = mr_parser s" "mr_json (mr_do as s) = mr_json s"
  "mr_db_info (mr_do as s) = mr_db_info s" "mr_open (mr_do as s) = mr_open s"
  "mr_flag_disconnect (mr_do as s) = mr_flag_disconnect s"
  "mr_flag_end_send (mr_do as s) = mr_flag_end_send s"
  "mr_response_command (mr_do as s) = mr_response_command s"
  "mr_worker_id (mr_do as s) = mr_worker_id s" "mr_acts (mr_do as s) = mr_acts s @ as"
  by (simp_all add: mr_do_def)

section \<open>Connection\<close>

definition mr_stop :: "'p mr \<Rightarrow> 'p mr" where
  "mr_stop s = s\<lparr>mr_open := False\<rparr>"

definition mr_connectToMS :: "'p mr \<Rightarrow> 'p mr" where
  "mr_connectToMS s = mr_do [MR_connect] (s\<lparr>mr_open := True\<rparr>)"

definition mr_setDbInfo :: "string list smap smap \<Rightarrow> 'p mr \<Rightarrow> 'p mr" where
  "mr_setDbInfo data s = s\<lparr>mr_db_info := data\<rparr>"

text \<open>The queries of \<open>__connectToBd\<close>.\<close>

definition mr_tables :: "(string \<times> string list) list" where
  "mr_tables =
     [(''MarussiaStation'', [''ApplicationId'', ''HouseComplexId'', ''HouseNum'', ''LiftBlockId'']),
      (''House'', [''TopFloor'', ''BottomFloor'', ''NullFloor'', ''HouseNumber'', ''HousingComplexId'']),
      (''StaticPhrases'', [''HouseComplexId'', ''HouseNum'', ''KeyWords'', ''Response''])]"

definition mr_connectToBd :: "'q cdb \<Rightarrow> 'q cdb" where
  "mr_connectToBd c = cdb_start (cdb_setQuerys (map fst mr_tables) (map snd mr_tables) [] c)"

definition mr_resetTimer :: "'p mr \<Rightarrow> 'p mr" where
  "mr_resetTimer s = mr_do [MR_load_tables, MR_timer 24] s"

text \<open>\<open>start\<close>: a missing configuration entry or a bad port closes the worker before it began.\<close>

definition mr_start :: "string smap \<Rightarrow> (string \<Rightarrow> bool) \<Rightarrow> 'p mr \<Rightarrow> 'p mr" where
  "mr_start config address_ok s =
     (let s1 = mr_do [MR_timer 24] s in
      case bind_res (smap_at config ''Main_server_ip'') (\<lambda>ip.
           bind_res (smap_at config ''Main_server_port'') (\<lambda>port.
           bind_res (smap_at config ''Id'') (\<lambda>ident.
           bind_res (smap_at config ''BD_ip'') (\<lambda>ip_db.
           bind_res (smap_at config ''BD_port'') (\<lambda>port_db.
           bind_res (smap_at config ''BD_login'') (\<lambda>_.
           bind_res (smap_at config ''BD_password'') (\<lambda>_.
           bind_res (stoi port_db) (\<lambda>_. bind_res (stoi port) (\<lambda>_.
             if address_ok ip \<and> address_ok ip_db then Ok ident else Throw Invalid_argument))))))))) of
        Ok ident \<Rightarrow> mr_connectToMS (mr_do [MR_load_tables] (s1\<lparr>mr_worker_id := ident\<rparr>))
      | _ \<Rightarrow> mr_stop s1)"

definition mr_sendConnect :: "(json \<Rightarrow> string) \<Rightarrow> bool \<Rightarrow> 'p mr \<Rightarrow> 'p mr" where
  "mr_sendConnect ser err s =
     (if err then mr_connectToMS (mr_stop (mr_do [MR_pause 2] s))
      else
        (let b = ser (worker_request_connect mr_name (mr_worker_id s))
         in mr_do [MR_send b MR_reciveConnect] (s\<lparr>mr_buf_send := b\<rparr>)))"

definition mr_reciveConnect :: "bool \<Rightarrow> nat \<Rightarrow> nat \<times> 'p mr \<Rightarrow> nat \<times> 'p mr" where
  "mr_reciveConnect err bytes_send = (\<lambda>(temp, s).
     (if err then (temp, mr_do [MR_send (mr_buf_send s) MR_reciveConnect] s)
      else case send_check (length (mr_buf_send s)) bytes_send temp of
             (Send_more pos n, t) \<Rightarrow> (t, mr_do [MR_send_rest pos n MR_reciveConnect] s)
           | (Send_success, t) \<Rightarrow> (0, mr_do [MR_receive MR_reciveCommand] (s\<lparr>mr_buf_send := []\<rparr>))))"

text \<open>
  \<open>__reciveCommand\<close> takes the answer to the login: the messages are parsed and dropped.
\<close>

definition mr_reciveCommand ::
  "'p parser_ops \<Rightarrow> nat \<Rightarrow> bool \<Rightarrow> string \<Rightarrow> 'p mr \<Rightarrow> 'p mr option" where
  "mr_reciveCommand ops uninit err data s =
     (if err then Some (mr_connectToMS (mr_stop s))
      else case recv_check ops uninit data (mr_parser s) (mr_queue s) of
             None \<Rightarrow> None
           | Some (st, p, q) \<Rightarrow>
               (let s1 = s\<lparr>mr_parser := p, mr_queue := q\<rparr> in
                if st \<noteq> Recv_success then Some (mr_do [MR_receive MR_reciveCommand] s1)
                else Some (mr_do [MR_receive MR_sendResponse] (s1\<lparr>mr_queue := []\<rparr>))))"

section \<open>Understanding a request\<close>

definition getRespToMS :: "string \<Rightarrow> json" where
  "getRespToMS t = JObj [(''text'', JStr t), (''tts'', JStr t), (''end_session'', JBool False)]"

text \<open>The last token that contains a root, with the roots in the outer loop.\<close>

definition last_match :: "'a list list \<Rightarrow> 'a list list \<Rightarrow> 'a list" where
  "last_match roots tokens =
     foldl (\<lambda>b r. foldl (\<lambda>b t. if str_contains t r then t else b) b tokens) [] roots"

definition number_token :: "string list \<Rightarrow> string" where
  "number_token tokens = last_match key_roots tokens"

definition token_floor :: "string list \<Rightarrow> int res" where
  "token_floor tokens = smap_at num_roots (strip_quotes (number_token tokens))"

definition wants_lift :: "string list \<Rightarrow> bool" where
  "wants_lift tokens \<longleftrightarrow> (\<exists>t \<in> set tokens. t \<in> set mqtt_keys)"

definition column_at :: "string list smap smap \<Rightarrow> string \<Rightarrow> string \<Rightarrow> string list res" where
  "column_at db t c = bind_res (smap_at db t) (\<lambda>m. smap_at m c)"

text \<open>The house rows: whether some row of the house has the floor in its range.\<close>

definition floor_inside :: "int \<Rightarrow> int \<Rightarrow> string \<Rightarrow> int \<Rightarrow> bool" where
  "floor_inside top_floor bot_floor null_floor floor \<longleftrightarrow>
     floor \<le> top_floor \<and> bot_floor \<le> floor \<or>
     (if strip_quotes null_floor = ''-1'' then - 1 else 0) = floor"

fun floor_loop ::
  "string list \<Rightarrow> string list \<Rightarrow> string list \<Rightarrow> string list \<Rightarrow> string list \<Rightarrow>
     string \<Rightarrow> string \<Rightarrow> int \<Rightarrow> nat \<Rightarrow> nat \<Rightarrow> bool res" where
  "floor_loop houses comps tops bots nulls num_house comp_id floor i 0 = Ok False"
| "floor_loop houses comps tops bots nulls num_house comp_id floor i (Suc n) =
     bind_res (vec_idx houses i) (\<lambda>h.
     bind_res (if h = num_house then map_res (\<lambda>c. c = comp_id) (vec_idx comps i) else Ok False) (\<lambda>here.
       if here then
         bind_res (vec_idx tops i) (\<lambda>t. bind_res (stoi (strip_quotes t)) (\<lambda>top_floor.
         bind_res (vec_idx bots i) (\<lambda>b. bind_res (stoi (strip_quotes b)) (\<lambda>bot_floor.
         bind_res (vec_idx nulls i) (\<lambda>null_floor.
           if floor_inside top_floor bot_floor null_floor floor then Ok True
           else floor_loop houses comps tops bots nulls num_house comp_id floor (Suc i) n)))))
       else floor_loop houses comps tops bots nulls num_house comp_id floor (Suc i) n))"

text \<open>The key words of a phrase: variants between semicolons.\<close>

function split_variants :: "string \<Rightarrow> string list" where
  "split_variants all_variants =
     (case str_find all_variants [semi] of
        None \<Rightarrow> [all_variants]
      | Some num \<Rightarrow> take num all_variants # split_variants (drop (num + 1) all_variants))"
  by pat_completeness auto
termination
  by (relation "measure length") (auto dest: str_find_Some)

declare split_variants.simps [simp del]

definition variant_matches :: "string \<Rightarrow> string \<Rightarrow> bool" where
  "variant_matches command variant \<longleftrightarrow> str_contains command (strip_quotes variant)"

fun variants_loop ::
  "string \<Rightarrow> string \<Rightarrow> string \<Rightarrow> string list \<Rightarrow> string list \<Rightarrow> nat \<Rightarrow> string list \<Rightarrow> bool res" where
  "variants_loop command num_house comp_id houses comps i [] = Ok False"
| "variants_loop command num_house comp_id houses comps i (v # vs) =
     (if variant_matches command v then
        bind_res (vec_idx houses i) (\<lambda>h.
        bind_res (if num_house = h then map_res (\<lambda>c. comp_id = c) (vec_idx comps i) else Ok False) (\<lambda>here.
          if here then Ok True else variants_loop command num_house comp_id houses comps i vs))
      else variants_loop command num_house comp_id houses comps i vs)"

fun phrase_loop ::
  "string \<Rightarrow> string \<Rightarrow> string \<Rightarrow> string list \<Rightarrow> string list \<Rightarrow> string list \<Rightarrow> string list \<Rightarrow>
     nat \<Rightarrow> nat \<Rightarrow> string res" where
  "phrase_loop command num_house comp_id keys houses comps resps i 0 = Ok []"
| "phrase_loop command num_house comp_id keys houses comps resps i (Suc n) =
     bind_res (vec_idx keys i) (\<lambda>k.
     bind_res (variants_loop command num_house comp_id houses comps i (split_variants k)) (\<lambda>hit.
       if hit then vec_idx resps i
       else phrase_loop command num_house comp_id keys houses comps resps (Suc i) n))"

text \<open>
  \<open>__analizeRequest\<close>. A station that is not in the table closes the socket, and the
  analysis goes on with the place holders.
\<close>

definition station_place :: "string \<Rightarrow> string list \<Rightarrow> string list \<Rightarrow> string list \<Rightarrow> string list \<Rightarrow>
    (string \<times> string \<times> string) res" where
  "station_place app_id ids houses comps lifts =
     (let i = search_pos (\<lambda>x. app_id = x) ids in
      if i < length ids then
        bind_res (vec_idx houses i) (\<lambda>h. bind_res (vec_idx comps i) (\<lambda>c.
        map_res (\<lambda>l. (h, c, l)) (vec_idx lifts i)))
      else Ok (''-1'', ''-1'', []))"

definition analize_move ::
  "(json \<Rightarrow> string) \<Rightarrow> string \<Rightarrow> string \<Rightarrow> string \<Rightarrow> string \<Rightarrow> string list \<Rightarrow> 'p mr \<Rightarrow> unit res \<times> 'p mr" where
  "analize_move ser app_id num_house comp_id lift_block tokens s =
     (let db = mr_db_info s in
      rbind (column_at db ''House'' ''HouseNumber'', s) (\<lambda>houses s.
      rbind (column_at db ''House'' ''HousingComplexId'', s) (\<lambda>comps s.
      rbind (column_at db ''House'' ''TopFloor'', s) (\<lambda>tops s.
      rbind (column_at db ''House'' ''BottomFloor'', s) (\<lambda>bots s.
      rbind (column_at db ''House'' ''NullFloor'', s) (\<lambda>nulls s.
      rbind (token_floor tokens, s) (\<lambda>floor s.
      rbind (floor_loop houses comps tops bots nulls num_house comp_id floor 0 (length houses), s) (\<lambda>inside s.
      (let s = (if inside
                then s\<lparr>mr_response_command := moving_text @ number_token tokens @ floor_text\<rparr> else s)
       in (Ok (), s\<lparr>mr_buf_send := ser (worker_response_mqtt_message mr_name app_id
                     (getRespToMS (mr_response_command s)) lift_block floor)\<rparr>))))))))))"

definition analize_phrase ::
  "(json \<Rightarrow> string) \<Rightarrow> string \<Rightarrow> string \<Rightarrow> string \<Rightarrow> 'p mr \<Rightarrow> unit res \<times> 'p mr" where
  "analize_phrase ser app_id num_house comp_id s =
     (let db = mr_db_info s in
      rbind (map_res (\<lambda>c. strip_quotes (ser c))
               (json_path (mr_json s) [''request'', ''body'', ''request'', ''command'']), s) (\<lambda>command s.
      rbind (column_at db ''StaticPhrases'' ''KeyWords'', s) (\<lambda>keys s.
      rbind (column_at db ''StaticPhrases'' ''HouseNum'', s) (\<lambda>houses s.
      rbind (column_at db ''StaticPhrases'' ''HouseComplexId'', s) (\<lambda>comps s.
      rbind (column_at db ''StaticPhrases'' ''Response'', s) (\<lambda>resps s.
      rbind (phrase_loop command num_house comp_id keys houses comps resps 0 (length keys), s) (\<lambda>resp s.
      (let r = (if resp \<noteq> [] then resp else unknown_command_text) in
       (Ok (), s\<lparr>mr_response_command := r,
                 mr_buf_send := ser (worker_response_static_message mr_name app_id (getRespToMS r))\<rparr>)))))))))"

definition mr_analizeRequest :: "(json \<Rightarrow> string) \<Rightarrow> 'p mr \<Rightarrow> unit res \<times> 'p mr" where
  "mr_analizeRequest ser s =
     (let db = mr_db_info s in
      rbind (map_res ser (json_path (mr_json s) [''request'', ''station_id'']), s) (\<lambda>app_id s.
      rbind (column_at db ''MarussiaStation'' ''ApplicationId'', s) (\<lambda>ids s.
      rbind (column_at db ''MarussiaStation'' ''HouseNum'', s) (\<lambda>houses s.
      rbind (column_at db ''MarussiaStation'' ''HouseComplexId'', s) (\<lambda>comps s.
      rbind (column_at db ''MarussiaStation'' ''LiftBlockId'', s) (\<lambda>lifts s.
      (let s = s\<lparr>mr_response_command := []\<rparr> in
       rbind (station_place app_id ids houses comps lifts, s) (\<lambda>(num_house, comp_id, lift_block) s.
       (let s = (if num_house = ''-1'' \<or> comp_id = ''-1'' then mr_stop s else s) in
        rbind (bind_res (json_path (mr_json s)
                 [''request'', ''body'', ''request'', ''nlu'', ''tokens'']) as_array, s) (\<lambda>array_tokens s.
        (let tokens = map (\<lambda>t. strip_quotes (ser t)) array_tokens in
         if wants_lift tokens
         then analize_move ser app_id num_house comp_id lift_block tokens s
         else analize_phrase ser app_id num_house comp_id s)))))))))))"

section \<open>Answering\<close>

definition mr_answer_front :: "(json \<Rightarrow> string) \<Rightarrow> json \<Rightarrow> 'p mr \<Rightarrow> unit res \<times> 'p mr" where
  "mr_answer_front ser v s =
     rbind (json_at v ''target'', s\<lparr>mr_json := v\<rparr>) (\<lambda>target s.
       if target = JStr ''ping'' then (Ok (), s\<lparr>mr_buf_send := ser (worker_response_ping mr_name)\<rparr>)
       else if target = JStr ''disconnect'' then
         (Ok (), s\<lparr>mr_buf_send := ser (worker_response_disconnect mr_name), mr_flag_disconnect := True\<rparr>)
       else if target = JStr ''marussia_station_request'' then mr_analizeRequest ser s
       else (Ok (), s))"

fun mr_answer_loop :: "(json \<Rightarrow> string) \<Rightarrow> json list \<Rightarrow> 'p mr \<Rightarrow> unit res \<times> 'p mr" where
  "mr_answer_loop ser [] s = (Ok (), s)"
| "mr_answer_loop ser (v # q) s =
     (case mr_answer_front ser v (s\<lparr>mr_queue := q\<rparr>) of
        (Ok _, s1) \<Rightarrow>
          (let s2 = (if q = [] then s1\<lparr>mr_flag_end_send := True\<rparr> else s1)
           in mr_answer_loop ser q (mr_do [MR_send (mr_buf_send s2) MR_reciveAnswer] s2))
      | (Throw e, s1) \<Rightarrow> mr_answer_loop ser q (mr_do [MR_receive MR_sendResponse] s1)
      | (Undef, s1) \<Rightarrow> (Undef, s1))"

definition mr_sendResponse ::
  "(json \<Rightarrow> string) \<Rightarrow> 'p parser_ops \<Rightarrow> nat \<Rightarrow> bool \<Rightarrow> string \<Rightarrow> 'p mr \<Rightarrow> (unit res \<times> 'p mr) option" where
  "mr_sendResponse ser ops uninit err data s =
     (if err then Some (Ok (), mr_connectToMS (mr_do [MR_pause 2] (mr_stop s)))
      else case recv_check ops uninit data (mr_parser s) (mr_queue s) of
             None \<Rightarrow> None
           | Some (st, p, q) \<Rightarrow>
               (let s1 = s\<lparr>mr_parser := p, mr_queue := q\<rparr> in
                if st \<noteq> Recv_success then Some (Ok (), mr_do [MR_receive MR_reciveCommand] s1)
                else Some (mr_answer_loop ser q s1)))"

definition mr_reciveAnswer :: "bool \<Rightarrow> nat \<Rightarrow> nat \<times> 'p mr \<Rightarrow> nat \<times> 'p mr" where
  "mr_reciveAnswer err bytes_send = (\<lambda>(temp, s).
     (if err then (temp, mr_do [MR_send (mr_buf_send s) MR_reciveAnswer] s)
      else case send_check (length (mr_buf_send s)) bytes_send temp of
             (Send_more pos n, t) \<Rightarrow> (t, mr_do [MR_send_rest pos n MR_reciveAnswer] s)
           | (Send_success, t) \<Rightarrow>
               (let s1 = s\<lparr>mr_buf_send := []\<rparr> in
                (0, if mr_flag_disconnect s1 then mr_stop (s1\<lparr>mr_flag_disconnect := False\<rparr>)
                    else if mr_flag_end_send s1
                         then mr_do [MR_receive MR_sendResponse] (s1\<lparr>mr_flag_end_send := False\<rparr>)
                    else s1))))"

section \<open>The words for a floor\<close>

text \<open>
  Searching and comparing byte strings is done on the numbers, so that the vocabulary can
  be evaluated.
\<close>

definition bytes_ok :: "int list \<Rightarrow> bool" where
  "bytes_ok w \<longleftrightarrow> list_all (\<lambda>b. 0 \<le> b \<and> b < 256) w"

lemma char_of_int_eq:
  assumes "0 \<le> a" "a < 256" "0 \<le> b" "b < (256 :: int)"
  shows "char_of a = char_of b \<longleftrightarrow> a = b"
proof
  assume "char_of a = char_of b"
  then have "(of_char (char_of a :: char) :: int) = of_char (char_of b :: char)" by simp
  with assms show "a = b" by simp
qed simp

lemma utf8_Cons: "utf8 (b # w) = char_of b # utf8 w"
  by (simp add: utf8_def)

lemma utf8_eq: "bytes_ok v \<Longrightarrow> bytes_ok w \<Longrightarrow> utf8 v = utf8 w \<longleftrightarrow> v = w"
proof (induction v w rule: list_induct2')
  case (4 a v b w)
  then show ?case by (auto simp: bytes_ok_def utf8_Cons char_of_int_eq)
qed (auto simp: utf8_def)

lemma utf8_prefix: "bytes_ok v \<Longrightarrow> bytes_ok w \<Longrightarrow> prefix (utf8 v) (utf8 w) \<longleftrightarrow> prefix v w"
proof (induction v w rule: list_induct2')
  case (4 a v b w)
  then show ?case by (auto simp: bytes_ok_def utf8_Cons char_of_int_eq)
qed (auto simp: utf8_def)

lemma utf8_find: "bytes_ok v \<Longrightarrow> bytes_ok w \<Longrightarrow> str_find (utf8 v) (utf8 w) = str_find v w"
proof (induction v)
  case Nil
  then show ?case by (simp add: utf8_def)
next
  case (Cons b v)
  have "prefix (utf8 w) (utf8 (b # v)) \<longleftrightarrow> prefix w (b # v)" using Cons.prems by (rule utf8_prefix [rotated])
  moreover have "str_find (utf8 v) (utf8 w) = str_find v w"
    using Cons by (simp add: bytes_ok_def)
  ultimately show ?case by (simp add: utf8_Cons)
qed

definition number_bytes :: "int list list \<Rightarrow> int list" where
  "number_bytes tokens = last_match key_roots_bytes tokens"

lemma last_match_in: "last_match roots tokens = [] \<or> last_match roots tokens \<in> set tokens"
proof -
  have inner: "foldl (\<lambda>b t. if str_contains t r then t else b) b ts = b \<or>
      foldl (\<lambda>b t. if str_contains t r then t else b) b ts \<in> set ts" for b r and ts :: "'a list list"
  proof (induction ts arbitrary: b)
    case Nil
    then show ?case by simp
  next
    case (Cons u ts)
    from Cons.IH [of u] Cons.IH [of b] show ?case by auto
  qed
  have outer: "b = [] \<or> b \<in> set tokens \<Longrightarrow>
      foldl (\<lambda>b r. foldl (\<lambda>b t. if str_contains t r then t else b) b tokens) b rs = [] \<or>
      foldl (\<lambda>b r. foldl (\<lambda>b t. if str_contains t r then t else b) b tokens) b rs \<in> set tokens" for b rs
  proof (induction rs arbitrary: b)
    case Nil
    then show ?case by simp
  next
    case (Cons r rs)
    have "foldl (\<lambda>b t. if str_contains t r then t else b) b tokens = [] \<or>
        foldl (\<lambda>b t. if str_contains t r then t else b) b tokens \<in> set tokens"
      using inner [of r b tokens]
    proof (rule disjE)
      assume e: "foldl (\<lambda>b t. if str_contains t r then t else b) b tokens = b"
      show ?thesis unfolding e by (rule Cons.prems)
    qed simp
    from Cons.IH [OF this] show ?case by simp
  qed
  show ?thesis unfolding last_match_def by (rule outer) simp
qed

lemma key_roots_bytes_ok: "list_all bytes_ok key_roots_bytes"
  by code_simp

lemma num_roots_bytes_ok: "list_all (\<lambda>(w, n). bytes_ok w \<and> 34 \<notin> set w) num_roots_bytes"
  by code_simp

lemma number_token_utf8:
  assumes "list_all bytes_ok tokens"
  shows "number_token (map utf8 tokens) = utf8 (number_bytes tokens)"
proof -
  have inner: "list_all bytes_ok ts \<Longrightarrow> bytes_ok r \<Longrightarrow>
      foldl (\<lambda>b t. if str_contains t (utf8 r) then t else b) (utf8 b) (map utf8 ts) =
      utf8 (foldl (\<lambda>b t. if str_contains t r then t else b) b ts)" for b r ts
    by (induction ts arbitrary: b) (auto simp: str_contains_def utf8_find)
  have outer: "list_all bytes_ok rs \<Longrightarrow>
      foldl (\<lambda>b r. foldl (\<lambda>b t. if str_contains t r then t else b) b (map utf8 tokens)) (utf8 b) (map utf8 rs) =
      utf8 (foldl (\<lambda>b r. foldl (\<lambda>b t. if str_contains t r then t else b) b tokens) b rs)" for b rs
    by (induction rs arbitrary: b) (auto simp: inner assms)
  have "utf8 [] = []" by (simp add: utf8_def)
  then show ?thesis
    unfolding number_token_def number_bytes_def key_roots_def last_match_def
    using outer [OF key_roots_bytes_ok, of "[]"] by simp
qed

lemma strip_quotes_utf8:
  assumes "bytes_ok w"
  shows "strip_quotes (utf8 w) = utf8 (filter (\<lambda>b. b \<noteq> 34) w)"
proof -
  have q: "dquote = char_of (34 :: int)" unfolding dquote_def by code_simp
  show ?thesis using assms
    by (induction w) (auto simp: strip_quotes_def utf8_def bytes_ok_def q char_of_int_eq)
qed

definition bytes_floor :: "int list list \<Rightarrow> int res" where
  "bytes_floor tokens =
     (case map_of num_roots_bytes (filter (\<lambda>b. b \<noteq> 34) (number_bytes tokens)) of
        Some n \<Rightarrow> Ok n | None \<Rightarrow> Throw Out_of_range)"

lemma token_floor_utf8:
  assumes "list_all bytes_ok tokens"
  shows "token_floor (map utf8 tokens) = bytes_floor tokens"
proof -
  have n: "bytes_ok (number_bytes tokens)"
    using last_match_in [of key_roots_bytes tokens] assms unfolding number_bytes_def by (auto simp: list_all_iff bytes_ok_def)
  have f: "bytes_ok (filter (\<lambda>b. b \<noteq> 34) w)" if "bytes_ok w" for w
    using that by (auto simp: bytes_ok_def list_all_iff)
  have m: "list_all (\<lambda>(w, n). bytes_ok w) tab \<Longrightarrow> bytes_ok w \<Longrightarrow>
      smap_get (map (\<lambda>(w, n). (utf8 w, n)) tab) (utf8 w) = map_of tab w" for tab w
    by (induction tab) (auto simp: utf8_eq)
  have "list_all (\<lambda>(w, n). bytes_ok w) num_roots_bytes"
    using num_roots_bytes_ok by (auto simp: list_all_iff)
  from m [OF this f [OF n]] show ?thesis
    by (simp add: token_floor_def number_token_utf8 [OF assms] strip_quotes_utf8 [OF n]
        num_roots_def smap_at_def bytes_floor_def split: option.split)
qed

definition floor_word_bytes :: "int list" where
  "floor_word_bytes = [209, 141, 209, 130, 208, 176, 208, 182]"

definition single_words :: "(int list \<times> int) list" where
  "single_words = filter (\<lambda>(w, n). 32 \<notin> set w) num_roots_bytes"

lemma single_words_floors: "list_all (\<lambda>(w, n). 0 \<le> n \<and> n \<le> 20 \<or> n = 30) single_words"
  by code_simp

lemma floor_word_no_root: "list_all (\<lambda>r. \<not> str_contains floor_word_bytes r) key_roots_bytes"
  by code_simp

lemma single_words_have_root:
  "list_all (\<lambda>(w, n). list_ex (\<lambda>r. str_contains w r) key_roots_bytes) single_words"
  by code_simp

lemma num_roots_distinct: "distinct (map fst num_roots_bytes)"
  by code_simp

lemma number_bytes_single:
  assumes "list_ex (\<lambda>r. str_contains w r) key_roots_bytes"
  shows "number_bytes [w, floor_word_bytes] = w"
proof -
  have "list_all (\<lambda>r. \<not> str_contains floor_word_bytes r) rs \<Longrightarrow>
      foldl (\<lambda>b r. foldl (\<lambda>b t. if str_contains t r then t else b) b [w, floor_word_bytes]) b rs =
      (if list_ex (\<lambda>r. str_contains w r) rs then w else b)" for b rs
    by (induction rs arbitrary: b) auto
  from this [OF floor_word_no_root] assms show ?thesis by (simp add: number_bytes_def last_match_def)
qed

lemma single_words_bytes_floor:
  assumes "(w, n) \<in> set single_words"
  shows "bytes_floor [w, floor_word_bytes] = Ok n"
proof -
  have "list_ex (\<lambda>r. str_contains w r) key_roots_bytes"
    using single_words_have_root assms by (auto simp: list_all_iff)
  moreover have m: "(w, n) \<in> set num_roots_bytes" using assms by (simp add: single_words_def)
  moreover have "filter (\<lambda>b. b \<noteq> 34) w = w"
    using num_roots_bytes_ok m by (auto simp: list_all_iff filter_id_conv)
  ultimately show ?thesis
    using num_roots_distinct by (simp add: bytes_floor_def number_bytes_single)
qed

section \<open>The tables as rows\<close>

record mstation =
  ms_app :: string
  ms_house :: string
  ms_comp :: string
  ms_lift :: string

record house_row =
  hr_house :: string
  hr_comp :: string
  hr_top :: int
  hr_bottom :: int
  hr_null :: string

record phrase_row =
  pr_house :: string
  pr_comp :: string
  pr_keys :: string
  pr_resp :: string

definition marusia_db :: "mstation list \<Rightarrow> house_row list \<Rightarrow> phrase_row list \<Rightarrow> string list smap smap" where
  "marusia_db stations houses phrases =
     [(''House'',
        [(''BottomFloor'', map (\<lambda>r. quoted (to_string (hr_bottom r))) houses),
         (''HouseNumber'', map hr_house houses), (''HousingComplexId'', map hr_comp houses),
         (''NullFloor'', map hr_null houses),
         (''TopFloor'', map (\<lambda>r. quoted (to_string (hr_top r))) houses)]),
      (''MarussiaStation'',
        [(''ApplicationId'', map ms_app stations), (''HouseComplexId'', map ms_comp stations),
         (''HouseNum'', map ms_house stations), (''LiftBlockId'', map ms_lift stations)]),
      (''StaticPhrases'',
        [(''HouseComplexId'', map pr_comp phrases), (''HouseNum'', map pr_house phrases),
         (''KeyWords'', map pr_keys phrases), (''Response'', map pr_resp phrases)])]"

lemma marusia_db_columns [simp]:
  "column_at (marusia_db stations houses phrases) ''House'' ''HouseNumber'' = Ok (map hr_house houses)"
  "column_at (marusia_db stations houses phrases) ''House'' ''HousingComplexId'' = Ok (map hr_comp houses)"
  "column_at (marusia_db stations houses phrases) ''House'' ''TopFloor'' =
     Ok (map (\<lambda>r. quoted (to_string (hr_top r))) houses)"
  "column_at (marusia_db stations houses phrases) ''House'' ''BottomFloor'' =
     Ok (map (\<lambda>r. quoted (to_string (hr_bottom r))) houses)"
  "column_at (marusia_db stations houses phrases) ''House'' ''NullFloor'' = Ok (map hr_null houses)"
  "column_at (marusia_db stations houses phrases) ''MarussiaStation'' ''ApplicationId'' = Ok (map ms_app stations)"
  "column_at (marusia_db stations houses phrases) ''MarussiaStation'' ''HouseNum'' = Ok (map ms_house stations)"
  "column_at (marusia_db stations houses phrases) ''MarussiaStation'' ''HouseComplexId'' = Ok (map ms_comp stations)"
  "column_at (marusia_db stations houses phrases) ''MarussiaStation'' ''LiftBlockId'' = Ok (map ms_lift stations)"
  "column_at (marusia_db stations houses phrases) ''StaticPhrases'' ''KeyWords'' = Ok (map pr_keys phrases)"
  "column_at (marusia_db stations houses phrases) ''StaticPhrases'' ''HouseNum'' = Ok (map pr_house phrases)"
  "column_at (marusia_db stations houses phrases) ''StaticPhrases'' ''HouseComplexId'' = Ok (map pr_comp phrases)"
  "column_at (marusia_db stations houses phrases) ''StaticPhrases'' ''Response'' = Ok (map pr_resp phrases)"
  by (simp_all add: column_at_def marusia_db_def smap_at_def)

text \<open>What the loops are meant to find.\<close>

definition floor_served :: "house_row list \<Rightarrow> string \<Rightarrow> string \<Rightarrow> int \<Rightarrow> bool" where
  "floor_served houses h c floor \<longleftrightarrow>
     (\<exists>r \<in> set houses. hr_house r = h \<and> hr_comp r = c \<and>
        floor_inside (hr_top r) (hr_bottom r) (hr_null r) floor)"

definition floors_int :: "house_row list \<Rightarrow> bool" where
  "floors_int houses \<longleftrightarrow> (\<forall>r \<in> set houses. int_min \<le> hr_top r \<and> hr_top r \<le> int_max \<and>
     int_min \<le> hr_bottom r \<and> hr_bottom r \<le> int_max)"

lemma stoi_quoted:
  "int_min \<le> i \<Longrightarrow> i \<le> int_max \<Longrightarrow> stoi (strip_quotes (quoted (to_string i))) = Ok i"
  by (simp add: strip_quotes_quoted to_string_no_dquote stoi_to_string)

lemma floor_loop_spec:
  assumes "floors_int houses"
  shows "i + n = length houses \<Longrightarrow>
     floor_loop (map hr_house houses) (map hr_comp houses)
       (map (\<lambda>r. quoted (to_string (hr_top r))) houses)
       (map (\<lambda>r. quoted (to_string (hr_bottom r))) houses) (map hr_null houses) h c floor i n =
     Ok (floor_served (drop i houses) h c floor)"
proof (induction n arbitrary: i)
  case 0
  then show ?case by (simp add: floor_served_def)
next
  case (Suc n)
  then have i: "i < length houses" "drop i houses = houses ! i # drop (Suc i) houses"
    by (simp_all add: Cons_nth_drop_Suc)
  let ?r = "houses ! i"
  from i(1) assms have "int_min \<le> hr_top ?r \<and> hr_top ?r \<le> int_max \<and>
     int_min \<le> hr_bottom ?r \<and> hr_bottom ?r \<le> int_max"
    by (simp add: floors_int_def)
  then have st: "stoi (strip_quotes (quoted (to_string (hr_top ?r)))) = Ok (hr_top ?r)"
    "stoi (strip_quotes (quoted (to_string (hr_bottom ?r)))) = Ok (hr_bottom ?r)"
    by (simp_all add: stoi_quoted)
  from Suc have IH: "floor_loop (map hr_house houses) (map hr_comp houses)
       (map (\<lambda>r. quoted (to_string (hr_top r))) houses)
       (map (\<lambda>r. quoted (to_string (hr_bottom r))) houses) (map hr_null houses) h c floor (Suc i) n =
     Ok (floor_served (drop (Suc i) houses) h c floor)" by simp
  show ?case
    using i(1) st IH by (simp add: i(2) floor_served_def)
qed

definition phrase_hit :: "string \<Rightarrow> string \<Rightarrow> string \<Rightarrow> phrase_row \<Rightarrow> bool" where
  "phrase_hit command h c r \<longleftrightarrow> pr_house r = h \<and> pr_comp r = c \<and>
     (\<exists>v \<in> set (split_variants (pr_keys r)). variant_matches command v)"

definition find_phrase :: "string \<Rightarrow> string \<Rightarrow> string \<Rightarrow> phrase_row list \<Rightarrow> string" where
  "find_phrase command h c phrases =
     (case List.find (phrase_hit command h c) phrases of Some r \<Rightarrow> pr_resp r | None \<Rightarrow> [])"

lemma variants_loop_spec:
  "i < length houses \<Longrightarrow> length comps = length houses \<Longrightarrow>
   variants_loop command h c houses comps i vs =
     Ok (houses ! i = h \<and> comps ! i = c \<and> (\<exists>v \<in> set vs. variant_matches command v))"
  by (induction vs) auto

lemma phrase_loop_spec:
  "i + n = length phrases \<Longrightarrow>
   phrase_loop command h c (map pr_keys phrases) (map pr_house phrases) (map pr_comp phrases)
     (map pr_resp phrases) i n = Ok (find_phrase command h c (drop i phrases))"
proof (induction n arbitrary: i)
  case 0
  then show ?case by (simp add: find_phrase_def)
next
  case (Suc n)
  then have i: "i < length phrases" "drop i phrases = phrases ! i # drop (Suc i) phrases"
    by (simp_all add: Cons_nth_drop_Suc)
  with Suc show ?case
    by (cases "\<exists>v \<in> set (split_variants (pr_keys (phrases ! i))). variant_matches command v")
      (auto simp: variants_loop_spec find_phrase_def phrase_hit_def)
qed

text \<open>The variants are the pieces between the semicolons.\<close>

fun join_variants :: "string list \<Rightarrow> string" where
  "join_variants [] = []"
| "join_variants [v] = v"
| "join_variants (v # vs) = v @ semi # join_variants vs"

lemma split_variants_not_Nil: "split_variants s \<noteq> []"
  by (subst split_variants.simps) (simp split: option.split)

lemma str_find_single:
  "str_find s [c] = (if c \<in> set s then Some (length (takeWhile (\<lambda>x. x \<noteq> c) s)) else None)"
  by (induction s) auto

lemma split_variants_join:
  "join_variants (split_variants s) = s \<and> (\<forall>v \<in> set (split_variants s). semi \<notin> set v)"
proof (induction s rule: split_variants.induct)
  case (1 s)
  show ?case
  proof (cases "str_find s [semi]")
    case None
    then have "split_variants s = [s]" by (simp add: split_variants.simps)
    with None show ?thesis by (simp add: str_find_single split: if_splits)
  next
    case (Some n)
    then have n: "semi \<in> set s" "n = length (takeWhile (\<lambda>x. x \<noteq> semi) s)"
      by (simp_all add: str_find_single split: if_splits)
    then obtain a b where s: "s = a @ semi # b" "semi \<notin> set a" by (metis split_list_first)
    then have "takeWhile (\<lambda>x. x \<noteq> semi) s = a" by (auto simp: takeWhile_append)
    with n s have e: "take n s = a" "drop (n + 1) s = b" by simp_all
    have sv: "split_variants s = a # split_variants b"
      using Some e by (subst split_variants.simps) simp
    from "1.IH" [OF Some] e have IH: "join_variants (split_variants b) = b"
      "\<forall>v \<in> set (split_variants b). semi \<notin> set v" by simp_all
    obtain w ws where w: "split_variants b = w # ws"
      using split_variants_not_Nil [of b] by (cases "split_variants b") auto
    from IH w s sv show ?thesis by simp
  qed
qed

text \<open>A trailing semicolon in the key words leaves an empty variant, which every command contains.\<close>

lemma trailing_semicolon_matches_all:
  assumes "semi \<notin> set a"
  shows "\<exists>v \<in> set (split_variants (dquote # a @ [semi, dquote])). variant_matches command v"
proof -
  have d: "dquote \<noteq> semi" by (simp add: dquote_def semi_def)
  have "takeWhile (\<lambda>x. x \<noteq> semi) (a @ [semi, dquote]) = a"
    using assms by (auto simp: takeWhile_append)
  then have "str_find (dquote # a @ [semi, dquote]) [semi] = Some (Suc (length a))"
    using d by (simp add: str_find_single)
  then have "[dquote] \<in> set (split_variants (dquote # a @ [semi, dquote]))"
    using d by (subst split_variants.simps) (simp, subst split_variants.simps, simp add: str_find_single)
  moreover have "variant_matches command [dquote]"
    by (cases command) (simp_all add: variant_matches_def strip_quotes_def str_contains_def)
  ultimately show ?thesis by blast
qed

lemma station_place_spec:
  "station_place app (map ms_app stations) (map ms_house stations) (map ms_comp stations) (map ms_lift stations) =
     Ok (case List.find (\<lambda>r. ms_app r = app) stations of
           Some r \<Rightarrow> (ms_house r, ms_comp r, ms_lift r) | None \<Rightarrow> (''-1'', ''-1'', []))"
proof -
  let ?i = "search_pos (\<lambda>x. app = x) (map ms_app stations)"
  have "List.find (\<lambda>r. ms_app r = app) stations = (if ?i < length stations then Some (stations ! ?i) else None)"
    by (induction stations) auto
  then show ?thesis by (simp add: station_place_def Let_def)
qed

definition station_request :: "string \<Rightarrow> string \<Rightarrow> string \<Rightarrow> string list \<Rightarrow> json" where
  "station_request sender station command tokens =
     worker_request_marussia sender station
       (JObj [(''request'', JObj [(''command'', JStr command),
          (''nlu'', JObj [(''tokens'', JArr (map JStr tokens))])])])"

text \<open>Texts without quotes, which the serializer puts in quotes unchanged.\<close>

definition plain_texts :: "(json \<Rightarrow> string) \<Rightarrow> string list \<Rightarrow> bool" where
  "plain_texts ser ts \<longleftrightarrow> (\<forall>t \<in> set ts. ser (JStr t) = quoted t \<and> dquote \<notin> set t)"

lemma plain_tokens:
  "plain_texts ser ts \<Longrightarrow> map (\<lambda>t. strip_quotes (ser t)) (map JStr ts) = ts"
  by (auto simp: plain_texts_def strip_quotes_quoted intro!: map_idI)

lemma station_request_paths [simp]:
  "json_path (station_request sender station command tokens) [''request'', ''station_id''] = Ok (JStr station)"
  "json_path (station_request sender station command tokens)
     [''request'', ''body'', ''request'', ''nlu'', ''tokens''] = Ok (JArr (map JStr tokens))"
  "json_path (station_request sender station command tokens)
     [''request'', ''body'', ''request'', ''command''] = Ok (JStr command)"
  "json_at (station_request sender station command tokens) ''target'' = Ok (JStr ''marussia_station_request'')"
  by (simp_all add: station_request_def worker_request_marussia_def)

text \<open>The request up to the choice between a lift command and a phrase.\<close>

lemma mr_analizeRequest_place:
  assumes "mr_json s = station_request sender station command tokens"
    and "mr_db_info s = marusia_db stations houses phrases"
    and "plain_texts ser (station # tokens)"
    and "List.find (\<lambda>r. ms_app r = quoted station) stations = Some r"
    and "ms_house r \<noteq> ''-1''" and "ms_comp r \<noteq> ''-1''"
  shows "mr_analizeRequest ser s =
     (if wants_lift tokens
      then analize_move ser (quoted station) (ms_house r) (ms_comp r) (ms_lift r) tokens (s\<lparr>mr_response_command := []\<rparr>)
      else analize_phrase ser (quoted station) (ms_house r) (ms_comp r) (s\<lparr>mr_response_command := []\<rparr>))"
proof -
  have tk: "map (\<lambda>t. strip_quotes (ser t)) (map JStr tokens) = tokens" and st: "ser (JStr station) = quoted station"
    using assms(3) plain_tokens [of ser tokens] by (simp_all add: plain_texts_def)
  have tok: "bind_res (json_path (mr_json s) [''request'', ''body'', ''request'', ''nlu'', ''tokens'']) as_array =
      Ok (map JStr tokens)"
    unfolding assms(1) station_request_paths by simp
  show ?thesis
    unfolding mr_analizeRequest_def Let_def assms(1,2) station_request_paths map_res.simps st
      rbind_simps marusia_db_columns station_place_spec assms(4) option.case prod.case
    using assms(5,6) tok by (simp add: tk del: json_path.simps map_map)
qed

section \<open>Properties\<close>

text \<open>
  Every one-word floor of the vocabulary is understood: said together with the word
  for a floor it gives its number.
\<close>

theorem single_words_understood:
  "map (\<lambda>(w, n). token_floor [utf8 w, utf8 floor_word_bytes]) single_words = map (\<lambda>(w, n). Ok n) single_words"
proof -
  have "token_floor [utf8 w, utf8 floor_word_bytes] = Ok n" if "(w, n) \<in> set single_words" for w n
  proof -
    have "bytes_ok w" using that num_roots_bytes_ok by (auto simp: single_words_def list_all_iff)
    moreover have "bytes_ok floor_word_bytes" by code_simp
    ultimately show ?thesis
      using token_floor_utf8 [of "[w, floor_word_bytes]"] single_words_bytes_floor [OF that] by simp
  qed
  then show ?thesis by (auto intro!: map_cong)
qed

definition no_space :: "string \<Rightarrow> bool" where
  "no_space w \<longleftrightarrow> CHR '' '' \<notin> set w"

text \<open>
  The two-word floors of the vocabulary cannot be asked for: the tokens of a request
  are single words, and then only the floors 0 to 20 and 30 come out, never one of 21 to
  29 and never a floor below ground.
\<close>

theorem two_word_floors_unreachable:
  assumes "\<forall>t \<in> set tokens. no_space t" and "token_floor tokens = Ok n"
  shows "0 \<le> n \<and> n \<le> 20 \<or> n = 30"
proof -
  have sp: "CHR '' '' = char_of (32 :: int)" by code_simp
  from assms(2) have "(strip_quotes (number_token tokens), n) \<in> set num_roots"
    by (auto simp: token_floor_def smap_at_Ok_iff smap_get_map_of dest: map_of_SomeD)
  then obtain w where w: "(w, n) \<in> set num_roots_bytes" "strip_quotes (number_token tokens) = utf8 w"
    by (auto simp: num_roots_def)
  have "CHR '' '' \<notin> set (strip_quotes (number_token tokens))"
    using last_match_in [of key_roots tokens] assms(1)
    by (auto simp: number_token_def no_space_def strip_quotes_def)
  then have "32 \<notin> set w" unfolding w(2) sp by (auto simp: utf8_def)
  with w(1) single_words_floors show ?thesis by (auto simp: single_words_def list_all_iff)
qed

definition first_word :: "int list" where
  "first_word = [208, 191, 208, 181, 209, 128, 208, 178, 209, 139, 208, 185]"

theorem two_word_floors_unreachable_witness:
  "\<exists>n. token_floor [utf8 first_word] = Ok n \<and> (0 \<le> n \<and> n \<le> 20 \<or> n = 30)"
proof -
  have "bytes_floor [first_word] = Ok 1" by code_simp
  moreover have "list_all bytes_ok [first_word]" by code_simp
  ultimately have f: "token_floor [utf8 first_word] = Ok 1"
    using token_floor_utf8 [of "[first_word]"] by simp
  have "no_space (utf8 first_word)" by code_simp
  with two_word_floors_unreachable [of "[utf8 first_word]" 1] f show ?thesis by simp
qed

text \<open>
  C10: a request for a floor is answered with a lift command for the lift of the station
  and the floor that was said, whether or not some row of the station's house serves that
  floor: outside the range only the text of the answer is empty.
\<close>

theorem lift_command_for_any_floor:
  assumes "mr_json s = station_request sender station command tokens"
    and "mr_db_info s = marusia_db stations houses phrases" and "plain_texts ser (station # tokens)"
    and "List.find (\<lambda>r. ms_app r = quoted station) stations = Some r"
    and "ms_house r \<noteq> ''-1''" and "ms_comp r \<noteq> ''-1''" and "floors_int houses"
    and "wants_lift tokens" and "token_floor tokens = Ok floor"
  shows "\<exists>s'. mr_analizeRequest ser s = (Ok (), s') \<and> mr_open s' = mr_open s \<and>
     mr_buf_send s' = ser (worker_response_mqtt_message mr_name (quoted station)
       (getRespToMS (if floor_served houses (ms_house r) (ms_comp r) floor
                     then moving_text @ number_token tokens @ floor_text else []))
       (ms_lift r) floor)"
proof -
  note fl = floor_loop_spec [OF assms(7), of 0 "length houses", simplified]
  show ?thesis
    unfolding mr_analizeRequest_place [OF assms(1-6)]
    using assms(2,8,9) fl by (simp add: analize_move_def Let_def)
qed

definition sample_station :: mstation where
  "sample_station = \<lparr>ms_app = quoted ''a1'', ms_house = quoted ''5'', ms_comp = quoted ''1'', ms_lift = quoted ''9''\<rparr>"

definition sample_house :: house_row where
  "sample_house = \<lparr>hr_house = quoted ''5'', hr_comp = quoted ''1'', hr_top = 9, hr_bottom = 2, hr_null = quoted ''0''\<rparr>"

lemma sample_find: "List.find (\<lambda>r. ms_app r = quoted ''a1'') [sample_station] = Some sample_station"
  by (simp add: sample_station_def)

lemma first_word_facts:
  "wants_lift [utf8 first_word, utf8 floor_word_bytes]" "token_floor [utf8 first_word, utf8 floor_word_bytes] = Ok 1"
  "dquote \<notin> set (utf8 first_word)" "dquote \<notin> set (utf8 floor_word_bytes)"
proof -
  have "mqtt_keys_bytes = floor_word_bytes # tl mqtt_keys_bytes" by code_simp
  then show "wants_lift [utf8 first_word, utf8 floor_word_bytes]"
    by (simp add: wants_lift_def mqtt_keys_def) (metis list.set_intros(1) image_eqI)
  have "bytes_floor [first_word, floor_word_bytes] = Ok 1" by code_simp
  moreover have "list_all bytes_ok [first_word, floor_word_bytes]" by code_simp
  ultimately show "token_floor [utf8 first_word, utf8 floor_word_bytes] = Ok 1"
    using token_floor_utf8 [of "[first_word, floor_word_bytes]"] by simp
  show "dquote \<notin> set (utf8 first_word)" "dquote \<notin> set (utf8 floor_word_bytes)" by code_simp+
qed

text \<open>The first floor, in a house whose lift serves the floors 2 to 9.\<close>

theorem lift_command_for_any_floor_witness:
  "\<exists>s'. mr_analizeRequest (\<lambda>v. case v of JStr t \<Rightarrow> quoted t | _ \<Rightarrow> ''x'')
     ((mr_new ''1'' ())\<lparr>mr_json := station_request ''MS'' ''a1'' ''c'' [utf8 first_word, utf8 floor_word_bytes],
        mr_db_info := marusia_db [sample_station] [sample_house] []\<rparr>) = (Ok (), s') \<and>
     \<not> floor_served [sample_house] (quoted ''5'') (quoted ''1'') 1 \<and> mr_buf_send s' = ''x''"
proof -
  let ?ser = "\<lambda>v. case v of JStr t \<Rightarrow> quoted t | _ \<Rightarrow> ''x''"
  let ?t = "[utf8 first_word, utf8 floor_word_bytes]"
  let ?s = "(mr_new ''1'' ())\<lparr>mr_json := station_request ''MS'' ''a1'' ''c'' ?t,
        mr_db_info := marusia_db [sample_station] [sample_house] []\<rparr>"
  have "\<exists>s'. mr_analizeRequest ?ser ?s = (Ok (), s') \<and> mr_open s' = mr_open ?s \<and>
     mr_buf_send s' = ?ser (worker_response_mqtt_message mr_name (quoted ''a1'')
       (getRespToMS (if floor_served [sample_house] (ms_house sample_station) (ms_comp sample_station) 1
                     then moving_text @ number_token ?t @ floor_text else []))
       (ms_lift sample_station) 1)"
    by (rule lift_command_for_any_floor)
      (simp_all add: first_word_facts plain_texts_def sample_station_def sample_house_def floors_int_def
        int_min_def int_max_def dquote_def [symmetric] quoted_def, simp_all add: dquote_def first_word_facts [unfolded dquote_def])
  moreover have "\<not> floor_served [sample_house] (quoted ''5'') (quoted ''1'') 1"
    by (simp add: floor_served_def sample_house_def floor_inside_def)
  ultimately show ?thesis by (auto simp: worker_response_mqtt_message_def)
qed

text \<open>
  A request without a lift word is answered with the response of the first phrase of
  the station's house one of whose key words occurs in the command, and with the apology
  when there is none.
\<close>

theorem phrase_answer:
  assumes "mr_json s = station_request sender station command tokens"
    and "mr_db_info s = marusia_db stations houses phrases" and "plain_texts ser (station # tokens)"
    and "List.find (\<lambda>r. ms_app r = quoted station) stations = Some r"
    and "ms_house r \<noteq> ''-1''" and "ms_comp r \<noteq> ''-1''"
    and "\<not> wants_lift tokens"
  shows "\<exists>s'. mr_analizeRequest ser s = (Ok (), s') \<and>
     mr_buf_send s' = ser (worker_response_static_message mr_name (quoted station) (getRespToMS
       (let resp = find_phrase (strip_quotes (ser (JStr command))) (ms_house r) (ms_comp r) phrases
        in if resp \<noteq> [] then resp else unknown_command_text)))"
proof -
  note ph = phrase_loop_spec [of 0 "length phrases", simplified]
  have c: "json_path (mr_json s) [''request'', ''body'', ''request'', ''command''] = Ok (JStr command)"
    unfolding assms(1) by (rule station_request_paths)
  show ?thesis
    unfolding mr_analizeRequest_place [OF assms(1-6)]
    using assms(2,7) ph c by (simp add: analize_phrase_def Let_def del: json_path.simps)
qed

theorem phrase_answer_witness:
  "\<exists>s'. mr_analizeRequest (\<lambda>v. case v of JStr t \<Rightarrow> quoted t | JObj m \<Rightarrow> ''x'' | _ \<Rightarrow> [])
     ((mr_new ''1'' ())\<lparr>mr_json := station_request ''MS'' ''a1'' ''where is the shop'' [''shop''],
        mr_db_info := marusia_db [sample_station] [sample_house]
          [\<lparr>pr_house = quoted ''5'', pr_comp = quoted ''1'', pr_keys = ''shop'', pr_resp = ''left''\<rparr>]\<rparr>) = (Ok (), s') \<and>
     mr_buf_send s' = ''x''"
proof -
  let ?ser = "\<lambda>v. case v of JStr t \<Rightarrow> quoted t | JObj m \<Rightarrow> ''x'' | _ \<Rightarrow> []"
  let ?s = "(mr_new ''1'' ())\<lparr>mr_json := station_request ''MS'' ''a1'' ''where is the shop'' [''shop''],
        mr_db_info := marusia_db [sample_station] [sample_house]
          [\<lparr>pr_house = quoted ''5'', pr_comp = quoted ''1'', pr_keys = ''shop'', pr_resp = ''left''\<rparr>]\<rparr>"
  have "\<not> wants_lift [''shop'']" by code_simp
  then have "\<exists>s'. mr_analizeRequest ?ser ?s = (Ok (), s') \<and>
     mr_buf_send s' = ?ser (worker_response_static_message mr_name (quoted ''a1'') (getRespToMS
       (let resp = find_phrase (strip_quotes (?ser (JStr ''where is the shop''))) (ms_house sample_station)
          (ms_comp sample_station) [\<lparr>pr_house = quoted ''5'', pr_comp = quoted ''1'', pr_keys = ''shop'', pr_resp = ''left''\<rparr>]
        in if resp \<noteq> [] then resp else unknown_command_text)))"
    by (intro phrase_answer [OF _ _ _ sample_find, where tokens = "[''shop'']" and command = "''where is the shop''"])
      (simp_all add: plain_texts_def sample_station_def dquote_def quoted_def)
  then show ?thesis by (auto simp: worker_response_static_message_def)
qed

text \<open>
  A request for the lift without a number that the vocabulary knows is never answered:
  the exception of the lookup is caught by the loop, which waits for the next message
  without having sent one, and the station's connection to the main server stays open.
\<close>

theorem lift_request_without_floor_unanswered:
  assumes "v = station_request sender station command tokens"
    and "mr_db_info s = marusia_db stations houses phrases" and "plain_texts ser (station # tokens)"
    and "List.find (\<lambda>r. ms_app r = quoted station) stations = Some r"
    and "ms_house r \<noteq> ''-1''" and "ms_comp r \<noteq> ''-1''"
    and "wants_lift tokens" and "token_floor tokens = Throw e"
  shows "\<exists>s'. mr_answer_loop ser [v] s = (Ok (), s') \<and> mr_acts s' = mr_acts s @ [MR_receive MR_sendResponse]"
proof -
  let ?s = "s\<lparr>mr_queue := [], mr_json := v\<rparr>"
  have "mr_analizeRequest ser ?s = (Throw e, ?s\<lparr>mr_response_command := []\<rparr>)"
    using mr_analizeRequest_place [of ?s sender station command tokens stations houses phrases ser r] assms
    by (simp add: analize_move_def Let_def)
  moreover have "json_at v ''target'' = Ok (JStr ''marussia_station_request'')"
    unfolding assms(1) by (rule station_request_paths)
  ultimately show ?thesis
    by (simp add: mr_answer_front_def mr_do_def)
qed

theorem lift_request_without_floor_unanswered_witness:
  "\<exists>s'. mr_answer_loop (\<lambda>v. case v of JStr t \<Rightarrow> quoted t | _ \<Rightarrow> ''x'')
     [station_request ''MS'' ''a1'' ''c'' [utf8 floor_word_bytes]]
     ((mr_new ''1'' ())\<lparr>mr_db_info := marusia_db [sample_station] [sample_house] []\<rparr>) = (Ok (), s') \<and>
     mr_acts s' = [MR_receive MR_sendResponse]"
proof -
  have "bytes_floor [floor_word_bytes] = Throw Out_of_range" by code_simp
  moreover have "list_all bytes_ok [floor_word_bytes]" by code_simp
  ultimately have f: "token_floor [utf8 floor_word_bytes] = Throw Out_of_range"
    using token_floor_utf8 [of "[floor_word_bytes]"] by simp
  have w: "wants_lift [utf8 floor_word_bytes]"
    using first_word_facts(1) mqtt_keys_def by code_simp
  have d: "CHR ''\"'' \<notin> set (utf8 floor_word_bytes)" using first_word_facts(4) by (simp add: dquote_def)
  let ?s = "(mr_new ''1'' ())\<lparr>mr_db_info := marusia_db [sample_station] [sample_house] []\<rparr>"
  have "\<exists>s'. mr_answer_loop (\<lambda>v. case v of JStr t \<Rightarrow> quoted t | _ \<Rightarrow> ''x'')
     [station_request ''MS'' ''a1'' ''c'' [utf8 floor_word_bytes]] ?s = (Ok (), s') \<and>
     mr_acts s' = mr_acts ?s @ [MR_receive MR_sendResponse]"
    by (rule lift_request_without_floor_unanswered [OF refl _ _ sample_find])
      (simp_all add: f w d plain_texts_def sample_station_def dquote_def quoted_def)
  then show ?thesis by (simp add: mr_new_def)
qed

end
