(* ===== verification/Config.thy ===== *)
theory Config
  imports StdMap
begin

text \<open>
  \<open>GlobalModules/Config\<close>: the reader of the \<open>key:value\<close> files every server starts
  from. The file system is a lookup from paths to contents; the calls the object makes to
  its logger are recorded in \<open>cfg_log\<close>.
\<close>

definition CONFIG_FILE :: string where "CONFIG_FILE = ''config.txt''"
definition NOT_FOUND_CONFIG_FILE :: int where "NOT_FOUND_CONFIG_FILE = 1"

type_synonym log_call = "int \<times> string \<times> string"
type_synonym files = "string \<Rightarrow> string option"

record config =
  cfg_root :: string
  cfg_way :: string
  cfg_file :: string
  cfg_path :: string
  cfg_info :: "string smap"
  cfg_log :: "log_call list"

definition cfg_writeError :: "int \<Rightarrow> config \<Rightarrow> config" where
  "cfg_writeError err c = c\<lparr>cfg_log := cfg_log c @ [(err, ''Config'', ''open config'')]\<rparr>"

definition cfg_new :: "files \<Rightarrow> string \<Rightarrow> string \<Rightarrow> string \<Rightarrow> config" where
  "cfg_new fs root way file_name =
     (let file = (if file_name = '''' then CONFIG_FILE else file_name);
          path = root @ way @ file;
          c = \<lparr>cfg_root = root, cfg_way = way, cfg_file = file, cfg_path = path,
               cfg_info = [], cfg_log = []\<rparr>
      in case fs path of
           None \<Rightarrow> cfg_writeError NOT_FOUND_CONFIG_FILE c
         | Some _ \<Rightarrow> c)"

text \<open>The three setters rebuild the path with the directory parts in the other order.\<close>

definition cfg_setWay :: "string \<Rightarrow> config \<Rightarrow> config" where
  "cfg_setWay way c = c\<lparr>cfg_way := way, cfg_path := way @ cfg_root c @ cfg_file c\<rparr>"

definition cfg_setRootDirectory :: "string \<Rightarrow> config \<Rightarrow> config" where
  "cfg_setRootDirectory root c = c\<lparr>cfg_root := root, cfg_path := cfg_way c @ root @ cfg_file c\<rparr>"

definition cfg_setFileName :: "string \<Rightarrow> config \<Rightarrow> config" where
  "cfg_setFileName file c = c\<lparr>cfg_file := file, cfg_path := cfg_way c @ cfg_root c @ file\<rparr>"

section \<open>Reading\<close>

text \<open>
  \<open>while (!fin.eof()) getline(fin, boof)\<close> reads one string more than there are line
  ends: a file that ends with a line end gives a last empty line.
\<close>

fun split_on :: "char \<Rightarrow> string \<Rightarrow> string list" where
  "split_on d [] = [[]]"
| "split_on d (c # cs) =
     (if c = d then [] # split_on d cs
      else (case split_on d cs of l # ls \<Rightarrow> (c # l) # ls | [] \<Rightarrow> [[c]]))"

definition newline :: char where "newline = CHR 0x0A"
definition carriage_return :: char where "carriage_return = CHR 0x0D"

definition erase_first :: "char \<Rightarrow> string \<Rightarrow> string" where
  "erase_first d s = remove1 d s"

text \<open>
  One line: the key ends at the first colon and the value begins after it. With no colon
  \<open>border\<close> is \<open>npos\<close>: the key is the whole line, \<open>border + 1\<close> wraps to 0 and nothing
  is erased from the value.
\<close>

definition config_line :: "string \<Rightarrow> string \<times> string" where
  "config_line boof =
     (case str_find boof '':'' of
        None \<Rightarrow> (boof, erase_first carriage_return boof)
      | Some border \<Rightarrow>
          (take border boof, erase_first carriage_return (drop (border + 1) boof)))"

definition parse_config :: "string \<Rightarrow> string smap" where
  "parse_config content =
     fold (\<lambda>boof m. case config_line boof of (key, v) \<Rightarrow> smap_insert key v m)
       (split_on newline content) []"

definition cfg_readConfig :: "files \<Rightarrow> config \<Rightarrow> config" where
  "cfg_readConfig fs c =
     (case fs (cfg_path c) of
        Some content \<Rightarrow>
          c\<lparr>cfg_log := cfg_log c @ [(0, ''config'', ''Write Config'')],
            cfg_info := parse_config content\<rparr>
      | None \<Rightarrow> cfg_writeError NOT_FOUND_CONFIG_FILE c)"

definition cfg_getConfigInfo :: "config \<Rightarrow> string smap" where
  "cfg_getConfigInfo c = cfg_info c"

section \<open>Lemmas\<close>

lemma split_on_not_Nil [simp]: "split_on d s \<noteq> []"
  by (induction s) (auto split: list.splits)

lemma split_on_append:
  "d \<notin> set l \<Longrightarrow> split_on d (l @ d # s) = l # split_on d s"
  by (induction l) auto

lemma str_find_char: "CHR '':'' \<notin> set k \<Longrightarrow> str_find (k @ CHR '':'' # v) '':'' = Some (length k)"
  by (induction k) auto

lemma config_line_pair:
  "CHR '':'' \<notin> set k \<Longrightarrow> config_line (k @ CHR '':'' # v) = (k, erase_first carriage_return v)"
  by (simp add: config_line_def str_find_char)

lemma smap_inv_fold_insert:
  "smap_inv m \<Longrightarrow> smap_inv (fold (\<lambda>l m. case g l of (k, v) \<Rightarrow> smap_insert k v m) ls m)"
  by (induction ls arbitrary: m) (auto simp: smap_inv_insert split: prod.splits)

lemma smap_get_fold_insert:
  "smap_get (fold (\<lambda>l m. case g l of (k, v) \<Rightarrow> smap_insert k v m) ls m) k =
     (case smap_get m k of Some v \<Rightarrow> Some v | None \<Rightarrow> map_of (map g ls) k)"
proof (induction ls arbitrary: m)
  case Nil
  then show ?case by (simp split: option.splits)
next
  case (Cons l ls)
  obtain k' v' where "g l = (k', v')" by (cases "g l")
  with Cons show ?case by (auto simp: smap_get_insert split: option.splits)
qed

lemma parse_config_get:
  "smap_get (parse_config content) k = map_of (map config_line (split_on newline content)) k"
  by (simp add: parse_config_def smap_get_fold_insert)

lemma parse_config_inv: "smap_inv (parse_config content)"
  by (simp add: parse_config_def smap_inv_fold_insert)

text \<open>The text of a configuration, one \<open>key:value\<close> line for each pair.\<close>

fun print_config :: "(string \<times> string) list \<Rightarrow> string" where
  "print_config [] = []"
| "print_config ((k, v) # kvs) = k @ CHR '':'' # v @ newline # print_config kvs"

definition plain_key :: "string \<Rightarrow> bool" where
  "plain_key k \<longleftrightarrow> CHR '':'' \<notin> set k \<and> newline \<notin> set k"

definition plain_value :: "string \<Rightarrow> bool" where
  "plain_value v \<longleftrightarrow> newline \<notin> set v \<and> carriage_return \<notin> set v"

lemma split_print_config:
  "\<forall>(k, v) \<in> set kvs. plain_key k \<and> plain_value v \<Longrightarrow>
   split_on newline (print_config kvs) = map (\<lambda>(k, v). k @ CHR '':'' # v) kvs @ [[]]"
proof (induction kvs)
  case Nil
  then show ?case by simp
next
  case (Cons kv kvs)
  obtain k v where kv: "kv = (k, v)" by (cases kv)
  with Cons.prems have "newline \<notin> set (k @ CHR '':'' # v)"
    by (auto simp: plain_key_def plain_value_def newline_def)
  from split_on_append [OF this, of "print_config kvs"] Cons kv show ?case by simp
qed

lemma config_line_plain:
  "plain_key k \<Longrightarrow> plain_value v \<Longrightarrow> config_line (k @ CHR '':'' # v) = (k, v)"
  by (simp add: config_line_pair plain_key_def plain_value_def erase_first_def remove1_idem)

section \<open>Properties\<close>

text \<open>
  C12: a configuration written as \<open>key:value\<close> lines is read back exactly. For every key
  but the empty one the reader returns the value of the first line with that key.
\<close>

theorem config_roundtrip:
  assumes "\<forall>(k, v) \<in> set kvs. plain_key k \<and> plain_value v" and "k \<noteq> ''''"
  shows "smap_get (parse_config (print_config kvs)) k = map_of kvs k"
proof -
  have "map config_line (map (\<lambda>(k, v). k @ CHR '':'' # v) kvs) = kvs"
    using assms(1) by (auto intro!: map_idI simp: config_line_plain)
  then show ?thesis
    using assms by (simp add: parse_config_get split_print_config config_line_def map_add_def
        split: option.splits)
qed

theorem config_roundtrip_witness:
  "smap_get (parse_config (print_config [(''Id'', ''7''), (''Port'', ''80'')])) ''Port'' = Some ''80''"
proof -
  have "\<forall>(k, v) \<in> set [(''Id'', ''7''), (''Port'', ''80'')]. plain_key k \<and> plain_value v"
    by (simp add: plain_key_def plain_value_def newline_def carriage_return_def)
  from config_roundtrip [OF this, of "''Port''"] show ?thesis by simp
qed

end
