(* ===== verification/Programs.thy ===== *)
theory Programs
  imports MQTTWorker HTTPSServer MarusiaWorker Config
begin

text \<open>
  The programs that put the parts together: the common reading of command lines and
  configurations, the main server (\<open>MainServer/MainServer.cpp\<close>), the database server's and the
  voice worker's start, and the watchdog (\<open>Resurrector/Resurrector.cpp\<close>).
\<close>

section \<open>Command line and configuration\<close>

text \<open>
  The flags of \<open>main\<close>: \<open>argv[++i]\<close> behind the last argument is a null pointer, from which no
  string can be made.
\<close>

fun parse_flags :: "string list \<Rightarrow> string \<times> string \<Rightarrow> (string \<times> string) res" where
  "parse_flags [] cfg = Ok cfg"
| "parse_flags (a # as) (way, name) =
     (if a = ''-cf'' \<or> a = ''--config_file'' then
        (case as of [] \<Rightarrow> Undef | v # rest \<Rightarrow> parse_flags rest (v, name))
      else if a = ''-cf_n'' \<or> a = ''--config_file_name'' then
        (case as of [] \<Rightarrow> Undef | v # rest \<Rightarrow> parse_flags rest (way, v))
      else parse_flags as (way, name))"

text \<open>
  The main server and the MQTT worker know only the first flag, and take the file name from it.
\<close>

fun parse_file_flag :: "string list \<Rightarrow> string \<Rightarrow> string res" where
  "parse_file_flag [] name = Ok name"
| "parse_file_flag (a # as) name =
     (if a = ''-cf'' \<or> a = ''--config_file'' then
        (case as of [] \<Rightarrow> Undef | v # rest \<Rightarrow> parse_file_flag rest v)
      else parse_file_flag as name)"

text \<open>
  The check of the three programs with a field list: it runs to one less than the number of
  entries of the configuration.
\<close>

fun check_fields :: "string list \<Rightarrow> string smap \<Rightarrow> nat \<Rightarrow> nat \<Rightarrow> unit res" where
  "check_fields config_fields config_info i 0 = Ok ()"
| "check_fields config_fields config_info i (Suc n) =
     bind_res (vec_at config_fields i) (\<lambda>f.
     bind_res (smap_at config_info f) (\<lambda>_. check_fields config_fields config_info (Suc i) n))"

definition config_checked :: "string list \<Rightarrow> string smap \<Rightarrow> unit res" where
  "config_checked config_fields config_info =
     check_fields config_fields config_info 0 (length config_info - 1)"

text \<open>The narrowing of an \<open>int\<close> to a \<open>short\<close>.\<close>

definition to_short :: "int \<Rightarrow> int" where
  "to_short i = (i + 32768) mod 65536 - 32768"

section \<open>The start of the database server and of the voice worker\<close>

datatype start_result = Not_started string | Started int int

definition DB_FIELDS :: "string list" where "DB_FIELDS = [''Port'', ''Count_threads'']"

text \<open>\<open>ServerDataBase::start\<close>: the configuration that is too small is logged and used.\<close>

definition db_server_start :: "string smap \<Rightarrow> start_result res" where
  "db_server_start config_info =
     (if config_info = [] then Ok (Not_started ''Config_File_not_open'')
      else case config_checked DB_FIELDS config_info of
             Throw e \<Rightarrow> Ok (Not_started ''error'')
           | Undef \<Rightarrow> Undef
           | Ok _ \<Rightarrow>
               bind_res (cfg_int config_info ''Count_threads'') (\<lambda>threads.
               bind_res (cfg_int config_info ''Port'') (\<lambda>port.
                 Ok (Started (to_short threads) port))))"

definition WORKER_FIELDS :: "string list" where
  "WORKER_FIELDS = [''Id'', ''Main_server_ip'', ''Main_server_port'', ''BD_ip'', ''BD_port'',
     ''BD_login'', ''BD_password'', ''Count_threads'']"

text \<open>\<open>ServerWorker::run\<close>: a bad thread count is reported and the member stays uninitialised.\<close>

definition worker_server_run :: "string smap \<Rightarrow> int \<Rightarrow> start_result res" where
  "worker_server_run config_info uninit =
     (if config_info = [] then Ok (Not_started ''Config_File_not_open'')
      else if length config_info < 8 then Ok (Not_started ''Config_File_not_full'')
      else case config_checked WORKER_FIELDS config_info of
             Throw e \<Rightarrow> Ok (Not_started ''error'')
           | Undef \<Rightarrow> Undef
           | Ok _ \<Rightarrow>
               Ok (Started (case cfg_int config_info ''Count_threads'' of Ok n \<Rightarrow> n | _ \<Rightarrow> uninit) 0))"

section \<open>The main server\<close>

record tables =
  tb_worker_marusia :: "string list smap"
  tb_worker_lu :: "string list smap"
  tb_marusia_station :: "string list smap"
  tb_lift_blocks :: "string list smap"

text \<open>
  The members, and what the servers were given at their start: pointers to copies of the
  member pointers.
\<close>

record main_server =
  mn_tables :: tables
  mn_given :: "tables option"
  mn_timers :: nat

definition mn_updateData :: "string list smap smap \<Rightarrow> main_server \<Rightarrow> unit res \<times> main_server" where
  "mn_updateData data m =
     (case bind_res (smap_at data ''WorkerMarussia'') (\<lambda>a.
           bind_res (smap_at data ''WorkerLU'') (\<lambda>b.
           bind_res (smap_at data ''MarussiaStation'') (\<lambda>c.
           map_res (\<lambda>d. \<lparr>tb_worker_marusia = a, tb_worker_lu = b, tb_marusia_station = c, tb_lift_blocks = d\<rparr>)
             (smap_at data ''LiftBlocks'')))) of
        Ok t \<Rightarrow> (Ok (), m\<lparr>mn_tables := t\<rparr>)
      | Throw e \<Rightarrow> (Throw e, m)
      | Undef \<Rightarrow> (Undef, m))"

definition mn_updateDataCallback :: "string list smap smap \<Rightarrow> main_server \<Rightarrow> main_server" where
  "mn_updateDataCallback data m = snd (mn_updateData data m)"

definition mn_startServers :: "string list smap smap \<Rightarrow> main_server \<Rightarrow> main_server" where
  "mn_startServers data m =
     (case mn_updateData data m of
        (Ok _, m1) \<Rightarrow> m1\<lparr>mn_timers := mn_timers m1 + 1, mn_given := Some (mn_tables m1)\<rparr>
      | (_, m1) \<Rightarrow> m1)"

text \<open>The queries of \<open>__loadDataBase\<close>, each with an empty condition.\<close>

definition mn_queries :: "(string \<times> string list) list" where
  "mn_queries =
     [(''WorkerMarussia'', [''Id'']), (''WorkerLU'', [''Id'', ''Address'', ''Port'']),
      (''MarussiaStation'', [''ApplicationId'', ''WorkerId'', ''SecondWorkerId'', ''LiftBlockId'']),
      (''LiftBlocks'', [''Id'', ''WorkerLuId'', ''SecondWorkerLuId'', ''Descriptor''])]"

definition mn_loadDataBase :: "'q cdb \<Rightarrow> 'q cdb" where
  "mn_loadDataBase c =
     cdb_start (cdb_setQuerys (map fst mn_queries) (map snd mn_queries) (map (\<lambda>_. []) mn_queries) c)"

definition mn_updateTimerCallback :: "'q cdb \<Rightarrow> main_server \<Rightarrow> 'q cdb \<times> main_server" where
  "mn_updateTimerCallback c m =
     (cdb_start (cdb_setQuerys (map fst mn_queries) (map snd mn_queries) (map (\<lambda>_. []) mn_queries) c),
      m\<lparr>mn_timers := mn_timers m + 1\<rparr>)"

text \<open>
  \<open>init\<close> handles \<open>invalid_argument\<close> only: the \<open>out_of_range\<close> of a missing entry or of a number
  that does not fit, and what the loading of the certificate throws, leave it.
\<close>

definition mn_init :: "(string \<Rightarrow> string \<Rightarrow> bool) \<Rightarrow> string smap \<Rightarrow> process_code res" where
  "mn_init certificate_ok configuration =
     (if configuration = [] then Ok CONFIG_FILE_NOT_OPEN
      else
        (case bind_res (smap_at configuration ''DB_ip'') (\<lambda>_.
              bind_res (smap_at configuration ''DB_login'') (\<lambda>_.
              bind_res (smap_at configuration ''DB_password'') (\<lambda>_.
              bind_res (cfg_int configuration ''DB_port'') (\<lambda>_.
              bind_res (cfg_int configuration ''Marusia_port'') (\<lambda>port_marusia_station.
              bind_res (cfg_int configuration ''MQTT_port'') (\<lambda>port_mqtt.
              bind_res (cfg_int configuration ''Worker_MQTT_port'') (\<lambda>port_worker_mqtt.
              bind_res (cfg_int configuration ''Worker_MQTT_info_port'') (\<lambda>port_worker_mqtt_info.
              bind_res (cfg_int configuration ''Worker_marusia_port'') (\<lambda>port_worker_marusia.
              bind_res (map_res to_short (cfg_int configuration ''Count_threads'')) (\<lambda>count_threads.
              bind_res (smap_at configuration ''Path_to_ssl_sertificate'') (\<lambda>cert.
              bind_res (smap_at configuration ''Path_to_ssl_key'') (\<lambda>key.
                if \<not> certificate_ok cert key then Throw Logic_error
                else if port_marusia_station < 1 \<or> port_mqtt < 1 \<or> port_worker_mqtt < 1 \<or>
                  port_worker_mqtt_info < 1 \<or> port_worker_marusia < 1 \<or> count_threads < 1
                then Throw Invalid_argument else Ok ())))))))))))) of
           Ok _ \<Rightarrow> Ok SUCCESSFUL
         | Throw e \<Rightarrow> (if e = Invalid_argument then Ok CONFIG_DATA_NOT_FULL else Throw e)
         | Undef \<Rightarrow> Undef))"

section \<open>The watchdog\<close>

text \<open>
  A process as the listing of \<open>/proc\<close> shows it: the directory's name, and the first two
  words of its \<open>stat\<close> file (empty when the file cannot be read).
\<close>

record proc_entry =
  pe_dir :: string
  pe_pid :: string
  pe_name :: string

definition is_pid_dir :: "proc_entry \<Rightarrow> bool" where
  "is_pid_dir e \<longleftrightarrow> (case pe_dir e of c # _ \<Rightarrow> is_digit c | [] \<Rightarrow> False)"

definition PROGRAMS :: "string list" where
  "PROGRAMS = [''ServerDB'', ''MainServer'', ''Worker'', ''MQTT_Worker'']"

definition proc_name :: "string \<Rightarrow> string" where
  "proc_name p = ''('' @ p @ '')''"

text \<open>Counting, with the conversion of every numeric directory name.\<close>

fun count_running :: "proc_entry list \<Rightarrow> (string \<Rightarrow> nat) \<Rightarrow> (string \<Rightarrow> nat) res" where
  "count_running [] n = Ok n"
| "count_running (e # es) n =
     (if \<not> is_pid_dir e then count_running es n
      else bind_res (stoi (pe_dir e)) (\<lambda>_.
        count_running es (if pe_name e \<in> set (map proc_name PROGRAMS)
                          then n(pe_name e := n (pe_name e) + 1) else n)))"

definition start_command :: "string \<Rightarrow> string \<Rightarrow> string" where
  "start_command way p = '' nohup ./'' @ way @ p @ '' -cf '' @ way @ '' &''"

fun start_missing :: "string smap \<Rightarrow> (string \<Rightarrow> nat) \<Rightarrow> string list \<Rightarrow> string list" where
  "start_missing config_info n [] = []"
| "start_missing config_info n (p # ps) =
     (if n (proc_name p) = 0 then
        (case smap_at config_info p of
           Ok way \<Rightarrow> start_command way p # start_missing config_info n ps
         | _ \<Rightarrow> start_missing config_info n ps)
      else start_missing config_info n ps)"

text \<open>\<open>__checkWorking\<close>: the commands given to the shell; the counters end at zero.\<close>

definition checkWorking :: "string smap \<Rightarrow> proc_entry list option \<Rightarrow> string list res" where
  "checkWorking config_info dir =
     (case dir of
        None \<Rightarrow> Ok []
      | Some es \<Rightarrow>
          map_res (\<lambda>n. start_missing config_info n PROGRAMS) (count_running es (\<lambda>_. 0)))"

text \<open>
  \<open>__resetProgramms\<close>: the signals sent, then the commands, in which nothing separates the
  program from its flag.
\<close>

definition reset_command :: "string \<Rightarrow> string \<Rightarrow> string" where
  "reset_command way p = '' nohup ./'' @ way @ p @ ''-cf '' @ way @ '' &''"

fun kill_running :: "proc_entry list \<Rightarrow> int list res" where
  "kill_running [] = Ok []"
| "kill_running (e # es) =
     (if \<not> is_pid_dir e then kill_running es
      else bind_res (stoi (pe_dir e)) (\<lambda>_.
        if pe_name e \<in> set (map proc_name PROGRAMS)
        then bind_res (stoi (pe_pid e)) (\<lambda>pid. map_res ((#) pid) (kill_running es))
        else kill_running es))"

fun restart_all :: "string smap \<Rightarrow> string list \<Rightarrow> string list" where
  "restart_all config_info [] = []"
| "restart_all config_info (p # ps) =
     (case smap_at config_info p of
        Ok way \<Rightarrow> reset_command way p # restart_all config_info ps
      | _ \<Rightarrow> restart_all config_info ps)"

definition resetProgramms :: "string smap \<Rightarrow> proc_entry list option \<Rightarrow> (int list \<times> string list) res" where
  "resetProgramms config_info dir =
     (case dir of
        None \<Rightarrow> Ok ([], [])
      | Some es \<Rightarrow> map_res (\<lambda>ks. (ks, restart_all config_info PROGRAMS)) (kill_running es))"

definition RESURRECTOR_FIELDS :: "string list" where
  "RESURRECTOR_FIELDS = [''Time_check'', ''Time_reset'', ''ServerDB'', ''MainServer'', ''Worker'',
     ''MQTT_Worker'', ''Count_threads'']"

text \<open>\<open>Resurrector::start\<close>: the two periods and the number of threads it runs with.\<close>

definition resurrector_start :: "string smap \<Rightarrow> int \<times> int \<times> int \<Rightarrow> (int \<times> int \<times> int) option" where
  "resurrector_start config_info uninit =
     (case uninit of (t0, c0, r0) \<Rightarrow>
       if config_info = [] then None
       else case config_checked RESURRECTOR_FIELDS config_info of
              Ok _ \<Rightarrow>
                (case cfg_int config_info ''Count_threads'' of
                   Ok t \<Rightarrow>
                     (case cfg_int config_info ''Time_check'' of
                        Ok c \<Rightarrow>
                          (case cfg_int config_info ''Time_reset'' of
                             Ok r \<Rightarrow> Some (to_short t, to_short c, to_short r)
                           | _ \<Rightarrow> Some (to_short t, to_short c, r0))
                      | _ \<Rightarrow> Some (to_short t, c0, r0))
                 | _ \<Rightarrow> Some (t0, c0, r0))
            | _ \<Rightarrow> None)"

section \<open>Properties\<close>

definition pid_dirs_ok :: "proc_entry list \<Rightarrow> bool" where
  "pid_dirs_ok es \<longleftrightarrow> (\<forall>e \<in> set es. is_pid_dir e \<longrightarrow> is_ok (stoi (pe_dir e)))"

definition running :: "proc_entry list \<Rightarrow> string \<Rightarrow> bool" where
  "running es p \<longleftrightarrow> (\<exists>e \<in> set es. is_pid_dir e \<and> pe_name e = proc_name p)"

lemma count_running_spec:
  "pid_dirs_ok es \<Longrightarrow>
   \<exists>n'. count_running es n = Ok n' \<and>
     (\<forall>p \<in> set PROGRAMS. n' (proc_name p) =
        n (proc_name p) + length (filter (\<lambda>e. is_pid_dir e \<and> pe_name e = proc_name p) es))"
proof (induction es arbitrary: n)
  case Nil
  then show ?case by simp
next
  case (Cons e es)
  then have ok: "pid_dirs_ok es" by (simp add: pid_dirs_ok_def)
  show ?case
  proof (cases "is_pid_dir e")
    case False
    with Cons.IH [OF ok, of n] show ?thesis by simp
  next
    case True
    with Cons.prems obtain i where i: "stoi (pe_dir e) = Ok i"
      by (auto simp: pid_dirs_ok_def is_ok_def split: res.splits)
    let ?n = "if pe_name e \<in> set (map proc_name PROGRAMS) then n(pe_name e := n (pe_name e) + 1) else n"
    from Cons.IH [OF ok, of ?n] obtain n' where n': "count_running es ?n = Ok n'"
      "\<forall>p \<in> set PROGRAMS. n' (proc_name p) =
        ?n (proc_name p) + length (filter (\<lambda>e. is_pid_dir e \<and> pe_name e = proc_name p) es)" by blast
    have "\<forall>p \<in> set PROGRAMS. ?n (proc_name p) = n (proc_name p) + (if pe_name e = proc_name p then 1 else 0)"
      by (auto simp: image_iff)
    with n' True i show ?thesis by auto
  qed
qed

lemma start_missing_spec:
  "start_missing config_info n ps =
     map (\<lambda>p. start_command (the (smap_get config_info p)) p)
       (filter (\<lambda>p. n (proc_name p) = 0 \<and> smap_get config_info p \<noteq> None) ps)"
  by (induction ps) (auto simp: smap_at_def split: option.splits)

text \<open>
  One round of the watchdog starts exactly the programs of which no process runs and
  whose path is configured, each once, in the order database, main server, voice worker,
  MQTT worker, and nothing for a program that runs.
\<close>

theorem watchdog_starts_missing:
  assumes "pid_dirs_ok es"
  shows "checkWorking config_info (Some es) =
     Ok (map (\<lambda>p. start_command (the (smap_get config_info p)) p)
           (filter (\<lambda>p. \<not> running es p \<and> smap_get config_info p \<noteq> None) PROGRAMS))"
proof -
  from count_running_spec [OF assms, of "\<lambda>_. 0"] obtain n' where n': "count_running es (\<lambda>_. 0) = Ok n'"
    "\<forall>p \<in> set PROGRAMS. n' (proc_name p) =
       length (filter (\<lambda>e. is_pid_dir e \<and> pe_name e = proc_name p) es)" by auto
  have "\<forall>p \<in> set PROGRAMS. n' (proc_name p) = 0 \<longleftrightarrow> \<not> running es p"
    using n'(2) by (auto simp: running_def filter_empty_conv)
  then have "filter (\<lambda>p. n' (proc_name p) = 0 \<and> smap_get config_info p \<noteq> None) PROGRAMS =
      filter (\<lambda>p. \<not> running es p \<and> smap_get config_info p \<noteq> None) PROGRAMS"
    by (intro filter_cong) auto
  with n'(1) show ?thesis by (simp only: checkWorking_def option.case map_res.simps start_missing_spec)
qed

theorem watchdog_starts_missing_witness:
  "checkWorking [(''MQTT_Worker'', ''m/''), (''ServerDB'', ''d/'')]
     (Some [\<lparr>pe_dir = ''self'', pe_pid = ''1'', pe_name = ''(ServerDB)''\<rparr>,
            \<lparr>pe_dir = ''12'', pe_pid = ''12'', pe_name = ''(MQTT_Worker)''\<rparr>]) =
   Ok ['' nohup ./d/ServerDB -cf d/ &'']"
proof -
  let ?es = "[\<lparr>pe_dir = ''self'', pe_pid = ''1'', pe_name = ''(ServerDB)''\<rparr>,
      \<lparr>pe_dir = ''12'', pe_pid = ''12'', pe_name = ''(MQTT_Worker)''\<rparr>]"
  have "pid_dirs_ok ?es"
    by (simp add: pid_dirs_ok_def is_pid_dir_def stoi_def Let_def is_digit_def is_space_def dec_val_def
        digit_val_def int_min_def int_max_def)
  from watchdog_starts_missing [OF this, of "[(''MQTT_Worker'', ''m/''), (''ServerDB'', ''d/'')]"]
  show ?thesis
    by (simp add: PROGRAMS_def running_def is_pid_dir_def is_digit_def proc_name_def start_command_def)
qed

text \<open>
  The command of the daily reset is never the one that starts a program: it names a program
  that is called \<open>Worker-cf\<close> and so on.
\<close>

lemma reset_command_wrong: "reset_command way p \<noteq> start_command way p"
  by (simp add: reset_command_def start_command_def)

text \<open>
  A load of the tables takes effect as a whole or not at all, and once the servers
  have been started no later load changes the tables they were given.
\<close>

theorem main_tables_atomic:
  "(mn_updateDataCallback data m = m \<or>
     (\<exists>a b c d. smap_get data ''WorkerMarussia'' = Some a \<and> smap_get data ''WorkerLU'' = Some b \<and>
        smap_get data ''MarussiaStation'' = Some c \<and> smap_get data ''LiftBlocks'' = Some d \<and>
        mn_updateDataCallback data m = m\<lparr>mn_tables :=
          \<lparr>tb_worker_marusia = a, tb_worker_lu = b, tb_marusia_station = c, tb_lift_blocks = d\<rparr>\<rparr>)) \<and>
   mn_given (mn_updateDataCallback data m) = mn_given m"
  by (auto simp: mn_updateDataCallback_def mn_updateData_def smap_at_def split: option.splits)

text \<open>
  A configuration of the main server that lacks an entry ends the program with an
  exception instead of the result for an incomplete configuration.
\<close>

theorem missing_entry_not_reported:
  assumes "configuration \<noteq> []" and "smap_get configuration ''DB_ip'' = None"
  shows "mn_init certificate_ok configuration = Throw Out_of_range"
  using assms by (simp add: mn_init_def smap_at_def)

theorem missing_entry_not_reported_witness:
  "mn_init (\<lambda>_ _. True) [(''DB_port'', ''80'')] = Throw Out_of_range"
  by (rule missing_entry_not_reported) simp_all

text \<open>
  The check of the fields leaves out the last one of a configuration that has as many
  entries as there are fields.
\<close>

lemma check_fields_ok_iff:
  "i + n \<le> length flds \<Longrightarrow>
   check_fields flds config i n = Ok () \<longleftrightarrow> (\<forall>k < n. smap_get config (flds ! (i + k)) \<noteq> None)"
proof (induction n arbitrary: i)
  case 0
  then show ?case by simp
next
  case (Suc n)
  then have "vec_at flds i = Ok (flds ! i)" by simp
  moreover have "(\<forall>k < Suc n. smap_get config (flds ! (i + k)) \<noteq> None) \<longleftrightarrow>
      smap_get config (flds ! i) \<noteq> None \<and> (\<forall>k < n. smap_get config (flds ! (Suc i + k)) \<noteq> None)"
    by (auto simp: less_Suc_eq_0_disj)
  ultimately show ?case
    using Suc by (auto simp: smap_at_def split: option.split)
qed

text \<open>
  A configuration with exactly as many entries as the program has fields passes the
  check when the first fields are there; the last one, the number of threads, is not looked
  for, and the database server then ends with an exception when it reads it.
\<close>

theorem last_field_unchecked:
  assumes "length config = length flds" and "flds \<noteq> []"
  shows "config_checked flds config = Ok () \<longleftrightarrow> (\<forall>f \<in> set (butlast flds). smap_get config f \<noteq> None)"
proof -
  have "config_checked flds config = Ok () \<longleftrightarrow> (\<forall>k < length flds - 1. smap_get config (flds ! k) \<noteq> None)"
    using check_fields_ok_iff [of 0 "length flds - 1" flds config] assms by (simp add: config_checked_def)
  also have "\<dots> \<longleftrightarrow> (\<forall>f \<in> set (butlast flds). smap_get config f \<noteq> None)"
    by (metis in_set_conv_nth length_butlast nth_butlast)
  finally show ?thesis .
qed

theorem last_field_unchecked_witness:
  "config_checked DB_FIELDS [(''Port'', ''80''), (''Threads'', ''4'')] = Ok () \<and>
   db_server_start [(''Port'', ''80''), (''Threads'', ''4'')] = Throw Out_of_range"
proof -
  have "config_checked DB_FIELDS [(''Port'', ''80''), (''Threads'', ''4'')] = Ok ()"
    using last_field_unchecked [of "[(''Port'', ''80''), (''Threads'', ''4'')]" DB_FIELDS]
    by (simp add: DB_FIELDS_def)
  then show ?thesis by (simp add: db_server_start_def cfg_int_def smap_at_def)
qed

end
