(* ===== verification/NetRepeater.thy ===== *)
theory NetRepeater
  imports WorkerSession
begin

text \<open>
  \<open>MainServer/Modules/NetRepeater\<close>: a relay between a lift controller (the first socket) and
  the MQTT worker that serves it (the second socket). The first packet of the controller
  names the lift; it decides which worker the second socket is connected to. The main
  server has the calls of this module commented out.
\<close>

section \<open>State\<close>

datatype nr_socket = FIRST | SECOND

datatype nr_act =
    NR_send nr_socket string
  | NR_send_rest nr_socket nat nat
  | NR_receive nr_socket
  | NR_connect string int
  | NR_pause nat
  | NR_close nr_socket

record nr =
  nr_live :: bool
  nr_its_connect :: bool
  nr_attemps :: int
  nr_worker_ip :: string
  nr_worker_port :: string
  nr_buf_send_first :: string
  nr_buf_send_second :: string
  nr_buf_recive_first :: string
  nr_buf_recive_second :: string
  nr_open_first :: bool
  nr_open_second :: bool
  nr_acts :: "nr_act list"

definition nr_new :: nr where
  "nr_new = \<lparr>nr_live = False, nr_its_connect = False, nr_attemps = 0, nr_worker_ip = [],
     nr_worker_port = [], nr_buf_send_first = [], nr_buf_send_second = [], nr_buf_recive_first = [],
     nr_buf_recive_second = [], nr_open_first = True, nr_open_second = False, nr_acts = []\<rparr>"

definition nr_do :: "nr_act list \<Rightarrow> nr \<Rightarrow> nr" where
  "nr_do as s = s\<lparr>nr_acts := nr_acts s @ as\<rparr>"

definition MAX_COUNT_CONNECTION_ATTEMPS :: int where "MAX_COUNT_CONNECTION_ATTEMPS = 10"

section \<open>Operations\<close>

definition nr_start :: "nr \<Rightarrow> nr" where
  "nr_start s = nr_do [NR_receive FIRST] (s\<lparr>nr_live := True, nr_its_connect := True\<rparr>)"

definition nr_stop :: "nr \<Rightarrow> nr" where
  "nr_stop s =
     (let s1 = (if nr_open_first s then nr_do [NR_close FIRST] (s\<lparr>nr_open_first := False\<rparr>) else s);
          s2 = (if nr_open_second s1 then nr_do [NR_close SECOND] (s1\<lparr>nr_open_second := False\<rparr>) else s1)
      in s2\<lparr>nr_live := False\<rparr>)"

definition nr_sendCommandFirst :: "bool \<Rightarrow> nat \<Rightarrow> nat \<times> nr \<Rightarrow> nat \<times> nr" where
  "nr_sendCommandFirst err count_send_byte = (\<lambda>(temp, s).
     (if err then (temp, nr_stop s)
      else case send_check (length (nr_buf_send_first s)) count_send_byte temp of
             (Send_more pos n, t) \<Rightarrow> (t, nr_do [NR_send_rest FIRST pos n] s)
           | (Send_success, t) \<Rightarrow> (0, s\<lparr>nr_buf_send_first := []\<rparr>)))"

text \<open>
  The connection to the worker: the address comes in quotes, cut off by position; an empty
  one throws.
\<close>

definition unquote_at :: "string \<Rightarrow> string res" where
  "unquote_at s = str_substr s 1 (Some ((length s + (SIZE_MOD - 2)) mod SIZE_MOD))"

definition nr_connect :: "nr \<Rightarrow> unit res \<times> nr" where
  "nr_connect s =
     (case bind_res (unquote_at (nr_worker_ip s)) (\<lambda>ip.
           map_res (\<lambda>port. (ip, port)) (bind_res (unquote_at (nr_worker_port s)) stoi)) of
        Ok (ip, port) \<Rightarrow> (Ok (), nr_do [NR_connect ip port] (s\<lparr>nr_open_second := True\<rparr>))
      | Throw e \<Rightarrow> (Throw e, s)
      | Undef \<Rightarrow> (Undef, s))"

text \<open>
  The buffers are assigned as C strings: what follows a zero byte is not taken over.
\<close>

definition nr_requestAuthorization :: "bool \<Rightarrow> nr \<Rightarrow> unit res \<times> nr" where
  "nr_requestAuthorization err s =
     (if err then
        (if nr_attemps s < MAX_COUNT_CONNECTION_ATTEMPS then
           (case nr_connect ((if nr_open_second s then nr_do [NR_pause 2, NR_close SECOND]
                                else nr_do [NR_pause 2]) s) of
              (Ok _, s1) \<Rightarrow> (Ok (), s1\<lparr>nr_attemps := nr_attemps s1 + 1\<rparr>)
            | r \<Rightarrow> r)
         else (Ok (), (nr_stop s)\<lparr>nr_attemps := nr_attemps s + 1\<rparr>))
      else
        (let b = c_str (nr_buf_recive_first s)
         in (Ok (), nr_do [NR_send SECOND b, NR_receive FIRST]
                      (s\<lparr>nr_attemps := 0, nr_buf_send_second := b, nr_buf_recive_first := []\<rparr>))))"

definition nr_sendCommandSecond :: "bool \<Rightarrow> nat \<Rightarrow> nat \<times> nr \<Rightarrow> unit res \<times> nat \<times> nr" where
  "nr_sendCommandSecond err count_send_byte = (\<lambda>(temp, s).
     (if err then
        (case nr_requestAuthorization err s of
           (Ok _, s1) \<Rightarrow> (Ok (), temp, nr_stop s1)
         | (r, s1) \<Rightarrow> (r, temp, s1))
      else case send_check (length (nr_buf_send_second s)) count_send_byte temp of
             (Send_more pos n, t) \<Rightarrow> (Ok (), t, nr_do [NR_send_rest SECOND pos n] s)
           | (Send_success, t) \<Rightarrow> (Ok (), 0, s\<lparr>nr_buf_send_second := []\<rparr>)))"

text \<open>
  \<open>__authorization\<close>. The condition of the inner search, \<open>m != end_m || count_found < 2\<close>, is
  always true: a search without a hit runs past the end of the sessions.
\<close>

fun find_worker_session :: "string list \<Rightarrow> string \<Rightarrow> string \<Rightarrow> string res" where
  "find_worker_session [] j k = Undef"
| "find_worker_session (temp_id # ids) j k =
     (if temp_id = j then Ok j else if temp_id = k then Ok k else find_worker_session ids j k)"

fun find_lift :: "string \<Rightarrow> string list \<Rightarrow> string list \<Rightarrow> string list \<Rightarrow> string list \<Rightarrow> string option res" where
  "find_lift descriptor ids [] js ks = Ok None"
| "find_lift descriptor ids (i # is) js ks =
     (if descriptor = i then
        (case (js, ks) of
           (j # _, k # _) \<Rightarrow> map_res Some (find_worker_session ids j k)
         | _ \<Rightarrow> Undef)
      else find_lift descriptor ids is (tl js) (tl ks))"

definition MQTT_SHIFT :: nat where "MQTT_SHIFT = 14"

definition authorization_data :: "string \<Rightarrow> string" where
  "authorization_data buf = takeWhile (\<lambda>c. c \<noteq> CHR '' '') (c_str (drop MQTT_SHIFT buf))"

fun find_address :: "string \<Rightarrow> string list \<Rightarrow> string list \<Rightarrow> string list \<Rightarrow> (string \<times> string) option res" where
  "find_address worker_id [] js ks = Ok None"
| "find_address worker_id (i # is) js ks =
     (if i = worker_id then
        (case (js, ks) of (j # _, k # _) \<Rightarrow> Ok (Some (j, k)) | _ \<Rightarrow> Undef)
      else find_address worker_id is (tl js) (tl ks))"

definition nr_authorization ::
  "string list \<Rightarrow> string list smap \<Rightarrow> string list smap \<Rightarrow> nr \<Rightarrow> unit res \<times> nr" where
  "nr_authorization ids lift_blocks worker_lu s =
     (let d = authorization_data (nr_buf_recive_first s);
          go = (\<lambda>worker_id s.
            (case bind_res (smap_at worker_lu ''WorkerLuId'') (\<lambda>is.
                  bind_res (smap_at worker_lu ''WorkerLuAdd'') (\<lambda>js.
                  bind_res (smap_at worker_lu ''WorkerLuPort'') (\<lambda>ks.
                  find_address worker_id is js ks))) of
               Undef \<Rightarrow> (Undef, s)
             | Ok (Some (ip, port)) \<Rightarrow>
                 nr_connect (s\<lparr>nr_worker_ip := ip, nr_worker_port := port, nr_its_connect := False\<rparr>)
             | _ \<Rightarrow> nr_connect (s\<lparr>nr_its_connect := False\<rparr>)))
      in if take 7 d \<noteq> ''LKDS_LU'' then (Ok (), nr_stop s)
         else case bind_res (smap_at lift_blocks ''Descriptor'') (\<lambda>is.
                   bind_res (smap_at lift_blocks ''WorkerLuId'') (\<lambda>js.
                   bind_res (smap_at lift_blocks ''WorkerLuSecId'') (\<lambda>ks.
                   find_lift (quoted (drop 7 d)) ids is js ks))) of
                Undef \<Rightarrow> (Undef, s)
              | Throw e \<Rightarrow> go [] s
              | Ok None \<Rightarrow> (Ok (), nr_stop s)
              | Ok (Some worker_id) \<Rightarrow> go worker_id s)"

definition nr_reciveCommandFirst ::
  "string list \<Rightarrow> string list smap \<Rightarrow> string list smap \<Rightarrow> bool \<Rightarrow> string \<Rightarrow> nr \<Rightarrow> unit res \<times> nr" where
  "nr_reciveCommandFirst ids lift_blocks worker_lu err data s =
     (if err then (Ok (), nr_stop s)
      else
        (let s1 = s\<lparr>nr_buf_recive_first := data\<rparr> in
         if nr_its_connect s1 then
           (if ids \<noteq> [] then nr_authorization ids lift_blocks worker_lu s1 else (Ok (), s1))
         else
           (let b = c_str data
            in (Ok (), nr_do [NR_send SECOND b, NR_receive FIRST]
                         (s1\<lparr>nr_buf_send_second := b, nr_buf_recive_first := []\<rparr>)))))"

definition nr_reciveCommandSecond :: "bool \<Rightarrow> string \<Rightarrow> nr \<Rightarrow> nr" where
  "nr_reciveCommandSecond err data s =
     (if err then nr_stop s
      else
        (let b = c_str data
         in nr_do [NR_send FIRST b, NR_receive SECOND]
              (s\<lparr>nr_buf_send_first := b, nr_buf_recive_second := []\<rparr>)))"

section \<open>The acceptor\<close>

text \<open>The kill timer looks for a dead session and only shortens its period: nothing is erased.\<close>

definition nr_killSession :: "nr list \<Rightarrow> nr list \<times> nat" where
  "nr_killSession sessions =
     (sessions, if \<exists>s \<in> set sessions. \<not> nr_live s then 1 else 30)"

definition nr_server_stop :: "nr list \<Rightarrow> nr list" where
  "nr_server_stop sessions = map nr_stop sessions"

definition nr_server_accept :: "bool \<Rightarrow> nr list \<Rightarrow> nr list \<times> nat" where
  "nr_server_accept err sessions = (sessions @ [nr_start nr_new], if err then 2 else 1)"

section \<open>Lemmas\<close>

lemma find_worker_session_iff:
  "find_worker_session ids j k = Undef \<longleftrightarrow> j \<notin> set ids \<and> k \<notin> set ids"
  by (induction ids) auto

lemma find_worker_session_Ok:
  "find_worker_session ids j k = Ok w \<Longrightarrow> w \<in> set ids \<and> (w = j \<or> w = k)"
  by (induction ids) (auto split: if_splits)

text \<open>The relay hands over the bytes in front of the first zero byte, and only those.\<close>

lemma relay_first:
  assumes "\<not> nr_its_connect s"
  shows "nr_acts (snd (nr_reciveCommandFirst ids lb wl False data s)) =
     nr_acts s @ [NR_send SECOND (c_str data), NR_receive FIRST]"
  using assms by (simp add: nr_reciveCommandFirst_def nr_do_def Let_def)

end
