(* ===== verification/SqTokens.thy ===== *)
theory SqTokens
  imports Main
begin

text \<open>
  The terminal symbols of SQLite's grammar (the \<open>TK_\<close> numbers of \<open>parse.h\<close>), its nonterminals
  (numbered on, under the names of \<open>yyTokenName\<close>), and the control numbers of the generated
  parser. The section \<open>SQLite\<close> theories follow the amalgamation \<open>sqlite3.c\<close>.
\<close>

named_theorems symbol_defs \<open>the numbers of the grammar symbols\<close>

section \<open>Terminals\<close>

definition TK_SEMI :: nat where [symbol_defs]: "TK_SEMI = 1"
definition TK_EXPLAIN :: nat where [symbol_defs]: "TK_EXPLAIN = 2"
definition TK_QUERY :: nat where [symbol_defs]: "TK_QUERY = 3"
definition TK_PLAN :: nat where [symbol_defs]: "TK_PLAN = 4"
definition TK_BEGIN :: nat where [symbol_defs]: "TK_BEGIN = 5"
definition TK_TRANSACTION :: nat where [symbol_defs]: "TK_TRANSACTION = 6"
definition TK_DEFERRED :: nat where [symbol_defs]: "TK_DEFERRED = 7"
definition TK_IMMEDIATE :: nat where [symbol_defs]: "TK_IMMEDIATE = 8"
definition TK_EXCLUSIVE :: nat where [symbol_defs]: "TK_EXCLUSIVE = 9"
definition TK_COMMIT :: nat where [symbol_defs]: "TK_COMMIT = 10"
definition TK_END :: nat where [symbol_defs]: "TK_END = 11"
definition TK_ROLLBACK :: nat where [symbol_defs]: "TK_ROLLBACK = 12"
definition TK_SAVEPOINT :: nat where [symbol_defs]: "TK_SAVEPOINT = 13"
definition TK_RELEASE :: nat where [symbol_defs]: "TK_RELEASE = 14"
definition TK_TO :: nat where [symbol_defs]: "TK_TO = 15"
definition TK_TABLE :: nat where [symbol_defs]: "TK_TABLE = 16"
definition TK_CREATE :: nat where [symbol_defs]: "TK_CREATE = 17"
definition TK_IF :: nat where [symbol_defs]: "TK_IF = 18"
definition TK_NOT :: nat where [symbol_defs]: "TK_NOT = 19"
definition TK_EXISTS :: nat where [symbol_defs]: "TK_EXISTS = 20"
definition TK_TEMP :: nat where [symbol_defs]: "TK_TEMP = 21"
definition TK_LP :: nat where [symbol_defs]: "TK_LP = 22"
definition TK_RP :: nat where [symbol_defs]: "TK_RP = 23"
definition TK_AS :: nat where [symbol_defs]: "TK_AS = 24"
definition TK_COMMA :: nat where [symbol_defs]: "TK_COMMA = 25"
definition TK_WITHOUT :: nat where [symbol_defs]: "TK_WITHOUT = 26"
definition TK_ABORT :: nat where [symbol_defs]: "TK_ABORT = 27"
definition TK_ACTION :: nat where [symbol_defs]: "TK_ACTION = 28"
definition TK_AFTER :: nat where [symbol_defs]: "TK_AFTER = 29"
definition TK_ANALYZE :: nat where [symbol_defs]: "TK_ANALYZE = 30"
definition TK_ASC :: nat where [symbol_defs]: "TK_ASC = 31"
definition TK_ATTACH :: nat where [symbol_defs]: "TK_ATTACH = 32"
definition TK_BEFORE :: nat where [symbol_defs]: "TK_BEFORE = 33"
definition TK_BY :: nat where [symbol_defs]: "TK_BY = 34"
definition TK_CASCADE :: nat where [symbol_defs]: "TK_CASCADE = 35"
definition TK_CAST :: nat where [symbol_defs]: "TK_CAST = 36"
definition TK_CONFLICT :: nat where [symbol_defs]: "TK_CONFLICT = 37"
definition TK_DATABASE :: nat where [symbol_defs]: "TK_DATABASE = 38"
definition TK_DESC :: nat where [symbol_defs]: "TK_DESC = 39"
definition TK_DETACH :: nat where [symbol_defs]: "TK_DETACH = 40"
definition TK_EACH :: nat where [symbol_defs]: "TK_EACH = 41"
definition TK_FAIL :: nat where [symbol_defs]: "TK_FAIL = 42"
definition TK_OR :: nat where [symbol_defs]: "TK_OR = 43"
definition TK_AND :: nat where [symbol_defs]: "TK_AND = 44"
definition TK_IS :: nat where [symbol_defs]: "TK_IS = 45"
definition TK_MATCH :: nat where [symbol_defs]: "TK_MATCH = 46"
definition TK_LIKE_KW :: nat where [symbol_defs]: "TK_LIKE_KW = 47"
definition TK_BETWEEN :: nat where [symbol_defs]: "TK_BETWEEN = 48"
definition TK_IN :: nat where [symbol_defs]: "TK_IN = 49"
definition TK_ISNULL :: nat where [symbol_defs]: "TK_ISNULL = 50"
definition TK_NOTNULL :: nat where [symbol_defs]: "TK_NOTNULL = 51"
definition TK_NE :: nat where [symbol_defs]: "TK_NE = 52"
definition TK_EQ :: nat where [symbol_defs]: "TK_EQ = 53"
definition TK_GT :: nat where [symbol_defs]: "TK_GT = 54"
definition TK_LE :: nat where [symbol_defs]: "TK_LE = 55"
definition TK_LT :: nat where [symbol_defs]: "TK_LT = 56"
definition TK_GE :: nat where [symbol_defs]: "TK_GE = 57"
definition TK_ESCAPE :: nat where [symbol_defs]: "TK_ESCAPE = 58"
definition TK_ID :: nat where [symbol_defs]: "TK_ID = 59"
definition TK_COLUMNKW :: nat where [symbol_defs]: "TK_COLUMNKW = 60"
definition TK_DO :: nat where [symbol_defs]: "TK_DO = 61"
definition TK_FOR :: nat where [symbol_defs]: "TK_FOR = 62"
definition TK_IGNORE :: nat where [symbol_defs]: "TK_IGNORE = 63"
definition TK_INITIALLY :: nat where [symbol_defs]: "TK_INITIALLY = 64"
definition TK_INSTEAD :: nat where [symbol_defs]: "TK_INSTEAD = 65"
definition TK_NO :: nat where [symbol_defs]: "TK_NO = 66"
definition TK_KEY :: nat where [symbol_defs]: "TK_KEY = 67"
definition TK_OF :: nat where [symbol_defs]: "TK_OF = 68"
definition TK_OFFSET :: nat where [symbol_defs]: "TK_OFFSET = 69"
definition TK_PRAGMA :: nat where [symbol_defs]: "TK_PRAGMA = 70"
definition TK_RAISE :: nat where [symbol_defs]: "TK_RAISE = 71"
definition TK_RECURSIVE :: nat where [symbol_defs]: "TK_RECURSIVE = 72"
definition TK_REPLACE :: nat where [symbol_defs]: "TK_REPLACE = 73"
definition TK_RESTRICT :: nat where [symbol_defs]: "TK_RESTRICT = 74"
definition TK_ROW :: nat where [symbol_defs]: "TK_ROW = 75"
definition TK_ROWS :: nat where [symbol_defs]: "TK_ROWS = 76"
definition TK_TRIGGER :: nat where [symbol_defs]: "TK_TRIGGER = 77"
definition TK_VACUUM :: nat where [symbol_defs]: "TK_VACUUM = 78"
definition TK_VIEW :: nat where [symbol_defs]: "TK_VIEW = 79"
definition TK_VIRTUAL :: nat where [symbol_defs]: "TK_VIRTUAL = 80"
definition TK_WITH :: nat where [symbol_defs]: "TK_WITH = 81"
definition TK_NULLS :: nat where [symbol_defs]: "TK_NULLS = 82"
definition TK_FIRST :: nat where [symbol_defs]: "TK_FIRST = 83"
definition TK_LAST :: nat where [symbol_defs]: "TK_LAST = 84"
definition TK_CURRENT :: nat where [symbol_defs]: "TK_CURRENT = 85"
definition TK_FOLLOWING :: nat where [symbol_defs]: "TK_FOLLOWING = 86"
definition TK_PARTITION :: nat where [symbol_defs]: "TK_PARTITION = 87"
definition TK_PRECEDING :: nat where [symbol_defs]: "TK_PRECEDING = 88"
definition TK_RANGE :: nat where [symbol_defs]: "TK_RANGE = 89"
definition TK_UNBOUNDED :: nat where [symbol_defs]: "TK_UNBOUNDED = 90"
definition TK_EXCLUDE :: nat where [symbol_defs]: "TK_EXCLUDE = 91"
definition TK_GROUPS :: nat where [symbol_defs]: "TK_GROUPS = 92"
definition TK_OTHERS :: nat where [symbol_defs]: "TK_OTHERS = 93"
definition TK_TIES :: nat where [symbol_defs]: "TK_TIES = 94"
definition TK_GENERATED :: nat where [symbol_defs]: "TK_GENERATED = 95"
definition TK_ALWAYS :: nat where [symbol_defs]: "TK_ALWAYS = 96"
definition TK_MATERIALIZED :: nat where [symbol_defs]: "TK_MATERIALIZED = 97"
definition TK_REINDEX :: nat where [symbol_defs]: "TK_REINDEX = 98"
definition TK_RENAME :: nat where [symbol_defs]: "TK_RENAME = 99"
definition TK_CTIME_KW :: nat where [symbol_defs]: "TK_CTIME_KW = 100"
definition TK_ANY :: nat where [symbol_defs]: "TK_ANY = 101"
definition TK_BITAND :: nat where [symbol_defs]: "TK_BITAND = 102"
definition TK_BITOR :: nat where [symbol_defs]: "TK_BITOR = 103"
definition TK_LSHIFT :: nat where [symbol_defs]: "TK_LSHIFT = 104"
definition TK_RSHIFT :: nat where [symbol_defs]: "TK_RSHIFT = 105"
definition TK_PLUS :: nat where [symbol_defs]: "TK_PLUS = 106"
definition TK_MINUS :: nat where [symbol_defs]: "TK_MINUS = 107"
definition TK_STAR :: nat where [symbol_defs]: "TK_STAR = 108"
definition TK_SLASH :: nat where [symbol_defs]: "TK_SLASH = 109"
definition TK_REM :: nat where [symbol_defs]: "TK_REM = 110"
definition TK_CONCAT :: nat where [symbol_defs]: "TK_CONCAT = 111"
definition TK_PTR :: nat where [symbol_defs]: "TK_PTR = 112"
definition TK_COLLATE :: nat where [symbol_defs]: "TK_COLLATE = 113"
definition TK_BITNOT :: nat where [symbol_defs]: "TK_BITNOT = 114"
definition TK_ON :: nat where [symbol_defs]: "TK_ON = 115"
definition TK_INDEXED :: nat where [symbol_defs]: "TK_INDEXED = 116"
definition TK_STRING :: nat where [symbol_defs]: "TK_STRING = 117"
definition TK_JOIN_KW :: nat where [symbol_defs]: "TK_JOIN_KW = 118"
definition TK_CONSTRAINT :: nat where [symbol_defs]: "TK_CONSTRAINT = 119"
definition TK_DEFAULT :: nat where [symbol_defs]: "TK_DEFAULT = 120"
definition TK_NULL :: nat where [symbol_defs]: "TK_NULL = 121"
definition TK_PRIMARY :: nat where [symbol_defs]: "TK_PRIMARY = 122"
definition TK_UNIQUE :: nat where [symbol_defs]: "TK_UNIQUE = 123"
definition TK_CHECK :: nat where [symbol_defs]: "TK_CHECK = 124"
definition TK_REFERENCES :: nat where [symbol_defs]: "TK_REFERENCES = 125"
definition TK_AUTOINCR :: nat where [symbol_defs]: "TK_AUTOINCR = 126"
definition TK_INSERT :: nat where [symbol_defs]: "TK_INSERT = 127"
definition TK_DELETE :: nat where [symbol_defs]: "TK_DELETE = 128"
definition TK_UPDATE :: nat where [symbol_defs]: "TK_UPDATE = 129"
definition TK_SET :: nat where [symbol_defs]: "TK_SET = 130"
definition TK_DEFERRABLE :: nat where [symbol_defs]: "TK_DEFERRABLE = 131"
definition TK_FOREIGN :: nat where [symbol_defs]: "TK_FOREIGN = 132"
definition TK_DROP :: nat where [symbol_defs]: "TK_DROP = 133"
definition TK_UNION :: nat where [symbol_defs]: "TK_UNION = 134"
definition TK_ALL :: nat where [symbol_defs]: "TK_ALL = 135"
definition TK_EXCEPT :: nat where [symbol_defs]: "TK_EXCEPT = 136"
definition TK_INTERSECT :: nat where [symbol_defs]: "TK_INTERSECT = 137"
definition TK_SELECT :: nat where [symbol_defs]: "TK_SELECT = 138"
definition TK_VALUES :: nat where [symbol_defs]: "TK_VALUES = 139"
definition TK_DISTINCT :: nat where [symbol_defs]: "TK_DISTINCT = 140"
definition TK_DOT :: nat where [symbol_defs]: "TK_DOT = 141"
definition TK_FROM :: nat where [symbol_defs]: "TK_FROM = 142"
definition TK_JOIN :: nat where [symbol_defs]: "TK_JOIN = 143"
definition TK_USING :: nat where [symbol_defs]: "TK_USING = 144"
definition TK_ORDER :: nat where [symbol_defs]: "TK_ORDER = 145"
definition TK_GROUP :: nat where [symbol_defs]: "TK_GROUP = 146"
definition TK_HAVING :: nat where [symbol_defs]: "TK_HAVING = 147"
definition TK_LIMIT :: nat where [symbol_defs]: "TK_LIMIT = 148"
definition TK_WHERE :: nat where [symbol_defs]: "TK_WHERE = 149"
definition TK_RETURNING :: nat where [symbol_defs]: "TK_RETURNING = 150"
definition TK_INTO :: nat where [symbol_defs]: "TK_INTO = 151"
definition TK_NOTHING :: nat where [symbol_defs]: "TK_NOTHING = 152"
definition TK_FLOAT :: nat where [symbol_defs]: "TK_FLOAT = 153"
definition TK_BLOB :: nat where [symbol_defs]: "TK_BLOB = 154"
definition TK_INTEGER :: nat where [symbol_defs]: "TK_INTEGER = 155"
definition TK_VARIABLE :: nat where [symbol_defs]: "TK_VARIABLE = 156"
definition TK_CASE :: nat where [symbol_defs]: "TK_CASE = 157"
definition TK_WHEN :: nat where [symbol_defs]: "TK_WHEN = 158"
definition TK_THEN :: nat where [symbol_defs]: "TK_THEN = 159"
definition TK_ELSE :: nat where [symbol_defs]: "TK_ELSE = 160"
definition TK_INDEX :: nat where [symbol_defs]: "TK_INDEX = 161"
definition TK_ALTER :: nat where [symbol_defs]: "TK_ALTER = 162"
definition TK_ADD :: nat where [symbol_defs]: "TK_ADD = 163"
definition TK_WINDOW :: nat where [symbol_defs]: "TK_WINDOW = 164"
definition TK_OVER :: nat where [symbol_defs]: "TK_OVER = 165"
definition TK_FILTER :: nat where [symbol_defs]: "TK_FILTER = 166"
definition TK_COLUMN :: nat where [symbol_defs]: "TK_COLUMN = 167"
definition TK_AGG_FUNCTION :: nat where [symbol_defs]: "TK_AGG_FUNCTION = 168"
definition TK_AGG_COLUMN :: nat where [symbol_defs]: "TK_AGG_COLUMN = 169"
definition TK_TRUEFALSE :: nat where [symbol_defs]: "TK_TRUEFALSE = 170"
definition TK_ISNOT :: nat where [symbol_defs]: "TK_ISNOT = 171"
definition TK_FUNCTION :: nat where [symbol_defs]: "TK_FUNCTION = 172"
definition TK_UMINUS :: nat where [symbol_defs]: "TK_UMINUS = 173"
definition TK_UPLUS :: nat where [symbol_defs]: "TK_UPLUS = 174"
definition TK_TRUTH :: nat where [symbol_defs]: "TK_TRUTH = 175"
definition TK_REGISTER :: nat where [symbol_defs]: "TK_REGISTER = 176"
definition TK_VECTOR :: nat where [symbol_defs]: "TK_VECTOR = 177"
definition TK_SELECT_COLUMN :: nat where [symbol_defs]: "TK_SELECT_COLUMN = 178"
definition TK_IF_NULL_ROW :: nat where [symbol_defs]: "TK_IF_NULL_ROW = 179"
definition TK_ASTERISK :: nat where [symbol_defs]: "TK_ASTERISK = 180"
definition TK_SPAN :: nat where [symbol_defs]: "TK_SPAN = 181"
definition TK_ERROR :: nat where [symbol_defs]: "TK_ERROR = 182"
definition TK_SPACE :: nat where [symbol_defs]: "TK_SPACE = 183"
definition TK_ILLEGAL :: nat where [symbol_defs]: "TK_ILLEGAL = 184"

section \<open>Nonterminals\<close>

definition NT_input :: nat where [symbol_defs]: "NT_input = 185"
definition NT_cmdlist :: nat where [symbol_defs]: "NT_cmdlist = 186"
definition NT_ecmd :: nat where [symbol_defs]: "NT_ecmd = 187"
definition NT_cmdx :: nat where [symbol_defs]: "NT_cmdx = 188"
definition NT_explain :: nat where [symbol_defs]: "NT_explain = 189"
definition NT_cmd :: nat where [symbol_defs]: "NT_cmd = 190"
definition NT_transtype :: nat where [symbol_defs]: "NT_transtype = 191"
definition NT_trans_opt :: nat where [symbol_defs]: "NT_trans_opt = 192"
definition NT_nm :: nat where [symbol_defs]: "NT_nm = 193"
definition NT_savepoint_opt :: nat where [symbol_defs]: "NT_savepoint_opt = 194"
definition NT_create_table :: nat where [symbol_defs]: "NT_create_table = 195"
definition NT_create_table_args :: nat where [symbol_defs]: "NT_create_table_args = 196"
definition NT_createkw :: nat where [symbol_defs]: "NT_createkw = 197"
definition NT_temp :: nat where [symbol_defs]: "NT_temp = 198"
definition NT_ifnotexists :: nat where [symbol_defs]: "NT_ifnotexists = 199"
definition NT_dbnm :: nat where [symbol_defs]: "NT_dbnm = 200"
definition NT_columnlist :: nat where [symbol_defs]: "NT_columnlist = 201"
definition NT_conslist_opt :: nat where [symbol_defs]: "NT_conslist_opt = 202"
definition NT_table_option_set :: nat where [symbol_defs]: "NT_table_option_set = 203"
definition NT_select :: nat where [symbol_defs]: "NT_select = 204"
definition NT_table_option :: nat where [symbol_defs]: "NT_table_option = 205"
definition NT_columnname :: nat where [symbol_defs]: "NT_columnname = 206"
definition NT_carglist :: nat where [symbol_defs]: "NT_carglist = 207"
definition NT_typetoken :: nat where [symbol_defs]: "NT_typetoken = 208"
definition NT_typename :: nat where [symbol_defs]: "NT_typename = 209"
definition NT_signed :: nat where [symbol_defs]: "NT_signed = 210"
definition NT_plus_num :: nat where [symbol_defs]: "NT_plus_num = 211"
definition NT_minus_num :: nat where [symbol_defs]: "NT_minus_num = 212"
definition NT_scanpt :: nat where [symbol_defs]: "NT_scanpt = 213"
definition NT_scantok :: nat where [symbol_defs]: "NT_scantok = 214"
definition NT_ccons :: nat where [symbol_defs]: "NT_ccons = 215"
definition NT_term :: nat where [symbol_defs]: "NT_term = 216"
definition NT_expr :: nat where [symbol_defs]: "NT_expr = 217"
definition NT_onconf :: nat where [symbol_defs]: "NT_onconf = 218"
definition NT_sortorder :: nat where [symbol_defs]: "NT_sortorder = 219"
definition NT_autoinc :: nat where [symbol_defs]: "NT_autoinc = 220"
definition NT_eidlist_opt :: nat where [symbol_defs]: "NT_eidlist_opt = 221"
definition NT_refargs :: nat where [symbol_defs]: "NT_refargs = 222"
definition NT_defer_subclause :: nat where [symbol_defs]: "NT_defer_subclause = 223"
definition NT_generated :: nat where [symbol_defs]: "NT_generated = 224"
definition NT_refarg :: nat where [symbol_defs]: "NT_refarg = 225"
definition NT_refact :: nat where [symbol_defs]: "NT_refact = 226"
definition NT_init_deferred_pred_opt :: nat where [symbol_defs]: "NT_init_deferred_pred_opt = 227"
definition NT_conslist :: nat where [symbol_defs]: "NT_conslist = 228"
definition NT_tconscomma :: nat where [symbol_defs]: "NT_tconscomma = 229"
definition NT_tcons :: nat where [symbol_defs]: "NT_tcons = 230"
definition NT_sortlist :: nat where [symbol_defs]: "NT_sortlist = 231"
definition NT_eidlist :: nat where [symbol_defs]: "NT_eidlist = 232"
definition NT_defer_subclause_opt :: nat where [symbol_defs]: "NT_defer_subclause_opt = 233"
definition NT_orconf :: nat where [symbol_defs]: "NT_orconf = 234"
definition NT_resolvetype :: nat where [symbol_defs]: "NT_resolvetype = 235"
definition NT_raisetype :: nat where [symbol_defs]: "NT_raisetype = 236"
definition NT_ifexists :: nat where [symbol_defs]: "NT_ifexists = 237"
definition NT_fullname :: nat where [symbol_defs]: "NT_fullname = 238"
definition NT_selectnowith :: nat where [symbol_defs]: "NT_selectnowith = 239"
definition NT_oneselect :: nat where [symbol_defs]: "NT_oneselect = 240"
definition NT_wqlist :: nat where [symbol_defs]: "NT_wqlist = 241"
definition NT_multiselect_op :: nat where [symbol_defs]: "NT_multiselect_op = 242"
definition NT_distinct :: nat where [symbol_defs]: "NT_distinct = 243"
definition NT_selcollist :: nat where [symbol_defs]: "NT_selcollist = 244"
definition NT_from :: nat where [symbol_defs]: "NT_from = 245"
definition NT_where_opt :: nat where [symbol_defs]: "NT_where_opt = 246"
definition NT_groupby_opt :: nat where [symbol_defs]: "NT_groupby_opt = 247"
definition NT_having_opt :: nat where [symbol_defs]: "NT_having_opt = 248"
definition NT_orderby_opt :: nat where [symbol_defs]: "NT_orderby_opt = 249"
definition NT_limit_opt :: nat where [symbol_defs]: "NT_limit_opt = 250"
definition NT_window_clause :: nat where [symbol_defs]: "NT_window_clause = 251"
definition NT_values :: nat where [symbol_defs]: "NT_values = 252"
definition NT_nexprlist :: nat where [symbol_defs]: "NT_nexprlist = 253"
definition NT_sclp :: nat where [symbol_defs]: "NT_sclp = 254"
definition NT_as :: nat where [symbol_defs]: "NT_as = 255"
definition NT_seltablist :: nat where [symbol_defs]: "NT_seltablist = 256"
definition NT_stl_prefix :: nat where [symbol_defs]: "NT_stl_prefix = 257"
definition NT_joinop :: nat where [symbol_defs]: "NT_joinop = 258"
definition NT_on_using :: nat where [symbol_defs]: "NT_on_using = 259"
definition NT_indexed_by :: nat where [symbol_defs]: "NT_indexed_by = 260"
definition NT_exprlist :: nat where [symbol_defs]: "NT_exprlist = 261"
definition NT_xfullname :: nat where [symbol_defs]: "NT_xfullname = 262"
definition NT_idlist :: nat where [symbol_defs]: "NT_idlist = 263"
definition NT_indexed_opt :: nat where [symbol_defs]: "NT_indexed_opt = 264"
definition NT_nulls :: nat where [symbol_defs]: "NT_nulls = 265"
definition NT_with :: nat where [symbol_defs]: "NT_with = 266"
definition NT_where_opt_ret :: nat where [symbol_defs]: "NT_where_opt_ret = 267"
definition NT_setlist :: nat where [symbol_defs]: "NT_setlist = 268"
definition NT_insert_cmd :: nat where [symbol_defs]: "NT_insert_cmd = 269"
definition NT_idlist_opt :: nat where [symbol_defs]: "NT_idlist_opt = 270"
definition NT_upsert :: nat where [symbol_defs]: "NT_upsert = 271"
definition NT_returning :: nat where [symbol_defs]: "NT_returning = 272"
definition NT_filter_over :: nat where [symbol_defs]: "NT_filter_over = 273"
definition NT_likeop :: nat where [symbol_defs]: "NT_likeop = 274"
definition NT_between_op :: nat where [symbol_defs]: "NT_between_op = 275"
definition NT_in_op :: nat where [symbol_defs]: "NT_in_op = 276"
definition NT_paren_exprlist :: nat where [symbol_defs]: "NT_paren_exprlist = 277"
definition NT_case_operand :: nat where [symbol_defs]: "NT_case_operand = 278"
definition NT_case_exprlist :: nat where [symbol_defs]: "NT_case_exprlist = 279"
definition NT_case_else :: nat where [symbol_defs]: "NT_case_else = 280"
definition NT_uniqueflag :: nat where [symbol_defs]: "NT_uniqueflag = 281"
definition NT_collate :: nat where [symbol_defs]: "NT_collate = 282"
definition NT_vinto :: nat where [symbol_defs]: "NT_vinto = 283"
definition NT_nmnum :: nat where [symbol_defs]: "NT_nmnum = 284"
definition NT_trigger_decl :: nat where [symbol_defs]: "NT_trigger_decl = 285"
definition NT_trigger_cmd_list :: nat where [symbol_defs]: "NT_trigger_cmd_list = 286"
definition NT_trigger_time :: nat where [symbol_defs]: "NT_trigger_time = 287"
definition NT_trigger_event :: nat where [symbol_defs]: "NT_trigger_event = 288"
definition NT_foreach_clause :: nat where [symbol_defs]: "NT_foreach_clause = 289"
definition NT_when_clause :: nat where [symbol_defs]: "NT_when_clause = 290"
definition NT_trigger_cmd :: nat where [symbol_defs]: "NT_trigger_cmd = 291"
definition NT_trnm :: nat where [symbol_defs]: "NT_trnm = 292"
definition NT_tridxby :: nat where [symbol_defs]: "NT_tridxby = 293"
definition NT_database_kw_opt :: nat where [symbol_defs]: "NT_database_kw_opt = 294"
definition NT_key_opt :: nat where [symbol_defs]: "NT_key_opt = 295"
definition NT_add_column_fullname :: nat where [symbol_defs]: "NT_add_column_fullname = 296"
definition NT_kwcolumn_opt :: nat where [symbol_defs]: "NT_kwcolumn_opt = 297"
definition NT_create_vtab :: nat where [symbol_defs]: "NT_create_vtab = 298"
definition NT_vtabarglist :: nat where [symbol_defs]: "NT_vtabarglist = 299"
definition NT_vtabarg :: nat where [symbol_defs]: "NT_vtabarg = 300"
definition NT_vtabargtoken :: nat where [symbol_defs]: "NT_vtabargtoken = 301"
definition NT_lp :: nat where [symbol_defs]: "NT_lp = 302"
definition NT_anylist :: nat where [symbol_defs]: "NT_anylist = 303"
definition NT_wqitem :: nat where [symbol_defs]: "NT_wqitem = 304"
definition NT_wqas :: nat where [symbol_defs]: "NT_wqas = 305"
definition NT_windowdefn_list :: nat where [symbol_defs]: "NT_windowdefn_list = 306"
definition NT_windowdefn :: nat where [symbol_defs]: "NT_windowdefn = 307"
definition NT_window :: nat where [symbol_defs]: "NT_window = 308"
definition NT_frame_opt :: nat where [symbol_defs]: "NT_frame_opt = 309"
definition NT_part_opt :: nat where [symbol_defs]: "NT_part_opt = 310"
definition NT_filter_clause :: nat where [symbol_defs]: "NT_filter_clause = 311"
definition NT_over_clause :: nat where [symbol_defs]: "NT_over_clause = 312"
definition NT_range_or_rows :: nat where [symbol_defs]: "NT_range_or_rows = 313"
definition NT_frame_bound :: nat where [symbol_defs]: "NT_frame_bound = 314"
definition NT_frame_bound_s :: nat where [symbol_defs]: "NT_frame_bound_s = 315"
definition NT_frame_bound_e :: nat where [symbol_defs]: "NT_frame_bound_e = 316"
definition NT_frame_exclude_opt :: nat where [symbol_defs]: "NT_frame_exclude_opt = 317"
definition NT_frame_exclude :: nat where [symbol_defs]: "NT_frame_exclude = 318"

section \<open>The control numbers\<close>

named_theorems control_defs \<open>the control numbers of the parser\<close>

definition YYNOCODE :: nat where [control_defs]: "YYNOCODE = 319"
definition YYWILDCARD :: nat where [control_defs]: "YYWILDCARD = 101"
definition YYSTACKDEPTH :: nat where [control_defs]: "YYSTACKDEPTH = 100"
definition YYNSTATE :: nat where [control_defs]: "YYNSTATE = 575"
definition YYNRULE :: nat where [control_defs]: "YYNRULE = 403"
definition YYNTOKEN :: nat where [control_defs]: "YYNTOKEN = 185"
definition YY_MAX_SHIFT :: nat where [control_defs]: "YY_MAX_SHIFT = 574"
definition YY_MIN_SHIFTREDUCE :: nat where [control_defs]: "YY_MIN_SHIFTREDUCE = 833"
definition YY_MAX_SHIFTREDUCE :: nat where [control_defs]: "YY_MAX_SHIFTREDUCE = 1235"
definition YY_ERROR_ACTION :: nat where [control_defs]: "YY_ERROR_ACTION = 1236"
definition YY_ACCEPT_ACTION :: nat where [control_defs]: "YY_ACCEPT_ACTION = 1237"
definition YY_NO_ACTION :: nat where [control_defs]: "YY_NO_ACTION = 1238"
definition YY_MIN_REDUCE :: nat where [control_defs]: "YY_MIN_REDUCE = 1239"
definition YY_MAX_REDUCE :: nat where [control_defs]: "YY_MAX_REDUCE = 1641"
definition YY_ACTTAB_COUNT :: nat where [control_defs]: "YY_ACTTAB_COUNT = 2096"
definition YY_SHIFT_COUNT :: nat where [control_defs]: "YY_SHIFT_COUNT = 574"
definition YY_REDUCE_COUNT :: nat where [control_defs]: "YY_REDUCE_COUNT = 408"

end
