(* ===== verification/SqTables.thy ===== *)
theory SqTables
  imports SqTokens
begin

text \<open>
  The tables of the generated parser (\<open>parse.c\<close>): actions, lookaheads, offsets, defaults and
  fallback tokens, entry by entry as in the source, in pieces of a hundred. For every piece a
  lemma gives its entries by their position in the whole table.
\<close>

named_theorems table_defs \<open>the pieces of the tables\<close>

lemma window_nth:
  assumes "xs = p @ ys @ q" and "length p = k" and "k + length ys = m"
  shows "map ((!) xs) [k..<m] = ys"
proof -
  have "map ((!) xs) [k..<m] = map (\<lambda>i. xs ! (k + i)) [0..<length ys]"
    using assms(3) by (intro nth_equalityI) auto
  also have "\<dots> = map ((!) ys) [0..<length ys]"
    using assms(1,2) by (intro nth_equalityI) (auto simp: nth_append)
  finally show ?thesis by (simp add: map_nth)
qed

lemma upt_from_0: "2 \<le> n \<Longrightarrow> [0..<n] = 0 # 1 # [2..<n]"
  by (simp add: upt_conv_Cons numeral_2_eq_2)

section \<open>Actions\<close>

definition yy_action_0 :: "nat list" where [table_defs]:
  "yy_action_0 = [
   568, 208, 568, 118, 115, 229, 568, 118, 115, 229, 568, 1310, 377, 1289, 408, 562, 562,
   562, 568, 409, 378, 1310, 1272, 41, 41, 41, 41, 208, 1520, 71, 71, 969, 419, 41, 41, 491,
   303, 279, 303, 970, 397, 71, 71, 125, 126, 80, 1212, 1212, 1047, 1050, 1037, 1037, 123,
   123, 124, 124, 124, 124, 476, 409, 1237, 1, 1, 574, 2, 1241, 550, 118, 115, 229, 317,
   480, 146, 480, 524, 118, 115, 229, 529, 1323, 417, 523, 142, 125, 126, 80, 1212, 1212,
   1047, 1050, 1037, 1037, 123, 123, 124, 124, 124, 124, 118, 115]"

definition yy_action_100 :: "nat list" where [table_defs]:
  "yy_action_100 = [
   229, 327, 122, 122, 122, 122, 121, 121, 120, 120, 120, 119, 116, 444, 284, 284, 284, 284,
   442, 442, 442, 1561, 376, 1563, 1188, 375, 1159, 565, 1159, 565, 409, 1561, 537, 259,
   226, 444, 101, 145, 449, 316, 559, 240, 122, 122, 122, 122, 121, 121, 120, 120, 120, 119,
   116, 444, 125, 126, 80, 1212, 1212, 1047, 1050, 1037, 1037, 123, 123, 124, 124, 124, 124,
   142, 294, 1188, 339, 448, 120, 120, 120, 119, 116, 444, 127, 1188, 1189, 1188, 148, 441,
   440, 568, 119, 116, 444, 124, 124, 124, 124, 117, 122, 122, 122, 122]"

definition yy_action_200 :: "nat list" where [table_defs]:
  "yy_action_200 = [
   121, 121, 120, 120, 120, 119, 116, 444, 454, 113, 13, 13, 546, 122, 122, 122, 122, 121,
   121, 120, 120, 120, 119, 116, 444, 422, 316, 559, 1188, 1189, 1188, 149, 1220, 409, 1220,
   124, 124, 124, 124, 122, 122, 122, 122, 121, 121, 120, 120, 120, 119, 116, 444, 465, 342,
   1034, 1034, 1048, 1051, 125, 126, 80, 1212, 1212, 1047, 1050, 1037, 1037, 123, 123, 124,
   124, 124, 124, 1275, 522, 222, 1188, 568, 409, 224, 514, 175, 82, 83, 122, 122, 122, 122,
   121, 121, 120, 120, 120, 119, 116, 444, 1005, 16, 16, 1188, 133]"

definition yy_action_300 :: "nat list" where [table_defs]:
  "yy_action_300 = [
   133, 125, 126, 80, 1212, 1212, 1047, 1050, 1037, 1037, 123, 123, 124, 124, 124, 124, 122,
   122, 122, 122, 121, 121, 120, 120, 120, 119, 116, 444, 1038, 546, 1188, 373, 1188, 1189,
   1188, 252, 1429, 399, 504, 501, 500, 111, 560, 566, 4, 924, 924, 433, 499, 340, 460, 328,
   360, 394, 1233, 1188, 1189, 1188, 563, 568, 122, 122, 122, 122, 121, 121, 120, 120, 120,
   119, 116, 444, 284, 284, 369, 1574, 1600, 441, 440, 154, 409, 445, 71, 71, 1282, 565,
   1217, 1188, 1189, 1188, 85, 1219, 271, 557, 543, 515, 1555, 568, 98, 1218]"

definition yy_action_400 :: "nat list" where [table_defs]:
  "yy_action_400 = [
   6, 1274, 472, 142, 125, 126, 80, 1212, 1212, 1047, 1050, 1037, 1037, 123, 123, 124, 124,
   124, 124, 550, 13, 13, 1024, 507, 1220, 1188, 1220, 549, 109, 109, 222, 568, 1234, 175,
   568, 427, 110, 197, 445, 569, 445, 430, 1546, 1014, 325, 551, 1188, 270, 287, 368, 510,
   363, 509, 257, 71, 71, 543, 71, 71, 359, 316, 559, 1606, 122, 122, 122, 122, 121, 121,
   120, 120, 120, 119, 116, 444, 1014, 1014, 1016, 1017, 27, 284, 284, 1188, 1189, 1188,
   1154, 568, 1605, 409, 899, 190, 550, 356, 565, 550, 935, 533, 517, 1154, 516]"

definition yy_action_500 :: "nat list" where [table_defs]:
  "yy_action_500 = [
   413, 1154, 552, 1188, 1189, 1188, 568, 544, 1548, 51, 51, 214, 125, 126, 80, 1212, 1212,
   1047, 1050, 1037, 1037, 123, 123, 124, 124, 124, 124, 1188, 474, 135, 135, 409, 284, 284,
   1484, 505, 121, 121, 120, 120, 120, 119, 116, 444, 1005, 565, 518, 217, 541, 1555, 316,
   559, 142, 6, 532, 125, 126, 80, 1212, 1212, 1047, 1050, 1037, 1037, 123, 123, 124, 124,
   124, 124, 1549, 122, 122, 122, 122, 121, 121, 120, 120, 120, 119, 116, 444, 485, 1188,
   1189, 1188, 482, 281, 1263, 955, 252, 1188, 373, 504, 501, 500, 1188, 340, 570]"

definition yy_action_600 :: "nat list" where [table_defs]:
  "yy_action_600 = [
   1188, 570, 409, 292, 499, 955, 874, 191, 480, 316, 559, 384, 290, 380, 122, 122, 122,
   122, 121, 121, 120, 120, 120, 119, 116, 444, 125, 126, 80, 1212, 1212, 1047, 1050, 1037,
   1037, 123, 123, 124, 124, 124, 124, 409, 394, 1132, 1188, 867, 100, 284, 284, 1188, 1189,
   1188, 373, 1089, 1188, 1189, 1188, 1188, 1189, 1188, 565, 455, 32, 373, 233, 125, 126,
   80, 1212, 1212, 1047, 1050, 1037, 1037, 123, 123, 124, 124, 124, 124, 1428, 957, 568,
   228, 956, 122, 122, 122, 122, 121, 121, 120, 120, 120, 119, 116, 444, 1154, 228, 1188]"

definition yy_action_700 :: "nat list" where [table_defs]:
  "yy_action_700 = [
   157, 1188, 1189, 1188, 1547, 13, 13, 301, 955, 1228, 1154, 153, 409, 1154, 373, 1577,
   1172, 5, 369, 1574, 429, 1234, 3, 955, 122, 122, 122, 122, 121, 121, 120, 120, 120, 119,
   116, 444, 125, 126, 80, 1212, 1212, 1047, 1050, 1037, 1037, 123, 123, 124, 124, 124, 124,
   409, 208, 567, 1188, 1025, 1188, 1189, 1188, 1188, 388, 850, 155, 1546, 286, 402, 1094,
   1094, 488, 568, 465, 342, 1315, 1315, 1546, 125, 126, 80, 1212, 1212, 1047, 1050, 1037,
   1037, 123, 123, 124, 124, 124, 124, 129, 568, 13, 13, 374, 122, 122, 122, 122, 121]"

definition yy_action_800 :: "nat list" where [table_defs]:
  "yy_action_800 = [
   121, 120, 120, 120, 119, 116, 444, 302, 568, 453, 528, 1188, 1189, 1188, 13, 13, 1188,
   1189, 1188, 1293, 463, 1263, 409, 1313, 1313, 1546, 1010, 453, 452, 200, 299, 71, 71,
   1261, 122, 122, 122, 122, 121, 121, 120, 120, 120, 119, 116, 444, 125, 126, 80, 1212,
   1212, 1047, 1050, 1037, 1037, 123, 123, 124, 124, 124, 124, 409, 227, 1069, 1154, 284,
   284, 419, 312, 278, 278, 285, 285, 1415, 406, 405, 382, 1154, 565, 568, 1154, 1191, 565,
   1594, 565, 125, 126, 80, 1212, 1212, 1047, 1050, 1037, 1037, 123, 123, 124, 124, 124,
   124]"

definition yy_action_900 :: "nat list" where [table_defs]:
  "yy_action_900 = [
   453, 1476, 13, 13, 1530, 122, 122, 122, 122, 121, 121, 120, 120, 120, 119, 116, 444, 201,
   568, 354, 1580, 574, 2, 1241, 838, 839, 840, 1556, 317, 1207, 146, 6, 409, 255, 254, 253,
   206, 1323, 9, 1191, 262, 71, 71, 424, 122, 122, 122, 122, 121, 121, 120, 120, 120, 119,
   116, 444, 125, 126, 80, 1212, 1212, 1047, 1050, 1037, 1037, 123, 123, 124, 124, 124, 124,
   568, 284, 284, 568, 1208, 409, 573, 313, 1241, 349, 1292, 352, 419, 317, 565, 146, 491,
   525, 1637, 395, 371, 491, 1323, 70, 70, 1291, 71, 71, 240]"

definition yy_action_1000 :: "nat list" where [table_defs]:
  "yy_action_1000 = [
   1321, 104, 80, 1212, 1212, 1047, 1050, 1037, 1037, 123, 123, 124, 124, 124, 124, 122,
   122, 122, 122, 121, 121, 120, 120, 120, 119, 116, 444, 1110, 284, 284, 428, 448, 1519,
   1208, 439, 284, 284, 1483, 1348, 311, 474, 565, 1111, 969, 491, 491, 217, 1259, 565,
   1532, 568, 970, 207, 568, 1024, 240, 383, 1112, 519, 122, 122, 122, 122, 121, 121, 120,
   120, 120, 119, 116, 444, 1015, 107, 71, 71, 1014, 13, 13, 910, 568, 1489, 568, 284, 284,
   97, 526, 491, 448, 911, 1322, 1318, 545, 409, 284, 284, 565, 151, 209, 1489, 1491]"

definition yy_action_1100 :: "nat list" where [table_defs]:
  "yy_action_1100 = [
   262, 450, 55, 55, 56, 56, 565, 1014, 1014, 1016, 443, 332, 409, 527, 12, 295, 125, 126,
   80, 1212, 1212, 1047, 1050, 1037, 1037, 123, 123, 124, 124, 124, 124, 347, 409, 862,
   1528, 1208, 125, 126, 80, 1212, 1212, 1047, 1050, 1037, 1037, 123, 123, 124, 124, 124,
   124, 1133, 1635, 474, 1635, 371, 125, 114, 80, 1212, 1212, 1047, 1050, 1037, 1037, 123,
   123, 124, 124, 124, 124, 1489, 329, 474, 331, 122, 122, 122, 122, 121, 121, 120, 120,
   120, 119, 116, 444, 203, 1415, 568, 1290, 862, 464, 1208, 436, 122, 122, 122, 122, 121]"

definition yy_action_1200 :: "nat list" where [table_defs]:
  "yy_action_1200 = [
   121, 120, 120, 120, 119, 116, 444, 553, 1133, 1636, 539, 1636, 15, 15, 890, 122, 122,
   122, 122, 121, 121, 120, 120, 120, 119, 116, 444, 568, 298, 538, 1131, 1415, 1553, 1554,
   1327, 409, 6, 6, 1165, 1264, 415, 320, 284, 284, 1415, 508, 565, 525, 300, 457, 43, 43,
   568, 891, 12, 565, 330, 478, 425, 407, 126, 80, 1212, 1212, 1047, 1050, 1037, 1037, 123,
   123, 124, 124, 124, 124, 568, 57, 57, 288, 1188, 1415, 496, 458, 392, 392, 391, 273, 389,
   1131, 1552, 847, 1165, 407, 6, 568, 321, 1154, 470, 44, 44, 1551]"

definition yy_action_1300 :: "nat list" where [table_defs]:
  "yy_action_1300 = [
   1110, 426, 234, 6, 323, 256, 540, 256, 1154, 431, 568, 1154, 322, 17, 487, 1111, 58, 58,
   122, 122, 122, 122, 121, 121, 120, 120, 120, 119, 116, 444, 1112, 216, 481, 59, 59, 1188,
   1189, 1188, 111, 560, 324, 4, 236, 456, 526, 568, 237, 456, 568, 437, 168, 556, 420, 141,
   479, 563, 568, 293, 568, 1091, 568, 293, 568, 1091, 531, 568, 870, 8, 60, 60, 235, 61,
   61, 568, 414, 568, 414, 568, 445, 62, 62, 45, 45, 46, 46, 47, 47, 199, 49, 49, 557, 568,
   359, 568, 100, 486, 50, 50, 63, 63]"

definition yy_action_1400 :: "nat list" where [table_defs]:
  "yy_action_1400 = [
   64, 64, 561, 415, 535, 410, 568, 1024, 568, 534, 316, 559, 316, 559, 65, 65, 14, 14, 568,
   1024, 568, 512, 930, 870, 1015, 109, 109, 929, 1014, 66, 66, 131, 131, 110, 451, 445,
   569, 445, 416, 177, 1014, 132, 132, 67, 67, 568, 467, 568, 930, 471, 1360, 283, 226, 929,
   315, 1359, 407, 568, 459, 407, 1014, 1014, 1016, 239, 407, 86, 213, 1346, 52, 52, 68, 68,
   1014, 1014, 1016, 1017, 27, 1579, 1176, 447, 69, 69, 288, 97, 108, 1535, 106, 392, 392,
   391, 273, 389, 568, 877, 847, 881, 568, 111, 560, 466]"

definition yy_action_1500 :: "nat list" where [table_defs]:
  "yy_action_1500 = [
   4, 568, 152, 30, 38, 568, 1128, 234, 396, 323, 111, 560, 527, 4, 563, 53, 53, 322, 568,
   163, 163, 568, 337, 468, 164, 164, 333, 563, 76, 76, 568, 289, 1508, 568, 31, 1507, 568,
   445, 338, 483, 100, 54, 54, 344, 72, 72, 296, 236, 1076, 557, 445, 877, 1356, 134, 134,
   168, 73, 73, 141, 161, 161, 1568, 557, 535, 568, 319, 568, 348, 536, 1007, 473, 261, 261,
   889, 888, 235, 535, 568, 1024, 568, 475, 534, 261, 367, 109, 109, 521, 136, 136, 130,
   130, 1024, 110, 366, 445, 569, 445, 109, 109, 1014]"

definition yy_action_1600 :: "nat list" where [table_defs]:
  "yy_action_1600 = [
   162, 162, 156, 156, 568, 110, 1076, 445, 569, 445, 410, 351, 1014, 568, 353, 316, 559,
   568, 343, 568, 100, 497, 357, 258, 100, 896, 897, 140, 140, 355, 1306, 1014, 1014, 1016,
   1017, 27, 139, 139, 362, 451, 137, 137, 138, 138, 1014, 1014, 1016, 1017, 27, 1176, 447,
   568, 372, 288, 111, 560, 1018, 4, 392, 392, 391, 273, 389, 568, 1137, 847, 568, 1072,
   568, 258, 492, 563, 568, 211, 75, 75, 555, 960, 234, 261, 323, 111, 560, 927, 4, 113, 77,
   77, 322, 74, 74, 42, 42, 1369, 445, 48, 48, 1414, 563, 972]"

definition yy_action_1700 :: "nat list" where [table_defs]:
  "yy_action_1700 = [
   973, 1088, 1087, 1088, 1087, 860, 557, 150, 928, 1342, 113, 1354, 554, 1419, 1018, 1271,
   1262, 1250, 236, 1249, 1251, 445, 1587, 1339, 308, 276, 168, 309, 11, 141, 393, 310, 232,
   557, 1401, 1024, 335, 291, 1396, 219, 336, 109, 109, 934, 297, 1406, 235, 341, 477, 110,
   502, 445, 569, 445, 1389, 1405, 1014, 400, 1289, 365, 223, 1480, 1024, 1479, 1351, 1352,
   1350, 1349, 109, 109, 204, 1590, 1228, 558, 265, 218, 110, 205, 445, 569, 445, 410, 387,
   1014, 1527, 179, 316, 559, 1014, 1014, 1016, 1017, 27, 230, 1525, 1225, 79, 560, 85, 4]"

definition yy_action_1800 :: "nat list" where [table_defs]:
  "yy_action_1800 = [
   418, 215, 548, 81, 84, 188, 1402, 173, 181, 461, 451, 35, 462, 563, 183, 1014, 1014,
   1016, 1017, 27, 184, 1485, 185, 186, 495, 242, 98, 398, 1408, 36, 1407, 484, 91, 469,
   401, 1410, 445, 192, 1474, 246, 1496, 490, 346, 277, 248, 196, 493, 511, 557, 350, 1252,
   249, 250, 403, 1309, 1308, 111, 560, 432, 4, 1307, 1300, 93, 1604, 881, 1603, 224, 404,
   434, 520, 263, 435, 1573, 563, 1279, 1278, 364, 1024, 306, 1277, 264, 1602, 1559, 109,
   109, 370, 1299, 307, 1558, 438, 128, 110, 1374, 445, 569, 445, 445, 546, 1014, 10]"

definition yy_action_1900 :: "nat list" where [table_defs]:
  "yy_action_1900 = [
   1461, 105, 381, 1373, 34, 571, 99, 1332, 557, 314, 1182, 530, 272, 274, 379, 210, 1331,
   547, 385, 386, 275, 572, 1247, 1242, 411, 412, 1512, 165, 178, 1513, 1014, 1014, 1016,
   1017, 27, 1511, 1510, 1024, 78, 147, 166, 220, 221, 109, 109, 834, 304, 167, 446, 212,
   318, 110, 231, 445, 569, 445, 144, 1086, 1014, 1084, 326, 180, 169, 1207, 182, 334, 238,
   913, 241, 1100, 187, 170, 171, 421, 87, 88, 423, 189, 89, 90, 172, 1103, 243, 1099, 244,
   158, 18, 245, 345, 247, 1014, 1014, 1016, 1017, 27, 261, 1092, 193, 1222, 489]"

definition yy_action_2000 :: "nat list" where [table_defs]:
  "yy_action_2000 = [
   194, 37, 366, 849, 494, 251, 195, 506, 92, 19, 498, 358, 20, 503, 879, 361, 94, 892, 305,
   159, 513, 39, 95, 1170, 160, 1053, 964, 1139, 96, 174, 1138, 225, 280, 282, 198, 958,
   113, 1160, 1156, 260, 21, 22, 23, 1158, 1164, 1163, 1144, 24, 33, 25, 202, 542, 26, 100,
   1067, 102, 1054, 103, 7, 1052, 1056, 1109, 1057, 1108, 266, 267, 28, 40, 390, 1019, 861,
   112, 29, 564, 1178, 1177, 268, 176, 143, 923, 1238, 1238, 1238, 1238, 1238, 1238, 1238,
   1238, 1238, 1238, 1238, 1238, 1238, 1238, 269, 1595]"

definition yy_action :: "nat list" where
  "yy_action = yy_action_0 @ yy_action_100 @ yy_action_200 @ yy_action_300 @ yy_action_400 @ yy_action_500 @ yy_action_600 @ yy_action_700 @ yy_action_800 @ yy_action_900 @ yy_action_1000 @ yy_action_1100 @ yy_action_1200 @ yy_action_1300 @ yy_action_1400 @ yy_action_1500 @ yy_action_1600 @ yy_action_1700 @ yy_action_1800 @ yy_action_1900 @ yy_action_2000"

lemma yy_action_lengths:
  "length yy_action_0 = 100"
  "length yy_action_100 = 100"
  "length yy_action_200 = 100"
  "length yy_action_300 = 100"
  "length yy_action_400 = 100"
  "length yy_action_500 = 100"
  "length yy_action_600 = 100"
  "length yy_action_700 = 100"
  "length yy_action_800 = 100"
  "length yy_action_900 = 100"
  "length yy_action_1000 = 100"
  "length yy_action_1100 = 100"
  "length yy_action_1200 = 100"
  "length yy_action_1300 = 100"
  "length yy_action_1400 = 100"
  "length yy_action_1500 = 100"
  "length yy_action_1600 = 100"
  "length yy_action_1700 = 100"
  "length yy_action_1800 = 100"
  "length yy_action_1900 = 100"
  "length yy_action_2000 = 96"
  by (simp_all add: table_defs)

lemma length_yy_action [simp]: "length yy_action = 2096"
  by (simp add: yy_action_def yy_action_lengths)

lemma yy_action_0_nth:
  "map ((!) yy_action) [0..<100] = yy_action_0"
  by (rule window_nth [where p = "[]" and q = "yy_action_100 @ yy_action_200 @ yy_action_300 @ yy_action_400 @ yy_action_500 @ yy_action_600 @ yy_action_700 @ yy_action_800 @ yy_action_900 @ yy_action_1000 @ yy_action_1100 @ yy_action_1200 @ yy_action_1300 @ yy_action_1400 @ yy_action_1500 @ yy_action_1600 @ yy_action_1700 @ yy_action_1800 @ yy_action_1900 @ yy_action_2000"])
    (simp_all add: yy_action_def yy_action_lengths)

lemma yy_action_100_nth:
  "map ((!) yy_action) [100..<200] = yy_action_100"
  by (rule window_nth [where p = "yy_action_0" and q = "yy_action_200 @ yy_action_300 @ yy_action_400 @ yy_action_500 @ yy_action_600 @ yy_action_700 @ yy_action_800 @ yy_action_900 @ yy_action_1000 @ yy_action_1100 @ yy_action_1200 @ yy_action_1300 @ yy_action_1400 @ yy_action_1500 @ yy_action_1600 @ yy_action_1700 @ yy_action_1800 @ yy_action_1900 @ yy_action_2000"])
    (simp_all add: yy_action_def yy_action_lengths)

lemma yy_action_200_nth:
  "map ((!) yy_action) [200..<300] = yy_action_200"
  by (rule window_nth [where p = "yy_action_0 @ yy_action_100" and q = "yy_action_300 @ yy_action_400 @ yy_action_500 @ yy_action_600 @ yy_action_700 @ yy_action_800 @ yy_action_900 @ yy_action_1000 @ yy_action_1100 @ yy_action_1200 @ yy_action_1300 @ yy_action_1400 @ yy_action_1500 @ yy_action_1600 @ yy_action_1700 @ yy_action_1800 @ yy_action_1900 @ yy_action_2000"])
    (simp_all add: yy_action_def yy_action_lengths)

lemma yy_action_300_nth:
  "map ((!) yy_action) [300..<400] = yy_action_300"
  by (rule window_nth [where p = "yy_action_0 @ yy_action_100 @ yy_action_200" and q = "yy_action_400 @ yy_action_500 @ yy_action_600 @ yy_action_700 @ yy_action_800 @ yy_action_900 @ yy_action_1000 @ yy_action_1100 @ yy_action_1200 @ yy_action_1300 @ yy_action_1400 @ yy_action_1500 @ yy_action_1600 @ yy_action_1700 @ yy_action_1800 @ yy_action_1900 @ yy_action_2000"])
    (simp_all add: yy_action_def yy_action_lengths)

lemma yy_action_400_nth:
  "map ((!) yy_action) [400..<500] = yy_action_400"
  by (rule window_nth [where p = "yy_action_0 @ yy_action_100 @ yy_action_200 @ yy_action_300" and q = "yy_action_500 @ yy_action_600 @ yy_action_700 @ yy_action_800 @ yy_action_900 @ yy_action_1000 @ yy_action_1100 @ yy_action_1200 @ yy_action_1300 @ yy_action_1400 @ yy_action_1500 @ yy_action_1600 @ yy_action_1700 @ yy_action_1800 @ yy_action_1900 @ yy_action_2000"])
    (simp_all add: yy_action_def yy_action_lengths)

lemma yy_action_500_nth:
  "map ((!) yy_action) [500..<600] = yy_action_500"
  by (rule window_nth [where p = "yy_action_0 @ yy_action_100 @ yy_action_200 @ yy_action_300 @ yy_action_400" and q = "yy_action_600 @ yy_action_700 @ yy_action_800 @ yy_action_900 @ yy_action_1000 @ yy_action_1100 @ yy_action_1200 @ yy_action_1300 @ yy_action_1400 @ yy_action_1500 @ yy_action_1600 @ yy_action_1700 @ yy_action_1800 @ yy_action_1900 @ yy_action_2000"])
    (simp_all add: yy_action_def yy_action_lengths)

lemma yy_action_600_nth:
  "map ((!) yy_action) [600..<700] = yy_action_600"
  by (rule window_nth [where p = "yy_action_0 @ yy_action_100 @ yy_action_200 @ yy_action_300 @ yy_action_400 @ yy_action_500" and q = "yy_action_700 @ yy_action_800 @ yy_action_900 @ yy_action_1000 @ yy_action_1100 @ yy_action_1200 @ yy_action_1300 @ yy_action_1400 @ yy_action_1500 @ yy_action_1600 @ yy_action_1700 @ yy_action_1800 @ yy_action_1900 @ yy_action_2000"])
    (simp_all add: yy_action_def yy_action_lengths)

lemma yy_action_700_nth:
  "map ((!) yy_action) [700..<800] = yy_action_700"
  by (rule window_nth [where p = "yy_action_0 @ yy_action_100 @ yy_action_200 @ yy_action_300 @ yy_action_400 @ yy_action_500 @ yy_action_600" and q = "yy_action_800 @ yy_action_900 @ yy_action_1000 @ yy_action_1100 @ yy_action_1200 @ yy_action_1300 @ yy_action_1400 @ yy_action_1500 @ yy_action_1600 @ yy_action_1700 @ yy_action_1800 @ yy_action_1900 @ yy_action_2000"])
    (simp_all add: yy_action_def yy_action_lengths)

lemma yy_action_800_nth:
  "map ((!) yy_action) [800..<900] = yy_action_800"
  by (rule window_nth [where p = "yy_action_0 @ yy_action_100 @ yy_action_200 @ yy_action_300 @ yy_action_400 @ yy_action_500 @ yy_action_600 @ yy_action_700" and q = "yy_action_900 @ yy_action_1000 @ yy_action_1100 @ yy_action_1200 @ yy_action_1300 @ yy_action_1400 @ yy_action_1500 @ yy_action_1600 @ yy_action_1700 @ yy_action_1800 @ yy_action_1900 @ yy_action_2000"])
    (simp_all add: yy_action_def yy_action_lengths)

lemma yy_action_900_nth:
  "map ((!) yy_action) [900..<1000] = yy_action_900"
  by (rule window_nth [where p = "yy_action_0 @ yy_action_100 @ yy_action_200 @ yy_action_300 @ yy_action_400 @ yy_action_500 @ yy_action_600 @ yy_action_700 @ yy_action_800" and q = "yy_action_1000 @ yy_action_1100 @ yy_action_1200 @ yy_action_1300 @ yy_action_1400 @ yy_action_1500 @ yy_action_1600 @ yy_action_1700 @ yy_action_1800 @ yy_action_1900 @ yy_action_2000"])
    (simp_all add: yy_action_def yy_action_lengths)

lemma yy_action_1000_nth:
  "map ((!) yy_action) [1000..<1100] = yy_action_1000"
  by (rule window_nth [where p = "yy_action_0 @ yy_action_100 @ yy_action_200 @ yy_action_300 @ yy_action_400 @ yy_action_500 @ yy_action_600 @ yy_action_700 @ yy_action_800 @ yy_action_900" and q = "yy_action_1100 @ yy_action_1200 @ yy_action_1300 @ yy_action_1400 @ yy_action_1500 @ yy_action_1600 @ yy_action_1700 @ yy_action_1800 @ yy_action_1900 @ yy_action_2000"])
    (simp_all add: yy_action_def yy_action_lengths)

lemma yy_action_1100_nth:
  "map ((!) yy_action) [1100..<1200] = yy_action_1100"
  by (rule window_nth [where p = "yy_action_0 @ yy_action_100 @ yy_action_200 @ yy_action_300 @ yy_action_400 @ yy_action_500 @ yy_action_600 @ yy_action_700 @ yy_action_800 @ yy_action_900 @ yy_action_1000" and q = "yy_action_1200 @ yy_action_1300 @ yy_action_1400 @ yy_action_1500 @ yy_action_1600 @ yy_action_1700 @ yy_action_1800 @ yy_action_1900 @ yy_action_2000"])
    (simp_all add: yy_action_def yy_action_lengths)

lemma yy_action_1200_nth:
  "map ((!) yy_action) [1200..<1300] = yy_action_1200"
  by (rule window_nth [where p = "yy_action_0 @ yy_action_100 @ yy_action_200 @ yy_action_300 @ yy_action_400 @ yy_action_500 @ yy_action_600 @ yy_action_700 @ yy_action_800 @ yy_action_900 @ yy_action_1000 @ yy_action_1100" and q = "yy_action_1300 @ yy_action_1400 @ yy_action_1500 @ yy_action_1600 @ yy_action_1700 @ yy_action_1800 @ yy_action_1900 @ yy_action_2000"])
    (simp_all add: yy_action_def yy_action_lengths)

lemma yy_action_1300_nth:
  "map ((!) yy_action) [1300..<1400] = yy_action_1300"
  by (rule window_nth [where p = "yy_action_0 @ yy_action_100 @ yy_action_200 @ yy_action_300 @ yy_action_400 @ yy_action_500 @ yy_action_600 @ yy_action_700 @ yy_action_800 @ yy_action_900 @ yy_action_1000 @ yy_action_1100 @ yy_action_1200" and q = "yy_action_1400 @ yy_action_1500 @ yy_action_1600 @ yy_action_1700 @ yy_action_1800 @ yy_action_1900 @ yy_action_2000"])
    (simp_all add: yy_action_def yy_action_lengths)

lemma yy_action_1400_nth:
  "map ((!) yy_action) [1400..<1500] = yy_action_1400"
  by (rule window_nth [where p = "yy_action_0 @ yy_action_100 @ yy_action_200 @ yy_action_300 @ yy_action_400 @ yy_action_500 @ yy_action_600 @ yy_action_700 @ yy_action_800 @ yy_action_900 @ yy_action_1000 @ yy_action_1100 @ yy_action_1200 @ yy_action_1300" and q = "yy_action_1500 @ yy_action_1600 @ yy_action_1700 @ yy_action_1800 @ yy_action_1900 @ yy_action_2000"])
    (simp_all add: yy_action_def yy_action_lengths)

lemma yy_action_1500_nth:
  "map ((!) yy_action) [1500..<1600] = yy_action_1500"
  by (rule window_nth [where p = "yy_action_0 @ yy_action_100 @ yy_action_200 @ yy_action_300 @ yy_action_400 @ yy_action_500 @ yy_action_600 @ yy_action_700 @ yy_action_800 @ yy_action_900 @ yy_action_1000 @ yy_action_1100 @ yy_action_1200 @ yy_action_1300 @ yy_action_1400" and q = "yy_action_1600 @ yy_action_1700 @ yy_action_1800 @ yy_action_1900 @ yy_action_2000"])
    (simp_all add: yy_action_def yy_action_lengths)

lemma yy_action_1600_nth:
  "map ((!) yy_action) [1600..<1700] = yy_action_1600"
  by (rule window_nth [where p = "yy_action_0 @ yy_action_100 @ yy_action_200 @ yy_action_300 @ yy_action_400 @ yy_action_500 @ yy_action_600 @ yy_action_700 @ yy_action_800 @ yy_action_900 @ yy_action_1000 @ yy_action_1100 @ yy_action_1200 @ yy_action_1300 @ yy_action_1400 @ yy_action_1500" and q = "yy_action_1700 @ yy_action_1800 @ yy_action_1900 @ yy_action_2000"])
    (simp_all add: yy_action_def yy_action_lengths)

lemma yy_action_1700_nth:
  "map ((!) yy_action) [1700..<1800] = yy_action_1700"
  by (rule window_nth [where p = "yy_action_0 @ yy_action_100 @ yy_action_200 @ yy_action_300 @ yy_action_400 @ yy_action_500 @ yy_action_600 @ yy_action_700 @ yy_action_800 @ yy_action_900 @ yy_action_1000 @ yy_action_1100 @ yy_action_1200 @ yy_action_1300 @ yy_action_1400 @ yy_action_1500 @ yy_action_1600" and q = "yy_action_1800 @ yy_action_1900 @ yy_action_2000"])
    (simp_all add: yy_action_def yy_action_lengths)

lemma yy_action_1800_nth:
  "map ((!) yy_action) [1800..<1900] = yy_action_1800"
  by (rule window_nth [where p = "yy_action_0 @ yy_action_100 @ yy_action_200 @ yy_action_300 @ yy_action_400 @ yy_action_500 @ yy_action_600 @ yy_action_700 @ yy_action_800 @ yy_action_900 @ yy_action_1000 @ yy_action_1100 @ yy_action_1200 @ yy_action_1300 @ yy_action_1400 @ yy_action_1500 @ yy_action_1600 @ yy_action_1700" and q = "yy_action_1900 @ yy_action_2000"])
    (simp_all add: yy_action_def yy_action_lengths)

lemma yy_action_1900_nth:
  "map ((!) yy_action) [1900..<2000] = yy_action_1900"
  by (rule window_nth [where p = "yy_action_0 @ yy_action_100 @ yy_action_200 @ yy_action_300 @ yy_action_400 @ yy_action_500 @ yy_action_600 @ yy_action_700 @ yy_action_800 @ yy_action_900 @ yy_action_1000 @ yy_action_1100 @ yy_action_1200 @ yy_action_1300 @ yy_action_1400 @ yy_action_1500 @ yy_action_1600 @ yy_action_1700 @ yy_action_1800" and q = "yy_action_2000"])
    (simp_all add: yy_action_def yy_action_lengths)

lemma yy_action_2000_nth:
  "map ((!) yy_action) [2000..<2096] = yy_action_2000"
  by (rule window_nth [where p = "yy_action_0 @ yy_action_100 @ yy_action_200 @ yy_action_300 @ yy_action_400 @ yy_action_500 @ yy_action_600 @ yy_action_700 @ yy_action_800 @ yy_action_900 @ yy_action_1000 @ yy_action_1100 @ yy_action_1200 @ yy_action_1300 @ yy_action_1400 @ yy_action_1500 @ yy_action_1600 @ yy_action_1700 @ yy_action_1800 @ yy_action_1900" and q = "[]"])
    (simp_all add: yy_action_def yy_action_lengths)

section \<open>Lookaheads\<close>

definition yy_lookahead_0 :: "nat list" where [table_defs]:
  "yy_lookahead_0 = [
   193, 193, 193, 274, 275, 276, 193, 274, 275, 276, 193, 223, 219, 225, 206, 210, 211, 212,
   193, 19, 219, 233, 216, 216, 217, 216, 217, 193, 295, 216, 217, 31, 193, 216, 217, 193,
   228, 213, 230, 39, 206, 216, 217, 43, 44, 45, 46, 47, 48, 49, 50, 51, 52, 53, 54, 55, 56,
   57, 193, 19, 185, 186, 187, 188, 189, 190, 253, 274, 275, 276, 195, 193, 197, 193, 261,
   274, 275, 276, 253, 204, 238, 204, 81, 43, 44, 45, 46, 47, 48, 49, 50, 51, 52, 53, 54,
   55, 56, 57, 274, 275]"

definition yy_lookahead_100 :: "nat list" where [table_defs]:
  "yy_lookahead_100 = [
   276, 262, 102, 103, 104, 105, 106, 107, 108, 109, 110, 111, 112, 113, 239, 240, 239, 240,
   210, 211, 212, 314, 315, 314, 59, 316, 86, 252, 88, 252, 19, 314, 315, 256, 257, 113, 25,
   72, 296, 138, 139, 266, 102, 103, 104, 105, 106, 107, 108, 109, 110, 111, 112, 113, 43,
   44, 45, 46, 47, 48, 49, 50, 51, 52, 53, 54, 55, 56, 57, 81, 292, 59, 292, 298, 108, 109,
   110, 111, 112, 113, 69, 116, 117, 118, 72, 106, 107, 193, 111, 112, 113, 54, 55, 56, 57,
   58, 102, 103, 104, 105]"

definition yy_lookahead_200 :: "nat list" where [table_defs]:
  "yy_lookahead_200 = [
   106, 107, 108, 109, 110, 111, 112, 113, 120, 25, 216, 217, 145, 102, 103, 104, 105, 106,
   107, 108, 109, 110, 111, 112, 113, 231, 138, 139, 116, 117, 118, 164, 153, 19, 155, 54,
   55, 56, 57, 102, 103, 104, 105, 106, 107, 108, 109, 110, 111, 112, 113, 128, 129, 46, 47,
   48, 49, 43, 44, 45, 46, 47, 48, 49, 50, 51, 52, 53, 54, 55, 56, 57, 216, 193, 25, 59,
   193, 19, 165, 166, 193, 67, 24, 102, 103, 104, 105, 106, 107, 108, 109, 110, 111, 112,
   113, 73, 216, 217, 59, 216]"

definition yy_lookahead_300 :: "nat list" where [table_defs]:
  "yy_lookahead_300 = [
   217, 43, 44, 45, 46, 47, 48, 49, 50, 51, 52, 53, 54, 55, 56, 57, 102, 103, 104, 105, 106,
   107, 108, 109, 110, 111, 112, 113, 121, 145, 59, 193, 116, 117, 118, 119, 273, 204, 122,
   123, 124, 19, 20, 134, 22, 136, 137, 19, 132, 127, 128, 129, 24, 22, 23, 116, 117, 118,
   36, 193, 102, 103, 104, 105, 106, 107, 108, 109, 110, 111, 112, 113, 239, 240, 311, 312,
   215, 106, 107, 241, 19, 59, 216, 217, 223, 252, 115, 116, 117, 118, 151, 120, 26, 71,
   193, 308, 309, 193, 149, 128]"

definition yy_lookahead_400 :: "nat list" where [table_defs]:
  "yy_lookahead_400 = [
   313, 216, 269, 81, 43, 44, 45, 46, 47, 48, 49, 50, 51, 52, 53, 54, 55, 56, 57, 253, 216,
   217, 100, 95, 153, 59, 155, 261, 106, 107, 25, 193, 101, 193, 193, 231, 114, 25, 116,
   117, 118, 113, 304, 121, 193, 204, 59, 119, 120, 121, 122, 123, 124, 125, 216, 217, 193,
   216, 217, 131, 138, 139, 230, 102, 103, 104, 105, 106, 107, 108, 109, 110, 111, 112, 113,
   153, 154, 155, 156, 157, 239, 240, 116, 117, 118, 76, 193, 23, 19, 25, 22, 253, 23, 252,
   253, 108, 87, 204, 89, 261]"

definition yy_lookahead_500 :: "nat list" where [table_defs]:
  "yy_lookahead_500 = [
   198, 92, 261, 116, 117, 118, 193, 306, 307, 216, 217, 150, 43, 44, 45, 46, 47, 48, 49,
   50, 51, 52, 53, 54, 55, 56, 57, 59, 193, 216, 217, 19, 239, 240, 283, 23, 106, 107, 108,
   109, 110, 111, 112, 113, 73, 252, 253, 142, 308, 309, 138, 139, 81, 313, 145, 43, 44, 45,
   46, 47, 48, 49, 50, 51, 52, 53, 54, 55, 56, 57, 307, 102, 103, 104, 105, 106, 107, 108,
   109, 110, 111, 112, 113, 281, 116, 117, 118, 285, 23, 193, 25, 119, 59, 193, 122, 123,
   124, 59, 127, 203]"

definition yy_lookahead_600 :: "nat list" where [table_defs]:
  "yy_lookahead_600 = [
   59, 205, 19, 268, 132, 25, 23, 22, 193, 138, 139, 249, 204, 251, 102, 103, 104, 105, 106,
   107, 108, 109, 110, 111, 112, 113, 43, 44, 45, 46, 47, 48, 49, 50, 51, 52, 53, 54, 55,
   56, 57, 19, 22, 23, 59, 23, 25, 239, 240, 116, 117, 118, 193, 11, 116, 117, 118, 116,
   117, 118, 252, 269, 22, 193, 15, 43, 44, 45, 46, 47, 48, 49, 50, 51, 52, 53, 54, 55, 56,
   57, 273, 143, 193, 118, 143, 102, 103, 104, 105, 106, 107, 108, 109, 110, 111, 112, 113,
   76, 118, 59]"

definition yy_lookahead_700 :: "nat list" where [table_defs]:
  "yy_lookahead_700 = [
   241, 116, 117, 118, 304, 216, 217, 292, 143, 60, 89, 241, 19, 92, 193, 193, 23, 22, 311,
   312, 231, 101, 22, 143, 102, 103, 104, 105, 106, 107, 108, 109, 110, 111, 112, 113, 43,
   44, 45, 46, 47, 48, 49, 50, 51, 52, 53, 54, 55, 56, 57, 19, 193, 193, 59, 23, 116, 117,
   118, 59, 201, 21, 241, 304, 22, 206, 127, 128, 129, 193, 128, 129, 235, 236, 304, 43, 44,
   45, 46, 47, 48, 49, 50, 51, 52, 53, 54, 55, 56, 57, 22, 193, 216, 217, 193, 102, 103,
   104, 105, 106]"

definition yy_lookahead_800 :: "nat list" where [table_defs]:
  "yy_lookahead_800 = [
   107, 108, 109, 110, 111, 112, 113, 231, 193, 193, 193, 116, 117, 118, 216, 217, 116, 117,
   118, 226, 80, 193, 19, 235, 236, 304, 23, 211, 212, 231, 204, 216, 217, 205, 102, 103,
   104, 105, 106, 107, 108, 109, 110, 111, 112, 113, 43, 44, 45, 46, 47, 48, 49, 50, 51, 52,
   53, 54, 55, 56, 57, 19, 193, 123, 76, 239, 240, 193, 253, 239, 240, 239, 240, 193, 106,
   107, 193, 89, 252, 193, 92, 59, 252, 141, 252, 43, 44, 45, 46, 47, 48, 49, 50, 51, 52,
   53, 54, 55, 56, 57]"

definition yy_lookahead_900 :: "nat list" where [table_defs]:
  "yy_lookahead_900 = [
   284, 161, 216, 217, 193, 102, 103, 104, 105, 106, 107, 108, 109, 110, 111, 112, 113, 231,
   193, 16, 187, 188, 189, 190, 7, 8, 9, 309, 195, 25, 197, 313, 19, 127, 128, 129, 262,
   204, 22, 117, 24, 216, 217, 263, 102, 103, 104, 105, 106, 107, 108, 109, 110, 111, 112,
   113, 43, 44, 45, 46, 47, 48, 49, 50, 51, 52, 53, 54, 55, 56, 57, 193, 239, 240, 193, 59,
   19, 188, 253, 190, 77, 226, 79, 193, 195, 252, 197, 193, 19, 301, 302, 193, 193, 204,
   216, 217, 226, 216, 217, 266]"

definition yy_lookahead_1000 :: "nat list" where [table_defs]:
  "yy_lookahead_1000 = [
   204, 159, 45, 46, 47, 48, 49, 50, 51, 52, 53, 54, 55, 56, 57, 102, 103, 104, 105, 106,
   107, 108, 109, 110, 111, 112, 113, 12, 239, 240, 232, 298, 238, 117, 253, 239, 240, 238,
   259, 260, 193, 252, 27, 31, 193, 193, 142, 204, 252, 193, 193, 39, 262, 193, 100, 266,
   278, 42, 204, 102, 103, 104, 105, 106, 107, 108, 109, 110, 111, 112, 113, 117, 159, 216,
   217, 121, 216, 217, 63, 193, 193, 193, 239, 240, 115, 116, 193, 298, 73, 238, 238, 231,
   19, 239, 240, 252, 22, 24, 211, 212]"

definition yy_lookahead_1100 :: "nat list" where [table_defs]:
  "yy_lookahead_1100 = [
   24, 193, 216, 217, 216, 217, 252, 153, 154, 155, 253, 16, 19, 144, 213, 268, 43, 44, 45,
   46, 47, 48, 49, 50, 51, 52, 53, 54, 55, 56, 57, 238, 19, 59, 193, 59, 43, 44, 45, 46, 47,
   48, 49, 50, 51, 52, 53, 54, 55, 56, 57, 22, 23, 193, 25, 193, 43, 44, 45, 46, 47, 48, 49,
   50, 51, 52, 53, 54, 55, 56, 57, 284, 77, 193, 79, 102, 103, 104, 105, 106, 107, 108, 109,
   110, 111, 112, 113, 286, 193, 193, 193, 117, 291, 117, 232, 102, 103, 104, 105, 106]"

definition yy_lookahead_1200 :: "nat list" where [table_defs]:
  "yy_lookahead_1200 = [
   107, 108, 109, 110, 111, 112, 113, 204, 22, 23, 66, 25, 216, 217, 35, 102, 103, 104, 105,
   106, 107, 108, 109, 110, 111, 112, 113, 193, 268, 85, 101, 193, 309, 309, 240, 19, 313,
   313, 94, 208, 209, 193, 239, 240, 193, 66, 252, 19, 268, 244, 216, 217, 193, 74, 213,
   252, 161, 19, 263, 254, 44, 45, 46, 47, 48, 49, 50, 51, 52, 53, 54, 55, 56, 57, 193, 216,
   217, 5, 59, 193, 19, 244, 10, 11, 12, 13, 14, 101, 309, 17, 146, 254, 313, 193, 193, 76,
   115, 216, 217, 309]"

definition yy_lookahead_1300 :: "nat list" where [table_defs]:
  "yy_lookahead_1300 = [
   12, 263, 30, 313, 32, 46, 87, 46, 89, 130, 193, 92, 40, 22, 263, 27, 216, 217, 102, 103,
   104, 105, 106, 107, 108, 109, 110, 111, 112, 113, 42, 150, 291, 216, 217, 116, 117, 118,
   19, 20, 193, 22, 70, 260, 116, 193, 24, 264, 193, 263, 78, 63, 61, 81, 116, 36, 193, 260,
   193, 29, 193, 264, 193, 33, 145, 193, 59, 48, 216, 217, 98, 216, 217, 193, 115, 193, 115,
   193, 59, 216, 217, 216, 217, 216, 217, 216, 217, 255, 216, 217, 71, 193, 131, 193, 25,
   65, 216, 217, 216, 217]"

definition yy_lookahead_1400 :: "nat list" where [table_defs]:
  "yy_lookahead_1400 = [
   216, 217, 208, 209, 85, 133, 193, 100, 193, 90, 138, 139, 138, 139, 216, 217, 216, 217,
   193, 100, 193, 108, 135, 116, 117, 106, 107, 140, 121, 216, 217, 216, 217, 114, 162, 116,
   117, 118, 299, 300, 121, 216, 217, 216, 217, 193, 244, 193, 135, 244, 193, 256, 257, 140,
   244, 193, 254, 193, 193, 254, 153, 154, 155, 141, 254, 149, 150, 258, 216, 217, 216, 217,
   153, 154, 155, 156, 157, 0, 1, 2, 216, 217, 5, 115, 158, 193, 160, 10, 11, 12, 13, 14,
   193, 59, 17, 126, 193, 19, 20, 129]"

definition yy_lookahead_1500 :: "nat list" where [table_defs]:
  "yy_lookahead_1500 = [
   22, 193, 22, 22, 24, 193, 23, 30, 25, 32, 19, 20, 144, 22, 36, 216, 217, 40, 193, 216,
   217, 193, 152, 129, 216, 217, 193, 36, 216, 217, 193, 99, 193, 193, 53, 193, 193, 59, 23,
   193, 25, 216, 217, 193, 216, 217, 152, 70, 59, 71, 59, 117, 193, 216, 217, 78, 216, 217,
   81, 216, 217, 318, 71, 85, 193, 133, 193, 193, 90, 23, 23, 25, 25, 120, 121, 98, 85, 193,
   100, 193, 23, 90, 25, 121, 106, 107, 19, 216, 217, 216, 217, 100, 114, 131, 116, 117,
   118, 106, 107, 121]"

definition yy_lookahead_1600 :: "nat list" where [table_defs]:
  "yy_lookahead_1600 = [
   216, 217, 216, 217, 193, 114, 117, 116, 117, 118, 133, 193, 121, 193, 193, 138, 139, 193,
   23, 193, 25, 23, 23, 25, 25, 7, 8, 216, 217, 193, 193, 153, 154, 155, 156, 157, 216, 217,
   193, 162, 216, 217, 216, 217, 153, 154, 155, 156, 157, 1, 2, 193, 193, 5, 19, 20, 59, 22,
   10, 11, 12, 13, 14, 193, 97, 17, 193, 23, 193, 25, 288, 36, 193, 242, 216, 217, 236, 23,
   30, 25, 32, 19, 20, 23, 22, 25, 216, 217, 40, 216, 217, 216, 217, 193, 59, 216, 217, 193,
   36, 83]"

definition yy_lookahead_1700 :: "nat list" where [table_defs]:
  "yy_lookahead_1700 = [
   84, 153, 153, 155, 155, 23, 71, 25, 23, 193, 25, 193, 193, 193, 117, 193, 193, 193, 70,
   193, 193, 59, 193, 255, 255, 287, 78, 255, 243, 81, 191, 255, 297, 71, 271, 100, 293,
   245, 267, 214, 246, 106, 107, 108, 246, 271, 98, 245, 293, 114, 220, 116, 117, 118, 267,
   271, 121, 271, 225, 219, 229, 219, 100, 219, 259, 259, 259, 259, 106, 107, 249, 196, 60,
   280, 141, 243, 114, 249, 116, 117, 118, 133, 245, 121, 200, 297, 138, 139, 153, 154, 155,
   156, 157, 297, 200, 38, 19, 20, 151, 22]"

definition yy_lookahead_1800 :: "nat list" where [table_defs]:
  "yy_lookahead_1800 = [
   200, 150, 140, 294, 294, 22, 272, 43, 234, 18, 162, 270, 200, 36, 237, 153, 154, 155,
   156, 157, 237, 283, 237, 237, 18, 199, 149, 246, 272, 270, 272, 200, 158, 246, 246, 234,
   59, 234, 246, 199, 290, 62, 289, 200, 199, 22, 221, 115, 71, 200, 200, 199, 199, 221,
   218, 218, 19, 20, 64, 22, 218, 227, 22, 224, 126, 224, 165, 221, 24, 305, 200, 113, 312,
   36, 218, 220, 218, 100, 282, 218, 91, 218, 317, 106, 107, 221, 227, 282, 317, 82, 148,
   114, 265, 116, 117, 118, 59, 145, 121, 22]"

definition yy_lookahead_1900 :: "nat list" where [table_defs]:
  "yy_lookahead_1900 = [
   277, 158, 200, 265, 25, 202, 147, 250, 71, 279, 13, 146, 194, 194, 249, 248, 250, 140,
   247, 246, 6, 192, 192, 192, 303, 303, 213, 207, 300, 213, 153, 154, 155, 156, 157, 213,
   213, 100, 213, 222, 207, 214, 214, 106, 107, 4, 222, 207, 3, 22, 163, 114, 15, 116, 117,
   118, 16, 23, 121, 23, 139, 151, 130, 25, 142, 16, 24, 20, 144, 1, 142, 130, 130, 61, 53,
   53, 37, 151, 53, 53, 130, 116, 34, 1, 141, 5, 22, 115, 161, 141, 153, 154, 155, 156, 157,
   25, 68, 68, 75, 41]"

definition yy_lookahead_2000 :: "nat list" where [table_defs]:
  "yy_lookahead_2000 = [
   115, 24, 131, 20, 19, 125, 22, 96, 22, 22, 67, 23, 22, 67, 59, 24, 22, 28, 67, 23, 22,
   22, 149, 23, 23, 23, 116, 23, 25, 37, 97, 141, 23, 23, 22, 143, 25, 75, 88, 34, 34, 34,
   34, 86, 75, 93, 23, 34, 22, 34, 25, 24, 34, 25, 23, 142, 23, 142, 44, 23, 23, 23, 11, 23,
   25, 22, 22, 22, 15, 23, 23, 22, 22, 25, 1, 1, 141, 25, 23, 135, 319, 319, 319, 319, 319,
   319, 319, 319, 319, 319, 319, 319, 319, 319, 141, 141, 319, 319, 319, 319]"

definition yy_lookahead_2100 :: "nat list" where [table_defs]:
  "yy_lookahead_2100 = [
   319, 319, 319, 319, 319, 319, 319, 319, 319, 319, 319, 319, 319, 319, 319, 319, 319, 319,
   319, 319, 319, 319, 319, 319, 319, 319, 319, 319, 319, 319, 319, 319, 319, 319, 319, 319,
   319, 319, 319, 319, 319, 319, 319, 319, 319, 319, 319, 319, 319, 319, 319, 319, 319, 319,
   319, 319, 319, 319, 319, 319, 319, 319, 319, 319, 319, 319, 319, 319, 319, 319, 319, 319,
   319, 319, 319, 319, 319, 319, 319, 319, 319, 319, 319, 319, 319, 319, 319, 319, 319, 319,
   319, 319, 319, 319, 319, 319, 319, 319, 319, 319]"

definition yy_lookahead_2200 :: "nat list" where [table_defs]:
  "yy_lookahead_2200 = [
   319, 319, 319, 319, 319, 319, 319, 319, 319, 319, 319, 319, 319, 319, 319, 319, 319, 319,
   319, 319, 319, 319, 319, 319, 319, 319, 319, 319, 319, 319, 319, 319, 319, 319, 319, 319,
   319, 319, 319, 319, 319, 319, 319, 319, 319, 319, 319, 319, 319, 319, 319, 319, 319, 319,
   319, 319, 319, 319, 319, 319, 319, 319, 319, 319, 319, 319, 319, 319, 319, 319, 319, 319,
   319, 319, 319, 319, 319, 319, 319, 319, 319]"

definition yy_lookahead :: "nat list" where
  "yy_lookahead = yy_lookahead_0 @ yy_lookahead_100 @ yy_lookahead_200 @ yy_lookahead_300 @ yy_lookahead_400 @ yy_lookahead_500 @ yy_lookahead_600 @ yy_lookahead_700 @ yy_lookahead_800 @ yy_lookahead_900 @ yy_lookahead_1000 @ yy_lookahead_1100 @ yy_lookahead_1200 @ yy_lookahead_1300 @ yy_lookahead_1400 @ yy_lookahead_1500 @ yy_lookahead_1600 @ yy_lookahead_1700 @ yy_lookahead_1800 @ yy_lookahead_1900 @ yy_lookahead_2000 @ yy_lookahead_2100 @ yy_lookahead_2200"

lemma yy_lookahead_lengths:
  "length yy_lookahead_0 = 100"
  "length yy_lookahead_100 = 100"
  "length yy_lookahead_200 = 100"
  "length yy_lookahead_300 = 100"
  "length yy_lookahead_400 = 100"
  "length yy_lookahead_500 = 100"
  "length yy_lookahead_600 = 100"
  "length yy_lookahead_700 = 100"
  "length yy_lookahead_800 = 100"
  "length yy_lookahead_900 = 100"
  "length yy_lookahead_1000 = 100"
  "length yy_lookahead_1100 = 100"
  "length yy_lookahead_1200 = 100"
  "length yy_lookahead_1300 = 100"
  "length yy_lookahead_1400 = 100"
  "length yy_lookahead_1500 = 100"
  "length yy_lookahead_1600 = 100"
  "length yy_lookahead_1700 = 100"
  "length yy_lookahead_1800 = 100"
  "length yy_lookahead_1900 = 100"
  "length yy_lookahead_2000 = 100"
  "length yy_lookahead_2100 = 100"
  "length yy_lookahead_2200 = 81"
  by (simp_all add: table_defs)

lemma length_yy_lookahead [simp]: "length yy_lookahead = 2281"
  by (simp add: yy_lookahead_def yy_lookahead_lengths)

lemma yy_lookahead_0_nth:
  "map ((!) yy_lookahead) [0..<100] = yy_lookahead_0"
  by (rule window_nth [where p = "[]" and q = "yy_lookahead_100 @ yy_lookahead_200 @ yy_lookahead_300 @ yy_lookahead_400 @ yy_lookahead_500 @ yy_lookahead_600 @ yy_lookahead_700 @ yy_lookahead_800 @ yy_lookahead_900 @ yy_lookahead_1000 @ yy_lookahead_1100 @ yy_lookahead_1200 @ yy_lookahead_1300 @ yy_lookahead_1400 @ yy_lookahead_1500 @ yy_lookahead_1600 @ yy_lookahead_1700 @ yy_lookahead_1800 @ yy_lookahead_1900 @ yy_lookahead_2000 @ yy_lookahead_2100 @ yy_lookahead_2200"])
    (simp_all add: yy_lookahead_def yy_lookahead_lengths)

lemma yy_lookahead_100_nth:
  "map ((!) yy_lookahead) [100..<200] = yy_lookahead_100"
  by (rule window_nth [where p = "yy_lookahead_0" and q = "yy_lookahead_200 @ yy_lookahead_300 @ yy_lookahead_400 @ yy_lookahead_500 @ yy_lookahead_600 @ yy_lookahead_700 @ yy_lookahead_800 @ yy_lookahead_900 @ yy_lookahead_1000 @ yy_lookahead_1100 @ yy_lookahead_1200 @ yy_lookahead_1300 @ yy_lookahead_1400 @ yy_lookahead_1500 @ yy_lookahead_1600 @ yy_lookahead_1700 @ yy_lookahead_1800 @ yy_lookahead_1900 @ yy_lookahead_2000 @ yy_lookahead_2100 @ yy_lookahead_2200"])
    (simp_all add: yy_lookahead_def yy_lookahead_lengths)

lemma yy_lookahead_200_nth:
  "map ((!) yy_lookahead) [200..<300] = yy_lookahead_200"
  by (rule window_nth [where p = "yy_lookahead_0 @ yy_lookahead_100" and q = "yy_lookahead_300 @ yy_lookahead_400 @ yy_lookahead_500 @ yy_lookahead_600 @ yy_lookahead_700 @ yy_lookahead_800 @ yy_lookahead_900 @ yy_lookahead_1000 @ yy_lookahead_1100 @ yy_lookahead_1200 @ yy_lookahead_1300 @ yy_lookahead_1400 @ yy_lookahead_1500 @ yy_lookahead_1600 @ yy_lookahead_1700 @ yy_lookahead_1800 @ yy_lookahead_1900 @ yy_lookahead_2000 @ yy_lookahead_2100 @ yy_lookahead_2200"])
    (simp_all add: yy_lookahead_def yy_lookahead_lengths)

lemma yy_lookahead_300_nth:
  "map ((!) yy_lookahead) [300..<400] = yy_lookahead_300"
  by (rule window_nth [where p = "yy_lookahead_0 @ yy_lookahead_100 @ yy_lookahead_200" and q = "yy_lookahead_400 @ yy_lookahead_500 @ yy_lookahead_600 @ yy_lookahead_700 @ yy_lookahead_800 @ yy_lookahead_900 @ yy_lookahead_1000 @ yy_lookahead_1100 @ yy_lookahead_1200 @ yy_lookahead_1300 @ yy_lookahead_1400 @ yy_lookahead_1500 @ yy_lookahead_1600 @ yy_lookahead_1700 @ yy_lookahead_1800 @ yy_lookahead_1900 @ yy_lookahead_2000 @ yy_lookahead_2100 @ yy_lookahead_2200"])
    (simp_all add: yy_lookahead_def yy_lookahead_lengths)

lemma yy_lookahead_400_nth:
  "map ((!) yy_lookahead) [400..<500] = yy_lookahead_400"
  by (rule window_nth [where p = "yy_lookahead_0 @ yy_lookahead_100 @ yy_lookahead_200 @ yy_lookahead_300" and q = "yy_lookahead_500 @ yy_lookahead_600 @ yy_lookahead_700 @ yy_lookahead_800 @ yy_lookahead_900 @ yy_lookahead_1000 @ yy_lookahead_1100 @ yy_lookahead_1200 @ yy_lookahead_1300 @ yy_lookahead_1400 @ yy_lookahead_1500 @ yy_lookahead_1600 @ yy_lookahead_1700 @ yy_lookahead_1800 @ yy_lookahead_1900 @ yy_lookahead_2000 @ yy_lookahead_2100 @ yy_lookahead_2200"])
    (simp_all add: yy_lookahead_def yy_lookahead_lengths)

lemma yy_lookahead_500_nth:
  "map ((!) yy_lookahead) [500..<600] = yy_lookahead_500"
  by (rule window_nth [where p = "yy_lookahead_0 @ yy_lookahead_100 @ yy_lookahead_200 @ yy_lookahead_300 @ yy_lookahead_400" and q = "yy_lookahead_600 @ yy_lookahead_700 @ yy_lookahead_800 @ yy_lookahead_900 @ yy_lookahead_1000 @ yy_lookahead_1100 @ yy_lookahead_1200 @ yy_lookahead_1300 @ yy_lookahead_1400 @ yy_lookahead_1500 @ yy_lookahead_1600 @ yy_lookahead_1700 @ yy_lookahead_1800 @ yy_lookahead_1900 @ yy_lookahead_2000 @ yy_lookahead_2100 @ yy_lookahead_2200"])
    (simp_all add: yy_lookahead_def yy_lookahead_lengths)

lemma yy_lookahead_600_nth:
  "map ((!) yy_lookahead) [600..<700] = yy_lookahead_600"
  by (rule window_nth [where p = "yy_lookahead_0 @ yy_lookahead_100 @ yy_lookahead_200 @ yy_lookahead_300 @ yy_lookahead_400 @ yy_lookahead_500" and q = "yy_lookahead_700 @ yy_lookahead_800 @ yy_lookahead_900 @ yy_lookahead_1000 @ yy_lookahead_1100 @ yy_lookahead_1200 @ yy_lookahead_1300 @ yy_lookahead_1400 @ yy_lookahead_1500 @ yy_lookahead_1600 @ yy_lookahead_1700 @ yy_lookahead_1800 @ yy_lookahead_1900 @ yy_lookahead_2000 @ yy_lookahead_2100 @ yy_lookahead_2200"])
    (simp_all add: yy_lookahead_def yy_lookahead_lengths)

lemma yy_lookahead_700_nth:
  "map ((!) yy_lookahead) [700..<800] = yy_lookahead_700"
  by (rule window_nth [where p = "yy_lookahead_0 @ yy_lookahead_100 @ yy_lookahead_200 @ yy_lookahead_300 @ yy_lookahead_400 @ yy_lookahead_500 @ yy_lookahead_600" and q = "yy_lookahead_800 @ yy_lookahead_900 @ yy_lookahead_1000 @ yy_lookahead_1100 @ yy_lookahead_1200 @ yy_lookahead_1300 @ yy_lookahead_1400 @ yy_lookahead_1500 @ yy_lookahead_1600 @ yy_lookahead_1700 @ yy_lookahead_1800 @ yy_lookahead_1900 @ yy_lookahead_2000 @ yy_lookahead_2100 @ yy_lookahead_2200"])
    (simp_all add: yy_lookahead_def yy_lookahead_lengths)

lemma yy_lookahead_800_nth:
  "map ((!) yy_lookahead) [800..<900] = yy_lookahead_800"
  by (rule window_nth [where p = "yy_lookahead_0 @ yy_lookahead_100 @ yy_lookahead_200 @ yy_lookahead_300 @ yy_lookahead_400 @ yy_lookahead_500 @ yy_lookahead_600 @ yy_lookahead_700" and q = "yy_lookahead_900 @ yy_lookahead_1000 @ yy_lookahead_1100 @ yy_lookahead_1200 @ yy_lookahead_1300 @ yy_lookahead_1400 @ yy_lookahead_1500 @ yy_lookahead_1600 @ yy_lookahead_1700 @ yy_lookahead_1800 @ yy_lookahead_1900 @ yy_lookahead_2000 @ yy_lookahead_2100 @ yy_lookahead_2200"])
    (simp_all add: yy_lookahead_def yy_lookahead_lengths)

lemma yy_lookahead_900_nth:
  "map ((!) yy_lookahead) [900..<1000] = yy_lookahead_900"
  by (rule window_nth [where p = "yy_lookahead_0 @ yy_lookahead_100 @ yy_lookahead_200 @ yy_lookahead_300 @ yy_lookahead_400 @ yy_lookahead_500 @ yy_lookahead_600 @ yy_lookahead_700 @ yy_lookahead_800" and q = "yy_lookahead_1000 @ yy_lookahead_1100 @ yy_lookahead_1200 @ yy_lookahead_1300 @ yy_lookahead_1400 @ yy_lookahead_1500 @ yy_lookahead_1600 @ yy_lookahead_1700 @ yy_lookahead_1800 @ yy_lookahead_1900 @ yy_lookahead_2000 @ yy_lookahead_2100 @ yy_lookahead_2200"])
    (simp_all add: yy_lookahead_def yy_lookahead_lengths)

lemma yy_lookahead_1000_nth:
  "map ((!) yy_lookahead) [1000..<1100] = yy_lookahead_1000"
  by (rule window_nth [where p = "yy_lookahead_0 @ yy_lookahead_100 @ yy_lookahead_200 @ yy_lookahead_300 @ yy_lookahead_400 @ yy_lookahead_500 @ yy_lookahead_600 @ yy_lookahead_700 @ yy_lookahead_800 @ yy_lookahead_900" and q = "yy_lookahead_1100 @ yy_lookahead_1200 @ yy_lookahead_1300 @ yy_lookahead_1400 @ yy_lookahead_1500 @ yy_lookahead_1600 @ yy_lookahead_1700 @ yy_lookahead_1800 @ yy_lookahead_1900 @ yy_lookahead_2000 @ yy_lookahead_2100 @ yy_lookahead_2200"])
    (simp_all add: yy_lookahead_def yy_lookahead_lengths)

lemma yy_lookahead_1100_nth:
  "map ((!) yy_lookahead) [1100..<1200] = yy_lookahead_1100"
  by (rule window_nth [where p = "yy_lookahead_0 @ yy_lookahead_100 @ yy_lookahead_200 @ yy_lookahead_300 @ yy_lookahead_400 @ yy_lookahead_500 @ yy_lookahead_600 @ yy_lookahead_700 @ yy_lookahead_800 @ yy_lookahead_900 @ yy_lookahead_1000" and q = "yy_lookahead_1200 @ yy_lookahead_1300 @ yy_lookahead_1400 @ yy_lookahead_1500 @ yy_lookahead_1600 @ yy_lookahead_1700 @ yy_lookahead_1800 @ yy_lookahead_1900 @ yy_lookahead_2000 @ yy_lookahead_2100 @ yy_lookahead_2200"])
    (simp_all add: yy_lookahead_def yy_lookahead_lengths)

lemma yy_lookahead_1200_nth:
  "map ((!) yy_lookahead) [1200..<1300] = yy_lookahead_1200"
  by (rule window_nth [where p = "yy_lookahead_0 @ yy_lookahead_100 @ yy_lookahead_200 @ yy_lookahead_300 @ yy_lookahead_400 @ yy_lookahead_500 @ yy_lookahead_600 @ yy_lookahead_700 @ yy_lookahead_800 @ yy_lookahead_900 @ yy_lookahead_1000 @ yy_lookahead_1100" and q = "yy_lookahead_1300 @ yy_lookahead_1400 @ yy_lookahead_1500 @ yy_lookahead_1600 @ yy_lookahead_1700 @ yy_lookahead_1800 @ yy_lookahead_1900 @ yy_lookahead_2000 @ yy_lookahead_2100 @ yy_lookahead_2200"])
    (simp_all add: yy_lookahead_def yy_lookahead_lengths)

lemma yy_lookahead_1300_nth:
  "map ((!) yy_lookahead) [1300..<1400] = yy_lookahead_1300"
  by (rule window_nth [where p = "yy_lookahead_0 @ yy_lookahead_100 @ yy_lookahead_200 @ yy_lookahead_300 @ yy_lookahead_400 @ yy_lookahead_500 @ yy_lookahead_600 @ yy_lookahead_700 @ yy_lookahead_800 @ yy_lookahead_900 @ yy_lookahead_1000 @ yy_lookahead_1100 @ yy_lookahead_1200" and q = "yy_lookahead_1400 @ yy_lookahead_1500 @ yy_lookahead_1600 @ yy_lookahead_1700 @ yy_lookahead_1800 @ yy_lookahead_1900 @ yy_lookahead_2000 @ yy_lookahead_2100 @ yy_lookahead_2200"])
    (simp_all add: yy_lookahead_def yy_lookahead_lengths)

lemma yy_lookahead_1400_nth:
  "map ((!) yy_lookahead) [1400..<1500] = yy_lookahead_1400"
  by (rule window_nth [where p = "yy_lookahead_0 @ yy_lookahead_100 @ yy_lookahead_200 @ yy_lookahead_300 @ yy_lookahead_400 @ yy_lookahead_500 @ yy_lookahead_600 @ yy_lookahead_700 @ yy_lookahead_800 @ yy_lookahead_900 @ yy_lookahead_1000 @ yy_lookahead_1100 @ yy_lookahead_1200 @ yy_lookahead_1300" and q = "yy_lookahead_1500 @ yy_lookahead_1600 @ yy_lookahead_1700 @ yy_lookahead_1800 @ yy_lookahead_1900 @ yy_lookahead_2000 @ yy_lookahead_2100 @ yy_lookahead_2200"])
    (simp_all add: yy_lookahead_def yy_lookahead_lengths)

lemma yy_lookahead_1500_nth:
  "map ((!) yy_lookahead) [1500..<1600] = yy_lookahead_1500"
  by (rule window_nth [where p = "yy_lookahead_0 @ yy_lookahead_100 @ yy_lookahead_200 @ yy_lookahead_300 @ yy_lookahead_400 @ yy_lookahead_500 @ yy_lookahead_600 @ yy_lookahead_700 @ yy_lookahead_800 @ yy_lookahead_900 @ yy_lookahead_1000 @ yy_lookahead_1100 @ yy_lookahead_1200 @ yy_lookahead_1300 @ yy_lookahead_1400" and q = "yy_lookahead_1600 @ yy_lookahead_1700 @ yy_lookahead_1800 @ yy_lookahead_1900 @ yy_lookahead_2000 @ yy_lookahead_2100 @ yy_lookahead_2200"])
    (simp_all add: yy_lookahead_def yy_lookahead_lengths)

lemma yy_lookahead_1600_nth:
  "map ((!) yy_lookahead) [1600..<1700] = yy_lookahead_1600"
  by (rule window_nth [where p = "yy_lookahead_0 @ yy_lookahead_100 @ yy_lookahead_200 @ yy_lookahead_300 @ yy_lookahead_400 @ yy_lookahead_500 @ yy_lookahead_600 @ yy_lookahead_700 @ yy_lookahead_800 @ yy_lookahead_900 @ yy_lookahead_1000 @ yy_lookahead_1100 @ yy_lookahead_1200 @ yy_lookahead_1300 @ yy_lookahead_1400 @ yy_lookahead_1500" and q = "yy_lookahead_1700 @ yy_lookahead_1800 @ yy_lookahead_1900 @ yy_lookahead_2000 @ yy_lookahead_2100 @ yy_lookahead_2200"])
    (simp_all add: yy_lookahead_def yy_lookahead_lengths)

lemma yy_lookahead_1700_nth:
  "map ((!) yy_lookahead) [1700..<1800] = yy_lookahead_1700"
  by (rule window_nth [where p = "yy_lookahead_0 @ yy_lookahead_100 @ yy_lookahead_200 @ yy_lookahead_300 @ yy_lookahead_400 @ yy_lookahead_500 @ yy_lookahead_600 @ yy_lookahead_700 @ yy_lookahead_800 @ yy_lookahead_900 @ yy_lookahead_1000 @ yy_lookahead_1100 @ yy_lookahead_1200 @ yy_lookahead_1300 @ yy_lookahead_1400 @ yy_lookahead_1500 @ yy_lookahead_1600" and q = "yy_lookahead_1800 @ yy_lookahead_1900 @ yy_lookahead_2000 @ yy_lookahead_2100 @ yy_lookahead_2200"])
    (simp_all add: yy_lookahead_def yy_lookahead_lengths)

lemma yy_lookahead_1800_nth:
  "map ((!) yy_lookahead) [1800..<1900] = yy_lookahead_1800"
  by (rule window_nth [where p = "yy_lookahead_0 @ yy_lookahead_100 @ yy_lookahead_200 @ yy_lookahead_300 @ yy_lookahead_400 @ yy_lookahead_500 @ yy_lookahead_600 @ yy_lookahead_700 @ yy_lookahead_800 @ yy_lookahead_900 @ yy_lookahead_1000 @ yy_lookahead_1100 @ yy_lookahead_1200 @ yy_lookahead_1300 @ yy_lookahead_1400 @ yy_lookahead_1500 @ yy_lookahead_1600 @ yy_lookahead_1700" and q = "yy_lookahead_1900 @ yy_lookahead_2000 @ yy_lookahead_2100 @ yy_lookahead_2200"])
    (simp_all add: yy_lookahead_def yy_lookahead_lengths)

lemma yy_lookahead_1900_nth:
  "map ((!) yy_lookahead) [1900..<2000] = yy_lookahead_1900"
  by (rule window_nth [where p = "yy_lookahead_0 @ yy_lookahead_100 @ yy_lookahead_200 @ yy_lookahead_300 @ yy_lookahead_400 @ yy_lookahead_500 @ yy_lookahead_600 @ yy_lookahead_700 @ yy_lookahead_800 @ yy_lookahead_900 @ yy_lookahead_1000 @ yy_lookahead_1100 @ yy_lookahead_1200 @ yy_lookahead_1300 @ yy_lookahead_1400 @ yy_lookahead_1500 @ yy_lookahead_1600 @ yy_lookahead_1700 @ yy_lookahead_1800" and q = "yy_lookahead_2000 @ yy_lookahead_2100 @ yy_lookahead_2200"])
    (simp_all add: yy_lookahead_def yy_lookahead_lengths)

lemma yy_lookahead_2000_nth:
  "map ((!) yy_lookahead) [2000..<2100] = yy_lookahead_2000"
  by (rule window_nth [where p = "yy_lookahead_0 @ yy_lookahead_100 @ yy_lookahead_200 @ yy_lookahead_300 @ yy_lookahead_400 @ yy_lookahead_500 @ yy_lookahead_600 @ yy_lookahead_700 @ yy_lookahead_800 @ yy_lookahead_900 @ yy_lookahead_1000 @ yy_lookahead_1100 @ yy_lookahead_1200 @ yy_lookahead_1300 @ yy_lookahead_1400 @ yy_lookahead_1500 @ yy_lookahead_1600 @ yy_lookahead_1700 @ yy_lookahead_1800 @ yy_lookahead_1900" and q = "yy_lookahead_2100 @ yy_lookahead_2200"])
    (simp_all add: yy_lookahead_def yy_lookahead_lengths)

lemma yy_lookahead_2100_nth:
  "map ((!) yy_lookahead) [2100..<2200] = yy_lookahead_2100"
  by (rule window_nth [where p = "yy_lookahead_0 @ yy_lookahead_100 @ yy_lookahead_200 @ yy_lookahead_300 @ yy_lookahead_400 @ yy_lookahead_500 @ yy_lookahead_600 @ yy_lookahead_700 @ yy_lookahead_800 @ yy_lookahead_900 @ yy_lookahead_1000 @ yy_lookahead_1100 @ yy_lookahead_1200 @ yy_lookahead_1300 @ yy_lookahead_1400 @ yy_lookahead_1500 @ yy_lookahead_1600 @ yy_lookahead_1700 @ yy_lookahead_1800 @ yy_lookahead_1900 @ yy_lookahead_2000" and q = "yy_lookahead_2200"])
    (simp_all add: yy_lookahead_def yy_lookahead_lengths)

lemma yy_lookahead_2200_nth:
  "map ((!) yy_lookahead) [2200..<2281] = yy_lookahead_2200"
  by (rule window_nth [where p = "yy_lookahead_0 @ yy_lookahead_100 @ yy_lookahead_200 @ yy_lookahead_300 @ yy_lookahead_400 @ yy_lookahead_500 @ yy_lookahead_600 @ yy_lookahead_700 @ yy_lookahead_800 @ yy_lookahead_900 @ yy_lookahead_1000 @ yy_lookahead_1100 @ yy_lookahead_1200 @ yy_lookahead_1300 @ yy_lookahead_1400 @ yy_lookahead_1500 @ yy_lookahead_1600 @ yy_lookahead_1700 @ yy_lookahead_1800 @ yy_lookahead_1900 @ yy_lookahead_2000 @ yy_lookahead_2100" and q = "[]"])
    (simp_all add: yy_lookahead_def yy_lookahead_lengths)

section \<open>Offsets for terminals\<close>

definition yy_shift_ofst_0 :: "nat list" where [table_defs]:
  "yy_shift_ofst_0 = [
   1648, 1477, 1272, 322, 322, 1, 1319, 1478, 1491, 1837, 1837, 1837, 471, 0, 0, 214, 1093,
   1837, 1837, 1837, 1837, 1837, 1837, 1837, 1837, 1837, 1837, 1837, 1837, 1837, 271, 271,
   1219, 1219, 216, 88, 1, 1, 1, 1, 1, 40, 111, 258, 361, 469, 512, 583, 622, 693, 732, 803,
   842, 913, 1073, 1093, 1093, 1093, 1093, 1093, 1093, 1093, 1093, 1093, 1093, 1093, 1093,
   1093, 1093, 1093, 1093, 1093, 1093, 1113, 1093, 1216, 957, 957, 1635, 1662, 1777, 1837,
   1837, 1837, 1837, 1837, 1837, 1837, 1837, 1837, 1837, 1837, 1837, 1837, 1837, 1837, 1837,
   1837, 1837, 1837]"

definition yy_shift_ofst_100 :: "nat list" where [table_defs]:
  "yy_shift_ofst_100 = [
   1837, 1837, 1837, 1837, 1837, 1837, 1837, 1837, 1837, 1837, 1837, 1837, 1837, 1837, 1837,
   1837, 1837, 1837, 1837, 1837, 1837, 1837, 1837, 1837, 1837, 1837, 1837, 1837, 1837, 1837,
   137, 181, 181, 181, 181, 181, 181, 181, 94, 430, 66, 65, 112, 366, 533, 533, 740, 1261,
   533, 533, 79, 79, 533, 412, 412, 412, 77, 412, 123, 113, 113, 22, 22, 2096, 2096, 328,
   328, 328, 239, 468, 468, 468, 468, 1015, 1015, 409, 366, 1129, 1186, 533, 533, 533, 533,
   533, 533, 533, 533, 533, 533, 533, 533, 533, 533, 533, 533, 533, 533, 533, 533, 969]"

definition yy_shift_ofst_200 :: "nat list" where [table_defs]:
  "yy_shift_ofst_200 = [
   621, 621, 533, 642, 788, 788, 1228, 1228, 822, 822, 67, 1274, 2096, 2096, 2096, 2096,
   2096, 2096, 2096, 1307, 954, 954, 585, 472, 640, 387, 695, 538, 541, 700, 533, 533, 533,
   533, 533, 533, 533, 533, 533, 533, 222, 533, 533, 533, 533, 533, 533, 533, 533, 533, 533,
   533, 533, 1179, 1179, 1179, 533, 533, 533, 565, 533, 533, 533, 916, 1144, 533, 533, 1288,
   533, 533, 533, 533, 533, 533, 533, 533, 639, 1330, 209, 1076, 1076, 1076, 1076, 580, 209,
   209, 1313, 768, 917, 649, 1181, 1316, 405, 1316, 1238, 249, 1181, 1181, 249, 1181]"

definition yy_shift_ofst_300 :: "nat list" where [table_defs]:
  "yy_shift_ofst_300 = [
   405, 1238, 1369, 464, 1259, 1012, 1012, 1012, 1368, 1368, 1368, 1368, 184, 184, 1326,
   904, 1287, 1480, 1712, 1712, 1633, 1633, 1757, 1757, 1633, 1647, 1651, 1783, 1764, 1791,
   1791, 1791, 1791, 1633, 1806, 1677, 1651, 1651, 1677, 1783, 1764, 1677, 1764, 1677, 1633,
   1806, 1674, 1779, 1633, 1806, 1823, 1633, 1806, 1633, 1806, 1823, 1732, 1732, 1732, 1794,
   1840, 1840, 1823, 1732, 1738, 1732, 1794, 1732, 1732, 1701, 1844, 1758, 1758, 1823, 1633,
   1789, 1789, 1807, 1807, 1742, 1752, 1877, 1633, 1743, 1742, 1759, 1765, 1677, 1879, 1897,
   1897, 1914, 1914, 1914, 2096, 2096, 2096, 2096, 2096, 2096]"

definition yy_shift_ofst_400 :: "nat list" where [table_defs]:
  "yy_shift_ofst_400 = [
   2096, 2096, 2096, 2096, 2096, 2096, 2096, 2096, 2096, 207, 1095, 331, 620, 903, 806,
   1074, 1483, 1432, 1481, 1322, 1370, 1394, 1515, 1291, 1546, 1547, 1557, 1595, 1598, 1599,
   1434, 1453, 1618, 1462, 1567, 1489, 1644, 1654, 1616, 1660, 1548, 1549, 1682, 1685, 1597,
   742, 1941, 1945, 1927, 1787, 1937, 1940, 1934, 1936, 1821, 1810, 1832, 1938, 1938, 1942,
   1822, 1947, 1824, 1949, 1968, 1828, 1841, 1938, 1842, 1912, 1939, 1938, 1826, 1921, 1922,
   1925, 1926, 1850, 1865, 1948, 1843, 1982, 1980, 1964, 1872, 1827, 1928, 1970, 1929, 1923,
   1958, 1848, 1885, 1977, 1983, 1985, 1871, 1880, 1984, 1943]"

definition yy_shift_ofst_500 :: "nat list" where [table_defs]:
  "yy_shift_ofst_500 = [
   1986, 1987, 1988, 1990, 1946, 1955, 1991, 1911, 1989, 1994, 1951, 1992, 1996, 1873, 1998,
   2000, 2001, 2002, 2003, 2004, 1999, 1933, 1890, 2009, 2010, 1910, 2005, 2012, 1892, 2011,
   2006, 2007, 2008, 2013, 1950, 1962, 1957, 2014, 1969, 1952, 2015, 2023, 2026, 2027, 2025,
   2028, 2018, 1913, 1915, 2031, 2011, 2033, 2036, 2037, 2038, 2039, 2040, 2043, 2051, 2044,
   2045, 2046, 2047, 2049, 2050, 2048, 1944, 1935, 1953, 1954, 2052, 2055, 2053, 2073, 2074]"

definition yy_shift_ofst :: "nat list" where
  "yy_shift_ofst = yy_shift_ofst_0 @ yy_shift_ofst_100 @ yy_shift_ofst_200 @ yy_shift_ofst_300 @ yy_shift_ofst_400 @ yy_shift_ofst_500"

lemma yy_shift_ofst_lengths:
  "length yy_shift_ofst_0 = 100"
  "length yy_shift_ofst_100 = 100"
  "length yy_shift_ofst_200 = 100"
  "length yy_shift_ofst_300 = 100"
  "length yy_shift_ofst_400 = 100"
  "length yy_shift_ofst_500 = 75"
  by (simp_all add: table_defs)

lemma length_yy_shift_ofst [simp]: "length yy_shift_ofst = 575"
  by (simp add: yy_shift_ofst_def yy_shift_ofst_lengths)

lemma yy_shift_ofst_0_nth:
  "map ((!) yy_shift_ofst) [0..<100] = yy_shift_ofst_0"
  by (rule window_nth [where p = "[]" and q = "yy_shift_ofst_100 @ yy_shift_ofst_200 @ yy_shift_ofst_300 @ yy_shift_ofst_400 @ yy_shift_ofst_500"])
    (simp_all add: yy_shift_ofst_def yy_shift_ofst_lengths)

lemma yy_shift_ofst_100_nth:
  "map ((!) yy_shift_ofst) [100..<200] = yy_shift_ofst_100"
  by (rule window_nth [where p = "yy_shift_ofst_0" and q = "yy_shift_ofst_200 @ yy_shift_ofst_300 @ yy_shift_ofst_400 @ yy_shift_ofst_500"])
    (simp_all add: yy_shift_ofst_def yy_shift_ofst_lengths)

lemma yy_shift_ofst_200_nth:
  "map ((!) yy_shift_ofst) [200..<300] = yy_shift_ofst_200"
  by (rule window_nth [where p = "yy_shift_ofst_0 @ yy_shift_ofst_100" and q = "yy_shift_ofst_300 @ yy_shift_ofst_400 @ yy_shift_ofst_500"])
    (simp_all add: yy_shift_ofst_def yy_shift_ofst_lengths)

lemma yy_shift_ofst_300_nth:
  "map ((!) yy_shift_ofst) [300..<400] = yy_shift_ofst_300"
  by (rule window_nth [where p = "yy_shift_ofst_0 @ yy_shift_ofst_100 @ yy_shift_ofst_200" and q = "yy_shift_ofst_400 @ yy_shift_ofst_500"])
    (simp_all add: yy_shift_ofst_def yy_shift_ofst_lengths)

lemma yy_shift_ofst_400_nth:
  "map ((!) yy_shift_ofst) [400..<500] = yy_shift_ofst_400"
  by (rule window_nth [where p = "yy_shift_ofst_0 @ yy_shift_ofst_100 @ yy_shift_ofst_200 @ yy_shift_ofst_300" and q = "yy_shift_ofst_500"])
    (simp_all add: yy_shift_ofst_def yy_shift_ofst_lengths)

lemma yy_shift_ofst_500_nth:
  "map ((!) yy_shift_ofst) [500..<575] = yy_shift_ofst_500"
  by (rule window_nth [where p = "yy_shift_ofst_0 @ yy_shift_ofst_100 @ yy_shift_ofst_200 @ yy_shift_ofst_300 @ yy_shift_ofst_400" and q = "[]"])
    (simp_all add: yy_shift_ofst_def yy_shift_ofst_lengths)

section \<open>Offsets for nonterminals\<close>

definition yy_reduce_ofst_0 :: "int list" where [table_defs]:
  "yy_reduce_ofst_0 = [
   - 125, 733, 789, 241, 293, - 123, - 193, - 191, - 183, - 187, 166, 238, 133, - 207,
   - 199, - 267, - 176, - 6, 204, 489, 576, - 175, 598, 686, 615, 725, 860, 778, 781, 857,
   616, 887, 87, 240, - 192, 408, 626, 796, 843, 854, 1003, - 271, - 271, - 271, - 271,
   - 271, - 271, - 271, - 271, - 271, - 271, - 271, - 271, - 271, - 271, - 271, - 271,
   - 271, - 271, - 271, - 271, - 271, - 271, - 271, - 271, - 271, - 271, - 271, - 271,
   - 271, - 271, - 271, - 271, - 271, - 271, - 271, - 271, - 271, 80, 83, 313, 886, 888,
   996, 1034, 1059, 1081, 1100, 1117, 1152, 1155, 1163, 1165, 1167, 1169, 1172, 1180, 1182,
   1184, 1198]"

definition yy_reduce_ofst_100 :: "int list" where [table_defs]:
  "yy_reduce_ofst_100 = [
   1200, 1213, 1215, 1225, 1227, 1252, 1254, 1264, 1299, 1303, 1308, 1312, 1325, 1328, 1337,
   1340, 1343, 1371, 1373, 1384, 1386, 1411, 1420, 1424, 1426, 1458, 1470, 1473, 1475, 1479,
   - 271, - 271, - 271, - 271, - 271, - 271, - 271, - 271, - 271, - 271, - 271, 138, 459,
   396, - 158, 470, 302, - 212, 521, 201, - 195, - 92, 559, 630, 632, 630, - 271, 632, 901,
   63, 407, - 271, - 271, - 271, - 271, 161, 161, 161, 251, 335, 847, 960, 980, 537, 588,
   618, 628, 688, 688, - 166, - 161, 674, 790, 794, 799, 851, 852, - 122, 680, - 120, 995,
   1038, 415, 1051, 893, 798, 962, 400, 1086, 779]"

definition yy_reduce_ofst_200 :: "int list" where [table_defs]:
  "yy_reduce_ofst_200 = [
   923, 924, 263, 1041, 979, 990, 1083, 1097, 1031, 1194, 362, 994, 1139, 1005, 1037, 1202,
   1205, 1195, 1210, - 194, 56, 185, - 135, 232, 522, 560, 601, 617, 669, 683, 711, 856,
   908, 941, 1048, 1101, 1147, 1257, 1262, 1265, 392, 1292, 1333, 1339, 1342, 1346, 1350,
   1359, 1374, 1418, 1421, 1436, 1437, 593, 755, 770, 997, 1445, 1459, 1209, 1500, 1504,
   1516, 1132, 1243, 1518, 1519, 1440, 1520, 560, 1522, 1523, 1524, 1526, 1527, 1529, 1382,
   1438, 1431, 1468, 1469, 1472, 1476, 1209, 1431, 1431, 1485, 1525, 1539, 1435, 1463, 1471,
   1492, 1487, 1443, 1494, 1474, 1484, 1498, 1486]"

definition yy_reduce_ofst_300 :: "int list" where [table_defs]:
  "yy_reduce_ofst_300 = [
   1502, 1455, 1530, 1531, 1533, 1540, 1542, 1544, 1505, 1506, 1507, 1508, 1521, 1528, 1493,
   1537, 1532, 1575, 1488, 1496, 1584, 1594, 1509, 1510, 1600, 1538, 1534, 1541, 1574, 1577,
   1583, 1585, 1586, 1612, 1626, 1581, 1556, 1558, 1587, 1559, 1601, 1588, 1603, 1592, 1631,
   1640, 1550, 1553, 1643, 1645, 1625, 1649, 1652, 1650, 1653, 1632, 1636, 1637, 1642, 1634,
   1639, 1641, 1646, 1656, 1655, 1658, 1659, 1661, 1663, 1560, 1564, 1596, 1605, 1664, 1670,
   1565, 1571, 1627, 1638, 1657, 1665, 1623, 1702, 1630, 1666, 1667, 1671, 1673, 1703, 1718,
   1719, 1729, 1730, 1731, 1621, 1622, 1628, 1720, 1713, 1716]"

definition yy_reduce_ofst_400 :: "int list" where [table_defs]:
  "yy_reduce_ofst_400 = [
   1722, 1723, 1733, 1717, 1724, 1727, 1728, 1725, 1740]"

definition yy_reduce_ofst :: "int list" where
  "yy_reduce_ofst = yy_reduce_ofst_0 @ yy_reduce_ofst_100 @ yy_reduce_ofst_200 @ yy_reduce_ofst_300 @ yy_reduce_ofst_400"

lemma yy_reduce_ofst_lengths:
  "length yy_reduce_ofst_0 = 100"
  "length yy_reduce_ofst_100 = 100"
  "length yy_reduce_ofst_200 = 100"
  "length yy_reduce_ofst_300 = 100"
  "length yy_reduce_ofst_400 = 9"
  by (simp_all add: table_defs)

lemma length_yy_reduce_ofst [simp]: "length yy_reduce_ofst = 409"
  by (simp add: yy_reduce_ofst_def yy_reduce_ofst_lengths)

lemma yy_reduce_ofst_0_nth:
  "map ((!) yy_reduce_ofst) [0..<100] = yy_reduce_ofst_0"
  by (rule window_nth [where p = "[]" and q = "yy_reduce_ofst_100 @ yy_reduce_ofst_200 @ yy_reduce_ofst_300 @ yy_reduce_ofst_400"])
    (simp_all add: yy_reduce_ofst_def yy_reduce_ofst_lengths)

lemma yy_reduce_ofst_100_nth:
  "map ((!) yy_reduce_ofst) [100..<200] = yy_reduce_ofst_100"
  by (rule window_nth [where p = "yy_reduce_ofst_0" and q = "yy_reduce_ofst_200 @ yy_reduce_ofst_300 @ yy_reduce_ofst_400"])
    (simp_all add: yy_reduce_ofst_def yy_reduce_ofst_lengths)

lemma yy_reduce_ofst_200_nth:
  "map ((!) yy_reduce_ofst) [200..<300] = yy_reduce_ofst_200"
  by (rule window_nth [where p = "yy_reduce_ofst_0 @ yy_reduce_ofst_100" and q = "yy_reduce_ofst_300 @ yy_reduce_ofst_400"])
    (simp_all add: yy_reduce_ofst_def yy_reduce_ofst_lengths)

lemma yy_reduce_ofst_300_nth:
  "map ((!) yy_reduce_ofst) [300..<400] = yy_reduce_ofst_300"
  by (rule window_nth [where p = "yy_reduce_ofst_0 @ yy_reduce_ofst_100 @ yy_reduce_ofst_200" and q = "yy_reduce_ofst_400"])
    (simp_all add: yy_reduce_ofst_def yy_reduce_ofst_lengths)

lemma yy_reduce_ofst_400_nth:
  "map ((!) yy_reduce_ofst) [400..<409] = yy_reduce_ofst_400"
  by (rule window_nth [where p = "yy_reduce_ofst_0 @ yy_reduce_ofst_100 @ yy_reduce_ofst_200 @ yy_reduce_ofst_300" and q = "[]"])
    (simp_all add: yy_reduce_ofst_def yy_reduce_ofst_lengths)

section \<open>Default actions\<close>

definition yy_default_0 :: "nat list" where [table_defs]:
  "yy_default_0 = [
   1641, 1641, 1641, 1469, 1236, 1347, 1236, 1236, 1236, 1469, 1469, 1469, 1236, 1377, 1377,
   1522, 1269, 1236, 1236, 1236, 1236, 1236, 1236, 1236, 1236, 1236, 1236, 1468, 1236, 1236,
   1236, 1236, 1557, 1557, 1236, 1236, 1236, 1236, 1236, 1236, 1236, 1236, 1386, 1236, 1393,
   1236, 1236, 1236, 1236, 1236, 1470, 1471, 1236, 1236, 1236, 1521, 1523, 1486, 1400, 1399,
   1398, 1397, 1504, 1365, 1391, 1384, 1388, 1465, 1466, 1464, 1619, 1471, 1470, 1236, 1387,
   1433, 1449, 1432, 1236, 1236, 1236, 1236, 1236, 1236, 1236, 1236, 1236, 1236, 1236, 1236,
   1236, 1236, 1236, 1236, 1236, 1236, 1236, 1236, 1236, 1236]"

definition yy_default_100 :: "nat list" where [table_defs]:
  "yy_default_100 = [
   1236, 1236, 1236, 1236, 1236, 1236, 1236, 1236, 1236, 1236, 1236, 1236, 1236, 1236, 1236,
   1236, 1236, 1236, 1236, 1236, 1236, 1236, 1236, 1236, 1236, 1236, 1236, 1236, 1236, 1236,
   1441, 1448, 1447, 1446, 1455, 1445, 1442, 1435, 1434, 1436, 1437, 1236, 1236, 1260, 1236,
   1236, 1257, 1311, 1236, 1236, 1236, 1236, 1236, 1541, 1540, 1236, 1438, 1236, 1269, 1427,
   1426, 1452, 1439, 1451, 1450, 1529, 1593, 1592, 1487, 1236, 1236, 1236, 1236, 1236, 1236,
   1557, 1236, 1236, 1236, 1236, 1236, 1236, 1236, 1236, 1236, 1236, 1236, 1236, 1236, 1236,
   1236, 1236, 1236, 1236, 1236, 1236, 1236, 1236, 1236, 1367]"

definition yy_default_200 :: "nat list" where [table_defs]:
  "yy_default_200 = [
   1557, 1557, 1236, 1269, 1557, 1557, 1368, 1368, 1265, 1265, 1371, 1236, 1536, 1338, 1338,
   1338, 1338, 1347, 1338, 1236, 1236, 1236, 1236, 1236, 1236, 1236, 1236, 1236, 1236, 1236,
   1236, 1236, 1236, 1236, 1526, 1524, 1236, 1236, 1236, 1236, 1236, 1236, 1236, 1236, 1236,
   1236, 1236, 1236, 1236, 1236, 1236, 1236, 1236, 1236, 1236, 1236, 1236, 1236, 1236, 1236,
   1236, 1236, 1236, 1343, 1236, 1236, 1236, 1236, 1236, 1236, 1236, 1236, 1236, 1236, 1236,
   1586, 1236, 1499, 1325, 1343, 1343, 1343, 1343, 1345, 1326, 1324, 1337, 1270, 1243, 1633,
   1403, 1392, 1344, 1392, 1630, 1390, 1403, 1403, 1390, 1403]"

definition yy_default_300 :: "nat list" where [table_defs]:
  "yy_default_300 = [
   1344, 1630, 1286, 1608, 1281, 1377, 1377, 1377, 1367, 1367, 1367, 1367, 1371, 1371, 1467,
   1344, 1337, 1236, 1633, 1633, 1353, 1353, 1632, 1632, 1353, 1487, 1616, 1412, 1314, 1320,
   1320, 1320, 1320, 1353, 1254, 1390, 1616, 1616, 1390, 1412, 1314, 1390, 1314, 1390, 1353,
   1254, 1503, 1627, 1353, 1254, 1477, 1353, 1254, 1353, 1254, 1477, 1312, 1312, 1312, 1301,
   1236, 1236, 1477, 1312, 1286, 1312, 1301, 1312, 1312, 1575, 1236, 1481, 1481, 1477, 1353,
   1567, 1567, 1380, 1380, 1385, 1371, 1472, 1353, 1236, 1385, 1383, 1381, 1390, 1304, 1589,
   1589, 1585, 1585, 1585, 1638, 1638, 1536, 1601, 1269, 1269]"

definition yy_default_400 :: "nat list" where [table_defs]:
  "yy_default_400 = [
   1269, 1269, 1601, 1288, 1288, 1270, 1270, 1269, 1601, 1236, 1236, 1236, 1236, 1236, 1236,
   1596, 1236, 1531, 1488, 1357, 1236, 1236, 1236, 1236, 1236, 1236, 1236, 1236, 1236, 1236,
   1236, 1236, 1236, 1236, 1542, 1236, 1236, 1236, 1236, 1236, 1236, 1236, 1236, 1236, 1236,
   1417, 1236, 1239, 1533, 1236, 1236, 1236, 1236, 1236, 1236, 1236, 1236, 1394, 1395, 1358,
   1236, 1236, 1236, 1236, 1236, 1236, 1236, 1409, 1236, 1236, 1236, 1404, 1236, 1236, 1236,
   1236, 1236, 1236, 1236, 1236, 1629, 1236, 1236, 1236, 1236, 1236, 1236, 1502, 1501, 1236,
   1236, 1355, 1236, 1236, 1236, 1236, 1236, 1236, 1236, 1236]"

definition yy_default_500 :: "nat list" where [table_defs]:
  "yy_default_500 = [
   1236, 1236, 1236, 1236, 1236, 1284, 1236, 1236, 1236, 1236, 1236, 1236, 1236, 1236, 1236,
   1236, 1236, 1236, 1236, 1236, 1236, 1236, 1236, 1236, 1236, 1236, 1236, 1236, 1236, 1382,
   1236, 1236, 1236, 1236, 1236, 1236, 1236, 1236, 1236, 1236, 1236, 1236, 1236, 1236, 1572,
   1372, 1236, 1236, 1236, 1236, 1620, 1236, 1236, 1236, 1236, 1236, 1236, 1236, 1236, 1236,
   1236, 1236, 1236, 1236, 1236, 1612, 1328, 1418, 1236, 1421, 1258, 1236, 1248, 1236, 1236]"

definition yy_default :: "nat list" where
  "yy_default = yy_default_0 @ yy_default_100 @ yy_default_200 @ yy_default_300 @ yy_default_400 @ yy_default_500"

lemma yy_default_lengths:
  "length yy_default_0 = 100"
  "length yy_default_100 = 100"
  "length yy_default_200 = 100"
  "length yy_default_300 = 100"
  "length yy_default_400 = 100"
  "length yy_default_500 = 75"
  by (simp_all add: table_defs)

lemma length_yy_default [simp]: "length yy_default = 575"
  by (simp add: yy_default_def yy_default_lengths)

lemma yy_default_0_nth:
  "map ((!) yy_default) [0..<100] = yy_default_0"
  by (rule window_nth [where p = "[]" and q = "yy_default_100 @ yy_default_200 @ yy_default_300 @ yy_default_400 @ yy_default_500"])
    (simp_all add: yy_default_def yy_default_lengths)

lemma yy_default_100_nth:
  "map ((!) yy_default) [100..<200] = yy_default_100"
  by (rule window_nth [where p = "yy_default_0" and q = "yy_default_200 @ yy_default_300 @ yy_default_400 @ yy_default_500"])
    (simp_all add: yy_default_def yy_default_lengths)

lemma yy_default_200_nth:
  "map ((!) yy_default) [200..<300] = yy_default_200"
  by (rule window_nth [where p = "yy_default_0 @ yy_default_100" and q = "yy_default_300 @ yy_default_400 @ yy_default_500"])
    (simp_all add: yy_default_def yy_default_lengths)

lemma yy_default_300_nth:
  "map ((!) yy_default) [300..<400] = yy_default_300"
  by (rule window_nth [where p = "yy_default_0 @ yy_default_100 @ yy_default_200" and q = "yy_default_400 @ yy_default_500"])
    (simp_all add: yy_default_def yy_default_lengths)

lemma yy_default_400_nth:
  "map ((!) yy_default) [400..<500] = yy_default_400"
  by (rule window_nth [where p = "yy_default_0 @ yy_default_100 @ yy_default_200 @ yy_default_300" and q = "yy_default_500"])
    (simp_all add: yy_default_def yy_default_lengths)

lemma yy_default_500_nth:
  "map ((!) yy_default) [500..<575] = yy_default_500"
  by (rule window_nth [where p = "yy_default_0 @ yy_default_100 @ yy_default_200 @ yy_default_300 @ yy_default_400" and q = "[]"])
    (simp_all add: yy_default_def yy_default_lengths)

section \<open>Fallback tokens\<close>

definition yyFallback_0 :: "nat list" where [table_defs]:
  "yyFallback_0 = [
   0, 0, 59, 59, 59, 59, 0, 59, 59, 59, 0, 59, 59, 59, 59, 0, 0, 0, 59, 0, 0, 59, 0, 0, 0,
   0, 59, 59, 59, 59, 59, 59, 59, 59, 59, 59, 59, 59, 59, 59, 59, 59, 59, 0, 0, 0, 59, 59,
   0, 0, 0, 0, 0, 0, 0, 0, 0, 0, 0, 0, 59, 59, 59, 59, 59, 59, 59, 59, 59, 59, 59, 59, 59,
   59, 59, 59, 59, 59, 59, 59, 59, 59, 59, 59, 59, 59, 59, 59, 59, 59, 59, 59, 59, 59, 59,
   59, 59, 59, 59, 59]"

definition yyFallback_100 :: "nat list" where [table_defs]:
  "yyFallback_100 = [
   59, 0, 0, 0, 0, 0, 0, 0, 0, 0, 0, 0, 0, 0, 0, 0, 0, 0, 0, 0, 0, 0, 0, 0, 0, 0, 0, 0, 0,
   0, 0, 0, 0, 0, 0, 0, 0, 0, 0, 0, 0, 0, 0, 0, 0, 0, 0, 0, 0, 0, 0, 0, 0, 0, 0, 0, 0, 0, 0,
   0, 0, 0, 0, 0, 0, 0, 0, 0, 0, 0, 0, 0, 0, 0, 0, 0, 0, 0, 0, 0, 0, 0, 0, 0, 0]"

definition yyFallback :: "nat list" where
  "yyFallback = yyFallback_0 @ yyFallback_100"

lemma yyFallback_lengths:
  "length yyFallback_0 = 100"
  "length yyFallback_100 = 85"
  by (simp_all add: table_defs)

lemma length_yyFallback [simp]: "length yyFallback = 185"
  by (simp add: yyFallback_def yyFallback_lengths)

lemma yyFallback_0_nth:
  "map ((!) yyFallback) [0..<100] = yyFallback_0"
  by (rule window_nth [where p = "[]" and q = "yyFallback_100"])
    (simp_all add: yyFallback_def yyFallback_lengths)

lemma yyFallback_100_nth:
  "map ((!) yyFallback) [100..<185] = yyFallback_100"
  by (rule window_nth [where p = "yyFallback_0" and q = "[]"])
    (simp_all add: yyFallback_def yyFallback_lengths)

end
