(* ===== verification/SqChars.thy ===== *)
theory SqChars
  imports SqTables Prelude "HOL-Library.Word"
begin

text \<open>
  The character tables of \<open>global.c\<close> and \<open>tokenize.c\<close> (the ASCII variants), entry by entry in
  pieces, and the macros that read them. A byte is an \<open>8 word\<close>, so every lookup is in its table.
\<close>

named_theorems char_defs \<open>the pieces of the character tables\<close>

unbundle bit_operations_syntax

section \<open>Tables\<close>

definition sqlite3UpperToLower_0 :: "nat list" where [char_defs]:
  "sqlite3UpperToLower_0 = [
   0, 1, 2, 3, 4, 5, 6, 7, 8, 9, 10, 11, 12, 13, 14, 15, 16, 17, 18, 19, 20, 21, 22, 23, 24,
   25, 26, 27, 28, 29, 30, 31, 32, 33, 34, 35, 36, 37, 38, 39, 40, 41, 42, 43, 44, 45, 46,
   47, 48, 49, 50, 51, 52, 53, 54, 55, 56, 57, 58, 59, 60, 61, 62, 63, 64, 97, 98, 99, 100,
   101, 102, 103, 104, 105, 106, 107, 108, 109, 110, 111, 112, 113, 114, 115, 116, 117, 118,
   119, 120, 121]"

definition sqlite3UpperToLower_90 :: "nat list" where [char_defs]:
  "sqlite3UpperToLower_90 = [
   122, 91, 92, 93, 94, 95, 96, 97, 98, 99, 100, 101, 102, 103, 104, 105, 106, 107, 108,
   109, 110, 111, 112, 113, 114, 115, 116, 117, 118, 119, 120, 121, 122, 123, 124, 125, 126,
   127, 128, 129, 130, 131, 132, 133, 134, 135, 136, 137, 138, 139, 140, 141, 142, 143, 144,
   145, 146, 147, 148, 149, 150, 151, 152, 153, 154, 155, 156, 157, 158, 159, 160, 161, 162,
   163, 164, 165, 166, 167, 168, 169, 170, 171, 172, 173, 174, 175, 176, 177, 178, 179]"

definition sqlite3UpperToLower_180 :: "nat list" where [char_defs]:
  "sqlite3UpperToLower_180 = [
   180, 181, 182, 183, 184, 185, 186, 187, 188, 189, 190, 191, 192, 193, 194, 195, 196, 197,
   198, 199, 200, 201, 202, 203, 204, 205, 206, 207, 208, 209, 210, 211, 212, 213, 214, 215,
   216, 217, 218, 219, 220, 221, 222, 223, 224, 225, 226, 227, 228, 229, 230, 231, 232, 233,
   234, 235, 236, 237, 238, 239, 240, 241, 242, 243, 244, 245, 246, 247, 248, 249, 250, 251,
   252, 253, 254, 255]"

definition sqlite3UpperToLower :: "nat list" where
  "sqlite3UpperToLower = sqlite3UpperToLower_0 @ sqlite3UpperToLower_90 @ sqlite3UpperToLower_180"

lemma sqlite3UpperToLower_lengths:
  "length sqlite3UpperToLower_0 = 90"
  "length sqlite3UpperToLower_90 = 90"
  "length sqlite3UpperToLower_180 = 76"
  by (simp_all add: char_defs)

lemma length_sqlite3UpperToLower [simp]: "length sqlite3UpperToLower = 256"
  by (simp add: sqlite3UpperToLower_def sqlite3UpperToLower_lengths)

lemma sqlite3UpperToLower_0_nth:
  "map ((!) sqlite3UpperToLower) [0..<90] = sqlite3UpperToLower_0"
  by (rule window_nth [where p = "[]" and q = "sqlite3UpperToLower_90 @ sqlite3UpperToLower_180"])
    (simp_all add: sqlite3UpperToLower_def sqlite3UpperToLower_lengths)

lemma sqlite3UpperToLower_90_nth:
  "map ((!) sqlite3UpperToLower) [90..<180] = sqlite3UpperToLower_90"
  by (rule window_nth [where p = "sqlite3UpperToLower_0" and q = "sqlite3UpperToLower_180"])
    (simp_all add: sqlite3UpperToLower_def sqlite3UpperToLower_lengths)

lemma sqlite3UpperToLower_180_nth:
  "map ((!) sqlite3UpperToLower) [180..<256] = sqlite3UpperToLower_180"
  by (rule window_nth [where p = "sqlite3UpperToLower_0 @ sqlite3UpperToLower_90" and q = "[]"])
    (simp_all add: sqlite3UpperToLower_def sqlite3UpperToLower_lengths)

lemmas sqlite3UpperToLower_0_entries = sqlite3UpperToLower_0_nth [unfolded sqlite3UpperToLower_0_def, simplified upt_from_0, simplified]
lemmas sqlite3UpperToLower_90_entries = sqlite3UpperToLower_90_nth [unfolded sqlite3UpperToLower_90_def, simplified]
lemmas sqlite3UpperToLower_180_entries = sqlite3UpperToLower_180_nth [unfolded sqlite3UpperToLower_180_def, simplified]

lemmas sqlite3UpperToLower_entries = sqlite3UpperToLower_0_entries sqlite3UpperToLower_90_entries sqlite3UpperToLower_180_entries

definition sqlite3CtypeMap_0 :: "nat list" where [char_defs]:
  "sqlite3CtypeMap_0 = [
   0, 0, 0, 0, 0, 0, 0, 0, 0, 1, 1, 1, 1, 1, 0, 0, 0, 0, 0, 0, 0, 0, 0, 0, 0, 0, 0, 0, 0, 0,
   0, 0, 1, 0, 128, 0, 64, 0, 0, 128, 0, 0, 0, 0, 0, 0, 0, 0, 12, 12, 12, 12, 12, 12, 12,
   12, 12, 12, 0, 0, 0, 0, 0, 0]"

definition sqlite3CtypeMap_64 :: "nat list" where [char_defs]:
  "sqlite3CtypeMap_64 = [
   0, 10, 10, 10, 10, 10, 10, 2, 2, 2, 2, 2, 2, 2, 2, 2, 2, 2, 2, 2, 2, 2, 2, 2, 2, 2, 2,
   128, 0, 0, 0, 64, 128, 42, 42, 42, 42, 42, 42, 34, 34, 34, 34, 34, 34, 34, 34, 34, 34,
   34, 34, 34, 34, 34, 34, 34, 34, 34, 34, 0, 0, 0, 0, 0]"

definition sqlite3CtypeMap_128 :: "nat list" where [char_defs]:
  "sqlite3CtypeMap_128 = [
   64, 64, 64, 64, 64, 64, 64, 64, 64, 64, 64, 64, 64, 64, 64, 64, 64, 64, 64, 64, 64, 64,
   64, 64, 64, 64, 64, 64, 64, 64, 64, 64, 64, 64, 64, 64, 64, 64, 64, 64, 64, 64, 64, 64,
   64, 64, 64, 64, 64, 64, 64, 64, 64, 64, 64, 64, 64, 64, 64, 64, 64, 64, 64, 64]"

definition sqlite3CtypeMap_192 :: "nat list" where [char_defs]:
  "sqlite3CtypeMap_192 = [
   64, 64, 64, 64, 64, 64, 64, 64, 64, 64, 64, 64, 64, 64, 64, 64, 64, 64, 64, 64, 64, 64,
   64, 64, 64, 64, 64, 64, 64, 64, 64, 64, 64, 64, 64, 64, 64, 64, 64, 64, 64, 64, 64, 64,
   64, 64, 64, 64, 64, 64, 64, 64, 64, 64, 64, 64, 64, 64, 64, 64, 64, 64, 64, 64]"

definition sqlite3CtypeMap :: "nat list" where
  "sqlite3CtypeMap = sqlite3CtypeMap_0 @ sqlite3CtypeMap_64 @ sqlite3CtypeMap_128 @ sqlite3CtypeMap_192"

lemma sqlite3CtypeMap_lengths:
  "length sqlite3CtypeMap_0 = 64"
  "length sqlite3CtypeMap_64 = 64"
  "length sqlite3CtypeMap_128 = 64"
  "length sqlite3CtypeMap_192 = 64"
  by (simp_all add: char_defs)

lemma length_sqlite3CtypeMap [simp]: "length sqlite3CtypeMap = 256"
  by (simp add: sqlite3CtypeMap_def sqlite3CtypeMap_lengths)

lemma sqlite3CtypeMap_0_nth:
  "map ((!) sqlite3CtypeMap) [0..<64] = sqlite3CtypeMap_0"
  by (rule window_nth [where p = "[]" and q = "sqlite3CtypeMap_64 @ sqlite3CtypeMap_128 @ sqlite3CtypeMap_192"])
    (simp_all add: sqlite3CtypeMap_def sqlite3CtypeMap_lengths)

lemma sqlite3CtypeMap_64_nth:
  "map ((!) sqlite3CtypeMap) [64..<128] = sqlite3CtypeMap_64"
  by (rule window_nth [where p = "sqlite3CtypeMap_0" and q = "sqlite3CtypeMap_128 @ sqlite3CtypeMap_192"])
    (simp_all add: sqlite3CtypeMap_def sqlite3CtypeMap_lengths)

lemma sqlite3CtypeMap_128_nth:
  "map ((!) sqlite3CtypeMap) [128..<192] = sqlite3CtypeMap_128"
  by (rule window_nth [where p = "sqlite3CtypeMap_0 @ sqlite3CtypeMap_64" and q = "sqlite3CtypeMap_192"])
    (simp_all add: sqlite3CtypeMap_def sqlite3CtypeMap_lengths)

lemma sqlite3CtypeMap_192_nth:
  "map ((!) sqlite3CtypeMap) [192..<256] = sqlite3CtypeMap_192"
  by (rule window_nth [where p = "sqlite3CtypeMap_0 @ sqlite3CtypeMap_64 @ sqlite3CtypeMap_128" and q = "[]"])
    (simp_all add: sqlite3CtypeMap_def sqlite3CtypeMap_lengths)

lemmas sqlite3CtypeMap_0_entries = sqlite3CtypeMap_0_nth [unfolded sqlite3CtypeMap_0_def, simplified upt_from_0, simplified]
lemmas sqlite3CtypeMap_64_entries = sqlite3CtypeMap_64_nth [unfolded sqlite3CtypeMap_64_def, simplified]
lemmas sqlite3CtypeMap_128_entries = sqlite3CtypeMap_128_nth [unfolded sqlite3CtypeMap_128_def, simplified]
lemmas sqlite3CtypeMap_192_entries = sqlite3CtypeMap_192_nth [unfolded sqlite3CtypeMap_192_def, simplified]

lemmas sqlite3CtypeMap_entries = sqlite3CtypeMap_0_entries sqlite3CtypeMap_64_entries sqlite3CtypeMap_128_entries sqlite3CtypeMap_192_entries

definition aiClass_0 :: "nat list" where [char_defs]:
  "aiClass_0 = [
   29, 28, 28, 28, 28, 28, 28, 28, 28, 7, 7, 28, 7, 7, 28, 28, 28, 28, 28, 28, 28, 28, 28,
   28, 28, 28, 28, 28, 28, 28, 28, 28, 7, 15, 8, 5, 4, 22, 24, 8, 17, 18, 21, 20, 23, 11,
   26, 16, 3, 3, 3, 3, 3, 3, 3, 3, 3, 3, 5, 19, 12, 14, 13, 6]"

definition aiClass_64 :: "nat list" where [char_defs]:
  "aiClass_64 = [
   5, 1, 1, 1, 1, 1, 1, 1, 1, 1, 1, 1, 1, 1, 1, 1, 1, 1, 1, 1, 1, 1, 1, 1, 0, 2, 2, 9, 28,
   28, 28, 2, 8, 1, 1, 1, 1, 1, 1, 1, 1, 1, 1, 1, 1, 1, 1, 1, 1, 1, 1, 1, 1, 1, 1, 1, 0, 2,
   2, 28, 10, 28, 25, 28]"

definition aiClass_128 :: "nat list" where [char_defs]:
  "aiClass_128 = [
   27, 27, 27, 27, 27, 27, 27, 27, 27, 27, 27, 27, 27, 27, 27, 27, 27, 27, 27, 27, 27, 27,
   27, 27, 27, 27, 27, 27, 27, 27, 27, 27, 27, 27, 27, 27, 27, 27, 27, 27, 27, 27, 27, 27,
   27, 27, 27, 27, 27, 27, 27, 27, 27, 27, 27, 27, 27, 27, 27, 27, 27, 27, 27, 27]"

definition aiClass_192 :: "nat list" where [char_defs]:
  "aiClass_192 = [
   27, 27, 27, 27, 27, 27, 27, 27, 27, 27, 27, 27, 27, 27, 27, 27, 27, 27, 27, 27, 27, 27,
   27, 27, 27, 27, 27, 27, 27, 27, 27, 27, 27, 27, 27, 27, 27, 27, 27, 27, 27, 27, 27, 27,
   27, 27, 27, 30, 27, 27, 27, 27, 27, 27, 27, 27, 27, 27, 27, 27, 27, 27, 27, 27]"

definition aiClass :: "nat list" where
  "aiClass = aiClass_0 @ aiClass_64 @ aiClass_128 @ aiClass_192"

lemma aiClass_lengths:
  "length aiClass_0 = 64"
  "length aiClass_64 = 64"
  "length aiClass_128 = 64"
  "length aiClass_192 = 64"
  by (simp_all add: char_defs)

lemma length_aiClass [simp]: "length aiClass = 256"
  by (simp add: aiClass_def aiClass_lengths)

lemma aiClass_0_nth:
  "map ((!) aiClass) [0..<64] = aiClass_0"
  by (rule window_nth [where p = "[]" and q = "aiClass_64 @ aiClass_128 @ aiClass_192"])
    (simp_all add: aiClass_def aiClass_lengths)

lemma aiClass_64_nth:
  "map ((!) aiClass) [64..<128] = aiClass_64"
  by (rule window_nth [where p = "aiClass_0" and q = "aiClass_128 @ aiClass_192"])
    (simp_all add: aiClass_def aiClass_lengths)

lemma aiClass_128_nth:
  "map ((!) aiClass) [128..<192] = aiClass_128"
  by (rule window_nth [where p = "aiClass_0 @ aiClass_64" and q = "aiClass_192"])
    (simp_all add: aiClass_def aiClass_lengths)

lemma aiClass_192_nth:
  "map ((!) aiClass) [192..<256] = aiClass_192"
  by (rule window_nth [where p = "aiClass_0 @ aiClass_64 @ aiClass_128" and q = "[]"])
    (simp_all add: aiClass_def aiClass_lengths)

lemmas aiClass_0_entries = aiClass_0_nth [unfolded aiClass_0_def, simplified upt_from_0, simplified]
lemmas aiClass_64_entries = aiClass_64_nth [unfolded aiClass_64_def, simplified]
lemmas aiClass_128_entries = aiClass_128_nth [unfolded aiClass_128_def, simplified]
lemmas aiClass_192_entries = aiClass_192_nth [unfolded aiClass_192_def, simplified]

lemmas aiClass_entries = aiClass_0_entries aiClass_64_entries aiClass_128_entries aiClass_192_entries

section \<open>Character classes\<close>

named_theorems class_defs \<open>the numbers of the character classes\<close>

definition CC_X :: nat where [class_defs]: "CC_X = 0"
definition CC_KYWD0 :: nat where [class_defs]: "CC_KYWD0 = 1"
definition CC_KYWD :: nat where [class_defs]: "CC_KYWD = 2"
definition CC_DIGIT :: nat where [class_defs]: "CC_DIGIT = 3"
definition CC_DOLLAR :: nat where [class_defs]: "CC_DOLLAR = 4"
definition CC_VARALPHA :: nat where [class_defs]: "CC_VARALPHA = 5"
definition CC_VARNUM :: nat where [class_defs]: "CC_VARNUM = 6"
definition CC_SPACE :: nat where [class_defs]: "CC_SPACE = 7"
definition CC_QUOTE :: nat where [class_defs]: "CC_QUOTE = 8"
definition CC_QUOTE2 :: nat where [class_defs]: "CC_QUOTE2 = 9"
definition CC_PIPE :: nat where [class_defs]: "CC_PIPE = 10"
definition CC_MINUS :: nat where [class_defs]: "CC_MINUS = 11"
definition CC_LT :: nat where [class_defs]: "CC_LT = 12"
definition CC_GT :: nat where [class_defs]: "CC_GT = 13"
definition CC_EQ :: nat where [class_defs]: "CC_EQ = 14"
definition CC_BANG :: nat where [class_defs]: "CC_BANG = 15"
definition CC_SLASH :: nat where [class_defs]: "CC_SLASH = 16"
definition CC_LP :: nat where [class_defs]: "CC_LP = 17"
definition CC_RP :: nat where [class_defs]: "CC_RP = 18"
definition CC_SEMI :: nat where [class_defs]: "CC_SEMI = 19"
definition CC_PLUS :: nat where [class_defs]: "CC_PLUS = 20"
definition CC_STAR :: nat where [class_defs]: "CC_STAR = 21"
definition CC_PERCENT :: nat where [class_defs]: "CC_PERCENT = 22"
definition CC_COMMA :: nat where [class_defs]: "CC_COMMA = 23"
definition CC_AND :: nat where [class_defs]: "CC_AND = 24"
definition CC_TILDA :: nat where [class_defs]: "CC_TILDA = 25"
definition CC_DOT :: nat where [class_defs]: "CC_DOT = 26"
definition CC_ID :: nat where [class_defs]: "CC_ID = 27"
definition CC_ILLEGAL :: nat where [class_defs]: "CC_ILLEGAL = 28"
definition CC_NUL :: nat where [class_defs]: "CC_NUL = 29"
definition CC_BOM :: nat where [class_defs]: "CC_BOM = 30"

section \<open>Macros\<close>

definition char_class :: "8 word \<Rightarrow> nat" where
  "char_class c = aiClass ! unat c"

definition charMap :: "8 word \<Rightarrow> nat" where
  "charMap c = sqlite3UpperToLower ! unat c"

definition ctype :: "8 word \<Rightarrow> nat" where
  "ctype c = sqlite3CtypeMap ! unat c"

definition sqlite3Isspace :: "8 word \<Rightarrow> bool" where
  "sqlite3Isspace c \<longleftrightarrow> ctype c AND 0x01 \<noteq> 0"

definition sqlite3Isdigit :: "8 word \<Rightarrow> bool" where
  "sqlite3Isdigit c \<longleftrightarrow> ctype c AND 0x04 \<noteq> 0"

definition sqlite3Isxdigit :: "8 word \<Rightarrow> bool" where
  "sqlite3Isxdigit c \<longleftrightarrow> ctype c AND 0x08 \<noteq> 0"

definition sqlite3Isquote :: "8 word \<Rightarrow> bool" where
  "sqlite3Isquote c \<longleftrightarrow> ctype c AND 0x80 \<noteq> 0"

definition IdChar :: "8 word \<Rightarrow> bool" where
  "IdChar c \<longleftrightarrow> ctype c AND 0x46 \<noteq> 0"

definition sqlite3Toupper :: "8 word \<Rightarrow> 8 word" where
  "sqlite3Toupper c = c AND NOT (word_of_nat (ctype c) AND 0x20)"

definition sqlite3Tolower :: "8 word \<Rightarrow> 8 word" where
  "sqlite3Tolower c = word_of_nat (sqlite3UpperToLower ! unat c)"

lemmas macro_defs = char_class_def charMap_def ctype_def sqlite3Isspace_def sqlite3Isdigit_def
  sqlite3Isxdigit_def sqlite3Isquote_def IdChar_def sqlite3Toupper_def sqlite3Tolower_def

section \<open>All bytes\<close>

lemma unat_byte_less: "unat (c :: 8 word) < 256"
  using unsigned_less [where 'a = nat, of c] by simp

text \<open>A property of all bytes is checked on the numbers below 256.\<close>

lemma all_bytes:
  assumes "list_all (\<lambda>k. P (word_of_nat k)) [0..<256]"
  shows "P (c :: 8 word)"
proof -
  have "\<forall>k \<in> {0..<256}. P (word_of_nat k)" using assms by (simp only: list_all_iff set_upt)
  then have "P (word_of_nat (unat c))" by (rule bspec) (simp add: unat_byte_less)
  then show ?thesis by simp
qed

text \<open>The byte that ends a string has no class but its own.\<close>

lemma nul_macros [simp]:
  "char_class 0 = CC_NUL" "\<not> sqlite3Isspace 0" "\<not> sqlite3Isdigit 0" "\<not> sqlite3Isxdigit 0"
  "\<not> sqlite3Isquote 0" "\<not> IdChar 0"
  by (simp_all add: macro_defs class_defs aiClass_0_entries sqlite3CtypeMap_0_entries)

end
