(* ===== verification/SqKwTables.thy ===== *)
theory SqKwTables
  imports SqChars
begin

text \<open>
  The tables that \<open>mkkeywordhash\<close> generated into \<open>keywordhash.h\<close>: the overlapping texts of the
  keywords, the hash heads and chains, lengths, offsets and token codes.
\<close>

named_theorems kw_defs \<open>the pieces of the keyword tables\<close>

section \<open>The texts\<close>

definition zKWText_0 :: "string" where [kw_defs]:
  "zKWText_0 = ''REINDEXEDESCAPEACHECKEYBEFOREIGNOREGEXPLAINSTEADDATABASELECTABLEFTHENDEF''"

definition zKWText_72 :: "string" where [kw_defs]:
  "zKWText_72 = ''ERRABLELSEXCLUDELETEMPORARYISNULLSAVEPOINTERSECTIESNOTNULLIKEXCEPTRANSAC''"

definition zKWText_144 :: "string" where [kw_defs]:
  "zKWText_144 = ''TIONATURALTERAISEXCLUSIVEXISTSCONSTRAINTOFFSETRIGGERANGENERATEDETACHAVIN''"

definition zKWText_216 :: "string" where [kw_defs]:
  "zKWText_216 = ''GLOBEGINNEREFERENCESUNIQUERYWITHOUTERELEASEATTACHBETWEENOTHINGROUPSCASCA''"

definition zKWText_288 :: "string" where [kw_defs]:
  "zKWText_288 = ''DEFAULTCASECOLLATECREATECURRENT_DATEIMMEDIATEJOINSERTMATCHPLANALYZEPRAGM''"

definition zKWText_360 :: "string" where [kw_defs]:
  "zKWText_360 = ''ATERIALIZEDEFERREDISTINCTUPDATEVALUESVIRTUALWAYSWHENWHERECURSIVEABORTAFT''"

definition zKWText_432 :: "string" where [kw_defs]:
  "zKWText_432 = ''ERENAMEANDROPARTITIONAUTOINCREMENTCASTCOLUMNCOMMITCONFLICTCROSSCURRENT_T''"

definition zKWText_504 :: "string" where [kw_defs]:
  "zKWText_504 = ''IMESTAMPRECEDINGFAILASTFILTEREPLACEFIRSTFOLLOWINGFROMFULLIMITIFORDERESTR''"

definition zKWText_576 :: "string" where [kw_defs]:
  "zKWText_576 = ''ICTOTHERSOVERETURNINGRIGHTROLLBACKROWSUNBOUNDEDUNIONUSINGVACUUMVIEWINDOW''"

definition zKWText_648 :: "string" where [kw_defs]:
  "zKWText_648 = ''BYINITIALLYPRIMARY''"

definition zKWText :: "string" where
  "zKWText = zKWText_0 @ zKWText_72 @ zKWText_144 @ zKWText_216 @ zKWText_288 @ zKWText_360 @ zKWText_432 @ zKWText_504 @ zKWText_576 @ zKWText_648"

lemma zKWText_lengths:
  "length zKWText_0 = 72"
  "length zKWText_72 = 72"
  "length zKWText_144 = 72"
  "length zKWText_216 = 72"
  "length zKWText_288 = 72"
  "length zKWText_360 = 72"
  "length zKWText_432 = 72"
  "length zKWText_504 = 72"
  "length zKWText_576 = 72"
  "length zKWText_648 = 18"
  by (simp_all add: kw_defs)

lemma length_zKWText [simp]: "length zKWText = 666"
  by (simp add: zKWText_def zKWText_lengths)

lemma zKWText_0_nth:
  "map ((!) zKWText) [0..<72] = zKWText_0"
  by (rule window_nth [where p = "[]" and q = "zKWText_72 @ zKWText_144 @ zKWText_216 @ zKWText_288 @ zKWText_360 @ zKWText_432 @ zKWText_504 @ zKWText_576 @ zKWText_648"])
    (simp_all add: zKWText_def zKWText_lengths)

lemma zKWText_72_nth:
  "map ((!) zKWText) [72..<144] = zKWText_72"
  by (rule window_nth [where p = "zKWText_0" and q = "zKWText_144 @ zKWText_216 @ zKWText_288 @ zKWText_360 @ zKWText_432 @ zKWText_504 @ zKWText_576 @ zKWText_648"])
    (simp_all add: zKWText_def zKWText_lengths)

lemma zKWText_144_nth:
  "map ((!) zKWText) [144..<216] = zKWText_144"
  by (rule window_nth [where p = "zKWText_0 @ zKWText_72" and q = "zKWText_216 @ zKWText_288 @ zKWText_360 @ zKWText_432 @ zKWText_504 @ zKWText_576 @ zKWText_648"])
    (simp_all add: zKWText_def zKWText_lengths)

lemma zKWText_216_nth:
  "map ((!) zKWText) [216..<288] = zKWText_216"
  by (rule window_nth [where p = "zKWText_0 @ zKWText_72 @ zKWText_144" and q = "zKWText_288 @ zKWText_360 @ zKWText_432 @ zKWText_504 @ zKWText_576 @ zKWText_648"])
    (simp_all add: zKWText_def zKWText_lengths)

lemma zKWText_288_nth:
  "map ((!) zKWText) [288..<360] = zKWText_288"
  by (rule window_nth [where p = "zKWText_0 @ zKWText_72 @ zKWText_144 @ zKWText_216" and q = "zKWText_360 @ zKWText_432 @ zKWText_504 @ zKWText_576 @ zKWText_648"])
    (simp_all add: zKWText_def zKWText_lengths)

lemma zKWText_360_nth:
  "map ((!) zKWText) [360..<432] = zKWText_360"
  by (rule window_nth [where p = "zKWText_0 @ zKWText_72 @ zKWText_144 @ zKWText_216 @ zKWText_288" and q = "zKWText_432 @ zKWText_504 @ zKWText_576 @ zKWText_648"])
    (simp_all add: zKWText_def zKWText_lengths)

lemma zKWText_432_nth:
  "map ((!) zKWText) [432..<504] = zKWText_432"
  by (rule window_nth [where p = "zKWText_0 @ zKWText_72 @ zKWText_144 @ zKWText_216 @ zKWText_288 @ zKWText_360" and q = "zKWText_504 @ zKWText_576 @ zKWText_648"])
    (simp_all add: zKWText_def zKWText_lengths)

lemma zKWText_504_nth:
  "map ((!) zKWText) [504..<576] = zKWText_504"
  by (rule window_nth [where p = "zKWText_0 @ zKWText_72 @ zKWText_144 @ zKWText_216 @ zKWText_288 @ zKWText_360 @ zKWText_432" and q = "zKWText_576 @ zKWText_648"])
    (simp_all add: zKWText_def zKWText_lengths)

lemma zKWText_576_nth:
  "map ((!) zKWText) [576..<648] = zKWText_576"
  by (rule window_nth [where p = "zKWText_0 @ zKWText_72 @ zKWText_144 @ zKWText_216 @ zKWText_288 @ zKWText_360 @ zKWText_432 @ zKWText_504" and q = "zKWText_648"])
    (simp_all add: zKWText_def zKWText_lengths)

lemma zKWText_648_nth:
  "map ((!) zKWText) [648..<666] = zKWText_648"
  by (rule window_nth [where p = "zKWText_0 @ zKWText_72 @ zKWText_144 @ zKWText_216 @ zKWText_288 @ zKWText_360 @ zKWText_432 @ zKWText_504 @ zKWText_576" and q = "[]"])
    (simp_all add: zKWText_def zKWText_lengths)

lemmas zKWText_0_entries = zKWText_0_nth [unfolded zKWText_0_def, simplified upt_from_0, simplified]
lemmas zKWText_72_entries = zKWText_72_nth [unfolded zKWText_72_def, simplified]
lemmas zKWText_144_entries = zKWText_144_nth [unfolded zKWText_144_def, simplified]
lemmas zKWText_216_entries = zKWText_216_nth [unfolded zKWText_216_def, simplified]
lemmas zKWText_288_entries = zKWText_288_nth [unfolded zKWText_288_def, simplified]
lemmas zKWText_360_entries = zKWText_360_nth [unfolded zKWText_360_def, simplified]
lemmas zKWText_432_entries = zKWText_432_nth [unfolded zKWText_432_def, simplified]
lemmas zKWText_504_entries = zKWText_504_nth [unfolded zKWText_504_def, simplified]
lemmas zKWText_576_entries = zKWText_576_nth [unfolded zKWText_576_def, simplified]
lemmas zKWText_648_entries = zKWText_648_nth [unfolded zKWText_648_def, simplified]

lemmas zKWText_entries = zKWText_0_entries zKWText_72_entries zKWText_144_entries zKWText_216_entries zKWText_288_entries zKWText_360_entries zKWText_432_entries zKWText_504_entries zKWText_576_entries zKWText_648_entries

section \<open>Hash heads\<close>

definition aKWHash_0 :: "nat list" where [kw_defs]:
  "aKWHash_0 = [
   84, 92, 134, 82, 105, 29, 0, 0, 94, 0, 85, 72, 0, 53, 35, 86, 15, 0, 42, 97, 54, 89, 135,
   19, 0, 0, 140, 0, 40, 129, 0, 22, 107, 0, 9, 0, 0, 123, 80, 0, 78, 6, 0, 65, 103, 147, 0,
   136, 115, 0, 0, 48, 0, 90, 24, 0, 17, 0, 27, 70, 23, 26, 5, 60, 142, 110, 122, 0, 73, 91,
   71, 145, 61, 120]"

definition aKWHash_74 :: "nat list" where [kw_defs]:
  "aKWHash_74 = [
   74, 0, 49, 0, 11, 41, 0, 113, 0, 0, 0, 109, 10, 111, 116, 125, 14, 50, 124, 0, 100, 0,
   18, 121, 144, 56, 130, 139, 88, 83, 37, 30, 126, 0, 0, 108, 51, 131, 128, 0, 34, 0, 0,
   132, 0, 98, 38, 39, 0, 20, 45, 117, 93]"

definition aKWHash :: "nat list" where
  "aKWHash = aKWHash_0 @ aKWHash_74"

lemma aKWHash_lengths:
  "length aKWHash_0 = 74"
  "length aKWHash_74 = 53"
  by (simp_all add: kw_defs)

lemma length_aKWHash [simp]: "length aKWHash = 127"
  by (simp add: aKWHash_def aKWHash_lengths)

lemma aKWHash_0_nth:
  "map ((!) aKWHash) [0..<74] = aKWHash_0"
  by (rule window_nth [where p = "[]" and q = "aKWHash_74"])
    (simp_all add: aKWHash_def aKWHash_lengths)

lemma aKWHash_74_nth:
  "map ((!) aKWHash) [74..<127] = aKWHash_74"
  by (rule window_nth [where p = "aKWHash_0" and q = "[]"])
    (simp_all add: aKWHash_def aKWHash_lengths)

lemmas aKWHash_0_entries = aKWHash_0_nth [unfolded aKWHash_0_def, simplified upt_from_0, simplified]
lemmas aKWHash_74_entries = aKWHash_74_nth [unfolded aKWHash_74_def, simplified]

lemmas aKWHash_entries = aKWHash_0_entries aKWHash_74_entries

section \<open>Chains\<close>

definition aKWNext_0 :: "nat list" where [kw_defs]:
  "aKWNext_0 = [
   0, 0, 0, 0, 0, 4, 0, 43, 0, 0, 106, 114, 0, 0, 0, 2, 0, 0, 143, 0, 0, 0, 13, 0, 0, 0, 0,
   141, 0, 0, 119, 52, 0, 0, 137, 12, 0, 0, 62, 0, 138, 0, 133, 0, 0, 36, 0, 0, 28, 77, 0,
   0, 0, 0, 59, 0, 47, 0, 0, 0, 0, 0, 0, 0, 0, 0, 0, 69, 0, 0, 0, 0, 0, 146]"

definition aKWNext_74 :: "nat list" where [kw_defs]:
  "aKWNext_74 = [
   3, 0, 58, 0, 1, 75, 0, 0, 0, 31, 0, 0, 0, 0, 0, 127, 0, 104, 0, 64, 66, 63, 0, 0, 0, 0,
   0, 46, 0, 16, 8, 0, 0, 0, 0, 0, 0, 0, 0, 0, 0, 81, 101, 0, 112, 21, 7, 67, 0, 79, 96,
   118, 0, 0, 68, 0, 0, 99, 44, 0, 55, 0, 76, 0, 95, 32, 33, 57, 25, 0, 102, 0, 0, 87]"

definition aKWNext :: "nat list" where
  "aKWNext = aKWNext_0 @ aKWNext_74"

lemma aKWNext_lengths:
  "length aKWNext_0 = 74"
  "length aKWNext_74 = 74"
  by (simp_all add: kw_defs)

lemma length_aKWNext [simp]: "length aKWNext = 148"
  by (simp add: aKWNext_def aKWNext_lengths)

lemma aKWNext_0_nth:
  "map ((!) aKWNext) [0..<74] = aKWNext_0"
  by (rule window_nth [where p = "[]" and q = "aKWNext_74"])
    (simp_all add: aKWNext_def aKWNext_lengths)

lemma aKWNext_74_nth:
  "map ((!) aKWNext) [74..<148] = aKWNext_74"
  by (rule window_nth [where p = "aKWNext_0" and q = "[]"])
    (simp_all add: aKWNext_def aKWNext_lengths)

lemmas aKWNext_0_entries = aKWNext_0_nth [unfolded aKWNext_0_def, simplified upt_from_0, simplified]
lemmas aKWNext_74_entries = aKWNext_74_nth [unfolded aKWNext_74_def, simplified]

lemmas aKWNext_entries = aKWNext_0_entries aKWNext_74_entries

section \<open>Lengths\<close>

definition aKWLen_0 :: "nat list" where [kw_defs]:
  "aKWLen_0 = [
   0, 7, 7, 5, 4, 6, 4, 5, 3, 6, 7, 3, 6, 6, 7, 7, 3, 8, 2, 6, 5, 4, 4, 3, 10, 4, 7, 6, 9,
   4, 2, 6, 5, 9, 9, 4, 7, 3, 2, 4, 4, 6, 11, 6, 2, 7, 5, 5, 9, 6, 10, 4, 6, 2, 3, 7, 5, 9,
   6, 6, 4, 5, 5, 10, 6, 5, 7, 4, 5, 7, 6, 7, 7, 6]"

definition aKWLen_74 :: "nat list" where [kw_defs]:
  "aKWLen_74 = [
   5, 7, 3, 7, 4, 7, 6, 12, 9, 4, 6, 5, 4, 7, 6, 12, 8, 8, 2, 6, 6, 7, 6, 4, 5, 9, 5, 5, 6,
   3, 4, 9, 13, 2, 2, 4, 6, 6, 8, 5, 17, 12, 7, 9, 4, 4, 6, 7, 5, 9, 4, 4, 5, 2, 5, 8, 6, 4,
   9, 5, 8, 4, 3, 9, 5, 5, 6, 4, 6, 2, 2, 9, 3, 7]"

definition aKWLen :: "nat list" where
  "aKWLen = aKWLen_0 @ aKWLen_74"

lemma aKWLen_lengths:
  "length aKWLen_0 = 74"
  "length aKWLen_74 = 74"
  by (simp_all add: kw_defs)

lemma length_aKWLen [simp]: "length aKWLen = 148"
  by (simp add: aKWLen_def aKWLen_lengths)

lemma aKWLen_0_nth:
  "map ((!) aKWLen) [0..<74] = aKWLen_0"
  by (rule window_nth [where p = "[]" and q = "aKWLen_74"])
    (simp_all add: aKWLen_def aKWLen_lengths)

lemma aKWLen_74_nth:
  "map ((!) aKWLen) [74..<148] = aKWLen_74"
  by (rule window_nth [where p = "aKWLen_0" and q = "[]"])
    (simp_all add: aKWLen_def aKWLen_lengths)

lemmas aKWLen_0_entries = aKWLen_0_nth [unfolded aKWLen_0_def, simplified upt_from_0, simplified]
lemmas aKWLen_74_entries = aKWLen_74_nth [unfolded aKWLen_74_def, simplified]

lemmas aKWLen_entries = aKWLen_0_entries aKWLen_74_entries

section \<open>Offsets\<close>

definition aKWOffset_0 :: "nat list" where [kw_defs]:
  "aKWOffset_0 = [
   0, 0, 2, 2, 8, 9, 14, 16, 20, 23, 25, 25, 29, 33, 36, 41, 46, 48, 53, 54, 59, 62, 65, 67,
   69, 78, 81, 86, 90, 90, 94, 99, 101, 105, 111, 119, 123, 123, 123, 126, 129, 132, 137,
   142, 146, 147, 152, 156, 160, 168, 174, 181, 184, 184, 187, 189, 195, 198, 206, 211, 216,
   219, 222, 226, 236, 239, 244, 244, 248, 252, 259, 265, 271, 277]"

definition aKWOffset_74 :: "nat list" where [kw_defs]:
  "aKWOffset_74 = [
   277, 283, 284, 288, 295, 299, 306, 312, 324, 333, 335, 341, 346, 348, 355, 359, 370, 377,
   378, 385, 391, 397, 402, 408, 412, 415, 424, 429, 433, 439, 441, 444, 453, 455, 457, 466,
   470, 476, 482, 490, 495, 495, 495, 511, 520, 523, 527, 532, 539, 544, 553, 557, 560, 565,
   567, 571, 579, 585, 588, 597, 602, 610, 610, 614, 623, 628, 633, 639, 642, 645, 648, 650,
   655, 659]"

definition aKWOffset :: "nat list" where
  "aKWOffset = aKWOffset_0 @ aKWOffset_74"

lemma aKWOffset_lengths:
  "length aKWOffset_0 = 74"
  "length aKWOffset_74 = 74"
  by (simp_all add: kw_defs)

lemma length_aKWOffset [simp]: "length aKWOffset = 148"
  by (simp add: aKWOffset_def aKWOffset_lengths)

lemma aKWOffset_0_nth:
  "map ((!) aKWOffset) [0..<74] = aKWOffset_0"
  by (rule window_nth [where p = "[]" and q = "aKWOffset_74"])
    (simp_all add: aKWOffset_def aKWOffset_lengths)

lemma aKWOffset_74_nth:
  "map ((!) aKWOffset) [74..<148] = aKWOffset_74"
  by (rule window_nth [where p = "aKWOffset_0" and q = "[]"])
    (simp_all add: aKWOffset_def aKWOffset_lengths)

lemmas aKWOffset_0_entries = aKWOffset_0_nth [unfolded aKWOffset_0_def, simplified upt_from_0, simplified]
lemmas aKWOffset_74_entries = aKWOffset_74_nth [unfolded aKWOffset_74_def, simplified]

lemmas aKWOffset_entries = aKWOffset_0_entries aKWOffset_74_entries

section \<open>Codes\<close>

definition aKWCode_0 :: "nat list" where [kw_defs]:
  "aKWCode_0 = [
   0, TK_REINDEX, TK_INDEXED, TK_INDEX, TK_DESC, TK_ESCAPE, TK_EACH, TK_CHECK, TK_KEY,
   TK_BEFORE, TK_FOREIGN, TK_FOR, TK_IGNORE, TK_LIKE_KW, TK_EXPLAIN, TK_INSTEAD, TK_ADD,
   TK_DATABASE, TK_AS, TK_SELECT, TK_TABLE, TK_JOIN_KW, TK_THEN, TK_END, TK_DEFERRABLE,
   TK_ELSE, TK_EXCLUDE, TK_DELETE, TK_TEMP, TK_TEMP, TK_OR, TK_ISNULL, TK_NULLS,
   TK_SAVEPOINT, TK_INTERSECT, TK_TIES, TK_NOTNULL, TK_NOT, TK_NO, TK_NULL, TK_LIKE_KW,
   TK_EXCEPT, TK_TRANSACTION, TK_ACTION, TK_ON, TK_JOIN_KW, TK_ALTER, TK_RAISE,
   TK_EXCLUSIVE, TK_EXISTS, TK_CONSTRAINT, TK_INTO, TK_OFFSET, TK_OF, TK_SET, TK_TRIGGER,
   TK_RANGE, TK_GENERATED, TK_DETACH, TK_HAVING, TK_LIKE_KW, TK_BEGIN, TK_JOIN_KW,
   TK_REFERENCES, TK_UNIQUE, TK_QUERY, TK_WITHOUT, TK_WITH, TK_JOIN_KW, TK_RELEASE,
   TK_ATTACH, TK_BETWEEN, TK_NOTHING, TK_GROUPS]"

definition aKWCode_74 :: "nat list" where [kw_defs]:
  "aKWCode_74 = [
   TK_GROUP, TK_CASCADE, TK_ASC, TK_DEFAULT, TK_CASE, TK_COLLATE, TK_CREATE, TK_CTIME_KW,
   TK_IMMEDIATE, TK_JOIN, TK_INSERT, TK_MATCH, TK_PLAN, TK_ANALYZE, TK_PRAGMA,
   TK_MATERIALIZED, TK_DEFERRED, TK_DISTINCT, TK_IS, TK_UPDATE, TK_VALUES, TK_VIRTUAL,
   TK_ALWAYS, TK_WHEN, TK_WHERE, TK_RECURSIVE, TK_ABORT, TK_AFTER, TK_RENAME, TK_AND,
   TK_DROP, TK_PARTITION, TK_AUTOINCR, TK_TO, TK_IN, TK_CAST, TK_COLUMNKW, TK_COMMIT,
   TK_CONFLICT, TK_JOIN_KW, TK_CTIME_KW, TK_CTIME_KW, TK_CURRENT, TK_PRECEDING, TK_FAIL,
   TK_LAST, TK_FILTER, TK_REPLACE, TK_FIRST, TK_FOLLOWING, TK_FROM, TK_JOIN_KW, TK_LIMIT,
   TK_IF, TK_ORDER, TK_RESTRICT, TK_OTHERS, TK_OVER, TK_RETURNING, TK_JOIN_KW, TK_ROLLBACK,
   TK_ROWS, TK_ROW, TK_UNBOUNDED, TK_UNION, TK_USING, TK_VACUUM, TK_VIEW, TK_WINDOW, TK_DO,
   TK_BY, TK_INITIALLY, TK_ALL, TK_PRIMARY]"

definition aKWCode :: "nat list" where
  "aKWCode = aKWCode_0 @ aKWCode_74"

lemma aKWCode_lengths:
  "length aKWCode_0 = 74"
  "length aKWCode_74 = 74"
  by (simp_all add: kw_defs)

lemma length_aKWCode [simp]: "length aKWCode = 148"
  by (simp add: aKWCode_def aKWCode_lengths)

lemma aKWCode_0_nth:
  "map ((!) aKWCode) [0..<74] = aKWCode_0"
  by (rule window_nth [where p = "[]" and q = "aKWCode_74"])
    (simp_all add: aKWCode_def aKWCode_lengths)

lemma aKWCode_74_nth:
  "map ((!) aKWCode) [74..<148] = aKWCode_74"
  by (rule window_nth [where p = "aKWCode_0" and q = "[]"])
    (simp_all add: aKWCode_def aKWCode_lengths)

lemmas aKWCode_0_entries = aKWCode_0_nth [unfolded aKWCode_0_def, simplified upt_from_0, simplified]
lemmas aKWCode_74_entries = aKWCode_74_nth [unfolded aKWCode_74_def, simplified]

lemmas aKWCode_entries = aKWCode_0_entries aKWCode_74_entries

section \<open>How long the chains are\<close>

text \<open>Not in the source: the number of entries on the chain from each keyword on.\<close>

definition keyword_depth_0 :: "nat list" where [kw_defs]:
  "keyword_depth_0 = [
   0, 1, 1, 1, 1, 2, 1, 2, 1, 1, 2, 2, 1, 1, 1, 2, 1, 1, 2, 1, 1, 1, 2, 1, 1, 1, 1, 3, 1, 1,
   3, 2, 1, 1, 2, 2, 1, 1, 2, 1, 4, 1, 2, 1, 1, 2, 1, 1, 2, 2, 1, 1, 1, 1, 2, 1, 2, 1, 1, 1,
   1, 1, 1, 1, 1, 1, 1, 2, 1, 1, 1, 1, 1, 2]"

definition keyword_depth_74 :: "nat list" where [kw_defs]:
  "keyword_depth_74 = [
   2, 1, 2, 1, 2, 2, 1, 1, 1, 3, 1, 1, 1, 1, 1, 2, 1, 3, 1, 2, 2, 2, 1, 1, 1, 1, 1, 2, 1, 2,
   2, 1, 1, 1, 1, 1, 1, 1, 1, 1, 1, 2, 3, 1, 2, 2, 3, 3, 1, 3, 2, 3, 1, 1, 2, 1, 1, 2, 2, 1,
   2, 1, 3, 1, 3, 2, 2, 2, 2, 1, 2, 1, 1, 2]"

definition keyword_depth :: "nat list" where
  "keyword_depth = keyword_depth_0 @ keyword_depth_74"

lemma keyword_depth_lengths:
  "length keyword_depth_0 = 74"
  "length keyword_depth_74 = 74"
  by (simp_all add: kw_defs)

lemma length_keyword_depth [simp]: "length keyword_depth = 148"
  by (simp add: keyword_depth_def keyword_depth_lengths)

lemma keyword_depth_0_nth:
  "map ((!) keyword_depth) [0..<74] = keyword_depth_0"
  by (rule window_nth [where p = "[]" and q = "keyword_depth_74"])
    (simp_all add: keyword_depth_def keyword_depth_lengths)

lemma keyword_depth_74_nth:
  "map ((!) keyword_depth) [74..<148] = keyword_depth_74"
  by (rule window_nth [where p = "keyword_depth_0" and q = "[]"])
    (simp_all add: keyword_depth_def keyword_depth_lengths)

lemmas keyword_depth_0_entries = keyword_depth_0_nth [unfolded keyword_depth_0_def, simplified upt_from_0, simplified]
lemmas keyword_depth_74_entries = keyword_depth_74_nth [unfolded keyword_depth_74_def, simplified]

lemmas keyword_depth_entries = keyword_depth_0_entries keyword_depth_74_entries

text \<open>Not in the source either: the hash value of each keyword.\<close>

definition keyword_hashes_0 :: "nat list" where [kw_defs]:
  "keyword_hashes_0 = [
   0, 40, 16, 74, 62, 62, 41, 73, 69, 34, 86, 78, 14, 31, 90, 16, 44, 56, 96, 23, 123, 105,
   31, 60, 54, 64, 61, 58, 51, 5, 105, 103, 101, 26, 114, 14, 124, 104, 120, 121, 28, 79,
   18, 73, 117, 124, 88, 99, 51, 76, 91, 110, 103, 13, 20, 2, 99, 58, 47, 20, 63, 72, 120,
   28, 126, 43, 8, 97, 112, 97, 59, 70, 11, 68]"

definition keyword_hashes_74 :: "nat list" where [kw_defs]:
  "keyword_hashes_74 = [
   74, 37, 47, 76, 40, 37, 38, 48, 3, 103, 0, 10, 15, 45, 102, 21, 53, 69, 1, 126, 8, 28,
   92, 19, 119, 111, 94, 88, 98, 44, 69, 4, 86, 32, 109, 85, 65, 87, 89, 81, 78, 48, 88,
   125, 89, 105, 73, 97, 66, 37, 92, 89, 106, 21, 112, 29, 100, 111, 117, 18, 2, 22, 47,
   114, 28, 101, 26, 58, 64, 96, 98, 71, 68, 45]"

definition keyword_hashes :: "nat list" where
  "keyword_hashes = keyword_hashes_0 @ keyword_hashes_74"

lemma keyword_hashes_lengths:
  "length keyword_hashes_0 = 74"
  "length keyword_hashes_74 = 74"
  by (simp_all add: kw_defs)

lemma length_keyword_hashes [simp]: "length keyword_hashes = 148"
  by (simp add: keyword_hashes_def keyword_hashes_lengths)

lemma keyword_hashes_0_nth:
  "map ((!) keyword_hashes) [0..<74] = keyword_hashes_0"
  by (rule window_nth [where p = "[]" and q = "keyword_hashes_74"])
    (simp_all add: keyword_hashes_def keyword_hashes_lengths)

lemma keyword_hashes_74_nth:
  "map ((!) keyword_hashes) [74..<148] = keyword_hashes_74"
  by (rule window_nth [where p = "keyword_hashes_0" and q = "[]"])
    (simp_all add: keyword_hashes_def keyword_hashes_lengths)

lemmas keyword_hashes_0_entries = keyword_hashes_0_nth [unfolded keyword_hashes_0_def, simplified upt_from_0, simplified]
lemmas keyword_hashes_74_entries = keyword_hashes_74_nth [unfolded keyword_hashes_74_def, simplified]

lemmas keyword_hashes_entries = keyword_hashes_0_entries keyword_hashes_74_entries

section \<open>The keywords\<close>

text \<open>The keywords in the order of the comments in \<open>keywordCode\<close>, with their codes.\<close>

definition keyword_list_0 :: "(string \<times> nat) list" where [kw_defs]:
  "keyword_list_0 = [
    (''REINDEX'', TK_REINDEX),
    (''INDEXED'', TK_INDEXED),
    (''INDEX'', TK_INDEX),
    (''DESC'', TK_DESC),
    (''ESCAPE'', TK_ESCAPE),
    (''EACH'', TK_EACH),
    (''CHECK'', TK_CHECK),
    (''KEY'', TK_KEY),
    (''BEFORE'', TK_BEFORE),
    (''FOREIGN'', TK_FOREIGN),
    (''FOR'', TK_FOR),
    (''IGNORE'', TK_IGNORE),
    (''REGEXP'', TK_LIKE_KW),
    (''EXPLAIN'', TK_EXPLAIN),
    (''INSTEAD'', TK_INSTEAD),
    (''ADD'', TK_ADD),
    (''DATABASE'', TK_DATABASE),
    (''AS'', TK_AS),
    (''SELECT'', TK_SELECT),
    (''TABLE'', TK_TABLE),
    (''LEFT'', TK_JOIN_KW),
    (''THEN'', TK_THEN),
    (''END'', TK_END),
    (''DEFERRABLE'', TK_DEFERRABLE),
    (''ELSE'', TK_ELSE),
    (''EXCLUDE'', TK_EXCLUDE),
    (''DELETE'', TK_DELETE),
    (''TEMPORARY'', TK_TEMP),
    (''TEMP'', TK_TEMP),
    (''OR'', TK_OR),
    (''ISNULL'', TK_ISNULL),
    (''NULLS'', TK_NULLS),
    (''SAVEPOINT'', TK_SAVEPOINT),
    (''INTERSECT'', TK_INTERSECT),
    (''TIES'', TK_TIES),
    (''NOTNULL'', TK_NOTNULL),
    (''NOT'', TK_NOT),
    (''NO'', TK_NO),
    (''NULL'', TK_NULL),
    (''LIKE'', TK_LIKE_KW),
    (''EXCEPT'', TK_EXCEPT),
    (''TRANSACTION'', TK_TRANSACTION),
    (''ACTION'', TK_ACTION),
    (''ON'', TK_ON),
    (''NATURAL'', TK_JOIN_KW),
    (''ALTER'', TK_ALTER),
    (''RAISE'', TK_RAISE),
    (''EXCLUSIVE'', TK_EXCLUSIVE),
    (''EXISTS'', TK_EXISTS)]"

definition keyword_list_49 :: "(string \<times> nat) list" where [kw_defs]:
  "keyword_list_49 = [
    (''CONSTRAINT'', TK_CONSTRAINT),
    (''INTO'', TK_INTO),
    (''OFFSET'', TK_OFFSET),
    (''OF'', TK_OF),
    (''SET'', TK_SET),
    (''TRIGGER'', TK_TRIGGER),
    (''RANGE'', TK_RANGE),
    (''GENERATED'', TK_GENERATED),
    (''DETACH'', TK_DETACH),
    (''HAVING'', TK_HAVING),
    (''GLOB'', TK_LIKE_KW),
    (''BEGIN'', TK_BEGIN),
    (''INNER'', TK_JOIN_KW),
    (''REFERENCES'', TK_REFERENCES),
    (''UNIQUE'', TK_UNIQUE),
    (''QUERY'', TK_QUERY),
    (''WITHOUT'', TK_WITHOUT),
    (''WITH'', TK_WITH),
    (''OUTER'', TK_JOIN_KW),
    (''RELEASE'', TK_RELEASE),
    (''ATTACH'', TK_ATTACH),
    (''BETWEEN'', TK_BETWEEN),
    (''NOTHING'', TK_NOTHING),
    (''GROUPS'', TK_GROUPS),
    (''GROUP'', TK_GROUP),
    (''CASCADE'', TK_CASCADE),
    (''ASC'', TK_ASC),
    (''DEFAULT'', TK_DEFAULT),
    (''CASE'', TK_CASE),
    (''COLLATE'', TK_COLLATE),
    (''CREATE'', TK_CREATE),
    (''CURRENT_DATE'', TK_CTIME_KW),
    (''IMMEDIATE'', TK_IMMEDIATE),
    (''JOIN'', TK_JOIN),
    (''INSERT'', TK_INSERT),
    (''MATCH'', TK_MATCH),
    (''PLAN'', TK_PLAN),
    (''ANALYZE'', TK_ANALYZE),
    (''PRAGMA'', TK_PRAGMA),
    (''MATERIALIZED'', TK_MATERIALIZED),
    (''DEFERRED'', TK_DEFERRED),
    (''DISTINCT'', TK_DISTINCT),
    (''IS'', TK_IS),
    (''UPDATE'', TK_UPDATE),
    (''VALUES'', TK_VALUES),
    (''VIRTUAL'', TK_VIRTUAL),
    (''ALWAYS'', TK_ALWAYS),
    (''WHEN'', TK_WHEN),
    (''WHERE'', TK_WHERE)]"

definition keyword_list_98 :: "(string \<times> nat) list" where [kw_defs]:
  "keyword_list_98 = [
    (''RECURSIVE'', TK_RECURSIVE),
    (''ABORT'', TK_ABORT),
    (''AFTER'', TK_AFTER),
    (''RENAME'', TK_RENAME),
    (''AND'', TK_AND),
    (''DROP'', TK_DROP),
    (''PARTITION'', TK_PARTITION),
    (''AUTOINCREMENT'', TK_AUTOINCR),
    (''TO'', TK_TO),
    (''IN'', TK_IN),
    (''CAST'', TK_CAST),
    (''COLUMN'', TK_COLUMNKW),
    (''COMMIT'', TK_COMMIT),
    (''CONFLICT'', TK_CONFLICT),
    (''CROSS'', TK_JOIN_KW),
    (''CURRENT_TIMESTAMP'', TK_CTIME_KW),
    (''CURRENT_TIME'', TK_CTIME_KW),
    (''CURRENT'', TK_CURRENT),
    (''PRECEDING'', TK_PRECEDING),
    (''FAIL'', TK_FAIL),
    (''LAST'', TK_LAST),
    (''FILTER'', TK_FILTER),
    (''REPLACE'', TK_REPLACE),
    (''FIRST'', TK_FIRST),
    (''FOLLOWING'', TK_FOLLOWING),
    (''FROM'', TK_FROM),
    (''FULL'', TK_JOIN_KW),
    (''LIMIT'', TK_LIMIT),
    (''IF'', TK_IF),
    (''ORDER'', TK_ORDER),
    (''RESTRICT'', TK_RESTRICT),
    (''OTHERS'', TK_OTHERS),
    (''OVER'', TK_OVER),
    (''RETURNING'', TK_RETURNING),
    (''RIGHT'', TK_JOIN_KW),
    (''ROLLBACK'', TK_ROLLBACK),
    (''ROWS'', TK_ROWS),
    (''ROW'', TK_ROW),
    (''UNBOUNDED'', TK_UNBOUNDED),
    (''UNION'', TK_UNION),
    (''USING'', TK_USING),
    (''VACUUM'', TK_VACUUM),
    (''VIEW'', TK_VIEW),
    (''WINDOW'', TK_WINDOW),
    (''DO'', TK_DO),
    (''BY'', TK_BY),
    (''INITIALLY'', TK_INITIALLY),
    (''ALL'', TK_ALL),
    (''PRIMARY'', TK_PRIMARY)]"

definition keyword_list :: "(string \<times> nat) list" where
  "keyword_list = keyword_list_0 @ keyword_list_49 @ keyword_list_98"

end
