(* ===== verification/SqKeywords.thy ===== *)
theory SqKeywords
  imports SqKwTables
begin

text \<open>
  The keyword lookup of \<open>keywordhash.h\<close>, and its equivalence with a search in the list of the
  147 keywords.
\<close>

section \<open>The lookup\<close>

lemma bind_res_cong [fundef_cong]:
  "x = y \<Longrightarrow> (\<And>a. y = Ok a \<Longrightarrow> f a = g a) \<Longrightarrow> bind_res x f = bind_res y g"
  by (cases y) auto

text \<open>One letter of the token against that of the keyword whose text starts at \<open>off\<close>.\<close>

definition letter_matches :: "8 word list \<Rightarrow> nat \<Rightarrow> nat \<Rightarrow> bool res" where
  "letter_matches z off j =
     bind_res (vec_idx z j) (\<lambda>c. map_res (\<lambda>k. unat (c AND NOT 0x20) = of_char k) (vec_idx zKWText (off + j)))"

text \<open>The \<open>while\<close> loop over the letters from \<open>z[j]\<close> on.\<close>

function compare_from :: "8 word list \<Rightarrow> nat \<Rightarrow> nat \<Rightarrow> nat \<Rightarrow> bool res" where
  "compare_from z off n j =
     (if j < n then
        bind_res (letter_matches z off j) (\<lambda>m. if m then compare_from z off n (j + 1) else Ok False)
      else Ok True)"
  by auto
termination by (relation "measure (\<lambda>(z, off, n, j). n - j)") auto

declare compare_from.simps [simp del]

definition keyword_matches :: "8 word list \<Rightarrow> nat \<Rightarrow> nat \<Rightarrow> bool res" where
  "keyword_matches z n i =
     bind_res (vec_idx aKWLen i) (\<lambda>len.
       if len \<noteq> n then Ok False
       else
         bind_res (vec_idx aKWOffset i) (\<lambda>off.
         bind_res (letter_matches z off 0) (\<lambda>m0. if \<not> m0 then Ok False else
         bind_res (letter_matches z off 1) (\<lambda>m1. if \<not> m1 then Ok False else
         compare_from z off n 2))))"

lemma upt_from_1: "2 \<le> n \<Longrightarrow> [Suc 0..<n] = 1 # [2..<n]"
  by (simp add: upt_conv_Cons numeral_2_eq_2)

lemma depth_decreases:
  "list_all (\<lambda>i. aKWNext ! i < 148 \<and> keyword_depth ! (aKWNext ! i) < keyword_depth ! i) [1..<148]"
  by (simp add: upt_from_1 aKWNext_entries keyword_depth_entries)

lemma next_keyword:
  assumes "vec_idx aKWNext i = Ok j" and "i \<noteq> 0"
  shows "keyword_depth ! j < keyword_depth ! i"
proof -
  from assms(1) have "i < 148" "j = aKWNext ! i" by (auto simp: vec_idx_def split: if_splits)
  with depth_decreases assms(2) show ?thesis by (simp add: list_all_iff)
qed

text \<open>The loop along the chain.\<close>

function keyword_loop :: "8 word list \<Rightarrow> nat \<Rightarrow> nat \<Rightarrow> nat \<Rightarrow> nat res" where
  "keyword_loop z n pType i =
     (if i = 0 then Ok pType
      else bind_res (keyword_matches z n i) (\<lambda>m.
        if m then vec_idx aKWCode i
        else bind_res (vec_idx aKWNext i) (\<lambda>j. keyword_loop z n pType j)))"
  by auto
termination
  by (relation "measure (\<lambda>(z, n, pType, i). keyword_depth ! i)") (auto intro: next_keyword)

declare keyword_loop.simps [simp del]

definition keyword_hash :: "nat \<Rightarrow> nat \<Rightarrow> nat \<Rightarrow> nat" where
  "keyword_hash a b n = (a * 4 XOR b * 3 XOR n * 1) mod 127"

definition keywordCode :: "8 word list \<Rightarrow> nat \<Rightarrow> nat \<Rightarrow> nat res" where
  "keywordCode z n pType =
     (if 2 \<le> n then
        bind_res (vec_idx z 0) (\<lambda>a.
        bind_res (vec_idx z (n - 1)) (\<lambda>b.
        bind_res (vec_idx aKWHash (keyword_hash (charMap a) (charMap b) n)) (keyword_loop z n pType)))
      else Ok pType)"

definition sqlite3KeywordCode :: "8 word list \<Rightarrow> nat \<Rightarrow> nat res" where
  "sqlite3KeywordCode z n = keywordCode z n TK_ID"

definition SQLITE_N_KEYWORD :: nat where
  "SQLITE_N_KEYWORD = 147"

definition sqlite3_keyword_count :: nat where
  "sqlite3_keyword_count = SQLITE_N_KEYWORD"

text \<open>The text and its length, or \<open>SQLITE_ERROR\<close>.\<close>

definition sqlite3_keyword_name :: "int \<Rightarrow> string option res" where
  "sqlite3_keyword_name i =
     (if i < 0 \<or> int SQLITE_N_KEYWORD \<le> i then Ok None
      else bind_res (vec_idx aKWOffset (nat (i + 1))) (\<lambda>off.
           map_res (\<lambda>len. Some (take len (drop off zKWText))) (vec_idx aKWLen (nat (i + 1)))))"

definition sqlite3_keyword_check :: "8 word list \<Rightarrow> nat \<Rightarrow> bool res" where
  "sqlite3_keyword_check zName nName = map_res (\<lambda>t. TK_ID \<noteq> t) (sqlite3KeywordCode zName nName)"

section \<open>The texts of the keywords\<close>

definition keyword_text :: "nat \<Rightarrow> string" where
  "keyword_text i = take (aKWLen ! i) (drop (aKWOffset ! i) zKWText)"

lemma keyword_window: "list_all (\<lambda>i. 2 \<le> aKWLen ! i \<and> aKWLen ! i \<le> 17 \<and> aKWOffset ! i + aKWLen ! i \<le> 666) [1..<148]"
  by (simp add: upt_from_1 aKWLen_entries aKWOffset_entries)

lemma length_keyword_text:
  assumes "i \<in> set [1..<148]"
  shows "length (keyword_text i) = aKWLen ! i"
proof -
  have "aKWOffset ! i + aKWLen ! i \<le> 666" using keyword_window assms by (simp add: list_all_iff)
  then show ?thesis by (simp add: keyword_text_def)
qed

definition upcase :: "8 word \<Rightarrow> char" where
  "upcase c = char_of (unat (c AND NOT 0x20))"

lemma of_char_byte: "n < 256 \<Longrightarrow> n = of_char k \<longleftrightarrow> char_of (n :: nat) = k"
  using take_bit_nat_eq_self [of n 8] by (auto simp: char_of_eq_iff)

lemma letter_matches_ok:
  assumes "j < length z" and "off + j < 666"
  shows "letter_matches z off j = Ok (upcase (z ! j) = zKWText ! (off + j))"
  using assms of_char_byte [OF unat_byte_less] by (simp add: letter_matches_def upcase_def)

lemma compare_from_ok:
  assumes "n \<le> length z" and "off + n \<le> 666"
  shows "compare_from z off n j = Ok (\<forall>k. j \<le> k \<and> k < n \<longrightarrow> upcase (z ! k) = zKWText ! (off + k))"
  using assms
proof (induction z off n j rule: compare_from.induct)
  case (1 z off n j)
  show ?case
  proof (cases "j < n")
    case True
    then have m: "letter_matches z off j = Ok (upcase (z ! j) = zKWText ! (off + j))"
      using "1.prems" by (intro letter_matches_ok) auto
    show ?thesis
    proof (cases "upcase (z ! j) = zKWText ! (off + j)")
      case eq: True
      with 1(1) [OF True m] "1.prems" m True show ?thesis
        by (subst compare_from.simps) (auto simp: Suc_le_eq order.order_iff_strict [of j])
    next
      case False
      with m True show ?thesis by (subst compare_from.simps) auto
    qed
  next
    case False
    then show ?thesis by (subst compare_from.simps) auto
  qed
qed

lemma first_two:
  assumes "2 \<le> (n :: nat)"
  shows "(\<forall>k < n. P k) \<longleftrightarrow> P 0 \<and> P 1 \<and> (\<forall>k. 2 \<le> k \<and> k < n \<longrightarrow> P k)"
proof (intro iffI conjI allI impI)
  fix k
  assume all: "P 0 \<and> P 1 \<and> (\<forall>k. 2 \<le> k \<and> k < n \<longrightarrow> P k)" and "k < n"
  then show "P k" by (cases "k < 2") (auto simp: less_2_cases_iff)
qed (use assms in auto)

text \<open>A keyword matches exactly when its letters are those of the token, up to case.\<close>

lemma keyword_matches_ok:
  assumes "1 \<le> i" and "i < 148" and "n \<le> length z"
  shows "keyword_matches z n i = Ok (map upcase (take n z) = keyword_text i)"
proof -
  let ?off = "aKWOffset ! i"
  have w: "2 \<le> aKWLen ! i" "?off + aKWLen ! i \<le> 666"
    using keyword_window assms(1,2) by (simp_all add: list_all_iff)
  show ?thesis
  proof (cases "aKWLen ! i = n")
    case True
    have eq: "map upcase (take n z) = keyword_text i \<longleftrightarrow> (\<forall>k < n. upcase (z ! k) = zKWText ! (?off + k))"
      using True w assms(3) by (auto simp: keyword_text_def list_eq_iff_nth_eq)
    have "(\<forall>k < n. P k) \<longleftrightarrow> P 0 \<and> P 1 \<and> (\<forall>k. 2 \<le> k \<and> k < n \<longrightarrow> P k)" for P
      using w(1) True first_two [of n P] by simp
    then show ?thesis
      using True w assms letter_matches_ok [of 0 z ?off] letter_matches_ok [of 1 z ?off]
        compare_from_ok [of n z ?off 2] unfolding eq
      by (cases "z = []") (simp_all add: keyword_matches_def del: One_nat_def)
  next
    case False
    moreover have "length (keyword_text i) = aKWLen ! i" using w by (simp add: keyword_text_def)
    moreover have "length (map upcase (take n z)) = n" using assms(3) by simp
    ultimately have "map upcase (take n z) \<noteq> keyword_text i" by metis
    with False assms show ?thesis by (simp add: keyword_matches_def)
  qed
qed

section \<open>The chains\<close>

function keyword_chain :: "nat \<Rightarrow> nat list" where
  "keyword_chain i = (if 1 \<le> i \<and> i < 148 then i # keyword_chain (aKWNext ! i) else [])"
  by auto
termination
proof (relation "measure (\<lambda>i. keyword_depth ! i)")
  fix i :: nat
  assume "1 \<le> i \<and> i < 148"
  with depth_decreases show "(aKWNext ! i, i) \<in> measure (\<lambda>i. keyword_depth ! i)"
    by (simp add: list_all_iff)
qed simp

declare keyword_chain.simps [simp del]

lemma keyword_chain_bounds: "x \<in> set (keyword_chain i) \<Longrightarrow> 1 \<le> x \<and> x < 148"
  by (induction i rule: keyword_chain.induct) (subst (asm) (2) keyword_chain.simps, auto split: if_splits)

lemma keyword_loop_ok:
  assumes "i < 148" and "n \<le> length z"
  shows "keyword_loop z n pType i =
     Ok (case find (\<lambda>x. map upcase (take n z) = keyword_text x) (keyword_chain i) of
           Some x \<Rightarrow> aKWCode ! x | None \<Rightarrow> pType)"
  using assms
proof (induction i rule: keyword_chain.induct)
  case (1 i)
  show ?case
  proof (cases "i = 0")
    case True
    then show ?thesis by (simp add: keyword_loop.simps keyword_chain.simps)
  next
    case False
    then have i: "1 \<le> i \<and> i < 148" using "1.prems" by simp
    have next_bound: "aKWNext ! i < 148" using depth_decreases i by (simp add: list_all_iff)
    show ?thesis
      using "1.IH" [OF i next_bound] "1.prems" i keyword_matches_ok [of i n z]
      by (subst keyword_loop.simps, subst keyword_chain.simps) simp
  qed
qed

text \<open>Each keyword is on the chain of its own hash value, and no other on it has its text.\<close>

definition text_hash :: "nat \<Rightarrow> nat" where
  "text_hash i = keyword_hash (of_char (zKWText ! (aKWOffset ! i)) + 32)
     (of_char (zKWText ! (aKWOffset ! i + aKWLen ! i - 1)) + 32) (aKWLen ! i)"

definition capital :: "char \<Rightarrow> bool" where
  "capital c \<longleftrightarrow> 65 \<le> (of_char c :: nat) \<and> (of_char c :: nat) \<le> 90"

lemma keyword_ends:
  "list_all (\<lambda>i. capital (zKWText ! (aKWOffset ! i)) \<and> capital (zKWText ! (aKWOffset ! i + aKWLen ! i - 1))) [1..<148]"
  by (simp add: upt_from_1 aKWOffset_entries aKWLen_entries zKWText_entries capital_def)

lemmas keyword_entries = aKWOffset_entries aKWLen_entries zKWText_entries aKWHash_entries aKWNext_entries

lemma keyword_hashes_ok: "list_all (\<lambda>i. text_hash i = keyword_hashes ! i) [1..<148]"
  by (simp add: upt_from_1 keyword_entries keyword_hashes_entries text_hash_def keyword_hash_def)

lemma keyword_on_chain:
  "list_all (\<lambda>i. list_ex ((=) i) (keyword_chain (aKWHash ! (keyword_hashes ! i)))) [1..<148]"
  by (simp add: upt_from_1 keyword_entries keyword_hashes_entries keyword_chain.simps)

text \<open>Two keywords of a chain differ in their lengths or in their letters.\<close>

definition letter_positions :: "nat list" where
  "letter_positions = [0, 1, 2, 3, 4, 5, 6, 7, 8, 9, 10, 11, 12, 13, 14, 15, 16]"

definition letters :: "nat \<Rightarrow> string" where
  "letters i = map (\<lambda>j. zKWText ! (aKWOffset ! i + j)) (filter (\<lambda>j. j < aKWLen ! i) letter_positions)"

lemmas letters_eval = letters_def letter_positions_def

lemma letter_positions_below: "n \<le> 17 \<Longrightarrow> filter (\<lambda>j. j < n) letter_positions = [0..<n]"
proof -
  assume n: "n \<le> 17"
  have "letter_positions = [0..<17]" by (simp add: letter_positions_def upt_rec)
  then have split: "letter_positions = [0..<n] @ [n..<17]" using n upt_add_eq_append [of 0 n "17 - n"] by simp
  have "filter (\<lambda>j. j < n) [0..<n] = [0..<n]" "filter (\<lambda>j. j < n) [n..<17] = []"
    by (simp_all add: filter_id_conv filter_empty_conv)
  then show ?thesis unfolding split by simp
qed

lemma letters_text:
  assumes "1 \<le> i" and "i < 148"
  shows "letters i = keyword_text i"
proof -
  have w: "aKWLen ! i \<le> 17" "aKWOffset ! i + aKWLen ! i \<le> 666"
    using keyword_window assms by (simp_all add: list_all_iff)
  then show ?thesis
    by (intro nth_equalityI) (auto simp: letters_def letter_positions_below keyword_text_def)
qed

definition apart :: "nat \<Rightarrow> nat \<Rightarrow> bool" where
  "apart x y \<longleftrightarrow> (if x \<noteq> y \<and> aKWLen ! x = aKWLen ! y then letters x \<noteq> letters y else True)"

lemma chain_apart:
  "list_all (\<lambda>h. list_all (\<lambda>x. list_all (apart x) (keyword_chain h)) (keyword_chain h)) aKWHash"
  by (simp add: aKWHash_def aKWHash_0_def aKWHash_74_def keyword_entries apart_def letters_eval keyword_chain.simps)

section \<open>The keywords\<close>

lemma zKWText_start: "zKWText ! Suc (Suc 0) = CHR ''I''" "zKWText ! Suc (Suc (Suc 0)) = CHR ''N''"
  by (simp_all add: zKWText_0_entries flip: numeral_2_eq_2 numeral_3_eq_3)

lemma keyword_texts:
  "map (\<lambda>i. (letters i, aKWCode ! i)) [1..<148] = keyword_list"
  by (simp add: upt_from_1 keyword_list_def keyword_list_0_def keyword_list_49_def keyword_list_98_def
      keyword_entries aKWCode_entries letters_eval zKWText_start)

lemma hash_heads: "list_all (\<lambda>i. i < 148) aKWHash"
  by (simp add: aKWHash_def aKWHash_0_def aKWHash_74_def)

lemma charMap_capital: "capital (upcase c) \<Longrightarrow> charMap c = of_char (upcase c) + 32"
proof -
  have "list_all (\<lambda>k. let u = unat ((word_of_nat k :: 8 word) AND NOT 0x20) in
      if 65 \<le> u \<and> u \<le> 90 then charMap (word_of_nat k) = u + 32 else True) [0..<256]"
    by (simp add: upt_from_0 charMap_def sqlite3UpperToLower_entries Let_def)
  from all_bytes [OF this, of c] show "capital (upcase c) \<Longrightarrow> charMap c = of_char (upcase c) + 32"
    using unat_byte_less [of "c AND NOT 0x20"]
    by (simp add: capital_def upcase_def Let_def)
qed

lemma text_hash_token:
  assumes "1 \<le> i" and "i < 148" and "n \<le> length z" and "map upcase (take n z) = keyword_text i"
  shows "keyword_hash (charMap (z ! 0)) (charMap (z ! (n - 1))) n = keyword_hashes ! i"
proof -
  have w: "2 \<le> aKWLen ! i" "aKWOffset ! i + aKWLen ! i \<le> 666"
    using keyword_window assms(1,2) by (simp_all add: list_all_iff)
  have n: "n = aKWLen ! i" using arg_cong [OF assms(4), of length] assms(3) w by (simp add: keyword_text_def)
  have nth: "upcase (z ! j) = zKWText ! (aKWOffset ! i + j)" if "j < n" for j
    using arg_cong [OF assms(4), of "\<lambda>t. t ! j"] that w n assms(3) by (simp add: keyword_text_def)
  have ends: "upcase (z ! 0) = zKWText ! (aKWOffset ! i)"
    "upcase (z ! (n - 1)) = zKWText ! (aKWOffset ! i + aKWLen ! i - 1)"
    using nth [of 0] nth [of "n - 1"] n w by simp_all
  have "capital (upcase (z ! 0))" "capital (upcase (z ! (n - 1)))"
    using keyword_ends assms(1,2) unfolding ends by (simp_all add: list_all_iff)
  then have "keyword_hash (charMap (z ! 0)) (charMap (z ! (n - 1))) n = text_hash i"
    unfolding text_hash_def using ends n by (simp add: charMap_capital)
  with keyword_hashes_ok assms(1,2) show ?thesis by (simp add: list_all_iff)
qed

lemma map_of_map_find:
  "map_of (map (\<lambda>i. (f i, g i)) xs) k = map_option g (find (\<lambda>i. k = f i) xs)"
  by (induction xs) auto

lemma keyword_list_find: "map_of keyword_list k = map_option ((!) aKWCode) (find (\<lambda>i. k = keyword_text i) [1..<148])"
proof -
  have "keyword_list = map (\<lambda>i. (keyword_text i, aKWCode ! i)) [1..<148]"
    unfolding keyword_texts [symmetric] by (intro map_cong) (simp_all add: letters_text)
  from map_of_map_find [of keyword_text "(!) aKWCode" "[1..<148]" k, folded this] show ?thesis .
qed

lemma find_same:
  assumes "\<And>x. P x \<Longrightarrow> x \<in> set ys \<Longrightarrow> x \<in> set xs" and "set xs \<subseteq> set ys"
    and "\<And>x y. x \<in> set ys \<Longrightarrow> y \<in> set ys \<Longrightarrow> P x \<Longrightarrow> P y \<Longrightarrow> x = y"
  shows "find P xs = find P ys"
proof (cases "find P ys")
  case None
  with assms(2) have "find P xs = None" by (auto simp: find_None_iff)
  with None show ?thesis by simp
next
  case (Some y)
  then have y: "y \<in> set ys" "P y" by (auto simp: find_Some_iff)
  with assms(1) have "find P xs \<noteq> None" by (auto simp: find_None_iff)
  then obtain x where x: "find P xs = Some x" by auto
  then have "x \<in> set xs" "P x" by (auto simp: find_Some_iff)
  with assms(2,3) y have "x = y" by blast
  with x Some show ?thesis by simp
qed

lemma sqlite3KeywordCode_ok:
  assumes "n \<le> length z"
  shows "sqlite3KeywordCode z n =
     Ok (case map_of keyword_list (map upcase (take n z)) of Some t \<Rightarrow> t | None \<Rightarrow> TK_ID)"
proof -
  let ?P = "\<lambda>i. map upcase (take n z) = keyword_text i"
  show ?thesis
  proof (cases "2 \<le> n")
    case False
    have "\<not> ?P i" if "i \<in> set [1..<148]" for i
    proof -
      have "2 \<le> aKWLen ! i" using keyword_window that by (simp add: list_all_iff)
      then have "length (keyword_text i) \<noteq> length (map upcase (take n z))"
        using False assms length_keyword_text [OF that] by simp
      then show ?thesis by metis
    qed
    then have "find ?P [1..<148] = None" by (simp only: find_None_iff) blast
    with False show ?thesis
      by (simp add: sqlite3KeywordCode_def keywordCode_def keyword_list_find)
  next
    case True
    let ?h = "keyword_hash (charMap (z ! 0)) (charMap (z ! (n - 1))) n"
    let ?c = "keyword_chain (aKWHash ! ?h)"
    have h: "?h < 127" by (simp add: keyword_hash_def)
    then have head: "aKWHash ! ?h < 148" using hash_heads by (simp add: list_all_length)
    have on: "i \<in> set ?c" if "?P i" "i \<in> set [1..<148]" for i
    proof -
      from that have "?h = keyword_hashes ! i" by (intro text_hash_token) (use assms in auto)
      with keyword_on_chain that(2) show ?thesis by (auto simp: list_all_iff list_ex_iff)
    qed
    have "find ?P ?c = find ?P [1..<148]"
    proof (rule find_same)
      show "set ?c \<subseteq> set [1..<148]" using keyword_chain_bounds by auto
      fix x y
      assume xy: "x \<in> set [1..<148]" "y \<in> set [1..<148]" "?P x" "?P y"
      have "apart x y"
        using chain_apart nth_mem [of ?h aKWHash] h on [OF xy(3,1)] on [OF xy(4,2)]
        unfolding list_all_iff length_aKWHash by blast
      moreover have "letters x = letters y" using xy letters_text by simp
      moreover have "aKWLen ! x = aKWLen ! y"
        using length_keyword_text xy by metis
      ultimately show "x = y" by (auto simp: apart_def split: if_splits)
    qed (use on in auto)
    with keyword_loop_ok [OF head assms, of TK_ID] True h assms show ?thesis
      by (cases "z = []") (auto simp: sqlite3KeywordCode_def keywordCode_def keyword_list_find split: option.splits)
  qed
qed


text \<open>The bytes of a text.\<close>

definition text_bytes :: "string \<Rightarrow> 8 word list" where
  "text_bytes t = map (\<lambda>c. word_of_nat (of_char c)) t"

lemma length_text_bytes [simp]: "length (text_bytes t) = length t"
  by (simp add: text_bytes_def)


lemma keyword_codes: "list_all (\<lambda>i. aKWCode ! i \<noteq> TK_ID \<and> aKWCode ! i < 185) [1..<148]"
  by (simp add: upt_from_1 aKWCode_entries symbol_defs)

text \<open>
  \<open>sqlite3_keyword_name\<close> enumerates exactly what \<open>sqlite3_keyword_check\<close> recognises: for
  each of the \<open>sqlite3_keyword_count\<close> numbers it gives a text that the check accepts in any
  mixture of cases.
\<close>

theorem keyword_names_checked:
  assumes "0 \<le> i" and "i < int sqlite3_keyword_count" and "map upcase z = w"
    and "sqlite3_keyword_name i = Ok (Some w)"
  shows "sqlite3_keyword_check z (length z) = Ok True"
proof -
  let ?i = "nat (i + 1)"
  have i: "?i \<in> set [1..<148]"
    using assms(1,2) by (auto simp: sqlite3_keyword_count_def SQLITE_N_KEYWORD_def)
  have "i < 147" using assms(2) by (simp add: sqlite3_keyword_count_def SQLITE_N_KEYWORD_def)
  with assms(1,4) have "w = keyword_text ?i"
    by (simp add: sqlite3_keyword_name_def SQLITE_N_KEYWORD_def keyword_text_def)
  with i assms(3) have "find (\<lambda>i. map upcase z = keyword_text i) [1..<148] \<noteq> None"
    by (auto simp: find_None_iff)
  then obtain x where x: "find (\<lambda>i. map upcase z = keyword_text i) [1..<148] = Some x" by auto
  then have "x \<in> set [1..<148]" by (auto simp: find_Some_iff)
  then have "aKWCode ! x \<noteq> TK_ID" using keyword_codes by (simp add: list_all_iff)
  with sqlite3KeywordCode_ok [of "length z" z] x show ?thesis
    by (simp add: sqlite3_keyword_check_def keyword_list_find)
qed

theorem keyword_names_checked_witness:
  "sqlite3_keyword_check (text_bytes ''ReIndex'') (length ''ReIndex'') = Ok True"
proof -
  have "sqlite3_keyword_name 0 = Ok (Some (letters 1))"
    using letters_text [of 1] by (simp add: sqlite3_keyword_name_def SQLITE_N_KEYWORD_def keyword_text_def)
  then have "sqlite3_keyword_name 0 = Ok (Some ''REINDEX'')"
    by (simp add: letters_eval keyword_entries zKWText_start)
  moreover have "map upcase (text_bytes ''ReIndex'') = ''REINDEX''" by code_simp
  ultimately show ?thesis
    using keyword_names_checked [of 0 "text_bytes ''ReIndex''" "''REINDEX''"]
    by (simp add: sqlite3_keyword_count_def SQLITE_N_KEYWORD_def)
qed

text \<open>
  Clearing bit 0x20 takes the delete character to the underscore as it takes small letters to
  capital ones, so the check accepts a text that is no spelling of a keyword. The tokenizer
  never asks about such a text: the character is in no identifier.
\<close>

lemma delete_character_as_underscore:
  "sqlite3_keyword_check (text_bytes ''CURRENT'' @ [0x7F] @ text_bytes ''DATE'') 12 = Ok True"
proof -
  have "map upcase (take 12 (text_bytes ''CURRENT'' @ [0x7F] @ text_bytes ''DATE'')) = ''CURRENT_DATE''" by code_simp
  moreover have "map_of keyword_list ''CURRENT_DATE'' = Some TK_CTIME_KW"
    by (simp add: keyword_list_def keyword_list_0_def map_add_def keyword_list_49_def keyword_list_98_def)
  ultimately show ?thesis by (simp add: sqlite3_keyword_check_def sqlite3KeywordCode_ok symbol_defs)
qed

end
