(* ===== verification/SqTokenize.thy ===== *)
theory SqTokenize
  imports SqKeywords
begin

text \<open>
  The tokenizer, \<open>sqlite3GetToken\<close>: one definition per character class that has code of its own.
  The text is the list of the bytes from the pointer on; a read behind its end is \<open>Undef\<close>.
  The result is the length of the token and its type.
\<close>

abbreviation ch :: "char \<Rightarrow> 8 word" where
  "ch c \<equiv> word_of_nat (of_char c)"

type_synonym token = "(nat \<times> nat) res"

section \<open>Loops\<close>

text \<open>\<open>for(...; P(z[i]); i++)\<close>.\<close>

function scan_while :: "(8 word \<Rightarrow> bool) \<Rightarrow> 8 word list \<Rightarrow> nat \<Rightarrow> nat res" where
  "scan_while P z i = bind_res (vec_idx z i) (\<lambda>c. if P c then scan_while P z (i + 1) else Ok i)"
  by auto
termination
  by (relation "measure (\<lambda>(P, z, i). length z - i)") (auto simp: vec_idx_Ok_iff)

text \<open>The end of a C comment: the position and the last character read.\<close>

function comment_end :: "8 word list \<Rightarrow> nat \<Rightarrow> 8 word \<Rightarrow> (nat \<times> 8 word) res" where
  "comment_end z i c =
     bind_res (vec_idx z i) (\<lambda>d.
       if c = ch CHR ''*'' \<and> d = ch CHR ''/'' then Ok (i, c)
       else if d = 0 then Ok (i, 0)
       else comment_end z (i + 1) d)"
  by auto
termination
  by (relation "measure (\<lambda>(z, i, c). length z - i)") (auto simp: vec_idx_Ok_iff)

text \<open>The end of a quoted text, in which the delimiter is doubled.\<close>

function quote_end :: "8 word list \<Rightarrow> 8 word \<Rightarrow> nat \<Rightarrow> (nat \<times> 8 word) res" where
  "quote_end z delim i =
     bind_res (vec_idx z i) (\<lambda>c.
       if c = 0 then Ok (i, c)
       else if c = delim then
         bind_res (vec_idx z (i + 1)) (\<lambda>d. if d = delim then quote_end z delim (i + 2) else Ok (i, c))
       else quote_end z delim (i + 1))"
  by auto
termination
  by (relation "measure (\<lambda>(z, delim, i). length z - i)") (auto simp: vec_idx_Ok_iff)

function bracket_end :: "8 word list \<Rightarrow> nat \<Rightarrow> 8 word \<Rightarrow> (nat \<times> 8 word) res" where
  "bracket_end z i c =
     (if c = ch CHR '']'' then Ok (i, c)
      else bind_res (vec_idx z i) (\<lambda>d. if d = 0 then Ok (i, 0) else bracket_end z (i + 1) d))"
  by auto
termination
  by (relation "measure (\<lambda>(z, i, c). length z - i)") (auto simp: vec_idx_Ok_iff)

text \<open>The name of a variable: position, number of name characters, type.\<close>

function variable_end :: "8 word list \<Rightarrow> nat \<Rightarrow> nat \<Rightarrow> (nat \<times> nat \<times> nat) res" where
  "variable_end z i n =
     bind_res (vec_idx z i) (\<lambda>c.
       if c = 0 then Ok (i, n, TK_VARIABLE)
       else if IdChar c then variable_end z (i + 1) (n + 1)
       else if c = ch CHR ''('' \<and> 0 < n then
         bind_res (scan_while (\<lambda>c. c \<noteq> 0 \<and> \<not> sqlite3Isspace c \<and> c \<noteq> ch CHR '')'') z (i + 1)) (\<lambda>j.
         bind_res (vec_idx z j) (\<lambda>c.
           Ok (if c = ch CHR '')'' then (j + 1, n, TK_VARIABLE) else (j, n, TK_ILLEGAL))))
       else if c = ch CHR '':'' then
         bind_res (vec_idx z (i + 1)) (\<lambda>d.
           if d = ch CHR '':'' then variable_end z (i + 2) n else Ok (i, n, TK_VARIABLE))
       else Ok (i, n, TK_VARIABLE))"
  by auto
termination
  by (relation "measure (\<lambda>(z, i, n). length z - i)") (auto simp: vec_idx_Ok_iff)

declare scan_while.simps [simp del] comment_end.simps [simp del] quote_end.simps [simp del]
  bracket_end.simps [simp del] variable_end.simps [simp del]

section \<open>The cases of the switch\<close>

definition token_space :: "8 word list \<Rightarrow> token" where
  "token_space z = map_res (\<lambda>i. (i, TK_SPACE)) (scan_while sqlite3Isspace z 1)"

definition token_minus :: "8 word list \<Rightarrow> token" where
  "token_minus z =
     bind_res (vec_idx z 1) (\<lambda>c.
       if c = ch CHR ''-'' then
         map_res (\<lambda>i. (i, TK_SPACE)) (scan_while (\<lambda>c. c \<noteq> 0 \<and> c \<noteq> 10) z 2)
       else if c = ch CHR ''>'' then
         map_res (\<lambda>d. (2 + (if d = ch CHR ''>'' then 1 else 0), TK_PTR)) (vec_idx z 2)
       else Ok (1, TK_MINUS))"

definition token_slash :: "8 word list \<Rightarrow> token" where
  "token_slash z =
     bind_res (vec_idx z 1) (\<lambda>c1.
       if c1 \<noteq> ch CHR ''*'' then Ok (1, TK_SLASH)
       else bind_res (vec_idx z 2) (\<lambda>c2.
         if c2 = 0 then Ok (1, TK_SLASH)
         else map_res (\<lambda>(i, c). (if c \<noteq> 0 then i + 1 else i, TK_SPACE)) (comment_end z 3 c2)))"

definition token_eq :: "8 word list \<Rightarrow> token" where
  "token_eq z = map_res (\<lambda>c. (1 + (if c = ch CHR ''='' then 1 else 0), TK_EQ)) (vec_idx z 1)"

definition token_lt :: "8 word list \<Rightarrow> token" where
  "token_lt z = map_res (\<lambda>c.
     if c = ch CHR ''='' then (2, TK_LE)
     else if c = ch CHR ''>'' then (2, TK_NE)
     else if c = ch CHR ''<'' then (2, TK_LSHIFT)
     else (1, TK_LT)) (vec_idx z 1)"

definition token_gt :: "8 word list \<Rightarrow> token" where
  "token_gt z = map_res (\<lambda>c.
     if c = ch CHR ''='' then (2, TK_GE)
     else if c = ch CHR ''>'' then (2, TK_RSHIFT)
     else (1, TK_GT)) (vec_idx z 1)"

definition token_bang :: "8 word list \<Rightarrow> token" where
  "token_bang z = map_res (\<lambda>c. if c \<noteq> ch CHR ''='' then (1, TK_ILLEGAL) else (2, TK_NE)) (vec_idx z 1)"

definition token_pipe :: "8 word list \<Rightarrow> token" where
  "token_pipe z = map_res (\<lambda>c. if c \<noteq> ch CHR ''|'' then (1, TK_BITOR) else (2, TK_CONCAT)) (vec_idx z 1)"

definition token_quote :: "8 word list \<Rightarrow> token" where
  "token_quote z =
     bind_res (vec_idx z 0) (\<lambda>delim.
     map_res (\<lambda>(i, c).
       if c = 39 then (i + 1, TK_STRING)
       else if c \<noteq> 0 then (i + 1, TK_ID)
       else (i, TK_ILLEGAL)) (quote_end z delim 1))"

text \<open>The fraction and the exponent of a number, and what may not follow it.\<close>

definition number_fraction :: "8 word list \<Rightarrow> nat \<Rightarrow> token" where
  "number_fraction z i =
     bind_res (vec_idx z i) (\<lambda>c.
       if c = ch CHR ''.'' then map_res (\<lambda>j. (j, TK_FLOAT)) (scan_while sqlite3Isdigit z (i + 1))
       else Ok (i, TK_INTEGER))"

definition exponent_follows :: "8 word list \<Rightarrow> nat \<Rightarrow> bool res" where
  "exponent_follows z i =
     bind_res (vec_idx z i) (\<lambda>c.
       if c = ch CHR ''e'' \<or> c = ch CHR ''E'' then
         bind_res (vec_idx z (i + 1)) (\<lambda>d.
           if sqlite3Isdigit d then Ok True
           else if d = ch CHR ''+'' \<or> d = ch CHR ''-'' then map_res sqlite3Isdigit (vec_idx z (i + 2))
           else Ok False)
       else Ok False)"

definition number_tail :: "8 word list \<Rightarrow> nat \<Rightarrow> nat \<Rightarrow> token" where
  "number_tail z i t = map_res (\<lambda>j. (j, if i < j then TK_ILLEGAL else t)) (scan_while IdChar z i)"

definition hex_follows :: "8 word list \<Rightarrow> bool res" where
  "hex_follows z =
     bind_res (vec_idx z 0) (\<lambda>c0.
       if c0 \<noteq> ch CHR ''0'' then Ok False
       else bind_res (vec_idx z 1) (\<lambda>c1.
         if c1 \<noteq> ch CHR ''x'' \<and> c1 \<noteq> ch CHR ''X'' then Ok False
         else map_res sqlite3Isxdigit (vec_idx z 2)))"

definition token_number :: "8 word list \<Rightarrow> token" where
  "token_number z =
     bind_res (hex_follows z) (\<lambda>hex.
       if hex then map_res (\<lambda>i. (i, TK_INTEGER)) (scan_while sqlite3Isxdigit z 3)
       else
         bind_res (scan_while sqlite3Isdigit z 0) (\<lambda>i.
         bind_res (number_fraction z i) (\<lambda>(j, t).
         bind_res (exponent_follows z j) (\<lambda>e.
           if e then bind_res (scan_while sqlite3Isdigit z (j + 2)) (\<lambda>k. number_tail z k TK_FLOAT)
           else number_tail z j t))))"

definition token_dot :: "8 word list \<Rightarrow> token" where
  "token_dot z =
     bind_res (vec_idx z 1) (\<lambda>c. if \<not> sqlite3Isdigit c then Ok (1, TK_DOT) else token_number z)"

definition token_bracket :: "8 word list \<Rightarrow> token" where
  "token_bracket z =
     bind_res (vec_idx z 0) (\<lambda>c0.
     map_res (\<lambda>(i, c). (i, if c = ch CHR '']'' then TK_ID else TK_ILLEGAL)) (bracket_end z 1 c0))"

definition token_varnum :: "8 word list \<Rightarrow> token" where
  "token_varnum z = map_res (\<lambda>i. (i, TK_VARIABLE)) (scan_while sqlite3Isdigit z 1)"

definition token_variable :: "8 word list \<Rightarrow> token" where
  "token_variable z = map_res (\<lambda>(i, n, t). (i, if n = 0 then TK_ILLEGAL else t)) (variable_end z 1 0)"

text \<open>The loop behind the switch.\<close>

definition token_identifier :: "8 word list \<Rightarrow> nat \<Rightarrow> token" where
  "token_identifier z i = map_res (\<lambda>j. (j, TK_ID)) (scan_while IdChar z i)"

definition token_keyword :: "8 word list \<Rightarrow> token" where
  "token_keyword z =
     bind_res (scan_while (\<lambda>c. char_class c \<le> CC_KYWD) z 1) (\<lambda>i.
     bind_res (vec_idx z i) (\<lambda>c.
       if IdChar c then token_identifier z (i + 1)
       else map_res (\<lambda>t. (i, t)) (keywordCode z i TK_ID)))"

definition token_x :: "8 word list \<Rightarrow> token" where
  "token_x z =
     bind_res (vec_idx z 1) (\<lambda>c1.
       if c1 = 39 then
         bind_res (scan_while sqlite3Isxdigit z 2) (\<lambda>i.
         bind_res (vec_idx z i) (\<lambda>c.
           if c \<noteq> 39 \<or> odd i then
             bind_res (scan_while (\<lambda>c. c \<noteq> 0 \<and> c \<noteq> 39) z i) (\<lambda>j.
             map_res (\<lambda>d. (if d \<noteq> 0 then j + 1 else j, TK_ILLEGAL)) (vec_idx z j))
           else Ok (if c \<noteq> 0 then i + 1 else i, TK_BLOB)))
       else token_identifier z 1)"

definition token_bom :: "8 word list \<Rightarrow> token" where
  "token_bom z =
     bind_res (vec_idx z 1) (\<lambda>c1.
       if c1 = 0xBB then
         bind_res (vec_idx z 2) (\<lambda>c2. if c2 = 0xBF then Ok (3, TK_SPACE) else token_identifier z 1)
       else token_identifier z 1)"

definition sqlite3GetToken :: "8 word list \<Rightarrow> token" where
  "sqlite3GetToken z =
     bind_res (vec_idx z 0) (\<lambda>c.
       (let k = char_class c in
        if k = CC_SPACE then token_space z
        else if k = CC_MINUS then token_minus z
        else if k = CC_LP then Ok (1, TK_LP)
        else if k = CC_RP then Ok (1, TK_RP)
        else if k = CC_SEMI then Ok (1, TK_SEMI)
        else if k = CC_PLUS then Ok (1, TK_PLUS)
        else if k = CC_STAR then Ok (1, TK_STAR)
        else if k = CC_SLASH then token_slash z
        else if k = CC_PERCENT then Ok (1, TK_REM)
        else if k = CC_EQ then token_eq z
        else if k = CC_LT then token_lt z
        else if k = CC_GT then token_gt z
        else if k = CC_BANG then token_bang z
        else if k = CC_PIPE then token_pipe z
        else if k = CC_COMMA then Ok (1, TK_COMMA)
        else if k = CC_AND then Ok (1, TK_BITAND)
        else if k = CC_TILDA then Ok (1, TK_BITNOT)
        else if k = CC_QUOTE then token_quote z
        else if k = CC_DOT then token_dot z
        else if k = CC_DIGIT then token_number z
        else if k = CC_QUOTE2 then token_bracket z
        else if k = CC_VARNUM then token_varnum z
        else if k = CC_DOLLAR \<or> k = CC_VARALPHA then token_variable z
        else if k = CC_KYWD0 then token_keyword z
        else if k = CC_X then token_x z
        else if k = CC_KYWD \<or> k = CC_ID then token_identifier z 1
        else if k = CC_BOM then token_bom z
        else if k = CC_NUL then Ok (0, TK_ILLEGAL)
        else Ok (1, TK_ILLEGAL)))"

end
