(* ===== verification/SqTokenSafe.thy ===== *)
theory SqTokenSafe
  imports SqTokenize
begin

text \<open>
  The tokenizer on strings that end in a zero byte: it reads nothing behind it, and a token is
  never empty and never reaches over it.
\<close>

section \<open>Strings that end in a zero byte\<close>

definition terminated :: "8 word list \<Rightarrow> nat \<Rightarrow> bool" where
  "terminated z m \<longleftrightarrow> m < length z \<and> z ! m = 0 \<and> (\<forall>k < m. z ! k \<noteq> 0)"

lemma terminated_read: "terminated z m \<Longrightarrow> i \<le> m \<Longrightarrow> vec_idx z i = Ok (z ! i)"
  by (simp add: terminated_def)

lemma terminated_step: "terminated z m \<Longrightarrow> i \<le> m \<Longrightarrow> z ! i \<noteq> 0 \<Longrightarrow> Suc i \<le> m"
  by (auto simp: terminated_def Suc_le_eq order.order_iff_strict)

lemma terminated_append: "0 \<notin> set s \<Longrightarrow> terminated (s @ 0 # rest) (length s)"
  by (auto simp: terminated_def nth_append) (metis nth_mem)

lemma terminated_drop: "terminated z m \<Longrightarrow> i \<le> m \<Longrightarrow> terminated (drop i z) (m - i)"
  by (auto simp: terminated_def)

section \<open>Loops\<close>

lemma scan_while_ok:
  assumes "terminated z m" and "i \<le> m" and "\<not> P 0"
  shows "\<exists>j. scan_while P z i = Ok j \<and> i \<le> j \<and> j \<le> m \<and> \<not> P (z ! j) \<and> (\<forall>k. i \<le> k \<and> k < j \<longrightarrow> P (z ! k))"
  using assms(2)
proof (induction "m - i" arbitrary: i rule: less_induct)
  case less
  note read = terminated_read [OF assms(1) less.prems]
  show ?case
  proof (cases "P (z ! i)")
    case True
    then have s: "Suc i \<le> m" using terminated_step [OF assms(1) less.prems] assms(3) by metis
    then have "m - Suc i < m - i" by simp
    from less.hyps [OF this s] obtain j where "scan_while P z (Suc i) = Ok j" "Suc i \<le> j" "j \<le> m" "\<not> P (z ! j)"
      "\<forall>k. Suc i \<le> k \<and> k < j \<longrightarrow> P (z ! k)" by blast
    with True read show ?thesis
      by (intro exI [of _ j], subst scan_while.simps) (auto simp: Suc_le_eq order.order_iff_strict [of i])
  next
    case False
    with read less.prems show ?thesis by (intro exI [of _ i], subst scan_while.simps) auto
  qed
qed

lemma comment_end_ok:
  assumes "terminated z m" and "i \<le> m"
  shows "\<exists>j d. comment_end z i c = Ok (j, d) \<and> i \<le> j \<and> j \<le> m \<and> (d \<noteq> 0 \<longrightarrow> j < m)"
  using assms(2)
proof (induction "m - i" arbitrary: i c rule: less_induct)
  case less
  note read = terminated_read [OF assms(1) less.prems]
  show ?case
  proof (cases "z ! i = 0 \<or> c = ch CHR ''*'' \<and> z ! i = ch CHR ''/''")
    case True
    with read less.prems terminated_step [OF assms(1) less.prems] show ?thesis
      by (subst comment_end.simps) auto
  next
    case False
    then have s: "Suc i \<le> m" using terminated_step [OF assms(1) less.prems] by simp
    then have "m - Suc i < m - i" by simp
    from less.hyps [OF this s, of "z ! i"] obtain j d where
      "comment_end z (Suc i) (z ! i) = Ok (j, d)" "Suc i \<le> j" "j \<le> m" "d \<noteq> 0 \<longrightarrow> j < m" by blast
    with False read show ?thesis
      by (intro exI [of _ j] exI [of _ d], subst comment_end.simps) auto
  qed
qed

lemma quote_end_ok:
  assumes "terminated z m" and "i \<le> m" and "delim \<noteq> 0"
  shows "\<exists>j d. quote_end z delim i = Ok (j, d) \<and> i \<le> j \<and> j \<le> m \<and> (d \<noteq> 0 \<longrightarrow> d = delim \<and> j < m)"
  using assms(2)
proof (induction "m - i" arbitrary: i rule: less_induct)
  case less
  note read = terminated_read [OF assms(1)] and step = terminated_step [OF assms(1)]
  show ?case
  proof (cases "z ! i = 0")
    case True
    with read [OF less.prems] less.prems show ?thesis by (subst quote_end.simps) auto
  next
    case ne: False
    then have s: "Suc i \<le> m" using step less.prems by simp
    show ?thesis
    proof (cases "z ! i = delim \<and> z ! Suc i \<noteq> delim")
      case True
      with ne s read [OF less.prems] read [OF s] show ?thesis by (subst quote_end.simps) auto
    next
      case False
      let ?n = "if z ! i = delim then i + 2 else i + 1"
      have n: "?n \<le> m" using s False step [OF s] assms(3) by auto
      have "quote_end z delim i = quote_end z delim ?n"
        using ne s False read [OF less.prems] read [OF s] by (subst quote_end.simps) auto
      with less.hyps [OF _ n] n show ?thesis by (fastforce split: if_splits)
    qed
  qed
qed

lemma bracket_end_ok:
  assumes "terminated z m" and "i \<le> m"
  shows "\<exists>j d. bracket_end z i c = Ok (j, d) \<and> i \<le> j \<and> j \<le> m"
  using assms(2)
proof (induction "m - i" arbitrary: i c rule: less_induct)
  case less
  note read = terminated_read [OF assms(1) less.prems]
  show ?case
  proof (cases "c = ch CHR '']'' \<or> z ! i = 0")
    case True
    with read less.prems show ?thesis by (subst bracket_end.simps) auto
  next
    case False
    then have s: "Suc i \<le> m" using terminated_step [OF assms(1) less.prems] by simp
    then have "m - Suc i < m - i" by simp
    from less.hyps [OF this s, of "z ! i"] obtain j d where
      "bracket_end z (Suc i) (z ! i) = Ok (j, d)" "Suc i \<le> j" "j \<le> m" by blast
    with False read show ?thesis
      by (intro exI [of _ j] exI [of _ d], subst bracket_end.simps) auto
  qed
qed

lemma variable_end_ok:
  assumes "terminated z m" and "i \<le> m"
  shows "\<exists>j n' t. variable_end z i n = Ok (j, n', t) \<and> i \<le> j \<and> j \<le> m \<and> (t = TK_VARIABLE \<or> t = TK_ILLEGAL)"
  using assms(2)
proof (induction "m - i" arbitrary: i n rule: less_induct)
  case less
  note read = terminated_read [OF assms(1)] and step = terminated_step [OF assms(1)]
  show ?case
  proof (cases "z ! i = 0")
    case True
    with read [OF less.prems] less.prems show ?thesis by (subst variable_end.simps) auto
  next
    case ne: False
    then have s: "Suc i \<le> m" using step less.prems by simp
    note r = read [OF less.prems] read [OF s]
    show ?thesis
    proof (cases "IdChar (z ! i)")
      case True
      with ne r have "variable_end z i n = variable_end z (Suc i) (Suc n)" by (subst variable_end.simps) auto
      with less.hyps [of "Suc i" "Suc n"] s show ?thesis by fastforce
    next
      case id: False
      show ?thesis
      proof (cases "z ! i = ch CHR ''('' \<and> 0 < n")
        case True
        from scan_while_ok [OF assms(1) s, of "\<lambda>c. c \<noteq> 0 \<and> \<not> sqlite3Isspace c \<and> c \<noteq> ch CHR '')''"] obtain j where
          j: "scan_while (\<lambda>c. c \<noteq> 0 \<and> \<not> sqlite3Isspace c \<and> c \<noteq> ch CHR '')'') z (Suc i) = Ok j" "Suc i \<le> j" "j \<le> m"
          by auto
        have "z ! j = ch CHR '')'' \<Longrightarrow> Suc j \<le> m" using step j(3) by simp
        with ne id True r j read [OF j(3)] show ?thesis by (subst variable_end.simps) auto
      next
        case False
        show ?thesis
        proof (cases "z ! i = ch CHR '':'' \<and> z ! Suc i = ch CHR '':''")
          case True
          then have "i + 2 \<le> m" using step [OF s] by simp
          with less.hyps [of "i + 2" n] ne id True r show ?thesis
            by (subst variable_end.simps) fastforce
        next
          case colon: False
          with ne id False r less.prems show ?thesis by (subst variable_end.simps) auto
        qed
      qed
    qed
  qed
qed

section \<open>The cases\<close>

text \<open>What the caller relies on: the numbers from \<open>TK_WINDOW\<close> on, and the lengths it asserts.\<close>

definition token_type_ok :: "nat \<Rightarrow> nat \<Rightarrow> bool" where
  "token_type_ok n t \<longleftrightarrow> 0 < t \<and> t < YYNTOKEN \<and>
     (TK_WINDOW \<le> t \<longrightarrow> t = TK_SPACE \<or> t = TK_ILLEGAL \<or> t = TK_WINDOW \<and> n = 6 \<or> t = TK_OVER \<and> n = 4 \<or>
        t = TK_FILTER \<and> n = 6)"

definition good_token :: "nat \<Rightarrow> token \<Rightarrow> bool" where
  "good_token m r \<longleftrightarrow> (\<exists>n t. r = Ok (n, t) \<and> 1 \<le> n \<and> n \<le> m \<and> token_type_ok n t)"

lemma good_tokenI: "1 \<le> n \<Longrightarrow> n \<le> m \<Longrightarrow> token_type_ok n t \<Longrightarrow> good_token m (Ok (n, t))"
  by (simp add: good_token_def)

lemmas type_ok = token_type_ok_def symbol_defs control_defs

lemma token_space_ok: "terminated z m \<Longrightarrow> 1 \<le> m \<Longrightarrow> good_token m (token_space z)"
  using scan_while_ok [of z m 1 sqlite3Isspace] by (auto simp: token_space_def good_token_def type_ok)

lemma token_identifier_ok:
  "terminated z m \<Longrightarrow> 1 \<le> i \<Longrightarrow> i \<le> m \<Longrightarrow> good_token m (token_identifier z i)"
  using scan_while_ok [of z m i IdChar] by (auto simp: token_identifier_def good_token_def type_ok)

lemma token_varnum_ok: "terminated z m \<Longrightarrow> 1 \<le> m \<Longrightarrow> good_token m (token_varnum z)"
  using scan_while_ok [of z m 1 sqlite3Isdigit] by (auto simp: token_varnum_def good_token_def type_ok)

text \<open>Tokens that look at one more byte.\<close>

lemma token_two_ok:
  assumes "terminated z m" and "1 \<le> m"
    and "\<And>c. (\<exists>t. f c = (1, t) \<and> token_type_ok 1 t) \<or> c \<noteq> 0 \<and> (\<exists>t. f c = (2, t) \<and> token_type_ok 2 t)"
  shows "good_token m (map_res f (vec_idx z 1))"
  using terminated_read [OF assms(1,2)] terminated_step [OF assms(1,2)] assms(2) assms(3) [of "z ! 1"]
  by (auto simp: good_token_def)

lemma token_eq_ok: "terminated z m \<Longrightarrow> 1 \<le> m \<Longrightarrow> good_token m (token_eq z)"
  unfolding token_eq_def by (rule token_two_ok) (auto simp: type_ok)

lemma token_lt_ok: "terminated z m \<Longrightarrow> 1 \<le> m \<Longrightarrow> good_token m (token_lt z)"
  unfolding token_lt_def by (rule token_two_ok) (auto simp: type_ok)

lemma token_gt_ok: "terminated z m \<Longrightarrow> 1 \<le> m \<Longrightarrow> good_token m (token_gt z)"
  unfolding token_gt_def by (rule token_two_ok) (auto simp: type_ok)

lemma token_bang_ok: "terminated z m \<Longrightarrow> 1 \<le> m \<Longrightarrow> good_token m (token_bang z)"
  unfolding token_bang_def by (rule token_two_ok) (auto simp: type_ok)

lemma token_pipe_ok: "terminated z m \<Longrightarrow> 1 \<le> m \<Longrightarrow> good_token m (token_pipe z)"
  unfolding token_pipe_def by (rule token_two_ok) (auto simp: type_ok)

lemma token_minus_ok:
  assumes "terminated z m" and "1 \<le> m"
  shows "good_token m (token_minus z)"
proof (cases "z ! 1 = ch CHR ''-'' \<or> z ! 1 = ch CHR ''>''")
  case True
  then have "2 \<le> m" using terminated_step [OF assms] by auto
  with True show ?thesis
    using terminated_read [OF assms] terminated_read [OF assms(1), of 2] terminated_step [OF assms(1), of 2]
      scan_while_ok [OF assms(1), of 2 "\<lambda>c. c \<noteq> 0 \<and> c \<noteq> 10"]
    by (auto simp: token_minus_def good_token_def type_ok)
next
  case False
  then show ?thesis
    using terminated_read [OF assms] assms(2) by (auto simp: token_minus_def good_token_def type_ok)
qed

lemma token_slash_ok:
  assumes "terminated z m" and "1 \<le> m"
  shows "good_token m (token_slash z)"
proof (cases "z ! 1 = ch CHR ''*''")
  case True
  then have two: "2 \<le> m" using terminated_step [OF assms] by auto
  note r = terminated_read [OF assms] terminated_read [OF assms(1) two]
  show ?thesis
  proof (cases "z ! 2 = 0")
    case False
    then have "3 \<le> m" using terminated_step [OF assms(1) two] by simp
    from comment_end_ok [OF assms(1) this, of "z ! 2"] obtain j d where
      "comment_end z 3 (z ! 2) = Ok (j, d)" "3 \<le> j" "j \<le> m" "d \<noteq> 0 \<longrightarrow> j < m" by blast
    with True False r show ?thesis by (auto simp: token_slash_def good_token_def type_ok)
  qed (use True r assms(2) in \<open>simp add: token_slash_def good_token_def type_ok\<close>)
qed (use terminated_read [OF assms] assms(2) in \<open>simp add: token_slash_def good_token_def type_ok\<close>)

lemma token_quote_ok:
  assumes "terminated z m" and "1 \<le> m"
  shows "good_token m (token_quote z)"
proof -
  have "z ! 0 \<noteq> 0" using assms by (simp add: terminated_def)
  from quote_end_ok [OF assms this] obtain j d where
    "quote_end z (z ! 0) 1 = Ok (j, d)" "1 \<le> j" "j \<le> m" "d \<noteq> 0 \<longrightarrow> d = z ! 0 \<and> j < m" by blast
  with terminated_read [OF assms(1), of 0] show ?thesis
    by (auto simp: token_quote_def good_token_def type_ok)
qed

lemma token_bracket_ok:
  assumes "terminated z m" and "1 \<le> m"
  shows "good_token m (token_bracket z)"
  using bracket_end_ok [OF assms, of "z ! 0"] terminated_read [OF assms(1), of 0]
  by (auto simp: token_bracket_def good_token_def type_ok)

lemma token_variable_ok:
  assumes "terminated z m" and "1 \<le> m"
  shows "good_token m (token_variable z)"
  using variable_end_ok [OF assms, of 0]
  by (fastforce simp: token_variable_def good_token_def type_ok)

section \<open>Numbers\<close>

lemma hex_follows_ok:
  assumes "terminated z m" and "1 \<le> m"
  shows "\<exists>b. hex_follows z = Ok b \<and> (b \<longrightarrow> 3 \<le> m)"
proof (cases "z ! 0 = ch CHR ''0'' \<and> (z ! 1 = ch CHR ''x'' \<or> z ! 1 = ch CHR ''X'')")
  case True
  then have two: "2 \<le> m" using terminated_step [OF assms] by auto
  have "sqlite3Isxdigit (z ! 2) \<Longrightarrow> 3 \<le> m" using terminated_step [OF assms(1) two] by force
  with True show ?thesis
    using terminated_read [OF assms] terminated_read [OF assms(1), of 0] terminated_read [OF assms(1) two]
    by (auto simp: hex_follows_def)
next
  case False
  then show ?thesis
    using terminated_read [OF assms] terminated_read [OF assms(1), of 0] by (auto simp: hex_follows_def)
qed

lemma number_fraction_ok:
  assumes "terminated z m" and "i \<le> m"
  shows "\<exists>j t. number_fraction z i = Ok (j, t) \<and> i \<le> j \<and> j \<le> m \<and> (z ! i = ch CHR ''.'' \<longrightarrow> i < j) \<and>
     (t = TK_FLOAT \<or> t = TK_INTEGER)"
proof (cases "z ! i = ch CHR ''.''")
  case True
  then have "Suc i \<le> m" using terminated_step [OF assms] by simp
  from scan_while_ok [OF assms(1) this, of sqlite3Isdigit] True show ?thesis
    using terminated_read [OF assms] by (auto simp: number_fraction_def)
next
  case False
  then show ?thesis using terminated_read [OF assms] assms(2) by (auto simp: number_fraction_def)
qed

lemma exponent_follows_ok:
  assumes "terminated z m" and "i \<le> m"
  shows "\<exists>b. exponent_follows z i = Ok b \<and> (b \<longrightarrow> i + 2 \<le> m)"
proof (cases "z ! i = ch CHR ''e'' \<or> z ! i = ch CHR ''E''")
  case True
  then have s: "Suc i \<le> m" using terminated_step [OF assms] by auto
  show ?thesis
  proof (cases "sqlite3Isdigit (z ! Suc i) \<or> z ! Suc i = ch CHR ''+'' \<or> z ! Suc i = ch CHR ''-''")
    case d: True
    have "z ! Suc i \<noteq> 0"
    proof
      assume "z ! Suc i = 0"
      with d show False by simp
    qed
    then have "i + 2 \<le> m" using terminated_step [OF assms(1) s] by simp
    with True d show ?thesis
      using terminated_read [OF assms] terminated_read [OF assms(1) s] terminated_read [OF assms(1), of "i + 2"]
      by (auto simp: exponent_follows_def)
  next
    case False
    with True show ?thesis
      using terminated_read [OF assms] terminated_read [OF assms(1) s] by (auto simp: exponent_follows_def)
  qed
next
  case False
  then show ?thesis using terminated_read [OF assms] by (auto simp: exponent_follows_def)
qed

lemma number_tail_ok:
  assumes "terminated z m" and "1 \<le> i" and "i \<le> m" and "t = TK_FLOAT \<or> t = TK_INTEGER"
  shows "good_token m (number_tail z i t)"
  using scan_while_ok [OF assms(1,3), of IdChar] assms(2,4)
  by (auto simp: number_tail_def good_token_def type_ok)

lemma token_number_ok:
  assumes "terminated z m" and "1 \<le> m" and "sqlite3Isdigit (z ! 0) \<or> z ! 0 = ch CHR ''.''"
  shows "good_token m (token_number z)"
proof -
  from hex_follows_ok [OF assms(1,2)] obtain b where b: "hex_follows z = Ok b" "b \<longrightarrow> 3 \<le> m" by blast
  show ?thesis
  proof (cases b)
    case True
    with b scan_while_ok [OF assms(1), of 3 sqlite3Isxdigit] show ?thesis
      by (auto simp: token_number_def good_token_def type_ok)
  next
    case False
    from scan_while_ok [OF assms(1) le0, of sqlite3Isdigit] obtain i where
      i: "scan_while sqlite3Isdigit z 0 = Ok i" "i \<le> m" "\<not> sqlite3Isdigit (z ! i)" by auto
    from number_fraction_ok [OF assms(1) i(2)] obtain j t where
      j: "number_fraction z i = Ok (j, t)" "i \<le> j" "j \<le> m" "z ! i = ch CHR ''.'' \<longrightarrow> i < j"
        "t = TK_FLOAT \<or> t = TK_INTEGER" by blast
    have one: "1 \<le> j" using assms(3) i(3) j(2,4) by (cases i) auto
    from exponent_follows_ok [OF assms(1) j(3)] obtain e where
      e: "exponent_follows z j = Ok e" "e \<longrightarrow> j + 2 \<le> m" by blast
    show ?thesis
    proof (cases e)
      case True
      with e have "j + 2 \<le> m" by simp
      from scan_while_ok [OF assms(1) this, of sqlite3Isdigit] obtain k where
        k: "scan_while sqlite3Isdigit z (j + 2) = Ok k" "j + 2 \<le> k" "k \<le> m" by auto
      with True False b(1) i(1) j(1) e(1) number_tail_ok [OF assms(1) _ k(3), of TK_FLOAT] show ?thesis
        by (simp add: token_number_def)
    next
      case f: False
      with False b(1) i(1) j(1,5) e(1) number_tail_ok [OF assms(1) one j(3), of t] show ?thesis
        by (simp add: token_number_def)
    qed
  qed
qed

lemma token_dot_ok:
  assumes "terminated z m" and "1 \<le> m" and "z ! 0 = ch CHR ''.''"
  shows "good_token m (token_dot z)"
  using terminated_read [OF assms(1,2)] token_number_ok [OF assms(1,2)] assms(2,3)
  by (auto simp: token_dot_def intro!: good_tokenI) (simp_all add: type_ok)

section \<open>Identifiers, keywords and blobs\<close>

lemma keyword_types: "list_all (\<lambda>i. token_type_ok (aKWLen ! i) (aKWCode ! i)) [1..<148]"
  by (simp add: upt_from_1 aKWLen_entries aKWCode_entries type_ok)

lemma keyword_type_ok:
  assumes "1 \<le> n" and "n \<le> length z"
  shows "\<exists>t. keywordCode z n TK_ID = Ok t \<and> token_type_ok n t"
proof (cases "find (\<lambda>i. map upcase (take n z) = keyword_text i) [1..<148]")
  case None
  with assms show ?thesis
    using sqlite3KeywordCode_ok [OF assms(2)] by (simp add: sqlite3KeywordCode_def keyword_list_find type_ok)
next
  case (Some i)
  then have i: "i \<in> set [1..<148]" "map upcase (take n z) = keyword_text i" by (auto simp: find_Some_iff)
  from i(2) have "length (map upcase (take n z)) = length (keyword_text i)" by simp
  then have "n = aKWLen ! i" using length_keyword_text [OF i(1)] assms(2) by simp
  with keyword_types i(1) have "token_type_ok n (aKWCode ! i)" by (simp add: list_all_iff)
  with Some assms show ?thesis
    using sqlite3KeywordCode_ok [OF assms(2)] by (simp add: sqlite3KeywordCode_def keyword_list_find)
qed

lemma token_keyword_ok:
  assumes "terminated z m" and "1 \<le> m"
  shows "good_token m (token_keyword z)"
proof -
  have "\<not> char_class 0 \<le> CC_KYWD" by (simp add: class_defs)
  from scan_while_ok [OF assms, of "\<lambda>c. char_class c \<le> CC_KYWD", OF this] obtain i where
    i: "scan_while (\<lambda>c. char_class c \<le> CC_KYWD) z 1 = Ok i" "1 \<le> i" "i \<le> m" by auto
  show ?thesis
  proof (cases "IdChar (z ! i)")
    case True
    then have "z ! i \<noteq> 0" by auto
    then have "Suc i \<le> m" using terminated_step [OF assms(1) i(3)] by simp
    with True i terminated_read [OF assms(1) i(3)] token_identifier_ok [OF assms(1), of "Suc i"] show ?thesis
      by (simp add: token_keyword_def)
  next
    case False
    have "i \<le> length z" using assms(1) i(3) by (simp add: terminated_def)
    from keyword_type_ok [OF i(2) this] False i terminated_read [OF assms(1) i(3)] show ?thesis
      by (auto simp: token_keyword_def good_token_def)
  qed
qed

lemma token_x_ok:
  assumes "terminated z m" and "1 \<le> m"
  shows "good_token m (token_x z)"
proof (cases "z ! 1 = 39")
  case True
  then have two: "2 \<le> m" using terminated_step [OF assms] by auto
  from scan_while_ok [OF assms(1) two, of sqlite3Isxdigit] obtain i where
    i: "scan_while sqlite3Isxdigit z 2 = Ok i" "2 \<le> i" "i \<le> m" by auto
  note r = terminated_read [OF assms] terminated_read [OF assms(1) i(3)]
  show ?thesis
  proof (cases "z ! i \<noteq> 39 \<or> odd i")
    case bad: True
    from scan_while_ok [OF assms(1) i(3), of "\<lambda>c. c \<noteq> 0 \<and> c \<noteq> 39"] obtain j where
      j: "scan_while (\<lambda>c. c \<noteq> 0 \<and> c \<noteq> 39) z i = Ok j" "i \<le> j" "j \<le> m" by auto
    with True bad i r terminated_read [OF assms(1) j(3)] terminated_step [OF assms(1) j(3)] show ?thesis
      by (auto simp: token_x_def good_token_def type_ok)
  next
    case False
    with True i r terminated_step [OF assms(1) i(3)] show ?thesis
      by (auto simp: token_x_def good_token_def type_ok)
  qed
next
  case False
  with terminated_read [OF assms] token_identifier_ok [OF assms(1) _ assms(2)] show ?thesis
    by (simp add: token_x_def)
qed

lemma token_bom_ok:
  assumes "terminated z m" and "1 \<le> m"
  shows "good_token m (token_bom z)"
proof (cases "z ! 1 = 0xBB")
  case True
  then have two: "2 \<le> m" using terminated_step [OF assms] by auto
  have "z ! 2 = 0xBF \<Longrightarrow> 3 \<le> m" using terminated_step [OF assms(1) two] by force
  with True terminated_read [OF assms] terminated_read [OF assms(1) two]
    token_identifier_ok [OF assms(1) _ assms(2)] show ?thesis
    by (auto simp: token_bom_def good_token_def type_ok)
next
  case False
  with terminated_read [OF assms] token_identifier_ok [OF assms(1) _ assms(2)] show ?thesis
    by (simp add: token_bom_def)
qed

section \<open>Every token\<close>

text \<open>What the class of a byte says of the byte.\<close>

lemma class_facts:
  "(char_class c = CC_DIGIT \<longrightarrow> sqlite3Isdigit c) \<and> (char_class c = CC_DOT \<longrightarrow> c = ch CHR ''.'') \<and>
   (char_class c = CC_NUL \<longrightarrow> c = 0)"
proof -
  have "list_all (\<lambda>k. let c = word_of_nat k :: 8 word; a = aiClass ! k in
      if a = 3 then sqlite3Isdigit c else if a = 26 then c = ch CHR ''.'' else a = 29 \<longrightarrow> c = 0) [0..<256]"
    by (simp add: upt_from_0 aiClass_entries sqlite3Isdigit_def ctype_def sqlite3CtypeMap_entries)
  then have "list_all (\<lambda>k. let c = word_of_nat k :: 8 word; a = char_class c in
      if a = 3 then sqlite3Isdigit c else if a = 26 then c = ch CHR ''.'' else a = 29 \<longrightarrow> c = 0) [0..<256]"
    by (simp add: list_all_iff char_class_def unat_of_nat)
  from all_bytes [OF this, of c] show ?thesis by (auto simp: class_defs Let_def split: if_splits)
qed

lemma good_token_if:
  "(c \<Longrightarrow> good_token m x) \<Longrightarrow> (\<not> c \<Longrightarrow> good_token m y) \<Longrightarrow> good_token m (if c then x else y)"
  by simp

lemma sqlite3GetToken_ok:
  assumes "terminated z m" and "1 \<le> m"
  shows "good_token m (sqlite3GetToken z)"
proof -
  have ne: "z ! 0 \<noteq> 0" using assms by (simp add: terminated_def)
  then have nul: "char_class (z ! 0) \<noteq> CC_NUL" using class_facts [of "z ! 0"] by auto
  have dot: "char_class (z ! 0) = CC_DOT \<Longrightarrow> z ! 0 = ch CHR ''.''"
    and digit: "char_class (z ! 0) = CC_DIGIT \<Longrightarrow> sqlite3Isdigit (z ! 0) \<or> z ! 0 = ch CHR ''.''"
    using class_facts [of "z ! 0"] by auto
  have one: "good_token m (Ok (1, t))" if "token_type_ok 1 t" for t
    using assms(2) that by (simp add: good_token_def)
  have simple: "token_type_ok 1 TK_LP" "token_type_ok 1 TK_RP" "token_type_ok 1 TK_SEMI" "token_type_ok 1 TK_PLUS"
    "token_type_ok 1 TK_STAR" "token_type_ok 1 TK_REM" "token_type_ok 1 TK_COMMA" "token_type_ok 1 TK_BITAND"
    "token_type_ok 1 TK_BITNOT" "token_type_ok 1 TK_ILLEGAL" by (simp_all add: type_ok)
  note cases = token_space_ok [OF assms] token_minus_ok [OF assms] token_slash_ok [OF assms] token_eq_ok [OF assms]
    token_lt_ok [OF assms] token_gt_ok [OF assms] token_bang_ok [OF assms] token_pipe_ok [OF assms]
    token_quote_ok [OF assms] token_dot_ok [OF assms dot] token_number_ok [OF assms digit]
    token_bracket_ok [OF assms] token_varnum_ok [OF assms] token_variable_ok [OF assms] token_keyword_ok [OF assms]
    token_x_ok [OF assms] token_identifier_ok [OF assms(1) order_refl assms(2)] token_bom_ok [OF assms]
  show ?thesis
    unfolding sqlite3GetToken_def terminated_read [OF assms(1) le0] bind_res.simps Let_def
    by (intro good_token_if) (simp_all add: cases one simple nul del: One_nat_def)
qed

text \<open>
  C34: the tokenizer is memory safe and makes progress: on a text that a zero byte ends it
  returns, it reads no byte behind that one (the bytes of the text and the zero are all there
  are), the token is not empty and does not reach over the end, its type is a terminal of the
  grammar or one of the two numbers for white space and illegal text, and a keyword that needs
  its neighbours has the length that the caller asserts.
\<close>

theorem token_within_text:
  assumes "0 \<notin> set s" and "s \<noteq> []"
  shows "\<exists>n t. sqlite3GetToken (s @ [0]) = Ok (n, t) \<and> 1 \<le> n \<and> n \<le> length s \<and> token_type_ok n t"
proof -
  have "1 \<le> length s" using assms(2) by (simp add: Suc_le_eq)
  with sqlite3GetToken_ok [OF terminated_append [OF assms(1), of "[]"]] show ?thesis
    by (simp add: good_token_def)
qed

theorem token_within_text_witness:
  "\<exists>n t. sqlite3GetToken (text_bytes ''/* a'' @ [0]) = Ok (n, t) \<and> 1 \<le> n \<and> n \<le> 4"
proof -
  have "0 \<notin> set (text_bytes ''/* a'')" "text_bytes ''/* a'' \<noteq> []" by (simp_all add: text_bytes_def)
  from token_within_text [OF this] show ?thesis by auto
qed

end
