(* ===== verification/SqGrammar.thy ===== *)
theory SqGrammar
  imports SqTables
begin

text \<open>
  The grammar the parser was generated from, rule by rule: the left-hand sides and the sizes of
  the right-hand sides (\<open>yyRuleInfoLhs\<close>, \<open>yyRuleInfoNRhs\<close>), the texts of the rules
  (\<open>yyRuleName\<close>) and of the symbols (\<open>yyTokenName\<close>), and the rules over symbol numbers. The
  last lemmas tie the four together: printing the rules gives the texts, and their sizes and
  left-hand sides are those of the tables.
\<close>

text \<open>
  A right-hand side is a list of positions; a position is a choice of symbols (written with a
  bar in the texts).
\<close>

type_synonym rule = "nat \<times> nat list list"

section \<open>Names of the symbols\<close>

definition yyTokenName_0 :: "string list" where [table_defs]:
  "yyTokenName_0 =
  [''$'',
   ''SEMI'',
   ''EXPLAIN'',
   ''QUERY'',
   ''PLAN'',
   ''BEGIN'',
   ''TRANSACTION'',
   ''DEFERRED'',
   ''IMMEDIATE'',
   ''EXCLUSIVE'',
   ''COMMIT'',
   ''END'',
   ''ROLLBACK'',
   ''SAVEPOINT'',
   ''RELEASE'',
   ''TO'',
   ''TABLE'',
   ''CREATE'',
   ''IF'',
   ''NOT'',
   ''EXISTS'',
   ''TEMP'',
   ''LP'',
   ''RP'',
   ''AS'',
   ''COMMA'',
   ''WITHOUT'',
   ''ABORT'',
   ''ACTION'',
   ''AFTER'',
   ''ANALYZE'',
   ''ASC'',
   ''ATTACH'',
   ''BEFORE'',
   ''BY'',
   ''CASCADE'',
   ''CAST'',
   ''CONFLICT'',
   ''DATABASE'',
   ''DESC'',
   ''DETACH'',
   ''EACH'',
   ''FAIL'',
   ''OR'',
   ''AND'',
   ''IS'',
   ''MATCH'',
   ''LIKE_KW'',
   ''BETWEEN'',
   ''IN'',
   ''ISNULL'',
   ''NOTNULL'',
   ''NE'',
   ''EQ'',
   ''GT'',
   ''LE'',
   ''LT'',
   ''GE'',
   ''ESCAPE'',
   ''ID'',
   ''COLUMNKW'',
   ''DO'',
   ''FOR'',
   ''IGNORE'']"

definition yyTokenName_64 :: "string list" where [table_defs]:
  "yyTokenName_64 =
  [''INITIALLY'',
   ''INSTEAD'',
   ''NO'',
   ''KEY'',
   ''OF'',
   ''OFFSET'',
   ''PRAGMA'',
   ''RAISE'',
   ''RECURSIVE'',
   ''REPLACE'',
   ''RESTRICT'',
   ''ROW'',
   ''ROWS'',
   ''TRIGGER'',
   ''VACUUM'',
   ''VIEW'',
   ''VIRTUAL'',
   ''WITH'',
   ''NULLS'',
   ''FIRST'',
   ''LAST'',
   ''CURRENT'',
   ''FOLLOWING'',
   ''PARTITION'',
   ''PRECEDING'',
   ''RANGE'',
   ''UNBOUNDED'',
   ''EXCLUDE'',
   ''GROUPS'',
   ''OTHERS'',
   ''TIES'',
   ''GENERATED'',
   ''ALWAYS'',
   ''MATERIALIZED'',
   ''REINDEX'',
   ''RENAME'',
   ''CTIME_KW'',
   ''ANY'',
   ''BITAND'',
   ''BITOR'',
   ''LSHIFT'',
   ''RSHIFT'',
   ''PLUS'',
   ''MINUS'',
   ''STAR'',
   ''SLASH'',
   ''REM'',
   ''CONCAT'',
   ''PTR'',
   ''COLLATE'',
   ''BITNOT'',
   ''ON'',
   ''INDEXED'',
   ''STRING'',
   ''JOIN_KW'',
   ''CONSTRAINT'',
   ''DEFAULT'',
   ''NULL'',
   ''PRIMARY'',
   ''UNIQUE'',
   ''CHECK'',
   ''REFERENCES'',
   ''AUTOINCR'',
   ''INSERT'']"

definition yyTokenName_128 :: "string list" where [table_defs]:
  "yyTokenName_128 =
  [''DELETE'',
   ''UPDATE'',
   ''SET'',
   ''DEFERRABLE'',
   ''FOREIGN'',
   ''DROP'',
   ''UNION'',
   ''ALL'',
   ''EXCEPT'',
   ''INTERSECT'',
   ''SELECT'',
   ''VALUES'',
   ''DISTINCT'',
   ''DOT'',
   ''FROM'',
   ''JOIN'',
   ''USING'',
   ''ORDER'',
   ''GROUP'',
   ''HAVING'',
   ''LIMIT'',
   ''WHERE'',
   ''RETURNING'',
   ''INTO'',
   ''NOTHING'',
   ''FLOAT'',
   ''BLOB'',
   ''INTEGER'',
   ''VARIABLE'',
   ''CASE'',
   ''WHEN'',
   ''THEN'',
   ''ELSE'',
   ''INDEX'',
   ''ALTER'',
   ''ADD'',
   ''WINDOW'',
   ''OVER'',
   ''FILTER'',
   ''COLUMN'',
   ''AGG_FUNCTION'',
   ''AGG_COLUMN'',
   ''TRUEFALSE'',
   ''ISNOT'',
   ''FUNCTION'',
   ''UMINUS'',
   ''UPLUS'',
   ''TRUTH'',
   ''REGISTER'',
   ''VECTOR'',
   ''SELECT_COLUMN'',
   ''IF_NULL_ROW'',
   ''ASTERISK'',
   ''SPAN'',
   ''ERROR'',
   ''SPACE'',
   ''ILLEGAL'',
   ''input'',
   ''cmdlist'',
   ''ecmd'',
   ''cmdx'',
   ''explain'',
   ''cmd'',
   ''transtype'']"

definition yyTokenName_192 :: "string list" where [table_defs]:
  "yyTokenName_192 =
  [''trans_opt'',
   ''nm'',
   ''savepoint_opt'',
   ''create_table'',
   ''create_table_args'',
   ''createkw'',
   ''temp'',
   ''ifnotexists'',
   ''dbnm'',
   ''columnlist'',
   ''conslist_opt'',
   ''table_option_set'',
   ''select'',
   ''table_option'',
   ''columnname'',
   ''carglist'',
   ''typetoken'',
   ''typename'',
   ''signed'',
   ''plus_num'',
   ''minus_num'',
   ''scanpt'',
   ''scantok'',
   ''ccons'',
   ''term'',
   ''expr'',
   ''onconf'',
   ''sortorder'',
   ''autoinc'',
   ''eidlist_opt'',
   ''refargs'',
   ''defer_subclause'',
   ''generated'',
   ''refarg'',
   ''refact'',
   ''init_deferred_pred_opt'',
   ''conslist'',
   ''tconscomma'',
   ''tcons'',
   ''sortlist'',
   ''eidlist'',
   ''defer_subclause_opt'',
   ''orconf'',
   ''resolvetype'',
   ''raisetype'',
   ''ifexists'',
   ''fullname'',
   ''selectnowith'',
   ''oneselect'',
   ''wqlist'',
   ''multiselect_op'',
   ''distinct'',
   ''selcollist'',
   ''from'',
   ''where_opt'',
   ''groupby_opt'',
   ''having_opt'',
   ''orderby_opt'',
   ''limit_opt'',
   ''window_clause'',
   ''values'',
   ''nexprlist'',
   ''sclp'',
   ''as'']"

definition yyTokenName_256 :: "string list" where [table_defs]:
  "yyTokenName_256 =
  [''seltablist'',
   ''stl_prefix'',
   ''joinop'',
   ''on_using'',
   ''indexed_by'',
   ''exprlist'',
   ''xfullname'',
   ''idlist'',
   ''indexed_opt'',
   ''nulls'',
   ''with'',
   ''where_opt_ret'',
   ''setlist'',
   ''insert_cmd'',
   ''idlist_opt'',
   ''upsert'',
   ''returning'',
   ''filter_over'',
   ''likeop'',
   ''between_op'',
   ''in_op'',
   ''paren_exprlist'',
   ''case_operand'',
   ''case_exprlist'',
   ''case_else'',
   ''uniqueflag'',
   ''collate'',
   ''vinto'',
   ''nmnum'',
   ''trigger_decl'',
   ''trigger_cmd_list'',
   ''trigger_time'',
   ''trigger_event'',
   ''foreach_clause'',
   ''when_clause'',
   ''trigger_cmd'',
   ''trnm'',
   ''tridxby'',
   ''database_kw_opt'',
   ''key_opt'',
   ''add_column_fullname'',
   ''kwcolumn_opt'',
   ''create_vtab'',
   ''vtabarglist'',
   ''vtabarg'',
   ''vtabargtoken'',
   ''lp'',
   ''anylist'',
   ''wqitem'',
   ''wqas'',
   ''windowdefn_list'',
   ''windowdefn'',
   ''window'',
   ''frame_opt'',
   ''part_opt'',
   ''filter_clause'',
   ''over_clause'',
   ''range_or_rows'',
   ''frame_bound'',
   ''frame_bound_s'',
   ''frame_bound_e'',
   ''frame_exclude_opt'',
   ''frame_exclude'']"

definition yyTokenName :: "string list" where
  "yyTokenName = yyTokenName_0 @ yyTokenName_64 @ yyTokenName_128 @ yyTokenName_192 @ yyTokenName_256"

lemma yyTokenName_lengths:
  "length yyTokenName_0 = 64"
  "length yyTokenName_64 = 64"
  "length yyTokenName_128 = 64"
  "length yyTokenName_192 = 64"
  "length yyTokenName_256 = 63"
  by (simp_all add: table_defs)

lemma length_yyTokenName [simp]: "length yyTokenName = 319"
  by (simp add: yyTokenName_def yyTokenName_lengths)

lemma yyTokenName_0_nth:
  "map ((!) yyTokenName) [0..<64] = yyTokenName_0"
  by (rule window_nth [where p = "[]" and q = "yyTokenName_64 @ yyTokenName_128 @ yyTokenName_192 @ yyTokenName_256"])
    (simp_all add: yyTokenName_def yyTokenName_lengths)

lemma yyTokenName_64_nth:
  "map ((!) yyTokenName) [64..<128] = yyTokenName_64"
  by (rule window_nth [where p = "yyTokenName_0" and q = "yyTokenName_128 @ yyTokenName_192 @ yyTokenName_256"])
    (simp_all add: yyTokenName_def yyTokenName_lengths)

lemma yyTokenName_128_nth:
  "map ((!) yyTokenName) [128..<192] = yyTokenName_128"
  by (rule window_nth [where p = "yyTokenName_0 @ yyTokenName_64" and q = "yyTokenName_192 @ yyTokenName_256"])
    (simp_all add: yyTokenName_def yyTokenName_lengths)

lemma yyTokenName_192_nth:
  "map ((!) yyTokenName) [192..<256] = yyTokenName_192"
  by (rule window_nth [where p = "yyTokenName_0 @ yyTokenName_64 @ yyTokenName_128" and q = "yyTokenName_256"])
    (simp_all add: yyTokenName_def yyTokenName_lengths)

lemma yyTokenName_256_nth:
  "map ((!) yyTokenName) [256..<319] = yyTokenName_256"
  by (rule window_nth [where p = "yyTokenName_0 @ yyTokenName_64 @ yyTokenName_128 @ yyTokenName_192" and q = "[]"])
    (simp_all add: yyTokenName_def yyTokenName_lengths)

section \<open>Texts of the rules\<close>

definition yyRuleName_0 :: "string list" where [table_defs]:
  "yyRuleName_0 =
  [''explain ::= EXPLAIN'',
   ''explain ::= EXPLAIN QUERY PLAN'',
   ''cmdx ::= cmd'',
   ''cmd ::= BEGIN transtype trans_opt'',
   ''transtype ::='',
   ''transtype ::= DEFERRED'',
   ''transtype ::= IMMEDIATE'',
   ''transtype ::= EXCLUSIVE'',
   ''cmd ::= COMMIT|END trans_opt'',
   ''cmd ::= ROLLBACK trans_opt'',
   ''cmd ::= SAVEPOINT nm'',
   ''cmd ::= RELEASE savepoint_opt nm'',
   ''cmd ::= ROLLBACK trans_opt TO savepoint_opt nm'',
   ''create_table ::= createkw temp TABLE ifnotexists nm dbnm'',
   ''createkw ::= CREATE'',
   ''ifnotexists ::='',
   ''ifnotexists ::= IF NOT EXISTS'',
   ''temp ::= TEMP'',
   ''temp ::='',
   ''create_table_args ::= LP columnlist conslist_opt RP table_option_set'',
   ''create_table_args ::= AS select'',
   ''table_option_set ::='',
   ''table_option_set ::= table_option_set COMMA table_option'',
   ''table_option ::= WITHOUT nm'',
   ''table_option ::= nm'',
   ''columnname ::= nm typetoken'',
   ''typetoken ::='',
   ''typetoken ::= typename LP signed RP'',
   ''typetoken ::= typename LP signed COMMA signed RP'',
   ''typename ::= typename ID|STRING'',
   ''scanpt ::='',
   ''scantok ::='',
   ''ccons ::= CONSTRAINT nm'',
   ''ccons ::= DEFAULT scantok term'',
   ''ccons ::= DEFAULT LP expr RP'',
   ''ccons ::= DEFAULT PLUS scantok term'',
   ''ccons ::= DEFAULT MINUS scantok term'',
   ''ccons ::= DEFAULT scantok ID|INDEXED'',
   ''ccons ::= NOT NULL onconf'',
   ''ccons ::= PRIMARY KEY sortorder onconf autoinc'',
   ''ccons ::= UNIQUE onconf'',
   ''ccons ::= CHECK LP expr RP'',
   ''ccons ::= REFERENCES nm eidlist_opt refargs'',
   ''ccons ::= defer_subclause'',
   ''ccons ::= COLLATE ID|STRING'',
   ''generated ::= LP expr RP'',
   ''generated ::= LP expr RP ID'',
   ''autoinc ::='',
   ''autoinc ::= AUTOINCR'',
   ''refargs ::='']"

definition yyRuleName_50 :: "string list" where [table_defs]:
  "yyRuleName_50 =
  [''refargs ::= refargs refarg'',
   ''refarg ::= MATCH nm'',
   ''refarg ::= ON INSERT refact'',
   ''refarg ::= ON DELETE refact'',
   ''refarg ::= ON UPDATE refact'',
   ''refact ::= SET NULL'',
   ''refact ::= SET DEFAULT'',
   ''refact ::= CASCADE'',
   ''refact ::= RESTRICT'',
   ''refact ::= NO ACTION'',
   ''defer_subclause ::= NOT DEFERRABLE init_deferred_pred_opt'',
   ''defer_subclause ::= DEFERRABLE init_deferred_pred_opt'',
   ''init_deferred_pred_opt ::='',
   ''init_deferred_pred_opt ::= INITIALLY DEFERRED'',
   ''init_deferred_pred_opt ::= INITIALLY IMMEDIATE'',
   ''conslist_opt ::='',
   ''tconscomma ::= COMMA'',
   ''tcons ::= CONSTRAINT nm'',
   ''tcons ::= PRIMARY KEY LP sortlist autoinc RP onconf'',
   ''tcons ::= UNIQUE LP sortlist RP onconf'',
   ''tcons ::= CHECK LP expr RP onconf'',
   ''tcons ::= FOREIGN KEY LP eidlist RP REFERENCES nm eidlist_opt refargs defer_subclause_opt'',
   ''defer_subclause_opt ::='',
   ''onconf ::='',
   ''onconf ::= ON CONFLICT resolvetype'',
   ''orconf ::='',
   ''orconf ::= OR resolvetype'',
   ''resolvetype ::= IGNORE'',
   ''resolvetype ::= REPLACE'',
   ''cmd ::= DROP TABLE ifexists fullname'',
   ''ifexists ::= IF EXISTS'',
   ''ifexists ::='',
   ''cmd ::= createkw temp VIEW ifnotexists nm dbnm eidlist_opt AS select'',
   ''cmd ::= DROP VIEW ifexists fullname'',
   ''cmd ::= select'',
   ''select ::= WITH wqlist selectnowith'',
   ''select ::= WITH RECURSIVE wqlist selectnowith'',
   ''select ::= selectnowith'',
   ''selectnowith ::= selectnowith multiselect_op oneselect'',
   ''multiselect_op ::= UNION'',
   ''multiselect_op ::= UNION ALL'',
   ''multiselect_op ::= EXCEPT|INTERSECT'',
   ''oneselect ::= SELECT distinct selcollist from where_opt groupby_opt having_opt orderby_opt limit_opt'',
   ''oneselect ::= SELECT distinct selcollist from where_opt groupby_opt having_opt window_clause orderby_opt limit_opt'',
   ''values ::= VALUES LP nexprlist RP'',
   ''values ::= values COMMA LP nexprlist RP'',
   ''distinct ::= DISTINCT'',
   ''distinct ::= ALL'',
   ''distinct ::='',
   ''sclp ::='']"

definition yyRuleName_100 :: "string list" where [table_defs]:
  "yyRuleName_100 =
  [''selcollist ::= sclp scanpt expr scanpt as'',
   ''selcollist ::= sclp scanpt STAR'',
   ''selcollist ::= sclp scanpt nm DOT STAR'',
   ''as ::= AS nm'',
   ''as ::='',
   ''from ::='',
   ''from ::= FROM seltablist'',
   ''stl_prefix ::= seltablist joinop'',
   ''stl_prefix ::='',
   ''seltablist ::= stl_prefix nm dbnm as on_using'',
   ''seltablist ::= stl_prefix nm dbnm as indexed_by on_using'',
   ''seltablist ::= stl_prefix nm dbnm LP exprlist RP as on_using'',
   ''seltablist ::= stl_prefix LP select RP as on_using'',
   ''seltablist ::= stl_prefix LP seltablist RP as on_using'',
   ''dbnm ::='',
   ''dbnm ::= DOT nm'',
   ''fullname ::= nm'',
   ''fullname ::= nm DOT nm'',
   ''xfullname ::= nm'',
   ''xfullname ::= nm DOT nm'',
   ''xfullname ::= nm DOT nm AS nm'',
   ''xfullname ::= nm AS nm'',
   ''joinop ::= COMMA|JOIN'',
   ''joinop ::= JOIN_KW JOIN'',
   ''joinop ::= JOIN_KW nm JOIN'',
   ''joinop ::= JOIN_KW nm nm JOIN'',
   ''on_using ::= ON expr'',
   ''on_using ::= USING LP idlist RP'',
   ''on_using ::='',
   ''indexed_opt ::='',
   ''indexed_by ::= INDEXED BY nm'',
   ''indexed_by ::= NOT INDEXED'',
   ''orderby_opt ::='',
   ''orderby_opt ::= ORDER BY sortlist'',
   ''sortlist ::= sortlist COMMA expr sortorder nulls'',
   ''sortlist ::= expr sortorder nulls'',
   ''sortorder ::= ASC'',
   ''sortorder ::= DESC'',
   ''sortorder ::='',
   ''nulls ::= NULLS FIRST'',
   ''nulls ::= NULLS LAST'',
   ''nulls ::='',
   ''groupby_opt ::='',
   ''groupby_opt ::= GROUP BY nexprlist'',
   ''having_opt ::='',
   ''having_opt ::= HAVING expr'',
   ''limit_opt ::='',
   ''limit_opt ::= LIMIT expr'',
   ''limit_opt ::= LIMIT expr OFFSET expr'',
   ''limit_opt ::= LIMIT expr COMMA expr'']"

definition yyRuleName_150 :: "string list" where [table_defs]:
  "yyRuleName_150 =
  [''cmd ::= with DELETE FROM xfullname indexed_opt where_opt_ret'',
   ''where_opt ::='',
   ''where_opt ::= WHERE expr'',
   ''where_opt_ret ::='',
   ''where_opt_ret ::= WHERE expr'',
   ''where_opt_ret ::= RETURNING selcollist'',
   ''where_opt_ret ::= WHERE expr RETURNING selcollist'',
   ''cmd ::= with UPDATE orconf xfullname indexed_opt SET setlist from where_opt_ret'',
   ''setlist ::= setlist COMMA nm EQ expr'',
   ''setlist ::= setlist COMMA LP idlist RP EQ expr'',
   ''setlist ::= nm EQ expr'',
   ''setlist ::= LP idlist RP EQ expr'',
   ''cmd ::= with insert_cmd INTO xfullname idlist_opt select upsert'',
   ''cmd ::= with insert_cmd INTO xfullname idlist_opt DEFAULT VALUES returning'',
   ''upsert ::='',
   ''upsert ::= RETURNING selcollist'',
   ''upsert ::= ON CONFLICT LP sortlist RP where_opt DO UPDATE SET setlist where_opt upsert'',
   ''upsert ::= ON CONFLICT LP sortlist RP where_opt DO NOTHING upsert'',
   ''upsert ::= ON CONFLICT DO NOTHING returning'',
   ''upsert ::= ON CONFLICT DO UPDATE SET setlist where_opt returning'',
   ''returning ::= RETURNING selcollist'',
   ''insert_cmd ::= INSERT orconf'',
   ''insert_cmd ::= REPLACE'',
   ''idlist_opt ::='',
   ''idlist_opt ::= LP idlist RP'',
   ''idlist ::= idlist COMMA nm'',
   ''idlist ::= nm'',
   ''expr ::= LP expr RP'',
   ''expr ::= ID|INDEXED|JOIN_KW'',
   ''expr ::= nm DOT nm'',
   ''expr ::= nm DOT nm DOT nm'',
   ''term ::= NULL|FLOAT|BLOB'',
   ''term ::= STRING'',
   ''term ::= INTEGER'',
   ''expr ::= VARIABLE'',
   ''expr ::= expr COLLATE ID|STRING'',
   ''expr ::= CAST LP expr AS typetoken RP'',
   ''expr ::= ID|INDEXED|JOIN_KW LP distinct exprlist RP'',
   ''expr ::= ID|INDEXED|JOIN_KW LP STAR RP'',
   ''expr ::= ID|INDEXED|JOIN_KW LP distinct exprlist RP filter_over'',
   ''expr ::= ID|INDEXED|JOIN_KW LP STAR RP filter_over'',
   ''term ::= CTIME_KW'',
   ''expr ::= LP nexprlist COMMA expr RP'',
   ''expr ::= expr AND expr'',
   ''expr ::= expr OR expr'',
   ''expr ::= expr LT|GT|GE|LE expr'',
   ''expr ::= expr EQ|NE expr'',
   ''expr ::= expr BITAND|BITOR|LSHIFT|RSHIFT expr'',
   ''expr ::= expr PLUS|MINUS expr'',
   ''expr ::= expr STAR|SLASH|REM expr'']"

definition yyRuleName_200 :: "string list" where [table_defs]:
  "yyRuleName_200 =
  [''expr ::= expr CONCAT expr'',
   ''likeop ::= NOT LIKE_KW|MATCH'',
   ''expr ::= expr likeop expr'',
   ''expr ::= expr likeop expr ESCAPE expr'',
   ''expr ::= expr ISNULL|NOTNULL'',
   ''expr ::= expr NOT NULL'',
   ''expr ::= expr IS expr'',
   ''expr ::= expr IS NOT expr'',
   ''expr ::= expr IS NOT DISTINCT FROM expr'',
   ''expr ::= expr IS DISTINCT FROM expr'',
   ''expr ::= NOT expr'',
   ''expr ::= BITNOT expr'',
   ''expr ::= PLUS|MINUS expr'',
   ''expr ::= expr PTR expr'',
   ''between_op ::= BETWEEN'',
   ''between_op ::= NOT BETWEEN'',
   ''expr ::= expr between_op expr AND expr'',
   ''in_op ::= IN'',
   ''in_op ::= NOT IN'',
   ''expr ::= expr in_op LP exprlist RP'',
   ''expr ::= LP select RP'',
   ''expr ::= expr in_op LP select RP'',
   ''expr ::= expr in_op nm dbnm paren_exprlist'',
   ''expr ::= EXISTS LP select RP'',
   ''expr ::= CASE case_operand case_exprlist case_else END'',
   ''case_exprlist ::= case_exprlist WHEN expr THEN expr'',
   ''case_exprlist ::= WHEN expr THEN expr'',
   ''case_else ::= ELSE expr'',
   ''case_else ::='',
   ''case_operand ::='',
   ''exprlist ::='',
   ''nexprlist ::= nexprlist COMMA expr'',
   ''nexprlist ::= expr'',
   ''paren_exprlist ::='',
   ''paren_exprlist ::= LP exprlist RP'',
   ''cmd ::= createkw uniqueflag INDEX ifnotexists nm dbnm ON nm LP sortlist RP where_opt'',
   ''uniqueflag ::= UNIQUE'',
   ''uniqueflag ::='',
   ''eidlist_opt ::='',
   ''eidlist_opt ::= LP eidlist RP'',
   ''eidlist ::= eidlist COMMA nm collate sortorder'',
   ''eidlist ::= nm collate sortorder'',
   ''collate ::='',
   ''collate ::= COLLATE ID|STRING'',
   ''cmd ::= DROP INDEX ifexists fullname'',
   ''cmd ::= VACUUM vinto'',
   ''cmd ::= VACUUM nm vinto'',
   ''vinto ::= INTO expr'',
   ''vinto ::='',
   ''cmd ::= PRAGMA nm dbnm'']"

definition yyRuleName_250 :: "string list" where [table_defs]:
  "yyRuleName_250 =
  [''cmd ::= PRAGMA nm dbnm EQ nmnum'',
   ''cmd ::= PRAGMA nm dbnm LP nmnum RP'',
   ''cmd ::= PRAGMA nm dbnm EQ minus_num'',
   ''cmd ::= PRAGMA nm dbnm LP minus_num RP'',
   ''plus_num ::= PLUS INTEGER|FLOAT'',
   ''minus_num ::= MINUS INTEGER|FLOAT'',
   ''cmd ::= createkw trigger_decl BEGIN trigger_cmd_list END'',
   ''trigger_decl ::= temp TRIGGER ifnotexists nm dbnm trigger_time trigger_event ON fullname foreach_clause when_clause'',
   ''trigger_time ::= BEFORE|AFTER'',
   ''trigger_time ::= INSTEAD OF'',
   ''trigger_time ::='',
   ''trigger_event ::= DELETE|INSERT'',
   ''trigger_event ::= UPDATE'',
   ''trigger_event ::= UPDATE OF idlist'',
   ''when_clause ::='',
   ''when_clause ::= WHEN expr'',
   ''trigger_cmd_list ::= trigger_cmd_list trigger_cmd SEMI'',
   ''trigger_cmd_list ::= trigger_cmd SEMI'',
   ''trnm ::= nm DOT nm'',
   ''tridxby ::= INDEXED BY nm'',
   ''tridxby ::= NOT INDEXED'',
   ''trigger_cmd ::= UPDATE orconf trnm tridxby SET setlist from where_opt scanpt'',
   ''trigger_cmd ::= scanpt insert_cmd INTO trnm idlist_opt select upsert scanpt'',
   ''trigger_cmd ::= DELETE FROM trnm tridxby where_opt scanpt'',
   ''trigger_cmd ::= scanpt select scanpt'',
   ''expr ::= RAISE LP IGNORE RP'',
   ''expr ::= RAISE LP raisetype COMMA nm RP'',
   ''raisetype ::= ROLLBACK'',
   ''raisetype ::= ABORT'',
   ''raisetype ::= FAIL'',
   ''cmd ::= DROP TRIGGER ifexists fullname'',
   ''cmd ::= ATTACH database_kw_opt expr AS expr key_opt'',
   ''cmd ::= DETACH database_kw_opt expr'',
   ''key_opt ::='',
   ''key_opt ::= KEY expr'',
   ''cmd ::= REINDEX'',
   ''cmd ::= REINDEX nm dbnm'',
   ''cmd ::= ANALYZE'',
   ''cmd ::= ANALYZE nm dbnm'',
   ''cmd ::= ALTER TABLE fullname RENAME TO nm'',
   ''cmd ::= ALTER TABLE add_column_fullname ADD kwcolumn_opt columnname carglist'',
   ''cmd ::= ALTER TABLE fullname DROP kwcolumn_opt nm'',
   ''add_column_fullname ::= fullname'',
   ''cmd ::= ALTER TABLE fullname RENAME kwcolumn_opt nm TO nm'',
   ''cmd ::= create_vtab'',
   ''cmd ::= create_vtab LP vtabarglist RP'',
   ''create_vtab ::= createkw VIRTUAL TABLE ifnotexists nm dbnm USING nm'',
   ''vtabarg ::='',
   ''vtabargtoken ::= ANY'',
   ''vtabargtoken ::= lp anylist RP'']"

definition yyRuleName_300 :: "string list" where [table_defs]:
  "yyRuleName_300 =
  [''lp ::= LP'',
   ''with ::= WITH wqlist'',
   ''with ::= WITH RECURSIVE wqlist'',
   ''wqas ::= AS'',
   ''wqas ::= AS MATERIALIZED'',
   ''wqas ::= AS NOT MATERIALIZED'',
   ''wqitem ::= nm eidlist_opt wqas LP select RP'',
   ''wqlist ::= wqitem'',
   ''wqlist ::= wqlist COMMA wqitem'',
   ''windowdefn_list ::= windowdefn'',
   ''windowdefn_list ::= windowdefn_list COMMA windowdefn'',
   ''windowdefn ::= nm AS LP window RP'',
   ''window ::= PARTITION BY nexprlist orderby_opt frame_opt'',
   ''window ::= nm PARTITION BY nexprlist orderby_opt frame_opt'',
   ''window ::= ORDER BY sortlist frame_opt'',
   ''window ::= nm ORDER BY sortlist frame_opt'',
   ''window ::= frame_opt'',
   ''window ::= nm frame_opt'',
   ''frame_opt ::='',
   ''frame_opt ::= range_or_rows frame_bound_s frame_exclude_opt'',
   ''frame_opt ::= range_or_rows BETWEEN frame_bound_s AND frame_bound_e frame_exclude_opt'',
   ''range_or_rows ::= RANGE|ROWS|GROUPS'',
   ''frame_bound_s ::= frame_bound'',
   ''frame_bound_s ::= UNBOUNDED PRECEDING'',
   ''frame_bound_e ::= frame_bound'',
   ''frame_bound_e ::= UNBOUNDED FOLLOWING'',
   ''frame_bound ::= expr PRECEDING|FOLLOWING'',
   ''frame_bound ::= CURRENT ROW'',
   ''frame_exclude_opt ::='',
   ''frame_exclude_opt ::= EXCLUDE frame_exclude'',
   ''frame_exclude ::= NO OTHERS'',
   ''frame_exclude ::= CURRENT ROW'',
   ''frame_exclude ::= GROUP|TIES'',
   ''window_clause ::= WINDOW windowdefn_list'',
   ''filter_over ::= filter_clause over_clause'',
   ''filter_over ::= over_clause'',
   ''filter_over ::= filter_clause'',
   ''over_clause ::= OVER LP window RP'',
   ''over_clause ::= OVER nm'',
   ''filter_clause ::= FILTER LP WHERE expr RP'',
   ''input ::= cmdlist'',
   ''cmdlist ::= cmdlist ecmd'',
   ''cmdlist ::= ecmd'',
   ''ecmd ::= SEMI'',
   ''ecmd ::= cmdx SEMI'',
   ''ecmd ::= explain cmdx SEMI'',
   ''trans_opt ::='',
   ''trans_opt ::= TRANSACTION'',
   ''trans_opt ::= TRANSACTION nm'',
   ''savepoint_opt ::= SAVEPOINT'']"

definition yyRuleName_350 :: "string list" where [table_defs]:
  "yyRuleName_350 =
  [''savepoint_opt ::='',
   ''cmd ::= create_table create_table_args'',
   ''table_option_set ::= table_option'',
   ''columnlist ::= columnlist COMMA columnname carglist'',
   ''columnlist ::= columnname carglist'',
   ''nm ::= ID|INDEXED|JOIN_KW'',
   ''nm ::= STRING'',
   ''typetoken ::= typename'',
   ''typename ::= ID|STRING'',
   ''signed ::= plus_num'',
   ''signed ::= minus_num'',
   ''carglist ::= carglist ccons'',
   ''carglist ::='',
   ''ccons ::= NULL onconf'',
   ''ccons ::= GENERATED ALWAYS AS generated'',
   ''ccons ::= AS generated'',
   ''conslist_opt ::= COMMA conslist'',
   ''conslist ::= conslist tconscomma tcons'',
   ''conslist ::= tcons'',
   ''tconscomma ::='',
   ''defer_subclause_opt ::= defer_subclause'',
   ''resolvetype ::= raisetype'',
   ''selectnowith ::= oneselect'',
   ''oneselect ::= values'',
   ''sclp ::= selcollist COMMA'',
   ''as ::= ID|STRING'',
   ''indexed_opt ::= indexed_by'',
   ''returning ::='',
   ''expr ::= term'',
   ''likeop ::= LIKE_KW|MATCH'',
   ''case_operand ::= expr'',
   ''exprlist ::= nexprlist'',
   ''nmnum ::= plus_num'',
   ''nmnum ::= nm'',
   ''nmnum ::= ON'',
   ''nmnum ::= DELETE'',
   ''nmnum ::= DEFAULT'',
   ''plus_num ::= INTEGER|FLOAT'',
   ''foreach_clause ::='',
   ''foreach_clause ::= FOR EACH ROW'',
   ''trnm ::= nm'',
   ''tridxby ::='',
   ''database_kw_opt ::= DATABASE'',
   ''database_kw_opt ::='',
   ''kwcolumn_opt ::='',
   ''kwcolumn_opt ::= COLUMNKW'',
   ''vtabarglist ::= vtabarg'',
   ''vtabarglist ::= vtabarglist COMMA vtabarg'',
   ''vtabarg ::= vtabarg vtabargtoken'',
   ''anylist ::='']"

definition yyRuleName_400 :: "string list" where [table_defs]:
  "yyRuleName_400 =
  [''anylist ::= anylist LP anylist RP'',
   ''anylist ::= anylist ANY'',
   ''with ::='']"

definition yyRuleName :: "string list" where
  "yyRuleName = yyRuleName_0 @ yyRuleName_50 @ yyRuleName_100 @ yyRuleName_150 @ yyRuleName_200 @ yyRuleName_250 @ yyRuleName_300 @ yyRuleName_350 @ yyRuleName_400"

section \<open>Left-hand sides and sizes\<close>

definition yyRuleInfoLhs_0 :: "nat list" where [table_defs]:
  "yyRuleInfoLhs_0 = [
   189, 189, 188, 190, 191, 191, 191, 191, 190, 190, 190, 190, 190, 195, 197, 199, 199, 198,
   198, 196, 196, 203, 203, 205, 205, 206, 208, 208, 208, 209, 213, 214, 215, 215, 215, 215,
   215, 215, 215, 215, 215, 215, 215, 215, 215, 224, 224, 220, 220, 222]"

definition yyRuleInfoLhs_50 :: "nat list" where [table_defs]:
  "yyRuleInfoLhs_50 = [
   222, 225, 225, 225, 225, 226, 226, 226, 226, 226, 223, 223, 227, 227, 227, 202, 229, 230,
   230, 230, 230, 230, 233, 218, 218, 234, 234, 235, 235, 190, 237, 237, 190, 190, 190, 204,
   204, 204, 239, 242, 242, 242, 240, 240, 252, 252, 243, 243, 243, 254]"

definition yyRuleInfoLhs_100 :: "nat list" where [table_defs]:
  "yyRuleInfoLhs_100 = [
   244, 244, 244, 255, 255, 245, 245, 257, 257, 256, 256, 256, 256, 256, 200, 200, 238, 238,
   262, 262, 262, 262, 258, 258, 258, 258, 259, 259, 259, 264, 260, 260, 249, 249, 231, 231,
   219, 219, 219, 265, 265, 265, 247, 247, 248, 248, 250, 250, 250, 250]"

definition yyRuleInfoLhs_150 :: "nat list" where [table_defs]:
  "yyRuleInfoLhs_150 = [
   190, 246, 246, 267, 267, 267, 267, 190, 268, 268, 268, 268, 190, 190, 271, 271, 271, 271,
   271, 271, 272, 269, 269, 270, 270, 263, 263, 217, 217, 217, 217, 216, 216, 216, 217, 217,
   217, 217, 217, 217, 217, 216, 217, 217, 217, 217, 217, 217, 217, 217]"

definition yyRuleInfoLhs_200 :: "nat list" where [table_defs]:
  "yyRuleInfoLhs_200 = [
   217, 274, 217, 217, 217, 217, 217, 217, 217, 217, 217, 217, 217, 217, 275, 275, 217, 276,
   276, 217, 217, 217, 217, 217, 217, 279, 279, 280, 280, 278, 261, 253, 253, 277, 277, 190,
   281, 281, 221, 221, 232, 232, 282, 282, 190, 190, 190, 283, 283, 190]"

definition yyRuleInfoLhs_250 :: "nat list" where [table_defs]:
  "yyRuleInfoLhs_250 = [
   190, 190, 190, 190, 211, 212, 190, 285, 287, 287, 287, 288, 288, 288, 290, 290, 286, 286,
   292, 293, 293, 291, 291, 291, 291, 217, 217, 236, 236, 236, 190, 190, 190, 295, 295, 190,
   190, 190, 190, 190, 190, 190, 296, 190, 190, 190, 298, 300, 301, 301]"

definition yyRuleInfoLhs_300 :: "nat list" where [table_defs]:
  "yyRuleInfoLhs_300 = [
   302, 266, 266, 305, 305, 305, 304, 241, 241, 306, 306, 307, 308, 308, 308, 308, 308, 308,
   309, 309, 309, 313, 315, 315, 316, 316, 314, 314, 317, 317, 318, 318, 318, 251, 273, 273,
   273, 312, 312, 311, 185, 186, 186, 187, 187, 187, 192, 192, 192, 194]"

definition yyRuleInfoLhs_350 :: "nat list" where [table_defs]:
  "yyRuleInfoLhs_350 = [
   194, 190, 203, 201, 201, 193, 193, 208, 209, 210, 210, 207, 207, 215, 215, 215, 202, 228,
   228, 229, 233, 235, 239, 240, 254, 255, 264, 272, 217, 274, 278, 261, 284, 284, 284, 284,
   284, 211, 289, 289, 292, 293, 294, 294, 297, 297, 299, 299, 300, 303]"

definition yyRuleInfoLhs_400 :: "nat list" where [table_defs]:
  "yyRuleInfoLhs_400 = [
   303, 303, 266]"

definition yyRuleInfoLhs :: "nat list" where
  "yyRuleInfoLhs = yyRuleInfoLhs_0 @ yyRuleInfoLhs_50 @ yyRuleInfoLhs_100 @ yyRuleInfoLhs_150 @ yyRuleInfoLhs_200 @ yyRuleInfoLhs_250 @ yyRuleInfoLhs_300 @ yyRuleInfoLhs_350 @ yyRuleInfoLhs_400"

lemma yyRuleInfoLhs_lengths:
  "length yyRuleInfoLhs_0 = 50"
  "length yyRuleInfoLhs_50 = 50"
  "length yyRuleInfoLhs_100 = 50"
  "length yyRuleInfoLhs_150 = 50"
  "length yyRuleInfoLhs_200 = 50"
  "length yyRuleInfoLhs_250 = 50"
  "length yyRuleInfoLhs_300 = 50"
  "length yyRuleInfoLhs_350 = 50"
  "length yyRuleInfoLhs_400 = 3"
  by (simp_all add: table_defs)

lemma length_yyRuleInfoLhs [simp]: "length yyRuleInfoLhs = 403"
  by (simp add: yyRuleInfoLhs_def yyRuleInfoLhs_lengths)

lemma yyRuleInfoLhs_0_nth:
  "map ((!) yyRuleInfoLhs) [0..<50] = yyRuleInfoLhs_0"
  by (rule window_nth [where p = "[]" and q = "yyRuleInfoLhs_50 @ yyRuleInfoLhs_100 @ yyRuleInfoLhs_150 @ yyRuleInfoLhs_200 @ yyRuleInfoLhs_250 @ yyRuleInfoLhs_300 @ yyRuleInfoLhs_350 @ yyRuleInfoLhs_400"])
    (simp_all add: yyRuleInfoLhs_def yyRuleInfoLhs_lengths)

lemma yyRuleInfoLhs_50_nth:
  "map ((!) yyRuleInfoLhs) [50..<100] = yyRuleInfoLhs_50"
  by (rule window_nth [where p = "yyRuleInfoLhs_0" and q = "yyRuleInfoLhs_100 @ yyRuleInfoLhs_150 @ yyRuleInfoLhs_200 @ yyRuleInfoLhs_250 @ yyRuleInfoLhs_300 @ yyRuleInfoLhs_350 @ yyRuleInfoLhs_400"])
    (simp_all add: yyRuleInfoLhs_def yyRuleInfoLhs_lengths)

lemma yyRuleInfoLhs_100_nth:
  "map ((!) yyRuleInfoLhs) [100..<150] = yyRuleInfoLhs_100"
  by (rule window_nth [where p = "yyRuleInfoLhs_0 @ yyRuleInfoLhs_50" and q = "yyRuleInfoLhs_150 @ yyRuleInfoLhs_200 @ yyRuleInfoLhs_250 @ yyRuleInfoLhs_300 @ yyRuleInfoLhs_350 @ yyRuleInfoLhs_400"])
    (simp_all add: yyRuleInfoLhs_def yyRuleInfoLhs_lengths)

lemma yyRuleInfoLhs_150_nth:
  "map ((!) yyRuleInfoLhs) [150..<200] = yyRuleInfoLhs_150"
  by (rule window_nth [where p = "yyRuleInfoLhs_0 @ yyRuleInfoLhs_50 @ yyRuleInfoLhs_100" and q = "yyRuleInfoLhs_200 @ yyRuleInfoLhs_250 @ yyRuleInfoLhs_300 @ yyRuleInfoLhs_350 @ yyRuleInfoLhs_400"])
    (simp_all add: yyRuleInfoLhs_def yyRuleInfoLhs_lengths)

lemma yyRuleInfoLhs_200_nth:
  "map ((!) yyRuleInfoLhs) [200..<250] = yyRuleInfoLhs_200"
  by (rule window_nth [where p = "yyRuleInfoLhs_0 @ yyRuleInfoLhs_50 @ yyRuleInfoLhs_100 @ yyRuleInfoLhs_150" and q = "yyRuleInfoLhs_250 @ yyRuleInfoLhs_300 @ yyRuleInfoLhs_350 @ yyRuleInfoLhs_400"])
    (simp_all add: yyRuleInfoLhs_def yyRuleInfoLhs_lengths)

lemma yyRuleInfoLhs_250_nth:
  "map ((!) yyRuleInfoLhs) [250..<300] = yyRuleInfoLhs_250"
  by (rule window_nth [where p = "yyRuleInfoLhs_0 @ yyRuleInfoLhs_50 @ yyRuleInfoLhs_100 @ yyRuleInfoLhs_150 @ yyRuleInfoLhs_200" and q = "yyRuleInfoLhs_300 @ yyRuleInfoLhs_350 @ yyRuleInfoLhs_400"])
    (simp_all add: yyRuleInfoLhs_def yyRuleInfoLhs_lengths)

lemma yyRuleInfoLhs_300_nth:
  "map ((!) yyRuleInfoLhs) [300..<350] = yyRuleInfoLhs_300"
  by (rule window_nth [where p = "yyRuleInfoLhs_0 @ yyRuleInfoLhs_50 @ yyRuleInfoLhs_100 @ yyRuleInfoLhs_150 @ yyRuleInfoLhs_200 @ yyRuleInfoLhs_250" and q = "yyRuleInfoLhs_350 @ yyRuleInfoLhs_400"])
    (simp_all add: yyRuleInfoLhs_def yyRuleInfoLhs_lengths)

lemma yyRuleInfoLhs_350_nth:
  "map ((!) yyRuleInfoLhs) [350..<400] = yyRuleInfoLhs_350"
  by (rule window_nth [where p = "yyRuleInfoLhs_0 @ yyRuleInfoLhs_50 @ yyRuleInfoLhs_100 @ yyRuleInfoLhs_150 @ yyRuleInfoLhs_200 @ yyRuleInfoLhs_250 @ yyRuleInfoLhs_300" and q = "yyRuleInfoLhs_400"])
    (simp_all add: yyRuleInfoLhs_def yyRuleInfoLhs_lengths)

lemma yyRuleInfoLhs_400_nth:
  "map ((!) yyRuleInfoLhs) [400..<403] = yyRuleInfoLhs_400"
  by (rule window_nth [where p = "yyRuleInfoLhs_0 @ yyRuleInfoLhs_50 @ yyRuleInfoLhs_100 @ yyRuleInfoLhs_150 @ yyRuleInfoLhs_200 @ yyRuleInfoLhs_250 @ yyRuleInfoLhs_300 @ yyRuleInfoLhs_350" and q = "[]"])
    (simp_all add: yyRuleInfoLhs_def yyRuleInfoLhs_lengths)

definition yyRuleInfoNRhs_0 :: "int list" where [table_defs]:
  "yyRuleInfoNRhs_0 = [
   - 1, - 3, - 1, - 3, 0, - 1, - 1, - 1, - 2, - 2, - 2, - 3, - 5, - 6, - 1, 0, - 3, - 1, 0,
   - 5, - 2, 0, - 3, - 2, - 1, - 2, 0, - 4, - 6, - 2, 0, 0, - 2, - 3, - 4, - 4, - 4, - 3,
   - 3, - 5, - 2, - 4, - 4, - 1, - 2, - 3, - 4, 0, - 1, 0]"

definition yyRuleInfoNRhs_50 :: "int list" where [table_defs]:
  "yyRuleInfoNRhs_50 = [
   - 2, - 2, - 3, - 3, - 3, - 2, - 2, - 1, - 1, - 2, - 3, - 2, 0, - 2, - 2, 0, - 1, - 2,
   - 7, - 5, - 5, - 10, 0, 0, - 3, 0, - 2, - 1, - 1, - 4, - 2, 0, - 9, - 4, - 1, - 3, - 4,
   - 1, - 3, - 1, - 2, - 1, - 9, - 10, - 4, - 5, - 1, - 1, 0, 0]"

definition yyRuleInfoNRhs_100 :: "int list" where [table_defs]:
  "yyRuleInfoNRhs_100 = [
   - 5, - 3, - 5, - 2, 0, 0, - 2, - 2, 0, - 5, - 6, - 8, - 6, - 6, 0, - 2, - 1, - 3, - 1,
   - 3, - 5, - 3, - 1, - 2, - 3, - 4, - 2, - 4, 0, 0, - 3, - 2, 0, - 3, - 5, - 3, - 1, - 1,
   0, - 2, - 2, 0, 0, - 3, 0, - 2, 0, - 2, - 4, - 4]"

definition yyRuleInfoNRhs_150 :: "int list" where [table_defs]:
  "yyRuleInfoNRhs_150 = [
   - 6, 0, - 2, 0, - 2, - 2, - 4, - 9, - 5, - 7, - 3, - 5, - 7, - 8, 0, - 2, - 12, - 9, - 5,
   - 8, - 2, - 2, - 1, 0, - 3, - 3, - 1, - 3, - 1, - 3, - 5, - 1, - 1, - 1, - 1, - 3, - 6,
   - 5, - 4, - 6, - 5, - 1, - 5, - 3, - 3, - 3, - 3, - 3, - 3, - 3]"

definition yyRuleInfoNRhs_200 :: "int list" where [table_defs]:
  "yyRuleInfoNRhs_200 = [
   - 3, - 2, - 3, - 5, - 2, - 3, - 3, - 4, - 6, - 5, - 2, - 2, - 2, - 3, - 1, - 2, - 5, - 1,
   - 2, - 5, - 3, - 5, - 5, - 4, - 5, - 5, - 4, - 2, 0, 0, 0, - 3, - 1, 0, - 3, - 12, - 1,
   0, 0, - 3, - 5, - 3, 0, - 2, - 4, - 2, - 3, - 2, 0, - 3]"

definition yyRuleInfoNRhs_250 :: "int list" where [table_defs]:
  "yyRuleInfoNRhs_250 = [
   - 5, - 6, - 5, - 6, - 2, - 2, - 5, - 11, - 1, - 2, 0, - 1, - 1, - 3, 0, - 2, - 3, - 2,
   - 3, - 3, - 2, - 9, - 8, - 6, - 3, - 4, - 6, - 1, - 1, - 1, - 4, - 6, - 3, 0, - 2, - 1,
   - 3, - 1, - 3, - 6, - 7, - 6, - 1, - 8, - 1, - 4, - 8, 0, - 1, - 3]"

definition yyRuleInfoNRhs_300 :: "int list" where [table_defs]:
  "yyRuleInfoNRhs_300 = [
   - 1, - 2, - 3, - 1, - 2, - 3, - 6, - 1, - 3, - 1, - 3, - 5, - 5, - 6, - 4, - 5, - 1, - 2,
   0, - 3, - 6, - 1, - 1, - 2, - 1, - 2, - 2, - 2, 0, - 2, - 2, - 2, - 1, - 2, - 2, - 1,
   - 1, - 4, - 2, - 5, - 1, - 2, - 1, - 1, - 2, - 3, 0, - 1, - 2, - 1]"

definition yyRuleInfoNRhs_350 :: "int list" where [table_defs]:
  "yyRuleInfoNRhs_350 = [
   0, - 2, - 1, - 4, - 2, - 1, - 1, - 1, - 1, - 1, - 1, - 2, 0, - 2, - 4, - 2, - 2, - 3,
   - 1, 0, - 1, - 1, - 1, - 1, - 2, - 1, - 1, 0, - 1, - 1, - 1, - 1, - 1, - 1, - 1, - 1,
   - 1, - 1, 0, - 3, - 1, 0, - 1, 0, 0, - 1, - 1, - 3, - 2, 0]"

definition yyRuleInfoNRhs_400 :: "int list" where [table_defs]:
  "yyRuleInfoNRhs_400 = [
   - 4, - 2, 0]"

definition yyRuleInfoNRhs :: "int list" where
  "yyRuleInfoNRhs = yyRuleInfoNRhs_0 @ yyRuleInfoNRhs_50 @ yyRuleInfoNRhs_100 @ yyRuleInfoNRhs_150 @ yyRuleInfoNRhs_200 @ yyRuleInfoNRhs_250 @ yyRuleInfoNRhs_300 @ yyRuleInfoNRhs_350 @ yyRuleInfoNRhs_400"

lemma yyRuleInfoNRhs_lengths:
  "length yyRuleInfoNRhs_0 = 50"
  "length yyRuleInfoNRhs_50 = 50"
  "length yyRuleInfoNRhs_100 = 50"
  "length yyRuleInfoNRhs_150 = 50"
  "length yyRuleInfoNRhs_200 = 50"
  "length yyRuleInfoNRhs_250 = 50"
  "length yyRuleInfoNRhs_300 = 50"
  "length yyRuleInfoNRhs_350 = 50"
  "length yyRuleInfoNRhs_400 = 3"
  by (simp_all add: table_defs)

lemma length_yyRuleInfoNRhs [simp]: "length yyRuleInfoNRhs = 403"
  by (simp add: yyRuleInfoNRhs_def yyRuleInfoNRhs_lengths)

lemma yyRuleInfoNRhs_0_nth:
  "map ((!) yyRuleInfoNRhs) [0..<50] = yyRuleInfoNRhs_0"
  by (rule window_nth [where p = "[]" and q = "yyRuleInfoNRhs_50 @ yyRuleInfoNRhs_100 @ yyRuleInfoNRhs_150 @ yyRuleInfoNRhs_200 @ yyRuleInfoNRhs_250 @ yyRuleInfoNRhs_300 @ yyRuleInfoNRhs_350 @ yyRuleInfoNRhs_400"])
    (simp_all add: yyRuleInfoNRhs_def yyRuleInfoNRhs_lengths)

lemma yyRuleInfoNRhs_50_nth:
  "map ((!) yyRuleInfoNRhs) [50..<100] = yyRuleInfoNRhs_50"
  by (rule window_nth [where p = "yyRuleInfoNRhs_0" and q = "yyRuleInfoNRhs_100 @ yyRuleInfoNRhs_150 @ yyRuleInfoNRhs_200 @ yyRuleInfoNRhs_250 @ yyRuleInfoNRhs_300 @ yyRuleInfoNRhs_350 @ yyRuleInfoNRhs_400"])
    (simp_all add: yyRuleInfoNRhs_def yyRuleInfoNRhs_lengths)

lemma yyRuleInfoNRhs_100_nth:
  "map ((!) yyRuleInfoNRhs) [100..<150] = yyRuleInfoNRhs_100"
  by (rule window_nth [where p = "yyRuleInfoNRhs_0 @ yyRuleInfoNRhs_50" and q = "yyRuleInfoNRhs_150 @ yyRuleInfoNRhs_200 @ yyRuleInfoNRhs_250 @ yyRuleInfoNRhs_300 @ yyRuleInfoNRhs_350 @ yyRuleInfoNRhs_400"])
    (simp_all add: yyRuleInfoNRhs_def yyRuleInfoNRhs_lengths)

lemma yyRuleInfoNRhs_150_nth:
  "map ((!) yyRuleInfoNRhs) [150..<200] = yyRuleInfoNRhs_150"
  by (rule window_nth [where p = "yyRuleInfoNRhs_0 @ yyRuleInfoNRhs_50 @ yyRuleInfoNRhs_100" and q = "yyRuleInfoNRhs_200 @ yyRuleInfoNRhs_250 @ yyRuleInfoNRhs_300 @ yyRuleInfoNRhs_350 @ yyRuleInfoNRhs_400"])
    (simp_all add: yyRuleInfoNRhs_def yyRuleInfoNRhs_lengths)

lemma yyRuleInfoNRhs_200_nth:
  "map ((!) yyRuleInfoNRhs) [200..<250] = yyRuleInfoNRhs_200"
  by (rule window_nth [where p = "yyRuleInfoNRhs_0 @ yyRuleInfoNRhs_50 @ yyRuleInfoNRhs_100 @ yyRuleInfoNRhs_150" and q = "yyRuleInfoNRhs_250 @ yyRuleInfoNRhs_300 @ yyRuleInfoNRhs_350 @ yyRuleInfoNRhs_400"])
    (simp_all add: yyRuleInfoNRhs_def yyRuleInfoNRhs_lengths)

lemma yyRuleInfoNRhs_250_nth:
  "map ((!) yyRuleInfoNRhs) [250..<300] = yyRuleInfoNRhs_250"
  by (rule window_nth [where p = "yyRuleInfoNRhs_0 @ yyRuleInfoNRhs_50 @ yyRuleInfoNRhs_100 @ yyRuleInfoNRhs_150 @ yyRuleInfoNRhs_200" and q = "yyRuleInfoNRhs_300 @ yyRuleInfoNRhs_350 @ yyRuleInfoNRhs_400"])
    (simp_all add: yyRuleInfoNRhs_def yyRuleInfoNRhs_lengths)

lemma yyRuleInfoNRhs_300_nth:
  "map ((!) yyRuleInfoNRhs) [300..<350] = yyRuleInfoNRhs_300"
  by (rule window_nth [where p = "yyRuleInfoNRhs_0 @ yyRuleInfoNRhs_50 @ yyRuleInfoNRhs_100 @ yyRuleInfoNRhs_150 @ yyRuleInfoNRhs_200 @ yyRuleInfoNRhs_250" and q = "yyRuleInfoNRhs_350 @ yyRuleInfoNRhs_400"])
    (simp_all add: yyRuleInfoNRhs_def yyRuleInfoNRhs_lengths)

lemma yyRuleInfoNRhs_350_nth:
  "map ((!) yyRuleInfoNRhs) [350..<400] = yyRuleInfoNRhs_350"
  by (rule window_nth [where p = "yyRuleInfoNRhs_0 @ yyRuleInfoNRhs_50 @ yyRuleInfoNRhs_100 @ yyRuleInfoNRhs_150 @ yyRuleInfoNRhs_200 @ yyRuleInfoNRhs_250 @ yyRuleInfoNRhs_300" and q = "yyRuleInfoNRhs_400"])
    (simp_all add: yyRuleInfoNRhs_def yyRuleInfoNRhs_lengths)

lemma yyRuleInfoNRhs_400_nth:
  "map ((!) yyRuleInfoNRhs) [400..<403] = yyRuleInfoNRhs_400"
  by (rule window_nth [where p = "yyRuleInfoNRhs_0 @ yyRuleInfoNRhs_50 @ yyRuleInfoNRhs_100 @ yyRuleInfoNRhs_150 @ yyRuleInfoNRhs_200 @ yyRuleInfoNRhs_250 @ yyRuleInfoNRhs_300 @ yyRuleInfoNRhs_350" and q = "[]"])
    (simp_all add: yyRuleInfoNRhs_def yyRuleInfoNRhs_lengths)

section \<open>The rules\<close>

definition grammar_0 :: "rule list" where [table_defs]:
  "grammar_0 =
  [(NT_explain, [[TK_EXPLAIN]]),
   (NT_explain, [[TK_EXPLAIN], [TK_QUERY], [TK_PLAN]]),
   (NT_cmdx, [[NT_cmd]]),
   (NT_cmd, [[TK_BEGIN], [NT_transtype], [NT_trans_opt]]),
   (NT_transtype, []),
   (NT_transtype, [[TK_DEFERRED]]),
   (NT_transtype, [[TK_IMMEDIATE]]),
   (NT_transtype, [[TK_EXCLUSIVE]]),
   (NT_cmd, [[TK_COMMIT, TK_END], [NT_trans_opt]]),
   (NT_cmd, [[TK_ROLLBACK], [NT_trans_opt]]),
   (NT_cmd, [[TK_SAVEPOINT], [NT_nm]]),
   (NT_cmd, [[TK_RELEASE], [NT_savepoint_opt], [NT_nm]]),
   (NT_cmd, [[TK_ROLLBACK], [NT_trans_opt], [TK_TO], [NT_savepoint_opt], [NT_nm]]),
   (NT_create_table, [[NT_createkw], [NT_temp], [TK_TABLE], [NT_ifnotexists], [NT_nm], [NT_dbnm]]),
   (NT_createkw, [[TK_CREATE]]),
   (NT_ifnotexists, []),
   (NT_ifnotexists, [[TK_IF], [TK_NOT], [TK_EXISTS]]),
   (NT_temp, [[TK_TEMP]]),
   (NT_temp, []),
   (NT_create_table_args, [[TK_LP], [NT_columnlist], [NT_conslist_opt], [TK_RP], [NT_table_option_set]]),
   (NT_create_table_args, [[TK_AS], [NT_select]]),
   (NT_table_option_set, []),
   (NT_table_option_set, [[NT_table_option_set], [TK_COMMA], [NT_table_option]]),
   (NT_table_option, [[TK_WITHOUT], [NT_nm]]),
   (NT_table_option, [[NT_nm]]),
   (NT_columnname, [[NT_nm], [NT_typetoken]]),
   (NT_typetoken, []),
   (NT_typetoken, [[NT_typename], [TK_LP], [NT_signed], [TK_RP]]),
   (NT_typetoken, [[NT_typename], [TK_LP], [NT_signed], [TK_COMMA], [NT_signed], [TK_RP]]),
   (NT_typename, [[NT_typename], [TK_ID, TK_STRING]]),
   (NT_scanpt, []),
   (NT_scantok, []),
   (NT_ccons, [[TK_CONSTRAINT], [NT_nm]]),
   (NT_ccons, [[TK_DEFAULT], [NT_scantok], [NT_term]]),
   (NT_ccons, [[TK_DEFAULT], [TK_LP], [NT_expr], [TK_RP]]),
   (NT_ccons, [[TK_DEFAULT], [TK_PLUS], [NT_scantok], [NT_term]]),
   (NT_ccons, [[TK_DEFAULT], [TK_MINUS], [NT_scantok], [NT_term]]),
   (NT_ccons, [[TK_DEFAULT], [NT_scantok], [TK_ID, TK_INDEXED]]),
   (NT_ccons, [[TK_NOT], [TK_NULL], [NT_onconf]]),
   (NT_ccons, [[TK_PRIMARY], [TK_KEY], [NT_sortorder], [NT_onconf], [NT_autoinc]]),
   (NT_ccons, [[TK_UNIQUE], [NT_onconf]]),
   (NT_ccons, [[TK_CHECK], [TK_LP], [NT_expr], [TK_RP]]),
   (NT_ccons, [[TK_REFERENCES], [NT_nm], [NT_eidlist_opt], [NT_refargs]]),
   (NT_ccons, [[NT_defer_subclause]]),
   (NT_ccons, [[TK_COLLATE], [TK_ID, TK_STRING]]),
   (NT_generated, [[TK_LP], [NT_expr], [TK_RP]]),
   (NT_generated, [[TK_LP], [NT_expr], [TK_RP], [TK_ID]]),
   (NT_autoinc, []),
   (NT_autoinc, [[TK_AUTOINCR]]),
   (NT_refargs, [])]"

definition grammar_50 :: "rule list" where [table_defs]:
  "grammar_50 =
  [(NT_refargs, [[NT_refargs], [NT_refarg]]),
   (NT_refarg, [[TK_MATCH], [NT_nm]]),
   (NT_refarg, [[TK_ON], [TK_INSERT], [NT_refact]]),
   (NT_refarg, [[TK_ON], [TK_DELETE], [NT_refact]]),
   (NT_refarg, [[TK_ON], [TK_UPDATE], [NT_refact]]),
   (NT_refact, [[TK_SET], [TK_NULL]]),
   (NT_refact, [[TK_SET], [TK_DEFAULT]]),
   (NT_refact, [[TK_CASCADE]]),
   (NT_refact, [[TK_RESTRICT]]),
   (NT_refact, [[TK_NO], [TK_ACTION]]),
   (NT_defer_subclause, [[TK_NOT], [TK_DEFERRABLE], [NT_init_deferred_pred_opt]]),
   (NT_defer_subclause, [[TK_DEFERRABLE], [NT_init_deferred_pred_opt]]),
   (NT_init_deferred_pred_opt, []),
   (NT_init_deferred_pred_opt, [[TK_INITIALLY], [TK_DEFERRED]]),
   (NT_init_deferred_pred_opt, [[TK_INITIALLY], [TK_IMMEDIATE]]),
   (NT_conslist_opt, []),
   (NT_tconscomma, [[TK_COMMA]]),
   (NT_tcons, [[TK_CONSTRAINT], [NT_nm]]),
   (NT_tcons, [[TK_PRIMARY], [TK_KEY], [TK_LP], [NT_sortlist], [NT_autoinc], [TK_RP], [NT_onconf]]),
   (NT_tcons, [[TK_UNIQUE], [TK_LP], [NT_sortlist], [TK_RP], [NT_onconf]]),
   (NT_tcons, [[TK_CHECK], [TK_LP], [NT_expr], [TK_RP], [NT_onconf]]),
   (NT_tcons, [[TK_FOREIGN], [TK_KEY], [TK_LP], [NT_eidlist], [TK_RP], [TK_REFERENCES], [NT_nm], [NT_eidlist_opt], [NT_refargs], [NT_defer_subclause_opt]]),
   (NT_defer_subclause_opt, []),
   (NT_onconf, []),
   (NT_onconf, [[TK_ON], [TK_CONFLICT], [NT_resolvetype]]),
   (NT_orconf, []),
   (NT_orconf, [[TK_OR], [NT_resolvetype]]),
   (NT_resolvetype, [[TK_IGNORE]]),
   (NT_resolvetype, [[TK_REPLACE]]),
   (NT_cmd, [[TK_DROP], [TK_TABLE], [NT_ifexists], [NT_fullname]]),
   (NT_ifexists, [[TK_IF], [TK_EXISTS]]),
   (NT_ifexists, []),
   (NT_cmd, [[NT_createkw], [NT_temp], [TK_VIEW], [NT_ifnotexists], [NT_nm], [NT_dbnm], [NT_eidlist_opt], [TK_AS], [NT_select]]),
   (NT_cmd, [[TK_DROP], [TK_VIEW], [NT_ifexists], [NT_fullname]]),
   (NT_cmd, [[NT_select]]),
   (NT_select, [[TK_WITH], [NT_wqlist], [NT_selectnowith]]),
   (NT_select, [[TK_WITH], [TK_RECURSIVE], [NT_wqlist], [NT_selectnowith]]),
   (NT_select, [[NT_selectnowith]]),
   (NT_selectnowith, [[NT_selectnowith], [NT_multiselect_op], [NT_oneselect]]),
   (NT_multiselect_op, [[TK_UNION]]),
   (NT_multiselect_op, [[TK_UNION], [TK_ALL]]),
   (NT_multiselect_op, [[TK_EXCEPT, TK_INTERSECT]]),
   (NT_oneselect, [[TK_SELECT], [NT_distinct], [NT_selcollist], [NT_from], [NT_where_opt], [NT_groupby_opt], [NT_having_opt], [NT_orderby_opt], [NT_limit_opt]]),
   (NT_oneselect, [[TK_SELECT], [NT_distinct], [NT_selcollist], [NT_from], [NT_where_opt], [NT_groupby_opt], [NT_having_opt], [NT_window_clause], [NT_orderby_opt], [NT_limit_opt]]),
   (NT_values, [[TK_VALUES], [TK_LP], [NT_nexprlist], [TK_RP]]),
   (NT_values, [[NT_values], [TK_COMMA], [TK_LP], [NT_nexprlist], [TK_RP]]),
   (NT_distinct, [[TK_DISTINCT]]),
   (NT_distinct, [[TK_ALL]]),
   (NT_distinct, []),
   (NT_sclp, [])]"

definition grammar_100 :: "rule list" where [table_defs]:
  "grammar_100 =
  [(NT_selcollist, [[NT_sclp], [NT_scanpt], [NT_expr], [NT_scanpt], [NT_as]]),
   (NT_selcollist, [[NT_sclp], [NT_scanpt], [TK_STAR]]),
   (NT_selcollist, [[NT_sclp], [NT_scanpt], [NT_nm], [TK_DOT], [TK_STAR]]),
   (NT_as, [[TK_AS], [NT_nm]]),
   (NT_as, []),
   (NT_from, []),
   (NT_from, [[TK_FROM], [NT_seltablist]]),
   (NT_stl_prefix, [[NT_seltablist], [NT_joinop]]),
   (NT_stl_prefix, []),
   (NT_seltablist, [[NT_stl_prefix], [NT_nm], [NT_dbnm], [NT_as], [NT_on_using]]),
   (NT_seltablist, [[NT_stl_prefix], [NT_nm], [NT_dbnm], [NT_as], [NT_indexed_by], [NT_on_using]]),
   (NT_seltablist, [[NT_stl_prefix], [NT_nm], [NT_dbnm], [TK_LP], [NT_exprlist], [TK_RP], [NT_as], [NT_on_using]]),
   (NT_seltablist, [[NT_stl_prefix], [TK_LP], [NT_select], [TK_RP], [NT_as], [NT_on_using]]),
   (NT_seltablist, [[NT_stl_prefix], [TK_LP], [NT_seltablist], [TK_RP], [NT_as], [NT_on_using]]),
   (NT_dbnm, []),
   (NT_dbnm, [[TK_DOT], [NT_nm]]),
   (NT_fullname, [[NT_nm]]),
   (NT_fullname, [[NT_nm], [TK_DOT], [NT_nm]]),
   (NT_xfullname, [[NT_nm]]),
   (NT_xfullname, [[NT_nm], [TK_DOT], [NT_nm]]),
   (NT_xfullname, [[NT_nm], [TK_DOT], [NT_nm], [TK_AS], [NT_nm]]),
   (NT_xfullname, [[NT_nm], [TK_AS], [NT_nm]]),
   (NT_joinop, [[TK_COMMA, TK_JOIN]]),
   (NT_joinop, [[TK_JOIN_KW], [TK_JOIN]]),
   (NT_joinop, [[TK_JOIN_KW], [NT_nm], [TK_JOIN]]),
   (NT_joinop, [[TK_JOIN_KW], [NT_nm], [NT_nm], [TK_JOIN]]),
   (NT_on_using, [[TK_ON], [NT_expr]]),
   (NT_on_using, [[TK_USING], [TK_LP], [NT_idlist], [TK_RP]]),
   (NT_on_using, []),
   (NT_indexed_opt, []),
   (NT_indexed_by, [[TK_INDEXED], [TK_BY], [NT_nm]]),
   (NT_indexed_by, [[TK_NOT], [TK_INDEXED]]),
   (NT_orderby_opt, []),
   (NT_orderby_opt, [[TK_ORDER], [TK_BY], [NT_sortlist]]),
   (NT_sortlist, [[NT_sortlist], [TK_COMMA], [NT_expr], [NT_sortorder], [NT_nulls]]),
   (NT_sortlist, [[NT_expr], [NT_sortorder], [NT_nulls]]),
   (NT_sortorder, [[TK_ASC]]),
   (NT_sortorder, [[TK_DESC]]),
   (NT_sortorder, []),
   (NT_nulls, [[TK_NULLS], [TK_FIRST]]),
   (NT_nulls, [[TK_NULLS], [TK_LAST]]),
   (NT_nulls, []),
   (NT_groupby_opt, []),
   (NT_groupby_opt, [[TK_GROUP], [TK_BY], [NT_nexprlist]]),
   (NT_having_opt, []),
   (NT_having_opt, [[TK_HAVING], [NT_expr]]),
   (NT_limit_opt, []),
   (NT_limit_opt, [[TK_LIMIT], [NT_expr]]),
   (NT_limit_opt, [[TK_LIMIT], [NT_expr], [TK_OFFSET], [NT_expr]]),
   (NT_limit_opt, [[TK_LIMIT], [NT_expr], [TK_COMMA], [NT_expr]])]"

definition grammar_150 :: "rule list" where [table_defs]:
  "grammar_150 =
  [(NT_cmd, [[NT_with], [TK_DELETE], [TK_FROM], [NT_xfullname], [NT_indexed_opt], [NT_where_opt_ret]]),
   (NT_where_opt, []),
   (NT_where_opt, [[TK_WHERE], [NT_expr]]),
   (NT_where_opt_ret, []),
   (NT_where_opt_ret, [[TK_WHERE], [NT_expr]]),
   (NT_where_opt_ret, [[TK_RETURNING], [NT_selcollist]]),
   (NT_where_opt_ret, [[TK_WHERE], [NT_expr], [TK_RETURNING], [NT_selcollist]]),
   (NT_cmd, [[NT_with], [TK_UPDATE], [NT_orconf], [NT_xfullname], [NT_indexed_opt], [TK_SET], [NT_setlist], [NT_from], [NT_where_opt_ret]]),
   (NT_setlist, [[NT_setlist], [TK_COMMA], [NT_nm], [TK_EQ], [NT_expr]]),
   (NT_setlist, [[NT_setlist], [TK_COMMA], [TK_LP], [NT_idlist], [TK_RP], [TK_EQ], [NT_expr]]),
   (NT_setlist, [[NT_nm], [TK_EQ], [NT_expr]]),
   (NT_setlist, [[TK_LP], [NT_idlist], [TK_RP], [TK_EQ], [NT_expr]]),
   (NT_cmd, [[NT_with], [NT_insert_cmd], [TK_INTO], [NT_xfullname], [NT_idlist_opt], [NT_select], [NT_upsert]]),
   (NT_cmd, [[NT_with], [NT_insert_cmd], [TK_INTO], [NT_xfullname], [NT_idlist_opt], [TK_DEFAULT], [TK_VALUES], [NT_returning]]),
   (NT_upsert, []),
   (NT_upsert, [[TK_RETURNING], [NT_selcollist]]),
   (NT_upsert, [[TK_ON], [TK_CONFLICT], [TK_LP], [NT_sortlist], [TK_RP], [NT_where_opt], [TK_DO], [TK_UPDATE], [TK_SET], [NT_setlist], [NT_where_opt], [NT_upsert]]),
   (NT_upsert, [[TK_ON], [TK_CONFLICT], [TK_LP], [NT_sortlist], [TK_RP], [NT_where_opt], [TK_DO], [TK_NOTHING], [NT_upsert]]),
   (NT_upsert, [[TK_ON], [TK_CONFLICT], [TK_DO], [TK_NOTHING], [NT_returning]]),
   (NT_upsert, [[TK_ON], [TK_CONFLICT], [TK_DO], [TK_UPDATE], [TK_SET], [NT_setlist], [NT_where_opt], [NT_returning]]),
   (NT_returning, [[TK_RETURNING], [NT_selcollist]]),
   (NT_insert_cmd, [[TK_INSERT], [NT_orconf]]),
   (NT_insert_cmd, [[TK_REPLACE]]),
   (NT_idlist_opt, []),
   (NT_idlist_opt, [[TK_LP], [NT_idlist], [TK_RP]]),
   (NT_idlist, [[NT_idlist], [TK_COMMA], [NT_nm]]),
   (NT_idlist, [[NT_nm]]),
   (NT_expr, [[TK_LP], [NT_expr], [TK_RP]]),
   (NT_expr, [[TK_ID, TK_INDEXED, TK_JOIN_KW]]),
   (NT_expr, [[NT_nm], [TK_DOT], [NT_nm]]),
   (NT_expr, [[NT_nm], [TK_DOT], [NT_nm], [TK_DOT], [NT_nm]]),
   (NT_term, [[TK_NULL, TK_FLOAT, TK_BLOB]]),
   (NT_term, [[TK_STRING]]),
   (NT_term, [[TK_INTEGER]]),
   (NT_expr, [[TK_VARIABLE]]),
   (NT_expr, [[NT_expr], [TK_COLLATE], [TK_ID, TK_STRING]]),
   (NT_expr, [[TK_CAST], [TK_LP], [NT_expr], [TK_AS], [NT_typetoken], [TK_RP]]),
   (NT_expr, [[TK_ID, TK_INDEXED, TK_JOIN_KW], [TK_LP], [NT_distinct], [NT_exprlist], [TK_RP]]),
   (NT_expr, [[TK_ID, TK_INDEXED, TK_JOIN_KW], [TK_LP], [TK_STAR], [TK_RP]]),
   (NT_expr, [[TK_ID, TK_INDEXED, TK_JOIN_KW], [TK_LP], [NT_distinct], [NT_exprlist], [TK_RP], [NT_filter_over]]),
   (NT_expr, [[TK_ID, TK_INDEXED, TK_JOIN_KW], [TK_LP], [TK_STAR], [TK_RP], [NT_filter_over]]),
   (NT_term, [[TK_CTIME_KW]]),
   (NT_expr, [[TK_LP], [NT_nexprlist], [TK_COMMA], [NT_expr], [TK_RP]]),
   (NT_expr, [[NT_expr], [TK_AND], [NT_expr]]),
   (NT_expr, [[NT_expr], [TK_OR], [NT_expr]]),
   (NT_expr, [[NT_expr], [TK_LT, TK_GT, TK_GE, TK_LE], [NT_expr]]),
   (NT_expr, [[NT_expr], [TK_EQ, TK_NE], [NT_expr]]),
   (NT_expr, [[NT_expr], [TK_BITAND, TK_BITOR, TK_LSHIFT, TK_RSHIFT], [NT_expr]]),
   (NT_expr, [[NT_expr], [TK_PLUS, TK_MINUS], [NT_expr]]),
   (NT_expr, [[NT_expr], [TK_STAR, TK_SLASH, TK_REM], [NT_expr]])]"

definition grammar_200 :: "rule list" where [table_defs]:
  "grammar_200 =
  [(NT_expr, [[NT_expr], [TK_CONCAT], [NT_expr]]),
   (NT_likeop, [[TK_NOT], [TK_LIKE_KW, TK_MATCH]]),
   (NT_expr, [[NT_expr], [NT_likeop], [NT_expr]]),
   (NT_expr, [[NT_expr], [NT_likeop], [NT_expr], [TK_ESCAPE], [NT_expr]]),
   (NT_expr, [[NT_expr], [TK_ISNULL, TK_NOTNULL]]),
   (NT_expr, [[NT_expr], [TK_NOT], [TK_NULL]]),
   (NT_expr, [[NT_expr], [TK_IS], [NT_expr]]),
   (NT_expr, [[NT_expr], [TK_IS], [TK_NOT], [NT_expr]]),
   (NT_expr, [[NT_expr], [TK_IS], [TK_NOT], [TK_DISTINCT], [TK_FROM], [NT_expr]]),
   (NT_expr, [[NT_expr], [TK_IS], [TK_DISTINCT], [TK_FROM], [NT_expr]]),
   (NT_expr, [[TK_NOT], [NT_expr]]),
   (NT_expr, [[TK_BITNOT], [NT_expr]]),
   (NT_expr, [[TK_PLUS, TK_MINUS], [NT_expr]]),
   (NT_expr, [[NT_expr], [TK_PTR], [NT_expr]]),
   (NT_between_op, [[TK_BETWEEN]]),
   (NT_between_op, [[TK_NOT], [TK_BETWEEN]]),
   (NT_expr, [[NT_expr], [NT_between_op], [NT_expr], [TK_AND], [NT_expr]]),
   (NT_in_op, [[TK_IN]]),
   (NT_in_op, [[TK_NOT], [TK_IN]]),
   (NT_expr, [[NT_expr], [NT_in_op], [TK_LP], [NT_exprlist], [TK_RP]]),
   (NT_expr, [[TK_LP], [NT_select], [TK_RP]]),
   (NT_expr, [[NT_expr], [NT_in_op], [TK_LP], [NT_select], [TK_RP]]),
   (NT_expr, [[NT_expr], [NT_in_op], [NT_nm], [NT_dbnm], [NT_paren_exprlist]]),
   (NT_expr, [[TK_EXISTS], [TK_LP], [NT_select], [TK_RP]]),
   (NT_expr, [[TK_CASE], [NT_case_operand], [NT_case_exprlist], [NT_case_else], [TK_END]]),
   (NT_case_exprlist, [[NT_case_exprlist], [TK_WHEN], [NT_expr], [TK_THEN], [NT_expr]]),
   (NT_case_exprlist, [[TK_WHEN], [NT_expr], [TK_THEN], [NT_expr]]),
   (NT_case_else, [[TK_ELSE], [NT_expr]]),
   (NT_case_else, []),
   (NT_case_operand, []),
   (NT_exprlist, []),
   (NT_nexprlist, [[NT_nexprlist], [TK_COMMA], [NT_expr]]),
   (NT_nexprlist, [[NT_expr]]),
   (NT_paren_exprlist, []),
   (NT_paren_exprlist, [[TK_LP], [NT_exprlist], [TK_RP]]),
   (NT_cmd, [[NT_createkw], [NT_uniqueflag], [TK_INDEX], [NT_ifnotexists], [NT_nm], [NT_dbnm], [TK_ON], [NT_nm], [TK_LP], [NT_sortlist], [TK_RP], [NT_where_opt]]),
   (NT_uniqueflag, [[TK_UNIQUE]]),
   (NT_uniqueflag, []),
   (NT_eidlist_opt, []),
   (NT_eidlist_opt, [[TK_LP], [NT_eidlist], [TK_RP]]),
   (NT_eidlist, [[NT_eidlist], [TK_COMMA], [NT_nm], [NT_collate], [NT_sortorder]]),
   (NT_eidlist, [[NT_nm], [NT_collate], [NT_sortorder]]),
   (NT_collate, []),
   (NT_collate, [[TK_COLLATE], [TK_ID, TK_STRING]]),
   (NT_cmd, [[TK_DROP], [TK_INDEX], [NT_ifexists], [NT_fullname]]),
   (NT_cmd, [[TK_VACUUM], [NT_vinto]]),
   (NT_cmd, [[TK_VACUUM], [NT_nm], [NT_vinto]]),
   (NT_vinto, [[TK_INTO], [NT_expr]]),
   (NT_vinto, []),
   (NT_cmd, [[TK_PRAGMA], [NT_nm], [NT_dbnm]])]"

definition grammar_250 :: "rule list" where [table_defs]:
  "grammar_250 =
  [(NT_cmd, [[TK_PRAGMA], [NT_nm], [NT_dbnm], [TK_EQ], [NT_nmnum]]),
   (NT_cmd, [[TK_PRAGMA], [NT_nm], [NT_dbnm], [TK_LP], [NT_nmnum], [TK_RP]]),
   (NT_cmd, [[TK_PRAGMA], [NT_nm], [NT_dbnm], [TK_EQ], [NT_minus_num]]),
   (NT_cmd, [[TK_PRAGMA], [NT_nm], [NT_dbnm], [TK_LP], [NT_minus_num], [TK_RP]]),
   (NT_plus_num, [[TK_PLUS], [TK_INTEGER, TK_FLOAT]]),
   (NT_minus_num, [[TK_MINUS], [TK_INTEGER, TK_FLOAT]]),
   (NT_cmd, [[NT_createkw], [NT_trigger_decl], [TK_BEGIN], [NT_trigger_cmd_list], [TK_END]]),
   (NT_trigger_decl, [[NT_temp], [TK_TRIGGER], [NT_ifnotexists], [NT_nm], [NT_dbnm], [NT_trigger_time], [NT_trigger_event], [TK_ON], [NT_fullname], [NT_foreach_clause], [NT_when_clause]]),
   (NT_trigger_time, [[TK_BEFORE, TK_AFTER]]),
   (NT_trigger_time, [[TK_INSTEAD], [TK_OF]]),
   (NT_trigger_time, []),
   (NT_trigger_event, [[TK_DELETE, TK_INSERT]]),
   (NT_trigger_event, [[TK_UPDATE]]),
   (NT_trigger_event, [[TK_UPDATE], [TK_OF], [NT_idlist]]),
   (NT_when_clause, []),
   (NT_when_clause, [[TK_WHEN], [NT_expr]]),
   (NT_trigger_cmd_list, [[NT_trigger_cmd_list], [NT_trigger_cmd], [TK_SEMI]]),
   (NT_trigger_cmd_list, [[NT_trigger_cmd], [TK_SEMI]]),
   (NT_trnm, [[NT_nm], [TK_DOT], [NT_nm]]),
   (NT_tridxby, [[TK_INDEXED], [TK_BY], [NT_nm]]),
   (NT_tridxby, [[TK_NOT], [TK_INDEXED]]),
   (NT_trigger_cmd, [[TK_UPDATE], [NT_orconf], [NT_trnm], [NT_tridxby], [TK_SET], [NT_setlist], [NT_from], [NT_where_opt], [NT_scanpt]]),
   (NT_trigger_cmd, [[NT_scanpt], [NT_insert_cmd], [TK_INTO], [NT_trnm], [NT_idlist_opt], [NT_select], [NT_upsert], [NT_scanpt]]),
   (NT_trigger_cmd, [[TK_DELETE], [TK_FROM], [NT_trnm], [NT_tridxby], [NT_where_opt], [NT_scanpt]]),
   (NT_trigger_cmd, [[NT_scanpt], [NT_select], [NT_scanpt]]),
   (NT_expr, [[TK_RAISE], [TK_LP], [TK_IGNORE], [TK_RP]]),
   (NT_expr, [[TK_RAISE], [TK_LP], [NT_raisetype], [TK_COMMA], [NT_nm], [TK_RP]]),
   (NT_raisetype, [[TK_ROLLBACK]]),
   (NT_raisetype, [[TK_ABORT]]),
   (NT_raisetype, [[TK_FAIL]]),
   (NT_cmd, [[TK_DROP], [TK_TRIGGER], [NT_ifexists], [NT_fullname]]),
   (NT_cmd, [[TK_ATTACH], [NT_database_kw_opt], [NT_expr], [TK_AS], [NT_expr], [NT_key_opt]]),
   (NT_cmd, [[TK_DETACH], [NT_database_kw_opt], [NT_expr]]),
   (NT_key_opt, []),
   (NT_key_opt, [[TK_KEY], [NT_expr]]),
   (NT_cmd, [[TK_REINDEX]]),
   (NT_cmd, [[TK_REINDEX], [NT_nm], [NT_dbnm]]),
   (NT_cmd, [[TK_ANALYZE]]),
   (NT_cmd, [[TK_ANALYZE], [NT_nm], [NT_dbnm]]),
   (NT_cmd, [[TK_ALTER], [TK_TABLE], [NT_fullname], [TK_RENAME], [TK_TO], [NT_nm]]),
   (NT_cmd, [[TK_ALTER], [TK_TABLE], [NT_add_column_fullname], [TK_ADD], [NT_kwcolumn_opt], [NT_columnname], [NT_carglist]]),
   (NT_cmd, [[TK_ALTER], [TK_TABLE], [NT_fullname], [TK_DROP], [NT_kwcolumn_opt], [NT_nm]]),
   (NT_add_column_fullname, [[NT_fullname]]),
   (NT_cmd, [[TK_ALTER], [TK_TABLE], [NT_fullname], [TK_RENAME], [NT_kwcolumn_opt], [NT_nm], [TK_TO], [NT_nm]]),
   (NT_cmd, [[NT_create_vtab]]),
   (NT_cmd, [[NT_create_vtab], [TK_LP], [NT_vtabarglist], [TK_RP]]),
   (NT_create_vtab, [[NT_createkw], [TK_VIRTUAL], [TK_TABLE], [NT_ifnotexists], [NT_nm], [NT_dbnm], [TK_USING], [NT_nm]]),
   (NT_vtabarg, []),
   (NT_vtabargtoken, [[TK_ANY]]),
   (NT_vtabargtoken, [[NT_lp], [NT_anylist], [TK_RP]])]"

definition grammar_300 :: "rule list" where [table_defs]:
  "grammar_300 =
  [(NT_lp, [[TK_LP]]),
   (NT_with, [[TK_WITH], [NT_wqlist]]),
   (NT_with, [[TK_WITH], [TK_RECURSIVE], [NT_wqlist]]),
   (NT_wqas, [[TK_AS]]),
   (NT_wqas, [[TK_AS], [TK_MATERIALIZED]]),
   (NT_wqas, [[TK_AS], [TK_NOT], [TK_MATERIALIZED]]),
   (NT_wqitem, [[NT_nm], [NT_eidlist_opt], [NT_wqas], [TK_LP], [NT_select], [TK_RP]]),
   (NT_wqlist, [[NT_wqitem]]),
   (NT_wqlist, [[NT_wqlist], [TK_COMMA], [NT_wqitem]]),
   (NT_windowdefn_list, [[NT_windowdefn]]),
   (NT_windowdefn_list, [[NT_windowdefn_list], [TK_COMMA], [NT_windowdefn]]),
   (NT_windowdefn, [[NT_nm], [TK_AS], [TK_LP], [NT_window], [TK_RP]]),
   (NT_window, [[TK_PARTITION], [TK_BY], [NT_nexprlist], [NT_orderby_opt], [NT_frame_opt]]),
   (NT_window, [[NT_nm], [TK_PARTITION], [TK_BY], [NT_nexprlist], [NT_orderby_opt], [NT_frame_opt]]),
   (NT_window, [[TK_ORDER], [TK_BY], [NT_sortlist], [NT_frame_opt]]),
   (NT_window, [[NT_nm], [TK_ORDER], [TK_BY], [NT_sortlist], [NT_frame_opt]]),
   (NT_window, [[NT_frame_opt]]),
   (NT_window, [[NT_nm], [NT_frame_opt]]),
   (NT_frame_opt, []),
   (NT_frame_opt, [[NT_range_or_rows], [NT_frame_bound_s], [NT_frame_exclude_opt]]),
   (NT_frame_opt, [[NT_range_or_rows], [TK_BETWEEN], [NT_frame_bound_s], [TK_AND], [NT_frame_bound_e], [NT_frame_exclude_opt]]),
   (NT_range_or_rows, [[TK_RANGE, TK_ROWS, TK_GROUPS]]),
   (NT_frame_bound_s, [[NT_frame_bound]]),
   (NT_frame_bound_s, [[TK_UNBOUNDED], [TK_PRECEDING]]),
   (NT_frame_bound_e, [[NT_frame_bound]]),
   (NT_frame_bound_e, [[TK_UNBOUNDED], [TK_FOLLOWING]]),
   (NT_frame_bound, [[NT_expr], [TK_PRECEDING, TK_FOLLOWING]]),
   (NT_frame_bound, [[TK_CURRENT], [TK_ROW]]),
   (NT_frame_exclude_opt, []),
   (NT_frame_exclude_opt, [[TK_EXCLUDE], [NT_frame_exclude]]),
   (NT_frame_exclude, [[TK_NO], [TK_OTHERS]]),
   (NT_frame_exclude, [[TK_CURRENT], [TK_ROW]]),
   (NT_frame_exclude, [[TK_GROUP, TK_TIES]]),
   (NT_window_clause, [[TK_WINDOW], [NT_windowdefn_list]]),
   (NT_filter_over, [[NT_filter_clause], [NT_over_clause]]),
   (NT_filter_over, [[NT_over_clause]]),
   (NT_filter_over, [[NT_filter_clause]]),
   (NT_over_clause, [[TK_OVER], [TK_LP], [NT_window], [TK_RP]]),
   (NT_over_clause, [[TK_OVER], [NT_nm]]),
   (NT_filter_clause, [[TK_FILTER], [TK_LP], [TK_WHERE], [NT_expr], [TK_RP]]),
   (NT_input, [[NT_cmdlist]]),
   (NT_cmdlist, [[NT_cmdlist], [NT_ecmd]]),
   (NT_cmdlist, [[NT_ecmd]]),
   (NT_ecmd, [[TK_SEMI]]),
   (NT_ecmd, [[NT_cmdx], [TK_SEMI]]),
   (NT_ecmd, [[NT_explain], [NT_cmdx], [TK_SEMI]]),
   (NT_trans_opt, []),
   (NT_trans_opt, [[TK_TRANSACTION]]),
   (NT_trans_opt, [[TK_TRANSACTION], [NT_nm]]),
   (NT_savepoint_opt, [[TK_SAVEPOINT]])]"

definition grammar_350 :: "rule list" where [table_defs]:
  "grammar_350 =
  [(NT_savepoint_opt, []),
   (NT_cmd, [[NT_create_table], [NT_create_table_args]]),
   (NT_table_option_set, [[NT_table_option]]),
   (NT_columnlist, [[NT_columnlist], [TK_COMMA], [NT_columnname], [NT_carglist]]),
   (NT_columnlist, [[NT_columnname], [NT_carglist]]),
   (NT_nm, [[TK_ID, TK_INDEXED, TK_JOIN_KW]]),
   (NT_nm, [[TK_STRING]]),
   (NT_typetoken, [[NT_typename]]),
   (NT_typename, [[TK_ID, TK_STRING]]),
   (NT_signed, [[NT_plus_num]]),
   (NT_signed, [[NT_minus_num]]),
   (NT_carglist, [[NT_carglist], [NT_ccons]]),
   (NT_carglist, []),
   (NT_ccons, [[TK_NULL], [NT_onconf]]),
   (NT_ccons, [[TK_GENERATED], [TK_ALWAYS], [TK_AS], [NT_generated]]),
   (NT_ccons, [[TK_AS], [NT_generated]]),
   (NT_conslist_opt, [[TK_COMMA], [NT_conslist]]),
   (NT_conslist, [[NT_conslist], [NT_tconscomma], [NT_tcons]]),
   (NT_conslist, [[NT_tcons]]),
   (NT_tconscomma, []),
   (NT_defer_subclause_opt, [[NT_defer_subclause]]),
   (NT_resolvetype, [[NT_raisetype]]),
   (NT_selectnowith, [[NT_oneselect]]),
   (NT_oneselect, [[NT_values]]),
   (NT_sclp, [[NT_selcollist], [TK_COMMA]]),
   (NT_as, [[TK_ID, TK_STRING]]),
   (NT_indexed_opt, [[NT_indexed_by]]),
   (NT_returning, []),
   (NT_expr, [[NT_term]]),
   (NT_likeop, [[TK_LIKE_KW, TK_MATCH]]),
   (NT_case_operand, [[NT_expr]]),
   (NT_exprlist, [[NT_nexprlist]]),
   (NT_nmnum, [[NT_plus_num]]),
   (NT_nmnum, [[NT_nm]]),
   (NT_nmnum, [[TK_ON]]),
   (NT_nmnum, [[TK_DELETE]]),
   (NT_nmnum, [[TK_DEFAULT]]),
   (NT_plus_num, [[TK_INTEGER, TK_FLOAT]]),
   (NT_foreach_clause, []),
   (NT_foreach_clause, [[TK_FOR], [TK_EACH], [TK_ROW]]),
   (NT_trnm, [[NT_nm]]),
   (NT_tridxby, []),
   (NT_database_kw_opt, [[TK_DATABASE]]),
   (NT_database_kw_opt, []),
   (NT_kwcolumn_opt, []),
   (NT_kwcolumn_opt, [[TK_COLUMNKW]]),
   (NT_vtabarglist, [[NT_vtabarg]]),
   (NT_vtabarglist, [[NT_vtabarglist], [TK_COMMA], [NT_vtabarg]]),
   (NT_vtabarg, [[NT_vtabarg], [NT_vtabargtoken]]),
   (NT_anylist, [])]"

definition grammar_400 :: "rule list" where [table_defs]:
  "grammar_400 =
  [(NT_anylist, [[NT_anylist], [TK_LP], [NT_anylist], [TK_RP]]),
   (NT_anylist, [[NT_anylist], [TK_ANY]]),
   (NT_with, [])]"

definition grammar :: "rule list" where
  "grammar = grammar_0 @ grammar_50 @ grammar_100 @ grammar_150 @ grammar_200 @ grammar_250 @ grammar_300 @ grammar_350 @ grammar_400"

lemma grammar_lengths:
  "length grammar_0 = 50"
  "length grammar_50 = 50"
  "length grammar_100 = 50"
  "length grammar_150 = 50"
  "length grammar_200 = 50"
  "length grammar_250 = 50"
  "length grammar_300 = 50"
  "length grammar_350 = 50"
  "length grammar_400 = 3"
  by (simp_all add: table_defs)

lemma length_grammar [simp]: "length grammar = 403"
  by (simp add: grammar_def grammar_lengths)

lemma grammar_0_nth:
  "map ((!) grammar) [0..<50] = grammar_0"
  by (rule window_nth [where p = "[]" and q = "grammar_50 @ grammar_100 @ grammar_150 @ grammar_200 @ grammar_250 @ grammar_300 @ grammar_350 @ grammar_400"])
    (simp_all add: grammar_def grammar_lengths)

lemma grammar_50_nth:
  "map ((!) grammar) [50..<100] = grammar_50"
  by (rule window_nth [where p = "grammar_0" and q = "grammar_100 @ grammar_150 @ grammar_200 @ grammar_250 @ grammar_300 @ grammar_350 @ grammar_400"])
    (simp_all add: grammar_def grammar_lengths)

lemma grammar_100_nth:
  "map ((!) grammar) [100..<150] = grammar_100"
  by (rule window_nth [where p = "grammar_0 @ grammar_50" and q = "grammar_150 @ grammar_200 @ grammar_250 @ grammar_300 @ grammar_350 @ grammar_400"])
    (simp_all add: grammar_def grammar_lengths)

lemma grammar_150_nth:
  "map ((!) grammar) [150..<200] = grammar_150"
  by (rule window_nth [where p = "grammar_0 @ grammar_50 @ grammar_100" and q = "grammar_200 @ grammar_250 @ grammar_300 @ grammar_350 @ grammar_400"])
    (simp_all add: grammar_def grammar_lengths)

lemma grammar_200_nth:
  "map ((!) grammar) [200..<250] = grammar_200"
  by (rule window_nth [where p = "grammar_0 @ grammar_50 @ grammar_100 @ grammar_150" and q = "grammar_250 @ grammar_300 @ grammar_350 @ grammar_400"])
    (simp_all add: grammar_def grammar_lengths)

lemma grammar_250_nth:
  "map ((!) grammar) [250..<300] = grammar_250"
  by (rule window_nth [where p = "grammar_0 @ grammar_50 @ grammar_100 @ grammar_150 @ grammar_200" and q = "grammar_300 @ grammar_350 @ grammar_400"])
    (simp_all add: grammar_def grammar_lengths)

lemma grammar_300_nth:
  "map ((!) grammar) [300..<350] = grammar_300"
  by (rule window_nth [where p = "grammar_0 @ grammar_50 @ grammar_100 @ grammar_150 @ grammar_200 @ grammar_250" and q = "grammar_350 @ grammar_400"])
    (simp_all add: grammar_def grammar_lengths)

lemma grammar_350_nth:
  "map ((!) grammar) [350..<400] = grammar_350"
  by (rule window_nth [where p = "grammar_0 @ grammar_50 @ grammar_100 @ grammar_150 @ grammar_200 @ grammar_250 @ grammar_300" and q = "grammar_400"])
    (simp_all add: grammar_def grammar_lengths)

lemma grammar_400_nth:
  "map ((!) grammar) [400..<403] = grammar_400"
  by (rule window_nth [where p = "grammar_0 @ grammar_50 @ grammar_100 @ grammar_150 @ grammar_200 @ grammar_250 @ grammar_300 @ grammar_350" and q = "[]"])
    (simp_all add: grammar_def grammar_lengths)

section \<open>The rules and their texts\<close>

fun choice_text :: "nat list \<Rightarrow> string" where
  "choice_text [] = []"
| "choice_text [x] = yyTokenName ! x"
| "choice_text (x # y # ys) = yyTokenName ! x @ ''|'' @ choice_text (y # ys)"

fun rhs_text :: "nat list list \<Rightarrow> string" where
  "rhs_text [] = []"
| "rhs_text (c # cs) = '' '' @ choice_text c @ rhs_text cs"

definition rule_text :: "rule \<Rightarrow> string" where
  "rule_text r = yyTokenName ! fst r @ '' ::='' @ rhs_text (snd r)"

lemmas token_name_windows = yyTokenName_0_nth yyTokenName_64_nth yyTokenName_128_nth yyTokenName_192_nth yyTokenName_256_nth

lemmas yyTokenName_0_names = yyTokenName_0_nth [unfolded yyTokenName_0_def, simplified upt_from_0, simplified]

lemmas yyTokenName_64_names = yyTokenName_64_nth [unfolded yyTokenName_64_def, simplified upt_from_0, simplified]

lemmas yyTokenName_128_names = yyTokenName_128_nth [unfolded yyTokenName_128_def, simplified upt_from_0, simplified]

lemmas yyTokenName_192_names = yyTokenName_192_nth [unfolded yyTokenName_192_def, simplified upt_from_0, simplified]

lemmas yyTokenName_256_names = yyTokenName_256_nth [unfolded yyTokenName_256_def, simplified upt_from_0, simplified]

lemmas token_names = yyTokenName_0_names yyTokenName_64_names yyTokenName_128_names yyTokenName_192_names yyTokenName_256_names

lemma grammar_0_text: "map rule_text grammar_0 = yyRuleName_0"
  by (simp add: grammar_0_def yyRuleName_0_def rule_text_def symbol_defs token_names)

lemma grammar_50_text: "map rule_text grammar_50 = yyRuleName_50"
  by (simp add: grammar_50_def yyRuleName_50_def rule_text_def symbol_defs token_names)

lemma grammar_100_text: "map rule_text grammar_100 = yyRuleName_100"
  by (simp add: grammar_100_def yyRuleName_100_def rule_text_def symbol_defs token_names)

lemma grammar_150_text: "map rule_text grammar_150 = yyRuleName_150"
  by (simp add: grammar_150_def yyRuleName_150_def rule_text_def symbol_defs token_names)

lemma grammar_200_text: "map rule_text grammar_200 = yyRuleName_200"
  by (simp add: grammar_200_def yyRuleName_200_def rule_text_def symbol_defs token_names)

lemma grammar_250_text: "map rule_text grammar_250 = yyRuleName_250"
  by (simp add: grammar_250_def yyRuleName_250_def rule_text_def symbol_defs token_names)

lemma grammar_300_text: "map rule_text grammar_300 = yyRuleName_300"
  by (simp add: grammar_300_def yyRuleName_300_def rule_text_def symbol_defs token_names)

lemma grammar_350_text: "map rule_text grammar_350 = yyRuleName_350"
  by (simp add: grammar_350_def yyRuleName_350_def rule_text_def symbol_defs token_names)

lemma grammar_400_text: "map rule_text grammar_400 = yyRuleName_400"
  by (simp add: grammar_400_def yyRuleName_400_def rule_text_def symbol_defs token_names)


lemma grammar_0_info: "map fst grammar_0 = yyRuleInfoLhs_0" "map (\<lambda>r. - int (length (snd r))) grammar_0 = yyRuleInfoNRhs_0"
  by (simp_all add: grammar_0_def yyRuleInfoLhs_0_def yyRuleInfoNRhs_0_def symbol_defs)

lemma grammar_50_info: "map fst grammar_50 = yyRuleInfoLhs_50" "map (\<lambda>r. - int (length (snd r))) grammar_50 = yyRuleInfoNRhs_50"
  by (simp_all add: grammar_50_def yyRuleInfoLhs_50_def yyRuleInfoNRhs_50_def symbol_defs)

lemma grammar_100_info: "map fst grammar_100 = yyRuleInfoLhs_100" "map (\<lambda>r. - int (length (snd r))) grammar_100 = yyRuleInfoNRhs_100"
  by (simp_all add: grammar_100_def yyRuleInfoLhs_100_def yyRuleInfoNRhs_100_def symbol_defs)

lemma grammar_150_info: "map fst grammar_150 = yyRuleInfoLhs_150" "map (\<lambda>r. - int (length (snd r))) grammar_150 = yyRuleInfoNRhs_150"
  by (simp_all add: grammar_150_def yyRuleInfoLhs_150_def yyRuleInfoNRhs_150_def symbol_defs)

lemma grammar_200_info: "map fst grammar_200 = yyRuleInfoLhs_200" "map (\<lambda>r. - int (length (snd r))) grammar_200 = yyRuleInfoNRhs_200"
  by (simp_all add: grammar_200_def yyRuleInfoLhs_200_def yyRuleInfoNRhs_200_def symbol_defs)

lemma grammar_250_info: "map fst grammar_250 = yyRuleInfoLhs_250" "map (\<lambda>r. - int (length (snd r))) grammar_250 = yyRuleInfoNRhs_250"
  by (simp_all add: grammar_250_def yyRuleInfoLhs_250_def yyRuleInfoNRhs_250_def symbol_defs)

lemma grammar_300_info: "map fst grammar_300 = yyRuleInfoLhs_300" "map (\<lambda>r. - int (length (snd r))) grammar_300 = yyRuleInfoNRhs_300"
  by (simp_all add: grammar_300_def yyRuleInfoLhs_300_def yyRuleInfoNRhs_300_def symbol_defs)

lemma grammar_350_info: "map fst grammar_350 = yyRuleInfoLhs_350" "map (\<lambda>r. - int (length (snd r))) grammar_350 = yyRuleInfoNRhs_350"
  by (simp_all add: grammar_350_def yyRuleInfoLhs_350_def yyRuleInfoNRhs_350_def symbol_defs)

lemma grammar_400_info: "map fst grammar_400 = yyRuleInfoLhs_400" "map (\<lambda>r. - int (length (snd r))) grammar_400 = yyRuleInfoNRhs_400"
  by (simp_all add: grammar_400_def yyRuleInfoLhs_400_def yyRuleInfoNRhs_400_def symbol_defs)

lemma grammar_info: "map fst grammar = yyRuleInfoLhs" "map (\<lambda>r. - int (length (snd r))) grammar = yyRuleInfoNRhs"
  by (simp_all add: grammar_def yyRuleInfoLhs_def yyRuleInfoNRhs_def grammar_0_info grammar_50_info grammar_100_info grammar_150_info grammar_200_info grammar_250_info grammar_300_info grammar_350_info grammar_400_info)

end
