(* ===== verification/SqCert.thy ===== *)
theory SqCert
  imports SqGrammar
begin

text \<open>
  What is known of the stack in each state of the parser, as data, and the checks that make it
  an invariant. \<open>items s\<close> lists pairs of a rule and a position: whenever the state is on top,
  the entries below it match that rule up to that position. \<open>rank\<close> bounds the reductions that
  are to come. The two indexes list the states by their offset in the tables, so that every
  entry of the action table is looked at once.
\<close>

section \<open>Items\<close>

definition item_table_0 :: "(nat \<times> nat) list list" where [table_defs]:
  "item_table_0 = [
   [], [(340, 1), (341, 1)], [(345, 1)], [(219, 3), (221, 3)],
   [(177, 1), (192, 1), (220, 1)], [(112, 2), (113, 2)], [(319, 1), (320, 1)], [(320, 4)],
   [(320, 2)], [(111, 4)], [(234, 1)], [(187, 3), (189, 3)], [(272, 1), (274, 1)],
   [(135, 1), (185, 1), (193, 1), (194, 1), (195, 1), (196, 1), (197, 1), (198, 1), (199, 1), (200, 1), (202, 1), (203, 1), (204, 1), (205, 1), (206, 1), (207, 1), (208, 1), (209, 1), (213, 1), (216, 1), (219, 1), (221, 1), (222, 1)],
   [(134, 3), (185, 1), (193, 1), (194, 1), (195, 1), (196, 1), (197, 1), (198, 1), (199, 1), (200, 1), (202, 1), (203, 1), (204, 1), (205, 1), (206, 1), (207, 1), (208, 1), (209, 1), (213, 1), (216, 1), (219, 1), (221, 1), (222, 1)],
   [(185, 1), (193, 1), (194, 1), (195, 1), (196, 1), (197, 1), (198, 1), (199, 1), (200, 1), (202, 1), (203, 1), (204, 1), (205, 1), (206, 1), (207, 1), (208, 1), (209, 1), (213, 1), (216, 1), (219, 1), (221, 1), (222, 1), (281, 5)],
   [(100, 3), (185, 1), (193, 1), (194, 1), (195, 1), (196, 1), (197, 1), (198, 1), (199, 1), (200, 1), (202, 1), (203, 1), (204, 1), (205, 1), (206, 1), (207, 1), (208, 1), (209, 1), (213, 1), (216, 1), (219, 1), (221, 1), (222, 1)],
   [(166, 3), (167, 3)], [(235, 9)], [(69, 2)], [(68, 3)], [(143, 2)], [(314, 2)],
   [(315, 3)], [(313, 3)], [(312, 2)], [(133, 2)], [(224, 1)], [(94, 2)], [(95, 3)],
   [(251, 4), (253, 4)], [(250, 4), (252, 4)], [(337, 2)], [(311, 3)], [(353, 2), (366, 1)],
   [(162, 5), (163, 5)], [(272, 5)], [(82, 8)], [(20, 1)], [(306, 4)], [(223, 2)],
   [(185, 1), (193, 1), (194, 1), (195, 1), (196, 1), (197, 1), (198, 1), (199, 1), (200, 1), (202, 1), (203, 1), (204, 1), (205, 1), (206, 1), (207, 1), (208, 1), (209, 1), (213, 1), (216, 1), (219, 1), (221, 1), (222, 1), (326, 1)],
   [(147, 2), (148, 2), (149, 2), (185, 1), (193, 1), (194, 1), (195, 1), (196, 1), (197, 1), (198, 1), (199, 1), (200, 1), (202, 1), (203, 1), (204, 1), (205, 1), (206, 1), (207, 1), (208, 1), (209, 1), (213, 1), (216, 1), (219, 1), (221, 1), (222, 1)],
   [(185, 1), (193, 1), (194, 1), (195, 1), (196, 1), (197, 1), (198, 1), (199, 1), (200, 1), (202, 1), (203, 1), (204, 1), (205, 1), (206, 1), (207, 1), (208, 1), (209, 1), (213, 1), (216, 1), (219, 1), (221, 1), (222, 1), (281, 3)],
   [(154, 2), (156, 2), (185, 1), (193, 1), (194, 1), (195, 1), (196, 1), (197, 1), (198, 1), (199, 1), (200, 1), (202, 1), (203, 1), (204, 1), (205, 1), (206, 1), (207, 1), (208, 1), (209, 1), (213, 1), (216, 1), (219, 1), (221, 1), (222, 1)],
   [(70, 3), (185, 1), (193, 1), (194, 1), (195, 1), (196, 1), (197, 1), (198, 1), (199, 1), (200, 1), (202, 1), (203, 1), (204, 1), (205, 1), (206, 1), (207, 1), (208, 1), (209, 1), (213, 1), (216, 1), (219, 1), (221, 1), (222, 1)],
   [(45, 2), (46, 2), (185, 1), (193, 1), (194, 1), (195, 1), (196, 1), (197, 1), (198, 1), (199, 1), (200, 1), (202, 1), (203, 1), (204, 1), (205, 1), (206, 1), (207, 1), (208, 1), (209, 1), (213, 1), (216, 1), (219, 1), (221, 1), (222, 1)],
   [(41, 3), (185, 1), (193, 1), (194, 1), (195, 1), (196, 1), (197, 1), (198, 1), (199, 1), (200, 1), (202, 1), (203, 1), (204, 1), (205, 1), (206, 1), (207, 1), (208, 1), (209, 1), (213, 1), (216, 1), (219, 1), (221, 1), (222, 1)],
   [(34, 3), (185, 1), (193, 1), (194, 1), (195, 1), (196, 1), (197, 1), (198, 1), (199, 1), (200, 1), (202, 1), (203, 1), (204, 1), (205, 1), (206, 1), (207, 1), (208, 1), (209, 1), (213, 1), (216, 1), (219, 1), (221, 1), (222, 1)],
   [(185, 1), (193, 1), (194, 1), (195, 1), (196, 1), (197, 1), (198, 1), (199, 1), (200, 1), (202, 1), (203, 1), (204, 1), (205, 1), (206, 1), (207, 1), (208, 1), (209, 1), (213, 1), (216, 1), (219, 1), (221, 1), (222, 1), (339, 4)],
   [(185, 1), (192, 4), (193, 1), (194, 1), (195, 1), (196, 1), (197, 1), (198, 1), (199, 1), (200, 1), (202, 1), (203, 1), (204, 1), (205, 1), (206, 1), (207, 1), (208, 1), (209, 1), (213, 1), (216, 1), (219, 1), (221, 1), (222, 1), (231, 3)],
   [(177, 2), (185, 1), (193, 1), (194, 1), (195, 1), (196, 1), (197, 1), (198, 1), (199, 1), (200, 1), (202, 1), (203, 1), (204, 1), (205, 1), (206, 1), (207, 1), (208, 1), (209, 1), (213, 1), (216, 1), (219, 1), (221, 1), (222, 1), (232, 1)],
   [(185, 1), (193, 1), (194, 1), (195, 1), (196, 1), (197, 1), (198, 1), (199, 1), (200, 1), (202, 1), (203, 1), (204, 1), (205, 1), (206, 1), (207, 1), (208, 1), (209, 1), (213, 1), (216, 1), (219, 1), (221, 1), (222, 1), (226, 2)],
   [(185, 1), (193, 1), (194, 1), (195, 1), (196, 1), (197, 1), (198, 1), (199, 1), (200, 1), (202, 1), (203, 1), (204, 1), (205, 1), (206, 1), (207, 1), (208, 1), (209, 1), (213, 1), (216, 1), (219, 1), (221, 1), (222, 1), (225, 3)],
   [(185, 1), (186, 3), (193, 1), (194, 1), (195, 1), (196, 1), (197, 1), (198, 1), (199, 1), (200, 1), (202, 1), (203, 1), (204, 1), (205, 1), (206, 1), (207, 1), (208, 1), (209, 1), (213, 1), (216, 1), (219, 1), (221, 1), (222, 1)],
   [(185, 1), (193, 1), (194, 1), (195, 1), (196, 1), (197, 1), (198, 1), (199, 1), (200, 1), (202, 1), (203, 1), (204, 1), (205, 1), (206, 1), (207, 1), (208, 1), (209, 1), (213, 1), (216, 1), (219, 1), (221, 1), (222, 1), (282, 3)],
   [(185, 1), (193, 1), (194, 1), (195, 1), (196, 1), (197, 1), (198, 1), (199, 1), (200, 1), (202, 1), (203, 1), (204, 1), (205, 1), (206, 1), (207, 1), (208, 1), (209, 1), (213, 1), (216, 1), (219, 1), (221, 1), (222, 1), (284, 2)],
   [(185, 1), (193, 1), (194, 1), (195, 1), (196, 1), (197, 1), (198, 1), (199, 1), (200, 1), (202, 1), (203, 1), (204, 1), (205, 1), (206, 1), (207, 1), (208, 1), (209, 1), (213, 1), (216, 1), (219, 1), (221, 1), (222, 1), (247, 2)],
   [(161, 5), (185, 1), (193, 1), (194, 1), (195, 1), (196, 1), (197, 1), (198, 1), (199, 1), (200, 1), (202, 1), (203, 1), (204, 1), (205, 1), (206, 1), (207, 1), (208, 1), (209, 1), (213, 1), (216, 1), (219, 1), (221, 1), (222, 1)],
   [(160, 3), (185, 1), (193, 1), (194, 1), (195, 1), (196, 1), (197, 1), (198, 1), (199, 1), (200, 1), (202, 1), (203, 1), (204, 1), (205, 1), (206, 1), (207, 1), (208, 1), (209, 1), (213, 1), (216, 1), (219, 1), (221, 1), (222, 1)],
   [(159, 7), (185, 1), (193, 1), (194, 1), (195, 1), (196, 1), (197, 1), (198, 1), (199, 1), (200, 1), (202, 1), (203, 1), (204, 1), (205, 1), (206, 1), (207, 1), (208, 1), (209, 1), (213, 1), (216, 1), (219, 1), (221, 1), (222, 1)],
   [(158, 5), (185, 1), (193, 1), (194, 1), (195, 1), (196, 1), (197, 1), (198, 1), (199, 1), (200, 1), (202, 1), (203, 1), (204, 1), (205, 1), (206, 1), (207, 1), (208, 1), (209, 1), (213, 1), (216, 1), (219, 1), (221, 1), (222, 1)],
   [(185, 1), (193, 1), (194, 1), (195, 1), (196, 1), (197, 1), (198, 1), (199, 1), (200, 1), (202, 1), (203, 1), (204, 1), (205, 1), (206, 1), (207, 1), (208, 1), (209, 1), (213, 1), (216, 1), (219, 1), (221, 1), (222, 1), (265, 2)],
   [(126, 2), (185, 1), (193, 1), (194, 1), (195, 1), (196, 1), (197, 1), (198, 1), (199, 1), (200, 1), (202, 1), (203, 1), (204, 1), (205, 1), (206, 1), (207, 1), (208, 1), (209, 1), (213, 1), (216, 1), (219, 1), (221, 1), (222, 1)],
   [(152, 2), (185, 1), (193, 1), (194, 1), (195, 1), (196, 1), (197, 1), (198, 1), (199, 1), (200, 1), (202, 1), (203, 1), (204, 1), (205, 1), (206, 1), (207, 1), (208, 1), (209, 1), (213, 1), (216, 1), (219, 1), (221, 1), (222, 1)],
   [(145, 2), (185, 1), (193, 1), (194, 1), (195, 1), (196, 1), (197, 1), (198, 1), (199, 1), (200, 1), (202, 1), (203, 1), (204, 1), (205, 1), (206, 1), (207, 1), (208, 1), (209, 1), (213, 1), (216, 1), (219, 1), (221, 1), (222, 1)],
   [(149, 4), (185, 1), (193, 1), (194, 1), (195, 1), (196, 1), (197, 1), (198, 1), (199, 1), (200, 1), (202, 1), (203, 1), (204, 1), (205, 1), (206, 1), (207, 1), (208, 1), (209, 1), (213, 1), (216, 1), (219, 1), (221, 1), (222, 1)],
   [(185, 1), (193, 1), (194, 1), (195, 1), (196, 1), (197, 1), (198, 1), (199, 1), (200, 1), (202, 1), (203, 1), (204, 1), (205, 1), (206, 1), (207, 1), (208, 1), (209, 1), (213, 1), (216, 1), (219, 1), (221, 1), (222, 1), (226, 4)],
   [(185, 1), (193, 1), (194, 1), (195, 1), (196, 1), (197, 1), (198, 1), (199, 1), (200, 1), (202, 1), (203, 1), (204, 1), (205, 1), (206, 1), (207, 1), (208, 1), (209, 1), (213, 1), (216, 1), (219, 1), (221, 1), (222, 1), (227, 2)],
   [(185, 1), (193, 1), (194, 1), (195, 1), (196, 1), (197, 1), (198, 1), (199, 1), (200, 1), (202, 1), (203, 1), (204, 1), (205, 1), (206, 1), (207, 1), (208, 1), (209, 1), (213, 1), (216, 1), (219, 1), (221, 1), (222, 1), (225, 5)],
   [(185, 1), (193, 1), (194, 1), (195, 1), (196, 1), (197, 1), (198, 1), (199, 1), (200, 1), (202, 1), (203, 1), (204, 1), (205, 1), (206, 1), (207, 1), (208, 1), (209, 1), (213, 1), (216, 1), (219, 1), (221, 1), (222, 1), (380, 1)],
   [(185, 1), (193, 1), (194, 1), (195, 1), (196, 1), (197, 1), (198, 1), (199, 1), (200, 1), (202, 1), (203, 1), (204, 1), (205, 1), (206, 1), (207, 1), (208, 1), (209, 1), (213, 1), (216, 1), (219, 1), (221, 1), (222, 1), (232, 1)],
   [(185, 1), (193, 1), (194, 1), (195, 1), (196, 1), (197, 1), (198, 1), (199, 1), (200, 1), (202, 1), (203, 1), (204, 1), (205, 1), (206, 1), (207, 1), (208, 1), (209, 1), (213, 1), (216, 1), (219, 1), (221, 1), (222, 1), (231, 3)],
   [(185, 1), (194, 1), (195, 1), (196, 1), (197, 1), (198, 1), (199, 1), (200, 1), (202, 1), (203, 1), (204, 1), (205, 1), (206, 1), (207, 1), (208, 1), (209, 1), (213, 1), (216, 1), (216, 3), (219, 1), (221, 1), (222, 1)],
   [(148, 4), (185, 1), (193, 1), (194, 1), (195, 1), (196, 1), (197, 1), (198, 1), (199, 1), (200, 1), (202, 1), (203, 1), (204, 1), (205, 1), (206, 1), (207, 1), (208, 1), (209, 1), (213, 1), (216, 1), (219, 1), (221, 1), (222, 1)],
   [(185, 1), (193, 1), (194, 3), (195, 1), (196, 1), (197, 1), (198, 1), (199, 1), (200, 1), (202, 1), (203, 1), (204, 1), (205, 1), (206, 1), (207, 1), (208, 1), (209, 1), (213, 1), (216, 1), (219, 1), (221, 1), (222, 1)],
   [(185, 1), (195, 1), (196, 1), (197, 1), (198, 1), (199, 1), (200, 1), (202, 1), (203, 1), (204, 1), (205, 1), (206, 1), (207, 1), (208, 1), (209, 1), (210, 2), (213, 1), (216, 1), (219, 1), (221, 1), (222, 1)],
   [(185, 1), (193, 3), (195, 1), (196, 1), (197, 1), (198, 1), (199, 1), (200, 1), (202, 1), (203, 1), (204, 1), (205, 1), (206, 1), (207, 1), (208, 1), (209, 1), (213, 1), (216, 1), (219, 1), (221, 1), (222, 1)],
   [(100, 2), (101, 2), (102, 2)], [(207, 3), (208, 3)],
   [(206, 2), (207, 2), (208, 2), (209, 2)], [(282, 2)], [(284, 1)], [(281, 4)], [(281, 2)],
   [(247, 1)], [(154, 1), (156, 1)], [(161, 4)], [(160, 2)], [(159, 6)], [(158, 4)],
   [(265, 1)], [(70, 2)], [(45, 1), (46, 1)], [(41, 2)], [(339, 3)], [(192, 3), (231, 2)],
   [(126, 1)], [(152, 1)], [(145, 1)]]"

definition item_table_100 :: "(nat \<times> nat) list list" where [table_defs]:
  "item_table_100 = [
   [(134, 2)], [(149, 3)], [(209, 4)], [(208, 5)], [(226, 3)], [(226, 1)], [(227, 1)],
   [(225, 4)], [(225, 2)], [(212, 1)], [(211, 1)], [(210, 1)], [(186, 2)], [(231, 2)],
   [(216, 4)], [(216, 2)], [(213, 2)], [(203, 4)], [(202, 2), (203, 2)], [(200, 2)],
   [(199, 2)], [(198, 2)], [(197, 2)], [(196, 2)], [(195, 2)], [(194, 2)], [(193, 2)],
   [(148, 3)], [(147, 1), (148, 1), (149, 1)], [(34, 2)],
   [(185, 1), (195, 1), (197, 1), (198, 1), (199, 1), (200, 1), (202, 1), (202, 3), (203, 1), (203, 3), (213, 1), (216, 1), (219, 1), (221, 1), (222, 1)],
   [(185, 1), (195, 1), (197, 1), (198, 1), (199, 1), (200, 1), (202, 1), (203, 1), (209, 5), (213, 1), (216, 1), (219, 1), (221, 1), (222, 1)],
   [(185, 1), (195, 1), (197, 1), (198, 1), (199, 1), (200, 1), (202, 1), (203, 1), (208, 6), (213, 1), (216, 1), (219, 1), (221, 1), (222, 1)],
   [(185, 1), (195, 1), (197, 1), (198, 1), (199, 1), (200, 1), (202, 1), (203, 1), (207, 4), (213, 1), (216, 1), (219, 1), (221, 1), (222, 1)],
   [(185, 1), (195, 1), (197, 1), (198, 1), (199, 1), (200, 1), (202, 1), (203, 1), (213, 1), (216, 1), (216, 5), (219, 1), (221, 1), (222, 1)],
   [(185, 1), (195, 1), (197, 1), (198, 1), (199, 1), (200, 1), (202, 1), (203, 1), (206, 3), (213, 1), (216, 1), (219, 1), (221, 1), (222, 1)],
   [(185, 1), (195, 1), (197, 1), (198, 1), (199, 1), (200, 1), (202, 1), (203, 1), (203, 5), (213, 1), (216, 1), (219, 1), (221, 1), (222, 1)],
   [(185, 1), (195, 1), (196, 3), (197, 1), (198, 1), (199, 1), (200, 1), (202, 1), (203, 1), (213, 1), (216, 1), (219, 1), (221, 1), (222, 1)],
   [(185, 1), (195, 3), (197, 1), (198, 1), (199, 1), (200, 1), (202, 1), (203, 1), (213, 1), (216, 1), (219, 1), (221, 1), (222, 1)],
   [(185, 1), (197, 3), (198, 1), (199, 1), (200, 1), (202, 1), (203, 1), (213, 1), (216, 1), (219, 1), (221, 1), (222, 1)],
   [(185, 1), (198, 3), (199, 1), (200, 1), (202, 1), (203, 1), (213, 1), (216, 1), (219, 1), (221, 1), (222, 1)],
   [(85, 1), (86, 1), (301, 1), (302, 1)], [(85, 1), (86, 1)], [(19, 4)],
   [(289, 2), (290, 2), (291, 2), (293, 2)], [(86, 2), (302, 2)],
   [(13, 1), (82, 1), (235, 1), (256, 1), (296, 1)], [(50, 1), (71, 9)], [(86, 2)],
   [(333, 1)], [(28, 4)], [(27, 2), (28, 2)], [(19, 1)], [(86, 3), (302, 3), (308, 1)],
   [(85, 2), (301, 2), (308, 1)], [(86, 3), (308, 1)],
   [(185, 1), (199, 3), (200, 1), (202, 1), (203, 1), (213, 1), (216, 1), (219, 1), (221, 1), (222, 1)],
   [(85, 2), (308, 1)], [(256, 3)], [(188, 4), (190, 4)], [(187, 5), (189, 5)],
   [(185, 1), (202, 1), (203, 1), (213, 3), (216, 1), (219, 1), (221, 1), (222, 1)],
   [(185, 1), (200, 3), (202, 1), (203, 1), (216, 1), (219, 1), (221, 1), (222, 1)],
   [(202, 1), (203, 1), (212, 2), (216, 1), (219, 1), (221, 1), (222, 1)],
   [(202, 1), (203, 1), (211, 2), (216, 1), (219, 1), (221, 1), (222, 1)],
   [(290, 7), (361, 1)], [(354, 2), (361, 1)], [(353, 4), (361, 1)], [(245, 1), (246, 1)],
   [(157, 6)], [(169, 5)], [(166, 9)], [(271, 5)], [(76, 1)], [(74, 2)],
   [(313, 1), (315, 1), (317, 1)], [(22, 2)], [(396, 1), (398, 1)], [(397, 3), (398, 1)],
   [(290, 5)], [(162, 3), (163, 3)], [(157, 3)], [(150, 3)], [(280, 3)], [(244, 3)],
   [(83, 3)], [(79, 3)], [(273, 2)], [(174, 1)], [(272, 3)], [(161, 1)], [(159, 3)],
   [(271, 2)], [(263, 2)], [(257, 8)], [(71, 3)], [(239, 1)], [(308, 2)], [(127, 2)],
   [(109, 4), (110, 4)]]"

definition item_table_200 :: "(nat \<times> nat) list list" where [table_defs]:
  "item_table_200 = [
   [(134, 1), (314, 3)], [(134, 1), (315, 4)], [(310, 2)], [(256, 4), (266, 1)], [(313, 5)],
   [(312, 4)], [(157, 4)], [(150, 4)], [(25, 1)], [(186, 4)], [(92, 7), (93, 7)], [(88, 2)],
   [(295, 2)], [(155, 1)], [(156, 3)], [(170, 1)], [(165, 1)], [(106, 1)],
   [(92, 2), (93, 2)], [(33, 2), (37, 2)], [(36, 3)], [(35, 3)], [(158, 2), (159, 2)],
   [(367, 2)], [(337, 1), (338, 1)], [(102, 4), (179, 2), (180, 2)],
   [(109, 1), (110, 1), (111, 1), (112, 1), (113, 1)], [(124, 2), (125, 2)],
   [(123, 1), (124, 1), (125, 1)], [(219, 2), (221, 2), (222, 2)], [(291, 5)], [(293, 7)],
   [(293, 5)], [(289, 5)], [(287, 1), (288, 1)], [(285, 1), (286, 1)],
   [(249, 1), (250, 1), (251, 1), (252, 1), (253, 1)], [(121, 2)], [(120, 4)],
   [(119, 2), (120, 2)], [(150, 1), (157, 1), (162, 1), (163, 1)], [(296, 7)], [(296, 4)],
   [(269, 2)], [(268, 2)], [(235, 7)], [(235, 4)], [(117, 2)], [(257, 3)], [(82, 4)],
   [(13, 4)], [(71, 6)], [(67, 1)], [(54, 2)], [(53, 2)], [(52, 2)], [(51, 1)], [(42, 1)],
   [(240, 2)], [(107, 1), (113, 3)], [(130, 2)], [(175, 2)], [(103, 1)],
   [(109, 3), (110, 3), (111, 3)], [(329, 1)], [(115, 1)], [(276, 4)], [(275, 2), (276, 2)],
   [(180, 4)], [(179, 2), (180, 2)], [(32, 1)], [(23, 1)], [(11, 2)], [(10, 1)], [(12, 4)],
   [(347, 1), (348, 1)], [(257, 6)], [(257, 5)], [(86, 4), (88, 1)], [(100, 4)], [(112, 4)],
   [(113, 4)], [(111, 6)], [(106, 2), (107, 1)], [(87, 1), (88, 1)], [(85, 3), (88, 1)],
   [(187, 2), (188, 2), (189, 2), (190, 2)], [(33, 1), (34, 1), (35, 1), (36, 1), (37, 1)],
   [(3, 1)], [(289, 4), (293, 4)], [(162, 6)], [(157, 8)], [(157, 7), (158, 1), (159, 1)],
   [(150, 5)], [(273, 3)], [(158, 1), (159, 1), (169, 6)], [(167, 8)], [(166, 11)],
   [(158, 1), (159, 1), (166, 10)], [(272, 6)]]"

definition item_table_300 :: "(nat \<times> nat) list list" where [table_defs]:
  "item_table_300 = [
   [(158, 1), (159, 1), (271, 6)], [(271, 3)], [(68, 4), (134, 1)], [(366, 2), (367, 1)],
   [(42, 4), (50, 1)], [(39, 2)], [(241, 2)], [(240, 4)], [(112, 5)], [(113, 5)],
   [(111, 7)], [(110, 5)], [(231, 1), (313, 4)], [(231, 1), (312, 3)], [(224, 3), (225, 1)],
   [(92, 3), (93, 3), (374, 1)], [(92, 1), (93, 1)], [(351, 1)], [(290, 4)], [(291, 4)],
   [(288, 2)], [(286, 2)], [(282, 1)], [(281, 1)],
   [(249, 2), (250, 2), (251, 2), (252, 2), (253, 2)], [(246, 2)], [(163, 7)],
   [(162, 4), (163, 4)], [(157, 2)], [(280, 2)], [(244, 2)], [(83, 2)], [(79, 2)],
   [(296, 5)], [(296, 3)], [(273, 4)], [(169, 7)], [(168, 4)], [(166, 5), (167, 5)],
   [(272, 4)], [(171, 1)], [(271, 7)], [(271, 1)], [(235, 11)], [(235, 5)], [(235, 3)],
   [(257, 10)], [(257, 9)], [(257, 4)], [(257, 2)], [(82, 6)], [(82, 5)], [(82, 3)],
   [(13, 5)], [(13, 3)], [(71, 7)], [(70, 4)], [(69, 4)], [(68, 6)], [(61, 1)], [(365, 1)],
   [(364, 3)], [(42, 2)], [(40, 1)], [(39, 4)], [(39, 3)], [(60, 2)], [(38, 2)], [(363, 1)],
   [(334, 1), (336, 1)], [(306, 2)], [(241, 1)], [(240, 3)], [(306, 1)],
   [(109, 2), (110, 2), (111, 2)], [(320, 5)], [(319, 2)], [(135, 2)], [(134, 4)],
   [(93, 9)], [(93, 8)], [(222, 4)], [(222, 3)], [(224, 2)], [(92, 8)], [(92, 6), (93, 6)],
   [(92, 5), (93, 5)], [(92, 4), (93, 4)], [(19, 2), (353, 1)], [(11, 1)], [(12, 3)],
   [(9, 1), (12, 1)], [(8, 1)], [(3, 2)], [(400, 2)], [(299, 1)], [(397, 2)], [(290, 6)],
   [(273, 5)], [(274, 2)]]"

definition item_table_400 :: "(nat \<times> nat) list list" where [table_defs]:
  "item_table_400 = [
   [(272, 7)], [(271, 8)], [(354, 1)], [(71, 8)], [(42, 3)], [(36, 2)], [(35, 2)],
   [(100, 1), (101, 1), (102, 1)], [(353, 3)], [(201, 1), (205, 2), (215, 1), (218, 1)],
   [(79, 1), (83, 1), (244, 1), (280, 1)], [(400, 1), (400, 3), (401, 1)],
   [(299, 2), (400, 1), (401, 1)], [(13, 2), (82, 2), (257, 1)],
   [(52, 1), (53, 1), (54, 1)], [(27, 1), (28, 1), (29, 1), (357, 1)], [(295, 3), (397, 1)],
   [(289, 3), (291, 3), (292, 1), (293, 3)],
   [(249, 3), (250, 3), (251, 3), (252, 3), (253, 3)],
   [(118, 1), (119, 1), (120, 1), (121, 1)], [(168, 3), (169, 3)], [(166, 7), (167, 7)],
   [(134, 1), (166, 4), (167, 4)], [(166, 2), (167, 2), (168, 2), (169, 2)],
   [(174, 2), (175, 1)], [(161, 2), (175, 1)], [(159, 4), (175, 1)], [(134, 1), (235, 10)],
   [(71, 4), (240, 1)], [(69, 3), (134, 1)], [(44, 1)], [(55, 1), (56, 1)],
   [(63, 1), (64, 1)], [(38, 1), (60, 1)], [(303, 1), (304, 1), (305, 1)], [(243, 1)],
   [(239, 2), (240, 1)], [(127, 3), (175, 1)], [(139, 1), (140, 1)], [(94, 3), (231, 1)],
   [(255, 1)], [(254, 1)], [(27, 3), (28, 3)], [(95, 4), (231, 1)], [(185, 2)],
   [(178, 1), (187, 1), (188, 1), (189, 1), (190, 1), (355, 1)], [(1, 2)], [(0, 1), (1, 1)],
   [(294, 1), (295, 1)], [(290, 3)], [(293, 6)], [(289, 1), (290, 1), (291, 1), (293, 1)],
   [(253, 5)], [(251, 5)], [(163, 6)], [(162, 2), (163, 2)], [(157, 5)],
   [(155, 2), (374, 1)], [(156, 4), (374, 1)], [(119, 3), (120, 3)], [(150, 2)], [(80, 1)],
   [(296, 6)], [(296, 2)], [(267, 1)], [(273, 1)], [(169, 4)], [(170, 2), (374, 1)],
   [(166, 8)], [(166, 6), (167, 6)], [(166, 1), (167, 1), (168, 1), (169, 1)],
   [(165, 2), (374, 1)], [(272, 2)], [(161, 3)], [(160, 1)], [(159, 5)], [(158, 3)],
   [(271, 4)], [(270, 1)], [(269, 1)], [(268, 1), (390, 1)], [(266, 2)], [(256, 2)],
   [(235, 8)], [(235, 6)], [(235, 2)], [(259, 1)], [(175, 1), (263, 3)],
   [(262, 1), (263, 1)], [(389, 2)], [(389, 1)], [(116, 1), (117, 1)], [(257, 7)],
   [(82, 7)], [(16, 2)], [(16, 1)], [(60, 1)], [(71, 5)], [(71, 2)], [(71, 1)]]"

definition item_table_500 :: "(nat \<times> nat) list list" where [table_defs]:
  "item_table_500 = [
   [(70, 1)], [(69, 1)], [(68, 5)], [(68, 2)], [(68, 1)], [(45, 3), (46, 3)], [(364, 2)],
   [(364, 1)], [(59, 1)], [(41, 1)], [(39, 1)], [(74, 1)], [(188, 3), (190, 3)], [(339, 2)],
   [(339, 1)], [(337, 3)], [(187, 4), (189, 4)], [(220, 2)], [(192, 2), (231, 1)],
   [(306, 5)], [(306, 3)], [(305, 2)], [(102, 3), (179, 1), (180, 1)], [(112, 3)],
   [(111, 5)], [(131, 1)], [(130, 1)], [(127, 1)], [(125, 3)], [(143, 3), (231, 1)],
   [(143, 1)], [(314, 1)], [(315, 2)], [(313, 2)], [(323, 1)], [(327, 1)], [(325, 1)],
   [(320, 3)], [(331, 1)], [(330, 1)], [(312, 1)], [(311, 4)], [(311, 2)], [(311, 1)],
   [(310, 1), (333, 2)], [(133, 3), (134, 1)], [(133, 1)], [(209, 3)], [(208, 4)],
   [(234, 2)], [(231, 1), (381, 1)], [(221, 4)], [(219, 4)], [(223, 3)], [(276, 5)],
   [(276, 3)], [(275, 3)], [(275, 1), (276, 1)], [(224, 4)], [(94, 1)], [(223, 1)],
   [(186, 5)], [(28, 5)], [(186, 1)], [(95, 2)], [(95, 1), (373, 1)], [(89, 1), (90, 1)],
   [(179, 3), (180, 3)], [(179, 1), (180, 1)], [(182, 1), (356, 1)], [(19, 5), (22, 1)],
   [(19, 3)], [(9, 2), (12, 2)], [(345, 2)], [(344, 1)]]"

definition item_table :: "(nat \<times> nat) list list" where
  "item_table = item_table_0 @ item_table_100 @ item_table_200 @ item_table_300 @ item_table_400 @ item_table_500"

lemma item_table_lengths:
  "length item_table_0 = 100"
  "length item_table_100 = 100"
  "length item_table_200 = 100"
  "length item_table_300 = 100"
  "length item_table_400 = 100"
  "length item_table_500 = 75"
  by (simp_all add: table_defs)

lemma length_item_table [simp]: "length item_table = 575"
  by (simp add: item_table_def item_table_lengths)

lemma item_table_0_nth:
  "map ((!) item_table) [0..<100] = item_table_0"
  by (rule window_nth [where p = "[]" and q = "item_table_100 @ item_table_200 @ item_table_300 @ item_table_400 @ item_table_500"])
    (simp_all add: item_table_def item_table_lengths)

lemma item_table_100_nth:
  "map ((!) item_table) [100..<200] = item_table_100"
  by (rule window_nth [where p = "item_table_0" and q = "item_table_200 @ item_table_300 @ item_table_400 @ item_table_500"])
    (simp_all add: item_table_def item_table_lengths)

lemma item_table_200_nth:
  "map ((!) item_table) [200..<300] = item_table_200"
  by (rule window_nth [where p = "item_table_0 @ item_table_100" and q = "item_table_300 @ item_table_400 @ item_table_500"])
    (simp_all add: item_table_def item_table_lengths)

lemma item_table_300_nth:
  "map ((!) item_table) [300..<400] = item_table_300"
  by (rule window_nth [where p = "item_table_0 @ item_table_100 @ item_table_200" and q = "item_table_400 @ item_table_500"])
    (simp_all add: item_table_def item_table_lengths)

lemma item_table_400_nth:
  "map ((!) item_table) [400..<500] = item_table_400"
  by (rule window_nth [where p = "item_table_0 @ item_table_100 @ item_table_200 @ item_table_300" and q = "item_table_500"])
    (simp_all add: item_table_def item_table_lengths)

lemma item_table_500_nth:
  "map ((!) item_table) [500..<575] = item_table_500"
  by (rule window_nth [where p = "item_table_0 @ item_table_100 @ item_table_200 @ item_table_300 @ item_table_400" and q = "[]"])
    (simp_all add: item_table_def item_table_lengths)

section \<open>Ranks\<close>

definition state_rank_0 :: "nat list" where [table_defs]:
  "state_rank_0 = [
   2, 2, 2, 2, 0, 2, 0, 0, 0, 2, 2, 2, 0, 5, 4, 2, 13, 0, 0, 0, 0, 0, 0, 0, 0, 0, 0, 2, 0,
   0, 0, 0, 3, 3, 0, 0, 0, 0, 0, 0, 0, 0, 0, 0, 0, 0, 0, 0, 0, 0, 2, 5, 0, 0, 0, 0, 0, 0, 0,
   4, 0, 1, 0, 5, 7, 3, 0, 0, 0, 0, 1, 5, 2, 0, 0, 11, 12, 11, 0, 0, 0, 0, 0, 0, 0, 0, 0, 0,
   0, 0, 0, 0, 0, 0, 0, 0, 0, 0, 0, 0]"

definition state_rank_100 :: "nat list" where [table_defs]:
  "state_rank_100 = [
   0, 0, 0, 0, 0, 0, 0, 0, 0, 0, 0, 0, 0, 0, 0, 0, 0, 0, 0, 0, 0, 0, 0, 0, 0, 0, 0, 0, 0, 0,
   12, 7, 5, 9, 9, 11, 9, 11, 11, 11, 11, 0, 0, 2, 0, 0, 2, 2, 0, 0, 0, 0, 0, 0, 0, 0, 11,
   0, 2, 7, 7, 11, 11, 12, 12, 0, 2, 0, 2, 0, 0, 0, 0, 0, 0, 2, 0, 1, 0, 0, 0, 0, 0, 0, 0,
   0, 0, 0, 0, 0, 0, 0, 0, 0, 0, 0, 0, 0, 0, 8]"

definition state_rank_200 :: "nat list" where [table_defs]:
  "state_rank_200 = [
   2, 2, 0, 2, 2, 2, 2, 4, 6, 2, 4, 0, 3, 4, 4, 4, 4, 2, 4, 0, 0, 0, 0, 0, 0, 0, 0, 0, 0, 0,
   0, 0, 0, 0, 1, 1, 0, 0, 0, 0, 0, 0, 0, 0, 0, 0, 0, 0, 0, 0, 0, 0, 0, 0, 0, 0, 0, 0, 0, 0,
   0, 0, 0, 10, 0, 0, 0, 0, 0, 0, 0, 0, 0, 0, 0, 0, 0, 2, 0, 11, 7, 7, 5, 9, 5, 2, 4, 2, 4,
   2, 2, 2, 4, 2, 6, 4, 2, 2, 4, 4]"

definition state_rank_300 :: "nat list" where [table_defs]:
  "state_rank_300 = [
   6, 2, 2, 2, 0, 6, 2, 2, 5, 5, 3, 7, 4, 4, 2, 12, 6, 0, 2, 2, 2, 2, 2, 2, 2, 2, 2, 2, 2,
   2, 2, 2, 2, 2, 2, 4, 2, 2, 2, 2, 2, 4, 2, 2, 2, 2, 2, 4, 4, 2, 2, 4, 2, 2, 2, 6, 2, 2, 2,
   4, 0, 0, 4, 3, 2, 4, 2, 2, 3, 7, 0, 4, 4, 2, 12, 2, 2, 3, 2, 2, 4, 12, 14, 0, 2, 6, 8,
   10, 2, 2, 2, 2, 2, 2, 2, 2, 2, 2, 2, 2]"

definition state_rank_400 :: "nat list" where [table_defs]:
  "state_rank_400 = [
   2, 2, 4, 4, 2, 2, 2, 2, 2, 0, 0, 0, 0, 0, 0, 5, 0, 1, 0, 5, 0, 0, 0, 0, 0, 0, 0, 0, 0, 0,
   0, 0, 0, 0, 0, 0, 0, 0, 0, 0, 0, 0, 0, 0, 0, 14, 0, 2, 2, 0, 0, 0, 0, 0, 0, 0, 0, 0, 0,
   2, 0, 0, 0, 0, 0, 0, 0, 0, 0, 0, 0, 1, 0, 0, 0, 0, 0, 0, 0, 0, 7, 0, 0, 0, 0, 0, 0, 0, 0,
   0, 0, 5, 0, 0, 0, 0, 0, 0, 0, 0]"

definition state_rank_500 :: "nat list" where [table_defs]:
  "state_rank_500 = [
   0, 0, 0, 0, 0, 0, 0, 0, 0, 0, 0, 0, 0, 0, 0, 0, 0, 0, 0, 0, 0, 0, 0, 0, 0, 0, 0, 0, 0, 3,
   0, 0, 0, 0, 0, 0, 0, 0, 0, 0, 0, 0, 0, 0, 3, 0, 0, 0, 0, 0, 1, 0, 0, 0, 0, 0, 0, 0, 0, 0,
   0, 0, 0, 0, 0, 6, 0, 11, 0, 14, 0, 0, 0, 0, 0]"

definition state_rank :: "nat list" where
  "state_rank = state_rank_0 @ state_rank_100 @ state_rank_200 @ state_rank_300 @ state_rank_400 @ state_rank_500"

lemma state_rank_lengths:
  "length state_rank_0 = 100"
  "length state_rank_100 = 100"
  "length state_rank_200 = 100"
  "length state_rank_300 = 100"
  "length state_rank_400 = 100"
  "length state_rank_500 = 75"
  by (simp_all add: table_defs)

lemma length_state_rank [simp]: "length state_rank = 575"
  by (simp add: state_rank_def state_rank_lengths)

lemma state_rank_0_nth:
  "map ((!) state_rank) [0..<100] = state_rank_0"
  by (rule window_nth [where p = "[]" and q = "state_rank_100 @ state_rank_200 @ state_rank_300 @ state_rank_400 @ state_rank_500"])
    (simp_all add: state_rank_def state_rank_lengths)

lemma state_rank_100_nth:
  "map ((!) state_rank) [100..<200] = state_rank_100"
  by (rule window_nth [where p = "state_rank_0" and q = "state_rank_200 @ state_rank_300 @ state_rank_400 @ state_rank_500"])
    (simp_all add: state_rank_def state_rank_lengths)

lemma state_rank_200_nth:
  "map ((!) state_rank) [200..<300] = state_rank_200"
  by (rule window_nth [where p = "state_rank_0 @ state_rank_100" and q = "state_rank_300 @ state_rank_400 @ state_rank_500"])
    (simp_all add: state_rank_def state_rank_lengths)

lemma state_rank_300_nth:
  "map ((!) state_rank) [300..<400] = state_rank_300"
  by (rule window_nth [where p = "state_rank_0 @ state_rank_100 @ state_rank_200" and q = "state_rank_400 @ state_rank_500"])
    (simp_all add: state_rank_def state_rank_lengths)

lemma state_rank_400_nth:
  "map ((!) state_rank) [400..<500] = state_rank_400"
  by (rule window_nth [where p = "state_rank_0 @ state_rank_100 @ state_rank_200 @ state_rank_300" and q = "state_rank_500"])
    (simp_all add: state_rank_def state_rank_lengths)

lemma state_rank_500_nth:
  "map ((!) state_rank) [500..<575] = state_rank_500"
  by (rule window_nth [where p = "state_rank_0 @ state_rank_100 @ state_rank_200 @ state_rank_300 @ state_rank_400" and q = "[]"])
    (simp_all add: state_rank_def state_rank_lengths)

definition rule_rank_0 :: "nat list" where [table_defs]:
  "rule_rank_0 = [
   2, 0, 1, 0, 0, 2, 2, 2, 0, 0, 0, 0, 0, 0, 2, 0, 0, 0, 0, 0, 0, 0, 0, 0, 1, 4, 0, 0, 0, 4,
   0, 0, 1, 0, 0, 0, 0, 0, 0, 0, 1, 0, 0, 3, 0, 0, 0, 0, 0, 0, 2, 1, 0, 0, 0, 0, 0, 0, 0, 0,
   0, 2, 0, 0, 0, 0, 0, 1, 0, 0, 0, 0, 0, 0, 0, 0, 0, 0, 0, 0, 0, 0, 0, 0, 2, 2, 0, 5, 4, 0,
   0, 0, 0, 0, 1, 0, 4, 4, 0, 0]"

definition rule_rank_100 :: "nat list" where [table_defs]:
  "rule_rank_100 = [
   9, 10, 7, 8, 0, 0, 9, 0, 0, 6, 5, 1, 3, 3, 0, 11, 5, 2, 5, 2, 0, 2, 0, 0, 0, 0, 5, 1, 0,
   0, 4, 5, 0, 0, 0, 1, 4, 4, 0, 0, 0, 0, 0, 3, 0, 3, 0, 0, 0, 0, 0, 0, 7, 0, 0, 0, 0, 0, 1,
   0, 4, 0, 0, 0, 0, 1, 0, 0, 0, 0, 0, 0, 0, 0, 0, 0, 1, 10, 13, 11, 8, 13, 13, 13, 13, 10,
   5, 7, 7, 6, 6, 13, 7, 11, 11, 11, 11, 11, 11, 11]"

definition rule_rank_200 :: "nat list" where [table_defs]:
  "rule_rank_200 = [
   11, 0, 12, 9, 12, 10, 11, 9, 5, 7, 12, 12, 12, 11, 0, 0, 9, 0, 0, 8, 10, 8, 10, 8, 8, 0,
   0, 0, 0, 0, 0, 2, 5, 0, 7, 0, 0, 0, 0, 1, 0, 0, 0, 0, 0, 0, 0, 0, 0, 0, 0, 0, 0, 0, 0, 0,
   0, 0, 0, 0, 0, 0, 0, 0, 0, 0, 0, 1, 4, 1, 2, 0, 0, 0, 0, 7, 5, 0, 0, 0, 0, 0, 0, 0, 0, 1,
   0, 1, 0, 0, 0, 0, 1, 0, 2, 0, 0, 0, 1, 0]"

definition rule_rank_300 :: "nat list" where [table_defs]:
  "rule_rank_300 = [
   2, 0, 0, 0, 0, 0, 0, 1, 0, 4, 1, 0, 0, 0, 0, 0, 1, 0, 0, 0, 0, 0, 3, 0, 3, 0, 2, 1, 0, 0,
   0, 0, 0, 3, 6, 7, 7, 2, 6, 0, 1, 2, 3, 2, 1, 0, 0, 0, 0, 0, 0, 1, 1, 0, 2, 14, 14, 5, 5,
   1, 1, 2, 0, 1, 0, 1, 0, 1, 3, 0, 1, 1, 6, 6, 1, 9, 3, 0, 14, 0, 1, 1, 1, 1, 0, 0, 0, 0,
   0, 0, 7, 0, 0, 0, 0, 0, 1, 0, 1, 0]"

definition rule_rank_400 :: "nat list" where [table_defs]:
  "rule_rank_400 = [
   0, 0, 0]"

definition rule_rank :: "nat list" where
  "rule_rank = rule_rank_0 @ rule_rank_100 @ rule_rank_200 @ rule_rank_300 @ rule_rank_400"

lemma rule_rank_lengths:
  "length rule_rank_0 = 100"
  "length rule_rank_100 = 100"
  "length rule_rank_200 = 100"
  "length rule_rank_300 = 100"
  "length rule_rank_400 = 3"
  by (simp_all add: table_defs)

lemma length_rule_rank [simp]: "length rule_rank = 403"
  by (simp add: rule_rank_def rule_rank_lengths)

lemma rule_rank_0_nth:
  "map ((!) rule_rank) [0..<100] = rule_rank_0"
  by (rule window_nth [where p = "[]" and q = "rule_rank_100 @ rule_rank_200 @ rule_rank_300 @ rule_rank_400"])
    (simp_all add: rule_rank_def rule_rank_lengths)

lemma rule_rank_100_nth:
  "map ((!) rule_rank) [100..<200] = rule_rank_100"
  by (rule window_nth [where p = "rule_rank_0" and q = "rule_rank_200 @ rule_rank_300 @ rule_rank_400"])
    (simp_all add: rule_rank_def rule_rank_lengths)

lemma rule_rank_200_nth:
  "map ((!) rule_rank) [200..<300] = rule_rank_200"
  by (rule window_nth [where p = "rule_rank_0 @ rule_rank_100" and q = "rule_rank_300 @ rule_rank_400"])
    (simp_all add: rule_rank_def rule_rank_lengths)

lemma rule_rank_300_nth:
  "map ((!) rule_rank) [300..<400] = rule_rank_300"
  by (rule window_nth [where p = "rule_rank_0 @ rule_rank_100 @ rule_rank_200" and q = "rule_rank_400"])
    (simp_all add: rule_rank_def rule_rank_lengths)

lemma rule_rank_400_nth:
  "map ((!) rule_rank) [400..<403] = rule_rank_400"
  by (rule window_nth [where p = "rule_rank_0 @ rule_rank_100 @ rule_rank_200 @ rule_rank_300" and q = "[]"])
    (simp_all add: rule_rank_def rule_rank_lengths)

definition goto_rank_0 :: "nat list" where [table_defs]:
  "goto_rank_0 = [
   0, 0, 0, 0, 0, 0, 0, 0, 0, 0, 0, 0, 0, 0, 0, 0, 0, 0, 0, 0, 0, 0, 0, 0, 0, 0, 0, 0, 0, 0,
   0, 0, 0, 0, 0, 0, 0, 0, 0, 0, 0, 0, 0, 0, 0, 0, 0, 0, 0, 0, 0, 0, 0, 0, 0, 0, 0, 0, 0, 0,
   0, 0, 0, 0, 0, 0, 0, 0, 0, 0, 0, 0, 0, 0, 0, 0, 0, 0, 0, 0, 0, 0, 0, 0, 0, 0, 0, 0, 0, 0,
   0, 0, 0, 0, 0, 0, 0, 0, 0, 0]"

definition goto_rank_100 :: "nat list" where [table_defs]:
  "goto_rank_100 = [
   0, 0, 0, 0, 0, 0, 0, 0, 0, 0, 0, 0, 0, 0, 0, 0, 0, 0, 0, 0, 0, 0, 0, 0, 0, 0, 0, 0, 0, 0,
   0, 0, 0, 0, 0, 0, 0, 0, 0, 0, 0, 0, 0, 0, 0, 0, 0, 0, 0, 0, 0, 0, 0, 0, 0, 0, 0, 0, 0, 0,
   0, 0, 0, 0, 0, 0, 0, 0, 0, 0, 0, 0, 0, 0, 0, 0, 0, 0, 0, 0, 0, 0, 0, 0, 0, 0, 2, 2, 0, 2,
   1, 2, 0, 14, 0, 0, 1, 2, 0, 0]"

definition goto_rank_200 :: "nat list" where [table_defs]:
  "goto_rank_200 = [
   12, 2, 0, 0, 4, 0, 4, 2, 4, 5, 0, 0, 0, 11, 0, 2, 13, 13, 2, 4, 0, 4, 2, 3, 1, 2, 0, 2,
   2, 0, 2, 2, 0, 0, 0, 0, 0, 0, 4, 5, 5, 0, 0, 4, 12, 10, 8, 6, 4, 2, 0, 4, 6, 4, 2, 9, 9,
   0, 0, 6, 7, 0, 4, 0, 2, 1, 0, 0, 6, 0, 0, 2, 0, 6, 0, 0, 0, 10, 0, 2, 0, 0, 2, 0, 0, 0,
   2, 0, 0, 2, 0, 0, 6, 4, 0, 0, 0, 0, 2, 0]"

definition goto_rank_300 :: "nat list" where [table_defs]:
  "goto_rank_300 = [
   1, 1, 2, 0, 1, 0, 3, 4, 0, 1, 0, 7, 7, 0, 3, 2, 2, 0, 0]"

definition goto_rank :: "nat list" where
  "goto_rank = goto_rank_0 @ goto_rank_100 @ goto_rank_200 @ goto_rank_300"

lemma goto_rank_lengths:
  "length goto_rank_0 = 100"
  "length goto_rank_100 = 100"
  "length goto_rank_200 = 100"
  "length goto_rank_300 = 19"
  by (simp_all add: table_defs)

lemma length_goto_rank [simp]: "length goto_rank = 319"
  by (simp add: goto_rank_def goto_rank_lengths)

lemma goto_rank_0_nth:
  "map ((!) goto_rank) [0..<100] = goto_rank_0"
  by (rule window_nth [where p = "[]" and q = "goto_rank_100 @ goto_rank_200 @ goto_rank_300"])
    (simp_all add: goto_rank_def goto_rank_lengths)

lemma goto_rank_100_nth:
  "map ((!) goto_rank) [100..<200] = goto_rank_100"
  by (rule window_nth [where p = "goto_rank_0" and q = "goto_rank_200 @ goto_rank_300"])
    (simp_all add: goto_rank_def goto_rank_lengths)

lemma goto_rank_200_nth:
  "map ((!) goto_rank) [200..<300] = goto_rank_200"
  by (rule window_nth [where p = "goto_rank_0 @ goto_rank_100" and q = "goto_rank_300"])
    (simp_all add: goto_rank_def goto_rank_lengths)

lemma goto_rank_300_nth:
  "map ((!) goto_rank) [300..<319] = goto_rank_300"
  by (rule window_nth [where p = "goto_rank_0 @ goto_rank_100 @ goto_rank_200" and q = "[]"])
    (simp_all add: goto_rank_def goto_rank_lengths)

section \<open>States by offset\<close>

definition shift_index_0 :: "nat list list" where [table_defs]:
  "shift_index_0 = [
   [13, 14], [5, 36, 37, 38, 39, 40], [], [], [], [], [], [], [], [], [], [], [], [], [],
   [], [], [], [], [], [], [], [161, 162], [], [], [], [], [], [], [], [], [], [], [], [],
   [], [], [], [], [], [41], [], [], [], [], [], [], [], [], [], [], [], [], [], [], [], [],
   [], [], [], [], [], [], [], [], [141], [140], [210], [], [], [], [], [], [], [], [], [],
   [156], [], [150, 151], [], [], [], [], [], [], [], [], [35], [], [], [], [], [], [138],
   [], [], [], [], []]"

definition shift_index_100 :: "nat list list" where [table_defs]:
  "shift_index_100 = [
   [], [], [], [], [], [], [], [], [], [], [], [42], [142], [159, 160], [], [], [], [], [],
   [], [], [], [], [158], [], [], [], [], [], [], [], [], [], [], [], [], [], [130], [], [],
   [], [], [], [], [], [], [], [], [], [], [], [], [], [], [], [], [], [], [], [], [], [],
   [], [], [], [], [], [], [], [], [], [], [], [], [], [], [], [], [], [], [],
   [131, 132, 133, 134, 135, 136, 137], [], [], [312, 313], [], [], [], [], [], [], [], [],
   [], [], [], [], [], [], []]"

definition shift_index_200 :: "nat list list" where [table_defs]:
  "shift_index_200 = [
   [], [], [], [], [], [], [], [409], [], [278, 284, 285], [], [], [], [], [15], [], [34],
   [], [], [], [], [], [240], [], [], [], [], [], [], [], [], [], [], [], [], [], [], [],
   [], [168], [], [], [], [], [], [], [], [], [], [295, 298], [], [], [], [], [], [], [],
   [], [43], [], [], [], [], [], [], [], [], [], [], [], [], [30, 31], [], [], [], [], [],
   [], [], [], [], [], [], [], [], [], [], [], [], [], [], [], [], [], [], [], [], [], [],
   []]"

definition shift_index_300 :: "nat list list" where [table_defs]:
  "shift_index_300 = [
   [], [], [], [], [], [], [], [], [], [], [], [], [], [], [], [], [], [], [], [], [], [],
   [3, 4], [], [], [], [], [], [165, 166, 167], [], [], [411], [], [], [], [], [], [], [],
   [], [], [], [], [], [], [], [], [], [], [], [], [], [], [], [], [], [], [], [], [], [],
   [44], [], [], [], [], [143, 176], [], [], [], [], [], [], [], [], [], [], [], [], [], [],
   [], [], [], [], [], [], [225], [], [], [], [], [], [], [], [], [], [], [], []]"

definition shift_index_400 :: "nat list list" where [table_defs]:
  "shift_index_400 = [
   [], [], [], [], [], [292, 300], [], [], [], [175], [], [], [153, 154, 155, 157], [], [],
   [], [], [], [], [], [], [], [], [], [], [], [], [], [], [], [139], [], [], [], [], [],
   [], [], [], [], [], [], [], [], [], [], [], [], [], [], [], [], [], [], [], [], [], [],
   [], [], [], [], [], [], [303], [], [], [], [169, 170, 171, 172], [45], [], [12], [223],
   [], [], [], [], [], [], [], [], [], [], [], [], [], [], [], [], [], [], [], [], [], [],
   [], [], [], [], []]"

definition shift_index_500 :: "nat list list" where [table_defs]:
  "shift_index_500 = [
   [], [], [], [], [], [], [], [], [], [], [], [], [46], [], [], [], [], [], [], [], [], [],
   [], [], [], [], [], [], [], [], [], [], [],
   [144, 145, 148, 149, 152, 179, 180, 181, 182, 183, 184, 185, 186, 187, 188, 189, 190, 191, 192, 193, 194, 195, 196, 197, 198, 202, 230, 231, 232, 233, 234, 235, 236, 237, 238, 239, 241, 242, 243, 244, 245, 246, 247, 248, 249, 250, 251, 252, 256, 257, 258, 260, 261, 262, 265, 266, 268, 269, 270, 271, 272, 273, 274, 275],
   [], [], [], [], [227], [], [], [228], [], [], [], [], [], [], [], [], [], [], [], [], [],
   [], [], [], [], [], [], [], [], [], [], [259], [], [], [], [], [], [], [], [], [], [],
   [], [], [], [], [283], [], [], [47], [], [222], [], [], [], [], [], [], [], [], [], [],
   [], [], [], []]"

definition shift_index_600 :: "nat list list" where [table_defs]:
  "shift_index_600 = [
   [], [], [], [], [], [], [], [], [], [], [], [], [], [], [], [], [], [], [], [], [412],
   [200, 201], [48], [], [], [], [], [], [], [], [], [], [], [], [], [], [], [], [], [276],
   [224], [], [203], [], [], [], [], [], [], [289], [], [], [], [], [], [], [], [], [], [],
   [], [], [], [], [], [], [], [], [], [], [], [], [], [], [], [], [], [], [], [], [], [],
   [], [], [], [], [], [], [], [], [], [], [], [49], [], [226], [], [], [], []]"

definition shift_index_700 :: "nat list list" where [table_defs]:
  "shift_index_700 = [
   [229], [], [], [], [], [], [], [], [], [], [], [], [], [], [], [], [], [], [], [], [],
   [], [], [], [], [], [], [], [], [], [], [], [50], [], [], [], [], [], [], [], [146], [],
   [445], [], [], [], [], [], [], [], [], [], [], [], [], [], [], [], [], [], [], [], [],
   [], [], [], [], [], [287], [], [], [], [], [], [], [], [], [], [], [], [], [], [], [],
   [], [], [], [], [204, 205], [], [], [], [], [], [], [], [], [], [], []]"

definition shift_index_800 :: "nat list list" where [table_defs]:
  "shift_index_800 = [
   [], [], [], [51], [], [], [414], [], [], [], [], [], [], [], [], [], [], [], [], [], [],
   [], [208, 209], [], [], [], [], [], [], [], [], [], [], [], [], [], [], [], [], [], [],
   [], [52], [], [], [], [], [], [], [], [], [], [], [], [], [], [], [], [], [], [], [], [],
   [], [], [], [], [], [], [], [], [], [], [], [], [], [], [], [], [], [], [], [], [], [],
   [], [], [], [], [], [], [], [], [], [], [], [], [], [], []]"

definition shift_index_900 :: "nat list list" where [table_defs]:
  "shift_index_900 = [
   [], [], [], [413], [315], [], [], [], [], [], [], [], [], [53], [], [], [263], [288], [],
   [], [], [], [], [], [], [], [], [], [], [], [], [], [], [], [], [], [], [], [], [], [],
   [], [], [], [], [], [], [], [], [], [], [], [], [], [220, 221], [], [], [76, 77], [], [],
   [], [], [], [], [], [], [], [], [], [199], [], [], [], [], [], [], [], [], [], [], [],
   [], [], [], [], [], [], [], [], [], [], [], [], [], [], [], [], [], [], []]"

definition shift_index_1000 :: "nat list list" where [table_defs]:
  "shift_index_1000 = [
   [], [], [], [], [], [], [], [], [], [], [], [], [305, 306, 307], [], [], [173, 174], [],
   [], [], [], [], [], [], [], [], [], [], [], [], [], [], [], [], [], [], [], [], [], [],
   [], [], [], [], [], [], [], [], [], [], [], [], [], [], [], [], [], [], [], [], [], [],
   [], [], [], [], [], [], [], [], [], [], [], [], [54], [415], [], [279, 280, 281, 282],
   [], [], [], [], [], [], [], [], [], [], [], [], [], [], [], [],
   [16, 55, 56, 57, 58, 59, 60, 61, 62, 63, 64, 65, 66, 67, 68, 69, 70, 71, 72, 74], [],
   [410], [], [], [], []]"

definition shift_index_1100 :: "nat list list" where [table_defs]:
  "shift_index_1100 = [
   [], [], [], [], [], [], [], [], [], [], [], [], [], [73], [], [], [], [], [], [], [], [],
   [], [], [], [], [], [], [], [177], [], [], [], [], [], [], [], [], [], [], [], [], [],
   [], [264], [], [], [], [], [], [], [], [], [], [], [], [], [], [], [], [], [], [], [],
   [], [], [], [], [], [], [], [], [], [], [], [], [], [], [], [253, 254, 255], [],
   [290, 296, 297, 299], [], [], [], [], [178], [], [], [], [], [], [], [], [], [], [], [],
   [], []]"

definition shift_index_1200 :: "nat list list" where [table_defs]:
  "shift_index_1200 = [
   [], [], [], [], [], [], [], [], [], [], [], [], [], [], [], [], [75], [], [], [32, 33],
   [], [], [], [], [], [], [], [], [206, 207], [], [], [], [], [], [], [], [], [],
   [294, 301], [], [], [], [], [], [], [], [], [], [], [], [], [], [], [], [], [], [], [],
   [], [304], [], [147], [], [], [], [], [], [], [], [], [], [], [2], [], [211], [], [], [],
   [], [], [], [], [], [], [], [], [], [316], [267], [], [], [423], [], [], [], [], [], [],
   [], []]"

definition shift_index_1300 :: "nat list list" where [table_defs]:
  "shift_index_1300 = [
   [], [], [], [], [], [], [], [219], [], [], [], [], [], [286], [], [], [291, 293], [], [],
   [6], [], [], [419], [], [], [], [314], [], [], [], [277], [], [], [], [], [], [], [], [],
   [], [], [], [], [], [], [], [], [], [], [], [], [], [], [], [], [], [], [], [], [], [],
   [], [], [], [], [], [], [], [308, 309, 310, 311], [302], [420], [], [], [], [], [], [],
   [], [], [], [], [], [], [], [], [], [], [], [], [], [], [], [], [], [421], [], [], [],
   [], []]"

definition shift_index_1400 :: "nat list list" where [table_defs]:
  "shift_index_1400 = [
   [], [], [], [], [], [], [], [], [], [], [], [], [], [], [], [], [], [], [], [], [], [],
   [], [], [], [], [], [], [], [], [], [], [417], [], [430], [], [], [], [], [], [], [], [],
   [], [], [], [], [], [], [], [], [], [], [431], [], [], [], [], [], [], [], [], [433], [],
   [], [], [], [], [], [], [], [], [], [], [], [], [], [1], [7], [], [317], [418], [],
   [416], [], [], [], [], [], [435], [], [8], [], [], [], [], [], [], [], []]"

definition shift_index_1500 :: "nat list list" where [table_defs]:
  "shift_index_1500 = [
   [], [], [], [], [], [], [], [], [], [], [], [], [], [], [], [422], [], [], [], [], [],
   [], [], [], [], [], [], [], [], [], [], [], [], [], [], [], [], [], [], [], [], [], [],
   [], [], [], [424], [425], [440], [441], [], [], [], [], [], [], [], [426], [], [], [],
   [], [], [], [], [], [], [434], [], [], [], [], [], [], [], [], [], [], [], [], [], [],
   [], [], [], [], [], [], [], [], [], [], [], [], [], [427], [], [444], [428], [429]]"

definition shift_index_1600 :: "nat list list" where [table_defs]:
  "shift_index_1600 = [
   [], [], [], [], [], [], [], [], [], [], [], [], [], [], [], [], [438], [], [432], [], [],
   [], [], [], [], [], [], [], [], [], [], [], [],
   [320, 321, 324, 333, 344, 348, 351, 353, 374, 382], [], [78], [], [], [], [], [], [], [],
   [], [436], [], [], [325], [0], [], [], [326, 336, 337], [], [], [437], [], [], [], [],
   [], [439], [], [79], [], [], [], [], [], [], [], [], [], [], [], [346], [], [],
   [335, 338, 341, 343, 387], [], [], [], [], [442], [], [], [443], [], [], [], [], [], [],
   [], [], [], [], [], [], [], []]"

definition shift_index_1700 :: "nat list list" where [table_defs]:
  "shift_index_1700 = [
   [], [369], [], [], [], [], [], [], [], [], [], [], [318, 319], [], [], [], [], [], [],
   [], [], [], [], [], [], [], [], [], [], [], [], [], [356, 357, 358, 363, 365, 367, 368],
   [], [], [], [], [], [364], [], [], [], [379, 384], [383], [], [], [], [], [], [], [], [],
   [380], [], [], [], [], [322, 323], [371, 372], [385], [], [], [], [], [328, 340, 342],
   [386], [], [], [], [], [], [], [], [], [], [], [], [80], [], [347], [], [], [],
   [327, 339], [], [], [], [449], [], [375, 376], [], [329, 330, 331, 332], [], [],
   [359, 366], [], [], [], [], []]"

definition shift_index_1800 :: "nat list list" where [table_defs]:
  "shift_index_1800 = [
   [], [], [], [], [], [], [334, 345, 349, 352, 354], [377, 378], [], [], [455], [], [], [],
   [], [], [], [], [], [], [], [454], [460], [350, 355, 362, 373], [462], [], [472], [485],
   [465], [], [], [], [456], [], [], [], [],
   [9, 10, 11, 17, 18, 19, 20, 21, 22, 23, 24, 25, 26, 27, 28, 29, 81, 82, 83, 84, 85, 86, 87, 88, 89, 90, 91, 92, 93, 94, 95, 96, 97, 98, 99, 100, 101, 102, 103, 104, 105, 106, 107, 108, 109, 110, 111, 112, 113, 114, 115, 116, 117, 118, 119, 120, 121, 122, 123, 124, 125, 126, 127, 128, 129],
   [], [], [360, 361], [466], [468], [480], [370], [], [], [], [491], [], [477], [], [], [],
   [], [], [], [], [], [], [], [], [], [], [], [478], [], [], [], [], [], [496], [484],
   [513], [], [], [], [381], [], [388], [497], [], [], [], [], [492], [], [], [], [], [522],
   [], [528], [], [], [], [], [389, 390], [], []]"

definition shift_index_1900 :: "nat list list" where [table_defs]:
  "shift_index_1900 = [
   [], [], [], [], [], [], [], [], [], [], [525], [507], [469], [547], [391, 392, 393],
   [548], [], [], [], [], [], [473], [474], [489], [], [475], [476], [448], [486], [488],
   [], [], [], [521], [452], [567], [453], [450], [457, 458, 467, 471], [470], [451], [446],
   [459], [499], [566], [447], [504], [461], [479], [463], [534], [510], [539], [568],
   [569], [505], [], [536], [490], [], [], [], [535], [], [483], [], [], [], [464], [538],
   [487], [], [], [], [], [], [], [493], [], [], [482], [], [481], [494], [498], [495],
   [500], [501], [502], [508], [503], [506], [511], [], [509], [], [512], [], [514], [520]]"

definition shift_index_2000 :: "nat list list" where [table_defs]:
  "shift_index_2000 = [
   [515], [516], [517], [518], [519], [526], [530], [531], [532], [523], [524], [529, 550],
   [527], [533], [537], [540], [], [], [546], [], [], [], [], [541], [], [544], [542],
   [543], [545], [], [], [549], [], [551], [], [], [552], [553], [554], [555], [556], [],
   [], [557], [559], [560], [561], [562], [565], [563], [564], [558], [570], [572], [],
   [571], [], [], [], [], [], [], [], [], [], [], [], [], [], [], [], [], [], [573], [574],
   [], [], [], [], [], [], [], [], [], [], [], [], [], [], [], [], [], [], [], [], [],
   [163, 164, 212, 213, 214, 215, 216, 217, 218, 394, 395, 396, 397, 398, 399, 400, 401, 402, 403, 404, 405, 406, 407, 408]]"

definition shift_index :: "nat list list" where
  "shift_index = shift_index_0 @ shift_index_100 @ shift_index_200 @ shift_index_300 @ shift_index_400 @ shift_index_500 @ shift_index_600 @ shift_index_700 @ shift_index_800 @ shift_index_900 @ shift_index_1000 @ shift_index_1100 @ shift_index_1200 @ shift_index_1300 @ shift_index_1400 @ shift_index_1500 @ shift_index_1600 @ shift_index_1700 @ shift_index_1800 @ shift_index_1900 @ shift_index_2000"

lemma shift_index_lengths:
  "length shift_index_0 = 100"
  "length shift_index_100 = 100"
  "length shift_index_200 = 100"
  "length shift_index_300 = 100"
  "length shift_index_400 = 100"
  "length shift_index_500 = 100"
  "length shift_index_600 = 100"
  "length shift_index_700 = 100"
  "length shift_index_800 = 100"
  "length shift_index_900 = 100"
  "length shift_index_1000 = 100"
  "length shift_index_1100 = 100"
  "length shift_index_1200 = 100"
  "length shift_index_1300 = 100"
  "length shift_index_1400 = 100"
  "length shift_index_1500 = 100"
  "length shift_index_1600 = 100"
  "length shift_index_1700 = 100"
  "length shift_index_1800 = 100"
  "length shift_index_1900 = 100"
  "length shift_index_2000 = 97"
  by (simp_all add: table_defs)

lemma length_shift_index [simp]: "length shift_index = 2097"
  by (simp add: shift_index_def shift_index_lengths)

lemma shift_index_0_nth:
  "map ((!) shift_index) [0..<100] = shift_index_0"
  by (rule window_nth [where p = "[]" and q = "shift_index_100 @ shift_index_200 @ shift_index_300 @ shift_index_400 @ shift_index_500 @ shift_index_600 @ shift_index_700 @ shift_index_800 @ shift_index_900 @ shift_index_1000 @ shift_index_1100 @ shift_index_1200 @ shift_index_1300 @ shift_index_1400 @ shift_index_1500 @ shift_index_1600 @ shift_index_1700 @ shift_index_1800 @ shift_index_1900 @ shift_index_2000"])
    (simp_all add: shift_index_def shift_index_lengths)

lemma shift_index_100_nth:
  "map ((!) shift_index) [100..<200] = shift_index_100"
  by (rule window_nth [where p = "shift_index_0" and q = "shift_index_200 @ shift_index_300 @ shift_index_400 @ shift_index_500 @ shift_index_600 @ shift_index_700 @ shift_index_800 @ shift_index_900 @ shift_index_1000 @ shift_index_1100 @ shift_index_1200 @ shift_index_1300 @ shift_index_1400 @ shift_index_1500 @ shift_index_1600 @ shift_index_1700 @ shift_index_1800 @ shift_index_1900 @ shift_index_2000"])
    (simp_all add: shift_index_def shift_index_lengths)

lemma shift_index_200_nth:
  "map ((!) shift_index) [200..<300] = shift_index_200"
  by (rule window_nth [where p = "shift_index_0 @ shift_index_100" and q = "shift_index_300 @ shift_index_400 @ shift_index_500 @ shift_index_600 @ shift_index_700 @ shift_index_800 @ shift_index_900 @ shift_index_1000 @ shift_index_1100 @ shift_index_1200 @ shift_index_1300 @ shift_index_1400 @ shift_index_1500 @ shift_index_1600 @ shift_index_1700 @ shift_index_1800 @ shift_index_1900 @ shift_index_2000"])
    (simp_all add: shift_index_def shift_index_lengths)

lemma shift_index_300_nth:
  "map ((!) shift_index) [300..<400] = shift_index_300"
  by (rule window_nth [where p = "shift_index_0 @ shift_index_100 @ shift_index_200" and q = "shift_index_400 @ shift_index_500 @ shift_index_600 @ shift_index_700 @ shift_index_800 @ shift_index_900 @ shift_index_1000 @ shift_index_1100 @ shift_index_1200 @ shift_index_1300 @ shift_index_1400 @ shift_index_1500 @ shift_index_1600 @ shift_index_1700 @ shift_index_1800 @ shift_index_1900 @ shift_index_2000"])
    (simp_all add: shift_index_def shift_index_lengths)

lemma shift_index_400_nth:
  "map ((!) shift_index) [400..<500] = shift_index_400"
  by (rule window_nth [where p = "shift_index_0 @ shift_index_100 @ shift_index_200 @ shift_index_300" and q = "shift_index_500 @ shift_index_600 @ shift_index_700 @ shift_index_800 @ shift_index_900 @ shift_index_1000 @ shift_index_1100 @ shift_index_1200 @ shift_index_1300 @ shift_index_1400 @ shift_index_1500 @ shift_index_1600 @ shift_index_1700 @ shift_index_1800 @ shift_index_1900 @ shift_index_2000"])
    (simp_all add: shift_index_def shift_index_lengths)

lemma shift_index_500_nth:
  "map ((!) shift_index) [500..<600] = shift_index_500"
  by (rule window_nth [where p = "shift_index_0 @ shift_index_100 @ shift_index_200 @ shift_index_300 @ shift_index_400" and q = "shift_index_600 @ shift_index_700 @ shift_index_800 @ shift_index_900 @ shift_index_1000 @ shift_index_1100 @ shift_index_1200 @ shift_index_1300 @ shift_index_1400 @ shift_index_1500 @ shift_index_1600 @ shift_index_1700 @ shift_index_1800 @ shift_index_1900 @ shift_index_2000"])
    (simp_all add: shift_index_def shift_index_lengths)

lemma shift_index_600_nth:
  "map ((!) shift_index) [600..<700] = shift_index_600"
  by (rule window_nth [where p = "shift_index_0 @ shift_index_100 @ shift_index_200 @ shift_index_300 @ shift_index_400 @ shift_index_500" and q = "shift_index_700 @ shift_index_800 @ shift_index_900 @ shift_index_1000 @ shift_index_1100 @ shift_index_1200 @ shift_index_1300 @ shift_index_1400 @ shift_index_1500 @ shift_index_1600 @ shift_index_1700 @ shift_index_1800 @ shift_index_1900 @ shift_index_2000"])
    (simp_all add: shift_index_def shift_index_lengths)

lemma shift_index_700_nth:
  "map ((!) shift_index) [700..<800] = shift_index_700"
  by (rule window_nth [where p = "shift_index_0 @ shift_index_100 @ shift_index_200 @ shift_index_300 @ shift_index_400 @ shift_index_500 @ shift_index_600" and q = "shift_index_800 @ shift_index_900 @ shift_index_1000 @ shift_index_1100 @ shift_index_1200 @ shift_index_1300 @ shift_index_1400 @ shift_index_1500 @ shift_index_1600 @ shift_index_1700 @ shift_index_1800 @ shift_index_1900 @ shift_index_2000"])
    (simp_all add: shift_index_def shift_index_lengths)

lemma shift_index_800_nth:
  "map ((!) shift_index) [800..<900] = shift_index_800"
  by (rule window_nth [where p = "shift_index_0 @ shift_index_100 @ shift_index_200 @ shift_index_300 @ shift_index_400 @ shift_index_500 @ shift_index_600 @ shift_index_700" and q = "shift_index_900 @ shift_index_1000 @ shift_index_1100 @ shift_index_1200 @ shift_index_1300 @ shift_index_1400 @ shift_index_1500 @ shift_index_1600 @ shift_index_1700 @ shift_index_1800 @ shift_index_1900 @ shift_index_2000"])
    (simp_all add: shift_index_def shift_index_lengths)

lemma shift_index_900_nth:
  "map ((!) shift_index) [900..<1000] = shift_index_900"
  by (rule window_nth [where p = "shift_index_0 @ shift_index_100 @ shift_index_200 @ shift_index_300 @ shift_index_400 @ shift_index_500 @ shift_index_600 @ shift_index_700 @ shift_index_800" and q = "shift_index_1000 @ shift_index_1100 @ shift_index_1200 @ shift_index_1300 @ shift_index_1400 @ shift_index_1500 @ shift_index_1600 @ shift_index_1700 @ shift_index_1800 @ shift_index_1900 @ shift_index_2000"])
    (simp_all add: shift_index_def shift_index_lengths)

lemma shift_index_1000_nth:
  "map ((!) shift_index) [1000..<1100] = shift_index_1000"
  by (rule window_nth [where p = "shift_index_0 @ shift_index_100 @ shift_index_200 @ shift_index_300 @ shift_index_400 @ shift_index_500 @ shift_index_600 @ shift_index_700 @ shift_index_800 @ shift_index_900" and q = "shift_index_1100 @ shift_index_1200 @ shift_index_1300 @ shift_index_1400 @ shift_index_1500 @ shift_index_1600 @ shift_index_1700 @ shift_index_1800 @ shift_index_1900 @ shift_index_2000"])
    (simp_all add: shift_index_def shift_index_lengths)

lemma shift_index_1100_nth:
  "map ((!) shift_index) [1100..<1200] = shift_index_1100"
  by (rule window_nth [where p = "shift_index_0 @ shift_index_100 @ shift_index_200 @ shift_index_300 @ shift_index_400 @ shift_index_500 @ shift_index_600 @ shift_index_700 @ shift_index_800 @ shift_index_900 @ shift_index_1000" and q = "shift_index_1200 @ shift_index_1300 @ shift_index_1400 @ shift_index_1500 @ shift_index_1600 @ shift_index_1700 @ shift_index_1800 @ shift_index_1900 @ shift_index_2000"])
    (simp_all add: shift_index_def shift_index_lengths)

lemma shift_index_1200_nth:
  "map ((!) shift_index) [1200..<1300] = shift_index_1200"
  by (rule window_nth [where p = "shift_index_0 @ shift_index_100 @ shift_index_200 @ shift_index_300 @ shift_index_400 @ shift_index_500 @ shift_index_600 @ shift_index_700 @ shift_index_800 @ shift_index_900 @ shift_index_1000 @ shift_index_1100" and q = "shift_index_1300 @ shift_index_1400 @ shift_index_1500 @ shift_index_1600 @ shift_index_1700 @ shift_index_1800 @ shift_index_1900 @ shift_index_2000"])
    (simp_all add: shift_index_def shift_index_lengths)

lemma shift_index_1300_nth:
  "map ((!) shift_index) [1300..<1400] = shift_index_1300"
  by (rule window_nth [where p = "shift_index_0 @ shift_index_100 @ shift_index_200 @ shift_index_300 @ shift_index_400 @ shift_index_500 @ shift_index_600 @ shift_index_700 @ shift_index_800 @ shift_index_900 @ shift_index_1000 @ shift_index_1100 @ shift_index_1200" and q = "shift_index_1400 @ shift_index_1500 @ shift_index_1600 @ shift_index_1700 @ shift_index_1800 @ shift_index_1900 @ shift_index_2000"])
    (simp_all add: shift_index_def shift_index_lengths)

lemma shift_index_1400_nth:
  "map ((!) shift_index) [1400..<1500] = shift_index_1400"
  by (rule window_nth [where p = "shift_index_0 @ shift_index_100 @ shift_index_200 @ shift_index_300 @ shift_index_400 @ shift_index_500 @ shift_index_600 @ shift_index_700 @ shift_index_800 @ shift_index_900 @ shift_index_1000 @ shift_index_1100 @ shift_index_1200 @ shift_index_1300" and q = "shift_index_1500 @ shift_index_1600 @ shift_index_1700 @ shift_index_1800 @ shift_index_1900 @ shift_index_2000"])
    (simp_all add: shift_index_def shift_index_lengths)

lemma shift_index_1500_nth:
  "map ((!) shift_index) [1500..<1600] = shift_index_1500"
  by (rule window_nth [where p = "shift_index_0 @ shift_index_100 @ shift_index_200 @ shift_index_300 @ shift_index_400 @ shift_index_500 @ shift_index_600 @ shift_index_700 @ shift_index_800 @ shift_index_900 @ shift_index_1000 @ shift_index_1100 @ shift_index_1200 @ shift_index_1300 @ shift_index_1400" and q = "shift_index_1600 @ shift_index_1700 @ shift_index_1800 @ shift_index_1900 @ shift_index_2000"])
    (simp_all add: shift_index_def shift_index_lengths)

lemma shift_index_1600_nth:
  "map ((!) shift_index) [1600..<1700] = shift_index_1600"
  by (rule window_nth [where p = "shift_index_0 @ shift_index_100 @ shift_index_200 @ shift_index_300 @ shift_index_400 @ shift_index_500 @ shift_index_600 @ shift_index_700 @ shift_index_800 @ shift_index_900 @ shift_index_1000 @ shift_index_1100 @ shift_index_1200 @ shift_index_1300 @ shift_index_1400 @ shift_index_1500" and q = "shift_index_1700 @ shift_index_1800 @ shift_index_1900 @ shift_index_2000"])
    (simp_all add: shift_index_def shift_index_lengths)

lemma shift_index_1700_nth:
  "map ((!) shift_index) [1700..<1800] = shift_index_1700"
  by (rule window_nth [where p = "shift_index_0 @ shift_index_100 @ shift_index_200 @ shift_index_300 @ shift_index_400 @ shift_index_500 @ shift_index_600 @ shift_index_700 @ shift_index_800 @ shift_index_900 @ shift_index_1000 @ shift_index_1100 @ shift_index_1200 @ shift_index_1300 @ shift_index_1400 @ shift_index_1500 @ shift_index_1600" and q = "shift_index_1800 @ shift_index_1900 @ shift_index_2000"])
    (simp_all add: shift_index_def shift_index_lengths)

lemma shift_index_1800_nth:
  "map ((!) shift_index) [1800..<1900] = shift_index_1800"
  by (rule window_nth [where p = "shift_index_0 @ shift_index_100 @ shift_index_200 @ shift_index_300 @ shift_index_400 @ shift_index_500 @ shift_index_600 @ shift_index_700 @ shift_index_800 @ shift_index_900 @ shift_index_1000 @ shift_index_1100 @ shift_index_1200 @ shift_index_1300 @ shift_index_1400 @ shift_index_1500 @ shift_index_1600 @ shift_index_1700" and q = "shift_index_1900 @ shift_index_2000"])
    (simp_all add: shift_index_def shift_index_lengths)

lemma shift_index_1900_nth:
  "map ((!) shift_index) [1900..<2000] = shift_index_1900"
  by (rule window_nth [where p = "shift_index_0 @ shift_index_100 @ shift_index_200 @ shift_index_300 @ shift_index_400 @ shift_index_500 @ shift_index_600 @ shift_index_700 @ shift_index_800 @ shift_index_900 @ shift_index_1000 @ shift_index_1100 @ shift_index_1200 @ shift_index_1300 @ shift_index_1400 @ shift_index_1500 @ shift_index_1600 @ shift_index_1700 @ shift_index_1800" and q = "shift_index_2000"])
    (simp_all add: shift_index_def shift_index_lengths)

lemma shift_index_2000_nth:
  "map ((!) shift_index) [2000..<2097] = shift_index_2000"
  by (rule window_nth [where p = "shift_index_0 @ shift_index_100 @ shift_index_200 @ shift_index_300 @ shift_index_400 @ shift_index_500 @ shift_index_600 @ shift_index_700 @ shift_index_800 @ shift_index_900 @ shift_index_1000 @ shift_index_1100 @ shift_index_1200 @ shift_index_1300 @ shift_index_1400 @ shift_index_1500 @ shift_index_1600 @ shift_index_1700 @ shift_index_1800 @ shift_index_1900" and q = "[]"])
    (simp_all add: shift_index_def shift_index_lengths)

definition goto_index_0 :: "nat list list" where [table_defs]:
  "goto_index_0 = [
  
   [41, 42, 43, 44, 45, 46, 47, 48, 49, 50, 51, 52, 53, 54, 55, 56, 57, 58, 59, 60, 61, 62, 63, 64, 65, 66, 67, 68, 69, 70, 71, 72, 73, 74, 75, 76, 77, 130, 131, 132, 133, 134, 135, 136, 137, 138, 139, 140, 156, 161, 162, 163, 164],
   [], [], [], [15], [], [], [], [], [], [], [], [], [], [], [], [], [], [], [], [], [], [],
   [], [], [], [], [], [], [], [], [], [], [], [], [], [], [], [], [], [], [], [], [], [],
   [], [], [], [], [], [], [], [], [], [], [], [], [], [], [147], [], [], [], [], [13], [],
   [], [], [], [], [], [], [14], [], [], [], [150], [219], [6], [34], [7], [], [], [], [9],
   [], [], [], [8], [], [], [], [], [], [], [16], [21], [], [], []]"

definition goto_index_100 :: "nat list list" where [table_defs]:
  "goto_index_100 = [
   [], [], [], [], [], [179], [], [], [], [], [180], [], [], [144], [], [], [], [], [], [],
   [], [], [], [], [], [], [], [], [], [], [], [], [], [], [], [], [222], [], [], [], [],
   [], [], [], [], [], [0], [], [5], [187], [], [189], [], [], [], [], [], [], [], [], [],
   [], [], [], [], [], [], [], [], [], [], [], [], [], [], [], [], [], [], [151], [], [],
   [], [], [], [], [], [], [], [], [], [], [], [], [], [], [], [], [], []]"

definition goto_index_200 :: "nat list list" where [table_defs]:
  "goto_index_200 = [
   [], [], [], [], [], [], [], [], [], [], [], [], [], [], [], [], [], [], [], [], [], [],
   [], [], [], [], [], [], [], [], [], [], [], [], [], [], [], [], [], [], [], [], [], [],
   [], [], [], [], [], [], [], [], [], [], [], [], [], [], [], [], [], [], [], [], [], [17],
   [], [], [], [], [], [], [], [], [], [], [], [], [], [], [], [], [], [], [], [], [], [],
   [], [], [], [], [], [], [], [], [], [], [], []]"

definition goto_index_300 :: "nat list list" where [table_defs]:
  "goto_index_300 = [
   [], [], [], [], [], [], [], [], [], [], [], [], [], [], [], [], [], [], [], [], [], [],
   [], [], [], [], [], [220], [], [], [], [], [], [], [159], [], [], [], [], [], [], [], [],
   [], [], [], [], [], [], [], [], [78], [], [], [79], [], [], [], [32], [], [], [], [], [],
   [], [], [], [], [], [], [], [], [], [], [], [], [], [], [], [], [], [], [], [], [], [],
   [], [], [], [], [], [], [], [], [], [], [], [], [], []]"

definition goto_index_400 :: "nat list list" where [table_defs]:
  "goto_index_400 = [
   [], [], [], [], [12], [], [], [], [], [141], [], [], [], [], [], [], [], [], [], [], [],
   [], [], [], [], [], [], [], [], [], [], [], [165, 166, 167], [], [], [], [], [10], [],
   [], [], [], [], [], [], [], [], [], [], [], [], [], [], [], [], [], [221], [], [], [],
   [], [], [], [], [], [], [], [], [], [], [], [], [149], [], [], [18], [], [], [], [], [],
   [], [], [], [], [], [], [], [], [], [], [], [], [], [], [], [], [], [], []]"

definition goto_index_500 :: "nat list list" where [table_defs]:
  "goto_index_500 = [
   [], [], [], [223], [], [], [], [], [], [11], [], [33], [3], [], [], [], [], [], [], [],
   [], [], [168], [], [], [], [], [], [], [], [], [], [], [], [202], [], [], [], [], [], [],
   [], [], [], [], [], [], [], [], [], [], [], [], [], [], [], [], [], [], [], [], [], [],
   [], [4], [], [], [], [], [], [], [], [], [146], [], [], [], [], [], [], [], [], [], [],
   [80], [], [], [], [], [], [], [], [], [], [], [], [], [], [], []]"

definition goto_index_600 :: "nat list list" where [table_defs]:
  "goto_index_600 = [
   [], [], [], [], [], [], [169], [], [], [], [], [], [], [], [], [], [], [], [], [], [],
   [], [], [], [], [], [], [], [], [], [], [], [], [210], [], [], [], [], [], [], [], [],
   [], [], [], [], [], [], [], [], [], [], [], [], [], [], [], [], [], [], [], [], [],
   [240], [], [], [], [143], [], [], [], [197], [], [], [], [], [], [], [160], [35], [], [],
   [], [], [], [], [192], [], [], [], [], [], [], [], [], [], [], [], [], []]"

definition goto_index_700 :: "nat list list" where [table_defs]:
  "goto_index_700 = [
   [], [], [], [], [], [], [], [], [], [], [], [], [], [], [], [], [], [], [], [], [], [],
   [], [], [], [], [], [], [], [], [142], [], [], [], [], [], [], [], [], [], [], [145], [],
   [], [], [], [], [], [], [], [], [], [], [], [], [], [], [], [], [], [19], [], [], [], [],
   [], [], [], [], [], [], [], [], [], [], [], [], [], [], [], [], [], [], [], [], [], [],
   [], [], [], [], [], [148], [224], [], [], [], [], [], []]"

definition goto_index_800 :: "nat list list" where [table_defs]:
  "goto_index_800 = [
   [], [], [], [], [], [], [], [], [173], [], [], [], [], [], [], [], [], [], [], [], [],
   [], [], [], [], [], [], [], [], [], [152], [225, 269], [], [], [], [], [], [], [], [],
   [], [], [], [], [], [], [], [20], [], [], [], [], [], [], [], [], [], [], [], [174], [],
   [], [], [], [253], [], [], [], [], [22], [], [], [226], [], [], [], [], [], [], [], [],
   [], [], [], [], [], [24], [30], [227], [175], [], [], [], [], [], [], [], [36], [],
   [176]]"

definition goto_index_900 :: "nat list list" where [table_defs]:
  "goto_index_900 = [
   [], [153, 155], [], [154, 157], [], [], [], [], [], [], [], [], [], [], [], [], [], [],
   [], [], [], [], [], [], [], [], [], [], [], [], [], [], [], [], [], [], [], [], [], [],
   [228], [], [], [], [], [181], [], [], [], [], [], [188], [], [], [229], [], [], [23], [],
   [177, 178], [], [], [], [], [], [], [], [], [], [], [], [], [], [], [], [], [], [], [],
   [], [], [], [230], [], [], [], [], [], [], [], [], [], [], [], [], [], [25], [], [], []]"

definition goto_index_1000 :: "nat list list" where [table_defs]:
  "goto_index_1000 = [
   [], [], [], [], [1], [], [], [], [], [], [], [], [], [], [], [], [], [], [], [], [], [],
   [], [], [], [], [254], [], [], [], [], [], [], [], [], [], [], [], [], [], [], [255], [],
   [], [], [], [], [], [], [27], [199], [], [28], [], [], [], [], [], [], [], [2], [182],
   [], [], [], [183], [], [37], [], [195], [184], [], [], [], [], [], [], [], [], [], [],
   [], [], [], [], [], [], [], [], [], [], [], [], [], [], [], [], [], [], []]"

definition goto_index_1100 :: "nat list list" where [table_defs]:
  "goto_index_1100 = [
   [], [], [], [], [], [], [], [], [], [], [], [], [], [], [38], [], [], [], [170], [], [],
   [], [185], [186], [], [39], [], [231], [29], [], [], [26], [], [], [], [], [], [], [],
   [], [], [], [], [], [], [], [], [], [], [], [], [], [], [], [], [], [], [81], [31], [82],
   [], [], [], [], [194], [], [], [], [], [], [], [], [158], [], [], [], [], [], [], [232],
   [], [], [], [], [], [], [], [], [], [], [], [], [], [], [200], [201], [], [], [], []]"

definition goto_index_1200 :: "nat list list" where [table_defs]:
  "goto_index_1200 = [
   [], [], [], [], [], [], [], [], [], [], [], [], [233], [], [], [], [], [], [], [], [],
   [], [], [], [], [], [], [], [], [], [], [171], [], [196], [], [], [], [], [], [], [], [],
   [], [], [], [], [], [], [], [], [204], [172], [], [], [], [], [], [], [], [], [], [205],
   [], [], [], [211], [190], [83], [256], [], [], [], [], [], [40], [], [213], [], [], [],
   [], [], [], [], [], [], [], [], [], [], [], [], [], [], [], [], [], [], [], []]"

definition goto_index_1300 :: "nat list list" where [table_defs]:
  "goto_index_1300 = [
   [], [], [208], [], [], [84], [], [], [214], [191], [], [], [203], [], [], [], [], [], [],
   [234], [], [], [193], [], [], [], [], [], [], [], [85], [], [], [], [], [], [], [], [],
   [], [], [], [], [], [], [], [], [], [], [], [], [], [86], [], [206], [], [], [198], [],
   [], [], [], [], [], [], [], [], [], [207], [], [], [87], [235], [], [], [], [], [], [],
   [], [], [], [], [], [], [], [], [], [88], [], [], [], [], [], [], [], [], [], [], []]"

definition goto_index_1400 :: "nat list list" where [table_defs]:
  "goto_index_1400 = [
   [], [], [], [263], [], [], [], [], [], [], [212], [], [], [], [], [], [], [], [236], [],
   [], [], [], [89], [], [], [90], [], [], [], [], [], [], [], [91], [], [92], [], [93], [],
   [94], [], [], [95], [], [], [], [], [], [], [], [96], [], [97], [], [98], [], [], [], [],
   [], [], [], [], [], [209], [217], [], [], [99], [], [100], [], [215], [], [], [216], [],
   [], [], [259, 283], [218], [], [], [101], [], [102], [], [], [], [], [], [], [], [], [],
   [103], [], [104], []]"

definition goto_index_1500 :: "nat list list" where [table_defs]:
  "goto_index_1500 = [
   [], [], [], [], [], [], [], [], [], [], [], [], [], [], [264], [], [], [], [], [], [],
   [], [], [105], [], [106], [], [], [237], [], [], [], [], [238], [], [107], [239], [], [],
   [], [], [], [], [], [], [], [], [], [], [], [], [], [], [], [], [], [], [], [], [], [],
   [], [], [241], [], [], [], [], [], [], [108], [], [], [], [109], [], [], [], [], [110],
   [], [], [], [111], [], [], [], [], [], [], [], [], [], [], [], [], [112], [], [], [113]]"

definition goto_index_1600 :: "nat list list" where [table_defs]:
  "goto_index_1600 = [
   [], [], [], [], [242], [], [], [], [114], [], [243], [115], [], [244], [116], [], [],
   [245], [], [], [], [246], [], [], [], [], [], [], [], [], [247], [], [], [], [], [], [],
   [], [], [], [], [], [117], [], [118], [248], [], [], [], [], [], [], [], [276], [],
   [119], [], [120], [], [], [], [], [], [], [], [], [], [], [], [], [], [], [], [], [], [],
   [], [], [], [], [], [], [121], [], [], [], [], [], [], [249], [], [122], [250], [], [],
   [123], [], [124], [], []]"

definition goto_index_1700 :: "nat list list" where [table_defs]:
  "goto_index_1700 = [
   [], [], [278, 284, 285], [], [], [], [289], [251], [252], [277], [], [267], [], [],
   [294], [], [257], [], [], [], [], [], [], [], [], [], [301], [], [], [125], [258], [],
   [], [], [290], [], [], [], [], [279], [280], [126], [291], [281], [127], [296], [128],
   [282], [], [], [129], [], [], [], [], [297], [286], [299], [293], [318], [], [], [],
   [292], [314], [295], [], [319], [], [298], [], [260], [], [300], [], [261], [308], [309],
   [310], [311], [322], [323], [], [], [], [], [], [262], [], [265], [266], [268], [312],
   [270], [271], [272], [287], [273], [274], [313]]"

definition goto_index_1800 :: "nat list list" where [table_defs]:
  "goto_index_1800 = [
   [275], [302], [303], [316], [304], [326], [], [], [315], [325], [288], [305], [327],
   [306], [], [307], [], [], [], [], [], [346], [], [], [347], [], [], [336], [], [337],
   [339], [369], [], [], [], [370], [375], [], [], [], [], [], [376], [], [], [328], [317],
   [], [329], [], [], [], [335], [], [330], [320], [331], [332], [338], [341], [], [], [],
   [343], [], [321], [], [371], [], [], [], [324], [340], [], [342], [], [372], [], [], [],
   [], [], [], [333], [], [], [], [], [], [], [], [], [394], [395], [381], [], [350], [334],
   [377], [396]]"

definition goto_index_1900 :: "nat list list" where [table_defs]:
  "goto_index_1900 = [
   [], [383], [344], [355], [], [359], [], [356], [357], [378], [360], [345], [361], [358],
   [348], [], [349], [362], [], [], [351], [353], [], [352], [354], [], [364], [363], [379],
   [365], [366], [], [367], [], [368], [373], [380], [384], [385], [], [], [374], [386], [],
   [387], [], [], [], [], [], [], [], [], [], [], [], [], [], [], [], [], [], [], [], [],
   [], [], [], [], [], [], [], [], [382], [388], [], [], [], [], [], [], [], [], [], [398],
   [], [], [399], [403], [389], [390], [397], [], [400], [401], [404], [407], [], [405],
   [406]]"

definition goto_index_2000 :: "nat list list" where [table_defs]:
  "goto_index_2000 = [
   [391], [392], [393], [], [402], [], [], [], [], [], [], [408]]"

definition goto_index :: "nat list list" where
  "goto_index = goto_index_0 @ goto_index_100 @ goto_index_200 @ goto_index_300 @ goto_index_400 @ goto_index_500 @ goto_index_600 @ goto_index_700 @ goto_index_800 @ goto_index_900 @ goto_index_1000 @ goto_index_1100 @ goto_index_1200 @ goto_index_1300 @ goto_index_1400 @ goto_index_1500 @ goto_index_1600 @ goto_index_1700 @ goto_index_1800 @ goto_index_1900 @ goto_index_2000"

lemma goto_index_lengths:
  "length goto_index_0 = 100"
  "length goto_index_100 = 100"
  "length goto_index_200 = 100"
  "length goto_index_300 = 100"
  "length goto_index_400 = 100"
  "length goto_index_500 = 100"
  "length goto_index_600 = 100"
  "length goto_index_700 = 100"
  "length goto_index_800 = 100"
  "length goto_index_900 = 100"
  "length goto_index_1000 = 100"
  "length goto_index_1100 = 100"
  "length goto_index_1200 = 100"
  "length goto_index_1300 = 100"
  "length goto_index_1400 = 100"
  "length goto_index_1500 = 100"
  "length goto_index_1600 = 100"
  "length goto_index_1700 = 100"
  "length goto_index_1800 = 100"
  "length goto_index_1900 = 100"
  "length goto_index_2000 = 12"
  by (simp_all add: table_defs)

lemma length_goto_index [simp]: "length goto_index = 2012"
  by (simp add: goto_index_def goto_index_lengths)

lemma goto_index_0_nth:
  "map ((!) goto_index) [0..<100] = goto_index_0"
  by (rule window_nth [where p = "[]" and q = "goto_index_100 @ goto_index_200 @ goto_index_300 @ goto_index_400 @ goto_index_500 @ goto_index_600 @ goto_index_700 @ goto_index_800 @ goto_index_900 @ goto_index_1000 @ goto_index_1100 @ goto_index_1200 @ goto_index_1300 @ goto_index_1400 @ goto_index_1500 @ goto_index_1600 @ goto_index_1700 @ goto_index_1800 @ goto_index_1900 @ goto_index_2000"])
    (simp_all add: goto_index_def goto_index_lengths)

lemma goto_index_100_nth:
  "map ((!) goto_index) [100..<200] = goto_index_100"
  by (rule window_nth [where p = "goto_index_0" and q = "goto_index_200 @ goto_index_300 @ goto_index_400 @ goto_index_500 @ goto_index_600 @ goto_index_700 @ goto_index_800 @ goto_index_900 @ goto_index_1000 @ goto_index_1100 @ goto_index_1200 @ goto_index_1300 @ goto_index_1400 @ goto_index_1500 @ goto_index_1600 @ goto_index_1700 @ goto_index_1800 @ goto_index_1900 @ goto_index_2000"])
    (simp_all add: goto_index_def goto_index_lengths)

lemma goto_index_200_nth:
  "map ((!) goto_index) [200..<300] = goto_index_200"
  by (rule window_nth [where p = "goto_index_0 @ goto_index_100" and q = "goto_index_300 @ goto_index_400 @ goto_index_500 @ goto_index_600 @ goto_index_700 @ goto_index_800 @ goto_index_900 @ goto_index_1000 @ goto_index_1100 @ goto_index_1200 @ goto_index_1300 @ goto_index_1400 @ goto_index_1500 @ goto_index_1600 @ goto_index_1700 @ goto_index_1800 @ goto_index_1900 @ goto_index_2000"])
    (simp_all add: goto_index_def goto_index_lengths)

lemma goto_index_300_nth:
  "map ((!) goto_index) [300..<400] = goto_index_300"
  by (rule window_nth [where p = "goto_index_0 @ goto_index_100 @ goto_index_200" and q = "goto_index_400 @ goto_index_500 @ goto_index_600 @ goto_index_700 @ goto_index_800 @ goto_index_900 @ goto_index_1000 @ goto_index_1100 @ goto_index_1200 @ goto_index_1300 @ goto_index_1400 @ goto_index_1500 @ goto_index_1600 @ goto_index_1700 @ goto_index_1800 @ goto_index_1900 @ goto_index_2000"])
    (simp_all add: goto_index_def goto_index_lengths)

lemma goto_index_400_nth:
  "map ((!) goto_index) [400..<500] = goto_index_400"
  by (rule window_nth [where p = "goto_index_0 @ goto_index_100 @ goto_index_200 @ goto_index_300" and q = "goto_index_500 @ goto_index_600 @ goto_index_700 @ goto_index_800 @ goto_index_900 @ goto_index_1000 @ goto_index_1100 @ goto_index_1200 @ goto_index_1300 @ goto_index_1400 @ goto_index_1500 @ goto_index_1600 @ goto_index_1700 @ goto_index_1800 @ goto_index_1900 @ goto_index_2000"])
    (simp_all add: goto_index_def goto_index_lengths)

lemma goto_index_500_nth:
  "map ((!) goto_index) [500..<600] = goto_index_500"
  by (rule window_nth [where p = "goto_index_0 @ goto_index_100 @ goto_index_200 @ goto_index_300 @ goto_index_400" and q = "goto_index_600 @ goto_index_700 @ goto_index_800 @ goto_index_900 @ goto_index_1000 @ goto_index_1100 @ goto_index_1200 @ goto_index_1300 @ goto_index_1400 @ goto_index_1500 @ goto_index_1600 @ goto_index_1700 @ goto_index_1800 @ goto_index_1900 @ goto_index_2000"])
    (simp_all add: goto_index_def goto_index_lengths)

lemma goto_index_600_nth:
  "map ((!) goto_index) [600..<700] = goto_index_600"
  by (rule window_nth [where p = "goto_index_0 @ goto_index_100 @ goto_index_200 @ goto_index_300 @ goto_index_400 @ goto_index_500" and q = "goto_index_700 @ goto_index_800 @ goto_index_900 @ goto_index_1000 @ goto_index_1100 @ goto_index_1200 @ goto_index_1300 @ goto_index_1400 @ goto_index_1500 @ goto_index_1600 @ goto_index_1700 @ goto_index_1800 @ goto_index_1900 @ goto_index_2000"])
    (simp_all add: goto_index_def goto_index_lengths)

lemma goto_index_700_nth:
  "map ((!) goto_index) [700..<800] = goto_index_700"
  by (rule window_nth [where p = "goto_index_0 @ goto_index_100 @ goto_index_200 @ goto_index_300 @ goto_index_400 @ goto_index_500 @ goto_index_600" and q = "goto_index_800 @ goto_index_900 @ goto_index_1000 @ goto_index_1100 @ goto_index_1200 @ goto_index_1300 @ goto_index_1400 @ goto_index_1500 @ goto_index_1600 @ goto_index_1700 @ goto_index_1800 @ goto_index_1900 @ goto_index_2000"])
    (simp_all add: goto_index_def goto_index_lengths)

lemma goto_index_800_nth:
  "map ((!) goto_index) [800..<900] = goto_index_800"
  by (rule window_nth [where p = "goto_index_0 @ goto_index_100 @ goto_index_200 @ goto_index_300 @ goto_index_400 @ goto_index_500 @ goto_index_600 @ goto_index_700" and q = "goto_index_900 @ goto_index_1000 @ goto_index_1100 @ goto_index_1200 @ goto_index_1300 @ goto_index_1400 @ goto_index_1500 @ goto_index_1600 @ goto_index_1700 @ goto_index_1800 @ goto_index_1900 @ goto_index_2000"])
    (simp_all add: goto_index_def goto_index_lengths)

lemma goto_index_900_nth:
  "map ((!) goto_index) [900..<1000] = goto_index_900"
  by (rule window_nth [where p = "goto_index_0 @ goto_index_100 @ goto_index_200 @ goto_index_300 @ goto_index_400 @ goto_index_500 @ goto_index_600 @ goto_index_700 @ goto_index_800" and q = "goto_index_1000 @ goto_index_1100 @ goto_index_1200 @ goto_index_1300 @ goto_index_1400 @ goto_index_1500 @ goto_index_1600 @ goto_index_1700 @ goto_index_1800 @ goto_index_1900 @ goto_index_2000"])
    (simp_all add: goto_index_def goto_index_lengths)

lemma goto_index_1000_nth:
  "map ((!) goto_index) [1000..<1100] = goto_index_1000"
  by (rule window_nth [where p = "goto_index_0 @ goto_index_100 @ goto_index_200 @ goto_index_300 @ goto_index_400 @ goto_index_500 @ goto_index_600 @ goto_index_700 @ goto_index_800 @ goto_index_900" and q = "goto_index_1100 @ goto_index_1200 @ goto_index_1300 @ goto_index_1400 @ goto_index_1500 @ goto_index_1600 @ goto_index_1700 @ goto_index_1800 @ goto_index_1900 @ goto_index_2000"])
    (simp_all add: goto_index_def goto_index_lengths)

lemma goto_index_1100_nth:
  "map ((!) goto_index) [1100..<1200] = goto_index_1100"
  by (rule window_nth [where p = "goto_index_0 @ goto_index_100 @ goto_index_200 @ goto_index_300 @ goto_index_400 @ goto_index_500 @ goto_index_600 @ goto_index_700 @ goto_index_800 @ goto_index_900 @ goto_index_1000" and q = "goto_index_1200 @ goto_index_1300 @ goto_index_1400 @ goto_index_1500 @ goto_index_1600 @ goto_index_1700 @ goto_index_1800 @ goto_index_1900 @ goto_index_2000"])
    (simp_all add: goto_index_def goto_index_lengths)

lemma goto_index_1200_nth:
  "map ((!) goto_index) [1200..<1300] = goto_index_1200"
  by (rule window_nth [where p = "goto_index_0 @ goto_index_100 @ goto_index_200 @ goto_index_300 @ goto_index_400 @ goto_index_500 @ goto_index_600 @ goto_index_700 @ goto_index_800 @ goto_index_900 @ goto_index_1000 @ goto_index_1100" and q = "goto_index_1300 @ goto_index_1400 @ goto_index_1500 @ goto_index_1600 @ goto_index_1700 @ goto_index_1800 @ goto_index_1900 @ goto_index_2000"])
    (simp_all add: goto_index_def goto_index_lengths)

lemma goto_index_1300_nth:
  "map ((!) goto_index) [1300..<1400] = goto_index_1300"
  by (rule window_nth [where p = "goto_index_0 @ goto_index_100 @ goto_index_200 @ goto_index_300 @ goto_index_400 @ goto_index_500 @ goto_index_600 @ goto_index_700 @ goto_index_800 @ goto_index_900 @ goto_index_1000 @ goto_index_1100 @ goto_index_1200" and q = "goto_index_1400 @ goto_index_1500 @ goto_index_1600 @ goto_index_1700 @ goto_index_1800 @ goto_index_1900 @ goto_index_2000"])
    (simp_all add: goto_index_def goto_index_lengths)

lemma goto_index_1400_nth:
  "map ((!) goto_index) [1400..<1500] = goto_index_1400"
  by (rule window_nth [where p = "goto_index_0 @ goto_index_100 @ goto_index_200 @ goto_index_300 @ goto_index_400 @ goto_index_500 @ goto_index_600 @ goto_index_700 @ goto_index_800 @ goto_index_900 @ goto_index_1000 @ goto_index_1100 @ goto_index_1200 @ goto_index_1300" and q = "goto_index_1500 @ goto_index_1600 @ goto_index_1700 @ goto_index_1800 @ goto_index_1900 @ goto_index_2000"])
    (simp_all add: goto_index_def goto_index_lengths)

lemma goto_index_1500_nth:
  "map ((!) goto_index) [1500..<1600] = goto_index_1500"
  by (rule window_nth [where p = "goto_index_0 @ goto_index_100 @ goto_index_200 @ goto_index_300 @ goto_index_400 @ goto_index_500 @ goto_index_600 @ goto_index_700 @ goto_index_800 @ goto_index_900 @ goto_index_1000 @ goto_index_1100 @ goto_index_1200 @ goto_index_1300 @ goto_index_1400" and q = "goto_index_1600 @ goto_index_1700 @ goto_index_1800 @ goto_index_1900 @ goto_index_2000"])
    (simp_all add: goto_index_def goto_index_lengths)

lemma goto_index_1600_nth:
  "map ((!) goto_index) [1600..<1700] = goto_index_1600"
  by (rule window_nth [where p = "goto_index_0 @ goto_index_100 @ goto_index_200 @ goto_index_300 @ goto_index_400 @ goto_index_500 @ goto_index_600 @ goto_index_700 @ goto_index_800 @ goto_index_900 @ goto_index_1000 @ goto_index_1100 @ goto_index_1200 @ goto_index_1300 @ goto_index_1400 @ goto_index_1500" and q = "goto_index_1700 @ goto_index_1800 @ goto_index_1900 @ goto_index_2000"])
    (simp_all add: goto_index_def goto_index_lengths)

lemma goto_index_1700_nth:
  "map ((!) goto_index) [1700..<1800] = goto_index_1700"
  by (rule window_nth [where p = "goto_index_0 @ goto_index_100 @ goto_index_200 @ goto_index_300 @ goto_index_400 @ goto_index_500 @ goto_index_600 @ goto_index_700 @ goto_index_800 @ goto_index_900 @ goto_index_1000 @ goto_index_1100 @ goto_index_1200 @ goto_index_1300 @ goto_index_1400 @ goto_index_1500 @ goto_index_1600" and q = "goto_index_1800 @ goto_index_1900 @ goto_index_2000"])
    (simp_all add: goto_index_def goto_index_lengths)

lemma goto_index_1800_nth:
  "map ((!) goto_index) [1800..<1900] = goto_index_1800"
  by (rule window_nth [where p = "goto_index_0 @ goto_index_100 @ goto_index_200 @ goto_index_300 @ goto_index_400 @ goto_index_500 @ goto_index_600 @ goto_index_700 @ goto_index_800 @ goto_index_900 @ goto_index_1000 @ goto_index_1100 @ goto_index_1200 @ goto_index_1300 @ goto_index_1400 @ goto_index_1500 @ goto_index_1600 @ goto_index_1700" and q = "goto_index_1900 @ goto_index_2000"])
    (simp_all add: goto_index_def goto_index_lengths)

lemma goto_index_1900_nth:
  "map ((!) goto_index) [1900..<2000] = goto_index_1900"
  by (rule window_nth [where p = "goto_index_0 @ goto_index_100 @ goto_index_200 @ goto_index_300 @ goto_index_400 @ goto_index_500 @ goto_index_600 @ goto_index_700 @ goto_index_800 @ goto_index_900 @ goto_index_1000 @ goto_index_1100 @ goto_index_1200 @ goto_index_1300 @ goto_index_1400 @ goto_index_1500 @ goto_index_1600 @ goto_index_1700 @ goto_index_1800" and q = "goto_index_2000"])
    (simp_all add: goto_index_def goto_index_lengths)

lemma goto_index_2000_nth:
  "map ((!) goto_index) [2000..<2012] = goto_index_2000"
  by (rule window_nth [where p = "goto_index_0 @ goto_index_100 @ goto_index_200 @ goto_index_300 @ goto_index_400 @ goto_index_500 @ goto_index_600 @ goto_index_700 @ goto_index_800 @ goto_index_900 @ goto_index_1000 @ goto_index_1100 @ goto_index_1200 @ goto_index_1300 @ goto_index_1400 @ goto_index_1500 @ goto_index_1600 @ goto_index_1700 @ goto_index_1800 @ goto_index_1900" and q = "[]"])
    (simp_all add: goto_index_def goto_index_lengths)

end
