(* ===== verification/SqEntries.thy ===== *)
theory SqEntries
  imports SqCert
begin

text \<open>
  The checks of the table data: for every entry of the action table and every state it belongs
  to, the items of the target continue those of the state; every reduction finds its rule on the
  stack and a move on its left-hand side; and the ranks fall. Each check is evaluated by the
  simplifier over a piece of a table.
\<close>

section \<open>The checks\<close>

definition lhs_of :: "nat \<Rightarrow> nat" where "lhs_of r = fst (grammar ! r)"

definition rhs_of :: "nat \<Rightarrow> nat list list" where "rhs_of r = snd (grammar ! r)"

text \<open>
  The rules with one symbol on the right that the generator has removed: their right-hand side
  stands on the stack where the left-hand side is meant.
\<close>

definition optimized_rules :: "nat list" where
  "optimized_rules = [342, 352, 359, 360, 368, 370, 371, 372, 376, 378, 382, 383]"

definition optimized_pairs :: "(nat \<times> nat) list" where
  "optimized_pairs = [(186, 187), (203, 205), (210, 211), (210, 212), (228, 230), (233, 223), (235, 236), (239, 240), (264, 260), (217, 216), (284, 211), (284, 193)]"

definition sym_matches :: "nat \<Rightarrow> nat \<Rightarrow> bool" where
  "sym_matches c a =
     (if a = c then True
      else if a < 185 then (if c = 101 then 0 < a else if c = 0 then False else yyFallback ! a = c)
      else (c, a) \<in> set optimized_pairs)"

fun choice_matches :: "nat list \<Rightarrow> nat \<Rightarrow> bool" where
  "choice_matches [] a = False"
| "choice_matches (c # cs) a = (if sym_matches c a then True else choice_matches cs a)"

definition goto_ok :: "nat \<Rightarrow> nat \<Rightarrow> bool" where
  "goto_ok p A =
     (if p \<le> 408 \<and> 0 \<le> yy_reduce_ofst ! p + int A \<and> yy_reduce_ofst ! p + int A < 2096
      then yy_lookahead ! nat (yy_reduce_ofst ! p + int A) = A else False)"

definition goto_of :: "nat \<Rightarrow> nat \<Rightarrow> nat" where
  "goto_of p A = yy_action ! nat (yy_reduce_ofst ! p + int A)"

text \<open>A state, or a rule whose reduction is pending.\<close>

definition items :: "nat \<Rightarrow> (nat \<times> nat) list" where
  "items s = (if s < 575 then item_table ! s else [(s - 1239, length (rhs_of (s - 1239)))])"

definition rank :: "nat \<Rightarrow> nat" where
  "rank s = (if s < 575 then state_rank ! s else rule_rank ! (s - 1239))"

definition known_state :: "nat \<Rightarrow> bool" where
  "known_state s = (if s < 575 then 0 < s else if 1239 \<le> s \<and> s \<le> 1641 then rhs_of (s - 1239) \<noteq> [] \<and> lhs_of (s - 1239) \<noteq> 185 else False)"

definition item_ok :: "nat \<Rightarrow> nat \<Rightarrow> nat \<times> nat \<Rightarrow> bool" where
  "item_ok p a i =
     (let r = fst i; k = snd i in
      0 < k \<and> k \<le> length (rhs_of r) \<and> choice_matches (rhs_of r ! (k - 1)) a \<and>
      (if k = 1 then goto_ok p (lhs_of r) else (r, k - 1) \<in> set (items p)))"

definition move_ok :: "nat \<Rightarrow> nat \<Rightarrow> nat \<Rightarrow> bool" where
  "move_ok p a s \<longleftrightarrow> 0 < a \<and> known_state s \<and> list_all (item_ok p a) (items s)"

definition symbol_weight :: "nat \<Rightarrow> nat" where
  "symbol_weight a = (if a < 185 then 2 else 1)"

fun rhs_weight :: "nat list list \<Rightarrow> nat" where
  "rhs_weight [] = 0"
| "rhs_weight (ch # chs) = (case ch of [] \<Rightarrow> 0 | c # _ \<Rightarrow> symbol_weight c) + rhs_weight chs"

text \<open>A reduction by \<open>r\<close> in state \<open>s\<close>: one with right-hand side, one without.\<close>

definition reduce_ok :: "nat \<Rightarrow> nat \<Rightarrow> bool" where
  "reduce_ok s r =
     (if 403 \<le> r then False
      else if rhs_of r = [] then
        goto_ok s (lhs_of r) \<and>
        (if goto_of s (lhs_of r) = 1237 then True else 2 + rank (goto_of s (lhs_of r)) \<le> rank s)
      else (r, length (rhs_of r)) \<in> set (items s) \<and>
        2 + goto_rank ! lhs_of r \<le> rank s + rhs_weight (rhs_of r))"

definition shift_target :: "nat \<Rightarrow> nat" where
  "shift_target a = (if a \<le> 574 then a else a + 406)"

definition term_ok :: "nat \<Rightarrow> nat \<Rightarrow> nat \<Rightarrow> bool" where
  "term_ok p t a =
     (if a \<le> 574 then move_ok p t a
      else if 1239 \<le> a then (if lhs_of (a - 1239) = 185 then t = 0 else True) \<and> reduce_ok p (a - 1239)
      else if 833 \<le> a \<and> a \<le> 1235 then move_ok p t (shift_target a)
      else False)"

definition nonterm_ok :: "nat \<Rightarrow> nat \<Rightarrow> nat \<Rightarrow> bool" where
  "nonterm_ok p A a =
     (if a = 1237 then p = 0 \<and> A = 185
      else (a \<le> 574 \<or> 1239 \<le> a) \<and> move_ok p A a \<and> rank a \<le> goto_rank ! A)"

definition position_ok :: "nat \<Rightarrow> bool" where
  "position_ok i =
     (let x = yy_lookahead ! i in
      if x < 185 then
        (if x \<le> i then list_all (\<lambda>p. term_ok p x (yy_action ! i)) (shift_index ! (i - x)) else True)
      else if x < 319 \<and> x \<le> i + 271 \<and> i + 271 - x < 2012 then
        list_all (\<lambda>p. nonterm_ok p x (yy_action ! i)) (goto_index ! (i + 271 - x))
      else True)"

definition default_ok :: "nat \<Rightarrow> bool" where
  "default_ok s =
     (let a = yy_default ! s in
      if a = 1236 then True else if 1239 \<le> a \<and> a \<le> 1641 then lhs_of (a - 1239) \<noteq> 185 \<and> reduce_ok s (a - 1239)
      else False)"

text \<open>A pending reduction.\<close>

definition pending_ok :: "nat \<Rightarrow> bool" where
  "pending_ok r = (if rhs_of r = [] then True else if lhs_of r = 185 then True else reduce_ok (1239 + r) r)"

definition pair_ok :: "nat \<times> nat \<Rightarrow> nat \<Rightarrow> bool" where
  "pair_ok p r \<longleftrightarrow> r < 403 \<and> lhs_of r = fst p \<and> rhs_of r = [[snd p]]"

definition index_ok :: "nat \<Rightarrow> bool" where
  "index_ok s = (s \<in> set (shift_index ! (yy_shift_ofst ! s)))"

definition goto_index_ok :: "nat \<Rightarrow> bool" where
  "goto_index_ok s = (s \<in> set (goto_index ! nat (yy_reduce_ofst ! s + 271)))"

section \<open>The entries of the tables\<close>

lemmas yy_action_0_entries = yy_action_0_nth [unfolded yy_action_0_def, simplified upt_from_0, simplified]

lemmas yy_action_100_entries = yy_action_100_nth [unfolded yy_action_100_def, simplified]

lemmas yy_action_200_entries = yy_action_200_nth [unfolded yy_action_200_def, simplified]

lemmas yy_action_300_entries = yy_action_300_nth [unfolded yy_action_300_def, simplified]

lemmas yy_action_400_entries = yy_action_400_nth [unfolded yy_action_400_def, simplified]

lemmas yy_action_500_entries = yy_action_500_nth [unfolded yy_action_500_def, simplified]

lemmas yy_action_600_entries = yy_action_600_nth [unfolded yy_action_600_def, simplified]

lemmas yy_action_700_entries = yy_action_700_nth [unfolded yy_action_700_def, simplified]

lemmas yy_action_800_entries = yy_action_800_nth [unfolded yy_action_800_def, simplified]

lemmas yy_action_900_entries = yy_action_900_nth [unfolded yy_action_900_def, simplified]

lemmas yy_action_1000_entries = yy_action_1000_nth [unfolded yy_action_1000_def, simplified]

lemmas yy_action_1100_entries = yy_action_1100_nth [unfolded yy_action_1100_def, simplified]

lemmas yy_action_1200_entries = yy_action_1200_nth [unfolded yy_action_1200_def, simplified]

lemmas yy_action_1300_entries = yy_action_1300_nth [unfolded yy_action_1300_def, simplified]

lemmas yy_action_1400_entries = yy_action_1400_nth [unfolded yy_action_1400_def, simplified]

lemmas yy_action_1500_entries = yy_action_1500_nth [unfolded yy_action_1500_def, simplified]

lemmas yy_action_1600_entries = yy_action_1600_nth [unfolded yy_action_1600_def, simplified]

lemmas yy_action_1700_entries = yy_action_1700_nth [unfolded yy_action_1700_def, simplified]

lemmas yy_action_1800_entries = yy_action_1800_nth [unfolded yy_action_1800_def, simplified]

lemmas yy_action_1900_entries = yy_action_1900_nth [unfolded yy_action_1900_def, simplified]

lemmas yy_action_2000_entries = yy_action_2000_nth [unfolded yy_action_2000_def, simplified]

lemmas yy_action_entries = yy_action_0_entries yy_action_100_entries yy_action_200_entries yy_action_300_entries yy_action_400_entries yy_action_500_entries yy_action_600_entries yy_action_700_entries yy_action_800_entries yy_action_900_entries yy_action_1000_entries yy_action_1100_entries yy_action_1200_entries yy_action_1300_entries yy_action_1400_entries yy_action_1500_entries yy_action_1600_entries yy_action_1700_entries yy_action_1800_entries yy_action_1900_entries yy_action_2000_entries

lemmas yy_lookahead_0_entries = yy_lookahead_0_nth [unfolded yy_lookahead_0_def, simplified upt_from_0, simplified]

lemmas yy_lookahead_100_entries = yy_lookahead_100_nth [unfolded yy_lookahead_100_def, simplified]

lemmas yy_lookahead_200_entries = yy_lookahead_200_nth [unfolded yy_lookahead_200_def, simplified]

lemmas yy_lookahead_300_entries = yy_lookahead_300_nth [unfolded yy_lookahead_300_def, simplified]

lemmas yy_lookahead_400_entries = yy_lookahead_400_nth [unfolded yy_lookahead_400_def, simplified]

lemmas yy_lookahead_500_entries = yy_lookahead_500_nth [unfolded yy_lookahead_500_def, simplified]

lemmas yy_lookahead_600_entries = yy_lookahead_600_nth [unfolded yy_lookahead_600_def, simplified]

lemmas yy_lookahead_700_entries = yy_lookahead_700_nth [unfolded yy_lookahead_700_def, simplified]

lemmas yy_lookahead_800_entries = yy_lookahead_800_nth [unfolded yy_lookahead_800_def, simplified]

lemmas yy_lookahead_900_entries = yy_lookahead_900_nth [unfolded yy_lookahead_900_def, simplified]

lemmas yy_lookahead_1000_entries = yy_lookahead_1000_nth [unfolded yy_lookahead_1000_def, simplified]

lemmas yy_lookahead_1100_entries = yy_lookahead_1100_nth [unfolded yy_lookahead_1100_def, simplified]

lemmas yy_lookahead_1200_entries = yy_lookahead_1200_nth [unfolded yy_lookahead_1200_def, simplified]

lemmas yy_lookahead_1300_entries = yy_lookahead_1300_nth [unfolded yy_lookahead_1300_def, simplified]

lemmas yy_lookahead_1400_entries = yy_lookahead_1400_nth [unfolded yy_lookahead_1400_def, simplified]

lemmas yy_lookahead_1500_entries = yy_lookahead_1500_nth [unfolded yy_lookahead_1500_def, simplified]

lemmas yy_lookahead_1600_entries = yy_lookahead_1600_nth [unfolded yy_lookahead_1600_def, simplified]

lemmas yy_lookahead_1700_entries = yy_lookahead_1700_nth [unfolded yy_lookahead_1700_def, simplified]

lemmas yy_lookahead_1800_entries = yy_lookahead_1800_nth [unfolded yy_lookahead_1800_def, simplified]

lemmas yy_lookahead_1900_entries = yy_lookahead_1900_nth [unfolded yy_lookahead_1900_def, simplified]

lemmas yy_lookahead_2000_entries = yy_lookahead_2000_nth [unfolded yy_lookahead_2000_def, simplified]

lemmas yy_lookahead_2100_entries = yy_lookahead_2100_nth [unfolded yy_lookahead_2100_def, simplified]

lemmas yy_lookahead_2200_entries = yy_lookahead_2200_nth [unfolded yy_lookahead_2200_def, simplified]

lemmas yy_lookahead_entries = yy_lookahead_0_entries yy_lookahead_100_entries yy_lookahead_200_entries yy_lookahead_300_entries yy_lookahead_400_entries yy_lookahead_500_entries yy_lookahead_600_entries yy_lookahead_700_entries yy_lookahead_800_entries yy_lookahead_900_entries yy_lookahead_1000_entries yy_lookahead_1100_entries yy_lookahead_1200_entries yy_lookahead_1300_entries yy_lookahead_1400_entries yy_lookahead_1500_entries yy_lookahead_1600_entries yy_lookahead_1700_entries yy_lookahead_1800_entries yy_lookahead_1900_entries yy_lookahead_2000_entries yy_lookahead_2100_entries yy_lookahead_2200_entries

lemmas yy_shift_ofst_0_entries = yy_shift_ofst_0_nth [unfolded yy_shift_ofst_0_def, simplified upt_from_0, simplified]

lemmas yy_shift_ofst_100_entries = yy_shift_ofst_100_nth [unfolded yy_shift_ofst_100_def, simplified]

lemmas yy_shift_ofst_200_entries = yy_shift_ofst_200_nth [unfolded yy_shift_ofst_200_def, simplified]

lemmas yy_shift_ofst_300_entries = yy_shift_ofst_300_nth [unfolded yy_shift_ofst_300_def, simplified]

lemmas yy_shift_ofst_400_entries = yy_shift_ofst_400_nth [unfolded yy_shift_ofst_400_def, simplified]

lemmas yy_shift_ofst_500_entries = yy_shift_ofst_500_nth [unfolded yy_shift_ofst_500_def, simplified]

lemmas yy_shift_ofst_entries = yy_shift_ofst_0_entries yy_shift_ofst_100_entries yy_shift_ofst_200_entries yy_shift_ofst_300_entries yy_shift_ofst_400_entries yy_shift_ofst_500_entries

lemmas yy_reduce_ofst_0_entries = yy_reduce_ofst_0_nth [unfolded yy_reduce_ofst_0_def, simplified upt_from_0, simplified]

lemmas yy_reduce_ofst_100_entries = yy_reduce_ofst_100_nth [unfolded yy_reduce_ofst_100_def, simplified]

lemmas yy_reduce_ofst_200_entries = yy_reduce_ofst_200_nth [unfolded yy_reduce_ofst_200_def, simplified]

lemmas yy_reduce_ofst_300_entries = yy_reduce_ofst_300_nth [unfolded yy_reduce_ofst_300_def, simplified]

lemmas yy_reduce_ofst_400_entries = yy_reduce_ofst_400_nth [unfolded yy_reduce_ofst_400_def, simplified]

lemmas yy_reduce_ofst_entries = yy_reduce_ofst_0_entries yy_reduce_ofst_100_entries yy_reduce_ofst_200_entries yy_reduce_ofst_300_entries yy_reduce_ofst_400_entries

lemmas yy_default_0_entries = yy_default_0_nth [unfolded yy_default_0_def, simplified upt_from_0, simplified]

lemmas yy_default_100_entries = yy_default_100_nth [unfolded yy_default_100_def, simplified]

lemmas yy_default_200_entries = yy_default_200_nth [unfolded yy_default_200_def, simplified]

lemmas yy_default_300_entries = yy_default_300_nth [unfolded yy_default_300_def, simplified]

lemmas yy_default_400_entries = yy_default_400_nth [unfolded yy_default_400_def, simplified]

lemmas yy_default_500_entries = yy_default_500_nth [unfolded yy_default_500_def, simplified]

lemmas yy_default_entries = yy_default_0_entries yy_default_100_entries yy_default_200_entries yy_default_300_entries yy_default_400_entries yy_default_500_entries

lemmas yyFallback_0_entries = yyFallback_0_nth [unfolded yyFallback_0_def, simplified upt_from_0, simplified]

lemmas yyFallback_100_entries = yyFallback_100_nth [unfolded yyFallback_100_def, simplified]

lemmas yyFallback_entries = yyFallback_0_entries yyFallback_100_entries

lemmas grammar_0_entries = grammar_0_nth [unfolded grammar_0_def symbol_defs, simplified upt_from_0, simplified]

lemmas grammar_50_entries = grammar_50_nth [unfolded grammar_50_def symbol_defs, simplified]

lemmas grammar_100_entries = grammar_100_nth [unfolded grammar_100_def symbol_defs, simplified]

lemmas grammar_150_entries = grammar_150_nth [unfolded grammar_150_def symbol_defs, simplified]

lemmas grammar_200_entries = grammar_200_nth [unfolded grammar_200_def symbol_defs, simplified]

lemmas grammar_250_entries = grammar_250_nth [unfolded grammar_250_def symbol_defs, simplified]

lemmas grammar_300_entries = grammar_300_nth [unfolded grammar_300_def symbol_defs, simplified]

lemmas grammar_350_entries = grammar_350_nth [unfolded grammar_350_def symbol_defs, simplified]

lemmas grammar_400_entries = grammar_400_nth [unfolded grammar_400_def symbol_defs, simplified]

lemmas grammar_entries = grammar_0_entries grammar_50_entries grammar_100_entries grammar_150_entries grammar_200_entries grammar_250_entries grammar_300_entries grammar_350_entries grammar_400_entries

lemmas item_table_0_entries = item_table_0_nth [unfolded item_table_0_def, simplified upt_from_0, simplified]

lemmas item_table_100_entries = item_table_100_nth [unfolded item_table_100_def, simplified]

lemmas item_table_200_entries = item_table_200_nth [unfolded item_table_200_def, simplified]

lemmas item_table_300_entries = item_table_300_nth [unfolded item_table_300_def, simplified]

lemmas item_table_400_entries = item_table_400_nth [unfolded item_table_400_def, simplified]

lemmas item_table_500_entries = item_table_500_nth [unfolded item_table_500_def, simplified]

lemmas item_table_entries = item_table_0_entries item_table_100_entries item_table_200_entries item_table_300_entries item_table_400_entries item_table_500_entries

lemmas state_rank_0_entries = state_rank_0_nth [unfolded state_rank_0_def, simplified upt_from_0, simplified]

lemmas state_rank_100_entries = state_rank_100_nth [unfolded state_rank_100_def, simplified]

lemmas state_rank_200_entries = state_rank_200_nth [unfolded state_rank_200_def, simplified]

lemmas state_rank_300_entries = state_rank_300_nth [unfolded state_rank_300_def, simplified]

lemmas state_rank_400_entries = state_rank_400_nth [unfolded state_rank_400_def, simplified]

lemmas state_rank_500_entries = state_rank_500_nth [unfolded state_rank_500_def, simplified]

lemmas state_rank_entries = state_rank_0_entries state_rank_100_entries state_rank_200_entries state_rank_300_entries state_rank_400_entries state_rank_500_entries

lemmas rule_rank_0_entries = rule_rank_0_nth [unfolded rule_rank_0_def, simplified upt_from_0, simplified]

lemmas rule_rank_100_entries = rule_rank_100_nth [unfolded rule_rank_100_def, simplified]

lemmas rule_rank_200_entries = rule_rank_200_nth [unfolded rule_rank_200_def, simplified]

lemmas rule_rank_300_entries = rule_rank_300_nth [unfolded rule_rank_300_def, simplified]

lemmas rule_rank_400_entries = rule_rank_400_nth [unfolded rule_rank_400_def, simplified]

lemmas rule_rank_entries = rule_rank_0_entries rule_rank_100_entries rule_rank_200_entries rule_rank_300_entries rule_rank_400_entries

lemmas goto_rank_0_entries = goto_rank_0_nth [unfolded goto_rank_0_def, simplified upt_from_0, simplified]

lemmas goto_rank_100_entries = goto_rank_100_nth [unfolded goto_rank_100_def, simplified]

lemmas goto_rank_200_entries = goto_rank_200_nth [unfolded goto_rank_200_def, simplified]

lemmas goto_rank_300_entries = goto_rank_300_nth [unfolded goto_rank_300_def, simplified]

lemmas goto_rank_entries = goto_rank_0_entries goto_rank_100_entries goto_rank_200_entries goto_rank_300_entries

lemmas shift_index_0_entries = shift_index_0_nth [unfolded shift_index_0_def, simplified upt_from_0, simplified]

lemmas shift_index_100_entries = shift_index_100_nth [unfolded shift_index_100_def, simplified]

lemmas shift_index_200_entries = shift_index_200_nth [unfolded shift_index_200_def, simplified]

lemmas shift_index_300_entries = shift_index_300_nth [unfolded shift_index_300_def, simplified]

lemmas shift_index_400_entries = shift_index_400_nth [unfolded shift_index_400_def, simplified]

lemmas shift_index_500_entries = shift_index_500_nth [unfolded shift_index_500_def, simplified]

lemmas shift_index_600_entries = shift_index_600_nth [unfolded shift_index_600_def, simplified]

lemmas shift_index_700_entries = shift_index_700_nth [unfolded shift_index_700_def, simplified]

lemmas shift_index_800_entries = shift_index_800_nth [unfolded shift_index_800_def, simplified]

lemmas shift_index_900_entries = shift_index_900_nth [unfolded shift_index_900_def, simplified]

lemmas shift_index_1000_entries = shift_index_1000_nth [unfolded shift_index_1000_def, simplified]

lemmas shift_index_1100_entries = shift_index_1100_nth [unfolded shift_index_1100_def, simplified]

lemmas shift_index_1200_entries = shift_index_1200_nth [unfolded shift_index_1200_def, simplified]

lemmas shift_index_1300_entries = shift_index_1300_nth [unfolded shift_index_1300_def, simplified]

lemmas shift_index_1400_entries = shift_index_1400_nth [unfolded shift_index_1400_def, simplified]

lemmas shift_index_1500_entries = shift_index_1500_nth [unfolded shift_index_1500_def, simplified]

lemmas shift_index_1600_entries = shift_index_1600_nth [unfolded shift_index_1600_def, simplified]

lemmas shift_index_1700_entries = shift_index_1700_nth [unfolded shift_index_1700_def, simplified]

lemmas shift_index_1800_entries = shift_index_1800_nth [unfolded shift_index_1800_def, simplified]

lemmas shift_index_1900_entries = shift_index_1900_nth [unfolded shift_index_1900_def, simplified]

lemmas shift_index_2000_entries = shift_index_2000_nth [unfolded shift_index_2000_def, simplified]

lemmas shift_index_entries = shift_index_0_entries shift_index_100_entries shift_index_200_entries shift_index_300_entries shift_index_400_entries shift_index_500_entries shift_index_600_entries shift_index_700_entries shift_index_800_entries shift_index_900_entries shift_index_1000_entries shift_index_1100_entries shift_index_1200_entries shift_index_1300_entries shift_index_1400_entries shift_index_1500_entries shift_index_1600_entries shift_index_1700_entries shift_index_1800_entries shift_index_1900_entries shift_index_2000_entries

lemmas goto_index_0_entries = goto_index_0_nth [unfolded goto_index_0_def, simplified upt_from_0, simplified]

lemmas goto_index_100_entries = goto_index_100_nth [unfolded goto_index_100_def, simplified]

lemmas goto_index_200_entries = goto_index_200_nth [unfolded goto_index_200_def, simplified]

lemmas goto_index_300_entries = goto_index_300_nth [unfolded goto_index_300_def, simplified]

lemmas goto_index_400_entries = goto_index_400_nth [unfolded goto_index_400_def, simplified]

lemmas goto_index_500_entries = goto_index_500_nth [unfolded goto_index_500_def, simplified]

lemmas goto_index_600_entries = goto_index_600_nth [unfolded goto_index_600_def, simplified]

lemmas goto_index_700_entries = goto_index_700_nth [unfolded goto_index_700_def, simplified]

lemmas goto_index_800_entries = goto_index_800_nth [unfolded goto_index_800_def, simplified]

lemmas goto_index_900_entries = goto_index_900_nth [unfolded goto_index_900_def, simplified]

lemmas goto_index_1000_entries = goto_index_1000_nth [unfolded goto_index_1000_def, simplified]

lemmas goto_index_1100_entries = goto_index_1100_nth [unfolded goto_index_1100_def, simplified]

lemmas goto_index_1200_entries = goto_index_1200_nth [unfolded goto_index_1200_def, simplified]

lemmas goto_index_1300_entries = goto_index_1300_nth [unfolded goto_index_1300_def, simplified]

lemmas goto_index_1400_entries = goto_index_1400_nth [unfolded goto_index_1400_def, simplified]

lemmas goto_index_1500_entries = goto_index_1500_nth [unfolded goto_index_1500_def, simplified]

lemmas goto_index_1600_entries = goto_index_1600_nth [unfolded goto_index_1600_def, simplified]

lemmas goto_index_1700_entries = goto_index_1700_nth [unfolded goto_index_1700_def, simplified]

lemmas goto_index_1800_entries = goto_index_1800_nth [unfolded goto_index_1800_def, simplified]

lemmas goto_index_1900_entries = goto_index_1900_nth [unfolded goto_index_1900_def, simplified]

lemmas goto_index_2000_entries = goto_index_2000_nth [unfolded goto_index_2000_def, simplified]

lemmas goto_index_entries = goto_index_0_entries goto_index_100_entries goto_index_200_entries goto_index_300_entries goto_index_400_entries goto_index_500_entries goto_index_600_entries goto_index_700_entries goto_index_800_entries goto_index_900_entries goto_index_1000_entries goto_index_1100_entries goto_index_1200_entries goto_index_1300_entries goto_index_1400_entries goto_index_1500_entries goto_index_1600_entries goto_index_1700_entries goto_index_1800_entries goto_index_1900_entries goto_index_2000_entries

lemmas check_defs = lhs_of_def rhs_of_def sym_matches_def goto_ok_def goto_of_def items_def rank_def known_state_def item_ok_def move_ok_def symbol_weight_def reduce_ok_def shift_target_def term_ok_def nonterm_ok_def optimized_pairs_def Let_def

lemmas move_entries = yyFallback_entries yy_lookahead_entries yy_action_entries yy_reduce_ofst_entries grammar_entries item_table_entries state_rank_entries rule_rank_entries goto_rank_entries

end
