(* ===== verification/SqChecks.thy ===== *)
theory SqChecks
  imports SqEntries
begin

text \<open>The checks of \<open>SqEntries\<close>, evaluated piece by piece.\<close>

declare move_entries [simp] shift_index_entries [simp] goto_index_entries [simp]
  yy_default_entries [simp] yy_shift_ofst_entries [simp]

section \<open>Evaluation\<close>

lemma positions_0: "list_all position_ok [0..<50]"
  by (simp add: upt_from_0 position_ok_def check_defs)

lemma positions_50: "list_all position_ok [50..<100]"
  by (simp add: position_ok_def check_defs)

lemma positions_100: "list_all position_ok [100..<150]"
  by (simp add: position_ok_def check_defs)

lemma positions_150: "list_all position_ok [150..<200]"
  by (simp add: position_ok_def check_defs)

lemma positions_200: "list_all position_ok [200..<250]"
  by (simp add: position_ok_def check_defs)

lemma positions_250: "list_all position_ok [250..<300]"
  by (simp add: position_ok_def check_defs)

lemma positions_300: "list_all position_ok [300..<350]"
  by (simp add: position_ok_def check_defs)

lemma positions_350: "list_all position_ok [350..<400]"
  by (simp add: position_ok_def check_defs)

lemma positions_400: "list_all position_ok [400..<450]"
  by (simp add: position_ok_def check_defs)

lemma positions_450: "list_all position_ok [450..<500]"
  by (simp add: position_ok_def check_defs)

lemma positions_500: "list_all position_ok [500..<550]"
  by (simp add: position_ok_def check_defs)

lemma positions_550: "list_all position_ok [550..<600]"
  by (simp add: position_ok_def check_defs)

lemma positions_600: "list_all position_ok [600..<650]"
  by (simp add: position_ok_def check_defs)

lemma positions_650: "list_all position_ok [650..<700]"
  by (simp add: position_ok_def check_defs)

lemma positions_700: "list_all position_ok [700..<750]"
  by (simp add: position_ok_def check_defs)

lemma positions_750: "list_all position_ok [750..<800]"
  by (simp add: position_ok_def check_defs)

lemma positions_800: "list_all position_ok [800..<850]"
  by (simp add: position_ok_def check_defs)

lemma positions_850: "list_all position_ok [850..<900]"
  by (simp add: position_ok_def check_defs)

lemma positions_900: "list_all position_ok [900..<950]"
  by (simp add: position_ok_def check_defs)

lemma positions_950: "list_all position_ok [950..<1000]"
  by (simp add: position_ok_def check_defs)

lemma positions_1000: "list_all position_ok [1000..<1050]"
  by (simp add: position_ok_def check_defs)

lemma positions_1050: "list_all position_ok [1050..<1100]"
  by (simp add: position_ok_def check_defs)

lemma positions_1100: "list_all position_ok [1100..<1150]"
  by (simp add: position_ok_def check_defs)

lemma positions_1150: "list_all position_ok [1150..<1200]"
  by (simp add: position_ok_def check_defs)

lemma positions_1200: "list_all position_ok [1200..<1250]"
  by (simp add: position_ok_def check_defs)

lemma positions_1250: "list_all position_ok [1250..<1300]"
  by (simp add: position_ok_def check_defs)

lemma positions_1300: "list_all position_ok [1300..<1350]"
  by (simp add: position_ok_def check_defs)

lemma positions_1350: "list_all position_ok [1350..<1400]"
  by (simp add: position_ok_def check_defs)

lemma positions_1400: "list_all position_ok [1400..<1450]"
  by (simp add: position_ok_def check_defs)

lemma positions_1450: "list_all position_ok [1450..<1500]"
  by (simp add: position_ok_def check_defs)

lemma positions_1500: "list_all position_ok [1500..<1550]"
  by (simp add: position_ok_def check_defs)

lemma positions_1550: "list_all position_ok [1550..<1600]"
  by (simp add: position_ok_def check_defs)

lemma positions_1600: "list_all position_ok [1600..<1650]"
  by (simp add: position_ok_def check_defs)

lemma positions_1650: "list_all position_ok [1650..<1700]"
  by (simp add: position_ok_def check_defs)

lemma positions_1700: "list_all position_ok [1700..<1750]"
  by (simp add: position_ok_def check_defs)

lemma positions_1750: "list_all position_ok [1750..<1800]"
  by (simp add: position_ok_def check_defs)

lemma positions_1800: "list_all position_ok [1800..<1850]"
  by (simp add: position_ok_def check_defs)

lemma positions_1850: "list_all position_ok [1850..<1900]"
  by (simp add: position_ok_def check_defs)

lemma positions_1900: "list_all position_ok [1900..<1950]"
  by (simp add: position_ok_def check_defs)

lemma positions_1950: "list_all position_ok [1950..<2000]"
  by (simp add: position_ok_def check_defs)

lemma positions_2000: "list_all position_ok [2000..<2050]"
  by (simp add: position_ok_def check_defs)

lemma positions_2050: "list_all position_ok [2050..<2100]"
  by (simp add: position_ok_def check_defs)

lemma positions_2100: "list_all position_ok [2100..<2150]"
  by (simp add: position_ok_def check_defs)

lemma positions_2150: "list_all position_ok [2150..<2200]"
  by (simp add: position_ok_def check_defs)

lemma positions_2200: "list_all position_ok [2200..<2250]"
  by (simp add: position_ok_def check_defs)

lemma positions_2250: "list_all position_ok [2250..<2281]"
  by (simp add: position_ok_def check_defs)

lemma defaults_0: "list_all default_ok [0..<50]"
  by (simp add: upt_from_0 default_ok_def check_defs)

lemma indexes_0: "list_all index_ok [0..<50]"
  by (simp add: upt_from_0 index_ok_def)

lemma defaults_50: "list_all default_ok [50..<100]"
  by (simp add: default_ok_def check_defs)

lemma indexes_50: "list_all index_ok [50..<100]"
  by (simp add: index_ok_def)

lemma defaults_100: "list_all default_ok [100..<150]"
  by (simp add: default_ok_def check_defs)

lemma indexes_100: "list_all index_ok [100..<150]"
  by (simp add: index_ok_def)

lemma defaults_150: "list_all default_ok [150..<200]"
  by (simp add: default_ok_def check_defs)

lemma indexes_150: "list_all index_ok [150..<200]"
  by (simp add: index_ok_def)

lemma defaults_200: "list_all default_ok [200..<250]"
  by (simp add: default_ok_def check_defs)

lemma indexes_200: "list_all index_ok [200..<250]"
  by (simp add: index_ok_def)

lemma defaults_250: "list_all default_ok [250..<300]"
  by (simp add: default_ok_def check_defs)

lemma indexes_250: "list_all index_ok [250..<300]"
  by (simp add: index_ok_def)

lemma defaults_300: "list_all default_ok [300..<350]"
  by (simp add: default_ok_def check_defs)

lemma indexes_300: "list_all index_ok [300..<350]"
  by (simp add: index_ok_def)

lemma defaults_350: "list_all default_ok [350..<400]"
  by (simp add: default_ok_def check_defs)

lemma indexes_350: "list_all index_ok [350..<400]"
  by (simp add: index_ok_def)

lemma defaults_400: "list_all default_ok [400..<450]"
  by (simp add: default_ok_def check_defs)

lemma indexes_400: "list_all index_ok [400..<450]"
  by (simp add: index_ok_def)

lemma defaults_450: "list_all default_ok [450..<500]"
  by (simp add: default_ok_def check_defs)

lemma indexes_450: "list_all index_ok [450..<500]"
  by (simp add: index_ok_def)

lemma defaults_500: "list_all default_ok [500..<550]"
  by (simp add: default_ok_def check_defs)

lemma indexes_500: "list_all index_ok [500..<550]"
  by (simp add: index_ok_def)

lemma defaults_550: "list_all default_ok [550..<575]"
  by (simp add: default_ok_def check_defs)

lemma indexes_550: "list_all index_ok [550..<575]"
  by (simp add: index_ok_def)

lemma goto_indexes_0: "list_all goto_index_ok [0..<50]"
  by (simp add: upt_from_0 goto_index_ok_def)

lemma goto_indexes_50: "list_all goto_index_ok [50..<100]"
  by (simp add: goto_index_ok_def)

lemma goto_indexes_100: "list_all goto_index_ok [100..<150]"
  by (simp add: goto_index_ok_def)

lemma goto_indexes_150: "list_all goto_index_ok [150..<200]"
  by (simp add: goto_index_ok_def)

lemma goto_indexes_200: "list_all goto_index_ok [200..<250]"
  by (simp add: goto_index_ok_def)

lemma goto_indexes_250: "list_all goto_index_ok [250..<300]"
  by (simp add: goto_index_ok_def)

lemma goto_indexes_300: "list_all goto_index_ok [300..<350]"
  by (simp add: goto_index_ok_def)

lemma goto_indexes_350: "list_all goto_index_ok [350..<400]"
  by (simp add: goto_index_ok_def)

lemma goto_indexes_400: "list_all goto_index_ok [400..<409]"
  by (simp add: goto_index_ok_def)

lemma pendings_0: "list_all pending_ok [0..<50]"
  by (simp add: upt_from_0 pending_ok_def check_defs)

lemma pendings_50: "list_all pending_ok [50..<100]"
  by (simp add: pending_ok_def check_defs)

lemma pendings_100: "list_all pending_ok [100..<150]"
  by (simp add: pending_ok_def check_defs)

lemma pendings_150: "list_all pending_ok [150..<200]"
  by (simp add: pending_ok_def check_defs)

lemma pendings_200: "list_all pending_ok [200..<250]"
  by (simp add: pending_ok_def check_defs)

lemma pendings_250: "list_all pending_ok [250..<300]"
  by (simp add: pending_ok_def check_defs)

lemma pendings_300: "list_all pending_ok [300..<350]"
  by (simp add: pending_ok_def check_defs)

lemma pendings_350: "list_all pending_ok [350..<400]"
  by (simp add: pending_ok_def check_defs)

lemma pendings_400: "list_all pending_ok [400..<403]"
  by (simp add: pending_ok_def check_defs)

lemma optimized_pairs_ok: "list_all2 pair_ok optimized_pairs optimized_rules"
  by (simp add: optimized_pairs_def optimized_rules_def pair_ok_def lhs_of_def rhs_of_def)

lemma lookahead_tail: "list_all (\<lambda>i. yy_lookahead ! i = 319) [2096..<2281]"
  by simp

lemma shift_ofst_range: "list_all (\<lambda>x. x \<le> 2096) yy_shift_ofst"
  by (simp add: yy_shift_ofst_def table_defs)

lemma reduce_ofst_range: "list_all (\<lambda>x. - 271 \<le> x \<and> x \<le> 1740) yy_reduce_ofst"
  by (simp add: yy_reduce_ofst_def table_defs)

lemma lhs_range: "list_all (\<lambda>x. 185 \<le> x \<and> x < 319) yyRuleInfoLhs"
  by (simp add: yyRuleInfoLhs_def table_defs)

lemma fallback_range: "list_all (\<lambda>x. x < 185) yyFallback"
  by (simp add: yyFallback_def table_defs)

lemma state_0_items: "items 0 = []"
  by (simp add: items_def)

lemma any_no_fallback: "yyFallback ! 101 = 0"
  by simp

lemma list_all_upt_join:
  "list_all P [i..<j] \<Longrightarrow> list_all P [j..<k] \<Longrightarrow> i \<le> j \<Longrightarrow> j \<le> k \<Longrightarrow> list_all P [i..<k]"
  by (auto simp: list_all_iff)

lemma all_positions: "list_all position_ok [0..<2281]"
proof -
  note a = positions_0
  note a = list_all_upt_join [OF a positions_50, simplified]
  note a = list_all_upt_join [OF a positions_100, simplified]
  note a = list_all_upt_join [OF a positions_150, simplified]
  note a = list_all_upt_join [OF a positions_200, simplified]
  note a = list_all_upt_join [OF a positions_250, simplified]
  note a = list_all_upt_join [OF a positions_300, simplified]
  note a = list_all_upt_join [OF a positions_350, simplified]
  note a = list_all_upt_join [OF a positions_400, simplified]
  note a = list_all_upt_join [OF a positions_450, simplified]
  note a = list_all_upt_join [OF a positions_500, simplified]
  note a = list_all_upt_join [OF a positions_550, simplified]
  note a = list_all_upt_join [OF a positions_600, simplified]
  note a = list_all_upt_join [OF a positions_650, simplified]
  note a = list_all_upt_join [OF a positions_700, simplified]
  note a = list_all_upt_join [OF a positions_750, simplified]
  note a = list_all_upt_join [OF a positions_800, simplified]
  note a = list_all_upt_join [OF a positions_850, simplified]
  note a = list_all_upt_join [OF a positions_900, simplified]
  note a = list_all_upt_join [OF a positions_950, simplified]
  note a = list_all_upt_join [OF a positions_1000, simplified]
  note a = list_all_upt_join [OF a positions_1050, simplified]
  note a = list_all_upt_join [OF a positions_1100, simplified]
  note a = list_all_upt_join [OF a positions_1150, simplified]
  note a = list_all_upt_join [OF a positions_1200, simplified]
  note a = list_all_upt_join [OF a positions_1250, simplified]
  note a = list_all_upt_join [OF a positions_1300, simplified]
  note a = list_all_upt_join [OF a positions_1350, simplified]
  note a = list_all_upt_join [OF a positions_1400, simplified]
  note a = list_all_upt_join [OF a positions_1450, simplified]
  note a = list_all_upt_join [OF a positions_1500, simplified]
  note a = list_all_upt_join [OF a positions_1550, simplified]
  note a = list_all_upt_join [OF a positions_1600, simplified]
  note a = list_all_upt_join [OF a positions_1650, simplified]
  note a = list_all_upt_join [OF a positions_1700, simplified]
  note a = list_all_upt_join [OF a positions_1750, simplified]
  note a = list_all_upt_join [OF a positions_1800, simplified]
  note a = list_all_upt_join [OF a positions_1850, simplified]
  note a = list_all_upt_join [OF a positions_1900, simplified]
  note a = list_all_upt_join [OF a positions_1950, simplified]
  note a = list_all_upt_join [OF a positions_2000, simplified]
  note a = list_all_upt_join [OF a positions_2050, simplified]
  note a = list_all_upt_join [OF a positions_2100, simplified]
  note a = list_all_upt_join [OF a positions_2150, simplified]
  note a = list_all_upt_join [OF a positions_2200, simplified]
  note a = list_all_upt_join [OF a positions_2250, simplified]
  show ?thesis by (rule a)
qed

lemma all_defaults: "list_all default_ok [0..<575]"
proof -
  note a = defaults_0
  note a = list_all_upt_join [OF a defaults_50, simplified]
  note a = list_all_upt_join [OF a defaults_100, simplified]
  note a = list_all_upt_join [OF a defaults_150, simplified]
  note a = list_all_upt_join [OF a defaults_200, simplified]
  note a = list_all_upt_join [OF a defaults_250, simplified]
  note a = list_all_upt_join [OF a defaults_300, simplified]
  note a = list_all_upt_join [OF a defaults_350, simplified]
  note a = list_all_upt_join [OF a defaults_400, simplified]
  note a = list_all_upt_join [OF a defaults_450, simplified]
  note a = list_all_upt_join [OF a defaults_500, simplified]
  note a = list_all_upt_join [OF a defaults_550, simplified]
  show ?thesis by (rule a)
qed

lemma all_pendings: "list_all pending_ok [0..<403]"
proof -
  note a = pendings_0
  note a = list_all_upt_join [OF a pendings_50, simplified]
  note a = list_all_upt_join [OF a pendings_100, simplified]
  note a = list_all_upt_join [OF a pendings_150, simplified]
  note a = list_all_upt_join [OF a pendings_200, simplified]
  note a = list_all_upt_join [OF a pendings_250, simplified]
  note a = list_all_upt_join [OF a pendings_300, simplified]
  note a = list_all_upt_join [OF a pendings_350, simplified]
  note a = list_all_upt_join [OF a pendings_400, simplified]
  show ?thesis by (rule a)
qed

lemma all_indexes: "list_all index_ok [0..<575]"
proof -
  note a = indexes_0
  note a = list_all_upt_join [OF a indexes_50, simplified]
  note a = list_all_upt_join [OF a indexes_100, simplified]
  note a = list_all_upt_join [OF a indexes_150, simplified]
  note a = list_all_upt_join [OF a indexes_200, simplified]
  note a = list_all_upt_join [OF a indexes_250, simplified]
  note a = list_all_upt_join [OF a indexes_300, simplified]
  note a = list_all_upt_join [OF a indexes_350, simplified]
  note a = list_all_upt_join [OF a indexes_400, simplified]
  note a = list_all_upt_join [OF a indexes_450, simplified]
  note a = list_all_upt_join [OF a indexes_500, simplified]
  note a = list_all_upt_join [OF a indexes_550, simplified]
  show ?thesis by (rule a)
qed

lemma all_goto_indexes: "list_all goto_index_ok [0..<409]"
proof -
  note a = goto_indexes_0
  note a = list_all_upt_join [OF a goto_indexes_50, simplified]
  note a = list_all_upt_join [OF a goto_indexes_100, simplified]
  note a = list_all_upt_join [OF a goto_indexes_150, simplified]
  note a = list_all_upt_join [OF a goto_indexes_200, simplified]
  note a = list_all_upt_join [OF a goto_indexes_250, simplified]
  note a = list_all_upt_join [OF a goto_indexes_300, simplified]
  note a = list_all_upt_join [OF a goto_indexes_350, simplified]
  note a = list_all_upt_join [OF a goto_indexes_400, simplified]
  show ?thesis by (rule a)
qed

declare move_entries [simp del] shift_index_entries [simp del] goto_index_entries [simp del]
  yy_default_entries [simp del] yy_shift_ofst_entries [simp del]

end
