(* ===== verification/SqParser.thy ===== *)
theory SqParser
  imports SqGrammar Prelude "HOL-Library.Word"
begin

text \<open>
  The push-down automaton of \<open>parse.c\<close>: the lookups in the action tables, shift, reduce and the
  loop of \<open>sqlite3Parser\<close>. An assertion that fails and a read outside a table or below the
  stack are \<open>Undef\<close>. The code a rule runs is an argument of the automaton: it computes the
  value of the left-hand side from those of the right-hand side and changes the state of the
  parse. The stack is a list with its
  top first; its last entry is \<open>yystack[0]\<close>.
\<close>

section \<open>Lookups\<close>

text \<open>
  One round of the loop of \<open>yy_find_shift_action\<close>: the action, or the token to look up instead.
\<close>

datatype shift_lookup = Found nat | Fall_back nat

definition shift_lookup :: "nat \<Rightarrow> nat \<Rightarrow> shift_lookup res" where
  "shift_lookup iLookAhead stateno =
     bind_res (vec_idx yy_shift_ofst stateno) (\<lambda>ofst.
       if \<not> (ofst \<le> YY_ACTTAB_COUNT \<and> ofst + YYNTOKEN \<le> length yy_lookahead \<and>
             iLookAhead \<noteq> YYNOCODE \<and> iLookAhead < YYNTOKEN)
       then Undef
       else
         bind_res (vec_idx yy_lookahead (ofst + iLookAhead)) (\<lambda>la.
           if la \<noteq> iLookAhead then
             bind_res (vec_idx yyFallback iLookAhead) (\<lambda>iFallback.
               if iFallback \<noteq> 0 then
                 bind_res (vec_idx yyFallback iFallback) (\<lambda>f.
                   if f = 0 then Ok (Fall_back iFallback) else Undef)
               else
                 bind_res (vec_idx yy_lookahead (ofst + YYWILDCARD)) (\<lambda>wild.
                   if wild = YYWILDCARD \<and> 0 < iLookAhead
                   then map_res Found (vec_idx yy_action (ofst + YYWILDCARD))
                   else map_res Found (vec_idx yy_default stateno)))
           else map_res Found (vec_idx yy_action (ofst + iLookAhead))))"

definition fallback_rank :: "nat \<Rightarrow> nat" where
  "fallback_rank t = (if t < length yyFallback \<and> yyFallback ! t \<noteq> 0 then 1 else 0)"

lemma shift_lookup_Fall_back:
  assumes "shift_lookup t s = Ok (Fall_back f)"
  shows "fallback_rank f < fallback_rank t"
  using assms by (auto simp: shift_lookup_def vec_idx_def fallback_rank_def bind_res_Ok_iff split: if_splits)

function yy_find_shift_action :: "nat \<Rightarrow> nat \<Rightarrow> nat res" where
  "yy_find_shift_action iLookAhead stateno =
     (if YY_MAX_SHIFT < stateno then Ok stateno
      else case shift_lookup iLookAhead stateno of
             Ok (Found a) \<Rightarrow> Ok a
           | Ok (Fall_back f) \<Rightarrow> yy_find_shift_action f stateno
           | Throw e \<Rightarrow> Throw e
           | Undef \<Rightarrow> Undef)"
  by auto
termination
  by (relation "measure (\<lambda>(t, _). fallback_rank t)") (auto intro: shift_lookup_Fall_back)

declare yy_find_shift_action.simps [simp del]

definition yy_find_reduce_action :: "nat \<Rightarrow> nat \<Rightarrow> nat res" where
  "yy_find_reduce_action stateno iLookAhead =
     bind_res (vec_idx yy_reduce_ofst stateno) (\<lambda>ofst.
       (let i = ofst + int iLookAhead in
        if iLookAhead \<noteq> YYNOCODE \<and> 0 \<le> i \<and> i < int YY_ACTTAB_COUNT
        then bind_res (vec_idx yy_lookahead (nat i)) (\<lambda>la.
               if la = iLookAhead then vec_idx yy_action (nat i) else Undef)
        else Undef))"

section \<open>The state of a parse\<close>

text \<open>
  What the tokenizer and the parser look at in the connection (the limit is
  \<open>aLimit[SQLITE_LIMIT_SQL_LENGTH]\<close>), and the fields of
  \<open>Parse\<close> they set; everything else the code generator keeps there is the extension of the
  record. A pointer into the text is the list of the bytes from there on.
\<close>

type_synonym bytes = "8 word list"

record connection =
  suppressErr :: bool
  mallocFailed :: bool
  isInterrupted :: bool
  nVdbeActive :: nat
  limit_sql_length :: int

record Parse =
  p_rc :: int
  p_nErr :: nat
  p_zErrMsg :: "string option"
  p_db :: connection

definition SQLITE_OK :: int where [control_defs]: "SQLITE_OK = 0"
definition SQLITE_ERROR :: int where [control_defs]: "SQLITE_ERROR = 1"
definition SQLITE_NOMEM :: int where [control_defs]: "SQLITE_NOMEM = 7"
definition SQLITE_INTERRUPT :: int where [control_defs]: "SQLITE_INTERRUPT = 9"
definition SQLITE_TOOBIG :: int where [control_defs]: "SQLITE_TOOBIG = 18"
definition SQLITE_DONE :: int where [control_defs]: "SQLITE_DONE = 101"

record Token =
  tok_z :: bytes
  tok_n :: nat

text \<open>The text that \<open>%T\<close> prints.\<close>

definition token_text :: "Token \<Rightarrow> string" where
  "token_text x = map (\<lambda>b. char_of (unat b)) (take (tok_n x) (tok_z x))"

definition sqlite3ErrorMsg :: "string \<Rightarrow> 'z Parse_scheme \<Rightarrow> 'z Parse_scheme" where
  "sqlite3ErrorMsg zMsg p =
     (if suppressErr (p_db p) then
        (if mallocFailed (p_db p) then p\<lparr>p_nErr := p_nErr p + 1, p_rc := SQLITE_NOMEM\<rparr> else p)
      else p\<lparr>p_nErr := p_nErr p + 1, p_zErrMsg := Some zMsg, p_rc := SQLITE_ERROR\<rparr>)"

section \<open>The stack\<close>

text \<open>A value on the stack: a token of the text or what a rule computed.\<close>

datatype 'v YYMINORTYPE = yy0 Token | yyvalue 'v

record 'v yyStackEntry =
  stateno :: nat
  major :: nat
  minor :: "'v YYMINORTYPE"

type_synonym 'v yystack = "'v yyStackEntry list"

text \<open>
  The code of the rules: from the number of the rule, the lookahead (its number and its
  token), the values of the right-hand side and the state, to the value of the left-hand side
  and the new state.
\<close>

type_synonym ('v, 'z) rule_code =
  "nat \<Rightarrow> nat \<times> Token \<Rightarrow> 'v YYMINORTYPE list \<Rightarrow> 'z Parse_scheme \<Rightarrow> 'v YYMINORTYPE \<times> 'z Parse_scheme"

text \<open>\<open>sqlite3ParserInit\<close>: only the bottom entry, whose value is not used.\<close>

definition sqlite3ParserInit :: "'v YYMINORTYPE \<Rightarrow> 'v yystack" where
  "sqlite3ParserInit v = [\<lparr>stateno = 0, major = 0, minor = v\<rparr>]"

text \<open>What a call of \<open>sqlite3Parser\<close> did with its token.\<close>

datatype yy_event = Shifted | Accepted | Syntax_error | Stack_overflow

type_synonym ('v, 'z) parsed = "yy_event \<times> 'v yystack \<times> 'z Parse_scheme"

text \<open>\<open>yyStackOverflow\<close> pops everything but the bottom entry.\<close>

definition yyStackOverflow :: "'v yystack \<Rightarrow> 'z Parse_scheme \<Rightarrow> ('v, 'z) parsed" where
  "yyStackOverflow st p = (Stack_overflow, [last st], sqlite3ErrorMsg ''parser stack overflow'' p)"

definition yy_syntax_error :: "Token \<Rightarrow> 'z Parse_scheme \<Rightarrow> 'z Parse_scheme res" where
  "yy_syntax_error yyminor p =
     bind_res (vec_idx (tok_z yyminor) 0) (\<lambda>c.
       if c \<noteq> 0 then Ok (sqlite3ErrorMsg (''near '' @ [CHR 0x22] @ token_text yyminor @ [CHR 0x22] @ '': syntax error'') p)
       else Ok (sqlite3ErrorMsg ''incomplete input'' p))"

definition yy_shift :: "'v yystack \<Rightarrow> nat \<Rightarrow> nat \<Rightarrow> Token \<Rightarrow> 'z Parse_scheme \<Rightarrow> ('v, 'z) parsed" where
  "yy_shift st yyNewState yyMajor yyMinor p =
     (if YYSTACKDEPTH \<le> length st then yyStackOverflow st p
      else (Shifted,
        \<lparr>stateno = (if YY_MAX_SHIFT < yyNewState
                    then yyNewState + (YY_MIN_REDUCE - YY_MIN_SHIFTREDUCE) else yyNewState),
         major = yyMajor, minor = yy0 yyMinor\<rparr> # st, p))"

text \<open>The reduction by a rule, and the move on the left-hand side.\<close>

definition yy_reduce ::
  "('v, 'z) rule_code \<Rightarrow> nat \<Rightarrow> nat \<times> Token \<Rightarrow> 'v yystack \<Rightarrow> 'z Parse_scheme \<Rightarrow>
     (nat \<times> 'v yystack \<times> 'z Parse_scheme) res" where
  "yy_reduce rule_code yyruleno yyLookahead st p =
     bind_res (vec_idx yyRuleInfoLhs yyruleno) (\<lambda>yygoto.
     bind_res (vec_idx yyRuleInfoNRhs yyruleno) (\<lambda>yysize.
       (let n = nat (- yysize); (v, p') = rule_code yyruleno yyLookahead (rev (map minor (take n st))) p in
        bind_res (vec_idx st n) (\<lambda>base.
        bind_res (yy_find_reduce_action (stateno base) yygoto) (\<lambda>yyact.
          if YY_MAX_SHIFT < yyact \<and> yyact \<le> YY_MAX_SHIFTREDUCE then Undef
          else if yyact = YY_ERROR_ACTION then Undef
          else Ok (yyact, \<lparr>stateno = yyact, major = yygoto, minor = v\<rparr> # drop n st, p'))))))"

section \<open>The parser\<close>

partial_function (option) yy_loop ::
  "('v, 'z) rule_code \<Rightarrow> nat \<Rightarrow> Token \<Rightarrow> nat \<Rightarrow> 'v yystack \<Rightarrow> 'z Parse_scheme \<Rightarrow> ('v, 'z) parsed res option" where
  "yy_loop rule_code yymajor yyminor yyact st p =
     (if st = [] \<or> yyact \<noteq> stateno (hd st) then Some Undef
      else case yy_find_shift_action yymajor yyact of
        Throw e \<Rightarrow> Some (Throw e)
      | Undef \<Rightarrow> Some Undef
      | Ok act \<Rightarrow>
          (if YY_MIN_REDUCE \<le> act then
             (case vec_idx yyRuleInfoNRhs (act - YY_MIN_REDUCE) of
                Throw e \<Rightarrow> Some (Throw e)
              | Undef \<Rightarrow> Some Undef
              | Ok yysize \<Rightarrow>
                  (if yysize = 0 \<and> YYSTACKDEPTH \<le> length st then Some (Ok (yyStackOverflow st p))
                   else case yy_reduce rule_code (act - YY_MIN_REDUCE) (yymajor, yyminor) st p of
                          Throw e \<Rightarrow> Some (Throw e)
                        | Undef \<Rightarrow> Some Undef
                        | Ok (next_act, st', p') \<Rightarrow> yy_loop rule_code yymajor yyminor next_act st' p'))
           else if act \<le> YY_MAX_SHIFTREDUCE then Some (Ok (yy_shift st act yymajor yyminor p))
           else if act = YY_ACCEPT_ACTION then
             (if length st = 2 then Some (Ok (Accepted, tl st, p)) else Some Undef)
           else if act = YY_ERROR_ACTION then
             Some (map_res (\<lambda>p'. (Syntax_error, st, p')) (yy_syntax_error yyminor p))
           else Some Undef))"

definition sqlite3Parser ::
  "('v, 'z) rule_code \<Rightarrow> nat \<Rightarrow> Token \<Rightarrow> 'v yystack \<Rightarrow> 'z Parse_scheme \<Rightarrow> ('v, 'z) parsed res option" where
  "sqlite3Parser rule_code yymajor yyminor st p =
     (case st of [] \<Rightarrow> Some Undef | e # _ \<Rightarrow> yy_loop rule_code yymajor yyminor (stateno e) st p)"

text \<open>
  \<open>sqlite3ParserFallback\<close>, which the tokenizer asks, too.
\<close>

definition sqlite3ParserFallback :: "nat \<Rightarrow> nat res" where
  "sqlite3ParserFallback iToken = vec_idx yyFallback iToken"

text \<open>
  A caller hands over the tokens one by one and stops at the first that was not shifted.
\<close>

fun feed ::
  "('v, 'z) rule_code \<Rightarrow> (nat \<times> Token) list \<Rightarrow> 'v yystack \<Rightarrow> 'z Parse_scheme \<Rightarrow> ('v, 'z) parsed res option" where
  "feed rule_code [] st p = Some (Ok (Shifted, st, p))"
| "feed rule_code ((yymajor, yyminor) # ts) st p =
     (case sqlite3Parser rule_code yymajor yyminor st p of
        Some (Ok (Shifted, st', p')) \<Rightarrow> feed rule_code ts st' p'
      | r \<Rightarrow> r)"

end
