(* ===== verification/SqSound.thy ===== *)
theory SqSound
  imports SqChecks SqParser
begin

text \<open>
  What the checks of the tables give: the parser never leaves its tables and its stack, it
  returns on every token, and what it accepts is derivable in the grammar.
\<close>

section \<open>What the lookups return\<close>

lemma list_all_uptD: "list_all P [m..<n] \<Longrightarrow> m \<le> i \<Longrightarrow> i < n \<Longrightarrow> P i"
  by (simp add: list_all_iff)

lemmas position_checked = list_all_uptD [OF all_positions le0]
lemmas default_checked = list_all_uptD [OF all_defaults le0]
lemmas index_checked = list_all_uptD [OF all_indexes le0]
lemmas goto_index_checked = list_all_uptD [OF all_goto_indexes le0]
lemmas pending_checked = list_all_uptD [OF all_pendings le0]

lemma shift_ofst_le: "s < 575 \<Longrightarrow> yy_shift_ofst ! s \<le> 2096"
  using shift_ofst_range by (simp add: list_all_length)

lemma reduce_ofst_bounds: "s < 409 \<Longrightarrow> - 271 \<le> yy_reduce_ofst ! s \<and> yy_reduce_ofst ! s \<le> 1740"
  using reduce_ofst_range by (simp add: list_all_length)

lemma fallback_less: "t < 185 \<Longrightarrow> yyFallback ! t < 185"
  using fallback_range by (simp add: list_all_length)

lemma lhs_of_table: "r < 403 \<Longrightarrow> yyRuleInfoLhs ! r = lhs_of r"
  using grammar_info(1) by (metis length_grammar lhs_of_def nth_map)

lemma size_table: "r < 403 \<Longrightarrow> yyRuleInfoNRhs ! r = - int (length (rhs_of r))"
  using grammar_info(2) by (metis (no_types, lifting) length_grammar rhs_of_def nth_map)

lemma lhs_of_bounds: "r < 403 \<Longrightarrow> 185 \<le> lhs_of r \<and> lhs_of r < 319"
  using lhs_range by (auto simp: list_all_length simp flip: lhs_of_table)

lemma entry_term_ok:
  assumes "s < 575" and "t < 185" and "yy_lookahead ! (yy_shift_ofst ! s + t) = t"
  shows "yy_shift_ofst ! s + t < 2096" and "term_ok s t (yy_action ! (yy_shift_ofst ! s + t))"
proof -
  let ?i = "yy_shift_ofst ! s + t"
  have "?i < 2281" using shift_ofst_le [OF assms(1)] assms(2) by simp
  then have "position_ok ?i" by (rule position_checked)
  moreover have "s \<in> set (shift_index ! (yy_shift_ofst ! s))"
    using index_checked [OF assms(1)] by (simp add: index_ok_def)
  ultimately show "term_ok s t (yy_action ! ?i)"
    using assms(2,3) by (simp add: position_ok_def list_all_iff Let_def)
  show "?i < 2096"
  proof (rule ccontr)
    assume "\<not> ?i < 2096"
    then have "yy_lookahead ! ?i = 319" by (intro list_all_uptD [OF lookahead_tail] \<open>?i < 2281\<close>) simp
    with assms(2,3) show False by simp
  qed
qed

lemma goto_nonterm_ok:
  assumes "goto_ok s A" and "185 \<le> A" and "A < 319"
  shows "nonterm_ok s A (goto_of s A)"
proof -
  let ?o = "yy_reduce_ofst ! s"
  let ?i = "nat (?o + int A)"
  from assms(1) have s: "s < 409" and i: "0 \<le> ?o + int A" "?o + int A < 2096" and la: "yy_lookahead ! ?i = A"
    by (auto simp: goto_ok_def split: if_splits)
  from i have "position_ok ?i" by (intro position_checked) simp
  moreover have "s \<in> set (goto_index ! nat (?o + 271))"
    using goto_index_checked [OF s] by (simp add: goto_index_ok_def)
  moreover have "?i + 271 - A = nat (?o + 271)" "A \<le> ?i + 271" "nat (?o + 271) < 2012"
    using i reduce_ofst_bounds [OF s] assms(2,3) by auto
  ultimately show ?thesis
    using la assms(2,3) by (simp add: position_ok_def list_all_iff Let_def goto_of_def)
qed

text \<open>The action for a token that is not 0 may come from its fallback or from the wildcard.\<close>

definition action_ok :: "nat \<Rightarrow> nat \<Rightarrow> nat \<Rightarrow> bool" where
  "action_ok s t a \<longleftrightarrow> a = 1236 \<or> term_ok s t a"

definition stands_for :: "nat \<Rightarrow> nat \<Rightarrow> bool" where
  "stands_for x t \<longleftrightarrow> t < 185 \<and> 0 < t \<and> (x = 101 \<or> x \<noteq> 0 \<and> yyFallback ! t = x \<and> yyFallback ! x = 0)"

lemma sym_matches_stands_for:
  assumes "sym_matches c x" and "stands_for x t" and "x < 185"
  shows "sym_matches c t"
  using assms any_no_fallback by (auto simp: sym_matches_def stands_for_def split: if_splits)

lemma choice_matches_iff: "choice_matches cs a \<longleftrightarrow> (\<exists>c \<in> set cs. sym_matches c a)"
  by (induction cs a rule: choice_matches.induct) auto

lemma move_ok_stands_for:
  assumes "move_ok s x u" and "stands_for x t" and "x < 185"
  shows "move_ok s t u"
proof -
  have "choice_matches cs t" if "choice_matches cs x" for cs
    using that sym_matches_stands_for [OF _ assms(2,3)] by (auto simp: choice_matches_iff)
  then show ?thesis
    using assms(1,2) by (auto simp: move_ok_def list_all_iff item_ok_def stands_for_def Let_def)
qed

lemma term_ok_stands_for:
  assumes "term_ok s x a" and "stands_for x t" and "x < 185"
  shows "term_ok s t a"
proof -
  have "x \<noteq> 0" using assms(2) by (auto simp: stands_for_def)
  then show ?thesis
    using assms move_ok_stands_for [OF _ assms(2,3)] by (auto simp: term_ok_def split: if_splits)
qed

lemma fallback_values: "list_all (\<lambda>x. x = 0 \<or> x = 59) yyFallback"
  by (simp add: yyFallback_def table_defs)

lemma fallback_once: "t < 185 \<Longrightarrow> yyFallback ! (yyFallback ! t) = 0"
proof -
  assume "t < 185"
  with fallback_values have "yyFallback ! t = 0 \<or> yyFallback ! t = 59" by (simp add: list_all_length)
  moreover have "yyFallback ! 0 = 0" "yyFallback ! 59 = 0" by (simp_all add: yyFallback_0_entries)
  ultimately show ?thesis by auto
qed

lemma default_action_ok: "s < 575 \<Longrightarrow> action_ok s t (yy_default ! s)"
  using default_checked [of s] by (auto simp: default_ok_def action_ok_def term_ok_def Let_def split: if_splits)

lemma wildcard_term_ok:
  assumes "s < 575" and "yy_lookahead ! (yy_shift_ofst ! s + 101) = 101" and "0 < t" and "t < 185"
  shows "yy_shift_ofst ! s + 101 < 2096" and "term_ok s t (yy_action ! (yy_shift_ofst ! s + 101))"
proof -
  from entry_term_ok [OF assms(1) _ assms(2)]
  have "yy_shift_ofst ! s + 101 < 2096" "term_ok s 101 (yy_action ! (yy_shift_ofst ! s + 101))" by simp_all
  moreover have "stands_for 101 t" using assms(3,4) by (simp add: stands_for_def)
  ultimately show "yy_shift_ofst ! s + 101 < 2096" "term_ok s t (yy_action ! (yy_shift_ofst ! s + 101))"
    using term_ok_stands_for [of s 101 _ t] by simp_all
qed

lemma shift_lookup_total:
  assumes "s < 575" and "t < 185"
  shows "(\<exists>a. shift_lookup t s = Ok (Found a) \<and> action_ok s t a) \<or>
    (\<exists>f. shift_lookup t s = Ok (Fall_back f) \<and> f < 185 \<and> stands_for f t)"
proof -
  let ?o = "yy_shift_ofst ! s"
  have o: "?o \<le> 2096" by (rule shift_ofst_le [OF assms(1)])
  have f: "yyFallback ! t < 185" "yyFallback ! (yyFallback ! t) = 0" "yyFallback ! 0 = 0"
    using fallback_less [OF assms(2)] fallback_once [OF assms(2)] by (simp_all add: yyFallback_0_entries)
  note eval = shift_lookup_def vec_idx_def control_defs
  show ?thesis
  proof (cases "yy_lookahead ! (?o + t) = t")
    case True
    with entry_term_ok [OF assms True] o assms show ?thesis
      by (simp add: eval action_ok_def)
  next
    case False
    show ?thesis
    proof (cases "yyFallback ! t = 0")
      case False
      then have "stands_for (yyFallback ! t) t" "0 < t"
        using assms(2) f by (auto simp: stands_for_def intro: gr0I)
      with False \<open>yy_lookahead ! (?o + t) \<noteq> t\<close> o assms f show ?thesis by (simp add: eval)
    next
      case True
      show ?thesis
      proof (cases "yy_lookahead ! (?o + 101) = 101 \<and> 0 < t")
        case w: True
        with wildcard_term_ok [OF assms(1) _ _ assms(2)] True \<open>yy_lookahead ! (?o + t) \<noteq> t\<close> o assms show ?thesis
          by (auto simp: eval action_ok_def)
      next
        case w: False
        with True \<open>yy_lookahead ! (?o + t) \<noteq> t\<close> o assms default_action_ok [OF assms(1), of t] show ?thesis
          by (auto simp: eval)
      qed
    qed
  qed
qed

lemma find_shift_action_state:
  assumes "s < 575" and "t < 185"
  shows "\<exists>a. yy_find_shift_action t s = Ok a \<and> action_ok s t a"
  using assms
proof (induction t s rule: yy_find_shift_action.induct)
  case (1 t s)
  from shift_lookup_total [OF 1(2,3)] show ?case
  proof (elim disjE exE conjE)
    fix a assume "shift_lookup t s = Ok (Found a)" "action_ok s t a"
    with 1(2) show ?thesis by (subst yy_find_shift_action.simps) (simp add: control_defs)
  next
    fix f assume f: "shift_lookup t s = Ok (Fall_back f)" "f < 185" "stands_for f t"
    with 1 obtain a where a: "yy_find_shift_action f s = Ok a" "action_ok s f a"
      by (auto simp: control_defs)
    moreover from a(2) f have "action_ok s t a"
      using term_ok_stands_for [of s f a t] by (auto simp: action_ok_def)
    ultimately show ?thesis
      using f(1) 1(2) by (subst yy_find_shift_action.simps) (simp add: control_defs)
  qed
qed

lemma find_shift_action_pending: "575 \<le> s \<Longrightarrow> yy_find_shift_action t s = Ok s"
  by (subst yy_find_shift_action.simps) (simp add: control_defs)

lemma find_reduce_action_goto:
  assumes "goto_ok s A" and "A < 319"
  shows "yy_find_reduce_action s A = Ok (goto_of s A)"
  using assms by (auto simp: goto_ok_def yy_find_reduce_action_def vec_idx_def goto_of_def control_defs Let_def
      split: if_splits)

section \<open>Derivations\<close>

text \<open>
  The words of a symbol. A token stands for itself, for the token it falls back to, and for the
  wildcard; a rule joins words of one choice for each position.
\<close>

definition token_stands :: "nat \<Rightarrow> nat \<Rightarrow> bool" where
  "token_stands c t \<longleftrightarrow> 0 < t \<and> t < YYNTOKEN \<and> (c = t \<or> c = YYWILDCARD \<or> c \<noteq> 0 \<and> yyFallback ! t = c)"

inductive derives :: "nat \<Rightarrow> nat list \<Rightarrow> bool" where
  token: "token_stands c t \<Longrightarrow> derives c [t]"
| rule: "\<lbrakk>r < YYNRULE; list_all2 (\<lambda>choice w. \<exists>c \<in> set choice. derives c w) (rhs_of r) ws\<rbrakk>
    \<Longrightarrow> derives (lhs_of r) (concat ws)"
monos list_all2_mono

lemma optimized_pair_rule:
  assumes "(c, a) \<in> set optimized_pairs"
  obtains r where "r < 403" "lhs_of r = c" "rhs_of r = [[a]]"
proof -
  from assms obtain i where "i < length optimized_pairs" "optimized_pairs ! i = (c, a)"
    by (auto simp: in_set_conv_nth)
  with optimized_pairs_ok have "pair_ok (c, a) (optimized_rules ! i)"
    by (auto simp: list_all2_conv_all_nth)
  then show ?thesis by (auto simp: pair_ok_def intro: that)
qed

definition symbol_word :: "nat \<Rightarrow> nat list \<Rightarrow> bool" where
  "symbol_word a w \<longleftrightarrow> (if a < 185 then w = [a] else derives a w)"

lemma sym_matches_derives:
  assumes "sym_matches c a" and "symbol_word a w" and "0 < a"
  shows "derives c w"
proof (cases "a < 185")
  case True
  with assms have "token_stands c a" "w = [a]"
    by (auto simp: token_stands_def sym_matches_def symbol_word_def control_defs split: if_splits)
  then show ?thesis by (auto intro: derives.token)
next
  case False
  with assms(2) have d: "derives a w" by (simp add: symbol_word_def)
  show ?thesis
  proof (cases "a = c")
    case True
    with d show ?thesis by simp
  next
    case neq: False
    with False assms(1) have "(c, a) \<in> set optimized_pairs" by (simp add: sym_matches_def)
    then obtain r where r: "r < 403" "lhs_of r = c" "rhs_of r = [[a]]" by (rule optimized_pair_rule)
    have "derives (lhs_of r) (concat [w])"
      by (rule derives.rule) (use r d in \<open>simp_all add: control_defs\<close>)
    with r show ?thesis by simp
  qed
qed

section \<open>Weights\<close>

definition uniform :: "nat list \<Rightarrow> bool" where
  "uniform cs \<longleftrightarrow> cs \<noteq> [] \<and> (list_all (\<lambda>c. c < 185) cs \<or> list_all (\<lambda>c. 185 \<le> c) cs)"

abbreviation "uniform_rules rs \<equiv> list_all (\<lambda>r. list_all uniform (snd r)) rs"

lemmas uniform_eval = table_defs symbol_defs uniform_def

lemma uniform_0: "uniform_rules grammar_0" by (simp add: uniform_eval)
lemma uniform_50: "uniform_rules grammar_50" by (simp add: uniform_eval)
lemma uniform_100: "uniform_rules grammar_100" by (simp add: uniform_eval)
lemma uniform_150: "uniform_rules grammar_150" by (simp add: uniform_eval)
lemma uniform_200: "uniform_rules grammar_200" by (simp add: uniform_eval)
lemma uniform_250: "uniform_rules grammar_250" by (simp add: uniform_eval)
lemma uniform_300: "uniform_rules grammar_300" by (simp add: uniform_eval)
lemma uniform_350: "uniform_rules grammar_350" by (simp add: uniform_eval)
lemma uniform_400: "uniform_rules grammar_400" by (simp add: uniform_eval)

lemma grammar_uniform: "uniform_rules grammar"
  by (simp add: grammar_def uniform_0 uniform_50 uniform_100 uniform_150 uniform_200 uniform_250 uniform_300
      uniform_350 uniform_400)

lemma rhs_uniform: "r < 403 \<Longrightarrow> k < length (rhs_of r) \<Longrightarrow> uniform (rhs_of r ! k)"
  using grammar_uniform by (simp add: list_all_length rhs_of_def)

lemma optimized_pairs_nonterminal: "(c, a) \<in> set optimized_pairs \<Longrightarrow> 185 \<le> c \<and> 185 \<le> a"
  by (auto simp: optimized_pairs_def)

lemma sym_matches_weight: "sym_matches c a \<Longrightarrow> symbol_weight a = symbol_weight c"
  using fallback_less [of a] optimized_pairs_nonterminal [of c a]
  by (auto simp: sym_matches_def symbol_weight_def split: if_splits)

definition choice_weight :: "nat list \<Rightarrow> nat" where
  "choice_weight cs = (case cs of [] \<Rightarrow> 0 | c # _ \<Rightarrow> symbol_weight c)"

lemma choice_matches_weight:
  assumes "choice_matches cs a" and "uniform cs"
  shows "symbol_weight a = choice_weight cs"
proof -
  from assms(1) obtain c where c: "c \<in> set cs" "sym_matches c a" by (auto simp: choice_matches_iff)
  have "symbol_weight c = choice_weight cs"
    using c(1) assms(2) by (cases cs) (auto simp: uniform_def choice_weight_def symbol_weight_def list_all_iff)
  with sym_matches_weight [OF c(2)] show ?thesis by simp
qed

lemma rhs_weight_sum: "rhs_weight chs = sum_list (map choice_weight chs)"
  by (induction chs rule: rhs_weight.induct) (auto simp: choice_weight_def)

section \<open>The stack invariant\<close>

fun linked :: "'v yystack \<Rightarrow> bool" where
  "linked [] = False"
| "linked [b] = (stateno b = 0)"
| "linked (e # b # st) = (stateno b < 575 \<and> move_ok (stateno b) (major e) (stateno e) \<and> linked (b # st))"

text \<open>The tokens the entries above the bottom were built from.\<close>

fun spells :: "'v yystack \<Rightarrow> nat list \<Rightarrow> bool" where
  "spells [] w = False"
| "spells [b] w = (w = [])"
| "spells (e # b # st) w = (\<exists>u v. w = u @ v \<and> symbol_word (major e) v \<and> spells (b # st) u)"

definition stack_weight :: "'v yystack \<Rightarrow> nat" where
  "stack_weight st = sum_list (map (symbol_weight \<circ> major) st)"

lemma linked_top: "linked (e # b # st) \<Longrightarrow> known_state (stateno e) \<and> 0 < major e"
  by (simp add: move_ok_def)

lemma linked_zero: "linked (e # st) \<Longrightarrow> stateno e = 0 \<Longrightarrow> st = []"
  using linked_top [of e "hd st" "tl st"] by (cases st) (auto simp: known_state_def)

lemma items_bound: "linked st \<Longrightarrow> (r, k) \<in> set (items (stateno (hd st))) \<Longrightarrow> 0 < k \<and> k \<le> length (rhs_of r)"
  by (cases st rule: linked.cases) (auto simp: state_0_items move_ok_def list_all_iff item_ok_def Let_def)

text \<open>The entries that an item of the top state speaks of.\<close>

lemma item_on_stack:
  assumes "linked st" and "spells st w" and "(r, k) \<in> set (items (stateno (hd st)))" and "r < 403"
  shows "k < length st \<and> linked (drop k st) \<and> goto_ok (stateno (st ! k)) (lhs_of r) \<and>
     (\<exists>u vs. w = u @ concat vs \<and> spells (drop k st) u \<and>
        list_all2 (\<lambda>cs v. \<exists>c \<in> set cs. derives c v) (take k (rhs_of r)) vs) \<and>
     stack_weight (take k st) = rhs_weight (take k (rhs_of r))"
  using assms
proof (induction k arbitrary: st w)
  case 0
  with items_bound show ?case by blast
next
  case (Suc k)
  from Suc.prems(1,3) obtain e b st' where st: "st = e # b # st'"
    by (cases st rule: linked.cases) (auto simp: state_0_items)
  from Suc.prems(1) st have l: "linked (b # st')" "move_ok (stateno b) (major e) (stateno e)" by simp_all
  with Suc.prems(3) st have i: "item_ok (stateno b) (major e) (r, Suc k)" by (simp add: move_ok_def list_all_iff)
  then have k: "k < length (rhs_of r)" and cm: "choice_matches (rhs_of r ! k) (major e)"
    by (simp_all add: item_ok_def Let_def)
  from Suc.prems(2) st obtain u v where w: "w = u @ v" "symbol_word (major e) v" "spells (b # st') u" by auto
  have wt: "symbol_weight (major e) = choice_weight (rhs_of r ! k)"
    by (rule choice_matches_weight [OF cm rhs_uniform [OF Suc.prems(4) k]])
  have d: "\<exists>c \<in> set (rhs_of r ! k). derives c v"
    using cm w(2) l(2) sym_matches_derives by (auto simp: choice_matches_iff move_ok_def)
  have tk: "take (Suc k) (rhs_of r) = take k (rhs_of r) @ [rhs_of r ! k]" by (rule take_Suc_conv_app_nth [OF k])
  show ?case
  proof (cases "k = 0")
    case True
    with i have g: "goto_ok (stateno b) (lhs_of r)" by (simp add: item_ok_def Let_def)
    show ?thesis
      using True g st l w d wt k tk
      by (auto simp: stack_weight_def rhs_weight_sum intro!: exI [of _ u] exI [of _ "[v]"])
  next
    case False
    with i have "(r, k) \<in> set (items (stateno (hd (b # st'))))" by (simp add: item_ok_def Let_def)
    from Suc.IH [OF l(1) w(3) this Suc.prems(4)] obtain u' vs where
      ih: "k < length (b # st')" "linked (drop k (b # st'))" "goto_ok (stateno ((b # st') ! k)) (lhs_of r)"
        "u = u' @ concat vs" "spells (drop k (b # st')) u'"
        "list_all2 (\<lambda>cs v. \<exists>c \<in> set cs. derives c v) (take k (rhs_of r)) vs"
        "stack_weight (take k (b # st')) = rhs_weight (take k (rhs_of r))" by blast
    from ih(6) d have "list_all2 (\<lambda>cs v. \<exists>c \<in> set cs. derives c v) (take (Suc k) (rhs_of r)) (vs @ [v])"
      unfolding tk by (intro list_all2_appendI) simp_all
    moreover have "w = u' @ concat (vs @ [v])" using w(1) ih(4) by simp
    moreover have "stack_weight (take (Suc k) st) = rhs_weight (take (Suc k) (rhs_of r))"
      using ih(7) wt tk st by (simp add: stack_weight_def rhs_weight_sum)
    ultimately have "\<exists>u vs. w = u @ concat vs \<and> spells (drop (Suc k) st) u \<and>
        list_all2 (\<lambda>cs v. \<exists>c \<in> set cs. derives c v) (take (Suc k) (rhs_of r)) vs"
      "stack_weight (take (Suc k) st) = rhs_weight (take (Suc k) (rhs_of r))"
      using ih(5) st by (intro exI conjI, simp_all)
    with ih(1,2,3) st show ?thesis by simp
  qed
qed

section \<open>One reduction\<close>

definition potential :: "'v yystack \<Rightarrow> nat" where
  "potential st = stack_weight st + rank (stateno (hd st))"

lemma stack_weight_split: "stack_weight st = stack_weight (take n st) + stack_weight (drop n st)"
  unfolding stack_weight_def by (metis append_take_drop_id map_append sum_list_append)

text \<open>A move from the entry that is on top after the right-hand side is popped.\<close>

lemma push_nonterminal:
  fixes m :: "'v YYMINORTYPE"
  assumes "linked (b # st)" and "goto_ok (stateno b) A" and "185 \<le> A" "A < 319"
    and "spells (b # st) u" and "derives A v" and "a = goto_of (stateno b) A"
  defines "st' \<equiv> \<lparr>stateno = a, major = A, minor = m\<rparr> # b # st"
  shows "spells st' (u @ v) \<and>
     (a = 1237 \<and> A = 185 \<and> st = [] \<or> a \<noteq> 1237 \<and> known_state a \<and> linked st' \<and> rank a \<le> goto_rank ! A)"
proof -
  have b: "stateno b < 575" using assms(2) by (auto simp: goto_ok_def split: if_splits)
  have "nonterm_ok (stateno b) A a" using goto_nonterm_ok assms(2-4,7) by simp
  moreover have "spells st' (u @ v)"
    using assms(3,5,6) by (auto simp: st'_def symbol_word_def)
  ultimately show ?thesis
    using assms(1) b linked_zero by (auto simp: nonterm_ok_def st'_def move_ok_def split: if_splits)
qed

lemma yy_reduce_eval:
  assumes "r < 403" and "length (rhs_of r) < length st"
    and "goto_ok (stateno (st ! length (rhs_of r))) (lhs_of r)"
    and "code r la (rev (map minor (take (length (rhs_of r)) st))) p = (v, p')"
  shows "yy_reduce code r la st p =
     (let a = goto_of (stateno (st ! length (rhs_of r))) (lhs_of r) in
      if 574 < a \<and> a \<le> 1235 \<or> a = 1236 then Undef
      else Ok (a, \<lparr>stateno = a, major = lhs_of r, minor = v\<rparr> # drop (length (rhs_of r)) st, p'))"
  using assms lhs_of_bounds [OF assms(1)]
  by (simp add: yy_reduce_def vec_idx_def lhs_of_table size_table find_reduce_action_goto control_defs Let_def)

lemma reduce_step:
  assumes "linked st" and "spells st w" and "reduce_ok (stateno (hd st)) r"
  shows "\<exists>a st' p'. yy_reduce code r la st p = Ok (a, st', p') \<and> spells st' w \<and> stateno (hd st') = a \<and> st' \<noteq> [] \<and>
     length st' \<le> (if rhs_of r = [] then Suc (length st) else length st) \<and>
     (a = 1237 \<and> lhs_of r = 185 \<and> length st' = 2 \<and> major (hd st') = 185 \<and> linked (tl st') \<or>
      a \<noteq> 1237 \<and> linked st' \<and> potential st' < potential st)"
proof -
  let ?n = "length (rhs_of r)" and ?A = "lhs_of r"
  have r: "r < 403" using assms(3) by (auto simp: reduce_ok_def split: if_splits)
  have A: "185 \<le> ?A" "?A < 319" using lhs_of_bounds [OF r] by simp_all
  have found: "?n < length st \<and> linked (drop ?n st) \<and> goto_ok (stateno (st ! ?n)) ?A \<and>
     (\<exists>u vs. w = u @ concat vs \<and> spells (drop ?n st) u \<and>
        list_all2 (\<lambda>cs v. \<exists>c \<in> set cs. derives c v) (rhs_of r) vs) \<and>
     stack_weight (take ?n st) = rhs_weight (rhs_of r)"
  proof (cases "rhs_of r = []")
    case True
    from assms(1) obtain e t where "st = e # t" by (cases st) auto
    with True assms r show ?thesis
      by (auto simp: reduce_ok_def stack_weight_def intro!: exI [of _ w] exI [of _ "[]"])
  next
    case False
    with assms(3) r have "(r, ?n) \<in> set (items (stateno (hd st)))" by (simp add: reduce_ok_def)
    from item_on_stack [OF assms(1,2) this r] show ?thesis by simp
  qed
  then obtain u vs where n: "?n < length st" "linked (drop ?n st)" "goto_ok (stateno (st ! ?n)) ?A"
    and w: "w = u @ concat vs" "spells (drop ?n st) u" "list_all2 (\<lambda>cs v. \<exists>c \<in> set cs. derives c v) (rhs_of r) vs"
    and wt: "stack_weight (take ?n st) = rhs_weight (rhs_of r)" by blast
  obtain b rest where b: "drop ?n st = b # rest" "b = st ! ?n" using n(1) by (metis Cons_nth_drop_Suc)
  let ?a = "goto_of (stateno b) ?A"
  obtain v p' where v: "code r la (rev (map minor (take ?n st))) p = (v, p')" by (rule prod.exhaust)
  let ?e = "\<lparr>stateno = ?a, major = ?A, minor = v\<rparr>"
  have d: "derives ?A (concat vs)" using w(3) r by (intro derives.rule) (simp_all add: control_defs)
  from push_nonterminal [of b rest ?A u "concat vs" ?a "minor ?e"] n w b A d
  have push: "spells (?e # b # rest) w" "?a = 1237 \<and> ?A = 185 \<and> rest = [] \<or>
     ?a \<noteq> 1237 \<and> known_state ?a \<and> linked (?e # b # rest) \<and> rank ?a \<le> goto_rank ! ?A"
    by simp_all
  have ok: "\<not> (574 < ?a \<and> ?a \<le> 1235 \<or> ?a = 1236)" using push(2) by (auto simp: known_state_def split: if_splits)
  have eval: "yy_reduce code r la st p = Ok (?a, ?e # b # rest, p')"
    using yy_reduce_eval [where code = code, OF r n(1,3) v] ok b by (simp add: Let_def)
  have len: "length (?e # b # rest) \<le> (if rhs_of r = [] then Suc (length st) else length st)"
  proof -
    have "length (b # rest) = length st - ?n" using b(1) [symmetric] by simp
    then show ?thesis using n(1) by (cases "rhs_of r") auto
  qed
  have pot: "potential (?e # b # rest) < potential st" if "?a \<noteq> 1237" "rank ?a \<le> goto_rank ! ?A"
  proof -
    have "stack_weight st = rhs_weight (rhs_of r) + stack_weight (b # rest)"
      using stack_weight_split [of st ?n] wt b(1) by simp
    moreover have "1 + rank ?a < rhs_weight (rhs_of r) + rank (stateno (hd st))"
    proof (cases "rhs_of r = []")
      case True
      with b n(1) have "b = hd st" by (cases st) auto
      with True assms(3) r that(1) show ?thesis by (simp add: reduce_ok_def)
    next
      case False
      with assms(3) r that(2) show ?thesis by (simp add: reduce_ok_def)
    qed
    ultimately show ?thesis
      using A by (simp add: potential_def stack_weight_def symbol_weight_def)
  qed
  show ?thesis
    using eval push len pot n(2) b
    by (intro exI [of _ ?a] exI [of _ "?e # b # rest"] exI [of _ p']) auto
qed

section \<open>One token\<close>

lemma pending_reduce_ok:
  assumes "known_state s" and "575 \<le> s"
  shows "1239 \<le> s" and "s \<le> 1641" and "reduce_ok s (s - 1239)" and "lhs_of (s - 1239) \<noteq> 185"
  using assms pending_checked [of "s - 1239"]
  by (auto simp: known_state_def pending_ok_def split: if_splits)

text \<open>The action on a linked stack: a syntax error, a shift, or a reduction.\<close>

lemma action_on_stack:
  assumes "linked st" and "t < 185"
  shows "\<exists>a. yy_find_shift_action t (stateno (hd st)) = Ok a \<and>
     (a = 1236 \<or>
      a \<le> 1235 \<and> stateno (hd st) < 575 \<and> move_ok (stateno (hd st)) t (shift_target a) \<or>
      1239 \<le> a \<and> reduce_ok (stateno (hd st)) (a - 1239) \<and> (lhs_of (a - 1239) = 185 \<longrightarrow> t = 0))"
proof (cases "stateno (hd st) < 575")
  case True
  from find_shift_action_state [OF True assms(2)] obtain a where
    a: "yy_find_shift_action t (stateno (hd st)) = Ok a" "action_ok (stateno (hd st)) t a" by blast
  from a(2) True show ?thesis
    by (intro exI [of _ a]) (auto simp: a(1) action_ok_def term_ok_def shift_target_def split: if_splits)
next
  case False
  with assms(1) obtain e b st' where st: "st = e # b # st'" by (cases st rule: linked.cases) auto
  with assms(1) linked_top have "known_state (stateno (hd st))" by auto
  with False pending_reduce_ok [of "stateno (hd st)"] find_shift_action_pending [of "stateno (hd st)" t]
  show ?thesis by simp
qed

lemma accept_state:
  assumes "stateno (hd st) = 1237" and "length st = 2"
  shows "yy_loop code t v 1237 st p = Some (Ok (Accepted, tl st, p))"
  using assms by (subst yy_loop.simps) (auto simp: find_shift_action_pending control_defs)

lemma linked_last: "linked st \<Longrightarrow> linked [last st]"
  by (induction st rule: linked.induct) auto

text \<open>The tokens the stack spells after a call: an overflow and the end of the input clear it.\<close>

fun spelled :: "yy_event \<Rightarrow> nat list \<Rightarrow> nat \<Rightarrow> nat list" where
  "spelled Shifted w t = w @ [t]"
| "spelled Syntax_error w t = w"
| "spelled _ w t = []"

text \<open>What holds of a stack between two calls, and of the outcome of a call.\<close>

definition good_stack :: "'v yystack \<Rightarrow> nat list \<Rightarrow> bool" where
  "good_stack st w \<longleftrightarrow> linked st \<and> spells st w \<and> length st \<le> 100"

definition good_outcome :: "('v, 'z) parsed res option \<Rightarrow> nat list \<Rightarrow> nat \<Rightarrow> bool" where
  "good_outcome r w t \<longleftrightarrow> (\<exists>ev st p. r = Some (Ok (ev, st, p)) \<and> good_stack st (spelled ev w t) \<and>
     (ev = Accepted \<longrightarrow> t = 0 \<and> derives 185 w) \<and> (ev = Shifted \<longrightarrow> 0 < t))"

lemma overflow_good:
  "linked st \<Longrightarrow> good_outcome (Some (Ok (yyStackOverflow st p))) w t"
  using linked_last [of st] by (auto simp: good_outcome_def good_stack_def yyStackOverflow_def)

lemma shift_good:
  assumes "good_stack st w" and "stateno (hd st) < 575" and "move_ok (stateno (hd st)) t (shift_target a)"
    and "t < 185" and "a \<le> 1235"
  shows "good_outcome (Some (Ok (yy_shift st a t v p))) w t"
proof (cases "100 \<le> length st")
  case True
  then have "yy_shift st a t v p = yyStackOverflow st p" by (simp add: yy_shift_def control_defs)
  moreover have "linked st" using assms(1) by (simp add: good_stack_def)
  ultimately show ?thesis using overflow_good by simp
next
  case False
  from assms(1) obtain b rest where st: "st = b # rest" by (cases st) (auto simp: good_stack_def)
  let ?e = "\<lparr>stateno = shift_target a, major = t, minor = yy0 v\<rparr>"
  have "yy_shift st a t v p = (Shifted, ?e # st, p)"
    using False by (simp add: yy_shift_def control_defs shift_target_def)
  moreover have "spells (?e # st) (w @ [t])"
    using assms(1,4) st by (auto simp: symbol_word_def good_stack_def)
  moreover have "0 < t" using assms(3) by (simp add: move_ok_def)
  ultimately show ?thesis using False assms st by (simp add: good_outcome_def good_stack_def)
qed

lemma syntax_error_good:
  "good_stack st w \<Longrightarrow> tok_z v \<noteq> [] \<Longrightarrow>
     good_outcome (Some (map_res (\<lambda>p'. (Syntax_error, st, p')) (yy_syntax_error v p))) w t"
  by (auto simp: good_outcome_def yy_syntax_error_def vec_idx_def)

lemma loop_good:
  assumes "good_stack st w" and "t < 185" and "tok_z v \<noteq> []"
  shows "good_outcome (yy_loop code t v (stateno (hd st)) st p) w t"
  using assms
proof (induction "potential st" arbitrary: st p rule: less_induct)
  case less
  let ?s = "stateno (hd st)"
  have c: "YY_MIN_REDUCE = 1239" "YY_MAX_SHIFTREDUCE = 1235" "YY_ACCEPT_ACTION = 1237" "YY_ERROR_ACTION = 1236"
    "YYSTACKDEPTH = 100" by (simp_all add: control_defs)
  from less.prems(1) have st: "linked st" "spells st w" "length st \<le> 100" "st \<noteq> []"
    by (auto simp: good_stack_def)
  from action_on_stack [OF st(1) less.prems(2)] obtain a where a: "yy_find_shift_action t ?s = Ok a"
    and cs: "a = 1236 \<or> a \<le> 1235 \<and> ?s < 575 \<and> move_ok ?s t (shift_target a) \<or>
      1239 \<le> a \<and> reduce_ok ?s (a - 1239) \<and> (lhs_of (a - 1239) = 185 \<longrightarrow> t = 0)" by blast
  from cs show ?case
  proof (elim disjE conjE)
    assume "a = 1236"
    with a syntax_error_good [OF less.prems(1,3), of p t] st(4) show ?thesis
      by (subst yy_loop.simps) (simp add: c)
  next
    assume "a \<le> 1235" "?s < 575" "move_ok ?s t (shift_target a)"
    with a shift_good [OF less.prems(1) _ _ less.prems(2), of a v p] st(4) show ?thesis
      by (subst yy_loop.simps) (simp add: c)
  next
    assume r: "1239 \<le> a" "reduce_ok ?s (a - 1239)" "lhs_of (a - 1239) = 185 \<longrightarrow> t = 0"
    let ?r = "a - 1239"
    from r(2) have rb: "?r < 403" by (auto simp: reduce_ok_def split: if_splits)
    have sz: "vec_idx yyRuleInfoNRhs ?r = Ok (- int (length (rhs_of ?r)))"
      using rb by (simp add: vec_idx_def size_table)
    show ?thesis
    proof (cases "rhs_of ?r = [] \<and> 100 \<le> length st")
      case True
      then have "yy_loop code t v ?s st p = Some (Ok (yyStackOverflow st p))"
        using a r(1) sz st(4) by (subst yy_loop.simps) (simp add: c)
      with overflow_good [OF st(1)] show ?thesis by simp
    next
      case False
      from reduce_step [OF st(1,2) r(2), of code "(t, v)" p] obtain g st' p' where
        st': "yy_reduce code ?r (t, v) st p = Ok (g, st', p')" "spells st' w" "stateno (hd st') = g" "st' \<noteq> []"
          "length st' \<le> (if rhs_of ?r = [] then Suc (length st) else length st)"
        and alt: "g = 1237 \<and> lhs_of ?r = 185 \<and> length st' = 2 \<and> major (hd st') = 185 \<and> linked (tl st') \<or>
          g \<noteq> 1237 \<and> linked st' \<and> potential st' < potential st" by blast
      have step: "yy_loop code t v ?s st p = yy_loop code t v g st' p'"
        using a r(1) sz st'(1) False st(4) by (subst yy_loop.simps) (auto simp: c)
      have len: "length st' \<le> 100" using st'(5) False st(3) by (auto split: if_splits)
      from alt show ?thesis
      proof (elim disjE conjE)
        assume g: "g = 1237" "lhs_of ?r = 185" "length st' = 2" "major (hd st') = 185" "linked (tl st')"
        then obtain e b where eb: "st' = [e, b]" by (auto simp: numeral_2_eq_2 length_Suc_conv)
        with st'(2) g(4) have "derives 185 w" by (auto simp: symbol_word_def)
        with step accept_state [of st' code t v p'] st'(3) g r(3) eb show ?thesis
          by (simp add: good_outcome_def good_stack_def)
      next
        assume g: "g \<noteq> 1237" "linked st'" "potential st' < potential st"
        with less.hyps [OF g(3) _ less.prems(2,3), of p'] step st'(2,3) len show ?thesis
          by (simp add: good_stack_def)
      qed
    qed
  qed
qed

lemma parser_good:
  assumes "good_stack st w" and "t < 185" and "tok_z v \<noteq> []"
  shows "good_outcome (sqlite3Parser code t v st p) w t"
proof -
  from assms(1) have "sqlite3Parser code t v st p = yy_loop code t v (stateno (hd st)) st p"
    by (cases st) (simp_all add: sqlite3Parser_def good_stack_def)
  with loop_good [OF assms] show ?thesis by simp
qed

section \<open>A whole input\<close>

lemma feed_good:
  assumes "good_stack st w" and "\<forall>t \<in> set ts. fst t < 185 \<and> tok_z (snd t) \<noteq> []"
  shows "\<exists>ev st' p' w'. feed code ts st p = Some (Ok (ev, st', p')) \<and> good_stack st' w' \<and>
     (ev = Accepted \<longrightarrow> (\<exists>us v rest. ts = us @ (0, v) # rest \<and> derives 185 (w @ map fst us)))"
  using assms
proof (induction ts arbitrary: st p w)
  case Nil
  then show ?case by auto
next
  case (Cons tv ts)
  obtain t v where tv: "tv = (t, v)" by (cases tv)
  with Cons.prems(2) have "t < 185" "tok_z v \<noteq> []" by simp_all
  from parser_good [OF Cons.prems(1) this, of code p] obtain ev st' p' where
    one: "sqlite3Parser code t v st p = Some (Ok (ev, st', p'))" "good_stack st' (spelled ev w t)"
      "ev = Accepted \<Longrightarrow> t = 0 \<and> derives 185 w" by (auto simp: good_outcome_def)
  show ?case
  proof (cases "ev = Shifted")
    case True
    with one(2) Cons.prems(2) Cons.IH [of st' "w @ [t]" p'] obtain ev' st'' p'' w'' where
      f: "feed code ts st' p' = Some (Ok (ev', st'', p''))" "good_stack st'' w''"
        "ev' = Accepted \<longrightarrow> (\<exists>us v rest. ts = us @ (0, v) # rest \<and> derives 185 ((w @ [t]) @ map fst us))"
      by (metis list.set_intros(2) spelled.simps(1))
    from f(3) have "ev' = Accepted \<longrightarrow>
        (\<exists>us v rest. tv # ts = us @ (0, v) # rest \<and> derives 185 (w @ map fst us))"
      by (metis append_Cons append_assoc append_Nil fst_conv list.simps(9) tv)
    with f one(1) True tv show ?thesis by auto
  next
    case False
    then have "feed code (tv # ts) st p = Some (Ok (ev, st', p'))" using one(1) tv by (cases ev) simp_all
    moreover have "ev = Accepted \<longrightarrow> (\<exists>us v rest. tv # ts = us @ (0, v) # rest \<and> derives 185 (w @ map fst us))"
      using one(3) tv by (auto intro!: exI [of _ "[]"])
    ultimately show ?thesis using one(2) by blast
  qed
qed

lemma init_good: "good_stack (sqlite3ParserInit v) []"
  by (simp add: sqlite3ParserInit_def good_stack_def)

text \<open>
  C38: the parser only accepts what the grammar derives: if it accepts a sequence of tokens
  followed by the end-of-input token, then the symbol \<open>input\<close> derives these tokens by the rules
  that \<open>yyRuleName\<close> lists, a token standing for itself, its fallback or the wildcard. The code
  of the rules does not matter.
\<close>

theorem parser_sound:
  assumes "\<forall>t \<in> set ts. 0 < fst t \<and> fst t < YYNTOKEN \<and> tok_z (snd t) \<noteq> []" and "tok_z v0 \<noteq> []"
    and "feed code (ts @ [(0, v0)]) (sqlite3ParserInit v) p = Some (Ok (Accepted, st, p'))"
  shows "derives NT_input (map fst ts)"
proof -
  have "\<forall>t \<in> set (ts @ [(0, v0)]). fst t < 185 \<and> tok_z (snd t) \<noteq> []"
    using assms(1,2) by (auto simp: control_defs)
  from feed_good [OF init_good this, of code v p] assms(3) obtain us v' rest where
    us: "ts @ [(0, v0)] = us @ (0, v') # rest" "derives 185 (map fst us)" by auto
  from us(1) assms(1) have "us = ts"
    by (cases rest rule: rev_cases) (force simp flip: append_assoc append_Cons)+
  with us(2) show ?thesis by (simp add: NT_input_def)
qed

lemmas rule_entries =
  yyRuleInfoLhs_0_nth [unfolded yyRuleInfoLhs_0_def, simplified upt_from_0, simplified]
  yyRuleInfoLhs_300_nth [unfolded yyRuleInfoLhs_300_def, simplified]
  yyRuleInfoNRhs_0_nth [unfolded yyRuleInfoNRhs_0_def, simplified upt_from_0, simplified]
  yyRuleInfoNRhs_300_nth [unfolded yyRuleInfoNRhs_300_def, simplified]

lemmas run_entries = rule_entries yy_shift_ofst_0_entries yy_shift_ofst_300_entries yy_shift_ofst_500_entries
  yy_lookahead_0_entries yy_lookahead_1400_entries yy_lookahead_1600_entries yy_lookahead_1900_entries
  yy_lookahead_2000_entries yy_action_0_entries yy_action_1400_entries yy_action_1600_entries
  yy_action_1900_entries yy_action_2000_entries yy_default_300_entries yyFallback_0_entries
  yy_reduce_ofst_0_entries yy_reduce_ofst_300_entries

lemmas run_defs = vec_idx_def shift_lookup_def yy_find_reduce_action_def yy_shift_def yy_reduce_def
  sqlite3Parser_def sqlite3ParserInit_def control_defs

text \<open>The tokens of \<open>COMMIT;\<close>, with code that leaves the state of the parse as it is.\<close>

abbreviation no_code :: "(unit, unit) rule_code" where
  "no_code \<equiv> \<lambda>r la vs p. (yyvalue (), p)"

abbreviation some_token :: Token where
  "some_token \<equiv> \<lparr>tok_z = [0], tok_n = 0\<rparr>"

abbreviation fresh_parse :: "unit Parse_scheme" where
  "fresh_parse \<equiv> \<lparr>p_rc = 0, p_nErr = 0, p_zErrMsg = None,
     p_db = \<lparr>suppressErr = False, mallocFailed = False, isInterrupted = False,
       nVdbeActive = 0, limit_sql_length = 1000000000\<rparr>\<rparr>"

lemma commit_accepted:
  "\<exists>st. feed no_code ([(10, some_token), (1, some_token)] @ [(0, some_token)])
     (sqlite3ParserInit (yyvalue ())) fresh_parse = Some (Ok (Accepted, st, fresh_parse))"
  by (simp add: run_defs run_entries yy_loop.simps yy_find_shift_action.simps)

theorem parser_sound_witness:
  "derives NT_input [TK_COMMIT, TK_SEMI]"
proof -
  from commit_accepted obtain st where
    "feed no_code ([(10, some_token), (1, some_token)] @ [(0, some_token)])
       (sqlite3ParserInit (yyvalue ())) fresh_parse = Some (Ok (Accepted, st, fresh_parse))" by blast
  from parser_sound [OF _ _ this] show ?thesis by (simp add: control_defs TK_COMMIT_def TK_SEMI_def)
qed

text \<open>
  C39: the parser is total: on every sequence of tokens it returns, without an assertion
  failing and without leaving its tables or its stack, whatever the code of the rules computes;
  at least the bottom entry stays on the stack, and never more than \<open>YYSTACKDEPTH\<close> entries are.
\<close>

theorem parser_total:
  assumes "\<forall>t \<in> set ts. fst t < YYNTOKEN \<and> tok_z (snd t) \<noteq> []"
  shows "\<exists>ev st p'. feed code ts (sqlite3ParserInit v) p = Some (Ok (ev, st, p')) \<and>
     1 \<le> length st \<and> length st \<le> YYSTACKDEPTH"
proof -
  have "\<forall>t \<in> set ts. fst t < 185 \<and> tok_z (snd t) \<noteq> []" using assms by (simp add: control_defs)
  from feed_good [OF init_good this, of code v p] obtain ev st p' w where
    f: "feed code ts (sqlite3ParserInit v) p = Some (Ok (ev, st, p'))" "good_stack st w" by blast
  from f(2) have "st \<noteq> []" "length st \<le> 100" by (auto simp: good_stack_def)
  with f(1) show ?thesis by (auto simp: control_defs Suc_le_eq)
qed

theorem parser_total_witness:
  "\<exists>ev st p'. feed no_code [(TK_COMMIT, some_token), (TK_COMMIT, some_token), (0, some_token)]
     (sqlite3ParserInit (yyvalue ())) fresh_parse = Some (Ok (ev, st, p'))"
  using parser_total [of "[(TK_COMMIT, some_token), (TK_COMMIT, some_token), (0, some_token)]" no_code
      "yyvalue ()" fresh_parse]
  by (auto simp: control_defs TK_COMMIT_def)

end
