(* ===== verification/SqRun.thy ===== *)
theory SqRun
  imports SqTokenSafe SqSound
begin

text \<open>
  The loop of \<open>sqlite3RunParser\<close>, which takes the tokens from the text, decides the keywords
  that depend on their neighbours, and hands them to the parser.
\<close>

text \<open>Sequencing of calls that may fail to return.\<close>

definition bind_run :: "'a res option \<Rightarrow> ('a \<Rightarrow> 'b res option) \<Rightarrow> 'b res option" where
  "bind_run r f = (case r of None \<Rightarrow> None | Some (Ok x) \<Rightarrow> f x | Some (Throw e) \<Rightarrow> Some (Throw e) | Some Undef \<Rightarrow> Some Undef)"

lemma bind_run_Ok [simp]: "bind_run (Some (Ok x)) f = f x"
  by (simp add: bind_run_def)

section \<open>Keywords that depend on their neighbours\<close>

text \<open>The next token that is not white space, and the text behind it.\<close>

partial_function (option) skip_space :: "bytes \<Rightarrow> (nat \<times> bytes) res option" where
  "skip_space z =
     (case sqlite3GetToken z of
        Throw e \<Rightarrow> Some (Throw e)
      | Undef \<Rightarrow> Some Undef
      | Ok (n, t) \<Rightarrow> if t = TK_SPACE then skip_space (drop n z) else Some (Ok (t, drop n z)))"

definition getToken :: "bytes \<Rightarrow> (nat \<times> bytes) res option" where
  "getToken z =
     bind_run (skip_space z) (\<lambda>(t, z').
       if t \<in> {TK_ID, TK_STRING, TK_JOIN_KW, TK_WINDOW, TK_OVER} then Some (Ok (TK_ID, z'))
       else Some (map_res (\<lambda>f. (if f = TK_ID then TK_ID else t, z')) (sqlite3ParserFallback t)))"

definition analyzeWindowKeyword :: "bytes \<Rightarrow> nat res option" where
  "analyzeWindowKeyword z =
     bind_run (getToken z) (\<lambda>(t, z').
       if t \<noteq> TK_ID then Some (Ok TK_ID)
       else bind_run (getToken z') (\<lambda>(t, _). Some (Ok (if t \<noteq> TK_AS then TK_ID else TK_WINDOW))))"

definition analyzeOverKeyword :: "bytes \<Rightarrow> int \<Rightarrow> nat res option" where
  "analyzeOverKeyword z lastToken =
     (if lastToken = int TK_RP then
        bind_run (getToken z) (\<lambda>(t, _). Some (Ok (if t = TK_LP \<or> t = TK_ID then TK_OVER else TK_ID)))
      else Some (Ok TK_ID))"

definition analyzeFilterKeyword :: "bytes \<Rightarrow> int \<Rightarrow> nat res option" where
  "analyzeFilterKeyword z lastToken =
     (if lastToken = int TK_RP then
        bind_run (getToken z) (\<lambda>(t, _). Some (Ok (if t = TK_LP then TK_FILTER else TK_ID)))
      else Some (Ok TK_ID))"

text \<open>The type of a token that is not white space, or that it is illegal.\<close>

definition context_keyword :: "int \<Rightarrow> bytes \<Rightarrow> nat \<Rightarrow> nat \<Rightarrow> nat option res option" where
  "context_keyword lastTokenParsed zSql n tokenType =
     (if tokenType < TK_WINDOW then Some (Ok (Some tokenType))
      else if tokenType = TK_WINDOW then
        (if n \<noteq> 6 then Some Undef
         else bind_run (analyzeWindowKeyword (drop 6 zSql)) (\<lambda>t. Some (Ok (Some t))))
      else if tokenType = TK_OVER then
        (if n \<noteq> 4 then Some Undef
         else bind_run (analyzeOverKeyword (drop 4 zSql) lastTokenParsed) (\<lambda>t. Some (Ok (Some t))))
      else if tokenType = TK_FILTER then
        (if n \<noteq> 6 then Some Undef
         else bind_run (analyzeFilterKeyword (drop 6 zSql) lastTokenParsed) (\<lambda>t. Some (Ok (Some t))))
      else Some (Ok None))"

section \<open>One round\<close>

text \<open>What a round decides: to stop, to go on behind white space, or to hand a token over.\<close>

datatype 'z round = Stop "'z Parse_scheme" | Skip nat | Hand nat nat

definition fail_parse :: "int \<Rightarrow> 'z Parse_scheme \<Rightarrow> 'z Parse_scheme" where
  "fail_parse rc p = p\<lparr>p_rc := rc, p_nErr := p_nErr p + 1\<rparr>"

definition unrecognized_token :: "Token \<Rightarrow> string" where
  "unrecognized_token x = ''unrecognized token: '' @ [CHR 0x22] @ token_text x @ [CHR 0x22]"

definition next_round :: "int \<Rightarrow> 'z Parse_scheme \<Rightarrow> bytes \<Rightarrow> nat \<Rightarrow> nat \<Rightarrow> 'z round res option" where
  "next_round lastTokenParsed p zSql n tokenType =
     (if tokenType < TK_WINDOW then Some (Ok (Hand tokenType n))
      else if \<not> (tokenType = TK_SPACE \<or> tokenType = TK_OVER \<or> tokenType = TK_FILTER \<or>
                 tokenType = TK_ILLEGAL \<or> tokenType = TK_WINDOW) then Some Undef
      else if isInterrupted (p_db p) then Some (Ok (Stop (fail_parse SQLITE_INTERRUPT p)))
      else if tokenType = TK_SPACE then Some (Ok (Skip n))
      else bind_run (Some (vec_idx zSql 0)) (\<lambda>c.
        if c = 0 then
          (if lastTokenParsed = int TK_SEMI then Some (Ok (Hand 0 0))
           else if lastTokenParsed = 0 then Some (Ok (Stop p))
           else Some (Ok (Hand TK_SEMI 0)))
        else bind_run (context_keyword lastTokenParsed zSql n tokenType) (\<lambda>k.
          Some (Ok (case k of
            Some t \<Rightarrow> Hand t n
          | None \<Rightarrow> Stop (sqlite3ErrorMsg (unrecognized_token \<lparr>tok_z = zSql, tok_n = n\<rparr>) p))))))"

section \<open>The loop\<close>

partial_function (option) run_loop ::
  "('v, 'z) rule_code \<Rightarrow> int \<Rightarrow> int \<Rightarrow> 'v yystack \<Rightarrow> 'z Parse_scheme \<Rightarrow> bytes \<Rightarrow> ('z Parse_scheme \<times> bytes) res option" where
  "run_loop rule_code lastTokenParsed mxSqlLen st p zSql =
     (case sqlite3GetToken zSql of
        Throw e \<Rightarrow> Some (Throw e)
      | Undef \<Rightarrow> Some Undef
      | Ok (n, tokenType) \<Rightarrow>
          (let mx = mxSqlLen - int n in
           if mx < 0 then Some (Ok (fail_parse SQLITE_TOOBIG p, zSql))
           else case next_round lastTokenParsed p zSql n tokenType of
             None \<Rightarrow> None
           | Some (Throw e) \<Rightarrow> Some (Throw e)
           | Some Undef \<Rightarrow> Some Undef
           | Some (Ok (Stop p')) \<Rightarrow> Some (Ok (p', zSql))
           | Some (Ok (Skip k)) \<Rightarrow> run_loop rule_code lastTokenParsed mx st p (drop k zSql)
           | Some (Ok (Hand t k)) \<Rightarrow>
               (case sqlite3Parser rule_code t \<lparr>tok_z = zSql, tok_n = k\<rparr> st p of
                  None \<Rightarrow> None
                | Some (Throw e) \<Rightarrow> Some (Throw e)
                | Some Undef \<Rightarrow> Some Undef
                | Some (Ok (_, st', p')) \<Rightarrow>
                    (if p_rc p' \<noteq> SQLITE_OK then Some (Ok (p', drop k zSql))
                     else run_loop rule_code (int t) mx st' p' (drop k zSql)))))"

section \<open>The call\<close>

definition SQLITE_ABORT_ROLLBACK :: int where "SQLITE_ABORT_ROLLBACK = 516"
definition SQLITE_ROW :: int where "SQLITE_ROW = 100"

definition aMsg :: "string option list" where
  "aMsg =
    [Some ''not an error'', Some ''SQL logic error'', None, Some ''access permission denied'',
     Some ''query aborted'', Some ''database is locked'', Some ''database table is locked'',
     Some ''out of memory'', Some ''attempt to write a readonly database'', Some ''interrupted'',
     Some ''disk I/O error'', Some ''database disk image is malformed'', Some ''unknown operation'',
     Some ''database or disk is full'', Some ''unable to open database file'', Some ''locking protocol'',
     None, Some ''database schema has changed'', Some ''string or blob too big'', Some ''constraint failed'',
     Some ''datatype mismatch'', Some ''bad parameter or other API misuse'', None,
     Some ''authorization denied'', None, Some ''column index out of range'', Some ''file is not a database'',
     Some ''notification message'', Some ''warning message'']"

definition sqlite3ErrStr :: "int \<Rightarrow> string" where
  "sqlite3ErrStr rc =
     (if rc = SQLITE_ABORT_ROLLBACK then ''abort due to ROLLBACK''
      else if rc = SQLITE_ROW then ''another row available''
      else if rc = SQLITE_DONE then ''no more rows available''
      else (let k = nat (rc AND 0xff) in
            case (if k < length aMsg then aMsg ! k else None) of Some m \<Rightarrow> m | None \<Rightarrow> ''unknown error''))"

text \<open>
  The start and the end of \<open>sqlite3RunParser\<close>: the number of errors it returns, the state, and
  the text behind the last token (\<open>zTail\<close>).
\<close>

definition begin_parse :: "'z Parse_scheme \<Rightarrow> 'z Parse_scheme" where
  "begin_parse p =
     (if nVdbeActive (p_db p) = 0 then p\<lparr>p_db := (p_db p)\<lparr>isInterrupted := False\<rparr>\<rparr> else p)\<lparr>p_rc := SQLITE_OK\<rparr>"

definition finish_parse :: "'z Parse_scheme \<Rightarrow> bytes \<Rightarrow> (nat \<times> 'z Parse_scheme \<times> bytes) res" where
  "finish_parse p zTail =
     (let p = (if mallocFailed (p_db p) then p\<lparr>p_rc := SQLITE_NOMEM\<rparr> else p);
          failed = (p_zErrMsg p \<noteq> None \<or> (p_rc p \<noteq> SQLITE_OK \<and> p_rc p \<noteq> SQLITE_DONE));
          p' = (if failed \<and> p_zErrMsg p = None then p\<lparr>p_zErrMsg := Some (sqlite3ErrStr (p_rc p))\<rparr> else p) in
      if failed \<and> p_rc p' = SQLITE_OK then Undef else Ok (if failed then 1 else 0, p', zTail))"

definition sqlite3RunParser ::
  "('v, 'z) rule_code \<Rightarrow> 'v YYMINORTYPE \<Rightarrow> 'z Parse_scheme \<Rightarrow> bytes \<Rightarrow> (nat \<times> 'z Parse_scheme \<times> bytes) res option" where
  "sqlite3RunParser rule_code v p zSql =
     bind_run (run_loop rule_code (- 1) (limit_sql_length (p_db p)) (sqlite3ParserInit v) (begin_parse p) zSql)
       (\<lambda>(p', zTail). Some (finish_parse p' zTail))"

section \<open>Every call returns\<close>

lemma token_at:
  assumes "terminated z m"
  shows "\<exists>n t. sqlite3GetToken z = Ok (n, t) \<and> n \<le> m \<and> token_type_ok n t \<and>
     (1 \<le> n \<and> 1 \<le> m \<or> m = 0 \<and> n = 0 \<and> t = TK_ILLEGAL)"
proof (cases "m = 0")
  case True
  with assms have "z ! 0 = 0" "0 < length z" by (auto simp: terminated_def)
  with True show ?thesis by (simp add: sqlite3GetToken_def class_defs type_ok)
next
  case False
  with sqlite3GetToken_ok [OF assms] show ?thesis by (auto simp: good_token_def)
qed

lemma skip_space_ok:
  assumes "terminated z m"
  shows "\<exists>t k. skip_space z = Some (Ok (t, drop k z)) \<and> k \<le> m \<and> t < 185"
  using assms
proof (induction m arbitrary: z rule: less_induct)
  case (less m)
  from token_at [OF less.prems] obtain n t where
    t: "sqlite3GetToken z = Ok (n, t)" "n \<le> m" "token_type_ok n t" "1 \<le> n \<and> 1 \<le> m \<or> t = TK_ILLEGAL" by blast
  show ?case
  proof (cases "t = TK_SPACE")
    case True
    then have n: "1 \<le> n \<and> 1 \<le> m" using t(4) by (auto simp: symbol_defs)
    then have "m - n < m" by simp
    from less.IH [OF this terminated_drop [OF less.prems t(2)]] obtain t' k where
      "skip_space (drop n z) = Some (Ok (t', drop k (drop n z)))" "k \<le> m - n" "t' < 185" by blast
    then have "skip_space z = Some (Ok (t', drop (n + k) z)) \<and> n + k \<le> m \<and> t' < 185"
      using True t(1,2) by (subst skip_space.simps) (simp add: add.commute)
    then show ?thesis by blast
  next
    case False
    with t have "skip_space z = Some (Ok (t, drop n z)) \<and> n \<le> m \<and> t < 185"
      by (subst skip_space.simps) (simp add: token_type_ok_def control_defs)
    then show ?thesis by blast
  qed
qed

lemma getToken_ok:
  assumes "terminated z m"
  shows "\<exists>t k. getToken z = Some (Ok (t, drop k z)) \<and> k \<le> m"
proof -
  from skip_space_ok [OF assms] obtain t k where
    t: "skip_space z = Some (Ok (t, drop k z))" "k \<le> m" "t < 185" by blast
  then have "vec_idx yyFallback t = Ok (yyFallback ! t)" by simp
  with t show ?thesis by (auto simp: getToken_def sqlite3ParserFallback_def)
qed

lemma analyze_ok:
  assumes "terminated z m"
  shows "\<exists>t. analyzeWindowKeyword z = Some (Ok t) \<and> (t = TK_ID \<or> t = TK_WINDOW)"
    and "\<exists>t. analyzeOverKeyword z l = Some (Ok t) \<and> (t = TK_ID \<or> t = TK_OVER)"
    and "\<exists>t. analyzeFilterKeyword z l = Some (Ok t) \<and> (t = TK_ID \<or> t = TK_FILTER)"
proof -
  from getToken_ok [OF assms] obtain t k where t: "getToken z = Some (Ok (t, drop k z))" "k \<le> m" by blast
  from getToken_ok [OF terminated_drop [OF assms t(2)]] obtain t' k' where
    t': "getToken (drop k z) = Some (Ok (t', drop k' (drop k z)))" by blast
  from t t' show "\<exists>t. analyzeWindowKeyword z = Some (Ok t) \<and> (t = TK_ID \<or> t = TK_WINDOW)"
    by (auto simp: analyzeWindowKeyword_def)
  from t show "\<exists>t. analyzeOverKeyword z l = Some (Ok t) \<and> (t = TK_ID \<or> t = TK_OVER)"
    by (auto simp: analyzeOverKeyword_def)
  from t show "\<exists>t. analyzeFilterKeyword z l = Some (Ok t) \<and> (t = TK_ID \<or> t = TK_FILTER)"
    by (auto simp: analyzeFilterKeyword_def)
qed

lemma context_keyword_ok:
  assumes "terminated z m" and "token_type_ok n t" and "n \<le> m" and "t \<noteq> TK_SPACE"
  shows "\<exists>k. context_keyword l z n t = Some (Ok k) \<and>
     (case k of Some t' \<Rightarrow> 0 < t' \<and> t' < 185 | None \<Rightarrow> t = TK_ILLEGAL)"
proof (cases "t < TK_WINDOW")
  case True
  with assms(2) show ?thesis by (simp add: context_keyword_def token_type_ok_def control_defs)
next
  case False
  with assms(2,4) consider "t = TK_ILLEGAL" | "t = TK_WINDOW \<and> n = 6" | "t = TK_OVER \<and> n = 4" | "t = TK_FILTER \<and> n = 6"
    by (auto simp: token_type_ok_def)
  then show ?thesis
  proof cases
    case 1
    then show ?thesis by (simp add: context_keyword_def symbol_defs)
  next
    case 2
    with assms analyze_ok(1) [OF terminated_drop [OF assms(1), of 6]] show ?thesis
      by (fastforce simp: context_keyword_def symbol_defs)
  next
    case 3
    with assms analyze_ok(2) [OF terminated_drop [OF assms(1), of 4], of l] show ?thesis
      by (fastforce simp: context_keyword_def symbol_defs)
  next
    case 4
    with assms analyze_ok(3) [OF terminated_drop [OF assms(1), of 6], of l] show ?thesis
      by (fastforce simp: context_keyword_def symbol_defs)
  qed
qed

text \<open>How many rounds are left at the end of the text.\<close>

definition end_phase :: "int \<Rightarrow> nat" where
  "end_phase l = (if l = 0 then 0 else if l = int TK_SEMI then 1 else 2)"

text \<open>What a round on a text of \<open>m\<close> bytes decides.\<close>

fun round_ok :: "nat \<Rightarrow> int \<Rightarrow> 'z round \<Rightarrow> bool" where
  "round_ok m l (Stop p) = True"
| "round_ok m l (Skip n) = (1 \<le> n \<and> n \<le> m)"
| "round_ok m l (Hand t n) = (t < 185 \<and> n \<le> m \<and>
     (1 \<le> n \<or> m = 0 \<and> (l = int TK_SEMI \<and> t = 0 \<or> l \<noteq> int TK_SEMI \<and> l \<noteq> 0 \<and> t = TK_SEMI)))"

lemma next_round_ok:
  assumes "terminated z m" and "token_type_ok n t" and "n \<le> m" and "1 \<le> n \<and> 1 \<le> m \<or> m = 0 \<and> n = 0 \<and> t = TK_ILLEGAL"
  shows "\<exists>r. next_round l p z n t = Some (Ok r) \<and> round_ok m l r"
proof (cases "t < TK_WINDOW")
  case True
  with assms show ?thesis by (auto simp: next_round_def token_type_ok_def control_defs symbol_defs)
next
  case False
  then have t: "t = TK_SPACE \<or> t = TK_OVER \<or> t = TK_FILTER \<or> t = TK_ILLEGAL \<or> t = TK_WINDOW"
    using assms(2) by (auto simp: token_type_ok_def)
  show ?thesis
  proof (cases "isInterrupted (p_db p) \<or> t = TK_SPACE")
    case True
    with False t assms(3,4) show ?thesis by (auto simp: next_round_def symbol_defs)
  next
    case ns: False
    have z0: "vec_idx z 0 = Ok (z ! 0)" using terminated_read [OF assms(1)] by simp
    show ?thesis
    proof (cases "z ! 0 = 0")
      case True
      then have "m = 0" using assms(1) by (auto simp: terminated_def)
      with False t ns z0 True assms(3) show ?thesis
        by (simp add: next_round_def) (simp add: symbol_defs)
    next
      case nz: False
      then have n: "1 \<le> n" using assms(1,4) by (auto simp: terminated_def)
      from context_keyword_ok [OF assms(1-3), of l] ns obtain k where
        k: "context_keyword l z n t = Some (Ok k)" "case k of Some t' \<Rightarrow> 0 < t' \<and> t' < 185 | None \<Rightarrow> t = TK_ILLEGAL"
        by blast
      with False t ns z0 nz n assms(3) show ?thesis
        by (cases k) (simp_all add: next_round_def)
    qed
  qed
qed

lemma run_loop_returns:
  assumes "good_stack st w" and "terminated z m"
  shows "\<exists>p' k. run_loop code l mx st p z = Some (Ok (p', drop k z)) \<and> k \<le> m"
  using assms
proof (induction "3 * m + end_phase l" arbitrary: m l mx st w p z rule: less_induct)
  case less
  from token_at [OF less.prems(2)] obtain n t where
    t: "sqlite3GetToken z = Ok (n, t)" "n \<le> m" "token_type_ok n t"
      "1 \<le> n \<and> 1 \<le> m \<or> m = 0 \<and> n = 0 \<and> t = TK_ILLEGAL" by blast
  from next_round_ok [OF less.prems(2) t(3,2,4), of l p] obtain r where
    r: "next_round l p z n t = Some (Ok r)" "round_ok m l r" by blast
  show ?case
  proof (cases "mx - int n < 0")
    case True
    with t(1) show ?thesis by (subst run_loop.simps) (auto intro!: exI [of _ 0])
  next
    case mx: False
    show ?thesis
    proof (cases r)
      case (Stop p')
      with t(1) r(1) mx show ?thesis by (subst run_loop.simps) (auto intro!: exI [of _ 0])
    next
      case (Skip k)
      with r(2) have k: "1 \<le> k" "k \<le> m" by simp_all
      then have "3 * (m - k) + end_phase l < 3 * m + end_phase l" by simp
      from less.hyps [OF this less.prems(1) terminated_drop [OF less.prems(2) k(2)], of "mx - int n" p]
      obtain p' k' where "run_loop code l (mx - int n) st p (drop k z) = Some (Ok (p', drop k' (drop k z)))" "k' \<le> m - k"
        by blast
      with t(1) r(1) mx Skip k have "run_loop code l mx st p z = Some (Ok (p', drop (k + k') z)) \<and> k + k' \<le> m"
        by (subst run_loop.simps) (simp add: add.commute)
      then show ?thesis by blast
    next
      case (Hand t' k)
      with r(2) have h: "t' < 185" "k \<le> m"
        "1 \<le> k \<or> m = 0 \<and> (l = int TK_SEMI \<and> t' = 0 \<or> l \<noteq> int TK_SEMI \<and> l \<noteq> 0 \<and> t' = TK_SEMI)" by auto
      let ?x = "\<lparr>tok_z = z, tok_n = k\<rparr>"
      have "tok_z ?x \<noteq> []" using less.prems(2) by (auto simp: terminated_def)
      from parser_good [OF less.prems(1) h(1) this, of code p] obtain ev st' p1 where
        ps: "sqlite3Parser code t' ?x st p = Some (Ok (ev, st', p1))" "good_stack st' (spelled ev w t')"
        by (auto simp: good_outcome_def)
      show ?thesis
      proof (cases "p_rc p1 = SQLITE_OK")
        case False
        with t(1) r(1) mx Hand ps(1) h(2) show ?thesis by (subst run_loop.simps) auto
      next
        case True
        have "3 * (m - k) + end_phase (int t') < 3 * m + end_phase l"
          using h(2,3) by (auto simp: end_phase_def symbol_defs)
        from less.hyps [OF this ps(2) terminated_drop [OF less.prems(2) h(2)], of "mx - int n" p1] obtain p' k' where
          "run_loop code (int t') (mx - int n) st' p1 (drop k z) = Some (Ok (p', drop k' (drop k z)))" "k' \<le> m - k"
          by blast
        with t(1) r(1) mx Hand ps(1) True h(2) have
          "run_loop code l mx st p z = Some (Ok (p', drop (k + k') z)) \<and> k + k' \<le> m"
          by (subst run_loop.simps) (simp add: add.commute)
        then show ?thesis by blast
      qed
    qed
  qed
qed

text \<open>
  C33: \<open>sqlite3RunParser\<close> returns on every text that ends in a zero byte, whatever the code of the
  rules does: its loop takes the text apart, reads nothing behind the zero, and leaves the tail
  of the text where it stopped. Only the assertion on the result depends on that code.
\<close>

theorem run_parser_returns:
  assumes "0 \<notin> set s"
  shows "\<exists>p' k. k \<le> length s \<and>
     sqlite3RunParser code v p (s @ [0]) = Some (finish_parse p' (drop k (s @ [0])))"
proof -
  obtain p' k where "run_loop code (- 1) (limit_sql_length (p_db p)) (sqlite3ParserInit v) (begin_parse p) (s @ [0]) =
      Some (Ok (p', drop k (s @ [0])))" "k \<le> length s"
    using run_loop_returns [OF init_good [of v] terminated_append [OF assms, of "[]"]] by blast
  then have "sqlite3RunParser code v p (s @ [0]) = Some (finish_parse p' (drop k (s @ [0])))"
    by (simp add: sqlite3RunParser_def)
  with \<open>k \<le> length s\<close> show ?thesis by blast
qed

theorem run_parser_returns_witness:
  "\<exists>p' k. sqlite3RunParser no_code (yyvalue ()) fresh_parse (text_bytes ''COMMIT;'' @ [0]) =
     Some (finish_parse p' (drop k (text_bytes ''COMMIT;'' @ [0])))"
proof -
  have "0 \<notin> set (text_bytes ''COMMIT;'')" by (simp add: text_bytes_def)
  from run_parser_returns [OF this] show ?thesis by blast
qed

section \<open>What is accepted\<close>

text \<open>The tokens of a text: those the loop hands over when nothing stops it.\<close>

inductive lexes :: "int \<Rightarrow> bytes \<Rightarrow> nat list \<Rightarrow> bool" where
  lexes_end: "vec_idx z 0 = Ok 0 \<Longrightarrow> lexes l z (if l = int TK_SEMI \<or> l = 0 then [] else [TK_SEMI])"
| lexes_space: "vec_idx z 0 = Ok c \<Longrightarrow> c \<noteq> 0 \<Longrightarrow> sqlite3GetToken z = Ok (n, TK_SPACE) \<Longrightarrow> lexes l (drop n z) ts \<Longrightarrow>
    lexes l z ts"
| lexes_token: "vec_idx z 0 = Ok c \<Longrightarrow> c \<noteq> 0 \<Longrightarrow> sqlite3GetToken z = Ok (n, t) \<Longrightarrow> t \<noteq> TK_SPACE \<Longrightarrow>
    context_keyword l z n t = Some (Ok (Some t')) \<Longrightarrow> lexes (int t') (drop n z) ts \<Longrightarrow> lexes l z (t' # ts)"

text \<open>Code of the rules that leaves the reporting of errors on.\<close>

definition reports_errors :: "('v, 'z) rule_code \<Rightarrow> bool" where
  "reports_errors code \<longleftrightarrow>
     (\<forall>r la vs p. \<not> suppressErr (p_db p) \<longrightarrow> \<not> suppressErr (p_db (snd (code r la vs p))))"

lemma reports_errorsD:
  "reports_errors code \<Longrightarrow> \<not> suppressErr (p_db p) \<Longrightarrow> code r la vs p = (v, p') \<Longrightarrow> \<not> suppressErr (p_db p')"
  by (metis reports_errors_def snd_conv)

lemma sqlite3ErrorMsg_reports:
  "\<not> suppressErr (p_db p) \<Longrightarrow> p_rc (sqlite3ErrorMsg m p) = SQLITE_ERROR \<and> p_db (sqlite3ErrorMsg m p) = p_db p"
  by (simp add: sqlite3ErrorMsg_def)

definition reported :: "('v, 'z) parsed \<Rightarrow> bool" where
  "reported r \<longleftrightarrow> (case r of (ev, st, p) \<Rightarrow> \<not> suppressErr (p_db p) \<and>
     (ev = Syntax_error \<or> ev = Stack_overflow \<longrightarrow> p_rc p \<noteq> SQLITE_OK))"

lemma reported_cases:
  assumes "\<not> suppressErr (p_db p)"
  shows "reported (yyStackOverflow st p)" "reported (yy_shift st a t v p)"
    "yy_syntax_error v p = Ok p' \<Longrightarrow> reported (Syntax_error, st, p')"
  using sqlite3ErrorMsg_reports [OF assms] assms
  by (auto simp: reported_def yyStackOverflow_def yy_shift_def yy_syntax_error_def bind_res_Ok_iff control_defs
      split: if_splits)

lemma yy_reduce_reports:
  assumes "reports_errors code" and "\<not> suppressErr (p_db p)" and "yy_reduce code r la st p = Ok (a, st', p')"
  shows "\<not> suppressErr (p_db p')"
proof -
  obtain v p1 where v: "code r la (rev (map minor (take (nat (- (yyRuleInfoNRhs ! r))) st))) p = (v, p1)"
    by (rule prod.exhaust)
  with assms(3) have "p' = p1"
    by (auto simp: yy_reduce_def bind_res_Ok_iff vec_idx_Ok_iff Let_def split: if_splits)
  with reports_errorsD [OF assms(1,2) v] show ?thesis by simp
qed

lemma yy_loop_reports:
  "yy_loop code t v a st p = Some r \<Longrightarrow>
     reports_errors code \<longrightarrow> \<not> suppressErr (p_db p) \<longrightarrow> (\<forall>x. r = Ok x \<longrightarrow> reported x)"
proof (induction rule: yy_loop.raw_induct [rotated, consumes 1, case_names step])
  case (step loop code t v a st p r)
  show ?case
  proof (intro impI allI)
    fix x
    assume code: "reports_errors code" and p: "\<not> suppressErr (p_db p)" and "r = Ok x"
    note body = step(2) [unfolded \<open>r = Ok x\<close>]
    have rec: "reported x"
      if "loop code t v a' st' p' = Some (Ok x)" "yy_reduce code n la st p = Ok (a', st', p')" for n la a' st' p'
      using step(1) [OF that(1)] code yy_reduce_reports [OF code p that(2)] by simp
    have acc: "reported (Accepted, st', p)" for st' using p by (simp add: reported_def)
    show "reported x"
      using body reported_cases [OF p] acc
      by (auto simp: map_res_Ok_iff dest: rec split: if_splits res.splits)
  qed
qed

lemma parser_reports:
  assumes "sqlite3Parser code t v st p = Some (Ok x)" and "reports_errors code" and "\<not> suppressErr (p_db p)"
  shows "reported x"
proof (cases st)
  case (Cons e st')
  with assms(1) have "yy_loop code t v (stateno e) st p = Some (Ok x)" by (simp add: sqlite3Parser_def)
  from yy_loop_reports [OF this] assms(2,3) show ?thesis by blast
qed (use assms(1) in \<open>simp add: sqlite3Parser_def\<close>)

text \<open>The loop with the stack that spells the tokens shifted before.\<close>

lemma run_loop_sound:
  assumes "good_stack st w" and "terminated z m" and "\<not> suppressErr (p_db p)" and "p_rc p = SQLITE_OK" and "l \<noteq> 0"
    and "reports_errors code" and "run_loop code l mx st p z = Some (Ok (p', z'))" and "p_rc p' = SQLITE_OK"
  shows "\<exists>ts. lexes l z ts \<and> derives 185 (w @ ts)"
  using assms(1-5,7)
proof (induction "3 * m + end_phase l" arbitrary: m l mx st w p z rule: less_induct)
  case less
  from token_at [OF less.prems(2)] obtain n t where
    t: "sqlite3GetToken z = Ok (n, t)" "n \<le> m" "token_type_ok n t"
      "1 \<le> n \<and> 1 \<le> m \<or> m = 0 \<and> n = 0 \<and> t = TK_ILLEGAL" by blast
  from next_round_ok [OF less.prems(2) t(3,2,4), of l p] obtain r where
    r: "next_round l p z n t = Some (Ok r)" "round_ok m l r" by blast
  note p = less.prems(3,4)
  have z0: "vec_idx z 0 = Ok (z ! 0)" using terminated_read [OF less.prems(2)] by simp
  have mx: "\<not> mx - int n < 0"
    using less.prems(6) t(1) assms(8) by (subst (asm) run_loop.simps) (auto simp: fail_parse_def control_defs)
  show ?case
  proof (cases r)
    case (Stop q)
    with less.prems(5,6) t r(1) mx assms(8) p sqlite3ErrorMsg_reports [OF p(1)] have False
      by (subst (asm) run_loop.simps)
        (auto simp: next_round_def bind_run_def fail_parse_def control_defs split: if_splits option.splits res.splits)
    then show ?thesis ..
  next
    case (Skip k)
    then have k: "1 \<le> k" "k \<le> m" using r(2) by simp_all
    have sp: "k = n" "t = TK_SPACE"
      using r(1) Skip by (auto simp: next_round_def bind_run_def split: if_splits option.splits res.splits)
    have "z ! 0 \<noteq> 0" using k less.prems(2) by (simp add: terminated_def)
    moreover have "run_loop code l (mx - int n) st p (drop k z) = Some (Ok (p', z'))"
      using less.prems(6) t(1) r(1) mx Skip by (subst (asm) run_loop.simps) simp
    moreover have "3 * (m - k) + end_phase l < 3 * m + end_phase l" using k by simp
    ultimately show ?thesis
      using less.hyps [OF _ less.prems(1) terminated_drop [OF less.prems(2) k(2)] p less.prems(5)]
        lexes_space [OF z0 _ t(1) [unfolded sp]] sp by blast
  next
    case (Hand t' k)
    with r(2) have h: "t' < 185" "k \<le> m"
      "1 \<le> k \<or> m = 0 \<and> (l = int TK_SEMI \<and> t' = 0 \<or> l \<noteq> int TK_SEMI \<and> l \<noteq> 0 \<and> t' = TK_SEMI)" by auto
    let ?x = "\<lparr>tok_z = z, tok_n = k\<rparr>"
    have "tok_z ?x \<noteq> []" using less.prems(2) by (auto simp: terminated_def)
    from parser_good [OF less.prems(1) h(1) this, of code p] obtain ev st' p1 where
      ps: "sqlite3Parser code t' ?x st p = Some (Ok (ev, st', p1))" "good_stack st' (spelled ev w t')"
        "ev = Accepted \<Longrightarrow> t' = 0 \<and> derives 185 w" "ev = Shifted \<Longrightarrow> 0 < t'"
      by (auto simp: good_outcome_def)
    from parser_reports [OF ps(1) assms(6) p(1)] have
      p1: "\<not> suppressErr (p_db p1)" "ev = Syntax_error \<or> ev = Stack_overflow \<longrightarrow> p_rc p1 \<noteq> SQLITE_OK"
      by (simp_all add: reported_def)
    have "run_loop code l mx st p z = (if p_rc p1 \<noteq> SQLITE_OK then Some (Ok (p1, drop k z))
        else run_loop code (int t') (mx - int n) st' p1 (drop k z))"
      using t(1) r(1) mx Hand ps(1) by (subst run_loop.simps) simp
    with less.prems(6) assms(8) have rc: "p_rc p1 = SQLITE_OK"
      and rest: "run_loop code (int t') (mx - int n) st' p1 (drop k z) = Some (Ok (p', z'))"
      by (auto split: if_splits)
    with p1(2) have ev: "ev = Shifted \<and> 0 < t' \<or> ev = Accepted \<and> t' = 0 \<and> derives 185 w"
      using ps(3,4) by (cases ev) auto
    have later: "\<exists>ts. lexes (int t') (drop k z) ts \<and> derives 185 ((w @ [t']) @ ts)" if "ev = Shifted"
    proof -
      have "3 * (m - k) + end_phase (int t') < 3 * m + end_phase l"
        using h(2,3) by (auto simp: end_phase_def symbol_defs)
      moreover have "good_stack st' (w @ [t'])" "int t' \<noteq> 0" using ps(2) ev that by auto
      ultimately show ?thesis
        using less.hyps [OF _ _ terminated_drop [OF less.prems(2) h(2)] p1(1) rc _ rest] by blast
    qed
    show ?thesis
    proof (cases "z ! 0 = 0")
      case True
      then have "m = 0" using less.prems(2) by (auto simp: terminated_def)
      then have k: "k = 0" using h(2) by simp
      note fin = lexes_end [OF z0 [unfolded True]]
      from ev show ?thesis
      proof (elim disjE conjE)
        assume "ev = Accepted" "t' = 0" "derives 185 w"
        moreover have "l = int TK_SEMI" using h(3) k \<open>t' = 0\<close> by (auto simp: symbol_defs)
        ultimately show ?thesis using fin [of l] by (intro exI [of _ "[]"]) simp
      next
        assume "ev = Shifted" "0 < t'"
        then have l: "l \<noteq> int TK_SEMI" "t' = TK_SEMI" using h(3) k by auto
        from later \<open>ev = Shifted\<close> k obtain ts where ts: "lexes (int TK_SEMI) z ts" "derives 185 ((w @ [TK_SEMI]) @ ts)"
          using l(2) by auto
        have "ts = []" using ts(1) z0 True by (auto elim: lexes.cases)
        with ts(2) fin [of l] l(1) less.prems(5) show ?thesis by (intro exI [of _ "[TK_SEMI]"]) simp
      qed
    next
      case False
      then have n: "1 \<le> n" using t(4) less.prems(2) by (auto simp: terminated_def)
      have ck: "context_keyword l z n t = Some (Ok (Some t'))" "k = n" "t \<noteq> TK_SPACE"
        using r(1) Hand False z0
        by (auto simp: next_round_def context_keyword_def bind_run_def symbol_defs split: if_splits option.splits res.splits)
      then have "0 < t'" using context_keyword_ok [OF less.prems(2) t(3,2) ck(3), of l] by simp
      with ev have "ev = Shifted" by simp
      from later [OF this] obtain ts where ts: "lexes (int t') (drop k z) ts" "derives 185 ((w @ [t']) @ ts)" by blast
      from lexes_token [OF z0 False t(1) ck(3,1)] ts ck(2) show ?thesis
        by (intro exI [of _ "t' # ts"]) simp
    qed
  qed
qed

text \<open>
  C32: what \<open>sqlite3RunParser\<close> accepts is SQL: if the code of the rules leaves the reporting of
  errors on and the call ends with \<open>SQLITE_OK\<close>, then the tokens of the whole text, with the
  keywords decided by their neighbours and a semicolon added where the text lacks it, are derived
  from \<open>input\<close> by the grammar. So no text with a syntax error or an illegal token is accepted.
\<close>

theorem run_parser_sound:
  assumes "0 \<notin> set s" and "reports_errors code" and "\<not> suppressErr (p_db p)"
    and "sqlite3RunParser code v p (s @ [0]) = Some (Ok (nErr, p', zTail))" and "p_rc p' = SQLITE_OK"
  shows "nErr = 0 \<and> (\<exists>ts. lexes (- 1) (s @ [0]) ts \<and> derives NT_input ts)"
proof -
  let ?p = "begin_parse p"
  from run_loop_returns [OF init_good [of v] terminated_append [OF assms(1), of "[]"]]
  obtain p1 k where l: "run_loop code (- 1) (limit_sql_length (p_db p)) (sqlite3ParserInit v) ?p (s @ [0]) =
      Some (Ok (p1, drop k (s @ [0])))" by blast
  with assms(4) have f: "finish_parse p1 (drop k (s @ [0])) = Ok (nErr, p', zTail)"
    by (simp add: sqlite3RunParser_def)
  have ok: "nErr = 0" "p_rc p1 = SQLITE_OK"
    using f assms(5) by (auto simp: finish_parse_def Let_def control_defs split: if_splits)
  have "\<not> suppressErr (p_db ?p)" "p_rc ?p = SQLITE_OK" using assms(3) by (simp_all add: begin_parse_def)
  from run_loop_sound [OF init_good terminated_append [OF assms(1)] this _ assms(2) l ok(2)] ok(1)
  show ?thesis by (simp add: NT_input_def)
qed

text \<open>An instance: the text \<open>COMMIT\<close>, which lacks its semicolon.\<close>

abbreviation commit_text :: bytes where
  "commit_text \<equiv> text_bytes ''COMMIT'' @ [0]"

lemma commit_code: "keywordCode commit_text 6 TK_ID = Ok TK_COMMIT"
proof -
  have "map upcase (take 6 commit_text) = ''COMMIT''" by code_simp
  moreover have "map_of keyword_list ''COMMIT'' = Some TK_COMMIT"
    by (simp add: keyword_list_def keyword_list_0_def map_add_def keyword_list_49_def keyword_list_98_def)
  ultimately show ?thesis
    using sqlite3KeywordCode_ok [of 6 commit_text] by (simp add: sqlite3KeywordCode_def)
qed

lemma commit_letters: "scan_while (\<lambda>c. char_class c \<le> CC_KYWD) commit_text 1 = Ok 6"
  by (simp add: scan_while.simps macro_defs class_defs text_bytes_def vec_idx_def aiClass_0_entries aiClass_64_entries)

lemma commit_bytes: "vec_idx commit_text 6 = Ok 0" "vec_idx commit_text 0 = Ok 67" "char_class 67 = CC_KYWD0"
  by (simp_all add: text_bytes_def vec_idx_def macro_defs class_defs aiClass_64_entries)

lemma commit_keyword: "token_keyword commit_text = Ok (6, TK_COMMIT)"
  unfolding token_keyword_def commit_letters bind_res.simps commit_bytes commit_code map_res.simps
  by (simp only: nul_macros if_False)

lemma commit_token: "sqlite3GetToken commit_text = Ok (6, TK_COMMIT)"
  unfolding sqlite3GetToken_def commit_bytes bind_res.simps Let_def commit_keyword by (simp add: class_defs)

lemma end_token: "sqlite3GetToken [0] = Ok (0, TK_ILLEGAL)"
proof -
  have "vec_idx [0 :: 8 word] 0 = Ok 0" by simp
  then show ?thesis unfolding sqlite3GetToken_def by (simp add: class_defs)
qed

lemmas commit_tokens = commit_token end_token

lemma commit_steps:
  "\<exists>a b c. sqlite3Parser no_code 10 x (sqlite3ParserInit (yyvalue ())) p = Some (Ok (Shifted, a, p)) \<and>
     sqlite3Parser no_code 1 y a p = Some (Ok (Shifted, b, p)) \<and>
     sqlite3Parser no_code 0 z b p = Some (Ok (Accepted, c, p))"
  by (simp add: run_defs run_entries yy_loop.simps yy_find_shift_action.simps)

lemma commit_run:
  "\<exists>zTail. sqlite3RunParser no_code (yyvalue ()) fresh_parse commit_text =
     Some (Ok (0, fresh_parse, zTail))"
proof -
  let ?z = "commit_text"
  from commit_steps obtain a b c where st:
    "sqlite3Parser no_code 10 \<lparr>tok_z = ?z, tok_n = 6\<rparr> (sqlite3ParserInit (yyvalue ())) fresh_parse = Some (Ok (Shifted, a, fresh_parse))"
    "sqlite3Parser no_code 1 \<lparr>tok_z = [0], tok_n = 0\<rparr> a fresh_parse = Some (Ok (Shifted, b, fresh_parse))"
    "sqlite3Parser no_code 0 \<lparr>tok_z = [0], tok_n = 0\<rparr> b fresh_parse = Some (Ok (Accepted, c, fresh_parse))" by blast
  have d: "drop 6 ?z = [0]" by (simp add: text_bytes_def)
  have r: "next_round l fresh_parse ?z 6 TK_COMMIT = Some (Ok (Hand 10 6))" for l
    by (simp add: next_round_def symbol_defs)
  have e: "next_round 10 fresh_parse [0] 0 TK_ILLEGAL = Some (Ok (Hand 1 0))"
    "next_round 1 fresh_parse [0] 0 TK_ILLEGAL = Some (Ok (Hand 0 0))"
    "next_round 0 fresh_parse [0] 0 TK_ILLEGAL = Some (Ok (Stop fresh_parse))"
    by (simp_all add: next_round_def symbol_defs bind_run_def vec_idx_def)
  have z: "run_loop no_code 0 n c fresh_parse [0] = Some (Ok (fresh_parse, [0]))" if "0 \<le> n" for n c
    using that by (subst run_loop.simps) (simp add: commit_tokens e)
  have o: "run_loop no_code 1 n b fresh_parse [0] = Some (Ok (fresh_parse, [0]))" if "0 \<le> n" for n
    using that st(3) z by (subst run_loop.simps) (simp add: commit_tokens e control_defs)
  have s: "run_loop no_code 10 n a fresh_parse [0] = Some (Ok (fresh_parse, [0]))" if "0 \<le> n" for n
    using that st(2) o by (subst run_loop.simps) (simp add: commit_tokens e control_defs)
  have "run_loop no_code (- 1) 1000000000 (sqlite3ParserInit (yyvalue ())) fresh_parse ?z = Some (Ok (fresh_parse, [0]))"
    using st(1) s d by (subst run_loop.simps) (simp add: commit_tokens r control_defs)
  then show ?thesis
    by (simp add: sqlite3RunParser_def begin_parse_def finish_parse_def control_defs)
qed

theorem run_parser_sound_witness:
  "\<exists>ts. lexes (- 1) commit_text ts \<and> derives NT_input ts"
proof -
  from commit_run obtain zTail where
    "sqlite3RunParser no_code (yyvalue ()) fresh_parse commit_text = Some (Ok (0, fresh_parse, zTail))"
    by blast
  from run_parser_sound [OF _ _ _ this] show ?thesis
    by (simp add: reports_errors_def text_bytes_def control_defs)
qed

end
