(* ===== verification/SqQuote.thy ===== *)
theory SqQuote
  imports SqTokenSafe
begin

text \<open>
  Quoting: the conversions \<open>%q\<close>, \<open>%Q\<close> and \<open>%w\<close> of \<open>sqlite3_str_vappendf\<close> and the removal of quotes
  by \<open>sqlite3Dequote\<close>. What \<open>%Q\<close> prints is one string token, and its value is the argument.
\<close>

section \<open>The conversions\<close>

datatype et_escape = etSQLESCAPE | etSQLESCAPE2 | etSQLESCAPE3

lemma scan_while_ge: "scan_while P z i = Ok j \<Longrightarrow> i \<le> j \<and> j < length z"
  by (induction P z i rule: scan_while.induct)
    (subst (asm) (2) scan_while.simps, auto simp: bind_res_Ok_iff vec_idx_Ok_iff split: if_splits)

text \<open>
  The first loop: how many bytes of the argument are used, and how many of them are the quote.
  With the flag \<open>!\<close> the precision counts characters of UTF-8, whose continuation bytes are passed.
\<close>

function escape_scan :: "bool \<Rightarrow> 8 word \<Rightarrow> 8 word list \<Rightarrow> int \<Rightarrow> nat \<Rightarrow> nat \<Rightarrow> (nat \<times> nat) res" where
  "escape_scan flag_altform2 q escarg k i n =
     (if k = 0 then Ok (i, n)
      else bind_res (vec_idx escarg i) (\<lambda>c.
        if c = 0 then Ok (i, n)
        else
          bind_res
            (if flag_altform2 \<and> c AND 0xC0 = 0xC0 then scan_while (\<lambda>c. c AND 0xC0 = 0x80) escarg (i + 1)
             else Ok (i + 1))
            (\<lambda>j. escape_scan flag_altform2 q escarg (k - 1) j (if c = q then n + 1 else n))))"
  by auto
termination
  by (relation "measure (\<lambda>(f, q, e, k, i, n). length e - i)")
    (auto simp: vec_idx_Ok_iff dest!: scan_while_ge split: if_splits)

declare escape_scan.simps [simp del]

definition double_quotes :: "8 word \<Rightarrow> 8 word list \<Rightarrow> 8 word list" where
  "double_quotes q s = concat (map (\<lambda>c. if c = q then [c, c] else [c]) s)"

text \<open>The text that is printed, and the size of the buffer that was provided for it.\<close>

definition sql_escape :: "et_escape \<Rightarrow> bool \<Rightarrow> int \<Rightarrow> 8 word list option \<Rightarrow> (8 word list \<times> nat) res" where
  "sql_escape xtype flag_altform2 precision arg =
     (let q = (if xtype = etSQLESCAPE3 then 34 else 39);
          escarg = (case arg of Some z \<Rightarrow> z
                    | None \<Rightarrow> text_bytes (if xtype = etSQLESCAPE2 then ''NULL'' else ''(NULL)'') @ [0]) in
      map_res (\<lambda>(i, n).
        let needQuote = (arg \<noteq> None \<and> xtype = etSQLESCAPE2);
            body = double_quotes q (take i escarg) in
        (if needQuote then q # body @ [q] else body, n + i + 3))
        (escape_scan flag_altform2 q escarg precision 0 0))"

section \<open>Removing quotes\<close>

text \<open>The loop works in place: it writes at \<open>j\<close>, behind the position \<open>i\<close> it reads.\<close>

function dequote_loop :: "8 word list \<Rightarrow> 8 word \<Rightarrow> nat \<Rightarrow> nat \<Rightarrow> 8 word list res" where
  "dequote_loop z quote i j =
     bind_res (vec_idx z i) (\<lambda>c.
       if c = 0 then Undef
       else if c = quote then
         bind_res (vec_idx z (i + 1)) (\<lambda>d.
           if d = quote then dequote_loop (z[j := quote]) quote (i + 2) (j + 1) else Ok (z[j := 0]))
       else dequote_loop (z[j := c]) quote (i + 1) (j + 1))"
  by auto
termination
  by (relation "measure (\<lambda>(z, quote, i, j). length z - i)") (auto simp: vec_idx_Ok_iff)

declare dequote_loop.simps [simp del]

definition sqlite3Dequote :: "8 word list option \<Rightarrow> 8 word list option res" where
  "sqlite3Dequote arg =
     (case arg of None \<Rightarrow> Ok None
      | Some z \<Rightarrow> bind_res (vec_idx z 0) (\<lambda>quote.
          if \<not> sqlite3Isquote quote then Ok (Some z)
          else map_res Some (dequote_loop z (if quote = ch CHR ''['' then ch CHR '']'' else quote) 1 0)))"

text \<open>The string that starts at a pointer.\<close>

definition c_string :: "8 word list \<Rightarrow> 8 word list" where
  "c_string z = takeWhile (\<lambda>c. c \<noteq> 0) z"

section \<open>The size of the buffer\<close>

lemma length_double_quotes: "length (double_quotes q s) = length s + count_list s q"
  by (induction s) (auto simp: double_quotes_def)

lemma double_quotes_simps:
  "double_quotes q [] = []"
  "double_quotes q (c # s) = (if c = q then [c, c] else [c]) @ double_quotes q s"
  by (simp_all add: double_quotes_def)

lemma take_count: "i < length e \<Longrightarrow> count_list (take (Suc i) e) q = count_list (take i e) q + (if e ! i = q then 1 else 0)"
  by (simp add: take_Suc_conv_app_nth)

lemma scan_while_skipped:
  assumes "scan_while P z i = Ok j" and "\<not> P q" and "i \<le> length z"
  shows "count_list (take j z) q = count_list (take i z) q"
  using assms
proof (induction P z i rule: scan_while.induct)
  case (1 P z i)
  from "1.prems"(1) obtain c where c: "vec_idx z i = Ok c"
    by (subst (asm) scan_while.simps) (auto simp: bind_res_Ok_iff)
  show ?case
  proof (cases "P c")
    case True
    with c "1.prems" have "scan_while P z (Suc i) = Ok j" by (subst (asm) scan_while.simps) simp
    with "1.IH" [OF c True] "1.prems" c True show ?thesis by (auto simp: vec_idx_Ok_iff take_count)
  next
    case False
    with c "1.prems" show ?thesis by (subst (asm) scan_while.simps) simp
  qed
qed

lemma escape_scan_counts:
  assumes "escape_scan f q e k i n = Ok (i', n')" and "q = 34 \<or> q = 39" and "i \<le> length e"
    and "n = count_list (take i e) q"
  shows "i' \<le> length e \<and> n' = count_list (take i' e) q"
  using assms
proof (induction f q e k i n rule: escape_scan.induct)
  case (1 f q e k i n)
  show ?case
  proof (cases "k = 0")
    case True
    with "1.prems" show ?thesis by (auto simp: escape_scan.simps)
  next
    case k: False
    with "1.prems"(1) obtain c where c: "vec_idx e i = Ok c"
      by (subst (asm) escape_scan.simps) (auto simp: bind_res_Ok_iff)
    show ?thesis
    proof (cases "c = 0")
      case True
      with k c "1.prems" show ?thesis by (subst (asm) escape_scan.simps) auto
    next
      case False
      let ?next = "if f \<and> c AND 0xC0 = 0xC0 then scan_while (\<lambda>c. c AND 0xC0 = 0x80) e (i + 1) else Ok (i + 1)"
      let ?n = "if c = q then n + 1 else n"
      from k c False "1.prems"(1) obtain j where j: "?next = Ok j" "escape_scan f q e (k - 1) j ?n = Ok (i', n')"
        by (subst (asm) escape_scan.simps) (auto simp: bind_res_Ok_iff)
      have i: "i < length e" "e ! i = c" using c by (simp_all add: vec_idx_Ok_iff)
      have "j \<le> length e \<and> ?n = count_list (take j e) q"
      proof (cases "f \<and> c AND 0xC0 = 0xC0")
        case True
        with j(1) have s: "scan_while (\<lambda>c. c AND 0xC0 = 0x80) e (Suc i) = Ok j" by simp
        have "\<not> q AND 0xC0 = 0x80" using "1.prems"(2) by auto
        from scan_while_skipped [OF s this] scan_while_ge [OF s] i "1.prems"(4) show ?thesis
          by (simp add: take_count)
      next
        case False
        with j(1) i "1.prems"(4) show ?thesis by (auto simp: take_count)
      qed
      with "1.IH" [OF k c False j(1,2)] "1.prems"(2) show ?thesis by simp
    qed
  qed
qed

text \<open>
  The buffer of the conversions \<open>%q\<close>, \<open>%Q\<close> and \<open>%w\<close> is large enough: for every argument,
  precision and flag, the text that the second loop writes and the zero byte behind it fit into
  the size that the first loop computed.
\<close>

theorem escape_fits_buffer:
  assumes "sql_escape xtype flag_altform2 precision arg = Ok (out, bufsize)"
  shows "length out + 1 \<le> bufsize"
proof -
  let ?q = "(if xtype = etSQLESCAPE3 then 34 else 39) :: 8 word"
  define e where "e = (case arg of Some z \<Rightarrow> z
     | None \<Rightarrow> text_bytes (if xtype = etSQLESCAPE2 then ''NULL'' else ''(NULL)'') @ [0])"
  from assms obtain i n where s: "escape_scan flag_altform2 ?q e precision 0 0 = Ok (i, n)"
    and out: "out = (if arg \<noteq> None \<and> xtype = etSQLESCAPE2 then ?q # double_quotes ?q (take i e) @ [?q]
        else double_quotes ?q (take i e))" "bufsize = n + i + 3"
    unfolding sql_escape_def e_def [symmetric] Let_def by (auto simp: map_res_Ok_iff)
  from escape_scan_counts [OF s] have "i \<le> length e \<and> n = count_list (take i e) ?q" by simp
  with out show ?thesis by (auto simp: length_double_quotes)
qed

theorem escape_fits_buffer_witness:
  "\<exists>out n. sql_escape etSQLESCAPE2 True 2 (Some [39, 0xC3, 0xA9, 39, 0]) = Ok (out, n) \<and> length out + 1 \<le> n"
proof -
  have "sql_escape etSQLESCAPE2 True 2 (Some [39, 0xC3, 0xA9, 39, 0]) = Ok ([39, 39, 39, 0xC3, 0xA9, 39], 7)"
    by (simp add: sql_escape_def escape_scan.simps scan_while.simps double_quotes_def vec_idx_def)
  with escape_fits_buffer [OF this] show ?thesis by blast
qed

section \<open>What is quoted is one token\<close>

lemma escape_scan_all:
  assumes "k < 0" and "0 \<notin> set s" and "i \<le> length s"
  shows "\<exists>n'. escape_scan False q (s @ 0 # r) k i n = Ok (length s, n')"
  using assms
proof (induction "length s - i" arbitrary: i k n)
  case 0
  then have "i = length s" by simp
  then show ?case by (subst escape_scan.simps) (simp add: vec_idx_def)
next
  case (Suc x)
  then have i: "i < length s" by simp
  then have "s ! i \<noteq> 0" using Suc.prems(2) by (metis nth_mem)
  with i Suc.prems(1) have
    "escape_scan False q (s @ 0 # r) k i n = escape_scan False q (s @ 0 # r) (k - 1) (Suc i) (if s ! i = q then n + 1 else n)"
    by (subst escape_scan.simps) (simp add: vec_idx_def nth_append)
  with Suc.hyps(1) [of "Suc i" "k - 1"] Suc.hyps(2) Suc.prems i show ?case by simp
qed

lemma quote_end_doubled:
  assumes "q \<noteq> 0" and "0 \<notin> set s" and "d \<noteq> q"
  shows "quote_end (pre @ double_quotes q s @ q # d # rest) q (length pre) =
     Ok (length pre + length (double_quotes q s), q)"
  using assms(2)
proof (induction s arbitrary: pre)
  case Nil
  then show ?case using assms by (subst quote_end.simps) (simp add: double_quotes_simps vec_idx_def nth_append)
next
  case (Cons c s)
  have c: "c \<noteq> 0" using Cons.prems by auto
  let ?p = "pre @ (if c = q then [c, c] else [c])"
  have z: "pre @ double_quotes q (c # s) @ q # d # rest = ?p @ double_quotes q s @ q # d # rest"
    by (simp add: double_quotes_simps)
  have "quote_end (?p @ double_quotes q s @ q # d # rest) q (length pre) =
      quote_end (?p @ double_quotes q s @ q # d # rest) q (length ?p)"
    using c assms(1) by (subst quote_end.simps) (simp add: vec_idx_def nth_append)
  moreover have "length pre + length (double_quotes q (c # s)) = length ?p + length (double_quotes q s)"
    by (simp add: double_quotes_simps)
  ultimately show ?case unfolding z using Cons.IH [of ?p] Cons.prems by simp
qed

lemma dequote_loop_doubled:
  assumes "drop i z = double_quotes q s @ q # d # rest" and "d \<noteq> q" and "q \<noteq> 0" and "0 \<notin> set s" and "j < i"
  shows "\<exists>z'. dequote_loop z q i j = Ok z' \<and> take (j + length s) z' = take j z @ s \<and> length z' = length z \<and>
     z' ! (j + length s) = 0"
  using assms(1,4,5)
proof (induction s arbitrary: z i j)
  case Nil
  have i: "i + 1 < length z" using arg_cong [OF Nil.prems(1), of length] by (simp add: double_quotes_simps)
  moreover have "z ! i = q" "z ! Suc i = d"
    using i nth_via_drop [of i z] nth_drop [of i z 1] Nil.prems(1) by (simp_all add: double_quotes_simps)
  ultimately show ?case using assms(2,3) Nil.prems(3)
    by (intro exI [of _ "z[j := 0]"], subst dequote_loop.simps) (simp add: vec_idx_def)
next
  case (Cons c s)
  let ?k = "if c = q then 2 else 1"
  let ?z = "z[j := c]"
  have c: "c \<noteq> 0" using Cons.prems(2) by auto
  have i: "i + ?k < length z"
    using arg_cong [OF Cons.prems(1), of length] by (auto simp: double_quotes_simps split: if_splits)
  have zi: "z ! i = c" using i nth_via_drop [of i z] Cons.prems(1) by (simp add: double_quotes_simps split: if_splits)
  have zi1: "c = q \<Longrightarrow> z ! Suc i = q"
    using i nth_drop [of i z 1] Cons.prems(1) by (simp add: double_quotes_simps)
  have step: "dequote_loop z q i j = dequote_loop ?z q (i + ?k) (Suc j)"
    using c i zi zi1 by (subst dequote_loop.simps) (auto simp: vec_idx_def)
  have "drop (i + ?k) z = drop ?k (drop i z)" by (simp add: add.commute)
  then have "drop (i + ?k) ?z = double_quotes q s @ q # d # rest"
    using Cons.prems(1,3) by (simp add: double_quotes_simps)
  moreover have "0 \<notin> set s" "Suc j < i + ?k" using Cons.prems(2,3) by auto
  ultimately obtain z' where
    z': "dequote_loop ?z q (i + ?k) (Suc j) = Ok z'" "take (Suc j + length s) z' = take (Suc j) ?z @ s"
      "length z' = length z" "z' ! (Suc j + length s) = 0"
    using Cons.IH [of "i + ?k" ?z "Suc j"] by auto
  have "take (Suc j) ?z = take j z @ [c]" using i Cons.prems(3) by (simp add: take_Suc_conv_app_nth)
  with step z' show ?case by simp
qed

lemma quoted_lookup: "char_class 39 = CC_QUOTE" "sqlite3Isquote 39"
  by (simp_all add: macro_defs class_defs aiClass_0_entries sqlite3CtypeMap_0_entries)

text \<open>
  C35: what \<open>%Q\<close> prints for a string is, wherever it stands in an SQL text, exactly one token, a
  string literal, unless the byte behind it is another quote; and removing the quotes of that
  token gives the string back. So no argument of \<open>%Q\<close> can end its literal early.
\<close>

theorem quote_round_trip:
  assumes "0 \<notin> set s" and "d \<noteq> 39"
  shows "\<exists>out n z. sql_escape etSQLESCAPE2 False (- 1) (Some (s @ [0])) = Ok (out, n) \<and>
     sqlite3GetToken (out @ d # rest) = Ok (length out, TK_STRING) \<and>
     sqlite3Dequote (Some (out @ [0])) = Ok (Some z) \<and> c_string z = s"
proof -
  let ?b = "double_quotes 39 s"
  let ?out = "39 # ?b @ [39]"
  obtain n where "escape_scan False 39 (s @ [0]) (- 1) 0 0 = Ok (length s, n)"
    using escape_scan_all [OF _ assms(1) le0, of "- 1" 39 "[]" 0] by auto
  then have out: "sql_escape etSQLESCAPE2 False (- 1) (Some (s @ [0])) = Ok (?out, n + length s + 3)"
    by (simp add: sql_escape_def)
  have "quote_end (?out @ d # rest) 39 1 = Ok (1 + length ?b, 39)"
    using quote_end_doubled [OF _ assms, of "[39]" rest] by simp
  then have token: "sqlite3GetToken (?out @ d # rest) = Ok (length ?out, TK_STRING)"
    using quoted_lookup(1) by (simp add: sqlite3GetToken_def token_quote_def class_defs)
  have "drop 1 (?out @ [0]) = ?b @ 39 # 0 # []" by simp
  from dequote_loop_doubled [OF this _ _ assms(1), of 0] obtain z where
    z: "dequote_loop (?out @ [0]) 39 1 0 = Ok z" "take (length s) z = s" "length z = length (?out @ [0])"
      "z ! length s = 0" by auto
  have "length s < length z" using z(3) by (simp add: length_double_quotes)
  then have "z = s @ 0 # drop (Suc (length s)) z" using id_take_nth_drop [of "length s" z] z(2,4) by simp
  then have "c_string z = s" using assms(1) takeWhile_append2 [of s "\<lambda>c. c \<noteq> 0"]
    unfolding c_string_def by (metis (mono_tags, lifting) append_Nil2 takeWhile.simps(2))
  with out token z(1) quoted_lookup(2) show ?thesis by (simp add: sqlite3Dequote_def)
qed

theorem quote_round_trip_witness:
  "\<exists>out n. sql_escape etSQLESCAPE2 False (- 1) (Some (text_bytes ''it's; --'' @ [0])) = Ok (out, n) \<and>
     sqlite3GetToken (out @ text_bytes '';'' @ [0]) = Ok (length out, TK_STRING)"
proof -
  have "0 \<notin> set (text_bytes ''it's; --'')" "(59 :: 8 word) \<noteq> 39" by (simp_all add: text_bytes_def)
  from quote_round_trip [OF this, of "[0]"] show ?thesis by (auto simp: text_bytes_def)
qed

end
