(* ===== verification/SqVarint.thy ===== *)
theory SqVarint
  imports Prelude "HOL-Library.Word"
begin

unbundle bit_operations_syntax

text \<open>
  The variable-length integers of the database file: \<open>putVarint64\<close>, \<open>sqlite3PutVarint\<close>, the unrolled
  readers \<open>sqlite3GetVarint\<close> and \<open>sqlite3GetVarint32\<close>, and \<open>sqlite3VarintLen\<close>, over the bytes from the
  pointer on. The readers agree with the description of the format, and they read back what is written.
\<close>

section \<open>Writing\<close>

text \<open>\<open>for(i=7; i>=0; i--)\<close> of the nine-byte case; the argument is \<open>i + 1\<close>.\<close>

fun put_nine :: "nat \<Rightarrow> 64 word \<Rightarrow> 8 word list \<Rightarrow> 8 word list res" where
  "put_nine 0 v p = Ok p"
| "put_nine (Suc i) v p =
     bind_res (vec_put p i (ucast (v AND 0x7F OR 0x80))) (put_nine i (drop_bit 7 v))"

text \<open>The loop that fills \<open>buf\<close>, lowest group first.\<close>

lemma drop_bit_measure: "drop_bit 7 v \<noteq> 0 \<Longrightarrow> unat (drop_bit 7 v) < unat (v :: 64 word)"
  by (cases "v = 0") (simp_all add: unat_drop_bit_eq unat_gt_0 drop_bit_eq_div unat_div_distrib)

function varint_buf :: "64 word \<Rightarrow> 8 word list" where
  "varint_buf v =
     ucast (v AND 0x7F OR 0x80) # (if drop_bit 7 v \<noteq> 0 then varint_buf (drop_bit 7 v) else [])"
  by auto
termination
  by (relation "measure unat") (auto simp: drop_bit_measure)

declare varint_buf.simps [simp del]

text \<open>\<open>for(i=0, j=n-1; j>=0; j--, i++) p[i] = buf[j]\<close>: the groups in the order they are written.\<close>

fun put_bytes :: "nat \<Rightarrow> 8 word list \<Rightarrow> 8 word list \<Rightarrow> 8 word list res" where
  "put_bytes i [] p = Ok p"
| "put_bytes i (b # bs) p = bind_res (vec_put p i b) (put_bytes (i + 1) bs)"

definition putVarint64 :: "8 word list \<Rightarrow> 64 word \<Rightarrow> (nat \<times> 8 word list) res" where
  "putVarint64 p v =
     (if v AND push_bit 32 0xFF000000 \<noteq> 0 then
        bind_res (vec_put p 8 (ucast v)) (\<lambda>p. map_res (Pair 9) (put_nine 8 (drop_bit 8 v) p))
      else
        let buf = varint_buf v; buf' = buf[0 := hd buf AND 0x7F] in
        if length buf \<le> 9 then map_res (Pair (length buf)) (put_bytes 0 (rev buf') p) else Undef)"

definition sqlite3PutVarint :: "8 word list \<Rightarrow> 64 word \<Rightarrow> (nat \<times> 8 word list) res" where
  "sqlite3PutVarint p v =
     (if v \<le> 0x7F then map_res (Pair 1) (vec_put p 0 (ucast (v AND 0x7F)))
      else if v \<le> 0x3FFF then
        bind_res (vec_put p 0 (ucast (drop_bit 7 v AND 0x7F OR 0x80))) (\<lambda>p.
          map_res (Pair 2) (vec_put p 1 (ucast (v AND 0x7F))))
      else putVarint64 p v)"

section \<open>Reading\<close>

definition SLOT_2_0 :: "32 word" where "SLOT_2_0 = 0x001FC07F"
definition SLOT_4_2_0 :: "32 word" where "SLOT_4_2_0 = 0xF01FC07F"

abbreviation u32 :: "8 word \<Rightarrow> 32 word" where "u32 \<equiv> ucast"

abbreviation u64 :: "32 word \<Rightarrow> 64 word" where "u64 \<equiv> ucast"

definition sqlite3GetVarint :: "8 word list \<Rightarrow> (nat \<times> 64 word) res" where
  "sqlite3GetVarint p =
     bind_res (vec_idx p 0) (\<lambda>p0.
     if 0 \<le>s p0 then Ok (1, ucast p0) else
     bind_res (vec_idx p 1) (\<lambda>p1.
     if 0 \<le>s p1 then Ok (2, u64 (push_bit 7 (u32 (p0 AND 0x7F)) OR u32 p1)) else
     let a = push_bit 14 (u32 p0); b = u32 p1 in
     bind_res (vec_idx p 2) (\<lambda>p2.
     let a = a OR u32 p2 in
     if a AND 0x80 = 0 then
       let a = a AND SLOT_2_0; b = b AND 0x7F; b = push_bit 7 b; a = a OR b in Ok (3, u64 a) else
     let a = a AND SLOT_2_0 in
     bind_res (vec_idx p 3) (\<lambda>p3.
     let b = push_bit 14 b; b = b OR u32 p3 in
     if b AND 0x80 = 0 then
       let b = b AND SLOT_2_0; a = push_bit 7 a; a = a OR b in Ok (4, u64 a) else
     let b = b AND SLOT_2_0; s = a in
     bind_res (vec_idx p 4) (\<lambda>p4.
     let a = push_bit 14 a; a = a OR u32 p4 in
     if a AND 0x80 = 0 then
       let b = push_bit 7 b; a = a OR b; s = drop_bit 18 s in Ok (5, push_bit 32 (u64 s) OR u64 a) else
     let s = push_bit 7 s; s = s OR b in
     bind_res (vec_idx p 5) (\<lambda>p5.
     let b = push_bit 14 b; b = b OR u32 p5 in
     if b AND 0x80 = 0 then
       let a = a AND SLOT_2_0; a = push_bit 7 a; a = a OR b; s = drop_bit 18 s
       in Ok (6, push_bit 32 (u64 s) OR u64 a) else
     bind_res (vec_idx p 6) (\<lambda>p6.
     let a = push_bit 14 a; a = a OR u32 p6 in
     if a AND 0x80 = 0 then
       let a = a AND SLOT_4_2_0; b = b AND SLOT_2_0; b = push_bit 7 b; a = a OR b; s = drop_bit 11 s
       in Ok (7, push_bit 32 (u64 s) OR u64 a) else
     let a = a AND SLOT_2_0 in
     bind_res (vec_idx p 7) (\<lambda>p7.
     let b = push_bit 14 b; b = b OR u32 p7 in
     if b AND 0x80 = 0 then
       let b = b AND SLOT_4_2_0; a = push_bit 7 a; a = a OR b; s = drop_bit 4 s
       in Ok (8, push_bit 32 (u64 s) OR u64 a) else
     bind_res (vec_idx p 8) (\<lambda>p8.
     let a = push_bit 15 a; a = a OR u32 p8; b = b AND SLOT_2_0; b = push_bit 8 b; a = a OR b;
         s = push_bit 4 s; b = u32 p4; b = b AND 0x7F; b = drop_bit 3 b; s = s OR b
     in Ok (9, push_bit 32 (u64 s) OR u64 a))))))))))"

definition sqlite3GetVarint32 :: "8 word list \<Rightarrow> (nat \<times> 32 word) res" where
  "sqlite3GetVarint32 p =
     bind_res (vec_idx p 0) (\<lambda>p0.
     let a = u32 p0 in
     bind_res (vec_idx p 1) (\<lambda>p1.
     let b = u32 p1 in
     if b AND 0x80 = 0 then
       let a = a AND 0x7F; a = push_bit 7 a in Ok (2, a OR b) else
     bind_res (vec_idx p 2) (\<lambda>p2.
     let a = push_bit 14 a; a = a OR u32 p2 in
     if a AND 0x80 = 0 then
       let a = a AND (push_bit 14 0x7F OR 0x7F); b = b AND 0x7F; b = push_bit 7 b in Ok (3, a OR b) else
     bind_res (sqlite3GetVarint p) (\<lambda>(n, v64).
       if 3 < n \<and> n \<le> 9 then Ok (n, if v64 AND 0xFFFFFFFF \<noteq> v64 then 0xFFFFFFFF else ucast v64)
       else Undef))))"

text \<open>The macro \<open>getVarint32\<close>, which has the one-byte case.\<close>

definition getVarint32 :: "8 word list \<Rightarrow> (nat \<times> 32 word) res" where
  "getVarint32 p = bind_res (vec_idx p 0) (\<lambda>p0. if p0 < 0x80 then Ok (1, ucast p0) else sqlite3GetVarint32 p)"

text \<open>\<open>for(i=1; (v >>= 7)!=0; i++)\<close>.\<close>

function varint_len_loop :: "64 word \<Rightarrow> nat \<Rightarrow> nat res" where
  "varint_len_loop v i =
     (let v = drop_bit 7 v in
      if v \<noteq> 0 then if i < 10 then varint_len_loop v (i + 1) else Undef else Ok i)"
  by auto
termination
  by (relation "measure (unat \<circ> fst)") (auto simp: drop_bit_measure)

declare varint_len_loop.simps [simp del]

definition sqlite3VarintLen :: "64 word \<Rightarrow> nat res" where
  "sqlite3VarintLen v = varint_len_loop v 1"

section \<open>The format\<close>

text \<open>
  Seven bits in each byte whose high bit is set and in the first whose high bit is clear; all
  eight bits of a ninth byte.
\<close>

definition septet :: "64 word \<Rightarrow> 8 word \<Rightarrow> 64 word" where
  "septet acc b = push_bit 7 acc OR ucast (b AND 0x7F)"

fun varint_value :: "nat \<Rightarrow> 64 word \<Rightarrow> 8 word list \<Rightarrow> (nat \<times> 64 word) option" where
  "varint_value k acc [] = None"
| "varint_value k acc (b # bs) =
     (if k = 8 then Some (9, push_bit 8 acc OR ucast b)
      else if \<not> bit b 7 then Some (k + 1, push_bit 7 acc OR ucast b)
      else varint_value (k + 1) (septet acc b) bs)"

lemma signed_nonneg: "0 \<le>s (b :: 8 word) \<longleftrightarrow> \<not> bit b 7"
  using bit_last_iff [of b] by (auto simp: word_sle_eq)

lemma test_80: "a AND 0x80 = (0 :: 32 word) \<longleftrightarrow> \<not> bit a 7"
  using and_exp_eq_0_iff_not_bit [of a 7] by simp

lemma bit_SLOT_2_0: "bit SLOT_2_0 n \<longleftrightarrow> n < 7 \<or> (14 \<le> n \<and> n < 21)"
proof -
  have e: "SLOT_2_0 = mask 7 OR push_bit 14 (mask 7)"
    by (simp add: SLOT_2_0_def mask_eq_exp_minus_1)
  show ?thesis unfolding e by (auto simp: bit_simps)
qed

lemma bit_SLOT_4_2_0: "bit SLOT_4_2_0 n \<longleftrightarrow> n < 7 \<or> (14 \<le> n \<and> n < 21) \<or> (28 \<le> n \<and> n < 32)"
proof -
  have e: "SLOT_4_2_0 = mask 7 OR push_bit 14 (mask 7) OR push_bit 28 (mask 4)"
    by (simp add: SLOT_4_2_0_def mask_eq_exp_minus_1)
  show ?thesis unfolding e by (auto simp: bit_simps)
qed

lemma and_7F: "w AND 0x7F = take_bit 7 (w :: 'a::len word)"
  by (simp add: take_bit_eq_mask mask_eq_exp_minus_1)

lemma bit_byte: "bit (b :: 8 word) n \<Longrightarrow> n < 8"
  using bit_imp_le_length [of b n] by simp

lemma bit_byte_out: "8 \<le> n \<Longrightarrow> \<not> bit (b :: 8 word) n"
  using bit_byte [of b n] by auto

lemma bit_7: "bit (b :: 8 word) n \<Longrightarrow> \<not> bit b 7 \<Longrightarrow> n < 7"
  using bit_byte [of b n] by (cases "n = 7") auto


lemma bit_low_7: "bit (push_bit 14 x OR u32 y) 7 = bit y 7"
  by (simp add: bit_simps)

lemma bit_septet: "bit (septet acc b) n \<longleftrightarrow> n < 64 \<and> (if n < 7 then bit b n else bit acc (n - 7))"
  unfolding septet_def and_7F by (auto simp: bit_simps)

lemma bit_final: "\<not> bit (b :: 8 word) 7 \<Longrightarrow>
   bit (push_bit 7 acc OR ucast b :: 64 word) n \<longleftrightarrow> n < 64 \<and> (if n < 7 then bit b n else bit acc (n - 7))"
  by (cases "n < 7"; cases "n = 7"; cases "n < 8") (auto simp: bit_simps not_less dest: bit_byte)

lemma bit_final_9:
   "bit (push_bit 8 acc OR ucast (b :: 8 word) :: 64 word) n \<longleftrightarrow> n < 64 \<and> (if n < 8 then bit b n else bit acc (n - 8))"
  by (cases "n < 8") (auto simp: bit_simps not_less dest: bit_byte)

text \<open>Two words are compared position by position, so that the simplifier sees numerals.\<close>

lemma upto_64: "[0..<64] =
     [0, 1, 2, 3, 4, 5, 6, 7, 8, 9, 10, 11, 12, 13, 14, 15, 16, 17, 18, 19, 20, 21, 22, 23, 24,
      25, 26, 27, 28, 29, 30, 31, 32, 33, 34, 35, 36, 37, 38, 39, 40, 41, 42, 43, 44, 45,
      46, 47, 48, 49, 50, 51, 52, 53, 54, 55, 56, 57, 58, 59, 60, 61, 62, 63]"
  by code_simp

lemma word64_eqI: "list_all (\<lambda>n. bit v n = bit w n)
     [0, 1, 2, 3, 4, 5, 6, 7, 8, 9, 10, 11, 12, 13, 14, 15, 16, 17, 18, 19, 20, 21, 22, 23, 24,
      25, 26, 27, 28, 29, 30, 31, 32, 33, 34, 35, 36, 37, 38, 39, 40, 41, 42, 43, 44, 45,
      46, 47, 48, 49, 50, 51, 52, 53, 54, 55, 56, 57, 58, 59, 60, 61, 62, 63]
    \<Longrightarrow> v = (w :: 64 word)"
  unfolding upto_64 [symmetric] by (rule bit_word_eqI) (simp add: list_all_iff)

lemma upto_32: "[0..<32] =
     [0, 1, 2, 3, 4, 5, 6, 7, 8, 9, 10, 11, 12, 13, 14, 15, 16, 17, 18, 19, 20, 21, 22, 23, 24,
      25, 26, 27, 28, 29, 30, 31]"
  by code_simp

lemma word32_eqI: "list_all (\<lambda>n. bit v n = bit w n)
     [0, 1, 2, 3, 4, 5, 6, 7, 8, 9, 10, 11, 12, 13, 14, 15, 16, 17, 18, 19, 20, 21, 22, 23, 24,
      25, 26, 27, 28, 29, 30, 31]
    \<Longrightarrow> v = (w :: 32 word)"
  unfolding upto_32 [symmetric] by (rule bit_word_eqI) (simp add: list_all_iff)




lemmas varint_bits = bit_final bit_final_9 bit_septet bit_simps bit_SLOT_2_0 bit_SLOT_4_2_0 bit_byte_out

text \<open>
  A branch of the reader at a time: the goal of each is an equation of words, which is compared
  bit by bit.
\<close>

lemma get_varint_is_value:
  "sqlite3GetVarint p = (case varint_value 0 0 p of None \<Rightarrow> Undef | Some r \<Rightarrow> Ok r)"
  unfolding sqlite3GetVarint_def signed_nonneg test_80 Let_def bit_low_7
  apply (cases p, simp)
  subgoal for p0 ps
    apply (cases "\<not> bit p0 7", simp)
    apply (cases ps, simp)
    subgoal for p1 ps
    apply (cases "\<not> bit p1 7", simp, rule word64_eqI, simp only: list.pred_inject, intro conjI TrueI, simp_all add: varint_bits)
    apply (cases ps, simp)
    subgoal for p2 ps
    apply (cases "\<not> bit p2 7", simp, rule word64_eqI, simp only: list.pred_inject, intro conjI TrueI, simp_all add: varint_bits)
    apply (cases ps, simp)
    subgoal for p3 ps
    apply (cases "\<not> bit p3 7", simp, rule word64_eqI, simp only: list.pred_inject, intro conjI TrueI, simp_all add: varint_bits)
    apply (cases ps, simp)
    subgoal for p4 ps
    apply (cases "\<not> bit p4 7", simp, rule word64_eqI, simp only: list.pred_inject, intro conjI TrueI, simp_all add: varint_bits)
    apply (cases ps, simp)
    subgoal for p5 ps
    apply (cases "\<not> bit p5 7", simp, rule word64_eqI, simp only: list.pred_inject, intro conjI TrueI, simp_all add: varint_bits)
    apply (cases ps, simp)
    subgoal for p6 ps
    apply (cases "\<not> bit p6 7", simp, rule word64_eqI, simp only: list.pred_inject, intro conjI TrueI, simp_all add: varint_bits)
    apply (cases ps, simp)
    subgoal for p7 ps
    apply (cases "\<not> bit p7 7", simp, rule word64_eqI, simp only: list.pred_inject, intro conjI TrueI, simp_all add: varint_bits)
    apply (cases ps, simp)
    subgoal for p8 ps
    by (simp, rule word64_eqI, simp only: list.pred_inject, intro conjI TrueI, simp_all add: varint_bits)
    done done done done done done done done done

lemma varint_value_bounds: "varint_value k acc bs = Some (n, v) \<Longrightarrow> k \<le> 8 \<Longrightarrow> k < n \<and> n \<le> 9"
  by (induction bs arbitrary: k acc) (auto split: if_splits, fastforce+)

lemma take_32: "take_bit 32 v = v \<longleftrightarrow> v \<le> (0xFFFFFFFF :: 64 word)"
  by (auto simp: word_unat_eq_iff unsigned_take_bit_eq take_bit_nat_eq_self_iff word_le_nat_alt less_Suc_eq_le)

lemma low_32: "v AND 0xFFFFFFFF = v \<longleftrightarrow> v \<le> (0xFFFFFFFF :: 64 word)"
proof -
  have "v AND 0xFFFFFFFF = take_bit 32 v" by (simp add: take_bit_eq_mask mask_eq_exp_minus_1)
  then show ?thesis by (simp add: take_32)
qed

lemma le_32I: "(\<And>n. bit v n \<Longrightarrow> n < 32) \<Longrightarrow> v \<le> (0xFFFFFFFF :: 64 word)"
  unfolding take_32 [symmetric] by (rule bit_word_eqI) (auto simp: bit_simps)

lemma le32_2: "\<not> bit (p1 :: 8 word) 7 \<Longrightarrow> push_bit 7 (septet 0 p0) OR ucast p1 \<le> (0xFFFFFFFF :: 64 word)"
  by (rule le_32I) (auto simp: bit_final bit_septet split: if_splits dest: bit_byte)

lemma value32_2: "\<not> bit p1 7 \<Longrightarrow>
    ucast (push_bit 7 (septet 0 p0) OR ucast p1 :: 64 word) = push_bit 7 (u32 p0 AND 0x7F) OR u32 p1"
  unfolding and_7F
  by (rule word32_eqI) (simp only: list.pred_inject, intro conjI TrueI, simp_all add: varint_bits)

lemma le32_3: "\<not> bit (p2 :: 8 word) 7 \<Longrightarrow>
    push_bit 7 (septet (septet 0 p0) p1) OR ucast p2 \<le> (0xFFFFFFFF :: 64 word)"
  by (rule le_32I) (auto simp: bit_final bit_septet split: if_splits dest: bit_byte)

lemma value32_3: "\<not> bit p2 7 \<Longrightarrow>
    ucast (push_bit 7 (septet (septet 0 p0) p1) OR ucast p2 :: 64 word) =
      (push_bit 14 (u32 p0) OR u32 p2) AND SLOT_2_0 OR push_bit 7 (u32 p1 AND 0x7F)"
  unfolding and_7F
  by (rule word32_eqI) (simp only: list.pred_inject, intro conjI TrueI, simp_all add: varint_bits)

lemma less_0x80: "b < 0x80 \<longleftrightarrow> \<not> bit (b :: 8 word) 7"
proof -
  have "unat b < 2 ^ LENGTH(8)" by (rule unsigned_less)
  then have u: "unat b < 256" by simp
  have "bit b 7 \<longleftrightarrow> bit (unat b) 7" by (simp add: bit_unsigned_iff)
  also have "\<dots> \<longleftrightarrow> odd (unat b div 128)" by (simp add: bit_iff_odd)
  also have "\<dots> \<longleftrightarrow> \<not> unat b < 128"
  proof (cases "unat b < 128")
    case False
    with u have "unat b div 128 = 1" by (intro div_nat_eqI) simp_all
    with False show ?thesis by simp
  qed simp
  finally show ?thesis by (simp add: word_less_nat_alt)
qed

lemma one32: "ucast (b :: 8 word) \<le> (0xFFFFFFFF :: 64 word)"
  by (rule le_32I) (auto simp: bit_simps dest: bit_byte)

lemma ucast_ucast_byte: "ucast (ucast (b :: 8 word) :: 64 word) = u32 b"
  by (rule bit_word_eqI) (auto simp: bit_simps dest: bit_byte)

lemma get_varint32_is_value:
  "getVarint32 p =
     (case varint_value 0 0 p of
        None \<Rightarrow> Undef
      | Some (n, v) \<Rightarrow> Ok (n, if v \<le> 0xFFFFFFFF then ucast v else 0xFFFFFFFF))"
proof (cases "length p < 3 \<or> (\<exists>x \<in> set (take 3 p). \<not> bit x 7)")
  case True
  have slot: "push_bit 14 0x7F OR 0x7F = SLOT_2_0" by (simp add: SLOT_2_0_def)
  from True consider "p = []" | p0 ps where "p = p0 # ps" "\<not> bit p0 7" | p0 where "p = [p0]" "bit p0 7"
    | p0 p1 ps where "p = p0 # p1 # ps" "bit p0 7" "\<not> bit p1 7"
    | p0 p1 where "p = [p0, p1]" "bit p0 7" "bit p1 7"
    | p0 p1 p2 ps where "p = p0 # p1 # p2 # ps" "bit p0 7" "bit p1 7" "\<not> bit p2 7"
    by (cases p; cases "tl p"; cases "tl (tl p)") auto
  then show ?thesis
    unfolding getVarint32_def sqlite3GetVarint32_def less_0x80 test_80 Let_def slot bit_low_7
    by cases (simp_all add: bit_ucast_iff le32_2 value32_2 le32_3 value32_3 one32 ucast_ucast_byte)
next
  case False
  then obtain p0 p1 p2 ps where p: "p = p0 # p1 # p2 # ps" "bit p0 7" "bit p1 7" "bit p2 7"
    by (cases p; cases "tl p"; cases "tl (tl p)") auto
  then show ?thesis
    using varint_value_bounds [of 3 "septet (septet (septet 0 p0) p1) p2" ps]
    unfolding getVarint32_def sqlite3GetVarint32_def get_varint_is_value less_0x80 test_80 Let_def low_32
    by (auto simp: bit_low_7 bit_ucast_iff numeral_3_eq_3 split: option.splits)
qed

text \<open>
  C30: the unrolled readers compute the value of the format, for every sequence of bytes: they
  return the number of bytes and the 64-bit value, \<open>getVarint32\<close> the value or the largest 32-bit
  number when it is larger, and they read behind the end exactly when the format does.
\<close>

theorem readers_follow_format:
  "sqlite3GetVarint p = (case varint_value 0 0 p of None \<Rightarrow> Undef | Some r \<Rightarrow> Ok r) \<and>
   getVarint32 p =
     (case varint_value 0 0 p of
        None \<Rightarrow> Undef
      | Some (n, v) \<Rightarrow> Ok (n, if v \<le> 0xFFFFFFFF then ucast v else 0xFFFFFFFF))"
  by (rule conjI [OF get_varint_is_value get_varint32_is_value])

section \<open>What is written\<close>

lemma varint_value_append:
  "k + length xs \<le> 8 \<Longrightarrow> \<forall>x \<in> set xs. bit x 7 \<Longrightarrow>
     varint_value k acc (xs @ ys) = varint_value (k + length xs) (foldl septet acc xs) ys"
  by (induction xs arbitrary: k acc) auto

abbreviation varint_group :: "64 word \<Rightarrow> 8 word" where
  "varint_group v \<equiv> ucast (v AND 0x7F OR 0x80)"

lemma bit_0x80: "bit (0x80 :: int) n \<longleftrightarrow> n = 7"
proof -
  have "(0x80 :: int) = push_bit 7 1" by simp
  then show ?thesis by (simp only: bit_push_bit_iff bit_1_iff) auto
qed

lemma group_flag [simp]: "bit (varint_group v) 7"
  unfolding and_7F by (simp add: bit_simps bit_0x80)

lemma septet_group [simp]: "septet acc (varint_group v) = push_bit 7 acc OR take_bit 7 v"
  unfolding septet_def and_7F
  by (rule bit_word_eqI) (auto simp: bit_simps bit_0x80)

lemma drop_take_7: "push_bit 7 (drop_bit 7 v) OR take_bit 7 v = (v :: 64 word)"
  by (rule bit_word_eqI) (auto simp: bit_simps)

lemma varint_buf_flags: "x \<in> set (varint_buf v) \<Longrightarrow> bit x 7"
proof (induction v rule: varint_buf.induct)
  case (1 v)
  then show ?case by (subst (asm) (2) varint_buf.simps) (auto split: if_splits)
qed

lemma varint_buf_value: "foldl septet 0 (rev (varint_buf v)) = v"
proof (induction v rule: varint_buf.induct)
  case (1 v)
  then show ?case
    by (subst varint_buf.simps) (use drop_take_7 [of v] in auto)
qed

lemma varint_buf_nonempty: "0 < length (varint_buf v)"
  by (subst varint_buf.simps) simp

lemma varint_buf_tl: "foldl septet 0 (rev (tl (varint_buf v))) = drop_bit 7 v"
  by (subst varint_buf.simps) (simp add: varint_buf_value)

lemma unat_64: "unat (v :: 64 word) < 2 ^ 64"
proof -
  have "unat v < 2 ^ LENGTH(64)" by (rule unsigned_less)
  then show ?thesis by simp
qed

lemma unat_drop_7_iff:
  "unat (drop_bit 7 (v :: 64 word)) < 2 ^ (7 * k) \<longleftrightarrow> unat v < 2 ^ (7 * Suc k)"
  by (simp add: unat_drop_bit_eq drop_bit_eq_div power_add unat_div_distrib div_less_iff_less_mult mult.commute)

lemma drop_bit_7_ge: "drop_bit 7 v \<noteq> 0 \<longleftrightarrow> 2 ^ 7 \<le> unat (v :: 64 word)"
  by (simp add: unat_gt_0 [symmetric] drop_bit_eq_div unat_div_distrib div_greater_zero_iff del: unat_gt_0)

lemma varint_buf_length_iff: "length (varint_buf v) \<le> Suc k \<longleftrightarrow> unat v < 2 ^ (7 * Suc k)"
proof (induction v arbitrary: k rule: varint_buf.induct)
  case (1 v)
  show ?case
  proof (cases k)
    case 0
    show ?thesis using drop_bit_7_ge [of v] varint_buf.simps [of "drop_bit 7 v"]
      by (subst varint_buf.simps) (auto simp: 0 not_le)
  next
    case (Suc j)
    have "unat (drop_bit 7 v) < 2 ^ (7 * Suc j) \<longleftrightarrow> unat v < 2 ^ (7 * Suc k)"
      unfolding Suc by (rule unat_drop_7_iff)
    with 1 [of j] show ?thesis
      using drop_bit_7_ge [of v] one_le_power [of "2 :: nat" "7 * k"]
      by (subst varint_buf.simps) (auto simp: Suc)
  qed
qed

lemma put_bytes_eq:
  "i + length bs \<le> length p \<Longrightarrow> put_bytes i bs p = Ok (take i p @ bs @ drop (i + length bs) p)"
proof (induction bs arbitrary: i p)
  case (Cons b bs)
  then show ?case by (simp add: vec_put_def take_Suc_conv_app_nth drop_update_cancel)
qed simp


fun nine_groups :: "nat \<Rightarrow> 64 word \<Rightarrow> 8 word list" where
  "nine_groups 0 v = []"
| "nine_groups (Suc i) v = nine_groups i (drop_bit 7 v) @ [varint_group v]"

lemma length_nine_groups [simp]: "length (nine_groups k v) = k"
  by (induction k arbitrary: v) auto

lemma nine_groups_flags: "x \<in> set (nine_groups k v) \<Longrightarrow> bit x 7"
  by (induction k arbitrary: v) auto

lemma nine_groups_value: "foldl septet 0 (nine_groups k v) = take_bit (7 * k) v"
proof (induction k arbitrary: v)
  case (Suc k)
  have "push_bit 7 (take_bit (7 * k) (drop_bit 7 v)) OR take_bit 7 v = take_bit (7 + 7 * k) v"
    by (rule bit_word_eqI) (auto simp: bit_simps)
  with Suc show ?case by simp
qed simp

lemma put_nine_eq: "k \<le> length p \<Longrightarrow> put_nine k v p = Ok (nine_groups k v @ drop k p)"
proof (induction k arbitrary: v p)
  case (Suc k)
  then show ?case by (simp add: vec_put_def drop_put)
qed simp




section \<open>Writing and reading\<close>

text \<open>Every case writes a byte string, of which the reader makes the number again.\<close>

lemma high_byte: "v AND push_bit 32 0xFF000000 = 0 \<longleftrightarrow> unat (v :: 64 word) < 2 ^ 56"
proof -
  have m: "(push_bit 32 0xFF000000 :: 64 word) = push_bit 56 (mask 8)" by (simp add: mask_eq_exp_minus_1)
  have "v AND push_bit 32 0xFF000000 = push_bit 56 (drop_bit 56 v)"
    unfolding m by (rule bit_word_eqI) (simp only: bit_simps, auto)
  also have "\<dots> = 0 \<longleftrightarrow> drop_bit 56 v = 0"
  proof
    assume z: "push_bit 56 (drop_bit 56 v) = 0"
    show "drop_bit 56 v = 0"
    proof (rule bit_word_eqI)
      fix n
      have "\<not> bit (push_bit 56 (drop_bit 56 v)) (56 + n)" unfolding z by simp
      then show "n < LENGTH(64) \<Longrightarrow> bit (drop_bit 56 v) n = bit 0 n"
        using bit_imp_le_length [of v "56 + n"] by (auto simp: bit_simps)
    qed
  qed simp
  also have "\<dots> \<longleftrightarrow> unat v < 2 ^ 56"
    by (simp add: word_unat_eq_iff unat_drop_bit_eq drop_bit_eq_div unat_div_distrib div_eq_0_iff)
  finally show ?thesis .
qed

lemma put_varint64_bytes:
  assumes "9 \<le> length p"
  obtains bs where "putVarint64 p v = Ok (length bs, bs @ drop (length bs) p)"
    and "\<And>rest. varint_value 0 0 (bs @ rest) = Some (length bs, v)"
    and "length bs = (if unat v < 2 ^ 56 then length (varint_buf v) else 9)"
proof (cases "unat v < 2 ^ 56")
  case True
  define gs where "gs = rev (tl (varint_buf v))"
  define l where "l = hd (varint_buf v) AND 0x7F"
  have nonempty: "varint_buf v \<noteq> []" by (subst varint_buf.simps) simp
  then have rev: "rev ((varint_buf v)[0 := l]) = gs @ [l]"
    by (cases "varint_buf v") (auto simp: gs_def)
  from True have len: "length (varint_buf v) \<le> 8" using varint_buf_length_iff [of v 7] by simp
  with nonempty have lg: "Suc (length gs) = length (varint_buf v)" "length gs \<le> 7"
    by (auto simp: gs_def)
  have flags: "\<forall>x \<in> set gs. bit x 7"
    using varint_buf_flags [of _ v] by (auto simp: gs_def dest: list.set_sel(2) [OF nonempty])
  have hd: "hd (varint_buf v) = varint_group v" by (subst varint_buf.simps) simp
  have l: "\<not> bit l 7" "ucast l = take_bit 7 v"
    unfolding l_def hd and_7F
    by (simp add: bit_simps) (rule bit_word_eqI, auto simp: bit_simps bit_0x80)
  have "varint_value 0 0 ((gs @ [l]) @ rest) = Some (length (gs @ [l]), v)" for rest
    using varint_value_append [of 0 gs 0 "l # rest"] lg flags l drop_take_7 [of v]
    by (simp add: gs_def varint_buf_tl)
  moreover have "putVarint64 p v = Ok (length (gs @ [l]), (gs @ [l]) @ drop (length (gs @ [l])) p)"
    unfolding putVarint64_def high_byte Let_def l_def [symmetric] rev
    using True len assms lg by (simp add: put_bytes_eq)
  ultimately show ?thesis using that [of "gs @ [l]"] lg True by auto
next
  case False
  define bs where "bs = nine_groups 8 (drop_bit 8 v) @ [ucast v]"
  have "push_bit 8 (take_bit 56 (drop_bit 8 v)) OR ucast (ucast v :: 8 word) = v"
    by (rule bit_word_eqI) (auto simp: bit_simps)
  then have "varint_value 0 0 (bs @ rest) = Some (length bs, v)" for rest
    using varint_value_append [of 0 "nine_groups 8 (drop_bit 8 v)" 0 "ucast v # rest"]
    by (simp add: bs_def nine_groups_flags nine_groups_value)
  moreover have "putVarint64 p v = Ok (length bs, bs @ drop (length bs) p)"
    unfolding putVarint64_def high_byte using False assms
    by (simp add: vec_put_def put_nine_eq bs_def drop_put)
  ultimately show ?thesis using that [of bs] False by (simp add: bs_def)
qed

text \<open>The cases of one and two bytes write what the general routine writes.\<close>

abbreviation low_group :: "64 word \<Rightarrow> 8 word" where
  "low_group v \<equiv> ucast (v AND 0x7F)"

lemma low_group: "\<not> bit (low_group v) 7" "ucast (low_group v) = take_bit 7 v"
  unfolding and_7F by (simp add: bit_simps) (rule bit_word_eqI, auto simp: bit_simps)

lemma unat_less_14: "v \<le> 0x3FFF \<Longrightarrow> unat (v :: 64 word) < 2 ^ 56"
  by (simp add: word_le_nat_alt)

lemma put_varint_bytes:
  assumes "9 \<le> length p"
  obtains bs where "sqlite3PutVarint p v = Ok (length bs, bs @ drop (length bs) p)"
    and "\<And>rest. varint_value 0 0 (bs @ rest) = Some (length bs, v)"
    and "length bs = (if unat v < 2 ^ 56 then length (varint_buf v) else 9)"
proof -
  obtain a b p' where p: "p = a # b # p'"
    using assms by (cases p; cases "tl p") auto
  consider (one) "v \<le> 0x7F" | (two) "\<not> v \<le> 0x7F" "v \<le> 0x3FFF" | (more) "\<not> v \<le> 0x7F" "\<not> v \<le> 0x3FFF"
    by blast
  then show ?thesis
  proof cases
    case one
    then have d: "drop_bit 7 v = 0" using drop_bit_7_ge [of v] by (auto simp: word_le_nat_alt)
    then have t: "take_bit 7 v = v" using drop_take_7 [of v] by simp
    show ?thesis
    proof (rule that [of "[low_group v]"])
      show "sqlite3PutVarint p v = Ok (length [low_group v], [low_group v] @ drop (length [low_group v]) p)"
        using one p by (simp add: sqlite3PutVarint_def vec_put_def)
      show "varint_value 0 0 ([low_group v] @ rest) = Some (length [low_group v], v)" for rest
        using low_group [of v] t by simp
      show "length [low_group v] = (if unat v < 2 ^ 56 then length (varint_buf v) else 9)"
        using one varint_buf.simps [of v] d by (auto simp: word_le_nat_alt)
    qed
  next
    case two
    define bs where "bs = [varint_group (drop_bit 7 v), low_group v]"
    from two have "drop_bit 7 v \<noteq> 0" "unat (drop_bit 7 v) < 2 ^ 7"
      using drop_bit_7_ge [of v] unat_drop_7_iff [of v 1] by (simp_all add: word_le_nat_alt)
    then have d: "drop_bit 7 v \<noteq> 0" "drop_bit 7 (drop_bit 7 v) = 0"
      using drop_bit_7_ge [of "drop_bit 7 v"] by auto
    then have t: "take_bit 7 (drop_bit 7 v) = drop_bit 7 v" using drop_take_7 [of "drop_bit 7 v"] by simp
    show ?thesis
    proof (rule that [of bs])
      show "sqlite3PutVarint p v = Ok (length bs, bs @ drop (length bs) p)"
        using two p by (simp add: sqlite3PutVarint_def vec_put_def bs_def)
      show "varint_value 0 0 (bs @ rest) = Some (length bs, v)" for rest
        using low_group [of v] t drop_take_7 [of v] by (simp add: bs_def)
      show "length bs = (if unat v < 2 ^ 56 then length (varint_buf v) else 9)"
        using two unat_less_14 [of v] varint_buf.simps [of v] varint_buf.simps [of "drop_bit 7 v"] d
        by (auto simp: bs_def)
    qed
  next
    case more
    then show ?thesis using put_varint64_bytes [OF assms] that by (auto simp: sqlite3PutVarint_def)
  qed
qed


lemma varint_len_loop_eq:
  "i + length (varint_buf v) \<le> 11 \<Longrightarrow> varint_len_loop v i = Ok (i + length (varint_buf v) - 1)"
proof (induction v arbitrary: i rule: varint_buf.induct)
  case (1 v)
  then show ?case
    by (cases "drop_bit 7 v = 0"; subst varint_len_loop.simps; subst varint_buf.simps)
      (use varint_buf_nonempty [of "drop_bit 7 v"] in
        \<open>auto simp: Let_def varint_buf.simps [of v] simp del: length_greater_0_conv\<close>)
qed

lemma varint_len_eq: "sqlite3VarintLen v = Ok (length (varint_buf v))"
  using varint_buf_length_iff [of v 9] unat_64 [of v]
  by (simp add: sqlite3VarintLen_def varint_len_loop_eq)

lemma varint_buf_length_9: "length (varint_buf v) = 9 \<longleftrightarrow> 2 ^ 56 \<le> unat v \<and> unat v < 2 ^ 63"
  using varint_buf_length_iff [of v 8] varint_buf_length_iff [of v 7] by auto

lemma varint_buf_length_10: "length (varint_buf v) = 10 \<longleftrightarrow> 2 ^ 63 \<le> unat v"
  using varint_buf_length_iff [of v 9] varint_buf_length_iff [of v 8] unat_64 [of v] by auto

text \<open>
  C29: what \<open>sqlite3PutVarint\<close> writes, into any nine bytes or more, is at most nine bytes long, leaves
  the bytes behind it alone, and is read back by \<open>sqlite3GetVarint\<close> and, when the number has 32 bits,
  by \<open>getVarint32\<close>, each of which reads exactly the bytes written.
\<close>

theorem varint_round_trip:
  assumes "9 \<le> length p"
  shows "\<exists>n q. sqlite3PutVarint p v = Ok (n, q) \<and> 1 \<le> n \<and> n \<le> 9 \<and> length q = length p \<and>
    drop n q = drop n p \<and> sqlite3GetVarint q = Ok (n, v) \<and>
    getVarint32 q = Ok (n, if v \<le> 0xFFFFFFFF then ucast v else 0xFFFFFFFF)"
proof -
  obtain bs where bs: "sqlite3PutVarint p v = Ok (length bs, bs @ drop (length bs) p)"
    "\<And>rest. varint_value 0 0 (bs @ rest) = Some (length bs, v)"
    "length bs = (if unat v < 2 ^ 56 then length (varint_buf v) else 9)"
    using put_varint_bytes [OF assms] by blast
  have "1 \<le> length bs \<and> length bs \<le> 9"
    using bs(3) varint_buf_length_iff [of v 7] varint_buf_nonempty [of v] by (auto simp: Suc_le_eq)
  with bs assms show ?thesis
    by (intro exI [of _ "length bs"] exI [of _ "bs @ drop (length bs) p"])
      (simp add: get_varint_is_value get_varint32_is_value)
qed

lemma varint_round_trip_witness:
  "\<exists>n q. sqlite3PutVarint (replicate 9 0) 300 = Ok (n, q) \<and> 1 \<le> n \<and> n \<le> 9 \<and> length q = 9 \<and>
    drop n q = drop n (replicate 9 0) \<and> sqlite3GetVarint q = Ok (n, 300) \<and> getVarint32 q = Ok (n, 300)"
  using varint_round_trip [of "replicate 9 0" 300] by simp

text \<open>
  \<open>sqlite3VarintLen\<close> is the number of bytes that \<open>sqlite3PutVarint\<close> writes for numbers below
  \<open>2^63\<close>; for the others it is 10, one more than is written.
\<close>

theorem varint_len_written:
  assumes "9 \<le> length p" and "sqlite3PutVarint p v = Ok (n, q)"
  shows "sqlite3VarintLen v = Ok (if unat v < 2 ^ 63 then n else n + 1)"
proof -
  obtain bs where bs: "sqlite3PutVarint p v = Ok (length bs, bs @ drop (length bs) p)"
    "length bs = (if unat v < 2 ^ 56 then length (varint_buf v) else 9)"
    using put_varint_bytes [OF assms(1)] by blast
  from bs(1) assms(2) have "n = length bs" by simp
  with bs(2) have "n = (if unat v < 2 ^ 56 then length (varint_buf v) else 9)" by simp
  moreover have "length (varint_buf v) = 9" if "\<not> unat v < 2 ^ 56" "unat v < 2 ^ 63"
    using that varint_buf_length_9 [of v] by simp
  moreover have "length (varint_buf v) = 10" if "\<not> unat v < 2 ^ 63"
    using that varint_buf_length_10 [of v] by simp
  ultimately show ?thesis unfolding varint_len_eq by auto
qed

lemma varint_len_written_witness:
  "sqlite3PutVarint [0, 0, 0, 0, 0, 0, 0, 0, 0] 300 = Ok (2, [0x82, 0x2C, 0, 0, 0, 0, 0, 0, 0]) \<and>
   sqlite3VarintLen 300 = Ok 2"
proof -
  have p: "sqlite3PutVarint [0, 0, 0, 0, 0, 0, 0, 0, 0] 300 = Ok (2, [0x82, 0x2C, 0, 0, 0, 0, 0, 0, 0])"
    by (simp add: sqlite3PutVarint_def vec_put_def)
  then show ?thesis using varint_len_written [OF _ p] by simp
qed

end
