(* ===== verification/SqInteger.thy ===== *)
theory SqInteger
  imports Prelude "HOL-Library.Signed_Division"
begin

text \<open>
  Arithmetic on signed 64-bit integers with a report of overflow: \<open>sqlite3AddInt64\<close>,
  \<open>sqlite3SubInt64\<close>, \<open>sqlite3MulInt64\<close> (the variants without the compiler's builtins) and
  \<open>sqlite3AbsInt32\<close>. An \<open>i64\<close> is an integer; the result of each operation of the code is
  checked, and \<open>Undef\<close> when it does not fit, because signed overflow is undefined in C.
\<close>

definition LARGEST_INT64 :: int where "LARGEST_INT64 = 2 ^ 63 - 1"
definition SMALLEST_INT64 :: int where "SMALLEST_INT64 = - 1 - LARGEST_INT64"

definition in_i64 :: "int \<Rightarrow> bool" where
  "in_i64 x \<longleftrightarrow> SMALLEST_INT64 \<le> x \<and> x \<le> LARGEST_INT64"

definition i64 :: "int \<Rightarrow> int res" where
  "i64 x = (if in_i64 x then Ok x else Undef)"

lemma i64_in [simp]: "in_i64 x \<Longrightarrow> i64 x = Ok x"
  by (simp add: i64_def)

lemmas i64_defs = in_i64_def SMALLEST_INT64_def LARGEST_INT64_def

section \<open>Operations that report overflow\<close>

text \<open>The result is the return value and the new value of \<open>*pA\<close>.\<close>

definition sqlite3AddInt64 :: "int \<Rightarrow> int \<Rightarrow> (int \<times> int) res" where
  "sqlite3AddInt64 iA iB =
     bind_res
       (if iB \<ge> 0 then
          if iA > 0 then map_res (\<lambda>d. d < iB) (i64 (LARGEST_INT64 - iA)) else Ok False
        else
          if iA < 0 then
            bind_res (i64 (iA + LARGEST_INT64)) (\<lambda>s. bind_res (i64 (- s)) (\<lambda>m.
              map_res (\<lambda>b. m > b) (i64 (iB + 1))))
          else Ok False)
       (\<lambda>overflow. if overflow then Ok (1, iA) else map_res (Pair 0) (i64 (iA + iB)))"

definition sqlite3SubInt64 :: "int \<Rightarrow> int \<Rightarrow> (int \<times> int) res" where
  "sqlite3SubInt64 iA iB =
     (if iB = SMALLEST_INT64 then
        if iA \<ge> 0 then Ok (1, iA) else map_res (Pair 0) (i64 (iA - iB))
      else bind_res (i64 (- iB)) (sqlite3AddInt64 iA))"

text \<open>The division of C rounds to zero.\<close>

definition sqlite3MulInt64 :: "int \<Rightarrow> int \<Rightarrow> (int \<times> int) res" where
  "sqlite3MulInt64 iA iB =
     bind_res
       (if iB > 0 then
          bind_res (i64 (LARGEST_INT64 sdiv iB)) (\<lambda>q.
            if iA > q then Ok True
            else map_res (\<lambda>q. iA < q) (i64 (SMALLEST_INT64 sdiv iB)))
        else if iB < 0 then
          if iA > 0 then map_res (\<lambda>q. iB < q) (i64 (SMALLEST_INT64 sdiv iA))
          else if iA < 0 then
            if iB = SMALLEST_INT64 then Ok True
            else if iA = SMALLEST_INT64 then Ok True
            else
              bind_res (i64 (- iA)) (\<lambda>a. bind_res (i64 (- iB)) (\<lambda>b.
                map_res (\<lambda>q. a > q) (i64 (LARGEST_INT64 sdiv b))))
          else Ok False
        else Ok False)
       (\<lambda>overflow. if overflow then Ok (1, iA) else map_res (Pair 0) (i64 (iA * iB)))"

definition sqlite3AbsInt32 :: "int \<Rightarrow> int" where
  "sqlite3AbsInt32 x = (if x \<ge> 0 then x else if x = - (2 ^ 31) then 0x7FFFFFFF else - x)"

text \<open>The exact operation, when the result fits; the operand and the report otherwise.\<close>

definition checked :: "int \<Rightarrow> int \<Rightarrow> (int \<times> int) res" where
  "checked iA x = Ok (if in_i64 x then (0, x) else (1, iA))"

lemma add_int64: "in_i64 a \<Longrightarrow> in_i64 b \<Longrightarrow> sqlite3AddInt64 a b = checked a (a + b)"
  by (auto simp: sqlite3AddInt64_def checked_def i64_def i64_defs)

lemma sub_int64: "in_i64 a \<Longrightarrow> in_i64 b \<Longrightarrow> sqlite3SubInt64 a b = checked a (a - b)"
  by (auto simp: sqlite3SubInt64_def add_int64 checked_def i64_def i64_defs)

lemma sdiv_pos: "0 \<le> a \<Longrightarrow> 0 < b \<Longrightarrow> a sdiv b = a div (b :: int)"
  by (cases "a = 0") (auto simp: signed_divide_int_def)

lemma sdiv_neg: "a \<le> 0 \<Longrightarrow> 0 < b \<Longrightarrow> a sdiv b = - (- a div (b :: int))"
  by (cases "a = 0") (auto simp: signed_divide_int_def)

lemma le_div_iff:
  assumes "0 < (b :: int)"
  shows "a \<le> c div b \<longleftrightarrow> a * b \<le> c"
proof
  assume "a \<le> c div b"
  then have "a * b \<le> c div b * b" using assms by simp
  also have "\<dots> \<le> c" using pos_mod_sign [OF assms, of c] by (simp add: minus_mod_eq_div_mult [symmetric])
  finally show "a * b \<le> c" .
next
  assume "a * b \<le> c"
  then have "a * b div b \<le> c div b" using assms by (rule zdiv_mono1)
  with assms show "a \<le> c div b" by simp
qed

lemma div_le_self: "0 \<le> c \<Longrightarrow> 0 < b \<Longrightarrow> c div b \<le> (c :: int)"
  using zdiv_mono2 [of c 1 b] by simp

lemma largest_sdiv:
  assumes "0 < b"
  shows "i64 (LARGEST_INT64 sdiv b) = Ok (LARGEST_INT64 div b)"
    "LARGEST_INT64 div b < a \<longleftrightarrow> LARGEST_INT64 < a * b"
proof -
  have "0 \<le> LARGEST_INT64 div b" "LARGEST_INT64 div b \<le> LARGEST_INT64"
    using assms by (auto simp: LARGEST_INT64_def pos_imp_zdiv_nonneg_iff intro: div_le_self)
  then show "i64 (LARGEST_INT64 sdiv b) = Ok (LARGEST_INT64 div b)"
    using assms by (simp add: sdiv_pos LARGEST_INT64_def i64_def in_i64_def SMALLEST_INT64_def)
  show "LARGEST_INT64 div b < a \<longleftrightarrow> LARGEST_INT64 < a * b"
    using le_div_iff [OF assms, of a LARGEST_INT64] by linarith
qed

lemma smallest_sdiv:
  assumes "0 < b"
  shows "i64 (SMALLEST_INT64 sdiv b) = Ok (- (- SMALLEST_INT64 div b))"
    "a < - (- SMALLEST_INT64 div b) \<longleftrightarrow> a * b < SMALLEST_INT64"
proof -
  have "0 \<le> - SMALLEST_INT64 div b" "- SMALLEST_INT64 div b \<le> - SMALLEST_INT64"
    using assms by (auto simp: i64_defs pos_imp_zdiv_nonneg_iff intro: div_le_self)
  moreover have "SMALLEST_INT64 sdiv b = - (- SMALLEST_INT64 div b)"
    using assms by (intro sdiv_neg) (simp_all add: i64_defs)
  moreover have "0 \<le> LARGEST_INT64" by (simp add: LARGEST_INT64_def)
  ultimately show "i64 (SMALLEST_INT64 sdiv b) = Ok (- (- SMALLEST_INT64 div b))"
    by (simp add: i64_def in_i64_def)
  show "a < - (- SMALLEST_INT64 div b) \<longleftrightarrow> a * b < SMALLEST_INT64"
    using le_div_iff [OF assms, of "- a" "- SMALLEST_INT64"] by linarith
qed

lemma mul_int64:
  assumes a: "in_i64 a" and b: "in_i64 b"
  shows "sqlite3MulInt64 a b = checked a (a * b)"
proof -
  consider "b > 0" | "b = 0" | "b < 0" "a > 0" | "b < 0" "a = 0" | "b < 0" "a < 0" by linarith
  then show ?thesis
  proof cases
    case 1
    then show ?thesis
      by (auto simp: sqlite3MulInt64_def largest_sdiv smallest_sdiv checked_def i64_def [of "a * b"] in_i64_def [of "a * b"])
  next
    case 3
    then have "a * b < 0" by (simp add: mult_pos_neg)
    then have "a * b \<le> LARGEST_INT64" by (simp add: LARGEST_INT64_def)
    with 3 show ?thesis
      by (auto simp: sqlite3MulInt64_def smallest_sdiv checked_def mult.commute [of b]
        i64_def [of "a * b"] in_i64_def [of "a * b"])
  next
    case 5
    then have p: "0 < a * b" by (simp add: mult_neg_neg)
    show ?thesis
    proof (cases "a = SMALLEST_INT64 \<or> b = SMALLEST_INT64")
      case True
      then have "LARGEST_INT64 < a * b"
      proof
        assume e: "a = SMALLEST_INT64"
        with 5 have "- a * 1 \<le> - a * - b" by (intro mult_left_mono) auto
        moreover have "- a = LARGEST_INT64 + 1" by (simp add: e SMALLEST_INT64_def)
        ultimately show ?thesis by linarith
      next
        assume e: "b = SMALLEST_INT64"
        with 5 have "1 * - b \<le> - a * - b" by (intro mult_right_mono) auto
        moreover have "- b = LARGEST_INT64 + 1" by (simp add: e SMALLEST_INT64_def)
        ultimately show ?thesis by linarith
      qed
      then have "\<not> in_i64 (a * b)" by (simp add: in_i64_def)
      with True 5 show ?thesis by (auto simp: sqlite3MulInt64_def checked_def)
    next
      case False
      with a b have "in_i64 (- a)" "in_i64 (- b)" by (auto simp: i64_defs)
      moreover have "in_i64 (a * b) \<longleftrightarrow> a * b \<le> LARGEST_INT64"
        using p by (simp add: in_i64_def SMALLEST_INT64_def LARGEST_INT64_def)
      ultimately show ?thesis
        using 5 False largest_sdiv(1) [of "- b"] largest_sdiv(2) [of "- b" "- a"]
        by (simp add: sqlite3MulInt64_def checked_def not_less)
    qed
  qed (auto simp: sqlite3MulInt64_def checked_def i64_def i64_defs)
qed



end
