(* ===== verification/SqNumText.thy ===== *)
theory SqNumText
  imports SqTokenize SqInteger
begin

unbundle bit_operations_syntax

text \<open>
  Integers and their texts: \<open>sqlite3Int64ToText\<close>, \<open>sqlite3Atoi64\<close> in the three encodings,
  \<open>sqlite3DecOrHexToI64\<close>, \<open>sqlite3GetInt32\<close>, \<open>sqlite3GetUInt32\<close>, and the hexadecimal digits of blob
  literals. The buffer is the list of the bytes from the pointer on.
\<close>

section \<open>From the integer to the text\<close>

text \<open>\<open>x\<close> is the 64-bit magnitude; \<open>i\<close> the position in \<open>zTemp\<close> that the next digit is written to.\<close>

function int64_digits :: "64 word \<Rightarrow> nat \<Rightarrow> 8 word list \<Rightarrow> (nat \<times> 8 word list) res" where
  "int64_digits x i zTemp =
     bind_res (vec_put zTemp i (ucast (x mod 10) + ch CHR ''0'')) (\<lambda>zTemp.
       let x = x div 10 in
       if x = 0 then Ok (i, zTemp) else if i = 0 then Undef else int64_digits x (i - 1) zTemp)"
  by auto
termination
  by (relation "measure (\<lambda>(x, i, zTemp). i)") auto

declare int64_digits.simps [simp del]

definition sqlite3Int64ToText :: "int \<Rightarrow> (nat \<times> 8 word list) res" where
  "sqlite3Int64ToText v =
     (let x = (if v < 0 then if v = SMALLEST_INT64 then push_bit 63 1 else word_of_int (- v) else word_of_int v);
          zTemp = (replicate 22 0)[21 := 0] in
      bind_res (int64_digits x 20 zTemp) (\<lambda>(i, zTemp).
      bind_res
        (if v < 0 then if i = 0 then Undef else map_res (Pair (i - 1)) (vec_put zTemp (i - 1) (ch CHR ''-''))
         else Ok (i, zTemp)) (\<lambda>(i, zTemp).
      Ok (21 - i, drop i zTemp))))"

section \<open>From the text to the integer\<close>

definition SQLITE_UTF8 :: nat where "SQLITE_UTF8 = 1"
definition SQLITE_UTF16LE :: nat where "SQLITE_UTF16LE = 2"
definition SQLITE_UTF16BE :: nat where "SQLITE_UTF16BE = 3"

text \<open>\<open>incr\<close>.\<close>

definition stride :: "nat \<Rightarrow> nat" where
  "stride enc = (if enc = SQLITE_UTF8 then 1 else 2)"

lemma stride_pos [simp]: "0 < stride enc"
  by (simp add: stride_def)

text \<open>\<open>while( zNum<zEnd && P(*zNum) ) zNum+=incr\<close>; pointers are positions in the buffer.\<close>

function skip_chars :: "nat \<Rightarrow> (8 word \<Rightarrow> bool) \<Rightarrow> 8 word list \<Rightarrow> nat \<Rightarrow> nat \<Rightarrow> nat res" where
  "skip_chars enc P z zEnd i =
     (if i < zEnd then
        bind_res (vec_idx z i) (\<lambda>c. if P c then skip_chars enc P z zEnd (i + stride enc) else Ok i)
      else Ok i)"
  by auto
termination
  by (relation "measure (\<lambda>(enc, P, z, zEnd, i). zEnd - i)") (auto simp: stride_def)

text \<open>The comparison with the bounds is the same for signed and unsigned characters.\<close>

definition decimal_char :: "8 word \<Rightarrow> bool" where
  "decimal_char c \<longleftrightarrow> ch CHR ''0'' \<le> c \<and> c \<le> ch CHR ''9''"

function read_digits ::
  "nat \<Rightarrow> 8 word list \<Rightarrow> nat \<Rightarrow> nat \<Rightarrow> nat \<Rightarrow> 64 word \<Rightarrow> (nat \<times> 64 word) res" where
  "read_digits enc z zEnd zNum i u =
     (if zNum + i < zEnd then
        bind_res (vec_idx z (zNum + i)) (\<lambda>c.
          if decimal_char c then
            read_digits enc z zEnd zNum (i + stride enc) (u * 10 + ucast c - ucast (ch CHR ''0''))
          else Ok (i, u))
      else Ok (i, u))"
  by auto
termination
  by (relation "measure (\<lambda>(enc, z, zEnd, zNum, i, u). zEnd - (zNum + i))") (auto simp: stride_def)

function high_bytes :: "8 word list \<Rightarrow> nat \<Rightarrow> nat \<Rightarrow> nat res" where
  "high_bytes z length' i =
     (if i < length' then bind_res (vec_idx z i) (\<lambda>c. if c = 0 then high_bytes z length' (i + 2) else Ok i)
      else Ok i)"
  by auto
termination
  by (relation "measure (\<lambda>(z, length', i). length' - i)") auto

declare skip_chars.simps [simp del] read_digits.simps [simp del] high_bytes.simps [simp del]

definition pow63 :: "8 word list" where
  "pow63 = text_bytes ''922337203685477580''"

fun compare_loop :: "nat \<Rightarrow> 8 word list \<Rightarrow> nat \<Rightarrow> nat \<Rightarrow> 8 word list \<Rightarrow> int res" where
  "compare_loop enc z zNum i [] = Ok 0"
| "compare_loop enc z zNum i (d # ds) =
     bind_res (vec_idx z (zNum + i * stride enc)) (\<lambda>x.
       let c = (int (unat x) - int (unat d)) * 10 in
       if c = 0 then compare_loop enc z zNum (i + 1) ds else Ok c)"

definition compare2pow63 :: "nat \<Rightarrow> 8 word list \<Rightarrow> nat \<Rightarrow> int res" where
  "compare2pow63 enc z zNum =
     bind_res (compare_loop enc z zNum 0 pow63) (\<lambda>c.
       if c = 0 then
         map_res (\<lambda>x. int (unat x) - int (unat (ch CHR ''8''))) (vec_idx z (zNum + 18 * stride enc))
       else Ok c)"

text \<open>
  The end of \<open>sqlite3Atoi64\<close>, from the digits on: \<open>i\<close> and \<open>u\<close> are what the loop over the digits
  leaves. The result is the return code and \<open>*pNum\<close>.
\<close>

definition atoi64_finish ::
  "nat \<Rightarrow> 8 word list \<Rightarrow> nat \<Rightarrow> nat \<Rightarrow> nat \<Rightarrow> nat \<Rightarrow> 64 word \<Rightarrow> bool \<Rightarrow> bool \<Rightarrow> (int \<times> int) res" where
  "atoi64_finish enc z zEnd zStart zNum i u neg nonNum =
     (let pNum = (if LARGEST_INT64 < uint u then if neg then SMALLEST_INT64 else LARGEST_INT64
                  else if neg then - uint u else uint u) in
      bind_res
        (if i = 0 \<and> zStart = zNum then Ok (-1)
         else if nonNum then Ok 1
         else if zNum + i < zEnd then
           map_res (\<lambda>jj. if jj < zEnd then 1 else 0) (skip_chars enc sqlite3Isspace z zEnd (zNum + i))
         else Ok 0) (\<lambda>rc.
      if i < 19 * stride enc then if uint u \<le> LARGEST_INT64 then Ok (rc, pNum) else Undef
      else
        bind_res (if 19 * stride enc < i then Ok 1 else compare2pow63 enc z zNum) (\<lambda>c.
          if c < 0 then if uint u \<le> LARGEST_INT64 then Ok (rc, pNum) else Undef
          else
            let pNum = (if neg then SMALLEST_INT64 else LARGEST_INT64) in
            if c > 0 then Ok (2, pNum)
            else if uint (u - 1) = LARGEST_INT64 then Ok (if neg then rc else 3, pNum)
            else Undef)))"

definition atoi64_sign :: "nat \<Rightarrow> 8 word list \<Rightarrow> nat \<Rightarrow> nat \<Rightarrow> (bool \<times> nat) res" where
  "atoi64_sign enc z zEnd zNum =
     (if zNum < zEnd then
        map_res (\<lambda>c. if c = ch CHR ''-'' then (True, zNum + stride enc)
                     else if c = ch CHR ''+'' then (False, zNum + stride enc) else (False, zNum))
          (vec_idx z zNum)
      else Ok (False, zNum))"

text \<open>The first and the last position of the characters, and whether a high byte is not zero.\<close>

definition atoi64_extent :: "8 word list \<Rightarrow> nat \<Rightarrow> nat \<Rightarrow> (nat \<times> nat \<times> bool) res" where
  "atoi64_extent z length' enc =
     (if enc \<noteq> SQLITE_UTF8 \<and> enc \<noteq> SQLITE_UTF16LE \<and> enc \<noteq> SQLITE_UTF16BE then Undef
      else if enc = SQLITE_UTF8 then Ok (0, length', False)
      else
        let length' = length' - length' mod 2 in
        map_res (\<lambda>i. (enc mod 2, i XOR 1, i < length')) (high_bytes z length' (3 - enc)))"

definition sqlite3Atoi64 :: "8 word list \<Rightarrow> nat \<Rightarrow> nat \<Rightarrow> (int \<times> int) res" where
  "sqlite3Atoi64 z length' enc =
     bind_res (atoi64_extent z length' enc) (\<lambda>(zNum, zEnd, nonNum).
     bind_res (skip_chars enc sqlite3Isspace z zEnd zNum) (\<lambda>zNum.
     bind_res (atoi64_sign enc z zEnd zNum) (\<lambda>(neg, zStart).
     bind_res (skip_chars enc (\<lambda>c. c = ch CHR ''0'') z zEnd zStart) (\<lambda>zNum.
     bind_res (read_digits enc z zEnd zNum 0 0) (\<lambda>(i, u).
     atoi64_finish enc z zEnd zStart zNum i u neg nonNum)))))"

section \<open>The characters of a text\<close>

text \<open>The bytes the loops look at: from a position to the end, in steps of the encoding.\<close>

function chars_from :: "nat \<Rightarrow> 8 word list \<Rightarrow> nat \<Rightarrow> nat \<Rightarrow> 8 word list" where
  "chars_from enc z e i = (if i < e then z ! i # chars_from enc z e (i + stride enc) else [])"
  by auto
termination
  by (relation "measure (\<lambda>(enc, z, e, i). e - i)") (auto simp: stride_def)

declare chars_from.simps [simp del]

definition readable :: "nat \<Rightarrow> 8 word list \<Rightarrow> nat \<Rightarrow> nat \<Rightarrow> bool" where
  "readable enc z e i \<longleftrightarrow> (\<forall>k. i + k * stride enc < e \<longrightarrow> i + k * stride enc < length z)"

lemma readable_0: "readable enc z e i \<Longrightarrow> i < e \<Longrightarrow> i < length z"
  unfolding readable_def by (drule spec [of _ 0]) simp

lemma readable_step: "readable enc z e i \<Longrightarrow> readable enc z e (i + k * stride enc)"
  unfolding readable_def
proof (intro allI impI)
  fix l
  assume "\<forall>k. i + k * stride enc < e \<longrightarrow> i + k * stride enc < length z"
  from this [THEN spec, of "k + l"]
  show "i + k * stride enc + l * stride enc < e \<Longrightarrow> i + k * stride enc + l * stride enc < length z"
    by (simp add: algebra_simps)
qed

lemma readable_next: "readable enc z e i \<Longrightarrow> readable enc z e (i + stride enc)"
  using readable_step [of enc z e i 1] by simp

lemma chars_Nil: "chars_from enc z e i = [] \<longleftrightarrow> e \<le> i"
  by (subst chars_from.simps) auto

lemma chars_drop: "chars_from enc z e (i + k * stride enc) = drop k (chars_from enc z e i)"
proof (induction k arbitrary: i)
  case (Suc k)
  show ?case
  proof (cases "i < e")
    case True
    have "chars_from enc z e (i + Suc k * stride enc) = drop k (chars_from enc z e (i + stride enc))"
      using Suc [of "i + stride enc"] by (simp add: algebra_simps)
    also have "\<dots> = drop (Suc k) (chars_from enc z e i)"
      using True chars_from.simps [of enc z e i] by simp
    finally show ?thesis .
  next
    case False
    then have "chars_from enc z e i = []" "chars_from enc z e (i + Suc k * stride enc) = []"
      by (simp_all add: chars_Nil trans_le_add1)
    then show ?thesis by simp
  qed
qed simp

lemma chars_end: "i + k * stride enc < e \<longleftrightarrow> k < length (chars_from enc z e i)"
  using chars_Nil [of enc z e "i + k * stride enc"] by (auto simp: chars_drop not_le [symmetric])

lemma chars_nth: "i + k * stride enc < e \<Longrightarrow> chars_from enc z e i ! k = z ! (i + k * stride enc)"
proof -
  assume a: "i + k * stride enc < e"
  then have "z ! (i + k * stride enc) = hd (drop k (chars_from enc z e i))"
    using chars_from.simps [of enc z e "i + k * stride enc"] by (simp flip: chars_drop)
  also have "\<dots> = chars_from enc z e i ! k"
    using a chars_end [of i k enc e z] by (simp add: hd_drop_conv_nth)
  finally show ?thesis by simp
qed

lemma skip_chars_eq:
  "readable enc z e i \<Longrightarrow>
     skip_chars enc P z e i = Ok (i + length (takeWhile P (chars_from enc z e i)) * stride enc)"
proof (induction enc P z e i rule: skip_chars.induct)
  case (1 enc P z e i)
  show ?case
  proof (cases "i < e")
    case True
    with 1 readable_0 [of enc z e i] readable_next [of enc z e i] show ?thesis
      by (subst skip_chars.simps, subst chars_from.simps) (simp add: algebra_simps)
  next
    case False
    then show ?thesis by (subst skip_chars.simps, subst chars_from.simps) simp
  qed
qed

text \<open>The value of a sequence of digits.\<close>

definition dec_value :: "8 word list \<Rightarrow> nat" where
  "dec_value ds = foldl (\<lambda>u c. u * 10 + (unat c - 48)) 0 ds"

lemma dec_value_snoc [simp]: "dec_value (ds @ [c]) = dec_value ds * 10 + (unat c - 48)"
  by (simp add: dec_value_def)

lemma dec_value_Nil [simp]: "dec_value [] = 0"
  by (simp add: dec_value_def)

lemma decimal_char_iff: "decimal_char c \<longleftrightarrow> 48 \<le> unat c \<and> unat c \<le> 57"
  by (simp add: decimal_char_def word_le_nat_alt)


lemma dec_value_Cons: "dec_value (c # ds) = (unat c - 48) * 10 ^ length ds + dec_value ds"
proof (induction ds rule: rev_induct)
  case (snoc d ds)
  then show ?case by (simp add: dec_value_snoc [of "c # ds" d, simplified] add_mult_distrib)
qed (simp add: dec_value_def)

lemma dec_value_append: "dec_value (ds @ es) = dec_value ds * 10 ^ length es + dec_value es"
  by (induction ds) (simp_all add: dec_value_Cons power_add algebra_simps)

lemma dec_value_less: "\<forall>c \<in> set ds. decimal_char c \<Longrightarrow> dec_value ds < 10 ^ length ds"
proof (induction ds)
  case (Cons c ds)
  then have "(unat c - 48) * 10 ^ length ds \<le> 9 * 10 ^ length ds"
    by (intro mult_right_mono) (auto simp: decimal_char_iff)
  moreover have "dec_value ds < 10 ^ length ds" using Cons by simp
  ultimately show ?case by (simp only: dec_value_Cons length_Cons power_Suc)
qed simp

lemma dec_value_zero: "\<forall>c \<in> set ds. c = ch CHR ''0'' \<Longrightarrow> dec_value ds = 0"
  by (induction ds) (auto simp: dec_value_Cons)

definition digit_step :: "64 word \<Rightarrow> 8 word \<Rightarrow> 64 word" where
  "digit_step u c = u * 10 + ucast c - ucast (ch CHR ''0'')"

lemma digit_step_of_nat: "decimal_char c \<Longrightarrow> digit_step (word_of_nat m) c = word_of_nat (m * 10 + (unat c - 48))"
proof -
  assume "decimal_char c"
  then have "(word_of_nat (unat c - 48) :: 64 word) = word_of_nat (unat c) - word_of_nat 48"
    by (intro of_nat_diff) (simp add: decimal_char_iff)
  then show ?thesis by (simp add: digit_step_def)
qed

lemma digit_steps: "\<forall>c \<in> set ds. decimal_char c \<Longrightarrow> foldl digit_step 0 ds = word_of_nat (dec_value ds)"
proof (induction ds rule: rev_induct)
  case (snoc c ds)
  then show ?case by (simp add: digit_step_of_nat)
qed simp

lemma read_digits_eq:
  "readable enc z e (p + i) \<Longrightarrow>
     read_digits enc z e p i u =
       (let ds = takeWhile decimal_char (chars_from enc z e (p + i)) in
        Ok (i + length ds * stride enc, foldl digit_step u ds))"
proof (induction enc z e p i u rule: read_digits.induct)
  case (1 enc z e p i u)
  show ?case
  proof (cases "p + i < e")
    case True
    with 1 readable_0 [of enc z e "p + i"] readable_next [of enc z e "p + i"] show ?thesis
      by (subst read_digits.simps, subst chars_from.simps)
        (simp add: add.assoc Let_def digit_step_def [abs_def])
  next
    case False
    then show ?thesis by (subst read_digits.simps, subst chars_from.simps) (simp add: Let_def)
  qed
qed

section \<open>The comparison with \<open>2^63\<close>\<close>

lemma lead_less: "a < b \<Longrightarrow> x < m \<Longrightarrow> a * m + x < b * m + (y :: nat)"
proof -
  assume "a < b" and x: "x < m"
  then have "Suc a * m \<le> b * m" by (intro mult_right_mono) simp_all
  with x show ?thesis by simp
qed

lemma compare_loop_sign:
  assumes "length xs = length ds" and "\<forall>c \<in> set xs. decimal_char c" and "\<forall>c \<in> set ds. decimal_char c"
    and "\<And>k. k < length xs \<Longrightarrow> vec_idx z (p + (i + k) * stride enc) = Ok (xs ! k)"
  shows "\<exists>c. compare_loop enc z p i ds = Ok c \<and> sgn c = sgn (int (dec_value xs) - int (dec_value ds))"
  using assms
proof (induction ds arbitrary: xs i)
  case (Cons d ds)
  then obtain x xs' where xs: "xs = x # xs'" by (cases xs) auto
  have x: "vec_idx z (p + i * stride enc) = Ok x"
    using Cons.prems(4) [of 0] by (simp add: xs)
  have rest: "vec_idx z (p + (Suc i + k) * stride enc) = Ok (xs' ! k)" if "k < length xs'" for k
    using Cons.prems(4) [of "Suc k"] that by (simp add: xs)
  have dx: "decimal_char x" "decimal_char d" using Cons.prems by (auto simp: xs)
  have l: "dec_value xs' < 10 ^ length ds" "dec_value ds < 10 ^ length ds"
    using dec_value_less [of xs'] dec_value_less [of ds] Cons.prems by (auto simp: xs)
  show ?case
  proof (cases "x = d")
    case True
    with Cons.IH [of xs' "i + 1"] Cons.prems rest x show ?thesis by (simp add: xs dec_value_Cons)
  next
    case False
    have len: "length xs' = length ds" using Cons.prems by (simp add: xs)
    have "sgn (int (unat x) - int (unat d)) = sgn (int (dec_value xs) - int (dec_value (d # ds)))"
    proof (cases "unat x < unat d")
      case True
      then have "dec_value xs < dec_value (d # ds)"
        using lead_less [of "unat x - 48" "unat d - 48" "dec_value xs'" "10 ^ length ds" "dec_value ds"] l dx
        by (simp add: xs dec_value_Cons len decimal_char_iff)
      with True have "int (unat x) - int (unat d) < 0" "int (dec_value xs) - int (dec_value (d # ds)) < 0"
        by linarith+
      then show ?thesis by (simp only: sgn_neg)
    next
      case False
      with \<open>x \<noteq> d\<close> have *: "unat d < unat x" by (simp add: word_unat_eq_iff)
      then have "dec_value (d # ds) < dec_value xs"
        using lead_less [of "unat d - 48" "unat x - 48" "dec_value ds" "10 ^ length ds" "dec_value xs'"] l dx
        by (simp add: xs dec_value_Cons len decimal_char_iff)
      with * have "int (unat x) - int (unat d) > 0" "int (dec_value xs) - int (dec_value (d # ds)) > 0"
        by linarith+
      then show ?thesis by (simp only: sgn_pos)
    qed
    moreover have "sgn ((int (unat x) - int (unat d)) * 10) = sgn (int (unat x) - int (unat d))"
      by (simp only: sgn_mult) simp
    moreover have "compare_loop enc z p i (d # ds) = Ok ((int (unat x) - int (unat d)) * 10)"
      using False x by (simp add: Let_def word_uint_eq_iff)
    ultimately show ?thesis by (metis (no_types))
  qed
qed simp


lemma pow63_value: "dec_value pow63 = 922337203685477580" "length pow63 = 18"
    "\<forall>c \<in> set pow63. decimal_char c"
  by (simp_all add: pow63_def text_bytes_def dec_value_def decimal_char_iff)

text \<open>Nineteen digits, compared with the number.\<close>

lemma compare2pow63_sign:
  assumes "readable enc z e p" and ds: "ds = takeWhile decimal_char (chars_from enc z e p)"
    and l: "length ds = 19"
  shows "\<exists>c. compare2pow63 enc z p = Ok c \<and> sgn c = sgn (int (dec_value ds) - 2 ^ 63)"
proof -
  have at: "vec_idx z (p + k * stride enc) = Ok (ds ! k)" if "k < 19" for k
  proof -
    have "length ds \<le> length (chars_from enc z e p)" unfolding ds by (rule length_takeWhile_le)
    with that l have k: "p + k * stride enc < e" by (simp add: chars_end [of p k enc e z])
    then have "p + k * stride enc < length z" using assms(1) by (auto simp: readable_def)
    moreover have "ds ! k = chars_from enc z e p ! k" using that l unfolding ds by (simp add: takeWhile_nth)
    ultimately show ?thesis using chars_nth [OF k, of z] by simp
  qed
  define xs where "xs = take 18 ds"
  have split: "ds = xs @ [ds ! 18]"
    using l take_Suc_conv_app_nth [of 18 ds] by (simp add: xs_def)
  have digits: "\<forall>c \<in> set ds. decimal_char c" unfolding ds by (auto dest: set_takeWhileD)
  then have dx: "\<forall>c \<in> set xs. decimal_char c" and d18: "decimal_char (ds ! 18)"
    using l by (auto simp: xs_def dest: in_set_takeD)
  have lx: "length xs = 18" using l by (simp add: xs_def)
  obtain c where c: "compare_loop enc z p 0 pow63 = Ok c"
      "sgn c = sgn (int (dec_value xs) - 922337203685477580)"
    using compare_loop_sign [of xs pow63 z p 0 enc] dx at lx l pow63_value by (auto simp: xs_def)
  have v: "dec_value ds = dec_value xs * 10 + (unat (ds ! 18) - 48)"
    by (subst split) simp
  show ?thesis
  proof (cases "c = 0")
    case True
    with c have "dec_value xs = 922337203685477580" by (simp add: sgn_eq_0_iff)
    with v d18 have "int (dec_value ds) - 2 ^ 63 = int (unat (ds ! 18)) - 56"
      by (simp add: decimal_char_iff)
    with True c at [of 18] show ?thesis by (simp add: compare2pow63_def)
  next
    case False
    show ?thesis
    proof (cases "c < 0")
      case True
      then have "int (dec_value xs) < 922337203685477580" using c(2) by (simp add: sgn_if split: if_splits)
      then have "dec_value xs \<le> 922337203685477579" by linarith
      with v d18 have "dec_value ds < 9223372036854775808" unfolding decimal_char_iff by linarith
      then have "int (dec_value ds) - 2 ^ 63 < 0" by simp
      with True c(1) False show ?thesis by (simp add: compare2pow63_def sgn_neg del: power_numeral)
    next
      case False': False
      with False have "c > 0" by simp
      then have "int (dec_value xs) > 922337203685477580" using c(2) by (simp add: sgn_if split: if_splits)
      then have "922337203685477581 \<le> dec_value xs" by linarith
      with v d18 have "9223372036854775808 < dec_value ds" unfolding decimal_char_iff by linarith
      then have "int (dec_value ds) - 2 ^ 63 > 0" by simp
      with \<open>c > 0\<close> c(1) False show ?thesis by (simp add: compare2pow63_def sgn_pos)
    qed
  qed
qed


section \<open>What \<open>sqlite3Atoi64\<close> computes\<close>

text \<open>
  Space, a sign, digits: the number they denote when it fits in 64 bits, the nearest bound and 2
  when it does not (3 for \<open>2^63\<close>), -1 without digits, 1 when something else than space follows.
\<close>

definition atoi_value :: "bool \<Rightarrow> 8 word list \<Rightarrow> int \<times> int" where
  "atoi_value nonNum cs =
     (let cs = dropWhile sqlite3Isspace cs;
          neg = (cs \<noteq> [] \<and> hd cs = ch CHR ''-'');
          cs = (if cs \<noteq> [] \<and> (hd cs = ch CHR ''-'' \<or> hd cs = ch CHR ''+'') then tl cs else cs);
          ds = takeWhile decimal_char cs;
          v = (if neg then - int (dec_value ds) else int (dec_value ds));
          rc = (if nonNum \<or> \<not> list_all sqlite3Isspace (dropWhile decimal_char cs) then 1 else 0)
      in if ds = [] then (- 1, 0)
         else if in_i64 v then (rc, v)
         else (if v = 2 ^ 63 then 3 else 2, if neg then SMALLEST_INT64 else LARGEST_INT64))"

lemma dec_value_ge: "\<forall>c \<in> set (d # ds). decimal_char c \<Longrightarrow> d \<noteq> ch CHR ''0'' \<Longrightarrow> 10 ^ length ds \<le> dec_value (d # ds)"
proof -
  assume a: "\<forall>c \<in> set (d # ds). decimal_char c" "d \<noteq> ch CHR ''0''"
  then have "1 \<le> unat d - 48" by (auto simp: decimal_char_iff word_unat_eq_iff)
  then have "1 * 10 ^ length ds \<le> (unat d - 48) * 10 ^ length ds" by (rule mult_right_mono) simp
  then show ?thesis unfolding dec_value_Cons by linarith
qed

text \<open>The digits behind the leading zeros: how many there are decides about the size.\<close>

lemma significant_digits:
  fixes m ds defines "m \<equiv> dec_value ds"
  assumes "\<forall>c \<in> set ds. decimal_char c" and "ds = [] \<or> hd ds \<noteq> ch CHR ''0''"
  shows "length ds < 19 \<Longrightarrow> int m \<le> LARGEST_INT64" and "length ds \<le> 19 \<Longrightarrow> m < 2 ^ 64"
    and "19 < length ds \<Longrightarrow> 2 ^ 63 < int m"
proof -
  have less: "m < 10 ^ length ds" unfolding m_def by (rule dec_value_less [OF assms(2)])
  show "int m \<le> LARGEST_INT64" if "length ds < 19"
  proof -
    have "(10 :: nat) ^ length ds \<le> 10 ^ 18" using that by (intro power_increasing) simp_all
    with less show ?thesis by (simp add: LARGEST_INT64_def)
  qed
  show "m < 2 ^ 64" if "length ds \<le> 19"
  proof -
    have "(10 :: nat) ^ length ds \<le> 10 ^ 19" using that by (intro power_increasing) simp_all
    with less show ?thesis by simp
  qed
  show "2 ^ 63 < int m" if l: "19 < length ds"
  proof -
    obtain d ds' where ds: "ds = d # ds'" using l by (cases ds) auto
    have "(10 :: nat) ^ 19 \<le> 10 ^ length ds'" using l by (intro power_increasing) (simp_all add: ds)
    also have "\<dots> \<le> m" using assms dec_value_ge [of d ds'] by (simp add: ds)
    finally show ?thesis by simp
  qed
qed


lemma decimal_not_space: "decimal_char c \<Longrightarrow> \<not> sqlite3Isspace c"
proof -
  assume "decimal_char c"
  then have "unat c = 48 \<or> unat c = 49 \<or> unat c = 50 \<or> unat c = 51 \<or> unat c = 52 \<or> unat c = 53 \<or>
      unat c = 54 \<or> unat c = 55 \<or> unat c = 56 \<or> unat c = 57"
    unfolding decimal_char_iff by arith
  then show ?thesis by (auto simp: sqlite3Isspace_def ctype_def sqlite3CtypeMap_0_entries)
qed

lemma finish_eq:
  fixes ds defines "m \<equiv> int (dec_value ds)"
  assumes r: "readable enc z e zNum"
    and ds: "ds = takeWhile decimal_char (chars_from enc z e zNum)"
    and nz: "ds = [] \<or> hd ds \<noteq> ch CHR ''0''"
    and rest: "rest = dropWhile decimal_char (chars_from enc z e zNum)"
  shows "atoi64_finish enc z e zStart zNum (length ds * stride enc) (word_of_nat (dec_value ds)) neg nonNum =
    Ok (let v = (if neg then - m else m);
            rc = (if nonNum \<or> \<not> list_all sqlite3Isspace rest then 1 else 0)
        in if ds = [] \<and> zStart = zNum then (- 1, 0)
           else if in_i64 v then (rc, v)
           else (if v = 2 ^ 63 then 3 else 2, if neg then SMALLEST_INT64 else LARGEST_INT64))"
proof -
  have digits: "\<forall>c \<in> set ds. decimal_char c" unfolding ds by (auto dest: set_takeWhileD)
  have len: "length ds * stride enc < 19 * stride enc \<longleftrightarrow> length ds < 19"
    "19 * stride enc < length ds * stride enc \<longleftrightarrow> 19 < length ds"
    "length ds * stride enc = 0 \<longleftrightarrow> ds = []" by (auto simp: stride_def)
  have rest': "chars_from enc z e (zNum + length ds * stride enc) = rest"
    unfolding chars_drop rest ds by (simp add: dropWhile_eq_drop)
  have rc: "(if zNum + length ds * stride enc < e then
         map_res (\<lambda>jj. if jj < e then 1 else 0) (skip_chars enc sqlite3Isspace z e (zNum + length ds * stride enc))
       else Ok 0) = Ok (if list_all sqlite3Isspace rest then 0 else (1 :: int))"
  proof -
    let ?j = "zNum + length ds * stride enc" and ?n = "length (takeWhile sqlite3Isspace rest)"
    have "?j + ?n * stride enc < e \<longleftrightarrow> ?n < length rest"
      using chars_end [of ?j ?n enc e z] by (simp add: rest')
    also have "\<dots> \<longleftrightarrow> \<not> list_all sqlite3Isspace rest"
      by (metis length_takeWhile_le linorder_not_less list_all_iff nat_less_le takeWhile_eq_all_conv
          takeWhile_eq_take take_all_iff)
    finally have "?j + ?n * stride enc < e \<longleftrightarrow> \<not> list_all sqlite3Isspace rest" .
    moreover have "\<not> ?j < e \<Longrightarrow> rest = []" using chars_Nil [of enc z e ?j] by (simp add: rest')
    ultimately show ?thesis
      using skip_chars_eq [OF readable_step [OF r, of "length ds"], of sqlite3Isspace]
      by (auto simp: rest')
  qed
  have u: "length ds \<le> 19 \<Longrightarrow> uint (word_of_nat (dec_value ds) :: 64 word) = m"
    using significant_digits(2) [OF digits nz] by (simp add: m_def unsigned_of_nat take_bit_nat_eq_self)
  consider (short) "length ds < 19" | (edge) "length ds = 19" | (long) "19 < length ds" by linarith
  then show ?thesis
  proof cases
    case short
    then have "m \<le> LARGEST_INT64" "0 \<le> m"
      using significant_digits(1) [OF digits nz] by (simp_all add: m_def)
    then have "in_i64 m" "in_i64 (- m)" by (auto simp: i64_defs)
    then show ?thesis
      using short u \<open>m \<le> LARGEST_INT64\<close> unfolding atoi64_finish_def len rc by (auto simp: Let_def m_def)
  next
    case edge
    then obtain c where c: "compare2pow63 enc z zNum = Ok c" "sgn c = sgn (m - 2 ^ 63)"
      using compare2pow63_sign [OF r ds] by (auto simp: m_def)
    have u: "uint (word_of_nat (dec_value ds) :: 64 word) = m" using u edge by simp
    have "0 \<le> m" by (simp add: m_def)
    consider "c < 0" "m < 2 ^ 63" | "c = 0" "m = 2 ^ 63" | "c > 0" "m > 2 ^ 63"
      using c(2) by (cases c "0 :: int" rule: linorder_cases) (auto simp: sgn_if split: if_splits)
    then show ?thesis
    proof cases
      case 1
      then have "in_i64 m" "in_i64 (- m)" "m \<le> LARGEST_INT64" using \<open>0 \<le> m\<close> by (auto simp: i64_defs)
      with 1 edge c(1) u show ?thesis
        unfolding atoi64_finish_def len rc by (auto simp: Let_def m_def)
    next
      case 2
      then have "dec_value ds = 2 ^ 63" by (simp add: m_def)
      then have "uint ((word_of_nat (dec_value ds) :: 64 word) - 1) = LARGEST_INT64"
        by (simp add: LARGEST_INT64_def)
      moreover have "\<not> in_i64 m" "in_i64 (- m)" "- m = SMALLEST_INT64" using 2 by (auto simp: i64_defs)
      moreover have "take_bit 64 LARGEST_INT64 = LARGEST_INT64" by (simp add: LARGEST_INT64_def)
      ultimately show ?thesis
        using 2 edge c(1) u unfolding atoi64_finish_def len rc by (auto simp: Let_def m_def)
    next
      case 3
      then have "\<not> in_i64 m" "\<not> in_i64 (- m)" by (auto simp: i64_defs)
      with 3 edge c(1) u show ?thesis
        unfolding atoi64_finish_def len rc by (auto simp: Let_def m_def)
    qed
  next
    case long
    then have "2 ^ 63 < m" using significant_digits(3) [OF digits nz] by (simp add: m_def)
    then have "\<not> in_i64 m" "\<not> in_i64 (- m)" by (auto simp: i64_defs)
    then show ?thesis
      using long \<open>2 ^ 63 < m\<close> unfolding atoi64_finish_def len rc by (auto simp: Let_def m_def)
  qed
qed


lemma stride_drop: "chars_from enc z e i \<noteq> [] \<Longrightarrow> chars_from enc z e (i + stride enc) = tl (chars_from enc z e i)"
  using chars_drop [of enc z e i 1] by (simp add: drop_Suc)

text \<open>The whole function, from the first position on.\<close>

lemma atoi64_from:
  assumes r: "readable enc z e p"
  shows "bind_res (skip_chars enc sqlite3Isspace z e p) (\<lambda>zNum.
     bind_res (atoi64_sign enc z e zNum) (\<lambda>(neg, zStart).
     bind_res (skip_chars enc (\<lambda>c. c = ch CHR ''0'') z e zStart) (\<lambda>zNum.
     bind_res (read_digits enc z e zNum 0 0) (\<lambda>(i, u).
     atoi64_finish enc z e zStart zNum i u neg nonNum)))) =
   Ok (atoi_value nonNum (chars_from enc z e p))"
proof -
  define C1 where "C1 = dropWhile sqlite3Isspace (chars_from enc z e p)"
  define p1 where "p1 = p + length (takeWhile sqlite3Isspace (chars_from enc z e p)) * stride enc"
  have p1: "skip_chars enc sqlite3Isspace z e p = Ok p1" "readable enc z e p1" "chars_from enc z e p1 = C1"
    using r by (simp_all add: p1_def C1_def skip_chars_eq readable_step chars_drop dropWhile_eq_drop)
  define neg where "neg \<longleftrightarrow> C1 \<noteq> [] \<and> hd C1 = ch CHR ''-''"
  define sgd where "sgd \<longleftrightarrow> C1 \<noteq> [] \<and> (hd C1 = ch CHR ''-'' \<or> hd C1 = ch CHR ''+'')"
  define C2 where "C2 = (if sgd then tl C1 else C1)"
  define p2 where "p2 = (if sgd then p1 + stride enc else p1)"
  have p2: "atoi64_sign enc z e p1 = Ok (neg, p2)" "readable enc z e p2" "chars_from enc z e p2 = C2"
  proof -
    have "C1 \<noteq> [] \<longleftrightarrow> p1 < e" using chars_Nil [of enc z e p1] by (auto simp: p1)
    moreover have "p1 < e \<Longrightarrow> hd C1 = z ! p1"
      using chars_from.simps [of enc z e p1] by (simp add: p1)
    ultimately show "atoi64_sign enc z e p1 = Ok (neg, p2)"
      using readable_0 [OF p1(2)] by (auto simp: atoi64_sign_def neg_def p2_def sgd_def)
    show "readable enc z e p2" using p1(2) by (simp add: p2_def readable_next)
    show "chars_from enc z e p2 = C2" using p1(3) stride_drop [of enc z e p1] by (simp add: p2_def C2_def sgd_def)
  qed
  define zs where "zs = takeWhile (\<lambda>c. c = ch CHR ''0'') C2"
  define C3 where "C3 = dropWhile (\<lambda>c. c = ch CHR ''0'') C2"
  define p3 where "p3 = p2 + length zs * stride enc"
  have p3: "skip_chars enc (\<lambda>c. c = ch CHR ''0'') z e p2 = Ok p3" "readable enc z e p3" "chars_from enc z e p3 = C3"
    using p2 by (simp_all add: p3_def C3_def zs_def skip_chars_eq readable_step chars_drop dropWhile_eq_drop)
  define ds where "ds = takeWhile decimal_char C3"
  have digits: "\<forall>c \<in> set ds. decimal_char c" unfolding ds_def by (auto dest: set_takeWhileD)
  have rd: "read_digits enc z e p3 0 0 = Ok (length ds * stride enc, word_of_nat (dec_value ds))"
    using read_digits_eq [of enc z e p3 0 0] p3 digit_steps [OF digits] by (simp add: ds_def Let_def)
  have nz: "ds = [] \<or> hd ds \<noteq> ch CHR ''0''"
  proof -
    have "C3 \<noteq> [] \<Longrightarrow> hd C3 \<noteq> ch CHR ''0''" unfolding C3_def by (rule hd_dropWhile)
    then show ?thesis by (cases C3) (auto simp: ds_def)
  qed
  have all: "takeWhile decimal_char C2 = zs @ ds" "dropWhile decimal_char C2 = dropWhile decimal_char C3"
  proof -
    have "C2 = zs @ C3" by (simp add: zs_def C3_def)
    moreover have z: "\<forall>c \<in> set zs. c = ch CHR ''0''" by (auto simp: zs_def dest: set_takeWhileD)
    moreover from z have "\<forall>c \<in> set zs. decimal_char c" by (auto simp: decimal_char_def)
    ultimately show "takeWhile decimal_char C2 = zs @ ds" "dropWhile decimal_char C2 = dropWhile decimal_char C3"
      by (simp_all add: ds_def takeWhile_append2 dropWhile_append2)
  qed
  then have val: "dec_value (takeWhile decimal_char C2) = dec_value ds"
    using dec_value_zero [of zs] by (auto simp: dec_value_append zs_def dest: set_takeWhileD)
  have empty: "takeWhile decimal_char C2 = [] \<longleftrightarrow> ds = [] \<and> p2 = p3"
    using all by (auto simp: p3_def stride_def)
  note fin = finish_eq [OF p3(2) _ nz refl, of p2 neg nonNum, unfolded p3(3), OF ds_def]
  show ?thesis
    unfolding atoi_value_def Let_def C1_def [symmetric] neg_def [symmetric] sgd_def [symmetric]
      C2_def [symmetric] val empty all(2)
    using p1(1) p2(1) p3(1) rd fin by (simp add: Let_def)
qed

text \<open>
  The characters of a text: the bytes in UTF-8; in UTF-16 the low bytes of the code units, up to
  the first whose high byte is not zero, and whether there is one.
\<close>

definition unit_low :: "nat \<Rightarrow> nat" where "unit_low enc = (if enc = SQLITE_UTF16LE then 0 else 1)"
definition unit_high :: "nat \<Rightarrow> nat" where "unit_high enc = (if enc = SQLITE_UTF16LE then 1 else 0)"

definition code_units :: "nat \<Rightarrow> 8 word list \<Rightarrow> nat \<Rightarrow> (8 word \<times> 8 word) list" where
  "code_units enc z m = map (\<lambda>k. (z ! (2 * k + unit_low enc), z ! (2 * k + unit_high enc))) [0..<m]"

definition text_chars :: "nat \<Rightarrow> 8 word list \<Rightarrow> nat \<Rightarrow> 8 word list \<times> bool" where
  "text_chars enc z n =
     (if enc = SQLITE_UTF8 then (take n z, False)
      else let us = code_units enc z (n div 2) in
        (map fst (takeWhile (\<lambda>u. snd u = 0) us), \<not> list_all (\<lambda>u. snd u = 0) us))"

lemma chars_utf8: "e \<le> length z \<Longrightarrow> chars_from SQLITE_UTF8 z e i = take (e - i) (drop i z)"
proof (induction "SQLITE_UTF8" z e i rule: chars_from.induct)
  case (1 z e i)
  show ?case
  proof (cases "i < e")
    case True
    with 1 have "chars_from SQLITE_UTF8 z e i = z ! i # take (e - Suc i) (drop (Suc i) z)"
      by (subst chars_from.simps) (simp add: stride_def)
    also have "\<dots> = take (e - i) (drop i z)"
      using True 1(2) by (metis Cons_nth_drop_Suc Suc_diff_Suc order_less_le_trans take_Suc_Cons)
    finally show ?thesis .
  next
    case False
    then show ?thesis by (subst chars_from.simps) simp
  qed
qed

lemma stride_16: "enc \<noteq> SQLITE_UTF8 \<Longrightarrow> stride enc = 2"
  by (simp add: stride_def)

lemma chars_utf16:
  assumes "enc \<noteq> SQLITE_UTF8"
  shows "chars_from enc z (2 * t + lo) (2 * k + lo) = map (\<lambda>k. z ! (2 * k + lo)) [k..<t]"
proof (induction "t - k" arbitrary: k)
  case 0
  then show ?case by (subst chars_from.simps) simp
next
  case (Suc d)
  then have "k < t" by simp
  with Suc(1) [of "Suc k"] Suc(2) show ?case
    by (subst chars_from.simps) (simp add: stride_16 [OF assms] upt_conv_Cons)
qed

lemma high_bytes_eq:
  assumes "2 * m \<le> length z" and "h \<le> 1" and "k \<le> m"
  shows "high_bytes z (2 * m) (2 * k + h) =
    Ok (2 * (k + length (takeWhile (\<lambda>k. z ! (2 * k + h) = 0) [k..<m])) + h)"
  using assms(3)
proof (induction "m - k" arbitrary: k)
  case 0
  then show ?case by (subst high_bytes.simps) simp
next
  case (Suc d)
  then have "k < m" by simp
  with Suc(1) [of "Suc k"] Suc(2) assms show ?case
    by (subst high_bytes.simps) (simp add: upt_conv_Cons)
qed

lemma takeWhile_upt: "takeWhile P [0..<m] = [0..<length (takeWhile P [0..<m])]"
proof -
  have "length (takeWhile P [0..<m]) \<le> length [0..<m]" by (rule length_takeWhile_le)
  then show ?thesis by (subst takeWhile_eq_take) simp
qed

lemma atoi64_extent_eq:
  assumes "enc \<in> {SQLITE_UTF8, SQLITE_UTF16LE, SQLITE_UTF16BE}" and "n \<le> length z"
  shows "\<exists>p e. atoi64_extent z n enc = Ok (p, e, snd (text_chars enc z n)) \<and> readable enc z e p \<and>
    chars_from enc z e p = fst (text_chars enc z n)"
proof (cases "enc = SQLITE_UTF8")
  case True
  then show ?thesis
    using assms(2) by (auto simp: atoi64_extent_def text_chars_def chars_utf8 readable_def stride_def)
next
  case False
  define m where "m = n div 2"
  have even: "n - n mod 2 = 2 * m" by (simp add: m_def minus_mod_eq_mult_div)
  with assms(2) have m: "2 * m \<le> length z" by linarith
  define lo hi where "lo = unit_low enc" and "hi = unit_high enc"
  define zero where "zero k \<longleftrightarrow> z ! (2 * k + hi) = 0" for k
  define t where "t = length (takeWhile zero [0..<m])"
  have tm: "t \<le> m" using length_takeWhile_le [of zero "[0..<m]"] by (simp add: t_def)
  have hi: "hi \<le> 1" by (simp add: hi_def unit_high_def)
  have hb: "high_bytes z (2 * m) hi = Ok (2 * t + hi)"
    using high_bytes_eq [OF m hi, of 0] by (simp add: t_def zero_def [abs_def])
  have "atoi64_extent z n enc = Ok (lo, 2 * t + lo, 2 * t + hi < 2 * m)"
    using hb False assms(1)
    by (auto simp: atoi64_extent_def even lo_def hi_def unit_low_def unit_high_def SQLITE_UTF16LE_def
      SQLITE_UTF16BE_def SQLITE_UTF8_def xor_Suc_0_eq)
  moreover have "readable enc z (2 * t + lo) lo"
    using m tm by (auto simp: readable_def stride_16 [OF False] lo_def unit_low_def)
  moreover have "fst (text_chars enc z n) = map (\<lambda>k. z ! (2 * k + lo)) [0..<t]"
    using False takeWhile_upt [of zero m]
    by (simp add: text_chars_def code_units_def Let_def takeWhile_map o_def zero_def [abs_def] t_def lo_def hi_def
      flip: m_def)
  moreover have "snd (text_chars enc z n) \<longleftrightarrow> 2 * t + hi < 2 * m"
  proof -
    have "list_all (\<lambda>u. snd u = 0) (code_units enc z m) \<longleftrightarrow> (\<forall>k \<in> set [0..<m]. zero k)"
      by (simp add: code_units_def list_all_iff zero_def hi_def)
    also have "\<dots> \<longleftrightarrow> t = m"
      by (metis t_def takeWhile_eq_all_conv takeWhile_upt length_upt diff_zero)
    finally show ?thesis using tm hi False by (auto simp: text_chars_def Let_def simp flip: m_def)
  qed
  ultimately show ?thesis using chars_utf16 [OF False, of z t lo 0] by auto
qed


lemma atoi64_value:
  assumes "enc \<in> {SQLITE_UTF8, SQLITE_UTF16LE, SQLITE_UTF16BE}" and "n \<le> length z"
  shows "sqlite3Atoi64 z n enc = Ok (atoi_value (snd (text_chars enc z n)) (fst (text_chars enc z n)))"
proof -
  obtain p e where pe: "atoi64_extent z n enc = Ok (p, e, snd (text_chars enc z n))"
      "readable enc z e p" "chars_from enc z e p = fst (text_chars enc z n)"
    using atoi64_extent_eq [OF assms] by blast
  then show ?thesis using atoi64_from [OF pe(2)] by (simp add: sqlite3Atoi64_def)
qed

text \<open>
  C26: \<open>sqlite3Atoi64\<close> reads an integer as its documentation says, in each of the three encodings
  and for every text, however long: it looks at no byte outside of the text, and returns the number
  that the sign and the digits behind leading space denote, with 0 when nothing but space follows
  and 1 otherwise; the nearest bound with 2 (or 3 for the number \<open>2^63\<close>) when it does not fit in 64
  bits, though the accumulator wraps around; -1 without a digit.
\<close>

theorem atoi64_reads_integer:
  assumes "enc \<in> {SQLITE_UTF8, SQLITE_UTF16LE, SQLITE_UTF16BE}" and "n \<le> length z"
  shows "sqlite3Atoi64 z n enc = Ok (atoi_value (snd (text_chars enc z n)) (fst (text_chars enc z n)))"
  by (rule atoi64_value [OF assms])


lemma atoi64_reads_integer_witness:
  "sqlite3Atoi64 (text_bytes '' -42;'') 4 SQLITE_UTF8 = Ok (0, -42)"
proof -
  have "atoi_value False (text_bytes '' -42'') = (0, -42)"
    by (simp add: atoi_value_def text_bytes_def Let_def decimal_char_iff dec_value_def i64_defs
      sqlite3Isspace_def ctype_def sqlite3CtypeMap_0_entries)
  then show ?thesis
    using atoi64_reads_integer [of SQLITE_UTF8 4 "text_bytes '' -42;''"]
    by (simp add: text_chars_def text_bytes_def)
qed

section \<open>What \<open>sqlite3Int64ToText\<close> writes\<close>

fun decimal_text :: "nat \<Rightarrow> 8 word list" where
  "decimal_text x = (if x div 10 = 0 then [] else decimal_text (x div 10)) @ [word_of_nat (48 + x mod 10)]"

declare decimal_text.simps [simp del]

lemma digit_unat: "unat (word_of_nat (48 + x mod 10) :: 8 word) = 48 + x mod 10"
proof -
  have "x mod 10 < 10" by simp
  then have "48 + x mod 10 < 2 ^ 8" by simp
  then show ?thesis by (simp only: unsigned_of_nat) (simp add: take_bit_nat_eq_self)
qed

lemma decimal_text_value: "dec_value (decimal_text x) = x"
proof (induction x rule: decimal_text.induct)
  case (1 x)
  have "dec_value (ds @ [word_of_nat (48 + x mod 10)]) = dec_value ds * 10 + x mod 10" for ds
    unfolding dec_value_snoc digit_unat by simp
  with 1 show ?case by (subst decimal_text.simps) auto
qed

lemma decimal_text_chars: "c \<in> set (decimal_text x) \<Longrightarrow> decimal_char c"
proof (induction x rule: decimal_text.induct)
  case (1 x)
  have "decimal_char (word_of_nat (48 + x mod 10))"
    unfolding decimal_char_iff digit_unat using mod_less_divisor [of 10 x] by linarith
  with 1 show ?case
    by (subst (asm) (2) decimal_text.simps) (auto split: if_splits)
qed

lemma decimal_text_length: "x < 10 ^ Suc k \<Longrightarrow> length (decimal_text x) \<le> Suc k"
proof (induction x arbitrary: k rule: decimal_text.induct)
  case (1 x)
  show ?case
  proof (cases k)
    case 0
    with 1(2) have "x div 10 = 0" by simp
    then show ?thesis by (subst decimal_text.simps) simp
  next
    case (Suc j)
    with 1(2) have "x div 10 < 10 ^ Suc j" by (simp add: less_mult_imp_div_less)
    with 1(1) [of j] show ?thesis by (subst decimal_text.simps) (simp add: Suc)
  qed
qed

lemma decimal_text_nonempty: "decimal_text x \<noteq> []"
  by (subst decimal_text.simps) simp

lemma int64_digits_eq:
  assumes "length (decimal_text (unat x)) \<le> i + 1" and "i < length z"
  shows "int64_digits x i z = (let n = length (decimal_text (unat x)) in
    Ok (i + 1 - n, take (i + 1 - n) z @ decimal_text (unat x) @ drop (i + 1) z))"
  using assms
proof (induction x i z rule: int64_digits.induct)
  case (1 x i z)
  have m: "(ucast (x mod 10) :: 8 word) = word_of_nat (unat x mod 10)"
  proof -
    have "(ucast (x mod 10) :: 8 word) = word_of_nat (unat (x mod 10))" by (rule of_nat_unat [symmetric])
    then show ?thesis by (simp only: unat_mod_distrib) simp
  qed
  have d: "unat (x div 10) = unat x div 10" by (simp add: unat_div_distrib)
  then have z: "x div 10 = 0 \<longleftrightarrow> unat x div 10 = 0" by (simp add: word_unat_eq_iff)
  show ?case
  proof (cases "x div 10 = 0")
    case True
    then have t: "decimal_text (unat x) = [word_of_nat (48 + unat x mod 10)]"
      using z by (subst decimal_text.simps) simp
    show ?thesis
      unfolding t using True 1(3) upd_conv_take_nth_drop [of i z]
      by (subst int64_digits.simps) (simp add: m Let_def)
  next
    case False
    then have t: "decimal_text (unat x) = decimal_text (unat (x div 10)) @ [word_of_nat (48 + unat x mod 10)]"
      using z d by (subst decimal_text.simps) simp
    then have "i \<noteq> 0" using 1(2) decimal_text_nonempty [of "unat (x div 10)"] by (cases "decimal_text (unat (x div 10))") auto
    let ?n = "length (decimal_text (unat (x div 10)))" and ?c = "word_of_nat (48 + unat x mod 10)"
    have n: "?n \<le> i" using 1(2) t by simp
    have "int64_digits x i z = int64_digits (x div 10) (i - 1) (z[i := ?c])"
      using False 1(3) \<open>i \<noteq> 0\<close> by (subst int64_digits.simps) (simp add: m Let_def add.commute)
    also have "\<dots> = Ok (i - ?n, take (i - ?n) (z[i := ?c]) @ decimal_text (unat (x div 10)) @ drop i (z[i := ?c]))"
      using 1(1) [of "z[i := ?c]" "x div 10"] False 1(3) \<open>i \<noteq> 0\<close> n m by (simp add: Let_def add.commute)
    finally show ?thesis unfolding t using 1(3) n by (simp add: Let_def drop_put)
  qed
qed


definition signed_text :: "int \<Rightarrow> 8 word list" where
  "signed_text v = (if v < 0 then [ch CHR ''-''] else []) @ decimal_text (nat \<bar>v\<bar>)"

lemma magnitude: "in_i64 v \<Longrightarrow> length (decimal_text (nat \<bar>v\<bar>)) \<le> 19"
  by (rule decimal_text_length [of _ 18, simplified]) (auto simp: i64_defs)

lemma unat_of_magnitude: "0 \<le> y \<Longrightarrow> y < 2 ^ 64 \<Longrightarrow> unat (word_of_int y :: 64 word) = nat y"
  by (simp add: unsigned_of_int take_bit_int_eq_self)

lemma int64_to_text_eq:
  assumes "in_i64 v"
  shows "sqlite3Int64ToText v = Ok (length (signed_text v), signed_text v @ [0])"
proof -
  define x :: "64 word" where
    "x = (if v < 0 then if v = SMALLEST_INT64 then push_bit 63 1 else word_of_int (- v) else word_of_int v)"
  have x: "unat x = nat \<bar>v\<bar>"
    using assms unat_of_magnitude [of "- v"] unat_of_magnitude [of v] by (auto simp: x_def i64_defs)
  let ?d = "decimal_text (nat \<bar>v\<bar>)"
  have l: "length ?d \<le> 19" "0 < length ?d" using magnitude [OF assms] decimal_text_nonempty by auto
  have z: "(replicate 22 0)[21 := 0] = (replicate 22 (0 :: 8 word))"
    by (rule nth_equalityI) (auto simp: nth_list_update)
  have "int64_digits x 20 (replicate 22 0) = Ok (21 - length ?d, replicate (21 - length ?d) 0 @ ?d @ [0])"
    using int64_digits_eq [of x 20 "replicate 22 0"] l by (simp add: x Let_def)
  note digits = this
  show ?thesis
  proof (cases "v < 0")
    case True
    then show ?thesis
      using l digits unfolding sqlite3Int64ToText_def x_def [symmetric] z signed_text_def
      by (simp add: Let_def drop_put)
  next
    case False
    then show ?thesis
      using l digits unfolding sqlite3Int64ToText_def x_def [symmetric] z signed_text_def
      by (simp add: Let_def)
  qed
qed

lemma atoi_value_digits:
  assumes "\<forall>c \<in> set d. decimal_char c" and "d \<noteq> []"
  shows "in_i64 (int (dec_value d)) \<Longrightarrow> atoi_value False d = (0, int (dec_value d))"
    and "in_i64 (- int (dec_value d)) \<Longrightarrow> atoi_value False (ch CHR ''-'' # d) = (0, - int (dec_value d))"
proof -
  have t: "takeWhile decimal_char d = d" "dropWhile decimal_char d = []"
    using assms by (simp_all add: takeWhile_eq_all_conv dropWhile_eq_Nil_conv)
  have h: "decimal_char (hd d)" using assms by simp
  have s: "\<not> sqlite3Isspace (ch CHR ''-'')"
    by (simp add: sqlite3Isspace_def ctype_def sqlite3CtypeMap_0_entries)
  have h': "hd d \<noteq> ch CHR ''-''" "hd d \<noteq> ch CHR ''+''" using h by (auto simp: decimal_char_iff)
  have d: "dropWhile sqlite3Isspace d = d" using decimal_not_space [OF h] by (cases d) simp_all
  show "in_i64 (int (dec_value d)) \<Longrightarrow> atoi_value False d = (0, int (dec_value d))"
    using h' assms(2) by (simp add: atoi_value_def Let_def d t)
  show "in_i64 (- int (dec_value d)) \<Longrightarrow> atoi_value False (ch CHR ''-'' # d) = (0, - int (dec_value d))"
    using s assms(2) by (simp add: atoi_value_def Let_def t)
qed

lemma signed_text_value: "in_i64 v \<Longrightarrow> atoi_value False (signed_text v) = (0, v)"
  using atoi_value_digits [of "decimal_text (nat \<bar>v\<bar>)"] decimal_text_chars [of _ "nat \<bar>v\<bar>"]
    decimal_text_nonempty [of "nat \<bar>v\<bar>"]
  by (auto simp: signed_text_def decimal_text_value)

text \<open>
  C27: the decimal text that \<open>sqlite3Int64ToText\<close> writes for a 64-bit integer fits in the 21 bytes its
  caller must provide, its length is returned, a zero byte ends it, and \<open>sqlite3Atoi64\<close> reads the
  integer back from it, the smallest one included.
\<close>

theorem int64_text_round_trip:
  assumes "in_i64 v"
  shows "\<exists>t. sqlite3Int64ToText v = Ok (length t, t @ [0]) \<and> length (t @ [0]) \<le> 21 \<and>
    sqlite3Atoi64 (t @ rest) (length t) SQLITE_UTF8 = Ok (0, v)"
proof (intro exI conjI)
  show "sqlite3Int64ToText v = Ok (length (signed_text v), signed_text v @ [0])"
    by (rule int64_to_text_eq [OF assms])
  show "length (signed_text v @ [0]) \<le> 21" using magnitude [OF assms] by (auto simp: signed_text_def)
  show "sqlite3Atoi64 (signed_text v @ rest) (length (signed_text v)) SQLITE_UTF8 = Ok (0, v)"
    using atoi64_value [of SQLITE_UTF8 "length (signed_text v)" "signed_text v @ rest"]
      signed_text_value [OF assms] by (simp add: text_chars_def)
qed

lemma int64_text_round_trip_witness:
  "\<exists>t. sqlite3Int64ToText SMALLEST_INT64 = Ok (length t, t @ [0]) \<and> length (t @ [0]) \<le> 21 \<and>
    sqlite3Atoi64 (t @ [59]) (length t) SQLITE_UTF8 = Ok (0, SMALLEST_INT64)"
  by (rule int64_text_round_trip) (simp add: i64_defs)

end
