(* ===== verification/SqNumLit.thy ===== *)
theory SqNumLit
  imports SqNumText SqTokenSafe
begin

unbundle bit_operations_syntax

text \<open>
  Number literals: \<open>sqlite3HexToInt\<close>, \<open>sqlite3DecOrHexToI64\<close>, \<open>sqlite3GetInt32\<close>, \<open>sqlite3Atoi\<close> and
  \<open>sqlite3GetUInt32\<close>. A pointer into the text is the list of the bytes from there on; a read behind
  the end of the list is \<open>Undef\<close>.
\<close>

definition sqlite3HexToInt :: "8 word \<Rightarrow> 8 word res" where
  "sqlite3HexToInt h =
     (if (ch CHR ''0'' \<le> h \<and> h \<le> ch CHR ''9'') \<or> (ch CHR ''a'' \<le> h \<and> h \<le> ch CHR ''f'') \<or>
         (ch CHR ''A'' \<le> h \<and> h \<le> ch CHR ''F'')
      then Ok ((h + 9 * (1 AND drop_bit 6 h)) AND 0xF) else Undef)"

text \<open>\<open>for(; zNum[0]=='0'; zNum++)\<close>.\<close>

fun skip_zeros :: "8 word list \<Rightarrow> 8 word list res" where
  "skip_zeros [] = Undef"
| "skip_zeros (c # z) = (if c = ch CHR ''0'' then skip_zeros z else Ok (c # z))"

text \<open>The digits of a hexadecimal literal: the rest of the text, the number of digits, the value.\<close>

fun hex_digits64 :: "8 word list \<Rightarrow> nat \<Rightarrow> 64 word \<Rightarrow> (8 word list \<times> nat \<times> 64 word) res" where
  "hex_digits64 [] k u = Undef"
| "hex_digits64 (c # z) k u =
     (if sqlite3Isxdigit c then
        bind_res (sqlite3HexToInt c) (\<lambda>h. hex_digits64 z (k + 1) (u * 16 + ucast h))
      else Ok (c # z, k, u))"

text \<open>\<open>z[0]=='0' && (z[1]=='x' || z[1]=='X')\<close>.\<close>

definition hex_prefix :: "8 word list \<Rightarrow> bool res" where
  "hex_prefix z =
     bind_res (vec_idx z 0) (\<lambda>c.
       if c = ch CHR ''0'' then map_res (\<lambda>d. d = ch CHR ''x'' \<or> d = ch CHR ''X'') (vec_idx z 1)
       else Ok False)"

text \<open>The number of bytes before the zero byte, in 30 bits.\<close>

definition sqlite3Strlen30 :: "8 word list \<Rightarrow> nat res" where
  "sqlite3Strlen30 z = map_res (\<lambda>n. 0x3FFFFFFF AND n) (scan_while (\<lambda>c. c \<noteq> 0) z 0)"

definition sqlite3DecOrHexToI64 :: "8 word list \<Rightarrow> (int \<times> int) res" where
  "sqlite3DecOrHexToI64 z =
     bind_res (hex_prefix z) (\<lambda>hex.
       if hex then
         bind_res (skip_zeros (drop 2 z)) (\<lambda>zi.
         bind_res (hex_digits64 zi 0 0) (\<lambda>(zk, k, u).
         bind_res (vec_idx zk 0) (\<lambda>c.
           Ok (if 16 < k then 2 else if c \<noteq> 0 then 1 else 0, sint u))))
       else bind_res (sqlite3Strlen30 z) (\<lambda>n. sqlite3Atoi64 z n SQLITE_UTF8))"

text \<open>
  \<open>for(i=0; i<8 && sqlite3Isxdigit(zNum[i]); i++)\<close> and \<open>for(i=0; i<11 && (c = zNum[i] - '0')>=0 && c<=9; i++)\<close>;
  the first argument is the number of rounds left.
\<close>

fun hex_digits32 :: "nat \<Rightarrow> 8 word list \<Rightarrow> 32 word \<Rightarrow> (8 word list \<times> 32 word) res" where
  "hex_digits32 0 z u = Ok (z, u)"
| "hex_digits32 (Suc k) z u =
     bind_res (vec_idx z 0) (\<lambda>c.
       if sqlite3Isxdigit c then
         bind_res (sqlite3HexToInt c) (\<lambda>h. hex_digits32 k (tl z) (u * 16 + ucast h))
       else Ok (z, u))"

fun dec_digits :: "nat \<Rightarrow> 8 word list \<Rightarrow> nat \<Rightarrow> int \<Rightarrow> (nat \<times> int) res" where
  "dec_digits 0 z i v = Ok (i, v)"
| "dec_digits (Suc k) z i v =
     bind_res (vec_idx z 0) (\<lambda>c.
       if decimal_char c then dec_digits k (tl z) (i + 1) (v * 10 + (int (unat c) - 48)) else Ok (i, v))"

text \<open>\<open>Some v\<close> is the return value 1 with \<open>*pValue = v\<close>; \<open>None\<close> is 0, and \<open>*pValue\<close> is not changed.\<close>

definition int32_hex :: "8 word list \<Rightarrow> int option res" where
  "int32_hex z =
     bind_res (skip_zeros z) (\<lambda>z.
     bind_res (hex_digits32 8 z 0) (\<lambda>(z, u).
       if u AND 0x80000000 = 0 then
         map_res (\<lambda>c. if \<not> sqlite3Isxdigit c then Some (sint u) else None) (vec_idx z 0)
       else Ok None))"

definition int32_decimal :: "bool \<Rightarrow> 8 word list \<Rightarrow> int option res" where
  "int32_decimal neg z =
     bind_res (vec_idx z 0) (\<lambda>c.
       if \<not> sqlite3Isdigit c then Ok None
       else
         bind_res (skip_zeros z) (\<lambda>z.
         bind_res (dec_digits 11 z 0 0) (\<lambda>(i, v).
           if 10 < i then Ok None
           else if 2147483647 < v - (if neg then 1 else 0) then Ok None
           else Ok (Some (if neg then - v else v)))))"

definition sqlite3GetInt32 :: "8 word list \<Rightarrow> int option res" where
  "sqlite3GetInt32 zNum =
     bind_res (vec_idx zNum 0) (\<lambda>c.
       if c = ch CHR ''-'' then int32_decimal True (tl zNum)
       else if c = ch CHR ''+'' then int32_decimal False (tl zNum)
       else
         bind_res (hex_prefix zNum) (\<lambda>hex.
         bind_res (if hex then map_res sqlite3Isxdigit (vec_idx zNum 2) else Ok False) (\<lambda>hex.
           if hex then int32_hex (drop 2 zNum) else int32_decimal False zNum)))"

definition sqlite3Atoi :: "8 word list \<Rightarrow> int res" where
  "sqlite3Atoi z = map_res (\<lambda>r. case r of Some x \<Rightarrow> x | None \<Rightarrow> 0) (sqlite3GetInt32 z)"

text \<open>The return value and \<open>*pI\<close>.\<close>

fun uint32_digits :: "8 word list \<Rightarrow> nat \<Rightarrow> 64 word \<Rightarrow> (nat \<times> 32 word) res" where
  "uint32_digits [] i v = Undef"
| "uint32_digits (c # z) i v =
     (if sqlite3Isdigit c then
        let v = v * 10 + ucast c - ucast (ch CHR ''0'') in
        if 4294967296 < v then Ok (0, 0) else uint32_digits z (i + 1) v
      else if i = 0 \<or> c \<noteq> 0 then Ok (0, 0) else Ok (1, ucast v))"

definition sqlite3GetUInt32 :: "8 word list \<Rightarrow> (nat \<times> 32 word) res" where
  "sqlite3GetUInt32 z = uint32_digits z 0 0"

section \<open>Digits\<close>

lemma isdigit_iff: "sqlite3Isdigit c \<longleftrightarrow> decimal_char c"
proof -
  have "list_all (\<lambda>k. sqlite3Isdigit (word_of_nat k) = decimal_char (word_of_nat k)) [0..<256]"
    by (simp add: upt_from_0 sqlite3Isdigit_def ctype_def sqlite3CtypeMap_entries decimal_char_def word_le_nat_alt)
  from all_bytes [OF this, of c] show ?thesis .
qed

text \<open>The value of a hexadecimal digit.\<close>

definition hex_value :: "8 word \<Rightarrow> nat" where
  "hex_value c = (let k = unat c in if k \<le> 57 then k - 48 else if k \<le> 70 then k - 55 else k - 87)"

lemma xdigit_value: "sqlite3Isxdigit c \<Longrightarrow> sqlite3HexToInt c = Ok (word_of_nat (hex_value c)) \<and> hex_value c < 16"
proof -
  have "list_all (\<lambda>k. let c = word_of_nat k in if sqlite3Isxdigit c then
      sqlite3HexToInt c = Ok (word_of_nat (hex_value c)) \<and> hex_value c < 16 else True) [0..<256]"
    by (simp add: upt_from_0 sqlite3Isxdigit_def ctype_def sqlite3CtypeMap_entries sqlite3HexToInt_def
      hex_value_def Let_def)
  from all_bytes [OF this, of c] show "sqlite3Isxdigit c \<Longrightarrow> sqlite3HexToInt c = Ok (word_of_nat (hex_value c)) \<and> hex_value c < 16"
    by (simp add: Let_def)
qed


definition hex_number :: "8 word list \<Rightarrow> nat" where
  "hex_number hs = foldl (\<lambda>u c. u * 16 + hex_value c) 0 hs"

lemma hex_number_snoc [simp]: "hex_number (hs @ [c]) = hex_number hs * 16 + hex_value c"
  by (simp add: hex_number_def)

lemma hex_number_Nil [simp]: "hex_number [] = 0"
  by (simp add: hex_number_def)

lemma hex_number_Cons: "hex_number (c # hs) = hex_value c * 16 ^ length hs + hex_number hs"
proof (induction hs rule: rev_induct)
  case (snoc d hs)
  then show ?case by (simp add: hex_number_snoc [of "c # hs" d, simplified] add_mult_distrib)
qed (simp add: hex_number_def)

lemma hex_number_less: "\<forall>c \<in> set hs. sqlite3Isxdigit c \<Longrightarrow> hex_number hs < 16 ^ length hs"
proof (induction hs)
  case (Cons c hs)
  then have "hex_value c * 16 ^ length hs \<le> 15 * 16 ^ length hs"
    using xdigit_value [of c] by (intro mult_right_mono) auto
  moreover have "hex_number hs < 16 ^ length hs" using Cons by simp
  ultimately show ?case by (simp only: hex_number_Cons length_Cons power_Suc)
qed simp

lemma hex_value_pos: "sqlite3Isxdigit c \<Longrightarrow> c \<noteq> ch CHR ''0'' \<Longrightarrow> 1 \<le> hex_value c"
proof -
  have "list_all (\<lambda>k. let c = word_of_nat k in if sqlite3Isxdigit c then if c = ch CHR ''0'' then True
      else 1 \<le> hex_value c else True) [0..<256]"
    by (simp add: upt_from_0 sqlite3Isxdigit_def ctype_def sqlite3CtypeMap_entries hex_value_def Let_def)
  from all_bytes [OF this, of c] show "sqlite3Isxdigit c \<Longrightarrow> c \<noteq> ch CHR ''0'' \<Longrightarrow> 1 \<le> hex_value c"
    by (simp add: Let_def)
qed

lemma hex_number_ge:
  "sqlite3Isxdigit c \<Longrightarrow> c \<noteq> ch CHR ''0'' \<Longrightarrow> 16 ^ length hs \<le> hex_number (c # hs)"
proof -
  assume "sqlite3Isxdigit c" "c \<noteq> ch CHR ''0''"
  then have "1 * 16 ^ length hs \<le> hex_value c * 16 ^ length hs" by (intro mult_right_mono hex_value_pos) simp_all
  then show ?thesis unfolding hex_number_Cons by linarith
qed

section \<open>The loops\<close>

lemma skip_zeros_eq: "0 \<in> set z \<Longrightarrow> skip_zeros z = Ok (dropWhile (\<lambda>c. c = ch CHR ''0'') z)"
  by (induction z) auto

text \<open>A text that a zero byte ends: every class that does not contain the zero byte ends before it.\<close>

lemma stop_before_nul: "0 \<in> set z \<Longrightarrow> \<not> P 0 \<Longrightarrow> dropWhile P z \<noteq> [] \<and> 0 \<in> set (dropWhile P z)"
  by (induction z) auto

lemma split_zeros:
  assumes "P (ch CHR ''0'')"
  defines "z' z \<equiv> dropWhile (\<lambda>c. c = ch CHR ''0'') z"
  shows "takeWhile P z = takeWhile (\<lambda>c. c = ch CHR ''0'') z @ takeWhile P (z' z)"
    and "dropWhile P z = dropWhile P (z' z)"
  using assms(1) unfolding z'_def by (induction z) auto

lemma head_after_zeros: "takeWhile P (dropWhile (\<lambda>c. c = a) z) = e # es \<Longrightarrow> e \<noteq> a"
  by (induction z) (auto split: if_splits)

lemma hex_number_zeros: "\<forall>c \<in> set zs. c = ch CHR ''0'' \<Longrightarrow> hex_number (zs @ hs) = hex_number hs"
  by (induction zs) (auto simp: hex_number_Cons hex_value_def)

lemma dec_digits_eq:
  "0 \<in> set z \<Longrightarrow> dec_digits k z i v =
     (let ds = take k (takeWhile decimal_char z) in
      Ok (i + length ds, foldl (\<lambda>v c. v * 10 + (int (unat c) - 48)) v ds))"
proof (induction k z i v rule: dec_digits.induct)
  case (2 k z i v)
  then obtain c cs where z: "z = c # cs" by (cases z) auto
  show ?case
  proof (cases "decimal_char c")
    case True
    then have "c \<noteq> 0" by (auto simp: decimal_char_iff)
    with 2 True show ?thesis by (simp add: z Let_def)
  next
    case False
    then show ?thesis by (simp add: z)
  qed
qed simp

lemma foldl_dec_value:
  "\<forall>c \<in> set ds. decimal_char c \<Longrightarrow>
     foldl (\<lambda>v c. v * 10 + (int (unat c) - 48)) 0 ds = int (dec_value ds)"
proof (induction ds rule: rev_induct)
  case (snoc c ds)
  then have "48 \<le> unat c" by (simp add: decimal_char_iff)
  then have "int (unat c - 48) = int (unat c) - 48" by (simp add: of_nat_diff)
  with snoc show ?case by simp
qed simp

lemma hex_step:
  "sqlite3Isxdigit c \<Longrightarrow> word_of_nat m * 16 + ucast (word_of_nat (hex_value c) :: 8 word) =
     (word_of_nat (m * 16 + hex_value c) :: 'a::len word)"
  using xdigit_value [of c] by (simp add: unsigned_of_nat take_bit_nat_eq_self)

lemma hex_digits32_eq:
  "0 \<in> set z \<Longrightarrow> hex_digits32 k z (word_of_nat m) =
     (let hs = take k (takeWhile sqlite3Isxdigit z) in
      Ok (drop (length hs) z, word_of_nat (foldl (\<lambda>u c. u * 16 + hex_value c) m hs)))"
proof (induction k arbitrary: z m)
  case (Suc k)
  then obtain c cs where z: "z = c # cs" by (cases z) auto
  show ?case
  proof (cases "sqlite3Isxdigit c")
    case True
    then have "c \<noteq> 0" by auto
    with True Suc.IH [of cs "m * 16 + hex_value c"] Suc.prems xdigit_value [OF True]
    show ?thesis by (simp add: z Let_def hex_step del: of_nat_add of_nat_mult)
  next
    case False
    then show ?thesis by (simp add: z Let_def)
  qed
qed (simp add: Let_def)

lemma hex_digits64_eq:
  "0 \<in> set z \<Longrightarrow> hex_digits64 z k (word_of_nat m) =
     (let hs = takeWhile sqlite3Isxdigit z in
      Ok (dropWhile sqlite3Isxdigit z, k + length hs, word_of_nat (foldl (\<lambda>u c. u * 16 + hex_value c) m hs)))"
proof (induction z arbitrary: k m)
  case (Cons c z)
  show ?case
  proof (cases "sqlite3Isxdigit c")
    case True
    then have "c \<noteq> 0" by auto
    with True \<open>c \<noteq> 0\<close> Cons.IH [of "k + 1" "m * 16 + hex_value c"] Cons.prems xdigit_value [OF True] show ?thesis
      by (simp add: Let_def hex_step del: of_nat_add of_nat_mult)
  next
    case False
    then show ?thesis by (simp add: Let_def)
  qed
qed simp


section \<open>What the functions compute\<close>

text \<open>
  An integer of 32 bits: a sign and decimal digits, or \<open>0x\<close> and hexadecimal digits; whatever follows
  is ignored.
\<close>

definition int32_value :: "8 word list \<Rightarrow> int option" where
  "int32_value z =
     (let c = hd z;
          hs = takeWhile sqlite3Isxdigit (drop 2 z);
          ds = takeWhile decimal_char (if c = ch CHR ''-'' \<or> c = ch CHR ''+'' then tl z else z);
          v = (if c = ch CHR ''0'' \<and> z ! 1 \<in> {ch CHR ''x'', ch CHR ''X''} \<and> hs \<noteq> [] then int (hex_number hs)
               else if c = ch CHR ''-'' then - int (dec_value ds) else int (dec_value ds))
      in if ds \<noteq> [] \<and> - (2 ^ 31) \<le> v \<and> v < 2 ^ 31 then Some v else None)"

lemma int32_decimal_eq:
  assumes "0 \<in> set z"
  shows "int32_decimal neg z =
    Ok (let ds = takeWhile decimal_char z; v = (if neg then - int (dec_value ds) else int (dec_value ds))
        in if ds \<noteq> [] \<and> - (2 ^ 31) \<le> v \<and> v < 2 ^ 31 then Some v else None)"
proof -
  define ds where "ds = takeWhile decimal_char z"
  define z' where "z' = dropWhile (\<lambda>c. c = ch CHR ''0'') z"
  define ds' where "ds' = takeWhile decimal_char z'"
  obtain c cs where z: "z = c # cs" using assms by (cases z) auto
  have d: "sqlite3Isdigit c \<longleftrightarrow> ds \<noteq> []" by (simp add: isdigit_iff ds_def z)
  have "decimal_char (ch CHR ''0'')" by (simp add: decimal_char_iff)
  then have "ds = takeWhile (\<lambda>c. c = ch CHR ''0'') z @ ds'"
    using split_zeros(1) [of decimal_char z] by (simp add: ds_def ds'_def z'_def)
  then have val: "dec_value ds = dec_value ds'"
    using dec_value_zero [of "takeWhile (\<lambda>c. c = ch CHR ''0'') z"]
    by (auto simp: dec_value_append dest: set_takeWhileD)
  have z': "0 \<in> set z'" using stop_before_nul [OF assms, of "\<lambda>c. c = ch CHR ''0''"] by (simp add: z'_def)
  have digits: "\<forall>c \<in> set ds'. decimal_char c" by (auto simp: ds'_def dest: set_takeWhileD)
  have taken: "dec_digits 11 z' 0 0 = Ok (min 11 (length ds'), int (dec_value (take 11 ds')))"
    using foldl_dec_value [of "take 11 ds'"] digits dec_digits_eq [OF z', of 11 0 0]
    by (auto simp: Let_def ds'_def [symmetric] min.commute dest: in_set_takeD)
  have run: "int32_decimal neg z =
     (if ds = [] then Ok None
      else if 10 < min 11 (length ds') then Ok None
      else if 2147483647 < int (dec_value (take 11 ds')) - (if neg then 1 else 0) then Ok None
      else Ok (Some (if neg then - int (dec_value (take 11 ds')) else int (dec_value (take 11 ds')))))"
  proof -
    have "vec_idx z 0 = Ok c" "skip_zeros z = Ok z'" by (simp add: z) (simp add: skip_zeros_eq [OF assms] z'_def)
    then show ?thesis using taken d unfolding int32_decimal_def by simp
  qed
  show ?thesis
  proof (cases "length ds' \<le> 10")
    case True
    then show ?thesis unfolding run ds_def [symmetric] val Let_def by auto
  next
    case False
    then obtain e es where e: "ds' = e # es" by (cases ds') auto
    have "e \<noteq> ch CHR ''0''"
      using e unfolding ds'_def z'_def by (rule head_after_zeros)
    with e digits have "10 ^ length es \<le> dec_value ds'" using dec_value_ge [of e es] by simp
    moreover have "(10 :: nat) ^ 10 \<le> 10 ^ length es" using False by (intro power_increasing) (simp_all add: e)
    ultimately have "2 ^ 31 < int (dec_value ds')" by simp
    then show ?thesis using False unfolding run ds_def [symmetric] val Let_def by auto
  qed
qed

lemma top_bit: "m < 2 ^ 32 \<Longrightarrow> word_of_nat m AND (2147483648 :: 32 word) = 0 \<longleftrightarrow> m < 2 ^ 31"
proof -
  assume m: "m < 2 ^ 32"
  then have u: "unat (word_of_nat m :: 32 word) = m" by (simp add: unsigned_of_nat take_bit_nat_eq_self)
  have "bit (unat (word_of_nat m :: 32 word)) 31 \<longleftrightarrow> bit (word_of_nat m :: 32 word) 31"
    by (simp only: bit_unsigned_iff) simp
  then have bits: "bit (word_of_nat m :: 32 word) 31 \<longleftrightarrow> bit m 31" unfolding u by simp
  have "word_of_nat m AND (2147483648 :: 32 word) = 0 \<longleftrightarrow> \<not> bit (word_of_nat m :: 32 word) 31"
    using and_exp_eq_0_iff_not_bit [of "word_of_nat m :: 32 word" 31] by simp
  also have "\<dots> \<longleftrightarrow> even (m div 2 ^ 31)" unfolding bits by (simp only: bit_iff_odd not_not)
  also have "\<dots> \<longleftrightarrow> m < 2 ^ 31"
  proof (cases "m < 2 ^ 31")
    case False
    with m have "m div 2 ^ 31 = 1" by (intro div_nat_eqI) simp_all
    with False show ?thesis by simp
  qed simp
  finally show ?thesis .
qed

lemma int32_hex_eq:
  assumes "0 \<in> set z"
  shows "int32_hex z = Ok (let v = int (hex_number (takeWhile sqlite3Isxdigit z)) in if v < 2 ^ 31 then Some v else None)"
proof -
  define z' where "z' = dropWhile (\<lambda>c. c = ch CHR ''0'') z"
  define hs where "hs = takeWhile sqlite3Isxdigit z'"
  have "sqlite3Isxdigit (ch CHR ''0'')"
    by (simp add: sqlite3Isxdigit_def ctype_def sqlite3CtypeMap_0_entries)
  then have "takeWhile sqlite3Isxdigit z = takeWhile (\<lambda>c. c = ch CHR ''0'') z @ hs"
    using split_zeros(1) [of sqlite3Isxdigit z] by (simp add: hs_def z'_def)
  then have val: "hex_number (takeWhile sqlite3Isxdigit z) = hex_number hs"
    using hex_number_zeros [of "takeWhile (\<lambda>c. c = ch CHR ''0'') z" hs] by (auto dest: set_takeWhileD)
  have z': "0 \<in> set z'" using stop_before_nul [OF assms, of "\<lambda>c. c = ch CHR ''0''"] by (simp add: z'_def)
  have digits: "\<forall>c \<in> set hs. sqlite3Isxdigit c" by (auto simp: hs_def dest: set_takeWhileD)
  have taken: "hex_digits32 8 z' 0 = Ok (drop (min 8 (length hs)) z', word_of_nat (hex_number (take 8 hs)))"
    using hex_digits32_eq [OF z', of 8 0] by (simp add: Let_def hs_def [symmetric] hex_number_def min.commute)
  have top: "word_of_nat m AND (0x80000000 :: 32 word) = 0 \<longleftrightarrow> m < 2 ^ 31" if "m < 2 ^ 32" for m
    using top_bit [OF that] by simp
  have rest: "0 \<in> set (drop (min 8 (length hs)) z')"
  proof -
    have "z' = hs @ dropWhile sqlite3Isxdigit z'" by (simp add: hs_def)
    then have "drop (min 8 (length hs)) z' = drop (min 8 (length hs)) hs @ dropWhile sqlite3Isxdigit z'"
      by (metis append_eq_conv_conj drop_append diff_is_0_eq' drop0 min.cobounded2)
    then show ?thesis using stop_before_nul [OF z', of sqlite3Isxdigit] by simp
  qed
  then obtain c cs where c: "drop (min 8 (length hs)) z' = c # cs" by (cases "drop (min 8 (length hs)) z'") auto
  have run: "int32_hex z =
     (let u = word_of_nat (hex_number (take 8 hs)) :: 32 word in
      Ok (if u AND 0x80000000 = 0 \<and> \<not> sqlite3Isxdigit c then Some (sint u) else None))"
  proof -
    have "skip_zeros z = Ok z'" by (simp add: skip_zeros_eq [OF assms] z'_def)
    then show ?thesis using taken c unfolding int32_hex_def by (simp add: Let_def)
  qed
  show ?thesis
  proof (cases "length hs \<le> 8")
    case True
    have "(16 :: nat) ^ length hs \<le> 16 ^ 8" using True by (intro power_increasing) simp_all
    with hex_number_less [OF digits] have h: "hex_number hs < 2 ^ 32" by simp
    have "dropWhile sqlite3Isxdigit z' = c # cs"
      using c True by (simp add: hs_def dropWhile_eq_drop min_def split: if_splits)
    then have "\<not> sqlite3Isxdigit c" by (metis hd_dropWhile list.distinct(1) list.sel(1))
    moreover have "sint (word_of_nat (hex_number hs) :: 32 word) = int (hex_number hs)" if "hex_number hs < 2 ^ 31"
      using that by (simp add: signed_of_nat signed_take_bit_int_eq_self)
    ultimately show ?thesis
      unfolding run val using True top [OF h] by (simp add: Let_def)
  next
    case False
    then obtain e es where e: "hs = e # es" by (cases hs) auto
    have "e \<noteq> ch CHR ''0''"
      using e unfolding hs_def z'_def by (rule head_after_zeros)
    with e digits have "16 ^ length es \<le> hex_number hs" using hex_number_ge [of e es] by simp
    moreover have "(16 :: nat) ^ 8 \<le> 16 ^ length es" using False by (intro power_increasing) (simp_all add: e)
    ultimately have "2 ^ 31 < int (hex_number hs)" by simp
    moreover have "sqlite3Isxdigit c"
    proof -
      have "c = z' ! 8" "8 < length hs" using c False by (simp_all add: min_def) (metis hd_drop_conv_nth list.sel(1) drop_eq_Nil linorder_not_less list.distinct(1))
      then have "c = hs ! 8" by (simp add: hs_def takeWhile_nth)
      with digits \<open>8 < length hs\<close> show ?thesis by simp
    qed
    ultimately show ?thesis unfolding run val by (simp add: Let_def)
  qed
qed


lemma get_int32_eq:
  assumes "0 \<in> set z"
  shows "sqlite3GetInt32 z = Ok (int32_value z)"
proof -
  obtain c cs where z: "z = c # cs" using assms by (cases z) auto
  show ?thesis
  proof (cases "c = ch CHR ''-'' \<or> c = ch CHR ''+''")
    case True
    then have "0 \<in> set cs" using assms by (auto simp: z)
    with True show ?thesis
      by (auto simp: sqlite3GetInt32_def int32_decimal_eq int32_value_def z Let_def)
  next
    case False
    define hex where "hex \<longleftrightarrow> c = ch CHR ''0'' \<and> z ! 1 \<in> {ch CHR ''x'', ch CHR ''X''} \<and>
      takeWhile sqlite3Isxdigit (drop 2 z) \<noteq> []"
    show ?thesis
    proof (cases "c = ch CHR ''0'' \<and> z ! 1 \<in> {ch CHR ''x'', ch CHR ''X''}")
      case True
      then obtain d e where cs: "cs = d # e" "d \<in> {ch CHR ''x'', ch CHR ''X''}" "0 \<in> set e"
        using assms by (cases cs) (auto simp: z)
      then obtain f g where e: "e = f # g" by (cases e) auto
      have "decimal_char (ch CHR ''0'')" by (simp add: decimal_char_iff)
      then have ds: "takeWhile decimal_char z \<noteq> []" using True by (simp add: z)
      show ?thesis
        using True False cs e ds int32_hex_eq [OF cs(3)] int32_decimal_eq [OF assms, of False]
        by (auto simp: sqlite3GetInt32_def hex_prefix_def int32_value_def Let_def z)
    next
      case F: False
      then have hp: "hex_prefix z = Ok False"
      proof (cases "c = ch CHR ''0''")
        case True
        then obtain d e where "cs = d # e" using assms by (cases cs) (auto simp: z)
        with F True show ?thesis by (auto simp: hex_prefix_def z)
      qed (simp add: hex_prefix_def z)
      show ?thesis
        using hp F False int32_decimal_eq [OF assms, of False]
        by (auto simp: sqlite3GetInt32_def int32_value_def Let_def z)
    qed
  qed
qed

lemma foldl_ge: "m \<le> foldl (\<lambda>u c. u * 10 + (unat c - 48)) m (ds :: 8 word list)"
proof (induction ds arbitrary: m)
  case (Cons c ds)
  have "m \<le> m * 10 + (unat c - 48)" by simp
  also have "\<dots> \<le> foldl (\<lambda>u c. u * 10 + (unat c - 48)) (m * 10 + (unat c - 48)) ds" by (rule Cons.IH)
  finally show ?case by simp
qed simp

lemma ucast_small: "m \<le> 2 ^ 32 \<Longrightarrow> ucast (word_of_nat m :: 64 word) = (word_of_nat m :: 32 word)"
  by (rule word_unat_eq_iff [THEN iffD2]) (simp add: unsigned_of_nat unsigned_ucast_eq take_bit_nat_eq_self)

lemma uint32_digits_eq:
  assumes "0 \<in> set z" and "m \<le> 2 ^ 32"
  shows "uint32_digits z i (word_of_nat m) =
    Ok (let ds = takeWhile decimal_char z; v = foldl (\<lambda>u c. u * 10 + (unat c - 48)) m ds
        in if i + length ds \<noteq> 0 \<and> hd (dropWhile decimal_char z) = 0 \<and> v \<le> 2 ^ 32 then (1, word_of_nat v) else (0, 0))"
  using assms
proof (induction z arbitrary: i m)
  case (Cons c z)
  show ?case
  proof (cases "decimal_char c")
    case True
    define m' where "m' = m * 10 + (unat c - 48)"
    have "c \<noteq> 0" using True by (auto simp: decimal_char_iff)
    have step: "(word_of_nat m * 10 + ucast c - ucast (ch CHR ''0'') :: 64 word) = word_of_nat m'"
      using digit_step_of_nat [OF True, of m] by (simp only: digit_step_def m'_def)
    have "unat c - 48 \<le> 9" using True by (auto simp: decimal_char_iff)
    with Cons.prems(2) have "m' \<le> 42949672969" unfolding m'_def by simp
    then have "m' < 2 ^ 64" by simp
    then have big: "4294967296 < (word_of_nat m' :: 64 word) \<longleftrightarrow> 2 ^ 32 < m'"
      by (simp add: word_less_nat_alt unsigned_of_nat take_bit_nat_eq_self)
    have run: "uint32_digits (c # z) i (word_of_nat m) =
      (if 2 ^ 32 < m' then Ok (0, 0) else uint32_digits z (i + 1) (word_of_nat m'))"
      unfolding uint32_digits.simps isdigit_iff Let_def step big using True by simp
    have ge: "m' \<le> foldl (\<lambda>u c. u * 10 + (unat c - 48)) m' (takeWhile decimal_char z)" by (rule foldl_ge)
    show ?thesis
      unfolding run using True Cons.IH [of m' "i + 1"] Cons.prems \<open>c \<noteq> 0\<close> ge
      by (auto simp: Let_def m'_def [symmetric])
  next
    case False
    then have "uint32_digits (c # z) i (word_of_nat m) = (if i = 0 \<or> c \<noteq> 0 then Ok (0, 0) else Ok (1, word_of_nat m))"
      using Cons.prems(2) ucast_small [of m] by (simp add: isdigit_iff)
    with False Cons.prems(2) show ?thesis by (simp add: Let_def)
  qed
qed simp


text \<open>
  \<open>sqlite3GetInt32\<close> reads a 32-bit integer from every text that a zero byte ends, without
  reading behind it: a sign and decimal digits or \<open>0x\<close> and hexadecimal digits, of any number, and
  accepts it exactly when the value fits in 32 bits (hexadecimal: when it is not negative);
  \<open>sqlite3Atoi\<close> gives 0 for the others.
\<close>

theorem int32_reader:
  assumes "0 \<in> set z"
  shows "sqlite3GetInt32 z = Ok (int32_value z) \<and>
    sqlite3Atoi z = Ok (case int32_value z of Some v \<Rightarrow> v | None \<Rightarrow> 0)"
  by (simp add: get_int32_eq [OF assms] sqlite3Atoi_def)

lemma int32_reader_witness:
  "sqlite3GetInt32 (text_bytes ''-2147483648'' @ [0]) = Ok (Some (-2147483648)) \<and>
   sqlite3GetInt32 (text_bytes ''2147483648'' @ [0]) = Ok None"
proof -
  have "int32_value (text_bytes ''-2147483648'' @ [0]) = Some (-2147483648)"
    "int32_value (text_bytes ''2147483648'' @ [0]) = None"
    by (simp_all add: int32_value_def text_bytes_def decimal_char_iff dec_value_def Let_def)
  then show ?thesis
    using int32_reader [of "text_bytes ''-2147483648'' @ [0]"] int32_reader [of "text_bytes ''2147483648'' @ [0]"]
    by simp
qed

text \<open>
  \<open>sqlite3GetUInt32\<close> accepts a text that consists of decimal digits whose value is at most
  \<open>2^32\<close>, and returns the value in 32 bits: the text \<open>4294967296\<close> is accepted and gives 0.
\<close>

theorem uint32_reader:
  assumes "0 \<in> set z"
  shows "sqlite3GetUInt32 z =
    Ok (let ds = takeWhile decimal_char z in
        if ds \<noteq> [] \<and> hd (dropWhile decimal_char z) = 0 \<and> dec_value ds \<le> 2 ^ 32
        then (1, word_of_nat (dec_value ds)) else (0, 0))"
  using uint32_digits_eq [OF assms, of 0 0] by (simp add: sqlite3GetUInt32_def Let_def dec_value_def)

lemma uint32_reader_witness:
  "sqlite3GetUInt32 (text_bytes ''4294967296'' @ [0]) = Ok (1, 0)"
  using uint32_reader [of "text_bytes ''4294967296'' @ [0]"]
  by (simp add: text_bytes_def decimal_char_iff dec_value_def Let_def)

text \<open>A literal in decimal is read by \<open>sqlite3Atoi64\<close>; in hexadecimal the digits fill the 64 bits.\<close>

lemma hex_size:
  assumes "takeWhile sqlite3Isxdigit (dropWhile (\<lambda>c. c = ch CHR ''0'') z) = hs"
  shows "16 < length hs \<longleftrightarrow> 2 ^ 64 \<le> hex_number hs"
proof
  have digits: "\<forall>c \<in> set hs. sqlite3Isxdigit c" using assms by (auto dest: set_takeWhileD)
  assume l: "16 < length hs"
  then obtain e es where e: "hs = e # es" by (cases hs) auto
  with assms have "e \<noteq> ch CHR ''0''" by (metis head_after_zeros)
  with e digits have "16 ^ length es \<le> hex_number hs" using hex_number_ge [of e es] by simp
  moreover have "(16 :: nat) ^ 16 \<le> 16 ^ length es" using l by (intro power_increasing) (simp_all add: e)
  ultimately show "2 ^ 64 \<le> hex_number hs" by simp
next
  have digits: "\<forall>c \<in> set hs. sqlite3Isxdigit c" using assms by (auto dest: set_takeWhileD)
  assume h: "2 ^ 64 \<le> hex_number hs"
  show "16 < length hs"
  proof (rule ccontr)
    assume "\<not> 16 < length hs"
    then have "(16 :: nat) ^ length hs \<le> 16 ^ 16" by (intro power_increasing) simp_all
    with hex_number_less [OF digits] h show False by simp
  qed
qed

lemma dec_or_hex_eq:
  assumes t: "terminated z m" and "m < 2 ^ 30"
  shows "sqlite3DecOrHexToI64 z =
    (if z ! 0 = ch CHR ''0'' \<and> z ! 1 \<in> {ch CHR ''x'', ch CHR ''X''} then
       let hs = takeWhile sqlite3Isxdigit (drop 2 z); h = hex_number hs in
       Ok (if 2 ^ 64 \<le> h then 2 else if hd (dropWhile sqlite3Isxdigit (drop 2 z)) \<noteq> 0 then 1 else 0,
           sint (word_of_nat h :: 64 word))
     else Ok (atoi_value False (take m z)))"
proof (cases "z ! 0 = ch CHR ''0'' \<and> z ! 1 \<in> {ch CHR ''x'', ch CHR ''X''}")
  case True
  have "m = 0 \<Longrightarrow> False" "m = 1 \<Longrightarrow> False" using t True by (auto simp: terminated_def)
  then have "m \<noteq> 0" "m \<noteq> 1" by blast+
  then have m: "2 \<le> m" by simp
  define y where "y = drop 2 z"
  have "m - 2 < length y" "y ! (m - 2) = 0" using terminated_drop [OF t m] unfolding terminated_def y_def by blast+
  then have y: "0 \<in> set y" by (metis nth_mem)
  have "hex_prefix z = Ok True"
    using True m t terminated_read [OF t, of 0] terminated_read [OF t, of 1] by (simp add: hex_prefix_def)
  define y' where "y' = dropWhile (\<lambda>c. c = ch CHR ''0'') y"
  define hs where "hs = takeWhile sqlite3Isxdigit y'"
  have y': "0 \<in> set y'" using stop_before_nul [OF y, of "\<lambda>c. c = ch CHR ''0''"] by (simp add: y'_def)
  have x0: "sqlite3Isxdigit (ch CHR ''0'')"
    by (simp add: sqlite3Isxdigit_def ctype_def sqlite3CtypeMap_0_entries)
  have "takeWhile sqlite3Isxdigit y = takeWhile (\<lambda>c. c = ch CHR ''0'') y @ hs"
    and rest: "dropWhile sqlite3Isxdigit y = dropWhile sqlite3Isxdigit y'"
    using split_zeros [of sqlite3Isxdigit y, OF x0] by (simp_all add: hs_def y'_def)
  then have val: "hex_number (takeWhile sqlite3Isxdigit y) = hex_number hs"
    using hex_number_zeros [of "takeWhile (\<lambda>c. c = ch CHR ''0'') y" hs] by (auto dest: set_takeWhileD)
  have digits: "hex_digits64 y' 0 0 = Ok (dropWhile sqlite3Isxdigit y', length hs, word_of_nat (hex_number hs))"
    using hex_digits64_eq [OF y', of 0 0] by (simp add: Let_def hs_def hex_number_def)
  have "dropWhile sqlite3Isxdigit y' \<noteq> []" using stop_before_nul [OF y', of sqlite3Isxdigit] by simp
  then have c: "vec_idx (dropWhile sqlite3Isxdigit y') 0 = Ok (hd (dropWhile sqlite3Isxdigit y'))"
    by (simp add: hd_conv_nth)
  have sz: "16 < length hs \<longleftrightarrow> 2 ^ 64 \<le> hex_number hs" by (rule hex_size) (simp add: hs_def y'_def)
  have "sqlite3DecOrHexToI64 z =
      Ok (if 16 < length hs then 2 else if hd (dropWhile sqlite3Isxdigit y') \<noteq> 0 then 1 else 0,
        sint (word_of_nat (hex_number hs) :: 64 word))"
    using \<open>hex_prefix z = Ok True\<close> skip_zeros_eq [OF y, folded y'_def] digits c
    by (simp add: sqlite3DecOrHexToI64_def flip: y_def)
  then show ?thesis unfolding if_P [OF True] Let_def y_def [symmetric] val rest sz .
next
  case False
  have "hex_prefix z = Ok False"
  proof (cases "z ! 0 = ch CHR ''0''")
    case True
    then have "m = 0 \<Longrightarrow> False" using t by (auto simp: terminated_def)
    then have "m \<noteq> 0" by blast
    with True False terminated_read [OF t, of 0] terminated_read [OF t, of 1] show ?thesis
      by (auto simp: hex_prefix_def)
  next
    case False
    with terminated_read [OF t, of 0] show ?thesis by (simp add: hex_prefix_def)
  qed
  moreover have "sqlite3Strlen30 z = Ok m"
  proof -
    obtain j where j: "scan_while (\<lambda>c. c \<noteq> 0) z 0 = Ok j" "j \<le> m" "z ! j = 0"
      using scan_while_ok [OF t, of 0 "\<lambda>c. c \<noteq> 0"] by auto
    with t have "j = m" by (auto simp: terminated_def order.order_iff_strict)
    moreover have "0x3FFFFFFF AND m = m"
    proof -
      have "(0x3FFFFFFF :: nat) = mask 30" by (simp add: mask_eq_exp_minus_1)
      then show ?thesis using assms(2) by (simp only: and.commute [of "mask 30"] flip: take_bit_eq_mask) (simp add: take_bit_nat_eq_self)
    qed
    ultimately show ?thesis using j by (simp add: sqlite3Strlen30_def)
  qed
  moreover have "sqlite3Atoi64 z m SQLITE_UTF8 = Ok (atoi_value False (take m z))"
    using atoi64_value [of SQLITE_UTF8 m z] t by (simp add: text_chars_def terminated_def)
  ultimately show ?thesis unfolding if_not_P [OF False] by (simp add: sqlite3DecOrHexToI64_def)
qed

end
