(* ===== verification/SqBlob.thy ===== *)
theory SqBlob
  imports SqNumLit
begin

unbundle bit_operations_syntax

text \<open>
  Blobs as SQL literals: \<open>sqlite3QuoteValue\<close> and \<open>hexFunc\<close> write one as hexadecimal digits, the code
  generator's case for \<open>TK_BLOB\<close> reads it with \<open>sqlite3HexToBlob\<close>. What \<open>quote()\<close> writes for a blob
  is one token, and its value is the blob.
\<close>

section \<open>Writing\<close>

definition hexdigits :: "8 word list" where
  "hexdigits = text_bytes ''0123456789ABCDEF''"

text \<open>\<open>for(i=0; i<nBlob; i++)\<close> of \<open>sqlite3QuoteValue\<close>; \<open>t\<close> is \<open>zText\<close>.\<close>

fun quote_blob_loop :: "8 word list \<Rightarrow> nat \<Rightarrow> 8 word list \<Rightarrow> 8 word list res" where
  "quote_blob_loop [] i t = Ok t"
| "quote_blob_loop (b # bs) i t =
     bind_res (vec_idx hexdigits (unat (drop_bit 4 b AND 0x0F))) (\<lambda>h.
     bind_res (vec_put t (i * 2 + 2) h) (\<lambda>t.
     bind_res (vec_idx hexdigits (unat (b AND 0x0F))) (\<lambda>l.
     bind_res (vec_put t (i * 2 + 3) l) (quote_blob_loop bs (i + 1)))))"

text \<open>
  The case \<open>SQLITE_BLOB\<close> of \<open>sqlite3QuoteValue\<close>, into an empty accumulator that has been enlarged:
  the text with its zero byte, and the number of characters.
\<close>

definition quote_blob :: "8 word list \<Rightarrow> (8 word list \<times> nat) res" where
  "quote_blob zBlob =
     (let n = length zBlob in
      bind_res (quote_blob_loop zBlob 0 (replicate (n * 2 + 4) 0)) (\<lambda>t.
      bind_res (vec_put t (n * 2 + 2) 39) (\<lambda>t.
      bind_res (vec_put t (n * 2 + 3) 0) (\<lambda>t.
      bind_res (vec_put t 0 (ch CHR ''X'')) (\<lambda>t.
      bind_res (vec_put t 1 39) (\<lambda>t. Ok (t, n * 2 + 3)))))))"

text \<open>\<open>hexFunc\<close>: \<open>z\<close> moves through the buffer of \<open>2 * n + 1\<close> bytes.\<close>

fun hex_loop :: "8 word list \<Rightarrow> nat \<Rightarrow> 8 word list \<Rightarrow> (nat \<times> 8 word list) res" where
  "hex_loop [] z t = Ok (z, t)"
| "hex_loop (c # pBlob) z t =
     bind_res (vec_idx hexdigits (unat (drop_bit 4 c AND 0xF))) (\<lambda>h.
     bind_res (vec_put t z h) (\<lambda>t.
     bind_res (vec_idx hexdigits (unat (c AND 0xF))) (\<lambda>l.
     bind_res (vec_put t (z + 1) l) (hex_loop pBlob (z + 2)))))"

definition hexFunc :: "8 word list \<Rightarrow> (8 word list \<times> nat) res" where
  "hexFunc pBlob =
     bind_res (hex_loop pBlob 0 (replicate (length pBlob * 2 + 1) 0)) (\<lambda>(z, t).
       map_res (\<lambda>t. (t, length pBlob * 2)) (vec_put t z 0))"

section \<open>Reading\<close>

text \<open>\<open>for(i=0; i<n; i+=2)\<close>.\<close>

function hex_to_blob_loop :: "8 word list \<Rightarrow> nat \<Rightarrow> nat \<Rightarrow> 8 word list \<Rightarrow> (nat \<times> 8 word list) res" where
  "hex_to_blob_loop z n i zBlob =
     (if i < n then
        bind_res (vec_idx z i) (\<lambda>c. bind_res (sqlite3HexToInt c) (\<lambda>h.
        bind_res (vec_idx z (i + 1)) (\<lambda>c. bind_res (sqlite3HexToInt c) (\<lambda>l.
        bind_res (vec_put zBlob (i div 2) (push_bit 4 h OR l)) (hex_to_blob_loop z n (i + 2))))))
      else Ok (i, zBlob))"
  by auto
termination
  by (relation "measure (\<lambda>(z, n, i, zBlob). n - i)") auto

declare hex_to_blob_loop.simps [simp del]

definition sqlite3HexToBlob :: "8 word list \<Rightarrow> nat \<Rightarrow> 8 word list res" where
  "sqlite3HexToBlob z n =
     bind_res (hex_to_blob_loop z (n - 1) 0 (replicate (n div 2 + 1) 0)) (\<lambda>(i, zBlob).
       vec_put zBlob (i div 2) 0)"

text \<open>The case \<open>TK_BLOB\<close> of \<open>sqlite3ExprCodeTarget\<close>: the operand of \<open>OP_Blob\<close>, its first \<open>n/2\<close> bytes.\<close>

definition code_blob_literal :: "8 word list \<Rightarrow> 8 word list res" where
  "code_blob_literal zToken =
     bind_res (vec_idx zToken 0) (\<lambda>c. if c \<noteq> ch CHR ''x'' \<and> c \<noteq> ch CHR ''X'' then Undef else
     bind_res (vec_idx zToken 1) (\<lambda>c. if c \<noteq> 39 then Undef else
     let z = drop 2 zToken in
     bind_res (sqlite3Strlen30 z) (\<lambda>len. if len = 0 then Undef else
     let n = len - 1 in
     bind_res (vec_idx z n) (\<lambda>c. if c \<noteq> 39 then Undef else
     map_res (take (n div 2)) (sqlite3HexToBlob z n)))))"

section \<open>The digits of a byte\<close>

definition hex_pair :: "8 word \<Rightarrow> 8 word list" where
  "hex_pair b = [hexdigits ! unat (drop_bit 4 b AND 0xF), hexdigits ! unat (b AND 0xF)]"

definition hex_text :: "8 word list \<Rightarrow> 8 word list" where
  "hex_text bs = concat (map hex_pair bs)"

lemma hex_text_simps [simp]:
  "hex_text [] = []" "hex_text (b # bs) = hexdigits ! unat (drop_bit 4 b AND 0xF) # hexdigits ! unat (b AND 0xF) # hex_text bs"
  by (simp_all add: hex_text_def hex_pair_def)

lemma length_hex_text [simp]: "length (hex_text bs) = 2 * length bs"
  by (induction bs) auto

lemma length_hexdigits: "length hexdigits = 16"
  by (simp add: hexdigits_def)

lemma and_F: "w AND 0xF = take_bit 4 (w :: 8 word)"
  by (simp add: take_bit_eq_mask mask_eq_exp_minus_1)

lemma nibble_less: "unat (b AND 0xF) < 16" "unat (drop_bit 4 b AND 0xF) < (16 :: nat)" for b :: "8 word"
  unfolding and_F by (simp_all add: unsigned_take_bit_eq take_bit_nat_less_exp [of 4, simplified])

lemma digit_of_nibble:
  assumes "k < 16"
  shows "sqlite3Isxdigit (hexdigits ! k) \<and> sqlite3HexToInt (hexdigits ! k) = Ok (word_of_nat k) \<and> hexdigits ! k \<notin> {0, 39}"
proof -
  have "list_all (\<lambda>k. sqlite3Isxdigit (hexdigits ! k) \<and> sqlite3HexToInt (hexdigits ! k) = Ok (word_of_nat k) \<and>
      hexdigits ! k \<noteq> 0 \<and> hexdigits ! k \<noteq> 39) [0..<16]"
    by (simp add: upt_from_0 hexdigits_def text_bytes_def sqlite3Isxdigit_def ctype_def sqlite3CtypeMap_entries sqlite3HexToInt_def)
  then show ?thesis using assms by (simp add: list_all_iff)
qed

lemma nibbles: "push_bit 4 (word_of_nat (unat (drop_bit 4 b AND 0xF))) OR word_of_nat (unat (b AND 0xF)) = (b :: 8 word)"
  unfolding and_F by (simp, rule bit_word_eqI) (auto simp: bit_simps)


section \<open>The texts\<close>

lemma put_middle: "length xs = i \<Longrightarrow> vec_put (xs @ y # ys) i z = Ok (xs @ z # ys)"
  by (simp add: vec_put_def list_update_append)

lemma quote_blob_loop_eq:
  "length pre = i * 2 + 2 \<Longrightarrow> quote_blob_loop bs i (pre @ replicate (2 * length bs) 0 @ suf) = Ok (pre @ hex_text bs @ suf)"
proof (induction bs arbitrary: pre i)
  case (Cons b bs)
  let ?h = "hexdigits ! unat (drop_bit 4 b AND 0xF)" and ?l = "hexdigits ! unat (b AND 0xF)"
  have "replicate (2 * length (b # bs)) (0 :: 8 word) = 0 # 0 # replicate (2 * length bs) 0" by simp
  then have "quote_blob_loop (b # bs) i (pre @ replicate (2 * length (b # bs)) 0 @ suf) =
      quote_blob_loop bs (i + 1) ((pre @ [?h, ?l]) @ replicate (2 * length bs) 0 @ suf)"
    using Cons.prems nibble_less [of b] by (simp add: length_hexdigits vec_put_def list_update_append)
  with Cons.IH [of "pre @ [?h, ?l]" "i + 1"] Cons.prems show ?case by simp
qed simp

lemma quote_blob_eq: "quote_blob bs = Ok (ch CHR ''X'' # 39 # hex_text bs @ [39, 0], 2 * length bs + 3)"
proof -
  have n: "length bs * 2 + 4 = 2 + (2 * length bs + 2)" by simp
  have "replicate (length bs * 2 + 4) (0 :: 8 word) = [0, 0] @ replicate (2 * length bs) 0 @ [0, 0]"
    unfolding n replicate_add by (simp only: numeral_2_eq_2 replicate.simps)
  then have "quote_blob_loop bs 0 (replicate (length bs * 2 + 4) 0) = Ok ([0, 0] @ hex_text bs @ [0, 0])"
    by (simp only:) (rule quote_blob_loop_eq, simp)
  moreover have "vec_put ([0, 0] @ hex_text bs @ [0, 0]) (length bs * 2 + 2) 39 = Ok ([0, 0] @ hex_text bs @ [39, 0])"
    using put_middle [of "[0, 0] @ hex_text bs" "length bs * 2 + 2" 0 "[0]" 39] by simp
  moreover have "vec_put ([0, 0] @ hex_text bs @ [39, 0]) (length bs * 2 + 3) 0 = Ok ([0, 0] @ hex_text bs @ [39, 0])"
    using put_middle [of "[0, 0] @ hex_text bs @ [39]" "length bs * 2 + 3" 0 "[]" 0] by simp
  ultimately have "quote_blob bs = bind_res (vec_put ([0, 0] @ hex_text bs @ [39, 0]) 0 (ch CHR ''X''))
      (\<lambda>t. bind_res (vec_put t 1 39) (\<lambda>t. Ok (t, length bs * 2 + 3)))"
    unfolding quote_blob_def Let_def by (simp only: bind_res.simps)
  then show ?thesis by (simp add: vec_put_def)
qed

lemma hex_loop_eq:
  "length pre = i \<Longrightarrow> hex_loop bs i (pre @ replicate (2 * length bs) 0 @ suf) = Ok (i + 2 * length bs, pre @ hex_text bs @ suf)"
proof (induction bs arbitrary: pre i)
  case (Cons b bs)
  let ?h = "hexdigits ! unat (drop_bit 4 b AND 0xF)" and ?l = "hexdigits ! unat (b AND 0xF)"
  have "replicate (2 * length (b # bs)) (0 :: 8 word) = 0 # 0 # replicate (2 * length bs) 0" by simp
  then have "hex_loop (b # bs) i (pre @ replicate (2 * length (b # bs)) 0 @ suf) =
      hex_loop bs (i + 2) ((pre @ [?h, ?l]) @ replicate (2 * length bs) 0 @ suf)"
    using Cons.prems nibble_less [of b] by (simp add: length_hexdigits vec_put_def list_update_append)
  with Cons.IH [of "pre @ [?h, ?l]" "i + 2"] Cons.prems show ?case by simp
qed simp

lemma hexFunc_eq: "hexFunc bs = Ok (hex_text bs @ [0], 2 * length bs)"
proof -
  have n: "length bs * 2 + 1 = 2 * length bs + 1" by simp
  have "hex_loop bs 0 (replicate (length bs * 2 + 1) 0) = Ok (2 * length bs, hex_text bs @ [0])"
    unfolding n replicate_add using hex_loop_eq [of "[]" 0 bs "[0]"] by simp
  then show ?thesis
    using put_middle [of "hex_text bs" "2 * length bs" 0 "[]" 0] unfolding hexFunc_def
    by (simp only: bind_res.simps prod.case map_res.simps length_hex_text) simp
qed

lemma hex_text_chars: "c \<in> set (hex_text bs) \<Longrightarrow> sqlite3Isxdigit c \<and> c \<notin> {0, 39}"
proof (induction bs)
  case (Cons b bs)
  then show ?case using digit_of_nibble [OF nibble_less(1) [of b]] digit_of_nibble [OF nibble_less(2) [of b]] by auto
qed simp

lemma hex_to_blob_loop_eq:
  "drop i z = hex_text bs @ suf \<Longrightarrow> i = 2 * length pre \<Longrightarrow> n = i + 2 * length bs - 1 \<Longrightarrow>
     hex_to_blob_loop z n i (pre @ replicate (length bs) 0 @ t) = Ok (i + 2 * length bs, pre @ bs @ t)"
proof (induction bs arbitrary: i pre)
  case Nil
  then have "\<not> i < n" by simp
  then show ?case by (subst hex_to_blob_loop.simps) simp
next
  case (Cons b bs)
  let ?h = "hexdigits ! unat (drop_bit 4 b AND 0xF)" and ?l = "hexdigits ! unat (b AND 0xF)"
  have z: "vec_idx z i = Ok ?h" "vec_idx z (i + 1) = Ok ?l" "drop (i + 2) z = hex_text bs @ suf"
  proof -
    have d: "drop i z = ?h # ?l # hex_text bs @ suf" using Cons.prems(1) by simp
    have "2 \<le> length (drop i z)" unfolding d by simp
    then have l: "Suc i < length z" by simp
    have "z ! i = drop i z ! 0" "z ! Suc i = drop i z ! 1" using l by simp_all
    then show "vec_idx z i = Ok ?h" "vec_idx z (i + 1) = Ok ?l" using l d by simp_all
    have "drop (i + 2) z = drop 2 (drop i z)" by (simp add: add.commute)
    then show "drop (i + 2) z = hex_text bs @ suf" unfolding d by simp
  qed
  have h: "sqlite3HexToInt ?h = Ok (word_of_nat (unat (drop_bit 4 b AND 0xF)))"
    "sqlite3HexToInt ?l = Ok (word_of_nat (unat (b AND 0xF)))"
    using digit_of_nibble nibble_less by blast+
  have "hex_to_blob_loop z n i (pre @ replicate (length (b # bs)) 0 @ t) =
     hex_to_blob_loop z n (i + 2) ((pre @ [b]) @ replicate (length bs) 0 @ t)"
    using Cons.prems z h nibbles [of b]
    by (subst hex_to_blob_loop.simps) (simp add: vec_put_def list_update_append)
  with Cons.IH [of "i + 2" "pre @ [b]"] Cons.prems z(3) show ?case by simp
qed


section \<open>The literal\<close>

lemma scan_hex_text:
  assumes "\<not> P c" and "\<forall>d \<in> set s. P d"
  shows "scan_while P (pre @ s @ c # rest) (length pre) = Ok (length pre + length s)"
  using assms(2)
proof (induction s arbitrary: pre)
  case Nil
  then show ?case using assms(1) by (subst scan_while.simps) (simp add: vec_idx_def nth_append)
next
  case (Cons d s)
  then show ?case
    using Cons.IH [of "pre @ [d]"] by (subst scan_while.simps) (simp add: vec_idx_def nth_append)
qed

lemma class_of_X: "char_class (ch CHR ''X'') = CC_X"
  by (simp add: char_class_def class_defs aiClass_entries)

lemma quote_not_xdigit: "\<not> sqlite3Isxdigit 39"
  by (simp add: sqlite3Isxdigit_def ctype_def sqlite3CtypeMap_0_entries)

lemma strlen_of: "0 \<notin> set s \<Longrightarrow> length s < 2 ^ 30 \<Longrightarrow> sqlite3Strlen30 (s @ 0 # rest) = Ok (length s)"
proof -
  assume s: "0 \<notin> set s" "length s < 2 ^ 30"
  have "(0x3FFFFFFF :: nat) = mask 30" by (simp add: mask_eq_exp_minus_1)
  then have "0x3FFFFFFF AND length s = length s"
    using s(2) by (simp only: and.commute [of "mask 30"] flip: take_bit_eq_mask) (simp add: take_bit_nat_eq_self)
  moreover have "scan_while (\<lambda>c. c \<noteq> 0) ([] @ s @ 0 # rest) (length ([] :: 8 word list)) =
      Ok (length ([] :: 8 word list) + length s)"
    by (rule scan_hex_text [where P = "\<lambda>c. c \<noteq> 0"]) (use s(1) in auto)
  ultimately show ?thesis by (simp add: sqlite3Strlen30_def)
qed

lemma hex_to_blob_eq: "sqlite3HexToBlob (hex_text bs @ 39 # rest) (2 * length bs) = Ok (bs @ [0])"
proof -
  have n: "2 * length bs div 2 + 1 = length bs + 1" by simp
  have "hex_to_blob_loop (hex_text bs @ 39 # rest) (2 * length bs - 1) 0 (replicate (2 * length bs div 2 + 1) 0) =
      Ok (2 * length bs, bs @ [0])"
    unfolding n replicate_add
    using hex_to_blob_loop_eq [of 0 "hex_text bs @ 39 # rest" bs "39 # rest" "[]" "2 * length bs - 1" "[0]"] by simp
  then show ?thesis
    using put_middle [of bs "length bs" 0 "[]" 0] by (simp add: sqlite3HexToBlob_def)
qed

text \<open>
  C28: the SQL literal that \<open>quote()\<close> writes for a blob fills exactly the buffer that was provided, and
  wherever it stands in an SQL text it is one token, \<open>TK_BLOB\<close>; the value that the code generator
  takes from the token is the blob. The digits are those of \<open>hex()\<close>.
\<close>

theorem blob_literal_round_trip:
  assumes "length b < 2 ^ 28"
  shows "\<exists>t h. quote_blob b = Ok (t @ [0], length t) \<and> length t = 2 * length b + 3 \<and>
    sqlite3GetToken (t @ d # rest) = Ok (length t, TK_BLOB) \<and> code_blob_literal (t @ [0]) = Ok b \<and>
    hexFunc b = Ok (h @ [0], length h) \<and> t = ch CHR ''X'' # 39 # h @ [39]"
proof -
  let ?h = "hex_text b" and ?t = "ch CHR ''X'' # 39 # hex_text b @ [39]"
  have x: "\<forall>c \<in> set ?h. sqlite3Isxdigit c" and nz: "0 \<notin> set ?h" using hex_text_chars [of _ b] by auto
  have q: "quote_blob b = Ok (?t @ [0], length ?t)" by (simp add: quote_blob_eq)
  have "scan_while sqlite3Isxdigit ([ch CHR ''X'', 39] @ ?h @ 39 # d # rest) (length [ch CHR ''X'', 39]) =
      Ok (length [ch CHR ''X'', 39] + length ?h)"
    by (rule scan_hex_text [where P = sqlite3Isxdigit]) (use x quote_not_xdigit in auto)
  then have "scan_while sqlite3Isxdigit (?t @ d # rest) 2 = Ok (2 + length ?h)" by (simp add: numeral_2_eq_2)
  then have "token_x (?t @ d # rest) = Ok (length ?t, TK_BLOB)"
    by (simp add: token_x_def vec_idx_def nth_append)
  moreover have "sqlite3GetToken (?t @ d # rest) = token_x (?t @ d # rest)"
    using class_of_X by (simp add: sqlite3GetToken_def class_defs)
  moreover have "code_blob_literal (?t @ [0]) = Ok b"
  proof -
    have "sqlite3Strlen30 ((?h @ [39]) @ 0 # []) = Ok (length (?h @ [39]))"
      by (rule strlen_of) (use nz assms in auto)
    then show ?thesis
      using hex_to_blob_eq [of b "[0]"] by (simp add: code_blob_literal_def Let_def vec_idx_def nth_append)
  qed
  ultimately show ?thesis using q hexFunc_eq [of b] by (intro exI [of _ ?t] exI [of _ ?h]) simp
qed

lemma blob_literal_round_trip_witness:
  "\<exists>t h. quote_blob [0, 0xAB] = Ok (t @ [0], length t) \<and> length t = 7 \<and>
    sqlite3GetToken (t @ [59, 0]) = Ok (length t, TK_BLOB) \<and> code_blob_literal (t @ [0]) = Ok [0, 0xAB] \<and>
    hexFunc [0, 0xAB] = Ok (h @ [0], length h) \<and> t = ch CHR ''X'' # 39 # h @ [39]"
  using blob_literal_round_trip [of "[0, 0xAB]" 59 "[0]"] by simp

end
