(* ===== verification/SqHash.thy ===== *)
theory SqHash
  imports SqTokenSafe
begin

unbundle bit_operations_syntax

text \<open>
  The hash table of \<open>hash.c\<close>: all elements on one doubly linked list in the heap, in which the
  elements of a bucket stand together; a bucket is a count and a pointer to its first element. Keys
  are compared without regard to case. A pointer is the address of a cell of the heap, \<open>None\<close> the
  null pointer; the use of a pointer to no cell is \<open>Undef\<close>.
\<close>

section \<open>Comparison and hashing of keys\<close>

text \<open>\<open>sqlite3StrICmp\<close> and \<open>sqlite3_stricmp\<close>; the arguments are the bytes from the pointers on.\<close>

fun sqlite3StrICmp :: "8 word list \<Rightarrow> 8 word list \<Rightarrow> int res" where
  "sqlite3StrICmp (c # a) (x # b) =
     (if c = x then if c = 0 then Ok 0 else sqlite3StrICmp a b
      else
        let d = int (charMap c) - int (charMap x) in
        if d \<noteq> 0 then Ok d else sqlite3StrICmp a b)"
| "sqlite3StrICmp _ _ = Undef"

definition sqlite3_stricmp :: "8 word list option \<Rightarrow> 8 word list option \<Rightarrow> int res" where
  "sqlite3_stricmp zLeft zRight =
     (case zLeft of
        None \<Rightarrow> Ok (if zRight = None then 0 else -1)
      | Some l \<Rightarrow> (case zRight of None \<Rightarrow> Ok 1 | Some r \<Rightarrow> sqlite3StrICmp l r))"

text \<open>
  \<open>sqlite3_strnicmp\<close>: \<open>N--\<close> overflows at the smallest \<open>int\<close>; a count that is not positive ends
  the loop at once.
\<close>

fun strnicmp_loop :: "nat \<Rightarrow> 8 word list \<Rightarrow> 8 word list \<Rightarrow> int res" where
  "strnicmp_loop 0 a b = Ok 0"
| "strnicmp_loop (Suc n) (c # a) (x # b) =
     (if c \<noteq> 0 \<and> charMap c = charMap x then strnicmp_loop n a b else Ok (int (charMap c) - int (charMap x)))"
| "strnicmp_loop _ _ _ = Undef"

definition sqlite3_strnicmp :: "8 word list option \<Rightarrow> 8 word list option \<Rightarrow> int \<Rightarrow> int res" where
  "sqlite3_strnicmp zLeft zRight N =
     (case zLeft of
        None \<Rightarrow> Ok (if zRight = None then 0 else -1)
      | Some l \<Rightarrow>
          (case zRight of
             None \<Rightarrow> Ok 1
           | Some r \<Rightarrow> if N = - (2 ^ 31) then Undef else strnicmp_loop (nat N) l r))"

text \<open>\<open>sqlite3StrIHash\<close>.\<close>

fun str_ihash_loop :: "8 word list \<Rightarrow> 8 word \<Rightarrow> 8 word res" where
  "str_ihash_loop [] h = Undef"
| "str_ihash_loop (c # z) h = (if c \<noteq> 0 then str_ihash_loop z (h + word_of_nat (charMap c)) else Ok h)"

definition sqlite3StrIHash :: "8 word list option \<Rightarrow> 8 word res" where
  "sqlite3StrIHash z = (case z of None \<Rightarrow> Ok 0 | Some z \<Rightarrow> str_ihash_loop z 0)"

fun str_hash_loop :: "8 word list \<Rightarrow> 32 word \<Rightarrow> 32 word res" where
  "str_hash_loop [] h = Undef"
| "str_hash_loop (c # z) h =
     (if c \<noteq> 0 then str_hash_loop z ((h + word_of_nat (charMap c)) * 0x9E3779B1) else Ok h)"

definition strHash :: "8 word list \<Rightarrow> 32 word res" where
  "strHash z = str_hash_loop z 0"

section \<open>Cells, buckets and tables\<close>

record 'v HashElem =
  he_next :: "nat option"
  he_prev :: "nat option"
  he_data :: 'v
  he_pKey :: "8 word list"

record ht_entry =
  ht_count :: nat
  ht_chain :: "nat option"

record Hash =
  htsize :: nat
  hcount :: nat
  hfirst :: "nat option"
  ht :: "ht_entry list option"

type_synonym 'v cells = "(nat \<times> 'v HashElem) list"

definition elem_at :: "'v cells \<Rightarrow> nat \<Rightarrow> 'v HashElem res" where
  "elem_at m a = (case map_of m a of Some e \<Rightarrow> Ok e | None \<Rightarrow> Undef)"

text \<open>The counters are of type \<open>unsigned int\<close>.\<close>

definition inc32 :: "nat \<Rightarrow> nat" where "inc32 n = (n + 1) mod 2 ^ 32"
definition dec32 :: "nat \<Rightarrow> nat" where "dec32 n = (n + 2 ^ 32 - 1) mod 2 ^ 32"
definition twice32 :: "nat \<Rightarrow> nat" where "twice32 n = (2 * n) mod 2 ^ 32"

text \<open>\<open>p->field = x\<close>, and \<open>if( p ) p->field = x\<close>.\<close>

definition elem_store :: "nat \<Rightarrow> ('v HashElem \<Rightarrow> 'v HashElem) \<Rightarrow> 'v cells \<Rightarrow> 'v cells res" where
  "elem_store a f m = map_res (\<lambda>e. (a, f e) # m) (elem_at m a)"

definition elem_store_if :: "nat option \<Rightarrow> ('v HashElem \<Rightarrow> 'v HashElem) \<Rightarrow> 'v cells \<Rightarrow> 'v cells res" where
  "elem_store_if p f m = (case p of None \<Rightarrow> Ok m | Some a \<Rightarrow> elem_store a f m)"

definition elem_free :: "nat \<Rightarrow> 'v cells \<Rightarrow> 'v cells" where
  "elem_free a m = filter (\<lambda>(b, e). b \<noteq> a) m"

section \<open>Operations\<close>

definition sqlite3HashInit :: Hash where
  "sqlite3HashInit = \<lparr>htsize = 0, hcount = 0, hfirst = None, ht = None\<rparr>"

text \<open>\<open>while( elem )\<close>; a list without an end is \<open>Undef\<close> when the fuel is used up.\<close>

fun free_loop :: "nat \<Rightarrow> nat option \<Rightarrow> 'v cells \<Rightarrow> 'v cells res" where
  "free_loop k None m = Ok m"
| "free_loop 0 (Some a) m = Undef"
| "free_loop (Suc k) (Some a) m =
     bind_res (elem_at m a) (\<lambda>e. free_loop k (he_next e) (elem_free a m))"

definition sqlite3HashClear :: "Hash \<times> 'v cells \<Rightarrow> (Hash \<times> 'v cells) res" where
  "sqlite3HashClear s =
     (let (H, m) = s in
      map_res (\<lambda>m. (H\<lparr>hfirst := None, ht := None, htsize := 0, hcount := 0\<rparr>, m))
        (free_loop (length m) (hfirst H) m))"

text \<open>\<open>pEntry\<close> is the number of a bucket, or \<open>None\<close>.\<close>

definition enter_bucket :: "nat option \<Rightarrow> nat \<Rightarrow> Hash \<Rightarrow> (nat option \<times> Hash) res" where
  "enter_bucket pEntry pNew H =
     (case pEntry of
        None \<Rightarrow> Ok (None, H)
      | Some b \<Rightarrow>
          (case ht H of
             None \<Rightarrow> Undef
           | Some t \<Rightarrow>
               bind_res (vec_idx t b) (\<lambda>e.
               map_res (\<lambda>t. (if ht_count e \<noteq> 0 then ht_chain e else None, H\<lparr>ht := Some t\<rparr>))
                 (vec_put t b \<lparr>ht_count = inc32 (ht_count e), ht_chain = Some pNew\<rparr>))))"

definition insertElement :: "nat option \<Rightarrow> nat \<Rightarrow> Hash \<times> 'v cells \<Rightarrow> (Hash \<times> 'v cells) res" where
  "insertElement pEntry pNew s =
     (let (H, m) = s in
      bind_res (enter_bucket pEntry pNew H) (\<lambda>(pHead, H).
        case pHead of
          Some p \<Rightarrow>
            bind_res (elem_at m p) (\<lambda>head.
            bind_res (elem_store pNew (\<lambda>e. e\<lparr>he_next := Some p, he_prev := he_prev head\<rparr>) m) (\<lambda>m.
            bind_res (elem_store_if (he_prev head) (\<lambda>e. e\<lparr>he_next := Some pNew\<rparr>) m) (\<lambda>m.
            map_res (\<lambda>m. (if he_prev head = None then H\<lparr>hfirst := Some pNew\<rparr> else H, m))
              (elem_store p (\<lambda>e. e\<lparr>he_prev := Some pNew\<rparr>) m))))
        | None \<Rightarrow>
            bind_res (elem_store pNew (\<lambda>e. e\<lparr>he_next := hfirst H\<rparr>) m) (\<lambda>m.
            bind_res (elem_store_if (hfirst H) (\<lambda>e. e\<lparr>he_prev := Some pNew\<rparr>) m) (\<lambda>m.
            map_res (\<lambda>m. (H\<lparr>hfirst := Some pNew\<rparr>, m)) (elem_store pNew (\<lambda>e. e\<lparr>he_prev := None\<rparr>) m)))))"

text \<open>\<open>strHash(key) % n\<close>, which divides by zero in a table without buckets.\<close>

definition key_bucket_no :: "8 word list \<Rightarrow> nat \<Rightarrow> nat res" where
  "key_bucket_no key n = (if n = 0 then Undef else map_res (\<lambda>h. unat h mod n) (strHash key))"

fun rehash_loop :: "nat \<Rightarrow> nat option \<Rightarrow> Hash \<times> 'v cells \<Rightarrow> (Hash \<times> 'v cells) res" where
  "rehash_loop k None s = Ok s"
| "rehash_loop 0 (Some a) s = Undef"
| "rehash_loop (Suc k) (Some a) s =
     bind_res (elem_at (snd s) a) (\<lambda>e.
     bind_res (key_bucket_no (he_pKey e) (htsize (fst s))) (\<lambda>h.
     bind_res (insertElement (Some h) a s) (rehash_loop k (he_next e))))"

text \<open>
  The allocator for tables is an argument: how many bytes it provides for a number of bytes asked
  for, or that it fails. A bucket has 16 bytes.
\<close>

definition sizeof_ht :: nat where "sizeof_ht = 16"
definition SQLITE_MALLOC_SOFT_LIMIT :: nat where "SQLITE_MALLOC_SOFT_LIMIT = 1024"

definition rehash :: "(nat \<Rightarrow> nat option) \<Rightarrow> nat \<Rightarrow> Hash \<times> 'v cells \<Rightarrow> (bool \<times> Hash \<times> 'v cells) res" where
  "rehash malloc_table new_size s =
     (let (H, m) = s;
          new_size = (if new_size * sizeof_ht > SQLITE_MALLOC_SOFT_LIMIT
                      then SQLITE_MALLOC_SOFT_LIMIT div sizeof_ht else new_size) in
      if new_size = htsize H then Ok (False, s)
      else
        (case malloc_table (new_size * sizeof_ht) of
           None \<Rightarrow> Ok (False, s)
         | Some bytes \<Rightarrow>
             let n = bytes div sizeof_ht;
                 H' = H\<lparr>ht := Some (replicate n \<lparr>ht_count = 0, ht_chain = None\<rparr>), htsize := n, hfirst := None\<rparr>
             in map_res (Pair True) (rehash_loop (length m) (hfirst H) (H', m))))"

text \<open>The element with the key, or \<open>None\<close> for the null element; and the hash value.\<close>

fun find_loop :: "'v cells \<Rightarrow> 8 word list \<Rightarrow> nat \<Rightarrow> nat option \<Rightarrow> nat option res" where
  "find_loop m key 0 elem = Ok None"
| "find_loop m key (Suc count) None = Undef"
| "find_loop m key (Suc count) (Some a) =
     bind_res (elem_at m a) (\<lambda>e.
     bind_res (sqlite3StrICmp (he_pKey e) key) (\<lambda>d.
       if d = 0 then Ok (Some a) else find_loop m key count (he_next e)))"

definition findElementWithHash :: "Hash \<times> 'v cells \<Rightarrow> 8 word list \<Rightarrow> (nat option \<times> nat) res" where
  "findElementWithHash s key =
     (let (H, m) = s in
      case ht H of
        Some t \<Rightarrow>
          bind_res (key_bucket_no key (htsize H)) (\<lambda>h.
          bind_res (vec_idx t h) (\<lambda>pEntry.
          map_res (\<lambda>r. (r, h)) (find_loop m key (ht_count pEntry) (ht_chain pEntry))))
      | None \<Rightarrow> map_res (\<lambda>r. (r, 0)) (find_loop m key (hcount H) (hfirst H)))"

definition leave_bucket :: "nat \<Rightarrow> nat \<Rightarrow> nat option \<Rightarrow> Hash \<Rightarrow> Hash res" where
  "leave_bucket h elem next H =
     (case ht H of
        None \<Rightarrow> Ok H
      | Some t \<Rightarrow>
          bind_res (vec_idx t h) (\<lambda>e.
            if ht_count e = 0 then Undef
            else
              map_res (\<lambda>t. H\<lparr>ht := Some t\<rparr>)
                (vec_put t h \<lparr>ht_count = dec32 (ht_count e),
                               ht_chain = (if ht_chain e = Some elem then next else ht_chain e)\<rparr>)))"

text \<open>The part of \<open>removeElementGivenHash\<close> that takes an element out of the list.\<close>

definition unlink_elem :: "nat \<Rightarrow> Hash \<times> 'v cells \<Rightarrow> (Hash \<times> nat option \<times> 'v cells) res" where
  "unlink_elem elem s =
     (let (H, m) = s in
      bind_res (elem_at m elem) (\<lambda>e.
      bind_res (elem_store_if (he_prev e) (\<lambda>p. p\<lparr>he_next := he_next e\<rparr>) m) (\<lambda>m.
      bind_res (elem_at m elem) (\<lambda>e.
      map_res (\<lambda>m. (if he_prev e = None then H\<lparr>hfirst := he_next e\<rparr> else H, he_next e, m))
        (elem_store_if (he_next e) (\<lambda>n. n\<lparr>he_prev := he_prev e\<rparr>) m)))))"

definition removeElementGivenHash :: "nat \<Rightarrow> nat \<Rightarrow> Hash \<times> 'v cells \<Rightarrow> (Hash \<times> 'v cells) res" where
  "removeElementGivenHash elem h s =
     bind_res (unlink_elem elem s) (\<lambda>(H, next, m).
     bind_res (leave_bucket h elem next H) (\<lambda>H.
     let H = H\<lparr>hcount := dec32 (hcount H)\<rparr>; m = elem_free elem m in
     if hcount H = 0 then if hfirst H = None then sqlite3HashClear (H, m) else Undef
     else Ok (H, m)))"

definition sqlite3HashFind :: "Hash \<times> 'v cells \<Rightarrow> 8 word list \<Rightarrow> 'v option res" where
  "sqlite3HashFind s key =
     bind_res (findElementWithHash s key) (\<lambda>(r, h).
       case r of None \<Rightarrow> Ok None | Some a \<Rightarrow> map_res (\<lambda>e. Some (he_data e)) (elem_at (snd s) a))"

text \<open>
  The part of \<open>sqlite3HashInsert\<close> that makes the table larger; the result is the bucket of the
  key and the table.
\<close>

definition grow_table ::
  "(nat \<Rightarrow> nat option) \<Rightarrow> 8 word list \<Rightarrow> nat \<Rightarrow> Hash \<times> 'v cells \<Rightarrow> (nat \<times> Hash \<times> 'v cells) res" where
  "grow_table malloc_table key h s =
     (if hcount (fst s) \<ge> 10 \<and> hcount (fst s) > twice32 (htsize (fst s)) then
        bind_res (rehash malloc_table (twice32 (hcount (fst s))) s) (\<lambda>(resized, H, m).
          if resized then
            if htsize H = 0 then Undef else map_res (\<lambda>h. (h, H, m)) (key_bucket_no key (htsize H))
          else Ok (h, H, m))
      else Ok (h, s))"

text \<open>
  The allocator of elements gives the address of a cell or fails. The result is the return value
  of the code and the table.
\<close>

definition sqlite3HashInsert ::
  "('v cells \<Rightarrow> nat option) \<Rightarrow> (nat \<Rightarrow> nat option) \<Rightarrow> 8 word list \<Rightarrow> 'v option \<Rightarrow> Hash \<times> 'v cells \<Rightarrow>
     ('v option \<times> Hash \<times> 'v cells) res" where
  "sqlite3HashInsert malloc malloc_table key data s =
     bind_res (findElementWithHash s key) (\<lambda>(r, h).
       case r of
         Some a \<Rightarrow>
           bind_res (elem_at (snd s) a) (\<lambda>e.
             map_res (Pair (Some (he_data e)))
               (case data of
                  None \<Rightarrow> removeElementGivenHash a h s
                | Some d \<Rightarrow> map_res (Pair (fst s)) (elem_store a (\<lambda>e. e\<lparr>he_data := d, he_pKey := key\<rparr>) (snd s))))
       | None \<Rightarrow>
           (case data of
              None \<Rightarrow> Ok (None, s)
            | Some d \<Rightarrow>
                (case malloc (snd s) of
                   None \<Rightarrow> Ok (Some d, s)
                 | Some a \<Rightarrow>
                     let H = (fst s)\<lparr>hcount := inc32 (hcount (fst s))\<rparr>;
                         m = (a, \<lparr>he_next = None, he_prev = None, he_data = d, he_pKey = key\<rparr>) # snd s in
                     bind_res (grow_table malloc_table key h (H, m)) (\<lambda>(h, H, m).
                       map_res (Pair None)
                         (insertElement (if ht H = None then None else Some h) a (H, m))))))"

section \<open>Lists in the heap\<close>

text \<open>
  \<open>elem_links m p L s\<close>: the addresses \<open>L\<close> are the cells of a doubly linked list, \<open>p\<close> the cell before
  the first and \<open>s\<close> the cell after the last.
\<close>

definition hd_opt :: "'a list \<Rightarrow> 'a option \<Rightarrow> 'a option" where
  "hd_opt L s = (case L of [] \<Rightarrow> s | a # _ \<Rightarrow> Some a)"

definition last_opt :: "'a option \<Rightarrow> 'a list \<Rightarrow> 'a option" where
  "last_opt p L = (if L = [] then p else Some (last L))"

fun elem_links :: "'v cells \<Rightarrow> nat option \<Rightarrow> nat list \<Rightarrow> nat option \<Rightarrow> bool" where
  "elem_links m p [] s = True"
| "elem_links m p (a # L) s =
     (case map_of m a of
        None \<Rightarrow> False
      | Some e \<Rightarrow> he_prev e = p \<and> he_next e = hd_opt L s \<and> elem_links m (Some a) L s)"

lemma hd_opt_simps [simp]: "hd_opt [] s = s" "hd_opt (a # L) s = Some a"
  by (simp_all add: hd_opt_def)

lemma last_opt_simps [simp]:
  "last_opt p [] = p" "last_opt p (a # L) = last_opt (Some a) L" "last_opt p (L @ [a]) = Some a"
  by (simp_all add: last_opt_def)

lemma hd_opt_append [simp]: "hd_opt (xs @ ys) s = hd_opt xs (hd_opt ys s)"
  by (cases xs) simp_all

lemma links_append [simp]:
  "elem_links m p (xs @ ys) s \<longleftrightarrow> elem_links m p xs (hd_opt ys s) \<and> elem_links m (last_opt p xs) ys s"
  by (induction xs arbitrary: p) (auto split: option.splits)

lemma links_frame [simp]: "a \<notin> set L \<Longrightarrow> elem_links ((a, e) # m) p L s = elem_links m p L s"
  by (induction L arbitrary: p) (auto split: option.splits)

lemma map_of_free_cell: "map_of (elem_free a m) b = (if b = a then None else map_of m b)"
  by (induction m) (auto simp: elem_free_def)

lemma links_free [simp]: "a \<notin> set L \<Longrightarrow> elem_links (elem_free a m) p L s = elem_links m p L s"
  by (induction L arbitrary: p) (auto simp: map_of_free_cell split: option.splits)

lemma links_cell: "elem_links m p L s \<Longrightarrow> a \<in> set L \<Longrightarrow> \<exists>e. map_of m a = Some e"
  by (induction L arbitrary: p) (auto split: option.splits)

text \<open>A new first predecessor, a new last successor.\<close>

lemma links_new_prev:
  assumes "elem_links m p (a # L) s" "a \<notin> set L" "map_of m a = Some e"
  shows "elem_links ((a, e\<lparr>he_prev := q\<rparr>) # m) q (a # L) s"
  using assms by simp

lemma links_new_next:
  assumes "elem_links m p (L @ [a]) s" "a \<notin> set L" "map_of m a = Some e"
  shows "elem_links ((a, e\<lparr>he_next := t\<rparr>) # m) p (L @ [a]) t"
  using assms by (auto split: option.splits)

lemma cell_simps [simp]:
  "map_of m a = Some e \<Longrightarrow> elem_at m a = Ok e"
  "map_of m a = Some e \<Longrightarrow> elem_store a f m = Ok ((a, f e) # m)"
  "elem_store_if None f m = Ok m"
  "elem_store_if (Some a) f m = elem_store a f m"
  by (simp_all add: elem_at_def elem_store_def elem_store_if_def)

text \<open>What a cell holds besides its pointers.\<close>

definition elem_content :: "'v cells \<Rightarrow> nat \<Rightarrow> (8 word list \<times> 'v) option" where
  "elem_content m a = map_option (\<lambda>e. (he_pKey e, he_data e)) (map_of m a)"

lemma content_cons [simp]:
  "elem_content ((a, e) # m) = (elem_content m)(a := Some (he_pKey e, he_data e))"
  by (auto simp: elem_content_def)

lemma content_free [simp]: "elem_content (elem_free a m) = (elem_content m)(a := None)"
  by (auto simp: elem_content_def map_of_free_cell)

lemma content_same: "map_of m a = Some e \<Longrightarrow> (elem_content m)(a := Some (he_pKey e, he_data e)) = elem_content m"
  by (auto simp: elem_content_def)

section \<open>Insertion and removal at the level of lists\<close>

lemma insert_front:
  assumes L: "elem_links m None L None" "distinct L" "hfirst H = hd_opt L None"
    and n: "n \<notin> set L" "map_of m n = Some e"
    and b: "enter_bucket b n H = Ok (None, H')" and H': "hfirst H' = hfirst H"
  shows "\<exists>m'. insertElement b n (H, m) = Ok (H'\<lparr>hfirst := Some n\<rparr>, m') \<and> elem_links m' None (n # L) None
    \<and> elem_content m' = elem_content m \<and> (\<forall>a. a \<notin> insert n (set L) \<longrightarrow> map_of m' a = map_of m a)"
proof (cases L)
  case Nil
  then show ?thesis using assms by (auto simp: insertElement_def content_same)
next
  case (Cons p ys)
  obtain ep where ep: "map_of m p = Some ep" using links_cell [OF L(1), of p] Cons by auto
  from L n show ?thesis using Cons ep b H' by (auto simp: insertElement_def elem_content_def)
qed

lemma insert_before:
  assumes L: "elem_links m None (xs @ p # ys) None" "distinct (xs @ p # ys)" "hfirst H = hd_opt (xs @ p # ys) None"
    and n: "n \<notin> set (xs @ p # ys)" "map_of m n = Some e"
    and b: "enter_bucket b n H = Ok (Some p, H')" and H': "hfirst H' = hfirst H"
  shows "\<exists>m'. insertElement b n (H, m) = Ok (H'\<lparr>hfirst := hd_opt (xs @ n # p # ys) None\<rparr>, m')
    \<and> elem_links m' None (xs @ n # p # ys) None \<and> elem_content m' = elem_content m
    \<and> (\<forall>a. a \<notin> insert n (set (xs @ p # ys)) \<longrightarrow> map_of m' a = map_of m a)"
proof (cases xs rule: rev_cases)
  case Nil
  obtain ep where ep: "map_of m p = Some ep" using links_cell [OF L(1), of p] by auto
  from L n show ?thesis using Nil ep b H' by (auto simp: insertElement_def elem_content_def)
next
  case (snoc zs l)
  obtain el where el: "map_of m l = Some el" using links_cell [OF L(1), of l] snoc by auto
  obtain ep where ep: "map_of m p = Some ep" using links_cell [OF L(1), of p] by auto
  from L n show ?thesis using snoc el ep b H'
    by (auto simp: insertElement_def elem_content_def Let_def)
qed

lemma unlink_list:
  assumes L: "elem_links m None (xs @ a # ys) None" "distinct (xs @ a # ys)" "hfirst H = hd_opt (xs @ a # ys) None"
  shows "\<exists>m'. unlink_elem a (H, m) = Ok (H\<lparr>hfirst := hd_opt (xs @ ys) None\<rparr>, hd_opt ys None, m')
    \<and> elem_links m' None (xs @ ys) None \<and> elem_content m' = elem_content m"
proof -
  obtain e where e: "map_of m a = Some e" using links_cell [OF L(1), of a] by auto
  show ?thesis
  proof (cases xs rule: rev_cases)
    case Nil
    show ?thesis
    proof (cases ys)
      case N2: Nil
      from L show ?thesis using Nil N2 e by (auto simp: unlink_elem_def content_same)
    next
      case (Cons b zs)
      obtain eb where eb: "map_of m b = Some eb" using links_cell [OF L(1), of b] Cons by auto
      from L show ?thesis using Nil Cons e eb by (auto simp: unlink_elem_def elem_content_def)
    qed
  next
    case (snoc us l)
    obtain el where el: "map_of m l = Some el" using links_cell [OF L(1), of l] snoc by auto
    show ?thesis
    proof (cases ys)
      case N2: Nil
      from L show ?thesis using snoc N2 e el by (auto simp: unlink_elem_def elem_content_def)
    next
      case (Cons b zs)
      obtain eb where eb: "map_of m b = Some eb" using links_cell [OF L(1), of b] Cons by auto
      from L show ?thesis using snoc Cons e el eb by (auto simp: unlink_elem_def elem_content_def)
    qed
  qed
qed

section \<open>Keys\<close>

definition nul_ended :: "8 word list \<Rightarrow> bool" where
  "nul_ended z \<longleftrightarrow> 0 \<in> set z"

definition key_of :: "8 word list \<Rightarrow> nat list" where
  "key_of z = map charMap (takeWhile (\<lambda>c. c \<noteq> 0) z)"

definition hash_of :: "nat list \<Rightarrow> 32 word" where
  "hash_of k = fold (\<lambda>c h. (h + word_of_nat c) * 0x9E3779B1) k 0"

definition key_bucket :: "nat list \<Rightarrow> nat \<Rightarrow> nat" where
  "key_bucket k n = unat (hash_of k) mod n"

lemma key_of_simps [simp]:
  "key_of (c # z) = (if c = 0 then [] else charMap c # key_of z)" "key_of [] = []"
  "nul_ended (c # z) \<longleftrightarrow> c = 0 \<or> nul_ended z" "\<not> nul_ended []"
  by (auto simp: key_of_def nul_ended_def)

lemma charMap_zero [simp]: "charMap c = 0 \<longleftrightarrow> c = 0"
proof -
  have "list_all (\<lambda>k. if charMap (word_of_nat k) = 0 then word_of_nat k = (0 :: 8 word) else (word_of_nat k :: 8 word) \<noteq> 0) [0..<256]"
    by (simp add: upt_from_0 charMap_def sqlite3UpperToLower_entries)
  from all_bytes [OF this, of c] show ?thesis by (simp split: if_splits)
qed

lemma charMap_nul [simp]: "charMap 0 = 0" "0 = charMap c \<longleftrightarrow> c = 0"
  using charMap_zero [of 0] charMap_zero [of c] by auto

lemma stricmp_key:
  "nul_ended a \<Longrightarrow> nul_ended b \<Longrightarrow> \<exists>d. sqlite3StrICmp a b = Ok d \<and> (d = 0 \<longleftrightarrow> key_of a = key_of b)"
proof (induction a b rule: sqlite3StrICmp.induct)
  case (1 c a x b)
  then show ?case by (auto simp: Let_def)
qed auto

lemma stricmp_equal:
  assumes "nul_ended a" "nul_ended b"
  shows "sqlite3_stricmp (Some a) (Some b) = Ok 0 \<longleftrightarrow> key_of a = key_of b"
  using stricmp_key [OF assms] by (auto simp: sqlite3_stricmp_def)

lemma strnicmp_loop_key:
  "nul_ended a \<Longrightarrow> nul_ended b \<Longrightarrow>
   \<exists>d. strnicmp_loop n a b = Ok d \<and> (d = 0 \<longleftrightarrow> take n (key_of a) = take n (key_of b))"
  by (induction n a b rule: strnicmp_loop.induct) auto

lemma strnicmp_equal:
  assumes "nul_ended a" "nul_ended b" "- (2 ^ 31) < N"
  shows "sqlite3_strnicmp (Some a) (Some b) N = Ok 0 \<longleftrightarrow> take (nat N) (key_of a) = take (nat N) (key_of b)"
  using strnicmp_loop_key [OF assms(1,2), of "nat N"] assms(3) by (auto simp: sqlite3_strnicmp_def)

lemma str_ihash_key:
  assumes "nul_ended z"
  shows "sqlite3StrIHash (Some z) = Ok (sum_list (map word_of_nat (key_of z)))"
proof -
  have "nul_ended z \<Longrightarrow> str_ihash_loop z h = Ok (h + sum_list (map word_of_nat (key_of z)))" for h
    by (induction z arbitrary: h) auto
  then show ?thesis using assms by (simp add: sqlite3StrIHash_def)
qed

lemma str_hash_loop_key:
  "nul_ended z \<Longrightarrow> str_hash_loop z h = Ok (fold (\<lambda>c h. (h + word_of_nat c) * 0x9E3779B1) (key_of z) h)"
  by (induction z arbitrary: h) auto

lemma bucket_no_key [simp]: "nul_ended z \<Longrightarrow> 0 < n \<Longrightarrow> key_bucket_no z n = Ok (key_bucket (key_of z) n)"
  by (simp add: key_bucket_no_def strHash_def str_hash_loop_key hash_of_def key_bucket_def)

section \<open>The representation of a table\<close>

text \<open>
  \<open>segs\<close>: the buckets in the order of the list, each with the addresses of its elements; a table
  without buckets has the same list with no condition on where an element stands.
\<close>

type_synonym segments = "(nat \<times> nat list) list"

fun segment :: "segments \<Rightarrow> nat \<Rightarrow> nat list" where
  "segment [] b = []"
| "segment ((c, S) # segs) b = (if c = b then S else segment segs b)"

definition all_of :: "segments \<Rightarrow> nat list" where
  "all_of segs = concat (map snd segs)"

definition key_at :: "'v cells \<Rightarrow> nat \<Rightarrow> nat list" where
  "key_at m a = (case elem_content m a of None \<Rightarrow> [] | Some (z, d) \<Rightarrow> key_of z)"

definition elem_chained :: "Hash \<Rightarrow> 'v cells \<Rightarrow> nat list \<Rightarrow> bool" where
  "elem_chained H m L \<longleftrightarrow> elem_links m None L None \<and> distinct L \<and> hfirst H = hd_opt L None"

definition segs_ok :: "nat \<Rightarrow> segments \<Rightarrow> 'v cells \<Rightarrow> bool" where
  "segs_ok n segs m \<longleftrightarrow> distinct (map fst segs)
     \<and> list_all (\<lambda>(b, S). b < n \<and> S \<noteq> [] \<and> list_all (\<lambda>a. key_bucket (key_at m a) n = b) S) segs"

definition entry_ok :: "segments \<Rightarrow> nat \<Rightarrow> ht_entry \<Rightarrow> bool" where
  "entry_ok segs b e \<longleftrightarrow> ht_count e = length (segment segs b) \<and>
     (segment segs b \<noteq> [] \<longrightarrow> ht_chain e = hd_opt (segment segs b) None)"

definition buckets_ok :: "ht_entry list \<Rightarrow> segments \<Rightarrow> 'v cells \<Rightarrow> bool" where
  "buckets_ok t segs m \<longleftrightarrow> t \<noteq> [] \<and> segs_ok (length t) segs m
     \<and> list_all (\<lambda>b. entry_ok segs b (t ! b)) [0..<length t]"

definition hash_ok :: "segments \<Rightarrow> Hash \<times> 'v cells \<Rightarrow> bool" where
  "hash_ok segs s \<longleftrightarrow>
     (let (H, m) = s; L = all_of segs in
      elem_chained H m L \<and> hcount H = length L \<and> distinct (map (key_at m) L)
      \<and> list_all (\<lambda>a. case elem_content m a of None \<Rightarrow> False | Some (z, d) \<Rightarrow> nul_ended z) L
      \<and> (case ht H of None \<Rightarrow> htsize H = 0 | Some t \<Rightarrow> htsize H = length t \<and> buckets_ok t segs m))"

lemma seg_in: "distinct (map fst segs) \<Longrightarrow> (b, S) \<in> set segs \<Longrightarrow> segment segs b = S"
  by (induction segs b rule: segment.induct) (auto intro: rev_image_eqI)

lemma seg_out: "b \<notin> fst ` set segs \<Longrightarrow> segment segs b = []"
  by (induction segs b rule: segment.induct) auto

lemma seg_mem: "segment segs b \<noteq> [] \<Longrightarrow> (b, segment segs b) \<in> set segs"
  by (induction segs b rule: segment.induct) (auto split: if_splits)

lemma length_seg: "length (segment segs b) \<le> length (all_of segs)"
  by (induction segs b rule: segment.induct) (auto simp: all_of_def)

lemma key_at_cong: "elem_content m' = elem_content m \<Longrightarrow> key_at m' = key_at m"
  by (rule ext) (simp add: key_at_def)

subsection \<open>A new element in front of its key_bucket\<close>

fun seg_insert :: "nat \<Rightarrow> nat \<Rightarrow> segments \<Rightarrow> segments" where
  "seg_insert b a [] = []"
| "seg_insert b a ((c, S) # segs) = (if c = b then (c, a # S) # segs else (c, S) # seg_insert b a segs)"

definition put_front :: "nat \<Rightarrow> nat \<Rightarrow> segments \<Rightarrow> segments" where
  "put_front b a segs = (if b \<in> fst ` set segs then seg_insert b a segs else (b, [a]) # segs)"

lemma fst_seg_insert [simp]: "map fst (seg_insert b a segs) = map fst segs"
  by (induction b a segs rule: seg_insert.induct) auto

lemma fst_set_seg_insert [simp]: "fst ` set (seg_insert b a segs) = fst ` set segs"
  by (induction b a segs rule: seg_insert.induct) auto

lemma seg_insert_seg:
  "b \<in> fst ` set segs \<Longrightarrow> segment (seg_insert b a segs) c = (if c = b then a # segment segs b else segment segs c)"
proof (induction b a segs rule: seg_insert.induct)
  case (2 b a c' S segs)
  then show ?case by (cases "c' = b") (simp_all, fastforce)
qed simp

lemma seg_put_front: "segment (put_front b a segs) c = (if c = b then a # segment segs b else segment segs c)"
  by (simp add: put_front_def seg_insert_seg seg_out)

lemma set_put_front [simp]: "set (all_of (put_front b a segs)) = insert a (set (all_of segs))"
proof -
  have "b \<in> fst ` set segs \<Longrightarrow> set (all_of (seg_insert b a segs)) = insert a (set (all_of segs))"
    by (induction b a segs rule: seg_insert.induct) (auto simp: all_of_def)
  then show ?thesis by (auto simp: put_front_def all_of_def)
qed

lemma length_put_front [simp]: "length (all_of (put_front b a segs)) = Suc (length (all_of segs))"
proof -
  have "b \<in> fst ` set segs \<Longrightarrow> length (all_of (seg_insert b a segs)) = Suc (length (all_of segs))"
    by (induction b a segs rule: seg_insert.induct) (auto simp: all_of_def)
  then show ?thesis by (auto simp: put_front_def all_of_def)
qed

lemma put_front_split:
  assumes "b \<in> fst ` set segs" "distinct (map fst segs)" "segment segs b \<noteq> []"
  shows "\<exists>xs ys. all_of segs = xs @ segment segs b @ ys \<and> all_of (put_front b a segs) = xs @ a # segment segs b @ ys"
proof -
  have "\<exists>xs ys. all_of segs = xs @ segment segs b @ ys \<and> all_of (seg_insert b a segs) = xs @ a # segment segs b @ ys"
    using assms
  proof (induction b a segs rule: seg_insert.induct)
    case (2 b a c S segs)
    show ?case
    proof (cases "c = b")
      case True
      then show ?thesis by (intro exI [of _ "[]"] exI [of _ "all_of segs"]) (simp add: all_of_def)
    next
      case False
      then obtain xs ys where *: "all_of segs = xs @ segment segs b @ ys" "all_of (seg_insert b a segs) = xs @ a # segment segs b @ ys"
        using 2 by auto
      show ?thesis using False *
        by (intro exI [of _ "S @ xs"] exI [of _ ys]) (simp add: all_of_def)
    qed
  qed simp
  then show ?thesis using assms(1) by (simp add: put_front_def)
qed

lemma segs_ok_put_front:
  assumes "segs_ok n segs m" "b < n" "key_bucket (key_at m a) n = b"
  shows "segs_ok n (put_front b a segs) m"
proof -
  have "b \<in> fst ` set segs \<Longrightarrow> segs_ok n (seg_insert b a segs) m"
    using assms by (induction b a segs rule: seg_insert.induct)
      (auto simp: segs_ok_def split: if_splits)
  then show ?thesis using assms by (auto simp: put_front_def segs_ok_def)
qed

lemma buckets_okD:
  assumes "buckets_ok t segs m"
  shows "0 < length t" "distinct (map fst segs)"
    "(b, S) \<in> set segs \<Longrightarrow> b < length t \<and> S \<noteq> [] \<and> (\<forall>a \<in> set S. key_bucket (key_at m a) (length t) = b)"
    "b < length t \<Longrightarrow> entry_ok segs b (t ! b)"
  using assms by (auto simp: buckets_ok_def segs_ok_def list_all_iff)

lemma hd_opt_ne: "S \<noteq> [] \<Longrightarrow> hd_opt S s = Some (hd S)"
  by (cases S) simp_all

lemma enter_bucket_table:
  assumes t: "ht H = Some t" "buckets_ok t segs m" and b: "b < length t" and len: "length (segment segs b) + 1 < 2 ^ 32"
    and key: "key_bucket (key_at m n) (length t) = b"
  shows "\<exists>t'. enter_bucket (Some b) n H = Ok (hd_opt (segment segs b) None, H\<lparr>ht := Some t'\<rparr>)
    \<and> length t' = length t \<and> buckets_ok t' (put_front b n segs) m"
proof -
  let ?e = "t ! b"
  let ?t = "t[b := \<lparr>ht_count = inc32 (ht_count ?e), ht_chain = Some n\<rparr>]"
  have e: "entry_ok segs b ?e" using buckets_okD(4) [OF t(2) b] .
  have step: "enter_bucket (Some b) n H = Ok (hd_opt (segment segs b) None, H\<lparr>ht := Some ?t\<rparr>)"
    using t b e by (cases "segment segs b") (simp_all add: enter_bucket_def entry_ok_def)
  have "entry_ok (put_front b n segs) c (?t ! c)" if "c < length t" for c
    using that buckets_okD(4) [OF t(2) that] e len b
    by (auto simp: entry_ok_def seg_put_front nth_list_update inc32_def)
  moreover have "segs_ok (length t) (put_front b n segs) m"
    using t(2) b key by (intro segs_ok_put_front) (simp_all add: buckets_ok_def)
  ultimately have "buckets_ok ?t (put_front b n segs) m"
    using b by (auto simp: buckets_ok_def list_all_iff)
  with step show ?thesis by (intro exI [of _ ?t]) simp
qed

lemma segs_ok_cong: "elem_content m' = elem_content m \<Longrightarrow> segs_ok n segs m' = segs_ok n segs m"
  by (simp only: segs_ok_def key_at_cong [of m' m])

lemma buckets_ok_cong: "elem_content m' = elem_content m \<Longrightarrow> buckets_ok t segs m' = buckets_ok t segs m"
  by (simp only: buckets_ok_def segs_ok_cong [of m' m])

text \<open>\<open>insertElement\<close> with a bucket, and without.\<close>

lemma insert_in_bucket:
  assumes ch: "elem_chained H m (all_of segs)" and t: "ht H = Some t" "buckets_ok t segs m"
    and n: "n \<notin> set (all_of segs)" "map_of m n = Some e" and len: "length (all_of segs) + 1 < 2 ^ 32"
    and b: "key_bucket (key_at m n) (length t) = b"
  shows "\<exists>H' m' t'. insertElement (Some b) n (H, m) = Ok (H', m') \<and> elem_chained H' m' (all_of (put_front b n segs))
    \<and> ht H' = Some t' \<and> length t' = length t \<and> htsize H' = htsize H \<and> hcount H' = hcount H
    \<and> buckets_ok t' (put_front b n segs) m' \<and> elem_content m' = elem_content m
    \<and> (\<forall>a. a \<notin> insert n (set (all_of segs)) \<longrightarrow> map_of m' a = map_of m a)"
proof -
  have bl: "b < length t" using buckets_okD(1) [OF t(2)] b by (auto simp: key_bucket_def)
  have d: "distinct (map fst segs)" using buckets_okD(2) [OF t(2)] .
  have "length (segment segs b) + 1 < 2 ^ 32" using len length_seg [of segs b] by linarith
  from enter_bucket_table [OF t bl this b] obtain t' where
    t': "enter_bucket (Some b) n H = Ok (hd_opt (segment segs b) None, H\<lparr>ht := Some t'\<rparr>)"
      "length t' = length t" "buckets_ok t' (put_front b n segs) m" by blast
  have L: "elem_links m None (all_of segs) None" "distinct (all_of segs)" "hfirst H = hd_opt (all_of segs) None"
    using ch by (simp_all add: elem_chained_def)
  show ?thesis
  proof (cases "segment segs b")
    case Nil
    have "b \<notin> fst ` set segs"
    proof
      assume "b \<in> fst ` set segs"
      then obtain S where "(b, S) \<in> set segs" by auto
      with seg_in [OF d this] buckets_okD(3) [OF t(2) this] Nil show False by simp
    qed
    then have app: "all_of (put_front b n segs) = n # all_of segs" by (simp add: put_front_def all_of_def)
    have *: "enter_bucket (Some b) n H = Ok (None, H\<lparr>ht := Some t'\<rparr>)" using t'(1) Nil by simp
    have "hfirst (H\<lparr>ht := Some t'\<rparr>) = hfirst H" by simp
    from insert_front [OF L n * this] obtain m' where
      m': "insertElement (Some b) n (H, m) = Ok (H\<lparr>ht := Some t', hfirst := Some n\<rparr>, m')"
        "elem_links m' None (n # all_of segs) None" "elem_content m' = elem_content m"
        "\<forall>a. a \<notin> insert n (set (all_of segs)) \<longrightarrow> map_of m' a = map_of m a" by auto
    have "elem_chained (H\<lparr>ht := Some t', hfirst := Some n\<rparr>) m' (all_of (put_front b n segs))"
      using m'(2) L(2) n(1) by (simp add: elem_chained_def app)
    with m' t' show ?thesis
      by (intro exI [of _ "H\<lparr>ht := Some t', hfirst := Some n\<rparr>"] exI [of _ m'] exI [of _ t'])
        (simp add: buckets_ok_cong [of m' m])
  next
    case (Cons p S)
    have "segment segs b \<noteq> []" using Cons by simp
    then have "b \<in> fst ` set segs" using seg_out [of b segs] by blast
    from put_front_split [OF this d, of n] Cons obtain xs ys where
      s: "all_of segs = xs @ p # S @ ys" "all_of (put_front b n segs) = xs @ n # p # S @ ys" by auto
    have *: "enter_bucket (Some b) n H = Ok (Some p, H\<lparr>ht := Some t'\<rparr>)" using t'(1) Cons by simp
    let ?H = "H\<lparr>ht := Some t', hfirst := hd_opt (xs @ n # p # S @ ys) None\<rparr>"
    have "hfirst (H\<lparr>ht := Some t'\<rparr>) = hfirst H" by simp
    from insert_before [OF L [unfolded s(1)] n [unfolded s(1)] * this] obtain m' where
      m': "insertElement (Some b) n (H, m) = Ok (?H, m')"
        "elem_links m' None (xs @ n # p # S @ ys) None" "elem_content m' = elem_content m"
        "\<forall>a. a \<notin> insert n (set (all_of segs)) \<longrightarrow> map_of m' a = map_of m a" unfolding s(1) by blast
    have "distinct (xs @ n # p # S @ ys)" using L(2) n(1) s(1) by simp
    then have "elem_chained ?H m' (all_of (put_front b n segs))" using m'(2) by (simp add: elem_chained_def s(2))
    with m' t' show ?thesis
      by (intro exI [of _ ?H] exI [of _ m'] exI [of _ t']) (simp add: buckets_ok_cong [of m' m])
  qed
qed

subsection \<open>Rehashing\<close>

text \<open>The part of the old list that is still to be moved.\<close>

fun elem_nexts :: "'v cells \<Rightarrow> nat list \<Rightarrow> bool" where
  "elem_nexts m [] = True"
| "elem_nexts m (a # R) =
     (case map_of m a of None \<Rightarrow> False | Some e \<Rightarrow> he_next e = hd_opt R None \<and> elem_nexts m R)"

lemma links_nexts: "elem_links m p R None \<Longrightarrow> elem_nexts m R"
  by (induction R arbitrary: p) (auto split: option.splits)

lemma nexts_cong: "\<forall>a \<in> set R. map_of m' a = map_of m a \<Longrightarrow> elem_nexts m' R = elem_nexts m R"
  by (induction R) (auto split: option.splits)

lemma rehash_loop_ok:
  assumes "elem_chained H m (all_of segs)" "ht H = Some t" "buckets_ok t segs m" "htsize H = length t"
    and "elem_nexts m R" "distinct R" "set R \<inter> set (all_of segs) = {}"
    and "\<forall>a \<in> set R. \<exists>z d. elem_content m a = Some (z, d) \<and> nul_ended z"
    and "length R + length (all_of segs) < 2 ^ 32" "length R \<le> k"
  shows "\<exists>H' m' t' segs'. rehash_loop k (hd_opt R None) (H, m) = Ok (H', m')
    \<and> elem_chained H' m' (all_of segs') \<and> ht H' = Some t' \<and> length t' = length t \<and> htsize H' = htsize H
    \<and> hcount H' = hcount H \<and> buckets_ok t' segs' m' \<and> elem_content m' = elem_content m
    \<and> set (all_of segs') = set (all_of segs) \<union> set R"
  using assms
proof (induction R arbitrary: H m t segs k)
  case Nil
  then show ?case by auto
next
  case (Cons a R)
  obtain k' where k: "k = Suc k'" using Cons.prems(10) by (cases k) auto
  obtain e where e: "map_of m a = Some e" "he_next e = hd_opt R None" "elem_nexts m R"
    using Cons.prems(5) by (auto split: option.splits)
  have z: "nul_ended (he_pKey e)" using Cons.prems(8) e(1) by (auto simp: elem_content_def)
  have key: "key_at m a = key_of (he_pKey e)" using e(1) by (simp add: key_at_def elem_content_def)
  define b where "b = key_bucket (key_at m a) (length t)"
  have bn: "key_bucket_no (he_pKey e) (htsize H) = Ok b"
    using z Cons.prems(4) buckets_okD(1) [OF Cons.prems(3)] by (simp add: b_def key)
  have fresh: "a \<notin> set (all_of segs)" "length (all_of segs) + 1 < 2 ^ 32"
    using Cons.prems(7,9) by auto
  from insert_in_bucket [OF Cons.prems(1-3) fresh(1) e(1) fresh(2) b_def [symmetric]] obtain H1 m1 t1 where
    1: "insertElement (Some b) a (H, m) = Ok (H1, m1)" "elem_chained H1 m1 (all_of (put_front b a segs))"
      "ht H1 = Some t1" "length t1 = length t" "htsize H1 = htsize H" "hcount H1 = hcount H"
      "buckets_ok t1 (put_front b a segs) m1" "elem_content m1 = elem_content m"
      "\<forall>c. c \<notin> insert a (set (all_of segs)) \<longrightarrow> map_of m1 c = map_of m c" by blast
  have "\<forall>c \<in> set R. map_of m1 c = map_of m c" using 1(9) Cons.prems(6,7) by auto
  then have "elem_nexts m1 R" using e(3) nexts_cong by blast
  moreover have "distinct R" "set R \<inter> set (all_of (put_front b a segs)) = {}"
    using Cons.prems(6,7) by auto
  moreover have "\<forall>a \<in> set R. \<exists>z d. elem_content m1 a = Some (z, d) \<and> nul_ended z"
    using Cons.prems(8) 1(8) by simp
  moreover have "length R + length (all_of (put_front b a segs)) < 2 ^ 32" "length R \<le> k'"
    using Cons.prems(9,10) k by simp_all
  moreover have "htsize H1 = length t1" using 1(4,5) Cons.prems(4) by simp
  ultimately obtain H' m' t' segs' where
    2: "rehash_loop k' (hd_opt R None) (H1, m1) = Ok (H', m')" "elem_chained H' m' (all_of segs')" "ht H' = Some t'"
      "length t' = length t1" "htsize H' = htsize H1" "hcount H' = hcount H1" "buckets_ok t' segs' m'"
      "elem_content m' = elem_content m1" "set (all_of segs') = set (all_of (put_front b a segs)) \<union> set R"
    using Cons.IH [OF 1(2,3,7)] by blast
  have "rehash_loop k (hd_opt (a # R) None) (H, m) = Ok (H', m')"
    using k e bn 1(1) 2(1) by simp
  moreover have "set (all_of segs') = set (all_of segs) \<union> set (a # R)" using 2(9) by auto
  ultimately show ?case using 2 1(4-6,8) by auto
qed

text \<open>The allocator of tables fails or gives at least the bytes asked for, which are not none.\<close>

definition table_alloc :: "(nat \<Rightarrow> nat option) \<Rightarrow> bool" where
  "table_alloc f \<longleftrightarrow> (\<forall>n b. f n = Some b \<longrightarrow> 0 < n \<and> n \<le> b)"

definition keys_ok :: "'v cells \<Rightarrow> nat list \<Rightarrow> bool" where
  "keys_ok m L \<longleftrightarrow> (\<forall>a \<in> set L. \<exists>z d. elem_content m a = Some (z, d) \<and> nul_ended z)"

lemma length_cells: "elem_links m p L s \<Longrightarrow> distinct L \<Longrightarrow> length L \<le> length m"
proof -
  assume L: "elem_links m p L s" "distinct L"
  have "set L \<subseteq> fst ` set m" using links_cell [OF L(1)] by (force dest: map_of_SomeD)
  then have "card (set L) \<le> card (fst ` set m)" by (intro card_mono) auto
  also have "\<dots> \<le> length m" using card_image_le [of "set m" fst] card_length [of m] by simp
  finally show ?thesis using L(2) by (simp add: distinct_card)
qed

lemma buckets_ok_empty: "0 < n \<Longrightarrow> buckets_ok (replicate n \<lparr>ht_count = 0, ht_chain = None\<rparr>) [] m"
  by (simp add: buckets_ok_def segs_ok_def entry_ok_def list_all_iff)

lemma rehash_ok:
  assumes ch: "elem_chained H m (all_of segs)" and keys: "keys_ok m (all_of segs)"
    and len: "length (all_of segs) < 2 ^ 32" and alloc: "table_alloc f"
  shows "rehash f n (H, m) = Ok (False, H, m) \<or>
    (\<exists>H' m' t' segs'. rehash f n (H, m) = Ok (True, H', m') \<and> elem_chained H' m' (all_of segs')
       \<and> ht H' = Some t' \<and> htsize H' = length t' \<and> hcount H' = hcount H \<and> buckets_ok t' segs' m'
       \<and> elem_content m' = elem_content m \<and> set (all_of segs') = set (all_of segs))"
proof -
  define n' where "n' = (if n * sizeof_ht > SQLITE_MALLOC_SOFT_LIMIT then SQLITE_MALLOC_SOFT_LIMIT div sizeof_ht else n)"
  show ?thesis
  proof (cases "n' = htsize H \<or> f (n' * sizeof_ht) = None")
    case True
    then have "rehash f n (H, m) = Ok (False, H, m)" by (auto simp: rehash_def Let_def n'_def)
    then show ?thesis ..
  next
    case False
    then obtain bytes where b: "f (n' * sizeof_ht) = Some bytes" by auto
    have "0 < n' * sizeof_ht \<and> n' * sizeof_ht \<le> bytes" using alloc b unfolding table_alloc_def by blast
    then have "0 < bytes div sizeof_ht" by (simp add: sizeof_ht_def div_greater_zero_iff)
    define t where "t = replicate (bytes div sizeof_ht) \<lparr>ht_count = 0, ht_chain = None\<rparr>"
    define H0 where "H0 = H\<lparr>ht := Some t, htsize := bytes div sizeof_ht, hfirst := None\<rparr>"
    have L: "elem_links m None (all_of segs) None" "distinct (all_of segs)" "hfirst H = hd_opt (all_of segs) None"
      using ch by (simp_all add: elem_chained_def)
    have t: "buckets_ok t [] m" unfolding t_def by (rule buckets_ok_empty) fact
    have c0: "elem_chained H0 m (all_of [])" by (simp add: elem_chained_def all_of_def H0_def)
    have h0: "ht H0 = Some t" "htsize H0 = length t" "hcount H0 = hcount H" by (simp_all add: H0_def t_def)
    have "set (all_of segs) \<inter> set (all_of []) = {}" "length (all_of segs) + length (all_of []) < 2 ^ 32"
      using len by (simp_all add: all_of_def)
    from rehash_loop_ok [OF c0 h0(1) t h0(2) links_nexts [OF L(1)] L(2) this(1) keys [unfolded keys_ok_def] this(2)
        length_cells [OF L(1,2)]]
    obtain H' m' t' segs' where
      1: "rehash_loop (length m) (hd_opt (all_of segs) None) (H0, m) = Ok (H', m')" "elem_chained H' m' (all_of segs')"
        "ht H' = Some t'" "length t' = length t" "htsize H' = htsize H0" "hcount H' = hcount H0"
        "buckets_ok t' segs' m'" "elem_content m' = elem_content m" "set (all_of segs') = set (all_of []) \<union> set (all_of segs)"
      by blast
    have "rehash f n (H, m) = Ok (True, H', m')"
      using False b 1(1) L(3) unfolding rehash_def H0_def t_def n'_def [symmetric] by (simp add: Let_def n'_def)
    moreover have "set (all_of segs') = set (all_of segs)" using 1(9) by (simp add: all_of_def)
    ultimately show ?thesis using 1 h0 by auto
  qed
qed

section \<open>The operations on a table\<close>

lemma hash_okD:
  assumes "hash_ok segs (H, m)"
  shows "elem_chained H m (all_of segs)" "hcount H = length (all_of segs)" "distinct (map (key_at m) (all_of segs))"
    "keys_ok m (all_of segs)" "ht H = None \<Longrightarrow> htsize H = 0" "ht H = Some t \<Longrightarrow> htsize H = length t"
    "ht H = Some t \<Longrightarrow> buckets_ok t segs m"
  using assms by (auto simp: hash_ok_def Let_def keys_ok_def list_all_iff split: option.splits)

lemma hash_okI:
  assumes "elem_chained H m (all_of segs)" "hcount H = length (all_of segs)" "distinct (map (key_at m) (all_of segs))"
    "keys_ok m (all_of segs)" "ht H = None \<Longrightarrow> htsize H = 0"
    "\<And>t. ht H = Some t \<Longrightarrow> htsize H = length t \<and> buckets_ok t segs m"
  shows "hash_ok segs (H, m)"
  using assms by (fastforce simp: hash_ok_def Let_def keys_ok_def list_all_iff split: option.splits)

text \<open>Where the code finds a key.\<close>

definition key_hit :: "'v cells \<Rightarrow> nat list \<Rightarrow> nat list \<Rightarrow> nat option" where
  "key_hit m k L = find (\<lambda>a. key_at m a = k) L"

lemma find_loop_ok:
  assumes "elem_links m p (S @ R) s" "keys_ok m S" "nul_ended key"
  shows "find_loop m key (length S) (hd_opt (S @ R) s) = Ok (key_hit m (key_of key) S)"
  using assms
proof (induction S arbitrary: p)
  case Nil
  then show ?case by (simp add: key_hit_def)
next
  case (Cons a S)
  obtain e where e: "map_of m a = Some e" "he_next e = hd_opt (S @ R) s" "elem_links m (Some a) (S @ R) s"
    using Cons.prems(1) by (auto split: option.splits)
  have z: "nul_ended (he_pKey e)" using Cons.prems(2) e(1) by (auto simp: keys_ok_def elem_content_def)
  have key: "key_at m a = key_of (he_pKey e)" using e(1) by (simp add: key_at_def elem_content_def)
  obtain d where d: "sqlite3StrICmp (he_pKey e) key = Ok d" "d = 0 \<longleftrightarrow> key_of (he_pKey e) = key_of key"
    using stricmp_key [OF z Cons.prems(3)] by blast
  have "keys_ok m S" using Cons.prems(2) by (simp add: keys_ok_def)
  from Cons.IH [OF e(3) this Cons.prems(3)] show ?case using e d by (auto simp: key_hit_def key)
qed

lemma key_hit_unique:
  assumes "distinct (map (key_at m) L)" "a \<in> set L" "key_at m a = k"
  shows "key_hit m k L = Some a"
  using assms by (induction L) (auto simp: key_hit_def)

lemma key_hit_None: "key_hit m k L = None \<longleftrightarrow> (\<forall>a \<in> set L. key_at m a \<noteq> k)"
  by (auto simp: key_hit_def find_None_iff)

lemma key_hit_Some: "key_hit m k L = Some a \<Longrightarrow> a \<in> set L \<and> key_at m a = k"
  by (auto simp: key_hit_def find_Some_iff)

lemma key_hit_bucket:
  assumes "buckets_ok t segs m" "distinct (map (key_at m) (all_of segs))"
  shows "key_hit m k (segment segs (key_bucket k (length t))) = key_hit m k (all_of segs)"
proof (cases "key_hit m k (all_of segs)")
  case None
  have "set (segment segs b) \<subseteq> set (all_of segs)" for b
    by (induction segs b rule: segment.induct) (auto simp: all_of_def)
  with None have "key_hit m k (segment segs (key_bucket k (length t))) = None" by (auto simp: key_hit_None)
  with None show ?thesis by simp
next
  case (Some a)
  then have a: "a \<in> set (all_of segs)" "key_at m a = k" using key_hit_Some [OF Some] by auto
  then obtain b S where S: "(b, S) \<in> set segs" "a \<in> set S" by (auto simp: all_of_def)
  have "key_bucket k (length t) = b" using buckets_okD(3) [OF assms(1) S(1)] S(2) a(2) by blast
  then have s: "segment segs (key_bucket k (length t)) = S" using seg_in [OF buckets_okD(2) [OF assms(1)] S(1)] by simp
  obtain us vs where "segs = us @ (b, S) # vs" using split_list [OF S(1)] by blast
  then have "distinct (map (key_at m) S)" using assms(2) by (simp add: all_of_def)
  then show ?thesis using key_hit_unique [OF _ S(2) a(2)] Some s by simp
qed

definition key_slot :: "Hash \<Rightarrow> nat list \<Rightarrow> nat" where
  "key_slot H k = (case ht H of None \<Rightarrow> 0 | Some t \<Rightarrow> key_bucket k (length t))"

lemma findElement_ok:
  assumes ok: "hash_ok segs (H, m)" and key: "nul_ended key"
  shows "findElementWithHash (H, m) key = Ok (key_hit m (key_of key) (all_of segs), key_slot H (key_of key))"
proof -
  have L: "elem_links m None (all_of segs) None" "hfirst H = hd_opt (all_of segs) None"
    using hash_okD(1) [OF ok] by (simp_all add: elem_chained_def)
  show ?thesis
  proof (cases "ht H")
    case None
    have "elem_links m None (all_of segs @ []) None" using L(1) by simp
    from find_loop_ok [OF this hash_okD(4) [OF ok] key] show ?thesis
      using None L(2) hash_okD(2) [OF ok] by (simp add: findElementWithHash_def key_slot_def)
  next
    case (Some t)
    let ?b = "key_bucket (key_of key) (length t)"
    note t = hash_okD(6,7) [OF ok Some]
    have b: "?b < length t" using buckets_okD(1) [OF t(2)] by (simp add: key_bucket_def)
    have e: "entry_ok segs ?b (t ! ?b)" using buckets_okD(4) [OF t(2) b] .
    have "find_loop m key (ht_count (t ! ?b)) (ht_chain (t ! ?b)) = Ok (key_hit m (key_of key) (segment segs ?b))"
    proof (cases "segment segs ?b = []")
      case True
      then show ?thesis using e by (simp add: entry_ok_def key_hit_def)
    next
      case False
      then obtain us vs where "segs = us @ (?b, segment segs ?b) # vs" using split_list [OF seg_mem] by metis
      then have all: "all_of segs = all_of us @ segment segs ?b @ all_of vs" by (metis all_of_def concat.simps(2) concat_append list.simps(9) map_append snd_conv)
      have "elem_links m (last_opt None (all_of us)) (segment segs ?b @ all_of vs) None" using L(1) all by simp
      moreover have "keys_ok m (segment segs ?b)" using hash_okD(4) [OF ok] all by (simp add: keys_ok_def)
      ultimately have "find_loop m key (length (segment segs ?b)) (hd_opt (segment segs ?b @ all_of vs) None) = Ok (key_hit m (key_of key) (segment segs ?b))"
        using find_loop_ok key by blast
      then show ?thesis using e False by (simp add: entry_ok_def hd_opt_ne)
    qed
    then show ?thesis using Some t b buckets_okD(1) [OF t(2)] key
      by (simp add: findElementWithHash_def key_slot_def key_hit_bucket [OF t(2) hash_okD(3) [OF ok]])
  qed
qed

subsection \<open>Removal\<close>

definition drop_elem :: "nat \<Rightarrow> segments \<Rightarrow> segments" where
  "drop_elem a segs = filter (\<lambda>(c, S). S \<noteq> []) (map (\<lambda>(c, S). (c, filter (\<lambda>x. x \<noteq> a) S)) segs)"

lemma drop_elem_simps [simp]:
  "drop_elem a [] = []"
  "drop_elem a ((c, S) # segs) =
     (if filter (\<lambda>x. x \<noteq> a) S = [] then drop_elem a segs else (c, filter (\<lambda>x. x \<noteq> a) S) # drop_elem a segs)"
  by (simp_all add: drop_elem_def)

lemma all_of_simps [simp]: "all_of [] = []" "all_of ((c, S) # segs) = S @ all_of segs"
  "all_of (segs @ segs') = all_of segs @ all_of segs'"
  by (simp_all add: all_of_def)

lemma all_of_drop [simp]: "all_of (drop_elem a segs) = filter (\<lambda>x. x \<noteq> a) (all_of segs)"
proof (induction segs)
  case (Cons cS segs)
  then show ?case by (cases cS) simp
qed simp

lemma set_drop_elem: "(c, S) \<in> set (drop_elem a segs) \<Longrightarrow> \<exists>T. (c, T) \<in> set segs \<and> S = filter (\<lambda>x. x \<noteq> a) T \<and> S \<noteq> []"
  by (auto simp: drop_elem_def)

lemma seg_drop: "distinct (map fst segs) \<Longrightarrow> segment (drop_elem a segs) b = filter (\<lambda>x. x \<noteq> a) (segment segs b)"
proof (induction segs)
  case (Cons cS segs)
  obtain c S where cS: "cS = (c, S)" by (cases cS)
  have "segment segs c = []" using Cons.prems cS by (intro seg_out) simp
  with Cons cS show ?case by (cases "c = b") (simp_all del: filter_empty_conv)
qed simp

lemma distinct_drop: "distinct (map fst segs) \<Longrightarrow> distinct (map fst (drop_elem a segs))"
proof (induction segs)
  case (Cons cS segs)
  obtain c S where cS: "cS = (c, S)" by (cases cS)
  have "c \<notin> fst ` set (drop_elem a segs)"
    using Cons.prems cS by (auto dest!: set_drop_elem intro: rev_image_eqI)
  then show ?case using Cons cS by simp
qed simp

lemma segs_ok_drop:
  assumes "segs_ok n segs m" "\<forall>b. b \<noteq> a \<longrightarrow> key_at m' b = key_at m b"
  shows "segs_ok n (drop_elem a segs) m'"
proof -
  have "c < n \<and> S \<noteq> [] \<and> (\<forall>x \<in> set S. key_bucket (key_at m' x) n = c)" if in_S: "(c, S) \<in> set (drop_elem a segs)" for c S
  proof -
    obtain T where T: "(c, T) \<in> set segs" "S = filter (\<lambda>x. x \<noteq> a) T" "S \<noteq> []" using set_drop_elem [OF in_S] by blast
    have "c < n" "\<forall>x \<in> set T. key_bucket (key_at m x) n = c" using assms(1) T(1) by (auto simp: segs_ok_def list_all_iff)
    then show ?thesis using T(2,3) assms(2) by auto
  qed
  then show ?thesis using assms(1) distinct_drop by (auto simp: segs_ok_def list_all_iff)
qed

lemma filter_other: "a \<notin> set xs \<Longrightarrow> filter (\<lambda>x. x \<noteq> a) xs = xs"
  by (induction xs) auto

lemma dec32_Suc: "0 < n \<Longrightarrow> n < 2 ^ 32 \<Longrightarrow> dec32 n = n - 1"
  by (cases n) (simp_all add: dec32_def)

lemma leave_bucket_table:
  assumes t: "buckets_ok t segs m" "ht H = Some t" and L: "all_of segs = xs @ a # ys" "distinct (all_of segs)"
    and len: "length (all_of segs) < 2 ^ 32" and m': "elem_content m' = (elem_content m)(a := None)"
  shows "\<exists>t'. leave_bucket (key_bucket (key_at m a) (length t)) a (hd_opt ys None) H = Ok (H\<lparr>ht := Some t'\<rparr>)
    \<and> length t' = length t \<and> buckets_ok t' (drop_elem a segs) m'"
proof -
  let ?b = "key_bucket (key_at m a) (length t)"
  let ?e = "t ! ?b"
  let ?t = "t[?b := \<lparr>ht_count = dec32 (ht_count ?e),
      ht_chain = (if ht_chain ?e = Some a then hd_opt ys None else ht_chain ?e)\<rparr>]"
  have bl: "?b < length t" using buckets_okD(1) [OF t(1)] by (simp add: key_bucket_def)
  have d: "distinct (map fst segs)" using buckets_okD(2) [OF t(1)] .
  have "a \<in> set (all_of segs)" using L(1) by simp
  then obtain b S where S: "(b, S) \<in> set segs" "a \<in> set S" by (auto simp: all_of_def)
  have bS: "b = ?b" "segment segs ?b = S"
    using buckets_okD(3) [OF t(1) S(1)] seg_in [OF d S(1)] S(2) by auto
  obtain us vs where uv: "S = us @ a # vs" using split_list [OF S(2)] by blast
  obtain ps qs where pq: "segs = ps @ (b, S) # qs" using split_list [OF S(1)] by blast
  have all: "all_of segs = (all_of ps @ us) @ a # vs @ all_of qs" by (simp add: pq uv)
  have fresh: "a \<notin> set us" "a \<notin> set vs" "a \<notin> set (all_of ps)" "a \<notin> set (all_of qs)" using L(2) all by auto
  have ys: "ys = vs @ all_of qs"
    using L all by (metis append_Cons_eq_iff distinct.simps(2) distinct_append not_distinct_conv_prefix)
  have e: "ht_count ?e = length S" "ht_chain ?e = hd_opt S None"
    using buckets_okD(4) [OF t(1) bl] bS(2) uv by (auto simp: entry_ok_def)
  have "0 < length S" "length S < 2 ^ 32" using uv len length_seg [of segs ?b] bS(2) by auto
  then have cnt: "dec32 (ht_count ?e) = length S - 1" "ht_count ?e \<noteq> 0" by (simp_all add: dec32_Suc e(1))
  have step: "leave_bucket ?b a (hd_opt ys None) H = Ok (H\<lparr>ht := Some ?t\<rparr>)"
    using t(2) bl cnt(2) by (simp add: leave_bucket_def)
  have "entry_ok (drop_elem a segs) c (?t ! c)" if c: "c < length t" for c
  proof (cases "c = ?b")
    case True
    have "segment (drop_elem a segs) c = us @ vs" using fresh by (simp add: seg_drop [OF d] True bS(2) uv filter_other)
    moreover have "us @ vs \<noteq> [] \<Longrightarrow> (if ht_chain ?e = Some a then hd_opt ys None else ht_chain ?e) = hd_opt (us @ vs) None"
      using fresh(1) e(2) ys uv by (cases us; cases vs) auto
    ultimately show ?thesis using True bl cnt(1) uv by (simp add: entry_ok_def)
  next
    case False
    have "a \<notin> set (segment segs c)"
    proof
      assume in_c: "a \<in> set (segment segs c)"
      then have "(c, segment segs c) \<in> set segs" by (intro seg_mem) auto
      from buckets_okD(3) [OF t(1) this] in_c False show False by metis
    qed
    then show ?thesis using buckets_okD(4) [OF t(1) c] False
      by (simp add: entry_ok_def seg_drop [OF d] filter_other)
  qed
  moreover have "\<forall>b. b \<noteq> a \<longrightarrow> key_at m' b = key_at m b" by (simp add: key_at_def m')
  then have "segs_ok (length t) (drop_elem a segs) m'"
    using t(1) by (intro segs_ok_drop [of _ _ m]) (simp_all add: buckets_ok_def)
  ultimately have "buckets_ok ?t (drop_elem a segs) m'"
    using buckets_okD(1) [OF t(1)] by (simp add: buckets_ok_def list_all_iff)
  with step show ?thesis by (intro exI [of _ ?t]) simp
qed

lemma remove_ok:
  assumes ok: "hash_ok segs (H, m)" and a: "a \<in> set (all_of segs)" and len: "length (all_of segs) < 2 ^ 32"
  shows "\<exists>H' m' segs'. removeElementGivenHash a (key_slot H (key_at m a)) (H, m) = Ok (H', m')
    \<and> hash_ok segs' (H', m') \<and> set (all_of segs') = set (all_of segs) - {a} \<and> elem_content m' = (elem_content m)(a := None)"
proof -
  obtain xs ys where L: "all_of segs = xs @ a # ys" using split_list [OF a] by blast
  have ch: "elem_links m None (xs @ a # ys) None" "distinct (xs @ a # ys)" "hfirst H = hd_opt (xs @ a # ys) None"
    using hash_okD(1) [OF ok] L by (simp_all add: elem_chained_def)
  from unlink_list [OF ch] obtain m1 where
    1: "unlink_elem a (H, m) = Ok (H\<lparr>hfirst := hd_opt (xs @ ys) None\<rparr>, hd_opt ys None, m1)"
      "elem_links m1 None (xs @ ys) None" "elem_content m1 = elem_content m" by blast
  define H1 where "H1 = H\<lparr>hfirst := hd_opt (xs @ ys) None\<rparr>"
  define m' where "m' = elem_free a m1"
  have m': "elem_content m' = (elem_content m)(a := None)" by (simp add: m'_def 1(3))
  have drop: "all_of (drop_elem a segs) = xs @ ys" using ch(2) L by (simp add: filter_other)
  have elem_links: "elem_links m' None (xs @ ys) None" using ch(2) 1(2) by (simp add: m'_def)
  have keys: "key_at m' b = key_at m b" if "b \<in> set (xs @ ys)" for b
    using that ch(2) by (auto simp: key_at_def m')
  have kd: "distinct (map (key_at m') (xs @ ys))"
    using hash_okD(3) [OF ok] L keys by (simp cong: map_cong)
  have ko: "keys_ok m' (xs @ ys)" using hash_okD(4) [OF ok] L ch(2) by (auto simp: keys_ok_def m')
  have "length (all_of segs) = Suc (length (xs @ ys))" using L by simp
  then have cnt: "dec32 (hcount H) = length (xs @ ys)" using hash_okD(2) [OF ok] len by (simp add: dec32_Suc)
  obtain H2 where
    2: "leave_bucket (key_slot H (key_at m a)) a (hd_opt ys None) H1 = Ok H2" "hcount H2 = hcount H"
      "hfirst H2 = hd_opt (xs @ ys) None" "ht H2 = None \<Longrightarrow> htsize H2 = 0"
      "\<And>t. ht H2 = Some t \<Longrightarrow> htsize H2 = length t \<and> buckets_ok t (drop_elem a segs) m'"
  proof (cases "ht H")
    case None
    then show ?thesis using that [of H1] hash_okD(5) [OF ok] by (simp add: leave_bucket_def H1_def)
  next
    case (Some t)
    note t = hash_okD(6,7) [OF ok Some]
    have "ht H1 = Some t" by (simp add: H1_def Some)
    from leave_bucket_table [OF t(2) this L] ch(2) L len m' obtain t' where
      "leave_bucket (key_bucket (key_at m a) (length t)) a (hd_opt ys None) H1 = Ok (H1\<lparr>ht := Some t'\<rparr>)"
      "length t' = length t" "buckets_ok t' (drop_elem a segs) m'" by auto
    then show ?thesis using that [of "H1\<lparr>ht := Some t'\<rparr>"] t(1) Some by (simp add: key_slot_def H1_def)
  qed
  let ?H = "H2\<lparr>hcount := dec32 (hcount H2)\<rparr>"
  have rem: "removeElementGivenHash a (key_slot H (key_at m a)) (H, m) =
      (if hcount ?H = 0 then if hfirst ?H = None then sqlite3HashClear (?H, m') else Undef else Ok (?H, m'))"
    using 1(1) 2(1) by (simp add: removeElementGivenHash_def H1_def m'_def Let_def)
  show ?thesis
  proof (cases "xs @ ys = []")
    case True
    have "removeElementGivenHash a (key_slot H (key_at m a)) (H, m) =
        Ok (?H\<lparr>hfirst := None, ht := None, htsize := 0, hcount := 0\<rparr>, m')"
      using rem 2(2,3) cnt True by (simp add: sqlite3HashClear_def)
    moreover have "hash_ok [] (?H\<lparr>hfirst := None, ht := None, htsize := 0, hcount := 0\<rparr>, m')"
      by (rule hash_okI) (simp_all add: elem_chained_def keys_ok_def)
    moreover have "set (all_of segs) - {a} = set (all_of [])" using L True by simp
    ultimately show ?thesis using m' by metis
  next
    case False
    have "removeElementGivenHash a (key_slot H (key_at m a)) (H, m) = Ok (?H, m')"
      using rem 2(2) cnt False by auto
    moreover have "hash_ok (drop_elem a segs) (?H, m')"
      using 2 elem_links ch(2) kd ko cnt by (intro hash_okI) (simp_all add: drop elem_chained_def del: all_of_drop)
    moreover have "set (all_of (drop_elem a segs)) = set (all_of segs) - {a}" by auto
    ultimately show ?thesis using m' by blast
  qed
qed

subsection \<open>A new element\<close>

lemma buckets_ok_agree:
  assumes "buckets_ok t segs m" "\<forall>b \<in> set (all_of segs). key_at m' b = key_at m b"
  shows "buckets_ok t segs m'"
  using assms by (fastforce simp: buckets_ok_def segs_ok_def list_all_iff all_of_def)

lemma insertElement_ok:
  assumes ch: "elem_chained H m (all_of segs)" and n: "n \<notin> set (all_of segs)" "map_of m n = Some e"
    and len: "length (all_of segs) + 1 < 2 ^ 32"
    and none: "ht H = None \<longrightarrow> htsize H = 0"
    and t: "\<forall>t. ht H = Some t \<longrightarrow> htsize H = length t \<and> buckets_ok t segs m"
    and h: "ht H \<noteq> None \<longrightarrow> h = key_slot H (key_at m n)"
  shows "\<exists>H' m' segs'. insertElement (if ht H = None then None else Some h) n (H, m) = Ok (H', m')
    \<and> elem_chained H' m' (all_of segs') \<and> set (all_of segs') = insert n (set (all_of segs)) \<and> elem_content m' = elem_content m
    \<and> hcount H' = hcount H \<and> (ht H' = None \<longrightarrow> htsize H' = 0)
    \<and> (\<forall>t. ht H' = Some t \<longrightarrow> htsize H' = length t \<and> buckets_ok t segs' m')"
proof (cases "ht H")
  case None
  have L: "elem_links m None (all_of segs) None" "distinct (all_of segs)" "hfirst H = hd_opt (all_of segs) None"
    using ch by (simp_all add: elem_chained_def)
  have "enter_bucket None n H = Ok (None, H)" by (simp add: enter_bucket_def)
  from insert_front [OF L n this refl] obtain m' where
    m': "insertElement None n (H, m) = Ok (H\<lparr>hfirst := Some n\<rparr>, m')" "elem_links m' None (n # all_of segs) None"
      "elem_content m' = elem_content m" by blast
  have "elem_chained (H\<lparr>hfirst := Some n\<rparr>) m' (all_of ((0, [n]) # segs))"
    using m'(2) L(2) n(1) by (simp add: elem_chained_def)
  then show ?thesis using m' None none
    by (intro exI [of _ "H\<lparr>hfirst := Some n\<rparr>"] exI [of _ m'] exI [of _ "(0, [n]) # segs"]) simp
next
  case (Some t)
  note t = mp [OF spec [OF t] Some]
  have b: "key_bucket (key_at m n) (length t) = h" using h Some by (simp add: key_slot_def)
  from insert_in_bucket [OF ch Some conjunct2 [OF t] n len b] obtain H' m' t' where
    1: "insertElement (Some h) n (H, m) = Ok (H', m')" "elem_chained H' m' (all_of (put_front h n segs))"
      "ht H' = Some t'" "length t' = length t" "htsize H' = htsize H" "hcount H' = hcount H"
      "buckets_ok t' (put_front h n segs) m'" "elem_content m' = elem_content m" by blast
  then show ?thesis using Some t
    by (intro exI [of _ H'] exI [of _ m'] exI [of _ "put_front h n segs"]) simp
qed

lemma hash_ok_added:
  assumes old: "hash_ok segs (H, m)" and new: "\<forall>b \<in> set (all_of segs). key_at m b \<noteq> key_of key" "nul_ended key"
    and n: "n \<notin> set (all_of segs)"
    and L: "elem_chained H' m' (all_of segs')" "set (all_of segs') = insert n (set (all_of segs))"
    and m': "elem_content m' = (elem_content m)(n := Some (key, d))" and cnt: "hcount H' = Suc (hcount H)"
    and t: "ht H' = None \<longrightarrow> htsize H' = 0" "\<forall>t. ht H' = Some t \<longrightarrow> htsize H' = length t \<and> buckets_ok t segs' m'"
  shows "hash_ok segs' (H', m')"
proof (rule hash_okI)
  have d: "distinct (all_of segs')" "distinct (all_of segs)"
    using L(1) hash_okD(1) [OF old] by (simp_all add: elem_chained_def)
  have at: "key_at m' b = (if b = n then key_of key else key_at m b)" for b by (simp add: key_at_def m')
  show "hcount H' = length (all_of segs')"
    using hash_okD(2) [OF old] cnt n d L(2) by (metis card_insert_disjoint distinct_card finite_set)
  have "inj_on (key_at m) (set (all_of segs))" using hash_okD(3) [OF old] by (simp add: distinct_map)
  then have "inj_on (key_at m') (set (all_of segs'))"
    using n new(1) unfolding L(2) inj_on_def by (auto simp: at)
  then show "distinct (map (key_at m') (all_of segs'))" using d(1) by (simp add: distinct_map)
  show "keys_ok m' (all_of segs')" using hash_okD(4) [OF old] new(2) by (simp add: keys_ok_def L(2) m')
qed (use L t in auto)

text \<open>The allocator of elements fails or gives the address of no cell in use.\<close>

definition elem_alloc :: "('v cells \<Rightarrow> nat option) \<Rightarrow> bool" where
  "elem_alloc f \<longleftrightarrow> (\<forall>m a. f m = Some a \<longrightarrow> map_of m a = None)"

lemma grow_ok:
  assumes ch: "elem_chained H m (all_of segs)" and keys: "keys_ok m (all_of segs)" and len: "length (all_of segs) < 2 ^ 32"
    and key: "nul_ended key" and alloc: "table_alloc malloc_table" and none: "ht H = None \<longrightarrow> htsize H = 0"
    and t: "\<forall>t. ht H = Some t \<longrightarrow> htsize H = length t \<and> buckets_ok t segs m"
  shows "\<exists>h H' m' segs'. grow_table malloc_table key (key_slot H (key_of key)) (H, m) = Ok (h, H', m')
    \<and> elem_chained H' m' (all_of segs') \<and> hcount H' = hcount H \<and> elem_content m' = elem_content m
    \<and> set (all_of segs') = set (all_of segs) \<and> (ht H' \<noteq> None \<longrightarrow> h = key_slot H' (key_of key))
    \<and> (ht H' = None \<longrightarrow> htsize H' = 0) \<and> (\<forall>t. ht H' = Some t \<longrightarrow> htsize H' = length t \<and> buckets_ok t segs' m')"
proof -
  let ?n = "twice32 (hcount H)"
  consider (same) "grow_table malloc_table key (key_slot H (key_of key)) (H, m) = Ok (key_slot H (key_of key), H, m)"
    | (grown) "hcount H \<ge> 10 \<and> hcount H > twice32 (htsize H)" "rehash malloc_table ?n (H, m) \<noteq> Ok (False, H, m)"
    by (cases "hcount H \<ge> 10 \<and> hcount H > twice32 (htsize H)"; cases "rehash malloc_table ?n (H, m) = Ok (False, H, m)")
      (auto simp: grow_table_def)
  then show ?thesis
  proof cases
    case same
    then show ?thesis using ch none t
      by (intro exI [of _ "key_slot H (key_of key)"] exI [of _ H] exI [of _ m] exI [of _ segs]) simp
  next
    case grown
    from rehash_ok [OF ch keys len alloc, of ?n] grown(2) obtain H' m' t' segs' where
      1: "rehash malloc_table ?n (H, m) = Ok (True, H', m')" "elem_chained H' m' (all_of segs')"
        "ht H' = Some t'" "htsize H' = length t'" "hcount H' = hcount H" "buckets_ok t' segs' m'"
        "elem_content m' = elem_content m" "set (all_of segs') = set (all_of segs)" by blast
    have "0 < length t'" using buckets_okD(1) [OF 1(6)] .
    then have "grow_table malloc_table key (key_slot H (key_of key)) (H, m) = Ok (key_slot H' (key_of key), H', m')"
      using grown(1) 1(1,3,4) key by (simp add: grow_table_def key_slot_def)
    then show ?thesis using 1
      by (intro exI [of _ "key_slot H' (key_of key)"] exI [of _ H'] exI [of _ m'] exI [of _ segs']) simp
  qed
qed

lemma new_key_ok:
  assumes ok: "hash_ok segs (H, m)" and key: "nul_ended key" "key_hit m (key_of key) (all_of segs) = None"
    and alloc: "malloc m = Some a" "map_of m a = None" and tbl: "table_alloc malloc_table"
    and len: "length (all_of segs) + 1 < 2 ^ 32"
  shows "\<exists>H' m' segs'. sqlite3HashInsert malloc malloc_table key (Some d) (H, m) = Ok (None, H', m')
    \<and> hash_ok segs' (H', m') \<and> set (all_of segs') = insert a (set (all_of segs))
    \<and> elem_content m' = (elem_content m)(a := Some (key, d))"
proof -
  let ?k = "key_of key"
  let ?e = "\<lparr>he_next = None, he_prev = None, he_data = d, he_pKey = key\<rparr>"
  define H1 where "H1 = H\<lparr>hcount := inc32 (hcount H)\<rparr>"
  define m1 where "m1 = (a, ?e) # m"
  have L: "elem_links m None (all_of segs) None" "distinct (all_of segs)" "hfirst H = hd_opt (all_of segs) None"
    using hash_okD(1) [OF ok] by (simp_all add: elem_chained_def)
  have fresh: "a \<notin> set (all_of segs)" using links_cell [OF L(1)] alloc(2) by force
  have ch1: "elem_chained H1 m1 (all_of segs)" using L fresh by (simp add: elem_chained_def H1_def m1_def)
  have c1: "elem_content m1 = (elem_content m)(a := Some (key, d))" by (simp add: m1_def)
  have cnt: "hcount H1 = Suc (hcount H)" using hash_okD(2) [OF ok] len by (simp add: H1_def inc32_def)
  have h1: "ht H1 = ht H" "htsize H1 = htsize H" "key_slot H1 = key_slot H" by (simp_all add: H1_def key_slot_def fun_eq_iff)
  have agree: "\<forall>b \<in> set (all_of segs). key_at m1 b = key_at m b" using fresh by (auto simp: key_at_def c1)
  have keys1: "keys_ok m1 (all_of segs)" using hash_okD(4) [OF ok] key(1) by (auto simp: keys_ok_def c1)
  have len1: "length (all_of segs) < 2 ^ 32" using len by simp
  have none1: "ht H1 = None \<longrightarrow> htsize H1 = 0" using hash_okD(5) [OF ok] h1 by simp
  have t1: "\<forall>t. ht H1 = Some t \<longrightarrow> htsize H1 = length t \<and> buckets_ok t segs m1"
    using hash_okD(6,7) [OF ok] h1 buckets_ok_agree [OF _ agree] by simp
  from grow_ok [OF ch1 keys1 len1 key(1) tbl none1 t1] obtain h H2 m2 segs2 where
    2: "grow_table malloc_table key (key_slot H1 ?k) (H1, m1) = Ok (h, H2, m2)" "elem_chained H2 m2 (all_of segs2)"
      "hcount H2 = hcount H1" "elem_content m2 = elem_content m1" "set (all_of segs2) = set (all_of segs)"
      "ht H2 \<noteq> None \<longrightarrow> h = key_slot H2 ?k" "ht H2 = None \<longrightarrow> htsize H2 = 0"
      "\<forall>t. ht H2 = Some t \<longrightarrow> htsize H2 = length t \<and> buckets_ok t segs2 m2"
    by (elim exE conjE) (rule that)
  have fresh2: "a \<notin> set (all_of segs2)" using fresh 2(5) by simp
  have a2: "key_at m2 a = ?k" by (simp add: key_at_def 2(4) c1)
  obtain e2 where e2: "map_of m2 a = Some e2" using arg_cong [OF 2(4), of "\<lambda>f. f a"] by (auto simp: c1 elem_content_def)
  have "length (all_of segs2) = length (all_of segs)"
    using 2(2,5) L(2) by (metis elem_chained_def distinct_card)
  then have len2: "length (all_of segs2) + 1 < 2 ^ 32" using len by simp
  have h2: "ht H2 \<noteq> None \<longrightarrow> h = key_slot H2 (key_at m2 a)" using 2(6) a2 by simp
  from insertElement_ok [OF 2(2) fresh2 e2 len2 2(7,8) h2] obtain H' m' segs' where
    3: "insertElement (if ht H2 = None then None else Some h) a (H2, m2) = Ok (H', m')"
      "elem_chained H' m' (all_of segs')" "set (all_of segs') = insert a (set (all_of segs2))" "elem_content m' = elem_content m2"
      "hcount H' = hcount H2" "ht H' = None \<longrightarrow> htsize H' = 0"
      "\<forall>t. ht H' = Some t \<longrightarrow> htsize H' = length t \<and> buckets_ok t segs' m'"
    by (elim exE conjE) (rule that)
  have "sqlite3HashInsert malloc malloc_table key (Some d) (H, m) = Ok (None, H', m')"
    using 2(1) 3(1) unfolding H1_def m1_def h1(3) [unfolded H1_def]
    by (simp add: sqlite3HashInsert_def findElement_ok [OF ok key(1)] key(2) alloc(1) Let_def)
  moreover have "\<forall>b \<in> set (all_of segs). key_at m b \<noteq> ?k" using key(2) by (simp add: key_hit_None)
  then have "hash_ok segs' (H', m')"
    by (rule hash_ok_added [OF ok _ key(1) fresh 3(2)]) (use 2 3 c1 cnt in simp_all)
  ultimately show ?thesis using 3(3,4) 2(4,5) c1 by auto
qed

section \<open>The table as a map\<close>

definition table_map :: "'v cells \<Rightarrow> nat list \<Rightarrow> nat list \<Rightarrow> 'v option" where
  "table_map m L k = (case key_hit m k L of None \<Rightarrow> None | Some a \<Rightarrow> map_option snd (elem_content m a))"

text \<open>\<open>represents s f\<close>: the table is well formed and holds the map \<open>f\<close> from folded keys to data.\<close>

definition represents :: "Hash \<times> 'v cells \<Rightarrow> (nat list \<Rightarrow> 'v option) \<Rightarrow> bool" where
  "represents s f \<longleftrightarrow> (\<exists>segs. hash_ok segs s \<and> f = table_map (snd s) (all_of segs))"

lemma table_map_Some:
  assumes "hash_ok segs (H, m)"
  shows "table_map m (all_of segs) k = Some d \<longleftrightarrow> (\<exists>a \<in> set (all_of segs). \<exists>z. elem_content m a = Some (z, d) \<and> key_of z = k)"
    (is "?l \<longleftrightarrow> ?r")
proof
  assume ?l
  then obtain a z where a: "key_hit m k (all_of segs) = Some a" "elem_content m a = Some (z, d)"
    by (auto simp: table_map_def split: option.splits)
  then show ?r using key_hit_Some [OF a(1)] by (auto simp: key_at_def)
next
  assume ?r
  then obtain a z where a: "a \<in> set (all_of segs)" "elem_content m a = Some (z, d)" "key_of z = k" by blast
  then have "key_hit m k (all_of segs) = Some a"
    using key_hit_unique [OF hash_okD(3) [OF assms] a(1)] by (simp add: key_at_def)
  then show ?l using a(2) by (simp add: table_map_def)
qed

lemma table_map_eqI:
  assumes "hash_ok segs (H, m)"
    and "\<And>k d. f k = Some d \<longleftrightarrow> (\<exists>a \<in> set (all_of segs). \<exists>z. elem_content m a = Some (z, d) \<and> key_of z = k)"
  shows "table_map m (all_of segs) = f"
proof
  fix k
  have "\<forall>d. table_map m (all_of segs) k = Some d \<longleftrightarrow> f k = Some d"
    using assms(2) table_map_Some [OF assms(1)] by simp
  then show "table_map m (all_of segs) k = f k" by (metis option.exhaust_sel option.sel option.simps(3))
qed

lemma table_map_dom:
  assumes "hash_ok segs (H, m)"
  shows "dom (table_map m (all_of segs)) = key_at m ` set (all_of segs)"
    "card (dom (table_map m (all_of segs))) = length (all_of segs)"
proof -
  show d: "dom (table_map m (all_of segs)) = key_at m ` set (all_of segs)"
  proof (rule set_eqI)
    fix k
    have "k \<in> dom (table_map m (all_of segs)) \<longleftrightarrow> (\<exists>d. table_map m (all_of segs) k = Some d)" by auto
    also have "\<dots> \<longleftrightarrow> (\<exists>d. \<exists>a \<in> set (all_of segs). \<exists>z. elem_content m a = Some (z, d) \<and> key_of z = k)"
      by (simp only: table_map_Some [OF assms])
    also have "\<dots> \<longleftrightarrow> (\<exists>a \<in> set (all_of segs). key_at m a = k)"
    proof -
      have "(\<exists>z d. elem_content m a = Some (z, d) \<and> key_of z = k) \<longleftrightarrow> key_at m a = k" if "a \<in> set (all_of segs)" for a
        using that hash_okD(4) [OF assms] unfolding keys_ok_def key_at_def by force
      then show ?thesis by blast
    qed
    also have "\<dots> \<longleftrightarrow> k \<in> key_at m ` set (all_of segs)" by auto
    finally show "k \<in> dom (table_map m (all_of segs)) \<longleftrightarrow> k \<in> key_at m ` set (all_of segs)" .
  qed
  show "card (dom (table_map m (all_of segs))) = length (all_of segs)"
    unfolding d using hash_okD(3) [OF assms] by (metis distinct_card length_map set_map)
qed

lemma key_hit_content:
  assumes "hash_ok segs (H, m)" "key_hit m k (all_of segs) = Some a"
  shows "\<exists>z d. elem_content m a = Some (z, d) \<and> nul_ended z \<and> key_of z = k \<and> table_map m (all_of segs) k = Some d"
proof -
  obtain z d where a: "elem_content m a = Some (z, d)" "nul_ended z"
    using key_hit_Some [OF assms(2)] hash_okD(4) [OF assms(1)] by (auto simp: keys_ok_def)
  then show ?thesis using key_hit_Some [OF assms(2)] assms(2) by (auto simp: key_at_def table_map_def)
qed

lemma represents_init: "represents (sqlite3HashInit, m) (\<lambda>k. None)"
proof -
  have "hash_ok [] (sqlite3HashInit, m)"
    by (rule hash_okI) (simp_all add: sqlite3HashInit_def elem_chained_def keys_ok_def)
  then show ?thesis unfolding represents_def
    by (intro exI [of _ "[]"]) (simp add: table_map_def key_hit_def fun_eq_iff)
qed

lemma represents_find:
  assumes "represents s f" "nul_ended key"
  shows "sqlite3HashFind s key = Ok (f (key_of key))"
proof -
  obtain H m where s: "s = (H, m)" by (cases s)
  obtain segs where ok: "hash_ok segs (H, m)" and f: "f = table_map m (all_of segs)"
    using assms(1) by (auto simp: represents_def s)
  show ?thesis
  proof (cases "key_hit m (key_of key) (all_of segs)")
    case None
    then show ?thesis using findElement_ok [OF ok assms(2)] by (simp add: sqlite3HashFind_def s f table_map_def)
  next
    case (Some a)
    obtain z d where "elem_content m a = Some (z, d)" "table_map m (all_of segs) (key_of key) = Some d"
      using key_hit_content [OF ok Some] by blast
    then show ?thesis using findElement_ok [OF ok assms(2)] Some
      by (auto simp: sqlite3HashFind_def s f elem_content_def)
  qed
qed

lemma represents_remove:
  assumes ok: "hash_ok segs (H, m)" and hit: "key_hit m k (all_of segs) = Some a" and len: "length (all_of segs) < 2 ^ 32"
  shows "\<exists>s'. removeElementGivenHash a (key_slot H k) (H, m) = Ok s'
    \<and> represents s' ((table_map m (all_of segs))(k := None))"
proof -
  have a: "a \<in> set (all_of segs)" "key_at m a = k" using key_hit_Some [OF hit] by simp_all
  from remove_ok [OF ok a(1) len] obtain H' m' segs' where
    1: "removeElementGivenHash a (key_slot H k) (H, m) = Ok (H', m')" "hash_ok segs' (H', m')"
      "set (all_of segs') = set (all_of segs) - {a}" "elem_content m' = (elem_content m)(a := None)"
    unfolding a(2) by (elim exE conjE) (rule that)
  have other: "key_of z \<noteq> k" if "b \<in> set (all_of segs)" "b \<noteq> a" "elem_content m b = Some (z, d)" for b z d
  proof
    assume "key_of z = k"
    then have "key_hit m k (all_of segs) = Some b"
      using key_hit_unique [OF hash_okD(3) [OF ok] that(1)] that(3) by (simp add: key_at_def)
    with hit that(2) show False by simp
  qed
  have "table_map m' (all_of segs') = (table_map m (all_of segs))(k := None)"
  proof (rule table_map_eqI [OF 1(2)])
    fix k' d
    show "((table_map m (all_of segs))(k := None)) k' = Some d \<longleftrightarrow>
        (\<exists>b \<in> set (all_of segs'). \<exists>z. elem_content m' b = Some (z, d) \<and> key_of z = k')"
    proof (cases "k' = k")
      case True
      then show ?thesis using other unfolding 1(3,4) by auto
    next
      case False
      have "key_of z \<noteq> k'" if "elem_content m a = Some (z, d)" for z d
        using that a(2) False by (simp add: key_at_def)
      then show ?thesis using False table_map_Some [OF ok, of k' d] unfolding 1(3,4) by auto
    qed
  qed
  with 1(1,2) show ?thesis by (auto simp: represents_def)
qed

lemma represents_replace:
  assumes ok: "hash_ok segs (H, m)" and hit: "key_hit m (key_of key) (all_of segs) = Some a" and key: "nul_ended key"
  shows "\<exists>m'. elem_store a (\<lambda>e. e\<lparr>he_data := d, he_pKey := key\<rparr>) m = Ok m'
    \<and> represents (H, m') ((table_map m (all_of segs))(key_of key := Some d))"
proof -
  have a: "a \<in> set (all_of segs)" "key_at m a = key_of key" using key_hit_Some [OF hit] by simp_all
  obtain e where e: "map_of m a = Some e"
    using hash_okD(1) [OF ok] links_cell a(1) unfolding elem_chained_def by blast
  let ?m = "(a, e\<lparr>he_data := d, he_pKey := key\<rparr>) # m"
  have c: "elem_content ?m = (elem_content m)(a := Some (key, d))" by simp
  have at: "key_at ?m = key_at m" using a(2) by (auto simp: key_at_def c fun_eq_iff)
  have elem_links: "elem_links ?m p L s = elem_links m p L s" for p L s
    by (induction L arbitrary: p) (auto simp: e split: option.splits)
  have ok': "hash_ok segs (H, ?m)"
  proof (rule hash_okI)
    show "elem_chained H ?m (all_of segs)" using hash_okD(1) [OF ok] unfolding elem_chained_def elem_links .
    show "hcount H = length (all_of segs)" by (rule hash_okD(2) [OF ok])
    show "distinct (map (key_at ?m) (all_of segs))" unfolding at by (rule hash_okD(3) [OF ok])
    show "keys_ok ?m (all_of segs)" using hash_okD(4) [OF ok] key unfolding keys_ok_def c by simp
    show "htsize H = 0" if "ht H = None" using that by (rule hash_okD(5) [OF ok])
    show "htsize H = length t \<and> buckets_ok t segs ?m" if "ht H = Some t" for t
      using hash_okD(6,7) [OF ok that] buckets_ok_agree [of t segs m ?m] at by metis
  qed
  have "table_map ?m (all_of segs) = (table_map m (all_of segs))(key_of key := Some d)"
  proof
    fix k
    have same: "key_hit ?m k (all_of segs) = key_hit m k (all_of segs)" unfolding key_hit_def at ..
    show "table_map ?m (all_of segs) k = ((table_map m (all_of segs))(key_of key := Some d)) k"
    proof (cases "key_hit m k (all_of segs)")
      case None
      then have "k \<noteq> key_of key" using hit by auto
      then show ?thesis using None by (simp add: table_map_def same)
    next
      case (Some b)
      show ?thesis
      proof (cases "b = a")
        case True
        then have "k = key_of key" using key_hit_Some [OF Some] a(2) by simp
        then show ?thesis using Some True unfolding table_map_def same c by simp
      next
        case False
        then have "k \<noteq> key_of key" using hit Some by auto
        then show ?thesis using Some False unfolding table_map_def same c by simp
      qed
    qed
  qed
  then have "represents (H, ?m) ((table_map m (all_of segs))(key_of key := Some d))"
    unfolding represents_def using ok' by (intro exI [of _ segs]) simp
  then show ?thesis using e by (intro exI [of _ ?m]) simp
qed

text \<open>The outcome of an insertion: the map is updated, or the allocator fails and nothing changes.\<close>

lemma insert_outcome:
  assumes rep: "represents s f" and key: "nul_ended key" and alloc: "elem_alloc malloc" "table_alloc malloc_table"
    and room: "card (dom f) + 1 < 2 ^ 32"
  shows "(\<exists>s'. sqlite3HashInsert malloc malloc_table key data s = Ok (f (key_of key), s')
            \<and> represents s' (f(key_of key := data)))
     \<or> (malloc (snd s) = None \<and> f (key_of key) = None \<and> data \<noteq> None
        \<and> sqlite3HashInsert malloc malloc_table key data s = Ok (data, s))"
proof -
  obtain H m where s: "s = (H, m)" by (cases s)
  obtain segs where ok: "hash_ok segs (H, m)" and f: "f = table_map m (all_of segs)"
    using rep by (auto simp: represents_def s)
  let ?k = "key_of key"
  note found = findElement_ok [OF ok key]
  have len: "length (all_of segs) + 1 < 2 ^ 32" using room table_map_dom(2) [OF ok] f by simp
  show ?thesis
  proof (cases "key_hit m ?k (all_of segs)")
    case (Some a)
    obtain z d where d: "elem_content m a = Some (z, d)" "f ?k = Some d" using key_hit_content [OF ok Some] f by blast
    then obtain e where e: "map_of m a = Some e" "he_data e = d" by (auto simp: elem_content_def)
    show ?thesis
    proof (cases data)
      case None
      have "length (all_of segs) < 2 ^ 32" using len by simp
      from represents_remove [OF ok Some this] obtain s' where
        "removeElementGivenHash a (key_slot H ?k) (H, m) = Ok s'" "represents s' (f(?k := None))" using f by blast
      then show ?thesis using found Some e d(2) None by (simp add: sqlite3HashInsert_def s)
    next
      case data: (Some d')
      from represents_replace [OF ok Some key, of d'] obtain m' where
        "elem_store a (\<lambda>e. e\<lparr>he_data := d', he_pKey := key\<rparr>) m = Ok m'" "represents (H, m') (f(?k := Some d'))" using f by blast
      then show ?thesis using found Some e d(2) data by (simp add: sqlite3HashInsert_def s del: cell_simps(2))
    qed
  next
    case None
    then have fk: "f ?k = None" by (simp add: f table_map_def)
    show ?thesis
    proof (cases data)
      case N: None
      have "f(?k := None) = f" using fk by (rule fun_upd_idem)
      then show ?thesis using found None N fk rep by (simp add: sqlite3HashInsert_def s)
    next
      case data: (Some d)
      show ?thesis
      proof (cases "malloc m")
        case N: None
        then show ?thesis using found None data fk by (simp add: sqlite3HashInsert_def s)
      next
        case A: (Some a)
        have free: "map_of m a = None" using alloc(1) A by (simp add: elem_alloc_def)
        from new_key_ok [where malloc = malloc and a = a and d = d, OF ok key None A free alloc(2) len] obtain H' m' segs' where
          1: "sqlite3HashInsert malloc malloc_table key (Some d) (H, m) = Ok (None, H', m')" "hash_ok segs' (H', m')"
            "set (all_of segs') = insert a (set (all_of segs))" "elem_content m' = (elem_content m)(a := Some (key, d))"
          by (elim exE conjE) (rule that)
        have no: "elem_content m a = None" using free by (simp add: elem_content_def)
        have "table_map m' (all_of segs') = f(?k := Some d)"
        proof (rule table_map_eqI [OF 1(2)])
          fix k' d'
          have other: "key_of z \<noteq> ?k" if "b \<in> set (all_of segs)" "elem_content m b = Some (z, x)" for b z x
            using None that by (auto simp: key_hit_None key_at_def)
          have "a \<notin> set (all_of segs)" using hash_okD(4) [OF ok] no by (force simp: keys_ok_def)
          then have old: "((elem_content m)(a := Some (key, d))) b = elem_content m b" if "b \<in> set (all_of segs)" for b
            using that by auto
          show "(f(?k := Some d)) k' = Some d' \<longleftrightarrow>
              (\<exists>b \<in> set (all_of segs'). \<exists>z. elem_content m' b = Some (z, d') \<and> key_of z = k')"
          proof (cases "k' = ?k")
            case True
            then show ?thesis using other unfolding 1(3,4) by (auto simp: old simp del: fun_upd_apply) (auto simp: old)
          next
            case False
            then show ?thesis using table_map_Some [OF ok, of k' d'] unfolding 1(3,4) f by (simp add: old del: fun_upd_apply) simp
          qed
        qed
        then show ?thesis using 1(1,2) data fk by (auto simp: represents_def s)
      qed
    qed
  qed
qed

section \<open>Histories of operations\<close>

datatype 'v table_op = Look "8 word list" | Put "8 word list" "'v option"

fun op_key :: "'v table_op \<Rightarrow> 8 word list" where
  "op_key (Look k) = k"
| "op_key (Put k d) = k"

text \<open>The answers of a history of operations, on a table and on a map from keys \<open>norm k\<close>.\<close>

fun run_ops ::
  "('s \<Rightarrow> 8 word list \<Rightarrow> 'v option res) \<Rightarrow> (8 word list \<Rightarrow> 'v option \<Rightarrow> 's \<Rightarrow> ('v option \<times> 's) res) \<Rightarrow>
     'v table_op list \<Rightarrow> 's \<Rightarrow> ('v option list \<times> 's) res" where
  "run_ops look put [] s = Ok ([], s)"
| "run_ops look put (Look k # ops) s =
     bind_res (look s k) (\<lambda>r. map_res (\<lambda>(rs, s). (r # rs, s)) (run_ops look put ops s))"
| "run_ops look put (Put k d # ops) s =
     bind_res (put k d s) (\<lambda>(r, s). map_res (\<lambda>(rs, s). (r # rs, s)) (run_ops look put ops s))"

fun map_ops :: "(8 word list \<Rightarrow> 'k) \<Rightarrow> 'v table_op list \<Rightarrow> ('k \<Rightarrow> 'v option) \<Rightarrow> 'v option list" where
  "map_ops norm [] f = []"
| "map_ops norm (Look k # ops) f = f (norm k) # map_ops norm ops f"
| "map_ops norm (Put k d # ops) f = f (norm k) # map_ops norm ops (f(norm k := d))"

text \<open>The contract of a table whose keys are compared after a normalisation.\<close>

locale keyed_table =
  fixes rel :: "'s \<Rightarrow> ('k \<Rightarrow> 'v option) \<Rightarrow> bool"
    and norm :: "8 word list \<Rightarrow> 'k" and key_valid :: "8 word list \<Rightarrow> bool" and limit :: nat
    and look :: "'s \<Rightarrow> 8 word list \<Rightarrow> 'v option res"
    and put :: "8 word list \<Rightarrow> 'v option \<Rightarrow> 's \<Rightarrow> ('v option \<times> 's) res"
  assumes look_ok: "rel s f \<Longrightarrow> key_valid k \<Longrightarrow> look s k = Ok (f (norm k))"
    and put_ok: "rel s f \<Longrightarrow> key_valid k \<Longrightarrow> card (dom f) + 1 < limit \<Longrightarrow>
      \<exists>s'. put k d s = Ok (f (norm k), s') \<and> rel s' (f(norm k := d))"
    and finite_keys: "rel s f \<Longrightarrow> finite (dom f)"
begin

lemma card_dom_upd:
  assumes "rel s f"
  shows "card (dom (f(k := d))) \<le> Suc (card (dom f))"
proof -
  have "card (dom (f(k := d))) \<le> card (insert k (dom f))"
    by (rule card_mono) (use finite_keys [OF assms] in auto)
  also have "\<dots> \<le> Suc (card (dom f))" by (rule card_insert_le_m1) simp_all
  finally show ?thesis .
qed

lemma answers:
  assumes "rel s f" "\<forall>p \<in> set ops. key_valid (op_key p)" "card (dom f) + length ops < limit"
  shows "\<exists>s'. run_ops look put ops s = Ok (map_ops norm ops f, s')"
  using assms
proof (induction ops arbitrary: s f)
  case (Cons p ops)
  show ?case
  proof (cases p)
    case (Look k)
    have "card (dom f) + length ops < limit" using Cons.prems(3) by simp
    with Cons.IH [OF Cons.prems(1)] Cons.prems(2) obtain s' where "run_ops look put ops s = Ok (map_ops norm ops f, s')" by auto
    then show ?thesis using look_ok [OF Cons.prems(1), of k] Cons.prems(2) Look by simp
  next
    case (Put k d)
    have "key_valid k" "card (dom f) + 1 < limit" using Cons.prems(2,3) Put by simp_all
    from put_ok [OF Cons.prems(1) this, of d] obtain s1 where
      1: "put k d s = Ok (f (norm k), s1)" "rel s1 (f(norm k := d))" by blast
    have "card (dom (f(norm k := d))) + length ops < limit"
      using card_dom_upd [OF Cons.prems(1), of "norm k" d] Cons.prems(3) by simp
    moreover have "\<forall>p \<in> set ops. key_valid (op_key p)" using Cons.prems(2) by simp
    ultimately obtain s' where "run_ops look put ops s1 = Ok (map_ops norm ops (f(norm k := d)), s')"
      using Cons.IH [OF 1(2)] by blast
    then show ?thesis using 1(1) Put by simp
  qed
qed simp

end

text \<open>The hash table keeps the contract as long as its allocators give memory.\<close>

locale hash_alloc =
  fixes malloc :: "'v cells \<Rightarrow> nat option" and malloc_table :: "nat \<Rightarrow> nat option"
  assumes elems: "elem_alloc malloc" and never_fails: "malloc m \<noteq> None" and tables: "table_alloc malloc_table"
begin

lemma put_represents:
  assumes "represents s f" "nul_ended k" "card (dom f) + 1 < 2 ^ 32"
  shows "\<exists>s'. sqlite3HashInsert malloc malloc_table k d s = Ok (f (key_of k), s') \<and> represents s' (f(key_of k := d))"
  using insert_outcome [OF assms(1,2) elems tables assms(3), of d] never_fails by blast

end

lemma represents_finite: "represents s f \<Longrightarrow> finite (dom f)"
proof -
  assume "represents s f"
  then obtain segs where "hash_ok segs (fst s, snd s)" "f = table_map (snd s) (all_of segs)"
    by (auto simp: represents_def)
  then show ?thesis using table_map_dom(1) by (metis finite_imageI finite_set)
qed

sublocale hash_alloc \<subseteq> tab: keyed_table represents key_of nul_ended "2 ^ 32" sqlite3HashFind
  "sqlite3HashInsert malloc malloc_table"
  by unfold_locales (use represents_find put_represents represents_finite in blast)+

context hash_alloc
begin

lemma history:
  "\<forall>p \<in> set ops. nul_ended (op_key p) \<Longrightarrow> length ops < 2 ^ 32 \<Longrightarrow>
   \<exists>s'. run_ops sqlite3HashFind (sqlite3HashInsert malloc malloc_table) ops (sqlite3HashInit, [])
     = Ok (map_ops key_of ops (\<lambda>k. None), s')"
  using tab.answers [OF represents_init] by simp

end

text \<open>Allocators that always have memory: the address after the largest in use, and the bytes asked for.\<close>

definition next_address :: "'v cells \<Rightarrow> nat option" where
  "next_address m = Some (Suc (fold (max \<circ> fst) m 0))"

definition exact_bytes :: "nat \<Rightarrow> nat option" where
  "exact_bytes n = (if n = 0 then None else Some n)"

lemma fold_max_upper: "(x :: nat) \<le> fold (max \<circ> fst) m x \<and> (\<forall>p \<in> set m. fst p \<le> fold (max \<circ> fst) m x)"
proof (induction m arbitrary: x)
  case (Cons p m)
  from Cons.IH [of "max (fst p) x"] show ?case by (auto simp: max.bounded_iff)
qed simp

interpretation bump: hash_alloc "next_address :: 'v cells \<Rightarrow> nat option" exact_bytes
proof
  have "map_of m (Suc (fold (max \<circ> fst) m 0)) = None" for m :: "'v cells"
    using fold_max_upper [where m = m and x = 0] by (force simp: map_of_eq_None_iff)
  then show "elem_alloc (next_address :: 'v cells \<Rightarrow> nat option)" by (simp add: elem_alloc_def next_address_def)
qed (simp_all add: table_alloc_def exact_bytes_def next_address_def)

section \<open>Properties\<close>


definition sample_ops :: "nat table_op list" where
  "sample_ops = [Put [97, 66, 0] (Some 7), Look [65, 98, 0], Put [65, 66, 0, 5] None, Look [97, 98, 0]]"

lemma sample_ops_answers: "map_ops key_of sample_ops (\<lambda>k. None) = [None, Some 7, Some 7, None]"
  by (simp add: sample_ops_def charMap_def sqlite3UpperToLower_entries)


text \<open>
  \<open>sqlite3HashInsert\<close> returns the old data and leaves a well formed table with the new data
  under its key, or without the key when the data is null; when no element can be allocated it
  returns the new data and leaves the table as it was.
\<close>

theorem hash_insert_outcome:
  assumes "represents s f" "nul_ended key" "elem_alloc malloc" "table_alloc malloc_table" "card (dom f) + 1 < 2 ^ 32"
  shows "if f (key_of key) = None \<and> data \<noteq> None \<and> malloc (snd s) = None
    then sqlite3HashInsert malloc malloc_table key data s = Ok (data, s)
    else \<exists>s'. sqlite3HashInsert malloc malloc_table key data s = Ok (f (key_of key), s')
           \<and> represents s' (f(key_of key := data))"
proof (cases "f (key_of key) = None \<and> data \<noteq> None \<and> malloc (snd s) = None")
  case True
  obtain segs where "hash_ok segs (fst s, snd s)" "f = table_map (snd s) (all_of segs)"
    using assms(1) by (auto simp: represents_def)
  moreover from this True have "key_hit (snd s) (key_of key) (all_of segs) = None"
    using key_hit_content by (metis not_None_eq)
  ultimately have "findElementWithHash s key = Ok (None, key_slot (fst s) (key_of key))"
    using findElement_ok [OF _ assms(2)] by (metis prod.collapse)
  then show ?thesis using True by (auto simp: sqlite3HashInsert_def)
next
  case False
  then show ?thesis using insert_outcome [OF assms, of data] by auto
qed

theorem hash_insert_outcome_witness:
  "sqlite3HashInsert (\<lambda>m. None) exact_bytes [120, 0] (Some (1 :: nat)) (sqlite3HashInit, []) = Ok (Some 1, sqlite3HashInit, [])"
  using hash_insert_outcome [OF represents_init, where key = "[120, 0]" and malloc = "\<lambda>m. None" and m1 = "[]" and malloc_table = exact_bytes and data = "Some (1 :: nat)"] bump.tables
  by (simp add: elem_alloc_def)

end
