(* ===== verification/SqUtf.thy ===== *)
theory SqUtf
  imports SqChars "HOL-Library.Word"
begin

unbundle bit_operations_syntax

text \<open>
  The text encodings of \<open>utf.c\<close>: writing and reading a character in UTF-8 and UTF-16, the
  translations of a text between the encodings, and the lengths in characters. A text is the list
  of its bytes; a read behind its end is \<open>Undef\<close>.
\<close>

section \<open>Writing a character\<close>

definition WRITE_UTF8 :: "32 word \<Rightarrow> 8 word list" where
  "WRITE_UTF8 c =
     (if c < 0x80 then [ucast (c AND 0xFF)]
      else if c < 0x800 then
        [0xC0 + ucast (drop_bit 6 c AND 0x1F), 0x80 + ucast (c AND 0x3F)]
      else if c < 0x10000 then
        [0xE0 + ucast (drop_bit 12 c AND 0x0F), 0x80 + ucast (drop_bit 6 c AND 0x3F), 0x80 + ucast (c AND 0x3F)]
      else
        [0xF0 + ucast (drop_bit 18 c AND 0x07), 0x80 + ucast (drop_bit 12 c AND 0x3F),
         0x80 + ucast (drop_bit 6 c AND 0x3F), 0x80 + ucast (c AND 0x3F)])"

definition WRITE_UTF16LE :: "32 word \<Rightarrow> 8 word list" where
  "WRITE_UTF16LE c =
     (if c \<le> 0xFFFF then [ucast (c AND 0x00FF), ucast (drop_bit 8 c AND 0x00FF)]
      else
        [ucast ((drop_bit 10 c AND 0x003F) + (drop_bit 10 (c - 0x10000) AND 0x00C0)),
         ucast (0x00D8 + (drop_bit 18 (c - 0x10000) AND 0x03)),
         ucast (c AND 0x00FF),
         ucast (0x00DC + (drop_bit 8 c AND 0x03))])"

definition WRITE_UTF16BE :: "32 word \<Rightarrow> 8 word list" where
  "WRITE_UTF16BE c =
     (if c \<le> 0xFFFF then [ucast (drop_bit 8 c AND 0x00FF), ucast (c AND 0x00FF)]
      else
        [ucast (0x00D8 + (drop_bit 18 (c - 0x10000) AND 0x03)),
         ucast ((drop_bit 10 c AND 0x003F) + (drop_bit 10 (c - 0x10000) AND 0x00C0)),
         ucast (0x00DC + (drop_bit 8 c AND 0x03)),
         ucast (c AND 0x00FF)])"

section \<open>Reading UTF-8\<close>

definition sqlite3Utf8Trans1 :: "nat list" where
  "sqlite3Utf8Trans1 = [
     0x00, 0x01, 0x02, 0x03, 0x04, 0x05, 0x06, 0x07,
     0x08, 0x09, 0x0A, 0x0B, 0x0C, 0x0D, 0x0E, 0x0F,
     0x10, 0x11, 0x12, 0x13, 0x14, 0x15, 0x16, 0x17,
     0x18, 0x19, 0x1A, 0x1B, 0x1C, 0x1D, 0x1E, 0x1F,
     0x00, 0x01, 0x02, 0x03, 0x04, 0x05, 0x06, 0x07,
     0x08, 0x09, 0x0A, 0x0B, 0x0C, 0x0D, 0x0E, 0x0F,
     0x00, 0x01, 0x02, 0x03, 0x04, 0x05, 0x06, 0x07,
     0x00, 0x01, 0x02, 0x03, 0x00, 0x01, 0x00, 0x00]"

definition utf8_check :: "32 word \<Rightarrow> 32 word" where
  "utf8_check c =
     (if c < 0x80 \<or> c AND 0xFFFFF800 = 0xD800 \<or> c AND 0xFFFFFFFE = 0xFFFE then 0xFFFD else c)"

text \<open>
  \<open>READ_UTF8(zIn, zTerm, c)\<close> on the bytes before \<open>zTerm\<close>, the first of them given apart; the
  table has an entry for each of the 64 first bytes.
\<close>

fun read_tail :: "32 word \<Rightarrow> 8 word list \<Rightarrow> 32 word \<times> 8 word list" where
  "read_tail c [] = (c, [])"
| "read_tail c (b # z) =
     (if b AND 0xC0 = 0x80 then read_tail (push_bit 6 c + ucast (0x3F AND b)) z else (c, b # z))"

definition READ_UTF8 :: "8 word \<Rightarrow> 8 word list \<Rightarrow> 32 word \<times> 8 word list" where
  "READ_UTF8 b z =
     (if b \<ge> 0xC0 then
        let (c, z) = read_tail (word_of_nat (sqlite3Utf8Trans1 ! unat (b - 0xC0))) z in (utf8_check c, z)
      else (ucast b, z))"

text \<open>\<open>sqlite3Utf8Read\<close> relies on the byte that ends the text.\<close>

fun utf8_read_tail :: "32 word \<Rightarrow> 8 word list \<Rightarrow> (32 word \<times> 8 word list) res" where
  "utf8_read_tail c [] = Undef"
| "utf8_read_tail c (b # z) =
     (if b AND 0xC0 = 0x80 then utf8_read_tail (push_bit 6 c + ucast (0x3F AND b)) z else Ok (c, b # z))"

fun sqlite3Utf8Read :: "8 word list \<Rightarrow> (32 word \<times> 8 word list) res" where
  "sqlite3Utf8Read [] = Undef"
| "sqlite3Utf8Read (b # z) =
     (if b \<ge> 0xC0 then
        map_res (\<lambda>(c, z). (utf8_check c, z))
          (bind_res (vec_idx sqlite3Utf8Trans1 (unat (b - 0xC0))) (\<lambda>t. utf8_read_tail (word_of_nat t) z))
      else Ok (ucast b, z))"

section \<open>Translating a text\<close>

lemma read_tail_shorter: "length (snd (read_tail c z)) \<le> length z"
  by (induction c z rule: read_tail.induct) auto

lemma READ_UTF8_shorter: "length (snd (READ_UTF8 b z)) \<le> length z"
  by (simp add: READ_UTF8_def read_tail_shorter split: prod.split) (metis read_tail_shorter snd_conv)

function utf8_to :: "(32 word \<Rightarrow> 8 word list) \<Rightarrow> 8 word list \<Rightarrow> 8 word list" where
  "utf8_to write [] = []"
| "utf8_to write (b # z) = write (fst (READ_UTF8 b z)) @ utf8_to write (snd (READ_UTF8 b z))"
  by pat_completeness auto

termination
  by (relation "measure (length \<circ> snd)") (simp_all add: READ_UTF8_shorter le_imp_less_Suc)

text \<open>The 16-bit unit in two bytes, and the character of two surrogates.\<close>

definition unit16 :: "bool \<Rightarrow> 8 word \<Rightarrow> 8 word \<Rightarrow> 32 word" where
  "unit16 le a b = (if le then ucast a + push_bit 8 (ucast b) else push_bit 8 (ucast a) + ucast b)"

definition surrogates :: "32 word \<Rightarrow> 32 word \<Rightarrow> 32 word" where
  "surrogates c c2 = (c2 AND 0x03FF) + push_bit 10 (c AND 0x003F) + push_bit 10 ((c AND 0x03C0) + 0x0040)"

fun utf16_to_utf8 :: "bool \<Rightarrow> 8 word list \<Rightarrow> 8 word list res" where
  "utf16_to_utf8 le [] = Ok []"
| "utf16_to_utf8 le [a] = Undef"
| "utf16_to_utf8 le (a # b # z) =
     (let c = unit16 le a b in
      if 0xD800 \<le> c \<and> c < 0xE000 then
        (case z of
           [] \<Rightarrow> Ok (WRITE_UTF8 c)
         | [x] \<Rightarrow> Undef
         | x # y # z' \<Rightarrow> map_res ((@) (WRITE_UTF8 (surrogates c (unit16 le x y)))) (utf16_to_utf8 le z'))
      else map_res ((@) (WRITE_UTF8 c)) (utf16_to_utf8 le z))"

fun swap_bytes :: "8 word list \<Rightarrow> 8 word list" where
  "swap_bytes (a # b # z) = b # a # swap_bytes z"
| "swap_bytes z = z"

section \<open>Lengths\<close>

text \<open>\<open>SQLITE_SKIP_UTF8\<close> and \<open>sqlite3Utf8CharLen\<close>; \<open>n\<close> bytes are left before \<open>zTerm\<close>.\<close>

fun skip_tail :: "8 word list \<Rightarrow> 8 word list res" where
  "skip_tail [] = Undef"
| "skip_tail (b # z) = (if b AND 0xC0 = 0x80 then skip_tail z else Ok (b # z))"

fun SQLITE_SKIP_UTF8 :: "8 word list \<Rightarrow> 8 word list res" where
  "SQLITE_SKIP_UTF8 [] = Undef"
| "SQLITE_SKIP_UTF8 (b # z) = (if b \<ge> 0xC0 then skip_tail z else Ok z)"

lemma skip_tail_shorter: "skip_tail z = Ok z' \<Longrightarrow> length z' \<le> length z"
  by (induction z) (auto split: if_splits)

lemma skip_shorter: "SQLITE_SKIP_UTF8 z = Ok z' \<Longrightarrow> length z' < length z"
  by (cases z) (auto dest: skip_tail_shorter split: if_splits)

text \<open>The bytes that are left before \<open>zTerm\<close>, when there is one.\<close>

function char_len_loop :: "8 word list \<Rightarrow> nat option \<Rightarrow> nat res" where
  "char_len_loop z left =
     bind_res (vec_idx z 0) (\<lambda>b.
       if b \<noteq> 0 \<and> left \<noteq> Some 0 then
         (case SQLITE_SKIP_UTF8 z of
            Ok z' \<Rightarrow> map_res Suc (char_len_loop z' (map_option (\<lambda>n. n - (length z - length z')) left))
          | _ \<Rightarrow> Undef)
       else Ok 0)"
  by pat_completeness auto

termination
  by (relation "measure (length \<circ> fst)") (simp_all add: skip_shorter)

declare char_len_loop.simps [simp del]

definition sqlite3Utf8CharLen :: "8 word list \<Rightarrow> int \<Rightarrow> nat res" where
  "sqlite3Utf8CharLen zIn nByte = char_len_loop zIn (if nByte \<ge> 0 then Some (nat nByte) else None)"

text \<open>\<open>sqlite3Utf16ByteLen\<close>; the native order is little-endian when \<open>le\<close>.\<close>

definition high_byte :: "bool \<Rightarrow> 8 word list \<Rightarrow> 8 word res" where
  "high_byte le z = vec_idx z (if le then 1 else 0)"

fun sqlite3Utf16ByteLen :: "bool \<Rightarrow> 8 word list \<Rightarrow> nat \<Rightarrow> nat res" where
  "sqlite3Utf16ByteLen le z 0 = Ok 0"
| "sqlite3Utf16ByteLen le z (Suc n) =
     bind_res (high_byte le z) (\<lambda>c.
       if 0xD8 \<le> c \<and> c < 0xDC then
         bind_res (high_byte le (drop 2 z)) (\<lambda>c2.
           if 0xDC \<le> c2 \<and> c2 < 0xE0 then map_res ((+) 4) (sqlite3Utf16ByteLen le (drop 4 z) n)
           else map_res ((+) 2) (sqlite3Utf16ByteLen le (drop 2 z) n))
       else map_res ((+) 2) (sqlite3Utf16ByteLen le (drop 2 z) n))"

section \<open>Bytes and characters as numbers\<close>

lemma cont_byte: "(b :: 8 word) AND 0xC0 = 0x80 \<longleftrightarrow> 0x80 \<le> unat b \<and> unat b < 0xC0"
proof -
  have "list_all (\<lambda>k. (word_of_nat k :: 8 word) AND 0xC0 = 0x80 \<longleftrightarrow>
      0x80 \<le> unat (word_of_nat k :: 8 word) \<and> unat (word_of_nat k :: 8 word) < 0xC0) [0..<256]"
    by (simp add: upt_from_0)
  from all_bytes [OF this, of b] show ?thesis .
qed

lemma low_six: "ucast (0x3F AND (b :: 8 word)) = (word_of_nat (unat b mod 64) :: 32 word)"
proof -
  have "0x3F AND b = take_bit 6 b" by (simp only: and.commute take_bit_eq_mask) (simp add: mask_eq_exp_minus_1)
  then have "unat (0x3F AND b) = take_bit 6 (unat b)" by (simp only: unsigned_take_bit_eq)
  then have "unat (0x3F AND b) = unat b mod 64" by (simp add: take_bit_eq_mod)
  then show ?thesis by (metis of_nat_unat)
qed

lemma tail_step: "push_bit 6 (word_of_nat x) + ucast (0x3F AND (b :: 8 word)) = (word_of_nat (x * 64 + unat b mod 64) :: 32 word)"
  by (simp add: low_six push_bit_eq_mult mult.commute)

lemma unat_drop: "unat (drop_bit k (c :: 32 word)) = unat c div 2 ^ k"
  unfolding unat_drop_bit_eq by (rule drop_bit_eq_div)

lemma field_bits: "(ucast (drop_bit k (c :: 32 word) AND mask n) :: 8 word) = word_of_nat (unat c div 2 ^ k mod 2 ^ n)"
proof -
  have "unat (drop_bit k c AND mask n) = take_bit n (unat (drop_bit k c))"
    by (simp only: take_bit_eq_mask [symmetric] unsigned_take_bit_eq)
  then have "unat (drop_bit k c AND mask n) = unat c div 2 ^ k mod 2 ^ n"
    by (simp add: take_bit_eq_mod unat_drop)
  then show ?thesis by (metis of_nat_unat)
qed

lemma low_field: "(ucast ((c :: 32 word) AND mask n) :: 8 word) = word_of_nat (unat c mod 2 ^ n)"
  using field_bits [of 0 c n] by simp

lemma masks32:
  "(0x3F :: 32 word) = mask 6" "(0x1F :: 32 word) = mask 5" "(0x0F :: 32 word) = mask 4" "(0x07 :: 32 word) = mask 3"
  "(0xFF :: 32 word) = mask 8" "(0x03 :: 32 word) = mask 2"
  by (simp_all add: mask_eq_exp_minus_1)

text \<open>The bytes of a character as numbers.\<close>

definition utf8_bytes :: "nat \<Rightarrow> nat list" where
  "utf8_bytes u =
     (if u < 0x80 then [u]
      else if u < 0x800 then [0xC0 + u div 64, 0x80 + u mod 64]
      else if u < 0x10000 then [0xE0 + u div 4096, 0x80 + u div 64 mod 64, 0x80 + u mod 64]
      else [0xF0 + u div 262144 mod 8, 0x80 + u div 4096 mod 64, 0x80 + u div 64 mod 64, 0x80 + u mod 64])"

lemma WRITE_UTF8_bytes: "WRITE_UTF8 c = map word_of_nat (utf8_bytes (unat c))"
proof -
  have "c < 0x80 \<longleftrightarrow> unat c < 0x80" "c < 0x800 \<longleftrightarrow> unat c < 0x800" "c < 0x10000 \<longleftrightarrow> unat c < 0x10000"
    by (simp_all add: word_less_nat_alt)
  moreover have "unat c < 0x80 \<Longrightarrow> unat c mod 256 = unat c" by simp
  moreover have "unat c < 0x800 \<Longrightarrow> unat c div 64 mod 32 = unat c div 64" by (simp add: less_mult_imp_div_less)
  moreover have "unat c < 0x10000 \<Longrightarrow> unat c div 4096 mod 16 = unat c div 4096" by (simp add: less_mult_imp_div_less)
  ultimately show ?thesis
    by (simp add: WRITE_UTF8_def utf8_bytes_def masks32 field_bits low_field unat_drop)
qed

lemma high_bits_eq:
  assumes low: "\<And>i. i < n \<Longrightarrow> \<not> bit (d :: 32 word) i"
  shows "c AND NOT (mask n) = d \<longleftrightarrow> unat c div 2 ^ n = unat d div 2 ^ n"
proof -
  have "c AND NOT (mask n) = d \<longleftrightarrow> drop_bit n c = drop_bit n d"
  proof
    assume eq: "c AND NOT (mask n) = d"
    show "drop_bit n c = drop_bit n d"
      by (rule bit_word_eqI) (auto simp: bit_simps simp flip: eq dest: bit_imp_le_length)
  next
    assume eq: "drop_bit n c = drop_bit n d"
    show "c AND NOT (mask n) = d"
    proof (rule bit_word_eqI)
      fix i assume i: "i < LENGTH(32)"
      show "bit (c AND NOT (mask n)) i \<longleftrightarrow> bit d i"
      proof (cases "i < n")
        case True
        then show ?thesis using low by (simp add: bit_simps)
      next
        case False
        have "bit (drop_bit n c) (i - n) \<longleftrightarrow> bit (drop_bit n d) (i - n)" unfolding eq ..
        then have "bit c i \<longleftrightarrow> bit d i" using False by (simp add: bit_drop_bit_eq)
        then show ?thesis using False i by (simp add: bit_simps)
      qed
    qed
  qed
  also have "\<dots> \<longleftrightarrow> unat c div 2 ^ n = unat d div 2 ^ n" by (simp only: word_unat_eq_iff unat_drop)
  finally show ?thesis .
qed

lemma div_between: "0 < n \<Longrightarrow> u div n = k \<longleftrightarrow> n * k \<le> u \<and> u < n * Suc k" for n u k :: nat
  using div_nat_eqI [of n k u] dividend_less_times_div [of n u] times_div_less_eq_dividend [of n u] by auto

text \<open>The characters that are read as the replacement character.\<close>

definition replaced :: "nat \<Rightarrow> nat" where
  "replaced u = (if 0xD800 \<le> u \<and> u < 0xE000 \<or> u = 0xFFFE \<or> u = 0xFFFF then 0xFFFD else u)"

lemma shifted_low: "push_bit n w = d \<Longrightarrow> i < n \<Longrightarrow> \<not> bit (d :: 32 word) i"
  by (auto simp: bit_push_bit_iff)

lemma last_two:
  assumes u: "unat (w :: 32 word) = u"
  shows "w AND 0xFFFFFFFE = 0xFFFE \<longleftrightarrow> u = 0xFFFE \<or> u = 0xFFFF"
proof -
  have m: "(0xFFFFFFFE :: 32 word) = NOT (mask 1)" by (simp add: mask_eq_exp_minus_1)
  have "w AND 0xFFFFFFFE = 0xFFFE \<longleftrightarrow> u div 2 = 0x7FFF" unfolding m
    using high_bits_eq [of 1 "0xFFFE" w, OF shifted_low [of 1 "0x7FFF"]] by (simp add: u)
  then show ?thesis using div_between [of 2 u "0x7FFF"] by auto
qed

lemma utf8_check_nat:
  assumes "0x80 \<le> u" "u < 2 ^ 32"
  shows "utf8_check (word_of_nat u) = word_of_nat (replaced u)"
proof -
  have u: "unat (word_of_nat u :: 32 word) = u" using assms(2) by (simp add: unat_of_nat)
  have m: "(0xFFFFF800 :: 32 word) = NOT (mask 11)" by (simp add: mask_eq_exp_minus_1)
  have "(word_of_nat u :: 32 word) AND 0xFFFFF800 = 0xD800 \<longleftrightarrow> u div 2048 = 27" unfolding m
    using high_bits_eq [of 11 "0xD800" "word_of_nat u", OF shifted_low [of 11 27]] by (simp add: u)
  then have 1: "(word_of_nat u :: 32 word) AND 0xFFFFF800 = 0xD800 \<longleftrightarrow> 0xD800 \<le> u \<and> u < 0xE000"
    using div_between [of 2048 u 27] by simp
  note 2 = last_two [OF u]
  have "\<not> (word_of_nat u :: 32 word) < 0x80" using assms(1) by (simp add: word_less_nat_alt u)
  then show ?thesis unfolding utf8_check_def replaced_def 1 2 by simp
qed

section \<open>Reading what was written\<close>

text \<open>The bytes behind a character do not go on with it.\<close>

definition at_char :: "8 word list \<Rightarrow> bool" where
  "at_char z \<longleftrightarrow> (case z of [] \<Rightarrow> True | b # _ \<Rightarrow> b AND 0xC0 \<noteq> 0x80)"

lemma read_tail_stop: "at_char z \<Longrightarrow> read_tail c z = (c, z)"
  by (cases z) (simp_all add: at_char_def)

lemma byte_nat: "n < 256 \<Longrightarrow> unat (word_of_nat n :: 8 word) = n"
  by (simp add: unat_of_nat)

lemma read_tail_cont:
  "y < 64 \<Longrightarrow> read_tail (word_of_nat x) (word_of_nat (0x80 + y) # z) = read_tail (word_of_nat (x * 64 + y)) z"
proof -
  assume y: "y < 64"
  have u: "unat (word_of_nat (0x80 + y) :: 8 word) = 0x80 + y"
    by (rule byte_nat) (use y in simp)
  have "(0x80 + y) mod 64 = y" using y mod_mult_self1 [of y 2 64] by (simp add: add.commute)
  then show ?thesis using y by (simp only: read_tail.simps cont_byte u tail_step) simp
qed

lemma Trans1_entries:
  "x < 32 \<Longrightarrow> sqlite3Utf8Trans1 ! x = x"
  "x < 16 \<Longrightarrow> sqlite3Utf8Trans1 ! (32 + x) = x"
  "x < 8 \<Longrightarrow> sqlite3Utf8Trans1 ! (48 + x) = x"
proof -
  have "take 32 sqlite3Utf8Trans1 = [0..<32]" "take 16 (drop 32 sqlite3Utf8Trans1) = [0..<16]"
    "take 8 (drop 48 sqlite3Utf8Trans1) = [0..<8]"
    by (simp_all add: sqlite3Utf8Trans1_def upt_from_0)
  note e = this [THEN arg_cong [of _ _ "\<lambda>l. l ! x"]]
  have l: "length sqlite3Utf8Trans1 = 64" by (simp add: sqlite3Utf8Trans1_def)
  show "x < 32 \<Longrightarrow> sqlite3Utf8Trans1 ! x = x" using e(1) by (simp del: upt_Suc)
  show "x < 16 \<Longrightarrow> sqlite3Utf8Trans1 ! (32 + x) = x" using e(2) l by (simp del: upt_Suc)
  show "x < 8 \<Longrightarrow> sqlite3Utf8Trans1 ! (48 + x) = x" using e(3) l by (simp del: upt_Suc)
qed

lemma READ_lead:
  assumes "k < 64"
  shows "READ_UTF8 (word_of_nat (0xC0 + k)) z =
    (let (c, z) = read_tail (word_of_nat (sqlite3Utf8Trans1 ! k)) z in (utf8_check c, z))"
proof -
  have u: "unat (word_of_nat (0xC0 + k) :: 8 word) = 0xC0 + k" by (rule byte_nat) (use assms in simp)
  have "unat (word_of_nat (0xC0 + k) - 0xC0 :: 8 word) = k"
    using unat_sub [of "0xC0" "word_of_nat (0xC0 + k) :: 8 word"] u by (simp add: word_le_nat_alt)
  then show ?thesis by (simp only: READ_UTF8_def word_le_nat_alt u) simp
qed

lemma digits64:
  "(u div 64) * 64 + u mod 64 = (u :: nat)"
  "(u div 4096 * 64 + u div 64 mod 64) * 64 + u mod 64 = (u :: nat)"
  "((u div 262144 * 64 + u div 4096 mod 64) * 64 + u div 64 mod 64) * 64 + u mod 64 = (u :: nat)"
proof -
  have d: "u div 4096 = u div 64 div 64" "u div 262144 = u div 4096 div 64" by (simp_all flip: div_mult2_eq)
  have 1: "(v div 64) * 64 + v mod 64 = v" for v :: nat by simp
  show "(u div 64) * 64 + u mod 64 = u" by (rule 1)
  show 2: "(u div 4096 * 64 + u div 64 mod 64) * 64 + u mod 64 = u" unfolding d(1) 1 ..
  show "((u div 262144 * 64 + u div 4096 mod 64) * 64 + u div 64 mod 64) * 64 + u mod 64 = u"
    unfolding d(2) 1 by (rule 2)
qed

text \<open>What is read back from the bytes of a character.\<close>

lemma READ_written:
  assumes u: "u < 0x110000" and z: "at_char z"
  shows "READ_UTF8 (word_of_nat (hd (utf8_bytes u))) (map word_of_nat (tl (utf8_bytes u)) @ z)
    = (word_of_nat (replaced u), z)"
proof -
  consider "u < 0x80" | "0x80 \<le> u" "u < 0x800" | "0x800 \<le> u" "u < 0x10000" | "0x10000 \<le> u" by linarith
  then show ?thesis
  proof cases
    case 1
    have "unat (word_of_nat u :: 8 word) = u" by (rule byte_nat) (use 1 in simp)
    moreover from this have "ucast (word_of_nat u :: 8 word) = (word_of_nat u :: 32 word)" by (metis of_nat_unat)
    ultimately show ?thesis using 1 z by (simp add: utf8_bytes_def READ_UTF8_def word_le_nat_alt replaced_def)
  next
    case 2
    have "u div 64 < 32" using 2(2) by (simp add: less_mult_imp_div_less)
    then have "READ_UTF8 (word_of_nat (0xC0 + u div 64)) (word_of_nat (0x80 + u mod 64) # z) = (utf8_check (word_of_nat u), z)"
      using read_tail_cont [of "u mod 64" "u div 64" z] z
      by (simp only: READ_lead [of "u div 64"] Trans1_entries digits64 read_tail_stop) (simp add: Let_def)
    then show ?thesis using 2 utf8_check_nat [of u] by (simp add: utf8_bytes_def)
  next
    case 3
    have "u div 4096 < 16" using 3(2) by (simp add: less_mult_imp_div_less)
    then have "READ_UTF8 (word_of_nat (0xC0 + (32 + u div 4096)))
        (word_of_nat (0x80 + u div 64 mod 64) # word_of_nat (0x80 + u mod 64) # z) = (utf8_check (word_of_nat u), z)"
      using read_tail_cont [of "u div 64 mod 64" "u div 4096" "word_of_nat (0x80 + u mod 64) # z"]
        read_tail_cont [of "u mod 64" "u div 4096 * 64 + u div 64 mod 64" z] z
      by (simp only: READ_lead [of "32 + u div 4096"] Trans1_entries digits64 read_tail_stop) (simp add: Let_def)
    then show ?thesis using 3 utf8_check_nat [of u] by (simp add: utf8_bytes_def)
  next
    case 4
    have "u div 262144 < 8" using u by (simp add: less_mult_imp_div_less)
    then have "READ_UTF8 (word_of_nat (0xC0 + (48 + u div 262144)))
        (word_of_nat (0x80 + u div 4096 mod 64) # word_of_nat (0x80 + u div 64 mod 64) # word_of_nat (0x80 + u mod 64) # z)
        = (utf8_check (word_of_nat u), z)"
      using read_tail_cont [of "u div 4096 mod 64" "u div 262144" "word_of_nat (0x80 + u div 64 mod 64) # word_of_nat (0x80 + u mod 64) # z"]
        read_tail_cont [of "u div 64 mod 64" "u div 262144 * 64 + u div 4096 mod 64" "word_of_nat (0x80 + u mod 64) # z"]
        read_tail_cont [of "u mod 64" "(u div 262144 * 64 + u div 4096 mod 64) * 64 + u div 64 mod 64" z] z
      by (simp only: READ_lead [of "48 + u div 262144"] Trans1_entries digits64 read_tail_stop) (simp add: Let_def)
    then show ?thesis using 4 u utf8_check_nat [of u] \<open>u div 262144 < 8\<close> by (simp add: utf8_bytes_def)
  qed
qed

subsection \<open>UTF-16\<close>

definition utf16_units :: "nat \<Rightarrow> nat list" where
  "utf16_units u = (if u \<le> 0xFFFF then [u] else [0xD800 + (u - 0x10000) div 1024, 0xDC00 + u mod 1024])"

definition unit_bytes :: "bool \<Rightarrow> nat \<Rightarrow> nat list" where
  "unit_bytes le w = (if le then [w mod 256, w div 256] else [w div 256, w mod 256])"

definition WRITE_UTF16 :: "bool \<Rightarrow> 32 word \<Rightarrow> 8 word list" where
  "WRITE_UTF16 le = (if le then WRITE_UTF16LE else WRITE_UTF16BE)"

lemma mid_bits: "(x :: 32 word) AND push_bit k (mask n) = word_of_nat ((unat x div 2 ^ k mod 2 ^ n) * 2 ^ k)"
proof -
  have "x AND push_bit k (mask n) = push_bit k (take_bit n (drop_bit k x))"
    by (rule bit_word_eqI) (auto simp: bit_simps)
  also have "take_bit n (drop_bit k x) = word_of_nat (unat x div 2 ^ k mod 2 ^ n)"
  proof -
    have "unat (take_bit n (drop_bit k x)) = unat x div 2 ^ k mod 2 ^ n"
      unfolding unsigned_take_bit_eq unat_drop by (rule take_bit_eq_mod)
    then show ?thesis by (metis of_nat_unat ucast_id)
  qed
  finally show ?thesis by (simp add: push_bit_eq_mult)
qed

lemma low_bits: "(x :: 32 word) AND mask n = word_of_nat (unat x mod 2 ^ n)"
  using mid_bits [of x 0 n] by simp

lemma ucast_nat: "(ucast (word_of_nat n :: 32 word) :: 8 word) = word_of_nat n"
  by (rule word_unat_eq_iff [THEN iffD2]) (simp add: unat_of_nat unsigned_ucast_eq take_bit_eq_mod mod_mod_cancel)

lemma surrogate_digits:
  fixes u v w :: nat
  assumes u: "u = 0x10000 + 1024 * v + w" and v: "v < 1024" and w: "w < 1024"
  shows "u - 0x10000 = 1024 * v + w" "u div 1024 = 64 + v" "u mod 1024 = w" "(u - 0x10000) div 1024 = v"
    "u div 256 mod 4 = w div 256" "u mod 256 = w mod 256" "(u - 0x10000) div 262144 = v div 256"
proof -
  show 1: "u - 0x10000 = 1024 * v + w" using u by simp
  have u': "u = w + (64 + v) * 1024" using u by simp
  show "u div 1024 = 64 + v" "u mod 1024 = w"
    unfolding u' using w div_mult_self1 [of 1024 w "64 + v"] mod_mult_self1 [of w "64 + v" 1024] by simp_all
  show 2: "(u - 0x10000) div 1024 = v" unfolding 1 using w by simp
  have "u = w + ((64 + v) * 4) * 256" using u by simp
  then have "u div 256 = w div 256 + (64 + v) * 4" "u mod 256 = w mod 256"
    using div_mult_self1 [of 256 w "(64 + v) * 4"] mod_mult_self1 [of w "(64 + v) * 4" 256] by (simp_all only:)
  moreover have "w div 256 < 4" using w by (simp add: less_mult_imp_div_less)
  ultimately show "u div 256 mod 4 = w div 256" "u mod 256 = w mod 256"
    using mod_mult_self1 [of "w div 256" "64 + v" 4] by (simp_all only: mod_less)
  have "(u - 0x10000) div 262144 = (u - 0x10000) div 1024 div 256" by (simp flip: div_mult2_eq)
  then show "(u - 0x10000) div 262144 = v div 256" unfolding 2 .
qed

lemma split_char:
  assumes "0x10000 \<le> u" "u < 0x110000"
  obtains v w where "u = 0x10000 + 1024 * v + w" "v < 1024" "w < (1024 :: nat)"
proof
  show "u = 0x10000 + 1024 * ((u - 0x10000) div 1024) + (u - 0x10000) mod 1024" using assms(1) by simp
  show "(u - 0x10000) div 1024 < 1024" using assms(2) by (simp add: less_mult_imp_div_less)
  show "(u - 0x10000) mod 1024 < 1024" by simp
qed

lemma WRITE_UTF16_bytes:
  assumes u: "u < 0x110000"
  shows "WRITE_UTF16 le (word_of_nat u) = map word_of_nat (concat (map (unit_bytes le) (utf16_units u)))"
proof -
  define c where "c = (word_of_nat u :: 32 word)"
  have c: "unat c = u" using u by (simp add: c_def unat_of_nat)
  show ?thesis
  proof (cases "u \<le> 0xFFFF")
    case True
    then have "u div 256 mod 256 = u div 256" by (simp add: less_mult_imp_div_less)
    with True c show ?thesis
      by (simp add: WRITE_UTF16_def WRITE_UTF16LE_def WRITE_UTF16BE_def word_le_nat_alt masks32 field_bits low_field unat_drop
          utf16_units_def unit_bytes_def flip: c_def)
  next
    case False
    then have "0x10000 \<le> u" by simp
    from split_char [OF this u] obtain v w where uvw: "u = 0x10000 + 1024 * v + w" "v < 1024" "w < 1024" .
    note d = surrogate_digits [OF uvw]
    define e where "e = c - 0x10000"
    have e: "unat e = u - 0x10000" unfolding e_def using False c by (subst unat_sub) (simp_all add: word_le_nat_alt)
    have low: "ucast (c AND mask 8) = (word_of_nat (w mod 256) :: 8 word)" by (simp add: low_field c d)
    have C0: "(0xC0 :: 32 word) = push_bit 6 (mask 2)" by (simp add: mask_eq_exp_minus_1)
    have p: "(2 :: nat) ^ 10 = 1024" "(2 :: nat) ^ 6 = 64" "(2 :: nat) ^ 2 = 4" by simp_all
    have "v mod 64 + v div 64 mod 4 * 64 = v mod 256" using mod_mult2_eq [of v 64 4] by simp
    then have mid: "ucast ((drop_bit 10 c AND mask 6) + (drop_bit 10 e AND push_bit 6 (mask 2))) = (word_of_nat (v mod 256) :: 8 word)"
      unfolding low_bits mid_bits of_nat_add [symmetric] ucast_nat unat_drop c e p d(2,4) by simp
    have "v div 256 < 4" using uvw(2) by (simp add: less_mult_imp_div_less)
    then have hi: "ucast (0x00D8 + (drop_bit 18 e AND mask 2)) = (word_of_nat (0xD8 + v div 256) :: 8 word)"
      unfolding low_bits unat_drop e using d(7) ucast_nat [of "0xD8 + v div 256"] by simp
    have lo: "ucast (0x00DC + (drop_bit 8 c AND mask 2)) = (word_of_nat (0xDC + w div 256) :: 8 word)"
      unfolding low_bits unat_drop c using d(5) ucast_nat [of "0xDC + w div 256"] by simp
    have "\<not> c \<le> 0xFFFF" using False c by (simp add: word_le_nat_alt)
    then have W: "WRITE_UTF16 le c = map word_of_nat
        (if le then [v mod 256, 0xD8 + v div 256, w mod 256, 0xDC + w div 256]
         else [0xD8 + v div 256, v mod 256, 0xDC + w div 256, w mod 256])"
      unfolding WRITE_UTF16_def WRITE_UTF16LE_def WRITE_UTF16BE_def masks32 C0
      using mid hi lo low by (simp flip: e_def)
    have "(0xD800 + v) mod 256 = v mod 256" "(0xD800 + v) div 256 = 0xD8 + v div 256"
      "(0xDC00 + w) mod 256 = w mod 256" "(0xDC00 + w) div 256 = 0xDC + w div 256"
      using mod_mult_self2 [of v 256 "0xD8"] div_mult_self2 [of 256 v "0xD8"]
        mod_mult_self2 [of w 256 "0xDC"] div_mult_self2 [of 256 w "0xDC"] by (simp_all add: add.commute)
    with W show ?thesis using False d(3,4) by (simp add: utf16_units_def unit_bytes_def flip: c_def)
  qed
qed

section \<open>Texts\<close>

definition utf8_text :: "nat list \<Rightarrow> 8 word list" where
  "utf8_text us = concat (map (\<lambda>u. WRITE_UTF8 (word_of_nat u)) us)"

definition utf16_text :: "bool \<Rightarrow> nat list \<Rightarrow> 8 word list" where
  "utf16_text le us = concat (map (\<lambda>u. WRITE_UTF16 le (word_of_nat u)) us)"

lemma text_simps [simp]:
  "utf8_text [] = []" "utf8_text (u # us) = WRITE_UTF8 (word_of_nat u) @ utf8_text us"
  "utf16_text le [] = []" "utf16_text le (u # us) = WRITE_UTF16 le (word_of_nat u) @ utf16_text le us"
  by (simp_all add: utf8_text_def utf16_text_def)

lemma written_bytes: "u < 0x110000 \<Longrightarrow> WRITE_UTF8 (word_of_nat u) = map word_of_nat (utf8_bytes u)"
  by (simp add: WRITE_UTF8_bytes unat_of_nat)

lemma utf8_bytes_lead: "u < 0x110000 \<Longrightarrow> \<exists>b bs. utf8_bytes u = b # bs \<and> b < 256 \<and> (b < 0x80 \<or> 0xC0 \<le> b) \<and> (b = 0 \<longleftrightarrow> u = 0)"
proof -
  assume u: "u < 0x110000"
  have "u < 0x800 \<Longrightarrow> u div 64 < 32" "u < 0x10000 \<Longrightarrow> u div 4096 < 16" by (simp_all add: less_mult_imp_div_less)
  moreover have "u div 262144 mod 8 < 8" by simp
  ultimately show ?thesis by (auto simp: utf8_bytes_def)
qed

lemma at_char_text: "\<forall>u \<in> set us. u < 0x110000 \<Longrightarrow> at_char z \<Longrightarrow> at_char (utf8_text us @ z)"
proof (cases us)
  case (Cons u vs)
  assume "\<forall>u \<in> set us. u < 0x110000" "at_char z"
  then have u: "u < 0x110000" using Cons by simp
  then obtain b bs where b: "utf8_bytes u = b # bs" "b < 256" "b < 0x80 \<or> 0xC0 \<le> b" using utf8_bytes_lead by blast
  have "unat (word_of_nat b :: 8 word) = b" using b(2) by (rule byte_nat)
  then show ?thesis using b Cons by (auto simp: written_bytes [OF u] at_char_def cont_byte)
qed simp

text \<open>One character of a text.\<close>

lemma utf8_to_char:
  assumes "u < 0x110000" "at_char z"
  shows "utf8_to write (WRITE_UTF8 (word_of_nat u) @ z) = write (word_of_nat (replaced u)) @ utf8_to write z"
proof -
  obtain b bs where b: "utf8_bytes u = b # bs" using utf8_bytes_lead [OF assms(1)] by blast
  show ?thesis using READ_written [OF assms] by (simp add: written_bytes [OF assms(1)] b)
qed

lemma utf8_to_text:
  "\<forall>u \<in> set us. u < 0x110000 \<Longrightarrow> utf8_to write (utf8_text us) = concat (map (\<lambda>u. write (word_of_nat (replaced u))) us)"
proof (induction us)
  case (Cons u us)
  then have "at_char (utf8_text us)" using at_char_text [of us "[]"] by (simp add: at_char_def)
  then show ?case using Cons utf8_to_char [of u "utf8_text us" "write"] by simp
qed simp

lemma ucast_byte: "n < 256 \<Longrightarrow> ucast (word_of_nat n :: 8 word) = (word_of_nat n :: 32 word)"
  by (metis byte_nat of_nat_unat)

lemma unit16_bytes:
  assumes "w < 0x10000" "unit_bytes le w = [a, b]"
  shows "unit16 le (word_of_nat a) (word_of_nat b) = word_of_nat w"
proof -
  have "w div 256 < 256" using assms(1) by (simp add: less_mult_imp_div_less)
  then have "a < 256" "b < 256" using assms(2) by (auto simp: unit_bytes_def split: if_splits)
  moreover have "word_of_nat (w mod 256) + word_of_nat (w div 256) * 256 = (word_of_nat w :: 32 word)"
  proof -
    have "w mod 256 + w div 256 * 256 = w" by simp
    then show ?thesis by (metis of_nat_add of_nat_mult of_nat_numeral)
  qed
  ultimately show ?thesis using assms(2)
    by (auto simp: unit16_def unit_bytes_def ucast_byte push_bit_eq_mult ac_simps split: if_splits)
qed

lemma surrogates_units:
  assumes "u = 0x10000 + 1024 * v + w" "v < 1024" "w < (1024 :: nat)"
  shows "surrogates (word_of_nat (0xD800 + v)) (word_of_nat (0xDC00 + w)) = word_of_nat u"
proof -
  have n: "unat (word_of_nat (0xD800 + v) :: 32 word) = 0xD800 + v" "unat (word_of_nat (0xDC00 + w) :: 32 word) = 0xDC00 + w"
    using assms(2,3) by (simp_all add: unat_of_nat del: of_nat_add)
  have m: "(0x03FF :: 32 word) = mask 10" "(0x003F :: 32 word) = mask 6" "(0x03C0 :: 32 word) = push_bit 6 (mask 4)"
    by (simp_all add: mask_eq_exp_minus_1)
  have "v div 64 < 16" using assms(2) by (simp add: less_mult_imp_div_less)
  then have d: "(0xDC00 + w) mod 2 ^ 10 = w" "(0xD800 + v) mod 2 ^ 6 = v mod 64" "(0xD800 + v) div 2 ^ 6 mod 2 ^ 4 = v div 64"
    using assms(3) mod_mult_self2 [of w 1024 55] mod_mult_self2 [of v 64 864] div_mult_self2 [of 64 v 864]
      mod_mult_self2 [of "v div 64" 16 54]
    by (simp_all add: add.commute)
  have "w + v mod 64 * 1024 + (v div 64 * 64 + 64) * 1024 = u"
  proof -
    have "w + q * 1024 + (p * 64 + 64) * 1024 = 0x10000 + 1024 * (p * 64 + q) + w" for p q :: nat by algebra
    from this [of "v mod 64" "v div 64"] show ?thesis unfolding div_mult_mod_eq assms(1) by simp
  qed
  from arg_cong [OF this, of "word_of_nat :: nat \<Rightarrow> 32 word"]
  have "(word_of_nat w + word_of_nat (v mod 64) * 1024 + (word_of_nat (v div 64 * 64) + 64) * 1024 :: 32 word) = word_of_nat u"
    by (simp only: of_nat_add of_nat_mult of_nat_numeral)
  then show ?thesis unfolding surrogates_def m low_bits mid_bits n d by (simp add: push_bit_eq_mult)
qed

lemma unit_bytes_two: "\<exists>a b. unit_bytes le w = [a, b]"
  by (cases le) (simp_all add: unit_bytes_def)

lemma utf16_to_char:
  assumes u: "u < 0x110000" "\<not> (0xD800 \<le> u \<and> u < 0xE000)"
  shows "utf16_to_utf8 le (WRITE_UTF16 le (word_of_nat u) @ z)
    = map_res ((@) (WRITE_UTF8 (word_of_nat u))) (utf16_to_utf8 le z)"
proof (cases "u \<le> 0xFFFF")
  case True
  obtain a b where ab: "unit_bytes le u = [a, b]" using unit_bytes_two [of le u] by (elim exE)
  have c: "unit16 le (word_of_nat a) (word_of_nat b) = word_of_nat u" using unit16_bytes [OF _ ab] True by simp
  have "unat (word_of_nat u :: 32 word) = u" using u by (simp add: unat_of_nat)
  then have "\<not> (0xD800 \<le> (word_of_nat u :: 32 word) \<and> (word_of_nat u :: 32 word) < 0xE000)"
    using u(2) by (simp add: word_le_nat_alt word_less_nat_alt)
  then show ?thesis using True by (auto simp: WRITE_UTF16_bytes [OF u(1)] utf16_units_def ab c Let_def)
next
  case False
  then have "0x10000 \<le> u" by simp
  from split_char [OF this u(1)] obtain v w where uvw: "u = 0x10000 + 1024 * v + w" "v < 1024" "w < 1024" .
  obtain a b where ab: "unit_bytes le (0xD800 + v) = [a, b]" using unit_bytes_two [of le "0xD800 + v"] by (elim exE)
  obtain x y where xy: "unit_bytes le (0xDC00 + w) = [x, y]" using unit_bytes_two [of le "0xDC00 + w"] by (elim exE)
  have c: "unit16 le (word_of_nat a) (word_of_nat b) = word_of_nat (0xD800 + v)"
    "unit16 le (word_of_nat x) (word_of_nat y) = word_of_nat (0xDC00 + w)"
    using unit16_bytes [OF _ ab] unit16_bytes [OF _ xy] uvw(2,3) by simp_all
  have "unat (word_of_nat (0xD800 + v) :: 32 word) = 0xD800 + v" using uvw(2) by (simp add: unat_of_nat del: of_nat_add)
  then have s: "0xD800 \<le> (word_of_nat (0xD800 + v) :: 32 word) \<and> (word_of_nat (0xD800 + v) :: 32 word) < 0xE000"
    using uvw(2) by (simp add: word_le_nat_alt word_less_nat_alt)
  have "WRITE_UTF16 le (word_of_nat u) = map word_of_nat [a, b, x, y]"
    using False surrogate_digits [OF uvw] by (simp add: WRITE_UTF16_bytes [OF u(1)] utf16_units_def ab xy)
  then show ?thesis using s unfolding surrogates_units [OF uvw, symmetric]
    by (simp only: list.map append.simps utf16_to_utf8.simps Let_def c if_True simp_thms list.case)
qed

definition is_char :: "nat \<Rightarrow> bool" where
  "is_char u \<longleftrightarrow> u < 0x110000 \<and> \<not> (0xD800 \<le> u \<and> u < 0xE000)"

lemma utf16_to_text: "\<forall>u \<in> set us. is_char u \<Longrightarrow> utf16_to_utf8 le (utf16_text le us) = Ok (utf8_text us)"
  by (induction us) (simp_all add: utf16_to_char is_char_def)

lemma swap_char: "u < 0x110000 \<Longrightarrow> swap_bytes (WRITE_UTF16 le (word_of_nat u) @ z) = WRITE_UTF16 (\<not> le) (word_of_nat u) @ swap_bytes z"
  by (simp add: WRITE_UTF16_bytes utf16_units_def unit_bytes_def)

lemma swap_text: "\<forall>u \<in> set us. u < 0x110000 \<Longrightarrow> swap_bytes (utf16_text le us) = utf16_text (\<not> le) us"
  by (induction us) (simp_all add: swap_char)

section \<open>Readers that rely on the end of the text\<close>

definition stops :: "8 word list \<Rightarrow> bool" where
  "stops z \<longleftrightarrow> (\<exists>b \<in> set z. b AND 0xC0 \<noteq> 0x80)"

lemma utf8_read_tail_eq: "stops z \<Longrightarrow> utf8_read_tail c z = Ok (read_tail c z)"
  by (induction c z rule: utf8_read_tail.induct) (auto simp: stops_def)

lemma skip_tail_eq: "stops z \<Longrightarrow> skip_tail z = Ok (snd (read_tail c z))"
  by (induction c z rule: read_tail.induct) (auto simp: stops_def)

lemma length_Trans1: "length sqlite3Utf8Trans1 = 64"
  by (simp add: sqlite3Utf8Trans1_def)

lemma Utf8Read_eq:
  assumes "stops z"
  shows "sqlite3Utf8Read (b # z) = Ok (READ_UTF8 b z)"
proof (cases "b \<ge> 0xC0")
  case True
  have "unat (b - 0xC0) < 64"
    using unat_byte_less [of b] True by (subst unat_sub) (simp_all add: word_le_nat_alt)
  then show ?thesis using True
    by (simp add: READ_UTF8_def utf8_read_tail_eq [OF assms] length_Trans1 split: prod.split)
qed (simp add: READ_UTF8_def)

lemma SKIP_eq: "stops z \<Longrightarrow> SQLITE_SKIP_UTF8 (b # z) = Ok (snd (READ_UTF8 b z))"
  using skip_tail_eq [of z "word_of_nat (sqlite3Utf8Trans1 ! unat (b - 0xC0))"]
  by (simp add: READ_UTF8_def split: prod.split)

lemma stops_append [simp]: "stops (y @ z) \<longleftrightarrow> stops y \<or> stops z"
  by (auto simp: stops_def)

lemma SKIP_written:
  assumes u: "u < 0x110000" and z: "at_char z" "stops z"
  shows "SQLITE_SKIP_UTF8 (WRITE_UTF8 (word_of_nat u) @ z) = Ok z"
proof -
  obtain b bs where b: "utf8_bytes u = b # bs" using utf8_bytes_lead [OF u] by blast
  then show ?thesis using SKIP_eq [of "map word_of_nat bs @ z" "word_of_nat b"] READ_written [OF u z(1)] z(2)
    by (simp add: written_bytes [OF u])
qed

lemma char_len_text:
  assumes "\<forall>u \<in> set us. 0 < u \<and> u < 0x110000" "left = None \<or> (\<exists>n. left = Some n \<and> length (utf8_text us) \<le> n)"
  shows "char_len_loop (utf8_text us @ 0 # z) left = Ok (length us)"
  using assms
proof (induction us arbitrary: left)
  case Nil
  then show ?case by (simp add: char_len_loop.simps)
next
  case (Cons u us)
  let ?z = "utf8_text us @ 0 # z"
  have u: "0 < u" "u < 0x110000" using Cons.prems(1) by simp_all
  obtain b bs where b: "utf8_bytes u = b # bs" "b < 256" "b \<noteq> 0" using utf8_bytes_lead [OF u(2)] u(1) by auto
  have z: "at_char ?z" "stops ?z" using at_char_text [of us "0 # z"] Cons.prems(1) by (simp_all add: at_char_def stops_def)
  have "unat (word_of_nat b :: 8 word) = b" using b(2) by (rule byte_nat)
  then have b0: "(word_of_nat b :: 8 word) \<noteq> 0" using b(3) by auto
  have w: "WRITE_UTF8 (word_of_nat u) = word_of_nat b # map word_of_nat bs" by (simp add: written_bytes [OF u(2)] b)
  let ?left = "map_option (\<lambda>n. n - length (WRITE_UTF8 (word_of_nat u))) left"
  have "?left = None \<or> (\<exists>n. ?left = Some n \<and> length (utf8_text us) \<le> n)" using Cons.prems(2) by auto
  then have "char_len_loop ?z ?left = Ok (length us)" using Cons by simp
  moreover have "left \<noteq> Some 0" using Cons.prems(2) w by auto
  ultimately show ?case
    using SKIP_written [OF u(2) z] b0
    by (subst char_len_loop.simps) (simp add: w)
qed

lemma high_byte_unit: "unit_bytes le w = [a, b] \<Longrightarrow> high_byte le (word_of_nat a # word_of_nat b # z) = Ok (word_of_nat (w div 256))"
  by (auto simp: high_byte_def unit_bytes_def split: if_splits)

lemma byte_len_char:
  assumes u: "is_char u"
  shows "sqlite3Utf16ByteLen le (WRITE_UTF16 le (word_of_nat u) @ z) (Suc n)
    = map_res ((+) (length (WRITE_UTF16 le (word_of_nat u)))) (sqlite3Utf16ByteLen le z n)"
proof (cases "u \<le> 0xFFFF")
  case True
  obtain a b where ab: "unit_bytes le u = [a, b]" using unit_bytes_two [of le u] by (elim exE)
  have "u div 256 < 256" using True by (simp add: less_mult_imp_div_less)
  then have h: "unat (word_of_nat (u div 256) :: 8 word) = u div 256" by (rule byte_nat)
  have "\<not> (0xD8 \<le> u div 256 \<and> u div 256 < 0xDC)" using u by (auto simp: is_char_def div_less_iff_less_mult)
  then have "\<not> (0xD8 \<le> (word_of_nat (u div 256) :: 8 word) \<and> (word_of_nat (u div 256) :: 8 word) < 0xDC)"
    by (simp add: word_le_nat_alt word_less_nat_alt h)
  moreover have W: "WRITE_UTF16 le (word_of_nat u) = map word_of_nat [a, b]"
    using True u by (simp add: WRITE_UTF16_bytes is_char_def utf16_units_def ab)
  moreover have "length (map word_of_nat [a, b] :: 8 word list) = 2" by simp
  ultimately show ?thesis by (auto simp: high_byte_unit [OF ab] simp del: list.size length_map)
next
  case False
  then have "0x10000 \<le> u" "u < 0x110000" using u by (simp_all add: is_char_def)
  from split_char [OF this] obtain v w where uvw: "u = 0x10000 + 1024 * v + w" "v < 1024" "w < 1024" .
  obtain a b where ab: "unit_bytes le (0xD800 + v) = [a, b]" using unit_bytes_two [of le "0xD800 + v"] by (elim exE)
  obtain x y where xy: "unit_bytes le (0xDC00 + w) = [x, y]" using unit_bytes_two [of le "0xDC00 + w"] by (elim exE)
  have W: "WRITE_UTF16 le (word_of_nat u) = map word_of_nat [a, b, x, y]"
    using False surrogate_digits [OF uvw] \<open>u < 0x110000\<close> by (simp add: WRITE_UTF16_bytes utf16_units_def ab xy)
  have d: "0xD8 \<le> (0xD800 + v) div 256" "(0xD800 + v) div 256 < 0xDC" "0xDC \<le> (0xDC00 + w) div 256" "(0xDC00 + w) div 256 < 0xE0"
    using uvw(2,3) by (simp_all add: div_less_iff_less_mult less_eq_div_iff_mult_less_eq)
  then have h: "unat (word_of_nat ((0xD800 + v) div 256) :: 8 word) = (0xD800 + v) div 256"
    "unat (word_of_nat ((0xDC00 + w) div 256) :: 8 word) = (0xDC00 + w) div 256" by (simp_all add: byte_nat)
  have "length (map word_of_nat [a, b, x, y] :: 8 word list) = 4" by simp
  then show ?thesis unfolding W using high_byte_unit [OF ab] high_byte_unit [OF xy, of z] d
    by (simp add: word_le_nat_alt word_less_nat_alt h del: list.size length_map)
qed

lemma byte_len_text:
  "\<forall>u \<in> set us. is_char u \<Longrightarrow> sqlite3Utf16ByteLen le (utf16_text le us @ z) (length us) = Ok (length (utf16_text le us))"
  by (induction us) (simp_all add: byte_len_char del: sqlite3Utf16ByteLen.simps(2))

section \<open>The room for a translation\<close>

lemma length_WRITE_UTF8: "1 \<le> length (WRITE_UTF8 c)" "length (WRITE_UTF8 c) \<le> 4"
  by (simp_all add: WRITE_UTF8_def)

lemma length_WRITE_UTF16: "length (WRITE_UTF16 le c) = (if c \<le> 0xFFFF then 2 else 4)"
  by (simp add: WRITE_UTF16_def WRITE_UTF16LE_def WRITE_UTF16BE_def)

text \<open>A character beyond the 16-bit ones is read from two bytes at least.\<close>

lemma read_tail_suffix: "\<exists>p. z = p @ snd (read_tail c z)"
proof (induction c z rule: read_tail.induct)
  case (2 c b z)
  then show ?case by (cases "b AND 0xC0 = 0x80") (simp_all, metis append_Cons)
qed simp

lemma READ_suffix: "\<exists>p. z = p @ snd (READ_UTF8 b z)"
  using read_tail_suffix [of z] by (auto simp: READ_UTF8_def split: prod.split) (metis snd_conv)

lemma read_tail_same: "snd (read_tail c z) = z \<Longrightarrow> fst (read_tail c z) = c"
proof (cases z)
  case (Cons b y)
  assume same: "snd (read_tail c z) = z"
  have "b AND 0xC0 \<noteq> 0x80"
  proof
    assume b: "b AND 0xC0 = 0x80"
    then have "snd (read_tail c z) = snd (read_tail (push_bit 6 c + ucast (0x3F AND b)) y)" using Cons by simp
    then have "length z \<le> length y" using same read_tail_shorter by metis
    then show False using Cons by simp
  qed
  then show ?thesis using Cons by simp
qed simp

lemma Trans1_small: "n < 64 \<Longrightarrow> sqlite3Utf8Trans1 ! n < 0x80"
proof -
  have "list_all (\<lambda>x. x < 0x80) sqlite3Utf8Trans1" by (simp add: sqlite3Utf8Trans1_def)
  then show "n < 64 \<Longrightarrow> sqlite3Utf8Trans1 ! n < 0x80" by (simp add: list_all_length length_Trans1)
qed

lemma READ_small:
  assumes "snd (READ_UTF8 b z) = z"
  shows "fst (READ_UTF8 b z) \<le> 0xFFFF"
proof (cases "b \<ge> 0xC0")
  case True
  have "unat (b - 0xC0) < 64"
    using unat_byte_less [of b] True by (subst unat_sub) (simp_all add: word_le_nat_alt)
  then have t: "sqlite3Utf8Trans1 ! unat (b - 0xC0) < 0x80" by (rule Trans1_small)
  let ?t = "word_of_nat (sqlite3Utf8Trans1 ! unat (b - 0xC0)) :: 32 word"
  have "snd (read_tail ?t z) = z" using assms True by (simp add: READ_UTF8_def split: prod.splits)
  from read_tail_same [OF this] have "fst (READ_UTF8 b z) = utf8_check ?t"
    using True by (cases "read_tail ?t z") (simp add: READ_UTF8_def)
  moreover have "?t < 0x80" using t by (simp add: word_less_nat_alt unat_of_nat)
  ultimately show ?thesis by (simp add: utf8_check_def)
next
  case False
  have "take_bit 32 (unat b) = unat b" using unat_byte_less [of b] by (intro take_bit_nat_eq_self) simp
  then show ?thesis using False unat_byte_less [of b] by (simp add: READ_UTF8_def word_le_nat_alt unsigned_ucast_eq)
qed

lemma utf8_to_room: "length (utf8_to (WRITE_UTF16 le) z) \<le> 2 * length z"
proof (induction z rule: length_induct)
  case (1 z)
  show ?case
  proof (cases z)
    case (Cons b y)
    let ?r = "READ_UTF8 b y"
    obtain p where p: "y = p @ snd ?r" using READ_suffix by blast
    have "length (utf8_to (WRITE_UTF16 le) (snd ?r)) \<le> 2 * length (snd ?r)" using 1 Cons READ_UTF8_shorter [of b y] by simp
    moreover have "length (WRITE_UTF16 le (fst ?r)) \<le> 2 * Suc (length p)"
      using READ_small [of b y] p by (cases p) (simp_all add: length_WRITE_UTF16)
    moreover have "length y = length p + length (snd ?r)" using p by (metis length_append)
    ultimately show ?thesis using Cons by simp
  qed simp
qed

lemma utf16_to_room: "even (length z) \<Longrightarrow> \<exists>r. utf16_to_utf8 le z = Ok r \<and> length r \<le> 2 * length z"
proof (induction le z rule: utf16_to_utf8.induct)
  case (3 le a b z)
  let ?c = "unit16 le a b"
  show ?case
  proof (cases "0xD800 \<le> ?c \<and> ?c < 0xE000")
    case True
    consider "z = []" | x y z' where "z = x # y # z'" using 3(3) by (cases z; cases "tl z") auto
    then show ?thesis
    proof cases
      case 1
      then show ?thesis using True length_WRITE_UTF8(2) [of ?c] by (simp add: Let_def)
    next
      case 2
      with 3(1) [OF refl True 2] 3(3) obtain r where "utf16_to_utf8 le z' = Ok r" "length r \<le> 2 * length z'" by auto
      then show ?thesis using True 2 length_WRITE_UTF8(2) [of "surrogates ?c (unit16 le x y)"] by (simp add: Let_def)
    qed
  next
    case False
    with 3(2) [OF refl False] 3(3) obtain r where "utf16_to_utf8 le z = Ok r" "length r \<le> 2 * length z" by auto
    then show ?thesis using False length_WRITE_UTF8(2) [of ?c] by (auto simp add: Let_def)
  qed
qed auto

section \<open>Properties\<close>

text \<open>
  C23: What \<open>sqlite3UtfSelfTest\<close> checks, for every number below 0x110000: the character takes one
  to four bytes in UTF-8, and reading it back with \<open>sqlite3Utf8Read\<close> stops behind them and gives
  the character, or the replacement character for a surrogate, 0xFFFE and 0xFFFF.
\<close>

theorem utf8_self_test:
  assumes "i < 0x110000"
  shows "1 \<le> length (WRITE_UTF8 (word_of_nat i)) \<and> length (WRITE_UTF8 (word_of_nat i)) \<le> 4 \<and>
    sqlite3Utf8Read (WRITE_UTF8 (word_of_nat i) @ [0]) =
      Ok (if 0xD800 \<le> i \<and> i \<le> 0xDFFF \<or> (word_of_nat i :: 32 word) AND 0xFFFFFFFE = 0xFFFE then 0xFFFD
          else word_of_nat i, [0])"
proof -
  obtain b bs where b: "utf8_bytes i = b # bs" using utf8_bytes_lead [OF assms] by blast
  have "unat (word_of_nat i :: 32 word) = i" using assms by (simp add: unat_of_nat)
  then have e: "(word_of_nat i :: 32 word) AND 0xFFFFFFFE = 0xFFFE \<longleftrightarrow> i = 0xFFFE \<or> i = 0xFFFF"
    by (simp add: last_two)
  have "sqlite3Utf8Read (WRITE_UTF8 (word_of_nat i) @ [0]) = Ok (word_of_nat (replaced i), [0])"
    using READ_written [OF assms, of "[0]"] Utf8Read_eq [of "map word_of_nat bs @ [0]" "word_of_nat b"]
    by (simp add: written_bytes [OF assms] b at_char_def stops_def)
  then show ?thesis using length_WRITE_UTF8 [of "word_of_nat i"] unfolding e by (auto simp: replaced_def)
qed

theorem utf8_self_test_witness:
  "sqlite3Utf8Read [0xE2, 0x82, 0xAC, 0] = Ok (0x20AC, [0])"
  using utf8_self_test [of "0x20AC"] by (simp add: WRITE_UTF8_def)

end
