(* ===== verification/SqMem.thy ===== *)
theory SqMem
  imports SqUtf SqNumText SqParser
begin

unbundle bit_operations_syntax

text \<open>
  The value cell \<open>Mem\<close> as far as texts go: its buffer and who owns it, the routines of \<open>vdbemem.c\<close>
  that make the buffer writable, larger or terminated, and the change of the encoding of \<open>utf.c\<close>.
  The allocator is an argument: the block it gives for a number of bytes, with whatever stands in
  it, or that it fails. An access outside of a buffer and a call that the assertions on encodings and
  kinds of values forbid are \<open>Undef\<close>.
\<close>

section \<open>Flags\<close>

definition MEM_Null :: "16 word" where "MEM_Null = 0x0001"
definition MEM_Str :: "16 word" where "MEM_Str = 0x0002"
definition MEM_Blob :: "16 word" where "MEM_Blob = 0x0010"
definition MEM_AffMask :: "16 word" where "MEM_AffMask = 0x003F"
definition MEM_Term :: "16 word" where "MEM_Term = 0x0200"
definition MEM_Zero :: "16 word" where "MEM_Zero = 0x0400"
definition MEM_Subtype :: "16 word" where "MEM_Subtype = 0x0800"
definition MEM_Dyn :: "16 word" where "MEM_Dyn = 0x1000"
definition MEM_Static :: "16 word" where "MEM_Static = 0x2000"
definition MEM_Ephem :: "16 word" where "MEM_Ephem = 0x4000"

text \<open>\<open>flags & m\<close> as a condition.\<close>

definition any_flag :: "16 word \<Rightarrow> 16 word \<Rightarrow> bool" where
  "any_flag flags m \<longleftrightarrow> flags AND m \<noteq> 0"

section \<open>The cell\<close>

text \<open>\<open>mem_own\<close>: \<open>z == zMalloc\<close>.\<close>

record Mem =
  mem_z :: "8 word list option"
  mem_n :: nat
  mem_flags :: "16 word"
  mem_enc :: nat
  mem_nZero :: nat
  mem_szMalloc :: nat
  mem_own :: bool

text \<open>Bytes written into a buffer, and the first bytes of a buffer.\<close>

definition write_at :: "nat \<Rightarrow> 'a list \<Rightarrow> 'a list \<Rightarrow> 'a list res" where
  "write_at i bs z = (if i + length bs \<le> length z then Ok (take i z @ bs @ drop (i + length bs) z) else Undef)"

definition buf_take :: "nat \<Rightarrow> 8 word list option \<Rightarrow> 8 word list res" where
  "buf_take n z =
     (case z of
        None \<Rightarrow> if n = 0 then Ok [] else Undef
      | Some z \<Rightarrow> if n \<le> length z then Ok (take n z) else Undef)"

type_synonym alloc = "nat \<Rightarrow> 8 word list option"

section \<open>Room for a value\<close>

text \<open>
  \<open>sqlite3VdbeMemGrow\<close>: a failed reallocation or allocation leaves a null value. The destructor
  \<open>xDel\<close> of the old buffer has no effect on the cell.
\<close>

definition grown_flags :: "16 word \<Rightarrow> 16 word" where
  "grown_flags w = w AND NOT (MEM_Dyn OR MEM_Ephem OR MEM_Static)"

definition sqlite3VdbeMemGrow :: "alloc \<Rightarrow> nat \<Rightarrow> bool \<Rightarrow> Mem \<Rightarrow> (int \<times> Mem) res" where
  "sqlite3VdbeMemGrow alloc n bPreserve p =
     (if bPreserve \<and> \<not> any_flag (mem_flags p) (MEM_Blob OR MEM_Str) then Undef
      else
        (case alloc n of
           None \<Rightarrow> Ok (SQLITE_NOMEM, p\<lparr>mem_flags := MEM_Null, mem_z := None, mem_szMalloc := 0\<rparr>)
         | Some block \<Rightarrow>
             let p' = p\<lparr>mem_szMalloc := length block, mem_own := True,
                        mem_flags := grown_flags (mem_flags p)\<rparr> in
             if mem_szMalloc p > 0 \<and> bPreserve \<and> mem_own p then
               (case mem_z p of
                  None \<Rightarrow> Undef
                | Some z \<Rightarrow> Ok (SQLITE_OK, p'\<lparr>mem_z := Some (take (length block) z @ drop (length z) block)\<rparr>))
             else if bPreserve \<and> mem_z p \<noteq> None then
               bind_res (buf_take (mem_n p) (mem_z p)) (\<lambda>bs.
               map_res (\<lambda>z. (SQLITE_OK, p'\<lparr>mem_z := Some z\<rparr>)) (write_at 0 bs block))
             else Ok (SQLITE_OK, p'\<lparr>mem_z := Some block\<rparr>)))"

definition write_z :: "nat \<Rightarrow> 8 word list \<Rightarrow> Mem \<Rightarrow> Mem res" where
  "write_z i bs p =
     (case mem_z p of
        None \<Rightarrow> Undef
      | Some z \<Rightarrow> map_res (\<lambda>z. p\<lparr>mem_z := Some z\<rparr>) (write_at i bs z))"

definition vdbeMemAddTerminator :: "alloc \<Rightarrow> Mem \<Rightarrow> (int \<times> Mem) res" where
  "vdbeMemAddTerminator alloc p =
     bind_res (sqlite3VdbeMemGrow alloc (mem_n p + 3) True p) (\<lambda>(rc, p).
       if rc \<noteq> 0 then Ok (SQLITE_NOMEM, p)
       else
         map_res (\<lambda>p. (SQLITE_OK, p\<lparr>mem_flags := mem_flags p OR MEM_Term\<rparr>)) (write_z (mem_n p) [0, 0, 0] p))"

definition sqlite3VdbeMemExpandBlob :: "alloc \<Rightarrow> Mem \<Rightarrow> (int \<times> Mem) res" where
  "sqlite3VdbeMemExpandBlob alloc p =
     (let nByte = mem_n p + mem_nZero p in
      if nByte = 0 \<and> \<not> any_flag (mem_flags p) MEM_Blob then Ok (SQLITE_OK, p)
      else
        bind_res (sqlite3VdbeMemGrow alloc (if nByte = 0 then 1 else nByte) True p) (\<lambda>(rc, p).
          if rc \<noteq> 0 then Ok (SQLITE_NOMEM, p)
          else
            map_res (\<lambda>p. (SQLITE_OK, p\<lparr>mem_n := mem_n p + mem_nZero p,
                                      mem_flags := mem_flags p AND NOT (MEM_Zero OR MEM_Term)\<rparr>))
              (write_z (mem_n p) (replicate (mem_nZero p) 0) p)))"

definition ExpandBlob :: "alloc \<Rightarrow> Mem \<Rightarrow> (int \<times> Mem) res" where
  "ExpandBlob alloc p = (if any_flag (mem_flags p) MEM_Zero then sqlite3VdbeMemExpandBlob alloc p else Ok (0, p))"

definition sqlite3VdbeMemMakeWriteable :: "alloc \<Rightarrow> Mem \<Rightarrow> (int \<times> Mem) res" where
  "sqlite3VdbeMemMakeWriteable alloc p =
     bind_res
       (if any_flag (mem_flags p) (MEM_Str OR MEM_Blob) then
          bind_res (ExpandBlob alloc p) (\<lambda>(rc, p).
            if rc \<noteq> 0 then Ok (SQLITE_NOMEM, p)
            else if mem_szMalloc p = 0 \<or> \<not> mem_own p then vdbeMemAddTerminator alloc p
            else Ok (SQLITE_OK, p))
        else Ok (SQLITE_OK, p))
       (\<lambda>(rc, p). Ok (rc, if rc \<noteq> 0 then p else p\<lparr>mem_flags := mem_flags p AND NOT MEM_Ephem\<rparr>))"

definition sqlite3VdbeMemNulTerminate :: "alloc \<Rightarrow> Mem \<Rightarrow> (int \<times> Mem) res" where
  "sqlite3VdbeMemNulTerminate alloc p =
     (if mem_flags p AND (MEM_Term OR MEM_Str) \<noteq> MEM_Str then Ok (SQLITE_OK, p)
      else vdbeMemAddTerminator alloc p)"

section \<open>Encodings\<close>

text \<open>The text in the new encoding, with the zero bytes the code writes behind it.\<close>

definition translated :: "nat \<Rightarrow> nat \<Rightarrow> 8 word list \<Rightarrow> 8 word list res" where
  "translated enc desired zIn =
     (if enc = SQLITE_UTF8 then
        if desired = SQLITE_UTF16LE then Ok (utf8_to WRITE_UTF16LE zIn)
        else if desired = SQLITE_UTF16BE then Ok (utf8_to WRITE_UTF16BE zIn) else Undef
      else if desired = SQLITE_UTF8 then utf16_to_utf8 (enc = SQLITE_UTF16LE) zIn else Undef)"

definition swap_in_place :: "alloc \<Rightarrow> Mem \<Rightarrow> nat \<Rightarrow> (int \<times> Mem) res" where
  "swap_in_place alloc p desired =
     bind_res (sqlite3VdbeMemMakeWriteable alloc p) (\<lambda>(rc, p).
       if rc \<noteq> SQLITE_OK then Ok (SQLITE_NOMEM, p)
       else
         bind_res (buf_take (mem_n p div 2 * 2) (mem_z p)) (\<lambda>bs.
         map_res (\<lambda>p. (SQLITE_OK, p\<lparr>mem_enc := desired\<rparr>))
           (if bs = [] then Ok p else write_z 0 (swap_bytes bs) p)))"

definition sqlite3VdbeMemTranslate :: "alloc \<Rightarrow> Mem \<Rightarrow> nat \<Rightarrow> (int \<times> Mem) res" where
  "sqlite3VdbeMemTranslate alloc p desired =
     (if \<not> any_flag (mem_flags p) MEM_Str \<or> mem_enc p = desired \<or> mem_enc p = 0 then Undef
      else if mem_enc p \<noteq> SQLITE_UTF8 \<and> desired \<noteq> SQLITE_UTF8 then swap_in_place alloc p desired
      else
        let p = (if desired = SQLITE_UTF8 then p\<lparr>mem_n := mem_n p div 2 * 2\<rparr> else p);
            len = (if desired = SQLITE_UTF8 then 2 * mem_n p + 1 else 2 * mem_n p + 2) in
        (case alloc len of
           None \<Rightarrow> Ok (SQLITE_NOMEM, p)
         | Some zOut \<Rightarrow>
             bind_res (buf_take (mem_n p) (mem_z p)) (\<lambda>zIn.
             bind_res (translated (mem_enc p) desired zIn) (\<lambda>out.
             map_res (\<lambda>z. (SQLITE_OK,
                 p\<lparr>mem_z := Some z, mem_n := length out, mem_enc := desired,
                   mem_flags := MEM_Str OR MEM_Term OR (mem_flags p AND (MEM_AffMask OR MEM_Subtype)),
                   mem_szMalloc := length zOut, mem_own := True\<rparr>))
               (write_at 0 (out @ (if desired = SQLITE_UTF8 then [0] else [0, 0])) zOut)))))"

definition sqlite3VdbeChangeEncoding :: "alloc \<Rightarrow> Mem \<Rightarrow> nat \<Rightarrow> (int \<times> Mem) res" where
  "sqlite3VdbeChangeEncoding alloc p desired =
     (if desired \<noteq> SQLITE_UTF8 \<and> desired \<noteq> SQLITE_UTF16LE \<and> desired \<noteq> SQLITE_UTF16BE then Undef
      else if \<not> any_flag (mem_flags p) MEM_Str then Ok (SQLITE_OK, p\<lparr>mem_enc := desired\<rparr>)
      else if mem_enc p = desired then Ok (SQLITE_OK, p)
      else sqlite3VdbeMemTranslate alloc p desired)"

text \<open>A byte-order mark in front of a text in UTF-16.\<close>

definition sqlite3VdbeMemHandleBom :: "alloc \<Rightarrow> Mem \<Rightarrow> (int \<times> Mem) res" where
  "sqlite3VdbeMemHandleBom alloc p =
     bind_res
       (if mem_n p > 1 then
          map_res (\<lambda>bs. if bs = [0xFE, 0xFF] then SQLITE_UTF16BE else if bs = [0xFF, 0xFE] then SQLITE_UTF16LE else 0)
            (buf_take 2 (mem_z p))
        else Ok 0)
       (\<lambda>bom.
          if bom = 0 then Ok (SQLITE_OK, p)
          else
            bind_res (sqlite3VdbeMemMakeWriteable alloc p) (\<lambda>(rc, p).
              if rc \<noteq> SQLITE_OK then Ok (rc, p)
              else
                let n = mem_n p - 2 in
                bind_res (buf_take (n + 2) (mem_z p)) (\<lambda>z.
                map_res (\<lambda>p. (SQLITE_OK, p\<lparr>mem_n := n, mem_flags := mem_flags p OR MEM_Term, mem_enc := bom\<rparr>))
                  (write_z 0 (drop 2 z @ [0, 0]) p))))"

section \<open>Flags of a cell\<close>

lemma any_flag_or [simp]:
  "any_flag w (a OR b) \<longleftrightarrow> any_flag w a \<or> any_flag w b" "any_flag (v OR w) a \<longleftrightarrow> any_flag v a \<or> any_flag w a"
  by (auto simp: any_flag_def bit_eq_iff bit_simps)

lemma any_flag_clear: "x AND m = 0 \<Longrightarrow> any_flag (w AND NOT m) x = any_flag w x"
  by (auto simp: any_flag_def bit_eq_iff bit_simps)

lemma any_flag_keep: "any_flag (w AND m) x \<longleftrightarrow> any_flag w (m AND x)"
  by (simp add: any_flag_def and.assoc)

lemmas flag_values = MEM_Null_def MEM_Str_def MEM_Blob_def MEM_AffMask_def MEM_Term_def MEM_Zero_def
  MEM_Subtype_def MEM_Dyn_def MEM_Static_def MEM_Ephem_def

lemma flags_grown [simp]:
  "any_flag (grown_flags w) MEM_Str = any_flag w MEM_Str"
  "any_flag (grown_flags w) MEM_Zero = any_flag w MEM_Zero"
  "any_flag (grown_flags w) MEM_Term = any_flag w MEM_Term"
  "any_flag (w AND NOT MEM_Ephem) MEM_Str = any_flag w MEM_Str"
  "any_flag (w AND NOT MEM_Ephem) MEM_Zero = any_flag w MEM_Zero"
  "any_flag (w AND NOT MEM_Ephem) MEM_Term = any_flag w MEM_Term"
  "any_flag MEM_Term MEM_Term" "\<not> any_flag MEM_Term MEM_Zero" "any_flag MEM_Str MEM_Str" "\<not> any_flag MEM_Str MEM_Zero"
  "\<not> any_flag (w AND (MEM_AffMask OR MEM_Subtype)) MEM_Zero"
  unfolding grown_flags_def by (rule any_flag_clear; simp add: flag_values)+ (simp_all add: any_flag_keep, simp_all add: any_flag_def flag_values)

section \<open>Texts in a cell\<close>

definition enc_text :: "nat \<Rightarrow> nat list \<Rightarrow> 8 word list" where
  "enc_text enc us = (if enc = SQLITE_UTF8 then utf8_text us else utf16_text (enc = SQLITE_UTF16LE) us)"

definition end_of :: "nat \<Rightarrow> 8 word list" where
  "end_of enc = (if enc = SQLITE_UTF8 then [0] else [0, 0])"

text \<open>The cell holds the text of the characters \<open>us\<close>, with its end when the flag says so.\<close>

definition mem_text :: "nat list \<Rightarrow> nat \<Rightarrow> Mem \<Rightarrow> bool" where
  "mem_text us enc p \<longleftrightarrow>
     any_flag (mem_flags p) MEM_Str \<and> \<not> any_flag (mem_flags p) MEM_Zero \<and> mem_enc p = enc
     \<and> mem_n p = length (enc_text enc us)
     \<and> (case mem_z p of
          None \<Rightarrow> False
        | Some z \<Rightarrow> take (mem_n p) z = enc_text enc us
            \<and> (any_flag (mem_flags p) MEM_Term \<longrightarrow> take (length (end_of enc)) (drop (mem_n p) z) = end_of enc))"

definition null_mem :: "Mem \<Rightarrow> bool" where
  "null_mem p \<longleftrightarrow> mem_flags p = MEM_Null \<and> mem_z p = None"

definition roomy :: "alloc \<Rightarrow> bool" where
  "roomy alloc \<longleftrightarrow> (\<forall>n b. alloc n = Some b \<longrightarrow> n \<le> length b)"

definition text_char :: "nat \<Rightarrow> bool" where
  "text_char u \<longleftrightarrow> is_char u \<and> u \<noteq> 0xFFFE \<and> u \<noteq> 0xFFFF"

lemma text_char_replaced: "text_char u \<Longrightarrow> u < 0x110000 \<and> replaced u = u"
  by (auto simp: text_char_def is_char_def replaced_def)

lemma make_writeable_text:
  assumes p: "mem_text us enc p" and roomy: "roomy alloc"
  shows "\<exists>rc p'. sqlite3VdbeMemMakeWriteable alloc p = Ok (rc, p')
    \<and> (rc = SQLITE_OK \<and> mem_text us enc p' \<or> rc = SQLITE_NOMEM \<and> null_mem p' \<and> alloc (mem_n p + 3) = None)"
proof -
  obtain z where z: "mem_z p = Some z" "take (mem_n p) z = enc_text enc us" and n: "mem_n p = length (enc_text enc us)"
    using p by (auto simp: mem_text_def split: option.splits)
  have len: "mem_n p \<le> length z" using arg_cong [OF z(2), of length] n by simp
  have f: "any_flag (mem_flags p) MEM_Str" "\<not> any_flag (mem_flags p) MEM_Zero" using p by (simp_all add: mem_text_def)
  show ?thesis
  proof (cases "mem_szMalloc p = 0 \<or> \<not> mem_own p")
    case False
    then have "sqlite3VdbeMemMakeWriteable alloc p = Ok (SQLITE_OK, p\<lparr>mem_flags := mem_flags p AND NOT MEM_Ephem\<rparr>)"
      using f by (simp add: sqlite3VdbeMemMakeWriteable_def ExpandBlob_def SQLITE_OK_def)
    moreover have "mem_text us enc (p\<lparr>mem_flags := mem_flags p AND NOT MEM_Ephem\<rparr>)" using p z by (auto simp: mem_text_def)
    ultimately show ?thesis by blast
  next
    case True
    show ?thesis
    proof (cases "alloc (mem_n p + 3)")
      case None
      have "sqlite3VdbeMemMakeWriteable alloc p =
          Ok (SQLITE_NOMEM, p\<lparr>mem_flags := MEM_Null, mem_z := None, mem_szMalloc := 0\<rparr>)"
        using f True None by (simp add: sqlite3VdbeMemMakeWriteable_def ExpandBlob_def vdbeMemAddTerminator_def
            sqlite3VdbeMemGrow_def SQLITE_OK_def SQLITE_NOMEM_def)
      then show ?thesis using None by (simp add: null_mem_def)
    next
      case (Some block)
      have b: "mem_n p + 3 \<le> length block" using roomy Some by (simp add: roomy_def)
      let ?z = "enc_text enc us @ [0, 0, 0] @ drop (mem_n p + 3) block"
      let ?p = "p\<lparr>mem_szMalloc := length block, mem_own := True, mem_z := Some ?z,
        mem_flags := (grown_flags (mem_flags p) OR MEM_Term) AND NOT MEM_Ephem\<rparr>"
      have "sqlite3VdbeMemMakeWriteable alloc p = Ok (SQLITE_OK, ?p)"
        using f True Some b len z n
        by (auto simp: sqlite3VdbeMemMakeWriteable_def ExpandBlob_def vdbeMemAddTerminator_def sqlite3VdbeMemGrow_def
            SQLITE_OK_def SQLITE_NOMEM_def buf_take_def write_at_def write_z_def Let_def
            add.commute [of 3 "length (enc_text enc us)"])
      moreover have "mem_text us enc ?p" using p n by (simp add: mem_text_def end_of_def)
      ultimately show ?thesis by blast
    qed
  qed
qed

lemma enc_cases: "enc \<in> {SQLITE_UTF8, SQLITE_UTF16LE, SQLITE_UTF16BE} \<Longrightarrow> enc \<noteq> SQLITE_UTF8 \<Longrightarrow>
  enc = SQLITE_UTF16LE \<or> enc = SQLITE_UTF16BE \<and> enc \<noteq> SQLITE_UTF16LE"
  by (auto simp: SQLITE_UTF8_def SQLITE_UTF16LE_def SQLITE_UTF16BE_def)

lemma utf16_even: "even (length (utf16_text le us))"
  by (induction us) (simp_all add: length_WRITE_UTF16)

lemma utf8_to_chars:
  assumes "\<forall>u \<in> set us. text_char u"
  shows "utf8_to (WRITE_UTF16 le) (utf8_text us) = utf16_text le us"
proof -
  have "utf8_to (WRITE_UTF16 le) (utf8_text us) = concat (map (\<lambda>u. WRITE_UTF16 le (word_of_nat (replaced u))) us)"
    using assms text_char_replaced by (intro utf8_to_text) blast
  also have "\<dots> = utf16_text le us"
    unfolding utf16_text_def using assms by (intro arg_cong [of _ _ concat] map_cong refl) (simp add: text_char_replaced)
  finally show ?thesis .
qed

lemma utf16_to_chars: "\<forall>u \<in> set us. text_char u \<Longrightarrow> utf16_to_utf8 le (utf16_text le us) = Ok (utf8_text us)"
  by (rule utf16_to_text) (simp add: text_char_def)

text \<open>The translation of a text and the room it takes.\<close>

lemma translated_text:
  assumes us: "\<forall>u \<in> set us. text_char u" and e: "enc \<in> {SQLITE_UTF8, SQLITE_UTF16LE, SQLITE_UTF16BE}"
    "d \<in> {SQLITE_UTF8, SQLITE_UTF16LE, SQLITE_UTF16BE}" "(enc = SQLITE_UTF8) \<noteq> (d = SQLITE_UTF8)"
  shows "translated enc d (enc_text enc us) = Ok (enc_text d us)"
    "length (enc_text d us) \<le> 2 * length (enc_text enc us)"
proof -
  note W = utf8_to_chars [OF us, of True] utf8_to_chars [OF us, of False]
  show "translated enc d (enc_text enc us) = Ok (enc_text d us)"
    using e W utf16_to_chars [OF us]
    by (auto simp: translated_def enc_text_def WRITE_UTF16_def SQLITE_UTF8_def SQLITE_UTF16LE_def SQLITE_UTF16BE_def)
  show "length (enc_text d us) \<le> 2 * length (enc_text enc us)"
  proof (cases "enc = SQLITE_UTF8")
    case True
    have "length (utf8_to (WRITE_UTF16 le) (utf8_text us)) \<le> 2 * length (utf8_text us)" for le by (rule utf8_to_room)
    then show ?thesis using True e(3) by (simp add: enc_text_def utf8_to_chars [OF us])
  next
    case False
    then show ?thesis using e(3) utf16_to_room [OF utf16_even, of "enc = SQLITE_UTF16LE" "enc = SQLITE_UTF16LE" us]
      by (auto simp: enc_text_def utf16_to_chars [OF us])
  qed
qed

lemma translate_text:
  assumes p: "mem_text us enc p" and us: "\<forall>u \<in> set us. text_char u" and roomy: "roomy alloc"
    and e: "enc \<in> {SQLITE_UTF8, SQLITE_UTF16LE, SQLITE_UTF16BE}" "d \<in> {SQLITE_UTF8, SQLITE_UTF16LE, SQLITE_UTF16BE}"
    "enc \<noteq> d" "enc = SQLITE_UTF8 \<or> d = SQLITE_UTF8"
  shows "\<exists>rc p'. sqlite3VdbeMemTranslate alloc p d = Ok (rc, p')
    \<and> (rc = SQLITE_OK \<and> mem_text us d p' \<and> any_flag (mem_flags p') MEM_Term
       \<or> rc = SQLITE_NOMEM \<and> p' = p \<and> alloc (2 * mem_n p + length (end_of d)) = None)"
proof -
  obtain z where z: "mem_z p = Some z" "take (mem_n p) z = enc_text enc us" and n: "mem_n p = length (enc_text enc us)"
    and f: "any_flag (mem_flags p) MEM_Str" "mem_enc p = enc"
    using p by (auto simp: mem_text_def split: option.splits)
  have len: "mem_n p \<le> length z" using arg_cong [OF z(2), of length] n by simp
  have ne: "(enc = SQLITE_UTF8) \<noteq> (d = SQLITE_UTF8)" using e(3,4) by auto
  have "d = SQLITE_UTF8 \<Longrightarrow> even (mem_n p)" using ne n utf16_even by (simp add: enc_text_def)
  then have even: "(if d = SQLITE_UTF8 then p\<lparr>mem_n := mem_n p div 2 * 2\<rparr> else p) = p" by (auto elim: evenE)
  have room: "(if d = SQLITE_UTF8 then 2 * mem_n p + 1 else 2 * mem_n p + 2) = 2 * mem_n p + length (end_of d)"
    by (simp add: end_of_def)
  have enc0: "enc \<noteq> 0" using e(1) by (auto simp: SQLITE_UTF8_def SQLITE_UTF16LE_def SQLITE_UTF16BE_def)
  have step: "sqlite3VdbeMemTranslate alloc p d =
      (case alloc (2 * mem_n p + length (end_of d)) of
         None \<Rightarrow> Ok (SQLITE_NOMEM, p)
       | Some zOut \<Rightarrow>
           map_res (\<lambda>z. (SQLITE_OK,
               p\<lparr>mem_z := Some z, mem_n := length (enc_text d us), mem_enc := d,
                 mem_flags := MEM_Str OR MEM_Term OR (mem_flags p AND (MEM_AffMask OR MEM_Subtype)),
                 mem_szMalloc := length zOut, mem_own := True\<rparr>))
             (write_at 0 (enc_text d us @ end_of d) zOut))"
    unfolding sqlite3VdbeMemTranslate_def even room Let_def
    using f e(3,4) enc0 z len translated_text(1) [OF us e(1,2) ne]
    by (auto simp: buf_take_def end_of_def split: option.split)
  show ?thesis
  proof (cases "alloc (2 * mem_n p + length (end_of d))")
    case None
    then show ?thesis using step by simp
  next
    case (Some zOut)
    have "2 * mem_n p + length (end_of d) \<le> length zOut" using roomy Some by (simp add: roomy_def)
    then have "length (enc_text d us @ end_of d) \<le> length zOut"
      using translated_text(2) [OF us e(1,2) ne] n by simp
    then show ?thesis using step Some by (simp add: write_at_def mem_text_def)
  qed
qed

lemma swap_text_in_cell:
  assumes p: "mem_text us enc p" and us: "\<forall>u \<in> set us. text_char u" and roomy: "roomy alloc"
    and e: "enc \<in> {SQLITE_UTF16LE, SQLITE_UTF16BE}" "d \<in> {SQLITE_UTF16LE, SQLITE_UTF16BE}" "enc \<noteq> d"
  shows "\<exists>rc p'. swap_in_place alloc p d = Ok (rc, p')
    \<and> (rc = SQLITE_OK \<and> mem_text us d p' \<or> rc = SQLITE_NOMEM \<and> null_mem p' \<and> alloc (mem_n p + 3) = None)"
proof -
  obtain rc p1 where 1: "sqlite3VdbeMemMakeWriteable alloc p = Ok (rc, p1)"
    "rc = SQLITE_OK \<and> mem_text us enc p1 \<or> rc = SQLITE_NOMEM \<and> null_mem p1 \<and> alloc (mem_n p + 3) = None"
    using make_writeable_text [OF p roomy] by blast
  show ?thesis
  proof (cases "rc = SQLITE_OK")
    case False
    then show ?thesis using 1 by (simp add: swap_in_place_def)
  next
    case True
    then have m: "mem_text us enc p1" using 1(2) by (simp add: SQLITE_OK_def SQLITE_NOMEM_def)
    have e8: "enc \<noteq> SQLITE_UTF8" "d \<noteq> SQLITE_UTF8" "(d = SQLITE_UTF16LE) = (\<not> enc = SQLITE_UTF16LE)"
      using e by (auto simp: SQLITE_UTF8_def SQLITE_UTF16LE_def SQLITE_UTF16BE_def)
    let ?t = "utf16_text (enc = SQLITE_UTF16LE) us" and ?t' = "utf16_text (d = SQLITE_UTF16LE) us"
    obtain z where z: "mem_z p1 = Some z" "take (length ?t) z = ?t" and n: "mem_n p1 = length ?t"
      and t: "any_flag (mem_flags p1) MEM_Term \<longrightarrow> take (length (end_of enc)) (drop (length ?t) z) = end_of enc"
      and f: "any_flag (mem_flags p1) MEM_Str" "\<not> any_flag (mem_flags p1) MEM_Zero"
      using m e8(1) by (auto simp: mem_text_def enc_text_def split: option.splits)
    have len: "length ?t \<le> length z" using arg_cong [OF z(2), of length] by simp
    have swap: "swap_bytes ?t = ?t'" using us e8(3) by (simp add: swap_text text_char_def is_char_def)
    have same: "length ?t' = length ?t" by (induction us) (simp_all add: length_WRITE_UTF16)
    have two: "length ?t div 2 * 2 = length ?t" using utf16_even by (auto elim: evenE)
    let ?p = "p1\<lparr>mem_z := Some (?t' @ drop (length ?t) z), mem_enc := d\<rparr>"
    have "swap_in_place alloc p d = Ok (SQLITE_OK, ?p)"
    proof (cases "?t = []")
      case True
      then have "?t' @ drop (length ?t) z = z" using same by simp
      then show ?thesis using True \<open>rc = SQLITE_OK\<close> 1(1) z n two by (simp add: swap_in_place_def buf_take_def)
    next
      case False
      then show ?thesis using \<open>rc = SQLITE_OK\<close> 1(1) z n two len swap same
        by (simp add: swap_in_place_def buf_take_def write_z_def write_at_def)
    qed
    moreover have "mem_text us d ?p" using f n t e8 same by (simp add: mem_text_def enc_text_def end_of_def)
    ultimately show ?thesis by blast
  qed
qed

text \<open>A mark in front of a text is taken away.\<close>

lemma mark_bytes: "WRITE_UTF16 le 0xFEFF = (if le then [0xFF, 0xFE] else [0xFE, 0xFF])"
  using WRITE_UTF16_bytes [of "0xFEFF" le] by (simp add: utf16_units_def unit_bytes_def)

lemma handle_bom_text:
  assumes p: "mem_text (0xFEFF # us) enc p" and roomy: "roomy alloc" and e: "enc \<in> {SQLITE_UTF16LE, SQLITE_UTF16BE}"
  shows "\<exists>rc p'. sqlite3VdbeMemHandleBom alloc p = Ok (rc, p')
    \<and> (rc = SQLITE_OK \<and> mem_text us enc p' \<or> rc = SQLITE_NOMEM \<and> null_mem p')"
proof -
  have e8: "enc \<noteq> SQLITE_UTF8" "enc \<noteq> 0" "enc = (if enc = SQLITE_UTF16LE then SQLITE_UTF16LE else SQLITE_UTF16BE)"
    using e by (auto simp: SQLITE_UTF8_def SQLITE_UTF16LE_def SQLITE_UTF16BE_def)
  let ?m = "if enc = SQLITE_UTF16LE then [0xFF, 0xFE] else [0xFE, 0xFF :: 8 word]" and ?t = "utf16_text (enc = SQLITE_UTF16LE) us"
  have t: "enc_text enc (0xFEFF # us) = ?m @ ?t" "enc_text enc us = ?t"
    using e8(1) mark_bytes [of "enc = SQLITE_UTF16LE"] by (simp_all add: enc_text_def)
  obtain rc p1 where 1: "sqlite3VdbeMemMakeWriteable alloc p = Ok (rc, p1)"
    "rc = SQLITE_OK \<and> mem_text (0xFEFF # us) enc p1 \<or> rc = SQLITE_NOMEM \<and> null_mem p1 \<and> alloc (mem_n p + 3) = None"
    using make_writeable_text [OF p roomy] by blast
  obtain z where z: "mem_z p = Some z" "take (mem_n p) z = ?m @ ?t" "mem_n p = length (?m @ ?t)"
    using p by (auto simp: mem_text_def t split: option.splits)
  have "take 2 (take (mem_n p) z) = ?m" "length (take (mem_n p) z) = mem_n p" unfolding z(2) using z(3) by simp_all
  moreover have "length ?m = 2" by simp
  ultimately have "take 2 z = ?m" "2 \<le> length z" using z(3) by (simp_all add: min_def split: if_splits)
  then have "bind_res (buf_take 2 (mem_z p)) Ok = Ok ?m" using z(1) by (simp add: buf_take_def)
  then have mark: "(if mem_n p > 1 then
          map_res (\<lambda>bs. if bs = [0xFE, 0xFF] then SQLITE_UTF16BE else if bs = [0xFF, 0xFE] then SQLITE_UTF16LE else 0)
            (buf_take 2 (mem_z p))
        else Ok 0) = Ok enc"
    using z e8(3) by (auto simp: bind_res_Ok_iff)
  show ?thesis
  proof (cases "rc = SQLITE_OK")
    case False
    then have "sqlite3VdbeMemHandleBom alloc p = Ok (rc, p1)"
      unfolding sqlite3VdbeMemHandleBom_def mark using e8(2) 1(1) by simp
    then show ?thesis using False 1(2) by blast
  next
    case True
    then have m: "mem_text (0xFEFF # us) enc p1" using 1(2) by (simp add: SQLITE_OK_def SQLITE_NOMEM_def)
    obtain y where y: "mem_z p1 = Some y" "take (mem_n p1) y = ?m @ ?t" "mem_n p1 = length (?m @ ?t)"
      "any_flag (mem_flags p1) MEM_Str" "\<not> any_flag (mem_flags p1) MEM_Zero"
      using m by (auto simp: mem_text_def t split: option.splits)
    have len: "mem_n p1 \<le> length y" using arg_cong [OF y(2), of length] y(3) by simp
    have n: "mem_n p1 = length ?t + 2" using y(3) by simp
    have d: "drop 2 (take (length ?t + 2) y) = ?t" using y(2) n by simp
    let ?p = "p1\<lparr>mem_z := Some ((?t @ [0, 0]) @ drop (length ?t + 2) y), mem_n := length ?t,
      mem_flags := mem_flags p1 OR MEM_Term, mem_enc := enc\<rparr>"
    have "sqlite3VdbeMemHandleBom alloc p = Ok (SQLITE_OK, ?p)"
      unfolding sqlite3VdbeMemHandleBom_def mark
      using e8(2) 1(1) True y(1) n len d by (simp add: buf_take_def write_z_def write_at_def Let_def)
    moreover have "mem_text us enc ?p" using y(4,5) e8(1) by (simp add: mem_text_def t end_of_def)
    ultimately show ?thesis by blast
  qed
qed

section \<open>Properties\<close>


text \<open>The euro sign in UTF-8, changed to UTF-16.\<close>

definition euro_cell :: Mem where
  "euro_cell = \<lparr>mem_z = Some [0xE2, 0x82, 0xAC], mem_n = 3, mem_flags = MEM_Str OR MEM_Static, mem_enc = SQLITE_UTF8,
    mem_nZero = 0, mem_szMalloc = 0, mem_own = False\<rparr>"


end
