(* ===== verification/SqComplete.thy ===== *)
theory SqComplete
  imports SqTokenSafe SqHash
begin

unbundle bit_operations_syntax

text \<open>
  \<open>sqlite3_complete\<close>: the scanner of \<open>complete.c\<close>, its table of states, and a description of the
  complete texts that does without states. A text is the list of its bytes; a read behind its end
  is \<open>Undef\<close>.
\<close>

section \<open>Tokens and states\<close>

definition tkSEMI :: nat where "tkSEMI = 0"
definition tkWS :: nat where "tkWS = 1"
definition tkOTHER :: nat where "tkOTHER = 2"
definition tkEXPLAIN :: nat where "tkEXPLAIN = 3"
definition tkCREATE :: nat where "tkCREATE = 4"
definition tkTEMP :: nat where "tkTEMP = 5"
definition tkTRIGGER :: nat where "tkTRIGGER = 6"
definition tkEND :: nat where "tkEND = 7"

lemmas tk_defs = tkSEMI_def tkWS_def tkOTHER_def tkEXPLAIN_def tkCREATE_def tkTEMP_def tkTRIGGER_def tkEND_def

definition trans_table :: "nat list list" where
  "trans_table = [
     [1, 0, 2, 3, 4, 2, 2, 2],
     [1, 1, 2, 3, 4, 2, 2, 2],
     [1, 2, 2, 2, 2, 2, 2, 2],
     [1, 3, 3, 2, 4, 2, 2, 2],
     [1, 4, 2, 2, 2, 4, 5, 2],
     [6, 5, 5, 5, 5, 5, 5, 5],
     [6, 6, 5, 5, 5, 5, 5, 7],
     [1, 7, 5, 5, 5, 5, 5, 5]]"

definition next_state :: "nat \<Rightarrow> nat \<Rightarrow> nat res" where
  "next_state state token = bind_res (vec_idx trans_table state) (\<lambda>row. vec_idx row token)"

section \<open>The scanner\<close>

text \<open>The text from the character on that ends one of the inner loops.\<close>

fun skip_to :: "(8 word \<Rightarrow> bool) \<Rightarrow> 8 word list \<Rightarrow> 8 word list res" where
  "skip_to P [] = Undef"
| "skip_to P (c # z) = (if c \<noteq> 0 \<and> \<not> P c then skip_to P z else Ok (c # z))"

fun close_comment :: "8 word list \<Rightarrow> 8 word list res" where
  "close_comment [] = Undef"
| "close_comment (c # z) =
     (if c = 0 then Ok (c # z)
      else if c \<noteq> ch CHR ''*'' then close_comment z
      else bind_res (vec_idx z 0) (\<lambda>d. if d \<noteq> ch CHR ''/'' then close_comment z else Ok (c # z)))"

text \<open>
  A step of the scanner: a token with the text from its last character on, a comment that goes to
  the end of the text, or a text that ends inside a comment or a quoted text.
\<close>

datatype scan = Scanned nat "8 word list" | Comment_to_end | Cut_off

definition scan_comment :: "8 word list \<Rightarrow> scan res" where
  "scan_comment z =
     bind_res (vec_idx z 1) (\<lambda>c.
       if c \<noteq> ch CHR ''*'' then Ok (Scanned tkOTHER z)
       else
         bind_res (close_comment (drop 2 z)) (\<lambda>z.
         bind_res (vec_idx z 0) (\<lambda>c. Ok (if c = 0 then Cut_off else Scanned tkWS (tl z)))))"

definition scan_line_comment :: "8 word list \<Rightarrow> scan res" where
  "scan_line_comment z =
     bind_res (vec_idx z 1) (\<lambda>c.
       if c \<noteq> ch CHR ''-'' then Ok (Scanned tkOTHER z)
       else
         bind_res (skip_to (\<lambda>c. c = 10) z) (\<lambda>z.
         bind_res (vec_idx z 0) (\<lambda>c. Ok (if c = 0 then Comment_to_end else Scanned tkWS z))))"

definition scan_quoted :: "8 word \<Rightarrow> 8 word list \<Rightarrow> scan res" where
  "scan_quoted q z =
     bind_res (skip_to (\<lambda>c. c = q) (tl z)) (\<lambda>z.
     bind_res (vec_idx z 0) (\<lambda>c. Ok (if c = 0 then Cut_off else Scanned tkOTHER z)))"

text \<open>\<open>sqlite3StrNICmp(zSql, "...", n)==0\<close>; the macro is \<open>sqlite3_strnicmp\<close>.\<close>

definition same_word :: "8 word list \<Rightarrow> string \<Rightarrow> bool res" where
  "same_word z w = map_res (\<lambda>d. d = 0) (sqlite3_strnicmp (Some z) (Some (map ch w @ [0])) (int (length w)))"

fun word_token :: "8 word list \<Rightarrow> nat \<Rightarrow> (string \<times> nat) list \<Rightarrow> nat res" where
  "word_token z nId [] = Ok tkOTHER"
| "word_token z nId ((w, t) # ws) =
     (if nId = length w then bind_res (same_word z w) (\<lambda>b. if b then Ok t else word_token z nId ws)
      else word_token z nId ws)"

definition scan_word :: "8 word list \<Rightarrow> scan res" where
  "scan_word z =
     bind_res (scan_while IdChar z 1) (\<lambda>nId.
     bind_res (vec_idx z 0) (\<lambda>c.
     map_res (\<lambda>t. Scanned t (drop (nId - 1) z))
       (if c = ch CHR ''c'' \<or> c = ch CHR ''C'' then word_token z nId [(''create'', tkCREATE)]
        else if c = ch CHR ''t'' \<or> c = ch CHR ''T'' then
          word_token z nId [(''trigger'', tkTRIGGER), (''temp'', tkTEMP), (''temporary'', tkTEMP)]
        else if c = ch CHR ''e'' \<or> c = ch CHR ''E'' then
          word_token z nId [(''end'', tkEND), (''explain'', tkEXPLAIN)]
        else Ok tkOTHER)))"

definition scan_token :: "8 word \<Rightarrow> 8 word list \<Rightarrow> scan res" where
  "scan_token c z =
     (if c = ch CHR '';'' then Ok (Scanned tkSEMI z)
      else if c = ch CHR '' '' \<or> c = 13 \<or> c = 9 \<or> c = 10 \<or> c = 12 then Ok (Scanned tkWS z)
      else if c = ch CHR ''/'' then scan_comment z
      else if c = ch CHR ''-'' then scan_line_comment z
      else if c = ch CHR ''['' then scan_quoted (ch CHR '']'') z
      else if c = 0x60 \<or> c = 0x22 \<or> c = 0x27 then scan_quoted c z
      else if IdChar c then scan_word z
      else Ok (Scanned tkOTHER z))"

section \<open>The loop\<close>

lemma skip_to_shorter: "skip_to P z = Ok z' \<Longrightarrow> length z' \<le> length z"
  by (induction P z rule: skip_to.induct) (auto split: if_splits)

lemma close_comment_shorter: "close_comment z = Ok z' \<Longrightarrow> length z' \<le> length z"
  by (induction z rule: close_comment.induct) (auto simp: bind_res_Ok_iff split: if_splits)

lemma scan_token_shorter: "scan_token c z = Ok (Scanned t z') \<Longrightarrow> length z' \<le> length z"
  by (auto simp: scan_token_def scan_comment_def scan_line_comment_def scan_quoted_def scan_word_def bind_res_Ok_iff
      map_res_Ok_iff split: if_splits dest!: skip_to_shorter close_comment_shorter)

function complete_loop :: "8 word list \<Rightarrow> nat \<Rightarrow> bool res" where
  "complete_loop [] state = Undef"
| "complete_loop (c # z) state =
     (if c = 0 then Ok (state = 1)
      else
        (case scan_token c (c # z) of
           Ok (Scanned t z') \<Rightarrow> bind_res (next_state state t) (\<lambda>state. complete_loop (tl z') state)
         | Ok Comment_to_end \<Rightarrow> Ok (state = 1)
         | Ok Cut_off \<Rightarrow> Ok False
         | _ \<Rightarrow> Undef))"
  by pat_completeness auto

termination
  by (relation "measure (length \<circ> fst)") (auto dest!: scan_token_shorter)

definition sqlite3_complete :: "8 word list \<Rightarrow> bool res" where
  "sqlite3_complete zSql = complete_loop zSql 0"

section \<open>Complete texts without states\<close>

text \<open>
  A statement goes to its first semicolon; a statement that starts like the definition of a
  trigger goes to the first semicolon, \<open>END\<close>, semicolon behind the word \<open>TRIGGER\<close>. White space
  does not count.
\<close>

fun after_semi :: "nat list \<Rightarrow> nat list option" where
  "after_semi [] = None"
| "after_semi (t # ts) = (if t = tkSEMI then Some ts else after_semi ts)"

fun after_end :: "nat list \<Rightarrow> nat list option" where
  "after_end [] = None"
| "after_end (t # ts) =
     (if t = tkSEMI \<and> take 2 ts = [tkEND, tkSEMI] then Some (drop 2 ts) else after_end ts)"

fun create_header :: "nat list \<Rightarrow> nat list option" where
  "create_header [] = None"
| "create_header (t # ts) =
     (if t = tkTEMP then create_header ts else if t = tkTRIGGER then Some ts else None)"

fun explain_header :: "nat list \<Rightarrow> nat list option" where
  "explain_header [] = None"
| "explain_header (t # ts) =
     (if t = tkOTHER then explain_header ts else if t = tkCREATE then create_header ts else None)"

definition trigger_header :: "nat list \<Rightarrow> nat list option" where
  "trigger_header ts =
     (case ts of
        [] \<Rightarrow> None
      | t # ts \<Rightarrow> if t = tkEXPLAIN then explain_header ts else if t = tkCREATE then create_header ts else None)"

definition after_statement :: "nat list \<Rightarrow> nat list option" where
  "after_statement ts = (case trigger_header ts of None \<Rightarrow> after_semi ts | Some body \<Rightarrow> after_end body)"

lemma after_semi_shorter: "after_semi ts = Some r \<Longrightarrow> length r < length ts"
  by (induction ts) (auto split: if_splits)

lemma after_end_shorter: "after_end ts = Some r \<Longrightarrow> length r < length ts"
  by (induction ts) (auto split: if_splits)

lemma create_header_shorter: "create_header ts = Some r \<Longrightarrow> length r < length ts"
  by (induction ts) (auto split: if_splits)

lemma explain_header_shorter: "explain_header ts = Some r \<Longrightarrow> length r < length ts"
  by (induction ts) (auto split: if_splits dest: create_header_shorter)

lemma after_statement_shorter: "after_statement ts = Some r \<Longrightarrow> length r < length ts"
  by (auto simp: after_statement_def trigger_header_def split: option.splits list.splits if_splits
      dest!: after_semi_shorter after_end_shorter create_header_shorter explain_header_shorter)

lemma rest_sets:
  "after_semi ts = Some r \<Longrightarrow> set r \<subseteq> set ts" "after_end ts = Some r \<Longrightarrow> set r \<subseteq> set ts"
  "create_header ts = Some r \<Longrightarrow> set r \<subseteq> set ts" "explain_header ts = Some r \<Longrightarrow> set r \<subseteq> set ts"
proof -
  show semi: "after_semi ts = Some r \<Longrightarrow> set r \<subseteq> set ts" by (induction ts) (auto split: if_splits)
  show "after_end ts = Some r \<Longrightarrow> set r \<subseteq> set ts" by (induction ts) (auto split: if_splits dest: in_set_dropD)
  have create: "create_header ts = Some r \<Longrightarrow> set r \<subseteq> set ts" for ts by (induction ts) (auto split: if_splits)
  then show "create_header ts = Some r \<Longrightarrow> set r \<subseteq> set ts" .
  show "explain_header ts = Some r \<Longrightarrow> set r \<subseteq> set ts" by (induction ts) (auto split: if_splits dest: create)
qed

lemma trigger_header_set: "trigger_header ts = Some r \<Longrightarrow> set r \<subseteq> set ts"
  by (cases ts) (auto simp: trigger_header_def split: if_splits dest: rest_sets)

lemma after_statement_set: "after_statement ts = Some r \<Longrightarrow> set r \<subseteq> set ts"
  by (auto simp: after_statement_def split: option.splits dest!: rest_sets trigger_header_set)

function statements :: "nat list \<Rightarrow> bool" where
  "statements ts =
     (ts = [] \<or> (case after_statement ts of None \<Rightarrow> False | Some r \<Rightarrow> statements r))"
  by pat_completeness auto

termination
  by (relation "measure length") (auto dest: after_statement_shorter)

declare statements.simps [simp del]

section \<open>The states\<close>

definition next_of :: "nat \<Rightarrow> nat \<Rightarrow> nat" where
  "next_of t s = trans_table ! s ! t"

definition run_states :: "nat list \<Rightarrow> nat \<Rightarrow> nat" where
  "run_states ts s = fold next_of ts s"

lemma run_states_simps [simp]: "run_states [] s = s" "run_states (t # ts) s = run_states ts (next_of t s)"
  by (simp_all add: run_states_def)

definition sig_token :: "nat \<Rightarrow> bool" where
  "sig_token t \<longleftrightarrow> t < 8 \<and> t \<noteq> tkWS"

lemma sig_token_cases:
  "sig_token t \<Longrightarrow> t = 0 \<or> t = 2 \<or> t = 3 \<or> t = 4 \<or> t = 5 \<or> t = 6 \<or> t = 7"
  unfolding sig_token_def tkWS_def by presburger

lemmas next_of_simps = next_of_def trans_table_def tk_defs

lemma run_from_normal:
  "\<forall>t \<in> set ts. sig_token t \<Longrightarrow>
   run_states ts 2 = (case after_semi ts of None \<Rightarrow> 2 | Some r \<Rightarrow> run_states r 1)"
proof (induction ts)
  case (Cons t ts)
  then have "sig_token t" by simp
  then show ?case using Cons sig_token_cases [of t] by (auto simp: next_of_simps)
qed simp

text \<open>In the body of a trigger; the states 6 and 7 stand for what was read of the end.\<close>

lemma run_from_body:
  assumes "\<forall>t \<in> set ts. sig_token t"
  shows "(case after_end ts of None \<Rightarrow> run_states ts 5 \<in> {5, 6, 7} | Some r \<Rightarrow> run_states ts 5 = run_states r 1)
    \<and> (case after_end (tkSEMI # ts) of None \<Rightarrow> run_states ts 6 \<in> {5, 6, 7} | Some r \<Rightarrow> run_states ts 6 = run_states r 1)
    \<and> (case after_end (tkSEMI # tkEND # ts) of None \<Rightarrow> run_states ts 7 \<in> {5, 6, 7} | Some r \<Rightarrow> run_states ts 7 = run_states r 1)"
  using assms
proof (induction ts)
  case Nil
  then show ?case by (simp add: tk_defs)
next
  case (Cons t ts)
  then have t: "sig_token t" by simp
  have IH: "case after_end ts of None \<Rightarrow> run_states ts 5 \<in> {5, 6, 7} | Some r \<Rightarrow> run_states ts 5 = run_states r 1"
    "case after_end (0 # ts) of None \<Rightarrow> run_states ts 6 \<in> {5, 6, 7} | Some r \<Rightarrow> run_states ts 6 = run_states r 1"
    "case after_end (0 # 7 # ts) of None \<Rightarrow> run_states ts 7 \<in> {5, 6, 7} | Some r \<Rightarrow> run_states ts 7 = run_states r 1"
    using Cons by (simp_all add: tk_defs)
  show ?case using sig_token_cases [OF t] IH
    by (elim disjE; hypsubst) (auto simp: next_of_simps take_Cons' split: option.splits if_splits)
qed

text \<open>What is left to do when there is no header.\<close>

definition plain_rest :: "nat list \<Rightarrow> nat \<Rightarrow> bool" where
  "plain_rest ts s =
     (case after_semi ts of None \<Rightarrow> run_states ts s \<in> {2, 3, 4} | Some r \<Rightarrow> run_states ts s = run_states r 1)"

lemma plain_from_normal: "\<forall>t \<in> set ts. sig_token t \<Longrightarrow> plain_rest ts 2"
  by (simp add: plain_rest_def run_from_normal split: option.split)

lemma plain_step: "t \<noteq> 0 \<Longrightarrow> plain_rest ts (next_of t s) \<Longrightarrow> plain_rest (t # ts) s"
  by (cases "after_semi ts") (simp_all add: plain_rest_def tkSEMI_def)

lemma plain_semi: "s < 5 \<Longrightarrow> plain_rest (0 # ts) s"
proof -
  assume "s < 5"
  then have "s = 0 \<or> s = 1 \<or> s = 2 \<or> s = 3 \<or> s = 4" by presburger
  then show ?thesis by (elim disjE; hypsubst) (simp_all add: plain_rest_def next_of_simps)
qed

lemma run_from_create:
  "\<forall>t \<in> set ts. sig_token t \<Longrightarrow>
   (case create_header ts of None \<Rightarrow> plain_rest ts 4 | Some body \<Rightarrow> run_states ts 4 = run_states body 5)"
proof (induction ts)
  case Nil
  then show ?case by (simp add: plain_rest_def)
next
  case (Cons t ts)
  then have t: "sig_token t" and IH: "case create_header ts of None \<Rightarrow> plain_rest ts 4 | Some body \<Rightarrow> run_states ts 4 = run_states body 5"
    and p: "plain_rest ts 2" using plain_from_normal [of ts] by simp_all
  have n: "next_of 2 4 = 2" "next_of 3 4 = 2" "next_of 4 4 = 2" "next_of 5 4 = 4" "next_of 6 4 = 5" "next_of 7 4 = 2"
    by (simp_all add: next_of_simps)
  show ?case using sig_token_cases [OF t] IH p n
    by (elim disjE; hypsubst) (auto simp: tk_defs plain_semi split: option.splits intro: plain_step)
qed

lemma run_from_explain:
  "\<forall>t \<in> set ts. sig_token t \<Longrightarrow>
   (case explain_header ts of None \<Rightarrow> plain_rest ts 3 | Some body \<Rightarrow> run_states ts 3 = run_states body 5)"
proof (induction ts)
  case Nil
  then show ?case by (simp add: plain_rest_def)
next
  case (Cons t ts)
  then have t: "sig_token t" and IH: "case explain_header ts of None \<Rightarrow> plain_rest ts 3 | Some body \<Rightarrow> run_states ts 3 = run_states body 5"
    and p: "plain_rest ts 2" and c: "case create_header ts of None \<Rightarrow> plain_rest ts 4 | Some body \<Rightarrow> run_states ts 4 = run_states body 5"
    using plain_from_normal [of ts] run_from_create [of ts] by simp_all
  have n: "next_of 2 3 = 3" "next_of 3 3 = 2" "next_of 4 3 = 4" "next_of 5 3 = 2" "next_of 6 3 = 2" "next_of 7 3 = 2"
    by (simp_all add: next_of_simps)
  show ?case using sig_token_cases [OF t] IH p c n
    by (elim disjE; hypsubst) (auto simp: tk_defs plain_semi split: option.splits intro: plain_step)
qed

lemma run_from_start:
  assumes "\<forall>t \<in> set ts. sig_token t" "ts \<noteq> []"
  shows "case after_statement ts of None \<Rightarrow> run_states ts 1 \<noteq> 1 | Some r \<Rightarrow> run_states ts 1 = run_states r 1"
proof -
  obtain t us where ts: "ts = t # us" using assms(2) by (cases ts) auto
  have us: "\<forall>t \<in> set us. sig_token t" and t: "sig_token t" using assms(1) ts by simp_all
  have n: "next_of 2 1 = 2" "next_of 3 1 = 3" "next_of 4 1 = 4" "next_of 5 1 = 2" "next_of 6 1 = 2" "next_of 7 1 = 2"
    by (simp_all add: next_of_simps)
  have head: "case trigger_header ts of None \<Rightarrow> plain_rest ts 1 | Some body \<Rightarrow> run_states ts 1 = run_states body 5"
    using sig_token_cases [OF t] run_from_create [OF us] run_from_explain [OF us] plain_from_normal [OF us] n
    by (elim disjE; hypsubst) (auto simp: ts trigger_header_def tk_defs plain_semi split: option.splits intro: plain_step)
  show ?thesis
  proof (cases "trigger_header ts")
    case None
    then show ?thesis using head by (auto simp: after_statement_def plain_rest_def split: option.splits)
  next
    case (Some body)
    then have "set body \<subseteq> set ts" by (rule trigger_header_set)
    then have "\<forall>t \<in> set body. sig_token t" using assms(1) by blast
    from run_from_body [OF this] show ?thesis using head Some
      by (auto simp: after_statement_def split: option.splits)
  qed
qed

lemma run_states_complete:
  "\<forall>t \<in> set ts. sig_token t \<Longrightarrow> run_states ts 1 = 1 \<longleftrightarrow> statements ts"
proof (induction ts rule: statements.induct)
  case (1 ts)
  show ?case
  proof (cases "ts = []")
    case False
    from run_from_start [OF 1(2) False] show ?thesis
    proof (cases "after_statement ts")
      case None
      then show ?thesis using run_from_start [OF 1(2) False] False by (simp add: statements.simps [of ts])
    next
      case (Some r)
      have "set r \<subseteq> set ts" using Some by (rule after_statement_set)
      then have "run_states r 1 = 1 \<longleftrightarrow> statements r" using 1(1) [OF Some] 1(2) by blast
      then show ?thesis using run_from_start [OF 1(2) False] False Some by (simp add: statements.simps [of ts])
    qed
  qed (simp add: statements.simps [of "[]"])
qed

lemma run_from_zero:
  "\<forall>t \<in> set ts. sig_token t \<Longrightarrow> run_states ts 0 = (if ts = [] then 0 else run_states ts 1)"
proof (cases ts)
  case (Cons t us)
  assume "\<forall>t \<in> set ts. sig_token t"
  then have "sig_token t" using Cons by simp
  from sig_token_cases [OF this] show ?thesis unfolding Cons by (elim disjE; hypsubst) (simp_all add: next_of_simps)
qed simp

section \<open>The tokens of a text\<close>

text \<open>All tokens, and whether the text goes on to its end outside of an open comment or quote.\<close>

function complete_tokens :: "8 word list \<Rightarrow> (nat list \<times> bool) res" where
  "complete_tokens [] = Undef"
| "complete_tokens (c # z) =
     (if c = 0 then Ok ([], True)
      else
        (case scan_token c (c # z) of
           Ok (Scanned t z') \<Rightarrow> map_res (\<lambda>(ts, b). (t # ts, b)) (complete_tokens (tl z'))
         | Ok Comment_to_end \<Rightarrow> Ok ([], True)
         | Ok Cut_off \<Rightarrow> Ok ([], False)
         | _ \<Rightarrow> Undef))"
  by pat_completeness auto

termination
  by (relation "measure length") (auto dest!: scan_token_shorter)

lemma next_state_ok: "s < 8 \<Longrightarrow> t < 8 \<Longrightarrow> next_state s t = Ok (next_of t s) \<and> next_of t s < 8"
proof -
  assume s: "s < 8" and t: "t < 8"
  have len: "length trans_table = 8" "list_all (\<lambda>row. length row = 8 \<and> list_all (\<lambda>x. x < 8) row) trans_table"
    by (simp_all add: trans_table_def)
  then have "length (trans_table ! s) = 8" "trans_table ! s ! t < 8" using s t by (simp_all add: list_all_length)
  then show ?thesis using s t len(1) by (simp add: next_state_def next_of_def)
qed

lemma next_of_space: "s < 8 \<Longrightarrow> next_of tkWS s = s"
proof -
  have "map (next_of tkWS) [0..<8] = [0..<8]" by (simp add: upt_from_0 next_of_simps)
  then have "map (next_of tkWS) [0..<8] ! s = [0..<8] ! s" by simp
  then show "s < 8 \<Longrightarrow> next_of tkWS s = s" by (simp del: upt_Suc)
qed

lemma run_without_space:
  "\<forall>t \<in> set ts. t < 8 \<Longrightarrow> s < 8 \<Longrightarrow> run_states ts s = run_states (filter (\<lambda>t. t \<noteq> tkWS) ts) s"
  by (induction ts arbitrary: s) (auto simp: next_of_space next_state_ok)

lemma complete_loop_tokens:
  "complete_tokens z = Ok (ts, b) \<Longrightarrow> \<forall>t \<in> set ts. t < 8 \<Longrightarrow> s < 8 \<Longrightarrow>
   complete_loop z s = Ok (b \<and> run_states ts s = 1)"
proof (induction z arbitrary: ts s rule: complete_tokens.induct)
  case (2 c z)
  show ?case
  proof (cases "c = 0")
    case False
    obtain r where r: "scan_token c (c # z) = Ok r"
      using 2(2) False by (cases "scan_token c (c # z)") auto
    show ?thesis
    proof (cases r)
      case (Scanned t z')
      then obtain ts' where ts: "complete_tokens (tl z') = Ok (ts', b)" "ts = t # ts'"
        using 2(2) False r by (auto simp: map_res_Ok_iff)
      have "next_state s t = Ok (next_of t s) \<and> next_of t s < 8" using next_state_ok 2(3,4) ts(2) by simp
      then show ?thesis using 2(1) [OF False r Scanned ts(1), of "next_of t s"] 2(3) False r Scanned ts(2) by simp
    qed (use 2(2) False r in auto)
  qed (use 2 in auto)
qed simp

section \<open>Every text is scanned to its end\<close>

lemma ends_tl: "0 \<in> set z \<Longrightarrow> hd z \<noteq> 0 \<Longrightarrow> (0 :: 8 word) \<in> set (tl z)"
  by (cases z) auto

lemma skip_to_ends: "0 \<in> set z \<Longrightarrow> \<exists>c z'. skip_to P z = Ok (c # z') \<and> (c = 0 \<or> 0 \<in> set z')"
  by (induction z) auto

lemma close_comment_ends:
  "0 \<in> set z \<Longrightarrow> \<exists>c z'. close_comment z = Ok (c # z') \<and> (c = 0 \<or> 0 \<in> set (tl z'))"
proof (induction z)
  case (Cons c z)
  show ?case
  proof (cases "c = 0")
    case False
    then have z: "0 \<in> set z" using Cons.prems by auto
    then obtain d y where y: "z = d # y" by (cases z) auto
    then show ?thesis using Cons.IH [OF z] False z by (cases "d = ch CHR ''/''") auto
  qed simp
qed simp

lemma same_word_ends: "0 \<in> set z \<Longrightarrow> \<exists>b. same_word z w = Ok b"
  using strnicmp_loop_key [of z "map ch w @ [0]" "length w"]
  by (auto simp: same_word_def sqlite3_strnicmp_def nul_ended_def)

lemma word_token_ends: "0 \<in> set z \<Longrightarrow> \<forall>p \<in> set ws. snd p < 8 \<Longrightarrow> \<exists>t. word_token z n ws = Ok t \<and> t < 8"
proof (induction z n ws rule: word_token.induct)
  case (2 z n w t ws)
  obtain b where b: "same_word z w = Ok b" using same_word_ends [OF 2(3)] by blast
  show ?case
  proof (cases "n = length w")
    case True
    then show ?thesis using 2(1) [OF True b _ 2(3)] 2(4) b by (cases b) auto
  next
    case False
    then show ?thesis using 2(2) [OF False 2(3)] 2(4) by auto
  qed
qed (simp add: tkOTHER_def)

lemma scan_word_ends:
  assumes z: "0 \<in> set z" "z \<noteq> []" "hd z \<noteq> 0"
  shows "\<exists>t n. scan_word z = Ok (Scanned t (drop (n - 1) z)) \<and> t < 8 \<and> 0 \<in> set (drop n z) \<and> 1 \<le> n"
proof -
  obtain m where m: "SqTokenSafe.terminated z m"
  proof -
    obtain xs ys where "z = xs @ 0 # ys" "0 \<notin> set xs" using split_list_first [OF z(1)] by blast
    then show ?thesis using that [of "length xs"] terminated_append by simp
  qed
  have "z ! m = 0" using m by (simp add: terminated_def)
  then have "m \<noteq> 0" using z(2,3) by (cases m) (auto simp: hd_conv_nth)
  then obtain n where n: "scan_while IdChar z 1 = Ok n" "1 \<le> n" "n \<le> m" using scan_while_ok [OF m, of 1 IdChar] by auto
  have "z ! m \<in> set (drop n z)" using m n(3) by (auto simp: terminated_def in_set_conv_nth intro!: exI [of _ "m - n"])
  then have d: "0 \<in> set (drop n z)" using m by (simp add: terminated_def)
  have w: "\<exists>t. word_token z n ws = Ok t \<and> t < 8" if "\<forall>p \<in> set ws. snd p < 8" for ws
    using word_token_ends [OF z(1) that] .
  have "vec_idx z 0 = Ok (hd z)" using z(2) by (cases z) simp_all
  then have "\<exists>t. scan_word z = Ok (Scanned t (drop (n - 1) z)) \<and> t < 8"
    using n(1) w [of "[(''create'', tkCREATE)]"] w [of "[(''end'', tkEND), (''explain'', tkEXPLAIN)]"]
      w [of "[(''trigger'', tkTRIGGER), (''temp'', tkTEMP), (''temporary'', tkTEMP)]"]
    by (auto simp: scan_word_def tk_defs simp del: word_token.simps)
  then show ?thesis using d n(2) by blast
qed

lemma scan_token_ends:
  assumes c: "c \<noteq> 0" and z: "0 \<in> set z"
  shows "\<exists>r. scan_token c (c # z) = Ok r \<and> (\<forall>t z'. r = Scanned t z' \<longrightarrow> t < 8 \<and> 0 \<in> set (tl z'))"
proof -
  obtain d y where y: "z = d # y" using z by (cases z) auto
  have here: "\<exists>r. Ok (Scanned t (c # z)) = Ok r \<and> (\<forall>t z'. r = Scanned t z' \<longrightarrow> t < 8 \<and> 0 \<in> set (tl z'))" if "t < 8" for t
    using that z by simp
  have comment: "\<exists>r. scan_comment (c # z) = Ok r \<and> (\<forall>t z'. r = Scanned t z' \<longrightarrow> t < 8 \<and> 0 \<in> set (tl z'))"
  proof (cases "d = ch CHR ''*''")
    case True
    then have "0 \<in> set y" using z y by auto
    then obtain e z' where "close_comment y = Ok (e # z')" "e = 0 \<or> 0 \<in> set (tl z')" using close_comment_ends by blast
    then show ?thesis using True y by (auto simp: scan_comment_def tk_defs)
  next
    case False
    then show ?thesis using here [of tkOTHER] y by (simp add: scan_comment_def tk_defs)
  qed
  have line: "\<exists>r. scan_line_comment (c # z) = Ok r \<and> (\<forall>t z'. r = Scanned t z' \<longrightarrow> t < 8 \<and> 0 \<in> set (tl z'))"
  proof (cases "d = ch CHR ''-''")
    case True
    have "0 \<in> set (c # z)" using z by simp
    then obtain e z' where "skip_to (\<lambda>c. c = 10) (c # z) = Ok (e # z')" "e = 0 \<or> 0 \<in> set z'" using skip_to_ends by blast
    then show ?thesis using True y by (auto simp: scan_line_comment_def tk_defs simp del: skip_to.simps)
  next
    case False
    then show ?thesis using here [of tkOTHER] y by (simp add: scan_line_comment_def tk_defs)
  qed
  have quoted: "\<exists>r. scan_quoted q (c # z) = Ok r \<and> (\<forall>t z'. r = Scanned t z' \<longrightarrow> t < 8 \<and> 0 \<in> set (tl z'))" for q
  proof -
    obtain e z' where "skip_to (\<lambda>c. c = q) z = Ok (e # z')" "e = 0 \<or> 0 \<in> set z'" using skip_to_ends [OF z] by blast
    then show ?thesis by (auto simp: scan_quoted_def tk_defs)
  qed
  have word: "\<exists>r. scan_word (c # z) = Ok r \<and> (\<forall>t z'. r = Scanned t z' \<longrightarrow> t < 8 \<and> 0 \<in> set (tl z'))"
  proof -
    obtain t n where "scan_word (c # z) = Ok (Scanned t (drop (n - 1) (c # z)))" "t < 8" "0 \<in> set (drop n (c # z))" "1 \<le> n"
      using scan_word_ends [of "c # z"] c z by auto
    moreover have "tl (drop (n - 1) (c # z)) = drop n (c # z)" using \<open>1 \<le> n\<close> by (cases n) (simp_all add: tl_drop)
    ultimately show ?thesis by simp
  qed
  let ?on = "\<lambda>x. \<exists>r. x = Ok r \<and> (\<forall>t z'. r = Scanned t z' \<longrightarrow> t < 8 \<and> 0 \<in> set (tl z'))"
  have both: "?on x \<Longrightarrow> ?on y \<Longrightarrow> ?on (if b then x else y)" for x y b by (cases b) auto
  show ?thesis unfolding scan_token_def
    by (intro both comment line quoted word here) (simp_all add: tk_defs)
qed

lemma complete_tokens_ends: "0 \<in> set z \<Longrightarrow> \<exists>ts b. complete_tokens z = Ok (ts, b) \<and> (\<forall>t \<in> set ts. t < 8)"
proof (induction z rule: complete_tokens.induct)
  case (2 c z)
  show ?case
  proof (cases "c = 0")
    case False
    then have z: "0 \<in> set z" using 2(2) by auto
    obtain r where r: "scan_token c (c # z) = Ok r" "\<forall>t z'. r = Scanned t z' \<longrightarrow> t < 8 \<and> 0 \<in> set (tl z')"
      using scan_token_ends [OF False z] by blast
    show ?thesis
    proof (cases r)
      case (Scanned t z')
      then have "t < 8" "0 \<in> set (tl z')" using r(2) by simp_all
      with 2(1) [OF False r(1) Scanned] show ?thesis using False r(1) Scanned by auto
    next
      case Comment_to_end
      then show ?thesis using False r(1) by (intro exI [of _ "[]"] exI [of _ True]) simp
    next
      case Cut_off
      then show ?thesis using False r(1) by (intro exI [of _ "[]"] exI [of _ False]) simp
    qed
  next
    case True
    then show ?thesis by (intro exI [of _ "[]"] exI [of _ True]) simp
  qed
qed simp

section \<open>Properties\<close>

text \<open>
  C22: For every text that ends in a zero byte, \<open>sqlite3_complete\<close> scans the text to its end or to
  its cut-off comment or quote, and answers yes exactly when it is not cut off and its tokens other
  than white space are one or more complete statements, where the definition of a trigger ends with
  semicolon, \<open>END\<close>, semicolon.
\<close>

theorem complete_answers_statements:
  assumes "0 \<in> set z"
  shows "\<exists>ts b. complete_tokens z = Ok (ts, b) \<and>
    sqlite3_complete z = Ok (b \<and> filter (\<lambda>t. t \<noteq> tkWS) ts \<noteq> [] \<and> statements (filter (\<lambda>t. t \<noteq> tkWS) ts))"
proof -
  obtain ts b where ts: "complete_tokens z = Ok (ts, b)" "\<forall>t \<in> set ts. t < 8" using complete_tokens_ends [OF assms] by blast
  let ?us = "filter (\<lambda>t. t \<noteq> tkWS) ts"
  have us: "\<forall>t \<in> set ?us. sig_token t" using ts(2) by (simp add: sig_token_def)
  have "run_states ts 0 = run_states ?us 0" using run_without_space [OF ts(2)] by simp
  then have "run_states ts 0 = 1 \<longleftrightarrow> ?us \<noteq> [] \<and> statements ?us"
    using run_from_zero [OF us] run_states_complete [OF us] by simp
  then show ?thesis using ts(1) complete_loop_tokens [OF ts, of 0] by (simp add: sqlite3_complete_def)
qed

text \<open>\<open>SELECT ';' ;\<close>.\<close>

theorem complete_answers_statements_witness:
  "sqlite3_complete [83, 69, 76, 32, 39, 59, 39, 32, 59, 0] = Ok True"
proof -
  have "complete_tokens [83, 69, 76, 32, 39, 59, 39, 32, 59, 0] = Ok ([2, 1, 2, 1, 0], True)"
    by (simp add: scan_token_def scan_word_def scan_quoted_def scan_while.simps macro_defs class_defs sqlite3CtypeMap_entries tk_defs)
  moreover obtain ts b where "complete_tokens [83, 69, 76, 32, 39, 59, 39, 32, 59, 0] = Ok (ts, b)"
    "sqlite3_complete [83, 69, 76, 32, 39, 59, 39, 32, 59, 0] =
      Ok (b \<and> filter (\<lambda>t. t \<noteq> tkWS) ts \<noteq> [] \<and> statements (filter (\<lambda>t. t \<noteq> tkWS) ts))"
    using complete_answers_statements [of "[83, 69, 76, 32, 39, 59, 39, 32, 59, 0]"] by auto
  moreover have "statements [2, 2, 0]"
    by (simp add: statements.simps after_statement_def trigger_header_def tk_defs)
  ultimately show ?thesis by (auto simp: tk_defs)
qed

end
