(* ===== verification/SqLike.thy ===== *)
theory SqLike
  imports SqUtf SqTokenize
begin

unbundle bit_operations_syntax

text \<open>
  The operators LIKE and GLOB (\<open>func.c\<close>): the comparison of a text with a pattern, the SQL function,
  and the patterns as sequences of tokens with the texts they match. A text is the list of its
  bytes with its zero byte; a pointer into it is the list from there on.
\<close>

section \<open>Reading\<close>

definition Utf8Read :: "8 word list \<Rightarrow> (32 word \<times> 8 word list) res" where
  "Utf8Read A = bind_res (vec_idx A 0) (\<lambda>b. if b < 0x80 then Ok (ucast b, tl A) else sqlite3Utf8Read A)"

text \<open>\<open>z + strcspn(z, zStop)\<close>.\<close>

fun skip_cspn :: "8 word list \<Rightarrow> 8 word list \<Rightarrow> 8 word list res" where
  "skip_cspn zStop [] = Undef"
| "skip_cspn zStop (b # z) = (if b = 0 \<or> b \<in> set zStop then Ok (b # z) else skip_cspn zStop z)"

section \<open>Comparison\<close>

record compareInfo =
  matchAll :: "8 word"
  matchOne :: "8 word"
  matchSet :: "8 word"
  noCase :: "8 word"

definition globInfo :: compareInfo where
  "globInfo = \<lparr>matchAll = ch CHR ''*'', matchOne = ch CHR ''?'', matchSet = ch CHR ''['', noCase = 0\<rparr>"

definition likeInfoNorm :: compareInfo where
  "likeInfoNorm = \<lparr>matchAll = ch CHR ''%'', matchOne = ch CHR ''_'', matchSet = 0, noCase = 1\<rparr>"

definition likeInfoAlt :: compareInfo where
  "likeInfoAlt = \<lparr>matchAll = ch CHR ''%'', matchOne = ch CHR ''_'', matchSet = 0, noCase = 0\<rparr>"

definition SQLITE_MATCH :: int where "SQLITE_MATCH = 0"
definition SQLITE_NOMATCH :: int where "SQLITE_NOMATCH = 1"
definition SQLITE_NOWILDCARDMATCH :: int where "SQLITE_NOWILDCARDMATCH = 2"

lemmas match_codes = SQLITE_MATCH_def SQLITE_NOMATCH_def SQLITE_NOWILDCARDMATCH_def

text \<open>The wildcards behind a \<open>*\<close>; \<open>None\<close> when the text ends, else the next character of the pattern,
  with the pattern from it on and behind it.\<close>

lemma utf8_read_tail_shorter: "utf8_read_tail c z = Ok (d, z') \<Longrightarrow> length z' \<le> length z"
  by (induction c z rule: utf8_read_tail.induct) (auto split: if_splits)

lemma sqlite3Utf8Read_shorter: "sqlite3Utf8Read z = Ok (c, z') \<Longrightarrow> length z' < length z"
  by (cases z) (auto simp: map_res_Ok_iff bind_res_Ok_iff dest!: utf8_read_tail_shorter split: if_splits)

lemma Utf8Read_shorter: "Utf8Read z = Ok (c, z') \<Longrightarrow> length z' < length z"
  by (cases z) (auto simp: Utf8Read_def split: if_splits dest: sqlite3Utf8Read_shorter simp del: sqlite3Utf8Read.simps)

function skip_wildcards ::
  "compareInfo \<Rightarrow> 8 word list \<Rightarrow> 8 word list \<Rightarrow> (32 word \<times> 8 word list \<times> 8 word list \<times> 8 word list) option res" where
  "skip_wildcards pInfo zPattern zString =
     (case Utf8Read zPattern of
        Ok (c, z) \<Rightarrow>
          if c = ucast (matchAll pInfo) \<or> c = ucast (matchOne pInfo) \<and> matchOne pInfo \<noteq> 0 then
            (if c = ucast (matchOne pInfo) then
               (case sqlite3Utf8Read zString of
                  Ok (d, zString) \<Rightarrow> if d = 0 then Ok None else skip_wildcards pInfo z zString
                | _ \<Rightarrow> Undef)
             else skip_wildcards pInfo z zString)
          else Ok (Some (c, zPattern, z, zString))
      | _ \<Rightarrow> Undef)"
  by pat_completeness auto
termination
  by (relation "measure (\<lambda>(p, z, s). length z)") (auto dest: Utf8Read_shorter)

declare skip_wildcards.simps [simp del]

text \<open>The three searches behind a \<open>*\<close>; \<open>again\<close> compares the rest of the pattern.\<close>

function slow_search :: "(8 word list \<Rightarrow> int res) \<Rightarrow> 8 word list \<Rightarrow> int res" where
  "slow_search again zString =
     bind_res (vec_idx zString 0) (\<lambda>b.
       if b = 0 then Ok SQLITE_NOWILDCARDMATCH
       else
         bind_res (again zString) (\<lambda>bMatch.
           if bMatch \<noteq> SQLITE_NOMATCH then Ok bMatch
           else (case SQLITE_SKIP_UTF8 zString of Ok z \<Rightarrow> slow_search again z | _ \<Rightarrow> Undef)))"
  by pat_completeness auto
termination
  by (relation "measure (length \<circ> snd)") (auto dest: skip_shorter)

declare slow_search.simps [simp del]

lemma skip_cspn_shorter: "skip_cspn s z = Ok z' \<Longrightarrow> length z' \<le> length z"
  by (induction s z rule: skip_cspn.induct) (auto split: if_splits)

function stop_search :: "(8 word list \<Rightarrow> int res) \<Rightarrow> 8 word list \<Rightarrow> 8 word list \<Rightarrow> int res" where
  "stop_search again zStop zString =
     (case skip_cspn zStop zString of
        Ok (b # z) \<Rightarrow>
          if b = 0 then Ok SQLITE_NOWILDCARDMATCH
          else bind_res (again z) (\<lambda>bMatch. if bMatch \<noteq> SQLITE_NOMATCH then Ok bMatch else stop_search again zStop z)
      | _ \<Rightarrow> Undef)"
  by pat_completeness auto
termination
  by (relation "measure (\<lambda>(a, s, z). length z)") (auto dest: skip_cspn_shorter)

declare stop_search.simps [simp del]

function wide_search :: "(8 word list \<Rightarrow> int res) \<Rightarrow> 32 word \<Rightarrow> 8 word list \<Rightarrow> int res" where
  "wide_search again c zString =
     (case Utf8Read zString of
        Ok (c2, z) \<Rightarrow>
          if c2 = 0 then Ok SQLITE_NOWILDCARDMATCH
          else if c2 \<noteq> c then wide_search again c z
          else bind_res (again z) (\<lambda>bMatch. if bMatch \<noteq> SQLITE_NOMATCH then Ok bMatch else wide_search again c z)
      | _ \<Rightarrow> Undef)"
  by pat_completeness auto
termination
  by (relation "measure (\<lambda>(a, c, z). length z)") (auto dest: Utf8Read_shorter)

declare wide_search.simps [simp del]

definition star_search :: "compareInfo \<Rightarrow> (8 word list \<Rightarrow> int res) \<Rightarrow> 32 word \<Rightarrow> 8 word list \<Rightarrow> int res" where
  "star_search pInfo again c zString =
     (if c < 0x80 then
        stop_search again
          (if noCase pInfo \<noteq> 0 then [sqlite3Toupper (ucast c), sqlite3Tolower (ucast c)] else [ucast c]) zString
      else wide_search again c zString)"

text \<open>
  What follows a \<open>*\<close>. \<open>again\<close> is the comparison itself, with the pointer behind an escaped character,
  the pattern and the text; \<open>zPattern[-1]\<close> is the byte \<open>c\<close> was read from, as the assertion says.
\<close>

type_synonym comparison = "nat option \<Rightarrow> 8 word list \<Rightarrow> 8 word list \<Rightarrow> int res"

definition match_all :: "compareInfo \<Rightarrow> 32 word \<Rightarrow> comparison \<Rightarrow> 8 word list \<Rightarrow> 8 word list \<Rightarrow> int res" where
  "match_all pInfo matchOther again zPattern zString =
     bind_res (skip_wildcards pInfo zPattern zString) (\<lambda>r.
       case r of
         None \<Rightarrow> Ok SQLITE_NOWILDCARDMATCH
       | Some (c, zThis, zPattern, zString) \<Rightarrow>
           if c = 0 then Ok SQLITE_MATCH
           else if c = matchOther then
             (if matchSet pInfo = 0 then
                bind_res (sqlite3Utf8Read zPattern) (\<lambda>(c, zPattern).
                  if c = 0 then Ok SQLITE_NOWILDCARDMATCH
                  else star_search pInfo (again None zPattern) c zString)
              else if 0x80 \<le> matchOther then Undef
              else slow_search (again None zThis) zString)
           else star_search pInfo (again None zPattern) c zString)"

text \<open>A set of characters: the rest of the pattern and of the text, or \<open>None\<close> for no match.\<close>

function set_loop :: "32 word \<Rightarrow> 32 word \<Rightarrow> bool \<Rightarrow> 32 word \<Rightarrow> 8 word list \<Rightarrow> (bool \<times> 32 word \<times> 8 word list) res" where
  "set_loop c prior_c seen c2 zPattern =
     (if c2 \<noteq> 0 \<and> c2 \<noteq> ucast (ch CHR '']'') then
        (case vec_idx zPattern 0 of
           Ok b \<Rightarrow>
             if c2 = ucast (ch CHR ''-'') \<and> b \<noteq> ch CHR '']'' \<and> b \<noteq> 0 \<and> prior_c > 0 then
               (case sqlite3Utf8Read zPattern of
                  Ok (c2, z) \<Rightarrow>
                    (case sqlite3Utf8Read z of
                       Ok (c2', z') \<Rightarrow> set_loop c 0 (seen \<or> c \<ge> prior_c \<and> c \<le> c2) c2' z'
                     | _ \<Rightarrow> Undef)
                | _ \<Rightarrow> Undef)
             else
               (case sqlite3Utf8Read zPattern of
                  Ok (c2', z) \<Rightarrow> set_loop c c2 (seen \<or> c = c2) c2' z
                | _ \<Rightarrow> Undef)
         | _ \<Rightarrow> Undef)
      else Ok (seen, c2, zPattern))"
  by pat_completeness auto
termination
  by (relation "measure (\<lambda>(c, p, s, d, z). length z)") (auto dest!: sqlite3Utf8Read_shorter)

declare set_loop.simps [simp del]

definition match_set :: "8 word list \<Rightarrow> 8 word list \<Rightarrow> (8 word list \<times> 8 word list) option res" where
  "match_set zPattern zString =
     bind_res (sqlite3Utf8Read zString) (\<lambda>(c, zString).
       if c = 0 then Ok None
       else
         bind_res (sqlite3Utf8Read zPattern) (\<lambda>(c2, zPattern).
         bind_res (if c2 = ucast (ch CHR ''^'') then map_res (Pair True) (sqlite3Utf8Read zPattern)
                   else Ok (False, c2, zPattern)) (\<lambda>(invert, c2, zPattern).
         bind_res (if c2 = ucast (ch CHR '']'') then
                     map_res (Pair (c = ucast (ch CHR '']''))) (sqlite3Utf8Read zPattern)
                   else Ok (False, c2, zPattern)) (\<lambda>(seen, c2, zPattern).
         map_res (\<lambda>(seen, c2, zPattern). if c2 = 0 \<or> seen = invert then None else Some (zPattern, zString))
           (set_loop c 0 seen c2 zPattern)))))"

text \<open>One character of the pattern against the next one of the text.\<close>

definition match_char ::
  "compareInfo \<Rightarrow> comparison \<Rightarrow> 32 word \<Rightarrow> nat option \<Rightarrow> 8 word list \<Rightarrow> 8 word list \<Rightarrow> int res" where
  "match_char pInfo again c zEscaped zPattern zString =
     bind_res (Utf8Read zString) (\<lambda>(c2, zString).
       if c = c2 then again zEscaped zPattern zString
       else if noCase pInfo \<noteq> 0 \<and> sqlite3Tolower (ucast c) = sqlite3Tolower (ucast c2) \<and> c < 0x80 \<and> c2 < 0x80
         then again zEscaped zPattern zString
       else if c = ucast (matchOne pInfo) \<and> zEscaped \<noteq> Some (length zPattern) \<and> c2 \<noteq> 0
         then again zEscaped zPattern zString
       else Ok SQLITE_NOMATCH)"

text \<open>The loop; a pointer is compared by the number of bytes behind it. \<open>k\<close> bounds the rounds.\<close>

primrec pattern_loop :: "nat \<Rightarrow> compareInfo \<Rightarrow> 32 word \<Rightarrow> comparison" where
  "pattern_loop 0 pInfo matchOther zEscaped zPattern zString = Undef"
| "pattern_loop (Suc k) pInfo matchOther zEscaped zPattern zString =
     bind_res (Utf8Read zPattern) (\<lambda>(c, zPattern).
       if c = 0 then map_res (\<lambda>b. if b = 0 then SQLITE_MATCH else SQLITE_NOMATCH) (vec_idx zString 0)
       else if c = ucast (matchAll pInfo) then
         match_all pInfo matchOther (pattern_loop k pInfo matchOther) zPattern zString
       else if c = matchOther then
         (if matchSet pInfo = 0 then
            bind_res (sqlite3Utf8Read zPattern) (\<lambda>(c, zPattern).
              if c = 0 then Ok SQLITE_NOMATCH
              else match_char pInfo (pattern_loop k pInfo matchOther) c (Some (length zPattern)) zPattern zString)
          else
            bind_res (match_set zPattern zString) (\<lambda>r.
              case r of
                None \<Rightarrow> Ok SQLITE_NOMATCH
              | Some (zPattern, zString) \<Rightarrow> pattern_loop k pInfo matchOther zEscaped zPattern zString))
       else match_char pInfo (pattern_loop k pInfo matchOther) c zEscaped zPattern zString)"

definition patternCompare :: "8 word list \<Rightarrow> 8 word list \<Rightarrow> compareInfo \<Rightarrow> 32 word \<Rightarrow> int res" where
  "patternCompare zPattern zString pInfo matchOther =
     pattern_loop (length zPattern) pInfo matchOther None zPattern zString"

section \<open>The interfaces\<close>

definition sqlite3_strglob :: "8 word list option \<Rightarrow> 8 word list option \<Rightarrow> int res" where
  "sqlite3_strglob zGlobPattern zString =
     (case zString of
        None \<Rightarrow> Ok (if zGlobPattern \<noteq> None then 1 else 0)
      | Some s \<Rightarrow>
          (case zGlobPattern of
             None \<Rightarrow> Ok 1
           | Some p \<Rightarrow> patternCompare p s globInfo (ucast (ch CHR ''[''))))"

definition sqlite3_strlike :: "8 word list option \<Rightarrow> 8 word list option \<Rightarrow> 32 word \<Rightarrow> int res" where
  "sqlite3_strlike zPattern zStr esc =
     (case zStr of
        None \<Rightarrow> Ok (if zPattern \<noteq> None then 1 else 0)
      | Some s \<Rightarrow> (case zPattern of None \<Rightarrow> Ok 1 | Some p \<Rightarrow> patternCompare p s likeInfoNorm esc))"

text \<open>
  The SQL function. An argument is a text or \<open>None\<close> for NULL; \<open>limit\<close> is the limit of the connection
  on the length of a pattern, \<open>user_data\<close> what the function was registered with.
\<close>

datatype like_result = Like_error string | Like_null | Like_int int

definition value_bytes :: "8 word list option \<Rightarrow> nat" where
  "value_bytes v = (case v of None \<Rightarrow> 0 | Some z \<Rightarrow> length z - 1)"

definition like_escape :: "compareInfo \<Rightarrow> 8 word list \<Rightarrow> (compareInfo \<times> 32 word) option res" where
  "like_escape pInfo zEsc =
     bind_res (sqlite3Utf8CharLen zEsc (-1)) (\<lambda>n.
       if n \<noteq> 1 then Ok None
       else
         map_res (\<lambda>(escape, _).
           Some (pInfo\<lparr>matchAll := (if escape = ucast (matchAll pInfo) then 0 else matchAll pInfo),
                    matchOne := (if escape = ucast (matchOne pInfo) then 0 else matchOne pInfo)\<rparr>, escape))
           (sqlite3Utf8Read zEsc))"

definition likeFunc :: "nat \<Rightarrow> compareInfo \<Rightarrow> 8 word list option list \<Rightarrow> like_result res" where
  "likeFunc limit user_data argv =
     bind_res (vec_idx argv 0) (\<lambda>pattern.
     bind_res (vec_idx argv 1) (\<lambda>text.
       if limit < value_bytes pattern then Ok (Like_error ''LIKE or GLOB pattern too complex'')
       else
         (let compare = (\<lambda>(pInfo, escape).
            case (pattern, text) of
              (Some zB, Some zA) \<Rightarrow>
                map_res (\<lambda>r. Like_int (if r = SQLITE_MATCH then 1 else 0)) (patternCompare zB zA pInfo escape)
            | _ \<Rightarrow> Ok Like_null)
          in if length argv = 3 then
               bind_res (vec_idx argv 2) (\<lambda>esc.
                 case esc of
                   None \<Rightarrow> Ok Like_null
                 | Some zEsc \<Rightarrow>
                     bind_res (like_escape user_data zEsc) (\<lambda>r.
                       case r of
                         None \<Rightarrow> Ok (Like_error ''ESCAPE expression must be a single character'')
                       | Some ie \<Rightarrow> compare ie))
             else compare (user_data, ucast (matchSet user_data)))))"

section \<open>The characters of a text\<close>

function chars :: "8 word list \<Rightarrow> 32 word list" where
  "chars z = (case Utf8Read z of Ok (c, z') \<Rightarrow> if c = 0 then [] else c # chars z' | _ \<Rightarrow> [])"
  by pat_completeness auto
termination
  by (relation "measure length") (auto dest: Utf8Read_shorter)

declare chars.simps [simp del]

lemma utf8_read_tail_ends:
  "0 \<in> set z \<Longrightarrow> \<exists>d pre z'. utf8_read_tail c z = Ok (d, z') \<and> z = pre @ z' \<and> 0 \<in> set z' \<and> (\<forall>b \<in> set pre. \<not> b < 0x80)"
proof (induction z arbitrary: c)
  case (Cons b z)
  show ?case
  proof (cases "b AND 0xC0 = 0x80")
    case True
    then have b: "\<not> b < 0x80" "b \<noteq> 0" unfolding cont_byte by (auto simp: word_less_nat_alt)
    then have "0 \<in> set z" using Cons.prems by auto
    from Cons.IH [OF this, of "push_bit 6 c + ucast (0x3F AND b)"] obtain d pre z' where
      "utf8_read_tail (push_bit 6 c + ucast (0x3F AND b)) z = Ok (d, z')" "z = pre @ z'" "0 \<in> set z'" "\<forall>b \<in> set pre. \<not> b < 0x80"
      by blast
    then show ?thesis using True b by (intro exI [of _ d] exI [of _ "b # pre"] exI [of _ z']) simp
  next
    case False
    then show ?thesis using Cons.prems by (intro exI [of _ c] exI [of _ "[]"] exI [of _ "b # z"]) simp
  qed
qed simp

lemma utf8_check_large: "\<not> utf8_check c < 0x80"
  by (simp add: utf8_check_def)

lemma unat_wide [simp]: "unat (ucast (b :: 8 word) :: 32 word) = unat b"
proof -
  have "unat b < 2 ^ 32" using unat_byte_less [of b] by simp
  then show ?thesis unfolding unsigned_ucast_eq by (simp add: take_bit_nat_eq_self)
qed

lemma wide_less: "(ucast (b :: 8 word) :: 32 word) < 0x80 \<longleftrightarrow> b < 0x80"
  by (simp add: word_less_nat_alt)

lemma wide_eq: "(ucast (a :: 8 word) :: 32 word) = ucast b \<longleftrightarrow> a = b"
  by (metis unat_wide word_unat_eq_iff)

lemma wide_zero: "(ucast (b :: 8 word) :: 32 word) = 0 \<longleftrightarrow> b = 0"
  using wide_eq [of b 0] by simp

lemma narrow_wide [simp]: "(ucast (ucast (b :: 8 word) :: 32 word) :: 8 word) = b"
  by (simp add: ucast_up_ucast_id is_up)

lemma wide_narrow: "c < 0x80 \<Longrightarrow> (ucast (ucast (c :: 32 word) :: 8 word) :: 32 word) = c"
  by (rule word_unat_eq_iff [THEN iffD2]) (simp add: unsigned_ucast_eq take_bit_nat_eq_self unsigned_take_bit_eq word_less_nat_alt)

text \<open>Reading on a text: the first character and the text behind it.\<close>

lemma sqlite3Utf8Read_ends:
  assumes "0 \<in> set z"
  shows "\<exists>c pre z'. sqlite3Utf8Read z = Ok (c, z') \<and> z = pre @ z' \<and> pre \<noteq> [] \<and> (c = 0 \<longleftrightarrow> hd z = 0) \<and> (c \<noteq> 0 \<longrightarrow> 0 \<in> set z') \<and>
    (c < 0x80 \<longleftrightarrow> hd z < 0x80) \<and> (hd z < 0x80 \<longrightarrow> pre = [hd z] \<and> c = ucast (hd z)) \<and>
    (\<not> hd z < 0x80 \<longrightarrow> (\<forall>b \<in> set pre. \<not> b < 0x80))"
proof -
  obtain b y where z: "z = b # y" using assms by (cases z) auto
  show ?thesis
  proof (cases "0xC0 \<le> b")
    case True
    then have b: "b \<noteq> 0" "\<not> b < 0x80" by (auto simp: word_le_nat_alt word_less_nat_alt)
    then have y: "0 \<in> set y" using assms z by auto
    have "unat (b - 0xC0) < 64"
      using unat_byte_less [of b] True by (subst unat_sub) (simp_all add: word_le_nat_alt)
    then have t: "vec_idx sqlite3Utf8Trans1 (unat (b - 0xC0)) = Ok (sqlite3Utf8Trans1 ! unat (b - 0xC0))"
      by (simp add: length_Trans1)
    obtain d pre z' where r: "utf8_read_tail (word_of_nat (sqlite3Utf8Trans1 ! unat (b - 0xC0))) y = Ok (d, z')"
      "y = pre @ z'" "0 \<in> set z'" "\<forall>b \<in> set pre. \<not> b < 0x80" using utf8_read_tail_ends [OF y] by blast
    have "utf8_check d \<noteq> 0" using utf8_check_large [of d] by auto
    then show ?thesis using True b t r utf8_check_large [of d] z
      by (intro exI [of _ "utf8_check d"] exI [of _ "b # pre"] exI [of _ z']) simp
  next
    case False
    then show ?thesis using assms z
      by (intro exI [of _ "ucast b"] exI [of _ "[b]"] exI [of _ y]) (auto simp: wide_less wide_zero)
  qed
qed

lemma read_same: "0 \<in> set z \<Longrightarrow> Utf8Read z = sqlite3Utf8Read z"
  by (cases z) (auto simp: Utf8Read_def word_le_nat_alt word_less_nat_alt)

lemma text_end: "0 \<in> set z \<Longrightarrow> hd z = 0 \<Longrightarrow> chars z = [] \<and> Utf8Read z = Ok (0, tl z) \<and> sqlite3Utf8Read z = Ok (0, tl z) \<and> vec_idx z 0 = Ok 0"
  by (cases z) (auto simp: chars.simps [of "0 # y" for y] Utf8Read_def)

lemma text_char:
  assumes "0 \<in> set z" and "hd z \<noteq> 0"
  shows "\<exists>c z'. Utf8Read z = Ok (c, z') \<and> sqlite3Utf8Read z = Ok (c, z') \<and> c \<noteq> 0 \<and> chars z = c # chars z' \<and> 0 \<in> set z' \<and>
    length z' < length z \<and> vec_idx z 0 = Ok (hd z) \<and> (c < 0x80 \<longleftrightarrow> hd z < 0x80) \<and> (hd z < 0x80 \<longrightarrow> c = ucast (hd z))"
proof -
  obtain c pre z' where r: "sqlite3Utf8Read z = Ok (c, z')" "c \<noteq> 0" "0 \<in> set z'" "c < 0x80 \<longleftrightarrow> hd z < 0x80"
    "hd z < 0x80 \<longrightarrow> c = ucast (hd z)"
    using sqlite3Utf8Read_ends [OF assms(1)] assms(2) by blast
  have "vec_idx z 0 = Ok (hd z)" using assms(1) by (cases z) auto
  moreover have "chars z = c # chars z'" using r(1,2) read_same [OF assms(1)] by (subst chars.simps) simp
  ultimately show ?thesis using r read_same [OF assms(1)] sqlite3Utf8Read_shorter [OF r(1)]
    by (intro exI [of _ c] exI [of _ z']) simp
qed

lemma text_cases:
  assumes "0 \<in> set z"
  obtains (ends) "hd z = 0" "chars z = []" "Utf8Read z = Ok (0, tl z)" "sqlite3Utf8Read z = Ok (0, tl z)" "vec_idx z 0 = Ok 0"
    | (more) c z' where "hd z \<noteq> 0" "Utf8Read z = Ok (c, z')" "sqlite3Utf8Read z = Ok (c, z')" "c \<noteq> 0" "chars z = c # chars z'"
        "0 \<in> set z'" "length z' < length z" "vec_idx z 0 = Ok (hd z)" "c < 0x80 \<longleftrightarrow> hd z < 0x80" "hd z < 0x80 \<longrightarrow> c = ucast (hd z)"
  using text_end [OF assms] text_char [OF assms] by blast

lemma skip_char: "0 \<in> set z \<Longrightarrow> sqlite3Utf8Read z = Ok (c, z') \<Longrightarrow> hd z \<noteq> 0 \<Longrightarrow> SQLITE_SKIP_UTF8 z = Ok z'"
proof -
  assume z: "0 \<in> set z" "sqlite3Utf8Read z = Ok (c, z')" "hd z \<noteq> 0"
  then obtain b y where y: "z = b # y" by (cases z) auto
  then have "0 \<in> set y" using z by auto
  then have "stops y" by (auto simp: stops_def intro!: bexI [of _ 0])
  then show ?thesis using Utf8Read_eq [of y b] SKIP_eq [of y b] z(2) unfolding y by simp
qed

lemma chars_ascii: "b \<noteq> 0 \<Longrightarrow> b < 0x80 \<Longrightarrow> chars (b # z) = ucast b # chars z" "chars (0 # z) = []"
  by (simp_all add: chars.simps [of "b # z" for b] Utf8Read_def wide_zero)

section \<open>Patterns\<close>

text \<open>What a pattern means, character by character.\<close>

datatype glob = Any_seq | Any_one | One_of "32 word \<Rightarrow> bool" | Never

definition small :: "32 word \<Rightarrow> 32 word" where
  "small c = (if 65 \<le> c \<and> c \<le> 90 then c + 32 else c)"

definition same_char :: "compareInfo \<Rightarrow> 32 word \<Rightarrow> 32 word \<Rightarrow> bool" where
  "same_char info c d \<longleftrightarrow> c = d \<or> noCase info \<noteq> 0 \<and> c < 0x80 \<and> d < 0x80 \<and> small c = small d"

text \<open>The ranges of a set up to its closing bracket, and the pattern behind it.\<close>

fun set_ranges :: "32 word \<Rightarrow> 32 word list \<Rightarrow> ((32 word \<times> 32 word) list \<times> 32 word list) option" where
  "set_ranges prior [] = None"
| "set_ranges prior (c # cs) =
     (if c = 93 then Some ([], cs)
      else
        (case cs of
           [] \<Rightarrow> None
         | d # ds \<Rightarrow>
             if c = 45 \<and> d \<noteq> 93 \<and> prior \<noteq> 0 then map_option (\<lambda>(rs, r). ((prior, d) # rs, r)) (set_ranges 0 ds)
             else map_option (\<lambda>(rs, r). ((c, c) # rs, r)) (set_ranges c cs)))"

definition skip_first :: "32 word \<Rightarrow> 32 word list \<Rightarrow> bool \<times> 32 word list" where
  "skip_first x cs = (case cs of [] \<Rightarrow> (False, []) | c # cs' \<Rightarrow> if c = x then (True, cs') else (False, cs))"

definition set_chars :: "32 word list \<Rightarrow> ((32 word \<Rightarrow> bool) \<times> 32 word list) option" where
  "set_chars cs =
     (case skip_first 94 cs of (invert, cs) \<Rightarrow>
      case skip_first 93 cs of (bracket, cs) \<Rightarrow>
        map_option (\<lambda>(rs, rest).
          (\<lambda>c. (bracket \<and> c = 93 \<or> list_ex (\<lambda>(a, b). a \<le> c \<and> c \<le> b) rs) \<noteq> invert, rest)) (set_ranges 0 cs))"

lemma set_ranges_shorter: "set_ranges prior cs = Some (rs, r) \<Longrightarrow> length r < length cs"
proof (induction prior cs arbitrary: rs rule: set_ranges.induct)
  case (2 prior c cs)
  show ?case
  proof (cases "c = 93")
    case True
    then show ?thesis using 2(3) by simp
  next
    case c: False
    then obtain d ds where cs: "cs = d # ds" using 2(3) by (cases cs) auto
    show ?thesis
    proof (cases "c = 45 \<and> d \<noteq> 93 \<and> prior \<noteq> 0")
      case True
      then obtain rs' where "set_ranges 0 ds = Some (rs', r)" using 2(3) c cs by auto
      then show ?thesis using 2(1) [OF c cs True] cs by fastforce
    next
      case False
      then obtain rs' where "set_ranges c cs = Some (rs', r)" using 2(3) c cs by auto
      then show ?thesis using 2(2) [OF c cs False] by fastforce
    qed
  qed
qed simp

lemma skip_first_shorter: "length (snd (skip_first x cs)) \<le> length cs"
  by (cases cs) (simp_all add: skip_first_def)

lemma set_chars_shorter: "set_chars cs = Some (Q, r) \<Longrightarrow> length r < length cs"
proof -
  assume s: "set_chars cs = Some (Q, r)"
  obtain i as where a: "skip_first 94 cs = (i, as)" by (rule prod.exhaust)
  obtain f bs where b: "skip_first 93 as = (f, bs)" by (rule prod.exhaust)
  obtain rs where "set_ranges 0 bs = Some (rs, r)" using s a b by (auto simp: set_chars_def)
  then have "length r < length bs" by (rule set_ranges_shorter)
  moreover have "length bs \<le> length as" "length as \<le> length cs"
    using skip_first_shorter [of 94 cs] skip_first_shorter [of 93 as] a b by simp_all
  ultimately show ?thesis by linarith
qed

function glob_tokens :: "compareInfo \<Rightarrow> 32 word \<Rightarrow> 32 word list \<Rightarrow> glob list" where
  "glob_tokens info other [] = []"
| "glob_tokens info other (c # cs) =
     (if c = ucast (matchAll info) then Any_seq # glob_tokens info other cs
      else if c = other then
        (if matchSet info = 0 then
           (case cs of [] \<Rightarrow> [Never] | e # cs \<Rightarrow> One_of (same_char info e) # glob_tokens info other cs)
         else
           (case set_chars cs of None \<Rightarrow> [Never] | Some (Q, cs) \<Rightarrow> One_of Q # glob_tokens info other cs))
      else if c = ucast (matchOne info) then Any_one # glob_tokens info other cs
      else One_of (same_char info c) # glob_tokens info other cs)"
  by pat_completeness auto
termination
  by (relation "measure (\<lambda>(i, x, cs). length cs)") (auto dest: set_chars_shorter)

declare glob_tokens.simps [simp del]

text \<open>A text matches a pattern.\<close>

function glob_matches :: "glob list \<Rightarrow> 32 word list \<Rightarrow> bool" where
  "glob_matches [] s = (s = [])"
| "glob_matches (Any_seq # ts) s = (glob_matches ts s \<or> (case s of [] \<Rightarrow> False | c # s \<Rightarrow> glob_matches (Any_seq # ts) s))"
| "glob_matches (Any_one # ts) s = (case s of [] \<Rightarrow> False | c # s \<Rightarrow> glob_matches ts s)"
| "glob_matches (One_of Q # ts) s = (case s of [] \<Rightarrow> False | c # s \<Rightarrow> Q c \<and> glob_matches ts s)"
| "glob_matches (Never # ts) s = False"
  by pat_completeness auto
termination
  by (relation "measures [\<lambda>(ts, s). length ts, \<lambda>(ts, s). length s]") auto

lemma star_simps [simp]:
  "glob_matches (Any_seq # ts) [] = glob_matches ts []"
  "glob_matches (Any_seq # ts) (c # s) \<longleftrightarrow> glob_matches ts (c # s) \<or> glob_matches (Any_seq # ts) s"
  by simp_all

declare glob_matches.simps(2) [simp del]

lemma star_drop: "glob_matches (Any_seq # ts) (drop k s) \<Longrightarrow> glob_matches (Any_seq # ts) s"
proof (induction k arbitrary: s)
  case (Suc k)
  then show ?case by (cases s) auto
qed simp

lemma star_here: "glob_matches ts s \<Longrightarrow> glob_matches (Any_seq # ts) s"
  by (cases s) simp_all

lemma star_iff: "glob_matches (Any_seq # ts) s \<longleftrightarrow> (\<exists>k. glob_matches ts (drop k s))"
proof
  show "glob_matches (Any_seq # ts) s \<Longrightarrow> \<exists>k. glob_matches ts (drop k s)"
  proof (induction s)
    case Nil
    then show ?case by simp
  next
    case (Cons c s)
    then show ?case by (metis drop0 drop_Suc_Cons star_simps(2))
  qed
qed (use star_drop star_here in blast)

lemma star_star: "glob_matches (Any_seq # Any_seq # ts) s = glob_matches (Any_seq # ts) s"
  by (induction s) auto

lemma star_one: "glob_matches (Any_seq # Any_one # ts) s \<longleftrightarrow> s \<noteq> [] \<and> glob_matches (Any_seq # ts) (tl s)"
proof (induction s)
  case (Cons c s)
  then show ?case by (cases s) auto
qed simp

section \<open>Sets\<close>

lemma wide_codes: "ucast (ch CHR '']'') = (93 :: 32 word)" "ucast (ch CHR ''^'') = (94 :: 32 word)" "ucast (ch CHR ''-'') = (45 :: 32 word)"
  by simp_all

lemma hd_char:
  assumes "c < 0x80 \<longleftrightarrow> b < 0x80" and "b < 0x80 \<longrightarrow> c = ucast b" and "n < 0x80"
  shows "b = n \<longleftrightarrow> c = (ucast (n :: 8 word) :: 32 word)"
  using assms wide_less [of n] wide_eq [of b n] by auto

lemma set_loop_ok:
  assumes "c2 \<noteq> 0 \<longrightarrow> 0 \<in> set zP"
  shows "case set_ranges prior (if c2 = 0 then [] else c2 # chars zP) of
      None \<Rightarrow> \<exists>seen' z'. set_loop c prior seen c2 zP = Ok (seen', 0, z')
    | Some (rs, rest) \<Rightarrow> \<exists>z'. set_loop c prior seen c2 zP = Ok (seen \<or> list_ex (\<lambda>(a, b). a \<le> c \<and> c \<le> b) rs, 93, z') \<and>
        0 \<in> set z' \<and> chars z' = rest \<and> length z' \<le> length zP"
  using assms
proof (induction "length zP" arbitrary: prior seen c2 zP rule: less_induct)
  case less
  show ?case
  proof (cases "c2 = 0 \<or> c2 = 93")
    case True
    then have "set_loop c prior seen c2 zP = Ok (seen, c2, zP)" by (subst set_loop.simps) auto
    then show ?thesis using less.prems True by auto
  next
    case False
    then have z: "0 \<in> set zP" using less.prems by simp
    from z show ?thesis
    proof (cases rule: text_cases)
      case ends
      have "set_loop c prior seen c2 zP = set_loop c c2 (seen \<or> c = c2) 0 (tl zP)"
        using False ends by (subst set_loop.simps) simp
      also have "\<dots> = Ok (seen \<or> c = c2, 0, tl zP)" by (subst set_loop.simps) simp
      finally show ?thesis using False ends by simp
    next
      case (more d zP')
      have b: "hd zP \<noteq> ch CHR '']'' \<longleftrightarrow> d \<noteq> 93" using hd_char [OF more(9,10), of "ch CHR '']''"] by simp
      show ?thesis
      proof (cases "c2 = 45 \<and> d \<noteq> 93 \<and> prior \<noteq> 0")
        case True
        have seen_eq: "prior \<le> c \<and> c \<le> d \<longleftrightarrow> c \<ge> prior \<and> c \<le> d" by simp
        from more(6) show ?thesis
        proof (cases rule: text_cases)
          case e: ends
          have "set_loop c prior seen c2 zP = set_loop c 0 (seen \<or> prior \<le> c \<and> c \<le> d) 0 (tl zP')"
            using True False more(1-4,8) b e by (subst set_loop.simps) (simp add: word_gt_0)
          also have "\<dots> = Ok (seen \<or> prior \<le> c \<and> c \<le> d, 0, tl zP')" by (subst set_loop.simps) simp
          finally show ?thesis using True False more(5) e by simp
        next
          case e: (more e zP'')
          have step: "set_loop c prior seen c2 zP = set_loop c 0 (seen \<or> prior \<le> c \<and> c \<le> d) e zP''"
            using True False more(1-4,8) b e(3) by (subst set_loop.simps) (simp add: word_gt_0)
          have "length zP'' < length zP" using more(7) e(7) by simp
          from less.hyps [OF this, of e 0 "seen \<or> prior \<le> c \<and> c \<le> d"] e(4-7) more(5,7) True False
          show ?thesis unfolding step by (auto split: option.splits)
        qed
      next
        case no: False
        have step: "set_loop c prior seen c2 zP = set_loop c c2 (seen \<or> c = c2) d zP'"
          using no False more(1-4,8) b by (subst set_loop.simps) (auto simp: word_gt_0)
        have "c2 \<le> c \<and> c \<le> c2 \<longleftrightarrow> c = c2" by auto
        then show ?thesis using less.hyps [OF more(7), of d c2 "seen \<or> c = c2"] more(4-7) no False
          unfolding step by (auto split: option.splits)
      qed
    qed
  qed
qed

lemma match_set_ok:
  assumes "0 \<in> set zP" and "0 \<in> set zS"
  shows "\<exists>r. match_set zP zS = Ok r \<and>
    (case set_chars (chars zP) of
       None \<Rightarrow> r = None
     | Some (Q, rest) \<Rightarrow>
         (case chars zS of
            [] \<Rightarrow> r = None
          | c # s \<Rightarrow>
              if Q c then \<exists>zP' zS'. r = Some (zP', zS') \<and> 0 \<in> set zP' \<and> 0 \<in> set zS' \<and> chars zP' = rest \<and> chars zS' = s \<and>
                length zP' \<le> length zP
              else r = None))"
  using assms(2)
proof (cases rule: text_cases)
  case ends
  then show ?thesis by (simp add: match_set_def split: option.split)
next
  case s: (more c zS')
  define skip where "skip x c2 z = (if c2 = x then map_res (Pair True) (sqlite3Utf8Read z) else Ok (False, c2, z))" for x c2 z
  have skip_ok: "\<exists>c2' z'. skip x c2 z = Ok (fst (skip_first x (if c2 = 0 then [] else c2 # chars z)), c2', z') \<and>
      (if c2' = 0 then [] else c2' # chars z') = snd (skip_first x (if c2 = 0 then [] else c2 # chars z)) \<and>
      (c2' \<noteq> 0 \<longrightarrow> 0 \<in> set z') \<and> length z' \<le> length z"
    if "c2 \<noteq> 0 \<longrightarrow> 0 \<in> set z" "x \<noteq> 0" for x c2 z
  proof (cases "c2 = x")
    case True
    then have "0 \<in> set z" using that by simp
    then show ?thesis using True that(2) by (cases rule: text_cases) (auto simp: skip_def skip_first_def)
  next
    case False
    then show ?thesis using that(1) by (auto simp: skip_def skip_first_def)
  qed
  have first: "\<exists>c2 z. sqlite3Utf8Read zP = Ok (c2, z) \<and> (if c2 = 0 then [] else c2 # chars z) = chars zP \<and> (c2 \<noteq> 0 \<longrightarrow> 0 \<in> set z) \<and>
      length z \<le> length zP"
    using assms(1) by (cases rule: text_cases) auto
  then obtain c2 z where z: "sqlite3Utf8Read zP = Ok (c2, z)" "(if c2 = 0 then [] else c2 # chars z) = chars zP"
    "c2 \<noteq> 0 \<longrightarrow> 0 \<in> set z" "length z \<le> length zP" by blast
  obtain c3 z3 where z3: "skip 94 c2 z = Ok (fst (skip_first 94 (chars zP)), c3, z3)"
    "(if c3 = 0 then [] else c3 # chars z3) = snd (skip_first 94 (chars zP))" "c3 \<noteq> 0 \<longrightarrow> 0 \<in> set z3" "length z3 \<le> length z"
    using skip_ok [OF z(3), of 94] z(2) by auto
  let ?cs = "snd (skip_first 94 (chars zP))"
  obtain c4 z4 where z4: "skip 93 c3 z3 = Ok (fst (skip_first 93 ?cs), c4, z4)"
    "(if c4 = 0 then [] else c4 # chars z4) = snd (skip_first 93 ?cs)" "c4 \<noteq> 0 \<longrightarrow> 0 \<in> set z4" "length z4 \<le> length z3"
    using skip_ok [OF z3(3), of 93] z3(2) by auto
  have bracket: "(if c3 = 93 then map_res (Pair (c = 93)) (sqlite3Utf8Read z3) else Ok (False, c3, z3)) =
      Ok (fst (skip_first 93 ?cs) \<and> c = 93, c4, z4)"
    using z4(1) by (cases "sqlite3Utf8Read z3") (auto simp: skip_def split: if_splits)
  have run: "match_set zP zS =
      map_res (\<lambda>(seen, c2, y). if c2 = 0 \<or> seen = fst (skip_first 94 (chars zP)) then None else Some (y, zS'))
        (set_loop c 0 (fst (skip_first 93 ?cs) \<and> c = 93) c4 z4)"
    unfolding match_set_def wide_codes s(3) z(1) bind_res.simps prod.case skip_def [symmetric] z3(1) bracket
    using s(4) by simp
  show ?thesis
  proof (cases "set_ranges 0 (snd (skip_first 93 ?cs))")
    case None
    then have "\<exists>seen' z'. set_loop c 0 (fst (skip_first 93 ?cs) \<and> c = 93) c4 z4 = Ok (seen', 0, z')"
      using set_loop_ok [OF z4(3), of c 0 "fst (skip_first 93 ?cs) \<and> c = 93"] unfolding z4(2) by simp
    then have "match_set zP zS = Ok None" unfolding run by auto
    moreover have "set_chars (chars zP) = None" using None by (simp add: set_chars_def split_beta)
    ultimately show ?thesis by simp
  next
    case (Some rr)
    obtain rs rest where rr: "rr = (rs, rest)" by (rule prod.exhaust)
    obtain z' where z': "set_loop c 0 (fst (skip_first 93 ?cs) \<and> c = 93) c4 z4 =
        Ok (fst (skip_first 93 ?cs) \<and> c = 93 \<or> list_ex (\<lambda>(a, b). a \<le> c \<and> c \<le> b) rs, 93, z')"
      "0 \<in> set z'" "chars z' = rest" "length z' \<le> length z4"
      using set_loop_ok [OF z4(3), of c 0 "fst (skip_first 93 ?cs) \<and> c = 93"] unfolding z4(2) Some rr by auto
    have "set_chars (chars zP) = Some (\<lambda>c. (fst (skip_first 93 ?cs) \<and> c = 93 \<or> list_ex (\<lambda>(a, b). a \<le> c \<and> c \<le> b) rs) \<noteq>
        fst (skip_first 94 (chars zP)), rest)"
      using Some rr by (simp add: set_chars_def split_beta)
    then show ?thesis unfolding run z'(1) using s(5,6) z'(2-4) z(4) z3(4) z4(4) by auto
  qed
qed

section \<open>Searches\<close>

text \<open>
  An answer on a pattern and a text: \<open>SQLITE_NOWILDCARDMATCH\<close> says that no later part of the text
  matches either, so that a search that meets it may end.
\<close>

definition answers :: "int \<Rightarrow> glob list \<Rightarrow> 32 word list \<Rightarrow> bool" where
  "answers r ts s \<longleftrightarrow> r \<in> {SQLITE_MATCH, SQLITE_NOMATCH, SQLITE_NOWILDCARDMATCH} \<and> (r = SQLITE_MATCH \<longleftrightarrow> glob_matches ts s) \<and>
     (r = SQLITE_NOWILDCARDMATCH \<longrightarrow> (\<forall>k. \<not> glob_matches ts (drop k s)))"

lemma answers_star:
  "answers r (Any_seq # ts) s \<longleftrightarrow> r \<in> {SQLITE_MATCH, SQLITE_NOMATCH, SQLITE_NOWILDCARDMATCH} \<and> (r = SQLITE_MATCH \<longleftrightarrow> glob_matches (Any_seq # ts) s)"
  by (auto simp: answers_def match_codes dest: star_drop)

definition answers_all :: "(8 word list \<Rightarrow> int res) \<Rightarrow> glob list \<Rightarrow> bool" where
  "answers_all again ts \<longleftrightarrow> (\<forall>z. 0 \<in> set z \<longrightarrow> (\<exists>r. again z = Ok r \<and> answers r ts (chars z)))"

lemma answers_cases:
  assumes "answers_all again ts" and "0 \<in> set z"
  obtains (yes) "again z = Ok SQLITE_MATCH" "glob_matches ts (chars z)"
    | (no) "again z = Ok SQLITE_NOMATCH" "\<not> glob_matches ts (chars z)"
    | (never) "again z = Ok SQLITE_NOWILDCARDMATCH" "\<not> glob_matches (Any_seq # ts) (chars z)"
proof -
  obtain r where "again z = Ok r" "answers r ts (chars z)" using assms unfolding answers_all_def by blast
  then show ?thesis using that unfolding answers_def star_iff by (auto simp: match_codes)
qed

lemma slow_search_ok:
  assumes "answers_all again ts" and "\<not> glob_matches ts []" and "0 \<in> set z"
  shows "\<exists>r. slow_search again z = Ok r \<and> answers r (Any_seq # ts) (chars z)"
  using assms(3)
proof (induction "length z" arbitrary: z rule: less_induct)
  case less
  from less.prems show ?case
  proof (cases rule: text_cases)
    case ends
    then show ?thesis using assms(2) by (subst slow_search.simps) (simp add: answers_star match_codes)
  next
    case (more c z')
    have skip: "SQLITE_SKIP_UTF8 z = Ok z'" by (rule skip_char [OF less.prems more(3,1)])
    from assms(1) less.prems show ?thesis
    proof (cases rule: answers_cases)
      case yes
      then show ?thesis using more(1,8) star_here [OF yes(2)] by (subst slow_search.simps) (simp add: answers_star match_codes)
    next
      case no
      obtain r where r: "slow_search again z' = Ok r" "answers r (Any_seq # ts) (chars z')"
        using less.hyps [OF more(7,6)] by blast
      have "slow_search again z = Ok r" using more(1,8) no(1) skip r(1) by (subst slow_search.simps) simp
      then show ?thesis using r(2) no(2) more(5) by (auto simp: answers_star)
    next
      case never
      then show ?thesis using more(1,8) by (subst slow_search.simps) (simp add: answers_star match_codes)
    qed
  qed
qed

text \<open>Behind a star and one character; \<open>Q\<close> holds of the characters where the search stops.\<close>

lemma star_then:
  "glob_matches (Any_seq # One_of Q # ts) (c # s) \<longleftrightarrow> Q c \<and> glob_matches ts s \<or> glob_matches (Any_seq # One_of Q # ts) s"
  "\<not> glob_matches (Any_seq # One_of Q # ts) []"
  by simp_all

lemma star_then_none: "\<not> glob_matches (Any_seq # ts) s \<Longrightarrow> \<not> glob_matches (Any_seq # One_of Q # ts) s"
proof (induction s)
  case (Cons c s)
  then show ?case using star_here [of ts s] by auto
qed simp

lemma wide_search_ok:
  assumes "answers_all again ts" and "\<And>d. Q d \<longleftrightarrow> d = c" and "0 \<in> set z"
  shows "\<exists>r. wide_search again c z = Ok r \<and> answers r (Any_seq # One_of Q # ts) (chars z)"
  using assms(3)
proof (induction "length z" arbitrary: z rule: less_induct)
  case less
  from less.prems show ?case
  proof (cases rule: text_cases)
    case ends
    then show ?thesis by (subst wide_search.simps) (simp add: answers_star match_codes)
  next
    case (more d z')
    obtain r where r: "wide_search again c z' = Ok r" "answers r (Any_seq # One_of Q # ts) (chars z')"
      using less.hyps [OF more(7,6)] by blast
    show ?thesis
    proof (cases "d = c")
      case False
      have "wide_search again c z = Ok r" using False more(2,4) r(1) by (subst wide_search.simps) simp
      then show ?thesis using r(2) False more(5) by (auto simp: answers_star star_then assms(2) simp del: star_simps)
    next
      case True
      from assms(1) more(6) show ?thesis
      proof (cases rule: answers_cases)
        case yes
        then show ?thesis using True more(2,4,5) by (subst wide_search.simps) (simp add: answers_star star_then assms(2) match_codes del: star_simps)
      next
        case no
        have "wide_search again c z = Ok r" using True more(2,4) no(1) r(1) by (subst wide_search.simps) simp
        then show ?thesis using r(2) no(2) more(5) by (auto simp: answers_star star_then simp del: star_simps)
      next
        case never
        have "\<not> glob_matches ts (chars z')" using never(2) star_here by blast
        then show ?thesis using True more(2,4,5) never star_then_none [OF never(2)]
          by (subst wide_search.simps) (simp add: answers_star star_then match_codes del: star_simps)
      qed
    qed
  qed
qed

text \<open>\<open>strcspn\<close> on bytes passes the characters that are not in the list.\<close>

lemma skip_cspn_pass: "\<forall>b \<in> set pre. b \<noteq> 0 \<and> b \<notin> set zStop \<Longrightarrow> skip_cspn zStop (pre @ z) = skip_cspn zStop z"
  by (induction pre) auto

lemma skip_cspn_ok:
  assumes "\<forall>b \<in> set zStop. b < 0x80" and "0 \<in> set z"
  shows "\<exists>y. skip_cspn zStop z = Ok y \<and> 0 \<in> set y \<and> length y \<le> length z \<and> (hd y = 0 \<or> hd y \<in> set zStop) \<and>
    chars y = dropWhile (\<lambda>d. \<not> (d < 0x80 \<and> ucast d \<in> set zStop)) (chars z)"
  using assms(2)
proof (induction "length z" arbitrary: z rule: less_induct)
  case less
  from less.prems show ?case
  proof (cases rule: text_cases)
    case ends
    then show ?thesis using less.prems by (cases z) auto
  next
    case (more c z')
    have "c < 0x80 \<and> ucast c \<in> set zStop \<longleftrightarrow> hd z \<in> set zStop"
      using more(9,10) assms(1) by (cases "hd z < 0x80") auto
    then have chars: "dropWhile (\<lambda>d. \<not> (d < 0x80 \<and> ucast d \<in> set zStop)) (chars z) =
        (if hd z \<in> set zStop then chars z else dropWhile (\<lambda>d. \<not> (d < 0x80 \<and> ucast d \<in> set zStop)) (chars z'))"
      unfolding more(5) by (cases "hd z \<in> set zStop") auto
    show ?thesis
    proof (cases "hd z \<in> set zStop")
      case True
      then have "skip_cspn zStop z = Ok z" using less.prems by (cases z) auto
      then show ?thesis using True less.prems chars by (intro exI [of _ z]) simp
    next
      case False
      obtain pre where pre: "z = pre @ z'" "hd z < 0x80 \<longrightarrow> pre = [hd z]" "\<not> hd z < 0x80 \<longrightarrow> (\<forall>b \<in> set pre. \<not> b < 0x80)"
        using sqlite3Utf8Read_ends [OF less.prems] more(3) by auto
      have "\<forall>b \<in> set pre. b \<noteq> 0 \<and> b \<notin> set zStop" using pre(2,3) more(1) False assms(1) by (cases "hd z < 0x80") auto
      then have "skip_cspn zStop z = skip_cspn zStop z'" using skip_cspn_pass pre(1) by metis
      then show ?thesis using less.hyps [OF more(7,6)] more(7) False chars by auto
    qed
  qed
qed

lemma star_dropWhile:
  "glob_matches (Any_seq # One_of Q # ts) (dropWhile (\<lambda>d. \<not> Q d) s) = glob_matches (Any_seq # One_of Q # ts) s"
  by (induction s) auto

lemma stop_search_ok:
  assumes "answers_all again ts" and "\<forall>b \<in> set zStop. b < 0x80" and "\<And>d. Q d \<longleftrightarrow> d < 0x80 \<and> ucast d \<in> set zStop" and "0 \<in> set z"
  shows "\<exists>r. stop_search again zStop z = Ok r \<and> answers r (Any_seq # One_of Q # ts) (chars z)"
  using assms(4)
proof (induction "length z" arbitrary: z rule: less_induct)
  case less
  obtain y where y: "skip_cspn zStop z = Ok y" "0 \<in> set y" "length y \<le> length z" "hd y = 0 \<or> hd y \<in> set zStop"
    "chars y = dropWhile (\<lambda>d. \<not> Q d) (chars z)"
    using skip_cspn_ok [OF assms(2) less.prems] unfolding assms(3) by blast
  have eq: "glob_matches (Any_seq # One_of Q # ts) (chars z) = glob_matches (Any_seq # One_of Q # ts) (chars y)"
    unfolding y(5) star_dropWhile ..
  obtain b y' where by': "y = b # y'" using y(2) by (cases y) auto
  from y(2) show ?case
  proof (cases rule: text_cases)
    case ends
    then show ?thesis using y(1) eq by' by (subst stop_search.simps) (simp add: answers_star match_codes)
  next
    case (more c z')
    have b: "b \<in> set zStop" "b < 0x80" "b \<noteq> 0" using more(1) y(4) by' assms(2) by auto
    then have z': "z' = y'" "c = ucast b" using more(2,10) by' by (simp_all add: Utf8Read_def)
    have Q: "Q c" using b z'(2) assms(3) by (simp add: wide_less)
    obtain r where r: "stop_search again zStop y' = Ok r" "answers r (Any_seq # One_of Q # ts) (chars y')"
      using less.hyps [of y'] more(6) z'(1) y(3) by' by auto
    have chars: "chars y = c # chars y'" using more(5) z'(1) by simp
    from assms(1) more(6) show ?thesis
    proof (cases rule: answers_cases)
      case yes
      then show ?thesis using y(1) by' b(3) z'(1) chars Q eq by (subst stop_search.simps) (auto simp: answers_star match_codes)
    next
      case no
      have "stop_search again zStop z = Ok r" using y(1) by' b(3) no(1) z'(1) r(1) by (subst stop_search.simps) simp
      then show ?thesis using r(2) no(2) chars eq z'(1) unfolding answers_star by (auto simp: star_then simp del: star_simps)
    next
      case never
      have "\<not> glob_matches ts (chars z')" using never(2) star_here by blast
      then have "\<not> glob_matches (Any_seq # One_of Q # ts) (chars z)"
        unfolding eq chars star_then using star_then_none [OF never(2)] z'(1) by simp
      then show ?thesis using y(1) by' b(3) never(1) z'(1) by (subst stop_search.simps) (simp add: answers_star match_codes)
    qed
  qed
qed

text \<open>The two cases of a letter.\<close>

definition small_nat :: "nat \<Rightarrow> nat" where "small_nat n = (if 65 \<le> n \<and> n \<le> 90 then n + 32 else n)"
definition large_nat :: "nat \<Rightarrow> nat" where "large_nat n = (if 97 \<le> n \<and> n \<le> 122 then n - 32 else n)"

lemma case_tables:
  assumes "b < 0x80"
  shows "unat (sqlite3Tolower b) = small_nat (unat b)" "unat (sqlite3Toupper b) = large_nat (unat b)"
proof -
  have "list_all (\<lambda>k. (word_of_nat k :: 8 word) < 0x80 \<longrightarrow> unat (sqlite3Tolower (word_of_nat k)) = small_nat (unat (word_of_nat k :: 8 word)) \<and>
      unat (sqlite3Toupper (word_of_nat k)) = large_nat (unat (word_of_nat k :: 8 word))) [0..<256]"
    by (simp add: upt_from_0 macro_defs sqlite3UpperToLower_entries sqlite3CtypeMap_entries small_nat_def large_nat_def)
  from all_bytes [OF this, of b] assms
  show "unat (sqlite3Tolower b) = small_nat (unat b)" "unat (sqlite3Toupper b) = large_nat (unat b)" by simp_all
qed

lemma unat_small: "unat (small c) = small_nat (unat c)"
proof -
  have "unat (c + 32) = unat c + 32" if "unat c \<le> 90"
    using that by (subst unat_plus_if') simp
  then show ?thesis by (auto simp: small_def small_nat_def word_le_nat_alt)
qed

lemma unat_narrow: "c < 0x80 \<Longrightarrow> unat (ucast (c :: 32 word) :: 8 word) = unat c"
  by (simp add: unsigned_ucast_eq take_bit_nat_eq_self word_less_nat_alt)

lemma same_char_narrow:
  assumes "c < 0x80"
  shows "same_char info c d \<longleftrightarrow> d < 0x80 \<and>
    ucast d \<in> set (if noCase info \<noteq> 0 then [sqlite3Toupper (ucast c), sqlite3Tolower (ucast c)] else [ucast c])"
proof -
  have c: "ucast c < (0x80 :: 8 word)" using assms by (simp add: word_less_nat_alt unat_narrow)
  have "c = d \<longleftrightarrow> d < 0x80 \<and> unat d = unat c" using assms by (auto simp: word_unat_eq_iff word_less_nat_alt)
  moreover have "(ucast d :: 8 word) = ucast c \<longleftrightarrow> unat d = unat c" if "d < 0x80"
    unfolding word_unat_eq_iff [of "ucast d :: 8 word"] unat_narrow [OF assms] unat_narrow [OF that] ..
  moreover have "ucast d = sqlite3Toupper (ucast c) \<longleftrightarrow> unat d = large_nat (unat c)"
    "ucast d = sqlite3Tolower (ucast c) \<longleftrightarrow> unat d = small_nat (unat c)" if "d < 0x80"
    unfolding word_unat_eq_iff [of "ucast d :: 8 word"] case_tables [OF c] unat_narrow [OF assms] unat_narrow [OF that] by (rule refl)+
  moreover have "small c = small d \<longleftrightarrow> small_nat (unat c) = small_nat (unat d)"
    unfolding word_unat_eq_iff unat_small ..
  moreover have "unat d = unat c \<or> small_nat (unat c) = small_nat (unat d) \<longleftrightarrow> unat d = large_nat (unat c) \<or> unat d = small_nat (unat c)"
    unfolding small_nat_def large_nat_def by auto
  ultimately show ?thesis using assms unfolding same_char_def by auto
qed


lemma star_search_ok:
  assumes "answers_all again ts" and "0 \<in> set z"
  shows "\<exists>r. star_search info again c z = Ok r \<and> answers r (Any_seq # One_of (same_char info c) # ts) (chars z)"
proof (cases "c < 0x80")
  case True
  then have c: "ucast c < (0x80 :: 8 word)" by (simp add: word_less_nat_alt unat_narrow)
  have "small_nat (unat (ucast c :: 8 word)) < 128" "large_nat (unat (ucast c :: 8 word)) < 128"
    using c by (auto simp: small_nat_def large_nat_def word_less_nat_alt)
  then have "\<forall>b \<in> set (if noCase info \<noteq> 0 then [sqlite3Toupper (ucast c), sqlite3Tolower (ucast c)] else [ucast c]). b < 0x80"
    using c by (simp add: word_less_nat_alt case_tables)
  from stop_search_ok [OF assms(1) this same_char_narrow [OF True] assms(2)] show ?thesis
    using True by (simp add: star_search_def)
next
  case False
  then have "same_char info c d \<longleftrightarrow> d = c" for d by (auto simp: same_char_def)
  from wide_search_ok [OF assms(1) this assms(2)] show ?thesis using False by (simp add: star_search_def)
qed

section \<open>The comparison\<close>

text \<open>The wildcard for one character is neither the other wildcard nor the escape character, and a set starts with an ASCII character.\<close>

definition info_ok :: "compareInfo \<Rightarrow> 32 word \<Rightarrow> bool" where
  "info_ok info other \<longleftrightarrow> (matchOne info = 0 \<or> other \<noteq> ucast (matchOne info) \<and> matchAll info \<noteq> matchOne info) \<and>
     (matchSet info \<noteq> 0 \<longrightarrow> other < 0x80)"

lemma skip_wildcards_ok:
  assumes "info_ok info other" and "matchAll info \<noteq> 0" and "0 \<in> set zP" and "0 \<in> set zS"
  shows "\<exists>r. skip_wildcards info zP zS = Ok r \<and>
    (case r of
       None \<Rightarrow> \<not> glob_matches (Any_seq # glob_tokens info other (chars zP)) (chars zS)
     | Some (c, zThis, zP', zS') \<Rightarrow> 0 \<in> set zThis \<and> length zThis \<le> length zP \<and> Utf8Read zThis = Ok (c, zP') \<and> 0 \<in> set zS' \<and>
         (c \<noteq> 0 \<longrightarrow> c \<noteq> ucast (matchAll info) \<and> c \<noteq> ucast (matchOne info)) \<and>
         glob_matches (Any_seq # glob_tokens info other (chars zP)) (chars zS) =
         glob_matches (Any_seq # glob_tokens info other (chars zThis)) (chars zS'))"
  using assms(3,4)
proof (induction "length zP" arbitrary: zP zS rule: less_induct)
  case less
  from less.prems(1) show ?case
  proof (cases rule: text_cases)
    case ends
    then have "skip_wildcards info zP zS = Ok (Some (0, zP, tl zP, zS))"
      using wide_zero [of "matchAll info"] wide_zero [of "matchOne info"] assms(2) by (subst skip_wildcards.simps) auto
    then show ?thesis using less.prems ends(3) by simp
  next
    case (more c z')
    consider (all) "c = ucast (matchAll info)" "matchOne info \<noteq> matchAll info \<or> matchOne info = 0"
      | (one) "c = ucast (matchOne info)" "c \<noteq> ucast (matchAll info)" "c \<noteq> other" "matchOne info \<noteq> 0"
      | (other) "c \<noteq> ucast (matchAll info)" "c \<noteq> ucast (matchOne info)"
      using assms(1) more(4) wide_zero [of "matchOne info"] by (cases "c = ucast (matchAll info)"; cases "c = ucast (matchOne info)")
        (auto simp: info_ok_def)
    then show ?thesis
    proof cases
      case all
      then have "c \<noteq> ucast (matchOne info)" using more(4) wide_eq by auto
      then have "skip_wildcards info zP zS = skip_wildcards info z' zS"
        using all(1) more(2) by (subst skip_wildcards.simps) simp
      moreover have "glob_tokens info other (chars zP) = Any_seq # glob_tokens info other (chars z')"
        using all(1) more(5) by (simp add: glob_tokens.simps)
      moreover obtain r where "skip_wildcards info z' zS = Ok r"
        "case r of
           None \<Rightarrow> \<not> glob_matches (Any_seq # glob_tokens info other (chars z')) (chars zS)
         | Some (c, zThis, zP', zS') \<Rightarrow> 0 \<in> set zThis \<and> length zThis \<le> length z' \<and> Utf8Read zThis = Ok (c, zP') \<and> 0 \<in> set zS' \<and>
             (c \<noteq> 0 \<longrightarrow> c \<noteq> ucast (matchAll info) \<and> c \<noteq> ucast (matchOne info)) \<and>
             glob_matches (Any_seq # glob_tokens info other (chars z')) (chars zS) =
             glob_matches (Any_seq # glob_tokens info other (chars zThis)) (chars zS')"
        using less.hyps [OF more(7,6) less.prems(2)] by blast
      ultimately show ?thesis using more(7) by (cases r) (auto simp: star_star)
    next
      case one
      have toks: "glob_tokens info other (chars zP) = Any_one # glob_tokens info other (chars z')"
        using one more(5) by (simp add: glob_tokens.simps)
      from less.prems(2) show ?thesis
      proof (cases rule: text_cases)
        case e: ends
        then have "skip_wildcards info zP zS = Ok None" using one(1,4) more(2) by (subst skip_wildcards.simps) simp
        then show ?thesis using toks e(2) by (simp add: star_one)
      next
        case s: (more d zS')
        have "skip_wildcards info zP zS = skip_wildcards info z' zS'"
          using one(1,4) more(2) s(3,4) by (subst skip_wildcards.simps) simp
        moreover have "glob_matches (Any_seq # glob_tokens info other (chars zP)) (chars zS) =
            glob_matches (Any_seq # glob_tokens info other (chars z')) (chars zS')"
          unfolding toks s(5) star_one by simp
        moreover obtain r where "skip_wildcards info z' zS' = Ok r"
          "case r of
             None \<Rightarrow> \<not> glob_matches (Any_seq # glob_tokens info other (chars z')) (chars zS')
           | Some (c, zThis, zP', zS'') \<Rightarrow> 0 \<in> set zThis \<and> length zThis \<le> length z' \<and> Utf8Read zThis = Ok (c, zP') \<and> 0 \<in> set zS'' \<and>
               (c \<noteq> 0 \<longrightarrow> c \<noteq> ucast (matchAll info) \<and> c \<noteq> ucast (matchOne info)) \<and>
               glob_matches (Any_seq # glob_tokens info other (chars z')) (chars zS') =
               glob_matches (Any_seq # glob_tokens info other (chars zThis)) (chars zS'')"
          using less.hyps [OF more(7,6) s(6)] by blast
        ultimately show ?thesis using more(7) by (cases r) auto
      qed
    next
      case other
      then have "skip_wildcards info zP zS = Ok (Some (c, zP, z', zS))" using more(2) by (subst skip_wildcards.simps) simp
      then show ?thesis using less.prems more(2) other by simp
    qed
  qed
qed

lemma match_all_ok:
  assumes "info_ok info other" and "matchAll info \<noteq> 0" and "0 \<in> set zP" and "0 \<in> set zS"
    and again: "\<And>z. 0 \<in> set z \<Longrightarrow> length z \<le> length zP \<Longrightarrow> answers_all (again None z) (glob_tokens info other (chars z))"
  shows "\<exists>r. match_all info other again zP zS = Ok r \<and> answers r (Any_seq # glob_tokens info other (chars zP)) (chars zS)"
proof -
  obtain r where r: "skip_wildcards info zP zS = Ok r"
    "case r of
       None \<Rightarrow> \<not> glob_matches (Any_seq # glob_tokens info other (chars zP)) (chars zS)
     | Some (c, zThis, zP', zS') \<Rightarrow> 0 \<in> set zThis \<and> length zThis \<le> length zP \<and> Utf8Read zThis = Ok (c, zP') \<and> 0 \<in> set zS' \<and>
         (c \<noteq> 0 \<longrightarrow> c \<noteq> ucast (matchAll info) \<and> c \<noteq> ucast (matchOne info)) \<and>
         glob_matches (Any_seq # glob_tokens info other (chars zP)) (chars zS) =
         glob_matches (Any_seq # glob_tokens info other (chars zThis)) (chars zS')"
    using skip_wildcards_ok [OF assms(1-4)] by blast
  show ?thesis
  proof (cases r)
    case None
    then show ?thesis using r by (simp add: match_all_def answers_star match_codes)
  next
    case (Some x)
    obtain c zThis zP' zS' where x: "x = (c, zThis, zP', zS')" by (cases x) auto
    have t: "0 \<in> set zThis" "length zThis \<le> length zP" "Utf8Read zThis = Ok (c, zP')" "0 \<in> set zS'"
      "c \<noteq> 0 \<longrightarrow> c \<noteq> ucast (matchAll info) \<and> c \<noteq> ucast (matchOne info)"
      "glob_matches (Any_seq # glob_tokens info other (chars zP)) (chars zS) =
       glob_matches (Any_seq # glob_tokens info other (chars zThis)) (chars zS')"
      using r(2) Some x by simp_all
    have goal: ?thesis if "match_all info other again zP zS = Ok r'"
      "answers r' (Any_seq # glob_tokens info other (chars zThis)) (chars zS')" for r'
      using that t(6) by (auto simp: answers_star)
    from t(1) show ?thesis
    proof (cases rule: text_cases)
      case ends
      then have "c = 0" using t(3) by simp
      then have "match_all info other again zP zS = Ok SQLITE_MATCH" using r(1) Some x by (simp add: match_all_def)
      moreover have "glob_matches [Any_seq] s" for s by (induction s) simp_all
      ultimately show ?thesis using goal [of SQLITE_MATCH] ends(2) by (simp add: answers_star glob_tokens.simps)
    next
      case (more d z)
      then have d: "d = c" "z = zP'" "c \<noteq> 0" "chars zThis = c # chars zP'" "0 \<in> set zP'" "length zP' < length zThis" using t(3) by auto
      show ?thesis
      proof (cases "c = other")
        case False
        have "glob_tokens info other (chars zThis) = One_of (same_char info c) # glob_tokens info other (chars zP')"
          using d(3,4) t(5) False by (simp add: glob_tokens.simps)
        moreover have "match_all info other again zP zS = star_search info (again None zP') c zS'"
          using r(1) Some x d(3) False by (simp add: match_all_def)
        ultimately show ?thesis
          using star_search_ok [OF again t(4), of zP' info c] d(5,6) t(2) goal by auto
      next
        case other: True
        show ?thesis
        proof (cases "matchSet info = 0")
          case True
          from d(5) show ?thesis
          proof (cases rule: text_cases)
            case e: ends
            then have "glob_tokens info other (chars zThis) = [Never]"
              using d(3,4) t(5) other True by (simp add: glob_tokens.simps)
            moreover have "\<not> glob_matches [Any_seq, Never] s" for s by (induction s) simp_all
            moreover have "match_all info other again zP zS = Ok SQLITE_NOWILDCARDMATCH"
              using r(1) Some x d(3) other True e(4) by (simp add: match_all_def)
            ultimately show ?thesis using goal by (simp add: answers_star match_codes)
          next
            case e: (more e z')
            have "glob_tokens info other (chars zThis) = One_of (same_char info e) # glob_tokens info other (chars z')"
              using d(3,4) t(5) other True e(5) by (simp add: glob_tokens.simps)
            moreover have "match_all info other again zP zS = star_search info (again None z') e zS'"
              using r(1) Some x d(3) other True e(3,4) by (simp add: match_all_def)
            ultimately show ?thesis
              using star_search_ok [OF again t(4), of z' info e] e(6,7) d(6) t(2) goal by auto
          qed
        next
          case False
          then have "\<not> 0x80 \<le> other" using assms(1) by (simp add: info_ok_def not_le)
          then have "match_all info other again zP zS = slow_search (again None zThis) zS'"
            using r(1) Some x d(3) other False by (simp add: match_all_def)
          moreover have "\<not> glob_matches (glob_tokens info other (chars zThis)) []"
            using d(3,4) t(5) other False by (auto simp: glob_tokens.simps split: option.split)
          ultimately show ?thesis using slow_search_ok [OF again _ t(4), of zThis] t(1,2) goal by auto
        qed
      qed
    qed
  qed
qed

text \<open>One token that takes a character.\<close>

lemma answers_one:
  assumes "answers r ts s" and "\<And>x s. glob_matches (tok # ts) (x # s) \<Longrightarrow> glob_matches ts s"
    and "glob_matches (tok # ts) (c # s) = glob_matches ts s" and "\<not> glob_matches (tok # ts) []"
  shows "answers r (tok # ts) (c # s)"
proof -
  have "\<not> glob_matches (tok # ts) (drop k (c # s))" if "r = SQLITE_NOWILDCARDMATCH" for k
  proof
    assume m: "glob_matches (tok # ts) (drop k (c # s))"
    then obtain x y where xy: "drop k (c # s) = x # y" using assms(4) by (cases "drop k (c # s)") auto
    then have "y = drop k s" by (metis drop_Suc drop_Suc_Cons list.sel(3) tl_drop)
    moreover have "glob_matches ts y" using m xy by (intro assms(2) [of x]) simp
    ultimately show False using assms(1) that unfolding answers_def by (auto simp: match_codes)
  qed
  then show ?thesis using assms(1,3) unfolding answers_def by blast
qed

lemma answers_no: "\<not> glob_matches ts s \<Longrightarrow> answers SQLITE_NOMATCH ts s"
  by (simp add: answers_def match_codes)

lemma same_lower:
  assumes "c < 0x80" and "d < 0x80"
  shows "sqlite3Tolower (ucast c) = sqlite3Tolower (ucast d) \<longleftrightarrow> small c = small (d :: 32 word)"
proof -
  have "ucast c < (0x80 :: 8 word)" "ucast d < (0x80 :: 8 word)"
    using assms by (simp_all add: word_less_nat_alt unat_narrow)
  then show ?thesis using assms
    unfolding word_unat_eq_iff [of "sqlite3Tolower (ucast c)"] word_unat_eq_iff [of "small c"]
    by (simp add: case_tables unat_narrow unat_small)
qed

lemma match_char_ok:
  assumes "c \<noteq> 0" and "0 \<in> set zS" and again: "answers_all (again e zP) ts"
    and tok: "tok = (if c = ucast (matchOne info) \<and> e \<noteq> Some (length zP) then Any_one else One_of (same_char info c))"
  shows "\<exists>r. match_char info again c e zP zS = Ok r \<and> answers r (tok # ts) (chars zS)"
  using assms(2)
proof (cases rule: text_cases)
  case ends
  have "small c \<noteq> small 0"
  proof
    assume "small c = small 0"
    then have "small_nat (unat c) = 0" using unat_small [of c] by (simp add: small_def)
    then show False using assms(1) by (auto simp: small_nat_def unat_eq_0 split: if_splits)
  qed
  then have "\<not> (sqlite3Tolower (ucast c) = sqlite3Tolower (ucast (0 :: 32 word)) \<and> c < 0x80)"
    using same_lower [of c 0] by auto
  then have "match_char info again c e zP zS = Ok SQLITE_NOMATCH"
    using ends(3) assms(1) by (auto simp: match_char_def)
  then show ?thesis using ends(2) tok by (simp add: answers_no)
next
  case (more d zS')
  let ?takes = "c = ucast (matchOne info) \<and> e \<noteq> Some (length zP) \<or> same_char info c d"
  have run: "match_char info again c e zP zS = (if ?takes then again e zP zS' else Ok SQLITE_NOMATCH)"
    using more(2,4) same_lower [of c d] by (auto simp: match_char_def same_char_def)
  show ?thesis
  proof (cases ?takes)
    case True
    obtain r where r: "again e zP zS' = Ok r" "answers r ts (chars zS')" using again more(6) unfolding answers_all_def by blast
    have "answers r (tok # ts) (d # chars zS')" using True by (intro answers_one [OF r(2)]) (cases "c = ucast (matchOne info) \<and> e \<noteq> Some (length zP)"; auto simp: tok)+
    then show ?thesis using run True r(1) more(5) by simp
  next
    case False
    then have "\<not> glob_matches (tok # ts) (chars zS)" using False unfolding more(5) tok by auto
    then show ?thesis using run False answers_no by auto
  qed
qed

lemma compare_ok:
  assumes "info_ok info other"
  shows "0 \<in> set zP \<Longrightarrow> 0 \<in> set zS \<Longrightarrow> length zP \<le> k \<Longrightarrow> \<forall>n. e = Some n \<longrightarrow> length zP \<le> n \<Longrightarrow>
    \<exists>r. pattern_loop k info other e zP zS = Ok r \<and> answers r (glob_tokens info other (chars zP)) (chars zS)"
proof (induction k arbitrary: e zP zS)
  case 0
  then show ?case by simp
next
  case (Suc k)
  let ?toks = "\<lambda>z. glob_tokens info other (chars z)"
  have again: "answers_all (pattern_loop k info other e z) (?toks z)"
    if "0 \<in> set z" "length z \<le> k" "\<forall>n. e = Some n \<longrightarrow> length z \<le> n" for e z
    using Suc.IH that unfolding answers_all_def by blast
  from Suc.prems(1) show ?case
  proof (cases rule: text_cases)
    case ends
    from Suc.prems(2) show ?thesis
      by (cases rule: text_cases) (use ends in \<open>auto simp: answers_def match_codes glob_tokens.simps\<close>)
  next
    case (more c z)
    have z: "length z \<le> k" "length z < length zP" using more(7) Suc.prems(3) by simp_all
    have e: "\<forall>n. e = Some n \<longrightarrow> length z \<le> n" "e \<noteq> Some (length z)" using Suc.prems(4) more(7) by auto
    consider (all) "c = ucast (matchAll info)" | (escape) "c \<noteq> ucast (matchAll info)" "c = other" "matchSet info = 0"
      | (set) "c \<noteq> ucast (matchAll info)" "c = other" "matchSet info \<noteq> 0" | (plain) "c \<noteq> ucast (matchAll info)" "c \<noteq> other" by blast
    then show ?thesis
    proof cases
      case all
      have "matchAll info \<noteq> 0" using all more(4) by auto
      then have "\<exists>r. match_all info other (pattern_loop k info other) z zS = Ok r \<and> answers r (Any_seq # ?toks z) (chars zS)"
        using again z(1) by (intro match_all_ok [OF assms _ more(6) Suc.prems(2)]) simp_all
      then show ?thesis using all more(2,4,5) by (simp add: glob_tokens.simps)
    next
      case escape
      from more(6) show ?thesis
      proof (cases rule: text_cases)
        case x: ends
        then have "?toks zP = [Never]" using escape more(5) by (simp add: glob_tokens.simps)
        then show ?thesis using escape more(2,4) x(4) by (simp add: answers_no)
      next
        case x: (more d y)
        have "?toks zP = One_of (same_char info d) # ?toks y" using escape more(5) x(5) by (simp add: glob_tokens.simps)
        moreover have "\<exists>r. match_char info (pattern_loop k info other) d (Some (length y)) y zS = Ok r \<and>
            answers r (One_of (same_char info d) # ?toks y) (chars zS)"
          using again [OF x(6), of "Some (length y)"] x(7) z(1) by (intro match_char_ok [OF x(4) Suc.prems(2)]) simp_all
        ultimately show ?thesis using escape more(2,4) x(3,4) by simp
      qed
    next
      case set
      obtain r where r: "match_set z zS = Ok r"
        "case set_chars (chars z) of
           None \<Rightarrow> r = None
         | Some (Q, rest) \<Rightarrow>
             (case chars zS of
                [] \<Rightarrow> r = None
              | c # s \<Rightarrow>
                  if Q c then \<exists>zP' zS'. r = Some (zP', zS') \<and> 0 \<in> set zP' \<and> 0 \<in> set zS' \<and> chars zP' = rest \<and> chars zS' = s \<and>
                    length zP' \<le> length z
                  else r = None)" using match_set_ok [OF more(6) Suc.prems(2)] by blast
      have step: "pattern_loop (Suc k) info other e zP zS =
          (case r of None \<Rightarrow> Ok SQLITE_NOMATCH | Some (zP, zS) \<Rightarrow> pattern_loop k info other e zP zS)"
        using set more(2,4) r(1) by simp
      have toks: "?toks zP = (case set_chars (chars z) of None \<Rightarrow> [Never] | Some (Q, cs) \<Rightarrow> One_of Q # glob_tokens info other cs)"
        using set more(5) by (simp add: glob_tokens.simps)
      show ?thesis
      proof (cases r)
        case None
        have "\<not> glob_matches (?toks zP) (chars zS)"
          using r(2) None unfolding toks by (auto split: option.splits list.splits if_splits)
        then show ?thesis using step None by (simp add: answers_no)
      next
        case (Some x)
        obtain zP' zS' where x: "x = (zP', zS')" by (cases x)
        obtain Q rest where Q: "set_chars (chars z) = Some (Q, rest)"
          using r(2) Some by (cases "set_chars (chars z)") auto
        obtain d s where d: "chars zS = d # s" using r(2) Some Q by (cases "chars zS") auto
        have y: "Q d" "0 \<in> set zP'" "0 \<in> set zS'" "chars zP' = rest" "chars zS' = s" "length zP' \<le> length z"
          using r(2) Some Q d x by (auto split: if_splits)
        have "\<forall>n. e = Some n \<longrightarrow> length zP' \<le> n" using e(1) y(6) by auto
        from Suc.IH [OF y(2,3) _ this] obtain r' where r': "pattern_loop k info other e zP' zS' = Ok r'"
          "answers r' (glob_tokens info other rest) s" using y(4-6) z(1) by auto
        have "answers r' (One_of Q # glob_tokens info other rest) (d # s)"
          using y(1) by (intro answers_one [OF r'(2)]) auto
        then show ?thesis using step Some x r'(1) toks Q d by simp
      qed
    next
      case plain
      have "?toks zP = (if c = ucast (matchOne info) then Any_one else One_of (same_char info c)) # ?toks z"
        using plain more(5) by (simp add: glob_tokens.simps)
      moreover have "\<exists>r. match_char info (pattern_loop k info other) c e z zS = Ok r \<and>
          answers r ((if c = ucast (matchOne info) then Any_one else One_of (same_char info c)) # ?toks z) (chars zS)"
        using e(2)
        by (intro match_char_ok [where again = "pattern_loop k info other" and e = e and zP = z and info = info,
              OF more(4) Suc.prems(2) again [OF more(6) z(1) e(1)]]) simp
      ultimately show ?thesis using plain more(2,4) by simp
    qed
  qed
qed

lemma patternCompare_ok:
  assumes "info_ok info other" and "0 \<in> set zP" and "0 \<in> set zS"
  shows "\<exists>r. patternCompare zP zS info other = Ok r \<and> r \<in> {SQLITE_MATCH, SQLITE_NOMATCH, SQLITE_NOWILDCARDMATCH} \<and>
    (r = SQLITE_MATCH \<longleftrightarrow> glob_matches (glob_tokens info other (chars zP)) (chars zS))"
  using compare_ok [OF assms(1-3), of "length zP" None] unfolding patternCompare_def answers_def by auto

lemma built_in_infos:
  "info_ok globInfo (ucast (ch CHR ''[''))" "info_ok likeInfoNorm (ucast (matchSet likeInfoNorm))"
  "info_ok likeInfoAlt (ucast (matchSet likeInfoAlt))"
  by (simp_all add: info_ok_def globInfo_def likeInfoNorm_def likeInfoAlt_def)



section \<open>The function\<close>

lemma char_len_chars: "0 \<in> set z \<Longrightarrow> char_len_loop z None = Ok (length (chars z))"
proof (induction "length z" arbitrary: z rule: less_induct)
  case less
  from less.prems show ?case
  proof (cases rule: text_cases)
    case ends
    then show ?thesis by (subst char_len_loop.simps) simp
  next
    case (more c z')
    have "SQLITE_SKIP_UTF8 z = Ok z'" using skip_char [OF less.prems more(3,1)] .
    then show ?thesis using less.hyps [OF more(7,6)] more(1,5,8) by (subst char_len_loop.simps) simp
  qed
qed

text \<open>The wildcards without the escape character.\<close>

definition without :: "compareInfo \<Rightarrow> 32 word \<Rightarrow> compareInfo" where
  "without info escape = info\<lparr>matchAll := (if escape = ucast (matchAll info) then 0 else matchAll info),
     matchOne := (if escape = ucast (matchOne info) then 0 else matchOne info)\<rparr>"

lemma like_escape_ok:
  assumes "0 \<in> set z"
  shows "like_escape info z = Ok (if length (chars z) = 1 then Some (without info (hd (chars z)), hd (chars z)) else None)"
proof (cases "length (chars z) = 1")
  case True
  from assms show ?thesis
  proof (cases rule: text_cases)
    case (more c z')
    then show ?thesis using True char_len_chars [OF assms] by (simp add: like_escape_def sqlite3Utf8CharLen_def without_def)
  qed (use True in simp)
qed (simp add: like_escape_def sqlite3Utf8CharLen_def char_len_chars [OF assms])

lemma info_without:
  assumes "matchSet info = 0" and "matchAll info \<noteq> matchOne info"
  shows "info_ok (without info e) e"
  using assms wide_zero [of "matchOne info"] by (auto simp: info_ok_def without_def wide_eq)

text \<open>
  C17: LIKE with an ESCAPE clause answers on every three texts: an error for a pattern beyond the limit of the
  connection, then an error for an escape text that is not one character, then whether the text matches
  the pattern with that character as the escape character, which is no wildcard any more.
\<close>

theorem like_with_escape_answers:
  assumes "matchSet info = 0" and "matchAll info \<noteq> matchOne info"
    and "0 \<in> set zB" and "0 \<in> set zA" and "0 \<in> set zEsc"
  shows "likeFunc limit info [Some zB, Some zA, Some zEsc] =
    Ok (if limit < length zB - 1 then Like_error ''LIKE or GLOB pattern too complex''
        else if length (chars zEsc) \<noteq> 1 then Like_error ''ESCAPE expression must be a single character''
        else Like_int
          (if glob_matches (glob_tokens (without info (hd (chars zEsc))) (hd (chars zEsc)) (chars zB)) (chars zA)
           then 1 else 0))"
proof -
  let ?e = "hd (chars zEsc)"
  obtain r where "patternCompare zB zA (without info ?e) ?e = Ok r"
    "r = SQLITE_MATCH \<longleftrightarrow> glob_matches (glob_tokens (without info ?e) ?e (chars zB)) (chars zA)"
    using patternCompare_ok [OF info_without [OF assms(1,2)] assms(3,4)] by blast
  then show ?thesis by (simp add: likeFunc_def value_bytes_def like_escape_ok [OF assms(5)])
qed

theorem like_with_escape_answers_witness:
  "likeFunc 50000 likeInfoNorm [Some (map ch ''5!%%'' @ [0]), Some (map ch ''5% off'' @ [0]), Some [ch CHR ''!'', 0]] =
    Ok (Like_int 1)"
  by (subst like_with_escape_answers)
    (simp_all add: likeInfoNorm_def chars_ascii glob_tokens.simps without_def same_char_def)

section \<open>A wildcard as the escape character\<close>

text \<open>
  With the escape character \<open>_\<close> the pattern \<open>%__\<close> stands for the texts that end with an underscore:
  the SQL function takes it so, \<open>sqlite3_strlike\<close>, which leaves the wildcards as they are, does not.
\<close>

lemma skip_underscores: "skip_wildcards likeInfoNorm [95, 95, 0] [97, 98, 0] = Ok (Some (0, [0], [], [0]))"
  apply (subst skip_wildcards.simps, simp add: Utf8Read_def likeInfoNorm_def)
  apply (subst skip_wildcards.simps, simp add: Utf8Read_def likeInfoNorm_def)
  by (subst skip_wildcards.simps, simp add: Utf8Read_def likeInfoNorm_def)

lemma strlike_takes_wildcard: "sqlite3_strlike (Some [37, 95, 95, 0]) (Some [97, 98, 0]) 95 = Ok SQLITE_MATCH"
  using skip_underscores by (simp add: sqlite3_strlike_def patternCompare_def match_all_def likeInfoNorm_def Utf8Read_def)

lemma like_escapes_wildcard:
  assumes "info = likeInfoNorm"
  shows "likeFunc 50000 info [Some [37, 95, 95, 0], Some [97, 98, 0], Some [95, 0]] = Ok (Like_int 0)"
proof -
  have "matchSet info = 0" "matchAll info \<noteq> matchOne info" by (simp_all add: assms likeInfoNorm_def)
  then obtain r where "patternCompare [37, 95, 95, 0] [97, 98, 0] (without info 95) 95 = Ok r"
    "r = SQLITE_MATCH \<longleftrightarrow> glob_matches (glob_tokens (without info 95) 95 (chars [37, 95, 95, 0])) (chars [97, 98, 0])"
    using patternCompare_ok [OF info_without [of info 95], of "[37, 95, 95, 0]" "[97, 98, 0]"] by auto
  then show ?thesis
    by (simp add: likeFunc_def value_bytes_def like_escape_ok chars_ascii assms likeInfoNorm_def glob_tokens.simps
        without_def same_char_def small_def)
qed

end
