(* ===== verification/SqTyped.thy ===== *)
theory SqTyped
  imports SqSound
begin

text \<open>
  The values on the parser's stack. The generator gives every symbol one member of the union
  \<open>YYMINORTYPE\<close>, and the code of a rule reads the members of its right-hand side. Whatever these types
  are, the automaton calls the code of a rule only with values of the symbols that the rule lists.
\<close>

section \<open>Types of values\<close>

type_synonym 'v symbol_type = "nat \<Rightarrow> 'v YYMINORTYPE \<Rightarrow> bool"

definition rule_args :: "'v symbol_type \<Rightarrow> nat \<Rightarrow> 'v YYMINORTYPE list \<Rightarrow> bool" where
  "rule_args ty r vs \<longleftrightarrow> list_all2 (\<lambda>choice v. \<exists>a. choice_matches choice a \<and> ty a v) (rhs_of r) vs"

definition typed_code :: "'v symbol_type \<Rightarrow> ('v, 'z) rule_code \<Rightarrow> bool" where
  "typed_code ty code \<longleftrightarrow>
     (\<forall>r la vs p. r < YYNRULE \<longrightarrow> rule_args ty r vs \<longrightarrow> ty (lhs_of r) (fst (code r la vs p)))"

definition same_code :: "'v symbol_type \<Rightarrow> ('v, 'z) rule_code \<Rightarrow> ('v, 'z) rule_code \<Rightarrow> bool" where
  "same_code ty code code' \<longleftrightarrow>
     (\<forall>r la vs p. r < YYNRULE \<longrightarrow> rule_args ty r vs \<longrightarrow> code' r la vs p = code r la vs p)"

lemma typed_codeD: "typed_code ty code \<Longrightarrow> r < 403 \<Longrightarrow> rule_args ty r vs \<Longrightarrow> ty (lhs_of r) (fst (code r la vs p))"
  by (cases la) (simp add: typed_code_def control_defs)

lemma same_codeD: "same_code ty code code' \<Longrightarrow> r < 403 \<Longrightarrow> rule_args ty r vs \<Longrightarrow> code' r la vs p = code r la vs p"
  by (cases la) (simp add: same_code_def control_defs)

text \<open>Every entry above the bottom holds a value of its symbol.\<close>

definition stack_typed :: "'v symbol_type \<Rightarrow> 'v yystack \<Rightarrow> bool" where
  "stack_typed ty st \<longleftrightarrow> (\<forall>e \<in> set (butlast st). ty (major e) (minor e))"

lemma stack_typed_single [simp]: "stack_typed ty [b]"
  by (simp add: stack_typed_def)

lemma stack_typed_push: "st \<noteq> [] \<Longrightarrow> stack_typed ty (e # st) \<longleftrightarrow> ty (major e) (minor e) \<and> stack_typed ty st"
  by (simp add: stack_typed_def)

lemma stack_typed_drop: "stack_typed ty st \<Longrightarrow> stack_typed ty (drop n st)"
  by (auto simp: stack_typed_def butlast_drop dest: in_set_dropD)

lemma stack_typed_take: "stack_typed ty st \<Longrightarrow> n < length st \<Longrightarrow> e \<in> set (take n st) \<Longrightarrow> ty (major e) (minor e)"
  by (metis in_set_takeD less_Suc_eq_le not_less stack_typed_def take_butlast)

section \<open>One reduction\<close>

lemma item_matches:
  assumes "linked st" and "(r, k) \<in> set (items (stateno (hd st)))"
  shows "k < length st \<and> list_all2 (\<lambda>choice e. choice_matches choice (major e)) (take k (rhs_of r)) (rev (take k st))"
  using assms
proof (induction k arbitrary: st)
  case 0
  with items_bound show ?case by blast
next
  case (Suc k)
  from Suc.prems obtain e b st' where st: "st = e # b # st'"
    by (cases st rule: linked.cases) (auto simp: state_0_items)
  from Suc.prems(1) st have l: "linked (b # st')" "move_ok (stateno b) (major e) (stateno e)" by simp_all
  with Suc.prems(2) st have i: "item_ok (stateno b) (major e) (r, Suc k)" by (simp add: move_ok_def list_all_iff)
  then have k: "k < length (rhs_of r)" and cm: "choice_matches (rhs_of r ! k) (major e)"
    by (simp_all add: item_ok_def Let_def)
  have tk: "take (Suc k) (rhs_of r) = take k (rhs_of r) @ [rhs_of r ! k]" by (rule take_Suc_conv_app_nth [OF k])
  have "k < length (b # st') \<and>
      list_all2 (\<lambda>choice e. choice_matches choice (major e)) (take k (rhs_of r)) (rev (take k (b # st')))"
  proof (cases "k = 0")
    case False
    with i have "(r, k) \<in> set (items (stateno (hd (b # st'))))" by (simp add: item_ok_def Let_def)
    from Suc.IH [OF l(1) this] show ?thesis .
  qed simp
  moreover have "take (Suc k) st = e # take k (b # st')" using st by simp
  ultimately show ?case unfolding tk using cm st
    by (auto simp del: take_Suc_Cons intro!: list_all2_appendI)
qed

lemma rule_matches:
  assumes "linked st" and "reduce_ok (stateno (hd st)) r"
  shows "length (rhs_of r) < length st \<and>
    list_all2 (\<lambda>choice e. choice_matches choice (major e)) (rhs_of r) (rev (take (length (rhs_of r)) st))"
proof (cases "rhs_of r = []")
  case True
  then show ?thesis using assms(1) by (cases st) auto
next
  case False
  with assms(2) have "(r, length (rhs_of r)) \<in> set (items (stateno (hd st)))"
    by (auto simp: reduce_ok_def split: if_splits)
  from item_matches [OF assms(1) this] show ?thesis by simp
qed

lemma reduce_args:
  assumes "linked st" and "reduce_ok (stateno (hd st)) r" and "stack_typed ty st"
  shows "rule_args ty r (rev (map minor (take (length (rhs_of r)) st)))"
proof -
  let ?top = "rev (take (length (rhs_of r)) st)"
  from rule_matches [OF assms(1,2)] have n: "length (rhs_of r) < length st"
    and m: "list_all2 (\<lambda>choice e. choice_matches choice (major e)) (rhs_of r) ?top" by simp_all
  have "ty (major e) (minor e)" if "e \<in> set ?top" for e using stack_typed_take [OF assms(3) n] that by simp
  with m have "list_all2 (\<lambda>choice e. \<exists>a. choice_matches choice a \<and> ty a (minor e)) (rhs_of r) ?top"
    by (blast intro: list.rel_mono_strong)
  then show ?thesis by (simp add: rule_args_def list_all2_map2 rev_map)
qed

lemma reduce_result:
  assumes "r < 403" and "length (rhs_of r) < length st" and "yy_reduce code r la st p = Ok (a, st', p')"
  shows "\<exists>v. code r la (rev (map minor (take (length (rhs_of r)) st))) p = (v, p') \<and>
    st' = \<lparr>stateno = a, major = lhs_of r, minor = v\<rparr> # drop (length (rhs_of r)) st"
  using assms lhs_of_bounds [OF assms(1)]
  by (auto simp: yy_reduce_def vec_idx_def lhs_of_table size_table control_defs Let_def bind_res_Ok_iff
      split: prod.splits if_splits)

lemma reduce_typed:
  assumes "linked st" and "reduce_ok (stateno (hd st)) r" and "stack_typed ty st" and "typed_code ty code"
    and "yy_reduce code r la st p = Ok (a, st', p')"
  shows "stack_typed ty st'"
proof -
  have r: "r < 403" using assms(2) by (auto simp: reduce_ok_def split: if_splits)
  have n: "length (rhs_of r) < length st" using rule_matches [OF assms(1,2)] by simp
  from reduce_result [OF r n assms(5)] obtain v where
    v: "code r la (rev (map minor (take (length (rhs_of r)) st))) p = (v, p')"
      "st' = \<lparr>stateno = a, major = lhs_of r, minor = v\<rparr> # drop (length (rhs_of r)) st" by blast
  have "ty (lhs_of r) (fst (code r la (rev (map minor (take (length (rhs_of r)) st))) p))"
    by (rule typed_codeD [OF assms(4) r reduce_args [OF assms(1-3)]])
  then show ?thesis using v n stack_typed_drop [OF assms(3)] by (simp add: stack_typed_push)
qed

lemma reduce_same:
  assumes "linked st" and "reduce_ok (stateno (hd st)) r" and "stack_typed ty st" and "same_code ty code code'"
  shows "yy_reduce code' r la st p = yy_reduce code r la st p"
proof -
  have r: "r < 403" using assms(2) by (auto simp: reduce_ok_def split: if_splits)
  have "code' r la (rev (map minor (take (length (rhs_of r)) st))) p =
      code r la (rev (map minor (take (length (rhs_of r)) st))) p"
    by (rule same_codeD [OF assms(4) r reduce_args [OF assms(1-3)]])
  then show ?thesis using r by (simp add: yy_reduce_def vec_idx_def size_table Let_def)
qed

section \<open>One token and a whole input\<close>

definition typed_outcome :: "'v symbol_type \<Rightarrow> ('v, 'z) parsed res option \<Rightarrow> ('v, 'z) parsed res option \<Rightarrow> bool" where
  "typed_outcome ty r r' \<longleftrightarrow> r' = r \<and> (\<forall>ev st p. r = Some (Ok (ev, st, p)) \<longrightarrow> stack_typed ty st)"

lemma loop_typed:
  assumes "linked st" and "spells st w" and "t < 185" and "stack_typed ty st" and "ty t (yy0 v)"
    and "typed_code ty code" and "same_code ty code code'"
  shows "typed_outcome ty (yy_loop code t v (stateno (hd st)) st p) (yy_loop code' t v (stateno (hd st)) st p)"
  using assms
proof (induction "potential st" arbitrary: st p rule: less_induct)
  case less
  let ?s = "stateno (hd st)"
  have c: "YY_MIN_REDUCE = 1239" "YY_MAX_SHIFTREDUCE = 1235" "YY_ACCEPT_ACTION = 1237" "YY_ERROR_ACTION = 1236"
    "YYSTACKDEPTH = 100" by (simp_all add: control_defs)
  have over: "stack_typed ty st'" if "yyStackOverflow st p = (ev, st', p')" for ev st' p'
    using that by (auto simp: yyStackOverflow_def)
  from less.prems(1) have ne: "st \<noteq> []" by auto
  from action_on_stack [OF less.prems(1,3)] obtain a where a: "yy_find_shift_action t ?s = Ok a"
    and cs: "a = 1236 \<or> a \<le> 1235 \<and> ?s < 575 \<and> move_ok ?s t (shift_target a) \<or>
      1239 \<le> a \<and> reduce_ok ?s (a - 1239) \<and> (lhs_of (a - 1239) = 185 \<longrightarrow> t = 0)" by blast
  from cs show ?case
  proof (elim disjE conjE)
    assume "a = 1236"
    then have "yy_loop k t v ?s st p = Some (map_res (\<lambda>p'. (Syntax_error, st, p')) (yy_syntax_error v p))" for k
      using a ne by (subst yy_loop.simps) (simp add: c)
    then show ?thesis using less.prems(4) by (auto simp: typed_outcome_def map_res_Ok_iff)
  next
    assume "a \<le> 1235"
    then have "yy_loop k t v ?s st p = Some (Ok (yy_shift st a t v p))" for k
      using a ne by (subst yy_loop.simps) (simp add: c)
    then show ?thesis using less.prems(4,5) over ne
      by (auto simp: typed_outcome_def yy_shift_def stack_typed_push split: if_splits)
  next
    assume r: "1239 \<le> a" "reduce_ok ?s (a - 1239)"
    let ?r = "a - 1239"
    from r(2) have rb: "?r < 403" by (auto simp: reduce_ok_def split: if_splits)
    have sz: "vec_idx yyRuleInfoNRhs ?r = Ok (- int (length (rhs_of ?r)))"
      using rb by (simp add: vec_idx_def size_table)
    show ?thesis
    proof (cases "rhs_of ?r = [] \<and> 100 \<le> length st")
      case True
      then have "yy_loop k t v ?s st p = Some (Ok (yyStackOverflow st p))" for k
        using a r(1) sz ne by (subst yy_loop.simps) (simp add: c)
      with over show ?thesis by (auto simp: typed_outcome_def)
    next
      case False
      from reduce_step [OF less.prems(1,2) r(2), of code "(t, v)" p] obtain g st' p' where
        st': "yy_reduce code ?r (t, v) st p = Ok (g, st', p')" "spells st' w" "stateno (hd st') = g" "st' \<noteq> []"
        and alt: "g = 1237 \<and> lhs_of ?r = 185 \<and> length st' = 2 \<and> major (hd st') = 185 \<and> linked (tl st') \<or>
          g \<noteq> 1237 \<and> linked st' \<and> potential st' < potential st" by blast
      have red': "yy_reduce code' ?r (t, v) st p = Ok (g, st', p')"
        using reduce_same [OF less.prems(1) r(2) less.prems(4,7)] st'(1) by simp
      have ty': "stack_typed ty st'" by (rule reduce_typed [OF less.prems(1) r(2) less.prems(4,6) st'(1)])
      have step: "yy_loop code t v ?s st p = yy_loop code t v g st' p'" "yy_loop code' t v ?s st p = yy_loop code' t v g st' p'"
        using a r(1) sz st'(1) red' False ne by (subst yy_loop.simps, auto simp: c)+
      from alt show ?thesis
      proof (elim disjE conjE)
        assume g: "g = 1237" "length st' = 2"
        then obtain e b where "st' = [e, b]" by (auto simp: numeral_2_eq_2 length_Suc_conv)
        with step accept_state [of st' _ t v p'] st'(3) g show ?thesis
          by (simp add: typed_outcome_def)
      next
        assume g: "linked st'" "potential st' < potential st"
        from less.hyps [OF g(2,1) st'(2) less.prems(3) ty' less.prems(5-7), of p'] step st'(3) show ?thesis by simp
      qed
    qed
  qed
qed

lemma parser_typed:
  assumes "good_stack st w" and "t < 185" and "stack_typed ty st" and "ty t (yy0 v)"
    and "typed_code ty code" and "same_code ty code code'"
  shows "typed_outcome ty (sqlite3Parser code t v st p) (sqlite3Parser code' t v st p)"
proof -
  from assms(1) have "sqlite3Parser k t v st p = yy_loop k t v (stateno (hd st)) st p" for k
    by (cases st) (simp_all add: sqlite3Parser_def good_stack_def)
  with loop_typed [OF _ _ assms(2-6), of w p] assms(1) show ?thesis by (simp add: good_stack_def)
qed

lemma feed_typed:
  assumes "good_stack st w" and "\<forall>t \<in> set ts. fst t < 185 \<and> tok_z (snd t) \<noteq> [] \<and> ty (fst t) (yy0 (snd t))"
    and "stack_typed ty st" and "typed_code ty code" and "same_code ty code code'"
  shows "typed_outcome ty (feed code ts st p) (feed code' ts st p)"
  using assms(1-3)
proof (induction ts arbitrary: st p w)
  case Nil
  then show ?case by (simp add: typed_outcome_def)
next
  case (Cons tv ts)
  obtain t v where tv: "tv = (t, v)" by (cases tv)
  with Cons.prems(2) have t: "t < 185" "tok_z v \<noteq> []" "ty t (yy0 v)" by simp_all
  from parser_good [OF Cons.prems(1) t(1,2), of code p] obtain ev st' p' where
    one: "sqlite3Parser code t v st p = Some (Ok (ev, st', p'))" "good_stack st' (spelled ev w t)"
    by (auto simp: good_outcome_def)
  from parser_typed [OF Cons.prems(1) t(1) Cons.prems(3) t(3) assms(4,5), of p] one(1) have
    two: "sqlite3Parser code' t v st p = Some (Ok (ev, st', p'))" "stack_typed ty st'"
    by (auto simp: typed_outcome_def)
  show ?case
  proof (cases "ev = Shifted")
    case True
    have "\<forall>t \<in> set ts. fst t < 185 \<and> tok_z (snd t) \<noteq> [] \<and> ty (fst t) (yy0 (snd t))" using Cons.prems(2) by simp
    from Cons.IH [OF one(2) this two(2), of p'] show ?thesis using True one(1) two(1) tv by simp
  next
    case False
    then have "feed k (tv # ts) st p = Some (Ok (ev, st', p'))" if "sqlite3Parser k t v st p = Some (Ok (ev, st', p'))" for k
      using that tv by (cases ev) simp_all
    then show ?thesis using one(1) two by (simp add: typed_outcome_def)
  qed
qed

section \<open>Properties\<close>

text \<open>
  C37: the parser is type safe, for every way to give types to the symbols: when the tokens have
  the types of their symbols, and the code of a rule takes values of its right-hand side to a value
  of its left-hand side, then every stack entry always holds a value of its symbol, and the code of
  a rule is called with values of its right-hand side only: what it would do with others (read the
  wrong member of the union) does not change the run.
\<close>

theorem parser_values_typed:
  assumes "\<forall>t \<in> set ts. fst t < YYNTOKEN \<and> tok_z (snd t) \<noteq> [] \<and> ty (fst t) (yy0 (snd t))"
    and "\<forall>r la vs p. r < YYNRULE \<longrightarrow> rule_args ty r vs \<longrightarrow> ty (lhs_of r) (fst (code r la vs p))"
    and "\<forall>r la vs p. r < YYNRULE \<longrightarrow> rule_args ty r vs \<longrightarrow> code' r la vs p = code r la vs p"
  shows "\<exists>ev st p'. feed code ts (sqlite3ParserInit v) p = Some (Ok (ev, st, p')) \<and>
    feed code' ts (sqlite3ParserInit v) p = Some (Ok (ev, st, p')) \<and>
    (\<forall>e \<in> set (butlast st). ty (major e) (minor e))"
proof -
  have t: "\<forall>t \<in> set ts. fst t < 185 \<and> tok_z (snd t) \<noteq> [] \<and> ty (fst t) (yy0 (snd t))"
    using assms(1) by (simp add: control_defs)
  have "typed_outcome ty (feed code ts (sqlite3ParserInit v) p) (feed code' ts (sqlite3ParserInit v) p)"
    by (rule feed_typed [OF init_good t])
      (use assms(2,3) in \<open>simp_all add: typed_code_def same_code_def sqlite3ParserInit_def\<close>)
  moreover have "\<forall>t \<in> set ts. fst t < 185 \<and> tok_z (snd t) \<noteq> []" using t by simp
  ultimately show ?thesis using feed_good [OF init_good, of ts code v p]
    by (fastforce simp: typed_outcome_def stack_typed_def)
qed

text \<open>Tokens are tokens and all other symbols have values; the second code breaks on an empty list where the rule has symbols.\<close>

definition token_or_value :: "'v symbol_type" where
  "token_or_value t v = (case v of yy0 tok \<Rightarrow> t < 185 | yyvalue x \<Rightarrow> 185 \<le> t)"

theorem parser_values_typed_witness:
  "\<exists>ev st p'. feed no_code [(TK_COMMIT, some_token), (TK_SEMI, some_token)] (sqlite3ParserInit (yyvalue ())) fresh_parse = Some (Ok (ev, st, p')) \<and>
    feed (\<lambda>r la vs p. if length vs = length (rhs_of r) then (yyvalue (), p) else (yy0 (snd la), p))
      [(TK_COMMIT, some_token), (TK_SEMI, some_token)] (sqlite3ParserInit (yyvalue ())) fresh_parse = Some (Ok (ev, st, p')) \<and>
    (\<forall>e \<in> set (butlast st). token_or_value (major e) (minor e))"
  by (rule parser_values_typed)
    (use lhs_of_bounds in \<open>auto simp: token_or_value_def rule_args_def control_defs TK_COMMIT_def TK_SEMI_def
      dest: list_all2_lengthD\<close>)

end
