(* ===== verification/SqBitvec.thy ===== *)
theory SqBitvec
  imports SqParser
begin

unbundle bit_operations_syntax

text \<open>
  The bit vectors of \<open>bitvec.c\<close>: a bitmap, a hash table, or a tree of smaller bit vectors, and that
  each of them stands for a set. The allocator is an argument: it says for each request in turn
  whether it succeeds; the number of the next request is passed along. A read of the member of the
  union that is not in use is \<open>Undef\<close>, and so is a recursion or a probe that goes on for too long.
\<close>

section \<open>Sizes\<close>

definition BITVEC_SZ :: nat where "BITVEC_SZ = 512"
definition BITVEC_USIZE :: nat where "BITVEC_USIZE = (BITVEC_SZ - 3 * 4) div 8 * 8"
definition BITVEC_SZELEM :: nat where "BITVEC_SZELEM = 8"
definition BITVEC_NELEM :: nat where "BITVEC_NELEM = BITVEC_USIZE div 1"
definition BITVEC_NBIT :: nat where "BITVEC_NBIT = BITVEC_NELEM * BITVEC_SZELEM"
definition BITVEC_NINT :: nat where "BITVEC_NINT = BITVEC_USIZE div 4"
definition BITVEC_MXHASH :: nat where "BITVEC_MXHASH = BITVEC_NINT div 2"
definition BITVEC_HASH :: "nat \<Rightarrow> nat" where "BITVEC_HASH X = X * 1 mod BITVEC_NINT"
definition BITVEC_NPTR :: nat where "BITVEC_NPTR = BITVEC_USIZE div 8"

lemma bitvec_sizes:
  "BITVEC_NELEM = 496" "BITVEC_SZELEM = 8" "BITVEC_NBIT = 3968" "BITVEC_NINT = 124" "BITVEC_MXHASH = 62"
  "BITVEC_NPTR = 62" "BITVEC_HASH x = x mod 124"
  by (simp_all add: BITVEC_NELEM_def BITVEC_USIZE_def BITVEC_SZ_def BITVEC_SZELEM_def BITVEC_NBIT_def
      BITVEC_NINT_def BITVEC_MXHASH_def BITVEC_NPTR_def BITVEC_HASH_def)

section \<open>The structure\<close>

text \<open>Memory that was set to zero reads as zeros in each member of the union.\<close>

datatype Bitvec = Bitvec (bv_iSize: "32 word") (bv_nSet: "32 word") (bv_iDivisor: "32 word") (bv_u: bitvec_union)
  and bitvec_union = All_zero | aBitmap "8 word list" | aHash "32 word list" | apSub "Bitvec option list"

definition get_aBitmap :: "bitvec_union \<Rightarrow> 8 word list res" where
  "get_aBitmap x = (case x of All_zero \<Rightarrow> Ok (replicate BITVEC_NELEM 0) | aBitmap b \<Rightarrow> Ok b | _ \<Rightarrow> Undef)"

definition get_aHash :: "bitvec_union \<Rightarrow> 32 word list res" where
  "get_aHash x = (case x of All_zero \<Rightarrow> Ok (replicate BITVEC_NINT 0) | aHash b \<Rightarrow> Ok b | _ \<Rightarrow> Undef)"

definition get_apSub :: "bitvec_union \<Rightarrow> Bitvec option list res" where
  "get_apSub x = (case x of All_zero \<Rightarrow> Ok (replicate BITVEC_NPTR None) | apSub b \<Rightarrow> Ok b | _ \<Rightarrow> Undef)"

definition sqlite3BitvecCreate :: "(nat \<Rightarrow> bool) \<Rightarrow> 32 word \<Rightarrow> nat \<Rightarrow> Bitvec option \<times> nat" where
  "sqlite3BitvecCreate malloc iSize n = (if malloc n then Some (Bitvec iSize 0 0 All_zero) else None, n + 1)"

definition sqlite3BitvecSize :: "Bitvec \<Rightarrow> 32 word" where
  "sqlite3BitvecSize p = bv_iSize p"

section \<open>Test\<close>

text \<open>The way down to the structure that has the bit, and the bit's number there.\<close>

lemma sub_smaller: "get_apSub (bv_u p) = Ok subs \<Longrightarrow> vec_idx subs k = Ok (Some q) \<Longrightarrow> size q < size p"
proof -
  assume subs: "get_apSub (bv_u p) = Ok subs" and q: "vec_idx subs k = Ok (Some q)"
  then have mem: "Some q \<in> set subs" by (auto simp: vec_idx_Ok_iff in_set_conv_nth)
  then have "bv_u p = apSub subs" using subs by (auto simp: get_apSub_def split: bitvec_union.splits)
  then have "size (apSub subs) < size p" by (cases p) simp
  moreover have "size_option size (Some q) \<le> size_list (size_option size) subs" using mem by (rule size_list_estimation') simp
  ultimately show ?thesis by simp
qed

function find_bitvec :: "Bitvec \<Rightarrow> 32 word \<Rightarrow> (Bitvec \<times> 32 word) option res" where
  "find_bitvec p i =
     (if bv_iDivisor p \<noteq> 0 then
        (case get_apSub (bv_u p) of
           Ok subs \<Rightarrow>
             (case vec_idx subs (unat (i div bv_iDivisor p)) of
                Ok None \<Rightarrow> Ok None
              | Ok (Some q) \<Rightarrow> find_bitvec q (i mod bv_iDivisor p)
              | _ \<Rightarrow> Undef)
         | _ \<Rightarrow> Undef)
      else Ok (Some (p, i)))"
  by pat_completeness auto
termination
  by (relation "measure (size \<circ> fst)") (auto intro: sub_smaller)

declare find_bitvec.simps [simp del]

fun hash_loop :: "nat \<Rightarrow> 32 word list \<Rightarrow> 32 word \<Rightarrow> nat \<Rightarrow> bool res" where
  "hash_loop 0 H i h = Undef"
| "hash_loop (Suc k) H i h =
     bind_res (vec_idx H h) (\<lambda>v.
       if v \<noteq> 0 then (if v = i then Ok True else hash_loop k H i ((h + 1) mod BITVEC_NINT)) else Ok False)"

definition bit_mask :: "32 word \<Rightarrow> 8 word" where
  "bit_mask i = push_bit (unat (i AND 7)) 1"

definition sqlite3BitvecTestNotNull :: "Bitvec \<Rightarrow> 32 word \<Rightarrow> bool res" where
  "sqlite3BitvecTestNotNull p i =
     (let i = i - 1 in
      if bv_iSize p \<le> i then Ok False
      else
        bind_res (find_bitvec p i) (\<lambda>r.
          case r of
            None \<Rightarrow> Ok False
          | Some (p, i) \<Rightarrow>
              if unat (bv_iSize p) \<le> BITVEC_NBIT then
                bind_res (get_aBitmap (bv_u p)) (\<lambda>b.
                bind_res (vec_idx b (unat i div BITVEC_SZELEM)) (\<lambda>x. Ok (x AND bit_mask i \<noteq> 0)))
              else
                bind_res (get_aHash (bv_u p)) (\<lambda>H. hash_loop BITVEC_NINT H (i + 1) (BITVEC_HASH (unat i)))))"

definition sqlite3BitvecTest :: "Bitvec option \<Rightarrow> 32 word \<Rightarrow> bool res" where
  "sqlite3BitvecTest p i = (case p of None \<Rightarrow> Ok False | Some p \<Rightarrow> sqlite3BitvecTestNotNull p i)"

section \<open>Set\<close>

text \<open>The return code, the structure, and the number of the next request for memory.\<close>

type_synonym bitvec_result = "(int \<times> Bitvec \<times> nat) res"

text \<open>The loop at a collision: \<open>None\<close> when the value is there, or the first free slot.\<close>

fun free_slot :: "nat \<Rightarrow> 32 word list \<Rightarrow> 32 word \<Rightarrow> nat \<Rightarrow> nat option res" where
  "free_slot 0 H i h = Undef"
| "free_slot (Suc k) H i h =
     bind_res (vec_idx H h) (\<lambda>v.
       if v = i then Ok None
       else
         (let h = (if BITVEC_NINT \<le> h + 1 then 0 else h + 1) in
          bind_res (vec_idx H h) (\<lambda>v. if v \<noteq> 0 then free_slot k H i h else Ok (Some h))))"

text \<open>The values of a full hash table, set one by one in the divided structure.\<close>

fun set_values ::
  "(Bitvec \<Rightarrow> 32 word \<Rightarrow> nat \<Rightarrow> bitvec_result) \<Rightarrow> 32 word list \<Rightarrow> int \<Rightarrow> Bitvec \<Rightarrow> nat \<Rightarrow> bitvec_result" where
  "set_values again [] rc p n = Ok (rc, p, n)"
| "set_values again (v # vs) rc p n =
     (if v \<noteq> 0 then bind_res (again p v n) (\<lambda>(rc', p, n). set_values again vs (rc OR rc') p n)
      else set_values again vs rc p n)"

definition bitvec_set_end :: "Bitvec \<Rightarrow> 32 word list \<Rightarrow> nat \<Rightarrow> 32 word \<Rightarrow> nat \<Rightarrow> bitvec_result" where
  "bitvec_set_end p H h i n =
     map_res (\<lambda>H. (SQLITE_OK, Bitvec (bv_iSize p) (bv_nSet p + 1) (bv_iDivisor p) (aHash H), n)) (vec_put H h i)"

definition bitvec_set_rehash ::
  "(nat \<Rightarrow> bool) \<Rightarrow> (Bitvec \<Rightarrow> 32 word \<Rightarrow> nat \<Rightarrow> bitvec_result) \<Rightarrow>
     Bitvec \<Rightarrow> 32 word list \<Rightarrow> nat \<Rightarrow> 32 word \<Rightarrow> nat \<Rightarrow> bitvec_result" where
  "bitvec_set_rehash malloc again p H h i n =
     (if BITVEC_MXHASH \<le> unat (bv_nSet p) then
        (if \<not> malloc n then Ok (SQLITE_NOMEM, p, n + 1)
         else
           (let iDivisor = word_of_nat ((unat (bv_iSize p) + BITVEC_NPTR - 1) div BITVEC_NPTR) in
            bind_res (again (Bitvec (bv_iSize p) (bv_nSet p) iDivisor All_zero) i (n + 1)) (\<lambda>(rc, p, n).
              set_values again H rc p n)))
      else bitvec_set_end p H h i n)"

text \<open>
  The body of the loop and what follows it, for a bit counted from 0. \<open>k\<close> bounds the depth of the
  rounds of the loop and of the recursive calls; a recursive call begins with the assertions.
\<close>

primrec bitvec_set :: "(nat \<Rightarrow> bool) \<Rightarrow> nat \<Rightarrow> Bitvec \<Rightarrow> 32 word \<Rightarrow> nat \<Rightarrow> bitvec_result" where
  "bitvec_set malloc 0 p i n = Undef"
| "bitvec_set malloc (Suc k) p i n =
     (if BITVEC_NBIT < unat (bv_iSize p) \<and> bv_iDivisor p \<noteq> 0 then
        (let bin = unat (i div bv_iDivisor p); i = i mod bv_iDivisor p in
         bind_res (get_apSub (bv_u p)) (\<lambda>subs.
         bind_res (vec_idx subs bin) (\<lambda>sub.
           case (case sub of None \<Rightarrow> sqlite3BitvecCreate malloc (bv_iDivisor p) n | Some q \<Rightarrow> (Some q, n)) of
             (None, n) \<Rightarrow> Ok (SQLITE_NOMEM, p, n)
           | (Some q, n) \<Rightarrow>
               map_res (\<lambda>(rc, q, n). (rc, Bitvec (bv_iSize p) (bv_nSet p) (bv_iDivisor p) (apSub (subs[bin := Some q])), n))
                 (bitvec_set malloc k q i n))))
      else if unat (bv_iSize p) \<le> BITVEC_NBIT then
        bind_res (get_aBitmap (bv_u p)) (\<lambda>b.
        bind_res (vec_idx b (unat i div BITVEC_SZELEM)) (\<lambda>x.
          Ok (SQLITE_OK, Bitvec (bv_iSize p) (bv_nSet p) (bv_iDivisor p)
            (aBitmap (b[unat i div BITVEC_SZELEM := x OR bit_mask i])), n)))
      else
        (let again = (\<lambda>p i n. if i = 0 \<or> bv_iSize p < i then Undef else bitvec_set malloc k p (i - 1) n);
             h = BITVEC_HASH (unat i); i = i + 1 in
         bind_res (get_aHash (bv_u p)) (\<lambda>H.
         bind_res (vec_idx H h) (\<lambda>v.
           if v = 0 then
             (if unat (bv_nSet p) < BITVEC_NINT - 1 then bitvec_set_end p H h i n
              else bitvec_set_rehash malloc again p H h i n)
           else
             bind_res (free_slot BITVEC_NINT H i h) (\<lambda>r.
               case r of None \<Rightarrow> Ok (SQLITE_OK, p, n) | Some h \<Rightarrow> bitvec_set_rehash malloc again p H h i n)))))"

declare bitvec_set.simps(2) [simp del]

text \<open>Nine is enough: four divisions take any size to that of a bitmap.\<close>

definition set_depth :: nat where "set_depth = 9"

definition sqlite3BitvecSet :: "(nat \<Rightarrow> bool) \<Rightarrow> Bitvec option \<Rightarrow> 32 word \<Rightarrow> nat \<Rightarrow> (int \<times> Bitvec option \<times> nat) res" where
  "sqlite3BitvecSet malloc p i n =
     (case p of
        None \<Rightarrow> Ok (SQLITE_OK, None, n)
      | Some p \<Rightarrow>
          if i = 0 \<or> bv_iSize p < i then Undef
          else map_res (\<lambda>(rc, p, n). (rc, Some p, n)) (bitvec_set malloc set_depth p (i - 1) n))"

section \<open>Clear\<close>

fun probe_free :: "nat \<Rightarrow> 32 word list \<Rightarrow> nat \<Rightarrow> nat res" where
  "probe_free 0 H h = Undef"
| "probe_free (Suc k) H h =
     bind_res (vec_idx H h) (\<lambda>v.
       if v \<noteq> 0 then probe_free k H (if BITVEC_NINT \<le> h + 1 then 0 else h + 1) else Ok h)"

text \<open>The loop that builds the table again without the value; with the count of its values.\<close>

fun rebuild :: "32 word \<Rightarrow> 32 word list \<Rightarrow> 32 word \<Rightarrow> 32 word list \<Rightarrow> (32 word \<times> 32 word list) res" where
  "rebuild i [] nSet H = Ok (nSet, H)"
| "rebuild i (v # vs) nSet H =
     (if v \<noteq> 0 \<and> v \<noteq> i + 1 then
        bind_res (probe_free BITVEC_NINT H (BITVEC_HASH (unat (v - 1)))) (\<lambda>h.
        bind_res (vec_put H h v) (rebuild i vs (nSet + 1)))
      else rebuild i vs nSet H)"

function bitvec_clear :: "Bitvec \<Rightarrow> 32 word \<Rightarrow> Bitvec res" where
  "bitvec_clear p i =
     (if bv_iDivisor p \<noteq> 0 then
        (case get_apSub (bv_u p) of
           Ok subs \<Rightarrow>
             (case vec_idx subs (unat (i div bv_iDivisor p)) of
                Ok None \<Rightarrow> Ok p
              | Ok (Some q) \<Rightarrow>
                  map_res (\<lambda>q. Bitvec (bv_iSize p) (bv_nSet p) (bv_iDivisor p)
                    (apSub (subs[unat (i div bv_iDivisor p) := Some q]))) (bitvec_clear q (i mod bv_iDivisor p))
              | _ \<Rightarrow> Undef)
         | _ \<Rightarrow> Undef)
      else if unat (bv_iSize p) \<le> BITVEC_NBIT then
        bind_res (get_aBitmap (bv_u p)) (\<lambda>b.
        bind_res (vec_idx b (unat i div BITVEC_SZELEM)) (\<lambda>x.
          Ok (Bitvec (bv_iSize p) (bv_nSet p) (bv_iDivisor p)
            (aBitmap (b[unat i div BITVEC_SZELEM := x AND NOT (bit_mask i)])))))
      else
        bind_res (get_aHash (bv_u p)) (\<lambda>aiValues.
          map_res (\<lambda>(nSet, H). Bitvec (bv_iSize p) nSet (bv_iDivisor p) (aHash H))
            (rebuild i aiValues 0 (replicate BITVEC_NINT 0))))"
  by pat_completeness auto
termination
  by (relation "measure (size \<circ> fst)") (auto intro: sub_smaller)

declare bitvec_clear.simps [simp del]

definition sqlite3BitvecClear :: "Bitvec option \<Rightarrow> 32 word \<Rightarrow> Bitvec option res" where
  "sqlite3BitvecClear p i =
     (case p of
        None \<Rightarrow> Ok None
      | Some p \<Rightarrow> if i = 0 then Undef else map_res Some (bitvec_clear p (i - 1)))"

section \<open>Destroy\<close>

text \<open>The structures that are handed to \<open>sqlite3_free\<close>, in order; \<open>k\<close> bounds the depth.\<close>

primrec bitvec_destroy :: "nat \<Rightarrow> Bitvec option \<Rightarrow> Bitvec list res" where
  "bitvec_destroy 0 p = Undef"
| "bitvec_destroy (Suc k) p =
     (case p of
        None \<Rightarrow> Ok []
      | Some p \<Rightarrow>
          if bv_iDivisor p \<noteq> 0 then
            bind_res (get_apSub (bv_u p)) (\<lambda>subs.
              map_res (\<lambda>ps. concat ps @ [p])
                (mapM_res (\<lambda>i. bind_res (vec_idx subs i) (bitvec_destroy k)) [0..<BITVEC_NPTR]))
          else Ok [p])"

definition sqlite3BitvecDestroy :: "Bitvec option \<Rightarrow> Bitvec list res" where
  "sqlite3BitvecDestroy p = bitvec_destroy set_depth p"

section \<open>The hash table\<close>

definition slot :: "nat \<Rightarrow> nat \<Rightarrow> nat" where "slot h k = (h + k) mod 124"

lemma slot_less [simp]: "slot h k < 124"
  by (simp add: slot_def)

lemma slot_0 [simp]: "h < 124 \<Longrightarrow> slot h 0 = h"
  by (simp add: slot_def)

lemma slot_Suc [simp]: "slot (slot h (Suc 0)) k = slot h (Suc k)"
  by (simp add: slot_def mod_add_left_eq)

lemma slot_mod: "(h + 1) mod 124 = slot h (Suc 0)"
  by (simp add: slot_def)

lemma slot_reach: "s < 124 \<Longrightarrow> z < 124 \<Longrightarrow> \<exists>k < 124. slot s k = z"
proof -
  assume s: "s < 124" and z: "z < 124"
  show ?thesis
  proof (cases "s \<le> z")
    case True
    then show ?thesis using z by (intro exI [of _ "z - s"]) (simp add: slot_def)
  next
    case False
    then have "s + (z + 124 - s) = z + 124" "z + 124 - s < 124" using s by simp_all
    then show ?thesis using z by (intro exI [of _ "z + 124 - s"]) (simp add: slot_def)
  qed
qed

lemma slot_wrap: "h < 124 \<Longrightarrow> (if 124 \<le> h + 1 then 0 else h + 1) = slot h (Suc 0)"
  by (cases "h = 123") (simp_all add: slot_def)

definition home :: "32 word \<Rightarrow> nat" where
  "home v = (unat v - 1) mod 124"

definition values_of :: "32 word list \<Rightarrow> 32 word set" where
  "values_of H = set H - {0}"

text \<open>Every value can be reached from its home slot over slots in use, and no value occurs twice.\<close>

definition probes_to :: "32 word list \<Rightarrow> 32 word \<Rightarrow> nat \<Rightarrow> bool" where
  "probes_to H v s \<longleftrightarrow> (\<exists>k < 124. s = slot (home v) k \<and> (\<forall>j < k. H ! slot (home v) j \<noteq> 0))"

definition count_of :: "32 word list \<Rightarrow> nat" where
  "count_of H = card {s. s < 124 \<and> H ! s \<noteq> 0}"

definition hash_inv :: "32 word list \<Rightarrow> bool" where
  "hash_inv H \<longleftrightarrow> length H = 124 \<and> (\<forall>s < 124. H ! s \<noteq> 0 \<longrightarrow> probes_to H (H ! s) s) \<and>
     (\<forall>s < 124. \<forall>t < 124. H ! s \<noteq> 0 \<and> H ! s = H ! t \<longrightarrow> s = t)"

text \<open>The first free slot from a slot on.\<close>

definition first_free :: "32 word list \<Rightarrow> nat \<Rightarrow> nat \<Rightarrow> bool" where
  "first_free H h k \<longleftrightarrow> k < 124 \<and> H ! slot h k = 0 \<and> (\<forall>j < k. H ! slot h j \<noteq> 0)"

lemma first_free_exists:
  assumes "h < 124" and "count_of H < 124"
  shows "\<exists>k. first_free H h k"
proof -
  have "\<exists>z < 124. H ! z = 0"
  proof (rule ccontr)
    assume "\<not> ?thesis"
    then have "{s. s < 124 \<and> H ! s \<noteq> 0} = {..< 124}" by auto
    then show False using assms(2) by (simp add: count_of_def)
  qed
  then obtain z where z: "z < 124" "H ! z = 0" by blast
  from slot_reach [OF assms(1) z(1)] obtain k where k: "k < 124" "slot h k = z" by blast
  define l where "l = (LEAST k. H ! slot h k = 0)"
  have P: "H ! slot h k = 0" using k(2) z(2) by simp
  have "H ! slot h l = 0" unfolding l_def by (rule LeastI [of "\<lambda>k. H ! slot h k = 0", OF P])
  moreover have "l \<le> k" unfolding l_def by (rule Least_le [of "\<lambda>k. H ! slot h k = 0", OF P])
  moreover have "H ! slot h j \<noteq> 0" if "j < l" for j using that unfolding l_def by (rule not_less_Least)
  ultimately show ?thesis using k(1) unfolding first_free_def by (intro exI [of _ l]) auto
qed

lemma hash_loop_eval:
  "length H = 124 \<Longrightarrow> i \<noteq> 0 \<Longrightarrow> h < 124 \<Longrightarrow> k < m \<Longrightarrow> H ! slot h k = 0 \<Longrightarrow> \<forall>j < k. H ! slot h j \<noteq> 0 \<Longrightarrow>
   hash_loop m H i h = Ok (\<exists>j < k. H ! slot h j = i)"
proof (induction k arbitrary: m h)
  case 0
  then show ?case by (cases m) simp_all
next
  case (Suc k)
  then obtain m' where m: "m = Suc m'" by (cases m) auto
  have h0: "H ! h \<noteq> 0" using Suc.prems(3,6) by (metis slot_0 zero_less_Suc)
  have tail: "hash_loop m' H i (slot h (Suc 0)) = Ok (\<exists>j < k. H ! slot h (Suc j) = i)"
    using Suc.IH [of "slot h (Suc 0)" m'] Suc.prems m by simp
  have idx: "vec_idx H h = Ok (H ! h)" using Suc.prems(1,3) by simp
  have ex: "(\<exists>j < Suc k. H ! slot h j = i) \<longleftrightarrow> H ! h = i \<or> (\<exists>j < k. H ! slot h (Suc j) = i)"
    using Suc.prems(3) by (simp add: Ex_less_Suc2)
  show ?case unfolding m hash_loop.simps idx bind_res.simps bitvec_sizes slot_mod tail ex using h0 by simp
qed

lemma free_slot_eval:
  "length H = 124 \<Longrightarrow> h < 124 \<Longrightarrow> k < m \<Longrightarrow> H ! slot h (Suc k) = 0 \<Longrightarrow> \<forall>j < Suc k. H ! slot h j \<noteq> 0 \<Longrightarrow>
   free_slot m H i h = Ok (if \<exists>j < Suc k. H ! slot h j = i then None else Some (slot h (Suc k)))"
proof (induction k arbitrary: m h)
  case 0
  then obtain m' where m: "m = Suc m'" by (cases m) auto
  have idx: "vec_idx H h = Ok (H ! h)" "vec_idx H (slot h (Suc 0)) = Ok 0" using 0 by simp_all
  show ?case unfolding m free_slot.simps idx bind_res.simps Let_def bitvec_sizes slot_wrap [OF 0(2)] using 0(2) by simp
next
  case (Suc k)
  then obtain m' where m: "m = Suc m'" by (cases m) auto
  have tail: "free_slot m' H i (slot h (Suc 0)) =
      Ok (if \<exists>j < Suc k. H ! slot h (Suc j) = i then None else Some (slot h (Suc (Suc k))))"
    using Suc.IH [of "slot h (Suc 0)" m'] Suc.prems m by simp
  have n: "H ! slot h (Suc 0) \<noteq> 0" using Suc.prems(5) by simp
  have ex: "(\<exists>j < Suc (Suc k). H ! slot h j = i) \<longleftrightarrow> H ! h = i \<or> (\<exists>j < Suc k. H ! slot h (Suc j) = i)"
    using Suc.prems(2) by (subst Ex_less_Suc2) simp
  have idx: "vec_idx H h = Ok (H ! h)" "vec_idx H (slot h (Suc 0)) = Ok (H ! slot h (Suc 0))" using Suc.prems(1,2) by simp_all
  show ?case unfolding m free_slot.simps idx bind_res.simps Let_def bitvec_sizes slot_wrap [OF Suc.prems(2)] tail ex
    using n by simp
qed

lemma probe_free_eval:
  "length H = 124 \<Longrightarrow> h < 124 \<Longrightarrow> k < m \<Longrightarrow> H ! slot h k = 0 \<Longrightarrow> \<forall>j < k. H ! slot h j \<noteq> 0 \<Longrightarrow>
   probe_free m H h = Ok (slot h k)"
proof (induction k arbitrary: m h)
  case 0
  then show ?case by (cases m) simp_all
next
  case (Suc k)
  then obtain m' where m: "m = Suc m'" by (cases m) auto
  have h0: "H ! h \<noteq> 0" using Suc.prems(2,5) by (metis slot_0 zero_less_Suc)
  have tail: "probe_free m' H (slot h (Suc 0)) = Ok (slot h (Suc k))"
    using Suc.IH [of "slot h (Suc 0)" m'] Suc.prems m by simp
  have idx: "vec_idx H h = Ok (H ! h)" using Suc.prems(1,2) by simp
  show ?case unfolding m probe_free.simps idx bind_res.simps bitvec_sizes slot_wrap [OF Suc.prems(2)] tail
    using h0 by simp
qed

text \<open>What the probing loop meets before the first free slot are all the values with this home.\<close>

lemma home_less [simp]: "home v < 124"
  by (simp add: home_def)

lemma probe_finds:
  assumes "hash_inv H" and "first_free H (home v) k" and "v \<noteq> 0"
  shows "(\<exists>j < k. H ! slot (home v) j = v) \<longleftrightarrow> v \<in> values_of H"
proof
  assume "\<exists>j < k. H ! slot (home v) j = v"
  then obtain j where "H ! slot (home v) j = v" by blast
  moreover have "slot (home v) j < length H" using assms(1) by (simp add: hash_inv_def)
  ultimately show "v \<in> values_of H" using assms(3) nth_mem [of "slot (home v) j" H] by (simp add: values_of_def)
next
  assume "v \<in> values_of H"
  then obtain s where s: "s < 124" "H ! s = v" using assms(1) by (auto simp: values_of_def hash_inv_def in_set_conv_nth)
  then have "probes_to H v s" using assms(1,3) by (auto simp: hash_inv_def)
  then obtain k' where k': "s = slot (home v) k'" "\<forall>j < k'. H ! slot (home v) j \<noteq> 0" by (auto simp: probes_to_def)
  have "k' < k"
  proof (rule ccontr)
    assume "\<not> k' < k"
    then have "k < k' \<or> k = k'" by auto
    then show False using k' s(2) assms(2,3) by (auto simp: first_free_def)
  qed
  then show "\<exists>j < k. H ! slot (home v) j = v" using k'(1) s(2) by blast
qed

text \<open>\<open>G\<close> is the table \<open>H\<close> with the value \<open>v\<close> in the free slot \<open>s\<close>.\<close>

definition one_more :: "32 word list \<Rightarrow> 32 word list \<Rightarrow> nat \<Rightarrow> 32 word \<Rightarrow> bool" where
  "one_more G H s v \<longleftrightarrow> s < 124 \<and> H ! s = 0 \<and> v \<noteq> 0 \<and> length G = 124 \<and> length H = 124 \<and> G ! s = v \<and>
     (\<forall>t. t \<noteq> s \<longrightarrow> G ! t = H ! t)"

lemma one_more_update: "s < 124 \<Longrightarrow> H ! s = 0 \<Longrightarrow> v \<noteq> 0 \<Longrightarrow> length H = 124 \<Longrightarrow> one_more (H[s := v]) H s v"
  by (simp add: one_more_def)

lemma one_more_used: "one_more G H s v \<Longrightarrow> G ! t \<noteq> 0 \<longleftrightarrow> t = s \<or> H ! t \<noteq> 0"
  by (cases "t = s") (simp_all add: one_more_def)

lemma one_more_probes: "one_more G H s v \<Longrightarrow> probes_to H w t \<Longrightarrow> probes_to G w t"
  unfolding probes_to_def using one_more_used by blast

lemma values_nth: "length H = 124 \<Longrightarrow> values_of H = {x. x \<noteq> 0 \<and> (\<exists>t < 124. H ! t = x)}"
  by (auto simp: values_of_def in_set_conv_nth)

lemma one_more_values:
  assumes "one_more G H s v"
  shows "values_of G = insert v (values_of H)"
proof -
  have G: "G ! s = v" "\<And>t. t \<noteq> s \<Longrightarrow> G ! t = H ! t" "s < 124" "H ! s = 0" "v \<noteq> 0" using assms by (auto simp: one_more_def)
  have "(\<exists>t < 124. G ! t = x) \<longleftrightarrow> x = v \<or> (\<exists>t < 124. H ! t = x)" if "x \<noteq> 0" for x
  proof -
    have "(\<exists>t < 124. t \<noteq> s \<and> G ! t = x) \<longleftrightarrow> (\<exists>t < 124. t \<noteq> s \<and> H ! t = x)" using G(2) by auto
    moreover have "(\<exists>t < 124. t \<noteq> s \<and> H ! t = x) \<longleftrightarrow> (\<exists>t < 124. H ! t = x)" using G(4) that by blast
    moreover have "(\<exists>t < 124. G ! t = x) \<longleftrightarrow> x = v \<or> (\<exists>t < 124. t \<noteq> s \<and> G ! t = x)" using G(1,3) by blast
    ultimately show ?thesis by simp
  qed
  moreover have "length G = 124" "length H = 124" using assms by (simp_all add: one_more_def)
  ultimately show ?thesis using G(5) by (auto simp: values_nth)
qed

lemma one_more_count:
  assumes "one_more G H s v"
  shows "count_of G = Suc (count_of H)"
proof -
  have "{t. t < 124 \<and> G ! t \<noteq> 0} = insert s {t. t < 124 \<and> H ! t \<noteq> 0}"
    unfolding one_more_used [OF assms] using assms by (auto simp: one_more_def)
  moreover have "s \<notin> {t. t < 124 \<and> H ! t \<noteq> 0}" using assms by (simp add: one_more_def)
  ultimately show ?thesis unfolding count_of_def by simp
qed

lemma one_more_inv:
  assumes "hash_inv H" and "one_more G H s v" and "v \<notin> values_of H" and "probes_to H v s"
  shows "hash_inv G"
proof -
  have G: "G ! s = v" "\<And>t. t \<noteq> s \<Longrightarrow> G ! t = H ! t" "v \<noteq> 0" "length G = 124" using assms(2) by (auto simp: one_more_def)
  have H: "length H = 124" "\<And>t. t < 124 \<Longrightarrow> H ! t \<noteq> 0 \<Longrightarrow> probes_to H (H ! t) t"
    "\<And>t t'. t < 124 \<Longrightarrow> t' < 124 \<Longrightarrow> H ! t \<noteq> 0 \<Longrightarrow> H ! t = H ! t' \<Longrightarrow> t = t'" using assms(1) by (auto simp: hash_inv_def)
  have new: "H ! t \<noteq> v" if "t < 124" for t using assms(3) G(3) that H(1) by (auto simp: values_nth)
  have "probes_to G (G ! t) t" if "t < 124" "G ! t \<noteq> 0" for t
  proof (cases "t = s")
    case True
    then show ?thesis using one_more_probes [OF assms(2,4)] G(1) by simp
  next
    case False
    then show ?thesis using one_more_probes [OF assms(2) H(2), OF that(1)] G(2) that(2) by simp
  qed
  moreover have "t = t'" if t: "t < 124" "t' < 124" "G ! t \<noteq> 0" "G ! t = G ! t'" for t t'
  proof -
    consider "t = s" "t' = s" | "t = s" "t' \<noteq> s" | "t \<noteq> s" "t' = s" | "t \<noteq> s" "t' \<noteq> s" by blast
    then show ?thesis
    proof cases
      case 2
      then show ?thesis using t(4) G(1) G(2) [of t'] new [OF t(2)] by simp
    next
      case 3
      then show ?thesis using t(4) G(1) G(2) [of t] new [OF t(1)] by simp
    next
      case 4
      then show ?thesis using t H(3) [of t t'] G(2) by simp
    qed simp
  qed
  ultimately show ?thesis using G(4) unfolding hash_inv_def by blast
qed

lemma insert_value:
  assumes "hash_inv H" and "first_free H (home v) k" and "v \<noteq> 0" and "v \<notin> values_of H"
  shows "hash_inv (H[slot (home v) k := v]) \<and> values_of (H[slot (home v) k := v]) = insert v (values_of H) \<and>
    count_of (H[slot (home v) k := v]) = Suc (count_of H)"
proof -
  have "length H = 124" using assms(1) by (simp add: hash_inv_def)
  then have more: "one_more (H[slot (home v) k := v]) H (slot (home v) k) v"
    using assms(2,3) by (intro one_more_update) (simp_all add: first_free_def)
  have "probes_to H v (slot (home v) k)" using assms(2) unfolding probes_to_def first_free_def by blast
  with more show ?thesis using one_more_inv [OF assms(1) more assms(4)] one_more_values [OF more] one_more_count [OF more] by simp
qed

lemma empty_table: "hash_inv (replicate 124 0)" "values_of (replicate 124 0) = {}" "count_of (replicate 124 0) = 0"
  by (simp_all add: hash_inv_def values_of_def count_of_def)

lemma count_values:
  assumes "hash_inv H"
  shows "count_of H = card (values_of H)"
proof -
  have len: "length H = 124" using assms by (simp add: hash_inv_def)
  have "bij_betw (\<lambda>s. H ! s) {s. s < 124 \<and> H ! s \<noteq> 0} (values_of H)"
    unfolding bij_betw_def
  proof
    show "inj_on (\<lambda>s. H ! s) {s. s < 124 \<and> H ! s \<noteq> 0}" using assms by (auto simp: hash_inv_def inj_on_def)
    show "(\<lambda>s. H ! s) ` {s. s < 124 \<and> H ! s \<noteq> 0} = values_of H"
      using len by (auto simp: values_of_def in_set_conv_nth)
  qed
  then show ?thesis unfolding count_of_def by (rule bij_betw_same_card)
qed

section \<open>The set that a bit vector stands for\<close>

text \<open>Bits are counted from 0. The level says how often the structure may still be divided.\<close>

definition leaf_ok :: "Bitvec \<Rightarrow> bool" where
  "leaf_ok p \<longleftrightarrow> bv_iDivisor p = 0 \<and>
     (if unat (bv_iSize p) \<le> 3968 then \<exists>b. get_aBitmap (bv_u p) = Ok b \<and> length b = 496
      else \<exists>H. get_aHash (bv_u p) = Ok H \<and> hash_inv H \<and> unat (bv_nSet p) = count_of H \<and> count_of H < 124 \<and>
        (\<forall>v \<in> values_of H. v \<le> bv_iSize p))"

definition leaf_has :: "Bitvec \<Rightarrow> nat \<Rightarrow> bool" where
  "leaf_has p i =
     (if unat (bv_iSize p) \<le> 3968 then (case get_aBitmap (bv_u p) of Ok b \<Rightarrow> bit (b ! (i div 8)) (i mod 8) | _ \<Rightarrow> False)
      else (case get_aHash (bv_u p) of Ok H \<Rightarrow> word_of_nat (Suc i) \<in> values_of H | _ \<Rightarrow> False))"

definition divided :: "Bitvec \<Rightarrow> bool" where
  "divided p \<longleftrightarrow> 3968 < unat (bv_iSize p) \<and> unat (bv_iDivisor p) = (unat (bv_iSize p) + 61) div 62"

primrec bitvec_ok :: "nat \<Rightarrow> Bitvec \<Rightarrow> bool" where
  "bitvec_ok 0 p \<longleftrightarrow> unat (bv_iSize p) \<le> 3968 \<and> leaf_ok p"
| "bitvec_ok (Suc l) p \<longleftrightarrow> unat (bv_iSize p) \<le> 3968 * 62 ^ Suc l \<and>
     (leaf_ok p \<or> divided p \<and> (\<exists>subs. get_apSub (bv_u p) = Ok subs \<and> length subs = 62 \<and>
        (\<forall>q. Some q \<in> set subs \<longrightarrow> bv_iSize q = bv_iDivisor p \<and> bitvec_ok l q)))"

primrec bitvec_has :: "nat \<Rightarrow> Bitvec \<Rightarrow> nat \<Rightarrow> bool" where
  "bitvec_has 0 p i = leaf_has p i"
| "bitvec_has (Suc l) p i =
     (if bv_iDivisor p = 0 then leaf_has p i
      else
        (case get_apSub (bv_u p) of
           Ok subs \<Rightarrow>
             (case subs ! (i div unat (bv_iDivisor p)) of
                None \<Rightarrow> False
              | Some q \<Rightarrow> bitvec_has l q (i mod unat (bv_iDivisor p)))
         | _ \<Rightarrow> False))"

lemma leaf_ok_divisor: "leaf_ok p \<Longrightarrow> bv_iDivisor p = 0"
  by (simp add: leaf_ok_def)

lemma leaf_has_level: "leaf_ok p \<Longrightarrow> bitvec_has l p = leaf_has p"
  by (cases l) (auto simp: leaf_ok_divisor fun_eq_iff)

lemma leaf_level: "leaf_ok p \<Longrightarrow> unat (bv_iSize p) \<le> 3968 * 62 ^ l \<Longrightarrow> bitvec_ok l p"
  by (cases l) simp_all

lemma level_size: "bitvec_ok l p \<Longrightarrow> unat (bv_iSize p) \<le> 3968 * 62 ^ l"
  by (cases l) simp_all

lemma fresh_leaf: "leaf_ok (Bitvec s 0 0 All_zero)" "i < unat s \<Longrightarrow> \<not> leaf_has (Bitvec s 0 0 All_zero) i"
  by (simp_all add: leaf_ok_def leaf_has_def get_aBitmap_def get_aHash_def bitvec_sizes empty_table)

lemma bin_bounds:
  assumes "divided p" and "unat i < unat (bv_iSize p)"
  shows "bv_iDivisor p \<noteq> 0" and "unat (i div bv_iDivisor p) < 62" "unat (i mod bv_iDivisor p) < unat (bv_iDivisor p)"
proof -
  let ?s = "unat (bv_iSize p)" and ?d = "unat (bv_iDivisor p)"
  have d: "?d = (?s + 61) div 62" "3968 < ?s" using assms(1) by (simp_all add: divided_def)
  have pos: "0 < ?d" unfolding d(1) using d(2) by (simp add: div_greater_zero_iff)
  have cover: "?s \<le> 62 * ?d" unfolding d(1)
    using div_mult_mod_eq [of "?s + 61" 62] mod_less_divisor [of 62 "?s + 61"] by linarith
  show "bv_iDivisor p \<noteq> 0" using pos by auto
  have "unat i < 62 * ?d" using assms(2) cover by simp
  then show "unat (i div bv_iDivisor p) < 62" by (simp add: unat_div less_mult_imp_div_less mult.commute)
  show "unat (i mod bv_iDivisor p) < ?d" using pos by (simp add: unat_mod)
qed

lemma divisor_level: "s \<le> 3968 * 62 ^ Suc l \<Longrightarrow> (s + 61) div 62 \<le> 3968 * (62 :: nat) ^ l"
proof -
  assume "s \<le> 3968 * 62 ^ Suc l"
  then have "s + 61 < 62 * (3968 * 62 ^ l) + 62" by simp
  then have "(s + 61) div 62 < 3968 * 62 ^ l + 1" by (intro div_less_iff_less_mult [THEN iffD2]) simp_all
  then show ?thesis by simp
qed

lemma divided_has:
  assumes "bv_iDivisor p \<noteq> 0" and "get_apSub (bv_u p) = Ok subs"
  shows "bitvec_has (Suc l) p i =
    (case subs ! (i div unat (bv_iDivisor p)) of None \<Rightarrow> False | Some q \<Rightarrow> bitvec_has l q (i mod unat (bv_iDivisor p)))"
  using assms by simp

lemma find_bitvec_ok:
  assumes "bitvec_ok l p" and "unat i < unat (bv_iSize p)"
  shows "\<exists>r. find_bitvec p i = Ok r \<and>
    (case r of
       None \<Rightarrow> \<not> bitvec_has l p (unat i)
     | Some (q, j) \<Rightarrow> leaf_ok q \<and> unat j < unat (bv_iSize q) \<and> bitvec_has l p (unat i) = leaf_has q (unat j))"
  using assms
proof (induction l arbitrary: p i)
  case 0
  then show ?case by (subst find_bitvec.simps) (simp add: leaf_ok_divisor)
next
  case (Suc l)
  show ?case
  proof (cases "leaf_ok p")
    case True
    then show ?thesis using Suc.prems by (subst find_bitvec.simps) (simp add: leaf_ok_divisor)
  next
    case False
    then obtain subs where d: "divided p" and subs: "get_apSub (bv_u p) = Ok subs" "length subs = 62"
      "\<And>q. Some q \<in> set subs \<Longrightarrow> bv_iSize q = bv_iDivisor p \<and> bitvec_ok l q" using Suc.prems(1) by auto
    note b = bin_bounds [OF d Suc.prems(2)]
    let ?k = "unat (i div bv_iDivisor p)"
    have k: "?k = unat i div unat (bv_iDivisor p)" "unat (i mod bv_iDivisor p) = unat i mod unat (bv_iDivisor p)"
      by (simp_all add: unat_div unat_mod)
    have idx: "vec_idx subs ?k = Ok (subs ! ?k)" using b(2) subs(2) by simp
    have has: "bitvec_has (Suc l) p (unat i) =
        (case subs ! ?k of None \<Rightarrow> False | Some q \<Rightarrow> bitvec_has l q (unat (i mod bv_iDivisor p)))"
      unfolding k by (rule divided_has [OF b(1) subs(1)])
    show ?thesis
    proof (cases "subs ! ?k")
      case None
      then have "find_bitvec p i = Ok None" using b(1) subs(1) idx by (subst find_bitvec.simps) simp
      then show ?thesis using None has by simp
    next
      case (Some q)
      then have q: "bv_iSize q = bv_iDivisor p \<and> bitvec_ok l q" using subs(2,3) b(2) by (metis nth_mem)
      have "find_bitvec p i = find_bitvec q (i mod bv_iDivisor p)" using b(1) subs(1) idx Some by (subst find_bitvec.simps) simp
      moreover have "bitvec_has (Suc l) p (unat i) = bitvec_has l q (unat (i mod bv_iDivisor p))" unfolding has Some by simp
      moreover obtain r where "find_bitvec q (i mod bv_iDivisor p) = Ok r"
        "case r of None \<Rightarrow> \<not> bitvec_has l q (unat (i mod bv_iDivisor p))
         | Some (q', j) \<Rightarrow> leaf_ok q' \<and> unat j < unat (bv_iSize q') \<and>
             bitvec_has l q (unat (i mod bv_iDivisor p)) = leaf_has q' (unat j)"
        using Suc.IH [of q "i mod bv_iDivisor p"] q b(3) by auto
      ultimately show ?thesis by (intro exI [of _ r]) (cases r; auto simp del: bitvec_has.simps)
    qed
  qed
qed

section \<open>One leaf\<close>

lemma mask_bit: "bit_mask i = push_bit (unat i mod 8) 1"
proof -
  have "i AND 7 = i mod 8" using take_bit_eq_mask [of 3 i] by (simp add: mask_eq_exp_minus_1 take_bit_eq_mod)
  then show ?thesis by (simp add: bit_mask_def unat_mod)
qed

lemma bit_mask_ops:
  "x AND bit_mask i \<noteq> 0 \<longleftrightarrow> bit x (unat i mod 8)"
  "m < 8 \<Longrightarrow> bit (x OR bit_mask i) m \<longleftrightarrow> bit x m \<or> m = unat i mod 8"
  "m < 8 \<Longrightarrow> bit (x AND NOT (bit_mask i)) m \<longleftrightarrow> bit x m \<and> m \<noteq> unat i mod 8"
proof -
  show "x AND bit_mask i \<noteq> 0 \<longleftrightarrow> bit x (unat i mod 8)"
    unfolding mask_bit using bit_iff_and_push_bit_not_eq_0 [of x "unat i mod 8"] by blast
  have "m < 8 \<Longrightarrow> bit (bit_mask i) m \<longleftrightarrow> m = unat i mod 8" by (auto simp: mask_bit bit_exp_iff)
  then show "m < 8 \<Longrightarrow> bit (x OR bit_mask i) m \<longleftrightarrow> bit x m \<or> m = unat i mod 8"
    "m < 8 \<Longrightarrow> bit (x AND NOT (bit_mask i)) m \<longleftrightarrow> bit x m \<and> m \<noteq> unat i mod 8"
    by (auto simp: bit_or_iff bit_and_iff bit_not_iff)
qed

lemma leaf_index:
  assumes "unat i < unat (bv_iSize p)"
  shows "unat i + 1 < 2 ^ 32" "unat (i + 1) = unat i + 1" "i + 1 \<noteq> 0" "i + 1 - 1 = i"
    "word_of_nat (Suc (unat i)) = i + 1" "home (i + 1) = unat i mod 124"
proof -
  have "unat (bv_iSize p) < 2 ^ 32" using unsigned_less [of "bv_iSize p"] by simp
  then show 1: "unat i + 1 < 2 ^ 32" using assms by linarith
  have e: "word_of_nat (Suc (unat i)) = i + 1" by simp
  have "unat (word_of_nat (Suc (unat i)) :: 32 word) = Suc (unat i) mod 2 ^ 32" by (simp only: unat_of_nat) simp
  then have "unat (i + 1) = Suc (unat i) mod 2 ^ 32" unfolding e .
  then show 2: "unat (i + 1) = unat i + 1" using 1 by simp
  then show "i + 1 \<noteq> 0" by (metis add_is_0 one_neq_zero unat_0)
  show "word_of_nat (Suc (unat i)) = i + 1" by (rule e)
  show "home (i + 1) = unat i mod 124" unfolding home_def 2 by simp
qed simp

text \<open>A leaf is a bitmap or a hash table.\<close>

lemma leaf_cases:
  assumes "leaf_ok p"
  obtains (bitmap) b where "unat (bv_iSize p) \<le> 3968" "get_aBitmap (bv_u p) = Ok b" "length b = 496"
      "\<And>j. leaf_has p j = bit (b ! (j div 8)) (j mod 8)"
    | (hash) H where "3968 < unat (bv_iSize p)" "get_aHash (bv_u p) = Ok H" "hash_inv H" "length H = 124"
      "unat (bv_nSet p) = count_of H" "count_of H < 124" "\<And>v. v \<in> values_of H \<Longrightarrow> v \<le> bv_iSize p"
      "\<And>j. leaf_has p j = (word_of_nat (Suc j) \<in> values_of H)"
  using assms by (auto simp: leaf_ok_def leaf_has_def hash_inv_def split: if_splits)

lemma leaf_test:
  assumes "leaf_ok p" and "unat i < unat (bv_iSize p)"
  shows "(if unat (bv_iSize p) \<le> BITVEC_NBIT then
      bind_res (get_aBitmap (bv_u p)) (\<lambda>b.
      bind_res (vec_idx b (unat i div BITVEC_SZELEM)) (\<lambda>x. Ok (x AND bit_mask i \<noteq> 0)))
    else bind_res (get_aHash (bv_u p)) (\<lambda>H. hash_loop BITVEC_NINT H (i + 1) (BITVEC_HASH (unat i)))) =
    Ok (leaf_has p (unat i))"
  using assms(1)
proof (cases rule: leaf_cases)
  case (bitmap b)
  then show ?thesis using assms(2) by (simp add: bitvec_sizes bit_mask_ops less_mult_imp_div_less)
next
  case (hash H)
  note x = leaf_index [OF assms(2)]
  obtain k where k: "first_free H (home (i + 1)) k" using first_free_exists [OF home_less hash(6)] by blast
  then have "hash_loop 124 H (i + 1) (home (i + 1)) = Ok (\<exists>j < k. H ! slot (home (i + 1)) j = i + 1)"
    using x(3) hash(4) by (intro hash_loop_eval) (simp_all add: first_free_def)
  also have "\<dots> = Ok (leaf_has p (unat i))" using probe_finds [OF hash(3) k x(3)] unfolding hash(8) x(5) by simp
  finally show ?thesis using hash(1,2) x(6) by (simp add: bitvec_sizes)
qed

lemma test_ok:
  assumes "bitvec_ok l p" and "unat i < unat (bv_iSize p)"
  shows "sqlite3BitvecTestNotNull p (i + 1) = Ok (bitvec_has l p (unat i))"
proof -
  from find_bitvec_ok [OF assms] obtain r where r: "find_bitvec p i = Ok r"
    "case r of None \<Rightarrow> \<not> bitvec_has l p (unat i)
     | Some (q, j) \<Rightarrow> leaf_ok q \<and> unat j < unat (bv_iSize q) \<and> bitvec_has l p (unat i) = leaf_has q (unat j)" by blast
  have in_range: "\<not> bv_iSize p \<le> i" using assms(2) by (simp add: word_le_nat_alt)
  show ?thesis
  proof (cases r)
    case None
    then show ?thesis using r in_range by (simp add: sqlite3BitvecTestNotNull_def)
  next
    case (Some qj)
    obtain q j where qj: "qj = (q, j)" by (cases qj)
    have q: "leaf_ok q" "unat j < unat (bv_iSize q)" "bitvec_has l p (unat i) = leaf_has q (unat j)"
      using r(2) Some qj by simp_all
    show ?thesis unfolding sqlite3BitvecTestNotNull_def using in_range r(1) Some qj leaf_test [OF q(1,2)] q(3) by simp
  qed
qed

section \<open>What a call of set leaves behind\<close>

definition members :: "nat \<Rightarrow> Bitvec \<Rightarrow> nat set" where
  "members l p = {j. j < unat (bv_iSize p) \<and> bitvec_has l p j}"

text \<open>
  \<open>S\<close> is the set asked for. Without memory the outcome is a part of it (a table that is being
  divided loses the values it could not move).
\<close>

definition set_outcome :: "(nat \<Rightarrow> bool) \<Rightarrow> nat \<Rightarrow> Bitvec \<Rightarrow> nat set \<Rightarrow> bitvec_result \<Rightarrow> bool" where
  "set_outcome malloc l p S r \<longleftrightarrow>
     (\<exists>rc p' n'. r = Ok (rc, p', n') \<and> (rc = SQLITE_OK \<or> rc = SQLITE_NOMEM) \<and> bitvec_ok l p' \<and> bv_iSize p' = bv_iSize p \<and>
        (divided p \<longrightarrow> divided p') \<and> members l p' \<subseteq> S \<and> (rc = SQLITE_OK \<longrightarrow> members l p' = S) \<and>
        ((\<forall>m. malloc m) \<longrightarrow> rc = SQLITE_OK))"

lemma set_outcomeI:
  assumes "r = Ok (rc, p', n')" and "rc = SQLITE_OK \<or> rc = SQLITE_NOMEM" and "bitvec_ok l p'" and "bv_iSize p' = bv_iSize p"
    and "divided p \<longrightarrow> divided p'" and "members l p' \<subseteq> S" and "rc = SQLITE_OK \<longrightarrow> members l p' = S"
    and "(\<forall>m. malloc m) \<longrightarrow> rc = SQLITE_OK"
  shows "set_outcome malloc l p S r"
  unfolding set_outcome_def using assms by (intro exI conjI)

lemma set_outcomeE:
  assumes "set_outcome malloc l p S r"
  obtains rc p' n' where "r = Ok (rc, p', n')" "rc = SQLITE_OK \<or> rc = SQLITE_NOMEM" "bitvec_ok l p'" "bv_iSize p' = bv_iSize p"
    "divided p \<longrightarrow> divided p'" "members l p' \<subseteq> S" "rc = SQLITE_OK \<longrightarrow> members l p' = S" "(\<forall>m. malloc m) \<longrightarrow> rc = SQLITE_OK"
  using assms unfolding set_outcome_def by (elim exE conjE) (rule that)

lemma codes_differ: "SQLITE_OK \<noteq> SQLITE_NOMEM" "SQLITE_NOMEM \<noteq> SQLITE_OK"
  by (simp_all add: SQLITE_OK_def SQLITE_NOMEM_def)

lemma codes_or: "rc = SQLITE_OK \<or> rc = SQLITE_NOMEM \<Longrightarrow> rc' = SQLITE_OK \<or> rc' = SQLITE_NOMEM \<Longrightarrow>
   (rc OR rc' = SQLITE_OK \<or> rc OR rc' = SQLITE_NOMEM) \<and> (rc OR rc' = SQLITE_OK \<longleftrightarrow> rc = SQLITE_OK \<and> rc' = SQLITE_OK)"
  by (auto simp: SQLITE_OK_def SQLITE_NOMEM_def)

text \<open>The structure as it was: with its members when one of them was set, or without memory.\<close>

lemma outcome_same: "bitvec_ok l p \<Longrightarrow> i \<in> members l p \<Longrightarrow> set_outcome malloc l p (insert i (members l p)) (Ok (SQLITE_OK, p, n))"
  by (rule set_outcomeI) auto

lemma outcome_nomem:
  "bitvec_ok l p \<Longrightarrow> \<not> malloc m \<Longrightarrow> set_outcome malloc l p (insert i (members l p)) (Ok (SQLITE_NOMEM, p, n))"
  by (rule set_outcomeI) (auto simp: codes_differ)

lemma leaf_members: "leaf_ok p \<Longrightarrow> members l p = {j. j < unat (bv_iSize p) \<and> leaf_has p j}"
  by (simp add: members_def leaf_has_level)

lemma level_base: "n \<le> 3968 \<Longrightarrow> n \<le> 3968 * (62 :: nat) ^ l"
  using one_le_power [of "62 :: nat" l] by linarith

lemma set_bitmap:
  assumes "leaf_ok p" and "unat (bv_iSize p) \<le> 3968" and "unat i < unat (bv_iSize p)"
  shows "set_outcome malloc l p (insert (unat i) (members l p)) (bitvec_set malloc (Suc k) p i n)"
  using assms(1)
proof (cases rule: leaf_cases)
  case (bitmap b)
  let ?p = "Bitvec (bv_iSize p) (bv_nSet p) (bv_iDivisor p) (aBitmap (b[unat i div 8 := b ! (unat i div 8) OR bit_mask i]))"
  have d: "unat i div 8 < 496" "bv_iDivisor p = 0" using bitmap(1) assms(1,3) by (simp_all add: less_mult_imp_div_less leaf_ok_def)
  have p': "leaf_ok ?p" using d bitmap(1,3) by (simp add: leaf_ok_def get_aBitmap_def)
  have new: "leaf_has ?p j = bit (b[unat i div 8 := b ! (unat i div 8) OR bit_mask i] ! (j div 8)) (j mod 8)" for j
    using bitmap(1) by (simp add: leaf_has_def get_aBitmap_def)
  have has: "leaf_has ?p j \<longleftrightarrow> leaf_has p j \<or> j = unat i" for j
  proof (cases "j div 8 = unat i div 8")
    case True
    then have "j = unat i \<longleftrightarrow> j mod 8 = unat i mod 8" by (metis div_mult_mod_eq)
    then show ?thesis unfolding new bitmap(4) using True bitmap(3) d(1) by (simp add: bit_mask_ops)
  next
    case False
    then show ?thesis unfolding new bitmap(4) by auto
  qed
  have lev: "bitvec_ok l ?p" using p' level_base [OF bitmap(1)] by (intro leaf_level) simp_all
  show ?thesis
  proof (rule set_outcomeI)
    show "bitvec_set malloc (Suc k) p i n = Ok (SQLITE_OK, ?p, n)"
      using bitmap(1-3) d by (simp add: bitvec_set.simps(2) bitvec_sizes)
    show "bitvec_ok l ?p" by (rule lev)
    have "members l ?p = insert (unat i) (members l p)"
      unfolding leaf_members [OF p'] leaf_members [OF assms(1)] using has assms(3) by auto
    then show "members l ?p \<subseteq> insert (unat i) (members l p)" "SQLITE_OK = SQLITE_OK \<longrightarrow> members l ?p = insert (unat i) (members l p)"
      by simp_all
  qed (use d in \<open>simp_all add: divided_def\<close>)
qed (use assms(2) in simp)


section \<open>Set in a divided structure\<close>

text \<open>The structure below that has the bit, and what replacing it does to the members.\<close>

lemma divided_sub:
  assumes "bitvec_ok (Suc l) p" and "divided p" and "unat i < unat (bv_iSize p)"
  shows "\<exists>subs. get_apSub (bv_u p) = Ok subs \<and> length subs = 62 \<and>
    (\<forall>q. Some q \<in> set subs \<longrightarrow> bv_iSize q = bv_iDivisor p \<and> bitvec_ok l q) \<and>
    vec_idx subs (unat (i div bv_iDivisor p)) = Ok (subs ! unat (i div bv_iDivisor p)) \<and>
    subs ! unat (i div bv_iDivisor p) \<in> set subs"
proof -
  note b = bin_bounds [OF assms(2,3)]
  have "\<not> leaf_ok p" using b(1) by (auto dest: leaf_ok_divisor)
  then obtain subs where subs: "get_apSub (bv_u p) = Ok subs" "length subs = 62"
    "\<forall>q. Some q \<in> set subs \<longrightarrow> bv_iSize q = bv_iDivisor p \<and> bitvec_ok l q" using assms(1) by auto
  then show ?thesis using b(2) by simp
qed

lemma members_below:
  assumes "bitvec_ok (Suc l) p" and "divided p" and "get_apSub (bv_u p) = Ok subs" and "length subs = 62"
    and "\<forall>q. Some q \<in> set subs \<longrightarrow> bv_iSize q = bv_iDivisor p \<and> bitvec_ok l q"
  shows "members (Suc l) p =
    {j. j < unat (bv_iSize p) \<and>
      (case subs ! (j div unat (bv_iDivisor p)) of None \<Rightarrow> False | Some q \<Rightarrow> j mod unat (bv_iDivisor p) \<in> members l q)}"
proof -
  have "(bitvec_has (Suc l) p j) =
      (case subs ! (j div unat (bv_iDivisor p)) of None \<Rightarrow> False | Some q \<Rightarrow> j mod unat (bv_iDivisor p) \<in> members l q)"
    if j: "j < unat (bv_iSize p)" for j
  proof -
    have "unat (bv_iSize p) < 2 ^ 32" using unsigned_less [of "bv_iSize p"] by simp
    then have e: "unat (word_of_nat j :: 32 word) = j" using j by (simp add: unat_of_nat)
    then have b: "bv_iDivisor p \<noteq> 0" "j div unat (bv_iDivisor p) < 62" "j mod unat (bv_iDivisor p) < unat (bv_iDivisor p)"
      using bin_bounds [OF assms(2), of "word_of_nat j"] j by (simp_all add: unat_div unat_mod)
    have "subs ! (j div unat (bv_iDivisor p)) \<in> set subs" using b(2) assms(4) by simp
    then show ?thesis unfolding divided_has [OF b(1) assms(3)] using b(3) assms(5)
      by (auto simp: members_def split: option.split)
  qed
  then show ?thesis unfolding members_def [of "Suc l"] by blast
qed

lemma replace_sub:
  assumes "bitvec_ok (Suc l) p" and "divided p" and "unat i < unat (bv_iSize p)" and "get_apSub (bv_u p) = Ok subs"
    and "length subs = 62" and "\<forall>q. Some q \<in> set subs \<longrightarrow> bv_iSize q = bv_iDivisor p \<and> bitvec_ok l q"
    and "bitvec_ok l q" and "bv_iSize q = bv_iDivisor p"
    and "np = Bitvec (bv_iSize p) (bv_nSet p) (bv_iDivisor p) (apSub (subs[unat (i div bv_iDivisor p) := Some q]))"
  shows "bitvec_ok (Suc l) np \<and> divided np \<and> bv_iSize np = bv_iSize p \<and>
    members (Suc l) np = {j. j < unat (bv_iSize p) \<and>
      (if j div unat (bv_iDivisor p) = unat (i div bv_iDivisor p) then j mod unat (bv_iDivisor p) \<in> members l q
       else j \<in> members (Suc l) p)}"
proof -
  note b = bin_bounds [OF assms(2,3)]
  let ?bin = "unat (i div bv_iDivisor p)" and ?d = "unat (bv_iDivisor p)"
  let ?subs = "subs[?bin := Some q]"
  have np: "get_apSub (bv_u np) = Ok ?subs" "length ?subs = 62" "bv_iSize np = bv_iSize p" "bv_iDivisor np = bv_iDivisor p"
    unfolding assms(9) using assms(5) by (simp_all add: get_apSub_def)
  have all: "\<forall>x. Some x \<in> set ?subs \<longrightarrow> bv_iSize x = bv_iDivisor np \<and> bitvec_ok l x"
    using assms(6-8) np(4) by (auto dest!: set_update_subset_insert [THEN subsetD])
  have div: "divided np" using assms(2) np(3,4) by (simp add: divided_def)
  have ok: "bitvec_ok (Suc l) np" using level_size [OF assms(1)] div np(1-3) all by auto
  have "(case ?subs ! (j div ?d) of None \<Rightarrow> False | Some x \<Rightarrow> j mod ?d \<in> members l x) \<longleftrightarrow>
      (if j div ?d = ?bin then j mod ?d \<in> members l q else j \<in> members (Suc l) p)" if "j < unat (bv_iSize p)" for j
    using that b(2) assms(5) unfolding members_below [OF assms(1,2,4,5,6)] by auto
  then have "members (Suc l) np = {j. j < unat (bv_iSize p) \<and>
      (if j div ?d = ?bin then j mod ?d \<in> members l q else j \<in> members (Suc l) p)}"
    unfolding members_below [OF ok div np(1,2) all] np(3,4) by blast
  then show ?thesis using ok div np(3) by simp
qed

text \<open>In the bin of \<open>i\<close>, the remainder tells the bits apart.\<close>

lemma same_bin: "j div d = i div d \<Longrightarrow> j = i \<longleftrightarrow> j mod d = i mod (d :: nat)"
  by (metis div_mult_mod_eq)

lemma set_divided:
  assumes "bitvec_ok (Suc l) p" and "divided p" and "unat i < unat (bv_iSize p)"
    and IH: "\<And>q i n. bitvec_ok l q \<Longrightarrow> unat i < unat (bv_iSize q) \<Longrightarrow>
      set_outcome malloc l q (insert (unat i) (members l q)) (bitvec_set malloc k q i n)"
  shows "set_outcome malloc (Suc l) p (insert (unat i) (members (Suc l) p)) (bitvec_set malloc (Suc k) p i n)"
proof -
  note b = bin_bounds [OF assms(2,3)]
  let ?d = "unat (bv_iDivisor p)" and ?bin = "unat (i div bv_iDivisor p)" and ?i = "i mod bv_iDivisor p"
  obtain subs where sub: "get_apSub (bv_u p) = Ok subs" "length subs = 62"
    "\<forall>q. Some q \<in> set subs \<longrightarrow> bv_iSize q = bv_iDivisor p \<and> bitvec_ok l q" "vec_idx subs ?bin = Ok (subs ! ?bin)"
    "subs ! ?bin \<in> set subs" using divided_sub [OF assms(1-3)] by blast
  note subs = sub(1-4)
  have big: "BITVEC_NBIT < unat (bv_iSize p)" using assms(2) by (simp add: divided_def bitvec_sizes)
  let ?r = "case subs ! ?bin of None \<Rightarrow> sqlite3BitvecCreate malloc (bv_iDivisor p) n | Some q \<Rightarrow> (Some q, n)"
  have step: "bitvec_set malloc (Suc k) p i n =
      (case ?r of
         (None, n) \<Rightarrow> Ok (SQLITE_NOMEM, p, n)
       | (Some q, n) \<Rightarrow>
           map_res (\<lambda>(rc, q, n). (rc, Bitvec (bv_iSize p) (bv_nSet p) (bv_iDivisor p) (apSub (subs[?bin := Some q])), n))
             (bitvec_set malloc k q ?i n))"
    using big b(1) subs(1,4) by (simp add: bitvec_set.simps(2) Let_def)
  obtain s m where sm: "?r = (s, m)" by (rule prod.exhaust)
  show ?thesis
  proof (cases s)
    case None
    then have "\<not> malloc n" using sm by (auto simp: sqlite3BitvecCreate_def split: option.splits if_splits)
    moreover have "bitvec_set malloc (Suc k) p i n = Ok (SQLITE_NOMEM, p, m)" unfolding step sm None by simp
    ultimately show ?thesis using outcome_nomem [OF assms(1)] by simp
  next
    case (Some q)
    have q: "bv_iSize q = bv_iDivisor p \<and> bitvec_ok l q \<and>
        members l q = (case subs ! ?bin of None \<Rightarrow> {} | Some q \<Rightarrow> members l q)"
    proof (cases "subs ! ?bin")
      case None
      have "unat (bv_iDivisor p) \<le> 3968 * 62 ^ l"
        using divisor_level [OF level_size [OF assms(1)]] assms(2) by (simp add: divided_def)
      moreover have "q = Bitvec (bv_iDivisor p) 0 0 All_zero"
        using None sm Some by (auto simp: sqlite3BitvecCreate_def split: if_splits)
      ultimately show ?thesis
        using None fresh_leaf(2) by (auto simp: leaf_level fresh_leaf(1) leaf_members [OF fresh_leaf(1)])
    next
      case old: (Some q0)
      then have "q = q0" "Some q0 \<in> set subs" using sm Some sub(5) by simp_all
      then show ?thesis using old subs(3) by auto
    qed
    have "set_outcome malloc l q (insert (unat ?i) (members l q)) (bitvec_set malloc k q ?i m)"
      using IH [of q ?i m] b(3) q by simp
    then obtain rc q' n' where r: "bitvec_set malloc k q ?i m = Ok (rc, q', n')"
      "rc = SQLITE_OK \<or> rc = SQLITE_NOMEM" "bitvec_ok l q'" "bv_iSize q' = bv_iSize q" "divided q \<longrightarrow> divided q'"
      "members l q' \<subseteq> insert (unat ?i) (members l q)" "rc = SQLITE_OK \<longrightarrow> members l q' = insert (unat ?i) (members l q)"
      "(\<forall>m. malloc m) \<longrightarrow> rc = SQLITE_OK" by (rule set_outcomeE)
    define np where "np = Bitvec (bv_iSize p) (bv_nSet p) (bv_iDivisor p) (apSub (subs[?bin := Some q']))"
    have size': "bv_iSize q' = bv_iDivisor p" using r(4) q by simp
    have np: "bitvec_ok (Suc l) np" "divided np" "bv_iSize np = bv_iSize p"
      "members (Suc l) np = {j. j < unat (bv_iSize p) \<and>
        (if j div ?d = ?bin then j mod ?d \<in> members l q' else j \<in> members (Suc l) p)}"
      using replace_sub [OF assms(1-3) subs(1-3) r(3) size' np_def] by blast+
    have k: "?bin = unat i div ?d" "unat ?i = unat i mod ?d" by (simp_all add: unat_div unat_mod)
    have old: "j \<in> members (Suc l) p \<longleftrightarrow> j mod ?d \<in> members l q" if "j div ?d = ?bin" "j < unat (bv_iSize p)" for j
      unfolding members_below [OF assms(1,2) subs(1-3)] using that q by (cases "subs ! ?bin") auto
    have in_p: "j < unat (bv_iSize p)" if "j \<in> members (Suc l) p" for j using that unfolding members_def by blast
    have sub: "members (Suc l) np \<subseteq> insert (unat i) (members (Suc l) p)"
      using r(6) old same_bin [of _ ?d "unat i"] unfolding np(4) k by (auto split: if_splits)
    moreover have "insert (unat i) (members (Suc l) p) \<subseteq> members (Suc l) np" if "rc = SQLITE_OK"
      using r(7) old in_p assms(3) that unfolding np(4) k by auto
    ultimately have "rc = SQLITE_OK \<longrightarrow> members (Suc l) np = insert (unat i) (members (Suc l) p)" by blast
    then show ?thesis using sub np(1-3) r(1,2,8) by (intro set_outcomeI [of _ rc np n']) (simp_all add: step sm Some np_def)
  qed
qed

section \<open>Set in a hash table\<close>

lemma hash_members:
  assumes "leaf_ok p" and "3968 < unat (bv_iSize p)" and "get_aHash (bv_u p) = Ok H"
  shows "members l p = (\<lambda>v. unat v - 1) ` values_of H"
proof -
  have H: "\<And>v. v \<in> values_of H \<Longrightarrow> v \<le> bv_iSize p" "\<And>j. leaf_has p j = (word_of_nat (Suc j) \<in> values_of H)"
    using assms by (auto simp: leaf_ok_def leaf_has_def)
  have "j \<in> (\<lambda>v. unat v - 1) ` values_of H" if j: "j < unat (bv_iSize p)" "leaf_has p j" for j
  proof -
    have "unat (bv_iSize p) < 2 ^ 32" using unsigned_less [of "bv_iSize p"] by simp
    then have "Suc j < 2 ^ 32" using j(1) by linarith
    then have "unat (word_of_nat (Suc j) :: 32 word) = Suc j" by (simp only: unat_of_nat) simp
    then show ?thesis using j(2) H(2) by (intro image_eqI [of _ _ "word_of_nat (Suc j)"]) simp_all
  qed
  moreover have "unat v - 1 < unat (bv_iSize p) \<and> leaf_has p (unat v - 1)" if v: "v \<in> values_of H" for v
  proof -
    have "v \<noteq> 0" using v by (simp add: values_of_def)
    then have "Suc (unat v - 1) = unat v" by (simp add: unat_gt_0)
    moreover have "unat v \<le> unat (bv_iSize p)" using H(1) [OF v] by (simp add: word_le_nat_alt)
    ultimately show ?thesis using v by (simp add: H(2) del: of_nat_Suc)
  qed
  ultimately show ?thesis unfolding leaf_members [OF assms(1)] by blast
qed

lemma set_end_ok:
  assumes "bitvec_ok l p" and "leaf_ok p" and "3968 < unat (bv_iSize p)" and "get_aHash (bv_u p) = Ok H"
    and "unat i < unat (bv_iSize p)" and "i + 1 \<notin> values_of H" and "first_free H (home (i + 1)) k" and "unat (bv_nSet p) < 123"
  shows "set_outcome malloc l p (insert (unat i) (members l p)) (bitvec_set_end p H (slot (home (i + 1)) k) (i + 1) n)"
proof -
  note x = leaf_index [OF assms(5)]
  let ?H = "H[slot (home (i + 1)) k := i + 1]"
  let ?p = "Bitvec (bv_iSize p) (bv_nSet p + 1) (bv_iDivisor p) (aHash ?H)"
  have H: "hash_inv H" "length H = 124" "unat (bv_nSet p) = count_of H" "\<And>v. v \<in> values_of H \<Longrightarrow> v \<le> bv_iSize p"
    using assms(2-4) by (auto simp: leaf_ok_def hash_inv_def)
  have more: "hash_inv ?H" "values_of ?H = insert (i + 1) (values_of H)" "count_of ?H = Suc (count_of H)"
    using insert_value [OF H(1) assms(7) x(3) assms(6)] by simp_all
  have "unat (bv_nSet p + 1) = Suc (unat (bv_nSet p))"
  proof -
    have "unat (word_of_nat (Suc (unat (bv_nSet p))) :: 32 word) = Suc (unat (bv_nSet p)) mod 2 ^ 32"
      by (simp only: unat_of_nat) simp
    then show ?thesis using assms(8) by (simp add: add.commute)
  qed
  moreover have "i + 1 \<le> bv_iSize p" using x(2) assms(5) by (simp add: word_le_nat_alt)
  ultimately have leaf: "leaf_ok ?p"
    using more H(3,4) assms(2,3,8) by (auto simp: leaf_ok_def get_aHash_def)
  show ?thesis
  proof (rule set_outcomeI)
    show "bitvec_set_end p H (slot (home (i + 1)) k) (i + 1) n = Ok (SQLITE_OK, ?p, n)"
      using H(2) by (simp add: bitvec_set_end_def)
    show "bitvec_ok l ?p" using leaf level_size [OF assms(1)] by (intro leaf_level) simp_all
    have "members l ?p = insert (unat i) (members l p)"
      unfolding hash_members [OF assms(2-4)] using hash_members [OF leaf, of ?H] assms(3) more(2) x(2)
      by (simp add: get_aHash_def)
    then show "members l ?p \<subseteq> insert (unat i) (members l p)" "SQLITE_OK = SQLITE_OK \<longrightarrow> members l ?p = insert (unat i) (members l p)"
      by simp_all
  qed (use assms(2) in \<open>simp_all add: divided_def leaf_ok_def\<close>)
qed

lemma outcome_from: "set_outcome malloc l q' S r \<Longrightarrow> bv_iSize q' = bv_iSize q \<Longrightarrow> divided q' \<Longrightarrow> set_outcome malloc l q S r"
  unfolding set_outcome_def [of malloc l q'] by (elim exE conjE) (rule set_outcomeI, assumption, simp_all)

lemma set_values_ok:
  assumes again: "\<And>q v n. bitvec_ok l q \<Longrightarrow> divided q \<Longrightarrow> bv_iSize q = s \<Longrightarrow> v \<noteq> 0 \<Longrightarrow> v \<le> s \<Longrightarrow>
      set_outcome malloc l q (insert (unat v - 1) (members l q)) (again q v n)"
    and "bitvec_ok l q" and "divided q" and "bv_iSize q = s" and "rc = SQLITE_OK \<or> rc = SQLITE_NOMEM"
    and "members l q \<subseteq> S" and "rc = SQLITE_OK \<longrightarrow> members l q = S" and "(\<forall>m. malloc m) \<longrightarrow> rc = SQLITE_OK"
    and "\<forall>v \<in> set vs. v \<le> s"
  shows "set_outcome malloc l q (S \<union> (\<lambda>v. unat v - 1) ` (set vs - {0})) (set_values again vs rc q n)"
  using assms(2-)
proof (induction vs arbitrary: q rc n S)
  case Nil
  then show ?case by (intro set_outcomeI [of _ rc q n]) auto
next
  case (Cons v vs)
  show ?case
  proof (cases "v = 0")
    case True
    then show ?thesis using Cons.IH [of q rc S n] Cons.prems by simp
  next
    case False
    have "set_outcome malloc l q (insert (unat v - 1) (members l q)) (again q v n)"
      using again [OF Cons.prems(1-3) False] Cons.prems(8) by simp
    then obtain rc' q' n' where
      r: "again q v n = Ok (rc', q', n')" "rc' = SQLITE_OK \<or> rc' = SQLITE_NOMEM" "bitvec_ok l q'" "bv_iSize q' = bv_iSize q"
        "divided q \<longrightarrow> divided q'" "members l q' \<subseteq> insert (unat v - 1) (members l q)"
        "rc' = SQLITE_OK \<longrightarrow> members l q' = insert (unat v - 1) (members l q)" "(\<forall>m. malloc m) \<longrightarrow> rc' = SQLITE_OK"
      by (rule set_outcomeE)
    have r5: "divided q'" using r(5) Cons.prems(2) by simp
    have "set_outcome malloc l q' (insert (unat v - 1) S \<union> (\<lambda>v. unat v - 1) ` (set vs - {0}))
        (set_values again vs (rc OR rc') q' n')"
    proof (rule Cons.IH)
      show "bitvec_ok l q'" "divided q'" by (rule r r5)+
      show "bv_iSize q' = s" using r(4) Cons.prems(3) by simp
      show "rc OR rc' = SQLITE_OK \<or> rc OR rc' = SQLITE_NOMEM" using codes_or Cons.prems(4) r(2) by blast
      show "members l q' \<subseteq> insert (unat v - 1) S" using r(6) Cons.prems(5) by blast
      show "rc OR rc' = SQLITE_OK \<longrightarrow> members l q' = insert (unat v - 1) S"
        using codes_or [OF Cons.prems(4) r(2)] Cons.prems(6) r(7) by simp
      show "(\<forall>m. malloc m) \<longrightarrow> rc OR rc' = SQLITE_OK"
        using codes_or [OF Cons.prems(4) r(2)] Cons.prems(7) r(8) by simp
      show "\<forall>v \<in> set vs. v \<le> s" using Cons.prems(8) by simp
    qed
    moreover have "insert (unat v - 1) S \<union> (\<lambda>v. unat v - 1) ` (set vs - {0}) = S \<union> (\<lambda>v. unat v - 1) ` (set (v # vs) - {0})"
      using False by (auto simp: insert_Diff_if)
    ultimately have "set_outcome malloc l q' (S \<union> (\<lambda>v. unat v - 1) ` (set (v # vs) - {0})) (set_values again (v # vs) rc q n)"
      using r(1) False by simp
    then show ?thesis by (rule outcome_from [OF _ r(4) r5])
  qed
qed


lemma set_rehash_ok:
  assumes "bitvec_ok (Suc l) p" and "leaf_ok p" and "3968 < unat (bv_iSize p)" and "get_aHash (bv_u p) = Ok H"
    and "unat i < unat (bv_iSize p)" and "first_free H (home (i + 1)) k" and "i + 1 \<notin> values_of H"
    and again: "\<And>q v n. bitvec_ok (Suc l) q \<Longrightarrow> divided q \<Longrightarrow> bv_iSize q = bv_iSize p \<Longrightarrow> v \<noteq> 0 \<Longrightarrow> v \<le> bv_iSize p \<Longrightarrow>
      set_outcome malloc (Suc l) q (insert (unat v - 1) (members (Suc l) q)) (again q v n)"
  shows "set_outcome malloc (Suc l) p (insert (unat i) (members (Suc l) p))
    (bitvec_set_rehash malloc again p H (slot (home (i + 1)) k) (i + 1) n)"
proof (cases "62 \<le> unat (bv_nSet p)")
  case False
  then show ?thesis using set_end_ok [OF assms(1-5,7,6), of malloc n] by (simp add: bitvec_set_rehash_def bitvec_sizes)
next
  case full: True
  note x = leaf_index [OF assms(5)]
  show ?thesis
  proof (cases "malloc n")
    case False
    then show ?thesis using full outcome_nomem [OF assms(1), of malloc n] by (simp add: bitvec_set_rehash_def bitvec_sizes)
  next
    case True
    let ?s = "unat (bv_iSize p)"
    let ?d = "word_of_nat ((?s + 61) div 62) :: 32 word"
    let ?p = "Bitvec (bv_iSize p) (bv_nSet p) ?d All_zero"
    have "?s < 2 ^ 32" using unsigned_less [of "bv_iSize p"] by simp
    then have "?s + 61 < 62 * 2 ^ 32" by linarith
    then have "(?s + 61) div 62 < 2 ^ 32" by (intro less_mult_imp_div_less) (simp add: mult.commute)
    then have d: "unat ?d = (?s + 61) div 62" by (simp add: unat_of_nat)
    have div: "divided ?p" using d assms(3) by (simp add: divided_def)
    have sub: "get_apSub (bv_u ?p) = Ok (replicate 62 None)" by (simp add: get_apSub_def bitvec_sizes)
    have ok: "bitvec_ok (Suc l) ?p" using level_size [OF assms(1)] div sub by (auto simp: divided_def)
    have none: "members (Suc l) ?p = {}"
    proof -
      have "\<not> bitvec_has (Suc l) ?p j" if "j < ?s" for j
      proof -
        have j: "unat (word_of_nat j :: 32 word) = j" using that \<open>?s < 2 ^ 32\<close> by (simp add: unat_of_nat)
        then have b: "bv_iDivisor ?p \<noteq> 0" "j div unat (bv_iDivisor ?p) < 62"
          using bin_bounds [OF div, of "word_of_nat j"] that by (simp_all add: unat_div)
        show ?thesis unfolding divided_has [OF b(1) sub] using b(2) by simp
      qed
      then show ?thesis by (auto simp: members_def simp del: bitvec_has.simps)
    qed
    have v: "i + 1 \<le> bv_iSize p" "unat (i + 1) - 1 = unat i" using x(2) assms(5) by (simp_all add: word_le_nat_alt)
    have "set_outcome malloc (Suc l) ?p {unat i} (again ?p (i + 1) (n + 1))"
      using again [OF ok div _ x(3) v(1), of "n + 1"] unfolding none v(2) by simp
    then obtain rc q n' where
      r: "again ?p (i + 1) (n + 1) = Ok (rc, q, n')" "rc = SQLITE_OK \<or> rc = SQLITE_NOMEM" "bitvec_ok (Suc l) q"
        "bv_iSize q = bv_iSize ?p" "divided ?p \<longrightarrow> divided q" "members (Suc l) q \<subseteq> {unat i}" "rc = SQLITE_OK \<longrightarrow> members (Suc l) q = {unat i}"
        "(\<forall>m. malloc m) \<longrightarrow> rc = SQLITE_OK" by (rule set_outcomeE)
    have q: "bv_iSize q = bv_iSize p" "divided q" using r(4,5) div by simp_all
    have vals: "\<forall>v \<in> set H. v \<le> bv_iSize p"
      using assms(2-4) by (auto simp: leaf_ok_def values_of_def)
    have "set_outcome malloc (Suc l) q ({unat i} \<union> (\<lambda>v. unat v - 1) ` (set H - {0})) (set_values again H rc q n')"
      by (rule set_values_ok [where s = "bv_iSize p", OF again r(3) q(2,1) r(2,6,7,8) vals]) assumption+
    then have "set_outcome malloc (Suc l) p (insert (unat i) (members (Suc l) p)) (set_values again H rc q n')"
      unfolding hash_members [OF assms(2-4)] values_of_def [symmetric] by (intro outcome_from [OF _ q]) simp
    then show ?thesis using full True r(1)
      by (simp add: bitvec_set_rehash_def bitvec_sizes Let_def add.commute [of 61 "unat (bv_iSize p)"])
  qed
qed

lemma set_hash:
  assumes "bitvec_ok (Suc l) p" and "leaf_ok p" and "3968 < unat (bv_iSize p)" and "unat i < unat (bv_iSize p)"
    and IH: "\<And>q i n. bitvec_ok l q \<Longrightarrow> unat i < unat (bv_iSize q) \<Longrightarrow>
      set_outcome malloc l q (insert (unat i) (members l q)) (bitvec_set malloc k q i n)"
  shows "set_outcome malloc (Suc l) p (insert (unat i) (members (Suc l) p)) (bitvec_set malloc (Suc (Suc k)) p i n)"
proof -
  note x = leaf_index [OF assms(4)]
  obtain H where H: "get_aHash (bv_u p) = Ok H" "hash_inv H" "length H = 124" "unat (bv_nSet p) = count_of H" "count_of H < 124"
    using assms(2,3) by (auto simp: leaf_ok_def hash_inv_def)
  obtain f where f: "first_free H (home (i + 1)) f" using first_free_exists [OF home_less H(5)] by blast
  let ?again = "\<lambda>p i n. if i = 0 \<or> bv_iSize p < i then Undef else bitvec_set malloc (Suc k) p (i - 1) n"
  have again: "set_outcome malloc (Suc l) q (insert (unat v - 1) (members (Suc l) q)) (?again q v n)"
    if q: "bitvec_ok (Suc l) q" "divided q" "bv_iSize q = bv_iSize p" "v \<noteq> 0" "v \<le> bv_iSize p" for q v n
  proof -
    have "unat (v - 1) = unat v - 1" using q(4) by (simp add: unat_minus_one)
    moreover have "0 < unat v" "unat v \<le> unat (bv_iSize q)" using q(3-5) by (simp_all add: word_le_nat_alt unat_gt_0)
    moreover from calculation have "unat (v - 1) < unat (bv_iSize q)" by linarith
    moreover have "\<not> (v = 0 \<or> bv_iSize q < v)" using q(3-5) by (simp add: not_less)
    ultimately show ?thesis using set_divided [OF q(1,2) _ IH, of "v - 1" n] by simp
  qed
  have big: "\<not> (BITVEC_NBIT < unat (bv_iSize p) \<and> bv_iDivisor p \<noteq> 0)" "\<not> unat (bv_iSize p) \<le> BITVEC_NBIT"
    using assms(2,3) by (simp_all add: leaf_ok_def bitvec_sizes)
  have idx: "vec_idx H (home (i + 1)) = Ok (H ! home (i + 1))" using H(3) by simp
  have step: "bitvec_set malloc (Suc (Suc k)) p i n =
      (if H ! home (i + 1) = 0 then
         (if unat (bv_nSet p) < 123 then bitvec_set_end p H (home (i + 1)) (i + 1) n
          else bitvec_set_rehash malloc ?again p H (home (i + 1)) (i + 1) n)
       else bind_res (free_slot 124 H (i + 1) (home (i + 1))) (\<lambda>r.
         case r of None \<Rightarrow> Ok (SQLITE_OK, p, n) | Some h \<Rightarrow> bitvec_set_rehash malloc ?again p H h (i + 1) n))"
    unfolding bitvec_set.simps(2) [of malloc "Suc k"] using big H(1) idx
    by (simp add: Let_def bitvec_sizes x(6))
  have found: "i + 1 \<in> values_of H \<longleftrightarrow> (\<exists>j < f. H ! slot (home (i + 1)) j = i + 1)"
    using probe_finds [OF H(2) f x(3)] by simp
  show ?thesis
  proof (cases f)
    case 0
    then have free: "H ! home (i + 1) = 0" "slot (home (i + 1)) f = home (i + 1)" "i + 1 \<notin> values_of H"
      using f found by (simp_all add: first_free_def)
    show ?thesis
    proof (cases "unat (bv_nSet p) < 123")
      case True
      then show ?thesis using set_end_ok [OF assms(1-3) H(1) assms(4) free(3) f True, of malloc n] free(1,2) unfolding step by simp
    next
      case False
      then show ?thesis using set_rehash_ok [where again = ?again and n = n, OF assms(1-3) H(1) assms(4) f free(3) again] free(1,2) unfolding step by simp
    qed
  next
    case (Suc f')
    have used: "\<forall>j < Suc f'. H ! slot (home (i + 1)) j \<noteq> 0" "H ! slot (home (i + 1)) (Suc f') = 0" "f' < 124"
      using f unfolding Suc first_free_def by simp_all
    then have "H ! home (i + 1) \<noteq> 0" by (metis home_less slot_0 zero_less_Suc)
    moreover have "free_slot 124 H (i + 1) (home (i + 1)) = Ok (if i + 1 \<in> values_of H then None else Some (slot (home (i + 1)) f))"
      using free_slot_eval [OF H(3) home_less used(3,2,1), of "i + 1"] unfolding found Suc .
    ultimately have step': "bitvec_set malloc (Suc (Suc k)) p i n =
        (if i + 1 \<in> values_of H then Ok (SQLITE_OK, p, n)
         else bitvec_set_rehash malloc ?again p H (slot (home (i + 1)) f) (i + 1) n)" unfolding step by simp
    show ?thesis
    proof (cases "i + 1 \<in> values_of H")
      case True
      then have "unat i \<in> members (Suc l) p"
        unfolding hash_members [OF assms(2,3) H(1)] using x(2) by (intro image_eqI [of _ _ "i + 1"]) simp_all
      then show ?thesis unfolding step' using True outcome_same [OF assms(1)] by simp
    next
      case False
      then show ?thesis unfolding step' using set_rehash_ok [where again = ?again and n = n, OF assms(1-3) H(1) assms(4) f False again] by simp
    qed
  qed
qed

lemma set_ok:
  "bitvec_ok l p \<Longrightarrow> unat i < unat (bv_iSize p) \<Longrightarrow> 2 * l + 1 \<le> k \<Longrightarrow>
   set_outcome malloc l p (insert (unat i) (members l p)) (bitvec_set malloc k p i n)"
proof (induction l arbitrary: p i k n)
  case 0
  then obtain k' where "k = Suc k'" by (cases k) auto
  then show ?case using 0 set_bitmap [of p i malloc 0 k' n] by simp
next
  case (Suc l)
  then obtain k' where k: "k = Suc (Suc k')" "2 * l + 1 \<le> k'" by (cases k; cases "k - 1") auto
  show ?case
  proof (cases "leaf_ok p")
    case False
    then have "divided p" using Suc.prems(1) by simp
    then show ?thesis unfolding k(1) using k(2) Suc.IH by (intro set_divided [OF Suc.prems(1) _ Suc.prems(2)]) simp_all
  next
    case leaf: True
    show ?thesis
    proof (cases "unat (bv_iSize p) \<le> 3968")
      case True
      then show ?thesis unfolding k(1) by (rule set_bitmap [OF leaf _ Suc.prems(2)])
    next
      case False
      then show ?thesis unfolding k(1) using k(2) Suc.IH by (intro set_hash [OF Suc.prems(1) leaf _ Suc.prems(2)]) simp_all
    qed
  qed
qed

section \<open>Clear\<close>

lemma unat_inc: "unat c + 1 < 2 ^ 32 \<Longrightarrow> unat (c + 1 :: 32 word) = unat c + 1"
proof -
  assume c: "unat c + 1 < 2 ^ 32"
  have "unat (word_of_nat (Suc (unat c)) :: 32 word) = Suc (unat c) mod 2 ^ 32" by (simp only: unat_of_nat) simp
  then show ?thesis using c by (simp add: add.commute)
qed

lemma rebuild_ok:
  assumes "hash_inv G" and "unat c = count_of G" and "values_of G \<union> (set vs - {0, i + 1}) \<subseteq> V" and "finite V" and "card V < 124"
    and "distinct (filter (\<lambda>v. v \<noteq> 0) vs)" and "\<forall>v \<in> set vs. v \<notin> values_of G"
  shows "\<exists>c' G'. rebuild i vs c G = Ok (c', G') \<and> hash_inv G' \<and> unat c' = count_of G' \<and>
    values_of G' = values_of G \<union> (set vs - {0, i + 1})"
  using assms
proof (induction vs arbitrary: c G)
  case Nil
  then show ?case by simp
next
  case (Cons v vs)
  show ?case
  proof (cases "v \<noteq> 0 \<and> v \<noteq> i + 1")
    case False
    then have "rebuild i (v # vs) c G = rebuild i vs c G" "set (v # vs) - {0, i + 1} = set vs - {0, i + 1}"
      "distinct (filter (\<lambda>v. v \<noteq> 0) vs)" using Cons.prems(6) by (auto split: if_splits)
    then show ?thesis using Cons.IH [of G c] Cons.prems by simp
  next
    case True
    have "card (values_of G) \<le> card V" using Cons.prems(3,4) by (intro card_mono) auto
    then have room: "count_of G < 124" using count_values [OF Cons.prems(1)] Cons.prems(5) by simp
    obtain k where k: "first_free G (home v) k" using first_free_exists [OF home_less room] by blast
    have len: "length G = 124" using Cons.prems(1) by (simp add: hash_inv_def)
    let ?G = "G[slot (home v) k := v]"
    have new: "v \<notin> values_of G" using Cons.prems(7) by simp
    have G: "hash_inv ?G" "values_of ?G = insert v (values_of G)" "count_of ?G = Suc (count_of G)"
      using insert_value [OF Cons.prems(1) k _ new] True by simp_all
    have c: "unat (c + 1) = count_of ?G" using unat_inc [of c] room Cons.prems(2) G(3) by simp
    have "BITVEC_HASH (unat (v - 1)) = home v" using True by (simp add: bitvec_sizes home_def unat_minus_one)
    moreover have "probe_free 124 G (home v) = Ok (slot (home v) k)"
      using len k by (intro probe_free_eval) (simp_all add: first_free_def)
    ultimately have step: "rebuild i (v # vs) c G = rebuild i vs (c + 1) ?G"
      using True len by (simp add: bitvec_sizes)
    have "\<exists>c' G'. rebuild i vs (c + 1) ?G = Ok (c', G') \<and> hash_inv G' \<and> unat c' = count_of G' \<and>
        values_of G' = values_of ?G \<union> (set vs - {0, i + 1})"
    proof (rule Cons.IH [OF G(1) c _ Cons.prems(4,5)])
      show "values_of ?G \<union> (set vs - {0, i + 1}) \<subseteq> V" using Cons.prems(3) True unfolding G(2) by auto
      show "distinct (filter (\<lambda>v. v \<noteq> 0) vs)" using Cons.prems(6) True by simp
      show "\<forall>v \<in> set vs. v \<notin> values_of ?G" using Cons.prems(6,7) True unfolding G(2) by auto
    qed
    moreover have "values_of ?G \<union> (set vs - {0, i + 1}) = values_of G \<union> (set (v # vs) - {0, i + 1})"
      using True unfolding G(2) by auto
    ultimately show ?thesis unfolding step by simp
  qed
qed

lemma hash_distinct:
  assumes "hash_inv H"
  shows "distinct (filter (\<lambda>v. v \<noteq> 0) H)"
proof -
  have len: "length H = 124" using assms by (simp add: hash_inv_def)
  have "length (filter (\<lambda>v. v \<noteq> 0) H) = count_of H"
    unfolding length_filter_conv_card len count_of_def by simp
  moreover have "set (filter (\<lambda>v. v \<noteq> 0) H) = values_of H" by (auto simp: values_of_def)
  ultimately show ?thesis using count_values [OF assms] by (metis card_distinct)
qed

definition clear_outcome :: "nat \<Rightarrow> Bitvec \<Rightarrow> nat set \<Rightarrow> Bitvec res \<Rightarrow> bool" where
  "clear_outcome l p S r \<longleftrightarrow> (\<exists>p'. r = Ok p' \<and> bitvec_ok l p' \<and> bv_iSize p' = bv_iSize p \<and> members l p' = S)"

lemma clear_leaf:
  assumes "bitvec_ok l p" and "leaf_ok p" and "unat i < unat (bv_iSize p)"
  shows "clear_outcome l p (members l p - {unat i}) (bitvec_clear p i)"
  using assms(2)
proof (cases rule: leaf_cases)
  case (bitmap b)
  let ?b = "b[unat i div 8 := b ! (unat i div 8) AND NOT (bit_mask i)]"
  let ?p = "Bitvec (bv_iSize p) (bv_nSet p) (bv_iDivisor p) (aBitmap ?b)"
  have d: "unat i div 8 < 496" "bv_iDivisor p = 0" using bitmap(1) assms(2,3) by (simp_all add: less_mult_imp_div_less leaf_ok_def)
  have p': "leaf_ok ?p" using d bitmap(1,3) by (simp add: leaf_ok_def get_aBitmap_def)
  have new: "leaf_has ?p j = bit (?b ! (j div 8)) (j mod 8)" for j using bitmap(1) by (simp add: leaf_has_def get_aBitmap_def)
  have has: "leaf_has ?p j \<longleftrightarrow> leaf_has p j \<and> j \<noteq> unat i" for j
  proof (cases "j div 8 = unat i div 8")
    case True
    then have "j = unat i \<longleftrightarrow> j mod 8 = unat i mod 8" by (metis div_mult_mod_eq)
    then show ?thesis unfolding new bitmap(4) using True bitmap(3) d(1) by (simp add: bit_mask_ops)
  next
    case False
    then show ?thesis unfolding new bitmap(4) by auto
  qed
  have "bitvec_clear p i = Ok ?p" using bitmap(1-3) d by (subst bitvec_clear.simps) (simp add: bitvec_sizes)
  moreover have "members l ?p = members l p - {unat i}"
    unfolding leaf_members [OF p'] leaf_members [OF assms(2)] using has by auto
  moreover have "bitvec_ok l ?p" using p' level_base [OF bitmap(1)] by (intro leaf_level) simp_all
  ultimately show ?thesis unfolding clear_outcome_def by (intro exI [of _ ?p]) simp
next
  case (hash H)
  note x = leaf_index [OF assms(3)]
  have card: "card (values_of H) < 124" "finite (values_of H)"
    using count_values [OF hash(3)] hash(6) by (simp_all add: values_of_def)
  obtain c G where G: "rebuild i H 0 (replicate 124 0) = Ok (c, G)" "hash_inv G" "unat c = count_of G" "values_of G = values_of H - {i + 1}"
    using rebuild_ok [of "replicate 124 0" 0 H i "values_of H"] empty_table hash_distinct [OF hash(3)] card
    by (auto simp: values_of_def set_diff_eq)
  let ?p = "Bitvec (bv_iSize p) c (bv_iDivisor p) (aHash G)"
  have d: "bv_iDivisor p = 0" using assms(2) by (rule leaf_ok_divisor)
  have "card (values_of G) \<le> card (values_of H)" unfolding G(4) using card(2) by (intro card_mono) auto
  then have small: "count_of G < 124" using count_values [OF G(2)] card(1) by simp
  have p': "leaf_ok ?p" using d G small hash(1,7) by (auto simp: leaf_ok_def get_aHash_def)
  have "bitvec_clear p i = Ok ?p" using hash(1,2) d G(1) by (subst bitvec_clear.simps) (simp add: bitvec_sizes)
  moreover have "bitvec_ok l ?p" using p' level_size [OF assms(1)] by (intro leaf_level) simp_all
  moreover have "members l ?p = members l p - {unat i}"
  proof -
    have "unat v - 1 = unat i \<longleftrightarrow> v = i + 1" if "v \<in> values_of H" for v
    proof -
      have "v \<noteq> 0" using that by (simp add: values_of_def)
      then have "0 < unat v" by (simp add: unat_gt_0)
      then have "unat v - 1 = unat i \<longleftrightarrow> unat v = unat i + 1" by linarith
      then show ?thesis unfolding x(2) [symmetric] by (simp add: word_unat_eq_iff)
    qed
    moreover have "members l ?p = (\<lambda>v. unat v - 1) ` (values_of H - {i + 1})"
      using hash_members [OF p', of G] hash(1) G(4) by (simp add: get_aHash_def)
    ultimately show ?thesis unfolding hash_members [OF assms(2) hash(1,2)] by (auto simp: image_iff)
  qed
  ultimately show ?thesis unfolding clear_outcome_def by (intro exI [of _ ?p]) simp
qed


lemma clear_ok:
  "bitvec_ok l p \<Longrightarrow> unat i < unat (bv_iSize p) \<Longrightarrow> clear_outcome l p (members l p - {unat i}) (bitvec_clear p i)"
proof (induction l arbitrary: p i)
  case 0
  then show ?case by (intro clear_leaf) simp_all
next
  case (Suc l)
  show ?case
  proof (cases "leaf_ok p")
    case True
    then show ?thesis by (rule clear_leaf [OF Suc.prems(1) _ Suc.prems(2)])
  next
    case False
    then have d: "divided p" using Suc.prems(1) by simp
    note b = bin_bounds [OF d Suc.prems(2)]
    let ?d = "unat (bv_iDivisor p)" and ?bin = "unat (i div bv_iDivisor p)" and ?i = "i mod bv_iDivisor p"
    obtain subs where sub: "get_apSub (bv_u p) = Ok subs" "length subs = 62"
      "\<forall>q. Some q \<in> set subs \<longrightarrow> bv_iSize q = bv_iDivisor p \<and> bitvec_ok l q" "vec_idx subs ?bin = Ok (subs ! ?bin)"
      "subs ! ?bin \<in> set subs" using divided_sub [OF Suc.prems(1) d Suc.prems(2)] by blast
    note subs = sub(1-4)
    have k: "?bin = unat i div ?d" "unat ?i = unat i mod ?d" by (simp_all add: unat_div unat_mod)
    note below = members_below [OF Suc.prems(1) d subs(1-3)]
    show ?thesis
    proof (cases "subs ! ?bin")
      case None
      have "bitvec_clear p i = Ok p" using b(1) subs(1,4) None by (subst bitvec_clear.simps) simp
      moreover have "unat i \<notin> members (Suc l) p" using None unfolding below k by simp
      ultimately show ?thesis using Suc.prems(1) unfolding clear_outcome_def by simp
    next
      case (Some q)
      have q: "bv_iSize q = bv_iDivisor p" "bitvec_ok l q" using subs(3) sub(5) Some by auto
      have "clear_outcome l q (members l q - {unat ?i}) (bitvec_clear q ?i)" using Suc.IH [OF q(2), of ?i] b(3) q(1) by simp
      then obtain q' where r: "bitvec_clear q ?i = Ok q'" "bitvec_ok l q'" "bv_iSize q' = bv_iSize q"
        "members l q' = members l q - {unat ?i}" unfolding clear_outcome_def by blast
      define np where "np = Bitvec (bv_iSize p) (bv_nSet p) (bv_iDivisor p) (apSub (subs[?bin := Some q']))"
      have size': "bv_iSize q' = bv_iDivisor p" using r(3) q(1) by simp
      have np: "bitvec_ok (Suc l) np" "bv_iSize np = bv_iSize p"
        "members (Suc l) np = {j. j < unat (bv_iSize p) \<and>
          (if j div ?d = ?bin then j mod ?d \<in> members l q' else j \<in> members (Suc l) p)}"
        using replace_sub [OF Suc.prems(1) d Suc.prems(2) subs(1-3) r(2) size' np_def] by blast+
      have old: "j \<in> members (Suc l) p \<longleftrightarrow> j mod ?d \<in> members l q" if "j div ?d = ?bin" "j < unat (bv_iSize p)" for j
        unfolding below using that Some by simp
      have in_p: "j < unat (bv_iSize p)" if "j \<in> members (Suc l) p" for j using that unfolding members_def by blast
      have "members (Suc l) np = members (Suc l) p - {unat i}"
        unfolding np(3) r(4) using old in_p same_bin [of _ ?d "unat i"] k by (auto split: if_splits)
      moreover have "bitvec_clear p i = Ok np" using b(1) subs(1,4) Some r(1) np_def by (subst bitvec_clear.simps) simp
      ultimately show ?thesis using np(1,2) unfolding clear_outcome_def by blast
    qed
  qed
qed

section \<open>Destroy releases every structure\<close>

text \<open>The structure itself and all below it.\<close>

inductive part_of :: "Bitvec \<Rightarrow> Bitvec \<Rightarrow> bool" where
  part_self: "part_of p p"
| part_sub: "\<lbrakk>bv_iDivisor p \<noteq> 0; get_apSub (bv_u p) = Ok subs; Some q \<in> set subs; part_of x q\<rbrakk> \<Longrightarrow> part_of x p"

lemma part_of_leaf: "bv_iDivisor p = 0 \<Longrightarrow> part_of x p \<longleftrightarrow> x = p"
  by (auto intro: part_self elim: part_of.cases)

lemma part_of_divided:
  "bv_iDivisor p \<noteq> 0 \<Longrightarrow> get_apSub (bv_u p) = Ok subs \<Longrightarrow>
   part_of x p \<longleftrightarrow> x = p \<or> (\<exists>q. Some q \<in> set subs \<and> part_of x q)"
  by (auto intro: part_self part_sub elim: part_of.cases)

lemma destroy_ok: "bitvec_ok l p \<Longrightarrow> l + 2 \<le> k \<Longrightarrow> \<exists>ps. bitvec_destroy k (Some p) = Ok ps \<and> set ps = {x. part_of x p}"
proof (induction l arbitrary: p k)
  case 0
  then obtain k' where "k = Suc k'" by (cases k) auto
  then show ?case using 0 by (simp add: leaf_ok_divisor part_of_leaf)
next
  case (Suc l)
  then obtain k' where k: "k = Suc k'" "l + 2 \<le> k'" by (cases k) auto
  then obtain k'' where k': "k' = Suc k''" by (cases k') auto
  show ?case
  proof (cases "leaf_ok p")
    case True
    then show ?thesis using k(1) by (simp add: leaf_ok_divisor part_of_leaf)
  next
    case False
    then have d: "divided p" using Suc.prems(1) by simp
    then have nz: "bv_iDivisor p \<noteq> 0" using bin_bounds(1) [of p 0] by (simp add: divided_def)
    obtain subs where subs: "get_apSub (bv_u p) = Ok subs" "length subs = 62" "\<forall>q. Some q \<in> set subs \<longrightarrow> bitvec_ok l q"
      using Suc.prems(1) False by auto
    have "\<exists>ps. bitvec_destroy k' s = Ok ps \<and> set ps = {x. \<exists>q. s = Some q \<and> part_of x q}" if "s \<in> set subs" for s
    proof (cases s)
      case None
      then show ?thesis unfolding k' by simp
    next
      case (Some q)
      then show ?thesis using Suc.IH [OF _ k(2), of q] subs(3) that by simp
    qed
    then obtain f where f: "\<And>s. s \<in> set subs \<Longrightarrow> bitvec_destroy k' s = Ok (f s) \<and> set (f s) = {x. \<exists>q. s = Some q \<and> part_of x q}"
      by metis
    have "mapM_res (\<lambda>i. bind_res (vec_idx subs i) (bitvec_destroy k')) [0..<62] = Ok (map (\<lambda>i. f (subs ! i)) [0..<62])"
      using f subs(2) by (intro mapM_res_all_Ok) simp
    moreover have "map (\<lambda>i. f (subs ! i)) [0..<62] = map f subs"
      using map_nth [of subs] unfolding subs(2) by (metis (no_types, lifting) map_map comp_apply map_cong)
    moreover have "set (concat (map f subs) @ [p]) = {x. part_of x p}"
      unfolding Collect_cong [OF part_of_divided [OF nz subs(1)]] using f by auto
    ultimately show ?thesis using k(1) nz subs(1) by (simp add: bitvec_sizes del: upt_Suc)
  qed
qed

section \<open>The interface\<close>

text \<open>What a set of bits numbered from 1 promises, and histories of its operations.\<close>

datatype bit_op = Put_bit (bit_arg: "32 word") | Drop_bit (bit_arg: "32 word") | Ask_bit (bit_arg: "32 word")

fun run_bits ::
  "('s \<Rightarrow> 32 word \<Rightarrow> bool res) \<Rightarrow> ('s \<Rightarrow> 32 word \<Rightarrow> 's res) \<Rightarrow> ('s \<Rightarrow> 32 word \<Rightarrow> 's res) \<Rightarrow> bit_op list \<Rightarrow> 's \<Rightarrow> bool list res" where
  "run_bits ask put del [] s = Ok []"
| "run_bits ask put del (Put_bit i # ops) s = bind_res (put s i) (run_bits ask put del ops)"
| "run_bits ask put del (Drop_bit i # ops) s = bind_res (del s i) (run_bits ask put del ops)"
| "run_bits ask put del (Ask_bit i # ops) s = bind_res (ask s i) (\<lambda>b. map_res ((#) b) (run_bits ask put del ops s))"

fun set_answers :: "bit_op list \<Rightarrow> 32 word set \<Rightarrow> bool list" where
  "set_answers [] S = []"
| "set_answers (Put_bit i # ops) S = set_answers ops (insert i S)"
| "set_answers (Drop_bit i # ops) S = set_answers ops (S - {i})"
| "set_answers (Ask_bit i # ops) S = (i \<in> S) # set_answers ops S"

locale bit_set =
  fixes good :: "'s \<Rightarrow> bool" and elems :: "'s \<Rightarrow> 32 word set" and top :: "'s \<Rightarrow> 32 word"
    and ask :: "'s \<Rightarrow> 32 word \<Rightarrow> bool res" and put :: "'s \<Rightarrow> 32 word \<Rightarrow> 's res" and del :: "'s \<Rightarrow> 32 word \<Rightarrow> 's res"
  assumes ask_law: "good s \<Longrightarrow> 0 < i \<Longrightarrow> i \<le> top s \<Longrightarrow> ask s i = Ok (i \<in> elems s)"
    and put_law: "good s \<Longrightarrow> 0 < i \<Longrightarrow> i \<le> top s \<Longrightarrow>
      \<exists>s'. put s i = Ok s' \<and> good s' \<and> top s' = top s \<and> elems s' = insert i (elems s)"
    and del_law: "good s \<Longrightarrow> 0 < i \<Longrightarrow> i \<le> top s \<Longrightarrow>
      \<exists>s'. del s i = Ok s' \<and> good s' \<and> top s' = top s \<and> elems s' = elems s - {i}"
begin

lemma run_bits_answers:
  "good s \<Longrightarrow> \<forall>a \<in> set ops. 0 < bit_arg a \<and> bit_arg a \<le> top s \<Longrightarrow>
   run_bits ask put del ops s = Ok (set_answers ops (elems s))"
proof (induction ops arbitrary: s)
  case (Cons a ops)
  then have i: "0 < bit_arg a" "bit_arg a \<le> top s" by simp_all
  show ?case
  proof (cases a)
    case (Put_bit j)
    with put_law [OF Cons.prems(1) i] obtain s' where "put s j = Ok s'" "good s'" "top s' = top s" "elems s' = insert j (elems s)"
      by auto
    then show ?thesis using Cons.IH [of s'] Cons.prems(2) Put_bit by simp
  next
    case (Drop_bit j)
    with del_law [OF Cons.prems(1) i] obtain s' where "del s j = Ok s'" "good s'" "top s' = top s" "elems s' = elems s - {j}"
      by auto
    then show ?thesis using Cons.IH [of s'] Cons.prems(2) Drop_bit by simp
  next
    case (Ask_bit j)
    then show ?thesis using ask_law [OF Cons.prems(1) i] Cons.IH [OF Cons.prems(1)] Cons.prems(2) by simp
  qed
qed simp

end

text \<open>The bit vectors under an allocator that does not fail.\<close>

type_synonym bitvec_state = "Bitvec option \<times> nat"

definition bitvec_good :: "bitvec_state \<Rightarrow> bool" where
  "bitvec_good s \<longleftrightarrow> (\<exists>p. fst s = Some p \<and> bitvec_ok 4 p)"

definition bitvec_elems :: "bitvec_state \<Rightarrow> 32 word set" where
  "bitvec_elems s = {i. 0 < i \<and> unat (i - 1) \<in> members 4 (the (fst s))}"

definition bitvec_top :: "bitvec_state \<Rightarrow> 32 word" where
  "bitvec_top s = bv_iSize (the (fst s))"

definition bitvec_ask :: "bitvec_state \<Rightarrow> 32 word \<Rightarrow> bool res" where
  "bitvec_ask s i = sqlite3BitvecTest (fst s) i"

definition bitvec_put :: "bitvec_state \<Rightarrow> 32 word \<Rightarrow> bitvec_state res" where
  "bitvec_put s i =
     bind_res (sqlite3BitvecSet (\<lambda>_. True) (fst s) i (snd s)) (\<lambda>(rc, p, n). if rc = SQLITE_OK then Ok (p, n) else Undef)"

definition bitvec_del :: "bitvec_state \<Rightarrow> 32 word \<Rightarrow> bitvec_state res" where
  "bitvec_del s i = map_res (\<lambda>p. (p, snd s)) (sqlite3BitvecClear (fst s) i)"

lemma index_word:
  assumes "0 < i" and "i \<le> s"
  shows "unat (i - 1) < unat s" "i \<noteq> 0" "\<not> s < (i :: 32 word)"
proof -
  show "i \<noteq> 0" using assms(1) by auto
  then have "unat (i - 1) = unat i - 1" "0 < unat i" by (simp_all add: unat_minus_one unat_gt_0)
  then show "unat (i - 1) < unat s" using assms(2) by (simp add: word_le_nat_alt)
  show "\<not> s < i" using assms(2) by (simp add: not_less)
qed

lemma pred_inj: "unat (i - 1) = unat (j - 1) \<longleftrightarrow> i = (j :: 32 word)"
  by (metis diff_add_cancel word_unat_eq_iff)

lemma test_members:
  assumes "bitvec_ok 4 p"
  shows "sqlite3BitvecTest (Some p) i = Ok (0 < i \<and> unat (i - 1) \<in> members 4 p)"
proof (cases "unat (i - 1) < unat (bv_iSize p)")
  case True
  have "i - 1 + 1 = i" by simp
  then have "sqlite3BitvecTest (Some p) i = Ok (bitvec_has 4 p (unat (i - 1)))"
    using test_ok [OF assms True] by (simp add: sqlite3BitvecTest_def)
  moreover have "i \<noteq> 0"
  proof
    assume "i = 0"
    then have "i - 1 = - 1" by simp
    then show False using True word_le_nat_alt [of "bv_iSize p" "- 1"] by simp
  qed
  ultimately show ?thesis using True by (simp add: members_def word_gt_0)
next
  case False
  then have "bv_iSize p \<le> i - 1" by (simp add: word_le_nat_alt)
  then show ?thesis using False by (simp add: sqlite3BitvecTest_def sqlite3BitvecTestNotNull_def members_def)
qed

interpretation bitvec: bit_set bitvec_good bitvec_elems bitvec_top bitvec_ask bitvec_put bitvec_del
proof
  fix s :: bitvec_state and i
  assume s: "bitvec_good s" and i: "0 < i" "i \<le> bitvec_top s"
  then obtain p n where p: "s = (Some p, n)" "bitvec_ok 4 p" by (cases s) (auto simp: bitvec_good_def)
  have size: "i \<le> bv_iSize p" using i(2) p(1) by (simp add: bitvec_top_def)
  note x = index_word [OF i(1) size]
  show "bitvec_ask s i = Ok (i \<in> bitvec_elems s)"
    using test_members [OF p(2)] by (simp add: bitvec_ask_def bitvec_elems_def p(1))
  have "set_outcome (\<lambda>_. True) 4 p (insert (unat (i - 1)) (members 4 p)) (bitvec_set (\<lambda>_. True) set_depth p (i - 1) n)"
    by (rule set_ok [OF p(2) x(1)]) (simp add: set_depth_def)
  then obtain p' n' where r: "bitvec_set (\<lambda>_. True) set_depth p (i - 1) n = Ok (SQLITE_OK, p', n')" "bitvec_ok 4 p'"
    "bv_iSize p' = bv_iSize p" "members 4 p' = insert (unat (i - 1)) (members 4 p)"
    by (elim set_outcomeE) simp
  have "bitvec_put s i = Ok (Some p', n')" using r(1) x by (simp add: bitvec_put_def sqlite3BitvecSet_def p(1))
  moreover have "bitvec_elems (Some p', n') = insert i (bitvec_elems s)"
    unfolding bitvec_elems_def p(1) using r(4) i(1) by (auto simp: pred_inj)
  ultimately show "\<exists>s'. bitvec_put s i = Ok s' \<and> bitvec_good s' \<and> bitvec_top s' = bitvec_top s \<and> bitvec_elems s' = insert i (bitvec_elems s)"
    using r(2,3) by (simp add: bitvec_good_def bitvec_top_def p(1))
  from clear_ok [OF p(2) x(1)] obtain p' where c: "bitvec_clear p (i - 1) = Ok p'" "bitvec_ok 4 p'" "bv_iSize p' = bv_iSize p"
    "members 4 p' = members 4 p - {unat (i - 1)}" by (auto simp: clear_outcome_def)
  have "bitvec_del s i = Ok (Some p', n)" using c(1) x by (simp add: bitvec_del_def sqlite3BitvecClear_def p(1))
  moreover have "bitvec_elems (Some p', n) = bitvec_elems s - {i}"
    unfolding bitvec_elems_def p(1) using c(4) by (auto simp: pred_inj)
  ultimately show "\<exists>s'. bitvec_del s i = Ok s' \<and> bitvec_good s' \<and> bitvec_top s' = bitvec_top s \<and> bitvec_elems s' = bitvec_elems s - {i}"
    using c(2,3) by (simp add: bitvec_good_def bitvec_top_def p(1))
qed

lemma create_good:
  "bitvec_good (sqlite3BitvecCreate (\<lambda>_. True) iSize 0) \<and> bitvec_elems (sqlite3BitvecCreate (\<lambda>_. True) iSize 0) = {} \<and>
   bitvec_top (sqlite3BitvecCreate (\<lambda>_. True) iSize 0) = iSize"
proof -
  have "unat iSize < 2 ^ 32" using unsigned_less [of iSize] by simp
  then have "bitvec_ok 4 (Bitvec iSize 0 0 All_zero)" by (intro leaf_level fresh_leaf) simp
  then show ?thesis using fresh_leaf(2)
    by (auto simp: sqlite3BitvecCreate_def bitvec_good_def bitvec_elems_def bitvec_top_def leaf_members [OF fresh_leaf(1)])
qed

section \<open>Properties\<close>

text \<open>
  C20: a bit vector of any size answers every history of operations on its bits like a set, whatever
  the representations it goes through (bitmap, hash table, tree of bit vectors), when the
  allocator does not fail. No member of its union is read that is not in use, no assertion fails, and
  every probe and recursion ends.
\<close>

theorem bitvec_answers_like_set:
  assumes "\<forall>a \<in> set ops. 0 < bit_arg a \<and> bit_arg a \<le> iSize"
  shows "run_bits bitvec_ask bitvec_put bitvec_del ops (sqlite3BitvecCreate (\<lambda>_. True) iSize 0) = Ok (set_answers ops {})"
  using bitvec.run_bits_answers [of "sqlite3BitvecCreate (\<lambda>_. True) iSize 0" ops] assms create_good [of iSize] by simp

theorem bitvec_answers_like_set_witness:
  "run_bits bitvec_ask bitvec_put bitvec_del [Put_bit 7, Put_bit 131, Drop_bit 7, Ask_bit 7, Ask_bit 131]
     (sqlite3BitvecCreate (\<lambda>_. True) 5000 0) = Ok [False, True]"
  using bitvec_answers_like_set [of "[Put_bit 7, Put_bit 131, Drop_bit 7, Ask_bit 7, Ask_bit 131]" 5000] by simp

text \<open>
  C21: setting a bit whatever the allocator does: the call returns \<open>SQLITE_OK\<close> and has added exactly
  the bit, or it returns \<open>SQLITE_NOMEM\<close>, and then the structure is still well formed and has no bit
  that was neither set before nor asked for (bits of a table that was being divided can be lost).
\<close>

theorem bitvec_set_outcome:
  assumes "bitvec_ok 4 p" and "0 < i" and "i \<le> bv_iSize p"
  shows "\<exists>rc p' n'. sqlite3BitvecSet malloc (Some p) i n = Ok (rc, Some p', n') \<and> bitvec_ok 4 p' \<and> bv_iSize p' = bv_iSize p \<and>
    (rc = SQLITE_OK \<and> (\<forall>j. sqlite3BitvecTest (Some p') j = Ok (j = i \<or> sqlite3BitvecTest (Some p) j = Ok True)) \<or>
     rc = SQLITE_NOMEM \<and> (\<exists>m. \<not> malloc m) \<and>
       (\<forall>j. sqlite3BitvecTest (Some p') j = Ok True \<longrightarrow> j = i \<or> sqlite3BitvecTest (Some p) j = Ok True))"
proof -
  note x = index_word [OF assms(2,3)]
  have "set_outcome malloc 4 p (insert (unat (i - 1)) (members 4 p)) (bitvec_set malloc set_depth p (i - 1) n)"
    by (rule set_ok [OF assms(1) x(1)]) (simp add: set_depth_def)
  then obtain rc p' n' where r: "bitvec_set malloc set_depth p (i - 1) n = Ok (rc, p', n')" "rc = SQLITE_OK \<or> rc = SQLITE_NOMEM"
    "bitvec_ok 4 p'" "bv_iSize p' = bv_iSize p" "members 4 p' \<subseteq> insert (unat (i - 1)) (members 4 p)"
    "rc = SQLITE_OK \<longrightarrow> members 4 p' = insert (unat (i - 1)) (members 4 p)" "(\<forall>m. malloc m) \<longrightarrow> rc = SQLITE_OK"
    by (rule set_outcomeE)
  have set: "sqlite3BitvecSet malloc (Some p) i n = Ok (rc, Some p', n')" using r(1) x by (simp add: sqlite3BitvecSet_def)
  show ?thesis
  proof (cases "rc = SQLITE_OK")
    case True
    then have "\<forall>j. sqlite3BitvecTest (Some p') j = Ok (j = i \<or> sqlite3BitvecTest (Some p) j = Ok True)"
      using r(6) assms(2) unfolding test_members [OF assms(1)] test_members [OF r(3)] by (auto simp: pred_inj)
    then show ?thesis using set r(3,4) True by blast
  next
    case False
    then have "\<forall>j. sqlite3BitvecTest (Some p') j = Ok True \<longrightarrow> j = i \<or> sqlite3BitvecTest (Some p) j = Ok True"
      using r(5) unfolding test_members [OF assms(1)] test_members [OF r(3)] by (auto simp: pred_inj)
    then show ?thesis using set r(2,3,4,7) False by blast
  qed
qed

theorem bitvec_set_outcome_witness:
  "\<exists>rc p' n'. sqlite3BitvecSet (\<lambda>m. m = 0) (Some (Bitvec 5000 0 0 All_zero)) 7 1 = Ok (rc, Some p', n') \<and> bitvec_ok 4 p'"
proof -
  have "bitvec_ok 4 (Bitvec 5000 0 0 All_zero)" by (intro leaf_level fresh_leaf) simp
  from bitvec_set_outcome [OF this, of 7 "\<lambda>m. m = 0" 1] show ?thesis by auto
qed

end
