(* ===== verification/SqRowset.thy ===== *)
theory SqRowset
  imports Prelude
begin

text \<open>
  The row sets of \<open>rowset.c\<close>: a list of row numbers that is sorted by merging when it is read in
  order, and a forest of search trees for the question whether a number was inserted before the
  last change of the batch. An entry belongs to one list or one tree at a time, so that a list linked
  by \<open>pRight\<close> is the list of its numbers and a tree is a value; the null pointer is the empty list or
  \<open>No_entry\<close>. A row number is only compared. Reading a null pointer, a failing assertion and a read
  behind the array of buckets are \<open>Undef\<close>. The allocator is an argument, as for the bit vectors.
\<close>

section \<open>State\<close>

datatype RowSetEntry = No_entry | RowSetEntry RowSetEntry int RowSetEntry

text \<open>The fields of an entry of a tree are \<open>pLeft\<close>, \<open>v\<close> and \<open>pRight\<close>, with pointers of eight bytes.\<close>

definition ROWSET_ALLOCATION_SIZE :: nat where "ROWSET_ALLOCATION_SIZE = 1024"

definition ROWSET_ENTRY_PER_CHUNK :: nat where
  "ROWSET_ENTRY_PER_CHUNK = (ROWSET_ALLOCATION_SIZE - 8) div 24"

text \<open>The chunks are counted; \<open>rs_pLast\<close> is the number in the last entry of the list. An entry of
  the forest is the tree at its \<open>pLeft\<close>.\<close>

record RowSet =
  rs_pChunk :: nat
  rs_pEntry :: "int list"
  rs_pLast :: "int option"
  rs_nFresh :: nat
  rs_pForest :: "RowSetEntry list"
  rs_ROWSET_SORTED :: bool
  rs_ROWSET_NEXT :: bool
  rs_iBatch :: int

text \<open>\<open>N\<close> is the size of the allocation, as \<open>sqlite3DbMallocSize\<close> says.\<close>

definition sqlite3RowSetInit :: "(nat \<Rightarrow> bool) \<Rightarrow> nat \<Rightarrow> nat \<Rightarrow> RowSet option \<times> nat" where
  "sqlite3RowSetInit malloc N n =
     (if malloc n then
        Some \<lparr>rs_pChunk = 0, rs_pEntry = [], rs_pLast = None, rs_nFresh = (N - 56) div 24 mod 2 ^ 16, rs_pForest = [],
          rs_ROWSET_SORTED = True, rs_ROWSET_NEXT = False, rs_iBatch = 0\<rparr>
      else None, n + 1)"

definition sqlite3RowSetClear :: "RowSet \<Rightarrow> RowSet" where
  "sqlite3RowSetClear p =
     p\<lparr>rs_pChunk := 0, rs_nFresh := 0, rs_pEntry := [], rs_pLast := None, rs_pForest := [],
       rs_ROWSET_SORTED := True, rs_ROWSET_NEXT := False\<rparr>"

definition rowSetEntryAlloc :: "(nat \<Rightarrow> bool) \<Rightarrow> RowSet \<Rightarrow> nat \<Rightarrow> bool \<times> RowSet \<times> nat" where
  "rowSetEntryAlloc malloc p n =
     (if rs_nFresh p = 0 then
        (if \<not> malloc n then (False, p, n + 1)
         else (True, p\<lparr>rs_pChunk := rs_pChunk p + 1, rs_nFresh := ROWSET_ENTRY_PER_CHUNK - 1\<rparr>, n + 1))
      else (True, p\<lparr>rs_nFresh := rs_nFresh p - 1\<rparr>, n))"

definition sqlite3RowSetInsert :: "(nat \<Rightarrow> bool) \<Rightarrow> RowSet \<Rightarrow> int \<Rightarrow> nat \<Rightarrow> (RowSet \<times> nat) res" where
  "sqlite3RowSetInsert malloc p rowid n =
     (if rs_ROWSET_NEXT p then Undef
      else
        (case rowSetEntryAlloc malloc p n of
           (False, p, n) \<Rightarrow> Ok (p, n)
         | (True, p, n) \<Rightarrow>
             (case rs_pLast p of
                Some v \<Rightarrow>
                  Ok (p\<lparr>rs_ROWSET_SORTED := rs_ROWSET_SORTED p \<and> \<not> rowid \<le> v, rs_pEntry := rs_pEntry p @ [rowid],
                        rs_pLast := Some rowid\<rparr>, n)
              | None \<Rightarrow> Ok (p\<lparr>rs_pEntry := [rowid], rs_pLast := Some rowid\<rparr>, n))))"

section \<open>Sorting\<close>

fun rowSetEntryMerge :: "int list \<Rightarrow> int list \<Rightarrow> int list res" where
  "rowSetEntryMerge (a # pA) (b # pB) =
     (if a \<le> b then
        map_res (append (if a < b then [a] else []))
          (if pA = [] then Ok (b # pB) else rowSetEntryMerge pA (b # pB))
      else map_res (Cons b) (if pB = [] then Ok (a # pA) else rowSetEntryMerge (a # pA) pB))"
| "rowSetEntryMerge _ _ = Undef"

text \<open>The loop over the buckets for one entry, the one over the entries, and the last merges.\<close>

fun bucket_put :: "int list list \<Rightarrow> int list \<Rightarrow> int list list res" where
  "bucket_put [] pIn = Undef"
| "bucket_put (b # aBucket) pIn =
     (if b = [] then Ok (pIn # aBucket)
      else bind_res (rowSetEntryMerge b pIn) (\<lambda>pIn. map_res (Cons []) (bucket_put aBucket pIn)))"

fun bucket_loop :: "int list list \<Rightarrow> int list \<Rightarrow> int list list res" where
  "bucket_loop aBucket [] = Ok aBucket"
| "bucket_loop aBucket (v # pNext) = bind_res (bucket_put aBucket [v]) (\<lambda>aBucket. bucket_loop aBucket pNext)"

fun bucket_join :: "int list \<Rightarrow> int list list \<Rightarrow> int list res" where
  "bucket_join pIn [] = Ok pIn"
| "bucket_join pIn (b # aBucket) =
     (if b = [] then bucket_join pIn aBucket
      else bind_res (if pIn \<noteq> [] then rowSetEntryMerge pIn b else Ok b) (\<lambda>pIn. bucket_join pIn aBucket))"

definition rowSetEntrySort :: "int list \<Rightarrow> int list res" where
  "rowSetEntrySort pIn =
     bind_res (bucket_loop (replicate 40 []) pIn) (\<lambda>aBucket. bucket_join (hd aBucket) (tl aBucket))"

section \<open>Trees\<close>

fun rowSetTreeToList :: "RowSetEntry \<Rightarrow> int list res" where
  "rowSetTreeToList No_entry = Undef"
| "rowSetTreeToList (RowSetEntry l v r) =
     bind_res (if l \<noteq> No_entry then rowSetTreeToList l else Ok []) (\<lambda>xs.
     map_res (\<lambda>ys. xs @ v # ys) (if r \<noteq> No_entry then rowSetTreeToList r else Ok []))"

function rowSetNDeepTree :: "int list \<Rightarrow> nat \<Rightarrow> RowSetEntry \<times> int list" where
  "rowSetNDeepTree ppList iDepth =
     (case ppList of
        [] \<Rightarrow> (No_entry, [])
      | v # pRight \<Rightarrow>
          if iDepth > 1 then
            (case rowSetNDeepTree ppList (iDepth - 1) of
               (pLeft, []) \<Rightarrow> (pLeft, [])
             | (pLeft, v # pRight) \<Rightarrow>
                 (case rowSetNDeepTree pRight (iDepth - 1) of (r, ppList) \<Rightarrow> (RowSetEntry pLeft v r, ppList)))
          else (RowSetEntry No_entry v No_entry, pRight))"
  by pat_completeness auto
termination
  by (relation "measure snd") auto

declare rowSetNDeepTree.simps [simp del]

lemma NDeep_simps:
  "rowSetNDeepTree [] d = (No_entry, [])"
  "\<not> 1 < d \<Longrightarrow> rowSetNDeepTree (v # vs) d = (RowSetEntry No_entry v No_entry, vs)"
  "1 < d \<Longrightarrow> rowSetNDeepTree (v # vs) d =
    (case rowSetNDeepTree (v # vs) (d - 1) of
       (l, []) \<Rightarrow> (l, [])
     | (l, w # rest) \<Rightarrow> (case rowSetNDeepTree rest (d - 1) of (r, rest) \<Rightarrow> (RowSetEntry l w r, rest)))"
  by (subst rowSetNDeepTree.simps, simp)+

lemma rowSetNDeepTree_shorter: "length (snd (rowSetNDeepTree xs d)) \<le> length xs"
proof (induction d arbitrary: xs rule: less_induct)
  case (less d)
  show ?case
  proof (cases "\<exists>v vs. xs = v # vs \<and> 1 < d")
    case True
    then obtain v vs where x: "xs = v # vs" "1 < d" by blast
    then have d: "d - 1 < d" by simp
    obtain l rest where l: "rowSetNDeepTree xs (d - 1) = (l, rest)" by (rule prod.exhaust)
    have "length rest \<le> length xs" using less.IH [OF d, of xs] l by simp
    moreover have "length (snd (rowSetNDeepTree (tl rest) (d - 1))) \<le> length (tl rest)" by (rule less.IH [OF d])
    ultimately show ?thesis using l x(2) unfolding x(1) by (cases rest) (auto simp: NDeep_simps(3) split: prod.splits)
  next
    case False
    then show ?thesis by (cases xs) (simp_all add: NDeep_simps(1,2))
  qed
qed

lemma NDeep_rest: "rowSetNDeepTree xs d = (t, rest) \<Longrightarrow> length rest \<le> length xs"
  using rowSetNDeepTree_shorter [of xs d] by simp

function tree_loop :: "nat \<Rightarrow> RowSetEntry \<Rightarrow> int list \<Rightarrow> RowSetEntry" where
  "tree_loop iDepth p [] = p"
| "tree_loop iDepth p (v # pList) =
     (case rowSetNDeepTree pList iDepth of (pRight, pList) \<Rightarrow> tree_loop (iDepth + 1) (RowSetEntry p v pRight) pList)"
  by pat_completeness auto
termination
  by (relation "measure (\<lambda>(d, p, xs). length xs)")
    (auto simp: less_Suc_eq_le dest!: sym [of "(_, _)"] NDeep_rest)

fun rowSetListToTree :: "int list \<Rightarrow> RowSetEntry res" where
  "rowSetListToTree [] = Undef"
| "rowSetListToTree (v # pList) = Ok (tree_loop 1 (RowSetEntry No_entry v No_entry) pList)"

section \<open>Reading\<close>

definition rowset_first_next :: "RowSet \<Rightarrow> RowSet res" where
  "rowset_first_next p =
     map_res (\<lambda>e. p\<lparr>rs_pEntry := e, rs_ROWSET_SORTED := True, rs_ROWSET_NEXT := True\<rparr>)
       (if rs_ROWSET_SORTED p then Ok (rs_pEntry p) else rowSetEntrySort (rs_pEntry p))"

definition sqlite3RowSetNext :: "RowSet \<Rightarrow> (int option \<times> RowSet) res" where
  "sqlite3RowSetNext p =
     (if rs_pForest p \<noteq> [] then Undef
      else
        map_res (\<lambda>p.
          case rs_pEntry p of
            [] \<Rightarrow> (None, p)
          | v # pRight \<Rightarrow>
              (Some v,
               if pRight = [] then sqlite3RowSetClear (p\<lparr>rs_pEntry := pRight\<rparr>) else p\<lparr>rs_pEntry := pRight\<rparr>))
          (if rs_ROWSET_NEXT p then Ok p else rowset_first_next p))"

text \<open>The loop over the forest: the forest, and the list when no tree of it was empty.\<close>

fun forest_loop :: "RowSetEntry list \<Rightarrow> int list \<Rightarrow> (RowSetEntry list \<times> int list option) res" where
  "forest_loop [] p = Ok ([], Some p)"
| "forest_loop (t # pForest) p =
     (if t = No_entry then map_res (\<lambda>t. (t # pForest, None)) (rowSetListToTree p)
      else
        bind_res (rowSetTreeToList t) (\<lambda>pAux.
        bind_res (rowSetEntryMerge pAux p) (\<lambda>p.
        map_res (\<lambda>(pForest, r). (No_entry # pForest, r)) (forest_loop pForest p))))"

fun tree_search :: "RowSetEntry \<Rightarrow> int \<Rightarrow> bool" where
  "tree_search No_entry iRowid = False"
| "tree_search (RowSetEntry l v r) iRowid =
     (if v < iRowid then tree_search r iRowid else if v > iRowid then tree_search l iRowid else True)"

definition rowset_new_batch :: "(nat \<Rightarrow> bool) \<Rightarrow> RowSet \<Rightarrow> nat \<Rightarrow> (RowSet \<times> nat) res" where
  "rowset_new_batch malloc p n =
     bind_res (if rs_ROWSET_SORTED p then Ok (rs_pEntry p) else rowSetEntrySort (rs_pEntry p)) (\<lambda>xs.
     bind_res (forest_loop (rs_pForest p) xs) (\<lambda>(forest, r).
     map_res (\<lambda>(p, n). (p\<lparr>rs_pEntry := [], rs_pLast := None, rs_ROWSET_SORTED := True\<rparr>, n))
       (case r of
          None \<Rightarrow> Ok (p\<lparr>rs_pForest := forest\<rparr>, n)
        | Some xs \<Rightarrow>
            (case rowSetEntryAlloc malloc (p\<lparr>rs_pForest := forest\<rparr>) n of
               (False, p, n) \<Rightarrow> Ok (p, n)
             | (True, p, n) \<Rightarrow> map_res (\<lambda>t. (p\<lparr>rs_pForest := forest @ [t]\<rparr>, n)) (rowSetListToTree xs)))))"

definition sqlite3RowSetTest :: "(nat \<Rightarrow> bool) \<Rightarrow> RowSet \<Rightarrow> int \<Rightarrow> int \<Rightarrow> nat \<Rightarrow> (bool \<times> RowSet \<times> nat) res" where
  "sqlite3RowSetTest malloc p iBatch iRowid n =
     (if rs_ROWSET_NEXT p then Undef
      else
        map_res (\<lambda>(p, n). (list_ex (\<lambda>t. tree_search t iRowid) (rs_pForest p), p, n))
          (if iBatch = rs_iBatch p then Ok (p, n)
           else
             map_res (\<lambda>(p, n). (p\<lparr>rs_iBatch := iBatch\<rparr>, n))
               (if rs_pEntry p = [] then Ok (p, n) else rowset_new_batch malloc p n)))"

section \<open>Sorting is right\<close>

abbreviation increasing :: "int list \<Rightarrow> bool" where "increasing \<equiv> sorted_wrt (<)"

text \<open>A list without null pointer, in order and without repetitions, for a set.\<close>

definition lists_set :: "int list \<Rightarrow> int set \<Rightarrow> bool" where
  "lists_set xs S \<longleftrightarrow> increasing xs \<and> set xs = S"

lemma lists_set_unique: "lists_set xs S \<Longrightarrow> xs = sorted_list_of_set S"
  by (auto simp: lists_set_def sorted_list_of_set.idem_if_sorted_distinct strict_sorted_iff)

lemma merge_ok:
  assumes "lists_set xs S" and "lists_set ys T" and "xs \<noteq> []" and "ys \<noteq> []"
  shows "\<exists>zs. rowSetEntryMerge xs ys = Ok zs \<and> lists_set zs (S \<union> T) \<and> zs \<noteq> []"
  using assms
proof (induction xs ys arbitrary: S T rule: rowSetEntryMerge.induct)
  case (1 a pA b pB)
  have a: "lists_set pA (set pA)" "\<forall>x \<in> set pA. a < x" "S = insert a (set pA)" using 1(3) by (auto simp: lists_set_def)
  have b: "lists_set pB (set pB)" "\<forall>x \<in> set pB. b < x" "T = insert b (set pB)" using 1(4) by (auto simp: lists_set_def)
  show ?case
  proof (cases "a \<le> b")
    case ab: True
    have "\<exists>zs. (if pA = [] then Ok (b # pB) else rowSetEntryMerge pA (b # pB)) = Ok zs \<and> lists_set zs (set pA \<union> T) \<and> zs \<noteq> []"
    proof (cases "pA = []")
      case True
      then show ?thesis using 1(4) by simp
    next
      case False
      then show ?thesis using 1(1) [OF ab False a(1) 1(4)] by simp
    qed
    then obtain zs where zs: "(if pA = [] then Ok (b # pB) else rowSetEntryMerge pA (b # pB)) = Ok zs"
      "lists_set zs (set pA \<union> T)" "zs \<noteq> []" by blast
    have "lists_set ((if a < b then [a] else []) @ zs) (S \<union> T)"
      using zs(2) ab a(2,3) b(2,3) by (auto simp: lists_set_def)
    then show ?thesis using ab zs(1,3) by (simp del: append_assoc)
  next
    case ab: False
    have "\<exists>zs. (if pB = [] then Ok (a # pA) else rowSetEntryMerge (a # pA) pB) = Ok zs \<and> lists_set zs (S \<union> set pB) \<and> zs \<noteq> []"
    proof (cases "pB = []")
      case True
      then show ?thesis using 1(3) by simp
    next
      case False
      then show ?thesis using 1(2) [OF ab False 1(3) b(1)] by simp
    qed
    then obtain zs where zs: "(if pB = [] then Ok (a # pA) else rowSetEntryMerge (a # pA) pB) = Ok zs"
      "lists_set zs (S \<union> set pB)" "zs \<noteq> []" by blast
    have "lists_set (b # zs) (S \<union> T)"
      using zs(2) ab a(2,3) b(2,3) by (auto simp: lists_set_def)
    then show ?thesis using ab zs(1) by simp
  qed
qed simp_all

text \<open>The buckets in use are the digits of the number of entries that were put in.\<close>

fun used :: "int list list \<Rightarrow> nat" where
  "used [] = 0"
| "used (b # bs) = (if b = [] then 0 else 1) + 2 * used bs"

definition buckets :: "int list list \<Rightarrow> int set \<Rightarrow> bool" where
  "buckets bs S \<longleftrightarrow> (\<forall>b \<in> set bs. increasing b) \<and> \<Union> (set ` set bs) = S"

lemma bucket_put_ok:
  assumes "buckets bs S" and "used bs + 1 < 2 ^ length bs" and "lists_set xs T" and "xs \<noteq> []"
  shows "\<exists>bs'. bucket_put bs xs = Ok bs' \<and> buckets bs' (S \<union> T) \<and> used bs' = used bs + 1 \<and> length bs' = length bs"
  using assms
proof (induction bs arbitrary: xs S T)
  case (Cons b bs)
  let ?R = "\<Union> (set ` set bs)"
  have S: "S = set b \<union> ?R" "increasing b" "buckets bs ?R" using Cons.prems(1) by (auto simp: buckets_def)
  show ?case
  proof (cases "b = []")
    case True
    then show ?thesis using Cons.prems by (auto simp: buckets_def lists_set_def)
  next
    case False
    obtain zs where zs: "rowSetEntryMerge b xs = Ok zs" "lists_set zs (set b \<union> T)" "zs \<noteq> []"
      using merge_ok [of b "set b" xs T] S(2) Cons.prems(3,4) False by (auto simp: lists_set_def)
    have u: "used bs + 1 < 2 ^ length bs" using Cons.prems(2) False by simp
    obtain bs' where b': "bucket_put bs zs = Ok bs'" "buckets bs' (?R \<union> (set b \<union> T))" "used bs' = used bs + 1" "length bs' = length bs"
      using Cons.IH [OF S(3) u zs(2,3)] by blast
    have "buckets ([] # bs') (S \<union> T)" using b'(2) unfolding S(1) by (auto simp: buckets_def)
    then show ?thesis using False zs(1) b'(1,3,4) by simp
  qed
qed simp

lemma bucket_loop_ok:
  assumes "buckets bs S" and "used bs + length xs < 2 ^ length bs"
  shows "\<exists>bs'. bucket_loop bs xs = Ok bs' \<and> buckets bs' (S \<union> set xs) \<and> length bs' = length bs"
  using assms
proof (induction xs arbitrary: bs S)
  case (Cons v xs)
  have "lists_set [v] {v}" by (simp add: lists_set_def)
  with Cons.prems obtain bs' where b: "bucket_put bs [v] = Ok bs'" "buckets bs' (S \<union> {v})" "used bs' = used bs + 1" "length bs' = length bs"
    using bucket_put_ok [OF Cons.prems(1), of "[v]" "{v}"] by auto
  obtain bs'' where "bucket_loop bs' xs = Ok bs''" "buckets bs'' (S \<union> {v} \<union> set xs)" "length bs'' = length bs'"
    using Cons.IH [OF b(2)] b(3,4) Cons.prems(2) by auto
  moreover have "S \<union> {v} \<union> set xs = S \<union> set (v # xs)" by auto
  ultimately show ?case using b(1,4) by simp
qed simp

lemma bucket_join_ok:
  assumes "buckets bs S" and "lists_set xs T"
  shows "\<exists>zs. bucket_join xs bs = Ok zs \<and> lists_set zs (T \<union> S)"
  using assms
proof (induction bs arbitrary: xs S T)
  case (Cons b bs)
  let ?R = "\<Union> (set ` set bs)"
  have S: "S = set b \<union> ?R" "increasing b" "buckets bs ?R" using Cons.prems(1) by (auto simp: buckets_def)
  have b: "lists_set b (set b)" using S(2) by (simp add: lists_set_def)
  have "\<exists>zs. (if b = [] then Ok xs else if xs \<noteq> [] then rowSetEntryMerge xs b else Ok b) = Ok zs \<and> lists_set zs (T \<union> set b)"
    using merge_ok [OF Cons.prems(2) b] b Cons.prems(2) by (auto simp: lists_set_def)
  then obtain zs where zs: "(if b = [] then Ok xs else if xs \<noteq> [] then rowSetEntryMerge xs b else Ok b) = Ok zs"
    "lists_set zs (T \<union> set b)" by blast
  have "bucket_join xs (b # bs) = bucket_join zs bs" using zs(1) by (auto split: if_splits)
  then show ?case using Cons.IH [OF S(3) zs(2)] unfolding S(1) by (simp add: Un_assoc)
qed (simp add: buckets_def)

lemma sort_ok:
  assumes "length xs < 2 ^ 40"
  shows "\<exists>ys. rowSetEntrySort xs = Ok ys \<and> lists_set ys (set xs)"
proof -
  have "used (replicate k []) = 0" for k by (induction k) simp_all
  moreover have "buckets (replicate 40 []) {}" by (simp add: buckets_def)
  ultimately obtain bs where bs: "bucket_loop (replicate 40 []) xs = Ok bs" "buckets bs (set xs)" "length bs = 40"
    using bucket_loop_ok [of "replicate 40 []" "{}" xs] assms by auto
  then obtain b cs where cs: "bs = b # cs" by (cases bs) auto
  have "buckets cs (\<Union> (set ` set cs))" "lists_set b (set b)" "set xs = set b \<union> \<Union> (set ` set cs)"
    using bs(2) unfolding cs by (auto simp: buckets_def lists_set_def)
  then show ?thesis using bucket_join_ok [of cs "\<Union> (set ` set cs)" b "set b"] bs(1) cs by (simp add: rowSetEntrySort_def)
qed

section \<open>Trees are search trees\<close>

fun tree_set :: "RowSetEntry \<Rightarrow> int set" where
  "tree_set No_entry = {}"
| "tree_set (RowSetEntry l v r) = tree_set l \<union> {v} \<union> tree_set r"

fun search_tree :: "RowSetEntry \<Rightarrow> bool" where
  "search_tree No_entry = True"
| "search_tree (RowSetEntry l v r) \<longleftrightarrow>
     search_tree l \<and> search_tree r \<and> (\<forall>x \<in> tree_set l. x < v) \<and> (\<forall>x \<in> tree_set r. v < x)"

fun depth :: "RowSetEntry \<Rightarrow> nat" where
  "depth No_entry = 0"
| "depth (RowSetEntry l v r) = 1 + max (depth l) (depth r)"

lemma tree_set_empty [simp]: "tree_set t = {} \<longleftrightarrow> t = No_entry"
  by (cases t) simp_all

lemma tree_search_ok: "search_tree t \<Longrightarrow> tree_search t v \<longleftrightarrow> v \<in> tree_set t"
  by (induction t) auto

lemma tree_list_ok: "search_tree t \<Longrightarrow> t \<noteq> No_entry \<Longrightarrow> \<exists>xs. rowSetTreeToList t = Ok xs \<and> lists_set xs (tree_set t) \<and> xs \<noteq> []"
proof (induction t)
  case (RowSetEntry l v r)
  have "\<exists>xs. (if l \<noteq> No_entry then rowSetTreeToList l else Ok []) = Ok xs \<and> lists_set xs (tree_set l)"
    using RowSetEntry.IH(1) RowSetEntry.prems(1) by (cases "l = No_entry") (auto simp: lists_set_def)
  moreover have "\<exists>ys. (if r \<noteq> No_entry then rowSetTreeToList r else Ok []) = Ok ys \<and> lists_set ys (tree_set r)"
    using RowSetEntry.IH(2) RowSetEntry.prems(1) by (cases "r = No_entry") (auto simp: lists_set_def)
  ultimately obtain xs ys where
    "(if l \<noteq> No_entry then rowSetTreeToList l else Ok []) = Ok xs" "lists_set xs (tree_set l)"
    "(if r \<noteq> No_entry then rowSetTreeToList r else Ok []) = Ok ys" "lists_set ys (tree_set r)" by blast
  note parts = this
  then have "lists_set (xs @ v # ys) (tree_set (RowSetEntry l v r))"
    using RowSetEntry.prems(1) by (auto simp: lists_set_def sorted_wrt_append intro: less_trans [of _ v])
  moreover have "rowSetTreeToList (RowSetEntry l v r) = Ok (xs @ v # ys)" using parts(1,3) by simp
  ultimately show ?case by simp
qed simp

text \<open>A tree of a given depth takes a first part of the list, all of it when the depth is not filled.\<close>

lemma NDeep_ok:
  "rowSetNDeepTree xs d = (t, rest) \<Longrightarrow> increasing xs \<Longrightarrow> 0 < d \<Longrightarrow>
   \<exists>ys. xs = ys @ rest \<and> search_tree t \<and> tree_set t = set ys \<and> depth t \<le> d \<and> (rest = [] \<or> length ys + 1 = 2 ^ d)"
proof (induction d arbitrary: xs t rest rule: less_induct)
  case (less d)
  show ?case
  proof (cases xs)
    case Nil
    then show ?thesis using less.prems(1) by (auto simp: NDeep_simps(1))
  next
    case (Cons v vs)
    show ?thesis
    proof (cases "1 < d")
      case False
      then have "d = 1" using less.prems(3) by simp
      then show ?thesis using less.prems Cons by (auto simp: NDeep_simps(2) intro!: exI [of _ "[v]"])
    next
      case d: True
      then have d1: "d - 1 < d" "0 < d - 1" by simp_all
      obtain l ls where l: "rowSetNDeepTree xs (d - 1) = (l, ls)" by (rule prod.exhaust)
      obtain as where a: "xs = as @ ls" "search_tree l" "tree_set l = set as" "depth l \<le> d - 1" "ls = [] \<or> length as + 1 = 2 ^ (d - 1)"
        using less.IH [OF d1(1) l less.prems(2) d1(2)] by blast
      show ?thesis
      proof (cases ls)
        case Nil
        then have "t = l" "rest = []" using less.prems(1) l d unfolding Cons by (simp_all add: NDeep_simps(3))
        then show ?thesis using a Nil by (intro exI [of _ as]) auto
      next
        case (Cons w ws)
        obtain r rs where r: "rowSetNDeepTree ws (d - 1) = (r, rs)" by (rule prod.exhaust)
        have t: "t = RowSetEntry l w r" "rest = rs"
          using less.prems(1) l d r Cons unfolding \<open>xs = v # vs\<close> by (simp_all add: NDeep_simps(3))
        have ws: "increasing ws" "\<forall>x \<in> set as. x < w" "\<forall>x \<in> set ws. w < x"
          using less.prems(2) unfolding a(1) Cons by (auto simp: sorted_wrt_append)
        obtain bs where b: "ws = bs @ rs" "search_tree r" "tree_set r = set bs" "depth r \<le> d - 1" "rs = [] \<or> length bs + 1 = 2 ^ (d - 1)"
          using less.IH [OF d1(1) r ws(1) d1(2)] by blast
        have "2 ^ d = 2 * (2 :: nat) ^ (d - 1)" using d by (cases d) simp_all
        then show ?thesis using t a b ws Cons d
          by (intro exI [of _ "as @ w # bs"]) auto
      qed
    qed
  qed
qed

text \<open>The loop doubles the tree: below depth \<open>d\<close> it is full.\<close>

lemma tree_loop_ok:
  assumes "search_tree p" and "0 < d" and "depth p \<le> d" and "card (tree_set p) + 1 = 2 ^ d" and "increasing xs"
    and "\<forall>x \<in> tree_set p. \<forall>y \<in> set xs. x < y"
  shows "search_tree (tree_loop d p xs) \<and> tree_set (tree_loop d p xs) = tree_set p \<union> set xs \<and>
    2 ^ (depth (tree_loop d p xs) - 1) \<le> card (tree_set p) + length xs"
  using assms
proof (induction d p xs rule: tree_loop.induct)
  case (1 d p)
  have "(2 :: nat) ^ (depth p - 1) \<le> 2 ^ (d - 1)" using 1(3) by (intro power_increasing) simp_all
  moreover have "2 ^ d = 2 * (2 :: nat) ^ (d - 1)" using 1(2) by (cases d) simp_all
  ultimately have "2 ^ (depth p - 1) \<le> card (tree_set p)"
    using 1(4) zero_less_power [of "2 :: nat" "d - 1"] by linarith
  then show ?case using 1(1) by simp
next
  case (2 d p v vs)
  obtain r rest where r: "rowSetNDeepTree vs d = (r, rest)" by (rule prod.exhaust)
  have vs: "increasing vs" "\<forall>x \<in> set vs. v < x" using 2(6) by simp_all
  obtain ys where y: "vs = ys @ rest" "search_tree r" "tree_set r = set ys" "depth r \<le> d" "rest = [] \<or> length ys + 1 = 2 ^ d"
    using NDeep_ok [OF r vs(1) 2(3)] by blast
  have ord: "increasing ys" "increasing rest" "\<forall>x \<in> set ys. \<forall>z \<in> set rest. x < z" "\<forall>x \<in> set ys. v < x" "\<forall>x \<in> set rest. v < x"
    using vs unfolding y(1) by (auto simp: sorted_wrt_append)
  let ?p = "RowSetEntry p v r"
  have p: "search_tree ?p" "depth ?p \<le> d + 1" "tree_set ?p = tree_set p \<union> insert v (set ys)"
    using 2(2,4,7) y(2-4) ord(4) by auto
  have fin: "finite (tree_set p)" for p by (induction p) simp_all
  have card: "card (tree_set ?p) = card (tree_set p) + 1 + length ys"
  proof -
    have "distinct ys" using ord(1) by (simp add: strict_sorted_iff)
    moreover have "tree_set p \<inter> insert v (set ys) = {}" "v \<notin> set ys" using 2(7) ord(4) y(1) by fastforce+
    ultimately show ?thesis unfolding p(3) using fin by (simp add: card_Un_disjoint distinct_card)
  qed
  show ?case
  proof (cases "rest = []")
    case True
    have "(2 :: nat) ^ (depth ?p - 1) \<le> 2 ^ d" using p(2) by (intro power_increasing) simp_all
    then have "2 ^ (depth ?p - 1) \<le> card (tree_set p) + length (v # vs)" using 2(5) le_add1 [of 1 "length vs"] by (simp only: list.size)
    moreover have "tree_loop d p (v # vs) = ?p" using r True by simp
    moreover have "tree_set ?p = tree_set p \<union> set (v # vs)" using p(3) y(1) True by simp
    ultimately show ?thesis using p(1) by simp
  next
    case False
    then have "card (tree_set ?p) + 1 = 2 ^ (d + 1)" using y(5) card 2(5) by simp
    moreover have "\<forall>x \<in> tree_set ?p. \<forall>z \<in> set rest. x < z" using p(3) ord(3,5) 2(7) y(1) by auto
    ultimately have "search_tree (tree_loop (d + 1) ?p rest)"
      "tree_set (tree_loop (d + 1) ?p rest) = tree_set ?p \<union> set rest"
      "2 ^ (depth (tree_loop (d + 1) ?p rest) - 1) \<le> card (tree_set ?p) + length rest"
      using 2(1) [OF r [symmetric] p(1) _ p(2) _ ord(2)] by simp_all
    then show ?thesis using r card y(1) p(3) by auto
  qed
qed

lemma list_tree_ok:
  assumes "lists_set xs S" and "xs \<noteq> []"
  shows "\<exists>t. rowSetListToTree xs = Ok t \<and> search_tree t \<and> tree_set t = S \<and> 2 ^ (depth t - 1) \<le> length xs \<and> t \<noteq> No_entry"
proof -
  obtain v vs where x: "xs = v # vs" using assms(2) by (cases xs) auto
  have "increasing vs" "\<forall>y \<in> set vs. v < y" "S = insert v (set vs)" using assms(1) unfolding x by (auto simp: lists_set_def)
  then show ?thesis using tree_loop_ok [of "RowSetEntry No_entry v No_entry" 1 vs] unfolding x
    by (auto simp flip: tree_set_empty)
qed

section \<open>The interface\<close>

text \<open>What the caller sees: numbers are added to the batch, and a test with another batch number than the last one
  first makes the batch visible.\<close>

datatype rowset_call = Add_row int | Test_row int int

fun added :: "rowset_call list \<Rightarrow> nat" where
  "added [] = 0"
| "added (Add_row v # cs) = Suc (added cs)"
| "added (Test_row b v # cs) = added cs"

fun batch_answers :: "rowset_call list \<Rightarrow> int set \<Rightarrow> int set \<Rightarrow> int \<Rightarrow> bool list" where
  "batch_answers [] old new batch = []"
| "batch_answers (Add_row v # cs) old new batch = batch_answers cs old (insert v new) batch"
| "batch_answers (Test_row b v # cs) old new batch =
     (if b = batch then (v \<in> old) # batch_answers cs old new b
      else (v \<in> old \<union> new) # batch_answers cs (old \<union> new) {} b)"

fun run_calls :: "('s \<Rightarrow> int \<Rightarrow> 's res) \<Rightarrow> ('s \<Rightarrow> int \<Rightarrow> int \<Rightarrow> (bool \<times> 's) res) \<Rightarrow> rowset_call list \<Rightarrow> 's \<Rightarrow> bool list res" where
  "run_calls put test [] s = Ok []"
| "run_calls put test (Add_row v # cs) s = bind_res (put s v) (run_calls put test cs)"
| "run_calls put test (Test_row b v # cs) s = bind_res (test s b v) (\<lambda>(a, s). map_res (Cons a) (run_calls put test cs s))"

text \<open>The contract; a provider that is not reliable may lose numbers, but does not invent any.\<close>

locale batched_set =
  fixes reliable :: bool and good :: "nat \<Rightarrow> 's \<Rightarrow> bool" and old :: "'s \<Rightarrow> int set" and new :: "'s \<Rightarrow> int set"
    and batch :: "'s \<Rightarrow> int" and put :: "'s \<Rightarrow> int \<Rightarrow> 's res" and test :: "'s \<Rightarrow> int \<Rightarrow> int \<Rightarrow> (bool \<times> 's) res"
  assumes put_law: "good (Suc k) s \<Longrightarrow>
      \<exists>s'. put s v = Ok s' \<and> good k s' \<and> batch s' = batch s \<and> old s' = old s \<and> new s' \<subseteq> insert v (new s) \<and>
        (reliable \<longrightarrow> new s' = insert v (new s))"
    and test_law: "good k s \<Longrightarrow>
      \<exists>s'. test s b v = Ok (v \<in> old s', s') \<and> good k s' \<and> batch s' = b \<and>
        (if b = batch s then old s' = old s \<and> new s' = new s
         else old s' \<subseteq> old s \<union> new s \<and> new s' = {} \<and> (reliable \<longrightarrow> old s' = old s \<union> new s))"
begin

lemma run_calls_answers:
  "good (added cs) s \<Longrightarrow> old s \<subseteq> A \<Longrightarrow> new s \<subseteq> B \<Longrightarrow> reliable \<longrightarrow> old s = A \<and> new s = B \<Longrightarrow>
   \<exists>as. run_calls put test cs s = Ok as \<and> list_all2 (\<longrightarrow>) as (batch_answers cs A B (batch s)) \<and>
     (reliable \<longrightarrow> as = batch_answers cs A B (batch s))"
proof (induction cs arbitrary: s A B)
  case (Cons c cs)
  show ?case
  proof (cases c)
    case (Add_row v)
    then have "good (Suc (added cs)) s" using Cons.prems(1) by simp
    from put_law [OF this, of v] obtain s' where s': "put s v = Ok s'" "good (added cs) s'" "batch s' = batch s" "old s' = old s"
      "new s' \<subseteq> insert v (new s)" "reliable \<longrightarrow> new s' = insert v (new s)" by blast
    have "old s' \<subseteq> A" "new s' \<subseteq> insert v B" "reliable \<longrightarrow> old s' = A \<and> new s' = insert v B"
      using s'(4-6) Cons.prems(2-4) by auto
    from Cons.IH [OF s'(2) this] show ?thesis using Add_row s'(1,3) by simp
  next
    case (Test_row b v)
    then have "good (added cs) s" using Cons.prems(1) by simp
    from test_law [OF this, of b v] obtain s' where s': "test s b v = Ok (v \<in> old s', s')" "good (added cs) s'" "batch s' = b"
      "if b = batch s then old s' = old s \<and> new s' = new s
       else old s' \<subseteq> old s \<union> new s \<and> new s' = {} \<and> (reliable \<longrightarrow> old s' = old s \<union> new s)" by blast
    define A' B' where "A' = (if b = batch s then A else A \<union> B)" and "B' = (if b = batch s then B else {})"
    have sub: "old s' \<subseteq> A'" "new s' \<subseteq> B'" "reliable \<longrightarrow> old s' = A' \<and> new s' = B'"
      using s'(4) Cons.prems(2-4) unfolding A'_def B'_def by (auto split: if_splits)
    from Cons.IH [OF s'(2) this] obtain as where "run_calls put test cs s' = Ok as"
      "list_all2 (\<longrightarrow>) as (batch_answers cs A' B' b)" "reliable \<longrightarrow> as = batch_answers cs A' B' b" using s'(3) by auto
    moreover have "batch_answers (c # cs) A B (batch s) = (v \<in> A') # batch_answers cs A' B' b"
      using Test_row unfolding A'_def B'_def by simp
    ultimately show ?thesis using Test_row s'(1) sub(1,3) by auto
  qed
qed simp

end

section \<open>The row set keeps the contract\<close>

definition rowset_ok :: "nat \<Rightarrow> RowSet \<Rightarrow> bool" where
  "rowset_ok k p \<longleftrightarrow> \<not> rs_ROWSET_NEXT p \<and> (rs_ROWSET_SORTED p \<longrightarrow> increasing (rs_pEntry p)) \<and>
     rs_pLast p = (if rs_pEntry p = [] then None else Some (last (rs_pEntry p))) \<and>
     (\<forall>t \<in> set (rs_pForest p). search_tree t) \<and> length (rs_pEntry p) + k < 2 ^ 40"

definition rowset_old :: "RowSet \<Rightarrow> int set" where
  "rowset_old p = \<Union> (tree_set ` set (rs_pForest p))"

definition rowset_new :: "RowSet \<Rightarrow> int set" where
  "rowset_new p = set (rs_pEntry p)"

lemma alloc_fields:
  assumes "rowSetEntryAlloc malloc p n = (b, p', n')"
  shows "rs_pEntry p' = rs_pEntry p" "rs_pLast p' = rs_pLast p" "rs_pForest p' = rs_pForest p"
    "rs_ROWSET_SORTED p' = rs_ROWSET_SORTED p" "rs_ROWSET_NEXT p' = rs_ROWSET_NEXT p" "rs_iBatch p' = rs_iBatch p"
    "(\<forall>m. malloc m) \<longrightarrow> b"
  using assms by (auto simp: rowSetEntryAlloc_def split: if_splits)

lemma increasing_last: "increasing xs \<Longrightarrow> xs \<noteq> [] \<Longrightarrow> last xs < v \<Longrightarrow> increasing (xs @ [v])"
  by (cases xs rule: rev_cases) (auto simp: sorted_wrt_append)

lemma rowset_insert_ok:
  assumes "rowset_ok (Suc k) p"
  shows "\<exists>p' n'. sqlite3RowSetInsert malloc p v n = Ok (p', n') \<and> rowset_ok k p' \<and> rs_iBatch p' = rs_iBatch p \<and>
    rs_pForest p' = rs_pForest p \<and> rs_pEntry p' \<in> {rs_pEntry p, rs_pEntry p @ [v]} \<and>
    ((\<forall>m. malloc m) \<longrightarrow> rs_pEntry p' = rs_pEntry p @ [v])"
proof -
  obtain b q m where a: "rowSetEntryAlloc malloc p n = (b, q, m)" by (cases "rowSetEntryAlloc malloc p n") auto
  note q = alloc_fields [OF a]
  have p: "\<not> rs_ROWSET_NEXT p" "rs_ROWSET_SORTED p \<longrightarrow> increasing (rs_pEntry p)"
    "rs_pLast p = (if rs_pEntry p = [] then None else Some (last (rs_pEntry p)))"
    "\<forall>t \<in> set (rs_pForest p). search_tree t" "length (rs_pEntry p) + Suc k < 2 ^ 40" using assms by (auto simp: rowset_ok_def)
  show ?thesis
  proof (cases b)
    case False
    then show ?thesis using a p q by (simp add: sqlite3RowSetInsert_def rowset_ok_def)
  next
    case b: True
    show ?thesis
    proof (cases "rs_pEntry p = []")
      case True
      then show ?thesis using a b p q by (simp add: sqlite3RowSetInsert_def rowset_ok_def)
    next
      case False
      then show ?thesis using a b p q increasing_last [of "rs_pEntry p" v]
        by (simp add: sqlite3RowSetInsert_def rowset_ok_def not_le)
    qed
  qed
qed

abbreviation forest_set :: "RowSetEntry list \<Rightarrow> int set" where
  "forest_set ts \<equiv> \<Union> (tree_set ` set ts)"

lemma forest_loop_ok:
  assumes "\<forall>t \<in> set ts. search_tree t" and "lists_set xs S" and "xs \<noteq> []"
  shows "\<exists>ts' r. forest_loop ts xs = Ok (ts', r) \<and> (\<forall>t \<in> set ts'. search_tree t) \<and>
    (case r of
       None \<Rightarrow> forest_set ts' = S \<union> forest_set ts
     | Some ys \<Rightarrow> ys \<noteq> [] \<and> lists_set ys (S \<union> forest_set ts) \<and> forest_set ts' = {})"
  using assms
proof (induction ts arbitrary: xs S)
  case (Cons t ts)
  show ?case
  proof (cases "t = No_entry")
    case True
    obtain t' where "rowSetListToTree xs = Ok t'" "search_tree t'" "tree_set t' = S" using list_tree_ok [OF Cons.prems(2,3)] by blast
    then show ?thesis using True Cons.prems(1) by (intro exI [of _ "t' # ts"] exI [of _ None]) simp
  next
    case False
    obtain as where a: "rowSetTreeToList t = Ok as" "lists_set as (tree_set t)" "as \<noteq> []"
      using tree_list_ok [of t] Cons.prems(1) False by auto
    obtain ys where y: "rowSetEntryMerge as xs = Ok ys" "lists_set ys (tree_set t \<union> S)" "ys \<noteq> []"
      using merge_ok [OF a(2) Cons.prems(2) a(3) Cons.prems(3)] by blast
    have "\<forall>t \<in> set ts. search_tree t" using Cons.prems(1) by simp
    from Cons.IH [OF this y(2,3)] obtain ts' r where r: "forest_loop ts ys = Ok (ts', r)" "\<forall>t \<in> set ts'. search_tree t"
      "case r of
         None \<Rightarrow> forest_set ts' = tree_set t \<union> S \<union> forest_set ts
       | Some zs \<Rightarrow> zs \<noteq> [] \<and> lists_set zs (tree_set t \<union> S \<union> forest_set ts) \<and> forest_set ts' = {}" by blast
    have "tree_set t \<union> S \<union> forest_set ts = S \<union> forest_set (t # ts)" by auto
    then show ?thesis using False a(1) y(1) r by (intro exI [of _ "No_entry # ts'"] exI [of _ r]) (simp split: option.splits)
  qed
qed simp

lemma new_batch_ok:
  assumes "rowset_ok k p" and "rs_pEntry p \<noteq> []"
  shows "\<exists>p' n'. rowset_new_batch malloc p n = Ok (p', n') \<and> rowset_ok k p' \<and> rs_pEntry p' = [] \<and>
    rowset_old p' \<subseteq> rowset_old p \<union> rowset_new p \<and> ((\<forall>m. malloc m) \<longrightarrow> rowset_old p' = rowset_old p \<union> rowset_new p)"
proof -
  have p: "\<not> rs_ROWSET_NEXT p" "rs_ROWSET_SORTED p \<longrightarrow> increasing (rs_pEntry p)"
    "\<forall>t \<in> set (rs_pForest p). search_tree t" "length (rs_pEntry p) + k < 2 ^ 40" using assms(1) by (auto simp: rowset_ok_def)
  have "\<exists>xs. (if rs_ROWSET_SORTED p then Ok (rs_pEntry p) else rowSetEntrySort (rs_pEntry p)) = Ok xs \<and> lists_set xs (rowset_new p)"
    using p(2,4) sort_ok [of "rs_pEntry p"] by (auto simp: rowset_new_def lists_set_def)
  then obtain xs where xs: "(if rs_ROWSET_SORTED p then Ok (rs_pEntry p) else rowSetEntrySort (rs_pEntry p)) = Ok xs"
    "lists_set xs (rowset_new p)" by blast
  then have "xs \<noteq> []" using assms(2) by (auto simp: rowset_new_def lists_set_def)
  from forest_loop_ok [OF p(3) xs(2) this] obtain ts r where r: "forest_loop (rs_pForest p) xs = Ok (ts, r)"
    "\<forall>t \<in> set ts. search_tree t"
    "case r of
       None \<Rightarrow> forest_set ts = rowset_new p \<union> rowset_old p
     | Some ys \<Rightarrow> ys \<noteq> [] \<and> lists_set ys (rowset_new p \<union> rowset_old p) \<and> forest_set ts = {}"
    unfolding rowset_old_def by blast
  let ?q = "p\<lparr>rs_pForest := ts\<rparr>"
  show ?thesis
  proof (cases r)
    case None
    then show ?thesis using xs(1) r p(1,4) by (simp add: rowset_new_batch_def rowset_ok_def rowset_old_def Un_commute)
  next
    case (Some ys)
    obtain b q m where a: "rowSetEntryAlloc malloc ?q n = (b, q, m)" by (cases "rowSetEntryAlloc malloc ?q n") auto
    note q = alloc_fields [OF a]
    have ys: "ys \<noteq> []" "lists_set ys (rowset_new p \<union> rowset_old p)" "forest_set ts = {}" using r(3) Some by simp_all
    obtain t where t: "rowSetListToTree ys = Ok t" "search_tree t" "tree_set t = rowset_new p \<union> rowset_old p"
      using list_tree_ok [OF ys(2,1)] by blast
    show ?thesis
    proof (cases b)
      case False
      then show ?thesis using xs(1) r(1,2) Some a p(1,4) q ys(3) by (auto simp: rowset_new_batch_def rowset_ok_def rowset_old_def)
    next
      case True
      then show ?thesis using xs(1) r(1,2) Some a p(1,4) q ys(3) t by (auto simp: rowset_new_batch_def rowset_ok_def rowset_old_def)
    qed
  qed
qed

lemma batch_number [simp]:
  "rowset_ok k (p\<lparr>rs_iBatch := b\<rparr>) = rowset_ok k p" "rowset_old (p\<lparr>rs_iBatch := b\<rparr>) = rowset_old p"
  "rowset_new (p\<lparr>rs_iBatch := b\<rparr>) = rowset_new p"
  by (simp_all add: rowset_ok_def rowset_old_def rowset_new_def)

lemma rowset_test_ok:
  assumes "rowset_ok k p"
  shows "\<exists>p' n'. sqlite3RowSetTest malloc p b v n = Ok (v \<in> rowset_old p', p', n') \<and> rowset_ok k p' \<and> rs_iBatch p' = b \<and>
    (if b = rs_iBatch p then rowset_old p' = rowset_old p \<and> rowset_new p' = rowset_new p
     else rowset_old p' \<subseteq> rowset_old p \<union> rowset_new p \<and> rowset_new p' = {} \<and>
       ((\<forall>m. malloc m) \<longrightarrow> rowset_old p' = rowset_old p \<union> rowset_new p))"
proof -
  have run: "sqlite3RowSetTest malloc p b v n = Ok (v \<in> rowset_old q, q, m)"
    if "rowset_ok k q" "(if b = rs_iBatch p then Ok (p, n)
      else map_res (\<lambda>(p, n). (p\<lparr>rs_iBatch := b\<rparr>, n)) (if rs_pEntry p = [] then Ok (p, n) else rowset_new_batch malloc p n)) = Ok (q, m)"
    for q m
  proof -
    have "list_ex (\<lambda>t. tree_search t v) (rs_pForest q) \<longleftrightarrow> v \<in> rowset_old q"
      using that(1) tree_search_ok by (auto simp: rowset_ok_def rowset_old_def list_ex_iff)
    moreover have "\<not> rs_ROWSET_NEXT p" using assms by (simp add: rowset_ok_def)
    ultimately show ?thesis using that(2) by (simp only: sqlite3RowSetTest_def) simp
  qed
  consider (same) "b = rs_iBatch p" | (empty) "b \<noteq> rs_iBatch p" "rs_pEntry p = []" | (batch) "b \<noteq> rs_iBatch p" "rs_pEntry p \<noteq> []"
    by blast
  then show ?thesis
  proof cases
    case same
    have "sqlite3RowSetTest malloc p b v n = Ok (v \<in> rowset_old p, p, n)" by (rule run [OF assms]) (simp add: same)
    then show ?thesis unfolding if_P [OF same] using same assms by blast
  next
    case empty
    let ?q = "p\<lparr>rs_iBatch := b\<rparr>"
    have "rowset_ok k ?q" using assms by simp
    then have "sqlite3RowSetTest malloc p b v n = Ok (v \<in> rowset_old ?q, ?q, n)" by (rule run) (simp add: empty)
    moreover have "rowset_new p = {}" using empty by (simp add: rowset_new_def)
    ultimately show ?thesis using empty(1) assms by (intro exI [of _ ?q] exI [of _ n]) simp
  next
    case batch
    obtain q m where q: "rowset_new_batch malloc p n = Ok (q, m)" "rowset_ok k q" "rs_pEntry q = []"
      "rowset_old q \<subseteq> rowset_old p \<union> rowset_new p" "(\<forall>m. malloc m) \<longrightarrow> rowset_old q = rowset_old p \<union> rowset_new p"
      using new_batch_ok [OF assms batch(2), of malloc n] by blast
    let ?q = "q\<lparr>rs_iBatch := b\<rparr>"
    have "rowset_ok k ?q" using q(2) by simp
    then have "sqlite3RowSetTest malloc p b v n = Ok (v \<in> rowset_old ?q, ?q, m)" by (rule run) (simp add: batch q(1))
    moreover have "rowset_new q = {}" using q(3) by (simp add: rowset_new_def)
    ultimately show ?thesis using batch(1) q(2,4,5) by (intro exI [of _ ?q] exI [of _ m]) simp
  qed
qed

text \<open>A row set with the number of the next request to the allocator.\<close>

definition rowset_put :: "(nat \<Rightarrow> bool) \<Rightarrow> RowSet \<times> nat \<Rightarrow> int \<Rightarrow> (RowSet \<times> nat) res" where
  "rowset_put malloc s v = sqlite3RowSetInsert malloc (fst s) v (snd s)"

definition rowset_test :: "(nat \<Rightarrow> bool) \<Rightarrow> RowSet \<times> nat \<Rightarrow> int \<Rightarrow> int \<Rightarrow> (bool \<times> RowSet \<times> nat) res" where
  "rowset_test malloc s b v = sqlite3RowSetTest malloc (fst s) b v (snd s)"

interpretation row_set: batched_set "\<forall>m. malloc m" "\<lambda>k s. rowset_ok k (fst s)" "\<lambda>s. rowset_old (fst s)"
  "\<lambda>s. rowset_new (fst s)" "\<lambda>s. rs_iBatch (fst s)" "rowset_put malloc" "rowset_test malloc" for malloc :: "nat \<Rightarrow> bool"
proof
  fix k v and s :: "RowSet \<times> nat"
  assume "rowset_ok (Suc k) (fst s)"
  from rowset_insert_ok [OF this, of malloc v "snd s"]
  show "\<exists>s'. rowset_put malloc s v = Ok s' \<and> rowset_ok k (fst s') \<and> rs_iBatch (fst s') = rs_iBatch (fst s) \<and>
      rowset_old (fst s') = rowset_old (fst s) \<and> rowset_new (fst s') \<subseteq> insert v (rowset_new (fst s)) \<and>
      ((\<forall>m. malloc m) \<longrightarrow> rowset_new (fst s') = insert v (rowset_new (fst s)))"
    by (auto simp: rowset_put_def rowset_old_def rowset_new_def)
next
  fix k b v and s :: "RowSet \<times> nat"
  assume "rowset_ok k (fst s)"
  from rowset_test_ok [OF this, of malloc b v "snd s"]
  show "\<exists>s'. rowset_test malloc s b v = Ok (v \<in> rowset_old (fst s'), s') \<and> rowset_ok k (fst s') \<and> rs_iBatch (fst s') = b \<and>
      (if b = rs_iBatch (fst s) then rowset_old (fst s') = rowset_old (fst s) \<and> rowset_new (fst s') = rowset_new (fst s)
       else rowset_old (fst s') \<subseteq> rowset_old (fst s) \<union> rowset_new (fst s) \<and> rowset_new (fst s') = {} \<and>
         ((\<forall>m. malloc m) \<longrightarrow> rowset_old (fst s') = rowset_old (fst s) \<union> rowset_new (fst s)))"
    unfolding rowset_test_def by (metis fst_conv)
qed

lemma rowset_init_ok:
  assumes "sqlite3RowSetInit malloc N n = (Some p, n')" and "k < 2 ^ 40"
  shows "rowset_ok k p" "rowset_old p = {}" "rowset_new p = {}" "rs_iBatch p = 0" "rs_pForest p = []" "rs_pEntry p = []"
  using assms by (auto simp: sqlite3RowSetInit_def rowset_ok_def rowset_old_def rowset_new_def split: if_splits)

text \<open>
  C18: a sequence of insertions and tests on a new row set ends in its memory, for every allocator, and a test says
  only of a number that was inserted before the last change of the batch that it is there; when no
  allocation fails, the tests say so of all of them. A batch is sorted, merged with the trees of the
  forest up to the first free place and made a search tree there.
\<close>

theorem rowset_tests_see_batches:
  assumes "sqlite3RowSetInit malloc N n = (Some p, n')" and "added cs < 2 ^ 40"
  shows "\<exists>as. run_calls (rowset_put malloc) (rowset_test malloc) cs (p, n') = Ok as \<and>
    list_all2 (\<longrightarrow>) as (batch_answers cs {} {} 0) \<and> ((\<forall>m. malloc m) \<longrightarrow> as = batch_answers cs {} {} 0)"
  using row_set.run_calls_answers [of cs "(p, n')" "{}" "{}" malloc] rowset_init_ok [OF assms] by simp

theorem rowset_tests_see_batches_witness:
  "\<exists>p. sqlite3RowSetInit (\<lambda>_. True) 56 0 = (Some p, 1) \<and>
     run_calls (rowset_put (\<lambda>_. True)) (rowset_test (\<lambda>_. True))
       [Add_row 5, Add_row 3, Test_row 1 3, Add_row 4, Test_row 1 4, Test_row 2 4] (p, 1) = Ok [True, False, True]"
proof -
  obtain p where "sqlite3RowSetInit (\<lambda>_. True) 56 0 = (Some p, 1)" by (simp add: sqlite3RowSetInit_def)
  from this rowset_tests_see_batches [OF this, of "[Add_row 5, Add_row 3, Test_row 1 3, Add_row 4, Test_row 1 4, Test_row 2 4]"]
  show ?thesis by (intro exI [of _ p]) auto
qed

section \<open>Reading in order\<close>

primrec rowset_inserts :: "(nat \<Rightarrow> bool) \<Rightarrow> int list \<Rightarrow> RowSet \<times> nat \<Rightarrow> (RowSet \<times> nat) res" where
  "rowset_inserts malloc [] s = Ok s"
| "rowset_inserts malloc (v # vs) s = bind_res (rowset_put malloc s v) (rowset_inserts malloc vs)"

primrec rowset_nexts :: "nat \<Rightarrow> RowSet \<Rightarrow> int option list res" where
  "rowset_nexts 0 p = Ok []"
| "rowset_nexts (Suc k) p = bind_res (sqlite3RowSetNext p) (\<lambda>(r, p). map_res (Cons r) (rowset_nexts k p))"

lemma inserts_ok:
  assumes "rowset_ok (length vs) p"
  shows "\<exists>p' n'. rowset_inserts malloc vs (p, n) = Ok (p', n') \<and> rowset_ok 0 p' \<and> rs_pForest p' = rs_pForest p \<and>
    rowset_new p' \<subseteq> rowset_new p \<union> set vs \<and> ((\<forall>m. malloc m) \<longrightarrow> rowset_new p' = rowset_new p \<union> set vs)"
  using assms
proof (induction vs arbitrary: p n)
  case (Cons v vs)
  then have "rowset_ok (Suc (length vs)) p" by simp
  from rowset_insert_ok [OF this, of malloc v n] obtain q m where a: "sqlite3RowSetInsert malloc p v n = Ok (q, m)"
    "rowset_ok (length vs) q" "rs_pForest q = rs_pForest p" "rs_pEntry q \<in> {rs_pEntry p, rs_pEntry p @ [v]}"
    "(\<forall>m. malloc m) \<longrightarrow> rs_pEntry q = rs_pEntry p @ [v]" by blast
  have q: "rowset_put malloc (p, n) v = Ok (q, m)" "rowset_ok (length vs) q" "rs_pForest q = rs_pForest p"
    "rowset_new q \<subseteq> rowset_new p \<union> {v}" "(\<forall>m. malloc m) \<longrightarrow> rowset_new q = rowset_new p \<union> {v}"
    using a by (auto simp: rowset_put_def rowset_new_def)
  from Cons.IH [OF q(2), of m] obtain p' n' where "rowset_inserts malloc vs (q, m) = Ok (p', n')" "rowset_ok 0 p'"
    "rs_pForest p' = rs_pForest q" "rowset_new p' \<subseteq> rowset_new q \<union> set vs"
    "(\<forall>m. malloc m) \<longrightarrow> rowset_new p' = rowset_new q \<union> set vs" by blast
  then show ?case using q by (intro exI [of _ p'] exI [of _ n']) auto
qed simp

lemma nexts_sorted:
  assumes "rs_ROWSET_SORTED p" and "rs_pForest p = []"
  shows "rowset_nexts k p = Ok (take k (map Some (rs_pEntry p)) @ replicate (k - length (rs_pEntry p)) None)"
  using assms
proof (induction k arbitrary: p)
  case (Suc k)
  let ?q = "if rs_ROWSET_NEXT p then p else p\<lparr>rs_ROWSET_SORTED := True, rs_ROWSET_NEXT := True\<rparr>"
  have q: "(if rs_ROWSET_NEXT p then Ok p else rowset_first_next p) = Ok ?q" using Suc.prems(1) by (simp add: rowset_first_next_def)
  show ?case
  proof (cases "rs_pEntry p")
    case Nil
    then have "sqlite3RowSetNext p = Ok (None, ?q)" using q Suc.prems(2) by (simp add: sqlite3RowSetNext_def)
    then show ?thesis using Suc.IH [of ?q] Suc.prems Nil by simp
  next
    case (Cons v vs)
    let ?r = "if vs = [] then sqlite3RowSetClear (?q\<lparr>rs_pEntry := vs\<rparr>) else ?q\<lparr>rs_pEntry := vs\<rparr>"
    have "sqlite3RowSetNext p = Ok (Some v, ?r)" using q Suc.prems(2) Cons by (simp add: sqlite3RowSetNext_def)
    moreover have "rs_ROWSET_SORTED ?r" "rs_pForest ?r = []" "rs_pEntry ?r = vs"
      using Suc.prems by (simp_all add: sqlite3RowSetClear_def)
    ultimately show ?thesis using Suc.IH [of ?r] Cons by simp
  qed
qed simp

lemma nexts_ok:
  assumes "rowset_ok 0 p" and "rs_pForest p = []"
  shows "rowset_nexts k p =
    Ok (take k (map Some (sorted_list_of_set (rowset_new p))) @ replicate (k - card (rowset_new p)) None)"
proof -
  have p: "\<not> rs_ROWSET_NEXT p" "length (rs_pEntry p) < 2 ^ 40" "rs_ROWSET_SORTED p \<longrightarrow> increasing (rs_pEntry p)"
    using assms(1) by (auto simp: rowset_ok_def)
  have goal: ?thesis if "rowset_nexts k p = Ok (take k (map Some ys) @ replicate (k - length ys) None)" "lists_set ys (rowset_new p)" for ys
    using that(1) lists_set_unique [OF that(2)] length_sorted_list_of_set [of "rowset_new p"] by simp
  show ?thesis
  proof (cases "rs_ROWSET_SORTED p")
    case True
    then show ?thesis using goal nexts_sorted [OF True assms(2)] p(3) by (simp add: lists_set_def rowset_new_def)
  next
    case False
    obtain ys where ys: "rowSetEntrySort (rs_pEntry p) = Ok ys" "lists_set ys (rowset_new p)"
      using sort_ok [OF p(2)] by (auto simp: rowset_new_def)
    let ?q = "p\<lparr>rs_pEntry := ys, rs_ROWSET_SORTED := True, rs_ROWSET_NEXT := True\<rparr>"
    have "sqlite3RowSetNext p = sqlite3RowSetNext ?q"
      using False p(1) ys(1) by (simp add: sqlite3RowSetNext_def rowset_first_next_def)
    then have "rowset_nexts k p = rowset_nexts k ?q" by (cases k) simp_all
    then show ?thesis using goal ys(2) nexts_sorted [of ?q k] assms(2) by simp
  qed
qed

text \<open>
  C19: numbers inserted into a new row set in any order come out of it in ascending order and once each, and then
  every further call says that it is empty. For an allocator that fails, some of the numbers may be missing.
\<close>

theorem rowset_drains_sorted:
  assumes "sqlite3RowSetInit malloc N n = (Some p, n')" and "length vs < 2 ^ 40"
  shows "\<exists>p' n'' S. rowset_inserts malloc vs (p, n') = Ok (p', n'') \<and> S \<subseteq> set vs \<and> ((\<forall>m. malloc m) \<longrightarrow> S = set vs) \<and>
    (\<forall>k. rowset_nexts k p' = Ok (take k (map Some (sorted_list_of_set S)) @ replicate (k - card S) None))"
proof -
  note p = rowset_init_ok [OF assms]
  from inserts_ok [OF p(1), of malloc n'] obtain p' n'' where "rowset_inserts malloc vs (p, n') = Ok (p', n'')" "rowset_ok 0 p'"
    "rs_pForest p' = []" "rowset_new p' \<subseteq> set vs" "(\<forall>m. malloc m) \<longrightarrow> rowset_new p' = set vs" using p(3,5) by auto
  then show ?thesis using nexts_ok by (intro exI [of _ p'] exI [of _ n''] exI [of _ "rowset_new p'"]) simp
qed

theorem rowset_drains_sorted_witness:
  "\<exists>p p' n''. sqlite3RowSetInit (\<lambda>_. True) 128 0 = (Some p, 1) \<and> rowset_inserts (\<lambda>_. True) [30, 10, 20, 10] (p, 1) = Ok (p', n'') \<and>
     rowset_nexts 4 p' = Ok [Some 10, Some 20, Some 30, None]"
proof -
  obtain p where p: "sqlite3RowSetInit (\<lambda>_. True) 128 0 = (Some p, 1)" by (simp add: sqlite3RowSetInit_def)
  from rowset_drains_sorted [OF p, of "[30, 10, 20, 10]"] obtain p' n'' S where r:
    "rowset_inserts (\<lambda>_. True) [30, 10, 20, 10] (p, 1) = Ok (p', n'')" "S = set [30, 10, 20, 10]"
    "\<forall>k. rowset_nexts k p' = Ok (take k (map Some (sorted_list_of_set S)) @ replicate (k - card S) None)" by auto
  have "S = set [10, 20, 30]" using r(2) by auto
  then have "sorted_list_of_set S = [10, 20, 30]" "card S = 3" by simp_all
  then have "rowset_nexts 4 p' = Ok [Some 10, Some 20, Some 30, None]" using r(3) by simp
  then show ?thesis using p r(1) by auto
qed

end
