(* ===== verification/Spec2Isabelle.thy ===== *)
theory Spec2Isabelle
  imports LogFile Programs NetRepeater SqRun SqQuote SqVarint SqBlob SqHash SqMem SqComplete SqLike SqTyped SqBitvec SqRowset
begin

text \<open>
  SmartLift: a verification development.

  The program. Four servers and a watchdog let a tenant call a lift by voice. The voice
  platform posts each request to the HTTPS server of the main server
  (\<open>MainServer/Modules/HTTPSServer\<close>); its session finds the station in the tables and passes the
  request to a session of the worker server (\<open>MainServer/Modules/WorkerServer\<close>), whose peer is
  the voice worker (\<open>Worker/Modules/Worker/Worker.hpp\<close>). The voice worker answers with a text or
  with a lift command; a command goes through a second session of the worker server to the MQTT
  worker (\<open>MQTT_Worker\<close>), which publishes it to the lift's controller. All of them load their
  tables through the client in \<open>GlobalModules/ClientDB\<close> from the database server
  (\<open>DataBase/Modules/Server\<close>), which asks SQLite, whose sources the repository contains.

  Theories, in the order of the layers:
  \<open>Prelude\<close>: exceptions and undefined behaviour as results (\<open>Ok\<close>, \<open>Throw\<close>, \<open>Undef\<close>), vectors,
  strings, \<open>std::stoi\<close> and \<open>std::to_string\<close>.
  \<open>StdMap\<close>: \<open>std::map\<close> with string keys as a sorted association list; the locale \<open>dictionary\<close>.
  \<open>Json\<close>: JSON values and the messages of \<open>JSONFormatter\<close>; a second provider of the locale.
  \<open>Config\<close>, \<open>LogFile\<close>: \<open>GlobalModules/Config\<close> and \<open>GlobalModules/Log\<close> over a file system that is
  a map from paths to contents.
  \<open>Framing\<close>: the receive loop and the partial sends every session has.
  \<open>DataBaseServer\<close>, \<open>ClientDB\<close>: both ends of the database protocol.
  \<open>WorkerSession\<close>, \<open>MSWorker\<close>, \<open>MQTTWorker\<close>: both ends of the worker protocol, and the broker.
  \<open>HTTPSServer\<close>, \<open>MarusiaWorker\<close>: requests, routing, and the analysis of what was said.
  \<open>Programs\<close>: the configuration checks, the main server's tables, the watchdog.
  \<open>NetRepeater\<close>: the relay of \<open>MainServer/Modules/NetRepeater\<close>.
  The following theories model parts of the amalgamation in \<open>DataBase/Modules/Libraries/sqlite3.c\<close>,
  in the order from a text to its meaning.
  \<open>SqChars\<close>: the character tables of \<open>global.c\<close> and \<open>tokenize.c\<close>, entry by entry, and the classes
  read from them. \<open>SqKwTables\<close>, \<open>SqKeywords\<close>: the generated keyword hash and its lookup.
  \<open>SqTokenize\<close>, \<open>SqTokenSafe\<close>: \<open>sqlite3GetToken\<close>, one definition per character class with code of
  its own, and its safety on texts that a zero byte ends.
  \<open>SqTokens\<close>, \<open>SqTables\<close>, \<open>SqGrammar\<close>: the numbers of \<open>parse.h\<close>, the action tables of
  \<open>parse.c\<close> entry by entry (in pieces of a hundred), and the grammar.
  \<open>SqParser\<close>: the push-down automaton of \<open>sqlite3Parser\<close> over these tables.
  \<open>SqCert\<close>, \<open>SqEntries\<close>, \<open>SqChecks\<close>, \<open>SqSound\<close>: a certificate for the tables (for each state
  the rules it may be inside of, and ranks that bound the reductions), its check position by
  position, and what follows for the automaton. \<open>SqTyped\<close>: the types of the values on its stack.
  \<open>SqRun\<close>: \<open>sqlite3RunParser\<close>, which feeds the tokens of a text to the automaton, decides the
  keywords that depend on their context, and reports errors.
  \<open>SqComplete\<close>: \<open>sqlite3_complete\<close>, with a description of the complete texts without its states.
  \<open>SqLike\<close>: LIKE and GLOB, with the tokens of a pattern and the texts they match.
  \<open>SqQuote\<close>: the conversions \<open>%q\<close>, \<open>%Q\<close>, \<open>%w\<close> and \<open>sqlite3Dequote\<close>. \<open>SqBlob\<close>: blob literals.
  \<open>SqInteger\<close>, \<open>SqNumText\<close>, \<open>SqNumLit\<close>: checked 64-bit arithmetic, the decimal text of an integer
  in the three encodings, number literals. \<open>SqVarint\<close>: the variable-length integers of the file.
  \<open>SqUtf\<close>, \<open>SqMem\<close>: UTF-8 and UTF-16, and the value cell with its buffer as far as texts go.
  \<open>SqHash\<close>: the hash table of \<open>hash.c\<close> with its linked list in an explicit heap.
  \<open>SqBitvec\<close>: the bit vectors of \<open>bitvec.c\<close>, bitmap, hash table or tree; the locale \<open>bit_set\<close>.
  \<open>SqRowset\<close>: the row sets of \<open>rowset.c\<close>, sorted lists and search trees; the locale \<open>batched_set\<close>.
  This theory: properties that span components.

  Correspondence. Every class is a record with the class's fields that carry state; the sockets
  and timers it owns are counted (receives and sends outstanding, timers armed, handlers posted),
  and what a handler asks the outside for is appended to a list of actions. Every handler is one
  definition that takes the state and the event (error flag, bytes) and returns the new state,
  with every branch and early return of the code. A thrown exception that leaves the handler
  is \<open>Throw\<close>; an out-of-range \<open>[]\<close>, a string from a null pointer and the like are \<open>Undef\<close>. Loops
  that need not end are \<open>partial_function (option)\<close>: \<open>None\<close> is not returning. The events of a worker
  session are the step relation \<open>ws_step\<close>, with \<open>ws_reach\<close> for the reachable states. In the theories
  of SQLite a \<open>u8\<close>, \<open>u32\<close> or \<open>u64\<close> is a word, a text is the list of its bytes up to and with its zero
  byte, a read or write outside of a buffer or table is \<open>Undef\<close>, and a failed assertion is \<open>Undef\<close> too.

  Lemma groups. \<open>StdMap\<close> and \<open>Json\<close> show the laws of the dictionary; \<open>Framing\<close> that the receive
  loop does not depend on how the stream is cut; \<open>DataBaseServer\<close> what each handler answers and
  that the loop returns; \<open>ClientDB\<close> what a whole session loads; \<open>WorkerSession\<close> the invariants of
  sessions by rule induction through the locale \<open>watch_invariant\<close>; the others the functional
  behaviour of their operations on every branch, errors included. \<open>SqSound\<close> shows by an invariant of
  the stack that the automaton is total and accepts only what the grammar derives, and \<open>SqRun\<close> carries
  both to texts; \<open>SqTokenSafe\<close> shows which bytes the tokenizer looks at; \<open>SqVarint\<close>, \<open>SqNumText\<close>,
  \<open>SqBlob\<close>, \<open>SqQuote\<close> and \<open>SqUtf\<close> show round trips between values and their encodings, \<open>SqMem\<close> that a
  change of encoding keeps the text; \<open>SqHash\<close> refines the table to a map by an abstraction
  function and a heap invariant; \<open>SqBitvec\<close> the bit vectors to sets, through the laws of
  \<open>bit_set\<close>, and \<open>SqRowset\<close> the row sets to sets in batches, through those of \<open>batched_set\<close>; \<open>SqLike\<close>
  shows that the comparison with a pattern agrees with the plain definition of matching;
  \<open>SqComplete\<close> relates the table of states to its meaning.

  Bounds. The numbers of rounds (\<open>cdb_rounds\<close>, \<open>ws_kill_ticks\<close>) are exact: a client needs one
  round per table and two more, the kill timer one tick per dead session. The loops of the SQLite
  theories are recursive on the bytes that are left or on a counter of the code; the walks through
  the list of a hash table count down from the number of heap cells, which a list without a cycle
  cannot exceed; the loops of the parser and its driver are \<open>partial_function (option)\<close>, and \<open>SqSound\<close>
  proves from the ranks of the states, \<open>SqRun\<close> from the length of the text, that they return. The depth
  of a bit vector is bounded by \<open>set_depth\<close> (9: each of at most four divisions takes two steps). The 40
  buckets of the sort of a row set are enough for fewer than 2^40 insertions, which is a hypothesis.

  Parameters. Printing and parsing of JSON text (Boost.JSON), the SQL engine behind \<open>sqlite3_exec\<close>
  as the server sees it, the sockets and timers of Boost.Asio, HTTP and MQTT on the wire are not
  modelled; where a property needs their documented behaviour it is a named hypothesis, and the
  witness of the property shows an instance. The code of the grammar's rules (the code generator)
  is an argument of the automaton: the properties of the parser hold for every such code. Whether
  an allocation succeeds is an argument of the hash table, of the value cell, of the bit vectors and of the row sets.

  Not modelled: threads of the \<open>io_context\<close>, console output, the TLS certificate loader, and the
  superseded versions of the sources that stand inside comments. Of SQLite: the code generator behind
  the rules, the virtual machine, the storage layers (btree, pager, write-ahead log), the operating
  system interface and the mutexes, the conversions of floating-point numbers, the other conversions
  of \<open>printf\<close>, running out of memory outside of the four parts named above, numbers, aggregate
  contexts and destructors in a value cell, the variants that are not compiled by default
  (EBCDIC, \<open>sqlite3Normalize\<close>, tracing), the extensions, the shell and the headers. What they do
  for the servers is in the parameter that stands for \<open>sqlite3_exec\<close>; storage, files and shared
  memory of several threads are outside of what these definitions can state.
\<close>

section \<open>The database session, both ends\<close>

text \<open>
  The client of \<open>ClientDB\<close> against the handlers of \<open>DataBaseServer\<close>: each text the client
  sends is parsed, handled by the server's loop for the state it is in, and the text in the
  server's send buffer is parsed again.
\<close>

definition server_reply ::
  "sql_engine \<Rightarrow> (json \<Rightarrow> string) \<Rightarrow> 'p parser_ops \<Rightarrow> 'p \<Rightarrow> json \<Rightarrow> string" where
  "server_reply eng ser ops p0 v =
     (if json_at v ''target'' = Ok (JStr ''connect'')
      then db_buf_send (snd (db_auth_loop eng ser [v] (db_new p0)))
      else (case db_command_loop eng ser ops 0 1 ((db_new p0)\<lparr>db_queue := [v]\<rparr>) of
              Some (_, s) \<Rightarrow> db_buf_send s | None \<Rightarrow> []))"

definition select_text :: "string \<times> string list \<Rightarrow> string" where
  "select_text q = ''SELECT '' @ comma_separated (snd q) @ '' FROM '' @ fst q"

lemma db_loop_empty: "db_queue s = [] \<Longrightarrow> db_command_loop eng ser ops u n s = Some (Ok (), s)"
  by (subst db_command_loop.simps) simp

lemma server_reply_disconnect:
  "server_reply eng ser ops p0 (database_request_disconnect sender) = ser (database_response_disconnect db_name)"
proof -
  have t: "json_at (database_request_disconnect sender) ''target'' = Ok (JStr ''disconnect'')"
    by (simp add: message_defs)
  then show ?thesis
    by (simp add: server_reply_def, subst db_command_loop.simps)
      (simp add: db_checkCommand_def db_dispatch_def db_makeDisconnect_def db_loop_empty db_new_def Let_def)
qed

text \<open>The response of a query: exactly the requested columns, with the cells of the database.\<close>

definition answers_columns :: "sql_engine \<Rightarrow> string \<times> string list \<Rightarrow> string list smap \<Rightarrow> bool" where
  "answers_columns eng q r \<longleftrightarrow> smap_inv r \<and>
     (\<forall>f. smap_get r f = (if f \<in> set (snd q) then Some (column f (sql_rows eng (select_text q))) else None))"

lemma answers_columns_unique:
  "answers_columns eng q r \<Longrightarrow> answers_columns eng q r' \<Longrightarrow> r = r'"
  by (rule smap_ext) (auto simp: answers_columns_def)

lemma server_reply_query:
  assumes "sql_opens eng" and "sql_ok eng (select_text q)" and "no_nulls (sql_rows eng (select_text q))"
    and "set (snd q) \<subseteq> fst ` set (concat (sql_rows eng (select_text q)))"
  shows "\<exists>r. server_reply eng ser ops p0 (select_request sender q) = ser (database_response_query db_name SELECT r) \<and>
     answers_columns eng q r"
proof -
  let ?v = "select_request sender q"
  let ?s = "db_do [Temp_log 0 ''Make_query_response''] ((db_new p0)\<lparr>db_json := ?v, db_queue := []\<rparr>)"
  have t: "json_at ?v ''target'' = Ok (JStr ''db_query'')"
    by (simp add: select_request_def database_request_query_def)
  have "db_json ?s = database_request_query sender SELECT (snd q) (select_text q)"
    by (simp add: select_request_def select_text_def)
  from db_makeQuery_answers [OF assms this, of ser] obtain r s' where
    r: "db_makeQuery eng ser ?s = (Ok (), s')" "db_buf_send s' = ser (database_response_query db_name SELECT r)"
      "smap_inv r" "\<forall>f. smap_get r f =
        (if f \<in> set (snd q) then Some (column f (sql_rows eng (select_text q))) else None)" by blast
  have q: "db_queue s' = []" using db_makeQuery_keeps [OF r(1)] by simp
  have "db_command_loop eng ser ops 0 1 ((db_new p0)\<lparr>db_queue := [?v]\<rparr>) =
      db_command_loop eng ser ops 0 1 (db_do [Write_log 0 ''Send_response_command'', Temp_log 0 ''Send_response_command'',
         Send (db_buf_send s') H_sendCommand] (s'\<lparr>db_flag_send := True\<rparr>))"
    using t r(1) q by (subst db_command_loop.simps) (simp add: db_checkCommand_def db_dispatch_def Let_def)
  with q have "server_reply eng ser ops p0 ?v = db_buf_send s'"
    using t by (simp add: server_reply_def db_loop_empty)
  with r show ?thesis by (auto simp: answers_columns_def)
qed

lemma server_reply_connect:
  assumes "accounts_engine accounts eng" and "find_account accounts login = Some pass"
    and "ser (JStr login) = quoted login" and "ser (JStr pass) = quoted pass"
  shows "server_reply eng ser ops p0 (database_request_connect sender login pass) = ser (database_response_connect db_name)"
proof -
  let ?v = "database_request_connect sender login pass"
  have t: "json_at ?v ''target'' = Ok (JStr ''connect'')" by (simp add: message_defs)
  have c: "request_credentials ser ?v = Ok (quoted login, quoted pass)"
    using assms(3,4) by (simp add: request_credentials_def message_defs)
  have ne: "accounts \<noteq> []" using assms(2) by (auto simp: find_account_def)
  from password_matches_account [OF ne, of login pass] assms(1,2) show ?thesis
    by (simp add: server_reply_def t c db_checkConnect_def accounts_engine_def Let_def
        db_exec_rows_answer(1) [OF account_rows_no_nulls])
qed


text \<open>A database with one account and one table, and a printer whose texts tell the messages apart.\<close>

definition lift_engine :: sql_engine where
  "lift_engine = \<lparr>sql_opens = True,
     sql_rows = (\<lambda>q. if q = accounts_query then account_rows [(''root'', ''pw'')]
        else [[(''Id'', Some ''7'')], [(''Id'', Some ''8'')]]),
     sql_ok = (\<lambda>_. True)\<rparr>"

definition target_ser :: "json \<Rightarrow> string" where
  "target_ser v =
     (case v of
        JStr s \<Rightarrow> quoted s
      | JObj m \<Rightarrow> (case (map_of m ''target'', map_of m ''sender'') of
            (Some (JStr t), Some (JStr n)) \<Rightarrow> t @ n | _ \<Rightarrow> [])
      | _ \<Rightarrow> [])"

definition target_parse :: "string \<Rightarrow> json" where
  "target_parse text =
     (if text = ''connectW'' then database_request_connect ''W'' ''root'' ''pw''
      else if text = ''disconnectW'' then database_request_disconnect ''W''
      else if text = ''db_queryW'' then select_request ''W'' (''Lifts'', [''Id''])
      else if text = ''connect'' @ db_name then database_response_connect db_name
      else if text = ''disconnect'' @ db_name then database_response_disconnect db_name
      else database_response_query db_name SELECT [(''Id'', [''7'', ''8''])])"

lemma select_text_Lifts: "select_text (''Lifts'', [''Id'']) \<noteq> accounts_query"
  by (simp add: select_text_def accounts_query_def)

lemma lift_engine_rows:
  "sql_rows lift_engine (select_text (''Lifts'', [''Id''])) = [[(''Id'', Some ''7'')], [(''Id'', Some ''8'')]]"
  using select_text_Lifts by (simp add: lift_engine_def)

lemma lift_engine_facts:
  "accounts_engine [(''root'', ''pw'')] lift_engine" "sql_ok lift_engine t" "sql_opens lift_engine"
  by (simp_all add: accounts_engine_def lift_engine_def)

lemma target_ser_texts [simp]:
  "target_ser (JStr s) = quoted s"
  "target_ser (database_request_connect ''W'' l p) = ''connectW''"
  "target_ser (database_request_disconnect ''W'') = ''disconnectW''"
  "target_ser (select_request ''W'' q) = ''db_queryW''"
  "target_ser (database_response_connect db_name) = ''connectData_base''"
  "target_ser (database_response_disconnect db_name) = ''disconnectData_base''"
  "target_ser (database_response_query db_name SELECT r) = ''db_queryData_base''"
  by (simp_all add: target_ser_def message_defs db_name_def select_request_def database_request_query_def)

lemma target_parse_texts [simp]:
  "target_parse ''connectW'' = database_request_connect ''W'' ''root'' ''pw''"
  "target_parse ''disconnectW'' = database_request_disconnect ''W''"
  "target_parse ''db_queryW'' = select_request ''W'' (''Lifts'', [''Id''])"
  "target_parse ''connectData_base'' = database_response_connect db_name"
  "target_parse ''disconnectData_base'' = database_response_disconnect db_name"
  "target_parse ''db_queryData_base'' = database_response_query db_name SELECT [(''Id'', [''7'', ''8''])]"
  by (simp_all add: target_parse_def db_name_def)

lemma lift_engine_answer:
  assumes "answers_columns lift_engine (''Lifts'', [''Id'']) r" shows "r = [(''Id'', [''7'', ''8''])]"
  by (rule answers_columns_unique [OF assms]) (simp add: answers_columns_def lift_engine_rows column_def)

lemma all_lift_engine_answer:
  "\<forall>r. answers_columns lift_engine (''Lifts'', [''Id'']) r \<longrightarrow>
     database_response_query db_name SELECT [(''Id'', [''7'', ''8''])] = database_response_query db_name SELECT r"
  using lift_engine_answer by blast


section \<open>Keep-alive\<close>

text \<open>
  C13: one keep-alive round of a live session: on the tick the server sends its ping and arms
  the dead-ping timer; the MQTT worker answers each ping with one ping response; when the
  server reads that response, it disarms the dead-ping timer and arms the next tick, and the
  handler of the disarmed timer leaves the session as it is. The session stays live.
\<close>

theorem keep_alive_round:
  assumes "ws_live s" and "ws_queue s = []" and "ws_posted s = []" and "\<not> ws_dead_pending s"
    and "\<not> ws_ping_pending s" and "mw_queue w = []"
  shows "\<exists>s1 w' s2. s1 = ws_ping ser False s \<and> ws_buf_send s1 = ser (worker_request_ping (ws_sender s)) \<and>
     ws_dead_pending s1 \<and>
     mw_commandAnalize ser cb (w\<lparr>mw_queue := [worker_request_ping (ws_sender s)]\<rparr>) = Some (Ok (), w') \<and>
     mw_sends w' = mw_sends w @ [ser (worker_response_ping WORKER_NAME)] \<and>
     mqtt_commandAnalize ser cb_ok (s1\<lparr>ws_queue := [worker_response_ping WORKER_NAME]\<rparr>) = Some s2 \<and>
     ws_live s2 \<and> ws_ping_pending s2 \<and> \<not> ws_dead_pending s2 \<and> ws_posted s2 = [Dead_ping_timer] \<and>
     run_posted ser Dead_ping_timer s2 = s2"
proof -
  let ?s1 = "ws_ping ser False s"
  let ?w' = "mw_responsePing ser (w\<lparr>mw_queue := [worker_request_ping (ws_sender s)]\<rparr>)"
  let ?s2 = "ws_analizePing (?s1\<lparr>ws_queue := [worker_response_ping WORKER_NAME]\<rparr>)"
  have front: "mw_analize_front ser cb (w\<lparr>mw_queue := [worker_request_ping (ws_sender s)]\<rparr>) = (Ok (), ?w')"
    by (simp add: mw_analize_front_def worker_request_ping_def)
  have "mw_commandAnalize ser cb (w\<lparr>mw_queue := [worker_request_ping (ws_sender s)]\<rparr>) = Some (Ok (), ?w')"
    using front by (subst mw_commandAnalize.simps) (simp add: mw_responsePing_def mw_async_send_def mw_loop_empty)
  moreover have "mqtt_analize_front ser cb_ok (?s1\<lparr>ws_queue := [worker_response_ping WORKER_NAME]\<rparr>) = ?s2"
    by (simp add: mqtt_analize_front_def worker_response_ping_def)
  then have "mqtt_commandAnalize ser cb_ok (?s1\<lparr>ws_queue := [worker_response_ping WORKER_NAME]\<rparr>) = Some ?s2"
    by (subst mqtt_commandAnalize.simps, simp, subst mqtt_commandAnalize.simps, simp)
  ultimately show ?thesis
    using assms by (intro exI [of _ ?s1] exI [of _ ?w'] exI [of _ ?s2])
      (simp add: ws_ping_def ws_analizePing_def worker_response_ping_def ws_defs mw_responsePing_def
        mw_async_send_def run_posted_def ws_deadPing_def)
qed

theorem keep_alive_round_witness:
  "\<exists>s2. mqtt_commandAnalize (\<lambda>_. ''x'') (\<lambda>_ _. True)
      ((ws_ping (\<lambda>_. ''x'') False ((ws_new ''Main_server'' [] ())\<lparr>ws_live := True\<rparr>))
         \<lparr>ws_queue := [worker_response_ping WORKER_NAME]\<rparr>) = Some s2 \<and> ws_live s2 \<and> ws_ping_pending s2"
  using keep_alive_round [where s = "(ws_new ''Main_server'' [] ())\<lparr>ws_live := True\<rparr>" and
      ser = "\<lambda>_. ''x''" and cb_ok = "\<lambda>_ _. True" and w = "mw_new ''1'' () ()" and cb = "\<lambda>_ _ _ s. (Ok (), s)"]
  by (auto simp: ws_new_def mw_new_def)

section \<open>A spoken lift command, end to end\<close>

text \<open>
  C2: a lift command of the voice worker crosses three programs and comes back as speech: the
  HTTP session turns it into a command for the selected MQTT session, with the same station,
  lift and floor; the message this session sends makes the MQTT worker publish exactly one
  message, on the topic of the lift's controller and with that floor, over the controller's
  connection; the worker's answer is delivered to the callback of the request, and that
  callback answers the pending HTTP request with status 200 and the success text.
\<close>

theorem spoken_command_round_trip:
  assumes "hs_pos_lu h < length (he_mqtt_ids E)" and "int_min \<le> floor" "floor \<le> int_max"
    and "CHR 0x00 \<notin> set station" and "CHR 0x00 \<notin> set lb"
    and "session_echo (hs_body_request h) = Ok echo"
    and "ws_live s" and "mw_queue w = []" and "smap_get (mw_lu_id_descriptor w) lb = Some (quoted d)"
    and "length d + 2 < SIZE_MOD" and "br_named (mw_env w) d = Some con"
    and "cb_ok (Some c) (worker_response_mqtt_lift_move WORKER_NAME station Status_success [])"
  shows "\<exists>s1 w' s2 h'.
     hs_callbackWorkerMarussia ser E (worker_response_mqtt_message marusia station body lb floor) h =
       (Ok (), hs_do [Mqtt_command (hs_pos_lu h) station lb floor] h) \<and>
     s1 = mqtt_startCommand ser True station lb floor c s \<and>
     ws_buf_send s1 = ser (worker_request_mqtt_move (ws_sender s) station lb floor) \<and>
     mw_commandAnalize ser (mq_moveLift ser)
       (w\<lparr>mw_queue := [worker_request_mqtt_move (ws_sender s) station lb floor]\<rparr>) = Some (Ok (), w') \<and>
     br_acts (mw_env w') = br_acts (mw_env w) @ [Publish con (lift_topic d) (lift_payload (to_string floor))] \<and>
     mw_sends w' = mw_sends w @ [ser (worker_response_mqtt_lift_move WORKER_NAME station Status_success [])] \<and>
     mqtt_commandAnalize ser cb_ok
       (s1\<lparr>ws_queue := [worker_response_mqtt_lift_move WORKER_NAME station Status_success []]\<rparr>) = Some s2 \<and>
     ws_out s2 = ws_out s @ [(Some c, worker_response_mqtt_lift_move WORKER_NAME station Status_success [])] \<and>
     hs_callbackWorkerMQTT ser (worker_response_mqtt_lift_move WORKER_NAME station Status_success []) h = (Ok (), h') \<and>
     hs_acts h' = hs_acts h @ [Respond 200 (ser (JObj
        (jobj_put ''version'' (JStr ''1.0'') (jobj_put ''session'' echo (jobj_put ''response''
           (JObj (text_answer anything_else_text False)) (hs_body_response h)))))) (hs_keep_alive h)]"
proof -
  let ?move = "worker_request_mqtt_move (ws_sender s) station lb floor"
  let ?ans = "worker_response_mqtt_lift_move WORKER_NAME station Status_success []"
  let ?s1 = "mqtt_startCommand ser True station lb floor c s"
  let ?s2 = "ws_deliver cb_ok (?s1\<lparr>ws_queue := [?ans]\<rparr>)"
  have floor: "stoi (c_str (to_string floor)) = Ok floor"
    using assms(2,3) to_string_no_nul [of floor] by (simp add: c_str_id stoi_to_string)
  have first: "hs_callbackWorkerMarussia ser E (worker_response_mqtt_message marusia station body lb floor) h =
       (Ok (), hs_do [Mqtt_command (hs_pos_lu h) station lb floor] h)"
    using assms(1) floor by (auto simp: hs_callbackWorkerMarussia_def analize_marusia_def marusia_target_def
        worker_response_mqtt_message_def vec_at_def Let_def)
  obtain w' where publish: "mw_commandAnalize ser (mq_moveLift ser) (w\<lparr>mw_queue := [?move]\<rparr>) = Some (Ok (), w')"
    "br_acts (mw_env w') = br_acts (mw_env w) @ [Publish con (lift_topic d) (lift_payload (to_string floor))]"
    "mw_sends w' = mw_sends w @ [ser ?ans]"
    using mw_move_publishes [of "w\<lparr>mw_queue := [?move]\<rparr>" "ws_sender s" station lb floor d ser] assms by auto
  have "mqtt_analize_front ser cb_ok (?s1\<lparr>ws_queue := [?ans]\<rparr>) = ?s2"
    by (simp add: mqtt_analize_front_def worker_response_mqtt_lift_move_def)
  moreover have "ws_queue ?s2 = []" "ws_out ?s2 = ws_out s @ [(Some c, ?ans)]"
    using assms(7,12) by (simp_all add: ws_deliver_def mqtt_startCommand_def ws_async_send_def)
  ultimately have answered: "mqtt_commandAnalize ser cb_ok (?s1\<lparr>ws_queue := [?ans]\<rparr>) = Some ?s2"
    "ws_out ?s2 = ws_out s @ [(Some c, ?ans)]"
    by - (subst mqtt_commandAnalize.simps, simp, subst mqtt_commandAnalize.simps, simp)
  have "mqtt_answer ?ans = text_answer anything_else_text False"
    by (simp add: mqtt_answer_def worker_response_mqtt_lift_move_def)
  then have "\<exists>h'. hs_callbackWorkerMQTT ser ?ans h = (Ok (), h') \<and>
     hs_acts h' = hs_acts h @ [Respond 200 (ser (JObj
        (jobj_put ''version'' (JStr ''1.0'') (jobj_put ''session'' echo (jobj_put ''response''
           (JObj (text_answer anything_else_text False)) (hs_body_response h)))))) (hs_keep_alive h)]"
    using assms(6) by (simp add: hs_callbackWorkerMQTT_def hs_constructResponse_def Let_def hs_do_def clear_req_def)
  with first publish answered assms(7) show ?thesis
    by (intro exI [of _ ?s1] exI [of _ w'] exI [of _ ?s2])
      (simp add: mqtt_startCommand_def ws_async_send_def)
qed

theorem spoken_command_round_trip_witness:
  "\<exists>h'. hs_callbackWorkerMQTT (\<lambda>_. ''x'') (worker_response_mqtt_lift_move WORKER_NAME ''st'' Status_success [])
       (hs_new\<lparr>hs_body_request := sample_request ''a1''\<rparr>) = (Ok (), h') \<and> hs_acts h' = [Respond 200 ''x'' True] \<and>
     (\<exists>w'. mw_commandAnalize (\<lambda>_. ''x'') (mq_moveLift (\<lambda>_. ''x''))
         ((mw_new ''1'' () sample_broker)\<lparr>mw_lu_id_descriptor := [(''77'', quoted ''127'')],
            mw_queue := [worker_request_mqtt_move ''Main_server'' ''st'' ''77'' 5]\<rparr>) = Some (Ok (), w') \<and>
       br_acts (mw_env w') = [Publish 2 ''LU127/set/cmd'' (lift_payload (to_string 5))])"
proof -
  let ?w = "(mw_new ''1'' () sample_broker)\<lparr>mw_lu_id_descriptor := [(''77'', quoted ''127'')]\<rparr>"
  let ?s = "(ws_new ''Main_server'' [] ())\<lparr>ws_live := True\<rparr>"
  have "br_named (mw_env ?w) ''127'' = Some 2"
    by (simp add: br_named_def mw_new_def sample_broker_def br_new_def bs_new_def)
  note named = this
  show ?thesis
    using spoken_command_round_trip [where h = "hs_new\<lparr>hs_body_request := sample_request ''a1''\<rparr>" and
        E = "table_env [] [] [] [''\"1\"'']" and floor = 5 and station = "''st''" and lb = "''77''" and
        echo = "JObj [(''session_id'', JStr ''s1''), (''user_id'', JStr ''a1''), (''message_id'', JInt 4)]" and
        s = ?s and w = ?w and d = "''127''" and con = 2 and c = 0 and cb_ok = "\<lambda>_ _. True" and
        ser = "\<lambda>_. ''x''" and marusia = "''Worker_marussia''" and body = JNull, OF _ _ _ _ _ _ _ _ _ _ named]
    by (auto simp: hs_new_def table_env_def int_min_def int_max_def session_echo_def sample_request_def as_int64_def
        ws_new_def mw_new_def sample_broker_def br_new_def lift_topic_def SIZE_MOD_def)
qed

end
